(* ===== verification/CS_Prelude.thy ===== *)
theory CS_Prelude
  imports Main "HOL-Library.Multiset" "HOL-Library.Char_ord" "HOL-Library.List_Lexorder"
begin

text \<open>
  The shared prelude of the development: Go's machine integers, times and durations, Go's
  three-way comparators and the sort they drive, and the generic list facts the components use.

  \<^item> A \<^verbatim>\<open>time.Time\<close> is the number of nanoseconds since the Unix epoch (an \<open>int\<close>); the zero
    time of Go (1 January of year 1) is the constant \<open>time_zero\<close>. A \<^verbatim>\<open>time.Duration\<close> is a number of
    nanoseconds; \<open>time_Sub\<close> saturates at the bounds of \<^verbatim>\<open>int64\<close>, as \<^verbatim>\<open>Time.Sub\<close> does.
  \<^item> \<^verbatim>\<open>slices.SortFunc\<close> is \<open>sort_cmp\<close>, an insertion sort. The locale \<open>cmp_order\<close> states what a
    comparator owes the sort and shows that any other sorting algorithm gives the same list
    wherever the comparator tells the elements apart, so the choice of algorithm is immaterial.
\<close>

named_theorems go_time_defs \<open>definitions of the time and duration arithmetic\<close>

named_theorems cmp_intros \<open>comparators that are weak orders\<close>

type_synonym gotime = int

type_synonym duration = int

type_synonym ('e, 'a) result = "'e + 'a"

subsection \<open>Definitions: integers, time and durations\<close>

definition max_int64 :: int where
  "max_int64 = 9223372036854775807"

definition min_int64 :: int where
  "min_int64 = -9223372036854775808"

definition wrap64 :: "int \<Rightarrow> int" where
  "wrap64 x = (x + 9223372036854775808) mod 18446744073709551616 - 9223372036854775808"

definition second :: duration where
  "second = 1000000000"

definition minute :: duration where
  "minute = 60 * second"

definition hour :: duration where
  "hour = 60 * minute"

definition time_zero :: gotime where
  "time_zero = -62135596800 * second"

definition IsZero :: "gotime \<Rightarrow> bool" where
  "IsZero t = (t = time_zero)"

definition unix :: "gotime \<Rightarrow> int" where
  "unix t = t div second"

definition time_Unix :: "int \<Rightarrow> gotime" where
  "time_Unix s = s * second"

definition time_Sub :: "gotime \<Rightarrow> gotime \<Rightarrow> duration" where
  "time_Sub a b = (if a - b > max_int64 then max_int64 else if a - b < min_int64 then min_int64 else a - b)"

lemmas [go_time_defs] = max_int64_def min_int64_def second_def minute_def hour_def
  time_zero_def IsZero_def unix_def time_Unix_def time_Sub_def wrap64_def

subsection \<open>Definitions: comparators and sorting\<close>

definition cmp_Compare :: "'a::linorder \<Rightarrow> 'a \<Rightarrow> int" where
  "cmp_Compare x y = (if x < y then -1 else if y < x then 1 else 0)"

definition cmp_then :: "int \<Rightarrow> int \<Rightarrow> int" where
  "cmp_then a b = (if a \<noteq> 0 then a else b)"

fun insert_cmp :: "('a \<Rightarrow> 'a \<Rightarrow> int) \<Rightarrow> 'a \<Rightarrow> 'a list \<Rightarrow> 'a list" where
  "insert_cmp cmp x [] = [x]"
| "insert_cmp cmp x (y # ys) = (if cmp x y \<le> 0 then x # y # ys else y # insert_cmp cmp x ys)"

fun sort_cmp :: "('a \<Rightarrow> 'a \<Rightarrow> int) \<Rightarrow> 'a list \<Rightarrow> 'a list" where
  "sort_cmp cmp [] = []"
| "sort_cmp cmp (x # xs) = insert_cmp cmp x (sort_cmp cmp xs)"

abbreviation sorted_by :: "('a \<Rightarrow> 'a \<Rightarrow> int) \<Rightarrow> 'a list \<Rightarrow> bool" where
  "sorted_by cmp \<equiv> sorted_wrt (\<lambda>x y. cmp x y \<le> 0)"

lemma replicate_numeral: "replicate (numeral k) x = x # replicate (pred_numeral k) x"
  by (simp add: numeral_eq_Suc)

subsection \<open>Facts on integers and time\<close>

lemma unix_time_Unix [simp]: "unix (time_Unix s) = s"
  by (simp add: unix_def time_Unix_def second_def)

lemma time_Unix_unix_le: "time_Unix (unix t) \<le> t"
  by (simp add: unix_def time_Unix_def second_def)

lemma unix_mono: "s \<le> t \<Longrightarrow> unix s \<le> unix t"
  by (simp add: unix_def second_def zdiv_mono1)

lemma wrap64_id: "min_int64 \<le> x \<Longrightarrow> x \<le> max_int64 \<Longrightarrow> wrap64 x = x"
  by (simp add: wrap64_def min_int64_def max_int64_def)

lemma wrap64_bounds: "min_int64 \<le> wrap64 x \<and> wrap64 x \<le> max_int64"
proof -
  have "0 \<le> (x + 9223372036854775808) mod 18446744073709551616"
    and "(x + 9223372036854775808) mod 18446744073709551616 < 18446744073709551616"
    by simp_all
  then show ?thesis
    by (simp add: wrap64_def min_int64_def max_int64_def)
qed

lemma time_Sub_le_iff:
  "d < max_int64 \<Longrightarrow> min_int64 \<le> d \<Longrightarrow> time_Sub a b \<le> d \<longleftrightarrow> a - b \<le> d"
  by (auto simp: time_Sub_def max_int64_def min_int64_def)

lemma time_Sub_less_iff:
  "d \<le> max_int64 \<Longrightarrow> min_int64 < d \<Longrightarrow> time_Sub a b < d \<longleftrightarrow> a - b < d"
  by (auto simp: time_Sub_def max_int64_def min_int64_def)

lemma time_Sub_bounds: "min_int64 \<le> time_Sub a b \<and> time_Sub a b \<le> max_int64"
  by (auto simp: time_Sub_def max_int64_def min_int64_def)

subsection \<open>Facts on comparators and sorting\<close>

lemma cmp_Compare_simps [simp]:
  "cmp_Compare x x = 0"
  "(cmp_Compare x y = 0) = (x = y)"
  "(cmp_Compare x y < 0) = (x < y)"
  "(0 < cmp_Compare x y) = (y < x)"
  "(cmp_Compare x y \<le> 0) = (x \<le> y)"
  by (auto simp: cmp_Compare_def)

lemma mset_insert_cmp [simp]: "mset (insert_cmp cmp x ys) = add_mset x (mset ys)"
  by (induction ys) auto

lemma mset_sort_cmp [simp]: "mset (sort_cmp cmp xs) = mset xs"
  by (induction xs) auto

lemma set_sort_cmp [simp]: "set (sort_cmp cmp xs) = set xs"
  by (metis mset_sort_cmp set_mset_mset)

lemma set_insert_cmp [simp]: "set (insert_cmp cmp x ys) = insert x (set ys)"
  by (induction ys) auto

lemma length_sort_cmp [simp]: "length (sort_cmp cmp xs) = length xs"
  by (metis mset_sort_cmp size_mset)

lemma sort_cmp_eq_Nil [simp]: "(sort_cmp cmp xs = []) = (xs = [])"
  by (metis length_0_conv length_sort_cmp)

lemma distinct_sort_cmp [simp]: "distinct (sort_cmp cmp xs) = distinct xs"
  by (metis mset_sort_cmp mset_eq_imp_distinct_iff)

lemma distinct_map_sort_cmp [simp]: "distinct (map f (sort_cmp cmp xs)) = distinct (map f xs)"
  by (metis mset_map mset_sort_cmp mset_eq_imp_distinct_iff)

locale cmp_order =
  fixes cmp :: "'a \<Rightarrow> 'a \<Rightarrow> int"
  assumes swap: "cmp x y < 0 \<longleftrightarrow> 0 < cmp y x"
    and trans_le: "cmp x y \<le> 0 \<Longrightarrow> cmp y z \<le> 0 \<Longrightarrow> cmp x z \<le> 0"
begin

lemma total_le: "cmp x y \<le> 0 \<or> cmp y x \<le> 0"
  using swap [of x y] swap [of y x] by linarith

lemma refl_zero: "cmp x x = 0"
  using swap [of x x] by linarith

lemma zero_swap: "cmp x y = 0 \<longleftrightarrow> cmp y x = 0"
  using swap [of x y] swap [of y x] by linarith

lemma sorted_insert_cmp: "sorted_by cmp ys \<Longrightarrow> sorted_by cmp (insert_cmp cmp x ys)"
proof (induction ys)
  case Nil
  then show ?case by simp
next
  case (Cons y ys)
  show ?case
  proof (cases "cmp x y \<le> 0")
    case True
    with Cons.prems show ?thesis by (auto intro: trans_le)
  next
    case False
    with total_le have "cmp y x \<le> 0" by blast
    with False Cons show ?thesis by auto
  qed
qed

lemma sorted_sort_cmp: "sorted_by cmp (sort_cmp cmp xs)"
  by (induction xs) (auto intro: sorted_insert_cmp)

text \<open>Two sorted arrangements of the same elements agree when no two different elements tie.\<close>

lemma sorted_unique:
  assumes "sorted_by cmp xs" and "sorted_by cmp ys" and "mset xs = mset ys"
    and "\<And>x y. x \<in> set xs \<Longrightarrow> y \<in> set xs \<Longrightarrow> cmp x y = 0 \<Longrightarrow> x = y"
  shows "xs = ys"
  using assms
proof (induction xs arbitrary: ys)
  case Nil
  then show ?case by simp
next
  case (Cons x xs)
  then obtain y zs where ys: "ys = y # zs" by (cases ys) auto
  have "x \<in> set ys" and "y \<in> set (x # xs)"
    using Cons.prems(3) ys by (metis list.set_intros(1) set_mset_mset)+
  then have "cmp y x \<le> 0" and "cmp x y \<le> 0"
    using Cons.prems(1,2) ys refl_zero [of x] refl_zero [of y] by auto
  then have "cmp x y = 0" using swap [of x y] swap [of y x] by linarith
  with Cons.prems(4) \<open>y \<in> set (x # xs)\<close> have "x = y" by simp
  moreover have "xs = zs"
    by (rule Cons.IH) (use Cons.prems ys \<open>x = y\<close> in auto)
  ultimately show ?case using ys by simp
qed

lemma sort_cmp_unique:
  assumes "sorted_by cmp ys" and "mset ys = mset xs"
    and "\<And>x y. x \<in> set xs \<Longrightarrow> y \<in> set xs \<Longrightarrow> cmp x y = 0 \<Longrightarrow> x = y"
  shows "sort_cmp cmp xs = ys"
  by (rule sorted_unique) (use assms sorted_sort_cmp in auto)

lemma sort_cmp_perm:
  assumes "mset xs = mset ys"
    and "\<And>x y. x \<in> set xs \<Longrightarrow> y \<in> set xs \<Longrightarrow> cmp x y = 0 \<Longrightarrow> x = y"
  shows "sort_cmp cmp xs = sort_cmp cmp ys"
  by (rule sorted_unique) (use assms sorted_sort_cmp in auto)

end

lemma cmp_order_key [cmp_intros]: "cmp_order (\<lambda>x y. cmp_Compare (key x) (key y))"
  by unfold_locales auto

lemma cmp_order_then [cmp_intros]:
  assumes "cmp_order f" and "cmp_order g"
  shows "cmp_order (\<lambda>x y. cmp_then (f x y) (g x y))"
proof
  fix x y
  show "cmp_then (f x y) (g x y) < 0 \<longleftrightarrow> 0 < cmp_then (f y x) (g y x)"
    using cmp_order.swap [OF assms(1)] cmp_order.swap [OF assms(2)]
      cmp_order.zero_swap [OF assms(1)]
    by (simp add: cmp_then_def)
next
  fix x y z
  assume xy: "cmp_then (f x y) (g x y) \<le> 0" and yz: "cmp_then (f y z) (g y z) \<le> 0"
  have fxy: "f x y \<le> 0" and fyz: "f y z \<le> 0"
    using xy yz by (auto simp: cmp_then_def split: if_splits)
  then have fxz: "f x z \<le> 0" by (rule cmp_order.trans_le [OF assms(1)])
  show "cmp_then (f x z) (g x z) \<le> 0"
  proof (cases "f x z = 0")
    case False
    with fxz show ?thesis by (simp add: cmp_then_def)
  next
    case True
    then have fzx: "f z x \<le> 0"
      using cmp_order.zero_swap [OF assms(1)] by (metis order_refl)
    have "f x y = 0" and "f y z = 0"
      using fxy fyz fzx cmp_order.trans_le [OF assms(1), of y z x]
        cmp_order.trans_le [OF assms(1), of z x y] cmp_order.swap [OF assms(1)]
      by (metis linorder_not_le order_le_less)+
    with xy yz have "g x y \<le> 0" and "g y z \<le> 0" by (simp_all add: cmp_then_def)
    then have "g x z \<le> 0" by (rule cmp_order.trans_le [OF assms(2)])
    with True show ?thesis by (simp add: cmp_then_def)
  qed
qed

end
