(* ===== verification/Go_Strings.thy ===== *)
theory Go_Strings
  imports CS_Prelude
begin

text \<open>
  Go strings as lists of bytes (\<open>string\<close>), and the functions of the packages \<^verbatim>\<open>strings\<close>,
  \<^verbatim>\<open>strconv\<close>, \<^verbatim>\<open>unicode/utf8\<close> and \<^verbatim>\<open>encoding/hex\<close> that the program calls. White space and control
  characters are those of Unicode, recognised on their UTF-8 encodings. Everything here models
  the language's standard library; no line of the repository is mapped to this theory.
\<close>

subsection \<open>Definitions: bytes and classes of characters\<close>

definition byte :: "nat \<Rightarrow> char" where
  "byte n = char_of n"

definition code :: "char \<Rightarrow> nat" where
  "code c = of_char c"

definition is_digit :: "char \<Rightarrow> bool" where
  "is_digit c = (48 \<le> code c \<and> code c \<le> 57)"

definition is_lower :: "char \<Rightarrow> bool" where
  "is_lower c = (97 \<le> code c \<and> code c \<le> 122)"

definition is_upper :: "char \<Rightarrow> bool" where
  "is_upper c = (65 \<le> code c \<and> code c \<le> 90)"

definition digit_val :: "char \<Rightarrow> nat" where
  "digit_val c = code c - 48"

text \<open>The value of a hexadecimal digit, lower or upper case.\<close>

definition hex_val :: "char \<Rightarrow> nat option" where
  "hex_val c =
     (if is_digit c then Some (code c - 48)
      else if 97 \<le> code c \<and> code c \<le> 102 then Some (code c - 87)
      else if 65 \<le> code c \<and> code c \<le> 70 then Some (code c - 55)
      else None)"

text \<open>The byte length of the white space rune a string starts with, 0 when there is none.\<close>

fun space_len :: "nat list \<Rightarrow> nat" where
  "space_len (a # s) =
     (if (9 \<le> a \<and> a \<le> 13) \<or> a = 32 then 1
      else case s of
        [] \<Rightarrow> 0
      | b # t \<Rightarrow>
          if a = 194 \<and> (b = 133 \<or> b = 160) then 2
          else case t of
            [] \<Rightarrow> 0
          | c # _ \<Rightarrow>
              if a = 225 \<and> b = 154 \<and> c = 128 then 3
              else if a = 226 \<and> b = 128 \<and> ((128 \<le> c \<and> c \<le> 138) \<or> c = 168 \<or> c = 169 \<or> c = 175) then 3
              else if a = 226 \<and> b = 129 \<and> c = 159 then 3
              else if a = 227 \<and> b = 128 \<and> c = 128 then 3
              else 0)"
| "space_len [] = 0"

text \<open>The same for the rune a string ends with; the argument is the reversed string.\<close>

fun space_len_rev :: "nat list \<Rightarrow> nat" where
  "space_len_rev (c # s) =
     (if (9 \<le> c \<and> c \<le> 13) \<or> c = 32 then 1
      else case s of
        [] \<Rightarrow> 0
      | b # t \<Rightarrow>
          if b = 194 \<and> (c = 133 \<or> c = 160) then 2
          else case t of
            [] \<Rightarrow> 0
          | a # _ \<Rightarrow> if space_len [a, b, c] = 3 then 3 else 0)"
| "space_len_rev [] = 0"

function trim_left :: "string \<Rightarrow> string" where
  "trim_left s = (let n = space_len (map code s) in if n = 0 then s else trim_left (drop n s))"
  by pat_completeness auto
termination
proof (relation "measure length", goal_cases)
  case (2 s n)
  then show ?case by (cases s) auto
qed simp

function trim_left_rev :: "string \<Rightarrow> string" where
  "trim_left_rev s = (let n = space_len_rev (map code s) in if n = 0 then s else trim_left_rev (drop n s))"
  by pat_completeness auto
termination
proof (relation "measure length", goal_cases)
  case (2 s n)
  then show ?case by (cases s) auto
qed simp

definition TrimSpace :: "string \<Rightarrow> string" where
  "TrimSpace s = rev (trim_left_rev (rev (trim_left s)))"

text \<open>\<^verbatim>\<open>strings.Fields\<close>: the maximal runs of non-space bytes.\<close>

function fields_from :: "string \<Rightarrow> string \<Rightarrow> string list" where
  "fields_from cur [] = (if cur = [] then [] else [rev cur])"
| "fields_from cur (c # s) =
     (let n = space_len (map code (c # s)) in
      if n = 0 then fields_from (c # cur) s
      else (if cur = [] then [] else [rev cur]) @ fields_from [] (drop n (c # s)))"
  by pat_completeness auto
termination
  by (relation "measure (\<lambda>(cur, s). length s)") auto

definition Fields :: "string \<Rightarrow> string list" where
  "Fields s = fields_from [] s"

text \<open>Whether a string holds a control character (\<^verbatim>\<open>unicode.IsControl\<close>): U+0000 to U+001F,
  U+007F, or U+0080 to U+009F, which UTF-8 writes as byte 194 and a byte from 128 to 159.\<close>

fun has_control :: "string \<Rightarrow> bool" where
  "has_control [] = False"
| "has_control (c # s) =
     (code c < 32 \<or> code c = 127 \<or>
      (code c = 194 \<and> (case s of [] \<Rightarrow> False | d # _ \<Rightarrow> 128 \<le> code d \<and> code d \<le> 159)) \<or>
      has_control s)"

text \<open>\<^verbatim>\<open>strings.ContainsAny\<close>: the characters carriage return, line feed and NUL, in this program.\<close>

definition has_crlfnul :: "string \<Rightarrow> bool" where
  "has_crlfnul s = (\<exists>c \<in> set s. code c = 13 \<or> code c = 10 \<or> code c = 0)"

definition Contains_byte :: "string \<Rightarrow> char \<Rightarrow> bool" where
  "Contains_byte s c = (c \<in> set s)"

text \<open>The text before and after the last occurrence of a byte (\<^verbatim>\<open>strings.LastIndexByte\<close>).\<close>

definition split_last :: "char \<Rightarrow> string \<Rightarrow> (string \<times> string) option" where
  "split_last c s =
     (if c \<in> set s
      then Some (rev (tl (dropWhile (\<lambda>d. d \<noteq> c) (rev s))), rev (takeWhile (\<lambda>d. d \<noteq> c) (rev s)))
      else None)"

definition split_first :: "char \<Rightarrow> string \<Rightarrow> (string \<times> string) option" where
  "split_first c s =
     (if c \<in> set s then Some (takeWhile (\<lambda>d. d \<noteq> c) s, tl (dropWhile (\<lambda>d. d \<noteq> c) s)) else None)"

fun has_prefix :: "string \<Rightarrow> string \<Rightarrow> bool" where
  "has_prefix s [] = True"
| "has_prefix [] (p # ps) = False"
| "has_prefix (c # s) (p # ps) = (c = p \<and> has_prefix s ps)"

definition TrimPrefix :: "string \<Rightarrow> string \<Rightarrow> string" where
  "TrimPrefix s p = (if has_prefix s p then drop (length p) s else s)"

subsection \<open>Definitions: numbers as text\<close>

fun itoa :: "nat \<Rightarrow> string" where
  "itoa n = (if n < 10 then [byte (48 + n)] else itoa (n div 10) @ [byte (48 + n mod 10)])"

declare itoa.simps [simp del]

definition hex_digit :: "nat \<Rightarrow> char" where
  "hex_digit d = (if d < 10 then byte (48 + d) else byte (87 + d))"

fun to_hex :: "nat \<Rightarrow> string" where
  "to_hex n = (if n < 16 then [hex_digit n] else to_hex (n div 16) @ [hex_digit (n mod 16)])"

declare to_hex.simps [simp del]

text \<open>Decimal digits only: the value they denote.\<close>

fun dec_acc :: "nat \<Rightarrow> string \<Rightarrow> nat option" where
  "dec_acc v [] = Some v"
| "dec_acc v (c # s) = (if is_digit c then dec_acc (v * 10 + digit_val c) s else None)"

text \<open>\<^verbatim>\<open>strconv.Atoi\<close> and \<^verbatim>\<open>strconv.ParseInt(s, 10, 64)\<close>: an optional sign, digits, the range of \<^verbatim>\<open>int64\<close>.\<close>

definition Atoi :: "string \<Rightarrow> int option" where
  "Atoi s =
     (let (neg, ds) = (case s of
         [] \<Rightarrow> (False, [])
       | c # t \<Rightarrow> if code c = 45 then (True, t) else if code c = 43 then (False, t) else (False, s))
      in if ds = [] then None
         else case dec_acc 0 ds of
           None \<Rightarrow> None
         | Some n \<Rightarrow>
             if neg then (if n \<le> 9223372036854775808 then Some (- int n) else None)
             else (if n \<le> 9223372036854775807 then Some (int n) else None))"

definition FormatInt :: "int \<Rightarrow> string" where
  "FormatInt n = (if n < 0 then byte 45 # itoa (nat (- n)) else itoa (nat n))"

subsection \<open>Facts: characters\<close>

lemma code_byte [simp]: "n < 256 \<Longrightarrow> code (byte n) = n"
  by (simp add: code_def byte_def of_char_of)

lemma byte_code [simp]: "byte (code c) = c"
  by (simp add: code_def byte_def)

lemma code_eq_iff: "code c = code d \<longleftrightarrow> c = d"
  by (metis byte_code)

lemma code_less_256: "code c < 256"
  by (simp add: code_def)

lemma is_digit_digit [simp]: "d < 10 \<Longrightarrow> is_digit (byte (48 + d))"
  by (simp add: is_digit_def)

lemma digit_val_digit [simp]: "d < 10 \<Longrightarrow> digit_val (byte (48 + d)) = d"
  by (simp add: digit_val_def)

lemma hex_val_hex_digit [simp]: "d < 16 \<Longrightarrow> hex_val (hex_digit d) = Some d"
  by (auto simp: hex_val_def hex_digit_def is_digit_def)

subsection \<open>Facts: decimal and hexadecimal text\<close>

lemma itoa_not_Nil [simp]: "itoa n \<noteq> []"
  by (subst itoa.simps) simp

lemma to_hex_not_Nil [simp]: "to_hex n \<noteq> []"
  by (subst to_hex.simps) simp

lemma itoa_digits: "c \<in> set (itoa n) \<Longrightarrow> is_digit c"
proof (induction n rule: itoa.induct)
  case (1 n)
  then show ?case
    by (cases "n < 10") (auto simp: itoa.simps [of n])
qed

lemma to_hex_digits: "c \<in> set (to_hex n) \<Longrightarrow> \<exists>d < 16. c = hex_digit d"
proof (induction n rule: to_hex.induct)
  case (1 n)
  show ?case
  proof (cases "n < 16")
    case True
    with "1.prems" show ?thesis by (auto simp: to_hex.simps [of n])
  next
    case False
    with "1.prems" have "c \<in> set (to_hex (n div 16)) \<or> c = hex_digit (n mod 16)"
      by (auto simp: to_hex.simps [of n])
    then show ?thesis
    proof
      assume "c = hex_digit (n mod 16)"
      then show ?thesis by (intro exI [of _ "n mod 16"]) simp
    qed (rule "1.IH" [OF False])
  qed
qed

lemma dec_acc_append:
  "dec_acc v (s @ t) = (case dec_acc v s of None \<Rightarrow> None | Some w \<Rightarrow> dec_acc w t)"
  by (induction s arbitrary: v) auto

lemma dec_acc_itoa: "dec_acc 0 (itoa n) = Some n"
proof (induction n rule: itoa.induct)
  case (1 n)
  then show ?case
    by (cases "n < 10") (simp_all add: itoa.simps [of n] dec_acc_append)
qed

lemma itoa_hd: "n \<noteq> 0 \<Longrightarrow> \<exists>d s. itoa n = byte (48 + d) # s \<and> 1 \<le> d \<and> d < 10"
proof (induction n rule: itoa.induct)
  case (1 n)
  show ?case
  proof (cases "n < 10")
    case True
    with "1.prems" show ?thesis by (intro exI [of _ n]) (simp add: itoa.simps [of n])
  next
    case False
    with "1.IH" obtain d s where "itoa (n div 10) = byte (48 + d) # s" "1 \<le> d" "d < 10"
      by fastforce
    with False show ?thesis by (auto simp: itoa.simps [of n])
  qed
qed

lemma itoa_0 [simp]: "itoa 0 = [byte 48]"
  by (simp add: itoa.simps)

lemma is_digit_code_neq: "is_digit c \<Longrightarrow> n < 48 \<or> 57 < n \<Longrightarrow> code c \<noteq> n"
  by (auto simp: is_digit_def)

lemma Atoi_itoa:
  assumes "n \<le> 9223372036854775807"
  shows "Atoi (itoa n) = Some (int n)"
proof -
  obtain c s where cs: "itoa n = c # s" by (cases "itoa n") auto
  have "is_digit c" using itoa_digits [of c n] cs by simp
  then have "code c \<noteq> 45" and "code c \<noteq> 43" by (auto simp: is_digit_def)
  then show ?thesis
    using assms dec_acc_itoa [of n] by (simp add: Atoi_def cs)
qed

lemma length_to_hex_le:
  assumes "n < 65536"
  shows "length (to_hex n) \<le> 4"
proof -
  have "n div 16 div 16 div 16 < 16" using assms by simp
  then show ?thesis
    using to_hex.simps [of n] to_hex.simps [of "n div 16"] to_hex.simps [of "n div 16 div 16"]
      to_hex.simps [of "n div 16 div 16 div 16"]
    by auto
qed

lemma has_prefix_append [simp]: "has_prefix (p @ s) p"
  by (induction p) auto

lemma split_last_append:
  assumes "c \<notin> set t"
  shows "split_last c (s @ c # t) = Some (s, t)"
proof -
  have *: "\<And>x. x \<in> set (rev t) \<Longrightarrow> x \<noteq> c" using assms by auto
  have "takeWhile (\<lambda>d. d \<noteq> c) (rev t @ c # rev s) = rev t"
    using * by (subst takeWhile_append2) auto
  moreover have "dropWhile (\<lambda>d. d \<noteq> c) (rev t @ c # rev s) = c # rev s"
    using * by (subst dropWhile_append2) auto
  ultimately show ?thesis by (simp add: split_last_def)
qed

end
