(* ===== verification/Netip.thy ===== *)
theory Netip
  imports Go_Strings "HOL-Library.Word"
begin

unbundle bit_operations_syntax

text \<open>
  The addresses and prefixes of Go's package \<^verbatim>\<open>net/netip\<close>, as far as the program uses them. An
  address is the zero \<^verbatim>\<open>Addr\<close>, an IPv4 address (32 bits) or an IPv6 address (128 bits) with its
  zone; a prefix is an address and Go's \<^verbatim>\<open>bitsPlusOne\<close> field, 0 for an invalid prefix. The set
  semantics of a prefix (\<open>Contains\<close>) and the characterisation of \<open>Overlaps\<close> by a common address
  are what the safety and allowlist theorems of the component \<^verbatim>\<open>network\<close> rest on.
\<close>

named_theorems netip_defs \<open>definitions of the netip operations\<close>

subsection \<open>Definitions\<close>

datatype addr = Addr0 | Addr4 "32 word" | Addr6 "128 word" string

datatype netip_prefix = Prefix (pfx_ip: addr) (bitsPlusOne: nat)

fun Is4 :: "addr \<Rightarrow> bool" where
  "Is4 (Addr4 w) = True"
| "Is4 _ = False"

fun Is6 :: "addr \<Rightarrow> bool" where
  "Is6 (Addr6 w z) = True"
| "Is6 _ = False"

fun Is4In6 :: "addr \<Rightarrow> bool" where
  "Is4In6 (Addr6 w z) = (drop_bit 32 w = 0xffff)"
| "Is4In6 _ = False"

fun Unmap :: "addr \<Rightarrow> addr" where
  "Unmap (Addr6 w z) = (if drop_bit 32 w = 0xffff then Addr4 (ucast w) else Addr6 w z)"
| "Unmap a = a"

fun BitLen :: "addr \<Rightarrow> nat" where
  "BitLen Addr0 = 0"
| "BitLen (Addr4 w) = 32"
| "BitLen (Addr6 w z) = 128"

fun Zone :: "addr \<Rightarrow> string" where
  "Zone (Addr6 w z) = z"
| "Zone _ = []"

fun withoutZone :: "addr \<Rightarrow> addr" where
  "withoutZone (Addr6 w z) = Addr6 w []"
| "withoutZone a = a"

text \<open>\<^verbatim>\<open>Addr.Compare\<close>: by length, then by value, then by zone.\<close>

fun addr_val :: "addr \<Rightarrow> nat" where
  "addr_val Addr0 = 0"
| "addr_val (Addr4 w) = unat w"
| "addr_val (Addr6 w z) = unat w"

definition addr_Compare :: "addr \<Rightarrow> addr \<Rightarrow> int" where
  "addr_Compare a b =
     cmp_then (cmp_Compare (BitLen a) (BitLen b))
       (cmp_then (cmp_Compare (addr_val a) (addr_val b)) (cmp_Compare (Zone a) (Zone b)))"

fun IsLoopback :: "addr \<Rightarrow> bool" where
  "IsLoopback Addr0 = False"
| "IsLoopback (Addr4 w) = (drop_bit 24 w = 127)"
| "IsLoopback (Addr6 w z) = (if drop_bit 32 w = 0xffff then drop_bit 24 (ucast w :: 32 word) = 127 else w = 1)"

fun IsMulticast :: "addr \<Rightarrow> bool" where
  "IsMulticast Addr0 = False"
| "IsMulticast (Addr4 w) = (drop_bit 28 w = 14)"
| "IsMulticast (Addr6 w z) = (if drop_bit 32 w = 0xffff then drop_bit 28 (ucast w :: 32 word) = 14 else drop_bit 120 w = 0xff)"

fun IsLinkLocalUnicast :: "addr \<Rightarrow> bool" where
  "IsLinkLocalUnicast Addr0 = False"
| "IsLinkLocalUnicast (Addr4 w) = (drop_bit 16 w = 0xa9fe)"
| "IsLinkLocalUnicast (Addr6 w z) =
     (if drop_bit 32 w = 0xffff then drop_bit 16 (ucast w :: 32 word) = 0xa9fe else drop_bit 118 w = 0x3fa)"

definition IsGlobalUnicast :: "addr \<Rightarrow> bool" where
  "IsGlobalUnicast a =
     (if a = Addr0 then False
      else if Is4 a \<and> (a = Addr4 0 \<or> a = Addr4 0xffffffff) then False
      else a \<noteq> Addr6 0 [] \<and> \<not> IsLoopback a \<and> \<not> IsMulticast a \<and> \<not> IsLinkLocalUnicast a)"

definition PrefixFrom :: "addr \<Rightarrow> int \<Rightarrow> netip_prefix" where
  "PrefixFrom a b =
     Prefix (withoutZone a) (if a \<noteq> Addr0 \<and> 0 \<le> b \<and> b \<le> int (BitLen a) then Suc (nat b) else 0)"

definition zero_prefix :: netip_prefix where
  "zero_prefix = Prefix Addr0 0"

definition IsValid :: "netip_prefix \<Rightarrow> bool" where
  "IsValid p = (bitsPlusOne p > 0)"

definition Bits :: "netip_prefix \<Rightarrow> int" where
  "Bits p = int (bitsPlusOne p) - 1"

text \<open>\<^verbatim>\<open>Addr.Prefix\<close>: keep the \<open>b\<close> most significant bits of the address.\<close>

fun mask_ip :: "nat \<Rightarrow> addr \<Rightarrow> addr" where
  "mask_ip b Addr0 = Addr0"
| "mask_ip b (Addr4 w) = Addr4 (w AND NOT (mask (32 - b)))"
| "mask_ip b (Addr6 w z) = Addr6 (w AND NOT (mask (128 - b))) z"

definition addr_Prefix :: "addr \<Rightarrow> int \<Rightarrow> netip_prefix option" where
  "addr_Prefix a b =
     (if b < 0 then None
      else case a of
        Addr0 \<Rightarrow> Some zero_prefix
      | _ \<Rightarrow> if b > int (BitLen a) then None else Some (PrefixFrom (mask_ip (nat b) a) b))"

text \<open>\<^verbatim>\<open>Prefix.Masked\<close> ignores the error, so an invalid prefix masks to the zero prefix.\<close>

definition Masked :: "netip_prefix \<Rightarrow> netip_prefix" where
  "Masked p = (case addr_Prefix (pfx_ip p) (Bits p) of None \<Rightarrow> zero_prefix | Some q \<Rightarrow> q)"

fun shared_bits :: "addr \<Rightarrow> nat \<Rightarrow> addr \<Rightarrow> bool" where
  "shared_bits (Addr4 v) b (Addr4 w) = (drop_bit (32 - b) (w XOR v) = 0)"
| "shared_bits (Addr6 v z) b (Addr6 w y) = ((w XOR v) AND NOT (mask (128 - b)) = 0)"
| "shared_bits _ b _ = False"

definition Contains :: "netip_prefix \<Rightarrow> addr \<Rightarrow> bool" where
  "Contains p a =
     (if \<not> IsValid p \<or> Zone a \<noteq> [] then False
      else if BitLen (pfx_ip p) = 0 \<or> BitLen a = 0 \<or> BitLen (pfx_ip p) \<noteq> BitLen a then False
      else shared_bits (pfx_ip p) (nat (Bits p)) a)"

definition Overlaps :: "netip_prefix \<Rightarrow> netip_prefix \<Rightarrow> bool" where
  "Overlaps p q =
     (if \<not> IsValid p \<or> \<not> IsValid q then False
      else if p = q then True
      else if Is4 (pfx_ip p) \<noteq> Is4 (pfx_ip q) then False
      else let b = min (Bits p) (Bits q) in
        if b = 0 then True
        else case (addr_Prefix (pfx_ip p) b, addr_Prefix (pfx_ip q) b) of
          (Some p', Some q') \<Rightarrow> pfx_ip p' = pfx_ip q'
        | _ \<Rightarrow> False)"

text \<open>A prefix as every constructor of the package builds it: valid, with a zone-free address
  of its family and a length that fits. \<open>canonical\<close> adds that the host bits are zero.\<close>

definition prefix_ok :: "netip_prefix \<Rightarrow> bool" where
  "prefix_ok p = (IsValid p \<and> pfx_ip p \<noteq> Addr0 \<and> Zone (pfx_ip p) = [] \<and> Bits p \<le> int (BitLen (pfx_ip p)))"

definition canonical :: "netip_prefix \<Rightarrow> bool" where
  "canonical p = (prefix_ok p \<and> Masked p = p)"

lemmas [netip_defs] = IsValid_def Bits_def PrefixFrom_def addr_Prefix_def Masked_def Contains_def
  Overlaps_def prefix_ok_def canonical_def zero_prefix_def

subsection \<open>Facts: masks on words\<close>

lemma drop_bit_and_not_mask [simp]: "drop_bit k v AND drop_bit k (NOT (mask k)) = drop_bit k v"
  for v :: "'a::len word"
  by (simp add: bit_eq_iff bit_simps) (auto simp: bit_imp_le_length)

lemma and_not_mask_push: "v AND NOT (mask k) = push_bit k (drop_bit k v)"
  for v :: "'a::len word"
  by (simp add: bit_eq_iff bit_simps) (auto simp: bit_imp_le_length)

lemma and_not_mask_eq_iff:
  "v AND NOT (mask k) = w AND NOT (mask k) \<longleftrightarrow> drop_bit k v = drop_bit k w"
  for v w :: "'a::len word"
  by (metis and_not_mask_push drop_bit_and_not_mask drop_bit_and)

lemma xor_zero_iff [simp]: "v XOR w = 0 \<longleftrightarrow> v = w" for v w :: "'a::len word"
  by (metis xor.right_neutral xor_self_eq xor.assoc)

lemma drop_bit_xor_zero_iff: "drop_bit k (w XOR v) = 0 \<longleftrightarrow> drop_bit k w = drop_bit k v"
  for v w :: "'a::len word"
  by simp

lemma xor_and_not_mask_zero_iff: "(w XOR v) AND NOT (mask k) = 0 \<longleftrightarrow> drop_bit k w = drop_bit k v"
  for v w :: "'a::len word"
proof -
  have "(w XOR v) AND NOT (mask k) = 0 \<longleftrightarrow> drop_bit k (w XOR v) = 0"
    using and_not_mask_eq_iff [of "w XOR v" k 0] by simp
  then show ?thesis by (simp only: drop_bit_xor_zero_iff)
qed

lemma drop_bit_coarser:
  fixes v w :: "'a::len word"
  assumes "drop_bit k v = drop_bit k w" and "k \<le> j"
  shows "drop_bit j v = drop_bit j w"
proof -
  have "drop_bit j x = drop_bit (j - k) (drop_bit k x)" for x :: "'a word"
    using assms(2) by simp
  with assms(1) show ?thesis by metis
qed

lemma drop_bit_word_size: "drop_bit LENGTH('a) w = 0" for w :: "'a::len word"
  by (simp add: bit_eq_iff bit_simps)

lemma drop_bit_32 [simp]: "drop_bit 32 (w :: 32 word) = 0"
  using drop_bit_word_size [of w] by simp

lemma drop_bit_128 [simp]: "drop_bit 128 (w :: 128 word) = 0"
  using drop_bit_word_size [of w] by simp

subsection \<open>Facts: prefixes of each family\<close>

lemma prefix_ok_cases [consumes 1, case_names v4 v6]:
  assumes "prefix_ok p"
  obtains (v4) w b where "p = Prefix (Addr4 w) (Suc b)" and "b \<le> 32"
  | (v6) w b where "p = Prefix (Addr6 w []) (Suc b)" and "b \<le> 128"
proof (cases p)
  case (Prefix a n)
  with assms have n: "n = Suc (n - 1)" by (simp add: prefix_ok_def IsValid_def)
  show ?thesis
  proof (cases a)
    case Addr0
    with Prefix assms show ?thesis by (simp add: prefix_ok_def)
  next
    case (Addr4 w)
    with Prefix assms n show ?thesis
      by (intro v4 [of w "n - 1"]) (auto simp: prefix_ok_def Bits_def)
  next
    case (Addr6 w z)
    with Prefix assms n show ?thesis
      by (intro v6 [of w "n - 1"]) (auto simp: prefix_ok_def Bits_def)
  qed
qed

lemma Masked_4: "b \<le> 32 \<Longrightarrow> Masked (Prefix (Addr4 w) (Suc b)) = Prefix (Addr4 (w AND NOT (mask (32 - b)))) (Suc b)"
  by (simp add: netip_defs)

lemma Masked_6: "b \<le> 128 \<Longrightarrow> Masked (Prefix (Addr6 w z) (Suc b)) = Prefix (Addr6 (w AND NOT (mask (128 - b))) []) (Suc b)"
  by (simp add: netip_defs)

lemma Contains_4 [simp]:
  "Contains (Prefix (Addr4 v) (Suc b)) (Addr4 w) \<longleftrightarrow> drop_bit (32 - b) w = drop_bit (32 - b) v"
  by (simp add: netip_defs drop_bit_xor_zero_iff)

lemma Contains_6 [simp]:
  "Contains (Prefix (Addr6 v z) (Suc b)) (Addr6 w y) \<longleftrightarrow> y = [] \<and> drop_bit (128 - b) w = drop_bit (128 - b) v"
  by (simp add: netip_defs xor_and_not_mask_zero_iff)

lemma Contains_mixed [simp]:
  "\<not> Contains (Prefix (Addr4 v) n) (Addr6 w y)"
  "\<not> Contains (Prefix (Addr6 w z) n) (Addr4 v)"
  "\<not> Contains p Addr0"
  by (auto simp: netip_defs)

lemma Overlaps_4:
  assumes "b \<le> 32" and "c \<le> 32"
  shows "Overlaps (Prefix (Addr4 v) (Suc b)) (Prefix (Addr4 w) (Suc c)) \<longleftrightarrow>
    drop_bit (32 - min b c) v = drop_bit (32 - min b c) w"
  using assms
  by (cases "b \<le> c") (auto simp: netip_defs Let_def and_not_mask_eq_iff)

lemma Overlaps_6:
  assumes "b \<le> 128" and "c \<le> 128"
  shows "Overlaps (Prefix (Addr6 v []) (Suc b)) (Prefix (Addr6 w []) (Suc c)) \<longleftrightarrow>
    drop_bit (128 - min b c) v = drop_bit (128 - min b c) w"
  using assms
  by (cases "b \<le> c") (auto simp: netip_defs Let_def and_not_mask_eq_iff)

lemma Overlaps_mixed [simp]:
  "\<not> Overlaps (Prefix (Addr4 v) n) (Prefix (Addr6 w y) m)"
  "\<not> Overlaps (Prefix (Addr6 w y) m) (Prefix (Addr4 v) n)"
  by (auto simp: netip_defs)

lemma common_word:
  fixes v w :: "'a::len word"
  assumes "b \<le> n" and "c \<le> n"
  shows "(\<exists>x. drop_bit (n - b) x = drop_bit (n - b) v \<and> drop_bit (n - c) x = drop_bit (n - c) w) \<longleftrightarrow>
    drop_bit (n - min b c) v = drop_bit (n - min b c) w"
proof
  assume "\<exists>x. drop_bit (n - b) x = drop_bit (n - b) v \<and> drop_bit (n - c) x = drop_bit (n - c) w"
  then obtain x where x: "drop_bit (n - b) x = drop_bit (n - b) v" "drop_bit (n - c) x = drop_bit (n - c) w"
    by blast
  have "drop_bit (n - min b c) x = drop_bit (n - min b c) v"
    by (rule drop_bit_coarser [OF x(1)]) simp
  moreover have "drop_bit (n - min b c) x = drop_bit (n - min b c) w"
    by (rule drop_bit_coarser [OF x(2)]) simp
  ultimately show "drop_bit (n - min b c) v = drop_bit (n - min b c) w" by simp
next
  assume eq: "drop_bit (n - min b c) v = drop_bit (n - min b c) w"
  show "\<exists>x. drop_bit (n - b) x = drop_bit (n - b) v \<and> drop_bit (n - c) x = drop_bit (n - c) w"
  proof (cases "b \<le> c")
    case True
    with eq show ?thesis by (intro exI [of _ w]) (simp add: min_def)
  next
    case False
    with eq show ?thesis by (intro exI [of _ v]) (simp add: min_def)
  qed
qed

text \<open>Two prefixes overlap exactly when some address is in both.\<close>

lemma Overlaps_iff_common:
  assumes "prefix_ok p" and "prefix_ok q"
  shows "Overlaps p q \<longleftrightarrow> (\<exists>a. Contains p a \<and> Contains q a)"
using assms(1)
proof (cases rule: prefix_ok_cases)
  case p4: (v4 v b)
  show ?thesis using assms(2)
  proof (cases rule: prefix_ok_cases)
    case (v4 w c)
    have "(\<exists>a. Contains p a \<and> Contains q a) \<longleftrightarrow> (\<exists>x. Contains p (Addr4 x) \<and> Contains q (Addr4 x))"
      unfolding p4 v4 by (metis Contains_mixed addr.exhaust)
    with p4 v4 show ?thesis by (simp add: Overlaps_4 common_word)
  next
    case (v6 w c)
    then show ?thesis unfolding p4(1) v6(1) by (metis Contains_mixed Overlaps_mixed(1) addr.exhaust)
  qed
next
  case p6: (v6 v b)
  show ?thesis using assms(2)
  proof (cases rule: prefix_ok_cases)
    case (v4 w c)
    then show ?thesis unfolding p6(1) v4(1) by (metis Contains_mixed Overlaps_mixed(2) addr.exhaust)
  next
    case (v6 w c)
    have "(\<exists>a. Contains p a \<and> Contains q a) \<longleftrightarrow> (\<exists>x. Contains p (Addr6 x []) \<and> Contains q (Addr6 x []))"
      unfolding p6 v6 by (metis Contains_mixed Contains_6 addr.exhaust)
    with p6 v6 show ?thesis by (simp add: Overlaps_6 common_word)
  qed
qed

lemma Overlaps_sym: "Overlaps p q \<longleftrightarrow> Overlaps q p"
  by (auto simp: netip_defs Let_def min.commute split: option.splits)

lemma Masked_prefix_ok: "prefix_ok p \<Longrightarrow> prefix_ok (Masked p)"
  by (erule prefix_ok_cases) (simp_all add: Masked_4 Masked_6, simp_all add: netip_defs)

lemma Masked_idem: "prefix_ok p \<Longrightarrow> Masked (Masked p) = Masked p"
  by (erule prefix_ok_cases) (simp_all add: Masked_4 Masked_6 and.assoc)

lemma canonical_Masked [intro]: "prefix_ok p \<Longrightarrow> canonical (Masked p)"
  by (simp add: canonical_def Masked_prefix_ok Masked_idem)

lemma canonical_prefix_ok [dest]: "canonical p \<Longrightarrow> prefix_ok p"
  by (simp add: canonical_def)

lemma Masked_Contains: "prefix_ok p \<Longrightarrow> Contains (Masked p) a = Contains p a"
  by (erule prefix_ok_cases; cases a) (simp_all add: Masked_4 Masked_6)

lemma Contains_pfx_ip: "prefix_ok p \<Longrightarrow> Contains p (pfx_ip p)"
  by (erule prefix_ok_cases) simp_all

subsection \<open>Facts: the order on addresses\<close>

lemma addr_Compare_zero_iff [simp]: "addr_Compare a b = 0 \<longleftrightarrow> a = b"
  by (cases a; cases b) (auto simp: addr_Compare_def cmp_then_def dest: unsigned_word_eqI)

interpretation addr_cmp: cmp_order addr_Compare
  unfolding addr_Compare_def by (intro cmp_intros)

lemma cmp_order_addr_key [cmp_intros]: "cmp_order (\<lambda>x y. addr_Compare (f x) (f y))"
  by unfold_locales (auto intro: addr_cmp.trans_le simp: addr_cmp.swap)

end
