(* ===== verification/Netip_Text.thy ===== *)
theory Netip_Text
  imports Netip
begin

text \<open>
  The textual forms of \<^verbatim>\<open>net/netip\<close>: \<^verbatim>\<open>ParseAddr\<close>, \<^verbatim>\<open>ParsePrefix\<close>, \<^verbatim>\<open>Addr.String\<close> and
  \<^verbatim>\<open>Prefix.String\<close>, branch by branch as the standard library has them (dotted decimal without
  leading zeros, hexadecimal groups with one \<^verbatim>\<open>::\<close>, an embedded IPv4 tail, a zone after \<^verbatim>\<open>%\<close>). An IPv6
  address is handled as its eight 16-bit groups. The main result is the round trip
  \<open>ParsePrefix_String\<close>: printing a zone-free valid prefix and parsing the text gives it back, which
  is what storing prefixes as SQLite text relies on.
\<close>

named_theorems text_eval \<open>equations that evaluate the parsers on literal text\<close>

subsection \<open>Definitions: parsing\<close>

fun parseIPv4Fields :: "string \<Rightarrow> nat \<Rightarrow> nat \<Rightarrow> nat list \<Rightarrow> nat list option" where
  "parseIPv4Fields [] v digLen fields =
     (if length fields < 3 then None else Some (fields @ [v]))"
| "parseIPv4Fields (c # s) v digLen fields =
     (if is_digit c then
        (if digLen = 1 \<and> v = 0 then None
         else if v * 10 + digit_val c > 255 then None
         else parseIPv4Fields s (v * 10 + digit_val c) (digLen + 1) fields)
      else if c = CHR ''.'' then
        (if digLen = 0 \<or> s = [] then None
         else if length fields = 3 then None
         else parseIPv4Fields s 0 0 (fields @ [v]))
      else None)"

text \<open>The digits of one IPv6 group: how many, their value, and the rest of the text.\<close>

fun scan_hex :: "string \<Rightarrow> nat \<Rightarrow> nat \<Rightarrow> (nat \<times> nat \<times> string) option" where
  "scan_hex [] off acc = Some (off, acc, [])"
| "scan_hex (c # s) off acc =
     (case hex_val c of
        None \<Rightarrow> Some (off, acc, c # s)
      | Some d \<Rightarrow>
          if off > 3 then None
          else if acc * 16 + d > 65535 then None
          else scan_hex s (off + 1) (acc * 16 + d))"

function parseIPv6_loop :: "string \<Rightarrow> nat list \<Rightarrow> nat option \<Rightarrow> (nat list \<times> nat option \<times> string) option" where
  "parseIPv6_loop s gs ellipsis =
     (if length gs \<ge> 8 then Some (gs, ellipsis, s)
      else (case scan_hex s 0 0 of
        None \<Rightarrow> None
      | Some (off, acc, rest) \<Rightarrow>
          (if off = 0 then None
           else (case rest of
             [] \<Rightarrow> Some (gs @ [acc], ellipsis, [])
           | c # rest' \<Rightarrow>
              (if c = CHR ''.'' then
                (if ellipsis = None \<and> length gs \<noteq> 6 then None
                 else if length gs + 2 > 8 then None
                 else (case parseIPv4Fields s 0 0 [] of
                   Some [a, b, c, d] \<Rightarrow> Some (gs @ [a * 256 + b, c * 256 + d], ellipsis, [])
                 | _ \<Rightarrow> None))
              else if c \<noteq> CHR '':'' then None
              else (case rest' of
                [] \<Rightarrow> None
              | d # rest'' \<Rightarrow>
                  (if d = CHR '':'' then
                    (if ellipsis \<noteq> None then None
                     else if rest'' = [] then Some (gs @ [acc], Some (length gs + 1), [])
                     else parseIPv6_loop rest'' (gs @ [acc]) (Some (length gs + 1)))
                   else parseIPv6_loop rest' (gs @ [acc]) ellipsis)))))))"
  by pat_completeness auto
termination
  by (relation "measure (\<lambda>(s, gs, e). 8 - length gs)") auto

declare parseIPv6_loop.simps [simp del]

text \<open>What follows the loop: the whole text is used, and \<^verbatim>\<open>::\<close> stands for at least one zero group.\<close>

definition expand_ellipsis :: "nat list \<times> nat option \<times> string \<Rightarrow> nat list option" where
  "expand_ellipsis r = (case r of (gs, ellipsis, rest) \<Rightarrow>
     if rest \<noteq> [] then None
     else if length gs < 8 then
       (case ellipsis of
          None \<Rightarrow> None
        | Some e \<Rightarrow> Some (take e gs @ replicate (8 - length gs) 0 @ drop e gs))
     else if ellipsis \<noteq> None then None
     else Some gs)"

definition parse_groups :: "string \<Rightarrow> nat list option" where
  "parse_groups s =
     (case s of
        a # b # t \<Rightarrow>
          if a = CHR '':'' \<and> b = CHR '':'' then
            (if t = [] then Some (replicate 8 0)
             else Option.bind (parseIPv6_loop t [] (Some 0)) expand_ellipsis)
          else Option.bind (parseIPv6_loop s [] None) expand_ellipsis
      | _ \<Rightarrow> Option.bind (parseIPv6_loop s [] None) expand_ellipsis)"

definition of_groups :: "nat list \<Rightarrow> 128 word" where
  "of_groups gs = of_nat (foldl (\<lambda>v g. v * 65536 + g) 0 gs)"

definition parseIPv6 :: "string \<Rightarrow> addr option" where
  "parseIPv6 s =
     (case split_first (CHR ''%'') s of
        Some (t, zone) \<Rightarrow>
          if zone = [] then None else map_option (\<lambda>gs. Addr6 (of_groups gs) zone) (parse_groups t)
      | None \<Rightarrow> map_option (\<lambda>gs. Addr6 (of_groups gs) []) (parse_groups s))"

definition parseIPv4 :: "string \<Rightarrow> addr option" where
  "parseIPv4 s =
     (case parseIPv4Fields s 0 0 [] of
        Some [a, b, c, d] \<Rightarrow> Some (Addr4 (of_nat (((a * 256 + b) * 256 + c) * 256 + d)))
      | _ \<Rightarrow> None)"

text \<open>\<^verbatim>\<open>ParseAddr\<close> decides by the first of \<^verbatim>\<open>.\<close>, \<^verbatim>\<open>:\<close> and \<^verbatim>\<open>%\<close> in the text.\<close>

fun first_mark :: "string \<Rightarrow> char option" where
  "first_mark [] = None"
| "first_mark (c # s) = (if c = CHR ''.'' \<or> c = CHR '':'' \<or> c = CHR ''%'' then Some c else first_mark s)"

definition ParseAddr :: "string \<Rightarrow> addr option" where
  "ParseAddr s =
     (case first_mark s of
        None \<Rightarrow> None
      | Some c \<Rightarrow> if c = CHR ''.'' then parseIPv4 s else if c = CHR '':'' then parseIPv6 s else None)"

definition ParsePrefix :: "string \<Rightarrow> netip_prefix option" where
  "ParsePrefix s =
     (case split_last (CHR ''/'') s of
        None \<Rightarrow> None
      | Some (a, bitsStr) \<Rightarrow>
          (case ParseAddr a of
             None \<Rightarrow> None
           | Some ip \<Rightarrow>
               if Is6 ip \<and> Zone ip \<noteq> [] then None
               else if length bitsStr > 1 \<and> \<not> (49 \<le> code (hd bitsStr) \<and> code (hd bitsStr) \<le> 57) then None
               else case Atoi bitsStr of
                 None \<Rightarrow> None
               | Some bits \<Rightarrow>
                   if bits < 0 \<or> bits > (if Is6 ip then 128 else 32) then None
                   else Some (PrefixFrom ip bits)))"

subsection \<open>Definitions: printing\<close>

definition octets :: "32 word \<Rightarrow> nat list" where
  "octets w = (let n = unat w in [n div 16777216, n div 65536 mod 256, n div 256 mod 256, n mod 256])"

fun join :: "string \<Rightarrow> string list \<Rightarrow> string" where
  "join sep [] = []"
| "join sep [x] = x"
| "join sep (x # xs) = x @ sep @ join sep xs"

definition string4 :: "32 word \<Rightarrow> string" where
  "string4 w = join ''.'' (map itoa (octets w))"

definition groups :: "128 word \<Rightarrow> nat list" where
  "groups w = map (\<lambda>i. unat w div 65536 ^ (7 - i) mod 65536) [0..<8]"

text \<open>The longest run of at least two zero groups, the first of them on a tie; \<open>(255, 255)\<close> if none.\<close>

definition zero_run :: "nat list \<Rightarrow> nat \<times> nat" where
  "zero_run gs = foldl (\<lambda>(zs, ze) i.
     let j = i + length (takeWhile (\<lambda>g. g = 0) (drop i gs))
     in if j - i \<ge> 2 \<and> j - i > ze - zs then (i, j) else (zs, ze)) (255, 255) [0..<8]"

function print_groups :: "nat list \<Rightarrow> nat \<Rightarrow> nat \<Rightarrow> nat \<Rightarrow> string" where
  "print_groups gs zs ze i =
     (if i \<ge> 8 then []
      else if i = zs then
        ''::'' @ (if ze \<ge> 8 then [] else to_hex (gs ! ze) @ print_groups gs zs ze (max (Suc i) (Suc ze)))
      else (if i > 0 then '':'' else []) @ to_hex (gs ! i) @ print_groups gs zs ze (Suc i))"
  by pat_completeness auto
termination
  by (relation "measure (\<lambda>(gs, zs, ze, i). 8 - i)") auto

declare print_groups.simps [simp del]

definition string6 :: "128 word \<Rightarrow> string" where
  "string6 w = (let gs = groups w; (zs, ze) = zero_run gs in print_groups gs zs ze 0)"

fun addr_String :: "addr \<Rightarrow> string" where
  "addr_String Addr0 = ''invalid IP''"
| "addr_String (Addr4 w) = string4 w"
| "addr_String (Addr6 w z) =
     (if drop_bit 32 w = 0xffff then ''::ffff:'' @ string4 (ucast w) else string6 w)
     @ (if z = [] then [] else CHR ''%'' # z)"

definition prefix_String :: "netip_prefix \<Rightarrow> string" where
  "prefix_String p =
     (if \<not> IsValid p then ''invalid Prefix'' else addr_String (pfx_ip p) @ ''/'' @ itoa (nat (Bits p)))"

lemmas [text_eval] = ParsePrefix_def ParseAddr_def parseIPv4_def parseIPv6_def parse_groups_def
  parseIPv6_loop.simps expand_ellipsis_def of_groups_def split_last_def split_first_def Atoi_def
  PrefixFrom_def hex_val_def is_digit_def code_def digit_val_def

subsection \<open>Facts: joined texts\<close>

lemma join_Cons: "join sep (x # xs) = x @ (if xs = [] then [] else sep @ join sep xs)"
  by (cases xs) auto

lemma set_join: "set (join sep xs) \<subseteq> \<Union> (set ` set xs) \<union> set sep"
  by (induction xs) (auto simp: join_Cons)

lemma join_not_Nil: "xs \<noteq> [] \<Longrightarrow> (\<And>x. x \<in> set xs \<Longrightarrow> x \<noteq> []) \<Longrightarrow> join sep xs \<noteq> []"
  by (cases xs) (auto simp: join_Cons)

lemma join_hd: "xs \<noteq> [] \<Longrightarrow> hd xs \<noteq> [] \<Longrightarrow> hd (join sep xs) = hd (hd xs)"
  by (cases xs) (auto simp: join_Cons)

lemma hex_digit_neq: "d < 16 \<Longrightarrow> hex_digit d \<noteq> CHR '':'' \<and> hex_digit d \<noteq> CHR ''%'' \<and> hex_digit d \<noteq> CHR ''/'' \<and> hex_digit d \<noteq> CHR ''.''"
proof -
  have "code (CHR '':'') = 58" "code (CHR ''%'') = 37" "code (CHR ''/'') = 47" "code (CHR ''.'') = 46"
    by (simp_all add: code_def)
  moreover assume "d < 16"
  then have "(48 \<le> code (hex_digit d) \<and> code (hex_digit d) \<le> 57) \<or> 97 \<le> code (hex_digit d)"
    by (auto simp: hex_digit_def)
  ultimately show ?thesis by auto
qed

lemma hex_val_marks [simp]: "hex_val (CHR '':'') = None" "hex_val (CHR ''.'') = None"
  by (simp_all add: hex_val_def is_digit_def code_def)

lemma is_digit_neq: "is_digit c \<Longrightarrow> c \<noteq> CHR '':'' \<and> c \<noteq> CHR ''%'' \<and> c \<noteq> CHR ''/'' \<and> c \<noteq> CHR ''.''"
  by (auto simp: is_digit_def code_def)

lemma not_is_digit_dot [simp]: "\<not> is_digit (CHR ''.'')"
  by (simp add: is_digit_def code_def)

subsection \<open>Facts: dotted decimal\<close>

lemma parseIPv4Fields_itoa:
  assumes "n < 256"
  shows "parseIPv4Fields (itoa n @ s) 0 0 fields = parseIPv4Fields s n (length (itoa n)) fields"
proof -
  consider "n < 10" | "10 \<le> n" "n < 100" | "100 \<le> n" by linarith
  then show ?thesis
  proof cases
    case 1
    then show ?thesis by (simp add: itoa.simps [of n])
  next
    case 2
    then have "itoa n = [byte (48 + n div 10), byte (48 + n mod 10)]"
      by (simp add: itoa.simps [of n] itoa.simps [of "n div 10"])
    moreover have "n div 10 \<noteq> 0" "n div 10 < 10" using 2 by auto
    ultimately show ?thesis using assms by simp
  next
    case 3
    have d: "n div 10 div 10 < 10" "n div 10 \<ge> 10" using 3 assms by auto
    with 3 have "itoa n = [byte (48 + n div 10 div 10), byte (48 + n div 10 mod 10), byte (48 + n mod 10)]"
      by (simp add: itoa.simps [of n] itoa.simps [of "n div 10"] itoa.simps [of "n div 10 div 10"])
    moreover have "n div 10 div 10 \<noteq> 0" using d by auto
    moreover have "n div 10 div 10 * 10 + n div 10 mod 10 = n div 10" by simp
    moreover have "n div 10 * 10 + n mod 10 = n" by simp
    moreover have "n div 10 \<le> 255" using assms by simp
    ultimately show ?thesis using assms d by (simp del: div_mult_mod_eq)
  qed
qed

lemma parseIPv4Fields_dot:
  assumes "n < 256" and "length fields < 3" and "s \<noteq> []"
  shows "parseIPv4Fields (itoa n @ CHR ''.'' # s) 0 0 fields = parseIPv4Fields s 0 0 (fields @ [n])"
  using assms by (simp add: parseIPv4Fields_itoa)

lemma parseIPv4Fields_last:
  assumes "n < 256" and "length fields = 3"
  shows "parseIPv4Fields (itoa n) 0 0 fields = Some (fields @ [n])"
  using assms parseIPv4Fields_itoa [of n "[]" fields] by simp

lemma parseIPv4Fields_string4: "parseIPv4Fields (string4 w) 0 0 [] = Some (octets w)"
proof -
  have "unat w < 4294967296" using unsigned_less [of w] by simp
  then have a: "unat w div 16777216 < 256" by simp
  have b: "unat w div 65536 mod 256 < 256" "unat w div 256 mod 256 < 256" "unat w mod 256 < 256"
    by simp_all
  obtain a1 a2 a3 a4 where o: "octets w = [a1, a2, a3, a4]" "a1 < 256" "a2 < 256" "a3 < 256" "a4 < 256"
    using a b by (simp add: octets_def Let_def)
  show ?thesis
    by (simp add: string4_def o parseIPv4Fields_dot parseIPv4Fields_last)
qed

lemma of_nat_octets:
  assumes "octets w = [a, b, c, d]"
  shows "of_nat (((a * 256 + b) * 256 + c) * 256 + d) = w"
proof -
  define n where "n = unat w"
  have "a = n div 256 div 256 div 256" "b = n div 256 div 256 mod 256" "c = n div 256 mod 256" "d = n mod 256"
    using assms by (auto simp: octets_def Let_def n_def simp flip: div_mult2_eq)
  then have "((a * 256 + b) * 256 + c) * 256 + d = n"
    by (simp only: div_mult_mod_eq)
  then show ?thesis by (simp add: n_def)
qed

lemma parseIPv4_string4: "parseIPv4 (string4 w) = Some (Addr4 w)"
proof -
  obtain a b c d where o: "octets w = [a, b, c, d]" by (simp add: octets_def Let_def)
  from of_nat_octets [OF o] show ?thesis
    by (simp add: parseIPv4_def parseIPv4Fields_string4 o)
qed

subsection \<open>Facts: one group\<close>

lemma scan_hex_to_hex:
  "g < 65536 \<Longrightarrow> scan_hex (to_hex g @ s) 0 0 = scan_hex s (length (to_hex g)) g"
proof (induction g arbitrary: s rule: to_hex.induct)
  case (1 g)
  show ?case
  proof (cases "g < 16")
    case True
    then show ?thesis by (simp add: to_hex.simps [of g])
  next
    case False
    have g: "to_hex g = to_hex (g div 16) @ [hex_digit (g mod 16)]"
      using False by (simp add: to_hex.simps [of g])
    have "length (to_hex (g div 16)) \<le> 3"
      using length_to_hex_le [OF "1.prems"] g by simp
    moreover have "scan_hex (to_hex (g div 16) @ hex_digit (g mod 16) # s) 0 0 =
        scan_hex (hex_digit (g mod 16) # s) (length (to_hex (g div 16))) (g div 16)"
      using "1.IH" [OF False] "1.prems" by simp
    ultimately show ?thesis
      using "1.prems" by (simp add: g)
  qed
qed

lemma scan_hex_stop: "s = [] \<or> hex_val (hd s) = None \<Longrightarrow> scan_hex s off acc = Some (off, acc, s)"
  by (cases s) auto

lemma loop_last:
  assumes "length gs < 8" and "g < 65536"
  shows "parseIPv6_loop (to_hex g) gs e = Some (gs @ [g], e, [])"
  using assms scan_hex_to_hex [of g "[]"] by (subst parseIPv6_loop.simps) simp

lemma loop_colon:
  assumes "length gs < 8" and "g < 65536" and "s \<noteq> []" and "hd s \<noteq> CHR '':''"
  shows "parseIPv6_loop (to_hex g @ CHR '':'' # s) gs e = parseIPv6_loop s (gs @ [g]) e"
  using assms scan_hex_to_hex [of g "CHR '':'' # s"]
  by (subst parseIPv6_loop.simps) (cases s, auto)

lemma loop_ellipsis:
  assumes "length gs < 8" and "g < 65536"
  shows "parseIPv6_loop (to_hex g @ CHR '':'' # CHR '':'' # s) gs None =
    (if s = [] then Some (gs @ [g], Some (length gs + 1), [])
     else parseIPv6_loop s (gs @ [g]) (Some (length gs + 1)))"
  using assms scan_hex_to_hex [of g "CHR '':'' # CHR '':'' # s"]
  by (subst parseIPv6_loop.simps) simp

subsection \<open>Facts: joined groups\<close>

abbreviation text_groups :: "nat list \<Rightarrow> string" where
  "text_groups gs \<equiv> join '':'' (map to_hex gs)"

lemma hd_to_hex: "hd (to_hex g) \<noteq> CHR '':''"
  using to_hex_digits [of "hd (to_hex g)" g] hex_digit_neq by (metis hd_in_set to_hex_not_Nil)

lemma hd_text_groups: "gs \<noteq> [] \<Longrightarrow> hd (text_groups gs @ s) \<noteq> CHR '':''"
  by (cases gs) (auto simp: join_Cons hd_to_hex hd_append)

lemma text_groups_not_Nil: "gs \<noteq> [] \<Longrightarrow> text_groups gs \<noteq> []"
  by (cases gs) (auto simp: join_Cons)

lemma set_text_groups:
  assumes "c \<in> set (text_groups gs)"
  shows "c = CHR '':'' \<or> (\<exists>d < 16. c = hex_digit d)"
proof -
  have "c \<in> \<Union> (set ` set (map to_hex gs)) \<union> set '':''"
    using assms set_join by blast
  then show ?thesis using to_hex_digits by auto
qed

lemma loop_text_groups:
  assumes "hs \<noteq> []" and "length gs + length hs \<le> 8" and "\<forall>g \<in> set hs. g < 65536"
  shows "parseIPv6_loop (text_groups hs) gs e = Some (gs @ hs, e, [])"
  using assms
proof (induction hs arbitrary: gs)
  case (Cons h hs)
  show ?case
  proof (cases "hs = []")
    case False
    with Cons show ?thesis
      using hd_text_groups [of hs "[]"] text_groups_not_Nil [of hs] by (simp add: join_Cons loop_colon)
  qed (use Cons.prems in \<open>simp add: loop_last\<close>)
qed simp

lemma loop_text_groups_ellipsis:
  assumes "hs \<noteq> []" and "length gs + length hs \<le> 8" and "\<forall>g \<in> set hs. g < 65536"
  shows "parseIPv6_loop (text_groups hs @ CHR '':'' # CHR '':'' # s) gs None =
    (if s = [] then Some (gs @ hs, Some (length gs + length hs), [])
     else parseIPv6_loop s (gs @ hs) (Some (length gs + length hs)))"
  using assms
proof (induction hs arbitrary: gs)
  case (Cons h hs)
  show ?case
  proof (cases "hs = []")
    case False
    with Cons show ?thesis
      using hd_text_groups [of hs "CHR '':'' # CHR '':'' # s"] text_groups_not_Nil [of hs]
      by (simp add: join_Cons loop_colon)
  qed (use Cons.prems in \<open>simp add: loop_ellipsis\<close>)
qed simp

subsection \<open>Facts: printing groups\<close>

abbreviation colon_groups :: "nat list \<Rightarrow> string" where
  "colon_groups gs \<equiv> concat (map (\<lambda>g. CHR '':'' # to_hex g) gs)"

lemma text_groups_Cons: "join '':'' (to_hex g # map to_hex gs) = to_hex g @ colon_groups gs"
  by (induction gs arbitrary: g) (auto simp: join_Cons)

lemma print_groups_tail:
  assumes "length gs = 8" and "zs < i \<or> 8 \<le> zs" and "0 < i" and "i \<le> 8"
  shows "print_groups gs zs ze i = colon_groups (drop i gs)"
  using assms
proof (induction "8 - i" arbitrary: i)
  case 0
  then show ?case by (subst print_groups.simps) simp
next
  case (Suc n)
  then have "print_groups gs zs ze (Suc i) = colon_groups (drop (Suc i) gs)"
    by (intro Suc.hyps(1)) auto
  moreover have "drop i gs = gs ! i # drop (Suc i) gs"
    using Suc.hyps(2) Suc.prems by (intro Cons_nth_drop_Suc [symmetric]) linarith
  moreover have "i < 8" "i \<noteq> zs" using Suc.hyps(2) Suc.prems by auto
  ultimately show ?case
    using \<open>0 < i\<close> by (subst print_groups.simps) simp
qed

lemma print_groups_ellipsis:
  assumes "length gs = 8" and "zs < ze" and "ze \<le> 8"
  shows "print_groups gs zs ze zs = ''::'' @ text_groups (drop ze gs)"
proof (cases "ze = 8")
  case True
  with assms show ?thesis by (subst print_groups.simps) simp
next
  case False
  with assms have "print_groups gs zs ze (Suc ze) = colon_groups (drop (Suc ze) gs)"
    by (intro print_groups_tail) auto
  moreover have "drop ze gs = gs ! ze # drop (Suc ze) gs"
    using False assms by (simp add: Cons_nth_drop_Suc)
  ultimately show ?thesis
    using False assms by (subst print_groups.simps) (simp add: text_groups_Cons max_def del: join.simps)
qed

lemma print_groups_head:
  assumes "length gs = 8" and "zs < 8" and "0 < i" and "i \<le> zs"
  shows "print_groups gs zs ze i = colon_groups (drop i (take zs gs)) @ print_groups gs zs ze zs"
  using assms(3,4)
proof (induction "zs - i" arbitrary: i)
  case 0
  then show ?case by simp
next
  case (Suc n)
  then have "print_groups gs zs ze (Suc i) = colon_groups (drop (Suc i) (take zs gs)) @ print_groups gs zs ze zs"
    by (intro Suc.hyps(1)) auto
  moreover have "drop i (take zs gs) = gs ! i # drop (Suc i) (take zs gs)"
    using Suc.hyps(2) assms(1,2) by (subst Cons_nth_drop_Suc [symmetric]) auto
  moreover have "i < 8" "i \<noteq> zs" using Suc.hyps(2) assms(2) by auto
  ultimately show ?case
    using \<open>0 < i\<close> by (subst print_groups.simps) simp
qed

lemma print_groups_all:
  assumes "length gs = 8" and "8 \<le> zs"
  shows "print_groups gs zs ze 0 = text_groups gs"
proof -
  obtain g hs where gs: "gs = g # hs" using assms by (cases gs) auto
  have "print_groups gs zs ze (Suc 0) = colon_groups (drop (Suc 0) gs)"
    using assms by (intro print_groups_tail) auto
  then show ?thesis
    using assms by (subst print_groups.simps) (simp add: gs text_groups_Cons del: join.simps)
qed

lemma print_groups_gap:
  assumes "length gs = 8" and "zs < ze" and "ze \<le> 8"
  shows "print_groups gs zs ze 0 = text_groups (take zs gs) @ ''::'' @ text_groups (drop ze gs)"
proof (cases "zs = 0")
  case True
  then show ?thesis using assms print_groups_ellipsis [of gs zs ze] by simp
next
  case False
  obtain g hs where gs: "gs = g # hs" using assms by (cases gs) auto
  have "print_groups gs zs ze (Suc 0) = colon_groups (drop (Suc 0) (take zs gs)) @ print_groups gs zs ze zs"
    using assms False by (intro print_groups_head) auto
  then show ?thesis
    using assms False print_groups_ellipsis [OF assms]
    by (subst print_groups.simps) (cases zs, auto simp add: gs text_groups_Cons simp del: join.simps)
qed

subsection \<open>Facts: the run of zeros and the groups of a word\<close>

definition run_ok :: "nat list \<Rightarrow> nat \<times> nat \<Rightarrow> bool" where
  "run_ok gs r = (case r of (zs, ze) \<Rightarrow> r = (255, 255) \<or> (zs < ze \<and> ze \<le> 8 \<and> (\<forall>k. zs \<le> k \<and> k < ze \<longrightarrow> gs ! k = 0)))"

lemma run_ok_step:
  assumes "length gs = 8" and "run_ok gs r" and "i < 8"
    and "j = i + length (takeWhile (\<lambda>g. g = 0) (drop i gs))" and "2 \<le> j - i"
  shows "run_ok gs (i, j)"
proof -
  have j: "j \<le> 8"
    using assms(1,3,4) length_takeWhile_le [of "\<lambda>g. g = 0" "drop i gs"] by simp
  have "gs ! k = 0" if "i \<le> k" "k < j" for k
  proof -
    have *: "k - i < length (takeWhile (\<lambda>g. g = 0) (drop i gs))" using that assms(4) by simp
    then have "takeWhile (\<lambda>g. g = 0) (drop i gs) ! (k - i) = 0"
      using nth_mem set_takeWhileD by fastforce
    moreover have "takeWhile (\<lambda>g. g = 0) (drop i gs) ! (k - i) = drop i gs ! (k - i)"
      using * by (rule takeWhile_nth)
    ultimately show ?thesis using that assms(1,3) j by simp
  qed
  with j assms(5) show ?thesis by (simp add: run_ok_def)
qed

lemma run_ok_zero_run:
  assumes "length gs = 8"
  shows "run_ok gs (zero_run gs)"
proof -
  have "run_ok gs (foldl (\<lambda>(zs, ze) i.
     let j = i + length (takeWhile (\<lambda>g. g = 0) (drop i gs))
     in if j - i \<ge> 2 \<and> j - i > ze - zs then (i, j) else (zs, ze)) r is)"
    if "run_ok gs r" "\<forall>i \<in> set is. i < 8" for r "is"
    using that
  proof (induction "is" arbitrary: r)
    case (Cons i is')
    then show ?case
      using run_ok_step [OF assms, of r i] by (cases r) (auto simp: Let_def)
  qed simp
  then show ?thesis by (simp add: zero_run_def run_ok_def)
qed

lemma gap_zeros:
  assumes "zs < ze" and "ze \<le> length gs" and "\<forall>k. zs \<le> k \<and> k < ze \<longrightarrow> gs ! k = (0::nat)"
  shows "take zs gs @ replicate (ze - zs) 0 @ drop ze gs = gs"
proof (rule nth_equalityI)
  fix i
  assume "i < length (take zs gs @ replicate (ze - zs) 0 @ drop ze gs)"
  then have "i < length gs" using assms by simp
  consider "i < zs" | "zs \<le> i" "i < ze" | "ze \<le> i" by linarith
  then show "(take zs gs @ replicate (ze - zs) 0 @ drop ze gs) ! i = gs ! i"
    by cases (use assms \<open>i < length gs\<close> in \<open>auto simp: nth_append\<close>)
qed (use assms in simp)

lemma length_groups [simp]: "length (groups w) = 8"
  by (simp add: groups_def)

lemma groups_less: "g \<in> set (groups w) \<Longrightarrow> g < 65536"
  by (auto simp: groups_def)

lemma of_groups_groups: "of_groups (groups w) = w"
proof -
  define n where "n = unat w"
  have n: "n < 2 ^ 128" using unsigned_less [of w] by (simp add: n_def)
  have top: "n div 65536 div 65536 div 65536 div 65536 div 65536 div 65536 div 65536 mod 65536 =
      n div 65536 div 65536 div 65536 div 65536 div 65536 div 65536 div 65536"
    using n by (simp add: div_mult2_eq [symmetric])
  have "groups w = [n div 65536 div 65536 div 65536 div 65536 div 65536 div 65536 div 65536 mod 65536,
      n div 65536 div 65536 div 65536 div 65536 div 65536 div 65536 mod 65536,
      n div 65536 div 65536 div 65536 div 65536 div 65536 mod 65536,
      n div 65536 div 65536 div 65536 div 65536 mod 65536,
      n div 65536 div 65536 div 65536 mod 65536,
      n div 65536 div 65536 mod 65536, n div 65536 mod 65536, n mod 65536]"
    by (simp add: groups_def upt_rec n_def div_mult2_eq [symmetric])
  then have "foldl (\<lambda>v g. v * 65536 + g) 0 (groups w) = n"
    by (simp only: top foldl.simps mult_zero_left add_0 div_mult_mod_eq)
  then show ?thesis by (simp add: of_groups_def n_def)
qed

subsection \<open>Facts: the round trip of IPv6 text\<close>

lemma parse_groups_no_colon:
  assumes "s \<noteq> []" and "hd s \<noteq> CHR '':''"
  shows "parse_groups s = Option.bind (parseIPv6_loop s [] None) expand_ellipsis"
  using assms by (auto simp: parse_groups_def split: list.splits)

lemma parse_groups_print:
  assumes "length gs = 8" and "\<forall>g \<in> set gs. g < 65536" and "run_ok gs (zs, ze)"
  shows "parse_groups (print_groups gs zs ze 0) = Some gs"
proof (cases "zs = 255")
  case True
  then have *: "print_groups gs zs ze 0 = text_groups gs" using assms(1) by (simp add: print_groups_all)
  have ne: "gs \<noteq> []" using assms(1) by auto
  show ?thesis
    unfolding * using assms ne hd_text_groups [of gs "[]"] text_groups_not_Nil [of gs]
    by (simp add: parse_groups_no_colon loop_text_groups expand_ellipsis_def)
next
  case False
  then have z: "zs < ze" "ze \<le> 8" "\<forall>k. zs \<le> k \<and> k < ze \<longrightarrow> gs ! k = 0"
    using assms(3) by (auto simp: run_ok_def)
  have gap: "take zs gs @ replicate (ze - zs) 0 @ drop ze gs = gs"
    using z assms(1) by (intro gap_zeros) auto
  have small: "\<forall>g \<in> set (take zs gs). g < 65536" "\<forall>g \<in> set (drop ze gs). g < 65536"
    using assms(2) by (auto dest: in_set_takeD in_set_dropD)
  have *: "print_groups gs zs ze 0 = text_groups (take zs gs) @ ''::'' @ text_groups (drop ze gs)"
    using z assms(1) by (intro print_groups_gap)
  show ?thesis
  proof (cases "zs = 0")
    case True
    show ?thesis
    proof (cases "ze = 8")
      case True
      then show ?thesis
        unfolding * using gap \<open>zs = 0\<close> assms(1) by (simp add: parse_groups_def)
    next
      case False
      then show ?thesis
        unfolding * using gap \<open>zs = 0\<close> assms(1) z small text_groups_not_Nil [of "drop ze gs"]
        by (simp add: parse_groups_def loop_text_groups expand_ellipsis_def)
    qed
  next
    case False
    then have ne: "take zs gs \<noteq> []" using assms(1) by auto
    have len: "length (take zs gs) = zs" using z assms(1) by simp
    have "parse_groups (text_groups (take zs gs) @ ''::'' @ text_groups (drop ze gs)) =
        expand_ellipsis (take zs gs @ drop ze gs, Some zs, [])"
      using ne z small assms(1) hd_text_groups [OF ne] text_groups_not_Nil [OF ne]
        text_groups_not_Nil [of "drop ze gs"]
      by (cases "ze = 8")
        (simp_all add: parse_groups_no_colon loop_text_groups_ellipsis loop_text_groups)
    then show ?thesis
      unfolding * using gap z assms(1) len by (simp add: expand_ellipsis_def)
  qed
qed

lemma parse_groups_string6: "parse_groups (string6 w) = Some (groups w)"
  using parse_groups_print [of "groups w" "fst (zero_run (groups w))" "snd (zero_run (groups w))"]
    run_ok_zero_run [of "groups w"] groups_less
  by (simp add: string6_def Let_def case_prod_unfold)

lemma string6_chars:
  assumes "c \<in> set (string6 w)"
  shows "c = CHR '':'' \<or> (\<exists>d < 16. c = hex_digit d)"
proof -
  obtain zs ze where r: "zero_run (groups w) = (zs, ze)" by fastforce
  then have "run_ok (groups w) (zs, ze)" using run_ok_zero_run [of "groups w"] by simp
  then have "print_groups (groups w) zs ze 0 = text_groups (groups w) \<or>
      print_groups (groups w) zs ze 0 = text_groups (take zs (groups w)) @ ''::'' @ text_groups (drop ze (groups w))"
    using print_groups_all [of "groups w" zs ze] print_groups_gap [of "groups w" zs ze]
    by (auto simp: run_ok_def)
  then show ?thesis
    using assms by (auto simp: string6_def r dest!: set_text_groups)
qed

lemma string6_colon: "CHR '':'' \<in> set (string6 w)"
proof -
  obtain zs ze where r: "zero_run (groups w) = (zs, ze)" by fastforce
  then have ok: "run_ok (groups w) (zs, ze)" using run_ok_zero_run [of "groups w"] by simp
  obtain g h hs where gs: "groups w = g # h # hs"
    by (simp add: groups_def upt_rec)
  have "CHR '':'' \<in> set (text_groups (groups w))" by (simp add: gs)
  then have "CHR '':'' \<in> set (print_groups (groups w) zs ze 0)"
    using ok print_groups_all [of "groups w" zs ze] print_groups_gap [of "groups w" zs ze]
    by (auto simp: run_ok_def)
  then show ?thesis by (simp add: string6_def r)
qed

lemma string4_chars: "c \<in> set (string4 w) \<Longrightarrow> c = CHR ''.'' \<or> is_digit c"
  using set_join [of "''.''" "map itoa (octets w)"] itoa_digits
  by (fastforce simp: string4_def)

lemma first_mark_skip:
  "\<forall>c \<in> set s. c = CHR '':'' \<or> (\<exists>d < 16. c = hex_digit d) \<Longrightarrow> CHR '':'' \<in> set s \<Longrightarrow> first_mark s = Some (CHR '':'')"
  by (induction s) (auto dest: hex_digit_neq)

lemma first_mark_digits:
  "\<forall>c \<in> set s. is_digit c \<Longrightarrow> first_mark (s @ CHR ''.'' # t) = Some (CHR ''.'')"
  by (induction s) (auto dest: is_digit_neq)

lemma ParseAddr_string4: "ParseAddr (string4 w) = Some (Addr4 w)"
proof -
  obtain a as where "octets w = a # as" "as \<noteq> []" by (simp add: octets_def Let_def)
  then have "string4 w = itoa a @ CHR ''.'' # join ''.'' (map itoa as)"
    by (simp add: string4_def join_Cons)
  then have "first_mark (string4 w) = Some (CHR ''.'')"
    using first_mark_digits [of "itoa a"] itoa_digits by simp
  then show ?thesis by (simp add: ParseAddr_def parseIPv4_string4)
qed

lemma ParseAddr_string6: "ParseAddr (string6 w) = Some (Addr6 w [])"
proof -
  have "first_mark (string6 w) = Some (CHR '':'')"
    using string6_chars string6_colon by (intro first_mark_skip) auto
  moreover have "split_first (CHR ''%'') (string6 w) = None"
    by (auto simp: split_first_def dest!: string6_chars) (metis hex_digit_neq)
  ultimately show ?thesis
    by (simp add: ParseAddr_def parseIPv6_def parse_groups_string6 of_groups_groups)
qed

lemma ParseAddr_String:
  assumes "a \<noteq> Addr0" and "Zone a = []" and "\<not> Is4In6 a"
  shows "ParseAddr (addr_String a) = Some a"
  using assms by (cases a) (auto simp: ParseAddr_string4 ParseAddr_string6)

lemma itoa_leading: "1 < length (itoa n) \<Longrightarrow> 49 \<le> code (hd (itoa n)) \<and> code (hd (itoa n)) \<le> 57"
  using itoa_hd [of n] by (cases "n = 0") auto

lemma ParsePrefix_String:
  assumes "prefix_ok p" and "\<not> Is4In6 (pfx_ip p)"
  shows "ParsePrefix (prefix_String p) = Some p"
proof -
  obtain ip b where p: "p = Prefix ip (Suc b)"
    using assms(1) by (cases p) (auto simp: prefix_ok_def IsValid_def gr0_conv_Suc)
  have ip: "ip \<noteq> Addr0" "Zone ip = []" "\<not> Is4In6 ip" "b \<le> BitLen ip"
    using assms by (auto simp: p prefix_ok_def Bits_def)
  then have "b \<le> 128" by (cases ip) auto
  have "CHR ''/'' \<notin> set (itoa b)" using itoa_digits is_digit_neq by blast
  then have "split_last (CHR ''/'') (prefix_String p) = Some (addr_String ip, itoa b)"
    using split_last_append [of "CHR ''/''" "itoa b" "addr_String ip"]
    by (simp add: prefix_String_def p IsValid_def Bits_def)
  moreover have "withoutZone ip = ip" using ip(2) by (cases ip) auto
  moreover have "\<not> Is6 ip \<longrightarrow> b \<le> 32" using ip by (cases ip) auto
  ultimately show ?thesis
    using ip \<open>b \<le> 128\<close> itoa_leading [of b]
    by (auto simp: ParsePrefix_def ParseAddr_String Atoi_itoa PrefixFrom_def p)
qed

end
