(* ===== verification/Network.thy ===== *)
theory Network
  imports Netip_Text
begin

text \<open>
  The package \<^verbatim>\<open>internal/network\<close>: parsing and normalising indicators, the static table of special
  ranges, and \<^verbatim>\<open>BuildDesired\<close>, which turns feed candidates into enforcement objects.

  The map of builders is an association list; Go leaves the order in which a map is iterated
  open, so the order is the parameter \<open>iter\<close> of \<open>BuildDesired_iter\<close>, and the theorems hold for
  every \<open>iter\<close> that permutes its argument.
\<close>

subsection \<open>Definitions: normalize.go\<close>

datatype network_error = ErrInvalidNetwork

datatype Kind = KindInvalid | KindIP | KindRange

definition NormalizeAddress :: "string \<Rightarrow> (network_error, addr) result" where
  "NormalizeAddress raw =
     (if raw = [] \<or> raw \<noteq> TrimSpace raw then Inl ErrInvalidNetwork
      else case ParseAddr raw of
        None \<Rightarrow> Inl ErrInvalidNetwork
      | Some a \<Rightarrow> if Zone a \<noteq> [] then Inl ErrInvalidNetwork else Inr (Unmap a))"

definition NormalizePrefix :: "string \<Rightarrow> (network_error, netip_prefix) result" where
  "NormalizePrefix raw =
     (if raw = [] \<or> raw \<noteq> TrimSpace raw then Inl ErrInvalidNetwork
      else case ParsePrefix raw of
        None \<Rightarrow> Inl ErrInvalidNetwork
      | Some prefix \<Rightarrow>
          if \<not> IsValid prefix \<or> Zone (pfx_ip prefix) \<noteq> [] then Inl ErrInvalidNetwork
          else
            let a = pfx_ip prefix; bits = Bits prefix in
            if Is4In6 a then
              (if bits < 96 then Inl ErrInvalidNetwork
               else Inr (Masked (PrefixFrom (Unmap a) (bits - 96))))
            else Inr (Masked prefix))"

definition ParseValue :: "string \<Rightarrow> (network_error, netip_prefix \<times> Kind) result" where
  "ParseValue raw =
     (if Contains_byte raw (CHR ''/'') then
        (case NormalizePrefix raw of
           Inl err \<Rightarrow> Inl err
         | Inr prefix \<Rightarrow> Inr (prefix, KindRange))
      else
        (case NormalizeAddress raw of
           Inl err \<Rightarrow> Inl err
         | Inr a \<Rightarrow> Inr (PrefixFrom a (int (BitLen a)), KindIP)))"

definition ValidateKind :: "netip_prefix \<Rightarrow> Kind \<Rightarrow> network_error option" where
  "ValidateKind prefix kind =
     (if \<not> IsValid prefix \<or> prefix \<noteq> Masked prefix then Some ErrInvalidNetwork
      else case kind of
        KindIP \<Rightarrow> if Bits prefix \<noteq> int (BitLen (pfx_ip prefix)) then Some ErrInvalidNetwork else None
      | KindRange \<Rightarrow> None
      | KindInvalid \<Rightarrow> Some ErrInvalidNetwork)"

subsection \<open>Definitions: safety.go\<close>

datatype SafetyReason = SafetyNone | SafetyInvalid | SafetySpecial

definition safetyPrefixes :: "netip_prefix list" where
  "safetyPrefixes = map (\<lambda>s. the (ParsePrefix s))
     [''0.0.0.0/8'', ''10.0.0.0/8'', ''100.64.0.0/10'', ''127.0.0.0/8'', ''169.254.0.0/16'',
      ''172.16.0.0/12'', ''192.0.0.0/24'', ''192.0.2.0/24'', ''192.31.196.0/24'',
      ''192.52.193.0/24'', ''192.88.99.0/24'', ''192.168.0.0/16'', ''192.175.48.0/24'',
      ''198.18.0.0/15'', ''198.51.100.0/24'', ''203.0.113.0/24'', ''224.0.0.0/4'', ''240.0.0.0/4'',
      ''::/128'', ''::1/128'', ''::ffff:0:0/96'', ''64:ff9b::/96'', ''64:ff9b:1::/48'',
      ''100::/64'', ''2001::/23'', ''2001:db8::/32'', ''2002::/16'', ''2620:4f:8000::/48'',
      ''3fff::/20'', ''5f00::/16'', ''fc00::/7'', ''fe80::/10'', ''ff00::/8'']"

definition SafetyPrefixes :: "netip_prefix list" where
  "SafetyPrefixes = safetyPrefixes"

definition IsSafePrefix :: "netip_prefix \<Rightarrow> bool \<times> SafetyReason" where
  "IsSafePrefix prefix =
     (if \<not> IsValid prefix \<or> prefix \<noteq> Masked prefix \<or> \<not> IsGlobalUnicast (pfx_ip prefix)
      then (False, SafetyInvalid)
      else if list_ex (\<lambda>special. Overlaps prefix special) safetyPrefixes then (False, SafetySpecial)
      else (True, SafetyNone))"

subsection \<open>Definitions: dedupe.go\<close>

datatype Scope = ScopeIP | ScopeRange

text \<open>\<open>SuppressionStale\<close> is the fourth value of the type, declared by the package \<^verbatim>\<open>internal/state\<close>.\<close>

datatype Suppression = SuppressedNone | SuppressedAllowlist | SuppressedCovered | SuppressionStale

record Candidate =
  cand_Prefix :: netip_prefix
  cand_Kind :: Kind
  cand_FeedID :: int
  cand_FeedName :: string
  cand_FeedOrder :: int

record Contributor =
  ctb_FeedID :: int
  ctb_FeedName :: string
  ctb_FeedOrder :: int
  ctb_Kind :: Kind

record Object =
  obj_Prefix :: netip_prefix
  obj_Scope :: Scope
  obj_Contributors :: "Contributor list"
  obj_Primary :: Contributor
  obj_Desired :: bool
  obj_Suppression :: Suppression
  obj_CoveredBy :: "netip_prefix option"

record Summary =
  sum_Input :: nat
  sum_Objects :: nat
  sum_Desired :: nat
  sum_ExactDuplicates :: nat
  sum_RejectedSafety :: nat
  sum_Allowlisted :: nat
  sum_CoveredHosts :: nat

type_synonym contributorKey = "int \<times> string \<times> Kind"

record objectBuilder =
  bld_prefix :: netip_prefix
  bld_contributors :: "Contributor list"
  bld_seen :: "contributorKey list"

type_synonym builders = "(netip_prefix \<times> objectBuilder) list"

fun kind_num :: "Kind \<Rightarrow> nat" where
  "kind_num KindInvalid = 0"
| "kind_num KindIP = 1"
| "kind_num KindRange = 2"

definition compareContributor :: "Contributor \<Rightarrow> Contributor \<Rightarrow> int" where
  "compareContributor a b =
     cmp_then (cmp_Compare (ctb_FeedOrder a) (ctb_FeedOrder b))
     (cmp_then (cmp_Compare (ctb_FeedName a) (ctb_FeedName b))
     (cmp_then (cmp_Compare (ctb_FeedID a) (ctb_FeedID b))
       (cmp_Compare (kind_num (ctb_Kind a)) (kind_num (ctb_Kind b)))))"

definition compareObject :: "Object \<Rightarrow> Object \<Rightarrow> int" where
  "compareObject a b =
     (if Is4 (pfx_ip (obj_Prefix a)) \<noteq> Is4 (pfx_ip (obj_Prefix b)) then
        (if Is4 (pfx_ip (obj_Prefix a)) then -1 else 1)
      else
        (let value = addr_Compare (pfx_ip (obj_Prefix a)) (pfx_ip (obj_Prefix b)) in
         if value \<noteq> 0 then value
         else cmp_Compare (Bits (obj_Prefix a)) (Bits (obj_Prefix b))))"

definition overlapsAllowlist :: "netip_prefix \<Rightarrow> netip_prefix list \<Rightarrow> bool" where
  "overlapsAllowlist prefix allowlist =
     list_ex (\<lambda>allowed. IsValid allowed \<and> Overlaps prefix (Masked allowed)) allowlist"

definition candidate_contributor :: "Candidate \<Rightarrow> Contributor" where
  "candidate_contributor c =
     \<lparr>ctb_FeedID = cand_FeedID c, ctb_FeedName = cand_FeedName c,
      ctb_FeedOrder = cand_FeedOrder c, ctb_Kind = cand_Kind c\<rparr>"

definition candidate_key :: "Candidate \<Rightarrow> contributorKey" where
  "candidate_key c = (cand_FeedID c, cand_FeedName c, cand_Kind c)"

definition rejected :: "Candidate \<Rightarrow> bool" where
  "rejected c =
     (let prefix = Masked (cand_Prefix c) in
      \<not> fst (IsSafePrefix prefix) \<or> ValidateKind prefix (cand_Kind c) \<noteq> None \<or>
      cand_FeedID c < 1 \<or> cand_FeedName c = [])"

text \<open>The part of the loop body that runs once the builder exists: the contributor is recorded
  unless its key was seen.\<close>

definition add_contributor :: "Candidate \<Rightarrow> objectBuilder \<Rightarrow> objectBuilder" where
  "add_contributor c b =
     (if candidate_key c \<in> set (bld_seen b) then b
      else b\<lparr>bld_seen := bld_seen b @ [candidate_key c],
             bld_contributors := bld_contributors b @ [candidate_contributor c]\<rparr>)"

fun update_builder :: "netip_prefix \<Rightarrow> (objectBuilder \<Rightarrow> objectBuilder) \<Rightarrow> builders \<Rightarrow> builders" where
  "update_builder p f [] = []"
| "update_builder p f ((q, b) # bs) = (if p = q then (q, f b) # bs else (q, b) # update_builder p f bs)"

definition collect_step :: "Summary \<times> builders \<Rightarrow> Candidate \<Rightarrow> Summary \<times> builders" where
  "collect_step st candidate = (case st of (summary, builders) \<Rightarrow>
     let prefix = Masked (cand_Prefix candidate) in
     if rejected candidate then
       (summary\<lparr>sum_RejectedSafety := sum_RejectedSafety summary + 1\<rparr>, builders)
     else (case map_of builders prefix of
         None \<Rightarrow>
           (summary,
            builders @ [(prefix, add_contributor candidate
              \<lparr>bld_prefix = prefix, bld_contributors = [], bld_seen = []\<rparr>)])
       | Some _ \<Rightarrow>
           (summary\<lparr>sum_ExactDuplicates := sum_ExactDuplicates summary + 1\<rparr>,
            update_builder prefix (add_contributor candidate) builders)))"

definition make_object :: "netip_prefix list \<Rightarrow> objectBuilder \<Rightarrow> Object" where
  "make_object allowlist builder =
     (let contributors = sort_cmp compareContributor (bld_contributors builder);
          scope = (if list_ex (\<lambda>c. ctb_Kind c = KindIP) contributors then ScopeIP else ScopeRange);
          obj = \<lparr>obj_Prefix = bld_prefix builder, obj_Scope = scope, obj_Contributors = contributors,
                 obj_Primary = contributors ! 0, obj_Desired = True,
                 obj_Suppression = SuppressedNone, obj_CoveredBy = None\<rparr>
      in if overlapsAllowlist (obj_Prefix obj) allowlist
         then obj\<lparr>obj_Desired := False, obj_Suppression := SuppressedAllowlist\<rparr>
         else obj)"

definition object_step :: "netip_prefix list \<Rightarrow> Summary \<times> Object list \<Rightarrow> objectBuilder \<Rightarrow> Summary \<times> Object list" where
  "object_step allowlist st builder = (case st of (summary, objects) \<Rightarrow>
     let obj = make_object allowlist builder in
     (if overlapsAllowlist (obj_Prefix obj) allowlist
      then summary\<lparr>sum_Allowlisted := sum_Allowlisted summary + 1\<rparr> else summary,
      objects @ [obj]))"

definition covering_step :: "Object list \<Rightarrow> nat \<Rightarrow> netip_prefix option \<Rightarrow> nat \<Rightarrow> netip_prefix option" where
  "covering_step objects i covering j =
     (let oi = obj_Prefix (objects ! i); oj = obj_Prefix (objects ! j) in
      if i = j \<or> \<not> obj_Desired (objects ! j) \<or> obj_Scope (objects ! j) \<noteq> ScopeRange then covering
      else if Bits oj \<ge> int (BitLen (pfx_ip oi)) \<or> \<not> Contains oj (pfx_ip oi) then covering
      else (case covering of
          None \<Rightarrow> Some oj
        | Some c \<Rightarrow>
            if Bits oj > Bits c \<or> (Bits oj = Bits c \<and> addr_Compare (pfx_ip oj) (pfx_ip c) < 0)
            then Some oj else covering))"

definition cover_step :: "Summary \<times> Object list \<Rightarrow> nat \<Rightarrow> Summary \<times> Object list" where
  "cover_step st i = (case st of (summary, objects) \<Rightarrow>
     if \<not> obj_Desired (objects ! i) \<or> obj_Scope (objects ! i) \<noteq> ScopeIP then (summary, objects)
     else (case foldl (covering_step objects i) None [0..<length objects] of
         None \<Rightarrow> (summary, objects)
       | Some covering \<Rightarrow>
           (summary\<lparr>sum_CoveredHosts := sum_CoveredHosts summary + 1\<rparr>,
            objects[i := (objects ! i)\<lparr>obj_Desired := False, obj_Suppression := SuppressedCovered,
                                      obj_CoveredBy := Some covering\<rparr>])))"

definition new_Summary :: "nat \<Rightarrow> Summary" where
  "new_Summary n =
     \<lparr>sum_Input = n, sum_Objects = 0, sum_Desired = 0, sum_ExactDuplicates = 0,
      sum_RejectedSafety = 0, sum_Allowlisted = 0, sum_CoveredHosts = 0\<rparr>"

definition BuildDesired_iter ::
  "(builders \<Rightarrow> builders) \<Rightarrow> Candidate list \<Rightarrow> netip_prefix list \<Rightarrow> Object list \<times> Summary" where
  "BuildDesired_iter iter candidates allowlist =
     (let (summary1, builders) = foldl collect_step (new_Summary (length candidates), []) candidates;
          (summary2, objects2) =
            foldl (object_step allowlist) (summary1, []) (map snd (iter builders));
          objects3 = sort_cmp compareObject objects2;
          (summary4, objects4) = foldl cover_step (summary2, objects3) [0..<length objects3]
      in (objects4,
          summary4\<lparr>sum_Objects := length objects4,
                   sum_Desired := length (filter obj_Desired objects4)\<rparr>))"

definition BuildDesired :: "Candidate list \<Rightarrow> netip_prefix list \<Rightarrow> Object list \<times> Summary" where
  "BuildDesired = BuildDesired_iter (\<lambda>builders. builders)"

subsection \<open>Facts: normalisation\<close>

lemma ParseAddr_not_zero: "ParseAddr s = Some a \<Longrightarrow> a \<noteq> Addr0"
  by (auto simp: ParseAddr_def parseIPv4_def parseIPv6_def split: option.splits if_splits list.splits)

lemma ParsePrefix_prefix_ok:
  assumes "ParsePrefix s = Some p"
  shows "prefix_ok p"
proof -
  obtain ip bits where ip: "ip \<noteq> Addr0" "0 \<le> bits" "bits \<le> (if Is6 ip then 128 else 32)"
      and p: "p = PrefixFrom ip bits"
    using assms
    by (fastforce simp: ParsePrefix_def not_less dest!: ParseAddr_not_zero split: option.splits prod.splits if_splits)
  then show ?thesis by (cases ip) (auto simp: netip_defs)
qed

lemma Masked_fixed_canonical:
  assumes "IsValid p" and "p = Masked p"
  shows "canonical p"
proof -
  obtain ip n where p: "p = Prefix ip n" by (cases p)
  have "ip \<noteq> Addr0" "Zone ip = []" "Bits p \<le> int (BitLen ip)"
    using assms p by (cases ip; auto simp: netip_defs split: if_splits)+
  then show ?thesis using assms p by (simp add: canonical_def prefix_ok_def)
qed

lemma canonical_iff_Masked: "canonical p \<longleftrightarrow> IsValid p \<and> p = Masked p"
  using Masked_fixed_canonical by (auto simp: canonical_def prefix_ok_def)

lemma ValidateKind_None_iff:
  "ValidateKind p k = None \<longleftrightarrow>
     canonical p \<and> (k = KindRange \<or> (k = KindIP \<and> Bits p = int (BitLen (pfx_ip p))))"
  by (auto simp: ValidateKind_def canonical_iff_Masked split: Kind.splits)

lemma mask_not_4in6:
  fixes w :: "128 word"
  assumes "k > 32"
  shows "drop_bit 32 (w AND NOT (mask k)) \<noteq> 0xffff"
proof -
  have "\<not> bit (drop_bit 32 (w AND NOT (mask k))) 0"
    using assms by (simp add: bit_simps)
  moreover have "bit (0xffff :: 128 word) 0" by simp
  ultimately show ?thesis by metis
qed

lemma Masked_not_4in6:
  assumes "prefix_ok p" and "\<not> Is4In6 (pfx_ip p)"
  shows "\<not> Is4In6 (pfx_ip (Masked p))"
  using assms(1)
proof (cases rule: prefix_ok_cases)
  case (v4 w b)
  then show ?thesis by (simp add: Masked_4)
next
  case (v6 w b)
  show ?thesis
  proof (cases "b < 96")
    case True
    then show ?thesis using v6 mask_not_4in6 [of "128 - b" w] by (simp add: Masked_6 del: drop_bit_and)
  next
    case False
    then have "drop_bit 32 (w AND NOT (mask (128 - b))) = drop_bit 32 w"
      by (auto simp: bit_eq_iff bit_simps dest: bit_imp_le_length)
    then show ?thesis using v6 assms(2) by (simp add: Masked_6 del: drop_bit_and)
  qed
qed

lemma NormalizePrefix_cases:
  assumes "NormalizePrefix raw = Inr p"
  obtains q where "ParsePrefix raw = Some q" and "prefix_ok q"
    and "if Is4In6 (pfx_ip q) then 96 \<le> Bits q \<and> p = Masked (PrefixFrom (Unmap (pfx_ip q)) (Bits q - 96))
         else p = Masked q"
  using assms
  by (auto simp: NormalizePrefix_def Let_def dest: ParsePrefix_prefix_ok
      split: if_splits option.splits intro: that)

lemma NormalizePrefix_canonical:
  assumes "NormalizePrefix raw = Inr p"
  shows "canonical p \<and> \<not> Is4In6 (pfx_ip p)"
  using assms
proof (rule NormalizePrefix_cases)
  fix q
  assume q: "prefix_ok q"
    and p: "if Is4In6 (pfx_ip q) then 96 \<le> Bits q \<and> p = Masked (PrefixFrom (Unmap (pfx_ip q)) (Bits q - 96))
         else p = Masked q"
  show ?thesis
  proof (cases "Is4In6 (pfx_ip q)")
    case True
    with q obtain w b where "q = Prefix (Addr6 w []) (Suc b)" "b \<le> 128" "drop_bit 32 w = 0xffff"
      by (cases rule: prefix_ok_cases) auto
    moreover from this have "prefix_ok (PrefixFrom (Unmap (pfx_ip q)) (Bits q - 96))"
      using p True by (auto simp: netip_defs)
    ultimately show ?thesis using p True by (auto simp: netip_defs)
  next
    case False
    then show ?thesis using p q Masked_not_4in6 by auto
  qed
qed

subsection \<open>Facts: the text of normalised values\<close>

lemma space_len_graphic: "s \<noteq> [] \<Longrightarrow> 33 \<le> hd s \<and> hd s \<le> 126 \<Longrightarrow> space_len s = 0"
  by (cases s) (auto split: list.splits)

lemma space_len_rev_graphic: "s \<noteq> [] \<Longrightarrow> 33 \<le> hd s \<and> hd s \<le> 126 \<Longrightarrow> space_len_rev s = 0"
  by (cases s) (auto split: list.splits)

lemma TrimSpace_graphic:
  assumes "s \<noteq> []" and "33 \<le> code (hd s) \<and> code (hd s) \<le> 126"
    and "33 \<le> code (last s) \<and> code (last s) \<le> 126"
  shows "TrimSpace s = s"
proof -
  have "trim_left s = s"
    using assms space_len_graphic [of "map code s"] by (subst trim_left.simps) (simp add: hd_map)
  moreover have "trim_left_rev (rev s) = rev s"
    using assms space_len_rev_graphic [of "map code (rev s)"]
    by (subst trim_left_rev.simps) (simp add: hd_map hd_rev)
  ultimately show ?thesis by (simp add: TrimSpace_def)
qed

lemma digit_graphic: "is_digit c \<Longrightarrow> 33 \<le> code c \<and> code c \<le> 126"
  by (simp add: is_digit_def)

lemma addr_String_chars:
  assumes "a \<noteq> Addr0" and "Zone a = []" and "\<not> Is4In6 a" and "c \<in> set (addr_String a)"
  shows "33 \<le> code c \<and> code c \<le> 126 \<and> c \<noteq> CHR ''/''"
proof -
  have marks: "code (CHR ''.'') = 46" "code (CHR '':'') = 58" "code (CHR ''/'') = 47" by (simp_all add: code_def)
  have hex: "33 \<le> code (hex_digit d) \<and> code (hex_digit d) \<le> 126" if "d < 16" for d
    using that by (simp add: hex_digit_def)
  from assms have "c = CHR ''.'' \<or> c = CHR '':'' \<or> is_digit c \<or> (\<exists>d < 16. c = hex_digit d)"
    by (cases a) (auto dest: string4_chars string6_chars)
  then show ?thesis
    using marks hex hex_digit_neq is_digit_neq digit_graphic by auto
qed

lemma addr_String_not_Nil:
  assumes "a \<noteq> Addr0" and "Zone a = []" and "\<not> Is4In6 a"
  shows "addr_String a \<noteq> []"
  using ParseAddr_String [OF assms] by (auto simp: ParseAddr_def)

lemma NormalizePrefix_String:
  assumes "canonical p" and "\<not> Is4In6 (pfx_ip p)"
  shows "NormalizePrefix (prefix_String p) = Inr p"
proof -
  have ok: "prefix_ok p" using assms by auto
  then have a: "pfx_ip p \<noteq> Addr0" "Zone (pfx_ip p) = []" by (auto simp: prefix_ok_def)
  have str: "prefix_String p = addr_String (pfx_ip p) @ ''/'' @ itoa (nat (Bits p))"
    using ok by (simp add: prefix_String_def prefix_ok_def)
  have "hd (prefix_String p) \<in> set (addr_String (pfx_ip p))"
    using addr_String_not_Nil [OF a assms(2)] str by simp
  moreover have "is_digit (last (prefix_String p))"
    using itoa_digits str by (metis append_is_Nil_conv itoa_not_Nil last_append last_in_set)
  ultimately have "TrimSpace (prefix_String p) = prefix_String p"
    using str addr_String_chars [OF a assms(2)] digit_graphic by (intro TrimSpace_graphic) auto
  then show ?thesis
    using ok assms str ParsePrefix_String [OF ok assms(2)]
    by (auto simp: NormalizePrefix_def Let_def prefix_ok_def canonical_def)
qed

lemma NormalizeAddress_String:
  assumes "a \<noteq> Addr0" and "Zone a = []" and "\<not> Is4In6 a"
  shows "NormalizeAddress (addr_String a) = Inr a"
proof -
  have ne: "addr_String a \<noteq> []" using addr_String_not_Nil [OF assms] .
  then have "TrimSpace (addr_String a) = addr_String a"
    using addr_String_chars [OF assms] by (intro TrimSpace_graphic) auto
  moreover have "Unmap a = a" using assms(3) by (cases a) auto
  ultimately show ?thesis
    using ne assms by (simp add: NormalizeAddress_def ParseAddr_String)
qed

lemma ParseValue_ValidateKind:
  assumes "ParseValue raw = Inr (p, k)"
  shows "ValidateKind p k = None \<and> \<not> Is4In6 (pfx_ip p)"
proof (cases "Contains_byte raw (CHR ''/'')")
  case True
  with assms NormalizePrefix_canonical [of raw p] show ?thesis
    by (auto simp: ParseValue_def ValidateKind_None_iff split: sum.splits)
next
  case False
  with assms obtain a where a: "ParseAddr raw = Some a" "Zone a = []"
      and p: "p = PrefixFrom (Unmap a) (int (BitLen (Unmap a)))" "k = KindIP"
    by (auto simp: ParseValue_def NormalizeAddress_def split: sum.splits option.splits if_splits)
  have "a \<noteq> Addr0" using ParseAddr_not_zero [OF a(1)] .
  then show ?thesis
    using a p by (cases a) (auto simp: ValidateKind_None_iff netip_defs)
qed

text \<open>A prefix inside the mapped /96 is rewritten to the IPv4 prefix of the same addresses.\<close>

lemma drop_bit_eq_iff_bits:
  fixes v w :: "'a::len word"
  shows "drop_bit k v = drop_bit k w \<longleftrightarrow> (\<forall>n. bit v (k + n) = bit w (k + n))"
  unfolding bit_eq_iff by (simp add: bit_drop_bit_eq) (metis bit_imp_le_length le_add2 linorder_not_le order.trans)

lemma ucast_drop_bit_eq_iff:
  fixes v w :: "128 word"
  assumes "k \<le> 32" and "drop_bit 32 v = drop_bit 32 w"
  shows "drop_bit k (ucast v :: 32 word) = drop_bit k (ucast w) \<longleftrightarrow> drop_bit k v = drop_bit k w"
proof -
  have hi: "bit v n = bit w n" if "32 \<le> n" for n
    using assms(2) that unfolding drop_bit_eq_iff_bits by (metis le_add_diff_inverse)
  have lo: "bit (ucast x :: 32 word) n \<longleftrightarrow> n < 32 \<and> bit x n" for x :: "128 word" and n
    by (simp add: bit_simps)
  show ?thesis unfolding drop_bit_eq_iff_bits lo
    using hi linorder_not_less by blast
qed

lemma NormalizePrefix_mapped:
  assumes "NormalizePrefix raw = Inr p" and "ParsePrefix raw = Some q" and "Is4In6 (pfx_ip q)"
    and "Zone a = []"
  shows "Contains q a \<longleftrightarrow> Is4In6 a \<and> Contains p (Unmap a)"
proof -
  obtain q' where q': "ParsePrefix raw = Some q'" "prefix_ok q'"
      "96 \<le> Bits q'" "p = Masked (PrefixFrom (Unmap (pfx_ip q')) (Bits q' - 96))"
    using assms(1-3) by (rule_tac NormalizePrefix_cases [OF assms(1)]) auto
  then obtain w b where q: "q = Prefix (Addr6 w []) (Suc b)" "b \<le> 128" "drop_bit 32 w = 0xffff"
    using assms(2,3) by (cases rule: prefix_ok_cases [OF q'(2)]) auto
  with q' assms(2) have b: "96 \<le> b" and p: "p = Masked (Prefix (Addr4 (ucast w)) (Suc (b - 96)))"
    by (auto simp: netip_defs nat_diff_distrib)
  have "prefix_ok (Prefix (Addr4 (ucast w)) (Suc (b - 96)))"
    using q(2) by (simp add: netip_defs)
  then have pc: "Contains p c = Contains (Prefix (Addr4 (ucast w)) (Suc (b - 96))) c" for c
    unfolding p by (rule Masked_Contains)
  have k: "32 - (b - 96) = 128 - b" using b q(2) by simp
  show ?thesis
  proof (cases a)
    case (Addr6 v z)
    have "drop_bit 32 v = 0xffff" if "drop_bit (128 - b) v = drop_bit (128 - b) w"
      using drop_bit_coarser [OF that, of 32] b q(3) by simp
    then show ?thesis
      using Addr6 assms(4) q b ucast_drop_bit_eq_iff [of "128 - b" v w] by (auto simp: pc k)
  qed (use q in \<open>auto simp: netip_defs\<close>)
qed

subsection \<open>Facts: the table of special ranges\<close>

lemma safetyPrefixes_eval:
  "safetyPrefixes =
     [Prefix (Addr4 0) 9, Prefix (Addr4 0x0a000000) 9, Prefix (Addr4 0x64400000) 11,
      Prefix (Addr4 0x7f000000) 9, Prefix (Addr4 0xa9fe0000) 17, Prefix (Addr4 0xac100000) 13,
      Prefix (Addr4 0xc0000000) 25, Prefix (Addr4 0xc0000200) 25, Prefix (Addr4 0xc01fc400) 25,
      Prefix (Addr4 0xc034c100) 25, Prefix (Addr4 0xc0586300) 25, Prefix (Addr4 0xc0a80000) 17,
      Prefix (Addr4 0xc0af3000) 25, Prefix (Addr4 0xc6120000) 16, Prefix (Addr4 0xc6336400) 25,
      Prefix (Addr4 0xcb007100) 25, Prefix (Addr4 0xe0000000) 5, Prefix (Addr4 0xf0000000) 5,
      Prefix (Addr6 0 []) 129, Prefix (Addr6 1 []) 129,
      Prefix (Addr6 0xffff00000000 []) 97,
      Prefix (Addr6 0x0064ff9b000000000000000000000000 []) 97,
      Prefix (Addr6 0x0064ff9b000100000000000000000000 []) 49,
      Prefix (Addr6 0x01000000000000000000000000000000 []) 65,
      Prefix (Addr6 0x20010000000000000000000000000000 []) 24,
      Prefix (Addr6 0x20010db8000000000000000000000000 []) 33,
      Prefix (Addr6 0x20020000000000000000000000000000 []) 17,
      Prefix (Addr6 0x2620004f800000000000000000000000 []) 49,
      Prefix (Addr6 0x3fff0000000000000000000000000000 []) 21,
      Prefix (Addr6 0x5f000000000000000000000000000000 []) 17,
      Prefix (Addr6 0xfc000000000000000000000000000000 []) 8,
      Prefix (Addr6 0xfe800000000000000000000000000000 []) 11,
      Prefix (Addr6 0xff000000000000000000000000000000 []) 9]"
  by (simp add: safetyPrefixes_def text_eval replicate_numeral)

lemma safetyPrefixes_canonical: "\<forall>s \<in> set safetyPrefixes. canonical s"
  by (simp add: safetyPrefixes_eval netip_defs mask_eq_exp_minus_1)

lemma IsSafePrefix_iff:
  "fst (IsSafePrefix p) \<longleftrightarrow>
     canonical p \<and> IsGlobalUnicast (pfx_ip p) \<and> (\<forall>s \<in> set safetyPrefixes. \<not> Overlaps p s)"
  by (auto simp: IsSafePrefix_def canonical_iff_Masked list_ex_iff)

lemma safe_no_special:
  assumes "fst (IsSafePrefix p)" and "Contains p a" and "s \<in> set safetyPrefixes"
  shows "\<not> Contains s a"
  using assms Overlaps_iff_common [of p s] safetyPrefixes_canonical
  by (auto simp: IsSafePrefix_iff)

text \<open>The addresses no decision may ever hit, in words of their leading bits.\<close>

definition local_use :: "addr \<Rightarrow> bool" where
  "local_use a =
     (case a of
        Addr0 \<Rightarrow> False
      | Addr4 w \<Rightarrow> drop_bit 24 w \<in> {0, 10, 127} \<or> drop_bit 20 w = 0xac1 \<or> drop_bit 16 w \<in> {0xc0a8, 0xa9fe}
                  \<or> drop_bit 22 w = 0x191 \<or> drop_bit 29 w = 7
      | Addr6 w z \<Rightarrow> drop_bit 121 w = 0x7e \<or> drop_bit 118 w = 0x3fa \<or> drop_bit 120 w = 0xff
                  \<or> w = 0 \<or> w = 1 \<or> drop_bit 32 w = 0xffff)"

lemma Contains_num:
  "Contains (Prefix (Addr4 v) (numeral k)) (Addr4 w) \<longleftrightarrow> drop_bit (32 - pred_numeral k) w = drop_bit (32 - pred_numeral k) v"
  "Contains (Prefix (Addr6 x z) (numeral k)) (Addr6 y z') \<longleftrightarrow> z' = [] \<and> drop_bit (128 - pred_numeral k) y = drop_bit (128 - pred_numeral k) x"
  by (simp_all add: numeral_eq_Suc)

lemma local_use_special:
  assumes "local_use a" and "Zone a = []"
  shows "\<exists>s \<in> set safetyPrefixes. Contains s a"
proof (cases a)
  case Addr0
  with assms show ?thesis by (simp add: local_use_def)
next
  case (Addr4 w)
  have "drop_bit 28 w = 14 \<or> drop_bit 28 w = 15" if "drop_bit 29 w = 7"
  proof -
    have "drop_bit 29 w = drop_bit 1 (drop_bit 28 w)" by simp
    then have "unat (drop_bit 28 w) div 2 = unat (drop_bit 29 w)"
      by (metis drop_bit_eq_div power_one_right unat_drop_bit_eq)
    then have "unat (drop_bit 28 w) div 2 = 7" using that by simp
    then have "unat (drop_bit 28 w) = 14 \<or> unat (drop_bit 28 w) = 15" by linarith
    moreover have "drop_bit 28 w = of_nat (unat (drop_bit 28 w))" by simp
    ultimately show ?thesis by (metis of_nat_numeral)
  qed
  with assms Addr4 show ?thesis
    by (auto simp: local_use_def safetyPrefixes_eval Contains_num)
next
  case (Addr6 w z)
  with assms show ?thesis
    by (auto simp: local_use_def safetyPrefixes_eval Contains_num)
qed

subsection \<open>Facts: the comparators\<close>

interpretation ctb_cmp: cmp_order compareContributor
  unfolding compareContributor_def by (intro cmp_intros)

lemma compareObject_alt:
  "compareObject a b =
     cmp_then (cmp_Compare (\<not> Is4 (pfx_ip (obj_Prefix a))) (\<not> Is4 (pfx_ip (obj_Prefix b))))
     (cmp_then (addr_Compare (pfx_ip (obj_Prefix a)) (pfx_ip (obj_Prefix b)))
       (cmp_Compare (Bits (obj_Prefix a)) (Bits (obj_Prefix b))))"
  by (auto simp: compareObject_def cmp_then_def cmp_Compare_def Let_def)

interpretation obj_cmp: cmp_order compareObject
  unfolding compareObject_alt by (intro cmp_intros)

lemma compareObject_zero: "compareObject a b = 0 \<Longrightarrow> obj_Prefix a = obj_Prefix b"
  by (cases "obj_Prefix a"; cases "obj_Prefix b")
    (auto simp: compareObject_alt cmp_then_def Bits_def split: if_splits)

lemma compareContributor_zero: "compareContributor a b = 0 \<Longrightarrow> a = b"
  by (cases a; cases b; cases "ctb_Kind a"; cases "ctb_Kind b")
    (auto simp: compareContributor_def cmp_then_def split: if_splits)

subsection \<open>Facts: collecting the candidates\<close>

definition accepted_for :: "netip_prefix \<Rightarrow> Candidate list \<Rightarrow> Candidate list" where
  "accepted_for p cs = filter (\<lambda>c. \<not> rejected c \<and> Masked (cand_Prefix c) = p) cs"

definition builder_of :: "netip_prefix \<Rightarrow> Candidate list \<Rightarrow> objectBuilder" where
  "builder_of p cs =
     foldl (\<lambda>b c. add_contributor c b) \<lparr>bld_prefix = p, bld_contributors = [], bld_seen = []\<rparr> cs"

lemma map_of_update_builder:
  "map_of (update_builder p f bs) q = (if p = q then map_option f (map_of bs q) else map_of bs q)"
  by (induction p f bs rule: update_builder.induct) auto

lemma fst_update_builder [simp]: "map fst (update_builder p f bs) = map fst bs"
  by (induction p f bs rule: update_builder.induct) auto

lemma length_update_builder: "length (update_builder p f bs) = length bs"
  by (metis fst_update_builder length_map)

definition collected :: "Candidate list \<Rightarrow> builders \<Rightarrow> bool" where
  "collected cs bs \<longleftrightarrow> distinct (map fst bs) \<and>
     (\<forall>p. map_of bs p = (if accepted_for p cs = [] then None else Some (builder_of p (accepted_for p cs))))"

lemma collected_step:
  assumes "collected cs bs"
  shows "collected (cs @ [c]) (snd (collect_step (sm, bs) c))"
proof (cases "rejected c")
  case True
  with assms show ?thesis by (simp add: collect_step_def Let_def collected_def accepted_for_def)
next
  case False
  let ?p = "Masked (cand_Prefix c)"
  have acc: "accepted_for q (cs @ [c]) = (if q = ?p then accepted_for q cs @ [c] else accepted_for q cs)" for q
    using False by (simp add: accepted_for_def)
  show ?thesis
  proof (cases "map_of bs ?p")
    case None
    have "accepted_for ?p cs = []"
      using assms None unfolding collected_def by (metis option.distinct(1))
    moreover have "?p \<notin> fst ` set bs" using None by (simp add: map_of_eq_None_iff)
    ultimately show ?thesis using None False assms
      by (auto simp: collect_step_def Let_def collected_def acc builder_of_def map_add_def split: option.splits)
  next
    case (Some b)
    then have "accepted_for ?p cs \<noteq> []" "b = builder_of ?p (accepted_for ?p cs)"
      using assms by (auto simp: collected_def split: if_splits)
    with Some False assms show ?thesis
      by (auto simp: collect_step_def Let_def collected_def acc builder_of_def map_of_update_builder)
  qed
qed

lemma collect_step_counts:
  "sum_Input (fst (collect_step (sm, bs) c)) = sum_Input sm"
  "sum_RejectedSafety (fst (collect_step (sm, bs) c)) + sum_ExactDuplicates (fst (collect_step (sm, bs) c))
     + length (snd (collect_step (sm, bs) c))
   = sum_RejectedSafety sm + sum_ExactDuplicates sm + length bs + 1"
  "sum_RejectedSafety (fst (collect_step (sm, bs) c)) = sum_RejectedSafety sm + (if rejected c then 1 else 0)"
  "sum_Allowlisted (fst (collect_step (sm, bs) c)) = sum_Allowlisted sm"
  "sum_CoveredHosts (fst (collect_step (sm, bs) c)) = sum_CoveredHosts sm"
  by (auto simp: collect_step_def length_update_builder Let_def split: option.splits)

lemma collect_candidates:
  assumes "foldl collect_step (new_Summary n, []) cs = (sm, bs)"
  shows "collected cs bs \<and> sum_Input sm = n \<and>
    sum_RejectedSafety sm + sum_ExactDuplicates sm + length bs = length cs \<and>
    sum_RejectedSafety sm = length (filter rejected cs) \<and>
    sum_Allowlisted sm = 0 \<and> sum_CoveredHosts sm = 0"
  using assms
proof (induction cs arbitrary: sm bs rule: rev_induct)
  case Nil
  then show ?case by (auto simp: new_Summary_def collected_def accepted_for_def)
next
  case (snoc c cs)
  obtain sm' bs' where st: "foldl collect_step (new_Summary n, []) cs = (sm', bs')" by fastforce
  have "collect_step (sm', bs') c = (sm, bs)" using snoc.prems st by simp
  then show ?case
    using snoc.IH [OF st] collected_step [of cs bs' c sm'] collect_step_counts [of sm' bs' c] by auto
qed

lemma builder_of_snoc: "builder_of p (cs @ [c]) = add_contributor c (builder_of p cs)"
  by (simp add: builder_of_def)

definition ctb_key :: "Contributor \<Rightarrow> contributorKey" where
  "ctb_key c = (ctb_FeedID c, ctb_FeedName c, ctb_Kind c)"

lemma builder_of_spec:
  "bld_prefix (builder_of p cs) = p \<and>
   set (bld_contributors (builder_of p cs)) \<subseteq> candidate_contributor ` set cs \<and>
   bld_seen (builder_of p cs) = map ctb_key (bld_contributors (builder_of p cs)) \<and>
   set (bld_seen (builder_of p cs)) = candidate_key ` set cs \<and>
   distinct (bld_seen (builder_of p cs))"
proof (induction cs rule: rev_induct)
  case Nil
  then show ?case by (simp add: builder_of_def)
next
  case (snoc c cs)
  have "ctb_key (candidate_contributor c) = candidate_key c"
    by (simp add: ctb_key_def candidate_contributor_def candidate_key_def)
  with snoc show ?case
    by (auto simp: builder_of_snoc add_contributor_def)
qed

subsection \<open>Facts: the objects before coverage\<close>

lemma object_steps:
  "foldl (object_step al) (sm, os) bs =
     (sm\<lparr>sum_Allowlisted := sum_Allowlisted sm + length (filter (\<lambda>b. overlapsAllowlist (bld_prefix b) al) bs)\<rparr>,
      os @ map (make_object al) bs)"
proof (induction bs arbitrary: sm os)
  case (Cons b bs)
  have "obj_Prefix (make_object al b) = bld_prefix b" by (simp add: make_object_def Let_def)
  then have "object_step al (sm, os) b =
      (if overlapsAllowlist (bld_prefix b) al then sm\<lparr>sum_Allowlisted := sum_Allowlisted sm + 1\<rparr> else sm,
       os @ [make_object al b])"
    by (simp add: object_step_def Let_def)
  then show ?case by (simp add: Cons)
qed simp

lemma make_object_simps [simp]:
  "obj_Prefix (make_object al b) = bld_prefix b"
  "obj_Contributors (make_object al b) = sort_cmp compareContributor (bld_contributors b)"
  "obj_Primary (make_object al b) = sort_cmp compareContributor (bld_contributors b) ! 0"
  "obj_Desired (make_object al b) = (\<not> overlapsAllowlist (bld_prefix b) al)"
  "obj_Scope (make_object al b) = (if \<exists>c \<in> set (bld_contributors b). ctb_Kind c = KindIP then ScopeIP else ScopeRange)"
  "obj_Suppression (make_object al b) = (if overlapsAllowlist (bld_prefix b) al then SuppressedAllowlist else SuppressedNone)"
  "obj_CoveredBy (make_object al b) = None"
  by (auto simp: make_object_def Let_def list_ex_iff)

text \<open>The objects sorted by prefix, before covered hosts are suppressed, for one order of the map.\<close>

definition base_objects :: "netip_prefix list \<Rightarrow> builders \<Rightarrow> Object list" where
  "base_objects al bs = sort_cmp compareObject (map (make_object al) (map snd bs))"

lemma collected_prefix: "collected cs bs \<Longrightarrow> (p, b) \<in> set bs \<Longrightarrow> b = builder_of p (accepted_for p cs) \<and> accepted_for p cs \<noteq> []"
  using map_of_is_SomeI [of bs p b] by (fastforce simp: collected_def split: if_splits)

lemma collected_prefixes: "collected cs bs \<Longrightarrow> map (bld_prefix \<circ> snd) bs = map fst bs"
  using collected_prefix builder_of_spec by fastforce

lemma base_objects_distinct:
  "collected cs bs \<Longrightarrow> distinct (map obj_Prefix (base_objects al bs))"
  using collected_prefixes [of cs bs] by (simp add: base_objects_def collected_def comp_def del: map_eq_conv)

lemma base_objects_perm:
  assumes "collected cs bs" and "mset bs' = mset bs"
  shows "base_objects al bs' = base_objects al bs"
  unfolding base_objects_def
proof (rule obj_cmp.sort_cmp_perm)
  show "mset (map (make_object al) (map snd bs')) = mset (map (make_object al) (map snd bs))"
    using assms(2) by simp
  have "inj_on obj_Prefix (set (base_objects al bs))"
    using base_objects_distinct [OF assms(1)] by (simp add: distinct_map)
  moreover have "set (map (make_object al) (map snd bs')) = set (base_objects al bs)"
    using mset_eq_setD [OF assms(2)] by (simp add: base_objects_def)
  ultimately show "x = y" if "x \<in> set (map (make_object al) (map snd bs'))"
      "y \<in> set (map (make_object al) (map snd bs'))" "compareObject x y = 0" for x y
    using that compareObject_zero [of x y] by (auto dest: inj_onD)
qed

lemma set_base_objects: "set (base_objects al bs) = make_object al ` snd ` set bs"
  by (simp add: base_objects_def image_image)

subsection \<open>Facts: coverage\<close>

definition cover_of :: "Object list \<Rightarrow> nat \<Rightarrow> netip_prefix option" where
  "cover_of os i = foldl (covering_step os i) None [0..<length os]"

definition covers :: "Object list \<Rightarrow> nat \<Rightarrow> nat \<Rightarrow> bool" where
  "covers os i j \<longleftrightarrow> i \<noteq> j \<and> obj_Desired (os ! j) \<and> obj_Scope (os ! j) = ScopeRange \<and>
     Bits (obj_Prefix (os ! j)) < int (BitLen (pfx_ip (obj_Prefix (os ! i)))) \<and>
     Contains (obj_Prefix (os ! j)) (pfx_ip (obj_Prefix (os ! i)))"

definition covered :: "Object list \<Rightarrow> nat \<Rightarrow> Object" where
  "covered os i =
     (if \<not> obj_Desired (os ! i) \<or> obj_Scope (os ! i) \<noteq> ScopeIP then os ! i
      else case cover_of os i of
        None \<Rightarrow> os ! i
      | Some c \<Rightarrow> (os ! i)\<lparr>obj_Desired := False, obj_Suppression := SuppressedCovered, obj_CoveredBy := Some c\<rparr>)"

lemma covering_step_alt:
  "covering_step os i cov j =
     (if covers os i j
      then (case cov of None \<Rightarrow> Some (obj_Prefix (os ! j))
            | Some c \<Rightarrow> if Bits (obj_Prefix (os ! j)) > Bits c \<or> (Bits (obj_Prefix (os ! j)) = Bits c \<and>
                         addr_Compare (pfx_ip (obj_Prefix (os ! j))) (pfx_ip c) < 0)
                       then Some (obj_Prefix (os ! j)) else cov)
      else cov)"
  by (auto simp: covering_step_def covers_def Let_def split: option.splits)

lemma covering_fold:
  "case foldl (covering_step os i) None [0..<n] of
     None \<Rightarrow> \<forall>j < n. \<not> covers os i j
   | Some c \<Rightarrow> (\<exists>j < n. covers os i j \<and> c = obj_Prefix (os ! j)) \<and>
       (\<forall>j < n. covers os i j \<longrightarrow> Bits (obj_Prefix (os ! j)) \<le> Bits c)"
proof (induction n)
  case (Suc n)
  then show ?case
    by (auto simp: covering_step_alt less_Suc_eq split: option.splits)
qed simp

lemma cover_of_None: "cover_of os i = None \<longleftrightarrow> (\<forall>j < length os. \<not> covers os i j)"
  using covering_fold [where os = os and i = i and n = "length os"] by (auto simp: cover_of_def split: option.splits)

lemma cover_of_Some:
  assumes "cover_of os i = Some c"
  shows "(\<exists>j < length os. covers os i j \<and> c = obj_Prefix (os ! j)) \<and>
    (\<forall>j < length os. covers os i j \<longrightarrow> Bits (obj_Prefix (os ! j)) \<le> Bits c)"
  using covering_fold [where os = os and i = i and n = "length os"] assms by (simp add: cover_of_def)

text \<open>Suppressing hosts leaves every range as it is, so the loop may update the list in place.\<close>

lemma covered_same [simp]:
  "obj_Prefix (covered os i) = obj_Prefix (os ! i)"
  "obj_Scope (covered os i) = obj_Scope (os ! i)"
  "obj_Contributors (covered os i) = obj_Contributors (os ! i)"
  "obj_Primary (covered os i) = obj_Primary (os ! i)"
  by (auto simp: covered_def split: option.splits)

lemma covered_range: "obj_Scope (os ! i) = ScopeRange \<Longrightarrow> covered os i = os ! i"
  by (simp add: covered_def)

lemma cover_of_partial:
  assumes "os' = map (covered os) [0..<k] @ drop k os" and "k \<le> length os"
    and "i < length os"
  shows "cover_of os' i = cover_of os i"
proof -
  have len: "length os' = length os" using assms by simp
  have nth: "os' ! j = (if j < k then covered os j else os ! j)" if "j < length os" for j
    using assms that by (auto simp: nth_append)
  have pfx: "obj_Prefix (os' ! j) = obj_Prefix (os ! j)" if "j < length os" for j
    using nth [OF that] by simp
  have "covers os' i j = covers os i j" if "j < length os" for j
    using nth [OF \<open>i < length os\<close>] nth [OF that] covered_range [of os j] by (auto simp: covers_def)
  then have "foldl (covering_step os' i) None [0..<n] = foldl (covering_step os i) None [0..<n]"
    if "n \<le> length os" for n
    using that pfx by (induction n) (auto simp: covering_step_alt Suc_le_eq split: option.splits)
  then show ?thesis by (simp add: cover_of_def len)
qed

lemma cover_loop:
  "k \<le> length os \<Longrightarrow>
   foldl cover_step (sm, os) [0..<k] =
     (sm\<lparr>sum_CoveredHosts := sum_CoveredHosts sm +
        length (filter (\<lambda>i. obj_Desired (os ! i) \<and> \<not> obj_Desired (covered os i)) [0..<k])\<rparr>,
      map (covered os) [0..<k] @ drop k os)"
proof (induction k)
  case (Suc k)
  let ?os = "map (covered os) [0..<k] @ drop k os"
  have k: "k < length os" using Suc.prems by simp
  have nth: "?os ! k = os ! k" using k by (simp add: nth_append)
  have cov: "foldl (covering_step ?os k) None [0..<length ?os] = cover_of os k"
    using cover_of_partial [of ?os os k k] k by (simp add: cover_of_def)
  have upd: "?os[k := o'] = map (covered os) [0..<k] @ o' # drop (Suc k) os" for o'
    using k by (simp add: list_update_append Cons_nth_drop_Suc [symmetric])
  have same: "?os = map (covered os) [0..<k] @ os ! k # drop (Suc k) os"
    using k by (simp add: Cons_nth_drop_Suc)
  have "cover_step (sm', ?os) k =
      (sm'\<lparr>sum_CoveredHosts := sum_CoveredHosts sm' +
        (if obj_Desired (os ! k) \<and> \<not> obj_Desired (covered os k) then 1 else 0)\<rparr>,
       map (covered os) [0..<k] @ covered os k # drop (Suc k) os)" for sm'
    unfolding cover_step_def prod.case cov nth upd
    using same by (auto simp: covered_def split: option.splits)
  then show ?case using Suc.IH k by simp
qed simp

subsection \<open>Facts: the result of BuildDesired\<close>

definition builders_of :: "Candidate list \<Rightarrow> builders" where
  "builders_of cs = snd (foldl collect_step (new_Summary (length cs), []) cs)"

definition objects_of :: "Candidate list \<Rightarrow> netip_prefix list \<Rightarrow> Object list" where
  "objects_of cs al = base_objects al (builders_of cs)"

abbreviation permutes :: "(builders \<Rightarrow> builders) \<Rightarrow> bool" where
  "permutes iter \<equiv> (\<forall>bs. mset (iter bs) = mset bs)"

lemma collected_builders_of: "collected cs (builders_of cs)"
  using collect_candidates [of "length cs" cs] by (auto simp: builders_of_def prod_eq_iff)

lemma length_objects_of [simp]: "length (objects_of cs al) = length (builders_of cs)"
  by (simp add: objects_of_def base_objects_def)

lemma BuildDesired_iter_objects:
  assumes "permutes iter"
  shows "fst (BuildDesired_iter iter cs al) = map (covered (objects_of cs al)) [0..<length (objects_of cs al)]"
proof -
  obtain sm where st: "foldl collect_step (new_Summary (length cs), []) cs = (sm, builders_of cs)"
    by (metis builders_of_def prod.collapse)
  have "sort_cmp compareObject (map (make_object al) (map snd (iter (builders_of cs)))) = objects_of cs al"
    using base_objects_perm [OF collected_builders_of [of cs], of "iter (builders_of cs)" al] assms
    by (simp add: objects_of_def base_objects_def)
  then show ?thesis
    unfolding BuildDesired_iter_def st Let_def object_steps prod.case append_Nil
    by (simp add: cover_loop)
qed

lemma accepted_for_canonical:
  assumes "c \<in> set (accepted_for p cs)"
  shows "fst (IsSafePrefix p)" and "canonical p" and "ValidateKind p (cand_Kind c) = None"
  using assms by (auto simp: accepted_for_def rejected_def Let_def IsSafePrefix_iff)

lemma objects_of_iff:
  "ob \<in> set (objects_of cs al) \<longleftrightarrow>
     (\<exists>p. accepted_for p cs \<noteq> [] \<and> ob = make_object al (builder_of p (accepted_for p cs)))"
proof
  assume "ob \<in> set (objects_of cs al)"
  then obtain p b where "(p, b) \<in> set (builders_of cs)" "ob = make_object al b"
    by (auto simp: objects_of_def set_base_objects)
  with collected_prefix [OF collected_builders_of] show "\<exists>p. accepted_for p cs \<noteq> [] \<and> ob = make_object al (builder_of p (accepted_for p cs))"
    by blast
next
  assume "\<exists>p. accepted_for p cs \<noteq> [] \<and> ob = make_object al (builder_of p (accepted_for p cs))"
  then obtain p where p: "accepted_for p cs \<noteq> []" "ob = make_object al (builder_of p (accepted_for p cs))"
    by blast
  then have "map_of (builders_of cs) p = Some (builder_of p (accepted_for p cs))"
    using collected_builders_of [of cs] by (simp add: collected_def)
  with p show "ob \<in> set (objects_of cs al)"
    by (force simp: objects_of_def set_base_objects dest: map_of_SomeD)
qed

lemma objects_of_facts:
  assumes "ob \<in> set (objects_of cs al)"
  shows "fst (IsSafePrefix (obj_Prefix ob))" and "canonical (obj_Prefix ob)"
    and "obj_Desired ob \<longleftrightarrow> \<not> overlapsAllowlist (obj_Prefix ob) al"
    and "obj_Scope ob = ScopeIP \<Longrightarrow> Bits (obj_Prefix ob) = int (BitLen (pfx_ip (obj_Prefix ob)))"
    and "obj_Contributors ob \<noteq> []" and "obj_Primary ob = hd (obj_Contributors ob)"
    and "sorted_by compareContributor (obj_Contributors ob)"
    and "set (obj_Contributors ob) \<subseteq> candidate_contributor ` set (accepted_for (obj_Prefix ob) cs)"
    and "ctb_key ` set (obj_Contributors ob) = candidate_key ` set (accepted_for (obj_Prefix ob) cs)"
    and "distinct (map ctb_key (obj_Contributors ob))"
proof -
  obtain p where p: "accepted_for p cs \<noteq> []" "ob = make_object al (builder_of p (accepted_for p cs))"
    using assms objects_of_iff by blast
  let ?b = "builder_of p (accepted_for p cs)"
  note b = builder_of_spec [of p "accepted_for p cs"]
  obtain c where c: "c \<in> set (accepted_for p cs)" using p(1) by (meson last_in_set)
  have pfx: "obj_Prefix ob = p" using b p by simp
  have ne: "bld_contributors ?b \<noteq> []" using b p(1) by (metis image_is_empty list.map_disc_iff set_empty)
  show "fst (IsSafePrefix (obj_Prefix ob))" "canonical (obj_Prefix ob)"
    using accepted_for_canonical [OF c] pfx by auto
  show "obj_Desired ob \<longleftrightarrow> \<not> overlapsAllowlist (obj_Prefix ob) al"
    "sorted_by compareContributor (obj_Contributors ob)"
    using p by (auto intro: ctb_cmp.sorted_sort_cmp)
  show "obj_Contributors ob \<noteq> []" "obj_Primary ob = hd (obj_Contributors ob)"
    using p ne by (auto simp: hd_conv_nth)
  show "set (obj_Contributors ob) \<subseteq> candidate_contributor ` set (accepted_for (obj_Prefix ob) cs)"
    using p b pfx by auto
  show "ctb_key ` set (obj_Contributors ob) = candidate_key ` set (accepted_for (obj_Prefix ob) cs)"
    using p b pfx by (metis list.set_map make_object_simps(2) set_sort_cmp)
  show "distinct (map ctb_key (obj_Contributors ob))"
    using p(2) b by (metis distinct_map_sort_cmp make_object_simps(2))
  assume "obj_Scope ob = ScopeIP"
  then obtain d where "d \<in> set (bld_contributors ?b)" "ctb_Kind d = KindIP"
    using p by (auto split: if_splits)
  then obtain c' where "c' \<in> set (accepted_for p cs)" "cand_Kind c' = KindIP"
    using b by (fastforce simp: candidate_contributor_def)
  then show "Bits (obj_Prefix ob) = int (BitLen (pfx_ip (obj_Prefix ob)))"
    using accepted_for_canonical(3) [of c' p cs] pfx by (simp add: ValidateKind_None_iff)
qed

lemma filter_partition_length:
  "length (filter (\<lambda>x. P x \<and> Q x) xs) + length (filter (\<lambda>x. P x \<and> \<not> Q x) xs) = length (filter P xs)"
  by (induction xs) auto

lemma length_filter_via_map: "length (filter (\<lambda>x. P (f x)) xs) = length (filter P (map f xs))"
  by (simp add: filter_map comp_def)

lemma BuildDesired_iter_counts:
  assumes "permutes iter" and "BuildDesired_iter iter cs al = (os, s)"
  shows "sum_Input s = length cs" and "sum_RejectedSafety s = length (filter rejected cs)"
    and "sum_Input s = sum_RejectedSafety s + sum_ExactDuplicates s + sum_Objects s"
    and "sum_Objects s = length os" and "sum_Desired s = length (filter obj_Desired os)"
    and "sum_Objects s = sum_Desired s + sum_Allowlisted s + sum_CoveredHosts s"
    and "sum_Allowlisted s = length (filter (\<lambda>ob. overlapsAllowlist (obj_Prefix ob) al) os)"
proof -
  obtain sm where st: "foldl collect_step (new_Summary (length cs), []) cs = (sm, builders_of cs)"
    by (metis builders_of_def prod.collapse)
  note sm = collect_candidates [OF st]
  let ?bs = "iter (builders_of cs)" and ?os = "objects_of cs al"
  have mset: "mset ?bs = mset (builders_of cs)" using assms(1) by blast
  then have srt: "sort_cmp compareObject (map (make_object al) (map snd ?bs)) = ?os"
    using base_objects_perm [OF collected_builders_of [of cs], of ?bs al]
    by (simp add: objects_of_def base_objects_def)
  have os: "os = map (covered ?os) [0..<length ?os]"
    using BuildDesired_iter_objects [OF assms(1), of cs al] assms(2) by simp
  let ?al = "length (filter (\<lambda>b. overlapsAllowlist (bld_prefix b) al) (map snd ?bs))"
  let ?cov = "length (filter (\<lambda>i. obj_Desired (?os ! i) \<and> \<not> obj_Desired (covered ?os i)) [0..<length ?os])"
  have s: "s = sm\<lparr>sum_Allowlisted := ?al, sum_CoveredHosts := ?cov, sum_Objects := length os,
      sum_Desired := length (filter obj_Desired os)\<rparr>"
    using assms(2) sm unfolding BuildDesired_iter_def st Let_def object_steps prod.case append_Nil srt
    by (auto simp: cover_loop)
  have len: "length os = length (builders_of cs)" by (simp add: os)
  show "sum_Input s = length cs" "sum_RejectedSafety s = length (filter rejected cs)"
    "sum_Input s = sum_RejectedSafety s + sum_ExactDuplicates s + sum_Objects s"
    "sum_Objects s = length os" "sum_Desired s = length (filter obj_Desired os)"
    using sm len by (auto simp: s)
  have al1: "?al = length (filter (\<lambda>o'. \<not> obj_Desired o') (map (make_object al) (map snd ?bs)))"
    by (simp add: filter_map comp_def)
  also have al2: "\<dots> = length (filter (\<lambda>o'. \<not> obj_Desired o') ?os)"
    by (metis mset_filter mset_sort_cmp size_mset srt)
  also have "\<dots> = length (filter (\<lambda>i. \<not> obj_Desired (?os ! i)) [0..<length ?os])"
    by (metis (no_types, lifting) filter_map length_map map_nth comp_apply filter_cong)
  finally have al: "?al = \<dots>" .
  have "map obj_Prefix os = map obj_Prefix ?os"
    by (rule nth_equalityI) (simp_all add: os)
  then have "length (filter (\<lambda>ob. overlapsAllowlist (obj_Prefix ob) al) os) =
      length (filter (\<lambda>ob. overlapsAllowlist (obj_Prefix ob) al) ?os)"
    using length_filter_via_map [where f = obj_Prefix and P = "\<lambda>p. overlapsAllowlist p al"] by metis
  also have "\<dots> = length (filter (\<lambda>o'. \<not> obj_Desired o') ?os)"
    using objects_of_facts(3) by (intro arg_cong [of _ _ length] filter_cong) auto
  finally show "sum_Allowlisted s = length (filter (\<lambda>ob. overlapsAllowlist (obj_Prefix ob) al) os)"
    using al1 al2 by (simp add: s)
  have des: "length (filter obj_Desired os) =
      length (filter (\<lambda>i. obj_Desired (?os ! i) \<and> obj_Desired (covered ?os i)) [0..<length ?os])"
    unfolding os by (simp add: filter_map comp_def) (rule arg_cong [of _ _ length],
      rule filter_cong, auto simp: covered_def split: option.splits if_splits)
  show "sum_Objects s = sum_Desired s + sum_Allowlisted s + sum_CoveredHosts s"
    using al des sum_length_filter_compl [of "\<lambda>i. obj_Desired (?os ! i)" "[0..<length ?os]"]
      filter_partition_length [of "\<lambda>i. obj_Desired (?os ! i)" "\<lambda>i. obj_Desired (covered ?os i)" "[0..<length ?os]"]
    by (simp add: s os)
qed

lemma host_single:
  assumes "prefix_ok p" and "Bits p = int (BitLen (pfx_ip p))" and "Contains p a"
  shows "a = pfx_ip p"
  using assms by (cases rule: prefix_ok_cases; cases a) (auto simp: Bits_def Contains_num)

lemma Contains_Zone: "Contains p a \<Longrightarrow> Zone a = []"
  by (auto simp: Contains_def split: if_splits)

lemma overlapsAllowlist_common:
  assumes "\<not> overlapsAllowlist p al" and "prefix_ok p" and "q \<in> set al" and "prefix_ok q" and "Contains p a"
  shows "\<not> Contains q a"
  using assms Overlaps_iff_common [of p "Masked q"] Masked_prefix_ok [of q] Masked_Contains [of q a]
  by (auto simp: overlapsAllowlist_def list_ex_iff prefix_ok_def)

lemma covered_desired_iff:
  assumes "i < length os"
  shows "obj_Desired (covered os i) \<longleftrightarrow>
    obj_Desired (os ! i) \<and> \<not> (obj_Scope (os ! i) = ScopeIP \<and> (\<exists>j < length os. covers os i j))"
  using cover_of_None [of os i] by (auto simp: covered_def split: option.splits)

lemma nth_covered_all [simp]: "i < length os \<Longrightarrow> map (covered os) [0..<length os] ! i = covered os i"
  by simp

lemma desired_range_survives:
  assumes "j < length os" and "covers os i j"
  shows "os ! j \<in> set (map (covered os) [0..<length os])"
  using assms covered_range [of os j] by (force simp: covers_def)

lemma covered_facts:
  assumes "permutes iter" and "ob \<in> set (fst (BuildDesired_iter iter cs al))"
  obtains i where "i < length (objects_of cs al)" and "ob = covered (objects_of cs al) i"
    and "objects_of cs al ! i \<in> set (objects_of cs al)"
  using assms(2) BuildDesired_iter_objects [OF assms(1), of cs al] by auto

lemma covered_in:
  assumes "permutes iter" and "i < length (objects_of cs al)"
  shows "covered (objects_of cs al) i \<in> set (fst (BuildDesired_iter iter cs al))"
  using assms(2) BuildDesired_iter_objects [OF assms(1), of cs al] by auto

text \<open>
  C1. Whatever the feeds deliver and in whatever order Go iterates its map of builders, an object
  that \<^verbatim>\<open>BuildDesired\<close> marks desired covers no address of local use (loopback, private,
  link-local, shared, multicast, reserved, unique-local, mapped), no address of any range of
  \<^verbatim>\<open>safetyPrefixes\<close>, and no address of any allowlisted prefix.
\<close>

theorem BuildDesired_desired_is_safe:
  assumes "permutes iter" and "ob \<in> set (fst (BuildDesired_iter iter cs al))"
    and "obj_Desired ob" and "Contains (obj_Prefix ob) a"
  shows "\<not> local_use a \<and> (\<forall>s \<in> set safetyPrefixes. \<not> Contains s a) \<and>
    (\<forall>q \<in> set al. prefix_ok q \<longrightarrow> \<not> Contains q a)"
proof -
  obtain i where i: "i < length (objects_of cs al)" "ob = covered (objects_of cs al) i"
      "objects_of cs al ! i \<in> set (objects_of cs al)"
    using assms(1,2) by (rule covered_facts)
  note f = objects_of_facts [OF i(3)]
  have pfx: "obj_Prefix ob = obj_Prefix (objects_of cs al ! i)" using i by simp
  have des: "obj_Desired (objects_of cs al ! i)" using assms(3) covered_desired_iff [OF i(1)] i(2) by simp
  have special: "\<not> Contains s a" if "s \<in> set safetyPrefixes" for s
    using safe_no_special [OF _ assms(4)] f(1) pfx that by simp
  moreover have "\<not> local_use a"
    using special local_use_special [of a] Contains_Zone [OF assms(4)] by blast
  moreover have "\<not> Contains q a" if "q \<in> set al" "prefix_ok q" for q
    using overlapsAllowlist_common [of "obj_Prefix ob" al q a] des f(2,3) pfx that assms(4) by auto
  ultimately show ?thesis by blast
qed

text \<open>
  C2. Suppressing covered hosts gives up no protection: every address of an accepted candidate
  whose prefix stays clear of the allowlist is covered by some object that is desired.
\<close>

theorem BuildDesired_no_protection_lost:
  assumes "permutes iter" and "c \<in> set cs" and "\<not> rejected c"
    and "\<not> overlapsAllowlist (Masked (cand_Prefix c)) al" and "Contains (Masked (cand_Prefix c)) a"
  shows "\<exists>ob \<in> set (fst (BuildDesired_iter iter cs al)). obj_Desired ob \<and> Contains (obj_Prefix ob) a"
proof -
  let ?os = "objects_of cs al" and ?p = "Masked (cand_Prefix c)"
  have acc: "accepted_for ?p cs \<noteq> []"
    using assms(2,3) by (auto simp: accepted_for_def filter_empty_conv)
  define b where "b = make_object al (builder_of ?p (accepted_for ?p cs))"
  have b: "b \<in> set ?os" using acc objects_of_iff b_def by blast
  then obtain i where i: "i < length ?os" "?os ! i = b" by (metis in_set_conv_nth)
  have bp: "obj_Prefix b = ?p" using builder_of_spec [of ?p] by (simp add: b_def)
  have bd: "obj_Desired b" using objects_of_facts(3) [OF b] bp assms(4) by simp
  show ?thesis
  proof (cases "obj_Desired (covered ?os i)")
    case True
    then show ?thesis using covered_in [OF assms(1) i(1)] i bp assms(5) by force
  next
    case False
    then obtain j where j: "j < length ?os" "covers ?os i j" and ip: "obj_Scope b = ScopeIP"
      using covered_desired_iff [OF i(1)] bd i(2) by auto
    have "a = pfx_ip ?p"
      using host_single [of ?p a] objects_of_facts(2,4) [OF b] ip bp assms(5) by auto
    then have "Contains (obj_Prefix (?os ! j)) a" "obj_Desired (?os ! j)"
      using j(2) i(2) bp by (auto simp: covers_def)
    then show ?thesis
      using desired_range_survives [OF j] BuildDesired_iter_objects [OF assms(1), of cs al] by auto
  qed
qed

text \<open>
  C33. The covering range is the right one: in the result an object is desired exactly when it
  stays clear of the allowlist and is not a host inside a desired range that is wider than a
  single address; a host suppressed as covered names as \<^verbatim>\<open>CoveredBy\<close> such a range, and no other
  desired range that contains the host is more specific.
\<close>

theorem BuildDesired_coverage:
  assumes "permutes iter" and "ob \<in> set (fst (BuildDesired_iter iter cs al))"
  defines "ranges \<equiv> {obj_Prefix r |r. r \<in> set (fst (BuildDesired_iter iter cs al)) \<and> obj_Desired r \<and>
     obj_Scope r = ScopeRange \<and> Bits (obj_Prefix r) < int (BitLen (pfx_ip (obj_Prefix ob))) \<and>
     Contains (obj_Prefix r) (pfx_ip (obj_Prefix ob))}"
  shows "(obj_Desired ob \<longleftrightarrow>
       \<not> overlapsAllowlist (obj_Prefix ob) al \<and> \<not> (obj_Scope ob = ScopeIP \<and> ranges \<noteq> {})) \<and>
     (case obj_CoveredBy ob of
        None \<Rightarrow> obj_Suppression ob \<noteq> SuppressedCovered
      | Some q \<Rightarrow> obj_Suppression ob = SuppressedCovered \<and> q \<in> ranges \<and> (\<forall>r \<in> ranges. Bits r \<le> Bits q))"
proof -
  let ?os = "objects_of cs al"
  obtain i where i: "i < length ?os" "ob = covered ?os i" "?os ! i \<in> set ?os"
    using assms(1,2) by (rule covered_facts)
  note f = objects_of_facts [OF i(3)]
  have res: "set (fst (BuildDesired_iter iter cs al)) = covered ?os ` {..<length ?os}"
    using BuildDesired_iter_objects [OF assms(1), of cs al] by (auto simp: atLeast0LessThan)
  have base: "obj_CoveredBy (?os ! i) = None \<and> obj_Suppression (?os ! i) \<noteq> SuppressedCovered"
    using i(3) unfolding objects_of_iff [of _ cs al] by (auto split: if_splits)
  have ranges: "ranges = {obj_Prefix (?os ! j) |j. j < length ?os \<and> covers ?os i j}" if "obj_Scope (?os ! i) = ScopeIP"
  proof -
    have "obj_Desired (covered ?os j) \<and> obj_Scope (covered ?os j) = ScopeRange \<longleftrightarrow>
        obj_Desired (?os ! j) \<and> obj_Scope (?os ! j) = ScopeRange \<and> i \<noteq> j" if "j < length ?os" for j
      using covered_range [of ?os j] \<open>obj_Scope (?os ! i) = ScopeIP\<close> by auto
    moreover have "ranges = {obj_Prefix (covered ?os j) |j. j < length ?os \<and> obj_Desired (covered ?os j) \<and>
        obj_Scope (covered ?os j) = ScopeRange \<and>
        Bits (obj_Prefix (covered ?os j)) < int (BitLen (pfx_ip (obj_Prefix ob))) \<and>
        Contains (obj_Prefix (covered ?os j)) (pfx_ip (obj_Prefix ob))}"
      unfolding ranges_def res by blast
    ultimately show ?thesis
      unfolding covers_def i(2) covered_same by blast
  qed
  show ?thesis
  proof (cases "obj_Desired (?os ! i) \<and> obj_Scope (?os ! i) = ScopeIP")
    case False
    then have "ob = ?os ! i" using i(2) by (auto simp: covered_def)
    then show ?thesis using False base f(3) by auto
  next
    case True
    show ?thesis
    proof (cases "cover_of ?os i")
      case None
      then show ?thesis using True base f(3) i(2) cover_of_None [of ?os i] ranges by (auto simp: covered_def)
    next
      case (Some q)
      then have "ob = (?os ! i)\<lparr>obj_Desired := False, obj_Suppression := SuppressedCovered, obj_CoveredBy := Some q\<rparr>"
        using True i(2) by (simp add: covered_def)
      then show ?thesis using True cover_of_Some [OF Some] ranges by auto
    qed
  qed
qed

text \<open>
  The summary accounts for every candidate and every object: each candidate is rejected, a
  duplicate or the first of its object, and each object is desired, allowlisted or covered.
\<close>

theorem BuildDesired_summary_adds_up:
  assumes "permutes iter" and "BuildDesired_iter iter cs al = (os, s)"
  shows "sum_Input s = length cs \<and> sum_RejectedSafety s = length (filter rejected cs) \<and>
    sum_Input s = sum_RejectedSafety s + sum_ExactDuplicates s + sum_Objects s \<and>
    sum_Objects s = length os \<and> sum_Desired s = length (filter obj_Desired os) \<and>
    sum_Objects s = sum_Desired s + sum_Allowlisted s + sum_CoveredHosts s"
  using BuildDesired_iter_counts [OF assms] by blast

lemma builder_of_consistent:
  assumes "\<forall>c \<in> set cs. \<forall>d \<in> set cs. candidate_key c = candidate_key d \<longrightarrow> cand_FeedOrder c = cand_FeedOrder d"
  shows "set (bld_contributors (builder_of p cs)) = candidate_contributor ` set cs"
proof -
  have inj: "candidate_contributor c = candidate_contributor d"
    if "c \<in> set cs" "d \<in> set cs" "candidate_key c = candidate_key d" for c d
  proof -
    from assms that have "cand_FeedOrder c = cand_FeedOrder d" by blast
    with that(3) show ?thesis by (simp add: candidate_key_def candidate_contributor_def)
  qed
  have key: "ctb_key (candidate_contributor c) = candidate_key c" for c
    by (simp add: ctb_key_def candidate_contributor_def candidate_key_def)
  note b = builder_of_spec [of p cs]
  have "candidate_contributor c \<in> set (bld_contributors (builder_of p cs))" if c: "c \<in> set cs" for c
  proof -
    have "candidate_key c \<in> ctb_key ` set (bld_contributors (builder_of p cs))"
      using b c by (metis image_eqI list.set_map)
    then obtain d where "d \<in> set (bld_contributors (builder_of p cs))" "candidate_key c = ctb_key d" by auto
    moreover from this obtain c' where "c' \<in> set cs" "d = candidate_contributor c'" using b by auto
    ultimately show ?thesis using inj [OF c] key by metis
  qed
  then show ?thesis using b by auto
qed

lemma make_object_same_contributors:
  assumes "bld_prefix b = bld_prefix b'" and "mset (bld_contributors b) = mset (bld_contributors b')"
  shows "make_object al b = make_object al b'"
proof -
  have "sort_cmp compareContributor (bld_contributors b) = sort_cmp compareContributor (bld_contributors b')"
    using assms(2) compareContributor_zero by (intro ctb_cmp.sort_cmp_perm) auto
  then show ?thesis using assms(1) by (simp add: make_object_def)
qed

lemma objects_of_perm:
  assumes "mset cs = mset cs'"
    and "\<forall>c \<in> set cs. \<forall>d \<in> set cs. candidate_key c = candidate_key d \<longrightarrow> cand_FeedOrder c = cand_FeedOrder d"
  shows "objects_of cs al = objects_of cs' al"
proof -
  have set: "set cs = set cs'" using assms(1) by (rule mset_eq_setD)
  have acc: "set (accepted_for p cs) = set (accepted_for p cs')" for p
    using set by (simp add: accepted_for_def)
  have same: "make_object al (builder_of p (accepted_for p cs)) = make_object al (builder_of p (accepted_for p cs'))" for p
  proof (rule make_object_same_contributors)
    have "set (bld_contributors (builder_of p (accepted_for p cs))) = set (bld_contributors (builder_of p (accepted_for p cs')))"
      using assms(2) set acc
      by (subst (1 2) builder_of_consistent) (auto simp: accepted_for_def)
    moreover have "distinct (bld_contributors (builder_of p xs))" for xs
      using builder_of_spec [of p xs] by (metis distinct_map)
    ultimately show "mset (bld_contributors (builder_of p (accepted_for p cs))) = mset (bld_contributors (builder_of p (accepted_for p cs')))"
      by (simp add: set_eq_iff_mset_eq_distinct)
  qed (use builder_of_spec in simp)
  have ne: "accepted_for p cs = [] \<longleftrightarrow> accepted_for p cs' = []" for p
    using acc [of p] by (metis set_empty)
  have mem: "set (objects_of cs al) = set (objects_of cs' al)"
    using ne by (simp add: set_eq_iff objects_of_iff same)
  have dist: "distinct (map obj_Prefix (objects_of xs al))" for xs
    using base_objects_distinct [OF collected_builders_of] by (simp add: objects_of_def)
  have inj: "inj_on obj_Prefix (set (objects_of cs al))" using dist by (metis distinct_map)
  show ?thesis
  proof (rule obj_cmp.sorted_unique)
    show "sorted_by compareObject (objects_of cs al)" "sorted_by compareObject (objects_of cs' al)"
      by (auto simp: objects_of_def base_objects_def intro: obj_cmp.sorted_sort_cmp)
    show "mset (objects_of cs al) = mset (objects_of cs' al)"
      using mem dist by (metis distinct_map set_eq_iff_mset_eq_distinct)
    show "x = y" if "x \<in> set (objects_of cs al)" "y \<in> set (objects_of cs al)" "compareObject x y = 0" for x y
      using inj_onD [OF inj compareObject_zero [OF that(3)]] that by blast
  qed
qed

text \<open>
  C34. The result is deterministic: neither the order in which the map of builders is iterated nor
  the order of the candidates matters, as long as one feed reports one position under one key.
\<close>

theorem BuildDesired_deterministic:
  assumes "permutes iter" and "mset cs = mset cs'"
    and "\<forall>c \<in> set cs. \<forall>d \<in> set cs. candidate_key c = candidate_key d \<longrightarrow> cand_FeedOrder c = cand_FeedOrder d"
  shows "BuildDesired_iter iter cs al = BuildDesired cs' al"
proof -
  obtain os s where r: "BuildDesired_iter iter cs al = (os, s)" by fastforce
  obtain os' s' where r': "BuildDesired_iter (\<lambda>bs. bs) cs' al = (os', s')" by fastforce
  have os: "os = os'"
    using BuildDesired_iter_objects [OF assms(1), of cs al] BuildDesired_iter_objects [of "\<lambda>bs. bs" cs' al]
      objects_of_perm [OF assms(2,3), of al] r r' by simp
  note n = BuildDesired_iter_counts [OF assms(1) r]
  note n' = BuildDesired_iter_counts [OF _ r']
  have rej: "length (filter rejected cs) = length (filter rejected cs')"
    using assms(2) by (metis mset_filter size_mset)
  have len: "length cs = length cs'" using assms(2) by (metis size_mset)
  have "s = s'"
    by (rule Summary.equality) (use n n' os rej len in auto)
  then show ?thesis using r r' os by (simp add: BuildDesired_def)
qed

lemma BuildDesired_iter_prefixes:
  assumes "permutes iter"
  shows "map obj_Prefix (fst (BuildDesired_iter iter cs al)) = map obj_Prefix (objects_of cs al)"
  using BuildDesired_iter_objects [OF assms, of cs al] by (auto intro!: nth_equalityI)

lemma compareObject_covered: "compareObject (covered os i) (covered os j) = compareObject (os ! i) (os ! j)"
  by (simp add: compareObject_def)

lemma sorted_covered: "sorted_by compareObject os \<Longrightarrow> sorted_by compareObject (map (covered os) [0..<length os])"
  by (simp add: sorted_wrt_iff_nth_less compareObject_covered)

text \<open>
  The objects are well formed: strictly ordered by \<^verbatim>\<open>compareObject\<close> with pairwise different
  prefixes, each prefix canonical and safe; an object of scope \<^verbatim>\<open>Ip\<close> is a single
  address; the contributors are ordered, non-empty (so that indexing the first one cannot panic),
  come from accepted candidates of that prefix and cover every key among them exactly once, and
  the primary contributor is the least of them.
\<close>

theorem BuildDesired_well_formed:
  assumes "permutes iter"
  shows "sorted_by compareObject (fst (BuildDesired_iter iter cs al)) \<and>
    distinct (map obj_Prefix (fst (BuildDesired_iter iter cs al))) \<and>
    (\<forall>ob \<in> set (fst (BuildDesired_iter iter cs al)).
       canonical (obj_Prefix ob) \<and> fst (IsSafePrefix (obj_Prefix ob)) \<and>
       (obj_Scope ob = ScopeIP \<longrightarrow> Bits (obj_Prefix ob) = int (BitLen (pfx_ip (obj_Prefix ob)))) \<and>
       obj_Contributors ob \<noteq> [] \<and> obj_Primary ob = hd (obj_Contributors ob) \<and>
       sorted_by compareContributor (obj_Contributors ob) \<and>
       distinct (map ctb_key (obj_Contributors ob)) \<and>
       set (obj_Contributors ob) \<subseteq> candidate_contributor ` set (accepted_for (obj_Prefix ob) cs) \<and>
       ctb_key ` set (obj_Contributors ob) = candidate_key ` set (accepted_for (obj_Prefix ob) cs))"
proof (intro conjI ballI)
  let ?os = "objects_of cs al"
  have "sorted_by compareObject ?os"
    by (simp add: objects_of_def base_objects_def obj_cmp.sorted_sort_cmp)
  then show "sorted_by compareObject (fst (BuildDesired_iter iter cs al))"
    unfolding BuildDesired_iter_objects [OF assms] by (rule sorted_covered)
  show "distinct (map obj_Prefix (fst (BuildDesired_iter iter cs al)))"
    unfolding BuildDesired_iter_prefixes [OF assms]
    using base_objects_distinct [OF collected_builders_of] by (simp add: objects_of_def)
next
  fix ob
  assume "ob \<in> set (fst (BuildDesired_iter iter cs al))"
  then obtain i where i: "ob = covered (objects_of cs al) i" "objects_of cs al ! i \<in> set (objects_of cs al)"
    by (rule covered_facts [OF assms])
  note f = objects_of_facts [OF i(2)]
  show "canonical (obj_Prefix ob)" "fst (IsSafePrefix (obj_Prefix ob))"
    "obj_Scope ob = ScopeIP \<longrightarrow> Bits (obj_Prefix ob) = int (BitLen (pfx_ip (obj_Prefix ob)))"
    "obj_Contributors ob \<noteq> []" "obj_Primary ob = hd (obj_Contributors ob)"
    "sorted_by compareContributor (obj_Contributors ob)" "distinct (map ctb_key (obj_Contributors ob))"
    "set (obj_Contributors ob) \<subseteq> candidate_contributor ` set (accepted_for (obj_Prefix ob) cs)"
    "ctb_key ` set (obj_Contributors ob) = candidate_key ` set (accepted_for (obj_Prefix ob) cs)"
    using f i(1) by auto
qed

text \<open>
  Values survive their textual form: a canonical prefix that is not IPv4-mapped is what
  \<^verbatim>\<open>ParseValue\<close> reads from its text, which is how prefixes are written to and read from the
  database and sent to the LAPI.
\<close>

theorem ParseValue_prefix_String:
  assumes "canonical p" and "\<not> Is4In6 (pfx_ip p)"
  shows "ParseValue (prefix_String p) = Inr (p, KindRange) \<and>
    (Bits p = int (BitLen (pfx_ip p)) \<longrightarrow> ParseValue (addr_String (pfx_ip p)) = Inr (p, KindIP))"
proof -
  have a: "pfx_ip p \<noteq> Addr0" "Zone (pfx_ip p) = []" "IsValid p" "withoutZone (pfx_ip p) = pfx_ip p"
    using assms(1) by (cases "pfx_ip p"; auto simp: canonical_def prefix_ok_def)+
  have "CHR ''/'' \<notin> set (addr_String (pfx_ip p))"
    using addr_String_chars [OF a(1,2) assms(2)] by blast
  moreover have "PrefixFrom (pfx_ip p) (int (BitLen (pfx_ip p))) = p" if "Bits p = int (BitLen (pfx_ip p))"
    using a that by (cases p) (auto simp: netip_defs)
  moreover have "CHR ''/'' \<in> set (prefix_String p)" using a(3) by (simp add: prefix_String_def)
  ultimately show ?thesis
    using NormalizePrefix_String [OF assms] NormalizeAddress_String [OF a(1,2) assms(2)]
    by (simp add: ParseValue_def Contains_byte_def)
qed

text \<open>
  Parsing yields only what the other operations accept: the prefix is canonical, agrees with
  its kind and is not IPv4-mapped; it denotes the same addresses as the text, an IPv4-mapped
  CIDR those of the IPv4 CIDR inside it.
\<close>

theorem ParseValue_sound:
  assumes "ParseValue raw = Inr (p, k)"
  shows "ValidateKind p k = None \<and> \<not> Is4In6 (pfx_ip p) \<and>
    (\<forall>q a. ParsePrefix raw = Some q \<and> k = KindRange \<and> Zone a = [] \<longrightarrow>
       (Contains q a \<longleftrightarrow> (if Is4In6 (pfx_ip q) then Is4In6 a \<and> Contains p (Unmap a) else Contains p a)))"
proof -
  have "Contains q a \<longleftrightarrow> (if Is4In6 (pfx_ip q) then Is4In6 a \<and> Contains p (Unmap a) else Contains p a)"
    if q: "ParsePrefix raw = Some q" "k = KindRange" "Zone a = []" for q a
  proof -
    have np: "NormalizePrefix raw = Inr p"
      using assms q(2) by (auto simp: ParseValue_def split: if_splits sum.splits)
    show ?thesis
    proof (cases "Is4In6 (pfx_ip q)")
      case True
      then show ?thesis using NormalizePrefix_mapped [OF np q(1) True q(3)] by simp
    next
      case False
      have "p = Masked q"
        using False q(1) by (rule_tac NormalizePrefix_cases [OF np]) auto
      then show ?thesis using False Masked_Contains [OF ParsePrefix_prefix_ok [OF q(1)]] by simp
    qed
  qed
  then show ?thesis using ParseValue_ValidateKind [OF assms] by blast
qed

subsection \<open>A concrete run\<close>

definition sample_candidates :: "Candidate list" where
  "sample_candidates =
     [\<lparr>cand_Prefix = Prefix (Addr4 0x08080808) 33, cand_Kind = KindIP, cand_FeedID = 1,
       cand_FeedName = ''alpha'', cand_FeedOrder = 0\<rparr>,
      \<lparr>cand_Prefix = Prefix (Addr4 0x08080800) 25, cand_Kind = KindRange, cand_FeedID = 2,
       cand_FeedName = ''beta'', cand_FeedOrder = 1\<rparr>,
      \<lparr>cand_Prefix = Prefix (Addr4 0x0a000000) 9, cand_Kind = KindRange, cand_FeedID = 2,
       cand_FeedName = ''beta'', cand_FeedOrder = 1\<rparr>]"

definition sample_allowlist :: "netip_prefix list" where
  "sample_allowlist = [Prefix (Addr4 0x09000000) 9]"

lemmas network_eval = BuildDesired_iter_def new_Summary_def cover_step_def covering_step_def
  compareObject_def addr_Compare_def cmp_then_def cmp_Compare_def make_object_def object_step_def
  collect_step_def rejected_def IsSafePrefix_def safetyPrefixes_eval netip_defs mask_eq_exp_minus_1
  IsGlobalUnicast_def ValidateKind_def Let_def add_contributor_def candidate_key_def
  candidate_contributor_def overlapsAllowlist_def sample_candidates_def sample_allowlist_def upt_rec

lemma sample_run:
  "BuildDesired_iter (\<lambda>bs. bs) sample_candidates sample_allowlist =
     ([\<lparr>obj_Prefix = Prefix (Addr4 0x08080800) 25, obj_Scope = ScopeRange,
        obj_Contributors = [\<lparr>ctb_FeedID = 2, ctb_FeedName = ''beta'', ctb_FeedOrder = 1, ctb_Kind = KindRange\<rparr>],
        obj_Primary = \<lparr>ctb_FeedID = 2, ctb_FeedName = ''beta'', ctb_FeedOrder = 1, ctb_Kind = KindRange\<rparr>,
        obj_Desired = True, obj_Suppression = SuppressedNone, obj_CoveredBy = None\<rparr>,
       \<lparr>obj_Prefix = Prefix (Addr4 0x08080808) 33, obj_Scope = ScopeIP,
        obj_Contributors = [\<lparr>ctb_FeedID = 1, ctb_FeedName = ''alpha'', ctb_FeedOrder = 0, ctb_Kind = KindIP\<rparr>],
        obj_Primary = \<lparr>ctb_FeedID = 1, ctb_FeedName = ''alpha'', ctb_FeedOrder = 0, ctb_Kind = KindIP\<rparr>,
        obj_Desired = False, obj_Suppression = SuppressedCovered,
        obj_CoveredBy = Some (Prefix (Addr4 0x08080800) 25)\<rparr>],
      \<lparr>sum_Input = 3, sum_Objects = 2, sum_Desired = 1, sum_ExactDuplicates = 0,
       sum_RejectedSafety = 1, sum_Allowlisted = 0, sum_CoveredHosts = 1\<rparr>)"
  by (simp add: network_eval)

lemma sample_accepts: "map rejected sample_candidates = [False, False, True]"
  by (simp add: network_eval)

theorem BuildDesired_desired_is_safe_witness:
  "\<exists>ob \<in> set (fst (BuildDesired_iter (\<lambda>bs. bs) sample_candidates sample_allowlist)).
     obj_Desired ob \<and> Contains (obj_Prefix ob) (Addr4 0x08080801) \<and> \<not> local_use (Addr4 0x08080801) \<and>
     \<not> Contains (Prefix (Addr4 0x09000000) 9) (Addr4 0x08080801)"
proof -
  let ?r = "fst (BuildDesired_iter (\<lambda>bs. bs) sample_candidates sample_allowlist)"
  have r: "?r ! 0 \<in> set ?r" "obj_Desired (?r ! 0)" "Contains (obj_Prefix (?r ! 0)) (Addr4 0x08080801)"
    by (simp_all add: sample_run Contains_num)
  from BuildDesired_desired_is_safe [of "\<lambda>bs. bs", OF _ r] r show ?thesis
    by (intro bexI [of _ "?r ! 0"]) (auto simp: sample_allowlist_def netip_defs)
qed

theorem BuildDesired_no_protection_lost_witness:
  "\<exists>ob \<in> set (fst (BuildDesired_iter (\<lambda>bs. bs) sample_candidates sample_allowlist)).
     obj_Desired ob \<and> Contains (obj_Prefix ob) (Addr4 0x08080808)"
proof (rule BuildDesired_no_protection_lost [where c = "sample_candidates ! 0"])
  show "sample_candidates ! 0 \<in> set sample_candidates" by (simp add: sample_candidates_def)
  show "\<not> rejected (sample_candidates ! 0)" using sample_accepts by (simp add: sample_candidates_def)
qed (simp_all add: network_eval)

theorem BuildDesired_coverage_witness:
  "\<exists>ob \<in> set (fst (BuildDesired_iter (\<lambda>bs. bs) sample_candidates sample_allowlist)).
     obj_CoveredBy ob = Some (Prefix (Addr4 0x08080800) 25) \<and> obj_Suppression ob = SuppressedCovered"
proof -
  let ?r = "fst (BuildDesired_iter (\<lambda>bs. bs) sample_candidates sample_allowlist)"
  have r: "?r ! 1 \<in> set ?r" "obj_CoveredBy (?r ! 1) = Some (Prefix (Addr4 0x08080800) 25)"
    by (simp_all add: sample_run)
  from BuildDesired_coverage [of "\<lambda>bs. bs", OF _ r(1)] r show ?thesis
    by (intro bexI [of _ "?r ! 1"]) auto
qed

theorem BuildDesired_summary_adds_up_witness:
  "sum_Input (snd (BuildDesired_iter (\<lambda>bs. bs) sample_candidates sample_allowlist)) = length sample_candidates"
  using BuildDesired_summary_adds_up [OF _ sample_run] sample_run by simp

theorem BuildDesired_deterministic_witness:
  "BuildDesired_iter rev sample_candidates sample_allowlist = BuildDesired (rev sample_candidates) sample_allowlist"
  by (rule BuildDesired_deterministic) (simp_all add: sample_candidates_def candidate_key_def)

theorem BuildDesired_well_formed_witness:
  "sorted_by compareObject (fst (BuildDesired_iter rev sample_candidates sample_allowlist))"
  using BuildDesired_well_formed [of rev sample_candidates sample_allowlist] by simp

theorem ParseValue_prefix_String_witness:
  "ParseValue (prefix_String (Prefix (Addr6 0x20010db8000000000000000000000000 []) 33)) =
     Inr (Prefix (Addr6 0x20010db8000000000000000000000000 []) 33, KindRange)"
  using ParseValue_prefix_String [of "Prefix (Addr6 0x20010db8000000000000000000000000 []) 33"]
  by (simp add: netip_defs mask_eq_exp_minus_1)

lemma sample_parse:
  "ParseValue ''8.8.8.9/24'' = Inr (Prefix (Addr4 0x08080800) 25, KindRange)"
  by (simp add: ParseValue_def Contains_byte_def NormalizePrefix_def text_eval netip_defs
      mask_eq_exp_minus_1 TrimSpace_def trim_left.simps trim_left_rev.simps)

theorem ParseValue_sound_witness:
  "ValidateKind (Prefix (Addr4 0x08080800) 25) KindRange = None"
  using ParseValue_sound [OF sample_parse] by simp

end
