(* ===== verification/Feed_Types.thy ===== *)
theory Feed_Types
  imports Network
begin

text \<open>The data of the package \<^verbatim>\<open>internal/feed\<close> that other components share (\<^verbatim>\<open>types.go\<close>).\<close>

datatype Format = FormatSpamhausDROPJSONL | FormatFireHOLNetset | FormatPlain | OtherFormat string

datatype Family = FamilyAny | FamilyIPv4 | FamilyIPv6 | OtherFamily string

record Entry =
  ent_Prefix :: netip_prefix
  ent_Kind :: Kind

record Metadata =
  md_GeneratedAt :: gotime
  md_DeclaredRecords :: int
  md_Copyright :: string
  md_TermsURL :: string

record Snapshot =
  snp_Entries :: "Entry list"
  snp_Version :: string
  snp_RawEntries :: nat
  snp_RejectedSafety :: nat
  snp_Duplicates :: nat
  snp_Metadata :: Metadata

text \<open>What the program reads of a \<^verbatim>\<open>net/url\<close> URL. The parser of that package is an argument of the definitions
  that call it.\<close>

record url =
  url_Scheme :: string
  url_Host :: string
  url_Hostname :: string
  url_HasUser :: bool
  url_Fragment :: string

end
