(* ===== verification/Go_Time_Text.thy ===== *)
theory Go_Time_Text
  imports Go_Strings Complex_Main
begin

text \<open>
  What the program uses of the texts of package \<^verbatim>\<open>time\<close>: \<^verbatim>\<open>ParseDuration\<close> and
  \<^verbatim>\<open>Parse(RFC3339, s)\<close>, and the rounding of \<^verbatim>\<open>float64\<close> that the former applies to fractions.
  Rounding is to 53 significant bits, ties to even, with an unbounded exponent: in
  \<^verbatim>\<open>ParseDuration\<close> the product is below one, and so truncated to zero, whenever an intermediate
  value leaves the exponent range of \<^verbatim>\<open>float64\<close>.
\<close>

subsection \<open>Definitions: float64\<close>

fun bit_len :: "nat \<Rightarrow> nat" where
  "bit_len n = (if n = 0 then 0 else Suc (bit_len (n div 2)))"

declare bit_len.simps [simp del]

definition pow2 :: "int \<Rightarrow> rat" where
  "pow2 e = (if e \<ge> 0 then 2 ^ nat e else 1 / 2 ^ nat (- e))"

definition round_even :: "rat \<Rightarrow> int" where
  "round_even x =
     (let n = \<lfloor>x\<rfloor>; r = x - of_int n in
      if r < 1 / 2 then n else if r > 1 / 2 then n + 1 else if even n then n else n + 1)"

definition float64 :: "rat \<Rightarrow> rat" where
  "float64 x =
     (if x = 0 then 0
      else
        let (a, b) = quotient_of \<bar>x\<bar>;
            e0 = int (bit_len (nat a)) - int (bit_len (nat b)) - 53;
            e = (if \<bar>x\<bar> / pow2 e0 \<ge> 2 ^ 53 then e0 + 1 else e0);
            m = of_int (round_even (\<bar>x\<bar> / pow2 e)) * pow2 e
        in if x < 0 then - m else m)"

subsection \<open>Definitions: ParseDuration\<close>

text \<open>\<^verbatim>\<open>leadingInt\<close> and \<^verbatim>\<open>leadingFraction\<close> read digits into an unsigned 64-bit accumulator.\<close>

fun leadingInt :: "nat \<Rightarrow> string \<Rightarrow> (nat \<times> string) option" where
  "leadingInt x [] = Some (x, [])"
| "leadingInt x (c # s) =
     (if \<not> is_digit c then Some (x, c # s)
      else if x > 922337203685477580 then None
      else
        let y = x * 10 + digit_val c in
        if y > 9223372036854775808 then None else leadingInt y s)"

fun leadingFraction :: "bool \<Rightarrow> nat \<Rightarrow> rat \<Rightarrow> string \<Rightarrow> nat \<times> rat \<times> string" where
  "leadingFraction overflow x scale [] = (x, scale, [])"
| "leadingFraction overflow x scale (c # s) =
     (if \<not> is_digit c then (x, scale, c # s)
      else if overflow then leadingFraction True x scale s
      else if x > 922337203685477580 then leadingFraction True x scale s
      else
        let y = x * 10 + digit_val c in
        if y > 9223372036854775808 then leadingFraction True x scale s
        else leadingFraction False y (float64 (scale * 10)) s)"

definition unitMap :: "string \<Rightarrow> nat option" where
  "unitMap u =
     (if u = ''ns'' then Some 1
      else if u = ''us'' \<or> u = [byte 194, byte 181, CHR ''s''] \<or> u = [byte 206, byte 188, CHR ''s''] then Some 1000
      else if u = ''ms'' then Some 1000000
      else if u = ''s'' then Some 1000000000
      else if u = ''m'' then Some 60000000000
      else if u = ''h'' then Some 3600000000000
      else None)"

definition unit_char :: "char \<Rightarrow> bool" where
  "unit_char c = (\<not> (c = CHR ''.'' \<or> is_digit c))"

text \<open>One number and unit: the value in nanoseconds and the text that follows.\<close>

definition duration_part :: "string \<Rightarrow> (nat \<times> string) option" where
  "duration_part s =
     (case leadingInt 0 s of
        None \<Rightarrow> None
      | Some (v, s1) \<Rightarrow>
          let pre = (length s1 \<noteq> length s);
              (f, scale, s2) = (case s1 of
                 [] \<Rightarrow> (0, 1, s1)
               | c # t \<Rightarrow> if c = CHR ''.'' then leadingFraction False 0 1 t else (0, 1, s1));
              post = (case s1 of [] \<Rightarrow> False | c # t \<Rightarrow> c = CHR ''.'' \<and> length s2 \<noteq> length t);
              u = takeWhile unit_char s2;
              s3 = dropWhile unit_char s2
          in if \<not> (s \<noteq> [] \<and> (hd s = CHR ''.'' \<or> is_digit (hd s))) then None
             else if \<not> pre \<and> \<not> post then None
             else if u = [] then None
             else case unitMap u of
               None \<Rightarrow> None
             | Some ut \<Rightarrow>
                 if v > 9223372036854775808 div ut then None
                 else
                   let w = v * ut + (if f > 0 then nat \<lfloor>float64 (float64 (of_nat f) * float64 (of_nat ut / scale))\<rfloor> else 0) in
                   if f > 0 \<and> w > 9223372036854775808 then None else Some (w, s3))"

text \<open>The loop over the parts; every part consumes text, so the length of the text is enough fuel.\<close>

fun duration_loop :: "nat \<Rightarrow> nat \<Rightarrow> string \<Rightarrow> nat option" where
  "duration_loop 0 d s = (if s = [] then Some d else None)"
| "duration_loop (Suc fuel) d s =
     (if s = [] then Some d
      else case duration_part s of
        None \<Rightarrow> None
      | Some (v, s') \<Rightarrow> if d + v > 9223372036854775808 then None else duration_loop fuel (d + v) s')"

definition ParseDuration :: "string \<Rightarrow> duration option" where
  "ParseDuration str =
     (let (neg, s) = (case str of
         [] \<Rightarrow> (False, [])
       | c # t \<Rightarrow> if c = CHR ''-'' then (True, t) else if c = CHR ''+'' then (False, t) else (False, str))
      in if s = ''0'' then Some 0
         else if s = [] then None
         else case duration_loop (length s) 0 s of
           None \<Rightarrow> None
         | Some d \<Rightarrow>
             if neg then Some (- int d)
             else if d > 9223372036854775807 then None else Some (int d))"

subsection \<open>Definitions: Parse with the layout RFC3339\<close>

fun getnum :: "bool \<Rightarrow> string \<Rightarrow> (int \<times> string) option" where
  "getnum fixed [] = None"
| "getnum fixed [c] = (if \<not> is_digit c \<or> fixed then None else Some (int (digit_val c), []))"
| "getnum fixed (c # c' # s) =
     (if \<not> is_digit c then None
      else if \<not> is_digit c' then (if fixed then None else Some (int (digit_val c), c' # s))
      else Some (int (digit_val c) * 10 + int (digit_val c'), s))"

fun skip :: "char \<Rightarrow> string \<Rightarrow> string option" where
  "skip p [] = None"
| "skip p (c # s) = (if c = p then Some s else None)"

definition in_range :: "int \<Rightarrow> int \<Rightarrow> (int \<times> string) option \<Rightarrow> (int \<times> string) option" where
  "in_range lo hi r = (case r of None \<Rightarrow> None | Some (n, s) \<Rightarrow> if n < lo \<or> hi < n then None else Some (n, s))"

definition long_year :: "string \<Rightarrow> (int \<times> string) option" where
  "long_year s =
     (if length s < 4 \<or> \<not> list_all is_digit (take 4 s) then None
      else Some (foldl (\<lambda>n c. n * 10 + int (digit_val c)) 0 (take 4 s), drop 4 s))"

text \<open>A fractional second is accepted although the layout has none; digits past the ninth are dropped.\<close>

definition frac_second :: "string \<Rightarrow> int \<times> string" where
  "frac_second s =
     (case s of
        c # d # t \<Rightarrow>
          if (c = CHR ''.'' \<or> c = CHR '','') \<and> is_digit d then
            (let ds = takeWhile is_digit (d # t); used = take 9 ds in
             (foldl (\<lambda>n c. n * 10 + int (digit_val c)) 0 used * 10 ^ (9 - length used), dropWhile is_digit (d # t)))
          else (0, s)
      | _ \<Rightarrow> (0, s))"

text \<open>The zone: the offset from UTC in seconds.\<close>

definition zone_offset :: "string \<Rightarrow> (int \<times> string) option" where
  "zone_offset s =
     (if s \<noteq> [] \<and> hd s = CHR ''Z'' then Some (0, tl s)
      else if length s < 6 \<or> s ! 3 \<noteq> CHR '':'' then None
      else case (getnum True (take 2 (drop 1 s)), getnum True (take 2 (drop 4 s))) of
        (Some (hr, _), Some (mm, _)) \<Rightarrow>
          if hr > 24 \<or> mm > 60 then None
          else if hd s = CHR ''+'' then Some ((hr * 60 + mm) * 60, drop 6 s)
          else if hd s = CHR ''-'' then Some (- ((hr * 60 + mm) * 60), drop 6 s)
          else None
      | _ \<Rightarrow> None)"

definition isLeap :: "int \<Rightarrow> bool" where
  "isLeap y = (y mod 4 = 0 \<and> (y mod 100 \<noteq> 0 \<or> y mod 400 = 0))"

definition daysIn :: "int \<Rightarrow> int \<Rightarrow> int" where
  "daysIn y m = (if m = 2 then (if isLeap y then 29 else 28) else if m \<in> {4, 6, 9, 11} then 30 else 31)"

definition unix_days :: "int \<Rightarrow> int \<Rightarrow> int \<Rightarrow> int" where
  "unix_days y m d =
     365 * y + (y + 3) div 4 - (y + 99) div 100 + (y + 399) div 400 +
     sum_list (map (daysIn y) [1..m - 1]) + (d - 1) - 719528"

definition time_Parse_RFC3339 :: "string \<Rightarrow> gotime option" where
  "time_Parse_RFC3339 s0 =
     (case long_year s0 of None \<Rightarrow> None | Some (year, s1) \<Rightarrow>
     (case skip (CHR ''-'') s1 of None \<Rightarrow> None | Some s2 \<Rightarrow>
     (case in_range 1 12 (getnum True s2) of None \<Rightarrow> None | Some (month, s3) \<Rightarrow>
     (case skip (CHR ''-'') s3 of None \<Rightarrow> None | Some s4 \<Rightarrow>
     (case getnum True s4 of None \<Rightarrow> None | Some (day, s5) \<Rightarrow>
     (case skip (CHR ''T'') s5 of None \<Rightarrow> None | Some s6 \<Rightarrow>
     (case in_range 0 23 (getnum False s6) of None \<Rightarrow> None | Some (hh, s7) \<Rightarrow>
     (case skip (CHR '':'') s7 of None \<Rightarrow> None | Some s8 \<Rightarrow>
     (case in_range 0 59 (getnum True s8) of None \<Rightarrow> None | Some (mi, s9) \<Rightarrow>
     (case skip (CHR '':'') s9 of None \<Rightarrow> None | Some s10 \<Rightarrow>
     (case in_range 0 59 (getnum True s10) of None \<Rightarrow> None | Some (sec, s11) \<Rightarrow>
       let (nsec, s12) = frac_second s11 in
       (case zone_offset s12 of None \<Rightarrow> None | Some (off, s13) \<Rightarrow>
          if s13 \<noteq> [] \<or> day < 1 \<or> day > daysIn year month then None
          else Some ((unix_days year month day * 86400 + hh * 3600 + mi * 60 + sec - off) * second + nsec)))))))))))))"

subsection \<open>Facts: the fuel of the loop\<close>

lemma leadingInt_length: "leadingInt x s = Some (v, s') \<Longrightarrow> length s' \<le> length s"
  by (induction x s rule: leadingInt.induct) (auto simp: Let_def split: if_splits)

lemma leadingFraction_length: "leadingFraction ov x sc s = (f, scale, s') \<Longrightarrow> length s' \<le> length s"
  by (induction ov x sc s rule: leadingFraction.induct) (auto simp: Let_def split: if_splits)

lemma duration_part_consumes:
  assumes "duration_part s = Some (v, s')"
  shows "length s' < length s"
proof -
  from assms obtain w s1 where l: "leadingInt 0 s = Some (w, s1)" by (auto simp: duration_part_def split: option.splits)
  obtain f scale s2 where fr: "(case s1 of [] \<Rightarrow> (0, 1, s1)
      | c # t \<Rightarrow> if c = CHR ''.'' then leadingFraction False 0 1 t else (0, 1, s1)) = (f, scale, s2)"
    by (metis prod_cases3)
  have "length s2 \<le> length s1" using fr leadingFraction_length [of False 0 1 _ f scale s2]
    by (cases s1) (auto split: if_splits, fastforce)
  moreover have "takeWhile unit_char s2 \<noteq> []" "s' = dropWhile unit_char s2"
    using assms l fr by (auto simp: duration_part_def Let_def split: if_splits option.splits)
  moreover from this have "length s' < length s2"
    using arg_cong [OF takeWhile_dropWhile_id [of unit_char s2], of length] by (cases "takeWhile unit_char s2") auto
  moreover have "length s1 \<le> length s" using l by (rule leadingInt_length)
  ultimately show ?thesis by linarith
qed

lemma duration_loop_fuel: "length s \<le> fuel \<Longrightarrow> duration_loop fuel d s = duration_loop (length s) d s"
proof (induction fuel arbitrary: d s rule: less_induct)
  case (less fuel)
  show ?case
  proof (cases "s = []")
    case True
    then show ?thesis by (cases fuel) auto
  next
    case False
    then obtain f where f: "fuel = Suc f" using less.prems by (cases fuel) auto
    obtain n where n: "length s = Suc n" using False by (cases s) auto
    have "duration_loop f e s' = duration_loop n e s'" if "duration_part s = Some (v, s')" for v e s'
    proof -
      have "length s' \<le> n" using duration_part_consumes [OF that] n by simp
      moreover have "n < fuel" "f < fuel" "length s' \<le> f" using n less.prems f \<open>length s' \<le> n\<close> by auto
      ultimately show ?thesis using less.IH [of f s' e] less.IH [of n s' e] by simp
    qed
    then show ?thesis using False n by (auto simp: f split: option.splits)
  qed
qed

end
