(* ===== verification/Go_JSON.thy ===== *)
theory Go_JSON
  imports Go_Strings
begin

text \<open>
  The decoding half of Go's package \<^verbatim>\<open>encoding/json\<close>, as far as the feed parser uses it: the grammar its
  scanner accepts, the unquoting of strings, and \<^verbatim>\<open>json.Unmarshal\<close> into a struct whose fields are
  strings and 64-bit integers. A syntax error anywhere in the text, a value of the wrong type or an
  integer out of range is an error of the whole call. Everything here models the language's standard
  library; no line of the repository is mapped to this theory.
\<close>

subsection \<open>Definitions: values\<close>

datatype json = JNull | JBool bool | JNum string | JStr string | JArr "json list" | JObj "(string \<times> json) list"

definition json_space :: "char \<Rightarrow> bool" where
  "json_space c = (code c = 32 \<or> code c = 9 \<or> code c = 10 \<or> code c = 13)"

definition skip_space :: "string \<Rightarrow> string" where
  "skip_space s = dropWhile json_space s"

text \<open>The UTF-8 encoding of a code point; a surrogate half becomes the replacement character U+FFFD.\<close>

definition utf8_encode :: "nat \<Rightarrow> string" where
  "utf8_encode r =
     (if r < 128 then [byte r]
      else if r < 2048 then [byte (192 + r div 64), byte (128 + r mod 64)]
      else if 55296 \<le> r \<and> r \<le> 57343 \<or> 1114111 < r then [byte 239, byte 191, byte 189]
      else if r < 65536 then [byte (224 + r div 4096), byte (128 + r div 64 mod 64), byte (128 + r mod 64)]
      else [byte (240 + r div 262144), byte (128 + r div 4096 mod 64), byte (128 + r div 64 mod 64), byte (128 + r mod 64)])"

fun hex4 :: "string \<Rightarrow> (nat \<times> string) option" where
  "hex4 (a # b # c # d # s) =
     (case (hex_val a, hex_val b, hex_val c, hex_val d) of
        (Some w, Some x, Some y, Some z) \<Rightarrow> Some (((w * 16 + x) * 16 + y) * 16 + z, s)
      | _ \<Rightarrow> None)"
| "hex4 _ = None"

text \<open>A \<^verbatim>\<open>\u\<close> escape: a high surrogate takes a low surrogate that follows it at once.\<close>

definition unicode_escape :: "string \<Rightarrow> (string \<times> string) option" where
  "unicode_escape s =
     (case hex4 s of
        None \<Rightarrow> None
      | Some (r, t) \<Rightarrow>
          (case t of
             x # y # u \<Rightarrow>
               if 55296 \<le> r \<and> r \<le> 56319 \<and> code x = 92 \<and> code y = 117 then
                 (case hex4 u of
                    Some (r2, v) \<Rightarrow>
                      if 56320 \<le> r2 \<and> r2 \<le> 57343
                      then Some (utf8_encode ((r - 55296) * 1024 + (r2 - 56320) + 65536), v)
                      else Some (utf8_encode r, t)
                  | None \<Rightarrow> Some (utf8_encode r, t))
               else Some (utf8_encode r, t)
           | _ \<Rightarrow> Some (utf8_encode r, t)))"

definition simple_escape :: "char \<Rightarrow> char option" where
  "simple_escape c =
     (if code c = 34 \<or> code c = 92 \<or> code c = 47 then Some c
      else if code c = 98 then Some (byte 8) else if code c = 102 then Some (byte 12)
      else if code c = 110 then Some (byte 10) else if code c = 114 then Some (byte 13)
      else if code c = 116 then Some (byte 9) else None)"

lemma hex4_length: "hex4 s = Some (r, t) \<Longrightarrow> length t < length s"
  by (cases s rule: hex4.cases) (auto split: option.splits)

lemma unicode_escape_length: "unicode_escape s = Some (r, t) \<Longrightarrow> length t < length s"
  by (auto simp: unicode_escape_def dest!: hex4_length split: option.splits list.splits if_splits)

text \<open>The rest of a string after its opening quote: the decoded text and what follows the closing quote.\<close>

function json_string :: "string \<Rightarrow> (string \<times> string) option" where
  "json_string [] = None"
| "json_string (c # s) =
     (if code c = 34 then Some ([], s)
      else if code c < 32 then None
      else if code c = 92 then
        (case s of
           [] \<Rightarrow> None
         | e # t \<Rightarrow>
             if code e = 117 then
               (case unicode_escape t of
                  None \<Rightarrow> None
                | Some (txt, u) \<Rightarrow> map_option (\<lambda>(rest, v). (txt @ rest, v)) (json_string u))
             else (case simple_escape e of
                 None \<Rightarrow> None
               | Some x \<Rightarrow> map_option (\<lambda>(rest, v). (x # rest, v)) (json_string t)))
      else map_option (\<lambda>(rest, v). (c # rest, v)) (json_string s))"
  by pat_completeness auto
termination
  by (relation "measure length") (auto dest: unicode_escape_length)

text \<open>A number: an optional minus, an integer without leading zeros, a fraction, an exponent. The text is
  kept; the field it is stored in decides what it means.\<close>

definition json_digits :: "string \<Rightarrow> (string \<times> string) option" where
  "json_digits s = (if takeWhile is_digit s = [] then None else Some (takeWhile is_digit s, dropWhile is_digit s))"

definition json_integer :: "string \<Rightarrow> (string \<times> string) option" where
  "json_integer s = (case s of
     [] \<Rightarrow> None
   | c # t \<Rightarrow> if code c = 48 then Some ([c], t) else json_digits s)"

definition json_fraction :: "string \<Rightarrow> (string \<times> string) option" where
  "json_fraction s = (case s of
     [] \<Rightarrow> Some ([], [])
   | c # t \<Rightarrow> if code c = 46 then map_option (\<lambda>(ds, u). (c # ds, u)) (json_digits t) else Some ([], s))"

definition json_exponent :: "string \<Rightarrow> (string \<times> string) option" where
  "json_exponent s = (case s of
     [] \<Rightarrow> Some ([], [])
   | c # t \<Rightarrow>
       if code c = 101 \<or> code c = 69 then
         (case t of
            [] \<Rightarrow> None
          | x # u \<Rightarrow>
              if code x = 43 \<or> code x = 45 then map_option (\<lambda>(ds, v). (c # x # ds, v)) (json_digits u)
              else map_option (\<lambda>(ds, v). (c # ds, v)) (json_digits t))
       else Some ([], s))"

definition json_number :: "string \<Rightarrow> (string \<times> string) option" where
  "json_number s =
     (let (sign, t) = (case s of [] \<Rightarrow> ([], []) | c # u \<Rightarrow> if code c = 45 then ([c], u) else ([], s)) in
      case json_integer t of
        None \<Rightarrow> None
      | Some (ds, u) \<Rightarrow>
          (case json_fraction u of
             None \<Rightarrow> None
           | Some (fr, v) \<Rightarrow> map_option (\<lambda>(ex, w). (sign @ ds @ fr @ ex, w)) (json_exponent v)))"

text \<open>The scanner refuses more than ten thousand open arrays and objects.\<close>

definition maxNestingDepth :: nat where
  "maxNestingDepth = 10000"

text \<open>The name of a member and its colon.\<close>

definition json_key :: "string \<Rightarrow> (string \<times> string) option" where
  "json_key s =
     (case skip_space s of
        [] \<Rightarrow> None
      | q # s1 \<Rightarrow>
          if code q \<noteq> 34 then None
          else case json_string s1 of
            None \<Rightarrow> None
          | Some (key, s2) \<Rightarrow>
              (case skip_space s2 of
                 [] \<Rightarrow> None
               | colon # s3 \<Rightarrow> if code colon = 58 then Some (key, s3) else None))"

text \<open>Values, the elements of an array and the members of an object. The first argument bounds the
  nesting of the calls (twice the length of the text is enough, as shown below); the second is the
  nesting depth left.\<close>

fun json_value :: "nat \<Rightarrow> nat \<Rightarrow> string \<Rightarrow> (json \<times> string) option"
and json_elements :: "nat \<Rightarrow> nat \<Rightarrow> string \<Rightarrow> (json list \<times> string) option"
and json_members :: "nat \<Rightarrow> nat \<Rightarrow> string \<Rightarrow> ((string \<times> json) list \<times> string) option" where
  "json_value 0 depth s = None"
| "json_value (Suc fuel) depth s =
     (case skip_space s of
        [] \<Rightarrow> None
      | c # t \<Rightarrow>
          if code c = 34 then map_option (\<lambda>(x, u). (JStr x, u)) (json_string t)
          else if code c = 123 then
            (if depth = 0 then None
             else case skip_space t of
               [] \<Rightarrow> None
             | d # u \<Rightarrow>
                 if code d = 125 then Some (JObj [], u)
                 else map_option (\<lambda>(ms, v). (JObj ms, v)) (json_members fuel (depth - 1) t))
          else if code c = 91 then
            (if depth = 0 then None
             else case skip_space t of
               [] \<Rightarrow> None
             | d # u \<Rightarrow>
                 if code d = 93 then Some (JArr [], u)
                 else map_option (\<lambda>(es, v). (JArr es, v)) (json_elements fuel (depth - 1) t))
          else if has_prefix (c # t) ''true'' then Some (JBool True, drop 4 (c # t))
          else if has_prefix (c # t) ''false'' then Some (JBool False, drop 5 (c # t))
          else if has_prefix (c # t) ''null'' then Some (JNull, drop 4 (c # t))
          else map_option (\<lambda>(x, u). (JNum x, u)) (json_number (c # t)))"
| "json_elements 0 depth s = None"
| "json_elements (Suc fuel) depth s =
     (case json_value fuel depth s of
        None \<Rightarrow> None
      | Some (v, t) \<Rightarrow>
          (case skip_space t of
             [] \<Rightarrow> None
           | c # u \<Rightarrow>
               if code c = 93 then Some ([v], u)
               else if code c = 44 then map_option (\<lambda>(vs, w). (v # vs, w)) (json_elements fuel depth u)
               else None))"
| "json_members 0 depth s = None"
| "json_members (Suc fuel) depth s =
     (case json_key s of
        None \<Rightarrow> None
      | Some (key, s1) \<Rightarrow>
          (case json_value fuel depth s1 of
             None \<Rightarrow> None
           | Some (v, t) \<Rightarrow>
               (case skip_space t of
                  [] \<Rightarrow> None
                | c # u \<Rightarrow>
                    if code c = 125 then Some ([(key, v)], u)
                    else if code c = 44 then map_option (\<lambda>(ms, w). ((key, v) # ms, w)) (json_members fuel depth u)
                    else None)))"

text \<open>The whole text is one value, with white space around it.\<close>

definition json_parse :: "string \<Rightarrow> json option" where
  "json_parse s =
     (case json_value (2 * length s + 2) maxNestingDepth s of
        None \<Rightarrow> None
      | Some (v, t) \<Rightarrow> if skip_space t = [] then Some v else None)"

subsection \<open>Definitions: decoding into a struct\<close>

text \<open>The names of the fields are compared without regard to case. Besides the ASCII letters, the long s
  (U+017F) and the Kelvin sign (U+212A) fold to ASCII letters.\<close>

fun foldName :: "string \<Rightarrow> string" where
  "foldName (c # d # e # t) =
     (if code c = 197 \<and> code d = 191 then CHR ''S'' # foldName (e # t)
      else if code c = 226 \<and> code d = 132 \<and> code e = 170 then CHR ''K'' # foldName t
      else (if is_lower c then byte (code c - 32) else c) # foldName (d # e # t))"
| "foldName [c, d] =
     (if code c = 197 \<and> code d = 191 then ''S''
      else (if is_lower c then byte (code c - 32) else c) # foldName [d])"
| "foldName [c] = [if is_lower c then byte (code c - 32) else c]"
| "foldName [] = []"

text \<open>One member stored in one field: \<^verbatim>\<open>null\<close> leaves the field alone, another type is an error.\<close>

fun store_string :: "json \<Rightarrow> string \<Rightarrow> string option" where
  "store_string (JStr x) old = Some x"
| "store_string JNull old = Some old"
| "store_string _ old = None"

fun store_int :: "json \<Rightarrow> int \<Rightarrow> int option" where
  "store_int (JNum x) old = Atoi x"
| "store_int JNull old = Some old"
| "store_int _ old = None"

text \<open>\<^verbatim>\<open>json.Unmarshal\<close>: the members in their order, each stored by the function given for the fields of
  the struct. A top-level \<^verbatim>\<open>null\<close> leaves the struct as it was.\<close>

fun store_members :: "(string \<Rightarrow> json \<Rightarrow> 'a \<Rightarrow> 'a option) \<Rightarrow> (string \<times> json) list \<Rightarrow> 'a \<Rightarrow> 'a option" where
  "store_members put [] acc = Some acc"
| "store_members put ((key, v) # ms) acc =
     (case put (foldName key) v acc of None \<Rightarrow> None | Some acc' \<Rightarrow> store_members put ms acc')"

definition Unmarshal :: "(string \<Rightarrow> json \<Rightarrow> 'a \<Rightarrow> 'a option) \<Rightarrow> string \<Rightarrow> 'a \<Rightarrow> 'a option" where
  "Unmarshal put s zero =
     (case json_parse s of
        None \<Rightarrow> None
      | Some (JObj ms) \<Rightarrow> store_members put ms zero
      | Some JNull \<Rightarrow> Some zero
      | Some _ \<Rightarrow> None)"

subsection \<open>The bound on the calls is enough\<close>

lemma skip_space_length: "length (skip_space s) \<le> length s"
  by (simp add: skip_space_def length_dropWhile_le)

lemma skip_space_Cons: "skip_space s = c # t \<Longrightarrow> length t < length s"
  using skip_space_length [of s] by simp

lemma json_string_length: "json_string s = Some (x, t) \<Longrightarrow> length t < length s"
proof (induction s arbitrary: x t rule: json_string.induct)
  case (2 c s)
  then show ?case
    by (auto split: if_splits option.splits list.splits dest!: unicode_escape_length) fastforce+
qed simp

lemma json_number_length: "json_number s = Some (x, t) \<Longrightarrow> length t < length s"
proof -
  have w: "length (dropWhile is_digit u) \<le> length u" for u :: string by (rule length_dropWhile_le)
  have d: "json_digits u = Some (y, v) \<Longrightarrow> length v < length u" for u y v
    using w by (cases u) (auto simp: json_digits_def less_Suc_eq_le split: if_splits)
  have i: "json_integer u = Some (y, v) \<Longrightarrow> length v < length u" for u y v
    by (auto simp: json_integer_def dest: d split: list.splits if_splits)
  have f: "json_fraction u = Some (y, v) \<Longrightarrow> length v \<le> length u" for u y v
    by (fastforce simp: json_fraction_def dest: d split: list.splits if_splits)
  have e: "json_exponent u = Some (y, v) \<Longrightarrow> length v \<le> length u" for u y v
    by (fastforce simp: json_exponent_def dest: d split: list.splits if_splits)
  assume "json_number s = Some (x, t)"
  then show ?thesis
    by (fastforce simp: json_number_def Let_def dest: i f e split: list.splits if_splits option.splits)
qed

lemma json_key_length: "json_key s = Some (x, t) \<Longrightarrow> length t < length s"
  by (auto simp: json_key_def dest!: skip_space_Cons json_string_length split: list.splits option.splits if_splits)

lemma has_prefix_length: "has_prefix s p \<Longrightarrow> length p \<le> length s"
  by (induction s p rule: has_prefix.induct) auto

lemma json_shrinks_all:
  "(\<forall>depth s v t. json_value fuel depth s = Some (v, t) \<longrightarrow> length t < length s) \<and>
   (\<forall>depth s vs t. json_elements fuel depth s = Some (vs, t) \<longrightarrow> length t < length s) \<and>
   (\<forall>depth s ms t. json_members fuel depth s = Some (ms, t) \<longrightarrow> length t < length s)"
proof (induction fuel)
  case (Suc fuel)
  have v: "json_value fuel depth s = Some (v, t) \<Longrightarrow> length t < length s" for depth s v t using Suc by blast
  have e: "json_elements fuel depth s = Some (vs, t) \<Longrightarrow> length t < length s" for depth s vs t using Suc by blast
  have m: "json_members fuel depth s = Some (ms, t) \<Longrightarrow> length t < length s" for depth s ms t using Suc by blast
  have "length t < length s" if val: "json_value (Suc fuel) depth s = Some (x, t)" for depth s x t
  proof (cases "skip_space s")
    case (Cons c u)
    have "length t \<le> length u"
      using val Cons json_number_length [of "c # u"]
      by (auto split: if_splits list.splits dest!: skip_space_Cons json_string_length e m)
    then show ?thesis using skip_space_Cons [OF Cons] by simp
  qed (use val in simp)
  moreover have "length t < length s" if val: "json_elements (Suc fuel) depth s = Some (vs, t)" for depth s vs t
    using val by (auto split: if_splits list.splits option.splits dest!: skip_space_Cons v e)
  moreover have "length t < length s" if val: "json_members (Suc fuel) depth s = Some (vs, t)" for depth s vs t
    using val by (auto split: if_splits list.splits option.splits dest!: skip_space_Cons json_key_length v m)
  ultimately show ?case by blast
qed simp

lemmas json_shrinks = json_shrinks_all [THEN conjunct1, rule_format]

text \<open>From twice the length of the text on, a larger bound gives the same answer.\<close>

lemma json_bound_all:
  "(\<forall>depth s. 2 * length s < fuel \<longrightarrow> json_value (Suc fuel) depth s = json_value fuel depth s) \<and>
   (\<forall>depth s. 2 * length s + 1 < fuel \<longrightarrow> json_elements (Suc fuel) depth s = json_elements fuel depth s) \<and>
   (\<forall>depth s. 2 * length s + 1 < fuel \<longrightarrow> json_members (Suc fuel) depth s = json_members fuel depth s)"
proof (induction fuel)
  case (Suc fuel)
  have v: "json_value (Suc fuel) depth s = json_value fuel depth s" if "2 * length s < fuel" for depth s
    using Suc that by blast
  have e: "json_elements (Suc fuel) depth s = json_elements fuel depth s" if "2 * length s + 1 < fuel" for depth s
    using Suc that by blast
  have m: "json_members (Suc fuel) depth s = json_members fuel depth s" if "2 * length s + 1 < fuel" for depth s
    using Suc that by blast
  have "json_value (Suc (Suc fuel)) depth s = json_value (Suc fuel) depth s" if b: "2 * length s < Suc fuel" for depth s
  proof (cases "skip_space s")
    case (Cons c t)
    then have "2 * length t + 1 < fuel" using b skip_space_Cons by fastforce
    then show ?thesis using Cons by (simp only: json_value.simps list.case e m)
  qed simp
  moreover have "json_elements (Suc (Suc fuel)) depth s = json_elements (Suc fuel) depth s"
    if b: "2 * length s + 1 < Suc fuel" for depth s
  proof -
    have "json_elements (Suc fuel) depth u = json_elements fuel depth u"
      if "json_value fuel depth s = Some (x, t)" "skip_space t = c # u" for x t c u
      using e [of u] b json_shrinks [OF that(1)] skip_space_Cons [OF that(2)] by simp
    then show ?thesis
      unfolding json_elements.simps(2) [of "Suc fuel" depth s] json_elements.simps(2) [of fuel depth s]
      using v [of s] b by (simp split: option.split list.split prod.split del: json_elements.simps json_value.simps)
  qed
  moreover have "json_members (Suc (Suc fuel)) depth s = json_members (Suc fuel) depth s"
    if b: "2 * length s + 1 < Suc fuel" for depth s
  proof -
    have val: "json_value (Suc fuel) depth s1 = json_value fuel depth s1" if "json_key s = Some (key, s1)" for key s1
      using v [of s1] b json_key_length [OF that] by simp
    have "json_members (Suc fuel) depth u = json_members fuel depth u"
      if "json_key s = Some (key, s1)" "json_value fuel depth s1 = Some (x, t)" "skip_space t = c # u" for key s1 x t c u
      using m [of u] b json_key_length [OF that(1)] json_shrinks [OF that(2)] skip_space_Cons [OF that(3)] by simp
    with val show ?thesis
      unfolding json_members.simps(2) [of "Suc fuel" depth s] json_members.simps(2) [of fuel depth s]
      by (simp split: option.split list.split prod.split del: json_members.simps json_value.simps)
  qed
  ultimately show ?case by blast
qed simp

lemma json_value_bound: "2 * length s < fuel \<Longrightarrow> json_value (fuel + n) depth s = json_value fuel depth s"
  by (induction n) (use json_bound_all [THEN conjunct1, rule_format] in \<open>simp_all del: json_value.simps\<close>)

declare foldName.simps [simp del] json_value.simps [simp del] json_elements.simps [simp del] json_members.simps [simp del]

end
