(* ===== verification/Sha256.thy ===== *)
theory Sha256
  imports Go_Strings "HOL-Library.Word"
begin

text \<open>
  \<^verbatim>\<open>crypto/sha256\<close> with \<^verbatim>\<open>hex.EncodeToString\<close>: the digest of a byte string as 64 lower-case
  hexadecimal digits, which the program uses to identify payloads, feed definitions and feed versions.
\<close>

unbundle bit_operations_syntax

subsection \<open>Definitions\<close>

definition sha256_k :: "32 word list" where
  "sha256_k =
     [0x428A2F98, 0x71374491, 0xB5C0FBCF, 0xE9B5DBA5, 0x3956C25B, 0x59F111F1, 0x923F82A4, 0xAB1C5ED5,
      0xD807AA98, 0x12835B01, 0x243185BE, 0x550C7DC3, 0x72BE5D74, 0x80DEB1FE, 0x9BDC06A7, 0xC19BF174,
      0xE49B69C1, 0xEFBE4786, 0x0FC19DC6, 0x240CA1CC, 0x2DE92C6F, 0x4A7484AA, 0x5CB0A9DC, 0x76F988DA,
      0x983E5152, 0xA831C66D, 0xB00327C8, 0xBF597FC7, 0xC6E00BF3, 0xD5A79147, 0x06CA6351, 0x14292967,
      0x27B70A85, 0x2E1B2138, 0x4D2C6DFC, 0x53380D13, 0x650A7354, 0x766A0ABB, 0x81C2C92E, 0x92722C85,
      0xA2BFE8A1, 0xA81A664B, 0xC24B8B70, 0xC76C51A3, 0xD192E819, 0xD6990624, 0xF40E3585, 0x106AA070,
      0x19A4C116, 0x1E376C08, 0x2748774C, 0x34B0BCB5, 0x391C0CB3, 0x4ED8AA4A, 0x5B9CCA4F, 0x682E6FF3,
      0x748F82EE, 0x78A5636F, 0x84C87814, 0x8CC70208, 0x90BEFFFA, 0xA4506CEB, 0xBEF9A3F7, 0xC67178F2]"

definition sha256_init :: "32 word list" where
  "sha256_init =
     [0x6A09E667, 0xBB67AE85, 0x3C6EF372, 0xA54FF53A, 0x510E527F, 0x9B05688C, 0x1F83D9AB, 0x5BE0CD19]"

definition ror :: "nat \<Rightarrow> 32 word \<Rightarrow> 32 word" where
  "ror n x = (drop_bit n x OR push_bit (32 - n) x)"

definition word_of_bytes :: "nat list \<Rightarrow> 32 word" where
  "word_of_bytes bs = of_nat (foldl (\<lambda>a b. a * 256 + b) 0 bs)"

fun chunks :: "nat \<Rightarrow> nat \<Rightarrow> 'a list \<Rightarrow> 'a list list" where
  "chunks 0 k xs = []"
| "chunks (Suc n) k xs = take k xs # chunks n k (drop k xs)"

definition sha256_pad :: "nat list \<Rightarrow> nat list" where
  "sha256_pad bs =
     (let n = length bs; z = (55 + 64 - n mod 64) mod 64; bits = 8 * n in
      bs @ [128] @ replicate z 0 @ map (\<lambda>i. bits div 256 ^ (7 - i) mod 256) [0..<8])"

text \<open>The message schedule, newest word first.\<close>

definition schedule_step :: "32 word list \<Rightarrow> 32 word list" where
  "schedule_step w =
     (let s0 = ror 7 (w ! 14) XOR ror 18 (w ! 14) XOR drop_bit 3 (w ! 14);
          s1 = ror 17 (w ! 1) XOR ror 19 (w ! 1) XOR drop_bit 10 (w ! 1)
      in (w ! 15 + s0 + w ! 6 + s1) # w)"

definition schedule :: "32 word list \<Rightarrow> 32 word list" where
  "schedule m = rev ((schedule_step ^^ 48) (rev m))"

definition sha256_round :: "32 word list \<Rightarrow> 32 word \<times> 32 word \<Rightarrow> 32 word list" where
  "sha256_round st kw =
     (let a = st ! 0; b = st ! 1; c = st ! 2; e = st ! 4; f = st ! 5; g = st ! 6;
          s1 = ror 6 e XOR ror 11 e XOR ror 25 e;
          ch = (e AND f) XOR (NOT e AND g);
          t1 = st ! 7 + s1 + ch + fst kw + snd kw;
          s0 = ror 2 a XOR ror 13 a XOR ror 22 a;
          maj = (a AND b) XOR (a AND c) XOR (b AND c)
      in [t1 + s0 + maj, a, b, c, st ! 3 + t1, e, f, g])"

definition sha256_block :: "32 word list \<Rightarrow> nat list \<Rightarrow> 32 word list" where
  "sha256_block h block =
     (let w = schedule (map word_of_bytes (chunks 16 4 block))
      in map2 (+) h (foldl sha256_round h (zip sha256_k w)))"

definition hex_word :: "32 word \<Rightarrow> string" where
  "hex_word w = map (\<lambda>i. hex_digit (unat w div 16 ^ (7 - i) mod 16)) [0..<8]"

definition sha256_hex :: "string \<Rightarrow> string" where
  "sha256_hex s =
     (let bs = sha256_pad (map code s)
      in concat (map hex_word (foldl sha256_block sha256_init (chunks (length bs div 64) 64 bs))))"

subsection \<open>Facts: the shape of a digest\<close>

lemma length_sha256_round [simp]: "length (sha256_round st kw) = 8"
  by (simp add: sha256_round_def Let_def)

lemma length_foldl_round: "length st = 8 \<Longrightarrow> length (foldl sha256_round st ks) = 8"
  by (induction ks arbitrary: st) auto

lemma length_foldl_block: "length h = 8 \<Longrightarrow> length (foldl sha256_block h bs) = 8"
  by (induction bs arbitrary: h) (auto simp: sha256_block_def Let_def length_foldl_round)

lemma length_sha256_hex: "length (sha256_hex s) = 64"
proof -
  let ?bs = "sha256_pad (map code s)"
  have "length (foldl sha256_block sha256_init (chunks (length ?bs div 64) 64 ?bs)) = 8"
    by (rule length_foldl_block) (simp add: sha256_init_def)
  moreover have "length (concat (map hex_word ws)) = 8 * length ws" for ws
    by (induction ws) (auto simp: hex_word_def)
  ultimately show ?thesis by (simp add: sha256_hex_def Let_def)
qed

lemma sha256_hex_digits:
  assumes "c \<in> set (sha256_hex s)"
  shows "\<exists>d < 16. c = hex_digit d"
proof -
  from assms obtain w i where "c = hex_digit (unat (w :: 32 word) div 16 ^ (7 - i) mod 16)"
    by (auto simp: sha256_hex_def Let_def hex_word_def)
  moreover have "unat w div 16 ^ (7 - i) mod 16 < 16" by simp
  ultimately show ?thesis by blast
qed

end
