(* ===== verification/Feed.thy ===== *)
theory Feed
  imports Feed_Types Go_Time_Text Go_JSON Sha256
begin

text \<open>
  The package \<^verbatim>\<open>internal/feed\<close>, \<^verbatim>\<open>parser.go\<close> (the line scanner and the two formats) and
  \<^verbatim>\<open>validate.go\<close>. A body is the list of its bytes. A \<^verbatim>\<open>float64\<close> that comes from the configuration is a
  rational or one of the special values; a quotient of counts is rounded as the machine rounds it.
\<close>

subsection \<open>Definitions: types\<close>

datatype FeedError =
    FeedErrFormat | FeedErrPolicy | FeedErrEmpty | FeedErrLineTooLong | FeedErrTruncated | FeedErrMetadata
  | FeedErrMalformedThreshold | FeedErrEntryCount | FeedErrSuspiciousChange | FeedErrRequest | FeedErrSSRF
  | FeedErrRedirect | FeedErrHTTPStatus | FeedErrBodySize | FeedErrContentType | FeedErrHTML | FeedErrResponseHeader

datatype go_float = Fin rat | PosInf | NegInf | NaN

fun flt_le :: "go_float \<Rightarrow> go_float \<Rightarrow> bool" where
  "flt_le NaN _ = False"
| "flt_le _ NaN = False"
| "flt_le NegInf _ = True"
| "flt_le _ PosInf = True"
| "flt_le (Fin x) (Fin y) = (x \<le> y)"
| "flt_le _ _ = False"

fun flt_less :: "go_float \<Rightarrow> go_float \<Rightarrow> bool" where
  "flt_less NaN _ = False"
| "flt_less _ NaN = False"
| "flt_less (Fin x) (Fin y) = (x < y)"
| "flt_less NegInf y = (y \<noteq> NegInf)"
| "flt_less x PosInf = (x \<noteq> PosInf)"
| "flt_less _ _ = False"

definition flt_ratio :: "int \<Rightarrow> int \<Rightarrow> go_float" where
  "flt_ratio a b = Fin (float64 (float64 (of_int a) / float64 (of_int b)))"

record Limits =
  lim_Family :: Family
  lim_MaxLineBytes :: int
  lim_MaxMalformedLines :: int
  lim_MaxMalformedRatio :: go_float
  lim_RequireFinalNewline :: bool

record feed_Result =
  fres_Entries :: "Entry list"
  fres_TotalRecords :: nat
  fres_Malformed :: nat
  fres_Metadata :: Metadata

record ValidationPolicy =
  vp_ExpectedMinEntries :: int
  vp_ExpectedMaxEntries :: int
  vp_MaxGrowthRatio :: go_float
  vp_MaxShrinkRatio :: go_float
  vp_PreviousAcceptedEntries :: int
  vp_Now :: gotime
  vp_MaxMetadataAge :: duration
  vp_MaxFutureSkew :: duration

definition zero_Metadata :: Metadata where
  "zero_Metadata = \<lparr>md_GeneratedAt = time_zero, md_DeclaredRecords = 0, md_Copyright = [], md_TermsURL = []\<rparr>"

definition zero_Result :: feed_Result where
  "zero_Result = \<lparr>fres_Entries = [], fres_TotalRecords = 0, fres_Malformed = 0, fres_Metadata = zero_Metadata\<rparr>"

subsection \<open>Definitions: UTF-8 and lines\<close>

definition cont :: "nat \<Rightarrow> bool" where
  "cont b = (128 \<le> b \<and> b \<le> 191)"

text \<open>\<^verbatim>\<open>utf8.ValidString\<close>: no surrogates, no overlong forms, nothing above U+10FFFF.\<close>

fun utf8_valid :: "nat list \<Rightarrow> bool" where
  "utf8_valid [] = True"
| "utf8_valid (a # s) =
     (if a < 128 then utf8_valid s
      else case s of
        [] \<Rightarrow> False
      | b # t \<Rightarrow>
          if 194 \<le> a \<and> a \<le> 223 then cont b \<and> utf8_valid t
          else case t of
            [] \<Rightarrow> False
          | c # u \<Rightarrow>
              if a = 224 then 160 \<le> b \<and> b \<le> 191 \<and> cont c \<and> utf8_valid u
              else if a = 237 then 128 \<le> b \<and> b \<le> 159 \<and> cont c \<and> utf8_valid u
              else if 225 \<le> a \<and> a \<le> 239 then cont b \<and> cont c \<and> utf8_valid u
              else case u of
                [] \<Rightarrow> False
              | d # v \<Rightarrow>
                  if a = 240 then 144 \<le> b \<and> b \<le> 191 \<and> cont c \<and> cont d \<and> utf8_valid v
                  else if 241 \<le> a \<and> a \<le> 243 then cont b \<and> cont c \<and> cont d \<and> utf8_valid v
                  else if a = 244 then 128 \<le> b \<and> b \<le> 143 \<and> cont c \<and> cont d \<and> utf8_valid v
                  else False)"

text \<open>The lines a \<^verbatim>\<open>bufio.Scanner\<close> sees: the text before each newline, and what follows the last
  newline unless it is empty.\<close>

fun raw_lines :: "string \<Rightarrow> string \<Rightarrow> string list" where
  "raw_lines cur [] = (if cur = [] then [] else [rev cur])"
| "raw_lines cur (c # s) = (if code c = 10 then rev cur # raw_lines [] s else raw_lines (c # cur) s)"

definition dropCR :: "string \<Rightarrow> string" where
  "dropCR s = (if s \<noteq> [] \<and> code (last s) = 13 then butlast s else s)"

definition byte_order_mark :: string where
  "byte_order_mark = [byte 239, byte 187, byte 191]"

text \<open>The scanner gives up on a line that does not fit its buffer together with its newline.\<close>

fun scan_loop :: "int \<Rightarrow> (string \<Rightarrow> 'a \<Rightarrow> (FeedError, 'a) result) \<Rightarrow> bool \<Rightarrow> string list \<Rightarrow> 'a \<Rightarrow> (FeedError, 'a) result" where
  "scan_loop maxLine consume first [] acc = Inr acc"
| "scan_loop maxLine consume first (raw # lines) acc =
     (if int (length raw) + 1 > maxLine then Inl FeedErrLineTooLong
      else let line = (if first then TrimPrefix (dropCR raw) byte_order_mark else dropCR raw) in
        if \<not> utf8_valid (map code line) then Inl FeedErrFormat
        else case consume line acc of
          Inl e \<Rightarrow> Inl e
        | Inr acc' \<Rightarrow> scan_loop maxLine consume False lines acc')"

definition scan :: "string \<Rightarrow> Limits \<Rightarrow> (string \<Rightarrow> 'a \<Rightarrow> (FeedError, 'a) result) \<Rightarrow> 'a \<Rightarrow> (FeedError, 'a) result" where
  "scan body limits consume acc =
     (case scan_loop (lim_MaxLineBytes limits) consume True (raw_lines [] body) acc of
        Inl e \<Rightarrow> Inl e
      | Inr acc' \<Rightarrow>
          if body = [] then Inl FeedErrEmpty
          else if lim_RequireFinalNewline limits \<and> code (last body) \<noteq> 10 then Inl FeedErrTruncated
          else Inr acc')"

subsection \<open>Definitions: parser.go\<close>

definition validLimits :: "Limits \<Rightarrow> bool" where
  "validLimits limits =
     ((lim_Family limits = FamilyAny \<or> lim_Family limits = FamilyIPv4 \<or> lim_Family limits = FamilyIPv6) \<and>
      lim_MaxLineBytes limits > 0 \<and> lim_MaxMalformedLines limits \<ge> 0 \<and>
      lim_MaxMalformedRatio limits \<noteq> NaN \<and> flt_le (Fin 0) (lim_MaxMalformedRatio limits) \<and>
      flt_le (lim_MaxMalformedRatio limits) (Fin 1))"

definition familyMatches :: "bool \<Rightarrow> Family \<Rightarrow> bool" where
  "familyMatches prefixIs4 family =
     (family = FamilyAny \<or> (family = FamilyIPv4 \<and> prefixIs4) \<or> (family = FamilyIPv6 \<and> \<not> prefixIs4))"

definition malformedAllowed :: "feed_Result \<Rightarrow> Limits \<Rightarrow> bool" where
  "malformedAllowed r limits =
     (if int (fres_Malformed r) > lim_MaxMalformedLines limits then False
      else if fres_TotalRecords r = 0 then fres_Malformed r = 0
      else flt_le (flt_ratio (int (fres_Malformed r)) (int (fres_TotalRecords r))) (lim_MaxMalformedRatio limits))"

definition stripComment :: "string \<Rightarrow> string" where
  "stripComment line = TrimSpace (takeWhile (\<lambda>c. c \<noteq> CHR ''#'' \<and> c \<noteq> CHR '';'') line)"

definition count_malformed :: "feed_Result \<Rightarrow> feed_Result" where
  "count_malformed r = r\<lparr>fres_Malformed := fres_Malformed r + 1\<rparr>"

definition netset_line :: "Limits \<Rightarrow> string \<Rightarrow> feed_Result \<Rightarrow> (FeedError, feed_Result) result" where
  "netset_line limits raw acc =
     (let line = stripComment raw in
      if line = [] then Inr acc
      else let counted = acc\<lparr>fres_TotalRecords := fres_TotalRecords acc + 1\<rparr> in
        (case Fields line of
           [field] \<Rightarrow>
             (case ParseValue field of
                Inl _ \<Rightarrow> Inr (count_malformed counted)
              | Inr (prefix, kind) \<Rightarrow>
                  if \<not> familyMatches (Is4 (pfx_ip prefix)) (lim_Family limits) then Inr (count_malformed counted)
                  else Inr (counted\<lparr>fres_Entries := fres_Entries counted @ [\<lparr>ent_Prefix = prefix, ent_Kind = kind\<rparr>]\<rparr>))
         | _ \<Rightarrow> Inr (count_malformed counted)))"

definition parseNetset :: "string \<Rightarrow> Limits \<Rightarrow> (FeedError, feed_Result) result" where
  "parseNetset body limits =
     (case scan body limits (netset_line limits) zero_Result of
        Inl e \<Rightarrow> Inl e
      | Inr r \<Rightarrow>
          if fres_TotalRecords r = 0 then Inl FeedErrEmpty
          else if \<not> malformedAllowed r limits then Inl FeedErrMalformedThreshold
          else Inr r)"

text \<open>The Spamhaus format: one JSON object per line. \<^verbatim>\<open>url.Parse\<close> is an argument.\<close>

record spamhausMetadata =
  sm_Type :: string
  sm_Timestamp :: int
  sm_Copyright :: string
  sm_Terms :: string
  sm_Records :: int

definition zero_spamhausMetadata :: spamhausMetadata where
  "zero_spamhausMetadata = \<lparr>sm_Type = [], sm_Timestamp = 0, sm_Copyright = [], sm_Terms = [], sm_Records = 0\<rparr>"

definition put_metadata :: "string \<Rightarrow> json \<Rightarrow> spamhausMetadata \<Rightarrow> spamhausMetadata option" where
  "put_metadata name v m =
     (if name = ''TYPE'' then map_option (\<lambda>x. m\<lparr>sm_Type := x\<rparr>) (store_string v (sm_Type m))
      else if name = ''TIMESTAMP'' then map_option (\<lambda>x. m\<lparr>sm_Timestamp := x\<rparr>) (store_int v (sm_Timestamp m))
      else if name = ''COPYRIGHT'' then map_option (\<lambda>x. m\<lparr>sm_Copyright := x\<rparr>) (store_string v (sm_Copyright m))
      else if name = ''TERMS'' then map_option (\<lambda>x. m\<lparr>sm_Terms := x\<rparr>) (store_string v (sm_Terms m))
      else if name = ''RECORDS'' then map_option (\<lambda>x. m\<lparr>sm_Records := x\<rparr>) (store_int v (sm_Records m))
      else Some m)"

text \<open>A struct with one string field, such as the envelope and \<^verbatim>\<open>spamhausRecord\<close>.\<close>

definition put_field :: "string \<Rightarrow> string \<Rightarrow> json \<Rightarrow> string \<Rightarrow> string option" where
  "put_field field name v x = (if name = field then store_string v x else Some x)"

text \<open>\<^verbatim>\<open>time.Unix\<close> counts from the year 1 in 64 bits.\<close>

definition time_Unix64 :: "int \<Rightarrow> gotime" where
  "time_Unix64 sec = time_Unix (wrap64 (sec + 62135596800) - 62135596800)"

definition spamhaus_metadata ::
  "(string \<Rightarrow> url option) \<Rightarrow> string \<Rightarrow> feed_Result \<Rightarrow> (FeedError, feed_Result \<times> bool) result" where
  "spamhaus_metadata url_Parse line acc =
     (case Unmarshal put_metadata line zero_spamhausMetadata of
        None \<Rightarrow> Inl FeedErrMetadata
      | Some m \<Rightarrow>
          (case url_Parse (sm_Terms m) of
             None \<Rightarrow> Inl FeedErrMetadata
           | Some terms \<Rightarrow>
               if url_Scheme terms \<noteq> ''https'' \<or> url_Hostname terms = [] \<or> sm_Timestamp m \<le> 0 \<or> sm_Records m < 1
                  \<or> TrimSpace (sm_Copyright m) = [] \<or> length (sm_Copyright m) > 2048 \<or> length (sm_Terms m) > 2048
               then Inl FeedErrMetadata
               else Inr (acc\<lparr>fres_Metadata :=
                 \<lparr>md_GeneratedAt = time_Unix64 (sm_Timestamp m), md_DeclaredRecords = sm_Records m,
                  md_Copyright = sm_Copyright m, md_TermsURL = sm_Terms m\<rparr>\<rparr>, True)))"

definition spamhaus_line ::
  "(string \<Rightarrow> url option) \<Rightarrow> Limits \<Rightarrow> string \<Rightarrow> feed_Result \<times> bool \<Rightarrow>
   (FeedError, feed_Result \<times> bool) result" where
  "spamhaus_line url_Parse limits raw st = (case st of (acc, metadataSeen) \<Rightarrow>
     let line = TrimSpace raw; counted = acc\<lparr>fres_TotalRecords := fres_TotalRecords acc + 1\<rparr> in
     if line = [] then Inr (acc, metadataSeen)
     else case Unmarshal (put_field ''TYPE'') line [] of
       None \<Rightarrow> Inr (count_malformed counted, metadataSeen)
     | Some envelopeType \<Rightarrow>
         if envelopeType = ''metadata'' then
           (if metadataSeen then Inl FeedErrMetadata else spamhaus_metadata url_Parse line acc)
         else if metadataSeen then Inl FeedErrMetadata
         else if envelopeType \<noteq> [] then Inr (count_malformed counted, False)
         else (case Unmarshal (put_field ''CIDR'') line [] of
             None \<Rightarrow> Inr (count_malformed counted, False)
           | Some cidr \<Rightarrow>
               (case NormalizePrefix cidr of
                  Inl _ \<Rightarrow> Inr (count_malformed counted, False)
                | Inr prefix \<Rightarrow>
                    if \<not> familyMatches (Is4 (pfx_ip prefix)) (lim_Family limits) then Inr (count_malformed counted, False)
                    else Inr (counted\<lparr>fres_Entries := fres_Entries counted @ [\<lparr>ent_Prefix = prefix, ent_Kind = KindRange\<rparr>]\<rparr>, False))))"

definition parseSpamhaus ::
  "(string \<Rightarrow> url option) \<Rightarrow> string \<Rightarrow> Limits \<Rightarrow> (FeedError, feed_Result) result" where
  "parseSpamhaus url_Parse body limits =
     (case scan body limits (spamhaus_line url_Parse limits) (zero_Result, False) of
        Inl e \<Rightarrow> Inl e
      | Inr (r, metadataSeen) \<Rightarrow>
          if \<not> metadataSeen \<or> md_DeclaredRecords (fres_Metadata r) \<noteq> int (fres_TotalRecords r) then Inl FeedErrMetadata
          else if \<not> malformedAllowed r limits then Inl FeedErrMalformedThreshold
          else Inr r)"

definition feed_Parse ::
  "(string \<Rightarrow> url option) \<Rightarrow> Format \<Rightarrow> string \<Rightarrow> Limits \<Rightarrow> (FeedError, feed_Result) result" where
  "feed_Parse url_Parse format body limits =
     (if \<not> validLimits limits then Inl FeedErrPolicy
      else case format of
        FormatSpamhausDROPJSONL \<Rightarrow> parseSpamhaus url_Parse body limits
      | FormatFireHOLNetset \<Rightarrow> parseNetset body limits
      | FormatPlain \<Rightarrow> parseNetset body limits
      | OtherFormat _ \<Rightarrow> Inl FeedErrFormat)"

subsection \<open>Definitions: validate.go\<close>

definition compareEntry :: "Entry \<Rightarrow> Entry \<Rightarrow> int" where
  "compareEntry a b =
     (if Is4 (pfx_ip (ent_Prefix a)) \<noteq> Is4 (pfx_ip (ent_Prefix b)) then
        (if Is4 (pfx_ip (ent_Prefix a)) then -1 else 1)
      else
        (let value = addr_Compare (pfx_ip (ent_Prefix a)) (pfx_ip (ent_Prefix b)) in
         if value \<noteq> 0 then value
         else let value' = cmp_Compare (Bits (ent_Prefix a)) (Bits (ent_Prefix b)) in
           if value' \<noteq> 0 then value' else cmp_Compare (kind_num (ent_Kind a)) (kind_num (ent_Kind b))))"

definition validValidationPolicy :: "ValidationPolicy \<Rightarrow> bool" where
  "validValidationPolicy p =
     (vp_ExpectedMinEntries p \<ge> 1 \<and> vp_ExpectedMaxEntries p \<ge> vp_ExpectedMinEntries p \<and>
      vp_PreviousAcceptedEntries p \<ge> 0 \<and> flt_le (Fin 1) (vp_MaxGrowthRatio p) \<and> flt_le (vp_MaxGrowthRatio p) (Fin 100) \<and>
      flt_less (Fin 0) (vp_MaxShrinkRatio p) \<and> flt_le (vp_MaxShrinkRatio p) (Fin 1) \<and>
      vp_MaxGrowthRatio p \<notin> {NaN, PosInf, NegInf} \<and> vp_MaxShrinkRatio p \<notin> {NaN, PosInf, NegInf} \<and>
      \<not> IsZero (vp_Now p) \<and> vp_MaxMetadataAge p \<ge> 0 \<and> vp_MaxFutureSkew p \<ge> 0)"

definition snapshotVersion :: "Entry list \<Rightarrow> string" where
  "snapshotVersion entries =
     sha256_hex (concat (map (\<lambda>e. itoa (kind_num (ent_Kind e)) @ '':'' @ prefix_String (ent_Prefix e) @ [byte 10]) entries))"

text \<open>The loop over the entries, with the keys seen so far.\<close>

definition entry_accepted :: "Entry \<Rightarrow> bool" where
  "entry_accepted e =
     (fst (IsSafePrefix (Masked (ent_Prefix e))) \<and> ValidateKind (Masked (ent_Prefix e)) (ent_Kind e) = None)"

fun validate_entries :: "Entry list \<Rightarrow> Entry list \<Rightarrow> nat \<Rightarrow> nat \<Rightarrow> Entry list \<times> nat \<times> nat" where
  "validate_entries [] kept rejected_safety duplicates = (kept, rejected_safety, duplicates)"
| "validate_entries (e # es) kept rejected_safety duplicates =
     (let entry = \<lparr>ent_Prefix = Masked (ent_Prefix e), ent_Kind = ent_Kind e\<rparr> in
      if \<not> entry_accepted e then validate_entries es kept (rejected_safety + 1) duplicates
      else if entry \<in> set kept then validate_entries es kept rejected_safety (duplicates + 1)
      else validate_entries es (kept @ [entry]) rejected_safety duplicates)"

definition Validate :: "feed_Result \<Rightarrow> ValidationPolicy \<Rightarrow> (FeedError, Snapshot) result" where
  "Validate r p =
     (if \<not> validValidationPolicy p then Inl FeedErrPolicy
      else if \<not> IsZero (md_GeneratedAt (fres_Metadata r)) \<and>
          (md_GeneratedAt (fres_Metadata r) > vp_Now p + vp_MaxFutureSkew p \<or>
           (vp_MaxMetadataAge p > 0 \<and> md_GeneratedAt (fres_Metadata r) < vp_Now p - vp_MaxMetadataAge p))
      then Inl FeedErrMetadata
      else case validate_entries (fres_Entries r) [] 0 0 of (kept, rejected_safety, duplicates) \<Rightarrow>
        let entries = sort_cmp compareEntry kept; count = int (length entries) in
        if count < vp_ExpectedMinEntries p \<or> count > vp_ExpectedMaxEntries p then Inl FeedErrEntryCount
        else if vp_PreviousAcceptedEntries p > 0 \<and>
            (flt_less (vp_MaxGrowthRatio p) (flt_ratio count (vp_PreviousAcceptedEntries p)) \<or>
             flt_less (flt_ratio count (vp_PreviousAcceptedEntries p)) (vp_MaxShrinkRatio p))
        then Inl FeedErrSuspiciousChange
        else Inr \<lparr>snp_Entries = entries, snp_Version = snapshotVersion entries, snp_RawEntries = length (fres_Entries r),
               snp_RejectedSafety = rejected_safety, snp_Duplicates = duplicates, snp_Metadata = fres_Metadata r\<rparr>)"

end
