(* ===== verification/Ops.thy ===== *)
theory Ops
  imports Go_Strings
begin

text \<open>
  The package \<^verbatim>\<open>internal/ops\<close>: the closed vocabulary of events and results that logging, metrics,
  readiness, notifications and the sync history share, and the validation each value must pass.
  A Go string type with named constants is a datatype with one constructor per constant and one
  for every other string, so that the default branches of the switches are reachable.
\<close>

subsection \<open>Definitions: the vocabulary\<close>

datatype Code =
    CodeServiceStarting | CodeServiceStarted | CodeServiceStopping | CodeServiceStopped
  | CodeRuntimeFatal | CodeSyncStarted | CodeSyncCompleted | CodeFeedResult | CodeLAPIStateChanged
  | CodeSchedulerStarted | CodeSchedulerRetry | CodeSchedulerRecovered | CodeSchedulerStopped
  | CodeHTTPStarted | CodeHTTPStopped | CodeNotificationResult | CodeDatabaseStateChange
  | CodePruneCompleted | OtherCode string

datatype ops_Operation =
    OperationService | OperationSync | OperationFeed | OperationLAPI | OperationScheduler
  | OperationHTTP | OperationNotification | OperationDatabase | OperationPrune | OtherOperation string

datatype Outcome =
    OutcomeStarted | OutcomeSuccess | OutcomeDegraded | OutcomeFailed | OutcomeCancelled
  | OutcomeNotDue | OutcomeNotModified | OutcomeRetrying | OutcomeRecovered | OutcomeAvailable
  | OutcomeUnavailable | OutcomeStale | OutcomeStopped | OtherOutcome string

datatype Severity = SeverityInfo | SeverityWarning | SeverityError | OtherSeverity string

text \<open>\<open>NoFailure\<close> is the empty string, the zero value of the Go type.\<close>

datatype FailureCategory =
    NoFailure | FailureConfig | FailureCredential | FailureFeedDownload | FailureFeedValidation
  | FailureLAPIAuth | FailureLAPI | FailureDatabase | FailureNotification | FailureOwnership
  | FailureTimeout | FailureCancelled | FailureRuntime | FailureInternal | OtherFailure string

record Counts =
  cnt_FeedsSucceeded :: int
  cnt_FeedsFailed :: int
  cnt_FeedsUnchanged :: int
  cnt_FeedsNotDue :: int
  cnt_Added :: int
  cnt_Refreshed :: int
  cnt_Removed :: int
  cnt_Rejected :: int
  cnt_Skipped :: int
  cnt_LAPIRequests :: int
  cnt_ActiveDecisions :: int

record Event =
  ev_Code :: Code
  ev_Operation :: ops_Operation
  ev_Feed :: string
  ev_Outcome :: Outcome
  ev_Severity :: Severity
  ev_Failure :: FailureCategory
  ev_At :: gotime
  ev_Duration :: duration
  ev_Attempt :: int
  ev_Counts :: Counts

record FeedResult =
  fr_Name :: string
  fr_Outcome :: Outcome
  fr_Failure :: FailureCategory
  fr_Accepted :: int
  fr_Rejected :: int

record ops_Result =
  res_Outcome :: Outcome
  res_Failure :: FailureCategory
  res_Retryable :: bool
  res_StartedAt :: gotime
  res_CompletedAt :: gotime
  res_Counts :: Counts
  res_Feeds :: "FeedResult list"

datatype ops_error = ErrInvalidEvent | ErrInvalidResult

definition maxCount :: int where
  "maxCount = 100000000"

definition maxDuration :: duration where
  "maxDuration = 7 * 24 * hour"

definition maxFeedResults :: nat where
  "maxFeedResults = 256"

definition zero_Counts :: Counts where
  "zero_Counts =
     \<lparr>cnt_FeedsSucceeded = 0, cnt_FeedsFailed = 0, cnt_FeedsUnchanged = 0, cnt_FeedsNotDue = 0,
      cnt_Added = 0, cnt_Refreshed = 0, cnt_Removed = 0, cnt_Rejected = 0, cnt_Skipped = 0,
      cnt_LAPIRequests = 0, cnt_ActiveDecisions = 0\<rparr>"

subsection \<open>Definitions: validation\<close>

definition feed_edge :: "char \<Rightarrow> bool" where
  "feed_edge c = (is_lower c \<or> is_digit c)"

text \<open>The regular expression \<^verbatim>\<open>^[a-z0-9](?:[a-z0-9-]*[a-z0-9])?$\<close>.\<close>

definition feedNamePattern :: "string \<Rightarrow> bool" where
  "feedNamePattern s =
     (s \<noteq> [] \<and> feed_edge (hd s) \<and> feed_edge (last s) \<and>
      list_all (\<lambda>c. feed_edge c \<or> c = CHR ''-'') s)"

definition ValidFeedName :: "string \<Rightarrow> bool" where
  "ValidFeedName value = (length value \<le> 64 \<and> feedNamePattern value)"

definition Counts_valid :: "Counts \<Rightarrow> bool" where
  "Counts_valid c =
     list_all (\<lambda>value. \<not> (value < 0 \<or> value > maxCount))
       [cnt_FeedsSucceeded c, cnt_FeedsFailed c, cnt_FeedsUnchanged c, cnt_FeedsNotDue c,
        cnt_Added c, cnt_Refreshed c, cnt_Removed c, cnt_Rejected c, cnt_Skipped c,
        cnt_LAPIRequests c, cnt_ActiveDecisions c]"

definition Counts_Validate :: "Counts \<Rightarrow> ops_error option" where
  "Counts_Validate c = (if \<not> Counts_valid c then Some ErrInvalidResult else None)"

fun validFailure :: "FailureCategory \<Rightarrow> bool" where
  "validFailure NoFailure = False"
| "validFailure (OtherFailure s) = False"
| "validFailure _ = True"

definition ValidFailureCategory :: "FailureCategory \<Rightarrow> bool" where
  "ValidFailureCategory value = validFailure value"

fun validOutcome :: "Outcome \<Rightarrow> bool" where
  "validOutcome (OtherOutcome s) = False"
| "validOutcome _ = True"

definition validSeverity :: "Severity \<Rightarrow> bool" where
  "validSeverity value = (value = SeverityInfo \<or> value = SeverityWarning \<or> value = SeverityError)"

fun codeOperation :: "Code \<Rightarrow> ops_Operation option" where
  "codeOperation CodeServiceStarting = Some OperationService"
| "codeOperation CodeServiceStarted = Some OperationService"
| "codeOperation CodeServiceStopping = Some OperationService"
| "codeOperation CodeServiceStopped = Some OperationService"
| "codeOperation CodeRuntimeFatal = Some OperationService"
| "codeOperation CodeSyncStarted = Some OperationSync"
| "codeOperation CodeSyncCompleted = Some OperationSync"
| "codeOperation CodeFeedResult = Some OperationFeed"
| "codeOperation CodeLAPIStateChanged = Some OperationLAPI"
| "codeOperation CodeSchedulerStarted = Some OperationScheduler"
| "codeOperation CodeSchedulerRetry = Some OperationScheduler"
| "codeOperation CodeSchedulerRecovered = Some OperationScheduler"
| "codeOperation CodeSchedulerStopped = Some OperationScheduler"
| "codeOperation CodeHTTPStarted = Some OperationHTTP"
| "codeOperation CodeHTTPStopped = Some OperationHTTP"
| "codeOperation CodeNotificationResult = Some OperationNotification"
| "codeOperation CodeDatabaseStateChange = Some OperationDatabase"
| "codeOperation CodePruneCompleted = Some OperationPrune"
| "codeOperation (OtherCode s) = None"

definition outcomeNeedsFailure :: "Outcome \<Rightarrow> bool" where
  "outcomeNeedsFailure value =
     (value \<in> {OutcomeDegraded, OutcomeFailed, OutcomeRetrying, OutcomeUnavailable, OutcomeStale, OutcomeCancelled})"

definition Event_Validate :: "Event \<Rightarrow> ops_error option" where
  "Event_Validate e =
     (case codeOperation (ev_Code e) of
        None \<Rightarrow> Some ErrInvalidEvent
      | Some expected \<Rightarrow>
          if ev_Operation e \<noteq> expected \<or> \<not> validOutcome (ev_Outcome e) \<or> \<not> validSeverity (ev_Severity e)
             \<or> IsZero (ev_At e)
          then Some ErrInvalidEvent
          else if ev_Duration e < 0 \<or> ev_Duration e > maxDuration \<or> ev_Attempt e < 0 \<or> ev_Attempt e > 10
             \<or> \<not> Counts_valid (ev_Counts e)
          then Some ErrInvalidEvent
          else if ev_Code e = CodeSchedulerRetry \<and> ev_Attempt e < 1 then Some ErrInvalidEvent
          else if outcomeNeedsFailure (ev_Outcome e) \<and> \<not> validFailure (ev_Failure e) then Some ErrInvalidEvent
          else if outcomeNeedsFailure (ev_Outcome e) \<and> ev_Outcome e = OutcomeCancelled \<and> ev_Failure e \<noteq> FailureCancelled
          then Some ErrInvalidEvent
          else if \<not> outcomeNeedsFailure (ev_Outcome e) \<and> ev_Failure e \<noteq> NoFailure then Some ErrInvalidEvent
          else if ev_Feed e \<noteq> [] then
            (if \<not> ValidFeedName (ev_Feed e) \<or> (ev_Operation e \<noteq> OperationFeed \<and> ev_Operation e \<noteq> OperationNotification)
             then Some ErrInvalidEvent else None)
          else if ev_Code e = CodeFeedResult then Some ErrInvalidEvent
          else None)"

definition FeedResult_valid :: "FeedResult \<Rightarrow> bool" where
  "FeedResult_valid r =
     (if \<not> ValidFeedName (fr_Name r) \<or> fr_Accepted r < 0 \<or> fr_Accepted r > maxCount
         \<or> fr_Rejected r < 0 \<or> fr_Rejected r > maxCount
      then False
      else if fr_Outcome r \<in> {OutcomeSuccess, OutcomeNotDue, OutcomeNotModified} then fr_Failure r = NoFailure
      else if fr_Outcome r \<in> {OutcomeFailed, OutcomeDegraded} then validFailure (fr_Failure r)
      else False)"

definition FeedResult_Validate :: "FeedResult \<Rightarrow> ops_error option" where
  "FeedResult_Validate r = (if \<not> FeedResult_valid r then Some ErrInvalidResult else None)"

text \<open>The loop over the feeds with its set of seen names.\<close>

fun feeds_valid :: "string list \<Rightarrow> FeedResult list \<Rightarrow> bool" where
  "feeds_valid seen [] = True"
| "feeds_valid seen (f # fs) =
     (if \<not> FeedResult_valid f then False
      else if fr_Name f \<in> set seen then False
      else feeds_valid (fr_Name f # seen) fs)"

definition Result_Validate :: "ops_Result \<Rightarrow> ops_error option" where
  "Result_Validate r =
     (if (case res_Outcome r of
            OutcomeSuccess \<Rightarrow> res_Failure r \<noteq> NoFailure \<or> res_Retryable r
          | OutcomeDegraded \<Rightarrow> \<not> validFailure (res_Failure r)
          | OutcomeFailed \<Rightarrow> \<not> validFailure (res_Failure r)
          | OutcomeCancelled \<Rightarrow> res_Failure r \<noteq> FailureCancelled \<or> res_Retryable r
          | _ \<Rightarrow> True)
      then Some ErrInvalidResult
      else if IsZero (res_StartedAt r) \<or> res_CompletedAt r < res_StartedAt r
          \<or> time_Sub (res_CompletedAt r) (res_StartedAt r) > maxDuration
          \<or> \<not> Counts_valid (res_Counts r) \<or> length (res_Feeds r) > maxFeedResults
      then Some ErrInvalidResult
      else if \<not> feeds_valid [] (res_Feeds r) then Some ErrInvalidResult
      else None)"

subsection \<open>Facts\<close>

lemma feeds_valid_iff:
  "feeds_valid seen fs \<longleftrightarrow>
     (\<forall>f \<in> set fs. FeedResult_valid f) \<and> distinct (map fr_Name fs) \<and> set seen \<inter> fr_Name ` set fs = {}"
  by (induction fs arbitrary: seen) auto

lemma validFailure_iff: "validFailure f \<longleftrightarrow> f \<noteq> NoFailure \<and> (\<forall>s. f \<noteq> OtherFailure s)"
  by (cases f) auto

lemma Result_Validate_None_iff:
  "Result_Validate r = None \<longleftrightarrow>
     ((res_Outcome r = OutcomeSuccess \<and> res_Failure r = NoFailure \<and> \<not> res_Retryable r) \<or>
      (res_Outcome r \<in> {OutcomeDegraded, OutcomeFailed} \<and> validFailure (res_Failure r)) \<or>
      (res_Outcome r = OutcomeCancelled \<and> res_Failure r = FailureCancelled \<and> \<not> res_Retryable r)) \<and>
     \<not> IsZero (res_StartedAt r) \<and> res_StartedAt r \<le> res_CompletedAt r \<and>
     time_Sub (res_CompletedAt r) (res_StartedAt r) \<le> maxDuration \<and> Counts_valid (res_Counts r) \<and>
     length (res_Feeds r) \<le> maxFeedResults \<and>
     (\<forall>f \<in> set (res_Feeds r). FeedResult_valid f) \<and> distinct (map fr_Name (res_Feeds r))"
  by (auto simp: Result_Validate_def feeds_valid_iff not_less split: Outcome.splits if_splits)

lemma zero_Counts_valid [simp]: "Counts_valid zero_Counts"
  by (simp add: Counts_valid_def zero_Counts_def maxCount_def)

lemma FeedResult_valid_failure:
  "FeedResult_valid f \<Longrightarrow> fr_Failure f = NoFailure \<longleftrightarrow> fr_Outcome f \<in> {OutcomeSuccess, OutcomeNotDue, OutcomeNotModified}"
  by (auto simp: FeedResult_valid_def split: if_splits)

end
