(* ===== verification/Config.thy ===== *)
theory Config
  imports Feed Ops
begin

text \<open>
  The package \<^verbatim>\<open>internal/config\<close>: the configuration as \<^verbatim>\<open>types.go\<close> declares it and \<^verbatim>\<open>Validate\<close> of
  \<^verbatim>\<open>validate.go\<close>, which checks every bound and brings the allowlists, the allowed HTTP hosts and the
  limits of the feeds into canonical form. \<^verbatim>\<open>url.Parse\<close> is an argument. A duration is the number of its
  nanoseconds; the field that an error names is left out, its category is kept.
\<close>

subsection \<open>Definitions: types.go\<close>

record ServerConfig =
  srv_ListenAddress :: string
  srv_ReadHeaderTimeout :: duration
  srv_ReadTimeout :: duration
  srv_WriteTimeout :: duration
  srv_IdleTimeout :: duration
  srv_ShutdownTimeout :: duration
  srv_LAPIUnreachableGrace :: duration
  srv_ReadinessMaxSyncAge :: duration

record RetryConfig =
  rty_MaxAttempts :: int
  rty_InitialBackoff :: duration
  rty_MaxBackoff :: duration

record ScheduleConfig =
  sch_Interval :: duration
  sch_StartupJitter :: duration
  sch_RunImmediately :: bool
  sch_Retry :: RetryConfig

record DatabaseConfig =
  dbc_Path :: string
  dbc_BusyTimeout :: duration
  dbc_IntegrityCheckOnStart :: bool
  dbc_HistoryRetention :: duration
  dbc_MaxHistoryEntries :: int

record CrowdSecConfig =
  csc_CredentialsFile :: string
  csc_AllowedHTTPHosts :: "string list"
  csc_RequestTimeout :: duration
  csc_ConnectTimeout :: duration
  csc_MaxResponseBytes :: int
  csc_BatchSize :: int
  csc_AuthRefreshBefore :: duration

record DecisionsConfig =
  dec_Duration :: duration
  dec_MissingGraceRuns :: int
  dec_RefreshBefore :: duration

record FeedConfig =
  fc_Name :: string
  fc_Enabled :: bool
  fc_URL :: string
  fc_Format :: string
  fc_Family :: string
  fc_Timeout :: duration
  fc_MaxDownloadBytes :: int
  fc_ExpectedMinEntries :: int
  fc_ExpectedMaxEntries :: int
  fc_MaxGrowthRatio :: go_float
  fc_MaxShrinkRatio :: go_float
  fc_Attribution :: string
  fc_MinUpdateInterval :: duration
  fc_AllowHTTP :: bool
  fc_ContentTypes :: "string list"
  fc_RequireFinalNewline :: bool
  fc_MaxMalformedLines :: int
  fc_MaxMalformedRatio :: go_float

record ValidationConfig =
  val_AllowHTTP :: bool
  val_MaxRedirects :: int
  val_MaxFeeds :: int
  val_MaxFeedNameLength :: int
  val_MaxMalformedLines :: int
  val_MaxMalformedRatio :: go_float
  val_MaxLineBytes :: int
  val_UserAgent :: string
  val_DNSLookupTimeout :: duration

record LoggingConfig =
  log_Level :: string
  log_Format :: string

record NotificationsConfig =
  ntf_Enabled :: bool
  ntf_ServerURL :: string
  ntf_Topic :: string
  ntf_AllowHTTP :: bool
  ntf_RequestTimeout :: duration
  ntf_Cooldown :: duration
  ntf_MinimumSeverity :: string
  ntf_FailureThreshold :: int
  ntf_RecoveryNotifications :: bool
  ntf_SuspiciousChangeNotifications :: bool
  ntf_StaleSyncNotifications :: bool
  ntf_StaleSyncAfter :: duration
  ntf_StartupNotification :: bool
  ntf_SuccessNotification :: bool
  ntf_FirstSuccessNotification :: bool
  ntf_Token :: string

text \<open>\<^verbatim>\<open>AllowlistsConfig\<close> has one field, a list of \<^verbatim>\<open>CIDR\<close>, each of which is a prefix.\<close>

record Config =
  cfg_Server :: ServerConfig
  cfg_Schedule :: ScheduleConfig
  cfg_Database :: DatabaseConfig
  cfg_CrowdSec :: CrowdSecConfig
  cfg_Decisions :: DecisionsConfig
  cfg_Feeds :: "FeedConfig list"
  cfg_Allowlists :: "netip_prefix list"
  cfg_Validation :: ValidationConfig
  cfg_Logging :: LoggingConfig
  cfg_Notifications :: NotificationsConfig

datatype ConfigError =
    CfgErrConfigSize | CfgErrYAML | CfgErrYAMLDocument | CfgErrEnvironment | CfgErrDuration | CfgErrFeedName
  | CfgErrFeedURL | CfgErrFeedThreshold | CfgErrAllowlist | CfgErrPath | CfgErrServer | CfgErrNotification
  | CfgErrValidation

subsection \<open>Definitions: text\<close>

definition SplitHostPort :: "string \<Rightarrow> (string \<times> string) option" where
  "SplitHostPort s =
     (case split_last (CHR '':'') s of
        None \<Rightarrow> None
      | Some (before, port) \<Rightarrow>
          if hd s = CHR ''['' then
            (case split_first (CHR '']'') s of
               None \<Rightarrow> None
             | Some (open_host, rest) \<Rightarrow>
                 if rest \<noteq> CHR '':'' # port \<or> CHR ''['' \<in> set (tl s) \<or> CHR '']'' \<in> set rest then None
                 else Some (tl open_host, port))
          else if CHR '':'' \<in> set before \<or> CHR ''['' \<in> set s \<or> CHR '']'' \<in> set s then None
          else Some (before, port))"

text \<open>\<^verbatim>\<open>strings.ToLower\<close> on the letters that have an ASCII lower case: those of ASCII, the Kelvin sign
  and the dotted capital I. Other characters are kept; outside the zone of an IPv6 literal no
  text that has them passes the checks below.\<close>

fun ToLower :: "string \<Rightarrow> string" where
  "ToLower (a # b # c # s) =
     (if code a = 226 \<and> code b = 132 \<and> code c = 170 then CHR ''k'' # ToLower s
      else if code a = 196 \<and> code b = 176 then CHR ''i'' # ToLower (c # s)
      else (if is_upper a then byte (code a + 32) else a) # ToLower (b # c # s))"
| "ToLower [a, b] =
     (if code a = 196 \<and> code b = 176 then ''i''
      else (if is_upper a then byte (code a + 32) else a) # ToLower [b])"
| "ToLower [a] = [if is_upper a then byte (code a + 32) else a]"
| "ToLower [] = []"

definition TrimSuffix_dot :: "string \<Rightarrow> string" where
  "TrimSuffix_dot s = (if s \<noteq> [] \<and> last s = CHR ''.'' then butlast s else s)"

fun split_on :: "char \<Rightarrow> string \<Rightarrow> string list" where
  "split_on c [] = [[]]"
| "split_on c (x # s) =
     (if x = c then [] # split_on c s
      else case split_on c s of [] \<Rightarrow> [[x]] | w # ws \<Rightarrow> (x # w) # ws)"

definition alphanumeric :: "char \<Rightarrow> bool" where
  "alphanumeric c = (is_lower c \<or> is_upper c \<or> is_digit c)"

definition hostLabelPattern :: "string \<Rightarrow> bool" where
  "hostLabelPattern s =
     (s \<noteq> [] \<and> length s \<le> 63 \<and> alphanumeric (hd s) \<and> alphanumeric (last s) \<and>
      list_all (\<lambda>c. alphanumeric c \<or> c = CHR ''-'') s)"

definition topicPattern :: "string \<Rightarrow> bool" where
  "topicPattern s =
     (1 \<le> length s \<and> length s \<le> 64 \<and> list_all (\<lambda>c. alphanumeric c \<or> c = CHR ''_'' \<or> c = CHR ''-'') s)"

text \<open>The pattern of a feed name is that of \<^verbatim>\<open>internal/ops\<close>, \<^verbatim>\<open>feedNamePattern\<close>.\<close>

subsection \<open>Definitions: Defaults\<close>

definition safeVersion :: "string \<Rightarrow> bool" where
  "safeVersion s =
     (s \<noteq> [] \<and> length s \<le> 64 \<and> alphanumeric (hd s) \<and>
      list_all (\<lambda>c. alphanumeric c \<or> c \<in> {CHR ''.'', CHR ''_'', CHR ''+'', CHR ''-''}) (tl s))"

definition userAgent :: "string \<Rightarrow> string" where
  "userAgent version =
     (let trimmed = TrimSpace version in ''crowdshield/'' @ (if safeVersion trimmed then trimmed else ''dev''))"

definition default_spamhaus :: "string \<Rightarrow> string \<Rightarrow> string \<Rightarrow> int \<Rightarrow> int \<Rightarrow> int \<Rightarrow> FeedConfig" where
  "default_spamhaus name address family maxBytes minEntries maxEntries =
     \<lparr>fc_Name = name, fc_Enabled = True, fc_URL = address, fc_Format = ''spamhaus-drop-jsonl'', fc_Family = family,
      fc_Timeout = 30 * second, fc_MaxDownloadBytes = maxBytes, fc_ExpectedMinEntries = minEntries,
      fc_ExpectedMaxEntries = maxEntries, fc_MaxGrowthRatio = Fin (3 / 2), fc_MaxShrinkRatio = Fin (1 / 2),
      fc_Attribution = ''The Spamhaus Project DROP; https://www.spamhaus.org/blocklists/do-not-route-or-peer/'',
      fc_MinUpdateInterval = 24 * hour, fc_AllowHTTP = False,
      fc_ContentTypes = [''text/json'', ''application/json'', ''application/x-ndjson''],
      fc_RequireFinalNewline = True, fc_MaxMalformedLines = 0, fc_MaxMalformedRatio = Fin 0\<rparr>"

definition default_firehol :: FeedConfig where
  "default_firehol =
     \<lparr>fc_Name = ''firehol-level1'', fc_Enabled = True, fc_URL = ''https://iplists.firehol.org/files/firehol_level1.netset'',
      fc_Format = ''firehol-netset'', fc_Family = ''ipv4'', fc_Timeout = 30 * second, fc_MaxDownloadBytes = 5242880,
      fc_ExpectedMinEntries = 1000, fc_ExpectedMaxEntries = 20000, fc_MaxGrowthRatio = Fin (3 / 2),
      fc_MaxShrinkRatio = Fin (1 / 2),
      fc_Attribution = ''FireHOL Level 1 (DShield, Feodo Tracker, Team Cymru FullBogons, Spamhaus DROP); https://iplists.firehol.org/?ipset=firehol_level1'',
      fc_MinUpdateInterval = 6 * hour, fc_AllowHTTP = False, fc_ContentTypes = [''application/octet-stream'', ''text/plain''],
      fc_RequireFinalNewline = True, fc_MaxMalformedLines = 0, fc_MaxMalformedRatio = Fin 0\<rparr>"

definition default_feeds :: "FeedConfig list" where
  "default_feeds =
     [default_spamhaus ''spamhaus-drop-ipv4'' ''https://www.spamhaus.org/drop/drop_v4.json'' ''ipv4'' 2097152 500 5000,
      default_spamhaus ''spamhaus-drop-ipv6'' ''https://www.spamhaus.org/drop/drop_v6.json'' ''ipv6'' 1048576 20 1000,
      default_firehol]"

text \<open>The literal 0.01 is the \<^verbatim>\<open>float64\<close> nearest to it.\<close>

definition Defaults :: "string \<Rightarrow> Config" where
  "Defaults version =
     \<lparr>cfg_Server = \<lparr>srv_ListenAddress = '':9090'', srv_ReadHeaderTimeout = 5 * second, srv_ReadTimeout = 10 * second,
        srv_WriteTimeout = 30 * second, srv_IdleTimeout = 60 * second, srv_ShutdownTimeout = 10 * second,
        srv_LAPIUnreachableGrace = 15 * minute, srv_ReadinessMaxSyncAge = 12 * hour\<rparr>,
      cfg_Schedule = \<lparr>sch_Interval = 6 * hour, sch_StartupJitter = 10 * minute, sch_RunImmediately = True,
        sch_Retry = \<lparr>rty_MaxAttempts = 3, rty_InitialBackoff = 30 * second, rty_MaxBackoff = 5 * minute\<rparr>\<rparr>,
      cfg_Database = \<lparr>dbc_Path = ''/data/crowdshield.db'', dbc_BusyTimeout = 5 * second, dbc_IntegrityCheckOnStart = True,
        dbc_HistoryRetention = 30 * 24 * hour, dbc_MaxHistoryEntries = 1000\<rparr>,
      cfg_CrowdSec = \<lparr>csc_CredentialsFile = ''/run/secrets/crowdshield-lapi-credentials.yaml'', csc_AllowedHTTPHosts = [],
        csc_RequestTimeout = 15 * second, csc_ConnectTimeout = 5 * second, csc_MaxResponseBytes = 8388608,
        csc_BatchSize = 250, csc_AuthRefreshBefore = 5 * minute\<rparr>,
      cfg_Decisions = \<lparr>dec_Duration = 25 * hour, dec_MissingGraceRuns = 2, dec_RefreshBefore = 12 * hour\<rparr>,
      cfg_Feeds = default_feeds,
      cfg_Allowlists = [],
      cfg_Validation = \<lparr>val_AllowHTTP = False, val_MaxRedirects = 3, val_MaxFeeds = 32, val_MaxFeedNameLength = 64,
        val_MaxMalformedLines = 10, val_MaxMalformedRatio = Fin (float64 (1 / 100)), val_MaxLineBytes = 65536,
        val_UserAgent = userAgent version, val_DNSLookupTimeout = 5 * second\<rparr>,
      cfg_Logging = \<lparr>log_Level = ''info'', log_Format = ''json''\<rparr>,
      cfg_Notifications = \<lparr>ntf_Enabled = False, ntf_ServerURL = [], ntf_Topic = [], ntf_AllowHTTP = False,
        ntf_RequestTimeout = 10 * second, ntf_Cooldown = hour, ntf_MinimumSeverity = ''warning'', ntf_FailureThreshold = 3,
        ntf_RecoveryNotifications = True, ntf_SuspiciousChangeNotifications = True, ntf_StaleSyncNotifications = True,
        ntf_StaleSyncAfter = 12 * hour, ntf_StartupNotification = False, ntf_SuccessNotification = False,
        ntf_FirstSuccessNotification = False, ntf_Token = []\<rparr>\<rparr>"

subsection \<open>Definitions: validate.go\<close>

definition validateRetry :: "RetryConfig \<Rightarrow> ConfigError option" where
  "validateRetry r =
     (if rty_MaxAttempts r < 1 \<or> rty_MaxAttempts r > 10 then Some CfgErrValidation
      else if \<not> rty_InitialBackoff r > 0 \<or> \<not> rty_MaxBackoff r > 0 \<or>
          rty_InitialBackoff r > rty_MaxBackoff r \<or> rty_MaxBackoff r > 24 * hour
      then Some CfgErrDuration else None)"

definition validateListenAddress :: "string \<Rightarrow> ConfigError option" where
  "validateListenAddress value =
     (case SplitHostPort value of
        None \<Rightarrow> Some CfgErrServer
      | Some (host, portText) \<Rightarrow>
          if portText = [] then Some CfgErrServer
          else case Atoi portText of
            None \<Rightarrow> Some CfgErrServer
          | Some port \<Rightarrow> if port < 1 \<or> port > 65535 \<or> has_crlfnul host then Some CfgErrServer else None)"

fun IsPrivate :: "addr \<Rightarrow> bool" where
  "IsPrivate Addr0 = False"
| "IsPrivate (Addr4 w) = (drop_bit 24 w = 10 \<or> drop_bit 20 w = 0xac1 \<or> drop_bit 16 w = 0xc0a8)"
| "IsPrivate (Addr6 w z) =
     (if drop_bit 32 w = 0xffff
      then let v = (ucast w :: 32 word) in drop_bit 24 v = 10 \<or> drop_bit 20 v = 0xac1 \<or> drop_bit 16 v = 0xc0a8
      else drop_bit 121 w = 0x7e)"

definition IsUnspecified :: "addr \<Rightarrow> bool" where
  "IsUnspecified a = (a = Addr4 0 \<or> a = Addr6 0 [])"

definition unsafeLiteralHost :: "string \<Rightarrow> bool" where
  "unsafeLiteralHost host =
     (let lower = ToLower (TrimSuffix_dot host) in
      if lower = ''localhost'' \<or> has_prefix (rev lower) (rev ''.localhost'') then True
      else case ParseAddr lower of
        None \<Rightarrow> False
      | Some a \<Rightarrow>
          let addr = Unmap a in
          \<not> IsGlobalUnicast addr \<or> IsPrivate addr \<or> IsLoopback addr \<or> IsLinkLocalUnicast addr \<or> IsMulticast addr \<or> IsUnspecified addr)"

definition validateRemoteURL :: "(string \<Rightarrow> url option) \<Rightarrow> string \<Rightarrow> bool \<Rightarrow> bool \<Rightarrow> ConfigError option" where
  "validateRemoteURL url_Parse raw allowHTTP globalHTTP =
     (case url_Parse raw of
        None \<Rightarrow> Some CfgErrFeedURL
      | Some parsed \<Rightarrow>
          if url_Scheme parsed = [] \<or> url_Hostname parsed = [] then Some CfgErrFeedURL
          else if url_HasUser parsed \<or> url_Fragment parsed \<noteq> [] then Some CfgErrFeedURL
          else if url_Scheme parsed \<noteq> ''https'' \<and> (url_Scheme parsed \<noteq> ''http'' \<or> \<not> allowHTTP \<or> \<not> globalHTTP)
          then Some CfgErrFeedURL
          else if unsafeLiteralHost (url_Hostname parsed) then Some CfgErrFeedURL
          else if has_crlfnul (url_Host parsed) then Some CfgErrFeedURL
          else None)"

text \<open>One host of the list, then the loop with its set of seen hosts.\<close>

definition canonical_host :: "string \<Rightarrow> string option" where
  "canonical_host value =
     (if value = [] \<or> TrimSpace value \<noteq> value \<or> has_crlfnul value
         \<or> list_ex (\<lambda>c. c \<in> {CHR ''/'', byte 92, CHR ''@'', CHR ''?'', CHR ''#''}) value then None
      else
        let host = ToLower (TrimSuffix_dot value) in
        if host = [] \<or> length host > 253 then None
        else case ParseAddr host of
          Some address \<Rightarrow> Some (addr_String (Unmap address))
        | None \<Rightarrow> if list_all hostLabelPattern (split_on (CHR ''.'') host) then Some host else None)"

fun canonical_hosts :: "string list \<Rightarrow> string list \<Rightarrow> string list option" where
  "canonical_hosts [] acc = Some acc"
| "canonical_hosts (value # values) acc =
     (case canonical_host value of
        None \<Rightarrow> None
      | Some host \<Rightarrow> canonical_hosts values (if host \<in> set acc then acc else acc @ [host]))"

definition canonicalHTTPHosts :: "string list \<Rightarrow> (ConfigError, string list) result" where
  "canonicalHTTPHosts values =
     (if length values > 16 then Inl CfgErrValidation
      else case canonical_hosts values [] of
        None \<Rightarrow> Inl CfgErrValidation
      | Some hosts \<Rightarrow> Inr (sort_cmp cmp_Compare hosts))"

text \<open>\<^verbatim>\<open>math.IsNaN(x) || math.IsInf(x, 0) || x < low || x > high\<close>, and the half-open variant.\<close>

definition ratio_outside :: "rat \<Rightarrow> rat \<Rightarrow> go_float \<Rightarrow> bool" where
  "ratio_outside low high x =
     (x = NaN \<or> x = PosInf \<or> x = NegInf \<or> flt_less x (Fin low) \<or> flt_less (Fin high) x)"

definition validateFeed :: "(string \<Rightarrow> url option) \<Rightarrow> ValidationConfig \<Rightarrow> FeedConfig \<Rightarrow> ConfigError option" where
  "validateFeed url_Parse val feed =
     (if fc_Name feed = [] \<or> int (length (fc_Name feed)) > val_MaxFeedNameLength val \<or> \<not> feedNamePattern (fc_Name feed)
      then Some CfgErrFeedName
      else if validateRemoteURL url_Parse (fc_URL feed) (fc_AllowHTTP feed) (val_AllowHTTP val) \<noteq> None then Some CfgErrFeedURL
      else if fc_Format feed \<noteq> ''spamhaus-drop-jsonl'' \<and> fc_Format feed \<noteq> ''firehol-netset'' \<and> fc_Format feed \<noteq> ''plain''
      then Some CfgErrValidation
      else if fc_Family feed \<noteq> ''ipv4'' \<and> fc_Family feed \<noteq> ''ipv6'' \<and> fc_Family feed \<noteq> ''any'' then Some CfgErrValidation
      else if \<not> fc_Timeout feed > 0 \<or> fc_Timeout feed > 10 * minute \<or> \<not> fc_MinUpdateInterval feed > 0 then Some CfgErrDuration
      else if fc_MaxDownloadBytes feed < 1 \<or> fc_MaxDownloadBytes feed > 67108864 then Some CfgErrFeedThreshold
      else if fc_ExpectedMinEntries feed < 1 \<or> fc_ExpectedMaxEntries feed < fc_ExpectedMinEntries feed
          \<or> fc_ExpectedMaxEntries feed > 10000000 then Some CfgErrFeedThreshold
      else if ratio_outside 1 100 (fc_MaxGrowthRatio feed) then Some CfgErrFeedThreshold
      else if ratio_outside 0 1 (fc_MaxShrinkRatio feed) \<or> fc_MaxShrinkRatio feed = Fin 0 then Some CfgErrFeedThreshold
      else if fc_MaxMalformedLines feed < 0 \<or> ratio_outside 0 1 (fc_MaxMalformedRatio feed) then Some CfgErrFeedThreshold
      else if TrimSpace (fc_Attribution feed) = [] \<or> length (fc_Attribution feed) > 2048 \<or> has_crlfnul (fc_Attribution feed)
      then Some CfgErrValidation
      else if fc_ContentTypes feed = [] then Some CfgErrValidation
      else if list_ex (\<lambda>contentType. TrimSpace contentType = [] \<or> has_crlfnul contentType) (fc_ContentTypes feed)
      then Some CfgErrValidation
      else None)"

text \<open>The loop over the feeds: a limit of zero takes the general one, names are unique, each feed is checked.\<close>

definition feed_defaults :: "ValidationConfig \<Rightarrow> FeedConfig \<Rightarrow> FeedConfig" where
  "feed_defaults val feed =
     (let feed1 = (if fc_MaxMalformedLines feed = 0 then feed\<lparr>fc_MaxMalformedLines := val_MaxMalformedLines val\<rparr> else feed)
      in if fc_MaxMalformedRatio feed1 = Fin 0 then feed1\<lparr>fc_MaxMalformedRatio := val_MaxMalformedRatio val\<rparr> else feed1)"

fun validate_feeds ::
  "(string \<Rightarrow> url option) \<Rightarrow> ValidationConfig \<Rightarrow> string list \<Rightarrow> FeedConfig list \<Rightarrow> (ConfigError, FeedConfig list) result" where
  "validate_feeds url_Parse val seen [] = Inr []"
| "validate_feeds url_Parse val seen (feed # feeds) =
     (let feed1 = feed_defaults val feed; name = ToLower (fc_Name feed1) in
      if name \<in> set seen then Inl CfgErrFeedName
      else case validateFeed url_Parse val feed1 of
        Some e \<Rightarrow> Inl e
      | None \<Rightarrow>
          (case validate_feeds url_Parse val (name # seen) feeds of
             Inl e \<Rightarrow> Inl e
           | Inr rest \<Rightarrow> Inr (feed1 # rest)))"

fun canonical_allowlist :: "netip_prefix list \<Rightarrow> netip_prefix list \<Rightarrow> netip_prefix list option" where
  "canonical_allowlist [] acc = Some acc"
| "canonical_allowlist (prefix # prefixes) acc =
     (if \<not> IsValid prefix then None
      else if Masked prefix \<in> set acc then canonical_allowlist prefixes acc
      else canonical_allowlist prefixes (acc @ [Masked prefix]))"

definition prefix_Compare :: "netip_prefix \<Rightarrow> netip_prefix \<Rightarrow> int" where
  "prefix_Compare p q =
     cmp_then (addr_Compare (pfx_ip (Masked p)) (pfx_ip (Masked q)))
       (cmp_then (cmp_Compare (Bits p) (Bits q)) (addr_Compare (pfx_ip p) (pfx_ip q)))"

text \<open>The list of durations that must be positive, in the order of the source.\<close>

definition required_durations :: "Config \<Rightarrow> duration list" where
  "required_durations c =
     [srv_ReadHeaderTimeout (cfg_Server c), srv_ReadTimeout (cfg_Server c), srv_WriteTimeout (cfg_Server c),
      srv_IdleTimeout (cfg_Server c), srv_ShutdownTimeout (cfg_Server c), srv_LAPIUnreachableGrace (cfg_Server c),
      srv_ReadinessMaxSyncAge (cfg_Server c), sch_Interval (cfg_Schedule c), dbc_BusyTimeout (cfg_Database c),
      dbc_HistoryRetention (cfg_Database c), csc_RequestTimeout (cfg_CrowdSec c), csc_ConnectTimeout (cfg_CrowdSec c),
      csc_AuthRefreshBefore (cfg_CrowdSec c), dec_Duration (cfg_Decisions c), dec_RefreshBefore (cfg_Decisions c),
      val_DNSLookupTimeout (cfg_Validation c), ntf_RequestTimeout (cfg_Notifications c), ntf_Cooldown (cfg_Notifications c),
      ntf_StaleSyncAfter (cfg_Notifications c)]"

text \<open>The checks of \<^verbatim>\<open>Validate\<close> before the hosts are made canonical.\<close>

definition validate_durations :: "Config \<Rightarrow> ConfigError option" where
  "validate_durations c =
     (let srv = cfg_Server c; sch = cfg_Schedule c; dbc = cfg_Database c; csc = cfg_CrowdSec c;
          dec = cfg_Decisions c; ntf = cfg_Notifications c in
      if \<not> list_all (\<lambda>x. x > 0) (required_durations c) then Some CfgErrDuration
      else if list_ex (\<lambda>x. x > 10 * minute)
          [srv_ReadHeaderTimeout srv, srv_ReadTimeout srv, srv_WriteTimeout srv, srv_IdleTimeout srv, srv_ShutdownTimeout srv]
      then Some CfgErrDuration
      else if srv_ReadinessMaxSyncAge srv > 30 * 24 * hour \<or> srv_LAPIUnreachableGrace srv > srv_ReadinessMaxSyncAge srv
      then Some CfgErrDuration
      else if sch_Interval sch > 30 * 24 * hour then Some CfgErrDuration
      else if dbc_BusyTimeout dbc > minute \<or> dbc_HistoryRetention dbc < hour \<or> dbc_HistoryRetention dbc > 10 * 365 * 24 * hour
      then Some CfgErrDuration
      else if csc_RequestTimeout csc > 2 * minute \<or> csc_ConnectTimeout csc > minute then Some CfgErrDuration
      else if dec_Duration dec < minute \<or> dec_Duration dec > 7 * 24 * hour then Some CfgErrDuration
      else if ntf_RequestTimeout ntf > 2 * minute \<or> ntf_StaleSyncAfter ntf > 30 * 24 * hour then Some CfgErrDuration
      else if sch_StartupJitter sch < 0 \<or> sch_StartupJitter sch > sch_Interval sch then Some CfgErrDuration
      else case validateRetry (sch_Retry sch) of
        Some e \<Rightarrow> Some e
      | None \<Rightarrow>
          if \<not> has_prefix (dbc_Path dbc) ''/'' \<or> dbc_Path dbc = ''/'' then Some CfgErrPath
          else if dbc_MaxHistoryEntries dbc < 1 \<or> dbc_MaxHistoryEntries dbc > 1000000 then Some CfgErrValidation
          else if \<not> has_prefix (csc_CredentialsFile csc) ''/'' then Some CfgErrPath
          else None)"

text \<open>The checks between the hosts and the feeds.\<close>

definition validate_limits :: "Config \<Rightarrow> ConfigError option" where
  "validate_limits c =
     (let csc = cfg_CrowdSec c; dec = cfg_Decisions c; val = cfg_Validation c in
      if csc_MaxResponseBytes csc < 1024 \<or> csc_MaxResponseBytes csc > 67108864 \<or> csc_BatchSize csc < 1 \<or> csc_BatchSize csc > 500
      then Some CfgErrValidation
      else if csc_ConnectTimeout csc > csc_RequestTimeout csc \<or> csc_AuthRefreshBefore csc \<ge> hour then Some CfgErrDuration
      else if dec_MissingGraceRuns dec < 1 \<or> dec_MissingGraceRuns dec > 100 then Some CfgErrValidation
      else if dec_RefreshBefore dec \<ge> dec_Duration dec then Some CfgErrDuration
      else if val_MaxRedirects val < 0 \<or> val_MaxRedirects val > 10 \<or> val_MaxFeeds val < 1 \<or> val_MaxFeeds val > 256
          \<or> val_MaxFeedNameLength val < 1 \<or> val_MaxFeedNameLength val > 128 \<or> val_MaxLineBytes val < 1024
          \<or> val_MaxLineBytes val > 1048576 \<or> val_MaxMalformedLines val < 0 \<or> ratio_outside 0 1 (val_MaxMalformedRatio val)
      then Some CfgErrValidation
      else if length (filter (\<lambda>ch. ch = CHR ''/'') (val_UserAgent val)) \<noteq> 1 \<or> length (val_UserAgent val) > 128
          \<or> has_crlfnul (val_UserAgent val) then Some CfgErrValidation
      else if cfg_Feeds c = [] \<or> int (length (cfg_Feeds c)) > val_MaxFeeds val then Some CfgErrValidation
      else None)"

text \<open>The checks after the allowlists.\<close>

definition validate_rest :: "(string \<Rightarrow> url option) \<Rightarrow> Config \<Rightarrow> ConfigError option" where
  "validate_rest url_Parse c =
     (let ntf = cfg_Notifications c in
      if log_Format (cfg_Logging c) \<noteq> ''json'' then Some CfgErrValidation
      else if log_Level (cfg_Logging c) \<notin> {''debug'', ''info'', ''warn'', ''error''} then Some CfgErrValidation
      else if ntf_MinimumSeverity ntf \<notin> {''info'', ''warning'', ''error''} then Some CfgErrNotification
      else if ntf_FailureThreshold ntf < 1 \<or> ntf_FailureThreshold ntf > 100 then Some CfgErrNotification
      else if ntf_Cooldown ntf > 30 * 24 * hour then Some CfgErrNotification
      else if ntf_Enabled ntf \<and>
          validateRemoteURL url_Parse (ntf_ServerURL ntf) (ntf_AllowHTTP ntf) (val_AllowHTTP (cfg_Validation c)) \<noteq> None
      then Some CfgErrNotification
      else if ntf_Enabled ntf \<and> \<not> topicPattern (ntf_Topic ntf) then Some CfgErrNotification
      else None)"

text \<open>\<^verbatim>\<open>Validate\<close> changes its receiver: it gives the canonical configuration. On an error the caller drops it.\<close>

definition Config_Validate :: "(string \<Rightarrow> url option) \<Rightarrow> Config \<Rightarrow> (ConfigError, Config) result" where
  "Config_Validate url_Parse c =
     (case validateListenAddress (srv_ListenAddress (cfg_Server c)) of
        Some e \<Rightarrow> Inl e
      | None \<Rightarrow>
        (case validate_durations c of
           Some e \<Rightarrow> Inl e
         | None \<Rightarrow>
           (case canonicalHTTPHosts (csc_AllowedHTTPHosts (cfg_CrowdSec c)) of
              Inl e \<Rightarrow> Inl e
            | Inr hosts \<Rightarrow>
              (case validate_limits c of
                 Some e \<Rightarrow> Inl e
               | None \<Rightarrow>
                 (case validate_feeds url_Parse (cfg_Validation c) [] (cfg_Feeds c) of
                    Inl e \<Rightarrow> Inl e
                  | Inr feeds \<Rightarrow>
                    (case canonical_allowlist (cfg_Allowlists c) [] of
                       None \<Rightarrow> Inl CfgErrAllowlist
                     | Some prefixes \<Rightarrow>
                       (case validate_rest url_Parse c of
                          Some e \<Rightarrow> Inl e
                        | None \<Rightarrow>
                            Inr (c\<lparr>cfg_CrowdSec := (cfg_CrowdSec c)\<lparr>csc_AllowedHTTPHosts := hosts\<rparr>, cfg_Feeds := feeds,
                              cfg_Allowlists := sort_cmp prefix_Compare prefixes\<rparr>))))))))"

end
