(* ===== verification/Store_Schema.thy ===== *)
theory Store_Schema
  imports Network Ops
begin

text \<open>
  The database of the package \<^verbatim>\<open>internal/state\<close>: one record type per table of \<^verbatim>\<open>001_initial.sql\<close> and
  the tables as lists of rows. A statement of SQL is a function on these lists; an
  \<^verbatim>\<open>INTEGER PRIMARY KEY\<close> is allocated as SQLite does it, one above the largest in use. Columns
  that a CHECK constraint confines to 0 and 1 are booleans, the closed text columns (scope, status,
  mode) are datatypes, prefixes and runtime values stay text and are parsed when they are read.

  An operation takes the database and returns a result and the database after it; an error that
  leaves a transaction rolls it back, so it returns the database it was given. Faults of the
  engine itself (I/O errors, a busy database, a cancelled context) are outside the model.
\<close>

subsection \<open>Definitions: errors.go\<close>

datatype ErrorCategory =
  ErrOpen | ErrMigration | ErrIntegrity | ErrQuery | ErrTransaction | ErrNotFound | ErrConstraint

subsection \<open>Definitions: tables\<close>

datatype OperationKind = OperationCreate | OperationRefresh | OperationExpire | OperationRecover

datatype OperationStatus =
  OperationPending | OperationVerified | OperationCompleted | OperationFailed | OperationAmbiguous

datatype DecisionStatus = DecisionActive | DecisionExpiring | DecisionExpired | DecisionOrphaned

datatype SyncMode = SyncModeEnforce | SyncModeDryRun | OtherSyncMode string

datatype RunStatus =
  RunStatusRunning | RunStatusSuccess | RunStatusDegraded | RunStatusFailed | RunStatusCancelled

datatype RuntimeTimestampKey = RuntimeLastSafeSync | RuntimeLastPrune | OtherRuntimeKey string

record feed_row =
  f_id :: int
  f_name :: string
  f_url_hash :: string
  f_definition_hash :: string
  f_enabled :: bool
  f_etag :: string
  f_last_modified :: string
  f_last_attempt_at :: "int option"
  f_last_success_at :: "int option"
  f_last_good_version :: string
  f_accepted_entries :: int
  f_rejected_entries :: int
  f_consecutive_failures :: int
  f_next_attempt_at :: "int option"
  f_last_error_category :: string
  f_created_at :: int
  f_updated_at :: int

record entry_row =
  e_feed_id :: int
  e_prefix :: string
  e_family :: int
  e_prefix_bits :: int
  e_kind :: int
  e_first_seen_at :: int
  e_last_seen_at :: int
  e_missing_runs :: int
  e_active :: bool

record object_row =
  o_id :: int
  o_prefix :: string
  o_family :: int
  o_prefix_bits :: int
  o_scope :: Scope
  o_desired :: bool
  o_suppression :: Suppression
  o_primary_feed_id :: "int option"
  o_created_at :: int
  o_updated_at :: int

record source_row =
  s_object_id :: int
  s_feed_id :: int
  s_source_kind :: int

record alert_row =
  a_id :: int
  a_alert_id :: int
  a_operation_token :: string
  a_machine_id :: string
  a_origin :: string
  a_scenario :: string
  a_verified_at :: int
  a_created_at :: int

record decision_row =
  d_id :: int
  d_object_id :: int
  d_alert_row_id :: int
  d_decision_id :: int
  d_origin :: string
  d_scenario :: string
  d_scope :: Scope
  d_value :: string
  d_created_at :: int
  d_expires_at :: int
  d_verified_at :: int
  d_status :: DecisionStatus
  d_replaced_by_id :: "int option"

record operation_row =
  op_token :: string
  op_kind :: OperationKind
  op_feed_id :: int
  op_duration_seconds :: int
  op_payload_hash :: string
  op_status :: OperationStatus
  op_started_at :: int
  op_completed_at :: "int option"
  op_error_category :: string

record item_row =
  i_operation_token :: string
  i_object_id :: int
  i_old_decision_row_id :: "int option"

record run_row =
  r_id :: int
  r_started_at :: int
  r_completed_at :: "int option"
  r_mode :: SyncMode
  r_requested_feed :: string
  r_status :: RunStatus
  r_feeds_succeeded :: int
  r_feeds_failed :: int
  r_added :: int
  r_refreshed :: int
  r_removed :: int
  r_rejected :: int
  r_skipped :: int
  r_lapi_requests :: int
  r_error_category :: FailureCategory

datatype feed_history = HistSuccess | HistNotModified | HistNotDue | HistFailed | HistSuspicious

record run_feed_row =
  rf_sync_run_id :: int
  rf_feed_id :: int
  rf_status :: feed_history
  rf_accepted :: int
  rf_rejected :: int
  rf_error_category :: FailureCategory

record runtime_row =
  rt_key :: RuntimeTimestampKey
  rt_value :: string
  rt_updated_at :: int

record db =
  feeds :: "feed_row list"
  feed_entries :: "entry_row list"
  enforcement_objects :: "object_row list"
  enforcement_sources :: "source_row list"
  lapi_alerts :: "alert_row list"
  lapi_decisions :: "decision_row list"
  lapi_operations :: "operation_row list"
  lapi_operation_items :: "item_row list"
  sync_runs :: "run_row list"
  feed_run_results :: "run_feed_row list"
  runtime_state :: "runtime_row list"

type_synonym 'a db_result = "(ErrorCategory, 'a) result \<times> db"

definition empty_db :: db where
  "empty_db =
     \<lparr>feeds = [], feed_entries = [], enforcement_objects = [], enforcement_sources = [],
      lapi_alerts = [], lapi_decisions = [], lapi_operations = [], lapi_operation_items = [],
      sync_runs = [], feed_run_results = [], runtime_state = []\<rparr>"

subsection \<open>Definitions: statements\<close>

definition next_rowid :: "int list \<Rightarrow> int" where
  "next_rowid ids = foldr max ids 0 + 1"

definition update_where :: "('r \<Rightarrow> bool) \<Rightarrow> ('r \<Rightarrow> 'r) \<Rightarrow> 'r list \<Rightarrow> 'r list" where
  "update_where P f rows = map (\<lambda>r. if P r then f r else r) rows"

definition rows_affected :: "('r \<Rightarrow> bool) \<Rightarrow> 'r list \<Rightarrow> nat" where
  "rows_affected P rows = length (filter P rows)"

definition delete_where :: "('r \<Rightarrow> bool) \<Rightarrow> 'r list \<Rightarrow> 'r list" where
  "delete_where P rows = filter (\<lambda>r. \<not> P r) rows"

text \<open>\<^verbatim>\<open>INSERT ... ON CONFLICT(key) DO UPDATE\<close>: the row under the key is changed, or a new one added.\<close>

definition upsert :: "('r \<Rightarrow> 'k) \<Rightarrow> 'k \<Rightarrow> ('r \<Rightarrow> 'r) \<Rightarrow> 'r \<Rightarrow> 'r list \<Rightarrow> 'r list" where
  "upsert key k upd new rows =
     (if k \<in> key ` set rows then update_where (\<lambda>r. key r = k) upd rows else rows @ [new])"

text \<open>The row under a key.\<close>

definition row_at :: "('r \<Rightarrow> 'k) \<Rightarrow> 'r list \<Rightarrow> 'k \<Rightarrow> 'r option" where
  "row_at key rows k = find (\<lambda>r. key r = k) rows"

text \<open>Reading rows one by one, stopping at the first that does not scan.\<close>

fun scan_rows :: "('r \<Rightarrow> (ErrorCategory, 'a) result) \<Rightarrow> 'r list \<Rightarrow> (ErrorCategory, 'a list) result" where
  "scan_rows f [] = Inr []"
| "scan_rows f (r # rs) =
     (case f r of
        Inl e \<Rightarrow> Inl e
      | Inr x \<Rightarrow> (case scan_rows f rs of Inl e \<Rightarrow> Inl e | Inr xs \<Rightarrow> Inr (x # xs)))"

text \<open>\<^verbatim>\<open>kind.go\<close>.\<close>

definition checkedNetworkKind :: "int \<Rightarrow> (ErrorCategory, Kind) result" where
  "checkedNetworkKind value =
     (if value = int (kind_num KindIP) then Inr KindIP
      else if value = int (kind_num KindRange) then Inr KindRange
      else Inl ErrIntegrity)"

subsection \<open>Definitions: validators\<close>

definition stateFeedName :: "string \<Rightarrow> bool" where
  "stateFeedName s =
     (s \<noteq> [] \<and> feed_edge (hd s) \<and> feed_edge (last s) \<and>
      list_all (\<lambda>c. feed_edge c \<or> c = CHR ''-'') s)"

definition stateCategory :: "string \<Rightarrow> bool" where
  "stateCategory s =
     (s \<noteq> [] \<and> is_lower (hd s) \<and> length s \<le> 64 \<and>
      list_all (\<lambda>c. is_lower c \<or> is_digit c \<or> c = CHR ''_'') (tl s))"

definition lower_hex :: "char \<Rightarrow> bool" where
  "lower_hex c = (is_digit c \<or> (97 \<le> code c \<and> code c \<le> 102))"

definition stateOperationToken :: "string \<Rightarrow> bool" where
  "stateOperationToken s = (length s = 32 \<and> list_all lower_hex s)"

definition validHash :: "string \<Rightarrow> bool" where
  "validHash value = (length value = 64 \<and> list_all (\<lambda>c. hex_val c \<noteq> None) value)"

definition validBoundedText :: "string \<Rightarrow> nat \<Rightarrow> nat \<Rightarrow> bool" where
  "validBoundedText value mn mx = (length value \<ge> mn \<and> length value \<le> mx \<and> \<not> has_control value)"

definition validValidator :: "string \<Rightarrow> nat \<Rightarrow> bool" where
  "validValidator value mx = (length value \<le> mx \<and> \<not> has_crlfnul value)"

subsection \<open>Facts: statements\<close>

lemma next_rowid_gt: "x \<in> set ids \<Longrightarrow> x < next_rowid ids"
  by (induction ids) (auto simp: next_rowid_def)

lemma next_rowid_pos: "0 < next_rowid ids"
proof -
  have "0 \<le> foldr max ids (0::int)" by (induction ids) auto
  then show ?thesis by (simp add: next_rowid_def)
qed

lemma next_rowid_fresh [simp]: "next_rowid ids \<notin> set ids"
  using next_rowid_gt by blast

lemma map_update_where: "(\<And>r. P r \<Longrightarrow> k (f r) = k r) \<Longrightarrow> map k (update_where P f rows) = map k rows"
  by (auto simp: update_where_def)

lemma set_update_where: "set (update_where P f rows) = f ` {r \<in> set rows. P r} \<union> {r \<in> set rows. \<not> P r}"
  by (auto simp: update_where_def)

lemma image_update_where: "(\<And>r. P r \<Longrightarrow> k (f r) = k r) \<Longrightarrow> k ` set (update_where P f rows) = k ` set rows"
  using map_update_where [of P k f rows] by (metis list.set_map)

lemma length_update_where [simp]: "length (update_where P f rows) = length rows"
  by (simp add: update_where_def)

lemma set_delete_where [simp]: "set (delete_where P rows) = {r \<in> set rows. \<not> P r}"
  by (auto simp: delete_where_def)

lemma scan_rows_Inr:
  assumes "\<forall>r \<in> set rs. f r = Inr (g r)"
  shows "scan_rows f rs = Inr (map g rs)"
  using assms by (induction rs) auto

lemma scan_rows_Inr_iff:
  "scan_rows f rs = Inr xs \<longleftrightarrow> list_all2 (\<lambda>r x. f r = Inr x) rs xs"
proof (induction rs arbitrary: xs)
  case (Cons r rs)
  then show ?case
    by (cases xs) (auto split: sum.splits, metis sum.inject(2))
qed auto

lemma find_unique:
  assumes "distinct (map k rows)" and "r \<in> set rows"
  shows "find (\<lambda>x. k x = k r) rows = Some r"
  using assms by (induction rows) auto

lemma find_None_key: "find (\<lambda>x. k x = a) rows = None \<longleftrightarrow> a \<notin> k ` set rows"
  by (auto simp: find_None_iff)

lemma find_Some_key: "find (\<lambda>x. k x = a) rows = Some r \<Longrightarrow> r \<in> set rows \<and> k r = a"
  by (induction rows) (auto split: if_splits)

lemma rows_affected_unique:
  assumes "distinct (map k rows)"
  shows "rows_affected (\<lambda>r. k r = a \<and> P r) rows = (if \<exists>r \<in> set rows. k r = a \<and> P r then 1 else 0)"
  using assms
proof (induction rows)
  case (Cons r rows)
  have "k r = a \<Longrightarrow> \<not> (\<exists>x \<in> set rows. k x = a \<and> P x)" using Cons.prems by (auto simp: image_iff)
  with Cons show ?case by (auto simp: rows_affected_def)
qed (simp add: rows_affected_def)

lemma checkedNetworkKind_kind_num:
  "k \<noteq> KindInvalid \<Longrightarrow> checkedNetworkKind (int (kind_num k)) = Inr k"
  by (cases k) (auto simp: checkedNetworkKind_def)

subsection \<open>Facts: rows under a key\<close>

lemma row_at_None_iff: "row_at key rows k = None \<longleftrightarrow> k \<notin> key ` set rows"
  by (simp add: row_at_def find_None_key)

lemma row_at_Some_D: "row_at key rows k = Some r \<Longrightarrow> r \<in> set rows \<and> key r = k"
  unfolding row_at_def by (rule find_Some_key)

lemma row_at_mem: "distinct (map key rows) \<Longrightarrow> r \<in> set rows \<Longrightarrow> row_at key rows (key r) = Some r"
  unfolding row_at_def by (rule find_unique)

lemma mem_iff_row_at: "distinct (map key rows) \<Longrightarrow> r \<in> set rows \<longleftrightarrow> row_at key rows (key r) = Some r"
  using row_at_mem row_at_Some_D by metis

lemma row_at_Nil [simp]: "row_at key [] k = None"
  by (simp add: row_at_def)

lemma row_at_append: "row_at key (xs @ ys) k = (case row_at key xs k of None \<Rightarrow> row_at key ys k | Some r \<Rightarrow> Some r)"
  by (induction xs) (auto simp: row_at_def)

lemma row_at_Cons: "row_at key (r # rs) k = (if key r = k then Some r else row_at key rs k)"
  by (simp add: row_at_def)

lemma row_at_update_where:
  assumes "\<And>r. P r \<Longrightarrow> key (f r) = key r"
  shows "row_at key (update_where P f rows) k = map_option (\<lambda>r. if P r then f r else r) (row_at key rows k)"
  using assms by (induction rows) (auto simp: row_at_def update_where_def)

lemma distinct_update_where:
  assumes "\<And>r. P r \<Longrightarrow> key (f r) = key r"
  shows "distinct (map key (update_where P f rows)) = distinct (map key rows)"
  by (simp add: map_update_where assms)

lemma row_at_delete_where:
  "distinct (map key rows) \<Longrightarrow>
   row_at key (delete_where P rows) k = (case row_at key rows k of None \<Rightarrow> None | Some r \<Rightarrow> if P r then None else Some r)"
proof (induction rows)
  case (Cons r rows)
  have "P r \<Longrightarrow> key r = k \<Longrightarrow> row_at key rows k = None"
    using Cons.prems by (auto simp: row_at_None_iff)
  with Cons show ?case by (auto simp: row_at_Cons delete_where_def)
qed (simp add: delete_where_def)

lemma distinct_delete_where: "distinct (map key rows) \<Longrightarrow> distinct (map key (delete_where P rows))"
  by (simp add: delete_where_def distinct_map_filter)

lemma row_at_upsert:
  assumes "\<And>r. key (upd r) = key r" and "key new = k"
  shows "row_at key (upsert key k upd new rows) k' =
    (if k' = k then Some (case row_at key rows k of None \<Rightarrow> new | Some r \<Rightarrow> upd r) else row_at key rows k')"
proof (cases "k \<in> key ` set rows")
  case True
  then obtain r where r: "row_at key rows k = Some r" by (metis row_at_None_iff not_None_eq)
  have "key x = k'" if "row_at key rows k' = Some x" for x
    using row_at_Some_D [OF that] by simp
  then have "map_option (\<lambda>x. if key x = k then upd x else x) (row_at key rows k') =
      (if k' = k then map_option upd (row_at key rows k') else row_at key rows k')"
    by (cases "row_at key rows k'") auto
  with True r assms(1) show ?thesis by (simp add: upsert_def row_at_update_where)
next
  case False
  then have "row_at key rows k = None" by (simp add: row_at_None_iff)
  with False assms(2) show ?thesis
    by (auto simp: upsert_def row_at_append row_at_Cons split: option.splits)
qed

lemma distinct_upsert:
  assumes "\<And>r. key (upd r) = key r" and "key new = k" and "distinct (map key rows)"
  shows "distinct (map key (upsert key k upd new rows))"
  using assms by (auto simp: upsert_def distinct_update_where)

lemma keys_upsert:
  assumes "\<And>r. key (upd r) = key r" and "key new = k"
  shows "key ` set (upsert key k upd new rows) = insert k (key ` set rows)"
proof (cases "k \<in> key ` set rows")
  case True
  have "map key (update_where (\<lambda>r. key r = k) upd rows) = map key rows"
    using assms(1) by (intro map_update_where) auto
  then have "key ` set (update_where (\<lambda>r. key r = k) upd rows) = key ` set rows"
    by (metis list.set_map)
  with True show ?thesis by (auto simp: upsert_def)
qed (use assms(2) in \<open>auto simp: upsert_def\<close>)

lemma set_upsert_cases:
  assumes "r \<in> set (upsert key k upd new rows)"
  shows "r = new \<or> r \<in> set rows \<or> (\<exists>x \<in> set rows. key x = k \<and> r = upd x)"
  using assms by (auto simp: upsert_def set_update_where split: if_splits)

end
