(* ===== verification/Store_Feeds.thy ===== *)
theory Store_Feeds
  imports Store_Schema Feed_Types
begin

text \<open>
  \<^verbatim>\<open>feed_repository.go\<close>: feed definitions, the entries of each feed with their grace counters, and
  the record of fetch attempts.
\<close>

subsection \<open>Definitions: records\<close>

record FeedDefinition =
  fd_Name :: string
  fd_URLHash :: string
  fd_DefinitionHash :: string
  fd_Enabled :: bool

record FeedRecord =
  frec_ID :: int
  frec_Name :: string
  frec_URLHash :: string
  frec_DefinitionHash :: string
  frec_Enabled :: bool
  frec_ETag :: string
  frec_LastModified :: string
  frec_LastAttempt :: "gotime option"
  frec_LastSuccess :: "gotime option"
  frec_LastGoodVersion :: string
  frec_AcceptedEntries :: int
  frec_RejectedEntries :: int
  frec_ConsecutiveFailures :: int
  frec_NextAttempt :: "gotime option"
  frec_LastErrorCategory :: string

record FeedSnapshot =
  fs_Version :: string
  fs_ETag :: string
  fs_LastModified :: string
  fs_Entries :: "Entry list"
  fs_Rejected :: int

record SnapshotResult =
  sr_Added :: nat
  sr_Reactivated :: nat
  sr_Missing :: nat
  sr_Deactivated :: nat

record StoredEntry =
  se_FeedID :: int
  se_FeedName :: string
  se_Entry :: Entry
  se_FirstSeen :: gotime
  se_LastSeen :: gotime
  se_MissingRuns :: int
  se_Active :: bool

type_synonym stateEntryKey = "netip_prefix \<times> Kind"

record existingEntry =
  ex_active :: bool
  ex_missingRuns :: int

subsection \<open>Definitions: feeds\<close>

definition validFeedDefinition :: "FeedDefinition \<Rightarrow> bool" where
  "validFeedDefinition d =
     (length (fd_Name d) \<le> 64 \<and> stateFeedName (fd_Name d) \<and> validHash (fd_URLHash d) \<and> validHash (fd_DefinitionHash d))"

definition scanFeed :: "feed_row \<Rightarrow> FeedRecord" where
  "scanFeed r =
     \<lparr>frec_ID = f_id r, frec_Name = f_name r, frec_URLHash = f_url_hash r,
      frec_DefinitionHash = f_definition_hash r, frec_Enabled = f_enabled r, frec_ETag = f_etag r,
      frec_LastModified = f_last_modified r,
      frec_LastAttempt = map_option time_Unix (f_last_attempt_at r),
      frec_LastSuccess = map_option time_Unix (f_last_success_at r),
      frec_LastGoodVersion = f_last_good_version r, frec_AcceptedEntries = f_accepted_entries r,
      frec_RejectedEntries = f_rejected_entries r,
      frec_ConsecutiveFailures = f_consecutive_failures r,
      frec_NextAttempt = map_option time_Unix (f_next_attempt_at r),
      frec_LastErrorCategory = f_last_error_category r\<rparr>"

definition select_feed :: "db \<Rightarrow> string \<Rightarrow> feed_row option" where
  "select_feed d name = find (\<lambda>r. f_name r = name) (feeds d)"

text \<open>The validation loop of \<^verbatim>\<open>EnsureFeeds\<close> with its set of seen names.\<close>

fun definitions_valid :: "string list \<Rightarrow> FeedDefinition list \<Rightarrow> bool" where
  "definitions_valid seen [] = True"
| "definitions_valid seen (d # ds) =
     (if \<not> validFeedDefinition d then False
      else if fd_Name d \<in> set seen then False
      else definitions_valid (fd_Name d # seen) ds)"

text \<open>\<^verbatim>\<open>INSERT INTO feeds ... ON CONFLICT(name) DO UPDATE\<close>; columns not named take their defaults.\<close>

definition upsert_feed :: "gotime \<Rightarrow> feed_row list \<Rightarrow> FeedDefinition \<Rightarrow> feed_row list" where
  "upsert_feed now rows d =
     upsert f_name (fd_Name d)
        (\<lambda>r. r\<lparr>f_url_hash := fd_URLHash d, f_definition_hash := fd_DefinitionHash d,
              f_enabled := fd_Enabled d, f_updated_at := unix now\<rparr>)
        \<lparr>f_id = next_rowid (map f_id rows), f_name = fd_Name d, f_url_hash = fd_URLHash d,
          f_definition_hash = fd_DefinitionHash d, f_enabled = fd_Enabled d, f_etag = [],
          f_last_modified = [], f_last_attempt_at = None, f_last_success_at = None,
          f_last_good_version = [], f_accepted_entries = 0, f_rejected_entries = 0,
          f_consecutive_failures = 0, f_next_attempt_at = None, f_last_error_category = [],
          f_created_at = unix now, f_updated_at = unix now\<rparr> rows"

definition EnsureFeeds :: "FeedDefinition list \<Rightarrow> gotime \<Rightarrow> db \<Rightarrow> FeedRecord list db_result" where
  "EnsureFeeds definitions now d =
     (if definitions = [] \<or> IsZero now then (Inl ErrConstraint, d)
      else if \<not> definitions_valid [] definitions then (Inl ErrConstraint, d)
      else
        let rows1 = update_where f_enabled (\<lambda>r. r\<lparr>f_enabled := False\<rparr>) (feeds d);
            d2 = d\<lparr>feeds := foldl (upsert_feed now) rows1 definitions\<rparr>
        in (case scan_rows (\<lambda>x. case select_feed d2 (fd_Name x) of
                  None \<Rightarrow> Inl ErrQuery
                | Some r \<Rightarrow> Inr (scanFeed r)) definitions of
            Inl e \<Rightarrow> (Inl e, d)
          | Inr records \<Rightarrow> (Inr records, d2)))"

definition FeedByName :: "string \<Rightarrow> db \<Rightarrow> (ErrorCategory, FeedRecord) result" where
  "FeedByName name d =
     (if \<not> stateFeedName name then Inl ErrConstraint
      else case select_feed d name of
        None \<Rightarrow> Inl ErrNotFound
      | Some r \<Rightarrow> Inr (scanFeed r))"

definition ListFeeds :: "db \<Rightarrow> (ErrorCategory, FeedRecord list) result" where
  "ListFeeds d = Inr (map scanFeed (sort_cmp (\<lambda>a b. cmp_Compare (f_id a) (f_id b)) (feeds d)))"

subsection \<open>Definitions: snapshots\<close>

fun snapshot_entries_valid :: "stateEntryKey list \<Rightarrow> Entry list \<Rightarrow> bool" where
  "snapshot_entries_valid seen [] = True"
| "snapshot_entries_valid seen (entry # es) =
     (let prefix = Masked (ent_Prefix entry); key = (prefix, ent_Kind entry) in
      if \<not> fst (IsSafePrefix prefix) \<or> ValidateKind prefix (ent_Kind entry) \<noteq> None then False
      else if key \<in> set seen then False
      else snapshot_entries_valid (key # seen) es)"

definition validateSnapshot :: "FeedSnapshot \<Rightarrow> int \<Rightarrow> ErrorCategory option" where
  "validateSnapshot snapshot grace =
     (if \<not> validHash (fs_Version snapshot) \<or> grace < 1 \<or> grace > 100 \<or> fs_Rejected snapshot < 0
         \<or> \<not> validValidator (fs_ETag snapshot) 256 \<or> \<not> validValidator (fs_LastModified snapshot) 128
      then Some ErrConstraint
      else if \<not> snapshot_entries_valid [] (fs_Entries snapshot) then Some ErrConstraint
      else None)"

text \<open>One row of the loop that fills the map \<^verbatim>\<open>existing\<close>.\<close>

definition scan_existing :: "entry_row \<Rightarrow> (ErrorCategory, stateEntryKey \<times> existingEntry) result" where
  "scan_existing r =
     (case NormalizePrefix (e_prefix r) of
        Inl _ \<Rightarrow> Inl ErrIntegrity
      | Inr prefix \<Rightarrow>
          (case checkedNetworkKind (e_kind r) of
             Inl e \<Rightarrow> Inl e
           | Inr kind \<Rightarrow> Inr ((prefix, kind), \<lparr>ex_active = e_active r, ex_missingRuns = e_missing_runs r\<rparr>)))"

definition entry_key :: "entry_row \<Rightarrow> int \<times> string \<times> int" where
  "entry_key r = (e_feed_id r, e_prefix r, e_kind r)"

definition addr_family :: "netip_prefix \<Rightarrow> int" where
  "addr_family p = (if Is4 (pfx_ip p) then 4 else 6)"

text \<open>\<^verbatim>\<open>INSERT INTO feed_entries ... ON CONFLICT(feed_id, prefix, kind) DO UPDATE\<close>.\<close>

definition upsert_entry :: "int \<Rightarrow> gotime \<Rightarrow> entry_row list \<Rightarrow> Entry \<Rightarrow> entry_row list" where
  "upsert_entry feedID now rows entry =
     (let prefix = Masked (ent_Prefix entry);
          key = (feedID, prefix_String prefix, int (kind_num (ent_Kind entry)))
      in upsert entry_key key
           (\<lambda>r. r\<lparr>e_family := addr_family prefix, e_prefix_bits := Bits prefix,
                 e_last_seen_at := unix now, e_missing_runs := 0, e_active := True\<rparr>)
           \<lparr>e_feed_id = feedID, e_prefix = prefix_String prefix, e_family = addr_family prefix,
             e_prefix_bits = Bits prefix, e_kind = int (kind_num (ent_Kind entry)),
             e_first_seen_at = unix now, e_last_seen_at = unix now, e_missing_runs = 0,
             e_active = True\<rparr> rows)"

definition snapshot_counts ::
  "(stateEntryKey \<rightharpoonup> existingEntry) \<Rightarrow> SnapshotResult \<Rightarrow> Entry \<Rightarrow> SnapshotResult" where
  "snapshot_counts existing result entry =
     (case existing (Masked (ent_Prefix entry), ent_Kind entry) of
        None \<Rightarrow> result\<lparr>sr_Added := sr_Added result + 1\<rparr>
      | Some previous \<Rightarrow>
          if \<not> ex_active previous then result\<lparr>sr_Reactivated := sr_Reactivated result + 1\<rparr> else result)"

definition ApplyFeedSnapshot ::
  "string \<Rightarrow> FeedSnapshot \<Rightarrow> int \<Rightarrow> gotime \<Rightarrow> db \<Rightarrow> SnapshotResult db_result" where
  "ApplyFeedSnapshot name snapshot grace now d =
     (if \<not> stateFeedName name \<or> IsZero now then (Inl ErrConstraint, d)
      else case validateSnapshot snapshot grace of
        Some e \<Rightarrow> (Inl e, d)
      | None \<Rightarrow>
        (case select_feed d name of
           None \<Rightarrow> (Inl ErrNotFound, d)
         | Some frow \<Rightarrow>
           let feedID = f_id frow in
           (case scan_rows scan_existing (filter (\<lambda>r. e_feed_id r = feedID) (feed_entries d)) of
              Inl e \<Rightarrow> (Inl e, d)
            | Inr existing \<Rightarrow>
              let rows1 = update_where (\<lambda>r. e_feed_id r = feedID \<and> e_active r)
                    (\<lambda>r. r\<lparr>e_missing_runs := e_missing_runs r + 1\<rparr>) (feed_entries d);
                  present = (\<lambda>entry. (Masked (ent_Prefix entry), ent_Kind entry)) ` set (fs_Entries snapshot);
                  result1 = foldl (snapshot_counts (map_of (rev existing)))
                    \<lparr>sr_Added = 0, sr_Reactivated = 0, sr_Missing = 0, sr_Deactivated = 0\<rparr>
                    (fs_Entries snapshot);
                  rows2 = foldl (upsert_entry feedID now) rows1 (fs_Entries snapshot);
                  missing = length (filter (\<lambda>key. key \<notin> present \<and>
                      (case map_of (rev existing) key of None \<Rightarrow> False | Some previous \<Rightarrow> ex_active previous))
                    (remdups (map fst existing)));
                  expired = (\<lambda>r. e_feed_id r = feedID \<and> e_active r \<and> e_missing_runs r \<ge> grace);
                  rows3 = update_where expired (\<lambda>r. r\<lparr>e_active := False\<rparr>) rows2;
                  feeds2 = update_where (\<lambda>r. f_id r = feedID)
                    (\<lambda>r. r\<lparr>f_etag := fs_ETag snapshot, f_last_modified := fs_LastModified snapshot,
                          f_last_attempt_at := Some (unix now), f_last_success_at := Some (unix now),
                          f_last_good_version := fs_Version snapshot,
                          f_accepted_entries := int (length (fs_Entries snapshot)),
                          f_rejected_entries := fs_Rejected snapshot, f_consecutive_failures := 0,
                          f_next_attempt_at := None, f_last_error_category := [],
                          f_updated_at := unix now\<rparr>) (feeds d)
              in (Inr (result1\<lparr>sr_Missing := missing, sr_Deactivated := rows_affected expired rows2\<rparr>),
                  d\<lparr>feed_entries := rows3, feeds := feeds2\<rparr>))))"

definition RecordFeedFailure :: "string \<Rightarrow> string \<Rightarrow> gotime \<Rightarrow> gotime \<Rightarrow> db \<Rightarrow> unit db_result" where
  "RecordFeedFailure name category now nextAttempt d =
     (if \<not> stateFeedName name \<or> \<not> stateCategory category \<or> IsZero now \<or> nextAttempt < now
      then (Inl ErrConstraint, d)
      else
        let P = (\<lambda>r. f_name r = name);
            d2 = d\<lparr>feeds := update_where P
              (\<lambda>r. r\<lparr>f_last_attempt_at := Some (unix now),
                    f_consecutive_failures := f_consecutive_failures r + 1,
                    f_next_attempt_at := Some (unix nextAttempt),
                    f_last_error_category := category, f_updated_at := unix now\<rparr>) (feeds d)\<rparr>
        in if rows_affected P (feeds d) \<noteq> 1 then (Inl ErrNotFound, d2) else (Inr (), d2))"

definition RecordFeedNotModified :: "string \<Rightarrow> string \<Rightarrow> string \<Rightarrow> gotime \<Rightarrow> db \<Rightarrow> unit db_result" where
  "RecordFeedNotModified name etag lastModified now d =
     (if \<not> stateFeedName name \<or> IsZero now \<or> \<not> validValidator etag 256 \<or> \<not> validValidator lastModified 128
      then (Inl ErrConstraint, d)
      else
        let P = (\<lambda>r. f_name r = name \<and> f_last_good_version r \<noteq> []);
            d2 = d\<lparr>feeds := update_where P
              (\<lambda>r. r\<lparr>f_etag := if etag = [] then f_etag r else etag,
                    f_last_modified := if lastModified = [] then f_last_modified r else lastModified,
                    f_last_attempt_at := Some (unix now), f_last_success_at := Some (unix now),
                    f_consecutive_failures := 0, f_next_attempt_at := None,
                    f_last_error_category := [], f_updated_at := unix now\<rparr>) (feeds d)\<rparr>
        in if rows_affected P (feeds d) \<noteq> 1 then (Inl ErrConstraint, d2) else (Inr (), d2))"

subsection \<open>Definitions: reading entries\<close>

text \<open>The join of an entry with its feed, then the checks of \<^verbatim>\<open>scanStoredEntry\<close>.\<close>

definition scanStoredEntry :: "feed_row \<times> entry_row \<Rightarrow> (ErrorCategory, StoredEntry) result" where
  "scanStoredEntry fe = (case fe of (f, r) \<Rightarrow>
     (case NormalizePrefix (e_prefix r) of
        Inl _ \<Rightarrow> Inl ErrIntegrity
      | Inr prefix \<Rightarrow>
          if Bits prefix \<noteq> e_prefix_bits r \<or> (e_family r = 4) \<noteq> Is4 (pfx_ip prefix) then Inl ErrIntegrity
          else (case checkedNetworkKind (e_kind r) of
              Inl _ \<Rightarrow> Inl ErrIntegrity
            | Inr kind \<Rightarrow>
                if ValidateKind prefix kind \<noteq> None then Inl ErrIntegrity
                else Inr \<lparr>se_FeedID = f_id f, se_FeedName = f_name f,
                          se_Entry = \<lparr>ent_Prefix = prefix, ent_Kind = kind\<rparr>,
                          se_FirstSeen = time_Unix (e_first_seen_at r),
                          se_LastSeen = time_Unix (e_last_seen_at r),
                          se_MissingRuns = e_missing_runs r, se_Active = e_active r\<rparr>)))"

definition join_entries :: "db \<Rightarrow> (feed_row \<times> entry_row) list" where
  "join_entries d = [(f, e). e \<leftarrow> feed_entries d, f \<leftarrow> feeds d, f_id f = e_feed_id e]"

definition entry_order :: "feed_row \<times> entry_row \<Rightarrow> feed_row \<times> entry_row \<Rightarrow> int" where
  "entry_order a b =
     cmp_then (cmp_Compare (e_family (snd a)) (e_family (snd b)))
     (cmp_then (cmp_Compare (e_prefix (snd a)) (e_prefix (snd b)))
       (cmp_Compare (e_kind (snd a)) (e_kind (snd b))))"

definition queryEntries ::
  "(feed_row \<times> entry_row \<Rightarrow> bool) \<Rightarrow> (feed_row \<times> entry_row \<Rightarrow> feed_row \<times> entry_row \<Rightarrow> int) \<Rightarrow> db
   \<Rightarrow> (ErrorCategory, StoredEntry list) result" where
  "queryEntries P order d = scan_rows scanStoredEntry (sort_cmp order (filter P (join_entries d)))"

definition ListFeedEntries :: "string \<Rightarrow> bool \<Rightarrow> db \<Rightarrow> (ErrorCategory, StoredEntry list) result" where
  "ListFeedEntries name includeInactive d =
     (if \<not> stateFeedName name then Inl ErrConstraint
      else queryEntries (\<lambda>(f, e). f_name f = name \<and> (includeInactive \<or> e_active e)) entry_order d)"

definition ListActiveEntries :: "db \<Rightarrow> (ErrorCategory, StoredEntry list) result" where
  "ListActiveEntries d =
     queryEntries (\<lambda>(f, e). e_active e \<and> f_enabled f)
       (\<lambda>a b. cmp_then (cmp_Compare (f_name (fst a)) (f_name (fst b))) (entry_order a b)) d"

subsection \<open>Facts: rows that scan\<close>

text \<open>What the readers rely on: a row that satisfies the table's invariant is read without error.\<close>

locale row_scanner =
  fixes ok :: "'r \<Rightarrow> bool" and scan :: "'r \<Rightarrow> (ErrorCategory, 'a) result" and view :: "'r \<Rightarrow> 'a"
  assumes scan_ok: "ok r \<Longrightarrow> scan r = Inr (view r)"
begin

lemma scan_all: "\<forall>r \<in> set rows. ok r \<Longrightarrow> scan_rows scan rows = Inr (map view rows)"
  by (rule scan_rows_Inr) (simp add: scan_ok)

lemma scan_sorted_filter:
  "\<forall>r \<in> set rows. ok r \<Longrightarrow> scan_rows scan (sort_cmp order (filter P rows)) = Inr (map view (sort_cmp order (filter P rows)))"
  by (rule scan_all) simp

end

lemma safe_not_4in6:
  assumes "fst (IsSafePrefix p)"
  shows "\<not> Is4In6 (pfx_ip p)"
proof
  assume m: "Is4In6 (pfx_ip p)"
  have ok: "prefix_ok p" using assms by (auto simp: IsSafePrefix_iff)
  then obtain w where w: "pfx_ip p = Addr6 w []" "drop_bit 32 w = 0xffff"
    using m by (cases rule: prefix_ok_cases) auto
  have "Contains (Prefix (Addr6 0xffff00000000 []) 97) (pfx_ip p)"
    using w by (simp add: Contains_num)
  moreover have "Prefix (Addr6 0xffff00000000 []) 97 \<in> set safetyPrefixes"
    by (simp add: safetyPrefixes_eval)
  ultimately show False using safe_no_special [OF assms Contains_pfx_ip [OF ok]] by blast
qed

lemma NormalizePrefix_safe: "fst (IsSafePrefix p) \<Longrightarrow> NormalizePrefix (prefix_String p) = Inr p"
  using NormalizePrefix_String [of p] safe_not_4in6 [of p] by (simp add: IsSafePrefix_iff)

lemma prefix_String_inj: "fst (IsSafePrefix p) \<Longrightarrow> fst (IsSafePrefix q) \<Longrightarrow> prefix_String p = prefix_String q \<longleftrightarrow> p = q"
  using NormalizePrefix_safe by (metis sum.inject(2))

lemma kind_num_inj [simp]: "kind_num a = kind_num b \<longleftrightarrow> a = b"
  by (cases a; cases b) auto

text \<open>The prefix and kind that a row of entries denotes.\<close>

definition entry_row_of :: "netip_prefix \<Rightarrow> Kind \<Rightarrow> entry_row \<Rightarrow> bool" where
  "entry_row_of p k r \<longleftrightarrow> fst (IsSafePrefix p) \<and> ValidateKind p k = None \<and> e_prefix r = prefix_String p \<and>
     e_kind r = int (kind_num k) \<and> e_prefix_bits r = Bits p \<and> e_family r = addr_family p"

definition entry_row_ok :: "entry_row \<Rightarrow> bool" where
  "entry_row_ok r \<longleftrightarrow> (\<exists>p k. entry_row_of p k r) \<and> 0 \<le> e_missing_runs r"

definition row_prefix :: "entry_row \<Rightarrow> netip_prefix" where
  "row_prefix r = (case NormalizePrefix (e_prefix r) of Inr p \<Rightarrow> p | Inl _ \<Rightarrow> zero_prefix)"

definition row_kind :: "entry_row \<Rightarrow> Kind" where
  "row_kind r = (case checkedNetworkKind (e_kind r) of Inr k \<Rightarrow> k | Inl _ \<Rightarrow> KindInvalid)"

lemma entry_row_of_view: "entry_row_of p k r \<Longrightarrow> row_prefix r = p \<and> row_kind r = k"
  using NormalizePrefix_safe [of p] checkedNetworkKind_kind_num [of k]
  by (auto simp: entry_row_of_def row_prefix_def row_kind_def ValidateKind_None_iff)

lemma entry_row_ok_view: "entry_row_ok r \<Longrightarrow> entry_row_of (row_prefix r) (row_kind r) r"
  using entry_row_of_view by (auto simp: entry_row_ok_def)

lemma entry_row_of_kind: "entry_row_of p k r \<Longrightarrow> k \<noteq> KindInvalid"
  by (auto simp: entry_row_of_def ValidateKind_None_iff)

definition existing_view :: "entry_row \<Rightarrow> stateEntryKey \<times> existingEntry" where
  "existing_view r = ((row_prefix r, row_kind r), \<lparr>ex_active = e_active r, ex_missingRuns = e_missing_runs r\<rparr>)"

definition stored_view :: "feed_row \<times> entry_row \<Rightarrow> StoredEntry" where
  "stored_view fe =
     \<lparr>se_FeedID = f_id (fst fe), se_FeedName = f_name (fst fe),
      se_Entry = \<lparr>ent_Prefix = row_prefix (snd fe), ent_Kind = row_kind (snd fe)\<rparr>,
      se_FirstSeen = time_Unix (e_first_seen_at (snd fe)), se_LastSeen = time_Unix (e_last_seen_at (snd fe)),
      se_MissingRuns = e_missing_runs (snd fe), se_Active = e_active (snd fe)\<rparr>"

interpretation existing_scan: row_scanner entry_row_ok scan_existing existing_view
proof
  fix r
  assume "entry_row_ok r"
  from entry_row_ok_view [OF this] show "scan_existing r = Inr (existing_view r)"
    using NormalizePrefix_safe checkedNetworkKind_kind_num entry_row_of_kind
    by (auto simp: scan_existing_def existing_view_def entry_row_of_def)
qed

interpretation stored_scan: row_scanner "\<lambda>fe. entry_row_ok (snd fe)" scanStoredEntry stored_view
proof
  fix fe :: "feed_row \<times> entry_row"
  assume "entry_row_ok (snd fe)"
  from entry_row_ok_view [OF this] show "scanStoredEntry fe = Inr (stored_view fe)"
    using NormalizePrefix_safe checkedNetworkKind_kind_num entry_row_of_kind
    by (cases fe) (auto simp: scanStoredEntry_def stored_view_def entry_row_of_def addr_family_def)
qed

subsection \<open>Facts: the invariant\<close>

definition feeds_ok :: "db \<Rightarrow> bool" where
  "feeds_ok d \<longleftrightarrow> distinct (map f_id (feeds d)) \<and> distinct (map f_name (feeds d)) \<and>
     (\<forall>f \<in> set (feeds d). 0 < f_id f \<and> stateFeedName (f_name f)) \<and>
     distinct (map entry_key (feed_entries d)) \<and>
     (\<forall>e \<in> set (feed_entries d). entry_row_ok e \<and> e_feed_id e \<in> f_id ` set (feeds d))"

lemma ListFeedEntries_total:
  assumes "feeds_ok d" and "stateFeedName name"
  shows "ListFeedEntries name includeInactive d =
    Inr (map stored_view (sort_cmp entry_order
      (filter (\<lambda>(f, e). f_name f = name \<and> (includeInactive \<or> e_active e)) (join_entries d))))"
  using assms stored_scan.scan_sorted_filter [of "join_entries d"]
  by (simp add: ListFeedEntries_def queryEntries_def) (auto simp: feeds_ok_def join_entries_def)

lemma ListActiveEntries_total:
  assumes "feeds_ok d"
  shows "ListActiveEntries d =
    Inr (map stored_view (sort_cmp (\<lambda>a b. cmp_then (cmp_Compare (f_name (fst a)) (f_name (fst b))) (entry_order a b))
      (filter (\<lambda>(f, e). e_active e \<and> f_enabled f) (join_entries d))))"
  using assms stored_scan.scan_sorted_filter [of "join_entries d"]
  by (simp add: ListActiveEntries_def queryEntries_def) (auto simp: feeds_ok_def join_entries_def)

subsection \<open>Facts: snapshots\<close>

definition key_of :: "int \<Rightarrow> Entry \<Rightarrow> int \<times> string \<times> int" where
  "key_of feedID e = (feedID, prefix_String (Masked (ent_Prefix e)), int (kind_num (ent_Kind e)))"

text \<open>The row of an entry that the snapshot contains.\<close>

definition seen_row :: "int \<Rightarrow> gotime \<Rightarrow> Entry \<Rightarrow> entry_row option \<Rightarrow> entry_row" where
  "seen_row feedID now e old =
     \<lparr>e_feed_id = feedID, e_prefix = prefix_String (Masked (ent_Prefix e)),
      e_family = addr_family (Masked (ent_Prefix e)), e_prefix_bits = Bits (Masked (ent_Prefix e)),
      e_kind = int (kind_num (ent_Kind e)),
      e_first_seen_at = (case old of None \<Rightarrow> unix now | Some r \<Rightarrow> e_first_seen_at r),
      e_last_seen_at = unix now, e_missing_runs = 0, e_active = True\<rparr>"

text \<open>The row of an entry that the snapshot lacks: one more miss, inactive once the grace is used up.\<close>

definition aged_row :: "int \<Rightarrow> entry_row \<Rightarrow> entry_row" where
  "aged_row grace r =
     (if e_active r then r\<lparr>e_missing_runs := e_missing_runs r + 1, e_active := e_missing_runs r + 1 < grace\<rparr>
      else r)"

lemma entry_key_update [simp]:
  "entry_key (r\<lparr>e_family := a, e_prefix_bits := b, e_last_seen_at := c, e_missing_runs := x, e_active := y\<rparr>) = entry_key r"
  "entry_key (r\<lparr>e_missing_runs := x\<rparr>) = entry_key r"
  "entry_key (r\<lparr>e_active := y\<rparr>) = entry_key r"
  by (simp_all add: entry_key_def)

lemma row_at_upsert_entry:
  "row_at entry_key (upsert_entry feedID now rows e) k =
     (if k = key_of feedID e then Some (seen_row feedID now e (row_at entry_key rows k)) else row_at entry_key rows k)"
proof (cases "row_at entry_key rows (key_of feedID e)")
  case None
  then show ?thesis
    unfolding upsert_entry_def Let_def
    by (subst row_at_upsert) (auto simp: entry_key_def seen_row_def key_of_def)
next
  case (Some r)
  then have "entry_key r = key_of feedID e" using row_at_Some_D [OF Some] by simp
  then have "r\<lparr>e_family := addr_family (Masked (ent_Prefix e)), e_prefix_bits := Bits (Masked (ent_Prefix e)),
      e_last_seen_at := unix now, e_missing_runs := 0, e_active := True\<rparr> = seen_row feedID now e (Some r)"
    by (cases r) (simp add: seen_row_def entry_key_def key_of_def)
  with Some show ?thesis
    unfolding upsert_entry_def Let_def
    by (subst row_at_upsert) (auto simp: entry_key_def key_of_def)
qed

lemma distinct_upsert_entry: "distinct (map entry_key rows) \<Longrightarrow> distinct (map entry_key (upsert_entry feedID now rows e))"
  unfolding upsert_entry_def Let_def by (rule distinct_upsert) (auto simp: entry_key_def)

lemma row_at_upsert_entries:
  assumes "distinct (map (key_of feedID) es)"
  shows "row_at entry_key (foldl (upsert_entry feedID now) rows es) k =
    (case find (\<lambda>e. key_of feedID e = k) es of
       None \<Rightarrow> row_at entry_key rows k
     | Some e \<Rightarrow> Some (seen_row feedID now e (row_at entry_key rows k)))"
  using assms
proof (induction es arbitrary: rows)
  case (Cons e es)
  have "find (\<lambda>x. key_of feedID x = k) es = None" if "key_of feedID e = k"
    using Cons.prems that by (auto simp: find_None_iff image_iff)
  with Cons show ?case
    by (cases "key_of feedID e = k") (auto simp: row_at_upsert_entry split: option.splits)
qed simp

lemma distinct_upsert_entries:
  "distinct (map entry_key rows) \<Longrightarrow> distinct (map entry_key (foldl (upsert_entry feedID now) rows es))"
  by (induction es arbitrary: rows) (auto intro: distinct_upsert_entry)

lemma snapshot_entries_valid_iff:
  "snapshot_entries_valid seen es \<longleftrightarrow>
     (\<forall>e \<in> set es. fst (IsSafePrefix (Masked (ent_Prefix e))) \<and> ValidateKind (Masked (ent_Prefix e)) (ent_Kind e) = None) \<and>
     distinct (map (\<lambda>e. (Masked (ent_Prefix e), ent_Kind e)) es) \<and>
     set seen \<inter> (\<lambda>e. (Masked (ent_Prefix e), ent_Kind e)) ` set es = {}"
  by (induction es arbitrary: seen) (auto simp: Let_def)

lemma snapshot_keys_distinct:
  assumes "snapshot_entries_valid [] es"
  shows "distinct (map (key_of feedID) es)"
proof -
  have *: "\<forall>e \<in> set es. fst (IsSafePrefix (Masked (ent_Prefix e)))"
      "distinct (map (\<lambda>e. (Masked (ent_Prefix e), ent_Kind e)) es)"
    using assms by (auto simp: snapshot_entries_valid_iff)
  have "inj_on (\<lambda>e. (Masked (ent_Prefix e), ent_Kind e)) (set es)" "distinct es"
    using *(2) by (auto simp: distinct_map)
  then have "inj_on (key_of feedID) (set es)"
    using *(1) by (auto simp: inj_on_def key_of_def prefix_String_inj)
  with \<open>distinct es\<close> show ?thesis by (simp add: distinct_map)
qed

lemma seen_row_ok:
  assumes "fst (IsSafePrefix (Masked (ent_Prefix e)))" and "ValidateKind (Masked (ent_Prefix e)) (ent_Kind e) = None"
  shows "entry_row_ok (seen_row feedID now e old)"
  unfolding entry_row_ok_def entry_row_of_def
  by (rule conjI, rule exI [of _ "Masked (ent_Prefix e)"], rule exI [of _ "ent_Kind e"])
    (use assms in \<open>auto simp: seen_row_def\<close>)

lemma aged_row_ok: "entry_row_ok r \<Longrightarrow> entry_row_ok (aged_row grace r)"
  by (auto simp: entry_row_ok_def entry_row_of_def aged_row_def)

lemma ApplyFeedSnapshot_cases:
  assumes "ApplyFeedSnapshot name s grace now d = (Inr res, d')"
  obtains f where "select_feed d name = Some f" and "stateFeedName name" and "1 \<le> grace"
    and "snapshot_entries_valid [] (fs_Entries s)"
    and "feed_entries d' = update_where (\<lambda>r. e_feed_id r = f_id f \<and> e_active r \<and> e_missing_runs r \<ge> grace)
          (\<lambda>r. r\<lparr>e_active := False\<rparr>)
          (foldl (upsert_entry (f_id f) now)
            (update_where (\<lambda>r. e_feed_id r = f_id f \<and> e_active r)
              (\<lambda>r. r\<lparr>e_missing_runs := e_missing_runs r + 1\<rparr>) (feed_entries d)) (fs_Entries s))"
    and "d' = d\<lparr>feed_entries := feed_entries d', feeds := feeds d'\<rparr>"
    and "map f_id (feeds d') = map f_id (feeds d)" and "map f_name (feeds d') = map f_name (feeds d)"
    and "map f_enabled (feeds d') = map f_enabled (feeds d)"
  using assms unfolding ApplyFeedSnapshot_def validateSnapshot_def Let_def
  by (auto split: if_splits option.splits sum.splits intro!: that map_update_where)

lemma aged_row_cases:
  "e_active r \<Longrightarrow> grace \<le> e_missing_runs r + 1 \<Longrightarrow>
     aged_row grace r = r\<lparr>e_missing_runs := e_missing_runs r + 1, e_active := False\<rparr>"
  "e_active r \<Longrightarrow> \<not> grace \<le> e_missing_runs r + 1 \<Longrightarrow> aged_row grace r = r\<lparr>e_missing_runs := e_missing_runs r + 1\<rparr>"
  "\<not> e_active r \<Longrightarrow> aged_row grace r = r"
  by (cases r; auto simp: aged_row_def)+

lemma ApplyFeedSnapshot_row_at:
  assumes "ApplyFeedSnapshot name s grace now d = (Inr res, d')" and "select_feed d name = Some f"
  shows "row_at entry_key (feed_entries d') k =
    (if fst k \<noteq> f_id f then row_at entry_key (feed_entries d) k
     else case find (\<lambda>e. key_of (f_id f) e = k) (fs_Entries s) of
       Some e \<Rightarrow> Some (seen_row (f_id f) now e (row_at entry_key (feed_entries d) k))
     | None \<Rightarrow> map_option (aged_row grace) (row_at entry_key (feed_entries d) k))"
  using assms(1)
proof (rule ApplyFeedSnapshot_cases)
  fix f'
  assume f': "select_feed d name = Some f'" and g: "1 \<le> grace"
    and v: "snapshot_entries_valid [] (fs_Entries s)"
    and e: "feed_entries d' = update_where (\<lambda>r. e_feed_id r = f_id f' \<and> e_active r \<and> e_missing_runs r \<ge> grace)
          (\<lambda>r. r\<lparr>e_active := False\<rparr>)
          (foldl (upsert_entry (f_id f') now)
            (update_where (\<lambda>r. e_feed_id r = f_id f' \<and> e_active r)
              (\<lambda>r. r\<lparr>e_missing_runs := e_missing_runs r + 1\<rparr>) (feed_entries d)) (fs_Entries s))"
  have ff: "f' = f" using f' assms(2) by simp
  have dk: "distinct (map (key_of (f_id f)) (fs_Entries s))" using v by (rule snapshot_keys_distinct)
  have fid: "e_feed_id r = fst k" if "row_at entry_key (feed_entries d) k = Some r" for r
    using row_at_Some_D [OF that] by (auto simp: entry_key_def)
  have none: "find (\<lambda>e. key_of (f_id f) e = k) (fs_Entries s) = None" if "fst k \<noteq> f_id f"
    using that by (auto simp: find_None_iff key_of_def)
  show ?thesis
  proof (cases "fst k = f_id f")
    case False
    then show ?thesis
      unfolding e ff using fid none [OF False]
      by (cases "row_at entry_key (feed_entries d) k")
        (auto simp: row_at_update_where row_at_upsert_entries [OF dk])
  next
    case True
    show ?thesis
    proof (cases "find (\<lambda>e. key_of (f_id f) e = k) (fs_Entries s)")
      case None
      then show ?thesis
        unfolding e ff using True fid
        by (cases "row_at entry_key (feed_entries d) k")
          (auto simp: row_at_update_where row_at_upsert_entries [OF dk] aged_row_cases)
    next
      case (Some x)
      have "seen_row (f_id f) now x (map_option g o') = seen_row (f_id f) now x o'"
        if "\<And>r. e_first_seen_at (g r) = e_first_seen_at r" for g o'
        using that by (cases o') (auto simp: seen_row_def)
      moreover have "\<not> grace \<le> e_missing_runs (seen_row (f_id f) now x o')" for o'
        using g by (simp add: seen_row_def)
      ultimately show ?thesis
        unfolding e ff using True Some
        by (simp add: row_at_update_where row_at_upsert_entries [OF dk])
    qed
  qed
qed

lemma select_feed_mem: "select_feed d name = Some f \<Longrightarrow> f \<in> set (feeds d) \<and> f_name f = name"
  unfolding select_feed_def by (rule find_Some_key)

lemma ApplyFeedSnapshot_feeds_ok:
  assumes ok: "feeds_ok d" and ap: "ApplyFeedSnapshot name s grace now d = (Inr res, d')"
  shows "feeds_ok d'"
  using ap
proof (rule ApplyFeedSnapshot_cases)
  fix f
  assume f: "select_feed d name = Some f" and v: "snapshot_entries_valid [] (fs_Entries s)"
    and e: "feed_entries d' = update_where (\<lambda>r. e_feed_id r = f_id f \<and> e_active r \<and> e_missing_runs r \<ge> grace)
          (\<lambda>r. r\<lparr>e_active := False\<rparr>)
          (foldl (upsert_entry (f_id f) now)
            (update_where (\<lambda>r. e_feed_id r = f_id f \<and> e_active r)
              (\<lambda>r. r\<lparr>e_missing_runs := e_missing_runs r + 1\<rparr>) (feed_entries d)) (fs_Entries s))"
    and ids: "map f_id (feeds d') = map f_id (feeds d)" "map f_name (feeds d') = map f_name (feeds d)"
  have feeds: "f_id ` set (feeds d') = f_id ` set (feeds d)"
    using ids(1) by (metis list.set_map)
  have named: "\<forall>g \<in> set (feeds d'). 0 < f_id g \<and> stateFeedName (f_name g)"
  proof
    fix g
    assume "g \<in> set (feeds d')"
    then obtain i where i: "i < length (feeds d')" "g = feeds d' ! i" by (metis in_set_conv_nth)
    have len: "length (feeds d') = length (feeds d)" using ids(1) by (metis length_map)
    have "f_id g = f_id (feeds d ! i)" "f_name g = f_name (feeds d ! i)"
      using ids i len by (metis nth_map)+
    moreover have "feeds d ! i \<in> set (feeds d)" using i(1) len by simp
    ultimately show "0 < f_id g \<and> stateFeedName (f_name g)" using ok by (auto simp: feeds_ok_def)
  qed
  have dist: "distinct (map entry_key (feed_entries d'))"
    unfolding e using ok
    by (auto simp: distinct_update_where feeds_ok_def intro!: distinct_upsert_entries)
  have "entry_row_ok r \<and> e_feed_id r \<in> f_id ` set (feeds d')" if r: "r \<in> set (feed_entries d')" for r
  proof -
    have old: "entry_row_ok x \<and> e_feed_id x \<in> f_id ` set (feeds d)"
      if "row_at entry_key (feed_entries d) k = Some x" for x k
      using ok row_at_Some_D [OF that] by (auto simp: feeds_ok_def)
    have fid: "f_id f \<in> f_id ` set (feeds d)" using select_feed_mem [OF f] by simp
    have "row_at entry_key (feed_entries d') (entry_key r) = Some r"
      using row_at_mem [OF dist r] .
    then consider (kept) x where "row_at entry_key (feed_entries d) (entry_key r) = Some x" "r = x \<or> r = aged_row grace x"
      | (seen) x old where "x \<in> set (fs_Entries s)" "r = seen_row (f_id f) now x old"
      unfolding ApplyFeedSnapshot_row_at [OF ap f]
      by (auto split: if_splits option.splits simp: find_Some_iff) (metis nth_mem)+
    then show ?thesis
    proof cases
      case kept
      have "e_feed_id (aged_row grace x) = e_feed_id x" by (simp add: aged_row_def)
      with kept old [OF kept(1)] aged_row_ok [of x grace] feeds show ?thesis by auto
    next
      case seen
      then show ?thesis
        using v seen_row_ok fid feeds by (auto simp: snapshot_entries_valid_iff) (auto simp: seen_row_def)
    qed
  qed
  with ids named dist ok show ?thesis by (simp add: feeds_ok_def)
qed

lemma ApplyFeedSnapshot_total:
  assumes "feeds_ok d" and "stateFeedName name" and "\<not> IsZero now"
    and "validateSnapshot s grace = None" and "select_feed d name = Some f"
  shows "\<exists>res d'. ApplyFeedSnapshot name s grace now d = (Inr res, d')"
proof -
  have "\<forall>r \<in> set (filter (\<lambda>r. e_feed_id r = f_id f) (feed_entries d)). entry_row_ok r"
    using assms(1) by (auto simp: feeds_ok_def)
  from existing_scan.scan_all [OF this] show ?thesis
    using assms by (simp add: ApplyFeedSnapshot_def Let_def)
qed

text \<open>A sequence of snapshots of one feed.\<close>

fun apply_snapshots :: "string \<Rightarrow> int \<Rightarrow> db \<Rightarrow> (FeedSnapshot \<times> gotime) list \<Rightarrow> db option" where
  "apply_snapshots name grace d [] = Some d"
| "apply_snapshots name grace d ((s, now) # ss) =
     (case ApplyFeedSnapshot name s grace now d of
        (Inr _, d') \<Rightarrow> apply_snapshots name grace d' ss
      | (Inl _, _) \<Rightarrow> None)"

lemma ApplyFeedSnapshot_select:
  assumes "ApplyFeedSnapshot name s grace now d = (Inr res, d')" and "select_feed d name = Some f"
    and "feeds_ok d"
  shows "\<exists>f'. select_feed d' name = Some f' \<and> f_id f' = f_id f"
  using assms(1)
proof (rule ApplyFeedSnapshot_cases)
  assume ids: "map f_id (feeds d') = map f_id (feeds d)" "map f_name (feeds d') = map f_name (feeds d)"
  have m: "f \<in> set (feeds d)" "f_name f = name" using select_feed_mem [OF assms(2)] by auto
  then obtain i where i: "i < length (feeds d)" "f = feeds d ! i" by (metis in_set_conv_nth)
  have len: "length (feeds d') = length (feeds d)" using ids(1) by (metis length_map)
  have g: "feeds d' ! i \<in> set (feeds d')" "f_name (feeds d' ! i) = name" "f_id (feeds d' ! i) = f_id f"
    using ids i len m by (auto simp: list_eq_iff_nth_eq)
  have "distinct (map f_name (feeds d'))" using assms(3) ids by (simp add: feeds_ok_def)
  from find_unique [OF this g(1)] g show ?thesis by (auto simp: select_feed_def)
qed

definition misses :: "int \<Rightarrow> nat \<Rightarrow> entry_row \<Rightarrow> entry_row" where
  "misses grace n r =
     (if int n < grace then r\<lparr>e_missing_runs := int n, e_active := True\<rparr>
      else r\<lparr>e_missing_runs := grace, e_active := False\<rparr>)"

lemma aged_misses: "1 \<le> grace \<Longrightarrow> aged_row grace (misses grace n r) = misses grace (Suc n) r"
  by (cases r) (auto simp: aged_row_def misses_def)

lemma apply_snapshots_misses:
  assumes "feeds_ok d" and "select_feed d name = Some f" and "fst k = f_id f"
    and "row_at entry_key (feed_entries d) k = Some (misses grace n r)"
    and "\<forall>(s, now) \<in> set ss. \<forall>e \<in> set (fs_Entries s). key_of (f_id f) e \<noteq> k"
    and "apply_snapshots name grace d ss = Some d'"
  shows "row_at entry_key (feed_entries d') k = Some (misses grace (n + length ss) r)"
  using assms
proof (induction ss arbitrary: d f n)
  case (Cons sn ss)
  obtain s now where sn: "sn = (s, now)" by fastforce
  from Cons.prems(6) obtain res d1 where a: "ApplyFeedSnapshot name s grace now d = (Inr res, d1)"
      and r: "apply_snapshots name grace d1 ss = Some d'"
    by (auto simp: sn split: prod.splits sum.splits)
  have g: "1 \<le> grace" by (rule ApplyFeedSnapshot_cases [OF a]) simp
  obtain f1 where f1: "select_feed d1 name = Some f1" "f_id f1 = f_id f"
    using ApplyFeedSnapshot_select [OF a Cons.prems(2,1)] by blast
  have "find (\<lambda>e. key_of (f_id f) e = k) (fs_Entries s) = None"
    using Cons.prems(5) by (auto simp: sn find_None_iff)
  then have "row_at entry_key (feed_entries d1) k = Some (misses grace (Suc n) r)"
    using Cons.prems(3,4) aged_misses [OF g] by (simp add: ApplyFeedSnapshot_row_at [OF a Cons.prems(2)])
  from Cons.IH [OF ApplyFeedSnapshot_feeds_ok [OF Cons.prems(1) a] f1(1) _ this _ r] show ?case
    using Cons.prems(3,5) f1(2) by simp
qed simp

subsection \<open>Facts: feed definitions\<close>

definition defined_row :: "gotime \<Rightarrow> FeedDefinition \<Rightarrow> feed_row \<Rightarrow> feed_row" where
  "defined_row now x r =
     r\<lparr>f_url_hash := fd_URLHash x, f_definition_hash := fd_DefinitionHash x, f_enabled := fd_Enabled x,
       f_updated_at := unix now\<rparr>"

lemma definitions_valid_iff:
  "definitions_valid seen ds \<longleftrightarrow>
     (\<forall>x \<in> set ds. validFeedDefinition x) \<and> distinct (map fd_Name ds) \<and> set seen \<inter> fd_Name ` set ds = {}"
  by (induction ds arbitrary: seen) auto

definition feed_keys_ok :: "feed_row list \<Rightarrow> bool" where
  "feed_keys_ok rows \<longleftrightarrow> distinct (map f_id rows) \<and> distinct (map f_name rows) \<and>
     (\<forall>i \<in> f_id ` set rows. 0 < i) \<and> (\<forall>n \<in> f_name ` set rows. stateFeedName n)"

lemma feeds_ok_alt:
  "feeds_ok d \<longleftrightarrow> feed_keys_ok (feeds d) \<and> distinct (map entry_key (feed_entries d)) \<and>
     (\<forall>e \<in> set (feed_entries d). entry_row_ok e \<and> e_feed_id e \<in> f_id ` set (feeds d))"
  by (auto simp: feeds_ok_def feed_keys_ok_def)

lemma feed_keys_ok_update:
  assumes "\<And>r. f_id (g r) = f_id r" and "\<And>r. f_name (g r) = f_name r"
  shows "feed_keys_ok (update_where P g rows) = feed_keys_ok rows"
    and "f_id ` set (update_where P g rows) = f_id ` set rows"
  using assms by (simp_all only: feed_keys_ok_def distinct_update_where image_update_where)

lemma upsert_feed_keys_ok:
  assumes "feed_keys_ok rows" and "validFeedDefinition x"
  shows "feed_keys_ok (upsert_feed now rows x) \<and> f_id ` set rows \<subseteq> f_id ` set (upsert_feed now rows x)"
proof (cases "fd_Name x \<in> f_name ` set rows")
  case True
  then show ?thesis using assms(1) by (simp add: upsert_feed_def upsert_def feed_keys_ok_update)
next
  case False
  then show ?thesis
    using assms next_rowid_fresh [of "map f_id rows"] next_rowid_pos [of "map f_id rows"]
    by (auto simp: upsert_feed_def upsert_def feed_keys_ok_def validFeedDefinition_def simp del: next_rowid_fresh)
qed

lemma upsert_feeds_keys_ok:
  assumes "feed_keys_ok rows" and "\<forall>x \<in> set ds. validFeedDefinition x"
  shows "feed_keys_ok (foldl (upsert_feed now) rows ds) \<and> f_id ` set rows \<subseteq> f_id ` set (foldl (upsert_feed now) rows ds)"
  using assms
proof (induction ds arbitrary: rows)
  case (Cons x ds)
  then have x: "feed_keys_ok (upsert_feed now rows x)" "f_id ` set rows \<subseteq> f_id ` set (upsert_feed now rows x)"
    using upsert_feed_keys_ok [of rows x now] by simp_all
  from Cons.IH [OF x(1)] Cons.prems x(2) show ?case by auto
qed simp

lemma row_at_upsert_feed:
  "row_at f_name (upsert_feed now rows x) n =
     (if n = fd_Name x
      then (case row_at f_name rows n of
          Some r \<Rightarrow> Some (defined_row now x r)
        | None \<Rightarrow> Some (the (row_at f_name (upsert_feed now [] x) n)\<lparr>f_id := next_rowid (map f_id rows)\<rparr>))
      else row_at f_name rows n)"
  unfolding upsert_feed_def
  by (subst (1 2) row_at_upsert) (auto simp: defined_row_def split: option.splits)

lemma row_at_upsert_feed_enabled:
  "map_option (\<lambda>r. (f_name r, f_enabled r, f_url_hash r, f_definition_hash r)) (row_at f_name (upsert_feed now rows x) n) =
     (if n = fd_Name x then Some (n, fd_Enabled x, fd_URLHash x, fd_DefinitionHash x)
      else map_option (\<lambda>r. (f_name r, f_enabled r, f_url_hash r, f_definition_hash r)) (row_at f_name rows n))"
  unfolding upsert_feed_def
  by (subst row_at_upsert) (auto dest: row_at_Some_D split: option.splits)

lemma row_at_upsert_feeds_enabled:
  assumes "distinct (map fd_Name ds)"
  shows "map_option (\<lambda>r. (f_name r, f_enabled r, f_url_hash r, f_definition_hash r)) (row_at f_name (foldl (upsert_feed now) rows ds) n) =
    (case find (\<lambda>x. fd_Name x = n) ds of
       Some x \<Rightarrow> Some (n, fd_Enabled x, fd_URLHash x, fd_DefinitionHash x)
     | None \<Rightarrow> map_option (\<lambda>r. (f_name r, f_enabled r, f_url_hash r, f_definition_hash r)) (row_at f_name rows n))"
  using assms
proof (induction ds arbitrary: rows)
  case (Cons x ds)
  have "find (\<lambda>y. fd_Name y = n) ds = None" if "fd_Name x = n"
    using Cons.prems that by (auto simp: find_None_iff image_iff)
  with Cons show ?case by (auto simp: row_at_upsert_feed_enabled split: option.splits)
qed simp

lemma row_at_upsert_feeds_id:
  "row_at f_name rows n = Some r \<Longrightarrow> \<exists>r'. row_at f_name (foldl (upsert_feed now) rows ds) n = Some r' \<and> f_id r' = f_id r"
proof (induction ds arbitrary: rows r)
  case (Cons x ds)
  have "\<exists>r1. row_at f_name (upsert_feed now rows x) n = Some r1 \<and> f_id r1 = f_id r"
    using Cons.prems by (auto simp: row_at_upsert_feed defined_row_def)
  then show ?case using Cons.IH by fastforce
qed simp

lemma EnsureFeeds_result:
  assumes "feeds_ok d" and "ds \<noteq> []" and "\<not> IsZero now" and "definitions_valid [] ds"
  defines "d2 \<equiv> d\<lparr>feeds := foldl (upsert_feed now) (update_where f_enabled (\<lambda>r. r\<lparr>f_enabled := False\<rparr>) (feeds d)) ds\<rparr>"
  shows "EnsureFeeds ds now d = (Inr (map (\<lambda>x. scanFeed (the (select_feed d2 (fd_Name x)))) ds), d2)"
proof -
  have dist: "distinct (map fd_Name ds)" using assms(4) by (simp add: definitions_valid_iff)
  have "\<exists>r. select_feed d2 (fd_Name x) = Some r" if "x \<in> set ds" for x
  proof -
    have "find (\<lambda>y. fd_Name y = fd_Name x) ds = Some x" using find_unique [OF dist that] .
    then have "map_option (\<lambda>r. (f_name r, f_enabled r, f_url_hash r, f_definition_hash r))
        (row_at f_name (feeds d2) (fd_Name x)) \<noteq> None"
      unfolding d2_def by (simp add: row_at_upsert_feeds_enabled [OF dist])
    then show ?thesis by (simp add: select_feed_def row_at_def)
  qed
  then have "\<forall>x \<in> set ds. (case select_feed d2 (fd_Name x) of None \<Rightarrow> Inl ErrQuery | Some r \<Rightarrow> Inr (scanFeed r)) =
      Inr (scanFeed (the (select_feed d2 (fd_Name x))))" by fastforce
  from scan_rows_Inr [OF this] assms(2-4) show ?thesis
    by (simp add: EnsureFeeds_def Let_def d2_def)
qed

lemma EnsureFeeds_feeds_ok:
  assumes "feeds_ok d" and "EnsureFeeds ds now d = (res, d')"
  shows "feeds_ok d'"
proof (cases "ds = [] \<or> IsZero now \<or> \<not> definitions_valid [] ds")
  case True
  then show ?thesis using assms by (auto simp: EnsureFeeds_def split: if_splits)
next
  case False
  let ?rows = "update_where f_enabled (\<lambda>r. r\<lparr>f_enabled := False\<rparr>) (feeds d)"
  have d': "d' = d\<lparr>feeds := foldl (upsert_feed now) ?rows ds\<rparr>"
    using False assms EnsureFeeds_result [of d ds now] by auto
  have ok: "feed_keys_ok ?rows" "f_id ` set ?rows = f_id ` set (feeds d)"
    using assms(1) by (auto simp: feeds_ok_alt feed_keys_ok_update)
  from upsert_feeds_keys_ok [OF ok(1), of ds now] False ok(2) assms(1) show ?thesis
    by (auto simp: feeds_ok_alt d' definitions_valid_iff)
qed

lemma RecordFeedFailure_feeds_ok:
  assumes "feeds_ok d" and "RecordFeedFailure name category now nextAttempt d = (res, d')"
  shows "feeds_ok d' \<and> feed_entries d' = feed_entries d"
  using assms by (auto simp: RecordFeedFailure_def Let_def feeds_ok_alt feed_keys_ok_update split: if_splits)

lemma RecordFeedNotModified_feeds_ok:
  assumes "feeds_ok d" and "RecordFeedNotModified name etag lastModified now d = (res, d')"
  shows "feeds_ok d' \<and> feed_entries d' = feed_entries d"
  using assms by (auto simp: RecordFeedNotModified_def Let_def feeds_ok_alt feed_keys_ok_update split: if_splits)

subsection \<open>Properties\<close>

text \<open>
  C31. A valid snapshot of a known feed is always applied, keeps the invariant of the feed tables,
  and does exactly this: rows of other feeds stay as they are; an entry of the snapshot is active
  with no misses and keeps the time it was first seen; an entry the snapshot lacks gains a miss
  and turns inactive once it has missed \<^verbatim>\<open>grace\<close> snapshots; inactive entries stay as they are.
\<close>

theorem ApplyFeedSnapshot_correct:
  assumes "feeds_ok d" and "stateFeedName name" and "\<not> IsZero now"
    and "validateSnapshot s grace = None" and "select_feed d name = Some f"
  shows "\<exists>res d'. ApplyFeedSnapshot name s grace now d = (Inr res, d') \<and> feeds_ok d' \<and>
    (\<forall>k. row_at entry_key (feed_entries d') k =
      (if fst k \<noteq> f_id f then row_at entry_key (feed_entries d) k
       else case find (\<lambda>e. key_of (f_id f) e = k) (fs_Entries s) of
         Some e \<Rightarrow> Some (seen_row (f_id f) now e (row_at entry_key (feed_entries d) k))
       | None \<Rightarrow> map_option (aged_row grace) (row_at entry_key (feed_entries d) k)))"
proof -
  obtain res d' where a: "ApplyFeedSnapshot name s grace now d = (Inr res, d')"
    using ApplyFeedSnapshot_total [OF assms] by blast
  from a ApplyFeedSnapshot_feeds_ok [OF assms(1) a] ApplyFeedSnapshot_row_at [OF a assms(5)]
  show ?thesis by blast
qed

text \<open>
  C32. The grace period: an entry that was present and is then missing from every one of \<open>n\<close>
  snapshots in a row is still active exactly when \<open>n\<close> is below \<^verbatim>\<open>grace\<close>.
\<close>

theorem feed_entry_grace:
  assumes "feeds_ok d" and "select_feed d name = Some f" and "fst k = f_id f"
    and "row_at entry_key (feed_entries d) k = Some r" and "e_active r" and "e_missing_runs r = 0"
    and "\<forall>(s, now) \<in> set ss. \<forall>e \<in> set (fs_Entries s). key_of (f_id f) e \<noteq> k"
    and "apply_snapshots name grace d ss = Some d'" and "1 \<le> grace"
  shows "\<exists>r'. row_at entry_key (feed_entries d') k = Some r' \<and> (e_active r' \<longleftrightarrow> int (length ss) < grace)"
proof -
  have "misses grace 0 r = r" using assms(5,6,9) by (cases r) (simp add: misses_def)
  with assms(4) have "row_at entry_key (feed_entries d) k = Some (misses grace 0 r)" by simp
  from apply_snapshots_misses [OF assms(1-3) this assms(7,8)] show ?thesis
    by (simp add: misses_def)
qed

text \<open>
  \<^verbatim>\<open>EnsureFeeds\<close> on valid definitions succeeds, keeps the invariant, leaves entries alone, and
  afterwards a feed is enabled exactly when a definition of its name says so; existing feeds keep
  their id, and the records returned are those of the definitions, in order.
\<close>

theorem EnsureFeeds_correct:
  assumes "feeds_ok d" and "ds \<noteq> []" and "\<not> IsZero now" and "definitions_valid [] ds"
  shows "\<exists>records d'. EnsureFeeds ds now d = (Inr records, d') \<and> feeds_ok d' \<and>
    feed_entries d' = feed_entries d \<and> map frec_Name records = map fd_Name ds \<and>
    map frec_Enabled records = map fd_Enabled ds \<and>
    (\<forall>r \<in> set (feeds d'). f_enabled r \<longleftrightarrow> (\<exists>x \<in> set ds. fd_Name x = f_name r \<and> fd_Enabled x)) \<and>
    (\<forall>r \<in> set (feeds d). \<exists>r' \<in> set (feeds d'). f_name r' = f_name r \<and> f_id r' = f_id r)"
proof -
  let ?rows = "update_where f_enabled (\<lambda>r. r\<lparr>f_enabled := False\<rparr>) (feeds d)"
  let ?d = "d\<lparr>feeds := foldl (upsert_feed now) ?rows ds\<rparr>"
  let ?rec = "\<lambda>x. scanFeed (the (select_feed ?d (fd_Name x)))"
  note res = EnsureFeeds_result [OF assms]
  have ok: "feeds_ok ?d" using EnsureFeeds_feeds_ok [OF assms(1) res] .
  have dist: "distinct (map fd_Name ds)" using assms(4) by (simp add: definitions_valid_iff)
  have distf: "distinct (map f_name (feeds ?d))" "distinct (map f_name (feeds d))"
    using ok assms(1) by (auto simp: feeds_ok_def)
  note look = row_at_upsert_feeds_enabled [OF dist, of now ?rows]
  have rec: "frec_Name (?rec x) = fd_Name x \<and> frec_Enabled (?rec x) = fd_Enabled x" if "x \<in> set ds" for x
    using look [of "fd_Name x"] find_unique [OF dist that]
    by (auto simp: select_feed_def row_at_def scanFeed_def)
  have en: "f_enabled r \<longleftrightarrow> (\<exists>x \<in> set ds. fd_Name x = f_name r \<and> fd_Enabled x)" if r: "r \<in> set (feeds ?d)" for r
  proof -
    have r1: "row_at f_name (foldl (upsert_feed now) ?rows ds) (f_name r) = Some r"
      using row_at_mem [OF distf(1) r] by simp
    have off: "\<not> f_enabled x" if "row_at f_name ?rows n = Some x" for x n
      using row_at_Some_D [OF that] by (auto simp: set_update_where)
    show ?thesis
    proof (cases "find (\<lambda>x. fd_Name x = f_name r) ds")
      case None
      then have "\<not> f_enabled r" using look [of "f_name r"] r1 off
        by (cases "row_at f_name ?rows (f_name r)") auto
      with None show ?thesis by (auto simp: find_None_iff)
    next
      case (Some x)
      then have "x \<in> set ds" "fd_Name x = f_name r" by (auto dest: find_Some_key)
      moreover have "y = x" if "y \<in> set ds" "fd_Name y = f_name r" for y
        using find_unique [OF dist that(1)] that(2) Some by simp
      moreover have "f_enabled r = fd_Enabled x" using look [of "f_name r"] r1 Some by simp
      ultimately show ?thesis by metis
    qed
  qed
  have ids: "\<exists>r' \<in> set (feeds ?d). f_name r' = f_name r \<and> f_id r' = f_id r" if r: "r \<in> set (feeds d)" for r
  proof -
    have "row_at f_name ?rows (f_name r) = Some (if f_enabled r then r\<lparr>f_enabled := False\<rparr> else r)"
      using row_at_mem [OF distf(2) r] by (simp add: row_at_update_where)
    from row_at_upsert_feeds_id [OF this, of now ds] show ?thesis
      by (auto dest: row_at_Some_D split: if_splits)
  qed
  have "map frec_Name (map ?rec ds) = map fd_Name ds" "map frec_Enabled (map ?rec ds) = map fd_Enabled ds"
    using rec by simp_all
  with res ok en ids show ?thesis
    by (intro exI [of _ "map ?rec ds"] exI [of _ ?d] conjI ballI) simp_all
qed

text \<open>
  Reading the active entries never meets a row it cannot read, and returns precisely the
  active entries of enabled feeds, every one of them a safe prefix that agrees with its kind.
\<close>

theorem ListActiveEntries_correct:
  assumes "feeds_ok d"
  shows "\<exists>es. ListActiveEntries d = Inr es \<and>
    set es = {stored_view (f, e) |f e. f \<in> set (feeds d) \<and> e \<in> set (feed_entries d) \<and>
      e_feed_id e = f_id f \<and> e_active e \<and> f_enabled f} \<and>
    (\<forall>x \<in> set es. fst (IsSafePrefix (ent_Prefix (se_Entry x))) \<and>
      ValidateKind (ent_Prefix (se_Entry x)) (ent_Kind (se_Entry x)) = None)"
proof -
  have join: "set (join_entries d) = {(f, e). f \<in> set (feeds d) \<and> e \<in> set (feed_entries d) \<and> f_id f = e_feed_id e}"
    by (auto simp: join_entries_def)
  have ok: "fst (IsSafePrefix (row_prefix e)) \<and> ValidateKind (row_prefix e) (row_kind e) = None"
    if "e \<in> set (feed_entries d)" for e
    using assms that entry_row_ok_view [of e] by (auto simp: feeds_ok_def entry_row_of_def)
  let ?es = "map stored_view (sort_cmp (\<lambda>a b. cmp_then (cmp_Compare (f_name (fst a)) (f_name (fst b))) (entry_order a b))
      (filter (\<lambda>(f, e). e_active e \<and> f_enabled f) (join_entries d)))"
  have set: "set ?es = stored_view ` {(f, e). f \<in> set (feeds d) \<and> e \<in> set (feed_entries d) \<and>
      e_feed_id e = f_id f \<and> e_active e \<and> f_enabled f}"
    by (auto simp: join)
  have "\<forall>x \<in> set ?es. fst (IsSafePrefix (ent_Prefix (se_Entry x))) \<and>
      ValidateKind (ent_Prefix (se_Entry x)) (ent_Kind (se_Entry x)) = None"
    unfolding set using ok by (auto simp: stored_view_def)
  then show ?thesis
    unfolding ListActiveEntries_total [OF assms]
    by (intro exI [of _ ?es] conjI refl) (unfold set, blast, assumption)
qed

text \<open>
  A failed fetch keeps the last good data: whatever \<^verbatim>\<open>RecordFeedFailure\<close> is given, the entries,
  the validators and the last good version of every feed stay as they were; it reports success
  exactly when the feed is known and then counts one more failure.
\<close>

theorem RecordFeedFailure_keeps_last_good:
  assumes "feeds_ok d" and "stateFeedName name" and "stateCategory category" and "\<not> IsZero now"
    and "now \<le> nextAttempt" and "RecordFeedFailure name category now nextAttempt d = (res, d')"
  shows "feeds_ok d' \<and> feed_entries d' = feed_entries d \<and>
    (res = Inr () \<longleftrightarrow> select_feed d name \<noteq> None) \<and>
    map (\<lambda>f. (f_id f, f_name f, f_enabled f, f_etag f, f_last_modified f, f_last_good_version f, f_last_success_at f)) (feeds d') =
    map (\<lambda>f. (f_id f, f_name f, f_enabled f, f_etag f, f_last_modified f, f_last_good_version f, f_last_success_at f)) (feeds d) \<and>
    map f_consecutive_failures (feeds d') =
    map (\<lambda>f. f_consecutive_failures f + (if f_name f = name then 1 else 0)) (feeds d)"
proof -
  have dist: "distinct (map f_name (feeds d))" using assms(1) by (simp add: feeds_ok_def)
  have "rows_affected (\<lambda>r. f_name r = name) (feeds d) = 1 \<longleftrightarrow> select_feed d name \<noteq> None"
    using rows_affected_unique [OF dist, of name "\<lambda>_. True"]
    by (auto simp: select_feed_def find_None_iff)
  with assms(2-6) RecordFeedFailure_feeds_ok [OF assms(1,6)] show ?thesis
    by (auto simp: RecordFeedFailure_def Let_def update_where_def split: if_splits)
qed

subsection \<open>A concrete store\<close>

definition sample_hash :: string where
  "sample_hash = replicate 64 (CHR ''a'')"

definition sample_definitions :: "FeedDefinition list" where
  "sample_definitions =
     [\<lparr>fd_Name = ''alpha'', fd_URLHash = sample_hash, fd_DefinitionHash = sample_hash, fd_Enabled = True\<rparr>]"

definition sample_feed :: feed_row where
  "sample_feed =
     \<lparr>f_id = 1, f_name = ''alpha'', f_url_hash = sample_hash, f_definition_hash = sample_hash,
      f_enabled = True, f_etag = [], f_last_modified = [], f_last_attempt_at = None,
      f_last_success_at = None, f_last_good_version = [], f_accepted_entries = 0,
      f_rejected_entries = 0, f_consecutive_failures = 0, f_next_attempt_at = None,
      f_last_error_category = [], f_created_at = 1000, f_updated_at = 1000\<rparr>"

definition sample_entry :: entry_row where
  "sample_entry =
     \<lparr>e_feed_id = 1, e_prefix = prefix_String (Prefix (Addr4 0x08080800) 25), e_family = 4,
      e_prefix_bits = 24, e_kind = 2, e_first_seen_at = 1000, e_last_seen_at = 1000,
      e_missing_runs = 0, e_active = True\<rparr>"

definition sample_store :: db where
  "sample_store = empty_db\<lparr>feeds := [sample_feed], feed_entries := [sample_entry]\<rparr>"

definition sample_snapshot :: "Entry list \<Rightarrow> FeedSnapshot" where
  "sample_snapshot es =
     \<lparr>fs_Version = sample_hash, fs_ETag = [], fs_LastModified = [], fs_Entries = es, fs_Rejected = 0\<rparr>"

lemma sample_hash_valid [simp]: "validHash sample_hash"
  by (simp add: validHash_def sample_hash_def list_all_iff hex_val_def is_digit_def code_def)

lemma sample_name_valid [simp]: "stateFeedName ''alpha''"
  by (simp add: stateFeedName_def feed_edge_def is_lower_def code_def)

lemma sample_prefix_safe:
  "fst (IsSafePrefix (Prefix (Addr4 0x08080800) 25))"
  "ValidateKind (Prefix (Addr4 0x08080800) 25) KindRange = None"
  by (simp_all add: network_eval)

lemma sample_store_ok: "feeds_ok sample_store"
proof -
  have "entry_row_of (Prefix (Addr4 0x08080800) 25) KindRange sample_entry"
    using sample_prefix_safe by (simp add: entry_row_of_def sample_entry_def Bits_def addr_family_def)
  then have "entry_row_ok sample_entry"
    unfolding entry_row_ok_def by (auto simp: sample_entry_def)
  then show ?thesis
    by (simp add: feeds_ok_def sample_store_def empty_db_def sample_feed_def) (simp add: sample_entry_def)
qed

lemma sample_select [simp]: "select_feed sample_store ''alpha'' = Some sample_feed"
  by (simp add: select_feed_def sample_store_def sample_feed_def)

lemma sample_time [simp]: "\<not> IsZero (2000 * second)"
  by (simp add: go_time_defs)

lemma sample_snapshot_valid [simp]: "1 \<le> grace \<Longrightarrow> grace \<le> 100 \<Longrightarrow> validateSnapshot (sample_snapshot []) grace = None"
  by (simp add: validateSnapshot_def sample_snapshot_def validValidator_def has_crlfnul_def)

lemma sample_valid_2: "validateSnapshot (sample_snapshot []) 2 = None"
  by simp

theorem ApplyFeedSnapshot_correct_witness:
  "\<exists>res d'. ApplyFeedSnapshot ''alpha'' (sample_snapshot []) 2 (2000 * second) sample_store = (Inr res, d') \<and>
     feeds_ok d' \<and> row_at entry_key (feed_entries d') (entry_key sample_entry) = Some (sample_entry\<lparr>e_missing_runs := 1\<rparr>)"
proof -
  have "row_at entry_key (feed_entries sample_store) (entry_key sample_entry) = Some sample_entry"
    by (simp add: sample_store_def row_at_Cons)
  moreover have "fst (entry_key sample_entry) = f_id sample_feed"
    by (simp add: entry_key_def sample_entry_def sample_feed_def)
  moreover have "aged_row 2 sample_entry = sample_entry\<lparr>e_missing_runs := 1\<rparr>"
    by (simp add: aged_row_def sample_entry_def)
  moreover have "fs_Entries (sample_snapshot []) = []" by (simp add: sample_snapshot_def)
  moreover obtain res d' where r: "ApplyFeedSnapshot ''alpha'' (sample_snapshot []) 2 (2000 * second) sample_store = (Inr res, d')"
      "feeds_ok d'"
      "row_at entry_key (feed_entries d') (entry_key sample_entry) =
      (if fst (entry_key sample_entry) \<noteq> f_id sample_feed then row_at entry_key (feed_entries sample_store) (entry_key sample_entry)
       else case find (\<lambda>e. key_of (f_id sample_feed) e = entry_key sample_entry) (fs_Entries (sample_snapshot [])) of
         Some e \<Rightarrow> Some (seen_row (f_id sample_feed) (2000 * second) e (row_at entry_key (feed_entries sample_store) (entry_key sample_entry)))
       | None \<Rightarrow> map_option (aged_row 2) (row_at entry_key (feed_entries sample_store) (entry_key sample_entry)))"
    using ApplyFeedSnapshot_correct [OF sample_store_ok sample_name_valid sample_time sample_valid_2 sample_select] by blast
  ultimately show ?thesis by simp
qed

lemma sample_miss:
  "\<exists>d'. apply_snapshots ''alpha'' 1 sample_store [(sample_snapshot [], 2000 * second)] = Some d'"
  using ApplyFeedSnapshot_total [OF sample_store_ok sample_name_valid sample_time sample_snapshot_valid sample_select, of 1]
  by auto

theorem feed_entry_grace_witness:
  "\<exists>d' r'. apply_snapshots ''alpha'' 1 sample_store [(sample_snapshot [], 2000 * second)] = Some d' \<and>
     row_at entry_key (feed_entries d') (entry_key sample_entry) = Some r' \<and> \<not> e_active r'"
proof -
  obtain d' where d': "apply_snapshots ''alpha'' 1 sample_store [(sample_snapshot [], 2000 * second)] = Some d'"
    using sample_miss by blast
  have "\<exists>r'. row_at entry_key (feed_entries d') (entry_key sample_entry) = Some r' \<and>
      (e_active r' \<longleftrightarrow> int (length [(sample_snapshot [], 2000 * second)]) < 1)"
    by (rule feed_entry_grace [OF sample_store_ok sample_select _ _ _ _ _ d', where r = sample_entry])
      (simp_all add: entry_key_def sample_entry_def sample_feed_def sample_store_def row_at_Cons sample_snapshot_def)
  with d' show ?thesis by auto
qed

theorem EnsureFeeds_correct_witness:
  "\<exists>records d'. EnsureFeeds sample_definitions (2000 * second) empty_db = (Inr records, d') \<and>
     map frec_Name records = [''alpha''] \<and> feeds_ok d'"
proof -
  have "feeds_ok empty_db" by (simp add: feeds_ok_def empty_db_def)
  moreover have "definitions_valid [] sample_definitions" "sample_definitions \<noteq> []"
    by (simp_all add: sample_definitions_def validFeedDefinition_def)
  ultimately show ?thesis
    using EnsureFeeds_correct [of empty_db sample_definitions "2000 * second"]
    by (fastforce simp: sample_definitions_def)
qed

theorem ListActiveEntries_correct_witness:
  "\<exists>es. ListActiveEntries sample_store = Inr es \<and> (\<forall>x \<in> set es. fst (IsSafePrefix (ent_Prefix (se_Entry x))))"
  using ListActiveEntries_correct [OF sample_store_ok] by blast

theorem RecordFeedFailure_keeps_last_good_witness:
  "\<exists>d'. RecordFeedFailure ''alpha'' ''timeout'' (2000 * second) (2000 * second) sample_store = (Inr (), d') \<and>
     feed_entries d' = [sample_entry]"
proof -
  obtain res d' where r: "RecordFeedFailure ''alpha'' ''timeout'' (2000 * second) (2000 * second) sample_store = (res, d')"
    by fastforce
  have c: "stateCategory ''timeout''" by (simp add: stateCategory_def is_lower_def is_digit_def code_def)
  from RecordFeedFailure_keeps_last_good [OF sample_store_ok sample_name_valid c sample_time order_refl r] r
  show ?thesis by (auto simp: sample_store_def [THEN arg_cong, of feed_entries])
qed

end
