(* ===== verification/Store_Enforcement.thy ===== *)
theory Store_Enforcement
  imports Store_Feeds
begin

text \<open>
  \<^verbatim>\<open>enforcement_repository.go\<close>: the enforcement objects and their sources, and the journal of
  operations against the LAPI with the alerts and decisions each one produced. An operation is
  \<^verbatim>\<open>pending\<close>, then \<^verbatim>\<open>verified\<close> once its decisions are recorded and \<^verbatim>\<open>completed\<close> when the rows it
  replaces are retired; \<^verbatim>\<open>ambiguous\<close> and \<^verbatim>\<open>failed\<close> are reached from an open operation only.
\<close>

subsection \<open>Definitions: records\<close>

record EnforcementRecord =
  er_ID :: int
  er_Prefix :: netip_prefix
  er_Scope :: Scope
  er_Desired :: bool
  er_Suppression :: Suppression
  er_PrimaryFeedID :: "int option"
  er_Sources :: "Contributor list"

record OperationItem =
  it_ObjectID :: int
  it_OldDecisionRowID :: "int option"

record Operation =
  opn_Token :: string
  opn_Kind :: OperationKind
  opn_FeedID :: int
  opn_FeedName :: string
  opn_Duration :: duration
  opn_PayloadHash :: string
  opn_Status :: OperationStatus
  opn_Items :: "OperationItem list"
  opn_StartedAt :: gotime
  opn_CompletedAt :: "gotime option"

record VerifiedDecision =
  vd_ObjectID :: int
  vd_DecisionID :: int
  vd_Origin :: string
  vd_Scenario :: string
  vd_Scope :: Scope
  vd_Value :: string
  vd_ExpiresAt :: gotime

record VerifiedAlert =
  va_AlertID :: int
  va_MachineID :: string
  va_Origin :: string
  va_Scenario :: string
  va_Decisions :: "VerifiedDecision list"

record DecisionRecord =
  dr_ID :: int
  dr_ObjectID :: int
  dr_AlertID :: int
  dr_DecisionID :: int
  dr_OperationToken :: string
  dr_MachineID :: string
  dr_Origin :: string
  dr_Scenario :: string
  dr_Scope :: Scope
  dr_Value :: string
  dr_CreatedAt :: gotime
  dr_ExpiresAt :: gotime
  dr_VerifiedAt :: gotime
  dr_Status :: DecisionStatus
  dr_ReplacedByID :: "int option"

subsection \<open>Definitions: the enforcement plan\<close>

definition source_valid :: "Contributor \<Rightarrow> bool" where
  "source_valid c =
     (\<not> (ctb_FeedID c \<le> 0 \<or> \<not> stateFeedName (ctb_FeedName c) \<or> (ctb_Kind c \<noteq> KindIP \<and> ctb_Kind c \<noteq> KindRange)))"

definition validateEnforcementObject :: "Object \<Rightarrow> bool" where
  "validateEnforcementObject ob =
     (let prefix = Masked (obj_Prefix ob) in
      if \<not> fst (IsSafePrefix prefix) \<or> prefix \<noteq> obj_Prefix ob \<or> length (obj_Contributors ob) = 0 then False
      else if obj_Scope ob = ScopeIP \<and> Bits prefix \<noteq> int (BitLen (pfx_ip prefix)) then False
      else if obj_Desired ob \<noteq> (obj_Suppression ob = SuppressedNone) then False
      else if \<not> list_all source_valid (obj_Contributors ob) then False
      else list_ex (\<lambda>source. ctb_FeedID source = ctb_FeedID (obj_Primary ob) \<and>
             ctb_Kind source = ctb_Kind (obj_Primary ob)) (obj_Contributors ob))"

fun plan_valid :: "netip_prefix list \<Rightarrow> Object list \<Rightarrow> bool" where
  "plan_valid seen [] = True"
| "plan_valid seen (ob # obs) =
     (if \<not> validateEnforcementObject ob then False
      else if obj_Prefix ob \<in> set seen then False
      else plan_valid (obj_Prefix ob # seen) obs)"

text \<open>\<^verbatim>\<open>INSERT INTO enforcement_sources\<close> for the contributors, with the foreign key to the feeds and
  the primary key of the table.\<close>

fun insert_sources :: "int list \<Rightarrow> int \<Rightarrow> Contributor list \<Rightarrow> source_row list \<Rightarrow> (ErrorCategory, source_row list) result" where
  "insert_sources feedIDs objectID [] rows = Inr rows"
| "insert_sources feedIDs objectID (c # cs) rows =
     (let row = \<lparr>s_object_id = objectID, s_feed_id = ctb_FeedID c, s_source_kind = int (kind_num (ctb_Kind c))\<rparr> in
      if ctb_FeedID c \<notin> set feedIDs \<or> row \<in> set rows then Inl ErrQuery
      else insert_sources feedIDs objectID cs (rows @ [row]))"

definition upsert_object :: "gotime \<Rightarrow> object_row list \<Rightarrow> Object \<Rightarrow> object_row list" where
  "upsert_object now rows ob =
     upsert o_prefix (prefix_String (obj_Prefix ob))
       (\<lambda>r. r\<lparr>o_family := addr_family (obj_Prefix ob), o_prefix_bits := Bits (obj_Prefix ob),
             o_scope := obj_Scope ob, o_desired := obj_Desired ob, o_suppression := obj_Suppression ob,
             o_primary_feed_id := Some (ctb_FeedID (obj_Primary ob)), o_updated_at := unix now\<rparr>)
       \<lparr>o_id = next_rowid (map o_id rows), o_prefix = prefix_String (obj_Prefix ob),
        o_family = addr_family (obj_Prefix ob), o_prefix_bits = Bits (obj_Prefix ob),
        o_scope = obj_Scope ob, o_desired = obj_Desired ob, o_suppression = obj_Suppression ob,
        o_primary_feed_id = Some (ctb_FeedID (obj_Primary ob)), o_created_at = unix now,
        o_updated_at = unix now\<rparr> rows"

definition plan_step :: "gotime \<Rightarrow> Object \<Rightarrow> db \<Rightarrow> (ErrorCategory, db) result" where
  "plan_step now ob d =
     (let feedIDs = map f_id (feeds d); objects = upsert_object now (enforcement_objects d) ob in
      if ctb_FeedID (obj_Primary ob) \<notin> set feedIDs then Inl ErrQuery
      else (case find (\<lambda>r. o_prefix r = prefix_String (obj_Prefix ob)) objects of
          None \<Rightarrow> Inl ErrQuery
        | Some r \<Rightarrow>
            (case insert_sources feedIDs (o_id r) (obj_Contributors ob)
                (delete_where (\<lambda>x. s_object_id x = o_id r) (enforcement_sources d)) of
               Inl e \<Rightarrow> Inl e
             | Inr sources \<Rightarrow> Inr (d\<lparr>enforcement_objects := objects, enforcement_sources := sources\<rparr>))))"

fun plan_steps :: "gotime \<Rightarrow> Object list \<Rightarrow> db \<Rightarrow> (ErrorCategory, db) result" where
  "plan_steps now [] d = Inr d"
| "plan_steps now (ob # obs) d =
     (case plan_step now ob d of Inl e \<Rightarrow> Inl e | Inr d' \<Rightarrow> plan_steps now obs d')"

subsection \<open>Definitions: reading objects\<close>

definition object_order :: "object_row \<Rightarrow> object_row \<Rightarrow> int" where
  "object_order a b =
     cmp_then (cmp_Compare (o_family a) (o_family b))
     (cmp_then (cmp_Compare (o_prefix_bits a) (o_prefix_bits b)) (cmp_Compare (o_prefix a) (o_prefix b)))"

definition scan_object :: "object_row \<Rightarrow> (ErrorCategory, EnforcementRecord) result" where
  "scan_object r =
     (case NormalizePrefix (o_prefix r) of
        Inl _ \<Rightarrow> Inl ErrIntegrity
      | Inr prefix \<Rightarrow>
          if Bits prefix \<noteq> o_prefix_bits r \<or> (o_family r = 4) \<noteq> Is4 (pfx_ip prefix) then Inl ErrIntegrity
          else Inr \<lparr>er_ID = o_id r, er_Prefix = prefix, er_Scope = o_scope r, er_Desired = o_desired r,
                    er_Suppression = o_suppression r, er_PrimaryFeedID = o_primary_feed_id r, er_Sources = []\<rparr>)"

definition join_sources :: "db \<Rightarrow> int \<Rightarrow> (feed_row \<times> source_row) list" where
  "join_sources d objectID =
     sort_cmp (\<lambda>a b. cmp_then (cmp_Compare (f_name (fst a)) (f_name (fst b)))
         (cmp_Compare (s_source_kind (snd a)) (s_source_kind (snd b))))
       [(f, s). s \<leftarrow> enforcement_sources d, s_object_id s = objectID, f \<leftarrow> feeds d, f_id f = s_feed_id s]"

definition scan_source :: "feed_row \<times> source_row \<Rightarrow> (ErrorCategory, Contributor) result" where
  "scan_source fs = (case fs of (f, s) \<Rightarrow>
     (case checkedNetworkKind (s_source_kind s) of
        Inl e \<Rightarrow> Inl e
      | Inr kind \<Rightarrow> Inr \<lparr>ctb_FeedID = f_id f, ctb_FeedName = f_name f, ctb_FeedOrder = 0, ctb_Kind = kind\<rparr>))"

definition ListEnforcementObjects :: "db \<Rightarrow> (ErrorCategory, EnforcementRecord list) result" where
  "ListEnforcementObjects d =
     (case scan_rows scan_object (sort_cmp object_order (enforcement_objects d)) of
        Inl e \<Rightarrow> Inl e
      | Inr records \<Rightarrow>
          scan_rows (\<lambda>record. case scan_rows scan_source (join_sources d (er_ID record)) of
              Inl e \<Rightarrow> Inl e
            | Inr sources \<Rightarrow> Inr (record\<lparr>er_Sources := sources\<rparr>)) records)"

definition stale_objects :: "gotime \<Rightarrow> db \<Rightarrow> db" where
  "stale_objects now d =
     d\<lparr>enforcement_objects := update_where (\<lambda>_. True)
       (\<lambda>r. r\<lparr>o_desired := False, o_suppression := SuppressionStale, o_primary_feed_id := None,
             o_updated_at := unix now\<rparr>) (enforcement_objects d)\<rparr>"

definition ApplyEnforcementPlan :: "Object list \<Rightarrow> gotime \<Rightarrow> db \<Rightarrow> EnforcementRecord list db_result" where
  "ApplyEnforcementPlan objects now d =
     (if IsZero now then (Inl ErrConstraint, d)
      else if \<not> plan_valid [] objects then (Inl ErrConstraint, d)
      else (case plan_steps now objects (stale_objects now d) of
          Inl e \<Rightarrow> (Inl e, d)
        | Inr d' \<Rightarrow> (ListEnforcementObjects d', d')))"

subsection \<open>Definitions: operations\<close>

fun items_valid :: "OperationKind \<Rightarrow> int list \<Rightarrow> OperationItem list \<Rightarrow> bool" where
  "items_valid kind seen [] = True"
| "items_valid kind seen (item # items) =
     (if it_ObjectID item \<le> 0 then False
      else if it_ObjectID item \<in> set seen then False
      else if kind = OperationCreate \<and> it_OldDecisionRowID item \<noteq> None then False
      else if kind = OperationRefresh \<and> it_OldDecisionRowID item = None then False
      else items_valid kind (it_ObjectID item # seen) items)"

definition validOperation :: "Operation \<Rightarrow> bool" where
  "validOperation operation =
     (if \<not> stateOperationToken (opn_Token operation)
         \<or> \<not> opn_Kind operation \<in> {OperationCreate, OperationRefresh, OperationExpire, OperationRecover}
         \<or> opn_FeedID operation \<le> 0 \<or> opn_Duration operation < second \<or> opn_Duration operation > 7 * 24 * hour
         \<or> \<not> validHash (opn_PayloadHash operation) \<or> length (opn_Items operation) = 0 \<or> IsZero (opn_StartedAt operation)
      then False
      else items_valid (opn_Kind operation) [] (opn_Items operation))"

definition item_allowed :: "db \<Rightarrow> int \<Rightarrow> OperationItem \<Rightarrow> bool" where
  "item_allowed d feedID item =
     ((case find (\<lambda>r. o_id r = it_ObjectID item) (enforcement_objects d) of
         None \<Rightarrow> False
       | Some r \<Rightarrow> o_primary_feed_id r = Some feedID) \<and>
      (case it_OldDecisionRowID item of
         None \<Rightarrow> True
       | Some old \<Rightarrow>
           (case find (\<lambda>r. d_id r = old) (lapi_decisions d) of
              None \<Rightarrow> False
            | Some r \<Rightarrow> d_object_id r = it_ObjectID item \<and> d_status r = DecisionActive)))"

fun insert_items :: "string \<Rightarrow> OperationItem list \<Rightarrow> item_row list \<Rightarrow> (ErrorCategory, item_row list) result" where
  "insert_items token [] rows = Inr rows"
| "insert_items token (item # items) rows =
     (if \<exists>r \<in> set rows. i_operation_token r = token \<and> i_object_id r = it_ObjectID item then Inl ErrQuery
      else insert_items token items
        (rows @ [\<lparr>i_operation_token = token, i_object_id = it_ObjectID item,
                  i_old_decision_row_id = it_OldDecisionRowID item\<rparr>]))"

definition pending_row :: "Operation \<Rightarrow> operation_row" where
  "pending_row operation =
     \<lparr>op_token = opn_Token operation, op_kind = opn_Kind operation, op_feed_id = opn_FeedID operation,
      op_duration_seconds = opn_Duration operation div second,
      op_payload_hash = opn_PayloadHash operation, op_status = OperationPending,
      op_started_at = unix (opn_StartedAt operation), op_completed_at = None, op_error_category = []\<rparr>"

definition BeginOperation :: "Operation \<Rightarrow> db \<Rightarrow> unit db_result" where
  "BeginOperation operation d =
     (if \<not> validOperation operation then (Inl ErrConstraint, d)
      else if length (filter (\<lambda>f. f_id f = opn_FeedID operation) (feeds d)) \<noteq> 1 then (Inl ErrConstraint, d)
      else if \<not> list_all (item_allowed d (opn_FeedID operation)) (opn_Items operation) then (Inl ErrConstraint, d)
      else if opn_Token operation \<in> op_token ` set (lapi_operations d) then (Inl ErrQuery, d)
      else (case insert_items (opn_Token operation) (opn_Items operation) (lapi_operation_items d) of
          Inl e \<Rightarrow> (Inl e, d)
        | Inr items \<Rightarrow>
            (Inr (),
             d\<lparr>lapi_operations := lapi_operations d @ [pending_row operation],
               lapi_operation_items := items\<rparr>)))"

definition select_items :: "db \<Rightarrow> string \<Rightarrow> item_row list" where
  "select_items d token =
     sort_cmp (\<lambda>a b. cmp_Compare (i_object_id a) (i_object_id b))
       (filter (\<lambda>r. i_operation_token r = token) (lapi_operation_items d))"

definition scan_operation :: "db \<Rightarrow> operation_row \<times> feed_row \<Rightarrow> Operation" where
  "scan_operation d of' = (case of' of (r, f) \<Rightarrow>
     \<lparr>opn_Token = op_token r, opn_Kind = op_kind r, opn_FeedID = op_feed_id r, opn_FeedName = f_name f,
      opn_Duration = wrap64 (op_duration_seconds r * second), opn_PayloadHash = op_payload_hash r,
      opn_Status = op_status r,
      opn_Items = map (\<lambda>i. \<lparr>it_ObjectID = i_object_id i, it_OldDecisionRowID = i_old_decision_row_id i\<rparr>)
        (select_items d (op_token r)),
      opn_StartedAt = time_Unix (op_started_at r),
      opn_CompletedAt = map_option time_Unix (op_completed_at r)\<rparr>)"

definition OpenOperations :: "db \<Rightarrow> (ErrorCategory, Operation list) result" where
  "OpenOperations d =
     Inr (map (scan_operation d)
       (sort_cmp (\<lambda>a b. cmp_then (cmp_Compare (op_started_at (fst a)) (op_started_at (fst b)))
           (cmp_Compare (op_token (fst a)) (op_token (fst b))))
         [(r, f). r \<leftarrow> lapi_operations d,
            op_status r \<in> {OperationPending, OperationVerified, OperationAmbiguous},
            f \<leftarrow> feeds d, f_id f = op_feed_id r]))"

definition expectedObjectValue :: "netip_prefix \<Rightarrow> Scope \<Rightarrow> string" where
  "expectedObjectValue prefix scope =
     (if scope = ScopeIP then addr_String (pfx_ip prefix) else prefix_String prefix)"

text \<open>\<^verbatim>\<open>decisionSelect\<close> and \<^verbatim>\<open>scanDecision\<close>: a decision joined with its alert.\<close>

definition scanDecision :: "decision_row \<times> alert_row \<Rightarrow> DecisionRecord" where
  "scanDecision da = (case da of (r, a) \<Rightarrow>
     \<lparr>dr_ID = d_id r, dr_ObjectID = d_object_id r, dr_AlertID = a_alert_id a,
      dr_DecisionID = d_decision_id r, dr_OperationToken = a_operation_token a,
      dr_MachineID = a_machine_id a, dr_Origin = d_origin r, dr_Scenario = d_scenario r,
      dr_Scope = d_scope r, dr_Value = d_value r, dr_CreatedAt = time_Unix (d_created_at r),
      dr_ExpiresAt = time_Unix (d_expires_at r), dr_VerifiedAt = time_Unix (d_verified_at r),
      dr_Status = d_status r, dr_ReplacedByID = d_replaced_by_id r\<rparr>)"

definition decisionSelect :: "db \<Rightarrow> (decision_row \<times> alert_row) list" where
  "decisionSelect d = [(r, a). r \<leftarrow> lapi_decisions d, a \<leftarrow> lapi_alerts d, a_id a = d_alert_row_id r]"

definition queryOperationDecisions :: "db \<Rightarrow> string \<Rightarrow> DecisionRecord list" where
  "queryOperationDecisions d token =
     map scanDecision (sort_cmp (\<lambda>a b. cmp_Compare (d_object_id (fst a)) (d_object_id (fst b)))
       (filter (\<lambda>(r, a). a_operation_token a = token) (decisionSelect d)))"

record expectedItem =
  xi_prefix :: netip_prefix
  xi_scope :: Scope
  xi_old :: "int option"

definition scan_expected :: "item_row \<times> object_row \<Rightarrow> (ErrorCategory, int \<times> expectedItem) result" where
  "scan_expected io = (case io of (i, r) \<Rightarrow>
     (case NormalizePrefix (o_prefix r) of
        Inl _ \<Rightarrow> Inl ErrIntegrity
      | Inr prefix \<Rightarrow>
          Inr (i_object_id i, \<lparr>xi_prefix = prefix, xi_scope = o_scope r, xi_old = i_old_decision_row_id i\<rparr>)))"

definition join_items :: "db \<Rightarrow> string \<Rightarrow> (item_row \<times> object_row) list" where
  "join_items d token =
     [(i, r). i \<leftarrow> select_items d token, r \<leftarrow> enforcement_objects d, o_id r = i_object_id i]"

text \<open>The loop that checks the decisions of a verified alert against the journal.\<close>

fun decisions_valid ::
  "(int \<rightharpoonup> expectedItem) \<Rightarrow> string \<Rightarrow> gotime \<Rightarrow> int \<Rightarrow> int list \<Rightarrow> int list \<Rightarrow> VerifiedDecision list \<Rightarrow> bool" where
  "decisions_valid expected scenario now durationSeconds seenObjects seenDecisions [] = True"
| "decisions_valid expected scenario now durationSeconds seenObjects seenDecisions (dec # ds) =
     (case expected (vd_ObjectID dec) of
        None \<Rightarrow> False
      | Some item \<Rightarrow>
          if vd_DecisionID dec \<le> 0 \<or> vd_Origin dec \<noteq> ''crowdshield'' \<or> vd_Scenario dec \<noteq> scenario
             \<or> vd_Scope dec \<noteq> xi_scope item \<or> vd_Value dec \<noteq> expectedObjectValue (xi_prefix item) (xi_scope item)
             \<or> \<not> vd_ExpiresAt dec > now
             \<or> vd_ExpiresAt dec > now + wrap64 (durationSeconds * second + 10 * minute)
          then False
          else if vd_ObjectID dec \<in> set seenObjects then False
          else if vd_DecisionID dec \<in> set seenDecisions then False
          else decisions_valid expected scenario now durationSeconds
                 (vd_ObjectID dec # seenObjects) (vd_DecisionID dec # seenDecisions) ds)"

text \<open>\<^verbatim>\<open>INSERT INTO lapi_decisions\<close> for each decision; the column \<^verbatim>\<open>decision_id\<close> is unique.\<close>

fun insert_decisions ::
  "int \<Rightarrow> gotime \<Rightarrow> VerifiedDecision list \<Rightarrow> decision_row list \<Rightarrow> (int \<times> int) list
   \<Rightarrow> (ErrorCategory, decision_row list \<times> (int \<times> int) list) result" where
  "insert_decisions alertRowID now [] rows newRows = Inr (rows, newRows)"
| "insert_decisions alertRowID now (dec # ds) rows newRows =
     (if vd_DecisionID dec \<in> d_decision_id ` set rows then Inl ErrQuery
      else
        let rowID = next_rowid (map d_id rows) in
        insert_decisions alertRowID now ds
          (rows @ [\<lparr>d_id = rowID, d_object_id = vd_ObjectID dec, d_alert_row_id = alertRowID,
                    d_decision_id = vd_DecisionID dec, d_origin = vd_Origin dec,
                    d_scenario = vd_Scenario dec, d_scope = vd_Scope dec, d_value = vd_Value dec,
                    d_created_at = unix now, d_expires_at = unix (vd_ExpiresAt dec),
                    d_verified_at = unix now, d_status = DecisionActive, d_replaced_by_id = None\<rparr>])
          (newRows @ [(vd_ObjectID dec, rowID)]))"

text \<open>The loop over the expected items that retires the decisions they replace. An index of a Go
  map that is absent reads as zero.\<close>

fun retire_replaced ::
  "(int \<times> expectedItem) list \<Rightarrow> (int \<rightharpoonup> int) \<Rightarrow> decision_row list \<Rightarrow> (ErrorCategory, decision_row list) result" where
  "retire_replaced [] newRows rows = Inr rows"
| "retire_replaced ((objectID, item) # items) newRows rows =
     (case xi_old item of
        None \<Rightarrow> retire_replaced items newRows rows
      | Some old \<Rightarrow>
          let P = (\<lambda>r. d_id r = old \<and> d_object_id r = objectID \<and> d_status r = DecisionActive) in
          if rows_affected P rows \<noteq> 1 then Inl ErrConstraint
          else retire_replaced items newRows
            (update_where P (\<lambda>r. r\<lparr>d_status := DecisionExpiring,
               d_replaced_by_id := Some (case newRows objectID of None \<Rightarrow> 0 | Some n \<Rightarrow> n)\<rparr>) rows))"

text \<open>What follows the checks: the alert, its decisions, the retired rows and the new status.\<close>

definition store_verified ::
  "string \<Rightarrow> VerifiedAlert \<Rightarrow> gotime \<Rightarrow> (int \<times> expectedItem) list \<Rightarrow> db \<Rightarrow> DecisionRecord list db_result" where
  "store_verified token alert now expected d =
     (if va_AlertID alert \<in> a_alert_id ` set (lapi_alerts d) \<or> token \<in> a_operation_token ` set (lapi_alerts d)
      then (Inl ErrQuery, d)
      else
        let alertRowID = next_rowid (map a_id (lapi_alerts d));
            alerts = lapi_alerts d @
              [\<lparr>a_id = alertRowID, a_alert_id = va_AlertID alert, a_operation_token = token,
                a_machine_id = va_MachineID alert, a_origin = va_Origin alert,
                a_scenario = va_Scenario alert, a_verified_at = unix now, a_created_at = unix now\<rparr>]
        in (case insert_decisions alertRowID now (va_Decisions alert) (lapi_decisions d) [] of
            Inl e \<Rightarrow> (Inl e, d)
          | Inr (rows, newRows) \<Rightarrow>
              (case retire_replaced expected (map_of newRows) rows of
                 Inl e \<Rightarrow> (Inl e, d)
               | Inr rows' \<Rightarrow>
                   let d' = d\<lparr>lapi_alerts := alerts, lapi_decisions := rows',
                        lapi_operations := update_where (\<lambda>r. op_token r = token)
                          (\<lambda>r. r\<lparr>op_status := OperationVerified\<rparr>) (lapi_operations d)\<rparr>
                   in (Inr (queryOperationDecisions d' token), d'))))"

definition RecordVerifiedOperation ::
  "string \<Rightarrow> VerifiedAlert \<Rightarrow> gotime \<Rightarrow> db \<Rightarrow> DecisionRecord list db_result" where
  "RecordVerifiedOperation token alert now d =
     (if \<not> stateOperationToken token \<or> IsZero now \<or> va_AlertID alert \<le> 0 \<or> va_Origin alert \<noteq> ''crowdshield''
         \<or> \<not> validBoundedText (va_MachineID alert) 1 128
      then (Inl ErrConstraint, d)
      else case find (\<lambda>(r, f). op_token r = token)
             [(r, f). r \<leftarrow> lapi_operations d, f \<leftarrow> feeds d, f_id f = op_feed_id r] of
        None \<Rightarrow> (Inl ErrNotFound, d)
      | Some (r, f) \<Rightarrow>
          if op_status r = OperationVerified \<or> op_status r = OperationCompleted then
            (let records = queryOperationDecisions d token in
             if records = [] then (Inl ErrIntegrity, d) else (Inr records, d))
          else if op_status r \<noteq> OperationPending \<and> op_status r \<noteq> OperationAmbiguous then (Inl ErrConstraint, d)
          else
            let expectedScenario = ''crowdshield/'' @ f_name f in
            if va_Scenario alert \<noteq> expectedScenario \<or> length (va_Decisions alert) = 0 then (Inl ErrConstraint, d)
            else (case scan_rows scan_expected (join_items d token) of
                Inl e \<Rightarrow> (Inl e, d)
              | Inr expected \<Rightarrow>
                  if length (remdups (map fst expected)) \<noteq> length (va_Decisions alert) then (Inl ErrConstraint, d)
                  else if \<not> decisions_valid (map_of expected) expectedScenario now (op_duration_seconds r)
                              [] [] (va_Decisions alert)
                  then (Inl ErrConstraint, d)
                  else store_verified token alert now expected d))"

definition CompleteOperation :: "string \<Rightarrow> gotime \<Rightarrow> db \<Rightarrow> unit db_result" where
  "CompleteOperation token now d =
     (if \<not> stateOperationToken token \<or> IsZero now then (Inl ErrConstraint, d)
      else
        let P = (\<lambda>r. op_token r = token \<and> op_status r \<in> {OperationVerified, OperationCompleted});
            d' = d\<lparr>lapi_operations := update_where P
              (\<lambda>r. r\<lparr>op_status := OperationCompleted, op_completed_at := Some (unix now)\<rparr>) (lapi_operations d)\<rparr>
        in if rows_affected P (lapi_operations d) \<noteq> 1 then (Inl ErrConstraint, d') else (Inr (), d'))"

definition SetOperationStatus ::
  "string \<Rightarrow> OperationStatus \<Rightarrow> string \<Rightarrow> gotime \<Rightarrow> db \<Rightarrow> unit db_result" where
  "SetOperationStatus token status category now d =
     (if \<not> stateOperationToken token \<or> IsZero now
         \<or> (status \<noteq> OperationAmbiguous \<and> status \<noteq> OperationFailed)
         \<or> (category \<noteq> [] \<and> \<not> stateCategory category)
      then (Inl ErrConstraint, d)
      else
        let completed = (if status = OperationFailed then Some (unix now) else None);
            P = (\<lambda>r. op_token r = token \<and> op_status r \<in> {OperationPending, OperationAmbiguous});
            d' = d\<lparr>lapi_operations := update_where P
              (\<lambda>r. r\<lparr>op_status := status, op_completed_at := completed, op_error_category := category\<rparr>)
              (lapi_operations d)\<rparr>
        in if rows_affected P (lapi_operations d) \<noteq> 1 then (Inl ErrConstraint, d') else (Inr (), d'))"

definition DecisionsForOperation :: "string \<Rightarrow> db \<Rightarrow> (ErrorCategory, DecisionRecord list) result" where
  "DecisionsForOperation token d =
     (if \<not> stateOperationToken token then Inl ErrConstraint else Inr (queryOperationDecisions d token))"

definition decision_order :: "decision_row \<times> alert_row \<Rightarrow> decision_row \<times> alert_row \<Rightarrow> int" where
  "decision_order a b =
     cmp_then (cmp_Compare (d_object_id (fst a)) (d_object_id (fst b))) (cmp_Compare (d_id (fst a)) (d_id (fst b)))"

definition ListActiveDecisions :: "db \<Rightarrow> (ErrorCategory, DecisionRecord list) result" where
  "ListActiveDecisions d =
     Inr (map scanDecision (sort_cmp decision_order
       (filter (\<lambda>(r, a). d_status r = DecisionActive) (decisionSelect d))))"

definition ListLiveDecisions :: "db \<Rightarrow> (ErrorCategory, DecisionRecord list) result" where
  "ListLiveDecisions d =
     Inr (map scanDecision (sort_cmp decision_order
       (filter (\<lambda>(r, a). d_status r \<in> {DecisionActive, DecisionExpiring}) (decisionSelect d))))"

definition DecisionByRowID :: "int \<Rightarrow> db \<Rightarrow> (ErrorCategory, DecisionRecord) result" where
  "DecisionByRowID rowID d =
     (if rowID \<le> 0 then Inl ErrConstraint
      else case find (\<lambda>(r, a). d_id r = rowID) (decisionSelect d) of
        None \<Rightarrow> Inl ErrNotFound
      | Some da \<Rightarrow> Inr (scanDecision da))"

definition MarkDecisionExpired :: "int \<Rightarrow> gotime \<Rightarrow> db \<Rightarrow> unit db_result" where
  "MarkDecisionExpired rowID now d =
     (if rowID \<le> 0 \<or> IsZero now then (Inl ErrConstraint, d)
      else
        let P = (\<lambda>r. d_id r = rowID \<and> d_status r \<in> {DecisionActive, DecisionExpiring});
            d' = d\<lparr>lapi_decisions := update_where P
              (\<lambda>r. r\<lparr>d_status := DecisionExpired, d_verified_at := unix now\<rparr>) (lapi_decisions d)\<rparr>
        in if rows_affected P (lapi_decisions d) \<noteq> 1 then (Inl ErrConstraint, d') else (Inr (), d'))"

subsection \<open>Facts: the invariant of objects and sources\<close>

definition object_row_of :: "netip_prefix \<Rightarrow> object_row \<Rightarrow> bool" where
  "object_row_of p r \<longleftrightarrow> fst (IsSafePrefix p) \<and> o_prefix r = prefix_String p \<and> o_prefix_bits r = Bits p \<and>
     o_family r = addr_family p \<and> (o_scope r = ScopeIP \<longrightarrow> Bits p = int (BitLen (pfx_ip p)))"

definition object_row_ok :: "object_row \<Rightarrow> bool" where
  "object_row_ok r \<longleftrightarrow> 0 < o_id r \<and> (\<exists>p. object_row_of p r)"

definition objects_ok :: "db \<Rightarrow> bool" where
  "objects_ok d \<longleftrightarrow> distinct (map o_id (enforcement_objects d)) \<and> distinct (map o_prefix (enforcement_objects d)) \<and>
     (\<forall>r \<in> set (enforcement_objects d). object_row_ok r \<and>
        (\<forall>i. o_primary_feed_id r = Some i \<longrightarrow> i \<in> f_id ` set (feeds d))) \<and>
     (\<forall>s \<in> set (enforcement_sources d). (s_source_kind s = 1 \<or> s_source_kind s = 2) \<and>
        s_feed_id s \<in> f_id ` set (feeds d) \<and> s_object_id s \<in> o_id ` set (enforcement_objects d))"

definition object_prefix :: "object_row \<Rightarrow> netip_prefix" where
  "object_prefix r = (case NormalizePrefix (o_prefix r) of Inr p \<Rightarrow> p | Inl _ \<Rightarrow> zero_prefix)"

lemma object_row_of_prefix: "object_row_of p r \<Longrightarrow> object_prefix r = p"
  by (auto simp: object_row_of_def object_prefix_def NormalizePrefix_safe)

lemma object_row_ok_prefix: "object_row_ok r \<Longrightarrow> object_row_of (object_prefix r) r"
  using object_row_of_prefix by (auto simp: object_row_ok_def)

definition object_view :: "object_row \<Rightarrow> EnforcementRecord" where
  "object_view r =
     \<lparr>er_ID = o_id r, er_Prefix = object_prefix r, er_Scope = o_scope r, er_Desired = o_desired r,
      er_Suppression = o_suppression r, er_PrimaryFeedID = o_primary_feed_id r, er_Sources = []\<rparr>"

definition source_view :: "feed_row \<times> source_row \<Rightarrow> Contributor" where
  "source_view fs = \<lparr>ctb_FeedID = f_id (fst fs), ctb_FeedName = f_name (fst fs), ctb_FeedOrder = 0,
     ctb_Kind = (if s_source_kind (snd fs) = 1 then KindIP else KindRange)\<rparr>"

interpretation object_scan: row_scanner object_row_ok scan_object object_view
proof
  fix r
  assume "object_row_ok r"
  from object_row_ok_prefix [OF this] show "scan_object r = Inr (object_view r)"
    by (auto simp: scan_object_def object_view_def object_row_of_def NormalizePrefix_safe addr_family_def)
qed

interpretation source_scan: row_scanner
  "\<lambda>fs :: feed_row \<times> source_row. s_source_kind (snd fs) = 1 \<or> s_source_kind (snd fs) = 2" scan_source source_view
  by unfold_locales (auto simp: scan_source_def source_view_def checkedNetworkKind_def)

lemma ListEnforcementObjects_total:
  assumes "objects_ok d"
  shows "ListEnforcementObjects d =
    Inr (map (\<lambda>r. (object_view r)\<lparr>er_Sources := map source_view (join_sources d (o_id r))\<rparr>)
      (sort_cmp object_order (enforcement_objects d)))"
proof -
  have "\<forall>r \<in> set (sort_cmp object_order (enforcement_objects d)). object_row_ok r"
    using assms by (simp add: objects_ok_def)
  note 1 = object_scan.scan_all [OF this]
  have 2: "scan_rows scan_source (join_sources d i) = Inr (map source_view (join_sources d i))" for i
    using assms by (intro source_scan.scan_all) (auto simp: objects_ok_def join_sources_def)
  have "scan_rows (\<lambda>record. case scan_rows scan_source (join_sources d (er_ID record)) of
              Inl e \<Rightarrow> Inl e | Inr sources \<Rightarrow> Inr (record\<lparr>er_Sources := sources\<rparr>)) rs =
      Inr (map (\<lambda>record. record\<lparr>er_Sources := map source_view (join_sources d (er_ID record))\<rparr>) rs)" for rs :: "EnforcementRecord list"
    by (rule scan_rows_Inr) (simp add: 2)
  with 1 show ?thesis by (simp add: ListEnforcementObjects_def comp_def object_view_def)
qed

subsection \<open>Facts: the enforcement plan\<close>

type_synonym object_fields = "string \<times> int \<times> int \<times> Scope \<times> bool \<times> Suppression \<times> int option"

definition row_fields :: "object_row \<Rightarrow> object_fields" where
  "row_fields r = (o_prefix r, o_family r, o_prefix_bits r, o_scope r, o_desired r, o_suppression r, o_primary_feed_id r)"

definition plan_fields :: "Object \<Rightarrow> object_fields" where
  "plan_fields ob = (prefix_String (obj_Prefix ob), addr_family (obj_Prefix ob), Bits (obj_Prefix ob), obj_Scope ob,
     obj_Desired ob, obj_Suppression ob, Some (ctb_FeedID (obj_Primary ob)))"

lemma plan_valid_iff:
  "plan_valid seen obs \<longleftrightarrow> (\<forall>ob \<in> set obs. validateEnforcementObject ob) \<and> distinct (map obj_Prefix obs) \<and>
     set seen \<inter> obj_Prefix ` set obs = {}"
  by (induction obs arbitrary: seen) auto

lemma validateEnforcementObject_D:
  assumes "validateEnforcementObject ob"
  shows "fst (IsSafePrefix (obj_Prefix ob))" and "obj_Contributors ob \<noteq> []"
    and "obj_Scope ob = ScopeIP \<Longrightarrow> Bits (obj_Prefix ob) = int (BitLen (pfx_ip (obj_Prefix ob)))"
    and "obj_Desired ob \<longleftrightarrow> obj_Suppression ob = SuppressedNone"
    and "\<forall>c \<in> set (obj_Contributors ob). source_valid c"
    and "\<exists>c \<in> set (obj_Contributors ob). ctb_FeedID c = ctb_FeedID (obj_Primary ob)"
  using assms by (auto simp: validateEnforcementObject_def Let_def list_all_iff list_ex_iff split: if_splits)

lemma row_at_upsert_object_fields:
  "map_option row_fields (row_at o_prefix (upsert_object now rows ob) t) =
     (if t = prefix_String (obj_Prefix ob) then Some (plan_fields ob) else map_option row_fields (row_at o_prefix rows t))"
  unfolding upsert_object_def
  by (subst row_at_upsert) (auto simp: row_fields_def plan_fields_def dest: row_at_Some_D split: option.splits)

lemma row_at_upsert_object_id:
  "row_at o_prefix rows t = Some r \<Longrightarrow> \<exists>r'. row_at o_prefix (upsert_object now rows ob) t = Some r' \<and> o_id r' = o_id r"
  unfolding upsert_object_def by (subst row_at_upsert) auto

definition object_keys_ok :: "object_row list \<Rightarrow> bool" where
  "object_keys_ok rows \<longleftrightarrow> distinct (map o_id rows) \<and> distinct (map o_prefix rows) \<and> (\<forall>i \<in> o_id ` set rows. 0 < i)"

lemma upsert_object_keys_ok:
  assumes "object_keys_ok rows"
  shows "object_keys_ok (upsert_object now rows ob) \<and> o_id ` set rows \<subseteq> o_id ` set (upsert_object now rows ob)"
proof (cases "prefix_String (obj_Prefix ob) \<in> o_prefix ` set rows")
  case True
  then show ?thesis
    using assms by (simp add: upsert_object_def upsert_def object_keys_ok_def distinct_update_where image_update_where)
next
  case False
  then show ?thesis
    using assms next_rowid_fresh [of "map o_id rows"] next_rowid_pos [of "map o_id rows"]
    by (auto simp: upsert_object_def upsert_def object_keys_ok_def simp del: next_rowid_fresh)
qed

lemma upsert_object_rows:
  assumes "r \<in> set (upsert_object now rows ob)" and "object_keys_ok rows"
  shows "r \<in> set rows \<or> row_fields r = plan_fields ob"
proof -
  have "distinct (map o_prefix (upsert_object now rows ob))"
    using upsert_object_keys_ok [OF assms(2)] by (simp add: object_keys_ok_def)
  then have at: "row_at o_prefix (upsert_object now rows ob) (o_prefix r) = Some r"
    using assms(1) by (rule row_at_mem)
  show ?thesis
  proof (cases "o_prefix r = prefix_String (obj_Prefix ob)")
    case True
    then show ?thesis using row_at_upsert_object_fields [of now rows ob "o_prefix r"] at by simp
  next
    case False
    then have "r \<noteq> \<lparr>o_id = next_rowid (map o_id rows), o_prefix = prefix_String (obj_Prefix ob),
        o_family = addr_family (obj_Prefix ob), o_prefix_bits = Bits (obj_Prefix ob),
        o_scope = obj_Scope ob, o_desired = obj_Desired ob, o_suppression = obj_Suppression ob,
        o_primary_feed_id = Some (ctb_FeedID (obj_Primary ob)), o_created_at = unix now, o_updated_at = unix now\<rparr>"
      by auto
    with False assms(1) show ?thesis
      unfolding upsert_object_def by (auto dest!: set_upsert_cases)
  qed
qed

lemma insert_sources_total:
  assumes "\<forall>c \<in> set cs. ctb_FeedID c \<in> set feedIDs" and "\<forall>r \<in> set rows. s_object_id r = i \<longrightarrow>
      (s_feed_id r, s_source_kind r) \<notin> (\<lambda>c. (ctb_FeedID c, int (kind_num (ctb_Kind c)))) ` set cs"
    and "distinct (map (\<lambda>c. (ctb_FeedID c, ctb_Kind c)) cs)"
  shows "insert_sources feedIDs i cs rows = Inr (rows @ map (\<lambda>c. \<lparr>s_object_id = i, s_feed_id = ctb_FeedID c,
    s_source_kind = int (kind_num (ctb_Kind c))\<rparr>) cs)"
  using assms
proof (induction cs arbitrary: rows)
  case (Cons c cs)
  let ?row = "\<lparr>s_object_id = i, s_feed_id = ctb_FeedID c, s_source_kind = int (kind_num (ctb_Kind c))\<rparr>"
  have new: "?row \<notin> set rows" using Cons.prems(2) by force
  have "insert_sources feedIDs i cs (rows @ [?row]) = Inr ((rows @ [?row]) @ map (\<lambda>c. \<lparr>s_object_id = i,
      s_feed_id = ctb_FeedID c, s_source_kind = int (kind_num (ctb_Kind c))\<rparr>) cs)"
    by (rule Cons.IH) (use Cons.prems in auto)
  with new Cons.prems(1) show ?case by (simp add: Let_def)
qed simp

lemma insert_sources_set:
  assumes "insert_sources feedIDs i cs rows = Inr rows'" and "r \<in> set rows'"
  shows "r \<in> set rows \<or> (\<exists>c \<in> set cs. ctb_FeedID c \<in> set feedIDs \<and>
    r = \<lparr>s_object_id = i, s_feed_id = ctb_FeedID c, s_source_kind = int (kind_num (ctb_Kind c))\<rparr>)"
  using assms
proof (induction cs arbitrary: rows)
  case (Cons c cs)
  then show ?case by (fastforce simp: Let_def split: if_splits)
qed simp

lemma plan_step_cases:
  assumes "plan_step now ob d = Inr d'"
  obtains r sources where "row_at o_prefix (upsert_object now (enforcement_objects d) ob) (prefix_String (obj_Prefix ob)) = Some r"
    and "ctb_FeedID (obj_Primary ob) \<in> f_id ` set (feeds d)"
    and "insert_sources (map f_id (feeds d)) (o_id r) (obj_Contributors ob)
           (delete_where (\<lambda>x. s_object_id x = o_id r) (enforcement_sources d)) = Inr sources"
    and "d' = d\<lparr>enforcement_objects := upsert_object now (enforcement_objects d) ob, enforcement_sources := sources\<rparr>"
  using assms by (auto simp: plan_step_def row_at_def Let_def split: if_splits option.splits sum.splits intro: that)

lemma objects_ok_alt:
  "objects_ok d \<longleftrightarrow> object_keys_ok (enforcement_objects d) \<and>
     (\<forall>r \<in> set (enforcement_objects d). (\<exists>p. object_row_of p r) \<and>
        (\<forall>i. o_primary_feed_id r = Some i \<longrightarrow> i \<in> f_id ` set (feeds d))) \<and>
     (\<forall>s \<in> set (enforcement_sources d). (s_source_kind s = 1 \<or> s_source_kind s = 2) \<and>
        s_feed_id s \<in> f_id ` set (feeds d) \<and> s_object_id s \<in> o_id ` set (enforcement_objects d))"
  by (auto simp: objects_ok_def object_keys_ok_def object_row_ok_def)

lemma row_fields_of:
  assumes "row_fields r = plan_fields ob" and "validateEnforcementObject ob"
  shows "object_row_of (obj_Prefix ob) r"
  using assms validateEnforcementObject_D(1,3) [OF assms(2)]
  by (auto simp: object_row_of_def row_fields_def plan_fields_def)

lemma plan_step_objects_ok:
  assumes ok: "objects_ok d" and st: "plan_step now ob d = Inr d'" and v: "validateEnforcementObject ob"
  shows "objects_ok d' \<and> feeds d' = feeds d"
  using st
proof (rule plan_step_cases)
  fix r sources
  assume r: "row_at o_prefix (upsert_object now (enforcement_objects d) ob) (prefix_String (obj_Prefix ob)) = Some r"
    and prim: "ctb_FeedID (obj_Primary ob) \<in> f_id ` set (feeds d)"
    and src: "insert_sources (map f_id (feeds d)) (o_id r) (obj_Contributors ob)
           (delete_where (\<lambda>x. s_object_id x = o_id r) (enforcement_sources d)) = Inr sources"
    and d': "d' = d\<lparr>enforcement_objects := upsert_object now (enforcement_objects d) ob, enforcement_sources := sources\<rparr>"
  let ?rows = "upsert_object now (enforcement_objects d) ob"
  have keys: "object_keys_ok (enforcement_objects d)" using ok by (simp add: objects_ok_alt)
  have kind: "int (kind_num (ctb_Kind c)) = 1 \<or> int (kind_num (ctb_Kind c)) = 2" if "c \<in> set (obj_Contributors ob)" for c
    using validateEnforcementObject_D(5) [OF v] that by (auto simp: source_valid_def)
  have "(\<exists>p. object_row_of p x) \<and> (\<forall>i. o_primary_feed_id x = Some i \<longrightarrow> i \<in> f_id ` set (feeds d))" if "x \<in> set ?rows" for x
    using upsert_object_rows [OF that keys] ok row_fields_of [OF _ v, of x] prim
    by (auto simp: objects_ok_alt row_fields_def plan_fields_def)
  moreover have "(s_source_kind x = 1 \<or> s_source_kind x = 2) \<and> s_feed_id x \<in> f_id ` set (feeds d) \<and>
      s_object_id x \<in> o_id ` set ?rows" if "x \<in> set sources" for x
  proof -
    note sub = upsert_object_keys_ok [OF keys, of now ob]
    from insert_sources_set [OF src that] consider "x \<in> set (enforcement_sources d)"
      | c where "c \<in> set (obj_Contributors ob)" "ctb_FeedID c \<in> f_id ` set (feeds d)"
          "x = \<lparr>s_object_id = o_id r, s_feed_id = ctb_FeedID c, s_source_kind = int (kind_num (ctb_Kind c))\<rparr>"
      by auto
    then show ?thesis
    proof cases
      case 1
      then show ?thesis using ok sub by (auto simp: objects_ok_alt)
    next
      case 2
      then show ?thesis using kind [OF 2(1)] row_at_Some_D [OF r] by simp
    qed
  qed
  ultimately show ?thesis
    using upsert_object_keys_ok [OF keys, of now ob] by (auto simp: objects_ok_alt d')
qed

lemma plan_steps_objects_ok:
  assumes "objects_ok d" and "plan_steps now obs d = Inr d'" and "\<forall>ob \<in> set obs. validateEnforcementObject ob"
  shows "objects_ok d' \<and> feeds d' = feeds d"
  using assms
proof (induction obs arbitrary: d)
  case (Cons ob obs)
  from Cons.prems(2) obtain d1 where d1: "plan_step now ob d = Inr d1" "plan_steps now obs d1 = Inr d'"
    by (auto split: sum.splits)
  have "objects_ok d1 \<and> feeds d1 = feeds d"
    using plan_step_objects_ok [OF Cons.prems(1) d1(1)] Cons.prems(3) by simp
  then show ?case using Cons.IH [OF _ d1(2)] Cons.prems(3) by simp
qed simp

lemma plan_steps_fields:
  assumes "plan_steps now obs d = Inr d'" and "distinct (map (\<lambda>ob. prefix_String (obj_Prefix ob)) obs)"
  shows "map_option row_fields (row_at o_prefix (enforcement_objects d') t) =
    (case find (\<lambda>ob. prefix_String (obj_Prefix ob) = t) obs of
       Some ob \<Rightarrow> Some (plan_fields ob)
     | None \<Rightarrow> map_option row_fields (row_at o_prefix (enforcement_objects d) t))"
  using assms
proof (induction obs arbitrary: d)
  case (Cons ob obs)
  from Cons.prems(1) obtain d1 where d1: "plan_step now ob d = Inr d1" "plan_steps now obs d1 = Inr d'"
    by (auto split: sum.splits)
  have e: "enforcement_objects d1 = upsert_object now (enforcement_objects d) ob"
    by (rule plan_step_cases [OF d1(1)]) simp
  have "find (\<lambda>x. prefix_String (obj_Prefix x) = t) obs = None" if "prefix_String (obj_Prefix ob) = t"
    using Cons.prems(2) that by (auto simp: find_None_iff image_iff)
  with Cons.IH [OF d1(2)] Cons.prems(2) show ?case
    by (auto simp: e row_at_upsert_object_fields split: option.splits)
qed simp

lemma plan_steps_ids:
  assumes "plan_steps now obs d = Inr d'" and "row_at o_prefix (enforcement_objects d) t = Some r"
  shows "\<exists>r'. row_at o_prefix (enforcement_objects d') t = Some r' \<and> o_id r' = o_id r"
  using assms
proof (induction obs arbitrary: d r)
  case (Cons ob obs)
  from Cons.prems(1) obtain d1 where d1: "plan_step now ob d = Inr d1" "plan_steps now obs d1 = Inr d'"
    by (auto split: sum.splits)
  have e: "enforcement_objects d1 = upsert_object now (enforcement_objects d) ob"
    by (rule plan_step_cases [OF d1(1)]) simp
  from row_at_upsert_object_id [OF Cons.prems(2), of now ob] Cons.IH [OF d1(2)] show ?case
    by (fastforce simp: e)
qed simp

lemma plan_step_total:
  assumes "\<forall>c \<in> set (obj_Contributors ob). ctb_FeedID c \<in> f_id ` set (feeds d)"
    and "distinct (map (\<lambda>c. (ctb_FeedID c, ctb_Kind c)) (obj_Contributors ob))"
    and "validateEnforcementObject ob"
  shows "\<exists>d'. plan_step now ob d = Inr d'"
proof -
  have prim: "ctb_FeedID (obj_Primary ob) \<in> f_id ` set (feeds d)"
    using validateEnforcementObject_D(6) [OF assms(3)] assms(1) by metis
  have "map_option row_fields (row_at o_prefix (upsert_object now (enforcement_objects d) ob) (prefix_String (obj_Prefix ob))) \<noteq> None"
    by (simp add: row_at_upsert_object_fields)
  then obtain r where r: "find (\<lambda>r. o_prefix r = prefix_String (obj_Prefix ob)) (upsert_object now (enforcement_objects d) ob) = Some r"
    by (auto simp: row_at_def)
  have "\<exists>sources. insert_sources (map f_id (feeds d)) (o_id r) (obj_Contributors ob)
      (delete_where (\<lambda>x. s_object_id x = o_id r) (enforcement_sources d)) = Inr sources"
    using assms(1,2) by (subst insert_sources_total) auto
  with prim r show ?thesis by (auto simp: plan_step_def Let_def)
qed

lemma plan_steps_total:
  assumes "\<forall>ob \<in> set obs. validateEnforcementObject ob \<and>
      (\<forall>c \<in> set (obj_Contributors ob). ctb_FeedID c \<in> f_id ` set (feeds d)) \<and>
      distinct (map (\<lambda>c. (ctb_FeedID c, ctb_Kind c)) (obj_Contributors ob))"
  shows "\<exists>d'. plan_steps now obs d = Inr d'"
  using assms
proof (induction obs arbitrary: d)
  case (Cons ob obs)
  then obtain d1 where d1: "plan_step now ob d = Inr d1" using plan_step_total [of ob d now] by auto
  have "feeds d1 = feeds d" by (rule plan_step_cases [OF d1]) simp
  with Cons d1 show ?case by simp
qed simp

lemma stale_objects_ok:
  assumes "objects_ok d"
  shows "objects_ok (stale_objects now d)"
proof -
  let ?e = "enforcement_objects (stale_objects now d)"
  have ids: "o_id ` set ?e = o_id ` set (enforcement_objects d)" "object_keys_ok ?e"
    using assms by (auto simp: stale_objects_def image_update_where objects_ok_alt object_keys_ok_def distinct_update_where)
  have "(\<exists>p. object_row_of p r) \<and> o_primary_feed_id r = None" if "r \<in> set ?e" for r
    using that assms by (auto simp: stale_objects_def set_update_where objects_ok_alt object_row_of_def)
  moreover have "enforcement_sources (stale_objects now d) = enforcement_sources d" "feeds (stale_objects now d) = feeds d"
    by (simp_all add: stale_objects_def)
  ultimately show ?thesis using assms ids by (simp add: objects_ok_alt)
qed

text \<open>A record that carries what the plan says of an object.\<close>

definition record_of :: "Object \<Rightarrow> EnforcementRecord \<Rightarrow> bool" where
  "record_of ob r \<longleftrightarrow> er_Prefix r = obj_Prefix ob \<and> er_Scope r = obj_Scope ob \<and> er_Desired r = obj_Desired ob \<and>
     er_Suppression r = obj_Suppression ob \<and> er_PrimaryFeedID r = Some (ctb_FeedID (obj_Primary ob))"

definition stale_record :: "EnforcementRecord \<Rightarrow> bool" where
  "stale_record r \<longleftrightarrow> \<not> er_Desired r \<and> er_Suppression r = SuppressionStale \<and> er_PrimaryFeedID r = None"

lemma record_of_fields:
  assumes "row_fields r = plan_fields ob" and "validateEnforcementObject ob"
  shows "record_of ob ((object_view r)\<lparr>er_Sources := ss\<rparr>)"
  using assms object_row_of_prefix [OF row_fields_of [OF assms]]
  by (simp add: record_of_def object_view_def row_fields_def plan_fields_def)

lemma plan_rows:
  assumes ok: "objects_ok d" and st: "plan_steps now obs (stale_objects now d) = Inr d'" and pv: "plan_valid [] obs"
    and r: "r \<in> set (enforcement_objects d')"
  shows "(\<exists>ob \<in> set obs. row_fields r = plan_fields ob) \<or>
    (\<not> o_desired r \<and> o_suppression r = SuppressionStale \<and> o_primary_feed_id r = None)"
proof -
  have v: "\<forall>ob \<in> set obs. validateEnforcementObject ob" "distinct (map obj_Prefix obs)"
    using pv by (auto simp: plan_valid_iff)
  have inj: "inj_on prefix_String (obj_Prefix ` set obs)"
    using v(1) validateEnforcementObject_D(1) prefix_String_inj by (auto simp: inj_on_def)
  have dist: "distinct (map (\<lambda>ob. prefix_String (obj_Prefix ob)) obs)"
    using v(2) inj by (simp add: distinct_map inj_on_def)
  have ok': "objects_ok d'" using plan_steps_objects_ok [OF stale_objects_ok [OF ok] st v(1)] by simp
  then have at: "row_at o_prefix (enforcement_objects d') (o_prefix r) = Some r"
    using r by (intro row_at_mem) (auto simp: objects_ok_def)
  show ?thesis
  proof (cases "find (\<lambda>ob. prefix_String (obj_Prefix ob) = o_prefix r) obs")
    case (Some ob)
    then show ?thesis using plan_steps_fields [OF st dist, of "o_prefix r"] at by (auto dest: find_Some_key)
  next
    case None
    then have "map_option row_fields (row_at o_prefix (enforcement_objects (stale_objects now d)) (o_prefix r)) = Some (row_fields r)"
      using plan_steps_fields [OF st dist, of "o_prefix r"] at by simp
    then obtain r0 where r0: "r0 \<in> set (enforcement_objects (stale_objects now d))" "row_fields r0 = row_fields r"
      by (auto dest: row_at_Some_D)
    then show ?thesis by (auto simp: stale_objects_def set_update_where row_fields_def)
  qed
qed

text \<open>
  C19. A plan that passes validation and names known feeds is stored completely: the call
  succeeds, keeps the invariant, returns one record per object of the plan with its scope,
  desired flag, suppression and primary feed, and every other record is marked stale and not
  desired; ids and prefixes are unique and objects known before keep their id.
\<close>

theorem ApplyEnforcementPlan_correct:
  assumes "objects_ok d" and "\<not> IsZero now" and "plan_valid [] obs"
    and "\<forall>ob \<in> set obs. (\<forall>c \<in> set (obj_Contributors ob). ctb_FeedID c \<in> f_id ` set (feeds d)) \<and>
      distinct (map (\<lambda>c. (ctb_FeedID c, ctb_Kind c)) (obj_Contributors ob))"
  shows "\<exists>records d'. ApplyEnforcementPlan obs now d = (Inr records, d') \<and> objects_ok d' \<and>
    (\<forall>ob \<in> set obs. \<exists>r \<in> set records. record_of ob r) \<and>
    (\<forall>r \<in> set records. (\<exists>ob \<in> set obs. record_of ob r) \<or> stale_record r) \<and>
    distinct (map er_ID records) \<and> distinct (map er_Prefix records) \<and>
    (\<forall>r \<in> set (enforcement_objects d). \<exists>r' \<in> set records. er_ID r' = o_id r \<and> er_Prefix r' = object_prefix r)"
proof -
  let ?s = "stale_objects now d"
  have v: "\<forall>ob \<in> set obs. validateEnforcementObject ob" "distinct (map obj_Prefix obs)"
    using assms(3) by (auto simp: plan_valid_iff)
  have "feeds ?s = feeds d" by (simp add: stale_objects_def)
  then obtain d' where st: "plan_steps now obs ?s = Inr d'"
    using plan_steps_total [of obs ?s now] v(1) assms(4) by auto
  have ok: "objects_ok d'" using plan_steps_objects_ok [OF stale_objects_ok [OF assms(1)] st v(1)] by simp
  let ?view = "\<lambda>r. (object_view r)\<lparr>er_Sources := map source_view (join_sources d' (o_id r))\<rparr>"
  let ?records = "map ?view (sort_cmp object_order (enforcement_objects d'))"
  have res: "ApplyEnforcementPlan obs now d = (Inr ?records, d')"
    using assms(2,3) st ListEnforcementObjects_total [OF ok] by (simp add: ApplyEnforcementPlan_def)
  have inj: "inj_on prefix_String (obj_Prefix ` set obs)"
    using v(1) validateEnforcementObject_D(1) prefix_String_inj by (auto simp: inj_on_def)
  have dist: "distinct (map (\<lambda>ob. prefix_String (obj_Prefix ob)) obs)"
    using v(2) inj by (simp add: distinct_map inj_on_def)
  have all: "\<exists>r \<in> set ?records. record_of ob r" if ob: "ob \<in> set obs" for ob
  proof -
    have "find (\<lambda>x. prefix_String (obj_Prefix x) = prefix_String (obj_Prefix ob)) obs = Some ob"
      using find_unique [OF dist ob] .
    then obtain r where r: "r \<in> set (enforcement_objects d')" "row_fields r = plan_fields ob"
      using plan_steps_fields [OF st dist, of "prefix_String (obj_Prefix ob)"] by (auto dest: row_at_Some_D)
    then show ?thesis using record_of_fields [OF r(2)] v(1) ob by auto
  qed
  have only: "(\<exists>ob \<in> set obs. record_of ob r) \<or> stale_record r" if "r \<in> set ?records" for r
    using that plan_rows [OF assms(1) st assms(3)] record_of_fields v(1)
    by (fastforce simp: stale_record_def object_view_def)
  have ids: "map er_ID ?records = map o_id (sort_cmp object_order (enforcement_objects d'))"
    "map er_Prefix ?records = map object_prefix (sort_cmp object_order (enforcement_objects d'))"
    by (simp_all add: object_view_def)
  have rows: "\<forall>r \<in> set (enforcement_objects d'). o_prefix r = prefix_String (object_prefix r)"
    using ok object_row_ok_prefix by (auto simp: objects_ok_def object_row_of_def)
  have "inj_on object_prefix (set (enforcement_objects d'))"
    using ok rows by (auto simp: objects_ok_def distinct_map inj_on_def)
  then have uniq: "distinct (map er_ID ?records)" "distinct (map er_Prefix ?records)"
    using ok unfolding ids by (auto simp: objects_ok_def distinct_map)
  have keep: "\<exists>r' \<in> set ?records. er_ID r' = o_id r \<and> er_Prefix r' = object_prefix r" if r: "r \<in> set (enforcement_objects d)" for r
  proof -
    have "row_at o_prefix (enforcement_objects d) (o_prefix r) = Some r"
      using assms(1) r by (intro row_at_mem) (auto simp: objects_ok_def)
    then obtain r1 where "row_at o_prefix (enforcement_objects ?s) (o_prefix r) = Some r1" "o_id r1 = o_id r"
      by (simp add: stale_objects_def row_at_update_where)
    with plan_steps_ids [OF st] obtain r2 where r2: "r2 \<in> set (enforcement_objects d')" "o_id r2 = o_id r" "o_prefix r2 = o_prefix r"
      by (fastforce dest: row_at_Some_D)
    have "?view r2 \<in> set ?records" using r2(1) by simp
    moreover have "object_prefix r2 = object_prefix r" using r2(3) by (simp add: object_prefix_def)
    ultimately show ?thesis using r2(2) by (intro bexI [of _ "?view r2"]) (simp_all add: object_view_def)
  qed
  show ?thesis
    by (intro exI [of _ ?records] exI [of _ d'] conjI ballI res ok uniq all only keep)
qed

subsection \<open>A concrete plan\<close>

definition sample_contributor :: Contributor where
  "sample_contributor = \<lparr>ctb_FeedID = 1, ctb_FeedName = ''alpha'', ctb_FeedOrder = 0, ctb_Kind = KindRange\<rparr>"

definition sample_object :: Object where
  "sample_object =
     \<lparr>obj_Prefix = Prefix (Addr4 0x08080800) 25, obj_Scope = ScopeRange, obj_Contributors = [sample_contributor],
      obj_Primary = sample_contributor, obj_Desired = True, obj_Suppression = SuppressedNone, obj_CoveredBy = None\<rparr>"

lemma sample_plan_valid: "plan_valid [] [sample_object]"
proof -
  have "Masked (Prefix (Addr4 0x08080800) 25) = Prefix (Addr4 0x08080800) 25" by (simp add: network_eval)
  then show ?thesis
    using sample_prefix_safe(1) sample_name_valid
    by (simp add: validateEnforcementObject_def Let_def sample_object_def sample_contributor_def source_valid_def)
qed

lemma sample_store_objects_ok: "objects_ok sample_store"
  by (simp add: objects_ok_def sample_store_def empty_db_def)

theorem ApplyEnforcementPlan_correct_witness:
  "\<exists>records d'. ApplyEnforcementPlan [sample_object] (2000 * second) sample_store = (Inr records, d') \<and> objects_ok d' \<and>
     (\<exists>r \<in> set records. record_of sample_object r)"
  using ApplyEnforcementPlan_correct [OF sample_store_objects_ok sample_time sample_plan_valid]
  by (fastforce simp: sample_object_def sample_contributor_def sample_store_def sample_feed_def)

end
