(* ===== verification/Store_Sync.thy ===== *)
theory Store_Sync
  imports Store_Enforcement
begin

text \<open>
  \<^verbatim>\<open>sync_repository.go\<close>: the history of sync runs with one result per feed, and the runtime
  timestamps. A run is \<^verbatim>\<open>running\<close> until it is completed with a result or recovered after an
  interruption; the timestamp of the last safe sync never moves backwards.
\<close>

subsection \<open>Definitions: runs\<close>

record SyncRunRecord =
  run_ID :: int
  run_StartedAt :: gotime
  run_CompletedAt :: "gotime option"
  run_Mode :: SyncMode
  run_RequestedFeed :: string
  run_Status :: RunStatus
  run_Failure :: FailureCategory
  run_Counts :: Counts
  run_Feeds :: "FeedResult list"

definition validSyncMode :: "SyncMode \<Rightarrow> bool" where
  "validSyncMode mode = (mode = SyncModeEnforce \<or> mode = SyncModeDryRun)"

fun validRunStatus :: "RunStatus \<Rightarrow> bool" where
  "validRunStatus RunStatusRunning = True"
| "validRunStatus RunStatusSuccess = True"
| "validRunStatus RunStatusDegraded = True"
| "validRunStatus RunStatusFailed = True"
| "validRunStatus RunStatusCancelled = True"

definition validRuntimeKey :: "RuntimeTimestampKey \<Rightarrow> bool" where
  "validRuntimeKey key = (key = RuntimeLastSafeSync \<or> key = RuntimeLastPrune)"

definition BeginSyncRun :: "SyncMode \<Rightarrow> string \<Rightarrow> gotime \<Rightarrow> db \<Rightarrow> int db_result" where
  "BeginSyncRun mode requestedFeed startedAt d =
     (if \<not> validSyncMode mode \<or> IsZero startedAt \<or> unix startedAt < 0
         \<or> (requestedFeed \<noteq> [] \<and> \<not> ValidFeedName requestedFeed)
      then (Inl ErrConstraint, d)
      else
        let rowID = next_rowid (map r_id (sync_runs d)) in
        if rowID \<le> 0 then (Inl ErrQuery, d)
        else (Inr rowID,
          d\<lparr>sync_runs := sync_runs d @
            [\<lparr>r_id = rowID, r_started_at = unix startedAt, r_completed_at = None, r_mode = mode,
              r_requested_feed = requestedFeed, r_status = RunStatusRunning, r_feeds_succeeded = 0,
              r_feeds_failed = 0, r_added = 0, r_refreshed = 0, r_removed = 0, r_rejected = 0,
              r_skipped = 0, r_lapi_requests = 0, r_error_category = NoFailure\<rparr>]\<rparr>))"

fun outcome_status :: "Outcome \<Rightarrow> RunStatus option" where
  "outcome_status OutcomeSuccess = Some RunStatusSuccess"
| "outcome_status OutcomeDegraded = Some RunStatusDegraded"
| "outcome_status OutcomeFailed = Some RunStatusFailed"
| "outcome_status OutcomeCancelled = Some RunStatusCancelled"
| "outcome_status _ = None"

definition statusForResult :: "ops_Result \<Rightarrow> RunStatus option" where
  "statusForResult result = outcome_status (res_Outcome result)"

definition feedHistoryStatus :: "FeedResult \<Rightarrow> feed_history option" where
  "feedHistoryStatus feed =
     (case fr_Outcome feed of
        OutcomeSuccess \<Rightarrow> Some HistSuccess
      | OutcomeNotModified \<Rightarrow> Some HistNotModified
      | OutcomeNotDue \<Rightarrow> Some HistNotDue
      | OutcomeFailed \<Rightarrow> Some HistFailed
      | OutcomeDegraded \<Rightarrow> if fr_Failure feed = FailureFeedValidation then Some HistSuspicious else Some HistFailed
      | _ \<Rightarrow> None)"

definition safeSyncResult :: "ops_Result \<Rightarrow> bool" where
  "safeSyncResult result =
     (res_Outcome result = OutcomeSuccess \<or>
      (res_Outcome result = OutcomeDegraded \<and>
       (res_Failure result = FailureFeedDownload \<or> res_Failure result = FailureFeedValidation)))"

subsection \<open>Definitions: runtime timestamps\<close>

definition select_runtime :: "db \<Rightarrow> RuntimeTimestampKey \<Rightarrow> string option" where
  "select_runtime d key = map_option rt_value (row_at rt_key (runtime_state d) key)"

text \<open>A stored value is the canonical decimal text of a number of seconds, or it is refused.\<close>

definition runtime_seconds :: "string \<Rightarrow> int option" where
  "runtime_seconds raw =
     (case Atoi raw of
        None \<Rightarrow> None
      | Some seconds \<Rightarrow> if seconds < 0 \<or> FormatInt seconds \<noteq> raw then None else Some seconds)"

definition write_runtime :: "RuntimeTimestampKey \<Rightarrow> gotime \<Rightarrow> db \<Rightarrow> db" where
  "write_runtime key at d =
     d\<lparr>runtime_state := upsert rt_key key (\<lambda>r. r\<lparr>rt_value := FormatInt (unix at), rt_updated_at := unix at\<rparr>)
        \<lparr>rt_key = key, rt_value = FormatInt (unix at), rt_updated_at = unix at\<rparr> (runtime_state d)\<rparr>"

definition setRuntimeTimestamp :: "RuntimeTimestampKey \<Rightarrow> gotime \<Rightarrow> db \<Rightarrow> unit db_result" where
  "setRuntimeTimestamp key at d =
     (if \<not> validRuntimeKey key \<or> IsZero at \<or> unix at < 0 then (Inl ErrConstraint, d)
      else case select_runtime d key of
        None \<Rightarrow> (Inr (), write_runtime key at d)
      | Some raw \<Rightarrow>
          (case runtime_seconds raw of
             None \<Rightarrow> (Inl ErrIntegrity, d)
           | Some seconds \<Rightarrow> if seconds \<ge> unix at then (Inr (), d) else (Inr (), write_runtime key at d)))"

definition SetRuntimeTimestamp :: "RuntimeTimestampKey \<Rightarrow> gotime \<Rightarrow> db \<Rightarrow> unit db_result" where
  "SetRuntimeTimestamp key at d = setRuntimeTimestamp key at d"

definition RuntimeTimestamp :: "RuntimeTimestampKey \<Rightarrow> db \<Rightarrow> (ErrorCategory, gotime \<times> bool) result" where
  "RuntimeTimestamp key d =
     (if \<not> validRuntimeKey key then Inl ErrConstraint
      else case select_runtime d key of
        None \<Rightarrow> Inr (time_zero, False)
      | Some raw \<Rightarrow>
          (case runtime_seconds raw of
             None \<Rightarrow> Inl ErrIntegrity
           | Some seconds \<Rightarrow> Inr (time_Unix seconds, True)))"

subsection \<open>Definitions: completing and listing runs\<close>

text \<open>The loop over the feeds of a result; \<^verbatim>\<open>(sync_run_id, feed_id)\<close> is the primary key of the table.\<close>

fun insert_feed_results ::
  "feed_row list \<Rightarrow> int \<Rightarrow> FeedResult list \<Rightarrow> run_feed_row list \<Rightarrow> (ErrorCategory, run_feed_row list) result" where
  "insert_feed_results fs runID [] rows = Inr rows"
| "insert_feed_results fs runID (feed # rest) rows =
     (case feedHistoryStatus feed of
        None \<Rightarrow> Inl ErrConstraint
      | Some historyStatus \<Rightarrow>
          (case find (\<lambda>f. f_name f = fr_Name feed) fs of
             None \<Rightarrow> Inl ErrNotFound
           | Some f \<Rightarrow>
               if \<exists>r \<in> set rows. rf_sync_run_id r = runID \<and> rf_feed_id r = f_id f then Inl ErrQuery
               else insert_feed_results fs runID rest
                 (rows @ [\<lparr>rf_sync_run_id = runID, rf_feed_id = f_id f, rf_status = historyStatus,
                           rf_accepted = fr_Accepted feed, rf_rejected = fr_Rejected feed,
                           rf_error_category = fr_Failure feed\<rparr>])))"

definition completed_run :: "RunStatus \<Rightarrow> ops_Result \<Rightarrow> run_row \<Rightarrow> run_row" where
  "completed_run status result r =
     r\<lparr>r_completed_at := Some (unix (res_CompletedAt result)), r_status := status,
       r_feeds_succeeded := cnt_FeedsSucceeded (res_Counts result),
       r_feeds_failed := cnt_FeedsFailed (res_Counts result), r_added := cnt_Added (res_Counts result),
       r_refreshed := cnt_Refreshed (res_Counts result), r_removed := cnt_Removed (res_Counts result),
       r_rejected := cnt_Rejected (res_Counts result), r_skipped := cnt_Skipped (res_Counts result),
       r_lapi_requests := cnt_LAPIRequests (res_Counts result), r_error_category := res_Failure result\<rparr>"

definition CompleteSyncRun :: "int \<Rightarrow> ops_Result \<Rightarrow> db \<Rightarrow> unit db_result" where
  "CompleteSyncRun runID result d =
     (case statusForResult result of
        None \<Rightarrow> (Inl ErrConstraint, d)
      | Some status \<Rightarrow>
          if runID \<le> 0 \<or> Result_Validate result \<noteq> None then (Inl ErrConstraint, d)
          else (case row_at r_id (sync_runs d) runID of
              None \<Rightarrow> (Inl ErrNotFound, d)
            | Some run \<Rightarrow>
                if r_status run \<noteq> RunStatusRunning \<or> unix (res_CompletedAt result) < r_started_at run
                then (Inl ErrConstraint, d)
                else (case insert_feed_results (feeds d) runID (res_Feeds result) (feed_run_results d) of
                    Inl e \<Rightarrow> (Inl e, d)
                  | Inr rows \<Rightarrow>
                      let P = (\<lambda>r. r_id r = runID \<and> r_status r = RunStatusRunning);
                          d1 = d\<lparr>feed_run_results := rows,
                            sync_runs := update_where P (completed_run status result) (sync_runs d)\<rparr>
                      in if rows_affected P (sync_runs d) \<noteq> 1 then (Inl ErrConstraint, d)
                         else if safeSyncResult result then
                           (case setRuntimeTimestamp RuntimeLastSafeSync (res_CompletedAt result) d1 of
                              (Inl e, _) \<Rightarrow> (Inl e, d)
                            | (Inr _, d2) \<Rightarrow> (Inr (), d2))
                         else (Inr (), d1))))"

fun history_outcome :: "feed_history \<Rightarrow> Outcome" where
  "history_outcome HistSuccess = OutcomeSuccess"
| "history_outcome HistNotModified = OutcomeNotModified"
| "history_outcome HistNotDue = OutcomeNotDue"
| "history_outcome HistFailed = OutcomeFailed"
| "history_outcome HistSuspicious = OutcomeDegraded"

definition feedResultFromHistory ::
  "string \<Rightarrow> feed_history \<Rightarrow> FailureCategory \<Rightarrow> int \<Rightarrow> int \<Rightarrow> (ErrorCategory, FeedResult) result" where
  "feedResultFromHistory name status failure accepted rejectedCount =
     (let result = \<lparr>fr_Name = name, fr_Outcome = history_outcome status, fr_Failure = failure,
                    fr_Accepted = accepted, fr_Rejected = rejectedCount\<rparr> in
      if FeedResult_Validate result \<noteq> None then Inl ErrIntegrity else Inr result)"

definition run_order :: "run_row \<Rightarrow> run_row \<Rightarrow> int" where
  "run_order a b = cmp_then (cmp_Compare (r_started_at b) (r_started_at a)) (cmp_Compare (r_id b) (r_id a))"

definition run_record :: "run_row \<Rightarrow> SyncRunRecord" where
  "run_record r =
     \<lparr>run_ID = r_id r, run_StartedAt = time_Unix (r_started_at r),
      run_CompletedAt = map_option time_Unix (r_completed_at r), run_Mode = r_mode r,
      run_RequestedFeed = r_requested_feed r, run_Status = r_status r, run_Failure = r_error_category r,
      run_Counts = zero_Counts\<lparr>cnt_FeedsSucceeded := r_feeds_succeeded r, cnt_FeedsFailed := r_feeds_failed r,
        cnt_Added := r_added r, cnt_Refreshed := r_refreshed r, cnt_Removed := r_removed r,
        cnt_Rejected := r_rejected r, cnt_Skipped := r_skipped r, cnt_LAPIRequests := r_lapi_requests r\<rparr>,
      run_Feeds = []\<rparr>"

definition scan_run :: "run_row \<Rightarrow> (ErrorCategory, SyncRunRecord) result" where
  "scan_run r =
     (let run = run_record r in
      if run_ID run \<le> 0 \<or> \<not> validSyncMode (run_Mode run) \<or> \<not> validRunStatus (run_Status run)
         \<or> (run_RequestedFeed run \<noteq> [] \<and> \<not> ValidFeedName (run_RequestedFeed run))
         \<or> Counts_Validate (run_Counts run) \<noteq> None
         \<or> (run_Failure run \<noteq> NoFailure \<and> \<not> ValidFailureCategory (run_Failure run))
         \<or> (run_Status run = RunStatusRunning \<and> run_CompletedAt run \<noteq> None)
         \<or> (run_Status run \<noteq> RunStatusRunning \<and> run_CompletedAt run = None)
      then Inl ErrIntegrity
      else Inr run)"

definition join_results :: "db \<Rightarrow> int \<Rightarrow> (run_feed_row \<times> feed_row) list" where
  "join_results d runID =
     sort_cmp (\<lambda>a b. cmp_Compare (f_id (snd a)) (f_id (snd b)))
       [(r, f). r \<leftarrow> feed_run_results d, rf_sync_run_id r = runID, f \<leftarrow> feeds d, f_id f = rf_feed_id r]"

definition scan_result :: "run_feed_row \<times> feed_row \<Rightarrow> (ErrorCategory, FeedResult) result" where
  "scan_result rf = (case rf of (r, f) \<Rightarrow>
     feedResultFromHistory (f_name f) (rf_status r) (rf_error_category r) (rf_accepted r) (rf_rejected r))"

definition ListSyncRuns :: "int \<Rightarrow> db \<Rightarrow> (ErrorCategory, SyncRunRecord list) result" where
  "ListSyncRuns limit d =
     (if limit < 1 \<or> limit > 1000 then Inl ErrConstraint
      else case scan_rows scan_run (take (nat limit) (sort_cmp run_order (sync_runs d))) of
        Inl e \<Rightarrow> Inl e
      | Inr runs \<Rightarrow>
          scan_rows (\<lambda>run. case scan_rows scan_result (join_results d (run_ID run)) of
              Inl e \<Rightarrow> Inl e
            | Inr results \<Rightarrow> Inr (run\<lparr>run_Feeds := results\<rparr>)) runs)"

definition RecoverInterruptedSyncRuns :: "gotime \<Rightarrow> db \<Rightarrow> int db_result" where
  "RecoverInterruptedSyncRuns now d =
     (if IsZero now \<or> unix now < 0 then (Inl ErrConstraint, d)
      else
        let P = (\<lambda>r. r_status r = RunStatusRunning) in
        (Inr (int (rows_affected P (sync_runs d))),
         d\<lparr>sync_runs := update_where P (\<lambda>r. r\<lparr>r_completed_at := Some (unix now), r_status := RunStatusFailed,
              r_error_category := FailureRuntime\<rparr>) (sync_runs d)\<rparr>))"

subsection \<open>Facts: runtime timestamps\<close>

definition runtime_ok :: "db \<Rightarrow> bool" where
  "runtime_ok d \<longleftrightarrow> distinct (map rt_key (runtime_state d)) \<and>
     (\<forall>r \<in> set (runtime_state d). \<exists>s. 0 \<le> s \<and> s \<le> max_int64 \<and> rt_value r = FormatInt s)"

lemma runtime_seconds_FormatInt: "0 \<le> s \<Longrightarrow> s \<le> max_int64 \<Longrightarrow> runtime_seconds (FormatInt s) = Some s"
  by (simp add: runtime_seconds_def FormatInt_def Atoi_itoa max_int64_def)

definition stored_seconds :: "db \<Rightarrow> RuntimeTimestampKey \<Rightarrow> int option" where
  "stored_seconds d key = (case select_runtime d key of None \<Rightarrow> None | Some raw \<Rightarrow> runtime_seconds raw)"

lemma stored_seconds_cases:
  assumes "runtime_ok d"
  obtains (none) "select_runtime d key = None" "stored_seconds d key = None"
  | (some) s where "select_runtime d key = Some (FormatInt s)" "stored_seconds d key = Some s" "0 \<le> s" "s \<le> max_int64"
proof (cases "row_at rt_key (runtime_state d) key")
  case None
  then show ?thesis by (intro none) (simp_all add: select_runtime_def stored_seconds_def)
next
  case (Some r)
  then obtain s where "0 \<le> s" "s \<le> max_int64" "rt_value r = FormatInt s"
    using assms row_at_Some_D [OF Some] by (auto simp: runtime_ok_def)
  then show ?thesis using Some by (intro some [of s]) (simp_all add: select_runtime_def stored_seconds_def runtime_seconds_FormatInt)
qed

lemma RuntimeTimestamp_stored:
  assumes "runtime_ok d" and "validRuntimeKey key"
  shows "RuntimeTimestamp key d =
    (case stored_seconds d key of None \<Rightarrow> Inr (time_zero, False) | Some s \<Rightarrow> Inr (time_Unix s, True))"
  using assms(1)
  by (rule stored_seconds_cases [of d key]) (simp_all add: RuntimeTimestamp_def assms(2) stored_seconds_def)

lemma write_runtime_facts:
  assumes "runtime_ok d" and "0 \<le> unix at" and "unix at \<le> max_int64"
  shows "runtime_ok (write_runtime key at d)"
    and "stored_seconds (write_runtime key at d) k = (if k = key then Some (unix at) else stored_seconds d k)"
proof -
  show "runtime_ok (write_runtime key at d)"
    using assms by (auto simp: runtime_ok_def write_runtime_def distinct_upsert dest!: set_upsert_cases)
  have "select_runtime (write_runtime key at d) k = (if k = key then Some (FormatInt (unix at)) else select_runtime d k)"
    unfolding select_runtime_def write_runtime_def by (simp add: row_at_upsert split: option.splits)
  then show "stored_seconds (write_runtime key at d) k = (if k = key then Some (unix at) else stored_seconds d k)"
    using assms(2,3) by (simp add: stored_seconds_def runtime_seconds_FormatInt)
qed

definition later :: "int option \<Rightarrow> int \<Rightarrow> int" where
  "later s t = (case s of None \<Rightarrow> t | Some s \<Rightarrow> max s t)"

lemma setRuntimeTimestamp_correct:
  assumes "runtime_ok d" and "validRuntimeKey key" and "0 \<le> unix at" and "unix at \<le> max_int64"
  shows "\<exists>d'. setRuntimeTimestamp key at d = (Inr (), d') \<and> runtime_ok d' \<and> d' = d\<lparr>runtime_state := runtime_state d'\<rparr> \<and>
    (\<forall>k. stored_seconds d' k = (if k = key then Some (later (stored_seconds d key) (unix at)) else stored_seconds d k))"
proof -
  have nz: "\<not> IsZero at" using assms(3) by (auto simp: IsZero_def time_zero_def unix_def second_def)
  note w = write_runtime_facts [OF assms(1,3,4), of key]
  have frame: "write_runtime key at d = d\<lparr>runtime_state := runtime_state (write_runtime key at d)\<rparr>"
    by (simp add: write_runtime_def)
  from assms(1) show ?thesis
  proof (cases rule: stored_seconds_cases [of d key])
    case none
    then show ?thesis using assms nz w frame by (simp add: setRuntimeTimestamp_def later_def)
  next
    case (some s)
    then have seconds: "runtime_seconds (FormatInt s) = Some s" by (simp add: runtime_seconds_FormatInt)
    show ?thesis
    proof (cases "unix at \<le> s")
      case True
      then have "setRuntimeTimestamp key at d = (Inr (), d)"
        using some(1) seconds assms nz by (simp add: setRuntimeTimestamp_def)
      moreover have "later (stored_seconds d key) (unix at) = s" using True some(2) by (simp add: later_def)
      ultimately show ?thesis using assms(1) some(2) by simp
    next
      case False
      then have "setRuntimeTimestamp key at d = (Inr (), write_runtime key at d)"
        using some(1) seconds assms nz by (simp add: setRuntimeTimestamp_def)
      moreover have "later (stored_seconds d key) (unix at) = unix at" using False some(2) by (simp add: later_def)
      ultimately show ?thesis using w frame by simp
    qed
  qed
qed

subsection \<open>Facts: the history\<close>

definition run_row_ok :: "run_row \<Rightarrow> bool" where
  "run_row_ok r \<longleftrightarrow> 0 < r_id r \<and> 0 \<le> r_started_at r \<and> validSyncMode (r_mode r) \<and>
     (r_requested_feed r = [] \<or> ValidFeedName (r_requested_feed r)) \<and> Counts_valid (run_Counts (run_record r)) \<and>
     (r_error_category r = NoFailure \<or> validFailure (r_error_category r)) \<and>
     (r_completed_at r = None \<longleftrightarrow> r_status r = RunStatusRunning)"

definition result_of :: "run_feed_row \<times> feed_row \<Rightarrow> FeedResult" where
  "result_of rf = \<lparr>fr_Name = f_name (snd rf), fr_Outcome = history_outcome (rf_status (fst rf)),
     fr_Failure = rf_error_category (fst rf), fr_Accepted = rf_accepted (fst rf), fr_Rejected = rf_rejected (fst rf)\<rparr>"

abbreviation result_key :: "run_feed_row \<Rightarrow> int \<times> int" where
  "result_key r \<equiv> (rf_sync_run_id r, rf_feed_id r)"

definition runs_ok :: "db \<Rightarrow> bool" where
  "runs_ok d \<longleftrightarrow> distinct (map r_id (sync_runs d)) \<and> (\<forall>r \<in> set (sync_runs d). run_row_ok r) \<and>
     distinct (map result_key (feed_run_results d)) \<and>
     (\<forall>x \<in> set (feed_run_results d).
        (\<exists>r \<in> set (sync_runs d). r_id r = rf_sync_run_id x \<and> r_status r \<noteq> RunStatusRunning) \<and>
        rf_feed_id x \<in> f_id ` set (feeds d) \<and>
        (\<forall>f \<in> set (feeds d). f_id f = rf_feed_id x \<longrightarrow> FeedResult_valid (result_of (x, f))))"

lemma validRunStatus_all [simp]: "validRunStatus status"
  by (cases status) auto

interpretation run_scan: row_scanner run_row_ok scan_run run_record
  by unfold_locales
    (auto simp: run_row_ok_def scan_run_def Let_def run_record_def Counts_Validate_def ValidFailureCategory_def)

interpretation result_scan: row_scanner "\<lambda>x. FeedResult_valid (result_of x)" scan_result result_of
  by unfold_locales (auto simp: scan_result_def result_of_def feedResultFromHistory_def Let_def FeedResult_Validate_def)

definition run_view :: "db \<Rightarrow> run_row \<Rightarrow> SyncRunRecord" where
  "run_view d r = (run_record r)\<lparr>run_Feeds := map result_of (join_results d (r_id r))\<rparr>"

lemma set_join_results:
  "set (join_results d i) = {(x, f). x \<in> set (feed_run_results d) \<and> rf_sync_run_id x = i \<and> f \<in> set (feeds d) \<and> f_id f = rf_feed_id x}"
  by (auto simp: join_results_def)

lemma ListSyncRuns_total:
  assumes "runs_ok d" and "1 \<le> limit" and "limit \<le> 1000"
  shows "ListSyncRuns limit d = Inr (map (run_view d) (take (nat limit) (sort_cmp run_order (sync_runs d))))"
proof -
  have "\<forall>r \<in> set (take (nat limit) (sort_cmp run_order (sync_runs d))). run_row_ok r"
    using assms(1) by (auto simp: runs_ok_def dest!: in_set_takeD)
  note 1 = run_scan.scan_all [OF this]
  have 2: "scan_rows scan_result (join_results d i) = Inr (map result_of (join_results d i))" for i
    using assms(1) by (intro result_scan.scan_all) (auto simp: runs_ok_def set_join_results)
  have "scan_rows (\<lambda>run. case scan_rows scan_result (join_results d (run_ID run)) of
              Inl e \<Rightarrow> Inl e | Inr results \<Rightarrow> Inr (run\<lparr>run_Feeds := results\<rparr>)) runs =
      Inr (map (\<lambda>run. run\<lparr>run_Feeds := map result_of (join_results d (run_ID run))\<rparr>) runs)" for runs :: "SyncRunRecord list"
    by (rule scan_rows_Inr) (simp add: 2)
  with 1 assms(2,3) show ?thesis by (simp add: ListSyncRuns_def comp_def run_view_def run_record_def)
qed

text \<open>A degraded feed whose failure is not one of validation is stored, and so read back, as failed.\<close>

definition history_view :: "FeedResult \<Rightarrow> FeedResult" where
  "history_view f = (if fr_Outcome f = OutcomeDegraded \<and> fr_Failure f \<noteq> FailureFeedValidation
     then f\<lparr>fr_Outcome := OutcomeFailed\<rparr> else f)"

lemma feedHistoryStatus_valid:
  assumes "FeedResult_valid f"
  shows "\<exists>h. feedHistoryStatus f = Some h \<and> history_outcome h = fr_Outcome (history_view f)"
proof -
  have "fr_Outcome f \<in> {OutcomeSuccess, OutcomeNotDue, OutcomeNotModified, OutcomeFailed, OutcomeDegraded}"
    using assms by (auto simp: FeedResult_valid_def split: if_splits)
  then show ?thesis by (auto simp: feedHistoryStatus_def history_view_def)
qed

lemma history_view_valid: "FeedResult_valid f \<Longrightarrow> FeedResult_valid (history_view f)"
  by (auto simp: FeedResult_valid_def history_view_def split: if_splits)

definition feed_id_of :: "feed_row list \<Rightarrow> string \<Rightarrow> int" where
  "feed_id_of fs name = f_id (the (find (\<lambda>f. f_name f = name) fs))"

definition result_row :: "feed_row list \<Rightarrow> int \<Rightarrow> FeedResult \<Rightarrow> run_feed_row" where
  "result_row fs runID feed =
     \<lparr>rf_sync_run_id = runID, rf_feed_id = feed_id_of fs (fr_Name feed), rf_status = the (feedHistoryStatus feed),
      rf_accepted = fr_Accepted feed, rf_rejected = fr_Rejected feed, rf_error_category = fr_Failure feed\<rparr>"

lemma result_row_simps [simp]:
  "rf_sync_run_id (result_row fs runID feed) = runID"
  "rf_feed_id (result_row fs runID feed) = feed_id_of fs (fr_Name feed)"
  by (simp_all add: result_row_def)

lemma feed_id_of_mem:
  assumes "name \<in> f_name ` set fs"
  obtains f where "find (\<lambda>f. f_name f = name) fs = Some f" and "f \<in> set fs" and "f_name f = name" and "feed_id_of fs name = f_id f"
proof -
  obtain f where "find (\<lambda>f. f_name f = name) fs = Some f" using assms find_None_key [of f_name name fs] by fastforce
  then show ?thesis using find_Some_key [of f_name name fs f] that by (auto simp: feed_id_of_def)
qed

lemma insert_feed_results_total:
  assumes "\<forall>f \<in> set results. FeedResult_valid f \<and> fr_Name f \<in> f_name ` set fs" and "distinct (map fr_Name results)"
    and "distinct (map f_id fs)"
    and "\<forall>r \<in> set rows. rf_sync_run_id r = runID \<longrightarrow> rf_feed_id r \<notin> (\<lambda>f. feed_id_of fs (fr_Name f)) ` set results"
  shows "insert_feed_results fs runID results rows = Inr (rows @ map (result_row fs runID) results)"
  using assms
proof (induction results arbitrary: rows)
  case (Cons feed rest)
  from Cons.prems(1) obtain h where h: "feedHistoryStatus feed = Some h" using feedHistoryStatus_valid [of feed] by auto
  from Cons.prems(1) have "fr_Name feed \<in> f_name ` set fs" by simp
  then obtain f where f: "find (\<lambda>f. f_name f = fr_Name feed) fs = Some f" "f \<in> set fs" "f_name f = fr_Name feed"
      "feed_id_of fs (fr_Name feed) = f_id f"
    by (rule feed_id_of_mem)
  have row: "result_row fs runID feed = \<lparr>rf_sync_run_id = runID, rf_feed_id = f_id f, rf_status = h,
      rf_accepted = fr_Accepted feed, rf_rejected = fr_Rejected feed, rf_error_category = fr_Failure feed\<rparr>"
    by (simp add: result_row_def f(4) h)
  have other: "feed_id_of fs (fr_Name x) \<noteq> f_id f" if x: "x \<in> set rest" for x
  proof -
    from x Cons.prems(1) have "fr_Name x \<in> f_name ` set fs" by simp
    then obtain g where g: "g \<in> set fs" "f_name g = fr_Name x" "feed_id_of fs (fr_Name x) = f_id g" by (rule feed_id_of_mem)
    have "f_name g \<noteq> f_name f" using Cons.prems(2) x g(2) f(3) by (auto simp: image_iff)
    then have "g \<noteq> f" by auto
    then show ?thesis using Cons.prems(3) g f(2) by (auto simp: distinct_map dest: inj_onD)
  qed
  have "insert_feed_results fs runID rest (rows @ [result_row fs runID feed]) =
      Inr ((rows @ [result_row fs runID feed]) @ map (result_row fs runID) rest)"
  proof (rule Cons.IH)
    show "\<forall>r \<in> set (rows @ [result_row fs runID feed]). rf_sync_run_id r = runID \<longrightarrow>
        rf_feed_id r \<notin> (\<lambda>f. feed_id_of fs (fr_Name f)) ` set rest"
    proof (intro ballI impI)
      fix r
      assume "r \<in> set (rows @ [result_row fs runID feed])" and run: "rf_sync_run_id r = runID"
      then consider "r \<in> set rows" | "r = result_row fs runID feed" by auto
      then show "rf_feed_id r \<notin> (\<lambda>f. feed_id_of fs (fr_Name f)) ` set rest"
        using Cons.prems(4) run f(4) by cases (auto dest: other)
    qed
  qed (use Cons.prems in auto)
  moreover have "\<not> (\<exists>r \<in> set rows. rf_sync_run_id r = runID \<and> rf_feed_id r = f_id f)"
    using Cons.prems(4) f(4) by auto
  ultimately show ?case by (simp add: h f(1) row)
qed simp

lemma Counts_valid_stored:
  assumes "Counts_valid (res_Counts result)"
  shows "Counts_valid (run_Counts (run_record (completed_run status result r)))"
proof -
  have "run_Counts (run_record (completed_run status result r)) =
      (res_Counts result)\<lparr>cnt_FeedsUnchanged := 0, cnt_FeedsNotDue := 0, cnt_ActiveDecisions := 0\<rparr>"
    by (simp add: run_record_def completed_run_def zero_Counts_def)
  then show ?thesis using assms by (simp add: Counts_valid_def maxCount_def)
qed

definition stored_counts :: "Counts \<Rightarrow> Counts" where
  "stored_counts c = c\<lparr>cnt_FeedsUnchanged := 0, cnt_FeedsNotDue := 0, cnt_ActiveDecisions := 0\<rparr>"

lemma completed_run_facts:
  assumes "run_row_ok r" and "Result_Validate result = None" and "statusForResult result = Some status"
  shows "run_row_ok (completed_run status result r)" and "status \<noteq> RunStatusRunning"
    and "run_Counts (run_record (completed_run status result r)) = stored_counts (res_Counts result)"
    and "r_id (completed_run status result r) = r_id r" and "r_status (completed_run status result r) = status"
proof -
  show st: "status \<noteq> RunStatusRunning" using assms(3) by (cases "res_Outcome result") (auto simp: statusForResult_def)
  show "run_row_ok (completed_run status result r)"
  proof -
    have "Counts_valid (res_Counts result)" "res_Failure result = NoFailure \<or> validFailure (res_Failure result)"
      using assms(2) unfolding Result_Validate_None_iff by auto
    moreover have "r_status (completed_run status result r) = status" "r_completed_at (completed_run status result r) \<noteq> None"
        "r_error_category (completed_run status result r) = res_Failure result"
        "r_id (completed_run status result r) = r_id r" "r_started_at (completed_run status result r) = r_started_at r"
        "r_mode (completed_run status result r) = r_mode r" "r_requested_feed (completed_run status result r) = r_requested_feed r"
      by (simp_all add: completed_run_def)
    ultimately show ?thesis
      using assms(1) st Counts_valid_stored [of result status r] unfolding run_row_ok_def by simp
  qed
  show "run_Counts (run_record (completed_run status result r)) = stored_counts (res_Counts result)"
    by (simp add: run_record_def completed_run_def stored_counts_def zero_Counts_def)
qed (simp_all add: completed_run_def)

text \<open>The rows of a run that has just been completed.\<close>

definition with_run :: "RunStatus \<Rightarrow> ops_Result \<Rightarrow> int \<Rightarrow> db \<Rightarrow> db" where
  "with_run status result runID d =
     d\<lparr>feed_run_results := feed_run_results d @ map (result_row (feeds d) runID) (res_Feeds result),
       sync_runs := update_where (\<lambda>r. r_id r = runID \<and> r_status r = RunStatusRunning) (completed_run status result) (sync_runs d)\<rparr>"

lemma result_of_row:
  assumes "FeedResult_valid x" and "fr_Name x \<in> f_name ` set fs" and "distinct (map f_id fs)"
    and "f \<in> set fs" and "f_id f = rf_feed_id (result_row fs runID x)"
  shows "result_of (result_row fs runID x, f) = history_view x"
proof -
  obtain g where g: "g \<in> set fs" "f_name g = fr_Name x" "feed_id_of fs (fr_Name x) = f_id g"
    using assms(2) by (rule feed_id_of_mem)
  then have "f = g" using assms(3-5) by (auto simp: result_row_def distinct_map dest: inj_onD)
  moreover obtain h where "feedHistoryStatus x = Some h" "history_outcome h = fr_Outcome (history_view x)"
    using feedHistoryStatus_valid [OF assms(1)] by blast
  ultimately show ?thesis using g(2) by (auto simp: result_of_def result_row_def history_view_def)
qed

lemma running_no_results:
  assumes ok: "runs_ok d" and run: "row_at r_id (sync_runs d) runID = Some run" "r_status run = RunStatusRunning"
    and x: "x \<in> set (feed_run_results d)"
  shows "rf_sync_run_id x \<noteq> runID"
proof
  assume "rf_sync_run_id x = runID"
  then obtain y where "y \<in> set (sync_runs d)" "r_id y = runID" "r_status y \<noteq> RunStatusRunning"
    using ok x by (auto simp: runs_ok_def)
  then show False
    using row_at_Some_D [OF run(1)] run(2) ok by (auto simp: runs_ok_def distinct_map dest: inj_onD)
qed

lemma with_run_ok:
  assumes ok: "runs_ok d" "distinct (map f_id (feeds d))" and run: "row_at r_id (sync_runs d) runID = Some run" "r_status run = RunStatusRunning"
    and v: "Result_Validate result = None" "statusForResult result = Some status"
    and names: "\<forall>f \<in> set (res_Feeds result). fr_Name f \<in> f_name ` set (feeds d)"
  shows "insert_feed_results (feeds d) runID (res_Feeds result) (feed_run_results d) = Inr (feed_run_results (with_run status result runID d))"
    and "runs_ok (with_run status result runID d)"
    and "row_at r_id (sync_runs (with_run status result runID d)) runID = Some (completed_run status result run)"
proof -
  let ?rows = "map (result_row (feeds d) runID) (res_Feeds result)"
  note r = row_at_Some_D [OF run(1)]
  have valid: "\<forall>f \<in> set (res_Feeds result). FeedResult_valid f" "distinct (map fr_Name (res_Feeds result))"
    using v(1) by (auto simp: Result_Validate_None_iff)
  note fresh = running_no_results [OF ok(1) run]
  have ins: "insert_feed_results (feeds d) runID (res_Feeds result) (feed_run_results d) = Inr (feed_run_results d @ ?rows)"
    using valid names ok(2) fresh by (intro insert_feed_results_total) auto
  then show "insert_feed_results (feeds d) runID (res_Feeds result) (feed_run_results d) = Inr (feed_run_results (with_run status result runID d))"
    by (simp add: with_run_def)
  show at: "row_at r_id (sync_runs (with_run status result runID d)) runID = Some (completed_run status result run)"
    using run r by (simp add: with_run_def row_at_update_where completed_run_def)
  have "inj_on (feed_id_of (feeds d)) (fr_Name ` set (res_Feeds result))"
  proof (rule inj_onI)
    fix a b
    assume ab: "a \<in> fr_Name ` set (res_Feeds result)" "b \<in> fr_Name ` set (res_Feeds result)" "feed_id_of (feeds d) a = feed_id_of (feeds d) b"
    from ab(1) names have "a \<in> f_name ` set (feeds d)" by auto
    then obtain f where f: "f \<in> set (feeds d)" "f_name f = a" "feed_id_of (feeds d) a = f_id f" by (rule feed_id_of_mem)
    from ab(2) names have "b \<in> f_name ` set (feeds d)" by auto
    then obtain g where g: "g \<in> set (feeds d)" "f_name g = b" "feed_id_of (feeds d) b = f_id g" by (rule feed_id_of_mem)
    from f g ab(3) ok(2) show "a = b" by (auto simp: distinct_map dest: inj_onD)
  qed
  then have "distinct (map (\<lambda>f. feed_id_of (feeds d) (fr_Name f)) (res_Feeds result))"
    using valid(2) by (auto simp: distinct_map inj_on_def)
  then have dist: "distinct (map result_key ?rows)" by (simp add: comp_def result_row_def distinct_map inj_on_def)
  have keys: "distinct (map result_key (feed_run_results d @ ?rows))"
    using dist ok(1) fresh by (auto simp: runs_ok_def result_row_def)
  have rows: "(\<exists>r \<in> set (sync_runs (with_run status result runID d)). r_id r = rf_sync_run_id x \<and> r_status r \<noteq> RunStatusRunning) \<and>
      rf_feed_id x \<in> f_id ` set (feeds d) \<and>
      (\<forall>f \<in> set (feeds d). f_id f = rf_feed_id x \<longrightarrow> FeedResult_valid (result_of (x, f)))"
    if "x \<in> set (feed_run_results d @ ?rows)" for x
  proof (cases "x \<in> set (feed_run_results d)")
    case True
    then obtain y where "y \<in> set (sync_runs d)" "r_id y = rf_sync_run_id x" "r_status y \<noteq> RunStatusRunning"
      using ok(1) by (auto simp: runs_ok_def)
    moreover from this have "y \<in> set (sync_runs (with_run status result runID d))" by (auto simp: with_run_def set_update_where)
    moreover have "rf_feed_id x \<in> f_id ` set (feeds d) \<and>
        (\<forall>f \<in> set (feeds d). f_id f = rf_feed_id x \<longrightarrow> FeedResult_valid (result_of (x, f)))"
      using True ok(1) unfolding runs_ok_def by blast
    ultimately show ?thesis by blast
  next
    case False
    with that obtain y where y: "y \<in> set (res_Feeds result)" "x = result_row (feeds d) runID y" by auto
    then have "fr_Name y \<in> f_name ` set (feeds d)" using names by blast
    then obtain g where "g \<in> set (feeds d)" "f_name g = fr_Name y" "feed_id_of (feeds d) (fr_Name y) = f_id g" by (rule feed_id_of_mem)
    moreover have "FeedResult_valid (result_of (x, f))" if "f \<in> set (feeds d)" "f_id f = rf_feed_id x" for f
      using result_of_row [of y "feeds d" f runID] valid(1) y names ok(2) that history_view_valid [of y] by auto
    moreover have "completed_run status result run \<in> set (sync_runs (with_run status result runID d))"
      using row_at_Some_D [OF at] by simp
    moreover have "r_id (completed_run status result run) = runID" "r_status (completed_run status result run) \<noteq> RunStatusRunning"
      using r ok(1) completed_run_facts(2,4,5) [OF _ v, of run] by (auto simp: runs_ok_def)
    ultimately show ?thesis using y(2) by auto
  qed
  have "run_row_ok x" if "x \<in> set (sync_runs (with_run status result runID d))" for x
    using that ok(1) completed_run_facts(1) [OF _ v] by (auto simp: with_run_def set_update_where runs_ok_def)
  moreover have "distinct (map r_id (sync_runs (with_run status result runID d)))"
    using ok(1) by (simp add: with_run_def runs_ok_def distinct_update_where completed_run_def)
  moreover have "feeds (with_run status result runID d) = feeds d"
      "feed_run_results (with_run status result runID d) = feed_run_results d @ ?rows" by (simp_all add: with_run_def)
  ultimately show "runs_ok (with_run status result runID d)"
    using keys rows unfolding runs_ok_def by metis
qed

subsection \<open>Properties: runs and timestamps\<close>

lemma stored_seconds_frame: "runtime_state d' = runtime_state d \<Longrightarrow> stored_seconds d' = stored_seconds d"
  by (auto simp: stored_seconds_def select_runtime_def fun_eq_iff)

lemma runtime_ok_frame: "runtime_state d' = runtime_state d \<Longrightarrow> runtime_ok d' = runtime_ok d"
  by (simp add: runtime_ok_def)

lemma with_run_frame [simp]:
  "runtime_state (with_run status result runID d) = runtime_state d" "feeds (with_run status result runID d) = feeds d"
  "feed_entries (with_run status result runID d) = feed_entries d"
  by (simp_all add: with_run_def)

lemma CompleteSyncRun_total:
  assumes ok: "runs_ok d" "runtime_ok d" "distinct (map f_id (feeds d))" and id: "0 < runID"
    and run: "row_at r_id (sync_runs d) runID = Some run" "r_status run = RunStatusRunning"
    and v: "Result_Validate result = None" "statusForResult result = Some status"
    and names: "\<forall>f \<in> set (res_Feeds result). fr_Name f \<in> f_name ` set (feeds d)"
    and time: "r_started_at run \<le> unix (res_CompletedAt result)" "unix (res_CompletedAt result) \<le> max_int64"
  shows "\<exists>rt. CompleteSyncRun runID result d = (Inr (), (with_run status result runID d)\<lparr>runtime_state := rt\<rparr>) \<and>
    runtime_ok ((with_run status result runID d)\<lparr>runtime_state := rt\<rparr>) \<and>
    stored_seconds ((with_run status result runID d)\<lparr>runtime_state := rt\<rparr>) RuntimeLastSafeSync =
      (if safeSyncResult result then Some (later (stored_seconds d RuntimeLastSafeSync) (unix (res_CompletedAt result)))
       else stored_seconds d RuntimeLastSafeSync)"
proof -
  let ?d1 = "with_run status result runID d"
  note w = with_run_ok [OF ok(1,3) run v names]
  have r: "run \<in> set (sync_runs d)" "r_id run = runID" using row_at_Some_D [OF run(1)] by auto
  have one: "rows_affected (\<lambda>r. r_id r = runID \<and> r_status r = RunStatusRunning) (sync_runs d) = 1"
    using ok(1) r run(2) by (subst rows_affected_unique) (auto simp: runs_ok_def)
  have pre: "CompleteSyncRun runID result d =
      (if safeSyncResult result then
         (case setRuntimeTimestamp RuntimeLastSafeSync (res_CompletedAt result) ?d1 of
            (Inl e, _) \<Rightarrow> (Inl e, d) | (Inr _, d2) \<Rightarrow> (Inr (), d2))
       else (Inr (), ?d1))"
    using id v run time(1) one w(1) by (simp add: CompleteSyncRun_def Let_def with_run_def)
  have rt: "runtime_ok ?d1" "stored_seconds ?d1 = stored_seconds d"
    using ok(2) by (simp_all add: runtime_ok_frame [of ?d1 d] stored_seconds_frame [of ?d1 d])
  have "run_row_ok run" using ok(1) r(1) by (simp add: runs_ok_def)
  then have at: "0 \<le> unix (res_CompletedAt result)" using time(1) unfolding run_row_ok_def by linarith
  show ?thesis
  proof (cases "safeSyncResult result")
    case True
    have "validRuntimeKey RuntimeLastSafeSync" by (simp add: validRuntimeKey_def)
    from setRuntimeTimestamp_correct [OF rt(1) this at time(2)] obtain d' where
      "setRuntimeTimestamp RuntimeLastSafeSync (res_CompletedAt result) ?d1 = (Inr (), d')" "runtime_ok d'"
      "d' = ?d1\<lparr>runtime_state := runtime_state d'\<rparr>"
      "stored_seconds d' RuntimeLastSafeSync = Some (later (stored_seconds ?d1 RuntimeLastSafeSync) (unix (res_CompletedAt result)))"
      by auto
    with True pre rt(2) show ?thesis by (intro exI [of _ "runtime_state d'"]) simp
  next
    case False
    then have "CompleteSyncRun runID result d = (Inr (), ?d1\<lparr>runtime_state := runtime_state d\<rparr>)"
      using pre by (simp add: with_run_def)
    moreover have "runtime_ok (?d1\<lparr>runtime_state := runtime_state d\<rparr>)" "stored_seconds (?d1\<lparr>runtime_state := runtime_state d\<rparr>) = stored_seconds d"
      using ok(2) by (auto simp: runtime_ok_def intro!: stored_seconds_frame)
    ultimately show ?thesis using False by (intro exI [of _ "runtime_state d"]) simp
  qed
qed

lemma runs_ok_frame:
  "sync_runs d' = sync_runs d \<Longrightarrow> feed_run_results d' = feed_run_results d \<Longrightarrow> feeds d' = feeds d \<Longrightarrow> runs_ok d' = runs_ok d"
  by (simp add: runs_ok_def)

text \<open>
  C35. A running sync run is completed by every valid result whose feeds are known: the history then
  lists the run with the status, failure and completion time in whole seconds of the result, its counts but for the numbers of
  unchanged feeds, of feeds not due and of active decisions, which the table has no column for and which read back as
  zero, and one entry per feed, in which a degraded feed without a validation failure reads back as failed. The invariant
  is kept, and the timestamp of the last safe sync is the later of its old value and the completion
  time when the result is safe, unchanged when it is not.
\<close>

theorem CompleteSyncRun_round_trip:
  assumes ok: "runs_ok d" "runtime_ok d" "feeds_ok d"
    and run: "row_at r_id (sync_runs d) runID = Some run" "r_status run = RunStatusRunning"
    and v: "Result_Validate result = None" "statusForResult result = Some status"
    and names: "\<forall>f \<in> set (res_Feeds result). fr_Name f \<in> f_name ` set (feeds d)"
    and time: "r_started_at run \<le> unix (res_CompletedAt result)" "unix (res_CompletedAt result) \<le> max_int64"
    and limit: "int (length (sync_runs d)) \<le> limit" "limit \<le> 1000"
  shows "\<exists>d' runs rec. CompleteSyncRun runID result d = (Inr (), d') \<and> runs_ok d' \<and> runtime_ok d' \<and>
    ListSyncRuns limit d' = Inr runs \<and> rec \<in> set runs \<and> run_ID rec = runID \<and> run_Status rec = status \<and>
    run_Failure rec = res_Failure result \<and> run_CompletedAt rec = Some (time_Unix (unix (res_CompletedAt result))) \<and>
    run_Counts rec = stored_counts (res_Counts result) \<and> set (run_Feeds rec) = history_view ` set (res_Feeds result) \<and>
    RuntimeTimestamp RuntimeLastSafeSync d' =
      (if safeSyncResult result
       then Inr (time_Unix (later (stored_seconds d RuntimeLastSafeSync) (unix (res_CompletedAt result))), True)
       else RuntimeTimestamp RuntimeLastSafeSync d)"
proof -
  let ?d1 = "with_run status result runID d"
  have ids: "distinct (map f_id (feeds d))" using ok(3) by (simp add: feeds_ok_def)
  note w = with_run_ok [OF ok(1) ids run v names]
  have r: "run \<in> set (sync_runs d)" "r_id run = runID" using row_at_Some_D [OF run(1)] by auto
  have rok: "run_row_ok run" using ok(1) r(1) by (simp add: runs_ok_def)
  have "0 < runID" using rok r(2) by (simp add: run_row_ok_def)
  from CompleteSyncRun_total [OF ok(1,2) ids this run v names time] obtain rt where
    c: "CompleteSyncRun runID result d = (Inr (), ?d1\<lparr>runtime_state := rt\<rparr>)" and rt: "runtime_ok (?d1\<lparr>runtime_state := rt\<rparr>)"
    and ss: "stored_seconds (?d1\<lparr>runtime_state := rt\<rparr>) RuntimeLastSafeSync =
      (if safeSyncResult result then Some (later (stored_seconds d RuntimeLastSafeSync) (unix (res_CompletedAt result)))
       else stored_seconds d RuntimeLastSafeSync)" by blast
  let ?d' = "?d1\<lparr>runtime_state := rt\<rparr>" and ?run = "completed_run status result run"
  have rok': "runs_ok ?d'" using w(2) by (simp add: runs_ok_frame [of ?d' ?d1])
  have len: "length (sync_runs ?d') = length (sync_runs d)" by (simp add: with_run_def)
  have "?run \<in> set (sync_runs ?d1)" using row_at_Some_D [OF w(3)] by simp
  then have "1 \<le> limit" and "take (nat limit) (sort_cmp run_order (sync_runs ?d')) = sort_cmp run_order (sync_runs ?d')"
    using limit len r(1) by (auto simp: neq_Nil_conv dest!: length_pos_if_in_set)
  with ListSyncRuns_total [OF rok' _ limit(2)] have l: "ListSyncRuns limit ?d' = Inr (map (run_view ?d') (sort_cmp run_order (sync_runs ?d')))"
    by simp
  have mem: "run_view ?d' ?run \<in> set (map (run_view ?d') (sort_cmp run_order (sync_runs ?d')))"
    using \<open>?run \<in> set (sync_runs ?d1)\<close> by simp
  have valid: "\<forall>f \<in> set (res_Feeds result). FeedResult_valid f" using v(1) by (auto simp: Result_Validate_None_iff)
  have "set (map result_of (join_results ?d' runID)) = history_view ` set (res_Feeds result)"
  proof (intro equalityI subsetI)
    fix z
    assume "z \<in> set (map result_of (join_results ?d' runID))"
    then obtain x f where xf: "(x, f) \<in> set (join_results ?d' runID)" "z = result_of (x, f)" by auto
    then have f: "x \<in> set (feed_run_results ?d1)" "rf_sync_run_id x = runID" "f \<in> set (feeds d)" "f_id f = rf_feed_id x"
      by (auto simp: set_join_results)
    with running_no_results [OF ok(1) run] obtain y where y: "y \<in> set (res_Feeds result)" "x = result_row (feeds d) runID y"
      by (auto simp: with_run_def)
    have "z = history_view y"
      unfolding xf(2) y(2) by (rule result_of_row) (use y valid names ids f in auto)
    with y(1) show "z \<in> history_view ` set (res_Feeds result)" by blast
  next
    fix z
    assume "z \<in> history_view ` set (res_Feeds result)"
    then obtain y where y: "y \<in> set (res_Feeds result)" "z = history_view y" by blast
    then have n: "fr_Name y \<in> f_name ` set (feeds d)" using names by blast
    then obtain g where g: "g \<in> set (feeds d)" "feed_id_of (feeds d) (fr_Name y) = f_id g" by (rule feed_id_of_mem)
    have "result_of (result_row (feeds d) runID y, g) = z"
      unfolding y(2) by (rule result_of_row) (use y valid n ids g in auto)
    moreover have "(result_row (feeds d) runID y, g) \<in> set (join_results ?d' runID)"
      using y(1) g by (simp add: set_join_results with_run_def)
    ultimately show "z \<in> set (map result_of (join_results ?d' runID))" by force
  qed
  then have fs: "set (run_Feeds (run_view ?d' ?run)) = history_view ` set (res_Feeds result)"
    using completed_run_facts(4) [OF rok v] r(2) by (simp add: run_view_def)
  have "validRuntimeKey RuntimeLastSafeSync" by (simp add: validRuntimeKey_def)
  from RuntimeTimestamp_stored [OF rt this] RuntimeTimestamp_stored [OF ok(2) this] ss
  have ts: "RuntimeTimestamp RuntimeLastSafeSync ?d' =
      (if safeSyncResult result
       then Inr (time_Unix (later (stored_seconds d RuntimeLastSafeSync) (unix (res_CompletedAt result))), True)
       else RuntimeTimestamp RuntimeLastSafeSync d)" by simp
  have rec: "run_ID (run_view ?d' ?run) = runID" "run_Status (run_view ?d' ?run) = status"
      "run_Failure (run_view ?d' ?run) = res_Failure result"
      "run_CompletedAt (run_view ?d' ?run) = Some (time_Unix (unix (res_CompletedAt result)))"
      "run_Counts (run_view ?d' ?run) = stored_counts (res_Counts result)"
    using completed_run_facts(3) [OF rok v] r(2) by (simp_all add: run_view_def) (simp_all add: run_record_def completed_run_def)
  show ?thesis
    using c rok' rt l mem rec fs ts by blast
qed

text \<open>
  The runtime timestamps refine a map from keys to seconds that only moves forward: setting a
  key to a representable time at or after the epoch replaces its entry by the later of the two and
  leaves the others alone, and reading the key back gives that entry.
\<close>

theorem SetRuntimeTimestamp_refines:
  assumes "runtime_ok d" and "validRuntimeKey key" and "0 \<le> unix at" and "unix at \<le> max_int64"
  shows "\<exists>d'. SetRuntimeTimestamp key at d = (Inr (), d') \<and> runtime_ok d' \<and>
    stored_seconds d' = (stored_seconds d)(key \<mapsto> later (stored_seconds d key) (unix at)) \<and>
    RuntimeTimestamp key d' = Inr (time_Unix (later (stored_seconds d key) (unix at)), True)"
proof -
  from setRuntimeTimestamp_correct [OF assms] obtain d' where
    "setRuntimeTimestamp key at d = (Inr (), d')" and ok: "runtime_ok d'"
    and "\<forall>k. stored_seconds d' k = (if k = key then Some (later (stored_seconds d key) (unix at)) else stored_seconds d k)"
    by blast
  then show ?thesis
    using RuntimeTimestamp_stored [OF ok assms(2)] by (intro exI [of _ d']) (auto simp: SetRuntimeTimestamp_def)
qed

lemma BeginSyncRun_runs_ok:
  assumes "runs_ok d" and "BeginSyncRun mode requestedFeed startedAt d = (res, d')"
  shows "runs_ok d'"
proof (cases res)
  case (Inl e)
  then have "d' = d" using assms(2) by (auto simp: BeginSyncRun_def Let_def split: if_splits)
  with assms(1) show ?thesis by simp
next
  case (Inr i)
  let ?new = "\<lparr>r_id = next_rowid (map r_id (sync_runs d)), r_started_at = unix startedAt, r_completed_at = None, r_mode = mode,
              r_requested_feed = requestedFeed, r_status = RunStatusRunning, r_feeds_succeeded = 0,
              r_feeds_failed = 0, r_added = 0, r_refreshed = 0, r_removed = 0, r_rejected = 0,
              r_skipped = 0, r_lapi_requests = 0, r_error_category = NoFailure\<rparr>"
  from Inr assms(2) have d': "d' = d\<lparr>sync_runs := sync_runs d @ [?new]\<rparr>" and g: "validSyncMode mode" "0 \<le> unix startedAt"
      "requestedFeed = [] \<or> ValidFeedName requestedFeed"
    by (auto simp: BeginSyncRun_def Let_def split: if_splits)
  have "run_Counts (run_record ?new) = zero_Counts" by (simp add: run_record_def zero_Counts_def)
  then have new: "run_row_ok ?new" unfolding run_row_ok_def using g next_rowid_pos [of "map r_id (sync_runs d)"] by simp
  have "next_rowid (map r_id (sync_runs d)) \<notin> r_id ` set (sync_runs d)"
    using next_rowid_fresh [of "map r_id (sync_runs d)"] by simp
  then have "distinct (map r_id (sync_runs d @ [?new]))" using assms(1) by (simp add: runs_ok_def)
  moreover have "\<forall>r \<in> set (sync_runs d @ [?new]). run_row_ok r" using assms(1) new by (auto simp: runs_ok_def)
  moreover have "\<exists>r \<in> set (sync_runs d @ [?new]). r_id r = rf_sync_run_id x \<and> r_status r \<noteq> RunStatusRunning"
    if "x \<in> set (feed_run_results d)" for x
  proof -
    from that assms(1) obtain r where "r \<in> set (sync_runs d)" "r_id r = rf_sync_run_id x" "r_status r \<noteq> RunStatusRunning"
      by (auto simp: runs_ok_def)
    then show ?thesis by (intro bexI [of _ r]) simp_all
  qed
  ultimately show ?thesis using assms(1) unfolding d' runs_ok_def by simp
qed

lemma RecoverInterruptedSyncRuns_runs_ok:
  assumes "runs_ok d" and "RecoverInterruptedSyncRuns now d = (Inr n, d')"
  shows "runs_ok d'" and "\<forall>r \<in> set (sync_runs d'). r_status r \<noteq> RunStatusRunning"
    and "\<forall>r \<in> set (sync_runs d). r_status r \<noteq> RunStatusRunning \<longrightarrow> r \<in> set (sync_runs d')"
proof -
  let ?P = "\<lambda>r. r_status r = RunStatusRunning"
  let ?g = "\<lambda>r. r\<lparr>r_completed_at := Some (unix now), r_status := RunStatusFailed, r_error_category := FailureRuntime\<rparr>"
  have d': "d' = d\<lparr>sync_runs := update_where ?P ?g (sync_runs d)\<rparr>"
    using assms(2) by (auto simp: RecoverInterruptedSyncRuns_def Let_def split: if_splits)
  show "\<forall>r \<in> set (sync_runs d'). r_status r \<noteq> RunStatusRunning"
    and keep: "\<forall>r \<in> set (sync_runs d). r_status r \<noteq> RunStatusRunning \<longrightarrow> r \<in> set (sync_runs d')"
    by (auto simp: d' set_update_where)
  have g: "run_row_ok (?g r)" if "run_row_ok r" for r
  proof -
    have "run_Counts (run_record (?g r)) = run_Counts (run_record r)" by (simp add: run_record_def)
    with that show ?thesis by (simp add: run_row_ok_def)
  qed
  have "\<forall>r \<in> set (sync_runs d'). run_row_ok r" using assms(1) g by (auto simp: d' set_update_where runs_ok_def)
  moreover have "distinct (map r_id (sync_runs d'))" using assms(1) by (simp add: d' runs_ok_def distinct_update_where)
  moreover have "\<exists>r \<in> set (sync_runs d'). r_id r = rf_sync_run_id x \<and> r_status r \<noteq> RunStatusRunning"
    if "x \<in> set (feed_run_results d)" for x
    using that assms(1) keep unfolding runs_ok_def by blast
  moreover have "feed_run_results d' = feed_run_results d" "feeds d' = feeds d" by (simp_all add: d')
  ultimately show "runs_ok d'" using assms(1) unfolding runs_ok_def by simp
qed

subsection \<open>A concrete run\<close>

definition sample_runs :: db where
  "sample_runs = snd (BeginSyncRun SyncModeEnforce [] (1000 * second) sample_store)"

definition sample_result :: ops_Result where
  "sample_result =
     \<lparr>res_Outcome = OutcomeDegraded, res_Failure = FailureFeedDownload, res_Retryable = True,
      res_StartedAt = 1000 * second, res_CompletedAt = 2000 * second, res_Counts = zero_Counts,
      res_Feeds = [\<lparr>fr_Name = ''alpha'', fr_Outcome = OutcomeDegraded, fr_Failure = FailureFeedDownload,
        fr_Accepted = 7, fr_Rejected = 1\<rparr>]\<rparr>"

lemma sample_runs_facts:
  "runs_ok sample_runs" "runtime_ok sample_runs" "feeds_ok sample_runs" "feeds sample_runs = [sample_feed]"
  "\<exists>run. row_at r_id (sync_runs sample_runs) 1 = Some run \<and> r_status run = RunStatusRunning \<and> r_started_at run = 1000"
  "length (sync_runs sample_runs) = 1"
proof -
  have "runs_ok sample_store" by (simp add: runs_ok_def sample_store_def empty_db_def)
  then show "runs_ok sample_runs" unfolding sample_runs_def by (rule BeginSyncRun_runs_ok) (rule surjective_pairing)
  have "\<not> IsZero (1000 * second)" "unix (1000 * second) = 1000"
    by (simp_all add: IsZero_def time_zero_def second_def unix_def)
  then have s: "sample_runs = sample_store\<lparr>sync_runs := [\<lparr>r_id = 1, r_started_at = 1000, r_completed_at = None, r_mode = SyncModeEnforce,
              r_requested_feed = [], r_status = RunStatusRunning, r_feeds_succeeded = 0,
              r_feeds_failed = 0, r_added = 0, r_refreshed = 0, r_removed = 0, r_rejected = 0,
              r_skipped = 0, r_lapi_requests = 0, r_error_category = NoFailure\<rparr>]\<rparr>"
    by (simp add: sample_runs_def BeginSyncRun_def validSyncMode_def sample_store_def empty_db_def next_rowid_def Let_def)
  show "feeds_ok sample_runs" using sample_store_ok by (simp add: s feeds_ok_def)
  show "runtime_ok sample_runs" by (simp add: s runtime_ok_def sample_store_def empty_db_def)
  show "feeds sample_runs = [sample_feed]" by (simp add: s sample_store_def)
  show "\<exists>run. row_at r_id (sync_runs sample_runs) 1 = Some run \<and> r_status run = RunStatusRunning \<and> r_started_at run = 1000"
    by (simp add: s row_at_Cons)
  show "length (sync_runs sample_runs) = 1" by (simp add: s)
qed

lemma sample_result_valid: "Result_Validate sample_result = None" "statusForResult sample_result = Some RunStatusDegraded"
proof -
  have "ValidFeedName ''alpha''" by (simp add: ValidFeedName_def feedNamePattern_def feed_edge_def is_lower_def code_def)
  then show "Result_Validate sample_result = None"
    unfolding Result_Validate_None_iff
    by (simp add: sample_result_def FeedResult_valid_def maxCount_def maxFeedResults_def maxDuration_def IsZero_def
        time_zero_def time_Sub_def max_int64_def min_int64_def second_def minute_def hour_def)
qed (simp add: statusForResult_def sample_result_def)

theorem CompleteSyncRun_round_trip_witness:
  "\<exists>d' runs rec. CompleteSyncRun 1 sample_result sample_runs = (Inr (), d') \<and> ListSyncRuns 10 d' = Inr runs \<and>
     rec \<in> set runs \<and> run_ID rec = 1 \<and> run_Status rec = RunStatusDegraded"
proof -
  obtain run where run: "row_at r_id (sync_runs sample_runs) 1 = Some run" "r_status run = RunStatusRunning" "r_started_at run = 1000"
    using sample_runs_facts(5) by blast
  note c = CompleteSyncRun_round_trip [OF sample_runs_facts(1-3) run(1,2) sample_result_valid, of 10]
  have t: "unix (res_CompletedAt sample_result) = 2000" by (simp add: sample_result_def unix_def second_def)
  have "\<forall>f \<in> set (res_Feeds sample_result). fr_Name f \<in> f_name ` set (feeds sample_runs)"
    by (simp add: sample_result_def sample_runs_facts(4) sample_feed_def)
  from c [OF this] run(3) t sample_runs_facts(6) show ?thesis by (fastforce simp: max_int64_def)
qed

theorem SetRuntimeTimestamp_refines_witness:
  "\<exists>d'. SetRuntimeTimestamp RuntimeLastPrune (2000 * second) sample_runs = (Inr (), d') \<and> runtime_ok d'"
proof -
  have "0 \<le> unix (2000 * second)" "unix (2000 * second) \<le> max_int64" "validRuntimeKey RuntimeLastPrune"
    by (simp_all add: unix_def second_def max_int64_def validRuntimeKey_def)
  then show ?thesis using SetRuntimeTimestamp_refines [OF sample_runs_facts(2)] by blast
qed

end
