(* ===== verification/Store_Journal.thy ===== *)
theory Store_Journal
  imports Store_Enforcement
begin

text \<open>
  What the journal of LAPI operations promises: keys and references stay intact, a verified
  operation records exactly the decisions the journal expects and retires the ones they replace,
  and statuses move along the life cycle only.
\<close>

subsection \<open>Facts: the journal\<close>

definition item_key :: "item_row \<Rightarrow> string \<times> int" where
  "item_key i = (i_operation_token i, i_object_id i)"

definition operations_ok :: "db \<Rightarrow> bool" where
  "operations_ok d \<longleftrightarrow> distinct (map op_token (lapi_operations d)) \<and>
     (\<forall>r \<in> set (lapi_operations d). op_feed_id r \<in> f_id ` set (feeds d) \<and> 1 \<le> op_duration_seconds r \<and>
        op_duration_seconds r \<le> 604800 \<and>
        (op_completed_at r \<noteq> None \<longleftrightarrow> op_status r \<in> {OperationCompleted, OperationFailed})) \<and>
     distinct (map item_key (lapi_operation_items d)) \<and>
     (\<forall>i \<in> set (lapi_operation_items d). i_operation_token i \<in> op_token ` set (lapi_operations d) \<and>
        i_object_id i \<in> o_id ` set (enforcement_objects d) \<and>
        (\<forall>old. i_old_decision_row_id i = Some old \<longrightarrow> old \<in> d_id ` set (lapi_decisions d)))"

definition decisions_ok :: "db \<Rightarrow> bool" where
  "decisions_ok d \<longleftrightarrow> distinct (map a_id (lapi_alerts d)) \<and> distinct (map a_alert_id (lapi_alerts d)) \<and>
     distinct (map a_operation_token (lapi_alerts d)) \<and>
     distinct (map d_id (lapi_decisions d)) \<and> distinct (map d_decision_id (lapi_decisions d)) \<and>
     (\<forall>r \<in> set (lapi_decisions d). 0 < d_id r \<and> d_alert_row_id r \<in> a_id ` set (lapi_alerts d) \<and>
        d_object_id r \<in> o_id ` set (enforcement_objects d) \<and>
        (\<forall>n. d_replaced_by_id r = Some n \<longrightarrow> n \<in> d_id ` set (lapi_decisions d)))"

definition journal_ok :: "db \<Rightarrow> bool" where
  "journal_ok d \<longleftrightarrow> operations_ok d \<and> decisions_ok d"

lemma items_valid_iff:
  "items_valid kind seen items \<longleftrightarrow>
     (\<forall>i \<in> set items. 0 < it_ObjectID i \<and> (kind = OperationCreate \<longrightarrow> it_OldDecisionRowID i = None) \<and>
        (kind = OperationRefresh \<longrightarrow> it_OldDecisionRowID i \<noteq> None)) \<and>
     distinct (map it_ObjectID items) \<and> set seen \<inter> it_ObjectID ` set items = {}"
  by (induction items arbitrary: seen) auto

abbreviation item_row_of :: "string \<Rightarrow> OperationItem \<Rightarrow> item_row" where
  "item_row_of token item \<equiv> \<lparr>i_operation_token = token, i_object_id = it_ObjectID item,
     i_old_decision_row_id = it_OldDecisionRowID item\<rparr>"

lemma insert_items_result:
  assumes "insert_items token items rows = Inr rows'"
  shows "rows' = rows @ map (item_row_of token) items \<and>
    (distinct (map item_key rows) \<longrightarrow> distinct (map item_key rows'))"
  using assms
proof (induction items arbitrary: rows)
  case (Cons item items)
  then have new: "\<not> (\<exists>r \<in> set rows. i_operation_token r = token \<and> i_object_id r = it_ObjectID item)"
      and "insert_items token items (rows @ [item_row_of token item]) = Inr rows'"
    by (auto split: if_splits)
  then have ih: "rows' = (rows @ [item_row_of token item]) @ map (item_row_of token) items \<and>
      (distinct (map item_key (rows @ [item_row_of token item])) \<longrightarrow> distinct (map item_key rows'))"
    by (intro Cons.IH)
  have "distinct (map item_key rows) \<longrightarrow> distinct (map item_key (rows @ [item_row_of token item]))"
    using new by (auto simp: item_key_def)
  with ih have "distinct (map item_key rows) \<longrightarrow> distinct (map item_key rows')" by blast
  moreover have "rows' = rows @ map (item_row_of token) (item # items)" using ih by simp
  ultimately show ?case by blast
qed simp

lemma insert_items_total:
  assumes "distinct (map it_ObjectID items)"
    and "\<forall>r \<in> set rows. i_operation_token r = token \<longrightarrow> i_object_id r \<notin> it_ObjectID ` set items"
  shows "\<exists>rows'. insert_items token items rows = Inr rows'"
  using assms by (induction items arbitrary: rows) auto

lemma item_allowed_D:
  assumes "item_allowed d feedID item"
  shows "it_ObjectID item \<in> o_id ` set (enforcement_objects d)"
    and "it_OldDecisionRowID item = Some old \<Longrightarrow> \<exists>r \<in> set (lapi_decisions d). d_id r = old \<and>
      d_object_id r = it_ObjectID item \<and> d_status r = DecisionActive"
proof -
  show "it_ObjectID item \<in> o_id ` set (enforcement_objects d)"
    using assms by (auto simp: item_allowed_def split: option.splits dest!: find_Some_key intro!: image_eqI)
  show "\<exists>r \<in> set (lapi_decisions d). d_id r = old \<and> d_object_id r = it_ObjectID item \<and> d_status r = DecisionActive"
    if "it_OldDecisionRowID item = Some old"
    using assms that by (auto simp: item_allowed_def split: option.splits dest!: find_Some_key)
qed

lemma BeginOperation_cases:
  assumes "BeginOperation operation d = (res, d')"
  obtains (refused) e where "res = Inl e" and "d' = d"
  | (begun) "res = Inr ()" and "validOperation operation" and "opn_FeedID operation \<in> f_id ` set (feeds d)"
    and "\<forall>item \<in> set (opn_Items operation). item_allowed d (opn_FeedID operation) item"
    and "opn_Token operation \<notin> op_token ` set (lapi_operations d)"
    and "insert_items (opn_Token operation) (opn_Items operation) (lapi_operation_items d) = Inr (lapi_operation_items d')"
    and "d' = d\<lparr>lapi_operations := lapi_operations d @ [pending_row operation],
               lapi_operation_items := lapi_operation_items d'\<rparr>"
proof -
  have one: "opn_FeedID operation \<in> f_id ` set (feeds d)"
    if "length (filter (\<lambda>f. f_id f = opn_FeedID operation) (feeds d)) = Suc 0"
    using that by (metis (mono_tags, lifting) filter_False image_eqI length_0_conv nat.simps(3))
  show ?thesis
    using assms unfolding BeginOperation_def
    by (auto simp: list_all_iff split: if_splits sum.splits intro: one refused begun)
qed

lemma BeginOperation_journal_ok:
  assumes ok: "journal_ok d" and b: "BeginOperation operation d = (res, d')"
  shows "journal_ok d'"
  using b
proof (cases rule: BeginOperation_cases)
  case refused
  then show ?thesis using ok by simp
next
  case begun
  have dur: "1 \<le> opn_Duration operation div second \<and> opn_Duration operation div second \<le> 604800"
    using begun(2) by (auto simp: validOperation_def second_def hour_def minute_def split: if_splits)
  have items: "lapi_operation_items d' = lapi_operation_items d @ map (item_row_of (opn_Token operation)) (opn_Items operation)"
      "distinct (map item_key (lapi_operation_items d'))"
    using insert_items_result [OF begun(6)] ok unfolding journal_ok_def operations_ok_def by blast+
  have ops: "lapi_operations d' = lapi_operations d @ [pending_row operation]"
      "enforcement_objects d' = enforcement_objects d" "lapi_decisions d' = lapi_decisions d"
      "lapi_alerts d' = lapi_alerts d" "feeds d' = feeds d"
    by (subst begun(7); simp)+
  have "i_operation_token i \<in> op_token ` set (lapi_operations d') \<and> i_object_id i \<in> o_id ` set (enforcement_objects d) \<and>
      (\<forall>old. i_old_decision_row_id i = Some old \<longrightarrow> old \<in> d_id ` set (lapi_decisions d))"
    if "i \<in> set (lapi_operation_items d')" for i
  proof (cases "i \<in> set (lapi_operation_items d)")
    case True
    then show ?thesis using ok by (auto simp: journal_ok_def operations_ok_def ops)
  next
    case False
    with \<open>i \<in> set (lapi_operation_items d')\<close> items(1)
    obtain item where "item \<in> set (opn_Items operation)" "i = item_row_of (opn_Token operation) item"
      by auto
    with begun(4) item_allowed_D [of d "opn_FeedID operation" item] show ?thesis
      by (auto simp: ops pending_row_def)
  qed
  then show ?thesis
    using ok begun(3,5) dur items(2) by (auto simp: journal_ok_def operations_ok_def decisions_ok_def ops pending_row_def)
qed

subsection \<open>Facts: recording a verified operation\<close>

definition decision_static :: "decision_row \<Rightarrow> int \<times> int \<times> int \<times> int \<times> string \<times> string \<times> Scope \<times> string \<times> int \<times> int \<times> int" where
  "decision_static r = (d_id r, d_object_id r, d_alert_row_id r, d_decision_id r, d_origin r, d_scenario r,
     d_scope r, d_value r, d_created_at r, d_expires_at r, d_verified_at r)"

definition new_decision :: "int \<Rightarrow> gotime \<Rightarrow> VerifiedDecision \<Rightarrow> int \<Rightarrow> decision_row" where
  "new_decision alertRowID now dec rowID =
     \<lparr>d_id = rowID, d_object_id = vd_ObjectID dec, d_alert_row_id = alertRowID,
      d_decision_id = vd_DecisionID dec, d_origin = vd_Origin dec, d_scenario = vd_Scenario dec,
      d_scope = vd_Scope dec, d_value = vd_Value dec, d_created_at = unix now,
      d_expires_at = unix (vd_ExpiresAt dec), d_verified_at = unix now, d_status = DecisionActive,
      d_replaced_by_id = None\<rparr>"

lemma insert_decisions_result:
  assumes "insert_decisions a now ds rows newRows = Inr (rows', newRows')"
  shows "\<exists>new. rows' = rows @ new \<and> list_all2 (\<lambda>dec r. r = new_decision a now dec (d_id r)) ds new \<and>
    newRows' = newRows @ map (\<lambda>r. (d_object_id r, d_id r)) new \<and>
    (\<forall>r \<in> set new. 0 < d_id r \<and> (\<forall>x \<in> set rows. d_id x < d_id r)) \<and>
    (distinct (map d_id rows) \<longrightarrow> distinct (map d_id rows')) \<and>
    (distinct (map d_decision_id rows) \<longrightarrow> distinct (map d_decision_id rows'))"
  using assms
proof (induction ds arbitrary: rows newRows)
  case Nil
  then show ?case by simp
next
  case (Cons dec ds)
  let ?id = "next_rowid (map d_id rows)"
  let ?row = "new_decision a now dec ?id"
  have new: "vd_DecisionID dec \<notin> d_decision_id ` set rows"
    and rest: "insert_decisions a now ds (rows @ [?row]) (newRows @ [(vd_ObjectID dec, ?id)]) = Inr (rows', newRows')"
    using Cons.prems by (auto simp: Let_def new_decision_def split: if_splits)
  have lt: "\<forall>x \<in> set rows. d_id x < ?id" using next_rowid_gt [of _ "map d_id rows"] by auto
  from Cons.IH [OF rest] obtain new where n: "rows' = (rows @ [?row]) @ new"
      "list_all2 (\<lambda>dec r. r = new_decision a now dec (d_id r)) ds new"
      "newRows' = (newRows @ [(vd_ObjectID dec, ?id)]) @ map (\<lambda>r. (d_object_id r, d_id r)) new"
      "\<forall>r \<in> set new. 0 < d_id r \<and> (\<forall>x \<in> set (rows @ [?row]). d_id x < d_id r)"
      "distinct (map d_id (rows @ [?row])) \<longrightarrow> distinct (map d_id rows')"
      "distinct (map d_decision_id (rows @ [?row])) \<longrightarrow> distinct (map d_decision_id rows')"
    by blast
  have d1: "distinct (map d_id rows) \<longrightarrow> distinct (map d_id (rows @ [?row]))"
    using lt by (auto simp: new_decision_def)
  have d2: "distinct (map d_decision_id rows) \<longrightarrow> distinct (map d_decision_id (rows @ [?row]))"
    using new by (auto simp: new_decision_def)
  show ?case
  proof (intro exI [of _ "?row # new"] conjI)
    show "rows' = rows @ ?row # new" using n(1) by simp
    show "list_all2 (\<lambda>dec r. r = new_decision a now dec (d_id r)) (dec # ds) (?row # new)"
      using n(2) by (simp add: new_decision_def)
    show "newRows' = newRows @ map (\<lambda>r. (d_object_id r, d_id r)) (?row # new)"
      using n(3) by (simp add: new_decision_def)
    show "\<forall>r \<in> set (?row # new). 0 < d_id r \<and> (\<forall>x \<in> set rows. d_id x < d_id r)"
      using n(4) lt next_rowid_pos [of "map d_id rows"] by (auto simp: new_decision_def)
  qed (use n(5,6) d1 d2 in blast)+
qed

lemma rows_affected_one:
  assumes "rows_affected P rows = 1"
  shows "\<exists>r \<in> set rows. P r"
proof (rule ccontr)
  assume "\<not> (\<exists>r \<in> set rows. P r)"
  then have "filter P rows = []" by (simp add: filter_empty_conv)
  with assms show False by (simp add: rows_affected_def)
qed

abbreviation new_row_of :: "(int \<rightharpoonup> int) \<Rightarrow> int \<Rightarrow> int" where
  "new_row_of newRows objectID \<equiv> (case newRows objectID of None \<Rightarrow> 0 | Some n \<Rightarrow> n)"

lemma retire_static: "retire_replaced items newRows rows = Inr rows' \<Longrightarrow> map decision_static rows' = map decision_static rows"
proof (induction items newRows rows rule: retire_replaced.induct)
  case (2 objectID item items newRows rows)
  show ?case
  proof (cases "xi_old item")
    case None
    then show ?thesis using 2 by simp
  next
    case (Some old)
    let ?P = "\<lambda>r. d_id r = old \<and> d_object_id r = objectID \<and> d_status r = DecisionActive"
    let ?u = "update_where ?P (\<lambda>r. r\<lparr>d_status := DecisionExpiring, d_replaced_by_id := Some (new_row_of newRows objectID)\<rparr>) rows"
    have "map decision_static ?u = map decision_static rows"
      by (rule map_update_where) (simp add: decision_static_def)
    moreover have "rows_affected ?P rows = 1" "retire_replaced items newRows ?u = Inr rows'"
      using "2.prems" Some by (auto simp: Let_def split: if_splits)
    ultimately show ?thesis using "2.IH"(2) [OF Some refl] by simp
  qed
qed simp

lemma retire_keeps:
  "retire_replaced items newRows rows = Inr rows' \<Longrightarrow> r \<in> set rows \<Longrightarrow>
   d_status r \<noteq> DecisionActive \<or> (\<forall>(ob, item) \<in> set items. xi_old item \<noteq> Some (d_id r)) \<Longrightarrow> r \<in> set rows'"
proof (induction items newRows rows rule: retire_replaced.induct)
  case (2 objectID item items newRows rows)
  show ?case
  proof (cases "xi_old item")
    case None
    then show ?thesis using 2 by auto
  next
    case (Some old)
    let ?P = "\<lambda>r. d_id r = old \<and> d_object_id r = objectID \<and> d_status r = DecisionActive"
    let ?u = "update_where ?P (\<lambda>r. r\<lparr>d_status := DecisionExpiring, d_replaced_by_id := Some (new_row_of newRows objectID)\<rparr>) rows"
    have "r \<in> set ?u" using "2.prems"(2,3) Some by (auto simp: set_update_where)
    moreover have "rows_affected ?P rows = 1" "retire_replaced items newRows ?u = Inr rows'"
      using "2.prems"(1) Some by (auto simp: Let_def split: if_splits)
    ultimately show ?thesis using "2.IH"(2) [OF Some refl] "2.prems"(3) by auto
  qed
qed simp

lemma retire_done:
  "retire_replaced items newRows rows = Inr rows' \<Longrightarrow> (ob, x) \<in> set items \<Longrightarrow> xi_old x = Some old \<Longrightarrow>
   \<exists>r \<in> set rows'. d_id r = old \<and> d_object_id r = ob \<and> d_status r = DecisionExpiring \<and>
     d_replaced_by_id r = Some (new_row_of newRows ob)"
proof (induction items newRows rows rule: retire_replaced.induct)
  case (2 objectID item items newRows rows)
  show ?case
  proof (cases "xi_old item")
    case None
    then show ?thesis using 2 by auto
  next
    case (Some old')
    let ?P = "\<lambda>r. d_id r = old' \<and> d_object_id r = objectID \<and> d_status r = DecisionActive"
    let ?f = "\<lambda>r. r\<lparr>d_status := DecisionExpiring, d_replaced_by_id := Some (new_row_of newRows objectID)\<rparr>"
    let ?u = "update_where ?P ?f rows"
    have one: "rows_affected ?P rows = 1" and rest: "retire_replaced items newRows ?u = Inr rows'"
      using "2.prems"(1) Some by (auto simp: Let_def split: if_splits)
    show ?thesis
    proof (cases "(ob, x) = (objectID, item)")
      case True
      obtain r where r: "r \<in> set rows" "?P r" using rows_affected_one [OF one] by blast
      have "?f r \<in> set ?u" using r by (auto simp: set_update_where)
      then have "?f r \<in> set rows'" using retire_keeps [OF rest] by simp
      then show ?thesis using r True Some "2.prems"(3) by (intro bexI [of _ "?f r"]) auto
    next
      case False
      then show ?thesis using "2.IH"(2) [OF Some refl _ rest] one "2.prems"(2,3) by auto
    qed
  qed
qed simp

lemma retire_rows:
  "retire_replaced items newRows rows = Inr rows' \<Longrightarrow> r \<in> set rows' \<Longrightarrow>
   r \<in> set rows \<or> (d_status r = DecisionExpiring \<and> (\<exists>(ob, x) \<in> set items. xi_old x = Some (d_id r) \<and> ob = d_object_id r) \<and>
     d_replaced_by_id r = Some (new_row_of newRows (d_object_id r)))"
proof (induction items newRows rows rule: retire_replaced.induct)
  case (2 objectID item items newRows rows)
  show ?case
  proof (cases "xi_old item")
    case None
    then show ?thesis using 2 by auto
  next
    case (Some old)
    let ?P = "\<lambda>r. d_id r = old \<and> d_object_id r = objectID \<and> d_status r = DecisionActive"
    let ?u = "update_where ?P (\<lambda>r. r\<lparr>d_status := DecisionExpiring, d_replaced_by_id := Some (new_row_of newRows objectID)\<rparr>) rows"
    have "rows_affected ?P rows = 1" "retire_replaced items newRows ?u = Inr rows'"
      using "2.prems" Some by (auto simp: Let_def split: if_splits)
    then have "r \<in> set ?u \<or> (d_status r = DecisionExpiring \<and> (\<exists>(ob, x) \<in> set items. xi_old x = Some (d_id r) \<and> ob = d_object_id r) \<and>
        d_replaced_by_id r = Some (new_row_of newRows (d_object_id r)))"
      using "2.IH"(2) [OF Some refl] "2.prems"(2) by auto
    then show ?thesis using Some by (auto simp: set_update_where)
  qed
qed simp

lemma decisions_valid_D:
  assumes "decisions_valid expected scenario now dur so sd ds"
  shows "(\<forall>dec \<in> set ds. \<exists>item. expected (vd_ObjectID dec) = Some item \<and> 0 < vd_DecisionID dec \<and>
      vd_Origin dec = ''crowdshield'' \<and> vd_Scenario dec = scenario \<and> vd_Scope dec = xi_scope item \<and>
      vd_Value dec = expectedObjectValue (xi_prefix item) (xi_scope item) \<and> now < vd_ExpiresAt dec \<and>
      vd_ExpiresAt dec \<le> now + wrap64 (dur * second + 10 * minute)) \<and>
    distinct (map vd_ObjectID ds) \<and> distinct (map vd_DecisionID ds) \<and>
    set so \<inter> vd_ObjectID ` set ds = {} \<and> set sd \<inter> vd_DecisionID ` set ds = {}"
  using assms
proof (induction ds arbitrary: so sd)
  case (Cons dec ds)
  then obtain item where i: "expected (vd_ObjectID dec) = Some item" by (auto split: option.splits)
  with Cons.prems have rest: "decisions_valid expected scenario now dur (vd_ObjectID dec # so) (vd_DecisionID dec # sd) ds"
    by (auto split: if_splits)
  from Cons.IH [OF rest] Cons.prems i show ?case by (auto split: if_splits)
qed simp

lemma select_items_distinct:
  assumes "operations_ok d"
  shows "distinct (map i_object_id (select_items d token))" "sorted (map i_object_id (select_items d token))"
    and "set (select_items d token) = {i \<in> set (lapi_operation_items d). i_operation_token i = token}"
proof -
  let ?f = "filter (\<lambda>r. i_operation_token r = token) (lapi_operation_items d)"
  have "distinct (map item_key ?f)" using assms by (auto simp: operations_ok_def intro: distinct_map_filter)
  then have "distinct ?f" "inj_on item_key (set ?f)" by (auto simp: distinct_map)
  then have "distinct (map i_object_id ?f)" by (auto simp: distinct_map inj_on_def item_key_def)
  then show "distinct (map i_object_id (select_items d token))" by (simp add: select_items_def)
  have "sorted_by (\<lambda>a b. cmp_Compare (i_object_id a) (i_object_id b)) (select_items d token)"
    unfolding select_items_def by (rule cmp_order.sorted_sort_cmp [OF cmp_order_key])
  then show "sorted (map i_object_id (select_items d token))" by (simp add: sorted_map)
  show "set (select_items d token) = {i \<in> set (lapi_operation_items d). i_operation_token i = token}"
    by (auto simp: select_items_def)
qed

definition object_of :: "db \<Rightarrow> int \<Rightarrow> object_row" where
  "object_of d i = the (row_at o_id (enforcement_objects d) i)"

definition expected_of :: "db \<Rightarrow> item_row \<Rightarrow> int \<times> expectedItem" where
  "expected_of d i = (i_object_id i, \<lparr>xi_prefix = object_prefix (object_of d (i_object_id i)),
     xi_scope = o_scope (object_of d (i_object_id i)), xi_old = i_old_decision_row_id i\<rparr>)"

lemma concat_singleton: "(\<And>x. x \<in> set xs \<Longrightarrow> f x = [g x]) \<Longrightarrow> concat (map f xs) = map g xs"
  by (induction xs) auto

lemma concat_if_filter: "concat (map (\<lambda>r. if P r then [f r] else []) xs) = map f (filter P xs)"
  by (induction xs) auto

lemma filter_key_single:
  assumes "distinct (map k rows)" and "r \<in> set rows"
  shows "filter (\<lambda>x. k x = k r) rows = [r]"
  using assms by (induction rows) (auto simp: filter_empty_conv image_iff)

lemma join_items_eq:
  assumes "operations_ok d" and "objects_ok d"
  shows "join_items d token = map (\<lambda>i. (i, object_of d (i_object_id i))) (select_items d token)"
  unfolding join_items_def
proof (rule concat_singleton)
  fix i
  assume "i \<in> set (select_items d token)"
  then have "i \<in> set (lapi_operation_items d)" by (simp add: select_items_distinct(3) [OF assms(1)])
  then have "i_object_id i \<in> o_id ` set (enforcement_objects d)" using assms(1) by (simp add: operations_ok_def)
  then obtain r where r: "r \<in> set (enforcement_objects d)" "o_id r = i_object_id i" by auto
  have dist: "distinct (map o_id (enforcement_objects d))" using assms(2) by (simp add: objects_ok_def)
  from row_at_mem [OF dist r(1)] r(2) have "object_of d (i_object_id i) = r" by (simp add: object_of_def)
  with filter_key_single [OF dist r(1)] r(2)
  show "concat (map (\<lambda>r. if o_id r = i_object_id i then [(i, r)] else []) (enforcement_objects d)) =
      [(i, object_of d (i_object_id i))]"
    by (simp add: concat_if_filter)
qed

lemma object_of_mem:
  assumes "operations_ok d" and "objects_ok d" and "i \<in> set (select_items d token)"
  shows "object_of d (i_object_id i) \<in> set (enforcement_objects d) \<and> o_id (object_of d (i_object_id i)) = i_object_id i"
proof -
  have "i_object_id i \<in> o_id ` set (enforcement_objects d)"
    using assms by (auto simp: select_items_distinct(3) [OF assms(1)] operations_ok_def)
  then obtain r where r: "r \<in> set (enforcement_objects d)" "o_id r = i_object_id i" by auto
  have "row_at o_id (enforcement_objects d) (o_id r) = Some r"
    using assms(2) r by (intro row_at_mem) (auto simp: objects_ok_def)
  with r show ?thesis by (simp add: object_of_def)
qed

lemma scan_expected_eq:
  assumes "operations_ok d" and "objects_ok d"
  shows "scan_rows scan_expected (join_items d token) = Inr (map (expected_of d) (select_items d token))"
proof -
  have "scan_expected x = Inr (expected_of d (fst x))" if "x \<in> set (join_items d token)" for x
  proof -
    from that obtain i where i: "i \<in> set (select_items d token)" "x = (i, object_of d (i_object_id i))"
      by (auto simp: join_items_eq [OF assms])
    have "object_row_ok (object_of d (i_object_id i))"
      using object_of_mem [OF assms i(1)] assms(2) by (auto simp: objects_ok_def)
    from object_row_ok_prefix [OF this] show ?thesis
      by (auto simp: i(2) scan_expected_def expected_of_def object_row_of_def NormalizePrefix_safe)
  qed
  then have "\<forall>x \<in> set (join_items d token). scan_expected x = Inr ((expected_of d \<circ> fst) x)" by simp
  from scan_rows_Inr [OF this] show ?thesis by (simp add: join_items_eq [OF assms] comp_def)
qed

lemma find_Some_mem: "find P xs = Some x \<Longrightarrow> x \<in> set xs \<and> P x"
  by (induction xs) (auto split: if_splits)

lemma RecordVerifiedOperation_cases:
  assumes "RecordVerifiedOperation token alert now d = (res, d')" and "operations_ok d" and "objects_ok d"
  obtains (error) e where "res = Inl e" and "d' = d"
  | (again) r where "r \<in> set (lapi_operations d)" and "op_token r = token"
      and "op_status r \<in> {OperationVerified, OperationCompleted}"
      and "res = Inr (queryOperationDecisions d token)" and "d' = d"
  | (stored) r f where "r \<in> set (lapi_operations d)" and "op_token r = token"
      and "op_status r \<in> {OperationPending, OperationAmbiguous}"
      and "f \<in> set (feeds d)" and "f_id f = op_feed_id r"
      and "va_Decisions alert \<noteq> []"
      and "length (va_Decisions alert) = length (select_items d token)"
      and "decisions_valid (map_of (map (expected_of d) (select_items d token))) (''crowdshield/'' @ f_name f) now
             (op_duration_seconds r) [] [] (va_Decisions alert)"
      and "\<exists>records. res = Inr records \<and>
             store_verified token alert now (map (expected_of d) (select_items d token)) d = (Inr records, d')"
proof -
  let ?join = "[(r, f). r \<leftarrow> lapi_operations d, f \<leftarrow> feeds d, f_id f = op_feed_id r]"
  have len: "length (remdups (map (fst \<circ> expected_of d) (select_items d token))) = length (select_items d token)"
    using select_items_distinct(1) [OF assms(2), of token]
    by (simp add: distinct_remdups_id comp_def expected_of_def)
  have sv: "store_verified token alert now ex d = (Inl e, d'') \<Longrightarrow> d'' = d" for ex e d''
    by (auto simp: store_verified_def Let_def split: if_splits sum.splits prod.splits)
  show ?thesis
  proof (cases "find (\<lambda>(r, f). op_token r = token) ?join")
    case None
    then have "\<exists>e. res = Inl e \<and> d' = d"
      using assms(1) by (auto simp: RecordVerifiedOperation_def split: if_splits)
    then show ?thesis using error by blast
  next
    case (Some rf)
    obtain r f where rf: "rf = (r, f)" by fastforce
    have "(r, f) \<in> set ?join" "op_token r = token"
      using find_Some_mem [OF Some] rf by auto
    then have m: "r \<in> set (lapi_operations d)" "op_token r = token" "f \<in> set (feeds d)" "f_id f = op_feed_id r"
      by auto
    show ?thesis
    proof (cases "op_status r \<in> {OperationVerified, OperationCompleted}")
      case True
      then have "(res = Inl ErrIntegrity \<or> res = Inl ErrConstraint \<or> res = Inr (queryOperationDecisions d token)) \<and> d' = d"
        using assms(1) Some rf by (auto simp: RecordVerifiedOperation_def Let_def split: if_splits)
      then show ?thesis using error again [OF m(1,2) True] by blast
    next
      case False
      show ?thesis
      proof (cases res)
        case (Inl e)
        then have "d' = d"
          using assms(1) Some rf False sv
          by (auto simp: RecordVerifiedOperation_def Let_def scan_expected_eq [OF assms(2,3)] split: if_splits)
        with Inl show ?thesis by (rule error)
      next
        case (Inr records)
        with assms(1) Some rf False
        have "op_status r \<in> {OperationPending, OperationAmbiguous}" "va_Decisions alert \<noteq> []"
            "length (va_Decisions alert) = length (select_items d token)"
            "decisions_valid (map_of (map (expected_of d) (select_items d token))) (''crowdshield/'' @ f_name f) now
             (op_duration_seconds r) [] [] (va_Decisions alert)"
            "store_verified token alert now (map (expected_of d) (select_items d token)) d = (Inr records, d')"
          unfolding RecordVerifiedOperation_def Let_def scan_expected_eq [OF assms(2,3)]
          by (auto simp: len split: if_splits)
        with Inr m show ?thesis by (intro stored [of r f]) auto
      qed
    qed
  qed
qed

text \<open>What a verified operation leaves behind, for an operation that was open.\<close>

lemma store_verified_D:
  assumes "store_verified token alert now ex d = (Inr records, d')"
  obtains rows newRows where "va_AlertID alert \<notin> a_alert_id ` set (lapi_alerts d)"
    and "token \<notin> a_operation_token ` set (lapi_alerts d)"
    and "insert_decisions (next_rowid (map a_id (lapi_alerts d))) now (va_Decisions alert) (lapi_decisions d) [] = Inr (rows, newRows)"
    and "retire_replaced ex (map_of newRows) rows = Inr (lapi_decisions d')"
    and "records = queryOperationDecisions d' token"
    and "d' = d\<lparr>lapi_alerts := lapi_alerts d @
              [\<lparr>a_id = next_rowid (map a_id (lapi_alerts d)), a_alert_id = va_AlertID alert, a_operation_token = token,
                a_machine_id = va_MachineID alert, a_origin = va_Origin alert,
                a_scenario = va_Scenario alert, a_verified_at = unix now, a_created_at = unix now\<rparr>],
            lapi_decisions := lapi_decisions d',
            lapi_operations := update_where (\<lambda>r. op_token r = token) (\<lambda>r. r\<lparr>op_status := OperationVerified\<rparr>) (lapi_operations d)\<rparr>"
  using assms by (auto simp: store_verified_def Let_def split: if_splits sum.splits prod.splits intro: that)

definition new_alert :: "string \<Rightarrow> VerifiedAlert \<Rightarrow> gotime \<Rightarrow> db \<Rightarrow> alert_row" where
  "new_alert token alert now d =
     \<lparr>a_id = next_rowid (map a_id (lapi_alerts d)), a_alert_id = va_AlertID alert, a_operation_token = token,
      a_machine_id = va_MachineID alert, a_origin = va_Origin alert,
      a_scenario = va_Scenario alert, a_verified_at = unix now, a_created_at = unix now\<rparr>"

lemma new_alert_simps [simp]:
  "a_id (new_alert token alert now d) = next_rowid (map a_id (lapi_alerts d))"
  "a_operation_token (new_alert token alert now d) = token"
  by (simp_all add: new_alert_def)

lemma stored_rows:
  assumes ok: "journal_ok d" and sv: "store_verified token alert now (map (expected_of d) (select_items d token)) d = (Inr records, d')"
  obtains new where
    "list_all2 (\<lambda>dec r. r = new_decision (next_rowid (map a_id (lapi_alerts d))) now dec (d_id r)) (va_Decisions alert) new"
    and "{r \<in> set (lapi_decisions d'). d_alert_row_id r = next_rowid (map a_id (lapi_alerts d))} = set new"
    and "map decision_static (lapi_decisions d') = map decision_static (lapi_decisions d @ new)"
    and "distinct (map d_id (lapi_decisions d @ new))" and "distinct (map d_decision_id (lapi_decisions d @ new))"
    and "\<forall>r \<in> set new. 0 < d_id r"
    and "\<forall>i \<in> set (select_items d token). \<forall>old. i_old_decision_row_id i = Some old \<longrightarrow>
      (\<exists>r \<in> set (lapi_decisions d'). d_id r = old \<and> d_object_id r = i_object_id i \<and> d_status r = DecisionExpiring \<and>
         d_replaced_by_id r = Some (new_row_of (map_of (map (\<lambda>r. (d_object_id r, d_id r)) new)) (i_object_id i)))"
    and "\<forall>r \<in> set (lapi_decisions d'). r \<in> set (lapi_decisions d @ new) \<or>
      (\<exists>i \<in> set (select_items d token). d_object_id r = i_object_id i \<and>
         d_replaced_by_id r = Some (new_row_of (map_of (map (\<lambda>r. (d_object_id r, d_id r)) new)) (i_object_id i)))"
proof -
  let ?ex = "map (expected_of d) (select_items d token)" and ?a = "next_rowid (map a_id (lapi_alerts d))"
  obtain rows newRows where
      ins: "insert_decisions ?a now (va_Decisions alert) (lapi_decisions d) [] = Inr (rows, newRows)"
      and ret: "retire_replaced ?ex (map_of newRows) rows = Inr (lapi_decisions d')"
    by (rule store_verified_D [OF sv])
  obtain new where n: "rows = lapi_decisions d @ new"
      "list_all2 (\<lambda>dec r. r = new_decision ?a now dec (d_id r)) (va_Decisions alert) new"
      "newRows = map (\<lambda>r. (d_object_id r, d_id r)) new"
      "\<forall>r \<in> set new. 0 < d_id r \<and> (\<forall>x \<in> set (lapi_decisions d). d_id x < d_id r)"
      "distinct (map d_id rows)" "distinct (map d_decision_id rows)"
    using insert_decisions_result [OF ins] ok by (auto simp: journal_ok_def decisions_ok_def)
  have al: "d_alert_row_id r = ?a" if "r \<in> set new" for r
    using n(2) that by (auto simp: list_all2_conv_all_nth in_set_conv_nth new_decision_def)
      (metis decision_row.select_convs(3))
  have old_al: "d_alert_row_id r \<noteq> ?a" if "r \<in> set (lapi_decisions d)" for r
  proof -
    have "d_alert_row_id r \<in> a_id ` set (lapi_alerts d)"
      using ok that by (auto simp: journal_ok_def decisions_ok_def)
    then show ?thesis using next_rowid_fresh [of "map a_id (lapi_alerts d)"] by auto
  qed
  have old_id: "old \<in> d_id ` set (lapi_decisions d)" if "(ob, x) \<in> set ?ex" "xi_old x = Some old" for ob x old
    using that ok by (auto simp: expected_of_def select_items_def journal_ok_def operations_ok_def)
  have fresh: "\<forall>(ob, x) \<in> set ?ex. xi_old x \<noteq> Some (d_id r)" if "r \<in> set new" for r
    using old_id n(4) that by fastforce
  have eq: "{r \<in> set (lapi_decisions d'). d_alert_row_id r = ?a} = set new"
  proof (intro equalityI subsetI)
    fix r
    assume "r \<in> {r \<in> set (lapi_decisions d'). d_alert_row_id r = ?a}"
    then have r: "r \<in> set (lapi_decisions d')" "d_alert_row_id r = ?a" by auto
    have "decision_static r \<in> decision_static ` set rows"
      using retire_static [OF ret] r(1) by (metis image_eqI list.set_map)
    then obtain x where x: "x \<in> set rows" "decision_static x = decision_static r" by auto
    then have "x \<in> set new" using n(1) old_al [of x] r(2) by (auto simp: decision_static_def)
    then have "\<not> (\<exists>(ob, y) \<in> set ?ex. xi_old y = Some (d_id r) \<and> ob = d_object_id r)"
      using fresh [of x] x(2) by (auto simp: decision_static_def)
    then have "r \<in> set rows" using retire_rows [OF ret r(1)] by blast
    then show "r \<in> set new" using n(1) old_al [of r] r(2) by auto
  next
    fix r
    assume "r \<in> set new"
    then show "r \<in> {r \<in> set (lapi_decisions d'). d_alert_row_id r = ?a}"
      using retire_keeps [OF ret, of r] n(1) fresh al by auto
  qed
  have done_rows: "\<forall>i \<in> set (select_items d token). \<forall>old. i_old_decision_row_id i = Some old \<longrightarrow>
      (\<exists>r \<in> set (lapi_decisions d'). d_id r = old \<and> d_object_id r = i_object_id i \<and> d_status r = DecisionExpiring \<and>
         d_replaced_by_id r = Some (new_row_of (map_of newRows) (i_object_id i)))"
  proof (intro ballI allI impI)
    fix i old
    assume i: "i \<in> set (select_items d token)" "i_old_decision_row_id i = Some old"
    then have "(i_object_id i, snd (expected_of d i)) \<in> set ?ex" by (auto simp: expected_of_def intro!: image_eqI [of _ _ i])
    from retire_done [OF ret this] i(2)
    show "\<exists>r \<in> set (lapi_decisions d'). d_id r = old \<and> d_object_id r = i_object_id i \<and> d_status r = DecisionExpiring \<and>
         d_replaced_by_id r = Some (new_row_of (map_of newRows) (i_object_id i))"
      by (simp add: expected_of_def)
  qed
  have links: "\<forall>r \<in> set (lapi_decisions d'). r \<in> set rows \<or> (\<exists>i \<in> set (select_items d token). d_object_id r = i_object_id i \<and>
      d_replaced_by_id r = Some (new_row_of (map_of newRows) (i_object_id i)))"
    using retire_rows [OF ret] by (fastforce simp: expected_of_def)
  show ?thesis
    using that [of new] n retire_static [OF ret] eq done_rows links by simp
qed

lemma stored_frame:
  assumes "store_verified token alert now ex d = (Inr records, d')"
  shows "lapi_alerts d' = lapi_alerts d @ [new_alert token alert now d]"
    and "lapi_operations d' = update_where (\<lambda>r. op_token r = token) (\<lambda>r. r\<lparr>op_status := OperationVerified\<rparr>) (lapi_operations d)"
    and "feeds d' = feeds d" and "enforcement_objects d' = enforcement_objects d"
    and "lapi_operation_items d' = lapi_operation_items d" and "records = queryOperationDecisions d' token"
    and "token \<notin> a_operation_token ` set (lapi_alerts d)" and "va_AlertID alert \<notin> a_alert_id ` set (lapi_alerts d)"
    and "enforcement_sources d' = enforcement_sources d" and "feed_entries d' = feed_entries d"
  using assms by (auto simp: store_verified_def Let_def new_alert_def split: if_splits sum.splits prod.splits)

lemma map_factor:
  assumes "\<And>x y. g x = g y \<Longrightarrow> f x = f y" and "map g xs = map g ys"
  shows "map f xs = map f ys"
proof -
  have "list_all2 (\<lambda>x y. g x = g y) xs ys"
    using assms(2) by (simp add: list_all2_conv_all_nth list_eq_iff_nth_eq)
  then have "list_all2 (\<lambda>x y. f x = f y) xs ys"
    by (rule list_all2_mono) (rule assms(1))
  then show ?thesis by (simp add: list_all2_conv_all_nth list_eq_iff_nth_eq)
qed

lemma new_rows_objects:
  assumes "list_all2 (\<lambda>dec r. r = new_decision a now dec (d_id r)) ds new"
  shows "map d_object_id new = map vd_ObjectID ds"
    and "\<forall>r \<in> set new. \<exists>dec \<in> set ds. r = new_decision a now dec (d_id r)"
proof -
  have nth: "length ds = length new" "new ! n = new_decision a now (ds ! n) (d_id (new ! n))" if "n < length new" for n
    using assms that by (auto simp: list_all2_conv_all_nth)
  have len: "length ds = length new" using assms by (rule list_all2_lengthD)
  show "map d_object_id new = map vd_ObjectID ds"
    by (rule nth_equalityI) (simp_all add: len, metis nth(2) new_decision_def decision_row.select_convs(2))
  show "\<forall>r \<in> set new. \<exists>dec \<in> set ds. r = new_decision a now dec (d_id r)"
    using nth(2) len by (metis in_set_conv_nth)
qed

text \<open>Every link of a row after a verified operation leads to an old or a new row.\<close>

lemma linked_rows:
  assumes ok: "journal_ok d" and l: "list_all2 (\<lambda>dec r. r = new_decision a now dec (d_id r)) (va_Decisions alert) new"
    and all: "i_object_id ` set (select_items d token) \<subseteq> vd_ObjectID ` set (va_Decisions alert)"
    and links: "\<forall>r \<in> set (lapi_decisions d'). r \<in> set (lapi_decisions d @ new) \<or>
      (\<exists>i \<in> set (select_items d token). d_object_id r = i_object_id i \<and>
         d_replaced_by_id r = Some (new_row_of (map_of (map (\<lambda>r. (d_object_id r, d_id r)) new)) (i_object_id i)))"
    and x: "x \<in> set (lapi_decisions d')" "d_replaced_by_id x = Some m"
  shows "m \<in> d_id ` set (lapi_decisions d) \<union> d_id ` set new"
proof -
  note obs = new_rows_objects [OF l]
  from links x(1) consider "x \<in> set (lapi_decisions d)" | "x \<in> set new"
    | i where "i \<in> set (select_items d token)" "d_replaced_by_id x = Some (new_row_of (map_of (map (\<lambda>r. (d_object_id r, d_id r)) new)) (i_object_id i))"
    by auto
  then show ?thesis
  proof cases
    case 1
    with ok x(2) show ?thesis by (auto simp: journal_ok_def decisions_ok_def)
  next
    case 2
    with obs(2) have "d_replaced_by_id x = None" by (metis new_decision_def decision_row.select_convs(13))
    with x(2) show ?thesis by simp
  next
    case 3
    have "i_object_id i \<in> d_object_id ` set new" using 3(1) all arg_cong [OF obs(1), of set] by auto
    then have "i_object_id i \<in> dom (map_of (map (\<lambda>r. (d_object_id r, d_id r)) new))"
      by (simp add: dom_map_of_conv_image_fst image_image)
    then obtain k where k: "map_of (map (\<lambda>r. (d_object_id r, d_id r)) new) (i_object_id i) = Some k" by blast
    from map_of_SomeD [OF this] 3(2) x(2) k show ?thesis by auto
  qed
qed

text \<open>The decisions of a verified alert are those the journal expects.\<close>

lemma verified_objects:
  assumes ops: "operations_ok d"
    and valid: "decisions_valid (map_of (map (expected_of d) (select_items d token))) scenario now dur [] [] ds"
    and len: "length ds = length (select_items d token)"
  shows "vd_ObjectID ` set ds = i_object_id ` set (select_items d token)"
proof (rule card_subset_eq)
  note dv = decisions_valid_D [OF valid]
  show "vd_ObjectID ` set ds \<subseteq> i_object_id ` set (select_items d token)"
    using dv by (fastforce simp: expected_of_def dest: map_of_SomeD)
  show "card (vd_ObjectID ` set ds) = card (i_object_id ` set (select_items d token))"
    using dv select_items_distinct(1) [OF ops, of token] len
    by (metis (no_types, lifting) distinct_card length_map list.set_map)
qed simp

lemma stored_journal_ok:
  assumes ok: "journal_ok d" and ok2: "objects_ok d"
    and sv: "store_verified token alert now (map (expected_of d) (select_items d token)) d = (Inr records, d')"
    and obs: "\<forall>dec \<in> set (va_Decisions alert). vd_ObjectID dec \<in> o_id ` set (enforcement_objects d)"
    and all: "i_object_id ` set (select_items d token) \<subseteq> vd_ObjectID ` set (va_Decisions alert)"
    and op: "r \<in> set (lapi_operations d)" "op_token r = token" "op_status r \<in> {OperationPending, OperationAmbiguous}"
  shows "journal_ok d'"
  using ok sv
proof (rule stored_rows)
  fix new
  let ?a = "next_rowid (map a_id (lapi_alerts d))"
  assume l: "list_all2 (\<lambda>dec r. r = new_decision ?a now dec (d_id r)) (va_Decisions alert) new"
    and st: "map decision_static (lapi_decisions d') = map decision_static (lapi_decisions d @ new)"
    and dist: "distinct (map d_id (lapi_decisions d @ new))" "distinct (map d_decision_id (lapi_decisions d @ new))"
    and pos: "\<forall>r \<in> set new. 0 < d_id r"
    and links: "\<forall>r \<in> set (lapi_decisions d'). r \<in> set (lapi_decisions d @ new) \<or>
      (\<exists>i \<in> set (select_items d token). d_object_id r = i_object_id i \<and>
         d_replaced_by_id r = Some (new_row_of (map_of (map (\<lambda>r. (d_object_id r, d_id r)) new)) (i_object_id i)))"
  note fr = stored_frame [OF sv]
  note proj = map_factor [OF _ st]
  have ids: "map d_id (lapi_decisions d') = map d_id (lapi_decisions d @ new)"
      "map d_decision_id (lapi_decisions d') = map d_decision_id (lapi_decisions d @ new)"
    by (rule proj; simp add: decision_static_def)+
  have new_al: "d_alert_row_id x = ?a \<and> d_object_id x \<in> o_id ` set (enforcement_objects d)" if "x \<in> set new" for x
  proof -
    from that obtain n where n: "n < length new" "x = new ! n" by (metis in_set_conv_nth)
    then have "x = new_decision ?a now (va_Decisions alert ! n) (d_id x)" "va_Decisions alert ! n \<in> set (va_Decisions alert)"
      using l by (auto simp: list_all2_conv_all_nth)
    then show ?thesis using obs by (metis new_decision_def decision_row.select_convs(2,3))
  qed
  have alerts: "?a \<notin> a_id ` set (lapi_alerts d)" using next_rowid_fresh [of "map a_id (lapi_alerts d)"] by simp
  have "0 < d_id x \<and> d_alert_row_id x \<in> a_id ` set (lapi_alerts d') \<and> d_object_id x \<in> o_id ` set (enforcement_objects d')"
    if "x \<in> set (lapi_decisions d')" for x
  proof -
    have "decision_static x \<in> set (map decision_static (lapi_decisions d @ new))"
      using that st by (metis image_eqI list.set_map)
    then obtain y where y: "y \<in> set (lapi_decisions d) \<or> y \<in> set new" "decision_static x = decision_static y" by auto
    then show ?thesis
      using ok pos new_al fr(1,4) by (auto simp: decision_static_def journal_ok_def decisions_ok_def new_alert_def)
  qed
  moreover have "distinct (map a_id (lapi_alerts d'))" "distinct (map a_alert_id (lapi_alerts d'))"
      "distinct (map a_operation_token (lapi_alerts d'))"
    using ok fr(1,7,8) alerts by (auto simp: journal_ok_def decisions_ok_def new_alert_def)
  moreover have dset: "d_id ` set (lapi_decisions d') = d_id ` set (lapi_decisions d) \<union> d_id ` set new"
    using arg_cong [OF ids(1), of set] by auto
  moreover have "m \<in> d_id ` set (lapi_decisions d')" if "x \<in> set (lapi_decisions d')" "d_replaced_by_id x = Some m" for x m
    using linked_rows [OF ok l all links that] dset by blast
  ultimately have dec: "decisions_ok d'" using dist ids by (simp add: decisions_ok_def)
  have "op_feed_id x \<in> f_id ` set (feeds d') \<and> 1 \<le> op_duration_seconds x \<and> op_duration_seconds x \<le> 604800 \<and>
        (op_completed_at x \<noteq> None \<longleftrightarrow> op_status x \<in> {OperationCompleted, OperationFailed})"
    if x: "x \<in> set (lapi_operations d')" for x
  proof -
    from x obtain y where y: "y \<in> set (lapi_operations d)"
        "x = (if op_token y = token then y\<lparr>op_status := OperationVerified\<rparr> else y)"
      by (auto simp: fr(2) update_where_def)
    have facts: "op_feed_id y \<in> f_id ` set (feeds d') \<and> 1 \<le> op_duration_seconds y \<and> op_duration_seconds y \<le> 604800 \<and>
        (op_completed_at y \<noteq> None \<longleftrightarrow> op_status y \<in> {OperationCompleted, OperationFailed})"
      using ok y(1) unfolding journal_ok_def operations_ok_def fr(3) by blast
    show ?thesis
    proof (cases "op_token y = token")
      case True
      then have "y = r"
        using y(1) op ok inj_onD [of op_token "set (lapi_operations d)" y r]
        by (simp add: journal_ok_def operations_ok_def distinct_map)
      with True facts y(2) op(3) show ?thesis by auto
    qed (use facts y(2) in simp)
  qed
  moreover have "op_token ` set (lapi_operations d') = op_token ` set (lapi_operations d)"
      "distinct (map op_token (lapi_operations d'))"
    using ok by (auto simp: fr image_update_where distinct_update_where journal_ok_def operations_ok_def)
  ultimately have "operations_ok d'"
    using ok dset unfolding journal_ok_def operations_ok_def fr(4,5) by blast
  with dec show ?thesis by (simp add: journal_ok_def)
qed

lemma RecordVerifiedOperation_journal_ok:
  assumes "journal_ok d" and "objects_ok d" and "RecordVerifiedOperation token alert now d = (res, d')"
  shows "journal_ok d'"
proof -
  have ops: "operations_ok d" using assms(1) by (simp add: journal_ok_def)
  from assms(3) ops assms(2) show ?thesis
  proof (cases rule: RecordVerifiedOperation_cases)
    case (stored r f)
    from stored(9) obtain records where
      sv: "store_verified token alert now (map (expected_of d) (select_items d token)) d = (Inr records, d')" by blast
    have "vd_ObjectID dec \<in> o_id ` set (enforcement_objects d)" if "dec \<in> set (va_Decisions alert)" for dec
    proof -
      from decisions_valid_D [OF stored(8)] that
      obtain item where "map_of (map (expected_of d) (select_items d token)) (vd_ObjectID dec) = Some item" by blast
      then have "(vd_ObjectID dec, item) \<in> set (map (expected_of d) (select_items d token))" by (rule map_of_SomeD)
      then obtain i where "i \<in> set (select_items d token)" "vd_ObjectID dec = i_object_id i"
        by (auto simp: expected_of_def)
      with object_of_mem [OF ops assms(2)] show ?thesis by (metis image_eqI)
    qed
    moreover have "i_object_id ` set (select_items d token) \<subseteq> vd_ObjectID ` set (va_Decisions alert)"
      using verified_objects [OF ops stored(8,7)] by simp
    ultimately show ?thesis using stored_journal_ok [OF assms(1,2) sv _ _ stored(1-3)] by blast
  qed (use assms(1) in simp_all)
qed

subsection \<open>Facts: reading the journal back\<close>

definition alert_of :: "db \<Rightarrow> decision_row \<Rightarrow> alert_row" where
  "alert_of d r = the (row_at a_id (lapi_alerts d) (d_alert_row_id r))"

lemma alert_of_mem:
  assumes "decisions_ok d" and "r \<in> set (lapi_decisions d)"
  shows "alert_of d r \<in> set (lapi_alerts d) \<and> a_id (alert_of d r) = d_alert_row_id r"
proof -
  from assms have "d_alert_row_id r \<in> a_id ` set (lapi_alerts d)" by (simp add: decisions_ok_def)
  then obtain a where a: "a \<in> set (lapi_alerts d)" "a_id a = d_alert_row_id r" by auto
  have "row_at a_id (lapi_alerts d) (a_id a) = Some a"
    using assms(1) a(1) by (intro row_at_mem) (auto simp: decisions_ok_def)
  with a show ?thesis by (simp add: alert_of_def)
qed

lemma decisionSelect_eq:
  assumes "decisions_ok d"
  shows "decisionSelect d = map (\<lambda>r. (r, alert_of d r)) (lapi_decisions d)"
  unfolding decisionSelect_def
proof (rule concat_singleton)
  fix r
  assume "r \<in> set (lapi_decisions d)"
  from alert_of_mem [OF assms this] have m: "alert_of d r \<in> set (lapi_alerts d)" "a_id (alert_of d r) = d_alert_row_id r" by auto
  have "distinct (map a_id (lapi_alerts d))" using assms by (simp add: decisions_ok_def)
  from filter_key_single [OF this m(1)] m(2)
  show "concat (map (\<lambda>a. if a_id a = d_alert_row_id r then [(r, a)] else []) (lapi_alerts d)) = [(r, alert_of d r)]"
    by (simp add: concat_if_filter)
qed

definition operation_rows :: "db \<Rightarrow> string \<Rightarrow> decision_row list" where
  "operation_rows d token = map fst (sort_cmp (\<lambda>a b. cmp_Compare (d_object_id (fst a)) (d_object_id (fst b)))
     (filter (\<lambda>(r, a). a_operation_token a = token) (decisionSelect d)))"

lemma operation_rows_facts:
  assumes "decisions_ok d"
  shows "queryOperationDecisions d token = map (\<lambda>r. scanDecision (r, alert_of d r)) (operation_rows d token)"
    and "set (operation_rows d token) = {r \<in> set (lapi_decisions d). a_operation_token (alert_of d r) = token}"
    and "sorted (map d_object_id (operation_rows d token))" and "distinct (map d_id (operation_rows d token))"
proof -
  let ?f = "filter (\<lambda>(r, a). a_operation_token a = token) (decisionSelect d)"
  let ?c = "\<lambda>(a :: decision_row \<times> alert_row) b. cmp_Compare (d_object_id (fst a)) (d_object_id (fst b))"
  have f: "?f = map (\<lambda>r. (r, alert_of d r)) (filter (\<lambda>r. a_operation_token (alert_of d r) = token) (lapi_decisions d))"
    by (simp add: decisionSelect_eq [OF assms] filter_map comp_def)
  have m: "x = (fst x, alert_of d (fst x))" if "x \<in> set (sort_cmp ?c ?f)" for x
    using that by (auto simp: f)
  show "queryOperationDecisions d token = map (\<lambda>r. scanDecision (r, alert_of d r)) (operation_rows d token)"
    using m by (auto simp: queryOperationDecisions_def operation_rows_def)
  show "set (operation_rows d token) = {r \<in> set (lapi_decisions d). a_operation_token (alert_of d r) = token}"
    by (auto simp: operation_rows_def f image_image)
  have "sorted_by ?c (sort_cmp ?c ?f)" by (rule cmp_order.sorted_sort_cmp [OF cmp_order_key])
  then show "sorted (map d_object_id (operation_rows d token))" by (simp add: operation_rows_def sorted_map)
  have "distinct (map (d_id \<circ> fst) ?f)"
    using assms by (simp add: f comp_def decisions_ok_def distinct_map_filter)
  then show "distinct (map d_id (operation_rows d token))" by (simp add: operation_rows_def comp_def)
qed

text \<open>The decision that a verified operation records for the object of a journal item.\<close>

definition records_item :: "db \<Rightarrow> operation_row \<Rightarrow> gotime \<Rightarrow> item_row \<Rightarrow> DecisionRecord \<Rightarrow> bool" where
  "records_item d r now i rec \<longleftrightarrow>
     (let ob = object_of d (i_object_id i) in
      dr_ObjectID rec = i_object_id i \<and> dr_OperationToken rec = op_token r \<and> dr_Status rec = DecisionActive \<and>
      dr_Origin rec = ''crowdshield'' \<and> dr_Scope rec = o_scope ob \<and>
      dr_Value rec = expectedObjectValue (object_prefix ob) (o_scope ob) \<and>
      (\<exists>f \<in> set (feeds d). f_id f = op_feed_id r \<and> dr_Scenario rec = ''crowdshield/'' @ f_name f) \<and>
      (\<exists>expires. now < expires \<and> expires \<le> now + wrap64 (op_duration_seconds r * second + 10 * minute) \<and>
         dr_ExpiresAt rec = time_Unix (unix expires)) \<and>
      dr_ReplacedByID rec = None)"

lemma stored_operation_rows:
  assumes ok: "journal_ok d" "objects_ok d" "journal_ok d'"
    and sv: "store_verified token alert now (map (expected_of d) (select_items d token)) d = (Inr records, d')"
    and valid: "decisions_valid (map_of (map (expected_of d) (select_items d token))) scenario now dur [] [] (va_Decisions alert)"
    and len: "length (va_Decisions alert) = length (select_items d token)"
    and new: "{r \<in> set (lapi_decisions d'). d_alert_row_id r = next_rowid (map a_id (lapi_alerts d))} = set new"
      "map d_object_id new = map vd_ObjectID (va_Decisions alert)"
  shows "set (operation_rows d' token) = set new"
    and "\<forall>r \<in> set new. alert_of d' r = new_alert token alert now d"
    and "map d_object_id (operation_rows d' token) = map i_object_id (select_items d token)"
proof -
  let ?a = "next_rowid (map a_id (lapi_alerts d))"
  note fr = stored_frame [OF sv] and dv = decisions_valid_D [OF valid]
  have dec: "decisions_ok d'" and ops: "operations_ok d" using ok by (simp_all add: journal_ok_def)
  have na: "alert_of d' r = new_alert token alert now d" if "r \<in> set (lapi_decisions d')" "d_alert_row_id r = ?a" for r
  proof -
    have "distinct (map a_id (lapi_alerts d'))" using dec by (simp add: decisions_ok_def)
    moreover have "new_alert token alert now d \<in> set (lapi_alerts d')" by (simp add: fr(1))
    ultimately have "row_at a_id (lapi_alerts d') (a_id (new_alert token alert now d)) = Some (new_alert token alert now d)"
      by (rule row_at_mem)
    then show ?thesis using that by (simp add: alert_of_def new_alert_def)
  qed
  show al: "\<forall>r \<in> set new. alert_of d' r = new_alert token alert now d"
    using na new(1) by blast
  have tok: "d_alert_row_id r = ?a" if "r \<in> set (lapi_decisions d')" "a_operation_token (alert_of d' r) = token" for r
  proof -
    have "alert_of d' r = new_alert token alert now d"
      using alert_of_mem [OF dec that(1)] that(2) fr(1,7) by auto
    then show ?thesis using alert_of_mem [OF dec that(1)] by simp
  qed
  show rows: "set (operation_rows d' token) = set new"
    unfolding operation_rows_facts(2) [OF dec] new(1) [symmetric]
    using tok na by auto
  have dist: "distinct (map d_object_id new)" using dv new(2) by simp
  have eq: "vd_ObjectID ` set (va_Decisions alert) = i_object_id ` set (select_items d token)"
    by (rule verified_objects [OF ops valid len])
  have setnew: "d_object_id ` set new = vd_ObjectID ` set (va_Decisions alert)"
    using arg_cong [OF new(2), of set] by simp
  show "map d_object_id (operation_rows d' token) = map i_object_id (select_items d token)"
  proof (rule sorted_distinct_set_unique)
    show "sorted (map d_object_id (operation_rows d' token))" by (rule operation_rows_facts(3) [OF dec])
    have "distinct (operation_rows d' token)"
      using operation_rows_facts(4) [OF dec] by (simp add: distinct_map)
    then show "distinct (map d_object_id (operation_rows d' token))"
      using dist rows by (simp add: distinct_map)
    show "sorted (map i_object_id (select_items d token))" "distinct (map i_object_id (select_items d token))"
      by (rule select_items_distinct [OF ops])+
    show "set (map d_object_id (operation_rows d' token)) = set (map i_object_id (select_items d token))"
      using rows setnew eq by simp
  qed
qed

lemma stored_records:
  assumes ok: "journal_ok d" "objects_ok d" "journal_ok d'"
    and r: "op_token r = token" "f \<in> set (feeds d)" "f_id f = op_feed_id r"
    and sv: "store_verified token alert now (map (expected_of d) (select_items d token)) d = (Inr records, d')"
    and valid: "decisions_valid (map_of (map (expected_of d) (select_items d token))) (''crowdshield/'' @ f_name f) now
      (op_duration_seconds r) [] [] (va_Decisions alert)"
    and len: "length (va_Decisions alert) = length (select_items d token)"
  shows "list_all2 (records_item d r now) (select_items d token) records" (is ?A)
    and "\<forall>i \<in> set (select_items d token). \<forall>old. i_old_decision_row_id i = Some old \<longrightarrow>
      (\<exists>x \<in> set (lapi_decisions d'). \<exists>rec \<in> set records. d_id x = old \<and> d_object_id x = i_object_id i \<and>
         d_status x = DecisionExpiring \<and> dr_ObjectID rec = i_object_id i \<and> d_replaced_by_id x = Some (dr_ID rec))" (is ?B)
proof -
  let ?a = "next_rowid (map a_id (lapi_alerts d))" and ?items = "select_items d token"
  obtain new where n: "list_all2 (\<lambda>dec r. r = new_decision ?a now dec (d_id r)) (va_Decisions alert) new"
      "{r \<in> set (lapi_decisions d'). d_alert_row_id r = ?a} = set new"
      "\<forall>i \<in> set ?items. \<forall>old. i_old_decision_row_id i = Some old \<longrightarrow>
      (\<exists>r \<in> set (lapi_decisions d'). d_id r = old \<and> d_object_id r = i_object_id i \<and> d_status r = DecisionExpiring \<and>
         d_replaced_by_id r = Some (new_row_of (map_of (map (\<lambda>r. (d_object_id r, d_id r)) new)) (i_object_id i)))"
    by (rule stored_rows [OF ok(1) sv])
  note obs = new_rows_objects [OF n(1)]
  note rows = stored_operation_rows [OF ok sv valid len n(2) obs(1)]
  have dec: "decisions_ok d'" and ops: "operations_ok d" using ok by (simp_all add: journal_ok_def)
  have recs: "records = map (\<lambda>r. scanDecision (r, alert_of d' r)) (operation_rows d' token)"
    using operation_rows_facts(1) [OF dec] stored_frame(6) [OF sv] by simp
  have item: "records_item d r now i (scanDecision (x, alert_of d' x))"
    if i: "i \<in> set ?items" and x: "x \<in> set new" "d_object_id x = i_object_id i" for i x
  proof -
    obtain dec where dc: "dec \<in> set (va_Decisions alert)" "x = new_decision ?a now dec (d_id x)" using obs(2) x(1) by blast
    have ob: "vd_ObjectID dec = i_object_id i" using dc(2) x(2) by (metis new_decision_def decision_row.select_convs(2))
    have "map_of (map (expected_of d) ?items) (i_object_id i) = Some (snd (expected_of d i))"
      using i select_items_distinct(1) [OF ops, of token]
      by (intro map_of_is_SomeI) (force simp: expected_of_def comp_def)+
    with decisions_valid_D [OF valid] dc(1) ob
    have "vd_Origin dec = ''crowdshield''" "vd_Scenario dec = ''crowdshield/'' @ f_name f"
        "vd_Scope dec = o_scope (object_of d (i_object_id i))"
        "vd_Value dec = expectedObjectValue (object_prefix (object_of d (i_object_id i))) (o_scope (object_of d (i_object_id i)))"
        "now < vd_ExpiresAt dec" "vd_ExpiresAt dec \<le> now + wrap64 (op_duration_seconds r * second + 10 * minute)"
      by (force simp: expected_of_def)+
    then show ?thesis
      using x(1) rows(2) r ob by (subst dc(2)) (auto simp: records_item_def Let_def scanDecision_def new_decision_def)
  qed
  have l: "length (operation_rows d' token) = length ?items" using rows(3) by (metis length_map)
  show ?A
    unfolding recs list_all2_conv_all_nth
  proof (intro conjI allI impI)
    fix n
    assume "n < length ?items"
    moreover from this have "d_object_id (operation_rows d' token ! n) = i_object_id (?items ! n)"
      using rows(3) l by (metis nth_map)
    ultimately show "records_item d r now (?items ! n) (map (\<lambda>r. scanDecision (r, alert_of d' r)) (operation_rows d' token) ! n)"
      using item [OF nth_mem, of n "operation_rows d' token ! n"] nth_mem [of n "operation_rows d' token"] l rows(1) by simp
  qed (simp add: l)
  show ?B
  proof (intro ballI allI impI)
    fix i old
    assume i: "i \<in> set ?items" "i_old_decision_row_id i = Some old"
    then obtain x where x: "x \<in> set (lapi_decisions d')" "d_id x = old" "d_object_id x = i_object_id i"
        "d_status x = DecisionExpiring"
        "d_replaced_by_id x = Some (new_row_of (map_of (map (\<lambda>r. (d_object_id r, d_id r)) new)) (i_object_id i))"
      using n(3) by blast
    have "i_object_id i \<in> d_object_id ` set new"
      using i(1) rows(1) arg_cong [OF rows(3), of set] by auto
    then have "i_object_id i \<in> dom (map_of (map (\<lambda>r. (d_object_id r, d_id r)) new))"
      by (simp add: dom_map_of_conv_image_fst image_image)
    then obtain k where k: "map_of (map (\<lambda>r. (d_object_id r, d_id r)) new) (i_object_id i) = Some k" by blast
    from map_of_SomeD [OF this] obtain y where y: "y \<in> set new" "d_object_id y = i_object_id i" "d_id y = k" by auto
    then have "scanDecision (y, alert_of d' y) \<in> set records" using rows(1) by (simp add: recs)
    with x y k show "\<exists>x \<in> set (lapi_decisions d'). \<exists>rec \<in> set records. d_id x = old \<and> d_object_id x = i_object_id i \<and>
         d_status x = DecisionExpiring \<and> dr_ObjectID rec = i_object_id i \<and> d_replaced_by_id x = Some (dr_ID rec)"
      by (intro bexI [of _ x] bexI [of _ "scanDecision (y, alert_of d' y)"]) (auto simp: scanDecision_def)
  qed
qed

lemma RecordVerifiedOperation_again:
  assumes "journal_ok d" and "op \<in> set (lapi_operations d)" and "op_token op = token" and "op_status op = OperationVerified"
    and "queryOperationDecisions d token \<noteq> []" and "stateOperationToken token" and "\<not> IsZero now"
    and "0 < va_AlertID alert" and "va_Origin alert = ''crowdshield''" and "validBoundedText (va_MachineID alert) 1 128"
  shows "RecordVerifiedOperation token alert now d = (Inr (queryOperationDecisions d token), d)"
proof -
  let ?join = "[(r, f). r \<leftarrow> lapi_operations d, f \<leftarrow> feeds d, f_id f = op_feed_id r]"
  have "op_feed_id op \<in> f_id ` set (feeds d)" using assms(1,2) by (simp add: journal_ok_def operations_ok_def)
  then obtain f where "f \<in> set (feeds d)" "f_id f = op_feed_id op" by auto
  then have "(op, f) \<in> set ?join" using assms(2) by auto
  then have "find (\<lambda>(r, f). op_token r = token) ?join \<noteq> None" using assms(3) by (auto simp: find_None_iff)
  then obtain x g where x: "find (\<lambda>(r, f). op_token r = token) ?join = Some (x, g)" by fastforce
  have "x \<in> set (lapi_operations d)" "op_token x = token" using find_Some_mem [OF x] by auto
  then have "x = op"
    using assms(1-3) inj_onD [of op_token "set (lapi_operations d)" x op]
    by (simp add: journal_ok_def operations_ok_def distinct_map)
  with assms x show ?thesis by (simp add: RecordVerifiedOperation_def Let_def)
qed

subsection \<open>Facts: the other operations of the journal\<close>

lemma operations_ok_update:
  assumes "operations_ok d" and "\<And>r. op_token (g r) = op_token r \<and> op_feed_id (g r) = op_feed_id r \<and>
      op_duration_seconds (g r) = op_duration_seconds r"
    and "\<And>r. r \<in> set (lapi_operations d) \<Longrightarrow> P r \<Longrightarrow>
      op_completed_at (g r) \<noteq> None \<longleftrightarrow> op_status (g r) \<in> {OperationCompleted, OperationFailed}"
  shows "operations_ok (d\<lparr>lapi_operations := update_where P g (lapi_operations d)\<rparr>)"
proof -
  let ?ops = "update_where P g (lapi_operations d)"
  have "op_feed_id x \<in> f_id ` set (feeds d) \<and> 1 \<le> op_duration_seconds x \<and> op_duration_seconds x \<le> 604800 \<and>
      (op_completed_at x \<noteq> None \<longleftrightarrow> op_status x \<in> {OperationCompleted, OperationFailed})" if "x \<in> set ?ops" for x
  proof -
    from that obtain y where y: "y \<in> set (lapi_operations d)" "x = (if P y then g y else y)"
      by (auto simp: update_where_def)
    have "op_feed_id y \<in> f_id ` set (feeds d) \<and> 1 \<le> op_duration_seconds y \<and> op_duration_seconds y \<le> 604800 \<and>
        (op_completed_at y \<noteq> None \<longleftrightarrow> op_status y \<in> {OperationCompleted, OperationFailed})"
      using assms(1) y(1) unfolding operations_ok_def by blast
    then show ?thesis using assms(2) [of y] assms(3) [of y] y by (cases "P y") simp_all
  qed
  moreover have "distinct (map op_token ?ops)" "op_token ` set ?ops = op_token ` set (lapi_operations d)"
    using assms(1,2) by (simp_all add: operations_ok_def distinct_update_where image_update_where)
  ultimately show ?thesis using assms(1) by (simp add: operations_ok_def)
qed

lemma CompleteOperation_journal_ok:
  assumes "journal_ok d" and "CompleteOperation token now d = (res, d')"
  shows "journal_ok d'"
proof -
  have "operations_ok (d\<lparr>lapi_operations := update_where (\<lambda>r. op_token r = token \<and> op_status r \<in> {OperationVerified, OperationCompleted})
      (\<lambda>r. r\<lparr>op_status := OperationCompleted, op_completed_at := Some (unix now)\<rparr>) (lapi_operations d)\<rparr>)"
    using assms(1) by (intro operations_ok_update) (auto simp: journal_ok_def)
  then show ?thesis
    using assms by (auto simp: CompleteOperation_def Let_def journal_ok_def decisions_ok_def split: if_splits)
qed

lemma SetOperationStatus_journal_ok:
  assumes "journal_ok d" and "SetOperationStatus token status category now d = (res, d')"
  shows "journal_ok d'"
proof (cases "status = OperationAmbiguous \<or> status = OperationFailed")
  case True
  then have "operations_ok (d\<lparr>lapi_operations := update_where
      (\<lambda>r. op_token r = token \<and> op_status r \<in> {OperationPending, OperationAmbiguous})
      (\<lambda>r. r\<lparr>op_status := status, op_completed_at := if status = OperationFailed then Some (unix now) else None,
        op_error_category := category\<rparr>) (lapi_operations d)\<rparr>)"
    using assms(1) by (intro operations_ok_update) (auto simp: journal_ok_def)
  then show ?thesis
    using assms by (auto simp: SetOperationStatus_def Let_def journal_ok_def decisions_ok_def split: if_splits)
next
  case False
  then show ?thesis using assms by (auto simp: SetOperationStatus_def split: if_splits)
qed

lemma MarkDecisionExpired_journal_ok:
  assumes "journal_ok d" and "MarkDecisionExpired row now d = (res, d')"
  shows "journal_ok d'"
proof -
  let ?P = "\<lambda>r. d_id r = row \<and> d_status r \<in> {DecisionActive, DecisionExpiring}"
  let ?g = "\<lambda>r. r\<lparr>d_status := DecisionExpired, d_verified_at := unix now\<rparr>"
  let ?d = "d\<lparr>lapi_decisions := update_where ?P ?g (lapi_decisions d)\<rparr>"
  have dec: "decisions_ok d" using assms(1) by (simp add: journal_ok_def)
  have "map d_id (lapi_decisions ?d) = map d_id (lapi_decisions d)"
      "map d_decision_id (lapi_decisions ?d) = map d_decision_id (lapi_decisions d)"
    by (simp_all add: map_update_where)
  moreover have "d_id ` set (lapi_decisions ?d) = d_id ` set (lapi_decisions d)"
    by (simp add: image_update_where)
  moreover have "0 < d_id x \<and> d_alert_row_id x \<in> a_id ` set (lapi_alerts d) \<and> d_object_id x \<in> o_id ` set (enforcement_objects d) \<and>
      (\<forall>n. d_replaced_by_id x = Some n \<longrightarrow> n \<in> d_id ` set (lapi_decisions d))"
    if "x \<in> set (lapi_decisions ?d)" for x
  proof -
    from that obtain y where "y \<in> set (lapi_decisions d)" "x = (if ?P y then ?g y else y)" by (auto simp: update_where_def)
    with dec show ?thesis by (auto simp: decisions_ok_def)
  qed
  ultimately have "journal_ok ?d" using assms(1) by (simp add: journal_ok_def operations_ok_def decisions_ok_def)
  then show ?thesis using assms by (auto simp: MarkDecisionExpired_def Let_def split: if_splits)
qed

subsection \<open>Property: a verified operation\<close>

text \<open>
  C14. Recording a verified operation that is still open stores exactly one active decision per
  journal item, in the order of the objects, each with the origin, scenario, scope and value the
  journal expects and an expiry inside the window of the operation; it marks the operation
  verified, retires every decision that is replaced and points it at its replacement, keeps the
  journal consistent, and doing it again returns the same records and changes nothing.
\<close>

theorem RecordVerifiedOperation_correct:
  assumes "journal_ok d" and "objects_ok d"
    and "row_at op_token (lapi_operations d) token = Some r" and "op_status r \<in> {OperationPending, OperationAmbiguous}"
    and "RecordVerifiedOperation token alert now d = (Inr records, d')"
  shows "journal_ok d' \<and>
    row_at op_token (lapi_operations d') token = Some (r\<lparr>op_status := OperationVerified\<rparr>) \<and>
    list_all2 (records_item d r now) (select_items d token) records \<and> records \<noteq> [] \<and>
    (\<forall>i \<in> set (select_items d token). \<forall>old. i_old_decision_row_id i = Some old \<longrightarrow>
      (\<exists>x \<in> set (lapi_decisions d'). \<exists>rec \<in> set records. d_id x = old \<and> d_object_id x = i_object_id i \<and>
         d_status x = DecisionExpiring \<and> dr_ObjectID rec = i_object_id i \<and> d_replaced_by_id x = Some (dr_ID rec))) \<and>
    RecordVerifiedOperation token alert now d' = (Inr records, d')"
proof -
  have ops: "operations_ok d" using assms(1) by (simp add: journal_ok_def)
  have ok: "journal_ok d'" by (rule RecordVerifiedOperation_journal_ok [OF assms(1,2,5)])
  have guards: "stateOperationToken token" "\<not> IsZero now" "0 < va_AlertID alert" "va_Origin alert = ''crowdshield''"
      "validBoundedText (va_MachineID alert) 1 128"
    using assms(5) by (auto simp: RecordVerifiedOperation_def split: if_splits)
  have r: "r \<in> set (lapi_operations d)" "op_token r = token" using row_at_Some_D [OF assms(3)] by auto
  have uniq: "x = r" if "x \<in> set (lapi_operations d)" "op_token x = token" for x
    using that r ops inj_onD [of op_token "set (lapi_operations d)" x r] by (simp add: operations_ok_def distinct_map)
  from assms(5) ops assms(2) show ?thesis
  proof (cases rule: RecordVerifiedOperation_cases)
    case (again x)
    then show ?thesis using uniq [of x] assms(4) by auto
  next
    case (stored x f)
    then have xr: "x = r" using uniq by blast
    from stored(9) have sv: "store_verified token alert now (map (expected_of d) (select_items d token)) d = (Inr records, d')" by auto
    note recs = stored_records [OF assms(1,2) ok r(2) stored(4) stored(5) [unfolded xr] sv stored(8) [unfolded xr] stored(7)]
    have ne: "records \<noteq> []" using list_all2_lengthD [OF recs(1)] stored(6,7) by auto
    have upd: "r\<lparr>op_status := OperationVerified\<rparr> \<in> set (lapi_operations d')"
      using r by (auto simp: stored_frame(2) [OF sv] set_update_where)
    have "distinct (map op_token (lapi_operations d'))" using ok by (simp add: journal_ok_def operations_ok_def)
    from row_at_mem [OF this upd] have at: "row_at op_token (lapi_operations d') token = Some (r\<lparr>op_status := OperationVerified\<rparr>)"
      using r(2) by simp
    have q: "records = queryOperationDecisions d' token" by (rule stored_frame(6) [OF sv])
    have "RecordVerifiedOperation token alert now d' = (Inr records, d')"
      unfolding q by (rule RecordVerifiedOperation_again [OF ok upd]) (use r guards ne q in simp_all)
    with ok at recs ne show ?thesis by blast
  qed simp
qed

subsection \<open>A concrete journal\<close>

definition sample_token :: string where
  "sample_token = replicate 32 (CHR ''b'')"

definition sample_object_row :: object_row where
  "sample_object_row =
     \<lparr>o_id = 1, o_prefix = prefix_String (Prefix (Addr4 0x08080800) 25), o_family = 4, o_prefix_bits = 24,
      o_scope = ScopeRange, o_desired = True, o_suppression = SuppressedNone, o_primary_feed_id = Some 1,
      o_created_at = 1000, o_updated_at = 1000\<rparr>"

text \<open>An object with an active decision, and a pending operation that refreshes it.\<close>

definition sample_journal :: db where
  "sample_journal = sample_store\<lparr>enforcement_objects := [sample_object_row],
     enforcement_sources := [\<lparr>s_object_id = 1, s_feed_id = 1, s_source_kind = 2\<rparr>],
     lapi_alerts := [\<lparr>a_id = 1, a_alert_id = 70, a_operation_token = replicate 32 (CHR ''a''), a_machine_id = ''m1'',
       a_origin = ''crowdshield'', a_scenario = ''crowdshield/alpha'', a_verified_at = 1000, a_created_at = 1000\<rparr>],
     lapi_decisions := [\<lparr>d_id = 1, d_object_id = 1, d_alert_row_id = 1, d_decision_id = 700,
       d_origin = ''crowdshield'', d_scenario = ''crowdshield/alpha'', d_scope = ScopeRange,
       d_value = prefix_String (Prefix (Addr4 0x08080800) 25), d_created_at = 1000, d_expires_at = 2100,
       d_verified_at = 1000, d_status = DecisionActive, d_replaced_by_id = None\<rparr>],
     lapi_operations := [\<lparr>op_token = sample_token, op_kind = OperationRefresh, op_feed_id = 1,
       op_duration_seconds = 3600, op_payload_hash = sample_hash, op_status = OperationPending,
       op_started_at = 1900, op_completed_at = None, op_error_category = []\<rparr>],
     lapi_operation_items := [\<lparr>i_operation_token = sample_token, i_object_id = 1, i_old_decision_row_id = Some 1\<rparr>]\<rparr>"

definition sample_alert :: VerifiedAlert where
  "sample_alert = \<lparr>va_AlertID = 71, va_MachineID = ''m1'', va_Origin = ''crowdshield'', va_Scenario = ''crowdshield/alpha'',
     va_Decisions = [\<lparr>vd_ObjectID = 1, vd_DecisionID = 701, vd_Origin = ''crowdshield'', vd_Scenario = ''crowdshield/alpha'',
       vd_Scope = ScopeRange, vd_Value = prefix_String (Prefix (Addr4 0x08080800) 25), vd_ExpiresAt = 5600 * second\<rparr>]\<rparr>"

lemma sample_token_valid [simp]: "stateOperationToken sample_token"
  by (simp add: stateOperationToken_def sample_token_def list_all_iff lower_hex_def code_def)

lemma sample_journal_ok: "journal_ok sample_journal" "objects_ok sample_journal"
proof -
  have "object_row_of (Prefix (Addr4 0x08080800) 25) sample_object_row"
    using sample_prefix_safe(1) by (simp add: object_row_of_def sample_object_row_def Bits_def addr_family_def)
  then have "object_row_ok sample_object_row" unfolding object_row_ok_def by (auto simp: sample_object_row_def)
  then show "objects_ok sample_journal"
    by (simp add: objects_ok_def sample_journal_def sample_store_def empty_db_def sample_feed_def) (simp add: sample_object_row_def)
  show "journal_ok sample_journal"
    by (simp add: journal_ok_def operations_ok_def decisions_ok_def sample_journal_def sample_store_def empty_db_def
        sample_feed_def sample_object_row_def)
qed

lemma sample_records: "\<exists>records d'. RecordVerifiedOperation sample_token sample_alert (2000 * second) sample_journal = (Inr records, d')"
proof -
  have "NormalizePrefix (prefix_String (Prefix (Addr4 0x08080800) 25)) = Inr (Prefix (Addr4 0x08080800) 25)"
    using sample_prefix_safe(1) by (rule NormalizePrefix_safe)
  moreover have "validBoundedText ''m1'' 1 128" by (simp add: validBoundedText_def code_def)
  moreover have "next_rowid [1] \<noteq> 1" "sample_token \<noteq> replicate 32 (CHR ''a'')" "\<not> IsZero 2000000000000"
    by (simp_all add: next_rowid_def sample_token_def replicate_numeral IsZero_def time_zero_def second_def)
  ultimately show ?thesis
    by (simp add: RecordVerifiedOperation_def store_verified_def sample_journal_def sample_alert_def sample_store_def
        sample_feed_def sample_object_row_def join_items_def select_items_def scan_expected_def Let_def
        expectedObjectValue_def rows_affected_def second_def minute_def wrap64_def)
qed

theorem RecordVerifiedOperation_correct_witness:
  "\<exists>records d'. RecordVerifiedOperation sample_token sample_alert (2000 * second) sample_journal = (Inr records, d') \<and>
     journal_ok d' \<and> (\<exists>x \<in> set (lapi_decisions d'). d_id x = 1 \<and> d_status x = DecisionExpiring)"
proof -
  obtain records d' where r: "RecordVerifiedOperation sample_token sample_alert (2000 * second) sample_journal = (Inr records, d')"
    using sample_records by blast
  let ?r = "\<lparr>op_token = sample_token, op_kind = OperationRefresh, op_feed_id = 1,
       op_duration_seconds = 3600, op_payload_hash = sample_hash, op_status = OperationPending,
       op_started_at = 1900, op_completed_at = None, op_error_category = []\<rparr>"
  let ?i = "\<lparr>i_operation_token = sample_token, i_object_id = 1, i_old_decision_row_id = Some 1\<rparr>"
  have "row_at op_token (lapi_operations sample_journal) sample_token = Some ?r"
    by (simp add: sample_journal_def row_at_Cons)
  note c = RecordVerifiedOperation_correct [OF sample_journal_ok this _ r]
  have "?i \<in> set (select_items sample_journal sample_token)" by (simp add: select_items_def sample_journal_def)
  with c r show ?thesis by fastforce
qed

end
