(* ===== verification/Store_Prune.thy ===== *)
theory Store_Prune
  imports Store_Sync Store_Journal
begin

text \<open>
  \<^verbatim>\<open>prune.go\<close>: removing history that is older than the retention period, and the dry run that only
  counts what would go. The statements run in one transaction in the order of the code; a delete
  acts on the tables that reference its rows as the schema says (\<^verbatim>\<open>CASCADE\<close>, \<^verbatim>\<open>SET NULL\<close>, and for
  \<^verbatim>\<open>RESTRICT\<close> the statement fails).
\<close>

subsection \<open>Definitions\<close>

record PruneResult =
  pr_SyncRuns :: int
  pr_Operations :: int
  pr_Decisions :: int
  pr_Alerts :: int
  pr_EnforcementObjects :: int
  pr_FeedEntries :: int

definition validPruneOptions :: "gotime \<Rightarrow> duration \<Rightarrow> int \<Rightarrow> bool" where
  "validPruneOptions now retention maxHistoryEntries =
     (\<not> IsZero now \<and> unix now \<ge> 0 \<and> retention \<ge> hour \<and> retention \<le> 10 * 365 * 24 * hour \<and>
      maxHistoryEntries \<ge> 1 \<and> maxHistoryEntries \<le> 1000000)"

definition CountAmbiguousOperations :: "db \<Rightarrow> (ErrorCategory, int) result" where
  "CountAmbiguousOperations d =
     (let count = int (length (filter (\<lambda>r. op_status r = OperationAmbiguous) (lapi_operations d))) in
      if count < 0 \<or> count > 100000000 then Inl ErrQuery else Inr count)"

text \<open>The conditions of the statements, each on the rows of its table.\<close>

definition run_finished :: "run_row \<Rightarrow> bool" where
  "run_finished r = (r_completed_at r \<noteq> None \<and>
     r_status r \<in> {RunStatusSuccess, RunStatusDegraded, RunStatusFailed, RunStatusCancelled})"

definition before :: "int \<Rightarrow> int option \<Rightarrow> bool" where
  "before cutoff t = (case t of None \<Rightarrow> False | Some s \<Rightarrow> s < cutoff)"

definition old_run :: "int \<Rightarrow> int \<Rightarrow> run_row list \<Rightarrow> run_row \<Rightarrow> bool" where
  "old_run cutoff maxHistoryEntries rows r =
     (run_finished r \<and>
      (before cutoff (r_completed_at r) \<or>
       r_id r \<notin> set (map r_id (take (nat maxHistoryEntries) (sort_cmp run_order (filter run_finished rows))))))"

definition old_operation :: "int \<Rightarrow> operation_row \<Rightarrow> bool" where
  "old_operation cutoff r =
     (op_completed_at r \<noteq> None \<and> before cutoff (op_completed_at r) \<and> op_status r \<in> {OperationCompleted, OperationFailed})"

definition old_decision :: "int \<Rightarrow> item_row list \<Rightarrow> decision_row \<Rightarrow> bool" where
  "old_decision cutoff items r =
     (d_status r \<in> {DecisionExpired, DecisionOrphaned} \<and> d_verified_at r < cutoff \<and> d_expires_at r < cutoff \<and>
      \<not> (\<exists>i \<in> set items. i_old_decision_row_id i = Some (d_id r)))"

definition old_alert :: "int \<Rightarrow> decision_row list \<Rightarrow> alert_row \<Rightarrow> bool" where
  "old_alert cutoff decisions r =
     (a_created_at r < cutoff \<and> \<not> (\<exists>x \<in> set decisions. d_alert_row_id x = a_id r))"

definition old_object :: "int \<Rightarrow> decision_row list \<Rightarrow> item_row list \<Rightarrow> object_row \<Rightarrow> bool" where
  "old_object cutoff decisions items r =
     (\<not> o_desired r \<and> o_updated_at r < cutoff \<and> \<not> (\<exists>x \<in> set decisions. d_object_id x = o_id r) \<and>
      \<not> (\<exists>i \<in> set items. i_object_id i = o_id r))"

definition old_entry :: "int \<Rightarrow> entry_row \<Rightarrow> bool" where
  "old_entry cutoff r = (\<not> e_active r \<and> e_last_seen_at r < cutoff)"

text \<open>The dry run: one query over common table expressions, each with the rows it would keep.\<close>

definition PlanPruneHistory :: "gotime \<Rightarrow> duration \<Rightarrow> int \<Rightarrow> db \<Rightarrow> (ErrorCategory, PruneResult) result" where
  "PlanPruneHistory now retention maxHistoryEntries d =
     (if \<not> validPruneOptions now retention maxHistoryEntries then Inl ErrConstraint
      else
        let cutoff = unix (now - retention);
            old_sync_runs = filter (old_run cutoff maxHistoryEntries (sync_runs d)) (sync_runs d);
            old_operations = filter (old_operation cutoff) (lapi_operations d);
            items = filter (\<lambda>i. i_operation_token i \<notin> set (map op_token old_operations)) (lapi_operation_items d);
            old_decisions = filter (old_decision cutoff items) (lapi_decisions d);
            decisions = filter (\<lambda>x. d_id x \<notin> set (map d_id old_decisions)) (lapi_decisions d);
            old_alerts = filter (old_alert cutoff decisions) (lapi_alerts d);
            old_objects = filter (old_object cutoff decisions items) (enforcement_objects d);
            old_entries = filter (old_entry cutoff) (feed_entries d)
        in Inr \<lparr>pr_SyncRuns = int (length old_sync_runs), pr_Operations = int (length old_operations),
                pr_Decisions = int (length old_decisions), pr_Alerts = int (length old_alerts),
                pr_EnforcementObjects = int (length old_objects), pr_FeedEntries = int (length old_entries)\<rparr>)"

text \<open>The delete statements.\<close>

definition delete_runs :: "int \<Rightarrow> int \<Rightarrow> db \<Rightarrow> db" where
  "delete_runs cutoff maxHistoryEntries d =
     (let P = old_run cutoff maxHistoryEntries (sync_runs d) in
      d\<lparr>sync_runs := delete_where P (sync_runs d),
        feed_run_results := delete_where (\<lambda>x. rf_sync_run_id x \<in> r_id ` set (filter P (sync_runs d))) (feed_run_results d)\<rparr>)"

definition delete_operations :: "int \<Rightarrow> db \<Rightarrow> db" where
  "delete_operations cutoff d =
     (let P = old_operation cutoff in
      d\<lparr>lapi_operations := delete_where P (lapi_operations d),
        lapi_operation_items := delete_where (\<lambda>i. i_operation_token i \<in> op_token ` set (filter P (lapi_operations d)))
          (lapi_operation_items d)\<rparr>)"

definition delete_decisions :: "int \<Rightarrow> db \<Rightarrow> (ErrorCategory, db) result" where
  "delete_decisions cutoff d =
     (let P = old_decision cutoff (lapi_operation_items d);
          gone = d_id ` set (filter P (lapi_decisions d))
      in if \<exists>i \<in> set (lapi_operation_items d). \<exists>old. i_old_decision_row_id i = Some old \<and> old \<in> gone then Inl ErrQuery
         else Inr (d\<lparr>lapi_decisions := update_where (\<lambda>r. \<exists>n. d_replaced_by_id r = Some n \<and> n \<in> gone)
             (\<lambda>r. r\<lparr>d_replaced_by_id := None\<rparr>) (delete_where P (lapi_decisions d))\<rparr>))"

definition delete_alerts :: "int \<Rightarrow> db \<Rightarrow> (ErrorCategory, db) result" where
  "delete_alerts cutoff d =
     (let P = old_alert cutoff (lapi_decisions d) in
      if \<exists>x \<in> set (lapi_decisions d). d_alert_row_id x \<in> a_id ` set (filter P (lapi_alerts d)) then Inl ErrQuery
      else Inr (d\<lparr>lapi_alerts := delete_where P (lapi_alerts d)\<rparr>))"

definition delete_objects :: "int \<Rightarrow> db \<Rightarrow> (ErrorCategory, db) result" where
  "delete_objects cutoff d =
     (let P = old_object cutoff (lapi_decisions d) (lapi_operation_items d);
          gone = o_id ` set (filter P (enforcement_objects d))
      in if (\<exists>x \<in> set (lapi_decisions d). d_object_id x \<in> gone) \<or>
            (\<exists>i \<in> set (lapi_operation_items d). i_object_id i \<in> gone) then Inl ErrQuery
         else Inr (d\<lparr>enforcement_objects := delete_where P (enforcement_objects d),
             enforcement_sources := delete_where (\<lambda>s. s_object_id s \<in> gone) (enforcement_sources d)\<rparr>))"

definition delete_entries :: "int \<Rightarrow> db \<Rightarrow> db" where
  "delete_entries cutoff d = d\<lparr>feed_entries := delete_where (old_entry cutoff) (feed_entries d)\<rparr>"

text \<open>\<^verbatim>\<open>pruneExec\<close> returns how many rows of its table a statement deleted.\<close>

definition rows_removed :: "(db \<Rightarrow> 'r list) \<Rightarrow> db \<Rightarrow> db \<Rightarrow> int" where
  "rows_removed table d d' = int (length (table d)) - int (length (table d'))"

definition PruneHistory :: "gotime \<Rightarrow> duration \<Rightarrow> int \<Rightarrow> db \<Rightarrow> PruneResult db_result" where
  "PruneHistory now retention maxHistoryEntries d =
     (if \<not> validPruneOptions now retention maxHistoryEntries then (Inl ErrConstraint, d)
      else
        let cutoff = unix (now - retention);
            d1 = delete_runs cutoff maxHistoryEntries d;
            d2 = delete_operations cutoff d1
        in (case delete_decisions cutoff d2 of
              Inl e \<Rightarrow> (Inl e, d)
            | Inr d3 \<Rightarrow>
                (case delete_alerts cutoff d3 of
                   Inl e \<Rightarrow> (Inl e, d)
                 | Inr d4 \<Rightarrow>
                     (case delete_objects cutoff d4 of
                        Inl e \<Rightarrow> (Inl e, d)
                      | Inr d5 \<Rightarrow>
                          let d6 = delete_entries cutoff d5 in
                          (case setRuntimeTimestamp RuntimeLastPrune now d6 of
                             (Inl e, _) \<Rightarrow> (Inl e, d)
                           | (Inr _, d7) \<Rightarrow>
                               (Inr \<lparr>pr_SyncRuns = rows_removed sync_runs d d1,
                                     pr_Operations = rows_removed lapi_operations d1 d2,
                                     pr_Decisions = rows_removed lapi_decisions d2 d3,
                                     pr_Alerts = rows_removed lapi_alerts d3 d4,
                                     pr_EnforcementObjects = rows_removed enforcement_objects d4 d5,
                                     pr_FeedEntries = rows_removed feed_entries d5 d6\<rparr>, d7))))))"

subsection \<open>Facts: the statements\<close>

lemma length_delete_where: "int (length (delete_where P rows)) = int (length rows) - int (length (filter P rows))"
proof -
  have "length (filter P rows) + length (filter (\<lambda>r. \<not> P r) rows) = length rows" by (rule sum_length_filter_compl)
  then show ?thesis by (simp add: delete_where_def)
qed

definition kept_items :: "int \<Rightarrow> db \<Rightarrow> item_row list" where
  "kept_items cutoff d = delete_where (\<lambda>i. i_operation_token i \<in> op_token ` set (filter (old_operation cutoff) (lapi_operations d)))
     (lapi_operation_items d)"

definition kept_decisions :: "int \<Rightarrow> db \<Rightarrow> decision_row list" where
  "kept_decisions cutoff d =
     (let P = old_decision cutoff (kept_items cutoff d) in
      update_where (\<lambda>r. \<exists>n. d_replaced_by_id r = Some n \<and> n \<in> d_id ` set (filter P (lapi_decisions d)))
        (\<lambda>r. r\<lparr>d_replaced_by_id := None\<rparr>) (delete_where P (lapi_decisions d)))"

text \<open>The database that the delete statements leave.\<close>

definition pruned :: "int \<Rightarrow> int \<Rightarrow> db \<Rightarrow> db" where
  "pruned cutoff maxHistoryEntries d =
     (let runs = old_run cutoff maxHistoryEntries (sync_runs d);
          obs = old_object cutoff (kept_decisions cutoff d) (kept_items cutoff d)
      in d\<lparr>sync_runs := delete_where runs (sync_runs d),
           feed_run_results := delete_where (\<lambda>x. rf_sync_run_id x \<in> r_id ` set (filter runs (sync_runs d))) (feed_run_results d),
           lapi_operations := delete_where (old_operation cutoff) (lapi_operations d),
           lapi_operation_items := kept_items cutoff d,
           lapi_decisions := kept_decisions cutoff d,
           lapi_alerts := delete_where (old_alert cutoff (kept_decisions cutoff d)) (lapi_alerts d),
           enforcement_objects := delete_where obs (enforcement_objects d),
           enforcement_sources := delete_where (\<lambda>s. s_object_id s \<in> o_id ` set (filter obs (enforcement_objects d))) (enforcement_sources d),
           feed_entries := delete_where (old_entry cutoff) (feed_entries d)\<rparr>)"

lemma kept_decisions_rows:
  assumes "r \<in> set (kept_decisions cutoff d)"
  obtains x where "x \<in> set (lapi_decisions d)" and "\<not> old_decision cutoff (kept_items cutoff d) x"
    and "r = x \<or> r = x\<lparr>d_replaced_by_id := None\<rparr>"
  using assms by (auto simp: kept_decisions_def Let_def set_update_where intro: that)

lemma kept_decisions_map:
  assumes "\<And>r. f (r\<lparr>d_replaced_by_id := None\<rparr>) = f r"
  shows "map f (kept_decisions cutoff d) = map f (delete_where (old_decision cutoff (kept_items cutoff d)) (lapi_decisions d))"
  unfolding kept_decisions_def Let_def by (rule map_update_where) (rule assms)

lemma delete_statements:
  "delete_decisions cutoff d2 = Inr (d2\<lparr>lapi_decisions := update_where
     (\<lambda>r. \<exists>n. d_replaced_by_id r = Some n \<and> n \<in> d_id ` set (filter (old_decision cutoff (lapi_operation_items d2)) (lapi_decisions d2)))
     (\<lambda>r. r\<lparr>d_replaced_by_id := None\<rparr>) (delete_where (old_decision cutoff (lapi_operation_items d2)) (lapi_decisions d2))\<rparr>)"
  "delete_alerts cutoff d2 = Inr (d2\<lparr>lapi_alerts := delete_where (old_alert cutoff (lapi_decisions d2)) (lapi_alerts d2)\<rparr>)"
  "delete_objects cutoff d2 = Inr (d2\<lparr>enforcement_objects := delete_where (old_object cutoff (lapi_decisions d2) (lapi_operation_items d2)) (enforcement_objects d2),
     enforcement_sources := delete_where (\<lambda>s. s_object_id s \<in> o_id ` set (filter (old_object cutoff (lapi_decisions d2) (lapi_operation_items d2)) (enforcement_objects d2))) (enforcement_sources d2)\<rparr>)"
proof -
  have "\<not> (\<exists>i \<in> set (lapi_operation_items d2). \<exists>old. i_old_decision_row_id i = Some old \<and>
      old \<in> d_id ` set (filter (old_decision cutoff (lapi_operation_items d2)) (lapi_decisions d2)))"
    by (auto simp: old_decision_def)
  then show "delete_decisions cutoff d2 = Inr (d2\<lparr>lapi_decisions := update_where
     (\<lambda>r. \<exists>n. d_replaced_by_id r = Some n \<and> n \<in> d_id ` set (filter (old_decision cutoff (lapi_operation_items d2)) (lapi_decisions d2)))
     (\<lambda>r. r\<lparr>d_replaced_by_id := None\<rparr>) (delete_where (old_decision cutoff (lapi_operation_items d2)) (lapi_decisions d2))\<rparr>)"
    unfolding delete_decisions_def Let_def by (rule if_not_P)
  have "\<not> (\<exists>x \<in> set (lapi_decisions d2). d_alert_row_id x \<in> a_id ` set (filter (old_alert cutoff (lapi_decisions d2)) (lapi_alerts d2)))"
    by (auto simp: old_alert_def)
  then show "delete_alerts cutoff d2 = Inr (d2\<lparr>lapi_alerts := delete_where (old_alert cutoff (lapi_decisions d2)) (lapi_alerts d2)\<rparr>)"
    unfolding delete_alerts_def Let_def by (rule if_not_P)
  have "\<not> ((\<exists>x \<in> set (lapi_decisions d2). d_object_id x \<in> o_id ` set (filter (old_object cutoff (lapi_decisions d2) (lapi_operation_items d2)) (enforcement_objects d2))) \<or>
      (\<exists>i \<in> set (lapi_operation_items d2). i_object_id i \<in> o_id ` set (filter (old_object cutoff (lapi_decisions d2) (lapi_operation_items d2)) (enforcement_objects d2))))"
    by (auto simp: old_object_def)
  then show "delete_objects cutoff d2 = Inr (d2\<lparr>enforcement_objects := delete_where (old_object cutoff (lapi_decisions d2) (lapi_operation_items d2)) (enforcement_objects d2),
     enforcement_sources := delete_where (\<lambda>s. s_object_id s \<in> o_id ` set (filter (old_object cutoff (lapi_decisions d2) (lapi_operation_items d2)) (enforcement_objects d2))) (enforcement_sources d2)\<rparr>)"
    unfolding delete_objects_def Let_def by (rule if_not_P)
qed

definition prune_counts :: "int \<Rightarrow> int \<Rightarrow> db \<Rightarrow> PruneResult" where
  "prune_counts cutoff maxHistoryEntries d =
     \<lparr>pr_SyncRuns = int (length (filter (old_run cutoff maxHistoryEntries (sync_runs d)) (sync_runs d))),
      pr_Operations = int (length (filter (old_operation cutoff) (lapi_operations d))),
      pr_Decisions = int (length (filter (old_decision cutoff (kept_items cutoff d)) (lapi_decisions d))),
      pr_Alerts = int (length (filter (old_alert cutoff (kept_decisions cutoff d)) (lapi_alerts d))),
      pr_EnforcementObjects = int (length (filter (old_object cutoff (kept_decisions cutoff d) (kept_items cutoff d)) (enforcement_objects d))),
      pr_FeedEntries = int (length (filter (old_entry cutoff) (feed_entries d)))\<rparr>"

lemma PruneHistory_eq:
  assumes "validPruneOptions now retention n"
  shows "PruneHistory now retention n d =
    (case setRuntimeTimestamp RuntimeLastPrune now (pruned (unix (now - retention)) n d) of
       (Inl e, _) \<Rightarrow> (Inl e, d)
     | (Inr _, d') \<Rightarrow> (Inr (prune_counts (unix (now - retention)) n d), d'))"
proof -
  let ?c = "unix (now - retention)"
  let ?d2 = "delete_operations ?c (delete_runs ?c n d)"
  have items: "lapi_operation_items ?d2 = kept_items ?c d" "lapi_decisions ?d2 = lapi_decisions d"
    by (simp_all add: delete_operations_def delete_runs_def kept_items_def Let_def)
  let ?d3 = "?d2\<lparr>lapi_decisions := kept_decisions ?c d\<rparr>"
  let ?d4 = "?d3\<lparr>lapi_alerts := delete_where (old_alert ?c (kept_decisions ?c d)) (lapi_alerts d)\<rparr>"
  let ?obs = "old_object ?c (kept_decisions ?c d) (kept_items ?c d)"
  let ?d5 = "?d4\<lparr>enforcement_objects := delete_where ?obs (enforcement_objects d),
     enforcement_sources := delete_where (\<lambda>s. s_object_id s \<in> o_id ` set (filter ?obs (enforcement_objects d))) (enforcement_sources d)\<rparr>"
  have tables: "lapi_alerts ?d2 = lapi_alerts d" "enforcement_objects ?d2 = enforcement_objects d"
      "enforcement_sources ?d2 = enforcement_sources d"
    by (simp_all add: delete_operations_def delete_runs_def Let_def)
  have 3: "delete_decisions ?c ?d2 = Inr ?d3"
    unfolding delete_statements(1) items by (simp add: kept_decisions_def Let_def)
  have 4: "delete_alerts ?c ?d3 = Inr ?d4" by (simp add: delete_statements(2) tables)
  have 5: "delete_objects ?c ?d4 = Inr ?d5" by (simp add: delete_statements(3) tables items)
  have 6: "delete_entries ?c ?d5 = pruned ?c n d"
    by (simp add: pruned_def delete_entries_def delete_operations_def delete_runs_def kept_items_def Let_def)
  have "int (length (kept_decisions ?c d)) = int (length (lapi_decisions d)) - int (length (filter (old_decision ?c (kept_items ?c d)) (lapi_decisions d)))"
    by (simp add: kept_decisions_def Let_def length_delete_where)
  then have counts: "\<lparr>pr_SyncRuns = rows_removed sync_runs d (delete_runs ?c n d),
      pr_Operations = rows_removed lapi_operations (delete_runs ?c n d) ?d2,
      pr_Decisions = rows_removed lapi_decisions ?d2 ?d3, pr_Alerts = rows_removed lapi_alerts ?d3 ?d4,
      pr_EnforcementObjects = rows_removed enforcement_objects ?d4 ?d5,
      pr_FeedEntries = rows_removed feed_entries ?d5 (pruned ?c n d)\<rparr> = prune_counts ?c n d"
    by (simp add: prune_counts_def rows_removed_def tables items length_delete_where pruned_def)
      (simp add: delete_operations_def delete_runs_def Let_def length_delete_where)
  show ?thesis
    unfolding PruneHistory_def Let_def 3 sum.case 4 5 6 counts using assms by simp
qed

lemma set_kept_decisions:
  assumes "distinct (map d_id (lapi_decisions d))" and "\<And>r. f (r\<lparr>d_replaced_by_id := None\<rparr>) = f r"
  shows "f ` set (kept_decisions cutoff d) =
    f ` set (filter (\<lambda>x. d_id x \<notin> set (map d_id (filter (old_decision cutoff (kept_items cutoff d)) (lapi_decisions d)))) (lapi_decisions d))"
proof -
  have "f ` set (kept_decisions cutoff d) = f ` set (delete_where (old_decision cutoff (kept_items cutoff d)) (lapi_decisions d))"
    using arg_cong [OF kept_decisions_map [of f cutoff d, OF assms(2)], of set] by simp
  moreover have "set (delete_where (old_decision cutoff (kept_items cutoff d)) (lapi_decisions d)) =
      set (filter (\<lambda>x. d_id x \<notin> set (map d_id (filter (old_decision cutoff (kept_items cutoff d)) (lapi_decisions d)))) (lapi_decisions d))"
    using assms(1) by (auto simp: distinct_map dest: inj_onD)
  ultimately show ?thesis by simp
qed

lemma PlanPruneHistory_eq:
  assumes "validPruneOptions now retention n" and "distinct (map d_id (lapi_decisions d))"
  shows "PlanPruneHistory now retention n d = Inr (prune_counts (unix (now - retention)) n d)"
proof -
  let ?c = "unix (now - retention)"
  let ?items = "filter (\<lambda>i. i_operation_token i \<notin> set (map op_token (filter (old_operation ?c) (lapi_operations d)))) (lapi_operation_items d)"
  let ?dec = "filter (\<lambda>x. d_id x \<notin> set (map d_id (filter (old_decision ?c (kept_items ?c d)) (lapi_decisions d)))) (lapi_decisions d)"
  have items: "?items = kept_items ?c d" by (simp add: kept_items_def delete_where_def)
  have al: "(\<exists>x \<in> set ?dec. d_alert_row_id x = i) \<longleftrightarrow> (\<exists>x \<in> set (kept_decisions ?c d). d_alert_row_id x = i)" for i
    using set_kept_decisions [OF assms(2), of d_alert_row_id ?c] by (simp add: set_eq_iff image_iff) metis
  have ob: "(\<exists>x \<in> set ?dec. d_object_id x = i) \<longleftrightarrow> (\<exists>x \<in> set (kept_decisions ?c d). d_object_id x = i)" for i
    using set_kept_decisions [OF assms(2), of d_object_id ?c] by (simp add: set_eq_iff image_iff) metis
  have "old_alert ?c ?dec = old_alert ?c (kept_decisions ?c d)"
    using al by (auto simp: old_alert_def fun_eq_iff simp del: set_filter)
  moreover have "old_object ?c ?dec (kept_items ?c d) = old_object ?c (kept_decisions ?c d) (kept_items ?c d)"
    using ob by (auto simp: old_object_def fun_eq_iff simp del: set_filter)
  ultimately show ?thesis
    using assms(1) unfolding PlanPruneHistory_def Let_def items by (simp add: prune_counts_def)
qed

subsection \<open>Facts: what pruning keeps\<close>

lemma pruned_tables:
  "feeds (pruned c n d) = feeds d" "runtime_state (pruned c n d) = runtime_state d"
  "sync_runs (pruned c n d) = delete_where (old_run c n (sync_runs d)) (sync_runs d)"
  "lapi_operations (pruned c n d) = delete_where (old_operation c) (lapi_operations d)"
  "lapi_operation_items (pruned c n d) = kept_items c d" "lapi_decisions (pruned c n d) = kept_decisions c d"
  "lapi_alerts (pruned c n d) = delete_where (old_alert c (kept_decisions c d)) (lapi_alerts d)"
  "enforcement_objects (pruned c n d) = delete_where (old_object c (kept_decisions c d) (kept_items c d)) (enforcement_objects d)"
  "enforcement_sources (pruned c n d) = delete_where (\<lambda>s. s_object_id s \<in> o_id ` set (filter (old_object c (kept_decisions c d) (kept_items c d)) (enforcement_objects d))) (enforcement_sources d)"
  "feed_entries (pruned c n d) = delete_where (old_entry c) (feed_entries d)"
  "feed_run_results (pruned c n d) = delete_where (\<lambda>x. rf_sync_run_id x \<in> r_id ` set (filter (old_run c n (sync_runs d)) (sync_runs d))) (feed_run_results d)"
  by (simp_all add: pruned_def Let_def)

lemma pruned_feeds_ok: "feeds_ok d \<Longrightarrow> feeds_ok (pruned c n d)"
  by (auto simp: feeds_ok_def pruned_tables distinct_delete_where)

lemma pruned_runs_ok:
  assumes "runs_ok d"
  shows "runs_ok (pruned c n d)"
proof -
  have "\<exists>r \<in> set (sync_runs (pruned c n d)). r_id r = rf_sync_run_id x \<and> r_status r \<noteq> RunStatusRunning"
    if x: "x \<in> set (feed_run_results (pruned c n d))" for x
  proof -
    from x obtain r where r: "r \<in> set (sync_runs d)" "r_id r = rf_sync_run_id x" "r_status r \<noteq> RunStatusRunning"
      using assms by (auto simp: runs_ok_def pruned_tables)
    have "\<not> old_run c n (sync_runs d) r" using x r(1,2) by (auto simp: pruned_tables image_iff)
    with r show ?thesis by (auto simp: pruned_tables)
  qed
  moreover have "\<forall>x \<in> set (feed_run_results (pruned c n d)). x \<in> set (feed_run_results d)" by (simp add: pruned_tables)
  moreover have "distinct (map r_id (sync_runs (pruned c n d)))" "\<forall>r \<in> set (sync_runs (pruned c n d)). run_row_ok r"
      "distinct (map result_key (feed_run_results (pruned c n d)))"
    using assms by (simp_all add: runs_ok_def pruned_tables distinct_delete_where)
  ultimately show ?thesis using assms unfolding runs_ok_def pruned_tables(1) by blast
qed

lemma pruned_objects_ok:
  assumes "objects_ok d"
  shows "objects_ok (pruned c n d)"
proof -
  have "s_object_id s \<in> o_id ` set (enforcement_objects (pruned c n d))" if s: "s \<in> set (enforcement_sources (pruned c n d))" for s
  proof -
    from s obtain r where r: "r \<in> set (enforcement_objects d)" "o_id r = s_object_id s"
      using assms by (auto simp: objects_ok_def pruned_tables)
    then have "r \<in> set (enforcement_objects (pruned c n d))" using s by (auto simp: pruned_tables image_iff)
    with r(2) show ?thesis by force
  qed
  moreover have "\<forall>s \<in> set (enforcement_sources (pruned c n d)). s \<in> set (enforcement_sources d)"
      "\<forall>s \<in> set (enforcement_objects (pruned c n d)). s \<in> set (enforcement_objects d)" by (simp_all add: pruned_tables)
  moreover have "distinct (map o_id (enforcement_objects (pruned c n d)))" "distinct (map o_prefix (enforcement_objects (pruned c n d)))"
    using assms by (simp_all add: objects_ok_def pruned_tables distinct_delete_where)
  ultimately show ?thesis using assms unfolding objects_ok_def pruned_tables(1) by blast
qed

lemma kept_items_mem: "i \<in> set (kept_items c d) \<longleftrightarrow> i \<in> set (lapi_operation_items d) \<and>
    (\<forall>r \<in> set (lapi_operations d). op_token r = i_operation_token i \<longrightarrow> \<not> old_operation c r)"
  by (auto simp: kept_items_def image_iff)

lemma kept_decisions_ids: "d_id ` set (kept_decisions c d) = d_id ` {x \<in> set (lapi_decisions d). \<not> old_decision c (kept_items c d) x}"
  using arg_cong [OF kept_decisions_map [of d_id c d], of set] by simp

lemma kept_decisions_links:
  assumes "decisions_ok d" and "r \<in> set (kept_decisions c d)" and "d_replaced_by_id r = Some n"
  shows "n \<in> d_id ` set (kept_decisions c d)"
proof -
  let ?old = "old_decision c (kept_items c d)"
  from assms(2,3) have r: "r \<in> set (lapi_decisions d)" "n \<notin> d_id ` set (filter ?old (lapi_decisions d))"
    by (auto simp: kept_decisions_def Let_def set_update_where)
  from assms(1,3) r(1) obtain x where "x \<in> set (lapi_decisions d)" "d_id x = n" by (auto simp: decisions_ok_def)
  with r(2) show ?thesis by (auto simp: kept_decisions_ids)
qed

lemma pruned_journal_ok:
  assumes "journal_ok d"
  shows "journal_ok (pruned c n d)"
proof -
  have ops: "operations_ok d" and dec: "decisions_ok d" using assms by (auto simp: journal_ok_def)
  have obj: "i \<in> o_id ` set (enforcement_objects (pruned c n d))"
    if "i \<in> o_id ` set (enforcement_objects d)" "(\<exists>x \<in> set (kept_decisions c d). d_object_id x = i) \<or> (\<exists>x \<in> set (kept_items c d). i_object_id x = i)" for i
    using that by (auto simp: pruned_tables old_object_def)
  have "i_operation_token i \<in> op_token ` set (lapi_operations (pruned c n d)) \<and>
      i_object_id i \<in> o_id ` set (enforcement_objects (pruned c n d)) \<and>
      (\<forall>old. i_old_decision_row_id i = Some old \<longrightarrow> old \<in> d_id ` set (lapi_decisions (pruned c n d)))"
    if i: "i \<in> set (kept_items c d)" for i
  proof (intro conjI allI impI)
    have i': "i \<in> set (lapi_operation_items d)" using i by (simp add: kept_items_mem)
    then obtain r where "r \<in> set (lapi_operations d)" "op_token r = i_operation_token i"
      using ops by (auto simp: operations_ok_def)
    with i show "i_operation_token i \<in> op_token ` set (lapi_operations (pruned c n d))"
      by (auto simp: kept_items_mem pruned_tables intro!: image_eqI [of _ _ r])
    show "i_object_id i \<in> o_id ` set (enforcement_objects (pruned c n d))"
      using obj [of "i_object_id i"] i i' ops by (auto simp: operations_ok_def)
    fix old
    assume old: "i_old_decision_row_id i = Some old"
    then have "old \<in> d_id ` set (lapi_decisions d)" using ops i' unfolding operations_ok_def by blast
    then obtain x where x: "x \<in> set (lapi_decisions d)" "d_id x = old" by auto
    then have "\<not> old_decision c (kept_items c d) x" using i old by (auto simp: old_decision_def)
    with x show "old \<in> d_id ` set (lapi_decisions (pruned c n d))" by (auto simp: pruned_tables kept_decisions_ids)
  qed
  moreover have "distinct (map item_key (kept_items c d))"
    using ops by (simp add: kept_items_def operations_ok_def distinct_delete_where)
  moreover have "distinct (map op_token (lapi_operations (pruned c n d)))"
      "\<forall>r \<in> set (lapi_operations (pruned c n d)). r \<in> set (lapi_operations d)"
    using ops by (simp_all add: pruned_tables operations_ok_def distinct_delete_where)
  ultimately have 1: "operations_ok (pruned c n d)"
    using ops unfolding operations_ok_def pruned_tables(1,5) by blast
  have "0 < d_id r \<and> d_alert_row_id r \<in> a_id ` set (lapi_alerts (pruned c n d)) \<and>
      d_object_id r \<in> o_id ` set (enforcement_objects (pruned c n d)) \<and>
      (\<forall>m. d_replaced_by_id r = Some m \<longrightarrow> m \<in> d_id ` set (kept_decisions c d))" if r: "r \<in> set (kept_decisions c d)" for r
  proof -
    obtain x where "x \<in> set (lapi_decisions d)" "r = x \<or> r = x\<lparr>d_replaced_by_id := None\<rparr>"
      using r by (rule kept_decisions_rows)
    then have f: "0 < d_id r" "d_alert_row_id r \<in> a_id ` set (lapi_alerts d)" "d_object_id r \<in> o_id ` set (enforcement_objects d)"
      using dec by (auto simp: decisions_ok_def)
    then have "d_alert_row_id r \<in> a_id ` set (lapi_alerts (pruned c n d))"
      using r by (auto simp: pruned_tables old_alert_def)
    with f obj [of "d_object_id r"] r kept_decisions_links [OF dec r] show ?thesis by blast
  qed
  moreover have "distinct (map d_id (kept_decisions c d))" "distinct (map d_decision_id (kept_decisions c d))"
    using dec by (simp_all add: kept_decisions_map decisions_ok_def distinct_delete_where)
  moreover have "distinct (map a_id (lapi_alerts (pruned c n d)))" "distinct (map a_alert_id (lapi_alerts (pruned c n d)))"
      "distinct (map a_operation_token (lapi_alerts (pruned c n d)))"
    using dec by (simp_all add: pruned_tables decisions_ok_def distinct_delete_where)
  ultimately have "decisions_ok (pruned c n d)"
    unfolding decisions_ok_def pruned_tables(6) by blast
  with 1 show ?thesis by (simp add: journal_ok_def)
qed

text \<open>At most the configured number of finished runs is left.\<close>

lemma pruned_runs_bound: "distinct (map r_id (sync_runs d)) \<Longrightarrow> length (filter run_finished (sync_runs (pruned c n d))) \<le> nat n"
proof -
  assume dist: "distinct (map r_id (sync_runs d))"
  let ?recent = "take (nat n) (sort_cmp run_order (filter run_finished (sync_runs d)))"
  let ?left = "filter run_finished (sync_runs (pruned c n d))"
  have "set (map r_id ?left) \<subseteq> set (map r_id ?recent)" by (auto simp: pruned_tables old_run_def)
  then have "card (set (map r_id ?left)) \<le> card (set (map r_id ?recent))" by (intro card_mono) auto
  also have "\<dots> \<le> length (map r_id ?recent)" by (rule card_length)
  also have "\<dots> \<le> nat n" by simp
  finally have "card (set (map r_id ?left)) \<le> nat n" .
  moreover have "distinct (map r_id ?left)" using dist by (auto simp: pruned_tables delete_where_def intro!: distinct_map_filter)
  ultimately show ?thesis using distinct_card [of "map r_id ?left"] by simp
qed

subsection \<open>Properties: pruning\<close>

text \<open>
  The dry run of pruning predicts pruning exactly: on a consistent journal \<^verbatim>\<open>PruneHistory\<close> returns
  what \<^verbatim>\<open>PlanPruneHistory\<close> reports for the same arguments, in the error case as well.
\<close>

theorem PlanPruneHistory_exact:
  assumes "journal_ok d" and "runtime_ok d" and "unix now \<le> max_int64"
  shows "fst (PruneHistory now retention maxHistoryEntries d) = PlanPruneHistory now retention maxHistoryEntries d"
proof (cases "validPruneOptions now retention maxHistoryEntries")
  case True
  have "distinct (map d_id (lapi_decisions d))" using assms(1) by (simp add: journal_ok_def decisions_ok_def)
  note plan = PlanPruneHistory_eq [OF True this]
  let ?d = "pruned (unix (now - retention)) maxHistoryEntries d"
  have "runtime_ok ?d" "0 \<le> unix now" "validRuntimeKey RuntimeLastPrune"
    using assms(2) True by (simp_all add: runtime_ok_def pruned_tables validPruneOptions_def validRuntimeKey_def)
  from setRuntimeTimestamp_correct [OF this(1,3,2) assms(3)] obtain d' where "setRuntimeTimestamp RuntimeLastPrune now ?d = (Inr (), d')"
    by blast
  with plan show ?thesis by (simp add: PruneHistory_eq [OF True])
qed (simp add: PruneHistory_def PlanPruneHistory_def)

definition live_kept :: "db \<Rightarrow> db \<Rightarrow> bool" where
  "live_kept d d' \<longleftrightarrow>
     (\<forall>r \<in> set (sync_runs d). r_status r = RunStatusRunning \<longrightarrow> r \<in> set (sync_runs d')) \<and>
     (\<forall>r \<in> set (lapi_operations d). op_status r \<in> {OperationPending, OperationVerified, OperationAmbiguous} \<longrightarrow> r \<in> set (lapi_operations d')) \<and>
     (\<forall>r \<in> set (lapi_decisions d). d_status r \<in> {DecisionActive, DecisionExpiring} \<longrightarrow>
        r \<in> set (lapi_decisions d') \<or> r\<lparr>d_replaced_by_id := None\<rparr> \<in> set (lapi_decisions d')) \<and>
     (\<forall>r \<in> set (enforcement_objects d). o_desired r \<longrightarrow> r \<in> set (enforcement_objects d')) \<and>
     (\<forall>r \<in> set (feed_entries d). e_active r \<longrightarrow> r \<in> set (feed_entries d')) \<and> feeds d' = feeds d"

lemma live_kept_pruned: "live_kept d (pruned c n d)"
  by (auto simp: live_kept_def pruned_tables old_run_def run_finished_def old_operation_def old_object_def old_entry_def
      kept_decisions_def Let_def set_update_where old_decision_def)

text \<open>
  C20. Pruning is safe: with valid options it succeeds on every consistent store, keeps the invariant
  of every table (no reference is left dangling), removes no running run, open operation, live
  decision, desired object or active entry, leaves at most the configured number of finished runs
  and records when it ran.
\<close>

theorem PruneHistory_safe:
  assumes ok: "feeds_ok d" "objects_ok d" "journal_ok d" "runs_ok d" "runtime_ok d"
    and v: "validPruneOptions now retention maxHistoryEntries" and t: "unix now \<le> max_int64"
  shows "\<exists>res d'. PruneHistory now retention maxHistoryEntries d = (Inr res, d') \<and>
    feeds_ok d' \<and> objects_ok d' \<and> journal_ok d' \<and> runs_ok d' \<and> runtime_ok d' \<and> live_kept d d' \<and>
    int (length (filter run_finished (sync_runs d'))) \<le> maxHistoryEntries \<and>
    stored_seconds d' RuntimeLastPrune = Some (later (stored_seconds d RuntimeLastPrune) (unix now))"
proof -
  let ?d = "pruned (unix (now - retention)) maxHistoryEntries d"
  have p: "runtime_ok ?d" "0 \<le> unix now" "validRuntimeKey RuntimeLastPrune" "1 \<le> maxHistoryEntries"
    using ok(5) v by (simp_all add: runtime_ok_def pruned_tables validPruneOptions_def validRuntimeKey_def)
  from setRuntimeTimestamp_correct [OF this(1,3,2) t] obtain d' where d':
      "setRuntimeTimestamp RuntimeLastPrune now ?d = (Inr (), d')" "runtime_ok d'" "d' = ?d\<lparr>runtime_state := runtime_state d'\<rparr>"
      "stored_seconds d' RuntimeLastPrune = Some (later (stored_seconds ?d RuntimeLastPrune) (unix now))"
    by auto
  obtain rt where eq: "d' = ?d\<lparr>runtime_state := rt\<rparr>" using d'(3) by blast
  have inv: "feeds_ok d'" "objects_ok d'" "journal_ok d'" "runs_ok d'"
    using pruned_feeds_ok [OF ok(1)] pruned_objects_ok [OF ok(2)] pruned_journal_ok [OF ok(3)] pruned_runs_ok [OF ok(4)]
    by (simp_all add: eq feeds_ok_def objects_ok_def journal_ok_def operations_ok_def decisions_ok_def runs_ok_def)
  have live: "live_kept d d'" using live_kept_pruned by (simp add: eq live_kept_def)
  have "distinct (map r_id (sync_runs d))" using ok(4) by (simp add: runs_ok_def)
  from pruned_runs_bound [OF this, of "unix (now - retention)" maxHistoryEntries]
  have bound: "int (length (filter run_finished (sync_runs d'))) \<le> maxHistoryEntries" using p(4) by (simp add: eq)
  have "stored_seconds ?d = stored_seconds d" by (rule stored_seconds_frame) (simp add: pruned_tables)
  with d'(1,2,4) inv live bound show ?thesis by (auto simp: PruneHistory_eq [OF v])
qed

subsection \<open>A concrete pruning\<close>

text \<open>The store of \<open>sample_journal\<close> with a failed operation from long ago.\<close>

definition sample_history :: db where
  "sample_history = sample_journal\<lparr>lapi_operations := lapi_operations sample_journal @
     [\<lparr>op_token = replicate 32 (CHR ''c''), op_kind = OperationCreate, op_feed_id = 1,
       op_duration_seconds = 3600, op_payload_hash = sample_hash, op_status = OperationFailed,
       op_started_at = 10, op_completed_at = Some 20, op_error_category = []\<rparr>]\<rparr>"

lemma sample_history_ok: "feeds_ok sample_history" "objects_ok sample_history" "journal_ok sample_history"
  "runs_ok sample_history" "runtime_ok sample_history"
proof -
  show "feeds_ok sample_history" "objects_ok sample_history"
    using sample_store_ok sample_journal_ok(2) by (simp_all add: sample_history_def feeds_ok_def objects_ok_def sample_journal_def)
  have "sample_token \<noteq> replicate 32 (CHR ''c'')" by (simp add: sample_token_def replicate_numeral)
  then show "journal_ok sample_history"
    by (simp add: sample_history_def journal_ok_def operations_ok_def decisions_ok_def sample_journal_def sample_store_def empty_db_def
        sample_feed_def sample_object_row_def)
  show "runs_ok sample_history" "runtime_ok sample_history"
    by (simp_all add: sample_history_def sample_journal_def sample_store_def empty_db_def runs_ok_def runtime_ok_def)
qed

lemma sample_prune_options: "validPruneOptions (9000 * second) hour 10" "unix (9000 * second) \<le> max_int64"
  by (simp_all add: validPruneOptions_def IsZero_def time_zero_def unix_def hour_def minute_def second_def max_int64_def)

theorem PlanPruneHistory_exact_witness:
  "fst (PruneHistory (9000 * second) hour 10 sample_history) = PlanPruneHistory (9000 * second) hour 10 sample_history \<and>
   (\<exists>res. PlanPruneHistory (9000 * second) hour 10 sample_history = Inr res \<and> pr_Operations res = 1)"
proof -
  have "unix (9000 * second - hour) = 5400" by (simp add: unix_def hour_def minute_def second_def)
  then have "pr_Operations (prune_counts (unix (9000 * second - hour)) 10 sample_history) = 1"
    by (simp add: prune_counts_def) (simp add: sample_history_def sample_journal_def old_operation_def before_def)
  moreover have "distinct (map d_id (lapi_decisions sample_history))"
    using sample_history_ok(3) by (simp add: journal_ok_def decisions_ok_def)
  ultimately show ?thesis
    using PlanPruneHistory_exact [OF sample_history_ok(3,5) sample_prune_options(2), of hour 10]
      PlanPruneHistory_eq [OF sample_prune_options(1)] by simp
qed

theorem PruneHistory_safe_witness:
  "\<exists>res d'. PruneHistory (9000 * second) hour 10 sample_history = (Inr res, d') \<and> journal_ok d' \<and> live_kept sample_history d'"
  using PruneHistory_safe [OF sample_history_ok sample_prune_options] by blast

end
