(* ===== verification/Store_Steps.thy ===== *)
theory Store_Steps
  imports Store_Prune
begin

text \<open>
  The store as a whole: one invariant over all tables, a step relation with one rule per operation
  of the package \<^verbatim>\<open>internal/state\<close> that changes the database, and what no step can do. The rules do
  not ask for valid arguments: a call that is refused is a step that changes nothing. Times are
  those a Go \<^verbatim>\<open>time.Time\<close> can hold, whose seconds fit an \<^verbatim>\<open>int64\<close>.
\<close>

subsection \<open>The step relation\<close>

definition store_ok :: "db \<Rightarrow> bool" where
  "store_ok d \<longleftrightarrow> feeds_ok d \<and> objects_ok d \<and> journal_ok d \<and> runs_ok d \<and> runtime_ok d"

inductive store_step :: "db \<Rightarrow> db \<Rightarrow> bool" where
  ensure: "EnsureFeeds definitions now d = (res, d') \<Longrightarrow> store_step d d'"
| snapshot: "ApplyFeedSnapshot name snap grace now d = (res, d') \<Longrightarrow> store_step d d'"
| failure: "RecordFeedFailure name category now nextAttempt d = (res, d') \<Longrightarrow> store_step d d'"
| not_modified: "RecordFeedNotModified name etag lastModified now d = (res, d') \<Longrightarrow> store_step d d'"
| plan: "ApplyEnforcementPlan obs now d = (res, d') \<Longrightarrow> store_step d d'"
| begin_op: "BeginOperation operation d = (res, d') \<Longrightarrow> store_step d d'"
| record_op: "RecordVerifiedOperation token alert now d = (res, d') \<Longrightarrow> store_step d d'"
| complete_op: "CompleteOperation token now d = (res, d') \<Longrightarrow> store_step d d'"
| set_status: "SetOperationStatus token status category now d = (res, d') \<Longrightarrow> store_step d d'"
| expire: "MarkDecisionExpired row now d = (res, d') \<Longrightarrow> store_step d d'"
| begin_run: "BeginSyncRun mode feed now d = (res, d') \<Longrightarrow> store_step d d'"
| complete_run: "unix (res_CompletedAt result) \<le> max_int64 \<Longrightarrow> CompleteSyncRun runID result d = (res, d') \<Longrightarrow> store_step d d'"
| recover: "RecoverInterruptedSyncRuns now d = (res, d') \<Longrightarrow> store_step d d'"
| timestamp: "unix now \<le> max_int64 \<Longrightarrow> SetRuntimeTimestamp key now d = (res, d') \<Longrightarrow> store_step d d'"
| prune: "unix now \<le> max_int64 \<Longrightarrow> PruneHistory now retention n d = (res, d') \<Longrightarrow> store_step d d'"

subsection \<open>Facts: operations on feeds\<close>

lemma distinct_key_eq: "distinct (map k rows) \<Longrightarrow> x \<in> set rows \<Longrightarrow> y \<in> set rows \<Longrightarrow> k x = k y \<Longrightarrow> x = y"
  by (auto simp: distinct_map inj_on_def)

abbreviation feed_key :: "feed_row \<Rightarrow> int \<times> string" where
  "feed_key f \<equiv> (f_id f, f_name f)"

definition feed_frame :: "db \<Rightarrow> db \<Rightarrow> bool" where
  "feed_frame d d' \<longleftrightarrow> d' = d\<lparr>feeds := feeds d', feed_entries := feed_entries d'\<rparr> \<and>
     feed_key ` set (feeds d) \<subseteq> feed_key ` set (feeds d')"

lemma feed_frame_refl [simp]: "feed_frame d d"
  by (simp add: feed_frame_def)

lemma feed_frame_update:
  assumes "\<And>r. f_id (g r) = f_id r" and "\<And>r. f_name (g r) = f_name r"
  shows "feed_frame d (d\<lparr>feeds := update_where P g (feeds d), feed_entries := es\<rparr>)"
    and "feed_frame d (d\<lparr>feeds := update_where P g (feeds d)\<rparr>)"
  using image_update_where [of P feed_key g "feeds d"] assms by (auto simp: feed_frame_def)

lemma upsert_feed_keys: "feed_key ` set rows \<subseteq> feed_key ` set (upsert_feed now rows x)"
proof (cases "fd_Name x \<in> f_name ` set rows")
  case True
  then show ?thesis
    using image_update_where [of "\<lambda>r. f_name r = fd_Name x" feed_key _ rows] by (simp add: upsert_feed_def upsert_def)
qed (auto simp: upsert_feed_def upsert_def)

lemma foldl_upsert_feed_keys: "feed_key ` set rows \<subseteq> feed_key ` set (foldl (upsert_feed now) rows xs)"
proof (induction xs arbitrary: rows)
  case (Cons x xs)
  from Cons.IH [of "upsert_feed now rows x"] upsert_feed_keys [of rows now x] show ?case by auto
qed simp

lemma EnsureFeeds_frame: "EnsureFeeds definitions now d = (res, d') \<Longrightarrow> feed_frame d d'"
  using foldl_upsert_feed_keys [of "update_where f_enabled (\<lambda>r. r\<lparr>f_enabled := False\<rparr>) (feeds d)" now definitions]
    image_update_where [of f_enabled feed_key "\<lambda>r. r\<lparr>f_enabled := False\<rparr>" "feeds d"]
  by (auto simp: EnsureFeeds_def Let_def feed_frame_def split: if_splits sum.splits)

lemma ApplyFeedSnapshot_frame: "ApplyFeedSnapshot name snap grace now d = (res, d') \<Longrightarrow> feed_frame d d'"
  by (auto simp: ApplyFeedSnapshot_def Let_def feed_frame_def image_update_where split: if_splits sum.splits option.splits)

lemma RecordFeedFailure_frame: "RecordFeedFailure name category now nextAttempt d = (res, d') \<Longrightarrow> feed_frame d d'"
  by (auto simp: RecordFeedFailure_def Let_def intro!: feed_frame_update(2) split: if_splits)

lemma RecordFeedNotModified_frame: "RecordFeedNotModified name etag lastModified now d = (res, d') \<Longrightarrow> feed_frame d d'"
  by (auto simp: RecordFeedNotModified_def Let_def intro!: feed_frame_update(2) split: if_splits)

lemma feed_frame_tables:
  assumes "feed_frame d d'"
  shows "enforcement_objects d' = enforcement_objects d" "enforcement_sources d' = enforcement_sources d"
    "lapi_alerts d' = lapi_alerts d" "lapi_decisions d' = lapi_decisions d" "lapi_operations d' = lapi_operations d"
    "lapi_operation_items d' = lapi_operation_items d" "sync_runs d' = sync_runs d"
    "feed_run_results d' = feed_run_results d" "runtime_state d' = runtime_state d"
    "f_id ` set (feeds d) \<subseteq> f_id ` set (feeds d')"
proof -
  from assms have eq: "d' = d\<lparr>feeds := feeds d', feed_entries := feed_entries d'\<rparr>"
    and sub: "feed_key ` set (feeds d) \<subseteq> feed_key ` set (feeds d')" by (auto simp: feed_frame_def)
  show "enforcement_objects d' = enforcement_objects d" "enforcement_sources d' = enforcement_sources d"
    "lapi_alerts d' = lapi_alerts d" "lapi_decisions d' = lapi_decisions d" "lapi_operations d' = lapi_operations d"
    "lapi_operation_items d' = lapi_operation_items d" "sync_runs d' = sync_runs d"
    "feed_run_results d' = feed_run_results d" "runtime_state d' = runtime_state d"
    by (subst eq, simp)+
  show "f_id ` set (feeds d) \<subseteq> f_id ` set (feeds d')" using image_mono [OF sub, of fst] by (simp add: image_image)
qed

lemma feed_frame_store_ok:
  assumes "store_ok d" and fr: "feed_frame d d'" and ok: "feeds_ok d'"
  shows "store_ok d'"
proof -
  note t = feed_frame_tables [OF fr]
  from assms(1) have inv: "objects_ok d" "journal_ok d" "runs_ok d" "runtime_ok d" by (auto simp: store_ok_def)
  have sub: "feed_key ` set (feeds d) \<subseteq> feed_key ` set (feeds d')" using fr by (simp add: feed_frame_def)
  have dist: "distinct (map f_id (feeds d'))" using ok by (simp add: feeds_ok_def)
  have "FeedResult_valid (result_of (x, f))"
    if x: "x \<in> set (feed_run_results d)" and f: "f \<in> set (feeds d')" "f_id f = rf_feed_id x" for x f
  proof -
    from x inv(3) have fk: "rf_feed_id x \<in> f_id ` set (feeds d)" unfolding runs_ok_def by blast
    then obtain g where g: "g \<in> set (feeds d)" "f_id g = rf_feed_id x" by auto
    with x inv(3) have v: "FeedResult_valid (result_of (x, g))" unfolding runs_ok_def by blast
    from g(1) sub obtain h where h: "h \<in> set (feeds d')" "f_id h = f_id g" "f_name h = f_name g" by (auto simp: image_iff)
    then have "h = f" using f g distinct_key_eq [OF dist, of h f] by simp
    with h v show ?thesis by (simp add: result_of_def)
  qed
  then have "runs_ok d'" using inv(3) t(10) unfolding runs_ok_def t(7,8) by blast
  moreover have "objects_ok d'" using inv(1) t(10) unfolding objects_ok_def t(1,2) by blast
  moreover have "journal_ok d'" using inv(2) t(10) unfolding journal_ok_def operations_ok_def decisions_ok_def t(1,3-6) by blast
  moreover have "runtime_ok d'" using inv(4) by (simp add: runtime_ok_def t(9))
  ultimately show ?thesis using ok by (simp add: store_ok_def)
qed

subsection \<open>Facts: operations on objects and runs\<close>

definition object_frame :: "db \<Rightarrow> db \<Rightarrow> bool" where
  "object_frame d d' \<longleftrightarrow> d' = d\<lparr>enforcement_objects := enforcement_objects d', enforcement_sources := enforcement_sources d'\<rparr> \<and>
     o_id ` set (enforcement_objects d) \<subseteq> o_id ` set (enforcement_objects d')"

lemma object_frame_trans: "object_frame d d1 \<Longrightarrow> object_frame d1 d2 \<Longrightarrow> object_frame d d2"
  unfolding object_frame_def by (metis (no_types, lifting) db.surjective db.update_convs(3,4) subset_trans)

lemma upsert_object_ids: "o_id ` set rows \<subseteq> o_id ` set (upsert_object now rows ob)"
proof (cases "prefix_String (obj_Prefix ob) \<in> o_prefix ` set rows")
  case True
  then show ?thesis
    using image_update_where [of "\<lambda>r. o_prefix r = prefix_String (obj_Prefix ob)" o_id _ rows]
    by (simp add: upsert_object_def upsert_def)
qed (auto simp: upsert_object_def upsert_def)

lemma plan_steps_frame: "plan_steps now obs d = Inr d' \<Longrightarrow> object_frame d d'"
proof (induction obs arbitrary: d)
  case (Cons ob obs)
  from Cons.prems obtain d1 where d1: "plan_step now ob d = Inr d1" "plan_steps now obs d1 = Inr d'"
    by (auto split: sum.splits)
  from d1(1) have "object_frame d d1"
    by (rule plan_step_cases) (use upsert_object_ids [of "enforcement_objects d" now ob] in \<open>auto simp: object_frame_def\<close>)
  then show ?case using Cons.IH [OF d1(2)] by (rule object_frame_trans)
qed (simp add: object_frame_def)

lemma ApplyEnforcementPlan_frame:
  assumes "ApplyEnforcementPlan obs now d = (res, d')" and "objects_ok d"
  shows "object_frame d d' \<and> objects_ok d'"
proof -
  have "object_frame d (stale_objects now d)"
    using image_update_where [of _ o_id _ "enforcement_objects d"] by (auto simp: object_frame_def stale_objects_def)
  moreover have "objects_ok (stale_objects now d)" using assms(2) by (rule stale_objects_ok)
  moreover have "object_frame d d" by (simp add: object_frame_def)
  ultimately show ?thesis
    using assms plan_steps_frame [of now obs "stale_objects now d" d'] plan_steps_objects_ok [of "stale_objects now d" now obs d']
    by (auto simp: ApplyEnforcementPlan_def plan_valid_iff split: if_splits sum.splits dest: object_frame_trans)
qed

lemma object_frame_store_ok:
  assumes "store_ok d" and fr: "object_frame d d'" and ok: "objects_ok d'"
  shows "store_ok d'"
proof -
  from fr have eq: "d' = d\<lparr>enforcement_objects := enforcement_objects d', enforcement_sources := enforcement_sources d'\<rparr>"
    and sub: "o_id ` set (enforcement_objects d) \<subseteq> o_id ` set (enforcement_objects d')" by (auto simp: object_frame_def)
  have t: "feeds d' = feeds d" "feed_entries d' = feed_entries d" "lapi_alerts d' = lapi_alerts d"
      "lapi_decisions d' = lapi_decisions d" "lapi_operations d' = lapi_operations d"
      "lapi_operation_items d' = lapi_operation_items d" "sync_runs d' = sync_runs d"
      "feed_run_results d' = feed_run_results d" "runtime_state d' = runtime_state d"
    by (subst eq, simp)+
  have "journal_ok d'"
    using assms(1) sub unfolding store_ok_def journal_ok_def operations_ok_def decisions_ok_def t by blast
  with assms(1) ok show ?thesis by (simp add: store_ok_def feeds_ok_def runs_ok_def runtime_ok_def t)
qed

lemma insert_feed_results_names:
  "insert_feed_results fs runID results rows = Inr rows' \<Longrightarrow> \<forall>f \<in> set results. fr_Name f \<in> f_name ` set fs"
proof (induction results arbitrary: rows)
  case (Cons f results)
  then obtain g where "find (\<lambda>x. f_name x = fr_Name f) fs = Some g" by (auto split: option.splits if_splits)
  then have "fr_Name f \<in> f_name ` set fs" using find_Some_key [of f_name "fr_Name f" fs g] by (metis image_eqI)
  moreover obtain rows1 where "insert_feed_results fs runID results rows1 = Inr rows'"
    using Cons.prems by (auto split: option.splits if_splits)
  ultimately show ?case using Cons.IH by auto
qed simp

lemma CompleteSyncRun_cases:
  assumes "CompleteSyncRun runID result d = (res, d')" and ok: "store_ok d" and "unix (res_CompletedAt result) \<le> max_int64"
  obtains (refused) "d' = d"
  | (completed) run status rt where "row_at r_id (sync_runs d) runID = Some run" and "r_status run = RunStatusRunning"
    and "Result_Validate result = None" and "statusForResult result = Some status"
    and "d' = (with_run status result runID d)\<lparr>runtime_state := rt\<rparr>" and "runs_ok (with_run status result runID d)"
    and "runtime_ok d'"
proof (cases res)
  case (Inl e)
  then have "d' = d"
    using assms(1) by (auto simp: CompleteSyncRun_def Let_def split: option.splits if_splits sum.splits prod.splits)
  then show ?thesis by (rule refused)
next
  case (Inr u)
  from Inr assms(1) obtain status run rows where s: "statusForResult result = Some status" "0 < runID" "Result_Validate result = None"
      "row_at r_id (sync_runs d) runID = Some run" "r_status run = RunStatusRunning" "r_started_at run \<le> unix (res_CompletedAt result)"
      "insert_feed_results (feeds d) runID (res_Feeds result) (feed_run_results d) = Inr rows"
    by (auto simp: CompleteSyncRun_def Let_def split: option.splits if_splits sum.splits prod.splits)
  from ok have inv: "runs_ok d" "runtime_ok d" "distinct (map f_id (feeds d))" by (auto simp: store_ok_def feeds_ok_def)
  note names = insert_feed_results_names [OF s(7)]
  from CompleteSyncRun_total [OF inv s(2,4,5,3,1) names s(6) assms(3)] obtain rt where
    "CompleteSyncRun runID result d = (Inr (), (with_run status result runID d)\<lparr>runtime_state := rt\<rparr>)"
    "runtime_ok ((with_run status result runID d)\<lparr>runtime_state := rt\<rparr>)" by blast
  moreover note with_run_ok(2) [OF inv(1,3) s(4,5,3,1) names]
  ultimately show ?thesis using assms(1) s completed [of run status rt] by simp
qed

lemma SetRuntimeTimestamp_cases:
  assumes "SetRuntimeTimestamp key now d = (res, d')" and "runtime_ok d" and "unix now \<le> max_int64"
  shows "runtime_ok d' \<and> (\<exists>rt. d' = d\<lparr>runtime_state := rt\<rparr>)"
proof (cases "validRuntimeKey key \<and> 0 \<le> unix now")
  case True
  then have "\<exists>d'. setRuntimeTimestamp key now d = (Inr (), d') \<and> runtime_ok d' \<and> d' = d\<lparr>runtime_state := runtime_state d'\<rparr>"
    using setRuntimeTimestamp_correct [OF assms(2) _ _ assms(3), of key] by blast
  with assms(1) show ?thesis by (auto simp: SetRuntimeTimestamp_def)
next
  case False
  then have "d' = d" using assms(1) by (auto simp: SetRuntimeTimestamp_def setRuntimeTimestamp_def split: if_splits)
  then show ?thesis using assms(2) by (auto intro: exI [of _ "runtime_state d"])
qed

lemma PruneHistory_cases:
  assumes "PruneHistory now retention n d = (res, d')" and "store_ok d" and "unix now \<le> max_int64"
  obtains (refused) "d' = d"
  | (pruned) c rt where "d' = (pruned c n d)\<lparr>runtime_state := rt\<rparr>" and "runtime_ok d'"
proof (cases "validPruneOptions now retention n")
  case False
  then show ?thesis using assms(1) refused by (simp add: PruneHistory_def)
next
  case True
  let ?d = "pruned (unix (now - retention)) n d"
  have "runtime_ok ?d" using assms(2) by (simp add: store_ok_def runtime_ok_def pruned_tables)
  then have "runtime_ok x \<and> (\<exists>rt. x = ?d\<lparr>runtime_state := rt\<rparr>)" if "setRuntimeTimestamp RuntimeLastPrune now ?d = (y, x)" for x y
    using SetRuntimeTimestamp_cases [of RuntimeLastPrune now ?d y x] that assms(3) by (simp add: SetRuntimeTimestamp_def)
  then have "d' = d \<or> (runtime_ok d' \<and> (\<exists>rt. d' = ?d\<lparr>runtime_state := rt\<rparr>))"
    using assms(1) by (auto simp: PruneHistory_eq [OF True] split: prod.splits sum.splits)
  then show ?thesis using refused pruned by blast
qed

subsection \<open>The invariant of every reachable store\<close>

lemma journal_frame_store_ok:
  assumes "store_ok d" and "journal_ok d'" and "d' = d\<lparr>lapi_alerts := al, lapi_decisions := ds, lapi_operations := ops, lapi_operation_items := its\<rparr>"
  shows "store_ok d'"
  using assms by (simp add: store_ok_def feeds_ok_def objects_ok_def runs_ok_def runtime_ok_def)

definition journal_frame :: "db \<Rightarrow> db \<Rightarrow> bool" where
  "journal_frame d d' \<longleftrightarrow> d' = d\<lparr>lapi_alerts := lapi_alerts d', lapi_decisions := lapi_decisions d',
     lapi_operations := lapi_operations d', lapi_operation_items := lapi_operation_items d'\<rparr>"

lemma journal_frames:
  "BeginOperation operation d = (res, d') \<Longrightarrow> journal_frame d d'"
  "CompleteOperation token now d = (res, d') \<Longrightarrow> journal_frame d d'"
  "SetOperationStatus token status category now d = (res, d') \<Longrightarrow> journal_frame d d'"
  "MarkDecisionExpired row now d = (res, d') \<Longrightarrow> journal_frame d d'"
  "store_verified token alert now ex d = (recs, d') \<Longrightarrow> journal_frame d d'"
  by (auto simp: BeginOperation_def CompleteOperation_def SetOperationStatus_def MarkDecisionExpired_def store_verified_def Let_def
      journal_frame_def split: if_splits sum.splits prod.splits)

lemma RecordVerifiedOperation_frame:
  assumes "RecordVerifiedOperation token alert now d = (res, d')"
  shows "journal_frame d d'"
  using assms journal_frames(5) [of token alert now _ d res d']
  unfolding RecordVerifiedOperation_def
  by (auto simp: Let_def journal_frame_def split: if_splits sum.splits prod.splits option.splits)

lemma run_frame_store_ok:
  assumes "store_ok d" and "runs_ok d'" and "runtime_ok d'"
    and "d' = d\<lparr>sync_runs := rs, feed_run_results := fr, runtime_state := rt\<rparr>"
  shows "store_ok d'"
  using assms by (simp add: store_ok_def feeds_ok_def objects_ok_def journal_ok_def operations_ok_def decisions_ok_def)

lemma store_step_ok:
  assumes "store_step d d'" and ok: "store_ok d"
  shows "store_ok d'"
  using assms(1)
proof cases
  case (ensure definitions now res)
  then show ?thesis
    using feed_frame_store_ok [OF ok EnsureFeeds_frame] ok EnsureFeeds_feeds_ok [of d definitions now res d'] by (simp add: store_ok_def)
next
  case (snapshot name snap grace now res)
  show ?thesis
  proof (cases res)
    case (Inl e)
    then have "d' = d" using snapshot by (auto simp: ApplyFeedSnapshot_def Let_def split: if_splits sum.splits option.splits)
    then show ?thesis using ok by simp
  next
    case (Inr r)
    then show ?thesis
      using snapshot feed_frame_store_ok [OF ok ApplyFeedSnapshot_frame] ok ApplyFeedSnapshot_feeds_ok [of d name snap grace now r d']
      by (simp add: store_ok_def)
  qed
next
  case (failure name category now nextAttempt res)
  then show ?thesis
    using feed_frame_store_ok [OF ok RecordFeedFailure_frame] ok RecordFeedFailure_feeds_ok [of d name category now nextAttempt res d']
    by (simp add: store_ok_def)
next
  case (not_modified name etag lastModified now res)
  then show ?thesis
    using feed_frame_store_ok [OF ok RecordFeedNotModified_frame] ok RecordFeedNotModified_feeds_ok [of d name etag lastModified now res d']
    by (simp add: store_ok_def)
next
  case (plan obs now res)
  then show ?thesis
    using ApplyEnforcementPlan_frame [of obs now d res d'] object_frame_store_ok [OF ok, of d'] ok by (simp add: store_ok_def)
next
  case (begin_op operation res)
  then show ?thesis
    using journal_frame_store_ok [OF ok] journal_frames(1) BeginOperation_journal_ok ok unfolding store_ok_def journal_frame_def by blast
next
  case (record_op token alert now res)
  then show ?thesis
    using journal_frame_store_ok [OF ok] RecordVerifiedOperation_frame RecordVerifiedOperation_journal_ok ok
    unfolding store_ok_def journal_frame_def by blast
next
  case (complete_op token now res)
  then show ?thesis
    using journal_frame_store_ok [OF ok] journal_frames(2) CompleteOperation_journal_ok ok unfolding store_ok_def journal_frame_def by blast
next
  case (set_status token status category now res)
  then show ?thesis
    using journal_frame_store_ok [OF ok] journal_frames(3) SetOperationStatus_journal_ok ok unfolding store_ok_def journal_frame_def by blast
next
  case (expire row now res)
  then show ?thesis
    using journal_frame_store_ok [OF ok] journal_frames(4) MarkDecisionExpired_journal_ok ok unfolding store_ok_def journal_frame_def by blast
next
  case (begin_run mode feed now res)
  have eq: "d' = d\<lparr>sync_runs := sync_runs d', feed_run_results := feed_run_results d, runtime_state := runtime_state d\<rparr>"
    and "runtime_state d' = runtime_state d"
    using begin_run by (auto simp: BeginSyncRun_def Let_def split: if_splits)
  then have "runtime_ok d'" using ok runtime_ok_frame [of d' d] by (simp add: store_ok_def)
  moreover have "runs_ok d'" using BeginSyncRun_runs_ok [OF _ begin_run] ok by (simp add: store_ok_def)
  ultimately show ?thesis by (intro run_frame_store_ok [OF ok _ _ eq])
next
  case (complete_run result runID res)
  from complete_run(2) ok complete_run(1) show ?thesis
  proof (cases rule: CompleteSyncRun_cases)
    case (completed run status rt)
    have eq: "d' = d\<lparr>sync_runs := sync_runs (with_run status result runID d),
        feed_run_results := feed_run_results (with_run status result runID d), runtime_state := rt\<rparr>"
      by (simp add: completed(5)) (simp add: with_run_def)
    have "runs_ok d'" using completed(6) runs_ok_frame [of d' "with_run status result runID d"] by (simp add: completed(5))
    then show ?thesis by (rule run_frame_store_ok [OF ok _ completed(7) eq])
  qed (simp add: ok)
next
  case (recover now res)
  then consider "d' = d" | k where "RecoverInterruptedSyncRuns now d = (Inr k, d')"
    by (cases res) (auto simp: RecoverInterruptedSyncRuns_def Let_def split: if_splits)
  then show ?thesis
  proof cases
    case 2
    then have eq: "d' = d\<lparr>sync_runs := sync_runs d', feed_run_results := feed_run_results d, runtime_state := runtime_state d\<rparr>"
      and "runtime_state d' = runtime_state d"
      by (auto simp: RecoverInterruptedSyncRuns_def Let_def split: if_splits)
    then have "runtime_ok d'" using ok runtime_ok_frame [of d' d] by (simp add: store_ok_def)
    moreover have "runs_ok d'" using RecoverInterruptedSyncRuns_runs_ok(1) [OF _ 2] ok by (simp add: store_ok_def)
    ultimately show ?thesis by (intro run_frame_store_ok [OF ok _ _ eq])
  qed (simp add: ok)
next
  case (timestamp now key res)
  then obtain rt where rt: "runtime_ok d'" "d' = d\<lparr>runtime_state := rt\<rparr>"
    using SetRuntimeTimestamp_cases [of key now d res d'] ok by (auto simp: store_ok_def)
  have eq: "d' = d\<lparr>sync_runs := sync_runs d, feed_run_results := feed_run_results d, runtime_state := rt\<rparr>" by (simp add: rt(2))
  have "runs_ok d'" using ok runs_ok_frame [of d' d] by (simp add: rt(2) store_ok_def)
  then show ?thesis by (rule run_frame_store_ok [OF ok _ rt(1) eq])
next
  case (prune now retention n res)
  from prune(2) ok prune(1) show ?thesis
  proof (cases rule: PruneHistory_cases)
    case (pruned c rt)
    let ?p = "Store_Prune.pruned c n d"
    have p: "store_ok ?p"
      using pruned_feeds_ok [of d c n] pruned_objects_ok [of d c n] pruned_journal_ok [of d c n] pruned_runs_ok [of d c n] ok
        runtime_ok_frame [of ?p d] by (simp add: store_ok_def pruned_tables(2))
    have eq: "d' = ?p\<lparr>sync_runs := sync_runs ?p, feed_run_results := feed_run_results ?p, runtime_state := rt\<rparr>" by (simp add: pruned(1))
    have "runs_ok d'" using p runs_ok_frame [of d' ?p] by (simp add: pruned(1) store_ok_def)
    then show ?thesis by (rule run_frame_store_ok [OF p _ pruned(2) eq])
  qed (simp add: ok)
qed

lemma empty_store_ok: "store_ok empty_db"
  by (simp add: store_ok_def feeds_ok_def objects_ok_def journal_ok_def operations_ok_def decisions_ok_def runs_ok_def
      runtime_ok_def empty_db_def)

text \<open>
  C7. Every store that is reached from the empty database by any sequence of operations, with any
  arguments, satisfies the invariant of all tables: keys are unique, no reference dangles, and the
  rows are those the readers accept.
\<close>

theorem reachable_store_ok:
  assumes "store_step\<^sup>*\<^sup>* empty_db d"
  shows "store_ok d"
  using assms by (induction rule: rtranclp_induct) (auto intro: empty_store_ok store_step_ok)

theorem reachable_store_ok_witness:
  "store_ok (snd (BeginSyncRun SyncModeEnforce [] (1000 * second) (snd (EnsureFeeds sample_definitions (1000 * second) empty_db))))"
proof (rule reachable_store_ok)
  have "store_step empty_db (snd (EnsureFeeds sample_definitions (1000 * second) empty_db))"
    by (rule store_step.ensure) (rule surjective_pairing)
  moreover have "store_step x (snd (BeginSyncRun SyncModeEnforce [] (1000 * second) x))" for x
    by (rule store_step.begin_run) (rule surjective_pairing)
  ultimately show "store_step\<^sup>*\<^sup>* empty_db
      (snd (BeginSyncRun SyncModeEnforce [] (1000 * second) (snd (EnsureFeeds sample_definitions (1000 * second) empty_db))))"
    by (metis rtranclp.rtrancl_into_rtrancl r_into_rtranclp)
qed

subsection \<open>The life cycle of operations and decisions\<close>

inductive operation_move :: "OperationStatus \<Rightarrow> OperationStatus \<Rightarrow> bool" where
  "operation_move s s"
| "operation_move OperationPending OperationVerified"
| "operation_move OperationPending OperationAmbiguous"
| "operation_move OperationPending OperationFailed"
| "operation_move OperationAmbiguous OperationVerified"
| "operation_move OperationAmbiguous OperationFailed"
| "operation_move OperationVerified OperationCompleted"

inductive decision_move :: "DecisionStatus \<Rightarrow> DecisionStatus \<Rightarrow> bool" where
  "decision_move s s"
| "decision_move DecisionActive DecisionExpiring"
| "decision_move DecisionActive DecisionExpired"
| "decision_move DecisionExpiring DecisionExpired"

lemmas [simp] = operation_move.intros decision_move.intros

definition operation_static :: "operation_row \<Rightarrow> string \<times> OperationKind \<times> int \<times> int \<times> string \<times> int" where
  "operation_static r = (op_token r, op_kind r, op_feed_id r, op_duration_seconds r, op_payload_hash r, op_started_at r)"

text \<open>A row has one successor of the same identity, further along its life cycle, or it was finished and its key is gone;
  a row under a new key is at the start of the life cycle.\<close>

definition operations_move :: "db \<Rightarrow> db \<Rightarrow> bool" where
  "operations_move d d' \<longleftrightarrow> (\<forall>r \<in> set (lapi_operations d).
     (\<exists>r' \<in> set (lapi_operations d'). operation_static r' = operation_static r \<and> operation_move (op_status r) (op_status r')) \<or>
     (op_status r \<in> {OperationCompleted, OperationFailed} \<and> op_token r \<notin> op_token ` set (lapi_operations d'))) \<and>
   (\<forall>r' \<in> set (lapi_operations d'). op_token r' \<notin> op_token ` set (lapi_operations d) \<longrightarrow> op_status r' = OperationPending)"

definition decision_identity :: "decision_row \<Rightarrow> int \<times> int \<times> int \<times> int \<times> string \<times> string \<times> Scope \<times> string \<times> int \<times> int" where
  "decision_identity r = (d_id r, d_object_id r, d_alert_row_id r, d_decision_id r, d_origin r, d_scenario r, d_scope r,
     d_value r, d_created_at r, d_expires_at r)"

definition decisions_move :: "db \<Rightarrow> db \<Rightarrow> bool" where
  "decisions_move d d' \<longleftrightarrow> (\<forall>r \<in> set (lapi_decisions d).
     (\<exists>r' \<in> set (lapi_decisions d'). decision_identity r' = decision_identity r \<and> decision_move (d_status r) (d_status r')) \<or>
     (d_status r \<in> {DecisionExpired, DecisionOrphaned} \<and> d_id r \<notin> d_id ` set (lapi_decisions d'))) \<and>
   (\<forall>r' \<in> set (lapi_decisions d'). d_id r' \<notin> d_id ` set (lapi_decisions d) \<longrightarrow> d_status r' = DecisionActive)"

lemma operations_move_same: "lapi_operations d' = lapi_operations d \<Longrightarrow> operations_move d d'"
  by (auto simp: operations_move_def)

lemma decisions_move_same: "lapi_decisions d' = lapi_decisions d \<Longrightarrow> decisions_move d d'"
  by (auto simp: decisions_move_def)

lemma operations_move_update:
  assumes "lapi_operations d' = update_where P g (lapi_operations d)"
    and "\<And>r. r \<in> set (lapi_operations d) \<Longrightarrow> P r \<Longrightarrow> operation_static (g r) = operation_static r \<and> operation_move (op_status r) (op_status (g r))"
  shows "operations_move d d'"
  unfolding operations_move_def
proof (intro conjI ballI impI disjI1)
  fix r
  assume r: "r \<in> set (lapi_operations d)"
  then have "(if P r then g r else r) \<in> set (lapi_operations d')" by (auto simp: assms(1) set_update_where)
  with assms(2) [OF r] show "\<exists>r' \<in> set (lapi_operations d'). operation_static r' = operation_static r \<and> operation_move (op_status r) (op_status r')"
    by (intro bexI [of _ "if P r then g r else r"]) auto
next
  fix r'
  assume "r' \<in> set (lapi_operations d')" "op_token r' \<notin> op_token ` set (lapi_operations d)"
  then show "op_status r' = OperationPending" using assms(2) by (auto simp: assms(1) set_update_where operation_static_def image_iff)
qed

lemma decisions_move_update:
  assumes "lapi_decisions d' = update_where P g (lapi_decisions d)"
    and "\<And>r. r \<in> set (lapi_decisions d) \<Longrightarrow> P r \<Longrightarrow> decision_identity (g r) = decision_identity r \<and> decision_move (d_status r) (d_status (g r))"
  shows "decisions_move d d'"
  unfolding decisions_move_def
proof (intro conjI ballI impI disjI1)
  fix r
  assume r: "r \<in> set (lapi_decisions d)"
  then have "(if P r then g r else r) \<in> set (lapi_decisions d')" by (auto simp: assms(1) set_update_where)
  with assms(2) [OF r] show "\<exists>r' \<in> set (lapi_decisions d'). decision_identity r' = decision_identity r \<and> decision_move (d_status r) (d_status r')"
    by (intro bexI [of _ "if P r then g r else r"]) auto
next
  fix r'
  assume "r' \<in> set (lapi_decisions d')" "d_id r' \<notin> d_id ` set (lapi_decisions d)"
  then show "d_status r' = DecisionActive" using assms(2) by (auto simp: assms(1) set_update_where decision_identity_def image_iff)
qed

lemma prune_operations_move:
  assumes "distinct (map op_token (lapi_operations d))"
  shows "operations_move d ((pruned c n d)\<lparr>runtime_state := rt\<rparr>)"
proof -
  have "op_token r \<notin> op_token ` {r \<in> set (lapi_operations d). \<not> old_operation c r}"
    if "r \<in> set (lapi_operations d)" "old_operation c r" for r
    using that distinct_key_eq [OF assms that(1)] by auto
  then show ?thesis by (fastforce simp: operations_move_def pruned_tables old_operation_def)
qed

lemma prune_decisions_move:
  assumes "distinct (map d_id (lapi_decisions d))"
  shows "decisions_move d ((pruned c n d)\<lparr>runtime_state := rt\<rparr>)"
  unfolding decisions_move_def
proof (intro conjI ballI impI)
  let ?old = "old_decision c (kept_items c d)"
  have t: "lapi_decisions ((pruned c n d)\<lparr>runtime_state := rt\<rparr>) = kept_decisions c d" by (simp add: pruned_tables)
  fix r
  assume r: "r \<in> set (lapi_decisions d)"
  show "(\<exists>r' \<in> set (lapi_decisions ((pruned c n d)\<lparr>runtime_state := rt\<rparr>)). decision_identity r' = decision_identity r \<and>
      decision_move (d_status r) (d_status r')) \<or> (d_status r \<in> {DecisionExpired, DecisionOrphaned} \<and>
      d_id r \<notin> d_id ` set (lapi_decisions ((pruned c n d)\<lparr>runtime_state := rt\<rparr>)))"
  proof (cases "?old r")
    case True
    then have "d_id r \<notin> d_id ` {x \<in> set (lapi_decisions d). \<not> ?old x}" using distinct_key_eq [OF assms r] by auto
    with True show ?thesis unfolding t kept_decisions_ids by (auto simp: old_decision_def)
  next
    case False
    then have "r \<in> set (kept_decisions c d) \<or> r\<lparr>d_replaced_by_id := None\<rparr> \<in> set (kept_decisions c d)"
      using r by (auto simp: kept_decisions_def Let_def set_update_where)
    moreover have "decision_identity (r\<lparr>d_replaced_by_id := None\<rparr>) = decision_identity r" by (simp add: decision_identity_def)
    ultimately show ?thesis unfolding t by fastforce
  qed
next
  fix r'
  assume "r' \<in> set (lapi_decisions ((pruned c n d)\<lparr>runtime_state := rt\<rparr>))" "d_id r' \<notin> d_id ` set (lapi_decisions d)"
  then show "d_status r' = DecisionActive" using kept_decisions_ids [of c d] by (auto simp: pruned_tables)
qed

lemma retire_moves:
  assumes "retire_replaced items newRows rows = Inr rows'" and "r \<in> set rows"
  shows "\<exists>r' \<in> set rows'. decision_identity r' = decision_identity r \<and> decision_move (d_status r) (d_status r')"
  using assms
proof (induction items newRows rows arbitrary: r rule: retire_replaced.induct)
  case (2 objectID item items newRows rows)
  show ?case
  proof (cases "xi_old item")
    case None
    then show ?thesis using 2 by simp
  next
    case (Some old)
    let ?P = "\<lambda>r. d_id r = old \<and> d_object_id r = objectID \<and> d_status r = DecisionActive"
    let ?g = "\<lambda>r. r\<lparr>d_status := DecisionExpiring, d_replaced_by_id := Some (new_row_of newRows objectID)\<rparr>"
    have one: "rows_affected ?P rows = 1" and rest: "retire_replaced items newRows (update_where ?P ?g rows) = Inr rows'"
      using "2.prems"(1) Some by (auto simp: Let_def split: if_splits)
    show ?thesis
    proof (cases "?P r")
      case True
      then have "?g r \<in> set (update_where ?P ?g rows)" using "2.prems"(2) by (auto simp: set_update_where)
      then have "?g r \<in> set rows'" using retire_keeps [OF rest] by simp
      with True show ?thesis by (intro bexI [of _ "?g r"]) (auto simp: decision_identity_def)
    next
      case False
      then have "r \<in> set (update_where ?P ?g rows)" using "2.prems"(2) by (auto simp: set_update_where)
      then show ?thesis using "2.IH"(2) [OF Some refl _ rest] one by auto
    qed
  qed
qed auto

lemma stored_decisions_move:
  assumes ok: "operations_ok d" and sv: "store_verified token alert now (map (expected_of d) (select_items d token)) d = (Inr records, d')"
  shows "decisions_move d d'"
proof -
  obtain rows newRows where
      ins: "insert_decisions (next_rowid (map a_id (lapi_alerts d))) now (va_Decisions alert) (lapi_decisions d) [] = Inr (rows, newRows)"
    and ret: "retire_replaced (map (expected_of d) (select_items d token)) (map_of newRows) rows = Inr (lapi_decisions d')"
    by (rule store_verified_D [OF sv])
  obtain new where n: "rows = lapi_decisions d @ new"
      "list_all2 (\<lambda>dec r. r = new_decision (next_rowid (map a_id (lapi_alerts d))) now dec (d_id r)) (va_Decisions alert) new"
    using insert_decisions_result [OF ins] by auto
  have active: "d_status r = DecisionActive" if "r \<in> set new" for r
    using new_rows_objects(2) [OF n(2)] that by (metis new_decision_def decision_row.select_convs(12))
  have "d_status r = DecisionActive" if r: "r \<in> set (lapi_decisions d')" "d_id r \<notin> d_id ` set (lapi_decisions d)" for r
  proof -
    from retire_rows [OF ret r(1)] consider "r \<in> set rows"
      | i where "i \<in> set (select_items d token)" "i_old_decision_row_id i = Some (d_id r)"
      by (auto simp: expected_of_def)
    then show ?thesis
    proof cases
      case 1
      with n(1) r(2) active show ?thesis by auto
    next
      case 2
      with ok r(2) show ?thesis by (auto simp: select_items_distinct(3) [OF ok] operations_ok_def)
    qed
  qed
  moreover have "set (lapi_decisions d) \<subseteq> set rows" using n(1) by simp
  ultimately show ?thesis using retire_moves [OF ret] unfolding decisions_move_def by blast
qed

lemma RecordVerifiedOperation_moves:
  assumes ok: "store_ok d" and rec: "RecordVerifiedOperation token alert now d = (res, d')"
  shows "operations_move d d' \<and> decisions_move d d'"
proof -
  have inv: "operations_ok d" "objects_ok d" using ok by (auto simp: store_ok_def journal_ok_def)
  from rec inv show ?thesis
  proof (cases rule: RecordVerifiedOperation_cases)
    case (stored x f)
    then obtain records where sv: "store_verified token alert now (map (expected_of d) (select_items d token)) d = (Inr records, d')" by blast
    have "operations_move d d'"
    proof (rule operations_move_update [OF stored_frame(2) [OF sv]])
      fix r
      assume "r \<in> set (lapi_operations d)" "op_token r = token"
      then have "r = x" using stored(1,2) inv(1) distinct_key_eq [of op_token "lapi_operations d" r x] by (simp add: operations_ok_def)
      with stored(3) show "operation_static (r\<lparr>op_status := OperationVerified\<rparr>) = operation_static r \<and>
          operation_move (op_status r) (op_status (r\<lparr>op_status := OperationVerified\<rparr>))" by (auto simp: operation_static_def)
    qed
    moreover have "decisions_move d d'" using inv(1) sv by (rule stored_decisions_move)
    ultimately show ?thesis by simp
  qed (simp_all add: operations_move_same decisions_move_same)
qed

lemma store_step_journal:
  assumes "store_step d d'" and ok: "store_ok d"
  obtains (untouched) "lapi_operations d' = lapi_operations d" "lapi_decisions d' = lapi_decisions d"
  | (begin_op) operation res where "BeginOperation operation d = (res, d')"
  | (record_op) token alert now res where "RecordVerifiedOperation token alert now d = (res, d')"
  | (complete_op) token now res where "CompleteOperation token now d = (res, d')"
  | (set_status) token status category now res where "SetOperationStatus token status category now d = (res, d')"
  | (expire) row now res where "MarkDecisionExpired row now d = (res, d')"
  | (prune) c n rt where "d' = (pruned c n d)\<lparr>runtime_state := rt\<rparr>"
  using assms(1)
proof cases
  case (ensure definitions now res)
  with feed_frame_tables [OF EnsureFeeds_frame [OF ensure]] untouched show thesis by simp
next
  case (snapshot name snap grace now res)
  with feed_frame_tables [OF ApplyFeedSnapshot_frame [OF snapshot]] untouched show thesis by simp
next
  case (failure name category now nextAttempt res)
  with feed_frame_tables [OF RecordFeedFailure_frame [OF failure]] untouched show thesis by simp
next
  case (not_modified name etag lastModified now res)
  with feed_frame_tables [OF RecordFeedNotModified_frame [OF not_modified]] untouched show thesis by simp
next
  case (plan obs now res)
  have "object_frame d d'" using ApplyEnforcementPlan_frame [OF plan] ok by (simp add: store_ok_def)
  then have "lapi_operations d' = lapi_operations d" "lapi_decisions d' = lapi_decisions d"
    unfolding object_frame_def by (metis (no_types, lifting) db.ext_inject db.surjective db.update_convs(3,4))+
  then show thesis by (rule untouched)
next
  case (begin_run mode feed now res)
  with untouched show thesis by (auto simp: BeginSyncRun_def Let_def split: if_splits)
next
  case (complete_run result runID res)
  from complete_run(2) ok complete_run(1) show thesis
    by (cases rule: CompleteSyncRun_cases) (simp_all add: untouched with_run_def)
next
  case (recover now res)
  with untouched show thesis by (auto simp: RecoverInterruptedSyncRuns_def Let_def split: if_splits)
next
  case (timestamp now key res)
  have "\<exists>rt. d' = d\<lparr>runtime_state := rt\<rparr>" using SetRuntimeTimestamp_cases [OF timestamp(2) _ timestamp(1)] ok by (simp add: store_ok_def)
  with untouched show thesis by auto
next
  case (prune now retention n res)
  from prune(2) ok prune(1) show thesis
    by (cases rule: PruneHistory_cases) (use untouched that(7) in auto)
qed (use that(2-6) in blast)+

text \<open>
  C8. Whatever operation runs on a consistent store, the identity of a journalled LAPI operation and
  of a recorded decision never changes and its status moves only along the life cycle: an operation
  from pending or ambiguous to verified, ambiguous or failed, and from verified to completed; a
  decision from active to expiring or expired and from expiring to expired. A row that has reached the end of its life cycle keeps its
  status; only finished operations and decisions that are expired or orphaned ever disappear; and a new operation
  starts as pending, a new decision as active.
\<close>

theorem store_step_life_cycle:
  assumes "store_step d d'" and ok: "store_ok d"
  shows "operations_move d d' \<and> decisions_move d d'"
  using assms
proof (cases rule: store_step_journal)
  case untouched
  then show ?thesis by (simp add: operations_move_same decisions_move_same)
next
  case (begin_op operation res)
  have "lapi_decisions d' = lapi_decisions d" "set (lapi_operations d) \<subseteq> set (lapi_operations d')"
      "\<forall>r \<in> set (lapi_operations d'). r \<in> set (lapi_operations d) \<or> op_status r = OperationPending"
    using begin_op by (auto simp: BeginOperation_def pending_row_def split: if_splits sum.splits)
  then show ?thesis by (auto simp: operations_move_def intro: decisions_move_same)
next
  case (record_op token alert now res)
  from ok this show ?thesis by (rule RecordVerifiedOperation_moves)
next
  case (complete_op token now res)
  then have "d' = d \<or> (lapi_decisions d' = lapi_decisions d \<and> operations_move d d')"
    by (auto simp: CompleteOperation_def Let_def operation_static_def intro!: operations_move_update split: if_splits)
  then show ?thesis by (auto intro: operations_move_same decisions_move_same)
next
  case (set_status token status category now res)
  then have "d' = d \<or> (lapi_decisions d' = lapi_decisions d \<and> operations_move d d')"
    by (auto simp: SetOperationStatus_def Let_def operation_static_def intro!: operations_move_update split: if_splits)
  then show ?thesis by (auto intro: operations_move_same decisions_move_same)
next
  case (expire row now res)
  then have "d' = d \<or> (lapi_operations d' = lapi_operations d \<and> decisions_move d d')"
    by (auto simp: MarkDecisionExpired_def Let_def decision_identity_def intro!: decisions_move_update split: if_splits)
  then show ?thesis by (auto intro: operations_move_same decisions_move_same)
next
  case (prune c n rt)
  with ok prune_operations_move prune_decisions_move show ?thesis
    by (simp add: store_ok_def journal_ok_def operations_ok_def decisions_ok_def)
qed

theorem store_step_life_cycle_witness:
  "\<exists>records d'. RecordVerifiedOperation sample_token sample_alert (2000 * second) sample_journal = (Inr records, d') \<and>
     operations_move sample_journal d' \<and> decisions_move sample_journal d'"
proof -
  obtain records d' where r: "RecordVerifiedOperation sample_token sample_alert (2000 * second) sample_journal = (Inr records, d')"
    using sample_records by blast
  have "store_ok sample_journal"
    using sample_store_ok sample_journal_ok
    by (simp add: store_ok_def feeds_ok_def sample_journal_def)
      (simp add: runs_ok_def runtime_ok_def sample_store_def empty_db_def)
  with store_step_life_cycle [OF store_step.record_op [OF r]] r show ?thesis by blast
qed

end
