(* ===== verification/LAPI_Types.thy ===== *)
theory LAPI_Types
  imports Go_Strings
begin

text \<open>
  The types of the package \<^verbatim>\<open>internal/lapi\<close> that its callers share: requests, alerts and decisions of
  the local API as decoded from its JSON, and the categories of its errors.
\<close>

datatype LAPIError =
    LAPIErrAuth | LAPIErrRequest | LAPIErrStatus | LAPIErrResponseSize | LAPIErrContentType
  | LAPIErrDecode | LAPIErrContract | LAPIErrNotFound

record DecisionInput =
  di_Scope :: string
  di_Value :: string

record CreateRequest =
  cr_FeedName :: string
  cr_OperationToken :: string
  cr_Duration :: duration
  cr_Decisions :: "DecisionInput list"

record lapi_Decision =
  ld_ID :: int
  ld_Origin :: string
  ld_Type :: string
  ld_Scope :: string
  ld_Value :: string
  ld_Duration :: string
  ld_Until :: string
  ld_Scenario :: string

record lapi_Alert =
  al_ID :: int
  al_MachineID :: string
  al_Scenario :: string
  al_ScenarioHash :: string
  al_ScenarioVersion :: string
  al_Message :: string
  al_Decisions :: "lapi_Decision list"

end
