(* ===== verification/Reconcile.thy ===== *)
theory Reconcile
  imports Store_Steps LAPI_Types Go_Time_Text Sha256
begin

text \<open>
  The package \<^verbatim>\<open>internal/reconcile\<close>: it turns the active entries of the store into enforcement objects
  and drives the local API until its decisions match them. The store is the model of
  \<^verbatim>\<open>internal/state\<close>; the local API and the source of operation tokens are outside the program and
  enter as a record of functions on an arbitrary outside world. A call returns a result and the
  state after it, which holds the database, the outside world and the report that the Go code
  updates through a pointer.
\<close>

subsection \<open>Definitions: types\<close>

datatype ReconcileError = ErrBusy | ErrContract | ErrState | ErrLAPI | ErrOwnership | ErrToken

record 'l outside =
  CreateAlert :: "CreateRequest \<Rightarrow> 'l \<Rightarrow> (LAPIError, int) result \<times> 'l"
  GetAlert :: "int \<Rightarrow> 'l \<Rightarrow> (LAPIError, lapi_Alert) result \<times> 'l"
  ExpireDecision :: "int \<Rightarrow> 'l \<Rightarrow> (LAPIError, unit) result \<times> 'l"
  FindOperation :: "string \<Rightarrow> string \<Rightarrow> 'l \<Rightarrow> (LAPIError, lapi_Alert option) result \<times> 'l"
  Token :: "'l \<Rightarrow> string option \<times> 'l"

record Reconciler =
  rc_machineID :: string
  rc_duration :: duration
  rc_refreshBefore :: duration
  rc_batchSize :: int

record RunOptions =
  ro_Allowlists :: "netip_prefix list"
  ro_FeedOrder :: "int \<rightharpoonup> int"
  ro_DryRun :: bool
  ro_OverrideEntries :: bool
  ro_Entries :: "StoredEntry list"

record Report =
  rep_Added :: nat
  rep_Refreshed :: nat
  rep_Removed :: nat
  rep_Recovered :: nat
  rep_Rejected :: nat
  rep_Skipped :: nat
  rep_LAPIRequests :: nat

definition zero_Report :: Report where
  "zero_Report = \<lparr>rep_Added = 0, rep_Refreshed = 0, rep_Removed = 0, rep_Recovered = 0, rep_Rejected = 0,
     rep_Skipped = 0, rep_LAPIRequests = 0\<rparr>"

record 'l rstate =
  rs_db :: db
  rs_out :: 'l
  rs_report :: Report

type_synonym ('l, 'a) rcall = "'l rstate \<Rightarrow> (ReconcileError, 'a) result \<times> 'l rstate"

record plannedAction =
  pa_object :: EnforcementRecord
  pa_old :: "DecisionRecord option"

type_synonym groupKey = "OperationKind \<times> int \<times> string"

definition New :: "Reconciler \<Rightarrow> (ReconcileError, Reconciler) result" where
  "New options =
     (if rc_machineID options = [] \<or> length (rc_machineID options) > 128 \<or> has_control (rc_machineID options)
         \<or> rc_duration options < minute \<or> rc_duration options > 7 * 24 * hour
         \<or> rc_refreshBefore options \<le> 0 \<or> rc_refreshBefore options \<ge> rc_duration options
         \<or> rc_batchSize options < 1 \<or> rc_batchSize options > 500
      then Inl ErrContract else Inr options)"

subsection \<open>Definitions: calls\<close>

text \<open>A call of the store, a call of the local API that counts as a request, and sequencing.\<close>

definition store_call :: "(db \<Rightarrow> 'a db_result) \<Rightarrow> 'l rstate \<Rightarrow> (ErrorCategory, 'a) result \<times> 'l rstate" where
  "store_call f s = (case f (rs_db s) of (res, d) \<Rightarrow> (res, s\<lparr>rs_db := d\<rparr>))"

definition lapi_call :: "('l \<Rightarrow> 'a \<times> 'l) \<Rightarrow> 'l rstate \<Rightarrow> 'a \<times> 'l rstate" where
  "lapi_call f s = (case f (rs_out s) of (res, l) \<Rightarrow>
     (res, s\<lparr>rs_out := l, rs_report := (rs_report s)\<lparr>rep_LAPIRequests := rep_LAPIRequests (rs_report s) + 1\<rparr>\<rparr>))"

definition rbind :: "('l, 'a) rcall \<Rightarrow> ('a \<Rightarrow> ('l, 'b) rcall) \<Rightarrow> ('l, 'b) rcall" where
  "rbind m f s = (case m s of (Inl e, s') \<Rightarrow> (Inl e, s') | (Inr x, s') \<Rightarrow> f x s')"

definition state_call :: "(db \<Rightarrow> 'a db_result) \<Rightarrow> ('l, 'a) rcall" where
  "state_call f s = (case store_call f s of (Inl _, s') \<Rightarrow> (Inl ErrState, s') | (Inr x, s') \<Rightarrow> (Inr x, s'))"

subsection \<open>Definitions: planning\<close>

text \<open>The loop of \<^verbatim>\<open>buildObjects\<close> that numbers feeds without a configured order as they appear.\<close>

fun order_candidates ::
  "(int \<rightharpoonup> int) \<Rightarrow> (int \<rightharpoonup> int) \<Rightarrow> int \<Rightarrow> StoredEntry list \<Rightarrow> Candidate list" where
  "order_candidates order derivedOrder nextOrder [] = []"
| "order_candidates order derivedOrder nextOrder (entry # entries) =
     (let (feedOrder, derivedOrder', nextOrder') =
        (case order (se_FeedID entry) of
           Some n \<Rightarrow> (n, derivedOrder, nextOrder)
         | None \<Rightarrow>
             (case derivedOrder (se_FeedID entry) of
                Some n \<Rightarrow> (n, derivedOrder, nextOrder)
              | None \<Rightarrow> (nextOrder, derivedOrder(se_FeedID entry \<mapsto> nextOrder), nextOrder + 1)))
      in \<lparr>cand_Prefix = ent_Prefix (se_Entry entry), cand_Kind = ent_Kind (se_Entry entry),
          cand_FeedID = se_FeedID entry, cand_FeedName = se_FeedName entry, cand_FeedOrder = feedOrder\<rparr>
         # order_candidates order derivedOrder' nextOrder' entries)"

definition buildObjects ::
  "StoredEntry list \<Rightarrow> netip_prefix list \<Rightarrow> (int \<rightharpoonup> int) \<Rightarrow> (ReconcileError, Object list \<times> Summary) result" where
  "buildObjects entries allowlists order =
     (if list_ex (\<lambda>p. \<not> IsValid p \<or> p \<noteq> Masked p) allowlists then Inl ErrContract
      else Inr (BuildDesired (order_candidates order (\<lambda>_. None) 0 entries) allowlists))"

definition objectValue :: "EnforcementRecord \<Rightarrow> string" where
  "objectValue record =
     (if er_Scope record = ScopeIP then addr_String (pfx_ip (er_Prefix record)) else prefix_String (er_Prefix record))"

definition primaryFeed :: "EnforcementRecord \<Rightarrow> (int \<times> string) option" where
  "primaryFeed record =
     (case er_PrimaryFeedID record of
        None \<Rightarrow> None
      | Some i \<Rightarrow>
          map_option (\<lambda>source. (ctb_FeedID source, ctb_FeedName source))
            (find (\<lambda>source. ctb_FeedID source = i) (er_Sources record)))"

fun activeByObject_loop ::
  "(int \<rightharpoonup> DecisionRecord) \<Rightarrow> DecisionRecord list \<Rightarrow> (ReconcileError, int \<rightharpoonup> DecisionRecord) result" where
  "activeByObject_loop result [] = Inr result"
| "activeByObject_loop result (decision # decisions) =
     (case result (dr_ObjectID decision) of
        Some _ \<Rightarrow> Inl ErrState
      | None \<Rightarrow> activeByObject_loop (result(dr_ObjectID decision \<mapsto> decision)) decisions)"

definition activeByObject :: "DecisionRecord list \<Rightarrow> (ReconcileError, int \<rightharpoonup> DecisionRecord) result" where
  "activeByObject decisions = activeByObject_loop (\<lambda>_. None) decisions"

definition expectedNetworkValue :: "netip_prefix \<Rightarrow> Scope \<Rightarrow> string" where
  "expectedNetworkValue prefix scope =
     (if scope = ScopeIP then addr_String (pfx_ip prefix) else prefix_String prefix)"

definition dryRun_step ::
  "Reconciler \<Rightarrow> gotime \<Rightarrow> (netip_prefix \<rightharpoonup> EnforcementRecord) \<Rightarrow> (int \<rightharpoonup> DecisionRecord) \<Rightarrow>
   Report \<times> int list \<Rightarrow> Object \<Rightarrow> Report \<times> int list" where
  "dryRun_step r now existingByPrefix active acc ob = (case acc of (report, desiredIDs) \<Rightarrow>
     if \<not> obj_Desired ob then (report\<lparr>rep_Skipped := rep_Skipped report + 1\<rparr>, desiredIDs)
     else case existingByPrefix (obj_Prefix ob) of
       None \<Rightarrow> (report\<lparr>rep_Added := rep_Added report + 1\<rparr>, desiredIDs)
     | Some record \<Rightarrow>
         let desiredIDs' = er_ID record # desiredIDs; feedName = ctb_FeedName (obj_Primary ob) in
         (case active (er_ID record) of
            None \<Rightarrow> (report\<lparr>rep_Added := rep_Added report + 1\<rparr>, desiredIDs')
          | Some decision \<Rightarrow>
              if feedName = [] \<or> time_Sub (dr_ExpiresAt decision) now \<le> rc_refreshBefore r
                 \<or> dr_Scope decision \<noteq> obj_Scope ob
                 \<or> dr_Value decision \<noteq> expectedNetworkValue (obj_Prefix ob) (obj_Scope ob)
                 \<or> dr_Scenario decision \<noteq> ''crowdshield/'' @ feedName
              then (report\<lparr>rep_Refreshed := rep_Refreshed report + 1\<rparr>, desiredIDs')
              else (report\<lparr>rep_Skipped := rep_Skipped report + 1\<rparr>, desiredIDs')))"

definition dryRun :: "Reconciler \<Rightarrow> Object list \<Rightarrow> Report \<Rightarrow> gotime \<Rightarrow> db \<Rightarrow> (ReconcileError, Report) result \<times> Report" where
  "dryRun r objects report now d =
     (case ListEnforcementObjects d of
        Inl _ \<Rightarrow> (Inl ErrState, report)
      | Inr existing \<Rightarrow>
          (case ListActiveDecisions d of
             Inl _ \<Rightarrow> (Inl ErrState, report)
           | Inr decisions \<Rightarrow>
               (case activeByObject decisions of
                  Inl e \<Rightarrow> (Inl e, report)
                | Inr active \<Rightarrow>
                    let existingByPrefix = map_of (rev (map (\<lambda>record. (er_Prefix record, record)) existing));
                        (report', desiredIDs) = foldl (dryRun_step r now existingByPrefix active) (report, []) objects;
                        removed = length (filter (\<lambda>decision. dr_ObjectID decision \<notin> set desiredIDs) decisions);
                        final = report'\<lparr>rep_Removed := rep_Removed report' + removed\<rparr>
                    in (Inr final, final))))"

subsection \<open>Definitions: operations\<close>

fun kind_string :: "OperationKind \<Rightarrow> string" where
  "kind_string OperationCreate = ''create''"
| "kind_string OperationRefresh = ''refresh''"
| "kind_string OperationExpire = ''expire''"
| "kind_string OperationRecover = ''recover''"

fun scope_string :: "Scope \<Rightarrow> string" where
  "scope_string ScopeIP = ''Ip''"
| "scope_string ScopeRange = ''Range''"

text \<open>\<^verbatim>\<open>binary.Write\<close> of an \<^verbatim>\<open>int64\<close> in big-endian order.\<close>

definition be64 :: "int \<Rightarrow> string" where
  "be64 x = map (\<lambda>i. byte (nat (x mod 2 ^ 64 div 256 ^ (7 - i) mod 256))) [0..<8]"

definition operationHash :: "OperationKind \<Rightarrow> int \<Rightarrow> duration \<Rightarrow> plannedAction list \<Rightarrow> string" where
  "operationHash kind feedID duration actions =
     sha256_hex (kind_string kind @ be64 feedID @ be64 (duration div second) @
       concat (map (\<lambda>action.
         be64 (er_ID (pa_object action)) @ scope_string (er_Scope (pa_object action)) @ [byte 0] @
         objectValue (pa_object action) @
         (case pa_old action of None \<Rightarrow> [] | Some old \<Rightarrow> be64 (dr_ID old))) actions))"

definition decisionExpiry :: "lapi_Decision \<Rightarrow> gotime \<Rightarrow> duration \<Rightarrow> gotime option" where
  "decisionExpiry decision now limit =
     (if ld_Until decision \<noteq> [] then time_Parse_RFC3339 (ld_Until decision)
      else if ld_Duration decision = [] then None
      else case ParseDuration (ld_Duration decision) of
        None \<Rightarrow> None
      | Some remaining \<Rightarrow> if remaining < 0 \<or> remaining > limit then None else Some (now + remaining))"

definition scope_of_string :: "string \<Rightarrow> Scope" where
  "scope_of_string s = (if s = ''Ip'' then ScopeIP else ScopeRange)"

text \<open>The map from scope and value to the object, built over the items; a missing record is an error.\<close>

fun expected_values ::
  "(int \<rightharpoonup> EnforcementRecord) \<Rightarrow> (string \<rightharpoonup> int) \<Rightarrow> OperationItem list \<Rightarrow> (ReconcileError, string \<rightharpoonup> int) result" where
  "expected_values records expected [] = Inr expected"
| "expected_values records expected (item # items) =
     (case records (it_ObjectID item) of
        None \<Rightarrow> Inl ErrState
      | Some record \<Rightarrow>
          expected_values records
            (expected(scope_string (er_Scope record) @ [byte 0] @ objectValue record \<mapsto> er_ID record)) items)"

fun verified_decisions ::
  "Reconciler \<Rightarrow> string \<Rightarrow> (string \<rightharpoonup> int) \<Rightarrow> gotime \<Rightarrow> int list \<Rightarrow> lapi_Decision list
   \<Rightarrow> (ReconcileError, VerifiedDecision list) result" where
  "verified_decisions r scenario expected now seen [] = Inr []"
| "verified_decisions r scenario expected now seen (decision # decisions) =
     (case expected (ld_Scope decision @ [byte 0] @ ld_Value decision) of
        None \<Rightarrow> Inl ErrOwnership
      | Some objectID \<Rightarrow>
          if ld_ID decision \<le> 0 \<or> ld_Origin decision \<noteq> ''crowdshield'' \<or> ld_Type decision \<noteq> ''ban''
             \<or> ld_Scenario decision \<noteq> scenario
          then Inl ErrOwnership
          else if objectID \<in> set seen then Inl ErrOwnership
          else (case decisionExpiry decision now (rc_duration r) of
              None \<Rightarrow> Inl ErrOwnership
            | Some expires \<Rightarrow>
                if \<not> expires > now then Inl ErrOwnership
                else (case verified_decisions r scenario expected now (objectID # seen) decisions of
                    Inl e \<Rightarrow> Inl e
                  | Inr rest \<Rightarrow>
                      Inr (\<lparr>vd_ObjectID = objectID, vd_DecisionID = ld_ID decision, vd_Origin = ld_Origin decision,
                            vd_Scenario = ld_Scenario decision, vd_Scope = scope_of_string (ld_Scope decision),
                            vd_Value = ld_Value decision, vd_ExpiresAt = expires\<rparr> # rest))))"

definition verifiedAlert ::
  "Reconciler \<Rightarrow> Operation \<Rightarrow> lapi_Alert \<Rightarrow> (int \<rightharpoonup> EnforcementRecord) \<Rightarrow> gotime \<Rightarrow> (ReconcileError, VerifiedAlert) result" where
  "verifiedAlert r operation remote records now =
     (if al_ID remote \<le> 0 \<or> al_MachineID remote \<noteq> rc_machineID r
         \<or> al_Scenario remote \<noteq> ''crowdshield/'' @ opn_FeedName operation
         \<or> al_ScenarioHash remote \<noteq> ''crowdshield:'' @ opn_Token operation
         \<or> length (al_Decisions remote) \<noteq> length (opn_Items operation)
      then Inl ErrOwnership
      else case expected_values records (\<lambda>_. None) (opn_Items operation) of
        Inl e \<Rightarrow> Inl e
      | Inr expected \<Rightarrow>
          (case verified_decisions r (al_Scenario remote) expected now [] (al_Decisions remote) of
             Inl e \<Rightarrow> Inl e
           | Inr decisions \<Rightarrow>
               Inr \<lparr>va_AlertID = al_ID remote, va_MachineID = al_MachineID remote, va_Origin = ''crowdshield'',
                    va_Scenario = al_Scenario remote, va_Decisions = decisions\<rparr>))"

definition owned_match :: "DecisionRecord \<Rightarrow> lapi_Decision \<Rightarrow> bool" where
  "owned_match decision matched =
     (ld_Origin matched = ''crowdshield'' \<and> ld_Type matched = ''ban'' \<and> ld_Scenario matched = dr_Scenario decision \<and>
      ld_Scope matched = scope_string (dr_Scope decision) \<and> ld_Value matched = dr_Value decision)"

definition expireOwned :: "'l outside \<Rightarrow> Reconciler \<Rightarrow> gotime \<Rightarrow> DecisionRecord \<Rightarrow> ('l, unit) rcall" where
  "expireOwned out r now decision s =
     (case lapi_call (GetAlert out (dr_AlertID decision)) s of
        (Inl err, s1) \<Rightarrow>
          if err = LAPIErrNotFound then state_call (MarkDecisionExpired (dr_ID decision) now) s1
          else (Inl ErrLAPI, s1)
      | (Inr remote, s1) \<Rightarrow>
          if al_ID remote \<noteq> dr_AlertID decision \<or> al_MachineID remote \<noteq> rc_machineID r
             \<or> al_Scenario remote \<noteq> dr_Scenario decision
          then (Inl ErrOwnership, s1)
          else (case filter (\<lambda>candidate. ld_ID candidate = dr_DecisionID decision) (al_Decisions remote) of
              [matched] \<Rightarrow>
                if \<not> owned_match decision matched then (Inl ErrOwnership, s1)
                else (case decisionExpiry matched now (rc_duration r) of
                    None \<Rightarrow> (Inl ErrOwnership, s1)
                  | Some expiry \<Rightarrow>
                      if \<not> expiry > now then state_call (MarkDecisionExpired (dr_ID decision) now) s1
                      else (case lapi_call (ExpireDecision out (dr_DecisionID decision)) s1 of
                          (res, s2) \<Rightarrow>
                            if (case res of Inl err \<Rightarrow> err \<noteq> LAPIErrNotFound | Inr _ \<Rightarrow> False) then (Inl ErrLAPI, s2)
                            else state_call (MarkDecisionExpired (dr_ID decision) now) s2))
            | _ \<Rightarrow> (Inl ErrOwnership, s1)))"

fun finish_items :: "'l outside \<Rightarrow> Reconciler \<Rightarrow> gotime \<Rightarrow> OperationItem list \<Rightarrow> ('l, unit) rcall" where
  "finish_items out r now [] s = (Inr (), s)"
| "finish_items out r now (item # items) s =
     (case it_OldDecisionRowID item of
        None \<Rightarrow> finish_items out r now items s
      | Some oldID \<Rightarrow>
          (case ListLiveDecisions (rs_db s) of
             Inl _ \<Rightarrow> (Inl ErrState, s)
           | Inr decisions \<Rightarrow>
               (case find (\<lambda>x. dr_ID x = oldID) decisions of
                  None \<Rightarrow> finish_items out r now items s
                | Some old \<Rightarrow> rbind (expireOwned out r now old) (\<lambda>_. finish_items out r now items) s)))"

definition finishVerified :: "'l outside \<Rightarrow> Reconciler \<Rightarrow> gotime \<Rightarrow> Operation \<Rightarrow> ('l, unit) rcall" where
  "finishVerified out r now operation =
     rbind (finish_items out r now (opn_Items operation)) (\<lambda>_. state_call (CompleteOperation (opn_Token operation) now))"

fun decision_inputs :: "(int \<rightharpoonup> EnforcementRecord) \<Rightarrow> OperationItem list \<Rightarrow> DecisionInput list option" where
  "decision_inputs records [] = Some []"
| "decision_inputs records (item # items) =
     (case records (it_ObjectID item) of
        None \<Rightarrow> None
      | Some record \<Rightarrow>
          if \<not> er_Desired record then None
          else map_option (\<lambda>rest. \<lparr>di_Scope = scope_string (er_Scope record), di_Value = objectValue record\<rparr> # rest)
            (decision_inputs records items))"

text \<open>\<^verbatim>\<open>_ = r.store.SetOperationStatus(...)\<close>: the error is dropped, the effect is not.\<close>

definition set_ambiguous :: "Operation \<Rightarrow> string \<Rightarrow> gotime \<Rightarrow> 'l rstate \<Rightarrow> 'l rstate" where
  "set_ambiguous operation category now s =
     snd (store_call (SetOperationStatus (opn_Token operation) OperationAmbiguous category now) s)"

definition createForOperation ::
  "'l outside \<Rightarrow> Reconciler \<Rightarrow> (int \<rightharpoonup> EnforcementRecord) \<Rightarrow> gotime \<Rightarrow> Operation \<Rightarrow> ('l, unit) rcall" where
  "createForOperation out r records now operation s =
     (case decision_inputs records (opn_Items operation) of
        None \<Rightarrow> state_call (SetOperationStatus (opn_Token operation) OperationFailed ''no_longer_desired'' now) s
      | Some decisions \<Rightarrow>
          (case lapi_call (CreateAlert out \<lparr>cr_FeedName = opn_FeedName operation,
                  cr_OperationToken = opn_Token operation, cr_Duration = opn_Duration operation,
                  cr_Decisions = decisions\<rparr>) s of
             (Inl _, s1) \<Rightarrow> (Inl ErrLAPI, set_ambiguous operation ''lapi_create'' now s1)
           | (Inr alertID, s1) \<Rightarrow>
               (case lapi_call (GetAlert out alertID) s1 of
                  (Inl _, s2) \<Rightarrow> (Inl ErrLAPI, set_ambiguous operation ''lapi_verify'' now s2)
                | (Inr remote, s2) \<Rightarrow>
                    (case verifiedAlert r operation remote records now of
                       Inl e \<Rightarrow> (Inl e, set_ambiguous operation ''ownership'' now s2)
                     | Inr verified \<Rightarrow>
                         rbind (state_call (RecordVerifiedOperation (opn_Token operation) verified now))
                           (\<lambda>_. finishVerified out r now operation) s2))))"

definition add_recovered :: "nat \<Rightarrow> ('l, unit) rcall" where
  "add_recovered n s =
     (Inr (), s\<lparr>rs_report := (rs_report s)\<lparr>rep_Recovered := rep_Recovered (rs_report s) + n\<rparr>\<rparr>)"

definition recover_one ::
  "'l outside \<Rightarrow> Reconciler \<Rightarrow> (int \<rightharpoonup> EnforcementRecord) \<Rightarrow> gotime \<Rightarrow> Operation \<Rightarrow> ('l, unit) rcall" where
  "recover_one out r records now operation s =
     (if opn_Status operation = OperationVerified then
        rbind (finishVerified out r now operation) (\<lambda>_. add_recovered (length (opn_Items operation))) s
      else (case lapi_call (FindOperation out (opn_FeedName operation) (opn_Token operation)) s of
          (Inl _, s1) \<Rightarrow> (Inl ErrLAPI, s1)
        | (Inr (Some remote), s1) \<Rightarrow>
            (case verifiedAlert r operation remote records now of
               Inl e \<Rightarrow> (Inl e, s1)
             | Inr verified \<Rightarrow>
                 rbind (state_call (RecordVerifiedOperation (opn_Token operation) verified now))
                   (\<lambda>_. rbind (finishVerified out r now operation) (\<lambda>_. add_recovered (length (opn_Items operation)))) s1)
        | (Inr None, s1) \<Rightarrow>
            rbind (createForOperation out r records now operation) (\<lambda>_. add_recovered (length (opn_Items operation))) s1))"

fun recover_all ::
  "'l outside \<Rightarrow> Reconciler \<Rightarrow> (int \<rightharpoonup> EnforcementRecord) \<Rightarrow> gotime \<Rightarrow> Operation list \<Rightarrow> ('l, unit) rcall" where
  "recover_all out r records now [] s = (Inr (), s)"
| "recover_all out r records now (operation # operations) s =
     rbind (recover_one out r records now operation) (\<lambda>_. recover_all out r records now operations) s"

definition recover :: "'l outside \<Rightarrow> Reconciler \<Rightarrow> (int \<rightharpoonup> EnforcementRecord) \<Rightarrow> gotime \<Rightarrow> ('l, unit) rcall" where
  "recover out r records now s =
     (case OpenOperations (rs_db s) of
        Inl _ \<Rightarrow> (Inl ErrState, s)
      | Inr operations \<Rightarrow> recover_all out r records now operations s)"

text \<open>The status of a new operation is the zero value of its type; the store does not read it and
  inserts the row as \<^verbatim>\<open>pending\<close>.\<close>

definition newOperation ::
  "'l outside \<Rightarrow> Reconciler \<Rightarrow> OperationKind \<Rightarrow> int \<Rightarrow> string \<Rightarrow> plannedAction list \<Rightarrow> gotime \<Rightarrow> ('l, Operation) rcall" where
  "newOperation out r kind feedID feedName actions now s =
     (case Token out (rs_out s) of (token, l) \<Rightarrow>
        let s1 = s\<lparr>rs_out := l\<rparr> in
        (case token of
           None \<Rightarrow> (Inl ErrToken, s1)
         | Some token \<Rightarrow>
             if length token \<noteq> 32 then (Inl ErrToken, s1)
             else (Inr \<lparr>opn_Token = token, opn_Kind = kind, opn_FeedID = feedID, opn_FeedName = feedName,
                        opn_Duration = rc_duration r, opn_PayloadHash = operationHash kind feedID (rc_duration r) actions,
                        opn_Status = OperationPending,
                        opn_Items = map (\<lambda>action. \<lparr>it_ObjectID = er_ID (pa_object action),
                          it_OldDecisionRowID = map_option dr_ID (pa_old action)\<rparr>) actions,
                        opn_StartedAt = now, opn_CompletedAt = None\<rparr>, s1)))"

subsection \<open>Definitions: Run\<close>

record run_plan =
  rp_groups :: "(groupKey \<times> plannedAction list) list"
  rp_removals :: "DecisionRecord list"

text \<open>\<^verbatim>\<open>groups[key] = append(groups[key], action)\<close>\<close>

fun group_append :: "groupKey \<Rightarrow> plannedAction \<Rightarrow> (groupKey \<times> plannedAction list) list \<Rightarrow> (groupKey \<times> plannedAction list) list" where
  "group_append key action [] = [(key, [action])]"
| "group_append key action ((k, actions) # gs) =
     (if k = key then (k, actions @ [action]) # gs else (k, actions) # group_append key action gs)"

definition skip_one :: "'l rstate \<Rightarrow> 'l rstate" where
  "skip_one s = s\<lparr>rs_report := (rs_report s)\<lparr>rep_Skipped := rep_Skipped (rs_report s) + 1\<rparr>\<rparr>"

definition needs_refresh :: "Reconciler \<Rightarrow> gotime \<Rightarrow> EnforcementRecord \<Rightarrow> string \<Rightarrow> DecisionRecord \<Rightarrow> bool" where
  "needs_refresh r now record feedName decision =
     (time_Sub (dr_ExpiresAt decision) now \<le> rc_refreshBefore r \<or> dr_Scope decision \<noteq> er_Scope record
      \<or> dr_Value decision \<noteq> objectValue record \<or> dr_Scenario decision \<noteq> ''crowdshield/'' @ feedName)"

text \<open>The loop over the records that sorts them into groups and removals.\<close>

fun plan_records ::
  "Reconciler \<Rightarrow> gotime \<Rightarrow> (int \<rightharpoonup> DecisionRecord) \<Rightarrow> run_plan \<Rightarrow> EnforcementRecord list \<Rightarrow> ('l, run_plan) rcall" where
  "plan_records r now active plan [] s = (Inr plan, s)"
| "plan_records r now active plan (record # records) s =
     (if \<not> er_Desired record then
        (case active (er_ID record) of
           None \<Rightarrow> plan_records r now active plan records s
         | Some decision \<Rightarrow>
             plan_records r now active (plan\<lparr>rp_removals := rp_removals plan @ [decision]\<rparr>) records s)
      else (case primaryFeed record of
          None \<Rightarrow> (Inl ErrState, s)
        | Some (feedID, feedName) \<Rightarrow>
            let create = plan\<lparr>rp_groups := group_append (OperationCreate, feedID, feedName)
                  \<lparr>pa_object = record, pa_old = None\<rparr> (rp_groups plan)\<rparr> in
            (case active (er_ID record) of
               None \<Rightarrow> plan_records r now active create records s
             | Some decision \<Rightarrow>
                 if \<not> dr_ExpiresAt decision > now then
                   rbind (state_call (MarkDecisionExpired (dr_ID decision) now))
                     (\<lambda>_. plan_records r now active create records) s
                 else if needs_refresh r now record feedName decision then
                   plan_records r now active (plan\<lparr>rp_groups := group_append (OperationRefresh, feedID, feedName)
                     \<lparr>pa_object = record, pa_old = Some decision\<rparr> (rp_groups plan)\<rparr>) records s
                 else plan_records r now active plan records (skip_one s))))"

definition group_order :: "groupKey \<Rightarrow> groupKey \<Rightarrow> int" where
  "group_order left right =
     cmp_then (cmp_Compare (snd (snd left)) (snd (snd right)))
       (cmp_Compare (kind_string (fst left)) (kind_string (fst right)))"

text \<open>The actions of a group in batches: \<^verbatim>\<open>for start := 0; start < len(actions); start += batchSize\<close>.\<close>

function batches :: "nat \<Rightarrow> 'a list \<Rightarrow> 'a list list" where
  "batches n xs = (if xs = [] \<or> n = 0 then [] else take n xs # batches n (drop n xs))"
  by pat_completeness auto
termination
  by (relation "measure (length \<circ> snd)") auto

declare batches.simps [simp del]

definition add_batch :: "OperationKind \<Rightarrow> nat \<Rightarrow> 'l rstate \<Rightarrow> 'l rstate" where
  "add_batch kind n s =
     s\<lparr>rs_report := (if kind = OperationCreate then (rs_report s)\<lparr>rep_Added := rep_Added (rs_report s) + n\<rparr>
        else (rs_report s)\<lparr>rep_Refreshed := rep_Refreshed (rs_report s) + n\<rparr>)\<rparr>"

definition run_batch ::
  "'l outside \<Rightarrow> Reconciler \<Rightarrow> (int \<rightharpoonup> EnforcementRecord) \<Rightarrow> gotime \<Rightarrow> groupKey \<Rightarrow> plannedAction list \<Rightarrow> ('l, unit) rcall" where
  "run_batch out r records now key batch =
     rbind (newOperation out r (fst key) (fst (snd key)) (snd (snd key)) batch now) (\<lambda>operation.
     rbind (state_call (BeginOperation operation)) (\<lambda>_.
     rbind (createForOperation out r records now operation) (\<lambda>_ s. (Inr (), add_batch (fst key) (length batch) s))))"

text \<open>\<^verbatim>\<open>if firstError == nil { firstError = err }; continue\<close>\<close>

definition keep_going :: "('l, unit) rcall \<Rightarrow> ReconcileError option \<times> 'l rstate \<Rightarrow> ReconcileError option \<times> 'l rstate" where
  "keep_going m acc = (case acc of (firstError, s) \<Rightarrow>
     (case m s of
        (Inl e, s') \<Rightarrow> (case firstError of None \<Rightarrow> Some e | Some f \<Rightarrow> Some f, s')
      | (Inr _, s') \<Rightarrow> (firstError, s')))"

definition run_groups ::
  "'l outside \<Rightarrow> Reconciler \<Rightarrow> (int \<rightharpoonup> EnforcementRecord) \<Rightarrow> gotime \<Rightarrow> (groupKey \<times> plannedAction list) list \<Rightarrow>
   'l rstate \<Rightarrow> ReconcileError option \<times> 'l rstate" where
  "run_groups out r records now gs s =
     foldl (\<lambda>acc (key, batch). keep_going (run_batch out r records now key batch) acc) (None, s)
       [(key, batch). (key, actions) \<leftarrow> gs, batch \<leftarrow> batches (nat (rc_batchSize r)) actions]"

definition remove_one :: "'l outside \<Rightarrow> Reconciler \<Rightarrow> gotime \<Rightarrow> DecisionRecord \<Rightarrow> ('l, unit) rcall" where
  "remove_one out r now decision =
     rbind (expireOwned out r now decision)
       (\<lambda>_ s. (Inr (), s\<lparr>rs_report := (rs_report s)\<lparr>rep_Removed := rep_Removed (rs_report s) + 1\<rparr>\<rparr>))"

definition run_removals ::
  "'l outside \<Rightarrow> Reconciler \<Rightarrow> gotime \<Rightarrow> DecisionRecord list \<Rightarrow> 'l rstate \<Rightarrow> ReconcileError option \<times> 'l rstate" where
  "run_removals out r now removals s =
     foldl (\<lambda>acc decision. keep_going (remove_one out r now decision) acc) (None, s) removals"

text \<open>The body after the plan is applied. \<open>order\<close> is the order in which Go ranges over the map of
  groups before their keys are sorted.\<close>

definition enforce ::
  "((groupKey \<times> plannedAction list) list \<Rightarrow> (groupKey \<times> plannedAction list) list) \<Rightarrow>
   'l outside \<Rightarrow> Reconciler \<Rightarrow> gotime \<Rightarrow> EnforcementRecord list \<Rightarrow> ('l, unit) rcall" where
  "enforce order out r now records s =
     (let recordByID = map_of (rev (map (\<lambda>record. (er_ID record, record)) records)) in
      rbind (recover out r recordByID now) (\<lambda>_ s1.
        case ListActiveDecisions (rs_db s1) of
          Inl _ \<Rightarrow> (Inl ErrState, s1)
        | Inr activeList \<Rightarrow>
            (case activeByObject activeList of
               Inl e \<Rightarrow> (Inl e, s1)
             | Inr active \<Rightarrow>
                 rbind (plan_records r now active \<lparr>rp_groups = [], rp_removals = []\<rparr> records) (\<lambda>plan s2.
                   case run_groups out r recordByID now
                          (sort_cmp (\<lambda>a b. group_order (fst a) (fst b)) (order (rp_groups plan))) s2 of
                     (Some e, s3) \<Rightarrow> (Inl e, s3)
                   | (None, s3) \<Rightarrow>
                       (case run_removals out r now (rp_removals plan) s3 of
                          (Some e, s4) \<Rightarrow> (Inl e, s4)
                        | (None, s4) \<Rightarrow> (Inr (), s4))) s1)) s)"

text \<open>\<^verbatim>\<open>Run\<close> with the flag \<^verbatim>\<open>running\<close> of the reconciler: the result, the report, and the state after it.
  The flag is free again when \<^verbatim>\<open>Run\<close> returns, unless another call held it.\<close>

definition Run ::
  "((groupKey \<times> plannedAction list) list \<Rightarrow> (groupKey \<times> plannedAction list) list) \<Rightarrow>
   'l outside \<Rightarrow> Reconciler \<Rightarrow> RunOptions \<Rightarrow> gotime \<Rightarrow> bool \<Rightarrow> db \<Rightarrow> 'l \<Rightarrow>
   ReconcileError option \<times> Report \<times> db \<times> 'l" where
  "Run order out r options now running d l =
     (if running then (Some ErrBusy, zero_Report, d, l)
      else if IsZero now then (Some ErrContract, zero_Report, d, l)
      else if ro_OverrideEntries options \<and> \<not> ro_DryRun options then (Some ErrContract, zero_Report, d, l)
      else case (if ro_OverrideEntries options then Inr (ro_Entries options) else ListActiveEntries d) of
        Inl _ \<Rightarrow> (Some ErrState, zero_Report, d, l)
      | Inr entries \<Rightarrow>
          (case buildObjects entries (ro_Allowlists options) (ro_FeedOrder options) of
             Inl e \<Rightarrow> (Some e, zero_Report, d, l)
           | Inr (objects, summary) \<Rightarrow>
               let report = zero_Report\<lparr>rep_Rejected := sum_RejectedSafety summary\<rparr> in
               if ro_DryRun options then
                 (case dryRun r objects report now d of
                    (Inl e, report') \<Rightarrow> (Some e, report', d, l)
                  | (Inr _, report') \<Rightarrow> (None, report', d, l))
               else
                 (case ApplyEnforcementPlan objects now d of
                    (Inl _, d1) \<Rightarrow> (Some ErrState, report, d1, l)
                  | (Inr records, d1) \<Rightarrow>
                      let report1 = report\<lparr>rep_Skipped := length (filter (\<lambda>x. \<not> er_Desired x) records)\<rparr> in
                      (case enforce order out r now records \<lparr>rs_db = d1, rs_out = l, rs_report = report1\<rparr> of
                         (Inl e, s) \<Rightarrow> (Some e, rs_report s, rs_db s, rs_out s)
                       | (Inr _, s) \<Rightarrow> (None, rs_report s, rs_db s, rs_out s)))))"

end
