(* ===== verification/Syncer.thy ===== *)
theory Syncer
  imports Config Reconcile
begin

text \<open>
  The package \<^verbatim>\<open>internal/syncer\<close>: one synchronization, real (\<^verbatim>\<open>engine.go\<close>) or as a preview
  (\<^verbatim>\<open>dryrun.go\<close>). The state store is the database, the reconciler is the model of
  \<^verbatim>\<open>internal/reconcile\<close>; the fetcher is an arbitrary function on the world outside, which also holds the
  local API. \<^verbatim>\<open>json.Marshal\<close> of a feed's configuration, whose bytes are only hashed, and \<^verbatim>\<open>url.Parse\<close> are
  arguments.
\<close>

subsection \<open>Definitions: types\<close>

datatype SyncError = SyncErrConfig | SyncErrState | SyncErrFeed | SyncErrReconcile | SyncErrSelection | SyncErrDegraded

record FetchRequest =
  frq_URL :: string
  frq_Timeout :: duration
  frq_MaxBytes :: int
  frq_ContentTypes :: "string list"
  frq_ETag :: string
  frq_LastModified :: string

record FetchResult =
  frs_Body :: string
  frs_NotModified :: bool
  frs_ETag :: string
  frs_LastModified :: string
  frs_ContentHash :: string

text \<open>An error of the feed layer has a category and the delay a server asked for; any other error has neither.\<close>

datatype feed_failure = FeedFailure FeedError duration | OtherFailureCause

fun category_string :: "FeedError \<Rightarrow> string" where
  "category_string FeedErrFormat = ''format''"
| "category_string FeedErrPolicy = ''policy''"
| "category_string FeedErrEmpty = ''empty''"
| "category_string FeedErrLineTooLong = ''line_too_long''"
| "category_string FeedErrTruncated = ''truncated''"
| "category_string FeedErrMetadata = ''metadata''"
| "category_string FeedErrMalformedThreshold = ''malformed_threshold''"
| "category_string FeedErrEntryCount = ''entry_count''"
| "category_string FeedErrSuspiciousChange = ''suspicious_change''"
| "category_string FeedErrRequest = ''request''"
| "category_string FeedErrSSRF = ''ssrf''"
| "category_string FeedErrRedirect = ''redirect''"
| "category_string FeedErrHTTPStatus = ''http_status''"
| "category_string FeedErrBodySize = ''body_size''"
| "category_string FeedErrContentType = ''content_type''"
| "category_string FeedErrHTML = ''html''"
| "category_string FeedErrResponseHeader = ''response_header''"

fun feedFailureCategory :: "feed_failure \<Rightarrow> string" where
  "feedFailureCategory (FeedFailure e _) = category_string e"
| "feedFailureCategory OtherFailureCause = category_string FeedErrRequest"

fun RetryAfter :: "feed_failure \<Rightarrow> duration" where
  "RetryAfter (FeedFailure _ delay) = delay"
| "RetryAfter OtherFailureCause = 0"

record sync_RunOptions =
  sro_FeedName :: string
  sro_DryRun :: bool

datatype FeedStatus = FeedSucceeded | FeedFailed | FeedUnchanged | FeedNotDue

record sync_FeedResult =
  sfr_Name :: string
  sfr_Status :: FeedStatus
  sfr_Accepted :: int
  sfr_Rejected :: int
  sfr_ErrorClass :: string

record sync_Report =
  syn_FeedsSucceeded :: nat
  syn_FeedsFailed :: nat
  syn_FeedsUnchanged :: nat
  syn_FeedsNotDue :: nat
  syn_SuspiciousChanges :: nat
  syn_Feeds :: "sync_FeedResult list"
  syn_Reconcile :: Report

definition zero_sync_Report :: sync_Report where
  "zero_sync_Report = \<lparr>syn_FeedsSucceeded = 0, syn_FeedsFailed = 0, syn_FeedsUnchanged = 0, syn_FeedsNotDue = 0,
     syn_SuspiciousChanges = 0, syn_Feeds = [], syn_Reconcile = zero_Report\<rparr>"

text \<open>What an engine is built from: the fetcher, the two library functions, and the reconciler with its
  world, its clock reading and its busy flag.\<close>

record 'l engine =
  eng_Config :: Config
  eng_Fetch :: "FetchRequest \<Rightarrow> 'l \<Rightarrow> (feed_failure, FetchResult) result \<times> 'l"
  eng_Marshal :: "FeedConfig \<Rightarrow> string option"
  eng_URLParse :: "string \<Rightarrow> url option"
  eng_LAPI :: "'l outside"
  eng_Order :: "(groupKey \<times> plannedAction list) list \<Rightarrow> (groupKey \<times> plannedAction list) list"
  eng_Reconciler :: Reconciler
  eng_ReconcileNow :: gotime
  eng_ReconcileBusy :: bool

text \<open>\<^verbatim>\<open>New\<close>: the configuration is validated (and made canonical) once more.\<close>

definition engine_New :: "'l engine \<Rightarrow> (SyncError, 'l engine) result" where
  "engine_New e =
     (case Config_Validate (eng_URLParse e) (eng_Config e) of
        Inl _ \<Rightarrow> Inl SyncErrConfig
      | Inr cfg \<Rightarrow> Inr (e\<lparr>eng_Config := cfg\<rparr>))"

subsection \<open>Definitions: engine.go\<close>

definition hashText :: "string \<Rightarrow> string" where
  "hashText value = sha256_hex value"

definition definitionHash :: "(FeedConfig \<Rightarrow> string option) \<Rightarrow> FeedConfig \<Rightarrow> string option" where
  "definitionHash marshal feedConfig = map_option hashText (marshal feedConfig)"

fun feedDefinitions :: "(FeedConfig \<Rightarrow> string option) \<Rightarrow> FeedConfig list \<Rightarrow> FeedDefinition list option" where
  "feedDefinitions marshal [] = Some []"
| "feedDefinitions marshal (item # items) =
     (case definitionHash marshal item of
        None \<Rightarrow> None
      | Some hash \<Rightarrow>
          map_option ((#) \<lparr>fd_Name = fc_Name item, fd_URLHash = hashText (fc_URL item), fd_DefinitionHash = hash,
            fd_Enabled = fc_Enabled item\<rparr>) (feedDefinitions marshal items))"

definition feed_Format :: "string \<Rightarrow> Format" where
  "feed_Format s =
     (if s = ''spamhaus-drop-jsonl'' then FormatSpamhausDROPJSONL
      else if s = ''firehol-netset'' then FormatFireHOLNetset
      else if s = ''plain'' then FormatPlain else OtherFormat s)"

definition feed_Family :: "string \<Rightarrow> Family" where
  "feed_Family s =
     (if s = ''any'' then FamilyAny else if s = ''ipv4'' then FamilyIPv4 else if s = ''ipv6'' then FamilyIPv6 else OtherFamily s)"

definition metadataAge :: "Format \<Rightarrow> duration" where
  "metadataAge format = (if format = FormatSpamhausDROPJSONL then 72 * hour else 0)"

text \<open>The loop of \<^verbatim>\<open>retryDelay\<close>; the backoffs of a validated configuration are positive, so halving rounds down.\<close>

fun retry_steps :: "nat \<Rightarrow> duration \<Rightarrow> duration \<Rightarrow> duration" where
  "retry_steps 0 maximum delay = delay"
| "retry_steps (Suc n) maximum delay =
     (if delay < maximum then retry_steps n maximum (if delay > maximum div 2 then maximum else delay * 2) else delay)"

definition retryDelay :: "RetryConfig \<Rightarrow> int \<Rightarrow> duration \<Rightarrow> duration" where
  "retryDelay retry consecutiveFailures requested =
     (let maximum = rty_MaxBackoff retry;
          delay = retry_steps (nat consecutiveFailures) maximum (rty_InitialBackoff retry);
          capped = (if delay > maximum then maximum else delay)
      in if requested > capped then requested else capped)"

text \<open>\<^verbatim>\<open>parseFetched\<close>: parse, validate, and count what was rejected.\<close>

definition feed_limits :: "Config \<Rightarrow> FeedConfig \<Rightarrow> Limits" where
  "feed_limits cfg configured =
     \<lparr>lim_Family = feed_Family (fc_Family configured), lim_MaxLineBytes = val_MaxLineBytes (cfg_Validation cfg),
      lim_MaxMalformedLines = fc_MaxMalformedLines configured, lim_MaxMalformedRatio = fc_MaxMalformedRatio configured,
      lim_RequireFinalNewline = fc_RequireFinalNewline configured\<rparr>"

definition feed_policy :: "FeedConfig \<Rightarrow> FeedRecord \<Rightarrow> gotime \<Rightarrow> ValidationPolicy" where
  "feed_policy configured record now =
     \<lparr>vp_ExpectedMinEntries = fc_ExpectedMinEntries configured, vp_ExpectedMaxEntries = fc_ExpectedMaxEntries configured,
      vp_MaxGrowthRatio = fc_MaxGrowthRatio configured, vp_MaxShrinkRatio = fc_MaxShrinkRatio configured,
      vp_PreviousAcceptedEntries = frec_AcceptedEntries record, vp_Now = now,
      vp_MaxMetadataAge = metadataAge (feed_Format (fc_Format configured)), vp_MaxFutureSkew = 10 * minute\<rparr>"

definition parseFetched ::
  "'l engine \<Rightarrow> FeedConfig \<Rightarrow> FeedRecord \<Rightarrow> FetchResult \<Rightarrow> gotime \<Rightarrow> (FeedError, Snapshot \<times> int) result" where
  "parseFetched e configured record result now =
     (case feed_Parse (eng_URLParse e) (feed_Format (fc_Format configured)) (frs_Body result)
         (feed_limits (eng_Config e) configured) of
        Inl err \<Rightarrow> Inl err
      | Inr parsed \<Rightarrow>
          (case Validate parsed (feed_policy configured record now) of
             Inl err \<Rightarrow> Inl err
           | Inr snapshot \<Rightarrow>
               Inr (snapshot, int (fres_Malformed parsed) + int (snp_RejectedSafety snapshot) + int (snp_Duplicates snapshot))))"

text \<open>The zero value of a feed record, which a lookup of an absent name gives.\<close>

definition zero_FeedRecord :: FeedRecord where
  "zero_FeedRecord = \<lparr>frec_ID = 0, frec_Name = [], frec_URLHash = [], frec_DefinitionHash = [], frec_Enabled = False,
     frec_ETag = [], frec_LastModified = [], frec_LastAttempt = None, frec_LastSuccess = None, frec_LastGoodVersion = [],
     frec_AcceptedEntries = 0, frec_RejectedEntries = 0, frec_ConsecutiveFailures = 0, frec_NextAttempt = None,
     frec_LastErrorCategory = []\<rparr>"

definition byName :: "FeedRecord list \<Rightarrow> string \<Rightarrow> FeedRecord option" where
  "byName records = map_of (rev (map (\<lambda>record. (frec_Name record, record)) records))"

definition named_record :: "(string \<Rightarrow> FeedRecord option) \<Rightarrow> string \<Rightarrow> FeedRecord" where
  "named_record records name = (case records name of None \<Rightarrow> zero_FeedRecord | Some record \<Rightarrow> record)"

definition selected :: "string \<Rightarrow> FeedConfig \<Rightarrow> bool" where
  "selected feedName configured = (fc_Enabled configured \<and> (feedName = [] \<or> feedName = fc_Name configured))"

definition feed_not_due :: "gotime \<Rightarrow> FeedConfig \<Rightarrow> FeedRecord \<Rightarrow> bool \<Rightarrow> bool" where
  "feed_not_due now configured record changed =
     (\<not> changed \<and>
      ((case frec_LastSuccess record of None \<Rightarrow> False | Some t \<Rightarrow> now < t + fc_MinUpdateInterval configured) \<or>
       (case frec_NextAttempt record of None \<Rightarrow> False | Some t \<Rightarrow> now < t)))"

text \<open>The part of the loop that real and preview runs share: the conditional request, then parsing and
  validation. A feed whose definition changed is fetched without validators and checked without history.\<close>

datatype download = DownloadFailed feed_failure | DownloadUnchanged FetchResult | DownloadNew FetchResult Snapshot int

definition download_feed ::
  "'l engine \<Rightarrow> FeedConfig \<Rightarrow> FeedRecord \<Rightarrow> bool \<Rightarrow> gotime \<Rightarrow> 'l \<Rightarrow> download \<times> 'l" where
  "download_feed e configured record changed now l =
     (let request = \<lparr>frq_URL = fc_URL configured, frq_Timeout = fc_Timeout configured,
            frq_MaxBytes = fc_MaxDownloadBytes configured, frq_ContentTypes = fc_ContentTypes configured,
            frq_ETag = (if changed then [] else frec_ETag record),
            frq_LastModified = (if changed then [] else frec_LastModified record)\<rparr>;
          validationRecord = (if changed then record\<lparr>frec_AcceptedEntries := 0\<rparr> else record)
      in case eng_Fetch e request l of
        (Inl err, l1) \<Rightarrow> (DownloadFailed err, l1)
      | (Inr result, l1) \<Rightarrow>
          if frs_NotModified result \<and> changed then (DownloadFailed OtherFailureCause, l1)
          else if frs_NotModified result then (DownloadUnchanged result, l1)
          else case parseFetched e configured validationRecord result now of
            Inl err \<Rightarrow> (DownloadFailed (FeedFailure err 0), l1)
          | Inr (snapshot, rejectedCount) \<Rightarrow> (DownloadNew result snapshot rejectedCount, l1))"

text \<open>The entries of the report.\<close>

definition report_not_due :: "string \<Rightarrow> sync_Report \<Rightarrow> sync_Report" where
  "report_not_due name rep = rep\<lparr>syn_FeedsNotDue := syn_FeedsNotDue rep + 1, syn_Feeds := syn_Feeds rep @
     [\<lparr>sfr_Name = name, sfr_Status = FeedNotDue, sfr_Accepted = 0, sfr_Rejected = 0, sfr_ErrorClass = []\<rparr>]\<rparr>"

definition report_failed :: "string \<Rightarrow> string \<Rightarrow> sync_Report \<Rightarrow> sync_Report" where
  "report_failed name category rep = rep\<lparr>syn_FeedsFailed := syn_FeedsFailed rep + 1,
     syn_SuspiciousChanges := syn_SuspiciousChanges rep +
       (if category = category_string FeedErrSuspiciousChange then 1 else 0),
     syn_Feeds := syn_Feeds rep @
       [\<lparr>sfr_Name = name, sfr_Status = FeedFailed, sfr_Accepted = 0, sfr_Rejected = 0, sfr_ErrorClass = category\<rparr>]\<rparr>"

definition report_unchanged :: "FeedConfig \<Rightarrow> FeedRecord \<Rightarrow> sync_Report \<Rightarrow> sync_Report" where
  "report_unchanged configured record rep = rep\<lparr>syn_FeedsUnchanged := syn_FeedsUnchanged rep + 1, syn_Feeds := syn_Feeds rep @
     [\<lparr>sfr_Name = fc_Name configured, sfr_Status = FeedUnchanged, sfr_Accepted = frec_AcceptedEntries record,
       sfr_Rejected = frec_RejectedEntries record, sfr_ErrorClass = []\<rparr>]\<rparr>"

definition report_succeeded :: "string \<Rightarrow> Snapshot \<Rightarrow> int \<Rightarrow> sync_Report \<Rightarrow> sync_Report" where
  "report_succeeded name snapshot rejectedCount rep = rep\<lparr>syn_FeedsSucceeded := syn_FeedsSucceeded rep + 1, syn_Feeds := syn_Feeds rep @
     [\<lparr>sfr_Name = name, sfr_Status = FeedSucceeded, sfr_Accepted = int (length (snp_Entries snapshot)),
       sfr_Rejected = rejectedCount, sfr_ErrorClass = []\<rparr>]\<rparr>"

text \<open>The state of a run: the report, the database, the world outside.\<close>

record 'l sync_state =
  ss_report :: sync_Report
  ss_db :: db
  ss_out :: 'l

definition recordFeedFailure ::
  "'l engine \<Rightarrow> FeedConfig \<Rightarrow> FeedRecord \<Rightarrow> gotime \<Rightarrow> feed_failure \<Rightarrow> 'l sync_state \<Rightarrow> SyncError option \<times> 'l sync_state" where
  "recordFeedFailure e configured record now cause s =
     (let category = feedFailureCategory cause;
          delay = retryDelay (sch_Retry (cfg_Schedule (eng_Config e))) (frec_ConsecutiveFailures record) (RetryAfter cause)
      in case RecordFeedFailure (fc_Name configured) category now (now + delay) (ss_db s) of
        (Inl _, d1) \<Rightarrow> (Some SyncErrState, s\<lparr>ss_db := d1\<rparr>)
      | (Inr _, d1) \<Rightarrow> (None, s\<lparr>ss_db := d1, ss_report := report_failed (fc_Name configured) category (ss_report s)\<rparr>))"

text \<open>One turn of the loop over the configured feeds.\<close>

definition sync_feed ::
  "'l engine \<Rightarrow> string \<Rightarrow> gotime \<Rightarrow> (string \<Rightarrow> FeedRecord option) \<Rightarrow> (string \<Rightarrow> bool) \<Rightarrow> FeedConfig \<Rightarrow>
   'l sync_state \<Rightarrow> SyncError option \<times> 'l sync_state" where
  "sync_feed e feedName now records definitionChanged configured s =
     (if \<not> selected feedName configured then (None, s)
      else
        let record = named_record records (fc_Name configured); changed = definitionChanged (fc_Name configured) in
        if feed_not_due now configured record changed
        then (None, s\<lparr>ss_report := report_not_due (fc_Name configured) (ss_report s)\<rparr>)
        else (case download_feed e configured record changed now (ss_out s) of
            (DownloadFailed cause, l1) \<Rightarrow> recordFeedFailure e configured record now cause (s\<lparr>ss_out := l1\<rparr>)
          | (DownloadUnchanged result, l1) \<Rightarrow>
              (case RecordFeedNotModified (fc_Name configured) (frs_ETag result) (frs_LastModified result) now (ss_db s) of
                 (Inl _, d1) \<Rightarrow> (Some SyncErrState, s\<lparr>ss_out := l1, ss_db := d1\<rparr>)
               | (Inr _, d1) \<Rightarrow>
                   (None, s\<lparr>ss_out := l1, ss_db := d1, ss_report := report_unchanged configured record (ss_report s)\<rparr>))
          | (DownloadNew result snapshot rejectedCount, l1) \<Rightarrow>
              (case ApplyFeedSnapshot (fc_Name configured)
                  \<lparr>fs_Version = snp_Version snapshot, fs_ETag = frs_ETag result, fs_LastModified = frs_LastModified result,
                   fs_Entries = snp_Entries snapshot, fs_Rejected = rejectedCount\<rparr>
                  (dec_MissingGraceRuns (cfg_Decisions (eng_Config e))) now (ss_db s) of
                 (Inl _, d1) \<Rightarrow> (Some SyncErrState, s\<lparr>ss_out := l1, ss_db := d1\<rparr>)
               | (Inr _, d1) \<Rightarrow>
                   (None, s\<lparr>ss_out := l1, ss_db := d1,
                     ss_report := report_succeeded (fc_Name configured) snapshot rejectedCount (ss_report s)\<rparr>))))"

fun sync_feeds ::
  "'l engine \<Rightarrow> string \<Rightarrow> gotime \<Rightarrow> (string \<Rightarrow> FeedRecord option) \<Rightarrow> (string \<Rightarrow> bool) \<Rightarrow> FeedConfig list \<Rightarrow>
   'l sync_state \<Rightarrow> SyncError option \<times> 'l sync_state" where
  "sync_feeds e feedName now records definitionChanged [] s = (None, s)"
| "sync_feeds e feedName now records definitionChanged (configured # rest) s =
     (case sync_feed e feedName now records definitionChanged configured s of
        (Some err, s1) \<Rightarrow> (Some err, s1)
      | (None, s1) \<Rightarrow> sync_feeds e feedName now records definitionChanged rest s1)"

definition definition_changed :: "(string \<Rightarrow> FeedRecord option) \<Rightarrow> FeedDefinition \<Rightarrow> bool" where
  "definition_changed previous d =
     (case previous (fd_Name d) of
        None \<Rightarrow> True
      | Some p \<Rightarrow> frec_URLHash p \<noteq> fd_URLHash d \<or> frec_DefinitionHash p \<noteq> fd_DefinitionHash d \<or> frec_Enabled p \<noteq> fd_Enabled d)"

definition changed_names :: "(string \<Rightarrow> FeedRecord option) \<Rightarrow> FeedDefinition list \<Rightarrow> string \<Rightarrow> bool" where
  "changed_names previous definitions name =
     (case map_of (rev (map (\<lambda>d. (fd_Name d, definition_changed previous d)) definitions)) name of
        None \<Rightarrow> False | Some changed \<Rightarrow> changed)"

definition feed_order :: "FeedRecord list \<Rightarrow> int \<Rightarrow> int option" where
  "feed_order records = map_of (rev (map (\<lambda>(index, record). (frec_ID record, int index)) (enumerate 0 records)))"

text \<open>The reconciliation at the end of a run, and the error the run returns.\<close>

definition reconcile_run ::
  "'l engine \<Rightarrow> RunOptions \<Rightarrow> 'l sync_state \<Rightarrow> SyncError option \<times> sync_Report \<times> db \<times> 'l" where
  "reconcile_run e options s =
     (case Run (eng_Order e) (eng_LAPI e) (eng_Reconciler e) options (eng_ReconcileNow e) (eng_ReconcileBusy e)
         (ss_db s) (ss_out s) of
        (err, reconciled, d1, l1) \<Rightarrow>
          let rep = (ss_report s)\<lparr>syn_Reconcile := reconciled\<rparr> in
          ((if err \<noteq> None then Some SyncErrReconcile
            else if syn_FeedsFailed rep > 0 then Some SyncErrDegraded else None), rep, d1, l1))"

definition selectedFeedExists :: "Config \<Rightarrow> string \<Rightarrow> bool" where
  "selectedFeedExists cfg name = (name = [] \<or> list_ex (\<lambda>configured. fc_Name configured = name) (cfg_Feeds cfg))"

subsection \<open>Definitions: dryrun.go\<close>

text \<open>The records a preview works with: a configured feed that has no row yet gets the next free id.\<close>

record dry_plan =
  dp_records :: "string \<Rightarrow> FeedRecord option"
  dp_nextID :: int
  dp_enabled :: "string list"
  dp_order :: "int \<Rightarrow> int option"
  dp_changed :: "string \<Rightarrow> bool"

definition next_feed_id :: "FeedRecord list \<Rightarrow> int" where
  "next_feed_id records =
     foldl (\<lambda>nextID record. if frec_ID record \<ge> nextID then wrap64 (frec_ID record + 1) else nextID) 1 records"

definition dry_plan_step ::
  "(FeedConfig \<Rightarrow> string option) \<Rightarrow> nat \<Rightarrow> FeedConfig \<Rightarrow> dry_plan \<Rightarrow> dry_plan option" where
  "dry_plan_step marshal index configured plan =
     (if \<not> fc_Enabled configured then Some plan
      else
        let found = dp_records plan (fc_Name configured) in
        case definitionHash marshal configured of
          None \<Rightarrow> None
        | Some hash \<Rightarrow>
            let changed = (case found of
                  None \<Rightarrow> True
                | Some record \<Rightarrow> frec_URLHash record \<noteq> hashText (fc_URL configured) \<or>
                    frec_DefinitionHash record \<noteq> hash \<or> \<not> frec_Enabled record);
                record = (case found of
                  Some record \<Rightarrow> record
                | None \<Rightarrow> zero_FeedRecord\<lparr>frec_ID := dp_nextID plan, frec_Name := fc_Name configured, frec_Enabled := True\<rparr>)
            in Some \<lparr>dp_records = (dp_records plan)(fc_Name configured \<mapsto> record),
                 dp_nextID = (if found = None then wrap64 (dp_nextID plan + 1) else dp_nextID plan),
                 dp_enabled = fc_Name configured # dp_enabled plan,
                 dp_order = (dp_order plan)(frec_ID record \<mapsto> int index),
                 dp_changed = (dp_changed plan)(fc_Name configured := changed)\<rparr>)"

fun dry_plan_steps :: "(FeedConfig \<Rightarrow> string option) \<Rightarrow> nat \<Rightarrow> FeedConfig list \<Rightarrow> dry_plan \<Rightarrow> dry_plan option" where
  "dry_plan_steps marshal index [] plan = Some plan"
| "dry_plan_steps marshal index (configured # rest) plan =
     (case dry_plan_step marshal index configured plan of
        None \<Rightarrow> None
      | Some plan1 \<Rightarrow> dry_plan_steps marshal (index + 1) rest plan1)"

text \<open>One turn of the loop: the snapshot of a feed replaces its entries in memory.\<close>

record 'l dry_state =
  ds_report :: sync_Report
  ds_entries :: "StoredEntry list"
  ds_out :: 'l

definition dry_feed ::
  "'l engine \<Rightarrow> string \<Rightarrow> gotime \<Rightarrow> dry_plan \<Rightarrow> FeedConfig \<Rightarrow> 'l dry_state \<Rightarrow> 'l dry_state" where
  "dry_feed e feedName now plan configured s =
     (if \<not> selected feedName configured then s
      else
        let record = named_record (dp_records plan) (fc_Name configured); changed = dp_changed plan (fc_Name configured) in
        if feed_not_due now configured record changed
        then s\<lparr>ds_report := report_not_due (fc_Name configured) (ds_report s)\<rparr>
        else (case download_feed e configured record changed now (ds_out s) of
            (DownloadFailed cause, l1) \<Rightarrow>
              s\<lparr>ds_out := l1, ds_report := report_failed (fc_Name configured) (feedFailureCategory cause) (ds_report s)\<rparr>
          | (DownloadUnchanged result, l1) \<Rightarrow>
              s\<lparr>ds_out := l1, ds_report := report_unchanged configured record (ds_report s)\<rparr>
          | (DownloadNew result snapshot rejectedCount, l1) \<Rightarrow>
              s\<lparr>ds_out := l1,
                ds_entries := filter (\<lambda>entry. se_FeedName entry \<noteq> fc_Name configured) (ds_entries s) @
                  map (\<lambda>item. \<lparr>se_FeedID = frec_ID record, se_FeedName = fc_Name configured, se_Entry = item,
                    se_FirstSeen = now, se_LastSeen = now, se_MissingRuns = 0, se_Active = True\<rparr>) (snp_Entries snapshot),
                ds_report := report_succeeded (fc_Name configured) snapshot rejectedCount (ds_report s)\<rparr>))"

definition runDry ::
  "'l engine \<Rightarrow> string \<Rightarrow> gotime \<Rightarrow> db \<Rightarrow> 'l \<Rightarrow> SyncError option \<times> sync_Report \<times> db \<times> 'l" where
  "runDry e feedName now d l =
     (case ListFeeds d of
        Inl _ \<Rightarrow> (Some SyncErrState, zero_sync_Report, d, l)
      | Inr records \<Rightarrow>
          (case ListActiveEntries d of
             Inl _ \<Rightarrow> (Some SyncErrState, zero_sync_Report, d, l)
           | Inr entries \<Rightarrow>
               (case dry_plan_steps (eng_Marshal e) 0 (cfg_Feeds (eng_Config e))
                   \<lparr>dp_records = byName records, dp_nextID = next_feed_id records, dp_enabled = [],
                    dp_order = Map.empty, dp_changed = (\<lambda>_. False)\<rparr> of
                  None \<Rightarrow> (Some SyncErrConfig, zero_sync_Report, d, l)
                | Some plan \<Rightarrow>
                    let s = foldl (\<lambda>s configured. dry_feed e feedName now plan configured s)
                          \<lparr>ds_report = zero_sync_Report,
                           ds_entries = filter (\<lambda>entry. se_FeedName entry \<in> set (dp_enabled plan)) entries, ds_out = l\<rparr>
                          (cfg_Feeds (eng_Config e))
                    in reconcile_run e
                         \<lparr>ro_Allowlists = cfg_Allowlists (eng_Config e), ro_FeedOrder = dp_order plan, ro_DryRun = True,
                          ro_OverrideEntries = True, ro_Entries = ds_entries s\<rparr>
                         \<lparr>ss_report = ds_report s, ss_db = d, ss_out = ds_out s\<rparr>)))"

subsection \<open>Definitions: Run\<close>

definition engine_Run ::
  "'l engine \<Rightarrow> sync_RunOptions \<Rightarrow> gotime \<Rightarrow> db \<Rightarrow> 'l \<Rightarrow> SyncError option \<times> sync_Report \<times> db \<times> 'l" where
  "engine_Run e options now d l =
     (if IsZero now then (Some SyncErrConfig, zero_sync_Report, d, l)
      else if \<not> selectedFeedExists (eng_Config e) (sro_FeedName options) then (Some SyncErrSelection, zero_sync_Report, d, l)
      else if sro_DryRun options then runDry e (sro_FeedName options) now d l
      else case feedDefinitions (eng_Marshal e) (cfg_Feeds (eng_Config e)) of
        None \<Rightarrow> (Some SyncErrConfig, zero_sync_Report, d, l)
      | Some definitions \<Rightarrow>
          (case ListFeeds d of
             Inl _ \<Rightarrow> (Some SyncErrState, zero_sync_Report, d, l)
           | Inr previousRecords \<Rightarrow>
               (case EnsureFeeds definitions now d of
                  (Inl _, d1) \<Rightarrow> (Some SyncErrState, zero_sync_Report, d1, l)
                | (Inr records, d1) \<Rightarrow>
                    (case sync_feeds e (sro_FeedName options) now (byName records)
                        (changed_names (byName previousRecords) definitions) (cfg_Feeds (eng_Config e))
                        \<lparr>ss_report = zero_sync_Report, ss_db = d1, ss_out = l\<rparr> of
                       (Some err, s) \<Rightarrow> (Some err, ss_report s, ss_db s, ss_out s)
                     | (None, s) \<Rightarrow>
                         reconcile_run e
                           \<lparr>ro_Allowlists = cfg_Allowlists (eng_Config e), ro_FeedOrder = feed_order records, ro_DryRun = False,
                            ro_OverrideEntries = False, ro_Entries = []\<rparr> s))))"

end
