(* ===== verification/Reconcile_Effects.thy ===== *)
theory Reconcile_Effects
  imports Reconcile
begin

text \<open>
  What a reconciliation may do to the world, proved once for every relation between states that is
  closed under the calls the reconciler makes: an alert is only created for a journalled token, and
  a decision is only expired right after an answer of the local API that proves its ownership. Two
  interpretations give the properties: the database moves by store operations only, and the trace of
  calls obeys the two guards for every behaviour of the local API.
\<close>

subsection \<open>The contract of the calls\<close>

definition journalled :: "'l rstate \<Rightarrow> string set" where
  "journalled s = op_token ` set (lapi_operations (rs_db s))"

definition owned_remote :: "Reconciler \<Rightarrow> int \<Rightarrow> lapi_Alert \<Rightarrow> int \<Rightarrow> bool" where
  "owned_remote r alertID remote decisionID \<longleftrightarrow>
     al_ID remote = alertID \<and> al_MachineID remote = rc_machineID r \<and>
     (\<exists>m. filter (\<lambda>candidate. ld_ID candidate = decisionID) (al_Decisions remote) = [m] \<and>
        ld_Origin m = ''crowdshield'' \<and> ld_Type m = ''ban'' \<and> ld_Scenario m = al_Scenario remote)"

locale reconcile_effects =
  fixes out :: "'l outside" and r :: Reconciler and R :: "'l rstate \<Rightarrow> 'l rstate \<Rightarrow> bool"
  assumes R_refl: "R s s"
    and R_trans: "R s1 s2 \<Longrightarrow> R s2 s3 \<Longrightarrow> R s1 s3"
    and R_journalled: "R s s' \<Longrightarrow> journalled s \<subseteq> journalled s'"
    and R_report: "R s (s\<lparr>rs_report := x\<rparr>)"
    and R_mark: "R s (snd (store_call (MarkDecisionExpired i now) s))"
    and R_begin: "R s (snd (store_call (BeginOperation operation) s))"
    and R_record: "R s (snd (store_call (RecordVerifiedOperation token alert now) s))"
    and R_complete: "R s (snd (store_call (CompleteOperation token now) s))"
    and R_status: "R s (snd (store_call (SetOperationStatus token status category now) s))"
    and R_get: "R s (snd (lapi_call (GetAlert out i) s))"
    and R_find: "R s (snd (lapi_call (FindOperation out name token) s))"
    and R_token: "Token out (rs_out s) = (tok, l) \<Longrightarrow> R s (s\<lparr>rs_out := l\<rparr>)"
    and R_create: "cr_OperationToken req \<in> journalled s \<Longrightarrow> R s (snd (lapi_call (CreateAlert out req) s))"
    and R_expire: "lapi_call (GetAlert out i) s = (Inr remote, s1) \<Longrightarrow> owned_remote r i remote j \<Longrightarrow>
      R s (snd (lapi_call (ExpireDecision out j) s1))"
begin

definition eff :: "('l, 'a) rcall \<Rightarrow> bool" where
  "eff m \<longleftrightarrow> (\<forall>s. R s (snd (m s)))"

lemma eff_rbind:
  assumes "eff m" and "\<And>x. eff (f x)"
  shows "eff (rbind m f)"
proof -
  have "R s (snd (rbind m f s))" for s
    using assms R_trans [of s "snd (m s)"] by (auto simp: eff_def rbind_def split: prod.splits sum.splits) (metis snd_conv)
  then show ?thesis by (simp add: eff_def)
qed

lemma snd_state_call: "snd (state_call f s) = snd (store_call f s)"
  by (auto simp: state_call_def split: prod.splits sum.splits)

lemma eff_state_calls:
  "eff (state_call (MarkDecisionExpired i now))" "eff (state_call (BeginOperation operation))"
  "eff (state_call (RecordVerifiedOperation token alert now))" "eff (state_call (CompleteOperation token now))"
  "eff (state_call (SetOperationStatus token status category now))"
  using R_mark R_begin R_record R_complete R_status by (simp_all add: eff_def snd_state_call)

lemma eff_expireOwned: "eff (expireOwned out r now decision)"
  unfolding eff_def
proof
  fix s :: "'l rstate"
  let ?mark = "\<lambda>s. R s (snd (state_call (MarkDecisionExpired (dr_ID decision) now) s))"
  have mark: "?mark s'" for s' using eff_state_calls(1) by (auto simp: eff_def)
  obtain res s1 where g: "lapi_call (GetAlert out (dr_AlertID decision)) s = (res, s1)" by fastforce
  have s1: "R s s1" using R_get [of s "dr_AlertID decision"] by (simp add: g)
  show "R s (snd (expireOwned out r now decision s))"
  proof (cases res)
    case (Inl err)
    then show ?thesis using s1 R_trans [OF s1 mark] by (simp add: expireOwned_def g)
  next
    case (Inr remote)
    let ?ms = "filter (\<lambda>candidate. ld_ID candidate = dr_DecisionID decision) (al_Decisions remote)"
    consider (expire) m expiry where "al_ID remote = dr_AlertID decision" "al_MachineID remote = rc_machineID r"
        "al_Scenario remote = dr_Scenario decision" "?ms = [m]" "owned_match decision m"
        "decisionExpiry m now (rc_duration r) = Some expiry" "expiry > now"
      | (mark) "expireOwned out r now decision s = state_call (MarkDecisionExpired (dr_ID decision) now) s1"
      | (refuse) "snd (expireOwned out r now decision s) = s1"
    proof -
      assume thesis: "\<And>m expiry. al_ID remote = dr_AlertID decision \<Longrightarrow> al_MachineID remote = rc_machineID r \<Longrightarrow>
          al_Scenario remote = dr_Scenario decision \<Longrightarrow> ?ms = [m] \<Longrightarrow> owned_match decision m \<Longrightarrow>
          decisionExpiry m now (rc_duration r) = Some expiry \<Longrightarrow> expiry > now \<Longrightarrow> thesis"
        "expireOwned out r now decision s = state_call (MarkDecisionExpired (dr_ID decision) now) s1 \<Longrightarrow> thesis"
        "snd (expireOwned out r now decision s) = s1 \<Longrightarrow> thesis"
      show thesis
      proof (cases "al_ID remote \<noteq> dr_AlertID decision \<or> al_MachineID remote \<noteq> rc_machineID r \<or> al_Scenario remote \<noteq> dr_Scenario decision")
        case True
        then show thesis using g Inr by (intro thesis(3)) (auto simp: expireOwned_def)
      next
        case ids: False
        show thesis
        proof (cases "\<exists>m. ?ms = [m] \<and> owned_match decision m")
          case False
          then show thesis using ids g Inr by (intro thesis(3)) (auto simp: expireOwned_def split: list.splits)
        next
          case True
          then obtain m where m: "?ms = [m]" "owned_match decision m" by blast
          show thesis
          proof (cases "decisionExpiry m now (rc_duration r)")
            case None
            then show thesis using ids m g Inr by (intro thesis(3)) (simp add: expireOwned_def)
          next
            case (Some expiry)
            show thesis
            proof (cases "expiry > now")
              case True
              then show thesis using ids m Some by (intro thesis(1)) auto
            next
              case False
              then show thesis using ids m Some g Inr by (intro thesis(2)) (simp add: expireOwned_def)
            qed
          qed
        qed
      qed
    qed
    then show ?thesis
    proof cases
      case expire
      then have "owned_remote r (dr_AlertID decision) remote (dr_DecisionID decision)"
        by (auto simp: owned_remote_def owned_match_def)
      from R_expire [OF g [unfolded Inr] this]
      have e: "R s (snd (lapi_call (ExpireDecision out (dr_DecisionID decision)) s1))" .
      obtain res2 s2 where l: "lapi_call (ExpireDecision out (dr_DecisionID decision)) s1 = (res2, s2)" by fastforce
      then have "snd (expireOwned out r now decision s) = s2 \<or>
          expireOwned out r now decision s = state_call (MarkDecisionExpired (dr_ID decision) now) s2"
        using expire g Inr by (auto simp: expireOwned_def split: sum.splits)
      then show ?thesis using e l R_trans [OF _ mark, of s s2] by auto
    next
      case mark
      then show ?thesis using R_trans [OF s1, of "snd (state_call (MarkDecisionExpired (dr_ID decision) now) s1)"] eff_state_calls(1)
        by (auto simp: eff_def)
    next
      case refuse
      then show ?thesis using s1 by simp
    qed
  qed
qed

lemma eff_finish_items: "eff (finish_items out r now items)"
proof (induction items)
  case Nil
  then show ?case by (simp add: eff_def R_refl)
next
  case (Cons item items)
  have "eff (rbind (expireOwned out r now old) (\<lambda>_. finish_items out r now items))" for old
    by (intro eff_rbind eff_expireOwned Cons.IH)
  with Cons.IH show ?case by (auto simp: eff_def R_refl split: option.splits sum.splits)
qed

lemma eff_finishVerified: "eff (finishVerified out r now operation)"
  unfolding finishVerified_def by (intro eff_rbind eff_finish_items eff_state_calls)

lemma R_ambiguous: "R s (set_ambiguous operation category now s)"
  unfolding set_ambiguous_def by (rule R_status)

lemma R_createForOperation:
  assumes "opn_Token operation \<in> journalled s"
  shows "R s (snd (createForOperation out r records now operation s))"
proof (cases "decision_inputs records (opn_Items operation)")
  case None
  then show ?thesis using eff_state_calls(5) by (simp add: createForOperation_def eff_def)
next
  case (Some decisions)
  let ?req = "\<lparr>cr_FeedName = opn_FeedName operation, cr_OperationToken = opn_Token operation,
      cr_Duration = opn_Duration operation, cr_Decisions = decisions\<rparr>"
  obtain res s1 where c: "lapi_call (CreateAlert out ?req) s = (res, s1)" by fastforce
  have s1: "R s s1" using R_create [of ?req s] assms by (simp add: c)
  show ?thesis
  proof (cases res)
    case (Inl e)
    then show ?thesis using R_trans [OF s1 R_ambiguous] by (simp add: createForOperation_def Some c)
  next
    case (Inr alertID)
    obtain res2 s2 where g: "lapi_call (GetAlert out alertID) s1 = (res2, s2)" by fastforce
    have s2: "R s s2" using R_trans [OF s1] R_get [of s1 alertID] by (simp add: g)
    have "eff (rbind (state_call (RecordVerifiedOperation (opn_Token operation) verified now)) (\<lambda>_. finishVerified out r now operation))" for verified
      by (intro eff_rbind eff_state_calls eff_finishVerified)
    then have "R s (snd (rbind (state_call (RecordVerifiedOperation (opn_Token operation) verified now)) (\<lambda>_. finishVerified out r now operation) s2))" for verified
      using R_trans [OF s2] by (auto simp: eff_def)
    then show ?thesis
      using R_trans [OF s2 R_ambiguous] by (auto simp: createForOperation_def Some c Inr g split: sum.splits)
  qed
qed

lemma eff_add_recovered: "eff (add_recovered n)"
  by (simp add: eff_def add_recovered_def R_report)

lemma R_rbind:
  assumes "R s (snd (m s))" and "\<And>x. eff (f x)"
  shows "R s (snd (rbind m f s))"
  using assms R_trans [OF assms(1)] by (auto simp: rbind_def eff_def split: prod.splits sum.splits)

lemma R_recover_one:
  assumes "opn_Token operation \<in> journalled s"
  shows "R s (snd (recover_one out r records now operation s))"
proof (cases "opn_Status operation = OperationVerified")
  case True
  have "eff (rbind (finishVerified out r now operation) (\<lambda>_. add_recovered (length (opn_Items operation))))"
    by (intro eff_rbind eff_finishVerified eff_add_recovered)
  with True show ?thesis by (simp add: recover_one_def eff_def)
next
  case False
  obtain res s1 where f: "lapi_call (FindOperation out (opn_FeedName operation) (opn_Token operation)) s = (res, s1)" by fastforce
  have s1: "R s s1" using R_find [of s "opn_FeedName operation" "opn_Token operation"] by (simp add: f)
  have j: "opn_Token operation \<in> journalled s1" using R_journalled [OF s1] assms by blast
  have "eff (rbind (state_call (RecordVerifiedOperation (opn_Token operation) verified now))
      (\<lambda>_. rbind (finishVerified out r now operation) (\<lambda>_. add_recovered (length (opn_Items operation)))))" for verified
    by (intro eff_rbind eff_state_calls eff_finishVerified eff_add_recovered)
  then have "R s (snd (rbind (state_call (RecordVerifiedOperation (opn_Token operation) verified now))
      (\<lambda>_. rbind (finishVerified out r now operation) (\<lambda>_. add_recovered (length (opn_Items operation)))) s1))" for verified
    using R_trans [OF s1] by (auto simp: eff_def)
  moreover have "R s (snd (rbind (createForOperation out r records now operation)
      (\<lambda>_. add_recovered (length (opn_Items operation))) s1))"
    by (rule R_trans [OF s1]) (rule R_rbind, rule R_createForOperation [OF j], rule eff_add_recovered)
  ultimately show ?thesis using False s1 by (auto simp: recover_one_def f split: sum.splits option.splits)
qed

lemma R_recover_all:
  "\<forall>operation \<in> set operations. opn_Token operation \<in> journalled s \<Longrightarrow>
   R s (snd (recover_all out r records now operations s))"
proof (induction operations arbitrary: s)
  case (Cons operation operations)
  obtain res s1 where one: "recover_one out r records now operation s = (res, s1)" by fastforce
  have s1: "R s s1" using R_recover_one [of operation s records now] Cons.prems by (simp add: one)
  have "R s1 (snd (recover_all out r records now operations s1))"
    using Cons.IH [of s1] Cons.prems R_journalled [OF s1] by auto
  with s1 R_trans [OF s1] show ?case by (auto simp: rbind_def one split: sum.splits)
qed (simp add: R_refl)

lemma OpenOperations_journalled: "OpenOperations d = Inr operations \<Longrightarrow> operation \<in> set operations \<Longrightarrow>
    opn_Token operation \<in> op_token ` set (lapi_operations d)"
  by (auto simp: OpenOperations_def scan_operation_def)

lemma eff_recover: "eff (recover out r records now)"
  unfolding eff_def
proof
  fix s :: "'l rstate"
  show "R s (snd (recover out r records now s))"
    using R_recover_all [of _ s records now] OpenOperations_journalled [of "rs_db s"]
    by (auto simp: recover_def journalled_def R_refl split: sum.splits)
qed

lemma eff_plan_records: "eff (plan_records r now active plan records)"
proof (induction records arbitrary: plan)
  case (Cons x records)
  have "eff (rbind (state_call (MarkDecisionExpired i now)) (\<lambda>_. plan_records r now active p records))" for i p
    by (intro eff_rbind eff_state_calls Cons.IH)
  moreover have "R s (snd (plan_records r now active p records (skip_one s)))" for p s
    using R_trans [OF R_report [of s], of _ "snd (plan_records r now active p records (skip_one s))"] Cons.IH [of p]
    by (auto simp: eff_def skip_one_def)
  ultimately show ?case using Cons.IH by (auto simp: eff_def R_refl Let_def split: option.splits)
qed (simp add: eff_def R_refl)

lemma eff_newOperation: "eff (newOperation out r kind feedID feedName actions now)"
  unfolding eff_def
proof
  fix s :: "'l rstate"
  obtain token l where t: "Token out (rs_out s) = (token, l)" by fastforce
  from R_token [OF this] show "R s (snd (newOperation out r kind feedID feedName actions now s))"
    by (auto simp: newOperation_def t Let_def split: option.splits)
qed

lemma BeginOperation_journalled: "store_call (BeginOperation operation) s = (Inr u, s') \<Longrightarrow> opn_Token operation \<in> journalled s'"
  by (auto simp: store_call_def BeginOperation_def journalled_def pending_row_def split: prod.splits if_splits sum.splits)

lemma eff_run_batch: "eff (run_batch out r records now key batch)"
proof -
  have add: "eff (\<lambda>s. (Inr (), add_batch kind n s))" for kind n by (simp add: eff_def add_batch_def R_report)
  have "eff (rbind (state_call (BeginOperation operation)) (\<lambda>_. rbind (createForOperation out r records now operation)
      (\<lambda>_ s. (Inr (), add_batch (fst key) (length batch) s))))" for operation
    unfolding eff_def
  proof
    fix s :: "'l rstate"
    obtain res s1 where b: "store_call (BeginOperation operation) s = (res, s1)" by fastforce
    have s1: "R s s1" using R_begin [of s operation] by (simp add: b)
    show "R s (snd (rbind (state_call (BeginOperation operation)) (\<lambda>_. rbind (createForOperation out r records now operation)
      (\<lambda>_ s. (Inr (), add_batch (fst key) (length batch) s))) s))"
    proof (cases res)
      case (Inl e)
      then show ?thesis using s1 by (simp add: rbind_def state_call_def b)
    next
      case (Inr u)
      have "opn_Token operation \<in> journalled s1" using BeginOperation_journalled b Inr by blast
      then have "R s1 (snd (rbind (createForOperation out r records now operation) (\<lambda>_ s. (Inr (), add_batch (fst key) (length batch) s)) s1))"
        by (intro R_rbind R_createForOperation add)
      from R_trans [OF s1 this] show ?thesis
        by (simp add: rbind_def [of "state_call (BeginOperation operation)"] state_call_def b Inr)
    qed
  qed
  then show ?thesis unfolding run_batch_def by (rule eff_rbind [OF eff_newOperation])
qed

lemma R_keep_going:
  assumes "eff m"
  shows "R (snd acc) (snd (keep_going m acc))"
  using assms by (auto simp: keep_going_def eff_def split: prod.splits sum.splits option.splits) (metis snd_conv)+

lemma R_foldl_keep_going:
  fixes m :: "'x \<Rightarrow> ('l, unit) rcall"
  assumes "\<And>x. eff (m x)"
  shows "R (snd acc) (snd (foldl (\<lambda>acc x. keep_going (m x) acc) acc xs))"
proof (induction xs arbitrary: acc)
  case (Cons x xs)
  from R_trans [OF R_keep_going [OF assms] Cons.IH] show ?case by simp
qed (simp add: R_refl)

lemma R_run_groups: "R s (snd (run_groups out r records now gs s))"
  using R_foldl_keep_going [of "\<lambda>x. run_batch out r records now (fst x) (snd x)" "(None, s)"]
  unfolding run_groups_def case_prod_beta by (simp add: eff_run_batch)

lemma R_run_removals: "R s (snd (run_removals out r now removals s))"
proof -
  have "eff (remove_one out r now decision)" for decision
    unfolding remove_one_def by (rule eff_rbind [OF eff_expireOwned]) (simp add: eff_def R_report)
  then show ?thesis
    using R_foldl_keep_going [of "remove_one out r now" "(None, s)" removals] by (simp add: run_removals_def)
qed

lemma R_enforce: "R s (snd (enforce order out r now records s))"
proof -
  let ?ids = "map_of (rev (map (\<lambda>record. (er_ID record, record)) records))"
  have "eff (\<lambda>s2. case run_groups out r ?ids now gs s2 of (Some e, s3) \<Rightarrow> (Inl e, s3)
      | (None, s3) \<Rightarrow> (case run_removals out r now removals s3 of (Some e, s4) \<Rightarrow> (Inl e, s4) | (None, s4) \<Rightarrow> (Inr (), s4)))" for gs removals
    unfolding eff_def
  proof
    fix s2 :: "'l rstate"
    obtain e s3 where g: "run_groups out r ?ids now gs s2 = (e, s3)" by fastforce
    obtain e' s4 where m: "run_removals out r now removals s3 = (e', s4)" by fastforce
    have "R s2 s3" using R_run_groups [of s2 ?ids now gs] g by simp
    moreover have "R s3 s4" using R_run_removals [of s3 now removals] m by simp
    ultimately show "R s2 (snd (case run_groups out r ?ids now gs s2 of (Some e, s3) \<Rightarrow> (Inl e, s3)
      | (None, s3) \<Rightarrow> (case run_removals out r now removals s3 of (Some e, s4) \<Rightarrow> (Inl e, s4) | (None, s4) \<Rightarrow> (Inr (), s4))))"
      using R_trans [of s2 s3 s4] by (cases e; cases e') (simp_all add: g m)
  qed
  then have plan: "eff (rbind (plan_records r now active plan records) (\<lambda>plan s2.
      case run_groups out r ?ids now (sort_cmp (\<lambda>a b. group_order (fst a) (fst b)) (order (rp_groups plan))) s2 of
        (Some e, s3) \<Rightarrow> (Inl e, s3)
      | (None, s3) \<Rightarrow> (case run_removals out r now (rp_removals plan) s3 of (Some e, s4) \<Rightarrow> (Inl e, s4) | (None, s4) \<Rightarrow> (Inr (), s4))))" for active plan
    by (intro eff_rbind eff_plan_records)
  show ?thesis
    unfolding enforce_def Let_def
    by (rule R_rbind) (use eff_recover plan in \<open>auto simp: eff_def R_refl split: sum.splits\<close>)
qed

end

subsection \<open>The database moves by store operations\<close>

definition db_moves :: "'l rstate \<Rightarrow> 'l rstate \<Rightarrow> bool" where
  "db_moves s s' \<longleftrightarrow> store_step\<^sup>*\<^sup>* (rs_db s) (rs_db s') \<and> journalled s \<subseteq> journalled s'"

lemma store_call_tokens:
  "journalled (snd (store_call (MarkDecisionExpired i now) s)) = journalled s"
  "journalled s \<subseteq> journalled (snd (store_call (BeginOperation operation) s))"
  "journalled (snd (store_call (RecordVerifiedOperation token alert now) s)) = journalled s"
  "journalled (snd (store_call (CompleteOperation token now) s)) = journalled s"
  "journalled (snd (store_call (SetOperationStatus token status category now) s)) = journalled s"
proof -
  show "journalled (snd (store_call (MarkDecisionExpired i now) s)) = journalled s"
    by (auto simp: store_call_def journalled_def MarkDecisionExpired_def Let_def)
  show "journalled s \<subseteq> journalled (snd (store_call (BeginOperation operation) s))"
    by (auto simp: store_call_def journalled_def BeginOperation_def split: prod.splits sum.splits if_splits)
  show "journalled (snd (store_call (RecordVerifiedOperation token alert now) s)) = journalled s"
    by (simp add: store_call_def journalled_def RecordVerifiedOperation_def store_verified_def Let_def image_update_where
        split: prod.splits sum.splits if_splits option.splits)
  show "journalled (snd (store_call (CompleteOperation token now) s)) = journalled s"
    by (simp add: store_call_def journalled_def CompleteOperation_def Let_def image_update_where split: prod.splits)
  show "journalled (snd (store_call (SetOperationStatus token status category now) s)) = journalled s"
    by (simp add: store_call_def journalled_def SetOperationStatus_def Let_def image_update_where split: prod.splits)
qed

lemma store_call_moves:
  assumes "\<And>res d d'. f d = (res, d') \<Longrightarrow> store_step d d'"
  shows "store_step (rs_db s) (rs_db (snd (store_call f s)))"
  using assms by (cases "f (rs_db s)") (simp add: store_call_def)

lemma journalled_simps [simp]:
  "journalled (s\<lparr>rs_report := x\<rparr>) = journalled s" "journalled (s\<lparr>rs_out := l\<rparr>) = journalled s"
  "journalled (snd (lapi_call g s)) = journalled s" "rs_db (snd (lapi_call g s)) = rs_db s"
  by (simp_all add: journalled_def lapi_call_def split: prod.splits)

interpretation store_effects: reconcile_effects out r db_moves for out :: "'l outside" and r
proof
  fix s s1 s2 s3 :: "'l rstate"
  show "db_moves s s" by (simp add: db_moves_def)
  show "db_moves s1 s2 \<Longrightarrow> db_moves s2 s3 \<Longrightarrow> db_moves s1 s3" by (auto simp: db_moves_def)
  show "db_moves s1 s2 \<Longrightarrow> journalled s1 \<subseteq> journalled s2" by (simp add: db_moves_def)
  show "db_moves s (s\<lparr>rs_report := x\<rparr>)" for x by (simp add: db_moves_def)
  show "db_moves s (snd (store_call (MarkDecisionExpired i now) s))" for i now
    by (simp add: db_moves_def store_call_tokens r_into_rtranclp store_call_moves store_step.expire)
  show "db_moves s (snd (store_call (BeginOperation operation) s))" for operation
    by (simp add: db_moves_def store_call_tokens r_into_rtranclp store_call_moves store_step.begin_op)
  show "db_moves s (snd (store_call (RecordVerifiedOperation token alert now) s))" for token alert now
    by (simp add: db_moves_def store_call_tokens r_into_rtranclp store_call_moves store_step.record_op)
  show "db_moves s (snd (store_call (CompleteOperation token now) s))" for token now
    by (simp add: db_moves_def store_call_tokens r_into_rtranclp store_call_moves store_step.complete_op)
  show "db_moves s (snd (store_call (SetOperationStatus token status category now) s))" for token status category now
    by (simp add: db_moves_def store_call_tokens r_into_rtranclp store_call_moves store_step.set_status)
  show "db_moves s (snd (lapi_call (GetAlert out i) s))" for i by (simp add: db_moves_def)
  show "db_moves s (snd (lapi_call (FindOperation out name token) s))" for name token by (simp add: db_moves_def)
  show "db_moves s (s\<lparr>rs_out := l\<rparr>)" for l by (simp add: db_moves_def)
  show "db_moves s (snd (lapi_call (CreateAlert out req) s))" for req by (simp add: db_moves_def)
  show "lapi_call (GetAlert out i) s = (Inr remote, s1) \<Longrightarrow> db_moves s (snd (lapi_call (ExpireDecision out j) s1))" for i remote j
    using journalled_simps(3,4) [of "GetAlert out i" s] by (simp add: db_moves_def)
qed

lemma plan_keeps_operations:
  assumes "ApplyEnforcementPlan objects now d = (res, d1)"
  shows "lapi_operations d1 = lapi_operations d"
proof -
  have frame: "lapi_operations y = lapi_operations x" if "object_frame x y" for x y
    using that unfolding object_frame_def by (metis (no_types, lifting) db.ext_inject db.surjective db.update_convs(3,4))
  show ?thesis
    using assms frame [OF plan_steps_frame, of now objects "stale_objects now d" d1]
    by (auto simp: ApplyEnforcementPlan_def stale_objects_def split: if_splits sum.splits)
qed

lemma Run_cases:
  assumes "Run order out r options now running d l = (err, report, d', l')"
  obtains (still) "d' = d" and "l' = l" and "ro_DryRun options \<or> err \<noteq> None"
  | (refused) objects e d1 where "\<not> ro_DryRun options" and "ApplyEnforcementPlan objects now d = (Inl e, d1)"
      and "d' = d1" and "l' = l" and "err = Some ErrState"
  | (enforced) entries objects summary records d1 rep res s where "\<not> ro_DryRun options" and "\<not> ro_OverrideEntries options"
      and "\<not> IsZero now" and "\<not> running"
      and "ListActiveEntries d = Inr entries"
      and "buildObjects entries (ro_Allowlists options) (ro_FeedOrder options) = Inr (objects, summary)"
      and "ApplyEnforcementPlan objects now d = (Inr records, d1)"
      and "enforce order out r now records \<lparr>rs_db = d1, rs_out = l, rs_report = rep\<rparr> = (res, s)"
      and "err = (case res of Inl e \<Rightarrow> Some e | Inr _ \<Rightarrow> None)" and "report = rs_report s" and "d' = rs_db s" and "l' = rs_out s"
proof (cases "running \<or> IsZero now \<or> (ro_OverrideEntries options \<and> \<not> ro_DryRun options)")
  case True
  then show ?thesis using assms by (intro still) (auto simp: Run_def split: if_splits)
next
  case guards: False
  let ?entries = "if ro_OverrideEntries options then Inr (ro_Entries options) else ListActiveEntries d"
  have g: "\<not> running" "\<not> IsZero now" "\<not> (ro_OverrideEntries options \<and> \<not> ro_DryRun options)" using guards by auto
  note run = assms [unfolded Run_def, unfolded if_not_P [OF g(1)] if_not_P [OF g(2)] if_not_P [OF g(3)]]
  show ?thesis
  proof (cases ?entries)
    case (Inl e)
    then show ?thesis using run unfolding Inl by (intro still) auto
  next
    case ent: (Inr entries)
    show ?thesis
    proof (cases "buildObjects entries (ro_Allowlists options) (ro_FeedOrder options)")
      case (Inl e)
      then show ?thesis using run unfolding ent sum.case Inl by (intro still) auto
    next
      case (Inr os)
      obtain objects summary where bo: "buildObjects entries (ro_Allowlists options) (ro_FeedOrder options) = Inr (objects, summary)"
        using Inr by (cases os) simp
      let ?rep = "zero_Report\<lparr>rep_Rejected := sum_RejectedSafety summary\<rparr>"
      show ?thesis
      proof (cases "ro_DryRun options")
        case True
        obtain res rep' where "dryRun r objects ?rep now d = (res, rep')" by fastforce
        then show ?thesis using run True unfolding ent sum.case bo prod.case Let_def by (intro still) (cases res; simp)+
      next
        case False
        obtain plan d1 where pl: "ApplyEnforcementPlan objects now d = (plan, d1)" by fastforce
        show ?thesis
        proof (cases plan)
          case (Inl e)
          then show ?thesis using run False unfolding ent sum.case bo prod.case Let_def by (intro refused [of objects e d1]) (simp_all add: pl)
        next
          case (Inr records)
          let ?s = "\<lparr>rs_db = d1, rs_out = l, rs_report = ?rep\<lparr>rep_Skipped := length (filter (\<lambda>x. \<not> er_Desired x) records)\<rparr>\<rparr>"
          obtain res s where en: "enforce order out r now records ?s = (res, s)" by fastforce
          have no: "\<not> ro_OverrideEntries options" "ListActiveEntries d = Inr entries" using guards False ent by (auto split: if_splits)
          have "(err, report, d', l') = (case res of Inl e \<Rightarrow> (Some e, rs_report s, rs_db s, rs_out s)
              | Inr _ \<Rightarrow> (None, rs_report s, rs_db s, rs_out s))"
            using run False en unfolding ent sum.case bo prod.case Let_def by (simp add: pl Inr)
          then show ?thesis
            using guards no bo False pl Inr en
            by (intro enforced [of entries objects summary records d1 _ res s]) (auto split: sum.splits)
        qed
      qed
    qed
  qed
qed

lemma Run_moves:
  assumes "Run order out r options now running d l = (err, report, d', l')"
  shows "store_step\<^sup>*\<^sup>* d d' \<and> op_token ` set (lapi_operations d) \<subseteq> op_token ` set (lapi_operations d') \<and>
    (store_ok d \<longrightarrow> store_ok d') \<and> (ro_DryRun options \<longrightarrow> d' = d \<and> l' = l)"
proof -
  have "store_step\<^sup>*\<^sup>* d d' \<and> op_token ` set (lapi_operations d) \<subseteq> op_token ` set (lapi_operations d') \<and>
    (ro_DryRun options \<longrightarrow> d' = d \<and> l' = l)"
    using assms
  proof (cases rule: Run_cases)
    case still
    then show ?thesis by simp
  next
    case (refused objects e d1)
    have "store_step d d1" using refused(2) by (rule store_step.plan)
    then show ?thesis using refused plan_keeps_operations [OF refused(2)] by auto
  next
    case (enforced entries objects summary records d1 rep res s)
    have "store_step d d1" using enforced(7) by (rule store_step.plan)
    moreover have "store_step\<^sup>*\<^sup>* d1 d'" "op_token ` set (lapi_operations d1) \<subseteq> op_token ` set (lapi_operations d')"
      using store_effects.R_enforce [of "\<lparr>rs_db = d1, rs_out = l, rs_report = rep\<rparr>" order out r now records] enforced(8,11)
      by (simp_all add: db_moves_def journalled_def)
    ultimately show ?thesis
      using enforced(1) plan_keeps_operations [OF enforced(7)] by (auto intro: converse_rtranclp_into_rtranclp)
  qed
  moreover have "store_ok y" if "store_step\<^sup>*\<^sup>* x y" "store_ok x" for x y
    using that by (induction rule: rtranclp_induct) (auto intro: store_step_ok)
  ultimately show ?thesis by blast
qed

text \<open>
  C4. For every behaviour of the local API, every run of the reconciler, whether it succeeds or
  fails, changes the database by a sequence of store operations only, so it takes a consistent store
  to a consistent store, and it never removes a journalled operation; a dry run changes nothing at all.
\<close>

theorem Run_store_steps:
  assumes "Run order out r options now running d l = (err, report, d', l')"
  shows "store_step\<^sup>*\<^sup>* d d' \<and> op_token ` set (lapi_operations d) \<subseteq> op_token ` set (lapi_operations d') \<and>
    (store_ok d \<longrightarrow> store_ok d') \<and> (ro_DryRun options \<longrightarrow> d' = d \<and> l' = l)"
  using assms by (rule Run_moves)


subsection \<open>The trace of calls\<close>

text \<open>A wrapper of the outside world that logs every call: the argument of a creation and of an
  expiry, and the answer to a read of an alert.\<close>

datatype lapi_event =
    EvCreate CreateRequest
  | EvGet int "(LAPIError, lapi_Alert) result"
  | EvExpire int
  | EvFind string string
  | EvToken

definition logged :: "'l outside \<Rightarrow> ('l \<times> lapi_event list) outside" where
  "logged out =
     \<lparr>CreateAlert = (\<lambda>req (l, evs). case CreateAlert out req l of (res, l') \<Rightarrow> (res, l', evs @ [EvCreate req])),
      GetAlert = (\<lambda>i (l, evs). case GetAlert out i l of (res, l') \<Rightarrow> (res, l', evs @ [EvGet i res])),
      ExpireDecision = (\<lambda>j (l, evs). case ExpireDecision out j l of (res, l') \<Rightarrow> (res, l', evs @ [EvExpire j])),
      FindOperation = (\<lambda>name token (l, evs). case FindOperation out name token l of (res, l') \<Rightarrow>
        (res, l', evs @ [EvFind name token])),
      Token = (\<lambda>(l, evs). case Token out l of (res, l') \<Rightarrow> (res, l', evs @ [EvToken]))\<rparr>"

text \<open>Every expiry directly follows a read whose answer proves that the decision is owned.\<close>

definition guarded :: "Reconciler \<Rightarrow> lapi_event list \<Rightarrow> bool" where
  "guarded r evs \<longleftrightarrow> (\<forall>k j. k < length evs \<and> evs ! k = EvExpire j \<longrightarrow>
     (\<exists>i remote. 0 < k \<and> evs ! (k - 1) = EvGet i (Inr remote) \<and> owned_remote r i remote j))"

definition created_tokens :: "lapi_event list \<Rightarrow> string set" where
  "created_tokens evs = {cr_OperationToken req |req. EvCreate req \<in> set evs}"

lemma guarded_append: "guarded r xs \<Longrightarrow> guarded r ys \<Longrightarrow> guarded r (xs @ ys)"
  unfolding guarded_def
proof (intro allI impI, elim conjE)
  fix k j
  assume xs: "\<forall>k j. k < length xs \<and> xs ! k = EvExpire j \<longrightarrow>
      (\<exists>i remote. 0 < k \<and> xs ! (k - 1) = EvGet i (Inr remote) \<and> owned_remote r i remote j)"
    and ys: "\<forall>k j. k < length ys \<and> ys ! k = EvExpire j \<longrightarrow>
      (\<exists>i remote. 0 < k \<and> ys ! (k - 1) = EvGet i (Inr remote) \<and> owned_remote r i remote j)"
    and k: "k < length (xs @ ys)" "(xs @ ys) ! k = EvExpire j"
  show "\<exists>i remote. 0 < k \<and> (xs @ ys) ! (k - 1) = EvGet i (Inr remote) \<and> owned_remote r i remote j"
  proof (cases "k < length xs")
    case True
    with xs k show ?thesis by (fastforce simp: nth_append)
  next
    case False
    then have "k - length xs < length ys \<and> ys ! (k - length xs) = EvExpire j" using k by (simp add: nth_append)
    with ys obtain i remote where "0 < k - length xs" "ys ! (k - length xs - 1) = EvGet i (Inr remote)" "owned_remote r i remote j"
      by blast
    moreover from this have "\<not> k - 1 < length xs" "k - 1 - length xs = k - length xs - 1" by auto
    ultimately show ?thesis by (auto simp: nth_append)
  qed
qed

lemma guarded_simps [simp]:
  "guarded r []" "guarded r [EvCreate req]" "guarded r [EvGet i res]" "guarded r [EvFind name token]" "guarded r [EvToken]"
  by (auto simp: guarded_def)

lemma guarded_expire: "owned_remote r i remote j \<Longrightarrow> guarded r [EvGet i (Inr remote), EvExpire j]"
  by (auto simp: guarded_def nth_Cons less_Suc_eq split: nat.splits)

lemma created_tokens_simps [simp]:
  "created_tokens [] = {}" "created_tokens (EvCreate req # evs) = insert (cr_OperationToken req) (created_tokens evs)"
  "created_tokens (EvGet i res # evs) = created_tokens evs" "created_tokens (EvExpire j # evs) = created_tokens evs"
  "created_tokens (EvFind name token # evs) = created_tokens evs" "created_tokens (EvToken # evs) = created_tokens evs"
  "created_tokens (xs @ ys) = created_tokens xs \<union> created_tokens ys"
  by (auto simp: created_tokens_def)

definition traced :: "Reconciler \<Rightarrow> ('l \<times> lapi_event list) rstate \<Rightarrow> ('l \<times> lapi_event list) rstate \<Rightarrow> bool" where
  "traced r s s' \<longleftrightarrow> journalled s \<subseteq> journalled s' \<and>
     (\<exists>evs. snd (rs_out s') = snd (rs_out s) @ evs \<and> guarded r evs \<and> created_tokens evs \<subseteq> journalled s')"

lemma tracedI:
  "journalled s \<subseteq> journalled s' \<Longrightarrow> snd (rs_out s') = snd (rs_out s) @ evs \<Longrightarrow> guarded r evs \<Longrightarrow>
   created_tokens evs \<subseteq> journalled s' \<Longrightarrow> traced r s s'"
  unfolding traced_def by blast

lemma traced_trans: "traced r s1 s2 \<Longrightarrow> traced r s2 s3 \<Longrightarrow> traced r s1 s3"
proof -
  assume a: "traced r s1 s2" and b: "traced r s2 s3"
  from a obtain xs where x: "snd (rs_out s2) = snd (rs_out s1) @ xs" "guarded r xs" "created_tokens xs \<subseteq> journalled s2"
    by (auto simp: traced_def)
  from b obtain ys where y: "snd (rs_out s3) = snd (rs_out s2) @ ys" "guarded r ys" "created_tokens ys \<subseteq> journalled s3"
    by (auto simp: traced_def)
  show ?thesis
    using a b x y by (intro tracedI [of _ _ "xs @ ys"]) (auto simp: traced_def guarded_append)
qed

lemma rs_out_store_call [simp]: "rs_out (snd (store_call f s)) = rs_out s"
  by (simp add: store_call_def split: prod.splits)

lemma logged_call:
  "snd (rs_out (snd (lapi_call (CreateAlert (logged out) req) s))) = snd (rs_out s) @ [EvCreate req]"
  "snd (rs_out (snd (lapi_call (GetAlert (logged out) i) s))) = snd (rs_out s) @ [EvGet i (fst (lapi_call (GetAlert (logged out) i) s))]"
  "snd (rs_out (snd (lapi_call (ExpireDecision (logged out) j) s))) = snd (rs_out s) @ [EvExpire j]"
  "snd (rs_out (snd (lapi_call (FindOperation (logged out) name token) s))) = snd (rs_out s) @ [EvFind name token]"
  "Token (logged out) l = (tok, l') \<Longrightarrow> snd l' = snd l @ [EvToken]"
  by (auto simp: lapi_call_def logged_def split: prod.splits)

interpretation trace_effects: reconcile_effects "logged out" r "traced r" for out :: "'l outside" and r
proof
  fix s s1 s2 s3 :: "('l \<times> lapi_event list) rstate"
  show "traced r s s" by (rule tracedI [of _ _ "[]"]) simp_all
  show "traced r s1 s2 \<Longrightarrow> traced r s2 s3 \<Longrightarrow> traced r s1 s3" by (rule traced_trans)
  show "traced r s1 s2 \<Longrightarrow> journalled s1 \<subseteq> journalled s2" by (simp add: traced_def)
  show "traced r s (s\<lparr>rs_report := x\<rparr>)" for x by (rule tracedI [of _ _ "[]"]) simp_all
  note store = tracedI [of _ _ "[]"]
  show "traced r s (snd (store_call (MarkDecisionExpired i now) s))" for i now
    by (rule store) (simp_all add: store_call_tokens)
  show "traced r s (snd (store_call (BeginOperation operation) s))" for operation
    by (rule store) (simp_all add: store_call_tokens)
  show "traced r s (snd (store_call (RecordVerifiedOperation token alert now) s))" for token alert now
    by (rule store) (simp_all add: store_call_tokens)
  show "traced r s (snd (store_call (CompleteOperation token now) s))" for token now
    by (rule store) (simp_all add: store_call_tokens)
  show "traced r s (snd (store_call (SetOperationStatus token status category now) s))" for token status category now
    by (rule store) (simp_all add: store_call_tokens)
  show "traced r s (snd (lapi_call (GetAlert (logged out) i) s))" for i
    by (rule tracedI, simp, rule logged_call) simp_all
  show "traced r s (snd (lapi_call (FindOperation (logged out) name token) s))" for name token
    by (rule tracedI, simp, rule logged_call) simp_all
  show "Token (logged out) (rs_out s) = (tok, l) \<Longrightarrow> traced r s (s\<lparr>rs_out := l\<rparr>)" for tok l
    by (rule tracedI [of _ _ "[EvToken]"]) (simp_all add: logged_call(5))
  show "cr_OperationToken req \<in> journalled s \<Longrightarrow> traced r s (snd (lapi_call (CreateAlert (logged out) req) s))" for req
    by (rule tracedI, simp, rule logged_call) simp_all
  show "lapi_call (GetAlert (logged out) i) s = (Inr remote, s1) \<Longrightarrow> owned_remote r i remote j \<Longrightarrow>
      traced r s (snd (lapi_call (ExpireDecision (logged out) j) s1))" for i remote j
    using logged_call(2) [of out i s] journalled_simps(3) [of "GetAlert (logged out) i" s]
    by (intro tracedI [of _ _ "[EvGet i (Inr remote), EvExpire j]"]) (auto simp: logged_call(3) guarded_expire)
qed

text \<open>
  C3. The two safety guarantees towards the local API, for every behaviour of the local API and
  every run, whether it succeeds or fails: an alert is only created under a token that is in the journal,
  and a decision is only expired directly after a read of its alert whose answer proves that it is
  a ban this machine placed: the alert has the identifier and machine asked for, and exactly one
  decision with the identifier, of origin \<^verbatim>\<open>crowdshield\<close>.
\<close>

theorem Run_trace_guarded:
  assumes "Run order (logged out) r options now running d (l, []) = (err, report, d', l', evs)"
  shows "(\<forall>req. EvCreate req \<in> set evs \<longrightarrow> cr_OperationToken req \<in> op_token ` set (lapi_operations d')) \<and>
    (\<forall>k j. k < length evs \<and> evs ! k = EvExpire j \<longrightarrow>
      (\<exists>i remote. 0 < k \<and> evs ! (k - 1) = EvGet i (Inr remote) \<and> owned_remote r i remote j)) \<and>
    (ro_DryRun options \<longrightarrow> evs = [])"
proof -
  have "created_tokens evs \<subseteq> op_token ` set (lapi_operations d') \<and> guarded r evs \<and> (ro_DryRun options \<longrightarrow> evs = [])"
    using assms
  proof (cases rule: Run_cases)
    case (enforced entries objects summary records d1 rep res s)
    have "traced r \<lparr>rs_db = d1, rs_out = (l, []), rs_report = rep\<rparr> s"
      using trace_effects.R_enforce [of r "\<lparr>rs_db = d1, rs_out = (l, []), rs_report = rep\<rparr>" order out now records] enforced(8)
      by simp
    then show ?thesis using enforced(1,11,12) by (auto simp: traced_def journalled_def dest!: sym [of "(l', evs)"])
  qed auto
  then show ?thesis by (auto simp: created_tokens_def guarded_def)
qed


subsection \<open>A concrete run\<close>

text \<open>The pending operation of the sample journal is not known to the local API, so the run
  creates its alert and then expires the decision of the alert it replaces.\<close>

definition sample_remote :: lapi_Alert where
  "sample_remote = \<lparr>al_ID = 71, al_MachineID = ''m1'', al_Scenario = ''crowdshield/alpha'',
     al_ScenarioHash = ''crowdshield:'' @ sample_token, al_ScenarioVersion = [], al_Message = [],
     al_Decisions = [\<lparr>ld_ID = 701, ld_Origin = ''crowdshield'', ld_Type = ''ban'', ld_Scope = ''Range'',
       ld_Value = prefix_String (Prefix (Addr4 0x08080800) 25), ld_Duration = ''1h'', ld_Until = [],
       ld_Scenario = ''crowdshield/alpha''\<rparr>]\<rparr>"

definition sample_replaced :: lapi_Alert where
  "sample_replaced = sample_remote\<lparr>al_ID := 70, al_Decisions := map (ld_ID_update (\<lambda>_. 700)) (al_Decisions sample_remote)\<rparr>"

definition sample_outside :: "unit outside" where
  "sample_outside = \<lparr>CreateAlert = (\<lambda>_ l. (Inr 71, l)), 
     GetAlert = (\<lambda>i l. (Inr (if i = 71 then sample_remote else sample_replaced), l)),
     ExpireDecision = (\<lambda>_ l. (Inr (), l)), FindOperation = (\<lambda>_ _ l. (Inr None, l)), Token = (\<lambda>l. (Some sample_token, l))\<rparr>"

definition sample_reconciler :: Reconciler where
  "sample_reconciler = \<lparr>rc_machineID = ''m1'', rc_duration = 4 * hour, rc_refreshBefore = hour, rc_batchSize = 100\<rparr>"

definition sample_options :: RunOptions where
  "sample_options = \<lparr>ro_Allowlists = [], ro_FeedOrder = (\<lambda>_. None), ro_DryRun = False, ro_OverrideEntries = False, ro_Entries = []\<rparr>"

lemma sample_journal_store_ok: "store_ok sample_journal"
  using sample_store_ok sample_journal_ok
  by (simp add: store_ok_def feeds_ok_def sample_journal_def)
    (simp add: runs_ok_def runtime_ok_def sample_store_def empty_db_def)

theorem Run_store_steps_witness:
  "\<exists>err report d' l'. Run id sample_outside sample_reconciler sample_options (2000 * second) False sample_journal () = (err, report, d', l') \<and>
     store_ok d' \<and> sample_token \<in> op_token ` set (lapi_operations d')"
proof -
  obtain err report d' l' where
    run: "Run id sample_outside sample_reconciler sample_options (2000 * second) False sample_journal () = (err, report, d', l')"
    by (metis prod_cases4)
  have "sample_token \<in> op_token ` set (lapi_operations sample_journal)" by (simp add: sample_journal_def)
  with run Run_store_steps [OF run] sample_journal_store_ok show ?thesis by blast
qed

theorem Run_trace_guarded_witness:
  "\<exists>err report d' l' evs. Run id (logged sample_outside) sample_reconciler sample_options (2000 * second) False sample_journal ((), []) =
       (err, report, d', l', evs) \<and>
     (\<forall>req. EvCreate req \<in> set evs \<longrightarrow> cr_OperationToken req \<in> op_token ` set (lapi_operations d'))"
proof -
  obtain err report d' l' evs where
    run: "Run id (logged sample_outside) sample_reconciler sample_options (2000 * second) False sample_journal ((), []) = (err, report, d', l', evs)"
    by (metis prod_cases5)
  from run Run_trace_guarded [OF run] show ?thesis by blast
qed

end
