(* ===== verification/Syncer_Facts.thy ===== *)
theory Syncer_Facts
  imports Syncer Reconcile_Effects
begin

text \<open>
  What a synchronization guarantees: it changes the database by store operations only, accounts for
  every selected feed, fails closed (a feed that did not succeed keeps its entries), and a preview
  reports the same outcome for every feed as the real run.
\<close>

subsection \<open>One feed\<close>

lemma sync_feed_cases:
  assumes "sync_feed e feedName now records changed c s = (err, s')"
  obtains (skipped) "\<not> selected feedName c" and "err = None" and "s' = s"
  | (not_due) "selected feedName c" and "err = None" and "s' = s\<lparr>ss_report := report_not_due (fc_Name c) (ss_report s)\<rparr>"
  | (failure) category nextAttempt res l where "selected feedName c"
      and "RecordFeedFailure (fc_Name c) category now nextAttempt (ss_db s) = (res, ss_db s')" and "ss_out s' = l"
      and "case res of Inl _ \<Rightarrow> err = Some SyncErrState \<and> ss_report s' = ss_report s
        | Inr _ \<Rightarrow> err = None \<and> ss_report s' = report_failed (fc_Name c) category (ss_report s)"
  | (unchanged) etag modified previous res where "selected feedName c"
      and "RecordFeedNotModified (fc_Name c) etag modified now (ss_db s) = (res, ss_db s')"
      and "case res of Inl _ \<Rightarrow> err = Some SyncErrState \<and> ss_report s' = ss_report s
        | Inr _ \<Rightarrow> err = None \<and> ss_report s' = report_unchanged c previous (ss_report s)"
  | (snapshot) snap grace snapshot rejectedCount res where "selected feedName c"
      and "ApplyFeedSnapshot (fc_Name c) snap grace now (ss_db s) = (res, ss_db s')"
      and "case res of Inl _ \<Rightarrow> err = Some SyncErrState \<and> ss_report s' = ss_report s
        | Inr _ \<Rightarrow> err = None \<and> ss_report s' = report_succeeded (fc_Name c) snapshot rejectedCount (ss_report s)"
proof (cases "\<not> selected feedName c")
  case True
  then show thesis using assms skipped by (simp add: sync_feed_def)
next
  case sel: False
  let ?stored = "named_record records (fc_Name c)" and ?changed = "changed (fc_Name c)"
  show thesis
  proof (cases "feed_not_due now c ?stored ?changed")
    case True
    then show thesis using assms sel not_due by (simp add: sync_feed_def Let_def)
  next
    case due: False
    obtain x l where x: "download_feed e c ?stored ?changed now (ss_out s) = (x, l)" by (rule prod.exhaust)
    note run = assms [unfolded sync_feed_def Let_def, simplified sel due x, simplified]
    show thesis
    proof (cases x)
      case (DownloadFailed cause)
      let ?until = "now + retryDelay (sch_Retry (cfg_Schedule (eng_Config e))) (frec_ConsecutiveFailures ?stored) (RetryAfter cause)"
      obtain res d1 where f: "RecordFeedFailure (fc_Name c) (feedFailureCategory cause) now ?until (ss_db s) = (res, d1)" by (rule prod.exhaust)
      then show thesis
        using run DownloadFailed sel
        by (intro failure [of "feedFailureCategory cause" ?until res l]) (auto simp: recordFeedFailure_def Let_def split: sum.splits)
    next
      case (DownloadUnchanged result)
      obtain res d1 where "RecordFeedNotModified (fc_Name c) (frs_ETag result) (frs_LastModified result) now (ss_db s) = (res, d1)" by (rule prod.exhaust)
      then show thesis
        using run DownloadUnchanged sel
        by (intro unchanged [of "frs_ETag result" "frs_LastModified result" res ?stored]) (auto split: sum.splits)
    next
      case (DownloadNew result snapshot rejectedCount)
      let ?snap = "\<lparr>fs_Version = snp_Version snapshot, fs_ETag = frs_ETag result, fs_LastModified = frs_LastModified result,
        fs_Entries = snp_Entries snapshot, fs_Rejected = rejectedCount\<rparr>" and ?grace = "dec_MissingGraceRuns (cfg_Decisions (eng_Config e))"
      obtain res d1 where "ApplyFeedSnapshot (fc_Name c) ?snap ?grace now (ss_db s) = (res, d1)" by (rule prod.exhaust)
      then show thesis
        using run DownloadNew sel
        by (intro snapshot [of ?snap ?grace res snapshot rejectedCount]) (auto split: sum.splits)
    qed
  qed
qed

lemma sync_feed_moves:
  assumes "sync_feed e feedName now records changed c s = (err, s')"
  shows "store_step\<^sup>*\<^sup>* (ss_db s) (ss_db s')"
  using assms
  by (cases rule: sync_feed_cases)
    (auto intro: store_step.failure store_step.not_modified store_step.snapshot)

subsection \<open>The report\<close>

definition status_count :: "FeedStatus \<Rightarrow> sync_Report \<Rightarrow> nat" where
  "status_count st rep = length (filter (\<lambda>x. sfr_Status x = st) (syn_Feeds rep))"

definition counted :: "sync_Report \<Rightarrow> bool" where
  "counted rep \<longleftrightarrow> syn_FeedsSucceeded rep = status_count FeedSucceeded rep \<and> syn_FeedsFailed rep = status_count FeedFailed rep \<and>
     syn_FeedsUnchanged rep = status_count FeedUnchanged rep \<and> syn_FeedsNotDue rep = status_count FeedNotDue rep"

abbreviation reported :: "sync_Report \<Rightarrow> string list" where
  "reported rep \<equiv> map sfr_Name (syn_Feeds rep)"

definition succeeded :: "sync_Report \<Rightarrow> string set" where
  "succeeded rep = sfr_Name ` set (filter (\<lambda>x. sfr_Status x = FeedSucceeded) (syn_Feeds rep))"

lemmas report_defs = report_not_due_def report_failed_def report_unchanged_def report_succeeded_def

lemma counted_simps [simp]:
  "counted zero_sync_Report" "counted (rep\<lparr>syn_Reconcile := x\<rparr>) = counted rep"
  "counted rep \<Longrightarrow> counted (report_not_due name rep)" "counted rep \<Longrightarrow> counted (report_failed name category rep)"
  "counted rep \<Longrightarrow> counted (report_unchanged c r rep)" "counted rep \<Longrightarrow> counted (report_succeeded name snap n rep)"
  by (simp_all add: counted_def status_count_def report_defs zero_sync_Report_def)

lemma reported_simps [simp]:
  "reported (report_not_due name rep) = reported rep @ [name]" "reported (report_failed name category rep) = reported rep @ [name]"
  "reported (report_unchanged c r rep) = reported rep @ [fc_Name c]" "reported (report_succeeded name snap n rep) = reported rep @ [name]"
  "syn_Feeds zero_sync_Report = []"
  by (simp_all add: report_defs zero_sync_Report_def)

lemma succeeded_simps [simp]:
  "succeeded zero_sync_Report = {}" "succeeded (rep\<lparr>syn_Reconcile := x\<rparr>) = succeeded rep"
  "succeeded (report_not_due name rep) = succeeded rep" "succeeded (report_failed name category rep) = succeeded rep"
  "succeeded (report_unchanged c r rep) = succeeded rep" "succeeded (report_succeeded name snap n rep) = insert name (succeeded rep)"
  by (simp_all add: succeeded_def report_defs zero_sync_Report_def)

lemma sync_feed_report:
  assumes "sync_feed e feedName now records changed c s = (err, s')" and "counted (ss_report s)"
  shows "counted (ss_report s') \<and> succeeded (ss_report s) \<subseteq> succeeded (ss_report s') \<and>
    (err = None \<or> err = Some SyncErrState) \<and>
    reported (ss_report s') = reported (ss_report s) @ (if err = None \<and> selected feedName c then [fc_Name c] else [])"
  using assms by (cases rule: sync_feed_cases) (auto split: sum.splits)

lemma sync_feeds_report:
  assumes "sync_feeds e feedName now records changed cs s = (err, s')" and "counted (ss_report s)"
  shows "counted (ss_report s') \<and> (err = None \<or> err = Some SyncErrState) \<and>
    (\<exists>rest. reported (ss_report s) @ map fc_Name (filter (selected feedName) cs) = reported (ss_report s') @ rest \<and> (err = None \<longrightarrow> rest = []))"
  using assms
proof (induction cs arbitrary: s)
  case (Cons c cs)
  obtain err1 s1 where one: "sync_feed e feedName now records changed c s = (err1, s1)" by (rule prod.exhaust)
  note r = sync_feed_report [OF one Cons.prems(2)]
  show ?case
  proof (cases err1)
    case None
    then have "sync_feeds e feedName now records changed cs s1 = (err, s')" using Cons.prems(1) one by simp
    from Cons.IH [OF this] r None show ?thesis by (auto split: if_splits)
  next
    case (Some x)
    then show ?thesis using Cons.prems(1) one r by (auto split: if_splits)
  qed
qed auto

lemma sync_feeds_moves:
  "sync_feeds e feedName now records changed cs s = (err, s') \<Longrightarrow> store_step\<^sup>*\<^sup>* (ss_db s) (ss_db s')"
proof (induction cs arbitrary: s)
  case (Cons c cs)
  obtain err1 s1 where one: "sync_feed e feedName now records changed c s = (err1, s1)" by (rule prod.exhaust)
  note m = sync_feed_moves [OF one]
  show ?case
  proof (cases err1)
    case None
    then have "sync_feeds e feedName now records changed cs s1 = (err, s')" using Cons.prems one by simp
    from Cons.IH [OF this] m show ?thesis by (rule rtranclp_trans [rotated])
  qed (use Cons.prems one m in simp)
qed simp

lemma dry_feed_report:
  assumes "counted (ds_report s)"
  shows "counted (ds_report (dry_feed e feedName now plan c s)) \<and>
    reported (ds_report (dry_feed e feedName now plan c s)) = reported (ds_report s) @ (if selected feedName c then [fc_Name c] else [])"
  using assms by (simp add: dry_feed_def Let_def split: prod.splits download.splits)

lemma dry_feeds_report:
  "counted (ds_report s) \<Longrightarrow> counted (ds_report (foldl (\<lambda>s c. dry_feed e feedName now plan c s) s cs)) \<and>
   reported (ds_report (foldl (\<lambda>s c. dry_feed e feedName now plan c s) s cs)) =
     reported (ds_report s) @ map fc_Name (filter (selected feedName) cs)"
proof (induction cs arbitrary: s)
  case (Cons c cs)
  then show ?case using dry_feed_report [of s e feedName now plan c] by (auto split: if_splits)
qed simp

lemma reconcile_run_report:
  assumes "reconcile_run e options s = (err, rep, d', l')" and "counted (ss_report s)"
  shows "counted rep \<and> syn_Feeds rep = syn_Feeds (ss_report s) \<and> err \<in> {None, Some SyncErrDegraded, Some SyncErrReconcile} \<and>
    (err = None \<longrightarrow> syn_FeedsFailed rep = 0) \<and> (err = Some SyncErrDegraded \<longrightarrow> 0 < syn_FeedsFailed rep) \<and>
    store_step\<^sup>*\<^sup>* (ss_db s) d' \<and> (ro_DryRun options \<longrightarrow> d' = ss_db s)"
proof -
  obtain e1 r1 d1 l1 where run: "Run (eng_Order e) (eng_LAPI e) (eng_Reconciler e) options (eng_ReconcileNow e) (eng_ReconcileBusy e)
      (ss_db s) (ss_out s) = (e1, r1, d1, l1)" by (rule prod_cases4)
  from Run_moves [OF run] assms show ?thesis by (auto simp: reconcile_run_def run Let_def split: if_splits)
qed

subsection \<open>The run as a whole\<close>

abbreviation dry_loop :: "'l engine \<Rightarrow> string \<Rightarrow> gotime \<Rightarrow> dry_plan \<Rightarrow> StoredEntry list \<Rightarrow> 'l \<Rightarrow> 'l dry_state" where
  "dry_loop e feedName now plan entries l \<equiv> foldl (\<lambda>s c. dry_feed e feedName now plan c s)
     \<lparr>ds_report = zero_sync_Report, ds_entries = filter (\<lambda>entry. se_FeedName entry \<in> set (dp_enabled plan)) entries, ds_out = l\<rparr>
     (cfg_Feeds (eng_Config e))"

lemma dry_loop_report:
  "counted (ds_report (dry_loop e feedName now plan entries l))"
  "reported (ds_report (dry_loop e feedName now plan entries l)) = map fc_Name (filter (selected feedName) (cfg_Feeds (eng_Config e)))"
  using dry_feeds_report [of "\<lparr>ds_report = zero_sync_Report,
      ds_entries = filter (\<lambda>entry. se_FeedName entry \<in> set (dp_enabled plan)) entries, ds_out = l\<rparr>" e feedName now plan]
  by simp_all

lemma engine_Run_cases:
  assumes "engine_Run e options now d l = (err, rep, d', l')"
  obtains (early) "rep = zero_sync_Report" and "l' = l" and "d' = d" and "err \<in> {Some SyncErrConfig, Some SyncErrState, Some SyncErrSelection}"
  | (dry) records entries plan where "sro_DryRun options" and "ListFeeds d = Inr records" and "ListActiveEntries d = Inr entries"
      and "dry_plan_steps (eng_Marshal e) 0 (cfg_Feeds (eng_Config e))
        \<lparr>dp_records = byName records, dp_nextID = next_feed_id records, dp_enabled = [], dp_order = Map.empty, dp_changed = (\<lambda>_. False)\<rparr> = Some plan"
      and "reconcile_run e
        \<lparr>ro_Allowlists = cfg_Allowlists (eng_Config e), ro_FeedOrder = dp_order plan, ro_DryRun = True, ro_OverrideEntries = True,
         ro_Entries = ds_entries (dry_loop e (sro_FeedName options) now plan entries l)\<rparr>
        \<lparr>ss_report = ds_report (dry_loop e (sro_FeedName options) now plan entries l), ss_db = d,
         ss_out = ds_out (dry_loop e (sro_FeedName options) now plan entries l)\<rparr> = (err, rep, d', l')"
  | (real) definitions previous records d1 x s where "\<not> sro_DryRun options" and "\<not> IsZero now \<and> selectedFeedExists (eng_Config e) (sro_FeedName options)"
      and "feedDefinitions (eng_Marshal e) (cfg_Feeds (eng_Config e)) = Some definitions" and "ListFeeds d = Inr previous"
      and "EnsureFeeds definitions now d = (Inr records, d1)"
      and "sync_feeds e (sro_FeedName options) now (byName records) (changed_names (byName previous) definitions)
        (cfg_Feeds (eng_Config e)) \<lparr>ss_report = zero_sync_Report, ss_db = d1, ss_out = l\<rparr> = (x, s)"
      and "case x of Some y \<Rightarrow> (err, rep, d', l') = (Some y, ss_report s, ss_db s, ss_out s)
        | None \<Rightarrow> reconcile_run e \<lparr>ro_Allowlists = cfg_Allowlists (eng_Config e), ro_FeedOrder = feed_order records, ro_DryRun = False,
            ro_OverrideEntries = False, ro_Entries = []\<rparr> s = (err, rep, d', l')"
proof (cases "IsZero now \<or> \<not> selectedFeedExists (eng_Config e) (sro_FeedName options)")
  case True
  then show thesis using assms by (intro early) (auto simp: engine_Run_def split: if_splits)
next
  case ok: False
  show thesis
  proof (cases "sro_DryRun options")
    case True
    obtain records where rs: "ListFeeds d = Inr records" by (simp add: ListFeeds_def)
    note run = assms [unfolded engine_Run_def runDry_def, simplified ok True rs, simplified]
    show thesis
    proof (cases "ListActiveEntries d")
      case (Inl x)
      then show thesis using run ok True by (intro early) auto
    next
      case (Inr entries)
      show thesis
      proof (cases "dry_plan_steps (eng_Marshal e) 0 (cfg_Feeds (eng_Config e))
          \<lparr>dp_records = byName records, dp_nextID = next_feed_id records, dp_enabled = [], dp_order = Map.empty, dp_changed = (\<lambda>_. False)\<rparr>")
        case None
        then show thesis using run ok True Inr by (intro early) auto
      next
        case (Some plan)
        then show thesis using run ok True Inr by (intro dry [OF True rs Inr Some]) (simp add: Let_def)
      qed
    qed
  next
    case False
    show thesis
    proof (cases "feedDefinitions (eng_Marshal e) (cfg_Feeds (eng_Config e))")
      case None
      then show thesis using assms ok False by (intro early) (auto simp: engine_Run_def)
    next
      case (Some definitions)
      obtain previous where prev: "ListFeeds d = Inr previous" by (simp add: ListFeeds_def)
      obtain res d1 where en: "EnsureFeeds definitions now d = (res, d1)" by (rule prod.exhaust)
      note run = assms [unfolded engine_Run_def, simplified ok False Some prev en, simplified]
      show thesis
      proof (cases res)
        case (Inl y)
        then have "d1 = d" using en by (auto simp: EnsureFeeds_def Let_def split: if_splits sum.splits)
        then show thesis using run ok False Some prev en Inl by (intro early) auto
      next
        case (Inr records)
        obtain x s where s: "sync_feeds e (sro_FeedName options) now (byName records) (changed_names (byName previous) definitions)
          (cfg_Feeds (eng_Config e)) \<lparr>ss_report = zero_sync_Report, ss_db = d1, ss_out = l\<rparr> = (x, s)" by (rule prod.exhaust)
        show thesis
          using run ok False Some prev en Inr s
          by (intro real [OF False _ Some prev en [unfolded Inr] s]) (auto split: option.splits)
      qed
    qed
  qed
qed

lemma store_steps_ok: "store_step\<^sup>*\<^sup>* x y \<Longrightarrow> store_ok x \<Longrightarrow> store_ok y"
  by (induction rule: rtranclp_induct) (auto intro: store_step_ok)

lemma engine_Run_moves:
  assumes "engine_Run e options now d l = (err, rep, d', l')"
  shows "store_step\<^sup>*\<^sup>* d d' \<and> (sro_DryRun options \<longrightarrow> d' = d)"
  using assms
proof (cases rule: engine_Run_cases)
  case (dry records entries plan)
  from reconcile_run_report [OF dry(5)] show ?thesis by (simp add: dry_loop_report)
next
  case (real definitions previous records d1 x s)
  have "store_step\<^sup>*\<^sup>* d (ss_db s)"
    using store_step.ensure [OF real(5)] sync_feeds_moves [OF real(6)] by (simp add: converse_rtranclp_into_rtranclp)
  show ?thesis
  proof (cases x)
    case None
    then have "store_step\<^sup>*\<^sup>* (ss_db s) d'"
      using real(7) sync_feeds_report [OF real(6)] reconcile_run_report [of e _ s err rep d' l'] by auto
    with \<open>store_step\<^sup>*\<^sup>* d (ss_db s)\<close> real(1) show ?thesis by auto
  qed (use \<open>store_step\<^sup>*\<^sup>* d (ss_db s)\<close> real(1,7) in auto)
qed simp

text \<open>
  C11. A synchronization, for every behaviour of the fetcher and of the local API and whether it succeeds
  or fails, changes the database by store operations only and so keeps a consistent store consistent; a
  preview changes nothing. Its counters agree with its list of feeds, which follows the selected feeds in
  their order; unless the store refused an operation every selected feed is in it exactly once; and it
  returns no error only if no feed failed.
\<close>

theorem engine_Run_store_steps:
  assumes "engine_Run e options now d l = (err, rep, d', l')"
  shows "store_step\<^sup>*\<^sup>* d d' \<and> (store_ok d \<longrightarrow> store_ok d') \<and> (sro_DryRun options \<longrightarrow> d' = d) \<and> counted rep \<and>
    (\<exists>rest. map fc_Name (filter (selected (sro_FeedName options)) (cfg_Feeds (eng_Config e))) = map sfr_Name (syn_Feeds rep) @ rest \<and>
      (err \<in> {None, Some SyncErrDegraded, Some SyncErrReconcile} \<longrightarrow> rest = [])) \<and>
    (err = None \<longrightarrow> syn_FeedsFailed rep = 0) \<and> (err = Some SyncErrDegraded \<longrightarrow> 0 < syn_FeedsFailed rep)"
  using assms
proof (cases rule: engine_Run_cases)
  case early
  then show ?thesis by auto
next
  case (dry records entries plan)
  note rr = reconcile_run_report [OF dry(5)]
  have "counted rep" "reported rep = map fc_Name (filter (selected (sro_FeedName options)) (cfg_Feeds (eng_Config e)))"
    "d' = d" "err = None \<longrightarrow> syn_FeedsFailed rep = 0" "err = Some SyncErrDegraded \<longrightarrow> 0 < syn_FeedsFailed rep"
    using rr by (simp_all add: dry_loop_report)
  then show ?thesis by simp
next
  case (real definitions previous records d1 x s)
  have moves: "store_step\<^sup>*\<^sup>* d d'" using engine_Run_moves [OF assms] by blast
  note sr = sync_feeds_report [OF real(6), simplified]
  show ?thesis
  proof (cases x)
    case None
    then have "reconcile_run e \<lparr>ro_Allowlists = cfg_Allowlists (eng_Config e), ro_FeedOrder = feed_order records, ro_DryRun = False,
        ro_OverrideEntries = False, ro_Entries = []\<rparr> s = (err, rep, d', l')" using real(7) by simp
    from reconcile_run_report [OF this] sr None moves store_steps_ok [OF moves] real(1) show ?thesis by auto
  next
    case (Some y)
    then show ?thesis using real(1,7) sr moves store_steps_ok [OF moves] by auto
  qed
qed

subsection \<open>Failing closed\<close>

text \<open>The reconciler never touches the feeds and their entries: a third relation for its contract.\<close>

definition feeds_untouched :: "'l rstate \<Rightarrow> 'l rstate \<Rightarrow> bool" where
  "feeds_untouched s s' \<longleftrightarrow> feeds (rs_db s') = feeds (rs_db s) \<and> feed_entries (rs_db s') = feed_entries (rs_db s) \<and>
     journalled s \<subseteq> journalled s'"

lemma journal_frame_feeds:
  assumes "journal_frame d d'"
  shows "feeds d' = feeds d" and "feed_entries d' = feed_entries d"
proof -
  have d': "d' = d\<lparr>lapi_alerts := lapi_alerts d', lapi_decisions := lapi_decisions d',
      lapi_operations := lapi_operations d', lapi_operation_items := lapi_operation_items d'\<rparr>"
    using assms by (simp only: journal_frame_def)
  show "feeds d' = feeds d" using arg_cong [OF d', of feeds] by simp
  show "feed_entries d' = feed_entries d" using arg_cong [OF d', of feed_entries] by simp
qed

lemma store_call_untouched:
  assumes "\<And>d res d'. f d = (res, d') \<Longrightarrow> journal_frame d d'" and "journalled s \<subseteq> journalled (snd (store_call f s))"
  shows "feeds_untouched s (snd (store_call f s))"
proof -
  obtain res d' where f: "f (rs_db s) = (res, d')" by (rule prod.exhaust)
  from journal_frame_feeds [OF assms(1) [OF f]] assms(2) show ?thesis by (simp add: feeds_untouched_def store_call_def f)
qed

interpretation feed_effects: reconcile_effects out r feeds_untouched for out :: "'l outside" and r
proof
  fix s s1 s2 s3 :: "'l rstate"
  show "feeds_untouched s s" by (simp add: feeds_untouched_def)
  show "feeds_untouched s1 s2 \<Longrightarrow> feeds_untouched s2 s3 \<Longrightarrow> feeds_untouched s1 s3" by (auto simp: feeds_untouched_def)
  show "feeds_untouched s1 s2 \<Longrightarrow> journalled s1 \<subseteq> journalled s2" by (simp add: feeds_untouched_def)
  show "feeds_untouched s (s\<lparr>rs_report := x\<rparr>)" for x by (simp add: feeds_untouched_def)
  show "feeds_untouched s (s\<lparr>rs_out := l\<rparr>)" for l by (simp add: feeds_untouched_def)
  show "feeds_untouched s (snd (lapi_call (GetAlert out i) s))" for i by (simp add: feeds_untouched_def)
  show "feeds_untouched s (snd (lapi_call (FindOperation out name token) s))" for name token by (simp add: feeds_untouched_def)
  show "feeds_untouched s (snd (lapi_call (CreateAlert out req) s))" for req by (simp add: feeds_untouched_def)
  show "lapi_call (GetAlert out i) s = (Inr remote, s1) \<Longrightarrow> feeds_untouched s (snd (lapi_call (ExpireDecision out j) s1))" for i remote j
    using journalled_simps(3,4) [of "GetAlert out i" s] by (simp add: feeds_untouched_def)
qed (auto intro!: store_call_untouched intro: journal_frames RecordVerifiedOperation_frame simp: store_call_tokens(1,3-5) dest: subsetD [OF store_call_tokens(2)])

lemma plan_keeps_feeds:
  assumes "ApplyEnforcementPlan objects now d = (res, d1)"
  shows "feeds d1 = feeds d \<and> feed_entries d1 = feed_entries d"
proof -
  have frame: "feeds y = feeds x \<and> feed_entries y = feed_entries x" if "object_frame x y" for x y
    using that unfolding object_frame_def by (metis (no_types, lifting) db.ext_inject db.surjective db.update_convs(3,4))
  show ?thesis
    using assms frame [OF plan_steps_frame, of now objects "stale_objects now d" d1]
    by (auto simp: ApplyEnforcementPlan_def stale_objects_def split: if_splits sum.splits)
qed

lemma Run_keeps_feeds:
  assumes "Run order out r options now running d l = (err, report, d', l')"
  shows "feeds d' = feeds d \<and> feed_entries d' = feed_entries d"
  using assms
proof (cases rule: Run_cases)
  case (enforced entries objects summary records d1 rep res s)
  have "feeds_untouched \<lparr>rs_db = d1, rs_out = l, rs_report = rep\<rparr> s"
    using feed_effects.R_enforce [of "\<lparr>rs_db = d1, rs_out = l, rs_report = rep\<rparr>" order out r now records] enforced(8) by simp
  then show ?thesis using plan_keeps_feeds [OF enforced(7)] enforced(11) by (simp add: feeds_untouched_def)
qed (auto dest: plan_keeps_feeds)

text \<open>Feeds keep their keys, and the entries change only for the named feeds.\<close>

definition kept_except :: "string set \<Rightarrow> db \<Rightarrow> db \<Rightarrow> bool" where
  "kept_except names d d' \<longleftrightarrow> feed_key ` set (feeds d) \<subseteq> feed_key ` set (feeds d') \<and>
     (\<forall>f \<in> set (feeds d). f_name f \<notin> names \<longrightarrow>
       (\<forall>k. fst k = f_id f \<longrightarrow> row_at entry_key (feed_entries d') k = row_at entry_key (feed_entries d) k))"

lemma kept_except_refl [simp]: "kept_except names d d"
  by (simp add: kept_except_def)

lemma kept_except_trans:
  assumes "kept_except a d d1" and "kept_except b d1 d2" and "a \<subseteq> b"
  shows "kept_except b d d2"
  unfolding kept_except_def
proof (intro conjI ballI impI allI)
  show "feed_key ` set (feeds d) \<subseteq> feed_key ` set (feeds d2)" using assms(1,2) unfolding kept_except_def by (meson subset_trans)
  fix f and k :: "int \<times> string \<times> int"
  assume f: "f \<in> set (feeds d)" "f_name f \<notin> b" and k: "fst k = f_id f"
  then obtain f1 where f1: "f1 \<in> set (feeds d1)" "feed_key f1 = feed_key f"
    using assms(1) by (force simp: kept_except_def)
  have "row_at entry_key (feed_entries d1) k = row_at entry_key (feed_entries d) k"
    using assms(1,3) f k unfolding kept_except_def by blast
  moreover have "row_at entry_key (feed_entries d2) k = row_at entry_key (feed_entries d1) k"
    using assms(2) f1 f(2) k unfolding kept_except_def by (metis prod.inject)
  ultimately show "row_at entry_key (feed_entries d2) k = row_at entry_key (feed_entries d) k" by simp
qed

lemma kept_except_mono: "kept_except a d d' \<Longrightarrow> a \<subseteq> b \<Longrightarrow> kept_except b d d'"
  using kept_except_trans [of a d d' b d'] by simp

lemma kept_except_same: "feed_frame d d' \<Longrightarrow> feed_entries d' = feed_entries d \<Longrightarrow> kept_except names d d'"
  by (auto simp: kept_except_def feed_frame_def)

lemma ApplyFeedSnapshot_kept:
  assumes "ApplyFeedSnapshot name snap grace now d = (res, d')" and "feeds_ok d"
  shows "kept_except (case res of Inl _ \<Rightarrow> {} | Inr _ \<Rightarrow> {name}) d d'"
proof (cases res)
  case (Inl x)
  then have "d' = d" using assms(1) by (auto simp: ApplyFeedSnapshot_def Let_def split: if_splits option.splits sum.splits)
  then show ?thesis by simp
next
  case (Inr x)
  then obtain f where f: "select_feed d name = Some f"
    using assms(1) by (auto simp: ApplyFeedSnapshot_def split: if_splits option.splits)
  have "row_at entry_key (feed_entries d') k = row_at entry_key (feed_entries d) k"
    if "g \<in> set (feeds d)" "f_name g \<noteq> name" "fst k = f_id g" for g k
  proof -
    have "f_id g \<noteq> f_id f"
      using that(1,2) select_feed_mem [OF f] assms(2) distinct_key_eq [of f_id "feeds d" g f] by (auto simp: feeds_ok_def)
    then show ?thesis using ApplyFeedSnapshot_row_at [OF assms(1) [unfolded Inr] f, of k] that(3) by simp
  qed
  then show ?thesis using ApplyFeedSnapshot_frame [OF assms(1)] Inr by (simp add: kept_except_def feed_frame_def)
qed

lemma sync_feed_kept:
  assumes "sync_feed e feedName now records changed c s = (err, s')" and "feeds_ok (ss_db s)" and "counted (ss_report s)"
  shows "kept_except (succeeded (ss_report s')) (ss_db s) (ss_db s') \<and> feeds_ok (ss_db s')"
  using assms(1)
proof (cases rule: sync_feed_cases)
  case (failure category nextAttempt res l)
  from RecordFeedFailure_feeds_ok [OF assms(2) failure(2)] RecordFeedFailure_frame [OF failure(2)] show ?thesis
    by (simp add: kept_except_same)
next
  case (unchanged etag modified previous res)
  from RecordFeedNotModified_feeds_ok [OF assms(2) unchanged(2)] RecordFeedNotModified_frame [OF unchanged(2)] show ?thesis
    by (simp add: kept_except_same)
next
  case (snapshot snap grace snapshot rejectedCount res)
  show ?thesis
  proof (cases res)
    case (Inl x)
    then have "ss_db s' = ss_db s"
      using snapshot(2) by (auto simp: ApplyFeedSnapshot_def Let_def split: if_splits option.splits sum.splits)
    then show ?thesis using assms(2) by simp
  next
    case (Inr x)
    then show ?thesis
      using ApplyFeedSnapshot_kept [OF snapshot(2) assms(2)] ApplyFeedSnapshot_feeds_ok [OF assms(2)] snapshot(2,3)
      by (auto intro: kept_except_mono)
  qed
qed (use assms(2) in auto)

lemma sync_feeds_kept:
  assumes "sync_feeds e feedName now records changed cs s = (err, s')" and "feeds_ok (ss_db s)" and "counted (ss_report s)"
  shows "kept_except (succeeded (ss_report s')) (ss_db s) (ss_db s') \<and> succeeded (ss_report s) \<subseteq> succeeded (ss_report s')"
  using assms
proof (induction cs arbitrary: s)
  case (Cons c cs)
  obtain err1 s1 where one: "sync_feed e feedName now records changed c s = (err1, s1)" by (rule prod.exhaust)
  note k = sync_feed_kept [OF one Cons.prems(2,3)] and r = sync_feed_report [OF one Cons.prems(3)]
  show ?case
  proof (cases err1)
    case None
    then have "sync_feeds e feedName now records changed cs s1 = (err, s')" using Cons.prems(1) one by simp
    from Cons.IH [OF this] k r show ?thesis by (auto intro: kept_except_trans)
  next
    case (Some x)
    then show ?thesis using Cons.prems(1) one k r by auto
  qed
qed simp

text \<open>
  C9. Synchronization fails closed: whatever the fetcher and the local API do and however the run ends, a
  feed that is not reported as succeeded keeps every one of its stored entries as it was, active flag and
  missed runs included; no feed loses its row.
\<close>

theorem engine_Run_fails_closed:
  assumes "engine_Run e options now d l = (err, rep, d', l')" and "store_ok d"
  shows "(\<forall>f \<in> set (feeds d). f_name f \<notin> {sfr_Name x |x. x \<in> set (syn_Feeds rep) \<and> sfr_Status x = FeedSucceeded} \<longrightarrow>
      (\<forall>k. fst k = f_id f \<longrightarrow> row_at entry_key (feed_entries d') k = row_at entry_key (feed_entries d) k)) \<and>
    (\<forall>f \<in> set (feeds d). \<exists>f' \<in> set (feeds d'). f_id f' = f_id f \<and> f_name f' = f_name f)"
proof -
  have ok: "feeds_ok d" using assms(2) by (simp add: store_ok_def)
  have "kept_except (succeeded rep) d d'"
    using assms(1)
  proof (cases rule: engine_Run_cases)
    case (dry records entries plan)
    from reconcile_run_report [OF dry(5)] show ?thesis by (simp add: dry_loop_report)
  next
    case (real definitions previous records d1 x s)
    have d1: "feeds_ok d1" "kept_except {} d d1"
      using EnsureFeeds_feeds_ok [OF ok real(5)] EnsureFeeds_frame [OF real(5)] real(5)
      by (auto intro!: kept_except_same simp: EnsureFeeds_def Let_def split: if_splits sum.splits)
    then have s: "kept_except (succeeded (ss_report s)) d (ss_db s)"
      using sync_feeds_kept [OF real(6)] by (auto intro: kept_except_trans)
    show ?thesis
    proof (cases x)
      case None
      have run: "reconcile_run e \<lparr>ro_Allowlists = cfg_Allowlists (eng_Config e), ro_FeedOrder = feed_order records, ro_DryRun = False,
          ro_OverrideEntries = False, ro_Entries = []\<rparr> s = (err, rep, d', l')" using real(7) None by simp
      have "feeds d' = feeds (ss_db s) \<and> feed_entries d' = feed_entries (ss_db s) \<and> succeeded rep = succeeded (ss_report s)"
        using run by (auto simp: reconcile_run_def Let_def dest!: Run_keeps_feeds split: prod.splits)
      then show ?thesis using s by (auto simp: kept_except_def)
    next
      case (Some y)
      then show ?thesis using s real(7) by simp
    qed
  qed simp
  moreover have "succeeded rep = {sfr_Name x |x. x \<in> set (syn_Feeds rep) \<and> sfr_Status x = FeedSucceeded}"
    by (auto simp: succeeded_def)
  ultimately show ?thesis by (force simp: kept_except_def)
qed

subsection \<open>Preview and real run\<close>

text \<open>What the decision about a feed reads of its record.\<close>

definition same_view :: "FeedRecord \<Rightarrow> FeedRecord \<Rightarrow> bool" where
  "same_view a b \<longleftrightarrow> frec_LastSuccess a = frec_LastSuccess b \<and> frec_NextAttempt a = frec_NextAttempt b \<and>
     frec_ETag a = frec_ETag b \<and> frec_LastModified a = frec_LastModified b \<and>
     frec_AcceptedEntries a = frec_AcceptedEntries b \<and> frec_RejectedEntries a = frec_RejectedEntries b"

lemma feed_not_due_cong: "changed \<or> same_view a b \<Longrightarrow> feed_not_due now c a changed = feed_not_due now c b changed"
  by (auto simp: feed_not_due_def same_view_def)

lemma download_feed_cong:
  assumes "changed \<or> same_view a b"
  shows "download_feed e c a changed now l = download_feed e c b changed now l"
proof -
  have "feed_policy c (if changed then a\<lparr>frec_AcceptedEntries := 0\<rparr> else a) now = feed_policy c (if changed then b\<lparr>frec_AcceptedEntries := 0\<rparr> else b) now"
    using assms by (auto simp: feed_policy_def same_view_def)
  then have "parseFetched e c (if changed then a\<lparr>frec_AcceptedEntries := 0\<rparr> else a) result now =
      parseFetched e c (if changed then b\<lparr>frec_AcceptedEntries := 0\<rparr> else b) result now" for result
    by (simp only: parseFetched_def)
  then show ?thesis using assms by (cases changed) (simp_all add: download_feed_def Let_def same_view_def split: prod.split sum.split)
qed

lemma download_changed: "download_feed e c a True now l = (x, l') \<Longrightarrow> x \<noteq> DownloadUnchanged result"
  by (auto simp: download_feed_def Let_def split: prod.splits sum.splits if_splits)

lemma sync_feed_dry:
  assumes "sync_feed e feedName now records changed c s = (err, s')"
    and same: "ds_report t = ss_report s" "ds_out t = ss_out s"
    and agree: "selected feedName c \<Longrightarrow> dp_changed plan (fc_Name c) = changed (fc_Name c) \<and>
      (changed (fc_Name c) \<or> same_view (named_record (dp_records plan) (fc_Name c)) (named_record records (fc_Name c)))"
  shows "if err = None
    then ds_report (dry_feed e feedName now plan c t) = ss_report s' \<and> ds_out (dry_feed e feedName now plan c t) = ss_out s'
    else ss_report s' = ss_report s"
proof (cases "selected feedName c")
  case False
  then show ?thesis using assms(1) same by (simp add: sync_feed_def dry_feed_def)
next
  case sel: True
  let ?a = "named_record (dp_records plan) (fc_Name c)" and ?b = "named_record records (fc_Name c)" and ?ch = "changed (fc_Name c)"
  have ch: "dp_changed plan (fc_Name c) = ?ch" and view: "?ch \<or> same_view ?a ?b" using agree sel by auto
  note due = feed_not_due_cong [OF view, of now c] and down = download_feed_cong [OF view, of e c now "ss_out s"]
  show ?thesis
  proof (cases "feed_not_due now c ?b ?ch")
    case True
    then show ?thesis using assms(1) sel same due ch by (auto simp: sync_feed_def dry_feed_def Let_def)
  next
    case False
    obtain x l where x: "download_feed e c ?b ?ch now (ss_out s) = (x, l)" by (rule prod.exhaust)
    note run = assms(1) [unfolded sync_feed_def Let_def, simplified sel False x, simplified]
    have t: "dry_feed e feedName now plan c t = (case (x, l) of
        (DownloadFailed cause, l1) \<Rightarrow> t\<lparr>ds_out := l1, ds_report := report_failed (fc_Name c) (feedFailureCategory cause) (ds_report t)\<rparr>
      | (DownloadUnchanged result, l1) \<Rightarrow> t\<lparr>ds_out := l1, ds_report := report_unchanged c ?a (ds_report t)\<rparr>
      | (DownloadNew result snapshot rejectedCount, l1) \<Rightarrow>
          t\<lparr>ds_out := l1, ds_entries := filter (\<lambda>entry. se_FeedName entry \<noteq> fc_Name c) (ds_entries t) @
              map (\<lambda>item. \<lparr>se_FeedID = frec_ID ?a, se_FeedName = fc_Name c, se_Entry = item,
                se_FirstSeen = now, se_LastSeen = now, se_MissingRuns = 0, se_Active = True\<rparr>) (snp_Entries snapshot),
            ds_report := report_succeeded (fc_Name c) snapshot rejectedCount (ds_report t)\<rparr>)"
      unfolding dry_feed_def Let_def ch using sel False due down x same(2) by simp
    show ?thesis
    proof (cases x)
      case (DownloadFailed cause)
      then show ?thesis using run t same by (auto simp: recordFeedFailure_def Let_def split: prod.splits sum.splits)
    next
      case (DownloadUnchanged result)
      then have "same_view ?a ?b" using view download_changed [of e c ?b now "ss_out s" x l result] x by (cases ?ch) auto
      then have "report_unchanged c ?a rep = report_unchanged c ?b rep" for rep by (simp add: report_unchanged_def same_view_def)
      then show ?thesis using run t same DownloadUnchanged by (auto split: prod.splits sum.splits)
    next
      case (DownloadNew result snapshot rejectedCount)
      then show ?thesis using run t same by (auto split: prod.splits sum.splits)
    qed
  qed
qed

lemma dry_feeds_prefix: "\<exists>rest. syn_Feeds (ds_report (foldl (\<lambda>s c. dry_feed e feedName now plan c s) t cs)) = syn_Feeds (ds_report t) @ rest"
proof (induction cs arbitrary: t)
  case (Cons c cs)
  have "\<exists>r. syn_Feeds (ds_report (dry_feed e feedName now plan c t)) = syn_Feeds (ds_report t) @ r"
    by (auto simp: dry_feed_def Let_def report_defs split: prod.splits download.splits)
  then show ?case using Cons.IH [of "dry_feed e feedName now plan c t"] by auto
qed simp

lemma sync_feeds_dry:
  assumes "sync_feeds e feedName now records changed cs s = (err, s')"
    and "ds_report t = ss_report s" "ds_out t = ss_out s"
    and "\<And>c. c \<in> set cs \<Longrightarrow> selected feedName c \<Longrightarrow> dp_changed plan (fc_Name c) = changed (fc_Name c) \<and>
      (changed (fc_Name c) \<or> same_view (named_record (dp_records plan) (fc_Name c)) (named_record records (fc_Name c)))"
  shows "(\<exists>rest. syn_Feeds (ds_report (foldl (\<lambda>s c. dry_feed e feedName now plan c s) t cs)) = syn_Feeds (ss_report s') @ rest) \<and>
    (err = None \<longrightarrow> ds_report (foldl (\<lambda>s c. dry_feed e feedName now plan c s) t cs) = ss_report s')"
  using assms
proof (induction cs arbitrary: s t)
  case (Cons c cs)
  obtain err1 s1 where one: "sync_feed e feedName now records changed c s = (err1, s1)" by (rule prod.exhaust)
  note step = sync_feed_dry [OF one Cons.prems(2,3) Cons.prems(4) [of c]]
  show ?case
  proof (cases err1)
    case None
    then have "sync_feeds e feedName now records changed cs s1 = (err, s')" using Cons.prems(1) one by simp
    from Cons.IH [OF this, of "dry_feed e feedName now plan c t"] step None Cons.prems(4) show ?thesis by auto
  next
    case (Some x)
    then have "err = Some x" "s' = s1" "ss_report s1 = ss_report s" using Cons.prems(1) one step by auto
    then show ?thesis using dry_feeds_prefix [of e feedName now plan t "c # cs"] Cons.prems(2) by simp
  qed
qed auto

text \<open>The two maps of feed records.\<close>

lemma byName_iff:
  assumes "distinct (map frec_Name records)"
  shows "byName records n = Some x \<longleftrightarrow> x \<in> set records \<and> frec_Name x = n"
proof -
  have "distinct (map fst (rev (map (\<lambda>x. (frec_Name x, x)) records)))"
    using assms by (simp add: rev_map [symmetric] comp_def)
  then show ?thesis by (auto simp: byName_def map_of_eq_Some_iff)
qed

lemma byName_ListFeeds:
  assumes "feeds_ok d" and "ListFeeds d = Inr records"
  shows "byName records n = map_option scanFeed (row_at f_name (feeds d) n)"
proof -
  let ?rows = "sort_cmp (\<lambda>a b. cmp_Compare (f_id a) (f_id b)) (feeds d)"
  have r: "records = map scanFeed ?rows" using assms(2) by (simp add: ListFeeds_def)
  have names: "map frec_Name records = map f_name ?rows" by (simp add: r scanFeed_def)
  have dist: "distinct (map frec_Name records)" using assms(1) unfolding names by (simp add: feeds_ok_def)
  show ?thesis
  proof (cases "row_at f_name (feeds d) n")
    case None
    then have "n \<notin> f_name ` set (feeds d)" by (auto simp: row_at_def find_None_iff)
    then have "byName records n \<noteq> Some x" for x using byName_iff [OF dist] by (auto simp: r scanFeed_def)
    then show ?thesis using None by (cases "byName records n") auto
  next
    case (Some row)
    then have "row \<in> set (feeds d)" "f_name row = n" using row_at_Some_D by fastforce+
    then have "byName records n = Some (scanFeed row)" using byName_iff [OF dist] by (simp add: r) (simp add: scanFeed_def)
    then show ?thesis using Some by simp
  qed
qed

abbreviation feed_history_view :: "feed_row \<Rightarrow> string \<times> string \<times> int option \<times> int option \<times> int \<times> int" where
  "feed_history_view r \<equiv> (f_etag r, f_last_modified r, f_last_success_at r, f_next_attempt_at r, f_accepted_entries r, f_rejected_entries r)"

lemma row_at_upsert_feeds_history:
  "row_at f_name rows n = Some r \<Longrightarrow>
   \<exists>r'. row_at f_name (foldl (upsert_feed now) rows ds) n = Some r' \<and> feed_history_view r' = feed_history_view r"
proof (induction ds arbitrary: rows r)
  case (Cons x ds)
  have "\<exists>r1. row_at f_name (upsert_feed now rows x) n = Some r1 \<and> feed_history_view r1 = feed_history_view r"
    using Cons.prems by (auto simp: row_at_upsert_feed defined_row_def)
  then show ?case using Cons.IH by fastforce
qed simp

lemma EnsureFeeds_keeps_view:
  assumes ok: "feeds_ok d" and en: "EnsureFeeds ds now d = (Inr records, d1)" and x: "x \<in> set ds"
    and row: "row_at f_name (feeds d) (fd_Name x) = Some r"
  shows "\<exists>y. byName records (fd_Name x) = Some y \<and> same_view (scanFeed r) y"
proof -
  let ?rows = "update_where f_enabled (\<lambda>r. r\<lparr>f_enabled := False\<rparr>) (feeds d)"
  have v: "ds \<noteq> []" "\<not> IsZero now" "definitions_valid [] ds" using en by (auto simp: EnsureFeeds_def split: if_splits)
  have dist: "distinct (map fd_Name ds)" using v(3) by (simp add: definitions_valid_iff)
  let ?d2 = "d\<lparr>feeds := foldl (upsert_feed now) ?rows ds\<rparr>"
  have recs: "records = map (\<lambda>x. scanFeed (the (select_feed ?d2 (fd_Name x)))) ds"
    using EnsureFeeds_result [OF ok v] en by simp
  have sel: "select_feed ?d2 n = row_at f_name (feeds ?d2) n" for n by (simp add: select_feed_def row_at_def)
  have name: "f_name (the (select_feed ?d2 (fd_Name y))) = fd_Name y" if "y \<in> set ds" for y
    using row_at_upsert_feeds_enabled [OF dist, of now ?rows "fd_Name y"] find_unique [OF dist that] sel by auto
  have names: "map frec_Name records = map fd_Name ds" using name by (simp add: recs scanFeed_def)
  obtain r0 where r0: "row_at f_name ?rows (fd_Name x) = Some r0" "feed_history_view r0 = feed_history_view r"
    using row by (auto simp: row_at_update_where)
  obtain r' where r': "row_at f_name (foldl (upsert_feed now) ?rows ds) (fd_Name x) = Some r'" "feed_history_view r' = feed_history_view r"
    using row_at_upsert_feeds_history [OF r0(1), of now ds] r0(2) by auto
  have "scanFeed r' \<in> set records \<and> frec_Name (scanFeed r') = fd_Name x"
    using x r'(1) sel name [OF x] by (force simp: recs scanFeed_def)
  then have "byName records (fd_Name x) = Some (scanFeed r')"
    using byName_iff [of records "fd_Name x"] dist names by simp
  moreover have "same_view (scanFeed r) (scanFeed r')" using r'(2) by (simp add: same_view_def scanFeed_def)
  ultimately show ?thesis by blast
qed

lemma feedDefinitions_member:
  "feedDefinitions marshal cs = Some ds \<Longrightarrow> map fd_Name ds = map fc_Name cs \<and>
   (\<forall>c \<in> set cs. \<exists>hash. definitionHash marshal c = Some hash \<and>
     \<lparr>fd_Name = fc_Name c, fd_URLHash = hashText (fc_URL c), fd_DefinitionHash = hash, fd_Enabled = fc_Enabled c\<rparr> \<in> set ds)"
  by (induction cs arbitrary: ds) (auto split: option.splits, blast)

lemma changed_names_member:
  assumes "distinct (map fd_Name ds)" and "x \<in> set ds"
  shows "changed_names previous ds (fd_Name x) = definition_changed previous x"
proof -
  have "distinct (map fst (rev (map (\<lambda>d. (fd_Name d, definition_changed previous d)) ds)))"
    using assms(1) by (simp add: rev_map [symmetric] comp_def)
  then have "map_of (rev (map (\<lambda>d. (fd_Name d, definition_changed previous d)) ds)) (fd_Name x) = Some (definition_changed previous x)"
    using assms(2) by (intro map_of_is_SomeI) auto
  then show ?thesis by (simp add: changed_names_def)
qed

lemma dry_plan_step_other:
  "dry_plan_step marshal index c plan = Some plan' \<Longrightarrow> n \<noteq> fc_Name c \<Longrightarrow>
   dp_records plan' n = dp_records plan n \<and> dp_changed plan' n = dp_changed plan n"
  by (auto simp: dry_plan_step_def Let_def split: if_splits option.splits)

lemma dry_plan_steps_other:
  "dry_plan_steps marshal index cs plan = Some plan' \<Longrightarrow> n \<notin> fc_Name ` set cs \<Longrightarrow>
   dp_records plan' n = dp_records plan n \<and> dp_changed plan' n = dp_changed plan n"
proof (induction cs arbitrary: index plan)
  case (Cons c cs)
  then obtain plan1 where "dry_plan_step marshal index c plan = Some plan1" "dry_plan_steps marshal (index + 1) cs plan1 = Some plan'"
    by (auto split: option.splits)
  with Cons.IH [of "index + 1" plan1] Cons.prems(2) dry_plan_step_other [of marshal index c plan plan1 n] show ?case by simp
qed simp

lemma dry_plan_steps_member:
  assumes "dry_plan_steps marshal index cs plan = Some plan'" and "distinct (map fc_Name cs)"
    and "c \<in> set cs" and "fc_Enabled c" and "definitionHash marshal c = Some hash"
  shows "dp_changed plan' (fc_Name c) = (case dp_records plan (fc_Name c) of None \<Rightarrow> True
      | Some x \<Rightarrow> frec_URLHash x \<noteq> hashText (fc_URL c) \<or> frec_DefinitionHash x \<noteq> hash \<or> \<not> frec_Enabled x) \<and>
    (\<forall>x. dp_records plan (fc_Name c) = Some x \<longrightarrow> dp_records plan' (fc_Name c) = Some x)"
  using assms(1,2,3)
proof (induction cs arbitrary: index plan)
  case (Cons b cs)
  then obtain plan1 where one: "dry_plan_step marshal index b plan = Some plan1" "dry_plan_steps marshal (index + 1) cs plan1 = Some plan'"
    by (auto split: option.splits)
  show ?case
  proof (cases "b = c")
    case True
    then have "fc_Name c \<notin> fc_Name ` set cs" using Cons.prems(2) by simp
    from dry_plan_steps_other [OF one(2) this] one(1) True assms(4,5) show ?thesis
      by (auto simp: dry_plan_step_def Let_def split: option.splits)
  next
    case False
    then have c: "c \<in> set cs" "fc_Name c \<noteq> fc_Name b" using Cons.prems(2,3) by (auto simp: image_iff)
    from Cons.IH [OF one(2) _ c(1)] Cons.prems(2) dry_plan_step_other [OF one(1) c(2)] show ?thesis by simp
  qed
qed simp

lemma dry_plan_steps_total:
  "\<forall>c \<in> set cs. definitionHash marshal c \<noteq> None \<Longrightarrow> \<exists>plan'. dry_plan_steps marshal index cs plan = Some plan'"
  by (induction cs arbitrary: index plan) (auto simp: dry_plan_step_def Let_def)

lemma plan_agrees:
  assumes ok: "feeds_ok d" and prev: "ListFeeds d = Inr previous" and ds: "feedDefinitions marshal cs = Some ds"
    and en: "EnsureFeeds ds now d = (Inr records, d1)" and dist: "distinct (map fc_Name cs)"
    and plan: "dry_plan_steps marshal 0 cs \<lparr>dp_records = byName previous, dp_nextID = i, dp_enabled = [], dp_order = Map.empty, dp_changed = (\<lambda>_. False)\<rparr> = Some plan"
    and c: "c \<in> set cs" "fc_Enabled c"
  shows "dp_changed plan (fc_Name c) = changed_names (byName previous) ds (fc_Name c) \<and>
    (changed_names (byName previous) ds (fc_Name c) \<or>
     same_view (named_record (dp_records plan) (fc_Name c)) (named_record (byName records) (fc_Name c)))"
proof -
  obtain hash where h: "definitionHash marshal c = Some hash"
    and x: "\<lparr>fd_Name = fc_Name c, fd_URLHash = hashText (fc_URL c), fd_DefinitionHash = hash, fd_Enabled = fc_Enabled c\<rparr> \<in> set ds" (is "?x \<in> _")
    using feedDefinitions_member [OF ds] c(1) by blast
  have "distinct (map fd_Name ds)" using feedDefinitions_member [OF ds] dist by simp
  from changed_names_member [OF this x, of "byName previous"]
  have changed: "changed_names (byName previous) ds (fc_Name c) = definition_changed (byName previous) ?x" by simp
  note member = dry_plan_steps_member [OF plan dist c h, simplified]
  have eq: "dp_changed plan (fc_Name c) = definition_changed (byName previous) ?x"
    using member c(2) by (auto simp: definition_changed_def split: option.splits)
  show ?thesis
  proof (cases "definition_changed (byName previous) ?x")
    case True
    then show ?thesis using eq changed by simp
  next
    case False
    then obtain r where r: "byName previous (fc_Name c) = Some (scanFeed r)" "row_at f_name (feeds d) (fc_Name c) = Some r"
      using byName_ListFeeds [OF ok prev, of "fc_Name c"]
      by (cases "row_at f_name (feeds d) (fc_Name c)") (auto simp: definition_changed_def)
    then obtain y where "byName records (fc_Name c) = Some y" "same_view (scanFeed r) y"
      using EnsureFeeds_keeps_view [OF ok en x] by auto
    then show ?thesis using member r(1) eq changed by (simp add: named_record_def)
  qed
qed

text \<open>
  C10. A preview tells the truth: on a consistent store and for the same answers of the fetcher, the feeds a
  real run reports are those the preview reports, in the same order and with the same status, counts and
  error class; if the store accepts every operation of the real run the two reports differ at most in
  their reconciliation part. The preview itself leaves the database alone.
\<close>

theorem engine_Run_preview_agrees:
  assumes "store_ok d" and "distinct (map fc_Name (cfg_Feeds (eng_Config e)))"
    and "engine_Run e \<lparr>sro_FeedName = name, sro_DryRun = False\<rparr> now d l = (err, rep, d', l')"
    and "engine_Run e \<lparr>sro_FeedName = name, sro_DryRun = True\<rparr> now d l = (err2, rep2, d2, l2)"
  shows "(\<exists>rest. syn_Feeds rep2 = syn_Feeds rep @ rest) \<and> d2 = d \<and>
    (err \<in> {None, Some SyncErrDegraded, Some SyncErrReconcile} \<longrightarrow> rep2\<lparr>syn_Reconcile := zero_Report\<rparr> = rep\<lparr>syn_Reconcile := zero_Report\<rparr>)"
proof -
  have ok: "feeds_ok d" using assms(1) by (simp add: store_ok_def)
  have d2: "d2 = d" using engine_Run_moves [OF assms(4)] by simp
  from assms(3) show ?thesis
  proof (cases rule: engine_Run_cases)
    case early
    then show ?thesis using d2 by auto
  next
    case (dry records entries plan)
    then show ?thesis by simp
  next
    case (real definitions previous records d1 x s)
    obtain entries where entries: "ListActiveEntries d = Inr entries" using ListActiveEntries_total [OF ok] by blast
    let ?init = "\<lparr>dp_records = byName previous, dp_nextID = next_feed_id previous, dp_enabled = [], dp_order = Map.empty, dp_changed = (\<lambda>_. False)\<rparr>"
    obtain plan where plan: "dry_plan_steps (eng_Marshal e) 0 (cfg_Feeds (eng_Config e)) ?init = Some plan"
      using dry_plan_steps_total [of "cfg_Feeds (eng_Config e)" "eng_Marshal e" 0 ?init] feedDefinitions_member [OF real(3)] by force
    let ?loop = "dry_loop e name now plan entries l"
    have run2: "reconcile_run e
        \<lparr>ro_Allowlists = cfg_Allowlists (eng_Config e), ro_FeedOrder = dp_order plan, ro_DryRun = True, ro_OverrideEntries = True,
         ro_Entries = ds_entries ?loop\<rparr> \<lparr>ss_report = ds_report ?loop, ss_db = d, ss_out = ds_out ?loop\<rparr> = (err2, rep2, d2, l2)"
      using assms(4) real(2,4) entries plan by (simp add: engine_Run_def runDry_def Let_def)
    have rep2: "rep2\<lparr>syn_Reconcile := zero_Report\<rparr> = (ds_report ?loop)\<lparr>syn_Reconcile := zero_Report\<rparr>"
      using run2 by (auto simp: reconcile_run_def Let_def split: prod.splits)
    have feeds2: "syn_Feeds rep2 = syn_Feeds (ds_report ?loop)"
      using run2 by (auto simp: reconcile_run_def Let_def split: prod.splits)
    note agree = plan_agrees [OF ok real(4,3,5) assms(2) plan]
    note sim = sync_feeds_dry [OF real(6), of "\<lparr>ds_report = zero_sync_Report,
        ds_entries = filter (\<lambda>entry. se_FeedName entry \<in> set (dp_enabled plan)) entries, ds_out = l\<rparr>" plan]
    have pre: "\<exists>rest. syn_Feeds (ds_report ?loop) = syn_Feeds (ss_report s) @ rest" and
      same: "x = None \<Longrightarrow> ds_report ?loop = ss_report s"
      using sim agree by (auto simp: selected_def)
    show ?thesis
    proof (cases x)
      case None
      have "reconcile_run e \<lparr>ro_Allowlists = cfg_Allowlists (eng_Config e), ro_FeedOrder = feed_order records, ro_DryRun = False,
          ro_OverrideEntries = False, ro_Entries = []\<rparr> s = (err, rep, d', l')" using real(7) None by simp
      then have "rep\<lparr>syn_Reconcile := zero_Report\<rparr> = (ss_report s)\<lparr>syn_Reconcile := zero_Report\<rparr>" "syn_Feeds rep = syn_Feeds (ss_report s)"
        by (auto simp: reconcile_run_def Let_def split: prod.splits)
      then show ?thesis using rep2 feeds2 d2 same [OF None] by simp
    next
      case (Some y)
      then have "err = Some SyncErrState" "syn_Feeds rep = syn_Feeds (ss_report s)"
        using real(7) sync_feeds_report [OF real(6)] by auto
      then show ?thesis using pre feeds2 d2 by simp
    qed
  qed
qed

subsection \<open>A concrete run\<close>

text \<open>An engine with one feed whose server answers every request with an error, on the sample journal.\<close>

definition sample_engine :: "unit engine" where
  "sample_engine =
     \<lparr>eng_Config = (Defaults [])\<lparr>cfg_Feeds := [default_firehol\<lparr>fc_Name := ''alpha''\<rparr>]\<rparr>,
      eng_Fetch = (\<lambda>_ l. (Inl (FeedFailure FeedErrHTTPStatus 0), l)), eng_Marshal = (\<lambda>_. Some ''x''), eng_URLParse = (\<lambda>_. None),
      eng_LAPI = sample_outside, eng_Order = id, eng_Reconciler = sample_reconciler, eng_ReconcileNow = 2000 * second,
      eng_ReconcileBusy = False\<rparr>"

lemma sync_feeds_outage:
  assumes "sync_feeds e feedName now records changed cs s = (err, s')" and "\<And>request l. isl (fst (eng_Fetch e request l))"
  shows "succeeded (ss_report s') = succeeded (ss_report s)"
  using assms(1)
proof (induction cs arbitrary: s)
  case (Cons c cs)
  obtain err1 s1 where one: "sync_feed e feedName now records changed c s = (err1, s1)" by (rule prod.exhaust)
  have "\<exists>cause l'. download_feed e c x b now l = (DownloadFailed cause, l')" for x b l
  proof -
    let ?request = "\<lparr>frq_URL = fc_URL c, frq_Timeout = fc_Timeout c, frq_MaxBytes = fc_MaxDownloadBytes c, frq_ContentTypes = fc_ContentTypes c,
      frq_ETag = (if b then [] else frec_ETag x), frq_LastModified = (if b then [] else frec_LastModified x)\<rparr>"
    obtain err1 l1 where "eng_Fetch e ?request l = (Inl err1, l1)"
      using assms(2) [of ?request l] by (cases "eng_Fetch e ?request l") (auto simp: isl_def)
    then show ?thesis by (simp add: download_feed_def Let_def)
  qed
  then obtain cause l1 where
    "download_feed e c (named_record records (fc_Name c)) (changed (fc_Name c)) now (ss_out s) = (DownloadFailed cause, l1)" by blast
  then have "succeeded (ss_report s1) = succeeded (ss_report s)"
    using one by (auto simp: sync_feed_def recordFeedFailure_def Let_def split: if_splits prod.splits sum.splits)
  then show ?case using Cons one by (cases err1) auto
qed simp

lemma engine_Run_outage:
  assumes "engine_Run e options now d l = (err, rep, d', l')" and "\<not> sro_DryRun options" and "\<And>request l. isl (fst (eng_Fetch e request l))"
  shows "succeeded rep = {}"
  using assms(1)
proof (cases rule: engine_Run_cases)
  case (real definitions previous records d1 x s)
  from sync_feeds_outage [OF real(6) assms(3)] real(7) show ?thesis
    by (cases x) (auto simp: reconcile_run_def Let_def split: prod.splits)
qed (use assms(2) in simp_all)

theorem engine_Run_store_steps_witness:
  "\<exists>err rep d' l'. engine_Run sample_engine \<lparr>sro_FeedName = [], sro_DryRun = False\<rparr> (2000 * second) sample_journal () = (err, rep, d', l') \<and>
     store_ok d' \<and> counted rep"
proof -
  obtain err rep d' l' where
    run: "engine_Run sample_engine \<lparr>sro_FeedName = [], sro_DryRun = False\<rparr> (2000 * second) sample_journal () = (err, rep, d', l')"
    by (rule prod_cases4)
  from run engine_Run_store_steps [OF run] sample_journal_store_ok show ?thesis by blast
qed

theorem engine_Run_fails_closed_witness:
  "\<exists>err rep d' l'. engine_Run sample_engine \<lparr>sro_FeedName = [], sro_DryRun = False\<rparr> (2000 * second) sample_journal () = (err, rep, d', l') \<and>
     row_at entry_key (feed_entries d') (entry_key sample_entry) = Some sample_entry"
proof -
  obtain err rep d' l' where
    run: "engine_Run sample_engine \<lparr>sro_FeedName = [], sro_DryRun = False\<rparr> (2000 * second) sample_journal () = (err, rep, d', l')"
    by (rule prod_cases4)
  have "succeeded rep = {}" by (rule engine_Run_outage [OF run]) (simp_all add: sample_engine_def)
  then have "f_name sample_feed \<notin> {sfr_Name x |x. x \<in> set (syn_Feeds rep) \<and> sfr_Status x = FeedSucceeded}"
    by (auto simp: succeeded_def)
  moreover have "sample_feed \<in> set (feeds sample_journal)" by (simp add: sample_journal_def sample_store_def)
  moreover have "fst (entry_key sample_entry) = f_id sample_feed" by (simp add: entry_key_def sample_entry_def sample_feed_def)
  moreover have "row_at entry_key (feed_entries sample_journal) (entry_key sample_entry) = Some sample_entry"
    by (simp add: sample_journal_def sample_store_def row_at_def)
  ultimately have "row_at entry_key (feed_entries d') (entry_key sample_entry) = Some sample_entry"
    using engine_Run_fails_closed [OF run sample_journal_store_ok, THEN conjunct1, THEN bspec, of sample_feed]
    by (simp del: split_paired_All)
  with run show ?thesis by blast
qed

theorem engine_Run_preview_agrees_witness:
  "\<exists>err rep d' l' err2 rep2 d2 l2 rest.
     engine_Run sample_engine \<lparr>sro_FeedName = [], sro_DryRun = False\<rparr> (2000 * second) sample_journal () = (err, rep, d', l') \<and>
     engine_Run sample_engine \<lparr>sro_FeedName = [], sro_DryRun = True\<rparr> (2000 * second) sample_journal () = (err2, rep2, d2, l2) \<and>
     syn_Feeds rep2 = syn_Feeds rep @ rest \<and> d2 = sample_journal"
proof -
  obtain err rep d' l' where
    run: "engine_Run sample_engine \<lparr>sro_FeedName = [], sro_DryRun = False\<rparr> (2000 * second) sample_journal () = (err, rep, d', l')"
    by (rule prod_cases4)
  obtain err2 rep2 d2 l2 where
    dry: "engine_Run sample_engine \<lparr>sro_FeedName = [], sro_DryRun = True\<rparr> (2000 * second) sample_journal () = (err2, rep2, d2, l2)"
    by (rule prod_cases4)
  have "distinct (map fc_Name (cfg_Feeds (eng_Config sample_engine)))" by (simp add: sample_engine_def)
  from run dry engine_Run_preview_agrees [OF sample_journal_store_ok this run dry] show ?thesis by blast
qed

end
