(* ===== verification/Config_Facts.thy ===== *)
theory Config_Facts
  imports Config
begin

text \<open>
  Facts on \<^verbatim>\<open>internal/config\<close>: what validation returns is canonical (hosts, allowlist, feeds), so that a
  second validation changes nothing.
\<close>

subsection \<open>Sorting twice\<close>

context cmp_order
begin

lemma sort_cmp_idem:
  assumes "\<And>x y. cmp x y = 0 \<Longrightarrow> x = y"
  shows "sort_cmp cmp (sort_cmp cmp xs) = sort_cmp cmp xs"
  by (rule sort_cmp_unique) (use assms sorted_sort_cmp in auto)

end

subsection \<open>Hosts\<close>

definition host_char :: "char \<Rightarrow> bool" where
  "host_char c = (is_lower c \<or> is_digit c \<or> c = CHR ''.'' \<or> c = CHR '':'' \<or> c = CHR ''-'')"

lemma code_marks: "code (CHR ''.'') = 46" "code (CHR '':'') = 58" "code (CHR ''-'') = 45" "code (CHR ''/'') = 47" "code (CHR ''@'') = 64"
  "code (CHR ''?'') = 63" "code (CHR ''#'') = 35" "code (CHR ''k'') = 107" "code (CHR ''i'') = 105" "code (CHR ''%'') = 37"
  by (simp_all add: code_def)

lemma host_char_code: "host_char c \<Longrightarrow> 45 \<le> code c \<and> code c \<le> 122 \<and> code c \<noteq> 47 \<and> code c \<noteq> 92 \<and> code c \<noteq> 64 \<and> code c \<noteq> 63 \<and> \<not> is_upper c"
  by (auto simp: host_char_def is_lower_def is_digit_def is_upper_def code_marks)

lemma ToLower_host: "list_all host_char s \<Longrightarrow> ToLower s = s"
  by (induction s rule: ToLower.induct) (auto dest!: host_char_code)

lemma TrimSpace_host: "s \<noteq> [] \<Longrightarrow> list_all host_char s \<Longrightarrow> TrimSpace s = s"
  using host_char_code [of "hd s"] host_char_code [of "last s"] by (intro TrimSpace_graphic) (auto simp: list_all_iff)

lemma ToLower_lower: "c \<in> set (ToLower s) \<Longrightarrow> \<not> is_upper c"
  by (induction s rule: ToLower.induct) (auto simp: is_upper_def code_marks split: if_splits)

lemma ToLower_no_percent: "CHR ''%'' \<in> set (ToLower s) \<Longrightarrow> CHR ''%'' \<in> set s"
proof (induction s rule: ToLower.induct)
qed (auto simp: is_upper_def code_eq_iff [symmetric] code_marks split: if_splits)

lemma canonical_host_fixed:
  assumes "list_all host_char h" and "h \<noteq> []" and "length h \<le> 253" and "last h \<noteq> CHR ''.''"
    and "case ParseAddr h of Some a \<Rightarrow> h = addr_String (Unmap a) | None \<Rightarrow> list_all hostLabelPattern (split_on (CHR ''.'') h)"
  shows "canonical_host h = Some h"
proof -
  have "TrimSuffix_dot h = h" using assms(4) by (simp add: TrimSuffix_dot_def)
  moreover have "\<not> has_crlfnul h" and "\<not> list_ex (\<lambda>c. c \<in> {CHR ''/'', byte 92, CHR ''@'', CHR ''?'', CHR ''#''}) h"
    using assms(1) by (auto simp: has_crlfnul_def list_all_iff list_ex_iff code_marks dest!: bspec host_char_code)
  ultimately show ?thesis
    using assms TrimSpace_host [OF assms(2,1)] ToLower_host [OF assms(1)]
    by (auto simp: canonical_host_def Let_def split: option.splits)
qed

lemma split_on_not_Nil [simp]: "split_on c s \<noteq> []"
  by (induction s) (auto split: list.splits)

lemma split_on_chars: "x \<in> set s \<Longrightarrow> x = c \<or> (\<exists>w \<in> set (split_on c s). x \<in> set w)"
  by (induction s) (auto split: list.splits)

lemma split_on_single: "split_on c s = [[]] \<longleftrightarrow> s = []"
  by (cases s) (auto split: list.splits)

lemma split_on_last: "s \<noteq> [] \<Longrightarrow> last s = c \<Longrightarrow> last (split_on c s) = []"
  by (induction s) (auto simp: split_on_single split: list.splits if_splits)

lemma labels_host_char:
  assumes "list_all hostLabelPattern (split_on (CHR ''.'') h)" and "\<And>c. c \<in> set h \<Longrightarrow> \<not> is_upper c" and "h \<noteq> []"
  shows "list_all host_char h \<and> last h \<noteq> CHR ''.''"
proof
  have "host_char c" if "c \<in> set h" for c
    using split_on_chars [OF that, of "CHR ''.''"] assms(1) assms(2) [OF that]
    by (auto simp: list_all_iff hostLabelPattern_def host_char_def alphanumeric_def)
  then show "list_all host_char h" by (simp add: list_all_iff)
  have "hostLabelPattern (last (split_on (CHR ''.'') h))" using assms(1) by (simp add: list_all_iff)
  then show "last h \<noteq> CHR ''.''" using split_on_last [OF assms(3), of "CHR ''.''"] by (auto simp: hostLabelPattern_def)
qed

lemma hex_digit_host: "d < 16 \<Longrightarrow> host_char (hex_digit d)"
  by (auto simp: host_char_def hex_digit_def is_digit_def is_lower_def)

lemma length_itoa_byte: "n < 256 \<Longrightarrow> length (itoa n) \<le> 3"
  by (simp add: itoa.simps [of n] itoa.simps [of "n div 10"] itoa.simps [of "n div 10 div 10"])

lemma length_to_hex_group: "n < 65536 \<Longrightarrow> length (to_hex n) \<le> 4"
  by (simp add: to_hex.simps [of n] to_hex.simps [of "n div 16"] to_hex.simps [of "n div 16 div 16"] to_hex.simps [of "n div 16 div 16 div 16"])

lemma length_join: "\<forall>x \<in> set xs. length x \<le> k \<Longrightarrow> length (join sep xs) \<le> (k + length sep) * length xs"
  by (induction xs) (auto simp: join_Cons)

lemma length_text_groups: "\<forall>g \<in> set gs. g < 65536 \<Longrightarrow> length (text_groups gs) \<le> 5 * length gs"
  using length_join [of "map to_hex gs" 4 "'':''"] length_to_hex_group by auto

lemma string6_length: "length (string6 w) \<le> 253"
proof -
  obtain zs ze where r: "zero_run (groups w) = (zs, ze)" by fastforce
  then have ok: "run_ok (groups w) (zs, ze)" using run_ok_zero_run [of "groups w"] by simp
  show ?thesis
  proof (cases "zs = 255")
    case True
    then show ?thesis using length_text_groups [of "groups w"] groups_less r
      by (auto simp: string6_def print_groups_all)
  next
    case False
    then have "zs < ze" "ze \<le> 8" using ok by (auto simp: run_ok_def)
    moreover have "\<forall>g \<in> set (take zs (groups w)). g < 65536" "\<forall>g \<in> set (drop ze (groups w)). g < 65536"
      using groups_less by (auto dest: in_set_takeD in_set_dropD)
    from this [THEN length_text_groups]
    have "length (text_groups (take zs (groups w))) \<le> 5 * 8" "length (text_groups (drop ze (groups w))) \<le> 5 * 8" by simp_all
    ultimately show ?thesis using r by (simp add: string6_def print_groups_gap Let_def)
  qed
qed

lemma last_join: "xs \<noteq> [] \<Longrightarrow> \<forall>x \<in> set xs. x \<noteq> [] \<Longrightarrow> last (join sep xs) = last (last xs)"
  by (induction xs) (auto simp: join_Cons join_not_Nil)

lemma string4_host: "list_all host_char (string4 w) \<and> string4 w \<noteq> [] \<and> length (string4 w) \<le> 253 \<and> last (string4 w) \<noteq> CHR ''.''"
proof -
  have o: "octets w \<noteq> []" "length (octets w) = 4" "\<forall>n \<in> set (octets w). n < 256"
  proof -
    have "unat w < 4294967296" using unsigned_less [of w] by simp
    then show "octets w \<noteq> []" "length (octets w) = 4" "\<forall>n \<in> set (octets w). n < 256" by (simp_all add: octets_def Let_def)
  qed
  have "length (string4 w) \<le> 253" using length_join [of "map itoa (octets w)" 3 "''.''"] o(2,3) length_itoa_byte by (auto simp: string4_def)
  moreover have "list_all host_char (string4 w)" using string4_chars by (auto simp: list_all_iff host_char_def)
  moreover have "last (string4 w) = last (itoa (last (octets w)))" using o(1) by (simp add: string4_def last_join last_map)
  then have "is_digit (last (string4 w))" by (metis itoa_digits itoa_not_Nil last_in_set)
  moreover have "string4 w \<noteq> []" using o(1) unfolding string4_def by (intro join_not_Nil) auto
  ultimately show ?thesis by auto
qed

lemma string6_host: "list_all host_char (string6 w) \<and> string6 w \<noteq> [] \<and> length (string6 w) \<le> 253 \<and> last (string6 w) \<noteq> CHR ''.''"
proof -
  have c: "host_char c \<and> c \<noteq> CHR ''.''" if "c \<in> set (string6 w)" for c
    using string6_chars [OF that] hex_digit_neq hex_digit_host by (auto simp: host_char_def)
  moreover have "string6 w \<noteq> []" using string6_colon [of w] by auto
  ultimately show ?thesis using string6_length last_in_set by (auto simp: list_all_iff)
qed

lemma ParseAddr_zone_free: "ParseAddr h = Some a \<Longrightarrow> CHR ''%'' \<notin> set h \<Longrightarrow> a \<noteq> Addr0 \<and> Zone a = []"
  by (auto simp: ParseAddr_def parseIPv4_def parseIPv6_def split_first_def split: option.splits if_splits list.splits)

lemma canonical_host_idem:
  assumes "canonical_host v = Some h" and "CHR ''%'' \<notin> set v"
  shows "canonical_host h = Some h"
proof -
  let ?host = "ToLower (TrimSuffix_dot v)"
  have n: "?host \<noteq> []" "length ?host \<le> 253" using assms(1) by (auto simp: canonical_host_def Let_def split: if_splits)
  show ?thesis
  proof (cases "ParseAddr ?host")
    case None
    then have h: "h = ?host" "list_all hostLabelPattern (split_on (CHR ''.'') h)"
      using assms(1) by (auto simp: canonical_host_def Let_def split: if_splits)
    with labels_host_char [of h] ToLower_lower n None show ?thesis by (intro canonical_host_fixed) auto
  next
    case (Some a)
    then have h: "h = addr_String (Unmap a)" using assms(1) by (auto simp: canonical_host_def Let_def split: if_splits)
    have "CHR ''%'' \<notin> set ?host"
      using assms(2) ToLower_no_percent [of "TrimSuffix_dot v"] in_set_butlastD by (fastforce simp: TrimSuffix_dot_def split: if_splits)
    from ParseAddr_zone_free [OF Some this]
    have u: "Unmap a \<noteq> Addr0" "Zone (Unmap a) = []" "\<not> Is4In6 (Unmap a)" by (cases a; simp)+
    have "ParseAddr h = Some (Unmap a)" unfolding h by (rule ParseAddr_String [OF u])
    moreover have "Unmap (Unmap a) = Unmap a" by (cases a) simp_all
    moreover have "list_all host_char h \<and> h \<noteq> [] \<and> length h \<le> 253 \<and> last h \<noteq> CHR ''.''"
      using u string4_host string6_host unfolding h by (cases "Unmap a") auto
    ultimately show ?thesis using h by (intro canonical_host_fixed) auto
  qed
qed

lemma canonical_hosts_result:
  assumes "canonical_hosts vs acc = Some hs" and "\<forall>v \<in> set vs. CHR ''%'' \<notin> set v" and "distinct acc"
    and "\<forall>h \<in> set acc. canonical_host h = Some h"
  shows "distinct hs \<and> length hs \<le> length acc + length vs \<and> (\<forall>h \<in> set hs. canonical_host h = Some h)"
  using assms
proof (induction vs arbitrary: acc)
  case (Cons v vs)
  obtain h where h: "canonical_host v = Some h" using Cons.prems(1) by (auto split: option.splits)
  then have "canonical_host h = Some h" using canonical_host_idem Cons.prems(2) by simp
  show ?case
  proof (cases "h \<in> set acc")
    case True
    then have "distinct hs \<and> length hs \<le> length acc + length vs \<and> (\<forall>h \<in> set hs. canonical_host h = Some h)"
      using Cons.prems h by (intro Cons.IH) simp_all
    then show ?thesis by simp
  next
    case False
    then have "distinct hs \<and> length hs \<le> length (acc @ [h]) + length vs \<and> (\<forall>h \<in> set hs. canonical_host h = Some h)"
      using Cons.prems h \<open>canonical_host h = Some h\<close> by (intro Cons.IH) simp_all
    then show ?thesis by simp
  qed
qed simp

lemma canonical_hosts_fixed:
  "\<forall>h \<in> set hs. canonical_host h = Some h \<Longrightarrow> distinct (acc @ hs) \<Longrightarrow> canonical_hosts hs acc = Some (acc @ hs)"
  by (induction hs arbitrary: acc) auto


lemma canonicalHTTPHosts_idem:
  assumes "canonicalHTTPHosts vs = Inr hs" and "\<forall>v \<in> set vs. CHR ''%'' \<notin> set v"
  shows "canonicalHTTPHosts hs = Inr hs"
proof -
  obtain ks where ks: "canonical_hosts vs [] = Some ks" "hs = sort_cmp cmp_Compare ks" "length vs \<le> 16"
    using assms(1) by (auto simp: canonicalHTTPHosts_def split: if_splits option.splits)
  have r: "distinct ks \<and> length ks \<le> length vs \<and> (\<forall>h \<in> set ks. canonical_host h = Some h)"
    using canonical_hosts_result [OF ks(1) assms(2)] by simp
  have c: "cmp_order (\<lambda>x y :: string. cmp_Compare x y)" by (rule cmp_order_key)
  have "canonical_hosts hs [] = Some hs" using canonical_hosts_fixed [of hs "[]"] r ks(2) by simp
  moreover have "sort_cmp cmp_Compare hs = hs"
    unfolding ks(2) by (rule cmp_order.sort_cmp_idem [OF c]) simp
  moreover have "\<not> 16 < length hs" using r ks by simp
  ultimately show ?thesis by (simp add: canonicalHTTPHosts_def)
qed

subsection \<open>Allowlists and feeds\<close>

lemma prefix_cmp_order: "cmp_order prefix_Compare"
  unfolding prefix_Compare_def [abs_def] by (intro cmp_intros)

lemma canonical_allowlist_result:
  assumes "canonical_allowlist ps acc = Some qs" and "\<forall>p \<in> set ps. prefix_ok p" and "distinct acc" and "\<forall>p \<in> set acc. canonical p"
  shows "distinct qs \<and> (\<forall>p \<in> set qs. canonical p)"
  using assms
proof (induction ps arbitrary: acc)
  case (Cons p ps)
  from Cons.IH [of "if Masked p \<in> set acc then acc else acc @ [Masked p]"] Cons.prems show ?case
    by (auto split: if_splits)
qed auto

lemma canonical_allowlist_fixed:
  "\<forall>p \<in> set ps. canonical p \<Longrightarrow> distinct (acc @ ps) \<Longrightarrow> canonical_allowlist ps acc = Some (acc @ ps)"
proof (induction ps arbitrary: acc)
  case (Cons p ps)
  then have "IsValid p" "Masked p = p" using canonical_iff_Masked [of p] by auto
  with Cons.IH [of "acc @ [p]"] Cons.prems show ?case by simp
qed simp

lemma prefix_Compare_zero: "prefix_Compare p q = 0 \<Longrightarrow> p = q"
  by (cases p; cases q) (auto simp: prefix_Compare_def cmp_then_def Bits_def split: if_splits)

lemma feed_defaults_idem [simp]: "feed_defaults val (feed_defaults val f) = feed_defaults val f"
  by (simp add: feed_defaults_def Let_def)

lemma validate_feeds_result:
  "validate_feeds url val seen fs = Inr gs \<Longrightarrow> gs = map (feed_defaults val) fs \<and> (\<forall>g \<in> set gs. validateFeed url val g = None) \<and>
     distinct (map (\<lambda>g. ToLower (fc_Name g)) gs) \<and> set seen \<inter> (\<lambda>g. ToLower (fc_Name g)) ` set gs = {}"
proof (induction fs arbitrary: seen gs)
  case (Cons f fs)
  let ?g = "feed_defaults val f"
  have *: "ToLower (fc_Name ?g) \<notin> set seen" "validateFeed url val ?g = None" using Cons.prems by (auto simp: Let_def split: if_splits option.splits)
  then obtain rest where rest: "validate_feeds url val (ToLower (fc_Name ?g) # seen) fs = Inr rest" "gs = ?g # rest"
    using Cons.prems by (auto simp: Let_def split: sum.splits)
  from Cons.IH [OF rest(1)] rest(2) * show ?case by auto
qed simp

lemma validate_feeds_fixed:
  "\<lbrakk>\<forall>g \<in> set gs. validateFeed url val g = None \<and> feed_defaults val g = g; distinct (map (\<lambda>g. ToLower (fc_Name g)) gs);
    set seen \<inter> (\<lambda>g. ToLower (fc_Name g)) ` set gs = {}\<rbrakk> \<Longrightarrow> validate_feeds url val seen gs = Inr gs"
proof (induction gs arbitrary: seen)
  case (Cons g gs)
  then have "validate_feeds url val (ToLower (fc_Name g) # seen) gs = Inr gs" by (intro Cons.IH) auto
  then show ?case using Cons.prems by (auto simp: Let_def)
qed simp

subsection \<open>The configuration as a whole\<close>

text \<open>
  C40. Validation is a normal form where no allowed host contains a percent sign, that is, where none is an IPv6 literal with a zone: a
  configuration that passed it then passes again unchanged, so the engine, which validates once more, works on what the service
  validated. The allowlist holds prefixes as \<^verbatim>\<open>net/netip\<close> builds them. For a zone that ends in dots it is no normal form,
  since every pass takes one dot off the end of the text before it reads the address.
\<close>

theorem Config_Validate_fixed:
  assumes "Config_Validate url_Parse c = Inr cfg" and "\<forall>p \<in> set (cfg_Allowlists c). prefix_ok p"
    and "\<forall>h \<in> set (csc_AllowedHTTPHosts (cfg_CrowdSec c)). CHR ''%'' \<notin> set h"
  shows "Config_Validate url_Parse cfg = Inr cfg"
proof -
  obtain hosts gs ps where listen: "validateListenAddress (srv_ListenAddress (cfg_Server c)) = None" "validate_durations c = None"
    and hosts: "canonicalHTTPHosts (csc_AllowedHTTPHosts (cfg_CrowdSec c)) = Inr hosts"
    and limits: "validate_limits c = None" and gs: "validate_feeds url_Parse (cfg_Validation c) [] (cfg_Feeds c) = Inr gs"
    and ps: "canonical_allowlist (cfg_Allowlists c) [] = Some ps" and rest: "validate_rest url_Parse c = None"
    and cfg: "cfg = c\<lparr>cfg_CrowdSec := (cfg_CrowdSec c)\<lparr>csc_AllowedHTTPHosts := hosts\<rparr>, cfg_Feeds := gs,
      cfg_Allowlists := sort_cmp prefix_Compare ps\<rparr>"
    using assms(1) by (auto simp: Config_Validate_def split: option.splits sum.splits)
  note feeds = validate_feeds_result [OF gs]
  have "validate_feeds url_Parse (cfg_Validation c) [] gs = Inr gs"
    using feeds by (intro validate_feeds_fixed) auto
  moreover have "canonical_allowlist (sort_cmp prefix_Compare ps) [] = Some (sort_cmp prefix_Compare ps)"
    using canonical_allowlist_result [OF ps assms(2)] canonical_allowlist_fixed [of "sort_cmp prefix_Compare ps" "[]"] by simp
  moreover have "sort_cmp prefix_Compare (sort_cmp prefix_Compare ps) = sort_cmp prefix_Compare ps"
    by (rule cmp_order.sort_cmp_idem [OF prefix_cmp_order]) (rule prefix_Compare_zero)
  moreover have "validate_durations cfg = validate_durations c" unfolding cfg
    by (simp add: validate_durations_def required_durations_def Let_def cong: if_cong option.case_cong split del: if_split)
  moreover have "validate_limits cfg = validate_limits c"
    unfolding cfg feeds [THEN conjunct1] by (simp add: validate_limits_def Let_def cong: if_cong option.case_cong split del: if_split)
  moreover have "validate_rest url_Parse cfg = validate_rest url_Parse c" unfolding cfg by (simp add: validate_rest_def Let_def cong: if_cong option.case_cong split del: if_split)
  ultimately show ?thesis
    using listen limits rest canonicalHTTPHosts_idem [OF hosts assms(3)] by (simp add: Config_Validate_def cfg)
qed

subsection \<open>A concrete configuration\<close>

definition sample_parse :: "string \<Rightarrow> url option" where
  "sample_parse s = Some \<lparr>url_Scheme = ''https'', url_Host = ''a.b'', url_Hostname = ''a.b'', url_HasUser = False, url_Fragment = []\<rparr>"

definition sample_feed_config :: FeedConfig where
  "sample_feed_config = default_firehol\<lparr>fc_Name := ''a'', fc_Attribution := ''x'', fc_ContentTypes := [''t'']\<rparr>"

definition sample_config :: Config where
  "sample_config = (Defaults [])\<lparr>cfg_Feeds := [sample_feed_config], cfg_Allowlists := [Prefix (Addr4 0x0a000001) 9],
     cfg_Validation := (cfg_Validation (Defaults []))\<lparr>val_MaxMalformedRatio := Fin 0, val_UserAgent := ''a/b''\<rparr>\<rparr>"

lemma sample_feed_valid: "validateFeed sample_parse (cfg_Validation sample_config) (feed_defaults (cfg_Validation sample_config) sample_feed_config) = None"
proof -
  have "feedNamePattern ''a''" by (simp add: feedNamePattern_def feed_edge_def is_lower_def code_def)
  moreover have "validateRemoteURL sample_parse s b c = None" for s b c
  proof -
    have "\<not> unsafeLiteralHost ''a.b''" by code_simp
    then show ?thesis by (simp add: validateRemoteURL_def sample_parse_def has_crlfnul_def code_def)
  qed
  moreover have "TrimSpace ''x'' \<noteq> []" "TrimSpace ''t'' \<noteq> []" by code_simp+
  ultimately show ?thesis
    by (simp add: validateFeed_def feed_defaults_def sample_feed_config_def sample_config_def default_firehol_def Defaults_def
        ratio_outside_def has_crlfnul_def code_def go_time_defs)
qed

lemma sample_config_validates: "\<exists>cfg. Config_Validate sample_parse sample_config = Inr cfg"
proof -
  have "validateListenAddress (srv_ListenAddress (cfg_Server sample_config)) = None"
  proof -
    have "validateListenAddress '':9090'' = None"
      by (simp add: validateListenAddress_def SplitHostPort_def split_last_def Atoi_def is_digit_def digit_val_def code_def has_crlfnul_def)
    then show ?thesis by (simp add: sample_config_def Defaults_def)
  qed
  moreover have "validate_durations sample_config = None"
    by (simp add: validate_durations_def required_durations_def validateRetry_def sample_config_def Defaults_def go_time_defs Let_def)
  moreover have "canonicalHTTPHosts (csc_AllowedHTTPHosts (cfg_CrowdSec sample_config)) = Inr []"
    by (simp add: canonicalHTTPHosts_def sample_config_def Defaults_def)
  moreover have "validate_limits sample_config = None"
    by (simp add: validate_limits_def sample_config_def Defaults_def go_time_defs ratio_outside_def has_crlfnul_def code_def Let_def)
  moreover have "\<exists>gs. validate_feeds sample_parse (cfg_Validation sample_config) [] (cfg_Feeds sample_config) = Inr gs"
  proof -
    have "cfg_Feeds sample_config = [sample_feed_config]" by (simp add: sample_config_def)
    then show ?thesis using sample_feed_valid by (simp add: Let_def)
  qed
  moreover have "\<exists>ps. canonical_allowlist (cfg_Allowlists sample_config) [] = Some ps" by (simp add: sample_config_def IsValid_def)
  moreover have "validate_rest sample_parse sample_config = None"
    by (simp add: validate_rest_def sample_config_def Defaults_def go_time_defs Let_def)
  ultimately show ?thesis by (auto simp: Config_Validate_def)
qed

theorem Config_Validate_fixed_witness:
  "\<exists>cfg. Config_Validate sample_parse sample_config = Inr cfg \<and> Config_Validate sample_parse cfg = Inr cfg"
proof -
  obtain cfg where cfg: "Config_Validate sample_parse sample_config = Inr cfg" using sample_config_validates by blast
  have "\<forall>p \<in> set (cfg_Allowlists sample_config). prefix_ok p" by (simp add: sample_config_def prefix_ok_def IsValid_def Bits_def)
  moreover have "\<forall>h \<in> set (csc_AllowedHTTPHosts (cfg_CrowdSec sample_config)). CHR ''%'' \<notin> set h"
    by (simp add: sample_config_def Defaults_def)
  ultimately show ?thesis using cfg Config_Validate_fixed [OF cfg] by blast
qed

end
