(* ===== verification/App_Result.thy ===== *)
theory App_Result
  imports Syncer
begin

text \<open>
  The file \<^verbatim>\<open>internal/app/result.go\<close>: the conversion of a synchronization report and its error to the
  operational result that history, metrics, readiness and notifications share. An error is the chain of its
  wrapped links, outermost first: \<^verbatim>\<open>errors.Is\<close> looks for a link, \<open>IsCategory\<close> of a package compares the
  category of the first link that package made.
\<close>

subsection \<open>Definitions: errors\<close>

datatype error_link =
    SyncLink SyncError | ReconcileLink ReconcileError | LAPILink LAPIError | ContextCanceled | ContextDeadlineExceeded
  | OtherLink string

type_synonym run_error = "error_link list"

fun sync_link :: "error_link \<Rightarrow> SyncError option" where
  "sync_link (SyncLink c) = Some c" | "sync_link _ = None"

fun reconcile_link :: "error_link \<Rightarrow> ReconcileError option" where
  "reconcile_link (ReconcileLink c) = Some c" | "reconcile_link _ = None"

fun lapi_link :: "error_link \<Rightarrow> LAPIError option" where
  "lapi_link (LAPILink c) = Some c" | "lapi_link _ = None"

fun first_link :: "(error_link \<Rightarrow> 'c option) \<Rightarrow> run_error \<Rightarrow> 'c option" where
  "first_link f [] = None"
| "first_link f (x # xs) = (case f x of Some c \<Rightarrow> Some c | None \<Rightarrow> first_link f xs)"

definition syncer_IsCategory :: "run_error \<Rightarrow> SyncError \<Rightarrow> bool" where
  "syncer_IsCategory err c = (first_link sync_link err = Some c)"

definition reconcile_IsCategory :: "run_error \<Rightarrow> ReconcileError \<Rightarrow> bool" where
  "reconcile_IsCategory err c = (first_link reconcile_link err = Some c)"

definition lapi_IsCategory :: "run_error \<Rightarrow> LAPIError \<Rightarrow> bool" where
  "lapi_IsCategory err c = (first_link lapi_link err = Some c)"

subsection \<open>Definitions: conversion\<close>

definition maxOperationalCount :: int where
  "maxOperationalCount = 100000000"

definition boundedInt :: "int \<Rightarrow> int option" where
  "boundedInt x = (if x \<ge> 0 \<and> x \<le> maxOperationalCount then Some x else None)"

definition addBounded :: "int \<Rightarrow> int \<Rightarrow> int option" where
  "addBounded left right = (if left < 0 \<or> right < 0 \<or> left > maxOperationalCount - right then None else Some (left + right))"

definition download_classes :: "string list" where
  "download_classes = map category_string [FeedErrRequest, FeedErrSSRF, FeedErrRedirect, FeedErrHTTPStatus, FeedErrBodySize,
     FeedErrContentType, FeedErrHTML, FeedErrResponseHeader]"

definition validation_classes :: "string list" where
  "validation_classes = map category_string [FeedErrFormat, FeedErrPolicy, FeedErrEmpty, FeedErrLineTooLong, FeedErrTruncated,
     FeedErrMetadata, FeedErrMalformedThreshold, FeedErrEntryCount, FeedErrSuspiciousChange]"

definition feedFailure :: "string \<Rightarrow> FailureCategory \<times> bool" where
  "feedFailure errorClass =
     (if errorClass \<in> set download_classes then (FailureFeedDownload, True)
      else if errorClass \<in> set validation_classes then (FailureFeedValidation, False)
      else (FailureRuntime, False))"

definition operationalFeedResult :: "sync_FeedResult \<Rightarrow> FeedResult option" where
  "operationalFeedResult input =
     (case (boundedInt (sfr_Accepted input), boundedInt (sfr_Rejected input)) of
        (Some acceptedCount, Some rejectedCount) \<Rightarrow>
          let result = \<lparr>fr_Name = sfr_Name input,
                fr_Outcome = (case sfr_Status input of
                  FeedSucceeded \<Rightarrow> OutcomeSuccess | FeedUnchanged \<Rightarrow> OutcomeNotModified | FeedNotDue \<Rightarrow> OutcomeNotDue | FeedFailed \<Rightarrow> OutcomeFailed),
                fr_Failure = (if sfr_Status input = FeedFailed then fst (feedFailure (sfr_ErrorClass input)) else NoFailure),
                fr_Accepted = acceptedCount, fr_Rejected = rejectedCount\<rparr>
          in if sfr_Status input \<noteq> FeedFailed \<and> sfr_ErrorClass input \<noteq> [] then None
             else if FeedResult_Validate result \<noteq> None then None
             else Some result
      | _ \<Rightarrow> None)"

text \<open>The loop of \<^verbatim>\<open>classifyFailure\<close> over the feeds of a degraded run: validation outranks download.\<close>

definition degraded_step :: "FailureCategory \<times> bool \<Rightarrow> FeedResult \<Rightarrow> FailureCategory \<times> bool" where
  "degraded_step acc item =
     (if fr_Outcome item \<noteq> OutcomeFailed \<and> fr_Outcome item \<noteq> OutcomeDegraded then acc
      else ((if fr_Failure item = FailureFeedValidation then FailureFeedValidation
             else if fst acc \<noteq> FailureFeedValidation \<and> fr_Failure item = FailureFeedDownload then FailureFeedDownload
             else fst acc),
            (if fr_Failure item = FailureFeedDownload then True else snd acc)))"

definition classifyFailure :: "run_error \<Rightarrow> FeedResult list \<Rightarrow> FailureCategory \<times> bool" where
  "classifyFailure err items =
     (if ContextCanceled \<in> set err then (FailureCancelled, False)
      else if ContextDeadlineExceeded \<in> set err then (FailureTimeout, True)
      else if syncer_IsCategory err SyncErrConfig \<or> syncer_IsCategory err SyncErrSelection then (FailureConfig, False)
      else if syncer_IsCategory err SyncErrState then (FailureDatabase, True)
      else if syncer_IsCategory err SyncErrDegraded then foldl degraded_step (FailureRuntime, False) items
      else if lapi_IsCategory err LAPIErrAuth then (FailureLAPIAuth, False)
      else if reconcile_IsCategory err ErrState then (FailureDatabase, True)
      else if reconcile_IsCategory err ErrOwnership then (FailureOwnership, False)
      else if reconcile_IsCategory err ErrLAPI \<or> lapi_IsCategory err LAPIErrRequest \<or> lapi_IsCategory err LAPIErrStatus
          \<or> lapi_IsCategory err LAPIErrResponseSize \<or> lapi_IsCategory err LAPIErrContentType
          \<or> lapi_IsCategory err LAPIErrDecode \<or> lapi_IsCategory err LAPIErrNotFound then (FailureLAPI, True)
      else if reconcile_IsCategory err ErrBusy then (FailureRuntime, True)
      else (FailureRuntime, False))"

text \<open>The loop of \<^verbatim>\<open>ResultFromSync\<close>: the results so far, the derived counts and the rejected entries.\<close>

record derived =
  dv_feeds :: "FeedResult list"
  dv_succeeded :: int
  dv_failed :: int
  dv_unchanged :: int
  dv_notDue :: int
  dv_suspicious :: int
  dv_rejected :: int

definition derive_step :: "sync_FeedResult \<Rightarrow> derived \<Rightarrow> derived option" where
  "derive_step input dv =
     (case operationalFeedResult input of
        None \<Rightarrow> None
      | Some item \<Rightarrow>
          let dv1 = dv\<lparr>dv_feeds := dv_feeds dv @ [item],
                dv_succeeded := dv_succeeded dv + (if fr_Outcome item = OutcomeSuccess then 1 else 0),
                dv_unchanged := dv_unchanged dv + (if fr_Outcome item = OutcomeNotModified then 1 else 0),
                dv_notDue := dv_notDue dv + (if fr_Outcome item = OutcomeNotDue then 1 else 0),
                dv_failed := dv_failed dv + (if fr_Outcome item = OutcomeFailed then 1 else 0),
                dv_suspicious := dv_suspicious dv +
                  (if fr_Outcome item = OutcomeFailed \<and> sfr_ErrorClass input = category_string FeedErrSuspiciousChange then 1 else 0)\<rparr>
          in map_option (\<lambda>sum. dv1\<lparr>dv_rejected := sum\<rparr>) (addBounded (dv_rejected dv) (fr_Rejected item)))"

fun derive_all :: "sync_FeedResult list \<Rightarrow> derived \<Rightarrow> derived option" where
  "derive_all [] dv = Some dv"
| "derive_all (input # inputs) dv = (case derive_step input dv of None \<Rightarrow> None | Some dv1 \<Rightarrow> derive_all inputs dv1)"

definition zero_derived :: derived where
  "zero_derived = \<lparr>dv_feeds = [], dv_succeeded = 0, dv_failed = 0, dv_unchanged = 0, dv_notDue = 0, dv_suspicious = 0, dv_rejected = 0\<rparr>"

definition report_counts :: "sync_Report \<Rightarrow> int \<Rightarrow> int \<Rightarrow> Counts" where
  "report_counts rep activeDecisions rejectedTotal =
     \<lparr>cnt_FeedsSucceeded = int (syn_FeedsSucceeded rep), cnt_FeedsFailed = int (syn_FeedsFailed rep),
      cnt_FeedsUnchanged = int (syn_FeedsUnchanged rep), cnt_FeedsNotDue = int (syn_FeedsNotDue rep),
      cnt_Added = int (rep_Added (syn_Reconcile rep)), cnt_Refreshed = int (rep_Refreshed (syn_Reconcile rep)),
      cnt_Removed = int (rep_Removed (syn_Reconcile rep)), cnt_Rejected = rejectedTotal,
      cnt_Skipped = int (rep_Skipped (syn_Reconcile rep)), cnt_LAPIRequests = int (rep_LAPIRequests (syn_Reconcile rep)),
      cnt_ActiveDecisions = activeDecisions\<rparr>"

text \<open>The numbers that have to be in range, in the order of the source.\<close>

definition report_numbers :: "sync_Report \<Rightarrow> int \<Rightarrow> int list" where
  "report_numbers rep activeDecisions =
     [int (syn_FeedsSucceeded rep), int (syn_FeedsFailed rep), int (syn_FeedsUnchanged rep), int (syn_FeedsNotDue rep),
      int (rep_Added (syn_Reconcile rep)), int (rep_Refreshed (syn_Reconcile rep)), int (rep_Removed (syn_Reconcile rep)),
      int (rep_Skipped (syn_Reconcile rep)), int (rep_LAPIRequests (syn_Reconcile rep)), activeDecisions,
      int (rep_Rejected (syn_Reconcile rep))]"

definition run_outcome :: "run_error option \<Rightarrow> FeedResult list \<Rightarrow> ops_Result \<Rightarrow> ops_Result" where
  "run_outcome runErr items result =
     (case runErr of
        None \<Rightarrow> result\<lparr>res_Outcome := OutcomeSuccess\<rparr>
      | Some err \<Rightarrow>
          if ContextCanceled \<in> set err then result\<lparr>res_Outcome := OutcomeCancelled, res_Failure := FailureCancelled\<rparr>
          else
            let (failure, retryable) = classifyFailure err items in
            result\<lparr>res_Failure := failure, res_Retryable := retryable,
              res_Outcome := (if syncer_IsCategory err SyncErrDegraded then OutcomeDegraded else OutcomeFailed)\<rparr>)"

definition ResultFromSync :: "sync_Report \<Rightarrow> run_error option \<Rightarrow> gotime \<Rightarrow> gotime \<Rightarrow> int \<Rightarrow> ops_Result option" where
  "ResultFromSync rep runErr startedAt completedAt activeDecisions =
     (if \<not> list_all (\<lambda>x. boundedInt x \<noteq> None) (report_numbers rep activeDecisions) then None
      else case derive_all (syn_Feeds rep) zero_derived of
        None \<Rightarrow> None
      | Some dv \<Rightarrow>
          if boundedInt (int (syn_SuspiciousChanges rep)) = None
              \<or> dv_succeeded dv \<noteq> int (syn_FeedsSucceeded rep) \<or> dv_failed dv \<noteq> int (syn_FeedsFailed rep)
              \<or> dv_unchanged dv \<noteq> int (syn_FeedsUnchanged rep) \<or> dv_notDue dv \<noteq> int (syn_FeedsNotDue rep)
              \<or> dv_suspicious dv \<noteq> int (syn_SuspiciousChanges rep)
          then None
          else case addBounded (dv_rejected dv) (int (rep_Rejected (syn_Reconcile rep))) of
            None \<Rightarrow> None
          | Some rejectedTotal \<Rightarrow>
              let result = run_outcome runErr (dv_feeds dv)
                    \<lparr>res_Outcome = OtherOutcome [], res_Failure = NoFailure, res_Retryable = False, res_StartedAt = startedAt,
                     res_CompletedAt = completedAt, res_Counts = report_counts rep activeDecisions rejectedTotal,
                     res_Feeds = dv_feeds dv\<rparr>
              in if runErr = None \<and> syn_FeedsFailed rep \<noteq> 0 then None
                 else if Result_Validate result \<noteq> None then None
                 else Some result)"

end
