(* ===== verification/App_Job.thy ===== *)
theory App_Job
  imports App_Result
begin

text \<open>
  The file \<^verbatim>\<open>internal/app/job.go\<close>: one scheduled synchronization, from the opening of its history row to the
  notifications about its result. Everything the job calls is an interface in the source, so it is a record
  of functions on an arbitrary world here, and what is proved of the job holds for every
  store, engine, registry, readiness tracker and notification manager.
\<close>

subsection \<open>Definitions: interfaces\<close>

record 'w job_env =
  je_Now :: "'w \<Rightarrow> gotime \<times> 'w"
  je_CtxErr :: "'w \<Rightarrow> run_error option \<times> 'w"
  je_BeginSyncRun :: "SyncMode \<Rightarrow> string \<Rightarrow> gotime \<Rightarrow> 'w \<Rightarrow> int option \<times> 'w"
  je_Engine :: "sync_RunOptions \<Rightarrow> 'w \<Rightarrow> sync_Report \<times> run_error option \<times> 'w"
  je_ListActiveDecisions :: "'w \<Rightarrow> int option \<times> 'w"
  je_CompleteSyncRun :: "int \<Rightarrow> ops_Result \<Rightarrow> 'w \<Rightarrow> bool \<times> 'w"
  je_LastSafeSync :: "'w \<Rightarrow> gotime option \<times> 'w"
  je_ObserveSync :: "ops_Result \<Rightarrow> 'w \<Rightarrow> 'w"
  je_RecordSync :: "ops_Result \<Rightarrow> 'w \<Rightarrow> 'w"
  je_Observe :: "Event \<Rightarrow> 'w \<Rightarrow> 'w"
  je_HandleSync :: "ops_Result \<Rightarrow> 'w \<Rightarrow> 'w"
  je_SuspiciousChange :: "string \<Rightarrow> Counts \<Rightarrow> 'w \<Rightarrow> 'w"
  je_StaleSync :: "'w \<Rightarrow> 'w"

text \<open>\<open>je_ListActiveDecisions\<close> gives the number of rows; \<open>je_LastSafeSync\<close> is \<^verbatim>\<open>RuntimeTimestamp\<close> of the last
  safe synchronization, \<open>None\<close> for an error and for no row, which the job treats alike.\<close>

definition validJobOptions :: "duration \<Rightarrow> duration \<Rightarrow> bool" where
  "validJobOptions finalizationTimeout staleAfter =
     (\<not> (finalizationTimeout \<le> 0 \<or> finalizationTimeout > minute \<or> staleAfter \<le> 0 \<or> staleAfter > 30 * 24 * hour))"

subsection \<open>Definitions: results\<close>

definition normalizedCompletion :: "gotime \<Rightarrow> gotime \<Rightarrow> gotime" where
  "normalizedCompletion startedAt completedAt =
     (if completedAt < startedAt \<or> time_Sub completedAt startedAt > 7 * 24 * hour then startedAt else completedAt)"

definition plain_result :: "Outcome \<Rightarrow> FailureCategory \<Rightarrow> bool \<Rightarrow> gotime \<Rightarrow> gotime \<Rightarrow> ops_Result" where
  "plain_result outcome failure retryable startedAt completedAt =
     \<lparr>res_Outcome = outcome, res_Failure = failure, res_Retryable = retryable, res_StartedAt = startedAt,
      res_CompletedAt = completedAt, res_Counts = zero_Counts, res_Feeds = []\<rparr>"

definition fixedFailureResult ::
  "FailureCategory \<Rightarrow> bool \<Rightarrow> gotime \<Rightarrow> gotime \<Rightarrow> Counts \<Rightarrow> FeedResult list \<Rightarrow> ops_Result" where
  "fixedFailureResult category retryable startedAt completedAt counts feedResults =
     (let result = (plain_result OutcomeFailed category retryable startedAt completedAt)\<lparr>res_Counts := counts, res_Feeds := feedResults\<rparr>
      in if Result_Validate result \<noteq> None then plain_result OutcomeFailed category retryable startedAt completedAt else result)"

fun syncSeverity :: "Outcome \<Rightarrow> Severity" where
  "syncSeverity OutcomeSuccess = SeverityInfo"
| "syncSeverity OutcomeDegraded = SeverityWarning"
| "syncSeverity OutcomeCancelled = SeverityWarning"
| "syncSeverity _ = SeverityError"

definition feedSeverity :: "FeedResult \<Rightarrow> Severity" where
  "feedSeverity result =
     (if fr_Outcome result = OutcomeFailed \<or> fr_Outcome result = OutcomeDegraded then SeverityWarning else SeverityInfo)"

subsection \<open>Definitions: observation\<close>

definition job_emit :: "'w job_env \<Rightarrow> Event \<Rightarrow> 'w \<Rightarrow> 'w" where
  "job_emit env event w = (if Event_Validate event = None then je_Observe env event w else w)"

definition mk_event :: "Code \<Rightarrow> ops_Operation \<Rightarrow> Outcome \<Rightarrow> Severity \<Rightarrow> FailureCategory \<Rightarrow> gotime \<Rightarrow> Event" where
  "mk_event evcode operation outcome severity failure at_time =
     \<lparr>ev_Code = evcode, ev_Operation = operation, ev_Feed = [], ev_Outcome = outcome, ev_Severity = severity,
      ev_Failure = failure, ev_At = at_time, ev_Duration = 0, ev_Attempt = 0, ev_Counts = zero_Counts\<rparr>"

definition feed_event :: "ops_Result \<Rightarrow> FeedResult \<Rightarrow> Event" where
  "feed_event result item =
     (mk_event CodeFeedResult OperationFeed (fr_Outcome item) (feedSeverity item) (fr_Failure item) (res_CompletedAt result))
       \<lparr>ev_Feed := fr_Name item, ev_Counts := zero_Counts\<lparr>cnt_Rejected := fr_Rejected item\<rparr>\<rparr>"

definition lapiAvailable :: "ops_Result \<Rightarrow> bool" where
  "lapiAvailable result =
     (res_Outcome result = OutcomeSuccess \<or>
      (res_Outcome result = OutcomeDegraded \<and>
       (res_Failure result = FailureFeedDownload \<or> res_Failure result = FailureFeedValidation)))"

definition lapiUnavailable :: "run_error option \<Rightarrow> ops_Result \<Rightarrow> bool" where
  "lapiUnavailable runErr result =
     (res_Failure result = FailureLAPI \<or> res_Failure result = FailureLAPIAuth \<or>
      (res_Failure result = FailureTimeout \<and>
       (case runErr of None \<Rightarrow> False | Some err \<Rightarrow> syncer_IsCategory err SyncErrReconcile)))"

definition lapi_events :: "run_error option \<Rightarrow> ops_Result \<Rightarrow> Event list" where
  "lapi_events runErr result =
     (if lapiAvailable result
      then [mk_event CodeLAPIStateChanged OperationLAPI OutcomeAvailable SeverityInfo NoFailure (res_CompletedAt result)]
      else if lapiUnavailable runErr result
      then [mk_event CodeLAPIStateChanged OperationLAPI OutcomeUnavailable SeverityError (res_Failure result) (res_CompletedAt result)]
      else [])"

definition completed_event :: "ops_Result \<Rightarrow> Event" where
  "completed_event result =
     (mk_event CodeSyncCompleted OperationSync (res_Outcome result) (syncSeverity (res_Outcome result)) (res_Failure result)
        (res_CompletedAt result))
       \<lparr>ev_Duration := time_Sub (res_CompletedAt result) (res_StartedAt result), ev_Counts := res_Counts result\<rparr>"

definition observe_events :: "'w job_env \<Rightarrow> run_error option \<Rightarrow> ops_Result \<Rightarrow> 'w \<Rightarrow> 'w" where
  "observe_events env runErr result w =
     foldl (\<lambda>w event. job_emit env event w) w
       (map (feed_event result) (res_Feeds result) @ lapi_events runErr result @ [completed_event result])"

definition notify_suspicious :: "'w job_env \<Rightarrow> sync_Report \<Rightarrow> ops_Result \<Rightarrow> 'w \<Rightarrow> 'w" where
  "notify_suspicious env rep result w =
     foldl (\<lambda>w item. if sfr_ErrorClass item = category_string FeedErrSuspiciousChange
              then je_SuspiciousChange env (sfr_Name item) (res_Counts result) w else w) w (syn_Feeds rep)"

definition notify_stale :: "'w job_env \<Rightarrow> duration \<Rightarrow> ops_Result \<Rightarrow> 'w \<Rightarrow> 'w" where
  "notify_stale env staleAfter result w =
     (if (res_Outcome result = OutcomeFailed \<or> res_Outcome result = OutcomeDegraded) \<and>
         \<not> (res_Outcome result = OutcomeDegraded \<and>
            (res_Failure result = FailureFeedDownload \<or> res_Failure result = FailureFeedValidation)) \<and>
         res_Failure result \<noteq> FailureDatabase
      then (case je_LastSafeSync env w of
          (Some lastSafe, w1) \<Rightarrow>
            if \<not> res_CompletedAt result < lastSafe \<and> time_Sub (res_CompletedAt result) lastSafe \<ge> staleAfter
            then je_StaleSync env w1 else w1
        | (None, w1) \<Rightarrow> w1)
      else w)"

definition observeResult :: "'w job_env \<Rightarrow> duration \<Rightarrow> sync_Report \<Rightarrow> run_error option \<Rightarrow> ops_Result \<Rightarrow> 'w \<Rightarrow> 'w" where
  "observeResult env staleAfter rep runErr result w =
     (let w1 = observe_events env runErr result (je_RecordSync env result (je_ObserveSync env result w)) in
      if res_Outcome result = OutcomeCancelled then w1
      else notify_stale env staleAfter result (je_HandleSync env result (notify_suspicious env rep result w1)))"

subsection \<open>Definitions: Run\<close>

text \<open>The middle of \<^verbatim>\<open>Run\<close>: the engine, the number of active decisions, the conversion.\<close>

definition job_synchronize :: "'w job_env \<Rightarrow> 'w \<Rightarrow> sync_Report \<times> run_error option \<times> int \<times> 'w" where
  "job_synchronize env w =
     (case je_Engine env \<lparr>sro_FeedName = [], sro_DryRun = False\<rparr> w of
        (rep, runErr, w1) \<Rightarrow>
          if (case runErr of None \<Rightarrow> False | Some err \<Rightarrow> ContextCanceled \<in> set err) then (rep, runErr, 0, w1)
          else (case je_ListActiveDecisions env w1 of
              (None, w2) \<Rightarrow> (rep, Some [SyncLink SyncErrState], 0, w2)
            | (Some n, w2) \<Rightarrow> (rep, runErr, n, w2)))"

definition job_Run :: "'w job_env \<Rightarrow> duration \<Rightarrow> 'w \<Rightarrow> ops_Result \<times> 'w" where
  "job_Run env staleAfter w =
     (case je_Now env w of (startedAt, w1) \<Rightarrow>
      let w2 = job_emit env (mk_event CodeSyncStarted OperationSync OutcomeStarted SeverityInfo NoFailure startedAt) w1 in
      case je_CtxErr env w2 of
        (Some err, w3) \<Rightarrow>
          (case je_Now env w3 of (ended, w4) \<Rightarrow>
             let result = plain_result OutcomeCancelled FailureCancelled False startedAt (normalizedCompletion startedAt ended)
             in (result, observeResult env staleAfter zero_sync_Report (Some err) result w4))
      | (None, w3) \<Rightarrow>
          (case je_BeginSyncRun env SyncModeEnforce [] startedAt w3 of
             (None, w4) \<Rightarrow>
               (case je_Now env w4 of (ended, w5) \<Rightarrow>
                  let result = fixedFailureResult FailureDatabase True startedAt (normalizedCompletion startedAt ended) zero_Counts []
                  in (result, observeResult env staleAfter zero_sync_Report (Some [OtherLink ''state'']) result w5))
           | (Some runID, w4) \<Rightarrow>
               (case job_synchronize env w4 of (rep, runErr, activeDecisions, w5) \<Rightarrow>
                case je_Now env w5 of (ended, w6) \<Rightarrow>
                  let completedAt = normalizedCompletion startedAt ended;
                      result = (case ResultFromSync rep runErr startedAt completedAt activeDecisions of
                          Some r \<Rightarrow> r
                        | None \<Rightarrow> fixedFailureResult FailureInternal False startedAt completedAt zero_Counts [])
                  in case je_CompleteSyncRun env runID result w6 of (completed, w7) \<Rightarrow>
                       let final = (if completed then result
                             else fixedFailureResult FailureDatabase True startedAt completedAt (res_Counts result) (res_Feeds result))
                       in (final, observeResult env staleAfter rep runErr final w7))))"

end
