(* ===== verification/App_Job_Facts.thy ===== *)
theory App_Job_Facts
  imports App_Job
begin

text \<open>
  The protocol of a job: for every behaviour of the interfaces it calls, its result is valid, a history row
  it opened is completed exactly once, metrics and readiness see the returned result, and none of its events
  is dropped as invalid.
\<close>

subsection \<open>Results\<close>

lemma normalizedCompletion_bounds:
  "startedAt \<le> normalizedCompletion startedAt t \<and> time_Sub (normalizedCompletion startedAt t) startedAt \<le> maxDuration"
  by (auto simp: normalizedCompletion_def maxDuration_def go_time_defs)

lemma plain_result_fields [simp]:
  "res_Outcome (plain_result out f b s c) = out" "res_Failure (plain_result out f b s c) = f" "res_Retryable (plain_result out f b s c) = b"
  "res_StartedAt (plain_result out f b s c) = s" "res_CompletedAt (plain_result out f b s c) = c"
  "res_Counts (plain_result out f b s c) = zero_Counts" "res_Feeds (plain_result out f b s c) = []"
  by (simp_all add: plain_result_def)

lemma plain_failure_valid:
  assumes "\<not> IsZero s" and "validFailure f"
  shows "Result_Validate (plain_result OutcomeFailed f b s (normalizedCompletion s t)) = None"
  using assms normalizedCompletion_bounds [of s t] by (simp add: Result_Validate_None_iff)

lemma fixedFailureResult_valid:
  assumes "\<not> IsZero s" and "validFailure f"
  shows "Result_Validate (fixedFailureResult f b s (normalizedCompletion s t) counts fs) = None"
  using plain_failure_valid [OF assms] by (simp add: fixedFailureResult_def Let_def)

lemma fixedFailureResult_fields [simp]:
  "res_Outcome (fixedFailureResult f b s c counts fs) = OutcomeFailed" "res_Failure (fixedFailureResult f b s c counts fs) = f"
  "res_StartedAt (fixedFailureResult f b s c counts fs) = s"
  by (simp_all add: fixedFailureResult_def Let_def)

lemma cancelled_valid:
  "\<not> IsZero s \<Longrightarrow> Result_Validate (plain_result OutcomeCancelled FailureCancelled False s (normalizedCompletion s t)) = None"
  using normalizedCompletion_bounds [of s t] by (simp add: Result_Validate_None_iff)

lemma ResultFromSync_valid: "ResultFromSync rep runErr s c n = Some r \<Longrightarrow> Result_Validate r = None"
  by (auto simp: ResultFromSync_def Let_def split: if_splits option.splits)

subsection \<open>Events\<close>

lemma mk_event_fields [simp]:
  "ev_Code (mk_event k p out sv f t) = k" "ev_Operation (mk_event k p out sv f t) = p" "ev_Feed (mk_event k p out sv f t) = []"
  "ev_Outcome (mk_event k p out sv f t) = out" "ev_Severity (mk_event k p out sv f t) = sv" "ev_Failure (mk_event k p out sv f t) = f"
  "ev_At (mk_event k p out sv f t) = t" "ev_Duration (mk_event k p out sv f t) = 0" "ev_Attempt (mk_event k p out sv f t) = 0"
  "ev_Counts (mk_event k p out sv f t) = zero_Counts"
  by (simp_all add: mk_event_def)

lemma feed_event_valid:
  assumes "FeedResult_valid f" and "time_zero < res_CompletedAt r"
  shows "Event_Validate (feed_event r f) = None"
proof -
  have n: "fr_Name f \<noteq> []" "ValidFeedName (fr_Name f)" using assms(1) by (auto simp: FeedResult_valid_def ValidFeedName_def feedNamePattern_def split: if_splits)
  have c: "Counts_valid (zero_Counts\<lparr>cnt_Rejected := fr_Rejected f\<rparr>)"
    using assms(1) by (auto simp: FeedResult_valid_def Counts_valid_def zero_Counts_def maxCount_def split: if_splits)
  have t: "\<not> IsZero (res_CompletedAt r)" using assms(2) by (simp add: IsZero_def)
  have o: "fr_Outcome f \<in> {OutcomeSuccess, OutcomeNotDue, OutcomeNotModified} \<and> fr_Failure f = NoFailure \<or>
      fr_Outcome f \<in> {OutcomeFailed, OutcomeDegraded} \<and> validFailure (fr_Failure f)"
    using assms(1) by (auto simp: FeedResult_valid_def split: if_splits)
  have d: "0 \<le> maxDuration" by (simp add: maxDuration_def go_time_defs)
  have s: "validSeverity (feedSeverity f)" by (simp add: feedSeverity_def validSeverity_def)
  from o show ?thesis
  proof
    assume "fr_Outcome f \<in> {OutcomeSuccess, OutcomeNotDue, OutcomeNotModified} \<and> fr_Failure f = NoFailure"
    with n c t d s show ?thesis by (auto simp: Event_Validate_def feed_event_def outcomeNeedsFailure_def)
  next
    assume "fr_Outcome f \<in> {OutcomeFailed, OutcomeDegraded} \<and> validFailure (fr_Failure f)"
    with n c t d s show ?thesis by (auto simp: Event_Validate_def feed_event_def outcomeNeedsFailure_def)
  qed
qed

lemma lapi_events_valid:
  assumes "Result_Validate r = None" and "time_zero < res_CompletedAt r" and "ev \<in> set (lapi_events runErr r)"
  shows "Event_Validate ev = None"
proof -
  have t: "\<not> IsZero (res_CompletedAt r)" using assms(2) by (simp add: IsZero_def)
  have d: "0 \<le> maxDuration" by (simp add: maxDuration_def go_time_defs)
  consider "ev = mk_event CodeLAPIStateChanged OperationLAPI OutcomeAvailable SeverityInfo NoFailure (res_CompletedAt r)"
    | "ev = mk_event CodeLAPIStateChanged OperationLAPI OutcomeUnavailable SeverityError (res_Failure r) (res_CompletedAt r)" "lapiUnavailable runErr r"
    using assms(3) by (auto simp: lapi_events_def split: if_splits)
  then show ?thesis
  proof cases
    case 1
    then show ?thesis using t d by (simp add: Event_Validate_def validSeverity_def outcomeNeedsFailure_def)
  next
    case 2
    have "validFailure (res_Failure r)" using 2(2) by (auto simp: lapiUnavailable_def)
    then show ?thesis using 2(1) t d by (simp add: Event_Validate_def validSeverity_def outcomeNeedsFailure_def)
  qed
qed

lemma completed_event_valid:
  assumes "Result_Validate r = None" and "time_zero < res_CompletedAt r"
  shows "Event_Validate (completed_event r) = None"
proof -
  have "0 \<le> time_Sub (res_CompletedAt r) (res_StartedAt r)" using assms(1) by (auto simp: Result_Validate_None_iff time_Sub_def max_int64_def min_int64_def)
  with assms show ?thesis
    by (auto simp: Result_Validate_None_iff completed_event_def Event_Validate_def validSeverity_def outcomeNeedsFailure_def IsZero_def validFailure_iff)
qed

definition result_events :: "run_error option \<Rightarrow> ops_Result \<Rightarrow> Event list" where
  "result_events runErr r = map (feed_event r) (res_Feeds r) @ lapi_events runErr r @ [completed_event r]"

lemma result_events_valid:
  assumes "Result_Validate r = None" and "time_zero < res_StartedAt r" and "ev \<in> set (result_events runErr r)"
  shows "Event_Validate ev = None"
proof -
  have t: "time_zero < res_CompletedAt r" and f: "\<forall>f \<in> set (res_Feeds r). FeedResult_valid f"
    using assms(1,2) by (auto simp: Result_Validate_None_iff)
  show ?thesis
    using assms(3) feed_event_valid [OF _ t] lapi_events_valid [OF assms(1) t] completed_event_valid [OF assms(1) t] f
    by (auto simp: result_events_def)
qed

subsection \<open>The trace of a job\<close>

datatype job_call =
    CallBegin "int option" | CallEngine | CallComplete int ops_Result bool | CallMetrics ops_Result | CallHealth ops_Result
  | CallEvent Event | CallSuspicious string | CallHandle ops_Result | CallStale

definition logged_job :: "'w job_env \<Rightarrow> ('w \<times> job_call list) job_env" where
  "logged_job env =
     \<lparr>je_Now = (\<lambda>(w, c). case je_Now env w of (t, w') \<Rightarrow> (t, w', c)),
      je_CtxErr = (\<lambda>(w, c). case je_CtxErr env w of (x, w') \<Rightarrow> (x, w', c)),
      je_BeginSyncRun = (\<lambda>m f t (w, c). case je_BeginSyncRun env m f t w of (x, w') \<Rightarrow> (x, w', c @ [CallBegin x])),
      je_Engine = (\<lambda>opts (w, c). case je_Engine env opts w of (rep, err, w') \<Rightarrow> (rep, err, w', c @ [CallEngine])),
      je_ListActiveDecisions = (\<lambda>(w, c). case je_ListActiveDecisions env w of (x, w') \<Rightarrow> (x, w', c)),
      je_CompleteSyncRun = (\<lambda>i r (w, c). case je_CompleteSyncRun env i r w of (ok, w') \<Rightarrow> (ok, w', c @ [CallComplete i r ok])),
      je_LastSafeSync = (\<lambda>(w, c). case je_LastSafeSync env w of (x, w') \<Rightarrow> (x, w', c)),
      je_ObserveSync = (\<lambda>r (w, c). (je_ObserveSync env r w, c @ [CallMetrics r])),
      je_RecordSync = (\<lambda>r (w, c). (je_RecordSync env r w, c @ [CallHealth r])),
      je_Observe = (\<lambda>e (w, c). (je_Observe env e w, c @ [CallEvent e])),
      je_HandleSync = (\<lambda>r (w, c). (je_HandleSync env r w, c @ [CallHandle r])),
      je_SuspiciousChange = (\<lambda>n k (w, c). (je_SuspiciousChange env n k w, c @ [CallSuspicious n])),
      je_StaleSync = (\<lambda>(w, c). (je_StaleSync env w, c @ [CallStale]))\<rparr>"

lemma logged_events:
  "\<forall>e \<in> set es. Event_Validate e = None \<Longrightarrow>
   \<exists>w'. foldl (\<lambda>w e. job_emit (logged_job env) e w) (w, c) es = (w', c @ map CallEvent es)"
proof (induction es arbitrary: w c)
  case (Cons e es)
  from Cons.IH [of "je_Observe env e w" "c @ [CallEvent e]"] Cons.prems show ?case
    by (simp add: job_emit_def logged_job_def)
qed simp

lemma logged_suspicious:
  "\<exists>w' names. notify_suspicious (logged_job env) rep r (w, c) = (w', c @ map CallSuspicious names)"
proof -
  have "\<exists>w' names. foldl (\<lambda>w item. if sfr_ErrorClass item = category_string FeedErrSuspiciousChange
      then je_SuspiciousChange (logged_job env) (sfr_Name item) (res_Counts r) w else w) (w, c) items = (w', c @ map CallSuspicious names)" for items
  proof (induction items arbitrary: w c)
    case (Cons item items)
    show ?case
    proof (cases "sfr_ErrorClass item = category_string FeedErrSuspiciousChange")
      case True
      obtain w' names where "foldl (\<lambda>w item. if sfr_ErrorClass item = category_string FeedErrSuspiciousChange
          then je_SuspiciousChange (logged_job env) (sfr_Name item) (res_Counts r) w else w)
          (je_SuspiciousChange env (sfr_Name item) (res_Counts r) w, c @ [CallSuspicious (sfr_Name item)]) items =
          (w', (c @ [CallSuspicious (sfr_Name item)]) @ map CallSuspicious names)" using Cons.IH by blast
      then show ?thesis using True by (intro exI [of _ w'] exI [of _ "sfr_Name item # names"]) (simp add: logged_job_def)
    next
      case False
      then show ?thesis using Cons.IH [of w c] by simp
    qed
  qed (auto intro: exI [of _ "[]"])
  then show ?thesis by (simp add: notify_suspicious_def)
qed

lemma logged_stale: "\<exists>w' cs. notify_stale (logged_job env) stale r (w, c) = (w', c @ cs) \<and> (cs = [] \<or> cs = [CallStale])"
  by (auto simp: notify_stale_def logged_job_def split: prod.splits option.splits)

lemma logged_observeResult:
  assumes "Result_Validate r = None" and "time_zero < res_StartedAt r"
  obtains w' notices where
    "observeResult (logged_job env) stale rep runErr r (w, c) = (w', c @ [CallMetrics r, CallHealth r] @ map CallEvent (result_events runErr r) @ notices)"
    and "res_Outcome r = OutcomeCancelled \<Longrightarrow> notices = []"
    and "res_Outcome r \<noteq> OutcomeCancelled \<Longrightarrow> \<exists>names cs. notices = map CallSuspicious names @ CallHandle r # cs \<and> (cs = [] \<or> cs = [CallStale])"
proof -
  obtain w1 where 1: "observe_events (logged_job env) runErr r
      (je_RecordSync (logged_job env) r (je_ObserveSync (logged_job env) r (w, c))) =
      (w1, c @ [CallMetrics r, CallHealth r] @ map CallEvent (result_events runErr r))"
    using logged_events [of "result_events runErr r" env "je_RecordSync env r (je_ObserveSync env r w)" "c @ [CallMetrics r, CallHealth r]"]
      result_events_valid [OF assms]
    by (auto simp: observe_events_def result_events_def logged_job_def)
  show thesis
  proof (cases "res_Outcome r = OutcomeCancelled")
    case True
    then show thesis using 1 that [of w1 "[]"] by (simp add: observeResult_def Let_def)
  next
    case False
    let ?c = "c @ [CallMetrics r, CallHealth r] @ map CallEvent (result_events runErr r)"
    obtain w2 names where 2: "notify_suspicious (logged_job env) rep r (w1, ?c) = (w2, ?c @ map CallSuspicious names)"
      using logged_suspicious [of env rep r w1 ?c] by blast
    obtain w3 cs where 3: "notify_stale (logged_job env) stale r (je_HandleSync env r w2, (?c @ map CallSuspicious names) @ [CallHandle r]) =
        (w3, ((?c @ map CallSuspicious names) @ [CallHandle r]) @ cs)" "cs = [] \<or> cs = [CallStale]"
      using logged_stale [of env stale r "je_HandleSync env r w2" "(?c @ map CallSuspicious names) @ [CallHandle r]"] by blast
    have "je_HandleSync (logged_job env) r (w2, ?c @ map CallSuspicious names) = (je_HandleSync env r w2, (?c @ map CallSuspicious names) @ [CallHandle r])"
      by (simp add: logged_job_def)
    then have "observeResult (logged_job env) stale rep runErr r (w, c) = (w3, ?c @ map CallSuspicious names @ CallHandle r # cs)"
      using False 1 2 3(1) by (simp add: observeResult_def Let_def)
    then show thesis using False 3(2) by (intro that [of w3 "map CallSuspicious names @ CallHandle r # cs"]) auto
  qed
qed

text \<open>The calls before the result is observed: none for a cancelled context, a refused opening, or opening,
  engine and completion of the same row.\<close>

definition job_body :: "job_call list \<Rightarrow> ops_Result \<Rightarrow> bool" where
  "job_body body r \<longleftrightarrow>
     body = [] \<and> res_Outcome r = OutcomeCancelled \<or>
     body = [CallBegin None] \<and> res_Outcome r = OutcomeFailed \<and> res_Failure r = FailureDatabase \<or>
     (\<exists>i r0. body = [CallBegin (Some i), CallEngine, CallComplete i r0 True] \<and> r = r0) \<or>
     (\<exists>i r0. body = [CallBegin (Some i), CallEngine, CallComplete i r0 False] \<and> Result_Validate r0 = None \<and>
        res_Outcome r = OutcomeFailed \<and> res_Failure r = FailureDatabase)"

definition job_notices :: "job_call list \<Rightarrow> ops_Result \<Rightarrow> bool" where
  "job_notices notices r \<longleftrightarrow>
     (if res_Outcome r = OutcomeCancelled then notices = []
      else \<exists>names cs. notices = map CallSuspicious names @ CallHandle r # cs \<and> (cs = [] \<or> cs = [CallStale]))"

lemma logged_simps [simp]:
  "je_Now (logged_job env) (w, c) = (case je_Now env w of (t, w') \<Rightarrow> (t, w', c))"
  "je_CtxErr (logged_job env) (w, c) = (case je_CtxErr env w of (x, w') \<Rightarrow> (x, w', c))"
  "je_BeginSyncRun (logged_job env) m f t (w, c) = (case je_BeginSyncRun env m f t w of (x, w') \<Rightarrow> (x, w', c @ [CallBegin x]))"
  "je_CompleteSyncRun (logged_job env) i r (w, c) = (case je_CompleteSyncRun env i r w of (ok, w') \<Rightarrow> (ok, w', c @ [CallComplete i r ok]))"
  "je_Observe (logged_job env) e (w, c) = (je_Observe env e w, c @ [CallEvent e])"
  by (simp_all add: logged_job_def)

lemma job_synchronize_logged:
  "\<exists>rep runErr n w'. job_synchronize (logged_job env) (w, c) = (rep, runErr, n, w', c @ [CallEngine])"
  by (auto simp: job_synchronize_def logged_job_def split: prod.splits option.splits)

lemma job_result_valid:
  assumes "time_zero < s"
  shows "Result_Validate (case ResultFromSync rep runErr s (normalizedCompletion s t) n of
      Some r \<Rightarrow> r | None \<Rightarrow> fixedFailureResult FailureInternal False s (normalizedCompletion s t) zero_Counts []) = None \<and>
    res_StartedAt (case ResultFromSync rep runErr s (normalizedCompletion s t) n of
      Some r \<Rightarrow> r | None \<Rightarrow> fixedFailureResult FailureInternal False s (normalizedCompletion s t) zero_Counts []) = s"
proof -
  have "\<not> IsZero s" using assms by (simp add: IsZero_def)
  then have "Result_Validate (fixedFailureResult FailureInternal False s (normalizedCompletion s t) zero_Counts []) = None"
    by (rule fixedFailureResult_valid) simp
  moreover have "res_StartedAt r = s" if "ResultFromSync rep runErr s (normalizedCompletion s t) n = Some r" for r
    using that by (auto simp: ResultFromSync_def run_outcome_def Let_def split: if_splits option.splits prod.splits)
  ultimately show ?thesis using ResultFromSync_valid by (auto split: option.splits)
qed

lemma job_finish:
  assumes "observeResult (logged_job env) staleAfter rep runErr r (v, CallEvent ev # body) = (w', calls)"
    and "Result_Validate r = None" and "time_zero < res_StartedAt r" and "job_body body r"
  shows "\<exists>body runErr notices. calls = CallEvent ev # body @ [CallMetrics r, CallHealth r] @ map CallEvent (result_events runErr r) @ notices \<and>
    job_body body r \<and> job_notices notices r"
proof -
  from logged_observeResult [OF assms(2,3), of env staleAfter rep runErr v "CallEvent ev # body"]
  obtain v' notices where "observeResult (logged_job env) staleAfter rep runErr r (v, CallEvent ev # body) =
      (v', (CallEvent ev # body) @ [CallMetrics r, CallHealth r] @ map CallEvent (result_events runErr r) @ notices)"
    and "job_notices notices r" by (metis job_notices_def)
  then show ?thesis using assms(1,4) by auto
qed

text \<open>
  C15. For every behaviour of the store, the engine, the clock and the context: a job returns a valid result; a
  history row it opened it completes exactly once, with the result it returns unless the store refuses, in which
  case it returns a database failure; metrics and readiness each see the returned result once; every event of the
  run is valid, so none is dropped: one for the start, one per feed, at most one on the local API, one for the
  completion; a cancelled run notifies nobody, any other run is handed to the notification policy exactly once.
\<close>

theorem job_Run_protocol:
  assumes "job_Run (logged_job env) staleAfter (w, []) = (r, w', calls)" and "\<And>w. time_zero < fst (je_Now env w)"
  shows "Result_Validate r = None \<and>
    (\<exists>startedAt body runErr notices.
       calls = CallEvent (mk_event CodeSyncStarted OperationSync OutcomeStarted SeverityInfo NoFailure startedAt) # body @
         [CallMetrics r, CallHealth r] @ map CallEvent (result_events runErr r) @ notices \<and>
       job_body body r \<and> job_notices notices r)"
proof -
  obtain startedAt w1 where now: "je_Now env w = (startedAt, w1)" by (rule prod.exhaust)
  then have t0: "time_zero < startedAt" using assms(2) [of w] by simp
  then have nz: "\<not> IsZero startedAt" by (simp add: IsZero_def)
  let ?ev = "mk_event CodeSyncStarted OperationSync OutcomeStarted SeverityInfo NoFailure startedAt"
  have ev: "Event_Validate ?ev = None"
    using nz by (simp add: Event_Validate_def validSeverity_def outcomeNeedsFailure_def maxDuration_def go_time_defs)
  obtain cerr w3 where ctx: "je_CtxErr env (je_Observe env ?ev w1) = (cerr, w3)" by (rule prod.exhaust)
  have finish: ?thesis
    if "observeResult (logged_job env) staleAfter rep runErr r (v, CallEvent ?ev # body) = (w', calls)"
      and "Result_Validate r = None" and "res_StartedAt r = startedAt" and "job_body body r" for rep runErr v body
    using job_finish [OF that(1,2) _ that(4)] that(2,3) t0 by auto
  show ?thesis
  proof (cases cerr)
    case (Some err)
    obtain ended w4 where "je_Now env w3 = (ended, w4)" by (rule prod.exhaust)
    then have r: "r = plain_result OutcomeCancelled FailureCancelled False startedAt (normalizedCompletion startedAt ended)"
      and "observeResult (logged_job env) staleAfter zero_sync_Report (Some err) r (w4, [CallEvent ?ev]) = (w', calls)"
      using assms(1) now ev ctx Some by (auto simp: job_Run_def job_emit_def Let_def)
    then show ?thesis using cancelled_valid [OF nz] by (intro finish [of _ _ _ "[]"]) (auto simp: job_body_def)
  next
    case None
    obtain b w4 where opened: "je_BeginSyncRun env SyncModeEnforce [] startedAt w3 = (b, w4)" by (rule prod.exhaust)
    show ?thesis
    proof (cases b)
      case None2: None
      obtain ended w5 where "je_Now env w4 = (ended, w5)" by (rule prod.exhaust)
      then have r: "r = fixedFailureResult FailureDatabase True startedAt (normalizedCompletion startedAt ended) zero_Counts []"
        and "observeResult (logged_job env) staleAfter zero_sync_Report (Some [OtherLink ''state'']) r (w5, CallEvent ?ev # [CallBegin None]) = (w', calls)"
        using assms(1) now ev ctx None opened None2 by (auto simp: job_Run_def job_emit_def Let_def)
      then show ?thesis using fixedFailureResult_valid [OF nz] by (intro finish [of _ _ _ "[CallBegin None]"]) (auto simp: job_body_def)
    next
      case (Some i)
      obtain rep runErr n w5 where sync: "job_synchronize (logged_job env) (w4, [CallEvent ?ev, CallBegin (Some i)]) =
          (rep, runErr, n, w5, [CallEvent ?ev, CallBegin (Some i)] @ [CallEngine])" 
        using job_synchronize_logged [of env w4 "[CallEvent ?ev, CallBegin (Some i)]"] by blast
      obtain ended w6 where ended: "je_Now env w5 = (ended, w6)" by (rule prod.exhaust)
      define r0 where "r0 = (case ResultFromSync rep runErr startedAt (normalizedCompletion startedAt ended) n of
          Some r \<Rightarrow> r | None \<Rightarrow> fixedFailureResult FailureInternal False startedAt (normalizedCompletion startedAt ended) zero_Counts [])"
      have r0: "Result_Validate r0 = None" "res_StartedAt r0 = startedAt" using job_result_valid [OF t0] by (simp_all add: r0_def)
      obtain ok w7 where ok: "je_CompleteSyncRun env i r0 w6 = (ok, w7)" by (rule prod.exhaust)
      let ?fail = "fixedFailureResult FailureDatabase True startedAt (normalizedCompletion startedAt ended) (res_Counts r0) (res_Feeds r0)"
      have r: "r = (if ok then r0 else ?fail)"
        and obs: "observeResult (logged_job env) staleAfter rep runErr r (w7, CallEvent ?ev # [CallBegin (Some i), CallEngine, CallComplete i r0 ok]) = (w', calls)"
        using assms(1) now ev ctx None opened Some sync ended ok by (auto simp: job_Run_def job_emit_def Let_def r0_def [symmetric])
      show ?thesis
        using r r0 fixedFailureResult_valid [OF nz] by (intro finish [OF obs]) (auto simp: job_body_def)
    qed
  qed
qed

text \<open>A world without state: a fixed clock, a store that opens row 1 and accepts its completion, an engine with
  nothing to report.\<close>

definition sample_job :: "unit job_env" where
  "sample_job =
     \<lparr>je_Now = (\<lambda>w. (1000 * second, w)), je_CtxErr = (\<lambda>w. (None, w)), je_BeginSyncRun = (\<lambda>m f t w. (Some 1, w)),
      je_Engine = (\<lambda>opts w. (zero_sync_Report, None, w)), je_ListActiveDecisions = (\<lambda>w. (Some 2, w)),
      je_CompleteSyncRun = (\<lambda>i r w. (True, w)), je_LastSafeSync = (\<lambda>w. (None, w)), je_ObserveSync = (\<lambda>r w. w),
      je_RecordSync = (\<lambda>r w. w), je_Observe = (\<lambda>e w. w), je_HandleSync = (\<lambda>r w. w),
      je_SuspiciousChange = (\<lambda>n k w. w), je_StaleSync = (\<lambda>w. w)\<rparr>"

theorem job_Run_protocol_witness:
  "\<exists>r w' calls. job_Run (logged_job sample_job) hour ((), []) = (r, w', calls) \<and> Result_Validate r = None \<and>
    (\<exists>startedAt body runErr notices.
       calls = CallEvent (mk_event CodeSyncStarted OperationSync OutcomeStarted SeverityInfo NoFailure startedAt) # body @
         [CallMetrics r, CallHealth r] @ map CallEvent (result_events runErr r) @ notices \<and>
       job_body body r \<and> job_notices notices r)"
proof -
  obtain r w' calls where run: "job_Run (logged_job sample_job) hour ((), []) = (r, w', calls)" by (metis prod.exhaust)
  have "time_zero < fst (je_Now sample_job w)" for w by (simp add: sample_job_def go_time_defs time_zero_def)
  from job_Run_protocol [OF run this] run show ?thesis by blast
qed

end
