(* ===== verification/App_Runtime.thy ===== *)
theory App_Runtime
  imports App_Job Store_Prune
begin

text \<open>
  The file \<^verbatim>\<open>internal/app/runtime.go\<close>: startup, the two workers of the service and its shutdown. What the runtime
  calls is a record of functions on an arbitrary world, as in the source. The goroutines of \<^verbatim>\<open>Run\<close> are a step
  relation: the main routine, the scheduler and the HTTP server move in any order, the workers change the world
  as they like, and the context may end at any time.
\<close>

subsection \<open>Definitions: interfaces\<close>

text \<open>A boolean result says that there was no error. The prune call has the retention and the bound on the entries built in.\<close>

record 'w runtime_env =
  re_Now :: "'w \<Rightarrow> gotime \<times> 'w"
  re_Recover :: "gotime \<Rightarrow> 'w \<Rightarrow> bool \<times> 'w"
  re_Timestamp :: "RuntimeTimestampKey \<Rightarrow> 'w \<Rightarrow> (gotime \<times> bool) option \<times> 'w"
  re_Prune :: "gotime \<Rightarrow> 'w \<Rightarrow> PruneResult option \<times> 'w"
  re_ListActive :: "'w \<Rightarrow> int option \<times> 'w"
  re_Authenticate :: "'w \<Rightarrow> bool \<times> 'w"
  re_MarkConfiguration :: "bool \<Rightarrow> 'w \<Rightarrow> 'w"
  re_MarkCredentials :: "bool \<Rightarrow> 'w \<Rightarrow> 'w"
  re_MarkDatabase :: "bool \<Rightarrow> 'w \<Rightarrow> 'w"
  re_MarkLAPI :: "bool \<Rightarrow> 'w \<Rightarrow> 'w"
  re_MarkRuntimeFatal :: "'w \<Rightarrow> 'w"
  re_MarkStopping :: "'w \<Rightarrow> 'w"
  re_RecordSync :: "ops_Result \<Rightarrow> 'w \<Rightarrow> bool \<times> 'w"
  re_SetActive :: "int \<Rightarrow> 'w \<Rightarrow> bool \<times> 'w"
  re_Startup :: "'w \<Rightarrow> 'w"
  re_Observe :: "Event \<Rightarrow> 'w \<Rightarrow> 'w"
  re_NotifyClose :: "'w \<Rightarrow> 'w"
  re_Shutdown :: "'w \<Rightarrow> bool \<times> 'w"
  re_ListenerClose :: "'w \<Rightarrow> 'w"
  re_IdleClosers :: "('w \<Rightarrow> 'w) list"
  re_StateClose :: "'w \<Rightarrow> bool \<times> 'w"
  re_Destroy :: "'w \<Rightarrow> 'w"
  re_PruneInterval :: duration
  re_Work :: "'w \<Rightarrow> 'w \<Rightarrow> bool"

definition validRuntimeOptions :: "duration \<Rightarrow> int \<Rightarrow> duration \<Rightarrow> bool" where
  "validRuntimeOptions historyRetention maxHistoryEntries pruneInterval =
     (\<not> (historyRetention < hour \<or> historyRetention > 10 * 365 * 24 * hour \<or> maxHistoryEntries < 1 \<or> maxHistoryEntries > 1000000
         \<or> pruneInterval < hour \<or> pruneInterval > 30 * 24 * hour))"

definition runtime_emit :: "'w runtime_env \<Rightarrow> Event \<Rightarrow> 'w \<Rightarrow> 'w" where
  "runtime_emit env event w = (if Event_Validate event = None then re_Observe env event w else w)"

definition service_event :: "Code \<Rightarrow> Outcome \<Rightarrow> Severity \<Rightarrow> FailureCategory \<Rightarrow> gotime \<Rightarrow> Event" where
  "service_event evcode outcome severity failure at_time = mk_event evcode OperationService outcome severity failure at_time"

subsection \<open>Definitions: bootstrap\<close>

fun prune_sum :: "int list \<Rightarrow> int \<Rightarrow> int option" where
  "prune_sum [] acc = Some acc"
| "prune_sum (v # vs) acc = (if v < 0 \<or> v > 100000000 \<or> acc > 100000000 - v then None else prune_sum vs (acc + v))"

definition pruneRemoved :: "PruneResult \<Rightarrow> int option" where
  "pruneRemoved r =
     prune_sum [pr_SyncRuns r, pr_Operations r, pr_Decisions r, pr_Alerts r, pr_EnforcementObjects r, pr_FeedEntries r] 0"

definition database_lost :: "'w runtime_env \<Rightarrow> gotime \<Rightarrow> 'w \<Rightarrow> 'w" where
  "database_lost env now w =
     runtime_emit env (mk_event CodeDatabaseStateChange OperationDatabase OutcomeUnavailable SeverityError FailureDatabase now)
       (re_MarkDatabase env False w)"

text \<open>The parts of \<^verbatim>\<open>bootstrap\<close> in their order; each gives whether it succeeded.\<close>

definition boot_recover :: "'w runtime_env \<Rightarrow> gotime \<Rightarrow> 'w \<Rightarrow> bool \<times> 'w" where
  "boot_recover env now w =
     (case re_Recover env now w of
        (False, w1) \<Rightarrow> (False, database_lost env now w1)
      | (True, w1) \<Rightarrow>
          (True, runtime_emit env (mk_event CodeDatabaseStateChange OperationDatabase OutcomeAvailable SeverityInfo NoFailure now)
             (re_MarkDatabase env True w1)))"

definition boot_last_sync :: "'w runtime_env \<Rightarrow> gotime \<Rightarrow> 'w \<Rightarrow> bool \<times> 'w" where
  "boot_last_sync env now w =
     (case re_Timestamp env RuntimeLastSafeSync w of
        (None, w1) \<Rightarrow> (False, database_lost env now w1)
      | (Some (lastSafe, found), w1) \<Rightarrow>
          if found then re_RecordSync env (plain_result OutcomeSuccess NoFailure False lastSafe lastSafe) w1 else (True, w1))"

definition boot_prune :: "'w runtime_env \<Rightarrow> gotime \<Rightarrow> 'w \<Rightarrow> bool \<times> 'w" where
  "boot_prune env now w =
     (case re_Timestamp env RuntimeLastPrune w of
        (None, w1) \<Rightarrow> (False, database_lost env now w1)
      | (Some (lastPrune, prunedBefore), w1) \<Rightarrow>
          if \<not> prunedBefore \<or> (\<not> now < lastPrune \<and> time_Sub now lastPrune \<ge> re_PruneInterval env) then
            (case re_Prune env now w1 of
               (None, w2) \<Rightarrow> (False, database_lost env now w2)
             | (Some res, w2) \<Rightarrow>
                 (case pruneRemoved res of
                    None \<Rightarrow> (False, database_lost env now w2)
                  | Some removed \<Rightarrow>
                      (True, runtime_emit env ((mk_event CodePruneCompleted OperationPrune OutcomeSuccess SeverityInfo NoFailure now)
                         \<lparr>ev_Counts := zero_Counts\<lparr>cnt_Removed := removed\<rparr>\<rparr>) w2)))
          else (True, w1))"

definition boot_gauge :: "'w runtime_env \<Rightarrow> 'w \<Rightarrow> bool \<times> 'w" where
  "boot_gauge env w =
     (case re_ListActive env w of
        (None, w1) \<Rightarrow> (False, w1)
      | (Some n, w1) \<Rightarrow> re_SetActive env n w1)"

definition boot_authenticate :: "'w runtime_env \<Rightarrow> gotime \<Rightarrow> 'w \<Rightarrow> bool \<times> 'w" where
  "boot_authenticate env now w =
     (case re_Authenticate env w of
        (False, w1) \<Rightarrow>
          (False, runtime_emit env (mk_event CodeLAPIStateChanged OperationLAPI OutcomeUnavailable SeverityError FailureLAPIAuth now)
             (re_MarkLAPI env False w1))
      | (True, w1) \<Rightarrow>
          (True, runtime_emit env (mk_event CodeLAPIStateChanged OperationLAPI OutcomeAvailable SeverityInfo NoFailure now)
             (re_MarkLAPI env True w1)))"

definition boot_then :: "('w \<Rightarrow> bool \<times> 'w) \<Rightarrow> ('w \<Rightarrow> bool \<times> 'w) \<Rightarrow> 'w \<Rightarrow> bool \<times> 'w" where
  "boot_then f g w = (case f w of (False, w1) \<Rightarrow> (False, w1) | (True, w1) \<Rightarrow> g w1)"

definition boot_finish :: "'w runtime_env \<Rightarrow> gotime \<Rightarrow> 'w \<Rightarrow> bool \<times> 'w" where
  "boot_finish env now w =
     (True, runtime_emit env (service_event CodeServiceStarted OutcomeSuccess SeverityInfo NoFailure now) (re_Startup env w))"

definition bootstrap :: "'w runtime_env \<Rightarrow> 'w \<Rightarrow> bool \<times> 'w" where
  "bootstrap env w =
     (case re_Now env w of (now, w1) \<Rightarrow>
        if IsZero now \<or> unix now < 0 then (False, w1)
        else
          boot_then (boot_recover env now) (boot_then (boot_last_sync env now) (boot_then (boot_prune env now)
            (boot_then (boot_gauge env) (boot_then (boot_authenticate env now) (boot_finish env now)))))
            (re_MarkCredentials env True (re_MarkConfiguration env True
              (runtime_emit env (service_event CodeServiceStarting OutcomeStarted SeverityInfo NoFailure now) w1))))"

subsection \<open>Definitions: the end of a runtime\<close>

definition closeResources :: "'w runtime_env \<Rightarrow> 'w \<Rightarrow> bool \<times> 'w" where
  "closeResources env w =
     (case re_StateClose env (foldl (\<lambda>w close. close w) (re_ListenerClose env w) (re_IdleClosers env)) of
        (ok, w1) \<Rightarrow> (ok, re_Destroy env w1))"

definition failStartup :: "'w runtime_env \<Rightarrow> 'w \<Rightarrow> 'w" where
  "failStartup env w =
     (case re_Now env w of (now, w1) \<Rightarrow>
        snd (closeResources env (re_NotifyClose env
          (runtime_emit env (service_event CodeRuntimeFatal OutcomeFailed SeverityError FailureRuntime now) (re_MarkRuntimeFatal env w1)))))"

text \<open>\<^verbatim>\<open>runRuntimeWorker\<close>: an error and a panic of a worker are the same failure.\<close>

datatype worker_end = WorkerReturned bool | WorkerPanicked

fun runRuntimeWorker :: "worker_end \<Rightarrow> bool" where
  "runRuntimeWorker (WorkerReturned ok) = ok"
| "runRuntimeWorker WorkerPanicked = False"

subsection \<open>Definitions: Run\<close>

datatype runtime_error = ErrRuntimeAlreadyRun | ErrRuntimeStartup | ErrRuntimeFailure | ErrRuntimeShutdown

text \<open>A worker runs, has put its result into its channel, or its result was received.\<close>

datatype worker = Running | Returned bool | Received

datatype runtime_pc = PcSelect | PcAnnounce | PcJoinScheduler | PcShutdown | PcJoinHTTP | PcClose | PcDone

record 'w runtime_state =
  rt_pc :: runtime_pc
  rt_world :: 'w
  rt_ctxDone :: bool
  rt_cancelled :: bool
  rt_sched :: worker
  rt_http :: worker
  rt_err :: "runtime_error option"
  rt_shutdownOK :: bool

definition announce :: "'w runtime_env \<Rightarrow> runtime_error option \<Rightarrow> 'w \<Rightarrow> 'w" where
  "announce env err w =
     (case re_Now env w of (now, w1) \<Rightarrow>
        runtime_emit env (service_event CodeServiceStopping OutcomeStarted SeverityInfo NoFailure now)
          (re_MarkStopping env
            (if err \<noteq> None
             then runtime_emit env (service_event CodeRuntimeFatal OutcomeFailed SeverityError FailureRuntime now) (re_MarkRuntimeFatal env w1)
             else w1)))"

definition join_error :: "bool \<Rightarrow> runtime_error option \<Rightarrow> runtime_error option" where
  "join_error ok err = (if \<not> ok \<and> err = None then Some ErrRuntimeFailure else err)"

definition final_close :: "'w runtime_env \<Rightarrow> bool \<Rightarrow> runtime_error option \<Rightarrow> 'w \<Rightarrow> runtime_error option \<times> 'w" where
  "final_close env shutdownOK err w =
     (case closeResources env w of (ok, w1) \<Rightarrow>
      case re_Now env w1 of (now, w2) \<Rightarrow>
        (if (\<not> ok \<or> \<not> shutdownOK) \<and> err = None then Some ErrRuntimeShutdown else err,
         runtime_emit env (service_event CodeServiceStopped OutcomeStopped SeverityInfo NoFailure now) w2))"

inductive runtime_step :: "'w runtime_env \<Rightarrow> 'w runtime_state \<Rightarrow> 'w runtime_state \<Rightarrow> bool" for env where
  ctx_done: "runtime_step env s (s\<lparr>rt_ctxDone := True\<rparr>)"
| work: "rt_sched s = Running \<or> rt_http s = Running \<Longrightarrow> re_Work env (rt_world s) w' \<Longrightarrow> runtime_step env s (s\<lparr>rt_world := w'\<rparr>)"
| scheduler_ends: "rt_sched s = Running \<Longrightarrow> runtime_step env s (s\<lparr>rt_sched := Returned (runRuntimeWorker e)\<rparr>)"
| http_ends: "rt_http s = Running \<Longrightarrow> runtime_step env s (s\<lparr>rt_http := Returned (runRuntimeWorker e)\<rparr>)"
| select_ctx: "rt_pc s = PcSelect \<Longrightarrow> rt_ctxDone s \<Longrightarrow> runtime_step env s (s\<lparr>rt_pc := PcAnnounce\<rparr>)"
| select_scheduler: "rt_pc s = PcSelect \<Longrightarrow> rt_sched s = Returned ok \<Longrightarrow>
    runtime_step env s (s\<lparr>rt_pc := PcAnnounce, rt_sched := Received, rt_err := Some ErrRuntimeFailure\<rparr>)"
| select_http: "rt_pc s = PcSelect \<Longrightarrow> rt_http s = Returned ok \<Longrightarrow>
    runtime_step env s (s\<lparr>rt_pc := PcAnnounce, rt_http := Received, rt_err := Some ErrRuntimeFailure\<rparr>)"
| announce_stop: "rt_pc s = PcAnnounce \<Longrightarrow>
    runtime_step env s (s\<lparr>rt_pc := PcJoinScheduler, rt_world := announce env (rt_err s) (rt_world s), rt_cancelled := True\<rparr>)"
| join_scheduler: "rt_pc s = PcJoinScheduler \<Longrightarrow> rt_sched s = Returned ok \<Longrightarrow>
    runtime_step env s (s\<lparr>rt_pc := PcShutdown, rt_sched := Received, rt_err := join_error ok (rt_err s)\<rparr>)"
| joined_scheduler: "rt_pc s = PcJoinScheduler \<Longrightarrow> rt_sched s = Received \<Longrightarrow> runtime_step env s (s\<lparr>rt_pc := PcShutdown\<rparr>)"
| shutdown_http: "rt_pc s = PcShutdown \<Longrightarrow> re_Shutdown env (re_NotifyClose env (rt_world s)) = (ok, w') \<Longrightarrow>
    runtime_step env s (s\<lparr>rt_pc := PcJoinHTTP, rt_world := w', rt_shutdownOK := ok\<rparr>)"
| join_http: "rt_pc s = PcJoinHTTP \<Longrightarrow> rt_http s = Returned ok \<Longrightarrow>
    runtime_step env s (s\<lparr>rt_pc := PcClose, rt_http := Received, rt_err := join_error ok (rt_err s)\<rparr>)"
| joined_http: "rt_pc s = PcJoinHTTP \<Longrightarrow> rt_http s = Received \<Longrightarrow> runtime_step env s (s\<lparr>rt_pc := PcClose\<rparr>)"
| close: "rt_pc s = PcClose \<Longrightarrow> final_close env (rt_shutdownOK s) (rt_err s) (rt_world s) = (err, w') \<Longrightarrow>
    runtime_step env s (s\<lparr>rt_pc := PcDone, rt_world := w', rt_err := err\<rparr>)"

definition workers_started :: "bool \<Rightarrow> 'w \<Rightarrow> 'w runtime_state" where
  "workers_started ctxDone w =
     \<lparr>rt_pc = PcSelect, rt_world = w, rt_ctxDone = ctxDone, rt_cancelled = False, rt_sched = Running, rt_http = Running,
      rt_err = None, rt_shutdownOK = False\<rparr>"

text \<open>\<^verbatim>\<open>Run\<close>, for a runtime that ran before or not: the error it returns, and the world then.\<close>

inductive runtime_Run :: "'w runtime_env \<Rightarrow> bool \<Rightarrow> 'w \<Rightarrow> runtime_error option \<Rightarrow> 'w \<Rightarrow> bool" for env where
  again: "runtime_Run env True w (Some ErrRuntimeAlreadyRun) w"
| startup: "bootstrap env w = (False, w1) \<Longrightarrow> runtime_Run env False w (Some ErrRuntimeStartup) (failStartup env w1)"
| served: "bootstrap env w = (True, w1) \<Longrightarrow> (runtime_step env)\<^sup>*\<^sup>* (workers_started ctxDone w1) s \<Longrightarrow> rt_pc s = PcDone \<Longrightarrow>
    runtime_Run env False w (rt_err s) (rt_world s)"

end
