(* ===== verification/App_Runtime_Facts.thy ===== *)
theory App_Runtime_Facts
  imports App_Runtime
begin

text \<open>
  The life of a runtime over every interleaving of its routines: what it holds is released exactly once and in
  order, nothing is closed under a worker that still runs, and no reachable state is stuck.
\<close>

subsection \<open>The log of released resources\<close>

datatype release = RelNotify | RelShutdown bool | RelListener | RelIdle nat | RelState bool | RelDestroy

definition logged_runtime :: "'w runtime_env \<Rightarrow> ('w \<times> release list) runtime_env" where
  "logged_runtime env =
     \<lparr>re_Now = (\<lambda>(w, c). case re_Now env w of (x, w') \<Rightarrow> (x, w', c)),
      re_Recover = (\<lambda>t (w, c). case re_Recover env t w of (x, w') \<Rightarrow> (x, w', c)),
      re_Timestamp = (\<lambda>k (w, c). case re_Timestamp env k w of (x, w') \<Rightarrow> (x, w', c)),
      re_Prune = (\<lambda>t (w, c). case re_Prune env t w of (x, w') \<Rightarrow> (x, w', c)),
      re_ListActive = (\<lambda>(w, c). case re_ListActive env w of (x, w') \<Rightarrow> (x, w', c)),
      re_Authenticate = (\<lambda>(w, c). case re_Authenticate env w of (x, w') \<Rightarrow> (x, w', c)),
      re_MarkConfiguration = (\<lambda>b (w, c). (re_MarkConfiguration env b w, c)),
      re_MarkCredentials = (\<lambda>b (w, c). (re_MarkCredentials env b w, c)),
      re_MarkDatabase = (\<lambda>b (w, c). (re_MarkDatabase env b w, c)),
      re_MarkLAPI = (\<lambda>b (w, c). (re_MarkLAPI env b w, c)),
      re_MarkRuntimeFatal = (\<lambda>(w, c). (re_MarkRuntimeFatal env w, c)),
      re_MarkStopping = (\<lambda>(w, c). (re_MarkStopping env w, c)),
      re_RecordSync = (\<lambda>r (w, c). case re_RecordSync env r w of (x, w') \<Rightarrow> (x, w', c)),
      re_SetActive = (\<lambda>n (w, c). case re_SetActive env n w of (x, w') \<Rightarrow> (x, w', c)),
      re_Startup = (\<lambda>(w, c). (re_Startup env w, c)),
      re_Observe = (\<lambda>e (w, c). (re_Observe env e w, c)),
      re_NotifyClose = (\<lambda>(w, c). (re_NotifyClose env w, c @ [RelNotify])),
      re_Shutdown = (\<lambda>(w, c). case re_Shutdown env w of (ok, w') \<Rightarrow> (ok, w', c @ [RelShutdown ok])),
      re_ListenerClose = (\<lambda>(w, c). (re_ListenerClose env w, c @ [RelListener])),
      re_IdleClosers = map (\<lambda>(i, close) (w, c). (close w, c @ [RelIdle i])) (enumerate 0 (re_IdleClosers env)),
      re_StateClose = (\<lambda>(w, c). case re_StateClose env w of (ok, w') \<Rightarrow> (ok, w', c @ [RelState ok])),
      re_Destroy = (\<lambda>(w, c). (re_Destroy env w, c @ [RelDestroy])),
      re_PruneInterval = re_PruneInterval env,
      re_Work = (\<lambda>(w, c) (w', c'). re_Work env w w' \<and> c' = c)\<rparr>"

text \<open>Calls that leave the log alone.\<close>

definition quiet :: "('w \<times> release list \<Rightarrow> 'a \<times> 'w \<times> release list) \<Rightarrow> bool" where
  "quiet f \<longleftrightarrow> (\<forall>x. snd (snd (f x)) = snd x)"

lemma quiet_calls:
  "quiet (re_Now (logged_runtime env))" "quiet (re_Recover (logged_runtime env) t)" "quiet (re_Timestamp (logged_runtime env) k)"
  "quiet (re_Prune (logged_runtime env) t)" "quiet (re_ListActive (logged_runtime env))" "quiet (re_Authenticate (logged_runtime env))"
  "quiet (re_RecordSync (logged_runtime env) r)" "quiet (re_SetActive (logged_runtime env) n)"
  by (auto simp: quiet_def logged_runtime_def split: prod.splits)

lemma quiet_marks [simp]:
  "snd (re_MarkConfiguration (logged_runtime env) b x) = snd x" "snd (re_MarkCredentials (logged_runtime env) b x) = snd x"
  "snd (re_MarkDatabase (logged_runtime env) b x) = snd x" "snd (re_MarkLAPI (logged_runtime env) b x) = snd x"
  "snd (re_MarkRuntimeFatal (logged_runtime env) x) = snd x" "snd (re_MarkStopping (logged_runtime env) x) = snd x"
  "snd (re_Startup (logged_runtime env) x) = snd x" "snd (runtime_emit (logged_runtime env) e x) = snd x"
  by (auto simp: logged_runtime_def runtime_emit_def split: prod.splits)

lemma notify_log [simp]: "snd (re_NotifyClose (logged_runtime env) x) = snd x @ [RelNotify]"
  by (cases x) (simp add: logged_runtime_def)

lemma quietD: "quiet f \<Longrightarrow> f x = (a, y) \<Longrightarrow> snd y = snd x"
  unfolding quiet_def by (metis snd_conv)

lemma quiet_then:
  assumes f: "quiet f" and g: "quiet g"
  shows "quiet (boot_then f g)"
  unfolding quiet_def
proof
  fix x
  obtain ok y where y: "f x = (ok, y)" by (rule prod.exhaust)
  obtain ok' z where z: "g y = (ok', z)" by (rule prod.exhaust)
  show "snd (snd (boot_then f g x)) = snd x"
    using y z quietD [OF f y] quietD [OF g z] by (cases ok) (simp_all add: boot_then_def)
qed

lemma quiet_database_lost [simp]: "snd (database_lost (logged_runtime env) now x) = snd x"
  by (simp add: database_lost_def)

lemma quiet_parts:
  "quiet (boot_recover (logged_runtime env) now)" "quiet (boot_last_sync (logged_runtime env) now)" "quiet (boot_prune (logged_runtime env) now)"
  "quiet (boot_gauge (logged_runtime env))" "quiet (boot_authenticate (logged_runtime env) now)" "quiet (boot_finish (logged_runtime env) now)"
proof -
  note q = quiet_calls [THEN quietD]
  show "quiet (boot_recover (logged_runtime env) now)"
    by (auto simp: quiet_def boot_recover_def split: prod.splits bool.splits dest: q)
  show "quiet (boot_last_sync (logged_runtime env) now)"
    using quiet_calls(7) [of env] by (auto simp: quiet_def boot_last_sync_def split: prod.splits option.splits dest: q)
  show "quiet (boot_prune (logged_runtime env) now)"
    unfolding quiet_def boot_prune_def by (auto split: prod.splits option.splits dest!: q)
  show "quiet (boot_gauge (logged_runtime env))"
    using quiet_calls(8) [of env] by (auto simp: quiet_def boot_gauge_def split: prod.splits option.splits dest: q)
  show "quiet (boot_authenticate (logged_runtime env) now)"
    by (auto simp: quiet_def boot_authenticate_def split: prod.splits bool.splits dest: q)
  show "quiet (boot_finish (logged_runtime env) now)" by (simp add: quiet_def boot_finish_def)
qed

lemma quiet_bootstrap: "bootstrap (logged_runtime env) x = (ok, y) \<Longrightarrow> snd y = snd x"
proof -
  assume b: "bootstrap (logged_runtime env) x = (ok, y)"
  obtain now x1 where n: "re_Now (logged_runtime env) x = (now, x1)" by (rule prod.exhaust)
  let ?f = "boot_then (boot_recover (logged_runtime env) now) (boot_then (boot_last_sync (logged_runtime env) now)
    (boot_then (boot_prune (logged_runtime env) now) (boot_then (boot_gauge (logged_runtime env))
      (boot_then (boot_authenticate (logged_runtime env) now) (boot_finish (logged_runtime env) now)))))"
  have f: "quiet ?f" by (intro quiet_then quiet_parts)
  show ?thesis
  proof (cases "IsZero now \<or> unix now < 0")
    case True
    then show ?thesis using b n quietD [OF quiet_calls(1) n] by (simp add: bootstrap_def)
  next
    case False
    then have "?f (re_MarkCredentials (logged_runtime env) True (re_MarkConfiguration (logged_runtime env) True
        (runtime_emit (logged_runtime env) (service_event CodeServiceStarting OutcomeStarted SeverityInfo NoFailure now) x1))) = (ok, y)"
      using b n by (simp add: bootstrap_def)
    from quietD [OF f this] quietD [OF quiet_calls(1) n] show ?thesis by simp
  qed
qed

lemma idle_log:
  "snd (foldl (\<lambda>w close. close w) x (map (\<lambda>(i, close) (w, c). (close w, c @ [RelIdle i])) (enumerate k closers))) =
    snd x @ map RelIdle [k..<k + length closers]"
proof (induction closers arbitrary: k x)
  case (Cons close closers)
  have "[k..<k + length (close # closers)] = k # [Suc k..<Suc k + length closers]"
    using upt_conv_Cons [of k "k + length (close # closers)"] by simp
  then show ?case using Cons.IH [where k = "Suc k"] by (cases x) (simp del: upt_Suc)
qed simp

definition close_log :: "'w runtime_env \<Rightarrow> bool \<Rightarrow> release list" where
  "close_log env ok = RelListener # map RelIdle [0..<length (re_IdleClosers env)] @ [RelState ok, RelDestroy]"

lemma closeResources_log: "closeResources (logged_runtime env) x = (ok, y) \<Longrightarrow> snd y = snd x @ close_log env ok"
proof -
  assume c: "closeResources (logged_runtime env) x = (ok, y)"
  let ?z = "foldl (\<lambda>w close. close w) (re_ListenerClose (logged_runtime env) x) (re_IdleClosers (logged_runtime env))"
  have "snd ?z = snd x @ RelListener # map RelIdle [0..<length (re_IdleClosers env)]"
    using idle_log [of "re_ListenerClose (logged_runtime env) x" 0 "re_IdleClosers env"]
    by (cases x) (simp add: logged_runtime_def)
  moreover obtain a z1 where z: "re_StateClose (logged_runtime env) ?z = (a, z1)" by (rule prod.exhaust)
  moreover have "snd z1 = snd ?z @ [RelState a]" using z by (cases ?z) (auto simp: logged_runtime_def split: prod.splits)
  moreover have "snd (re_Destroy (logged_runtime env) z1) = snd z1 @ [RelDestroy]" by (cases z1) (simp add: logged_runtime_def)
  ultimately show ?thesis using c by (simp add: closeResources_def close_log_def del: upt_Suc) 
qed

lemma failStartup_log: "\<exists>ok. snd (failStartup (logged_runtime env) x) = snd x @ RelNotify # close_log env ok"
proof -
  obtain now x1 where n: "re_Now (logged_runtime env) x = (now, x1)" by (rule prod.exhaust)
  let ?z = "runtime_emit (logged_runtime env) (service_event CodeRuntimeFatal OutcomeFailed SeverityError FailureRuntime now)
    (re_MarkRuntimeFatal (logged_runtime env) x1)"
  have z: "snd (re_NotifyClose (logged_runtime env) ?z) = snd x @ [RelNotify]"
    using quietD [OF quiet_calls(1) n] by simp
  obtain ok y where c: "closeResources (logged_runtime env) (re_NotifyClose (logged_runtime env) ?z) = (ok, y)" by (rule prod.exhaust)
  from closeResources_log [OF c] z n c show ?thesis by (auto simp: failStartup_def)
qed

lemma announce_log [simp]: "snd (announce (logged_runtime env) err x) = snd x"
  using quiet_calls(1) [of env, THEN quietD, of x] by (auto simp: announce_def split: prod.splits)

subsection \<open>The invariant of the routines\<close>

definition runtime_inv :: "'w runtime_env \<Rightarrow> ('w \<times> release list) runtime_state \<Rightarrow> bool" where
  "runtime_inv env s \<longleftrightarrow>
     (case rt_pc s of
        PcSelect \<Rightarrow> snd (rt_world s) = [] \<and> rt_sched s \<noteq> Received \<and> rt_http s \<noteq> Received \<and> rt_err s = None \<and> \<not> rt_cancelled s
      | PcAnnounce \<Rightarrow> snd (rt_world s) = [] \<and> (rt_err s = None \<longrightarrow> rt_ctxDone s) \<and> \<not> rt_cancelled s
      | PcJoinScheduler \<Rightarrow> snd (rt_world s) = [] \<and> (rt_err s = None \<longrightarrow> rt_ctxDone s) \<and> rt_cancelled s
      | PcShutdown \<Rightarrow> snd (rt_world s) = [] \<and> (rt_err s = None \<longrightarrow> rt_ctxDone s) \<and> rt_cancelled s \<and> rt_sched s = Received
      | PcJoinHTTP \<Rightarrow> snd (rt_world s) = [RelNotify, RelShutdown (rt_shutdownOK s)] \<and> (rt_err s = None \<longrightarrow> rt_ctxDone s) \<and> rt_sched s = Received
      | PcClose \<Rightarrow> snd (rt_world s) = [RelNotify, RelShutdown (rt_shutdownOK s)] \<and> (rt_err s = None \<longrightarrow> rt_ctxDone s) \<and>
          rt_sched s = Received \<and> rt_http s = Received
      | PcDone \<Rightarrow> (\<exists>ok. snd (rt_world s) = RelNotify # RelShutdown (rt_shutdownOK s) # close_log env ok \<and>
          (rt_err s = None \<longrightarrow> rt_ctxDone s \<and> rt_shutdownOK s \<and> ok)) \<and> rt_err s \<noteq> Some ErrRuntimeStartup \<and>
          rt_sched s = Received \<and> rt_http s = Received) \<and>
     rt_err s \<notin> {Some ErrRuntimeStartup, Some ErrRuntimeAlreadyRun}"

lemma runtime_inv_step: "runtime_step (logged_runtime env) s s' \<Longrightarrow> runtime_inv env s \<Longrightarrow> runtime_inv env s'"
proof (induction rule: runtime_step.induct)
  case (work s w')
  have "snd w' = snd (rt_world s)" using work(2) by (auto simp: logged_runtime_def split: prod.splits)
  then show ?case using work(3) by (auto simp: runtime_inv_def split: runtime_pc.splits)
next
  case (shutdown_http s ok w')
  have "snd w' = snd (rt_world s) @ [RelNotify, RelShutdown ok]"
    using shutdown_http(2) by (cases "rt_world s") (auto simp: logged_runtime_def split: prod.splits)
  then show ?case using shutdown_http(1,3) by (simp add: runtime_inv_def)
next
  case (close s err w')
  obtain ok w1 where c: "closeResources (logged_runtime env) (rt_world s) = (ok, w1)" by (rule prod.exhaust)
  obtain now w2 where n: "re_Now (logged_runtime env) w1 = (now, w2)" by (rule prod.exhaust)
  have "snd w' = snd (rt_world s) @ close_log env ok"
    using close(2) c n closeResources_log [OF c] quietD [OF quiet_calls(1) n] by (auto simp: final_close_def)
  moreover have "err = (if (\<not> ok \<or> \<not> rt_shutdownOK s) \<and> rt_err s = None then Some ErrRuntimeShutdown else rt_err s)"
    using close(2) c n by (auto simp: final_close_def)
  ultimately show ?case using close(1,3) by (auto simp: runtime_inv_def)
qed (auto simp: runtime_inv_def join_error_def split: runtime_pc.splits)

lemma runtime_inv_reachable:
  assumes "(runtime_step (logged_runtime env))\<^sup>*\<^sup>* (workers_started ctxDone (w, [])) s"
  shows "runtime_inv env s"
  using assms
proof (induction rule: rtranclp_induct)
  case base
  show ?case by (simp add: runtime_inv_def workers_started_def)
qed (rule runtime_inv_step)

subsection \<open>Progress\<close>

text \<open>The main routine waits for the end of the context or of a worker, and for nothing else.\<close>

definition main_waits :: "('w \<times> release list) runtime_state \<Rightarrow> bool" where
  "main_waits s \<longleftrightarrow>
     rt_pc s = PcSelect \<and> \<not> rt_ctxDone s \<and> rt_sched s = Running \<and> rt_http s = Running \<or>
     rt_pc s = PcJoinScheduler \<and> rt_sched s = Running \<and> rt_cancelled s \<or>
     rt_pc s = PcJoinHTTP \<and> rt_http s = Running \<and> RelShutdown (rt_shutdownOK s) \<in> set (snd (rt_world s))"

lemma main_progress:
  assumes "runtime_inv env s" and "rt_pc s \<noteq> PcDone" and "\<not> main_waits s"
  shows "\<exists>s'. runtime_step (logged_runtime env) s s' \<and> rt_pc s' \<noteq> rt_pc s"
proof -
  have go: ?thesis if "runtime_step (logged_runtime env) s s'" "rt_pc s' \<noteq> rt_pc s" for s' using that by blast
  show ?thesis
  proof (cases "rt_pc s")
    case PcSelect
    then consider "rt_ctxDone s" | ok where "rt_sched s = Returned ok" | ok where "rt_http s = Returned ok"
      using assms by (cases "rt_sched s"; cases "rt_http s") (auto simp: runtime_inv_def main_waits_def)
    then show ?thesis
      by cases (rule go [OF select_ctx [OF PcSelect]] go [OF select_scheduler [OF PcSelect]] go [OF select_http [OF PcSelect]], assumption, simp add: PcSelect)+
  next
    case PcAnnounce
    then show ?thesis by (intro go [OF announce_stop]) simp_all
  next
    case PcJoinScheduler
    then show ?thesis
    proof (cases "rt_sched s")
      case Received
      then show ?thesis using PcJoinScheduler by (intro go [OF joined_scheduler]) simp_all
    next
      case (Returned ok)
      show ?thesis by (rule go [OF join_scheduler [OF PcJoinScheduler Returned]]) (simp add: PcJoinScheduler)
    qed (use assms PcJoinScheduler in \<open>simp add: runtime_inv_def main_waits_def\<close>)
  next
    case PcShutdown
    obtain ok w' where "re_Shutdown (logged_runtime env) (re_NotifyClose (logged_runtime env) (rt_world s)) = (ok, w')" by (rule prod.exhaust)
    from go [OF shutdown_http [OF PcShutdown this]] PcShutdown show ?thesis by simp
  next
    case PcJoinHTTP
    then show ?thesis
    proof (cases "rt_http s")
      case Received
      then show ?thesis using PcJoinHTTP by (intro go [OF joined_http]) simp_all
    next
      case (Returned ok)
      show ?thesis by (rule go [OF join_http [OF PcJoinHTTP Returned]]) (simp add: PcJoinHTTP)
    qed (use assms PcJoinHTTP in \<open>simp add: runtime_inv_def main_waits_def\<close>)
  next
    case PcClose
    obtain err w' where "final_close (logged_runtime env) (rt_shutdownOK s) (rt_err s) (rt_world s) = (err, w')" by (rule prod.exhaust)
    from go [OF close [OF PcClose this]] PcClose show ?thesis by simp
  qed (use assms in simp)
qed

fun pc_rank :: "runtime_pc \<Rightarrow> nat" where
  "pc_rank PcSelect = 6" | "pc_rank PcAnnounce = 5" | "pc_rank PcJoinScheduler = 4" | "pc_rank PcShutdown = 3"
| "pc_rank PcJoinHTTP = 2" | "pc_rank PcClose = 1" | "pc_rank PcDone = 0"

lemma pc_rank_step: "runtime_step env s s' \<Longrightarrow> rt_pc s' \<noteq> rt_pc s \<Longrightarrow> pc_rank (rt_pc s') < pc_rank (rt_pc s)"
  by (induction rule: runtime_step.induct) auto

lemma wait_ends:
  assumes "main_waits s"
  shows "\<exists>s1. runtime_step (logged_runtime env) s s1 \<and> rt_pc s1 = rt_pc s \<and> \<not> main_waits s1"
proof -
  consider "rt_pc s = PcSelect" | "rt_pc s = PcJoinScheduler" "rt_sched s = Running" | "rt_pc s = PcJoinHTTP" "rt_http s = Running"
    using assms by (auto simp: main_waits_def)
  then show ?thesis
  proof cases
    case 1
    then show ?thesis using ctx_done [of "logged_runtime env" s] by (intro exI [of _ "s\<lparr>rt_ctxDone := True\<rparr>"]) (simp add: main_waits_def)
  next
    case 2
    then show ?thesis using scheduler_ends [OF 2(2), of "logged_runtime env" "WorkerReturned True"]
      by (intro exI [of _ "s\<lparr>rt_sched := Returned True\<rparr>"]) (simp add: main_waits_def)
  next
    case 3
    then show ?thesis using http_ends [OF 3(2), of "logged_runtime env" "WorkerReturned True"]
      by (intro exI [of _ "s\<lparr>rt_http := Returned True\<rparr>"]) (simp add: main_waits_def)
  qed
qed

lemma runtime_can_end:
  assumes "runtime_inv env s"
  shows "\<exists>s'. (runtime_step (logged_runtime env))\<^sup>*\<^sup>* s s' \<and> rt_pc s' = PcDone"
  using assms
proof (induction "pc_rank (rt_pc s)" arbitrary: s rule: less_induct)
  case less
  show ?case
  proof (cases "rt_pc s = PcDone")
    case False
    obtain s1 where s1: "(runtime_step (logged_runtime env))\<^sup>*\<^sup>* s s1" "rt_pc s1 = rt_pc s" "\<not> main_waits s1" "runtime_inv env s1"
      using wait_ends [of s env] less.prems runtime_inv_step [of env s] by (cases "main_waits s") (blast intro: r_into_rtranclp, blast)
    then obtain s2 where s2: "runtime_step (logged_runtime env) s1 s2" "rt_pc s2 \<noteq> rt_pc s1" using main_progress [OF s1(4)] False by auto
    then have "pc_rank (rt_pc s2) < pc_rank (rt_pc s)" using pc_rank_step s1(2) by metis
    from less.hyps [OF this] s1 s2 runtime_inv_step show ?thesis by (meson rtranclp.rtrancl_into_rtrancl rtranclp_trans)
  qed blast
qed

text \<open>
  C16. Over every interleaving of the main routine, the scheduler, the HTTP server and the end of the context: the
  notification manager is closed only after the scheduler returned, and listener, connections, database and credentials only after
  both workers did; in every state the main routine can move unless it waits for the context or a worker, and it waits for a
  worker only after it told it to stop; from every state the runtime can still come to its end.
\<close>

theorem runtime_shutdown_safe:
  assumes "(runtime_step (logged_runtime env))\<^sup>*\<^sup>* (workers_started ctxDone (w, [])) s"
  shows "(snd (rt_world s) \<noteq> [] \<longrightarrow> rt_sched s = Received) \<and>
    (set (snd (rt_world s)) \<inter> (range RelIdle \<union> range RelState \<union> {RelListener, RelDestroy}) \<noteq> {} \<longrightarrow> rt_sched s = Received \<and> rt_http s = Received) \<and>
    (rt_pc s \<noteq> PcDone \<longrightarrow> main_waits s \<or> (\<exists>s'. runtime_step (logged_runtime env) s s' \<and> rt_pc s' \<noteq> rt_pc s)) \<and>
    (\<exists>s'. (runtime_step (logged_runtime env))\<^sup>*\<^sup>* s s' \<and> rt_pc s' = PcDone)"
proof -
  have inv: "runtime_inv env s" by (rule runtime_inv_reachable [OF assms])
  then have "(snd (rt_world s) \<noteq> [] \<longrightarrow> rt_sched s = Received) \<and>
    (set (snd (rt_world s)) \<inter> (range RelIdle \<union> range RelState \<union> {RelListener, RelDestroy}) \<noteq> {} \<longrightarrow> rt_sched s = Received \<and> rt_http s = Received)"
    by (auto simp: runtime_inv_def split: runtime_pc.splits)
  with main_progress [OF inv] runtime_can_end [OF inv] show ?thesis by blast
qed

text \<open>
  C17. A runtime runs once, and however its run ends (a startup that fails at any point, the end of the context, or a
  worker that returned too early) it releases everything it holds exactly once and in the same order: the notification
  manager, then the server if it was started, the listener, every pool of connections, the database, and the credentials
  last. No error is returned only if the context ended, the server shut down in time and the database closed.
\<close>

theorem runtime_Run_releases:
  assumes "runtime_Run (logged_runtime env) before_run (w, []) err (w', released)"
  shows "(before_run \<longrightarrow> err = Some ErrRuntimeAlreadyRun \<and> w' = w \<and> released = []) \<and>
    (\<not> before_run \<longrightarrow> (\<exists>server ok. released = RelNotify # server @ RelListener # map RelIdle [0..<length (re_IdleClosers env)] @ [RelState ok, RelDestroy] \<and>
       (err = Some ErrRuntimeStartup \<and> server = [] \<or>
        err \<noteq> Some ErrRuntimeStartup \<and> (\<exists>stopped. server = [RelShutdown stopped] \<and> (err = None \<longrightarrow> stopped \<and> ok)))))"
  using assms
proof (cases rule: runtime_Run.cases)
  case (startup w1)
  obtain ok where "snd (failStartup (logged_runtime env) w1) = snd w1 @ RelNotify # close_log env ok" using failStartup_log [of env w1] by blast
  moreover have "snd w1 = []" using quiet_bootstrap [OF startup(4)] by simp
  ultimately have "released = RelNotify # close_log env ok" using startup(3) by (metis append_Nil snd_conv)
  then show ?thesis using startup(1,2) by (auto simp: close_log_def)
next
  case (served w1 ctxDone s)
  obtain v where "w1 = (v, [])" using quiet_bootstrap [OF served(4)] by (cases w1) simp
  then have "runtime_inv env s" using runtime_inv_reachable [of env ctxDone v s] served(5) by simp
  then obtain ok where "released = RelNotify # [RelShutdown (rt_shutdownOK s)] @ close_log env ok" "rt_err s = None \<longrightarrow> rt_shutdownOK s \<and> ok"
    "rt_err s \<noteq> Some ErrRuntimeStartup" using served(3,6) by (auto simp: runtime_inv_def dest!: sym [of "(w', released)"])
  then show ?thesis using served(1,2)
    by (intro conjI impI exI [of _ "[RelShutdown (rt_shutdownOK s)]"] exI [of _ ok]) (simp_all add: close_log_def)
qed auto

subsection \<open>Concrete runs\<close>

text \<open>A runtime whose local API answers or refuses the login; the clock stands still and nothing is stored yet.\<close>

definition sample_runtime :: "bool \<Rightarrow> unit runtime_env" where
  "sample_runtime login =
     \<lparr>re_Now = (\<lambda>w. (1000 * second, w)), re_Recover = (\<lambda>t w. (True, w)), re_Timestamp = (\<lambda>k w. (Some (0, False), w)),
      re_Prune = (\<lambda>t w. (Some \<lparr>pr_SyncRuns = 1, pr_Operations = 0, pr_Decisions = 0, pr_Alerts = 0, pr_EnforcementObjects = 0, pr_FeedEntries = 0\<rparr>, w)),
      re_ListActive = (\<lambda>w. (Some 0, w)), re_Authenticate = (\<lambda>w. (login, w)), re_MarkConfiguration = (\<lambda>b w. w), re_MarkCredentials = (\<lambda>b w. w),
      re_MarkDatabase = (\<lambda>b w. w), re_MarkLAPI = (\<lambda>b w. w), re_MarkRuntimeFatal = (\<lambda>w. w), re_MarkStopping = (\<lambda>w. w),
      re_RecordSync = (\<lambda>r w. (True, w)), re_SetActive = (\<lambda>n w. (True, w)), re_Startup = (\<lambda>w. w), re_Observe = (\<lambda>e w. w), re_NotifyClose = (\<lambda>w. w),
      re_Shutdown = (\<lambda>w. (True, w)), re_ListenerClose = (\<lambda>w. w), re_IdleClosers = [\<lambda>w. w, \<lambda>w. w], re_StateClose = (\<lambda>w. (True, w)),
      re_Destroy = (\<lambda>w. w), re_PruneInterval = 24 * hour, re_Work = (\<lambda>w w'. False)\<rparr>"

lemma sample_runtime_calls:
  "runtime_emit (logged_runtime (sample_runtime login)) e x = x" "re_Now (logged_runtime (sample_runtime login)) x = (1000 * second, x)"
  "re_Recover (logged_runtime (sample_runtime login)) t x = (True, x)" "re_Timestamp (logged_runtime (sample_runtime login)) k x = (Some (0, False), x)"
  "re_ListActive (logged_runtime (sample_runtime login)) x = (Some 0, x)" "re_SetActive (logged_runtime (sample_runtime login)) n x = (True, x)"
  "re_Authenticate (logged_runtime (sample_runtime login)) x = (login, x)" "re_MarkDatabase (logged_runtime (sample_runtime login)) b x = x"
  "re_MarkLAPI (logged_runtime (sample_runtime login)) b x = x" "re_MarkCredentials (logged_runtime (sample_runtime login)) b x = x"
  "re_MarkConfiguration (logged_runtime (sample_runtime login)) b x = x"
  "re_Prune (logged_runtime (sample_runtime login)) t x =
    (Some \<lparr>pr_SyncRuns = 1, pr_Operations = 0, pr_Decisions = 0, pr_Alerts = 0, pr_EnforcementObjects = 0, pr_FeedEntries = 0\<rparr>, x)"
  by (cases x; simp add: logged_runtime_def sample_runtime_def runtime_emit_def)+

lemma sample_bootstrap: "fst (bootstrap (logged_runtime (sample_runtime login)) ((), [])) = login"
proof -
  have "\<not> IsZero (1000 * second)" "\<not> unix (1000 * second) < 0" by (simp_all add: IsZero_def unix_def time_zero_def go_time_defs)
  then show ?thesis
    by (cases login) (simp_all add: bootstrap_def boot_then_def boot_recover_def boot_last_sync_def boot_prune_def boot_gauge_def boot_authenticate_def
        boot_finish_def pruneRemoved_def sample_runtime_calls)
qed

text \<open>The scheduler fails right after the start.\<close>

theorem runtime_shutdown_safe_witness:
  "\<exists>s. (runtime_step (logged_runtime (sample_runtime True)))\<^sup>*\<^sup>* (workers_started False ((), [])) s \<and> rt_sched s = Returned False \<and>
     (\<exists>s'. (runtime_step (logged_runtime (sample_runtime True)))\<^sup>*\<^sup>* s s' \<and> rt_pc s' = PcDone)"
proof -
  let ?s = "(workers_started False ((), []))\<lparr>rt_sched := Returned False\<rparr>"
  have "runtime_step (logged_runtime (sample_runtime True)) (workers_started False ((), [])) ?s"
    using scheduler_ends [of "workers_started False ((), [])" "logged_runtime (sample_runtime True)" WorkerPanicked] by (simp add: workers_started_def)
  then have "(runtime_step (logged_runtime (sample_runtime True)))\<^sup>*\<^sup>* (workers_started False ((), [])) ?s" by (rule r_into_rtranclp)
  from runtime_shutdown_safe [OF this] this show ?thesis by (intro exI [of _ ?s]) simp
qed

theorem runtime_Run_releases_witness:
  "\<exists>w'. runtime_Run (logged_runtime (sample_runtime False)) False ((), []) (Some ErrRuntimeStartup) (w',
     [RelNotify, RelListener, RelIdle 0, RelIdle 1, RelState True, RelDestroy])"
proof -
  let ?env = "logged_runtime (sample_runtime False)"
  obtain w1 where b: "bootstrap ?env ((), []) = (False, w1)" using sample_bootstrap [of False] by (cases "bootstrap ?env ((), [])") simp
  obtain w' released where f: "failStartup ?env w1 = (w', released)" by (rule prod.exhaust)
  have run: "runtime_Run ?env False ((), []) (Some ErrRuntimeStartup) (w', released)" using runtime_Run.startup [OF b] f by simp
  from runtime_Run_releases [OF this] obtain ok where r: "released = [RelNotify, RelListener, RelIdle 0, RelIdle 1, RelState ok, RelDestroy]"
    by (auto simp: sample_runtime_def upt_rec)
  have "RelState False \<notin> set released" using f quiet_bootstrap [OF b]
    by (cases w1) (auto simp: failStartup_def closeResources_def logged_runtime_def sample_runtime_def runtime_emit_def split: if_splits)
  then show ?thesis using run r by (cases ok) auto
qed

end
