(* ===== verification/Health.thy ===== *)
theory Health
  imports Ops
begin

text \<open>
  The package \<^verbatim>\<open>internal/health\<close>, file \<^verbatim>\<open>readiness.go\<close>: the tracker that turns marks, synchronization
  results and events into the readiness answer. A \<^verbatim>\<open>*Tracker\<close> is an option, \<open>None\<close> being the nil
  pointer; every method holds the mutex for its whole body, so a method is one step, and the
  reading of the clock is an argument. The abstract specification reads readiness off the history of
  observations alone; the tracker implements it.
\<close>

subsection \<open>Definitions: types\<close>

datatype health_error = ErrInvalidOptions | ErrInvalidObservation

datatype health_Status = StatusReady | StatusNotReady

text \<open>\<open>NoReason\<close> is the empty string, the zero value of the Go type.\<close>

datatype Reason =
    NoReason | ReasonReady | ReasonConfigurationPending | ReasonConfigurationInvalid
  | ReasonCredentialsPending | ReasonCredentialsUnavailable | ReasonDatabasePending
  | ReasonDatabaseUnavailable | ReasonLAPIPending | ReasonLAPIUnavailable | ReasonSyncPending
  | ReasonSyncStale | ReasonRuntimeFatal | ReasonStopping

datatype Component =
    ComponentPending | ComponentValid | ComponentInvalid | ComponentLoaded | ComponentAvailable
  | ComponentUnavailable | ComponentGrace | ComponentCurrent | ComponentStale | ComponentRunning
  | ComponentFatal | ComponentStopping

record Response =
  rsp_Status :: health_Status
  rsp_Reason :: Reason
  rsp_Configuration :: Component
  rsp_Credentials :: Component
  rsp_Database :: Component
  rsp_LAPI :: Component
  rsp_Synchronization :: Component
  rsp_Runtime :: Component

record Tracker =
  tr_maxSyncAge :: duration
  tr_lapiOutageGrace :: duration
  tr_configuration :: Component
  tr_credentials :: Component
  tr_database :: Component
  tr_lapi :: Component
  tr_runtime :: Component
  tr_lapiEverReady :: bool
  tr_lapiOutageAt :: gotime
  tr_lastSuccess :: gotime

subsection \<open>Definitions: operations\<close>

definition health_New :: "duration \<Rightarrow> duration \<Rightarrow> (health_error, Tracker) result" where
  "health_New maxSyncAge lapiOutageGrace =
     (if maxSyncAge \<le> 0 \<or> maxSyncAge > 30 * 24 * hour \<or> lapiOutageGrace \<le> 0 \<or> lapiOutageGrace > maxSyncAge
      then Inl ErrInvalidOptions
      else Inr \<lparr>tr_maxSyncAge = maxSyncAge, tr_lapiOutageGrace = lapiOutageGrace,
        tr_configuration = ComponentPending, tr_credentials = ComponentPending,
        tr_database = ComponentPending, tr_lapi = ComponentPending, tr_runtime = ComponentRunning,
        tr_lapiEverReady = False, tr_lapiOutageAt = time_zero, tr_lastSuccess = time_zero\<rparr>)"

definition MarkConfiguration :: "bool \<Rightarrow> Tracker option \<Rightarrow> Tracker option" where
  "MarkConfiguration valid =
     map_option (tr_configuration_update (\<lambda>_. if valid then ComponentValid else ComponentInvalid))"

definition MarkCredentials :: "bool \<Rightarrow> Tracker option \<Rightarrow> Tracker option" where
  "MarkCredentials loaded =
     map_option (tr_credentials_update (\<lambda>_. if loaded then ComponentLoaded else ComponentUnavailable))"

definition MarkDatabase :: "bool \<Rightarrow> Tracker option \<Rightarrow> Tracker option" where
  "MarkDatabase available =
     map_option (tr_database_update (\<lambda>_. if available then ComponentAvailable else ComponentUnavailable))"

definition MarkLAPI :: "gotime \<Rightarrow> bool \<Rightarrow> Tracker option \<Rightarrow> Tracker option" where
  "MarkLAPI now available = map_option (\<lambda>t.
     if available then t\<lparr>tr_lapi := ComponentAvailable, tr_lapiEverReady := True, tr_lapiOutageAt := time_zero\<rparr>
     else (if tr_lapi t \<noteq> ComponentUnavailable then t\<lparr>tr_lapiOutageAt := now\<rparr> else t)\<lparr>tr_lapi := ComponentUnavailable\<rparr>)"

definition MarkRuntimeFatal :: "Tracker option \<Rightarrow> Tracker option" where
  "MarkRuntimeFatal = map_option (tr_runtime_update (\<lambda>_. ComponentFatal))"

definition MarkStopping :: "Tracker option \<Rightarrow> Tracker option" where
  "MarkStopping = map_option (\<lambda>t. if tr_runtime t \<noteq> ComponentFatal then t\<lparr>tr_runtime := ComponentStopping\<rparr> else t)"

definition safeSynchronization :: "ops_Result \<Rightarrow> bool" where
  "safeSynchronization r =
     (if res_Outcome r = OutcomeSuccess then True
      else res_Outcome r = OutcomeDegraded \<and> (res_Failure r = FailureFeedDownload \<or> res_Failure r = FailureFeedValidation))"

definition RecordSync :: "ops_Result \<Rightarrow> Tracker option \<Rightarrow> (health_error, unit) result \<times> Tracker option" where
  "RecordSync r p =
     (case p of
        None \<Rightarrow> (Inl ErrInvalidObservation, None)
      | Some t \<Rightarrow>
          if Result_Validate r \<noteq> None then (Inl ErrInvalidObservation, p)
          else if \<not> safeSynchronization r then (Inr (), p)
          else (Inr (), Some (if res_CompletedAt r > tr_lastSuccess t then t\<lparr>tr_lastSuccess := res_CompletedAt r\<rparr> else t)))"

definition recordSafeSuccess :: "gotime \<Rightarrow> Tracker option \<Rightarrow> Tracker option" where
  "recordSafeSuccess at = map_option (\<lambda>t.
     if IsZero at then t else if at > tr_lastSuccess t then t\<lparr>tr_lastSuccess := at\<rparr> else t)"

definition ApplyEvent :: "gotime \<Rightarrow> Event \<Rightarrow> Tracker option \<Rightarrow> (health_error, unit) result \<times> Tracker option" where
  "ApplyEvent now e p =
     (if p = None \<or> Event_Validate e \<noteq> None then (Inl ErrInvalidObservation, p)
      else (Inr (),
        case ev_Code e of
          CodeLAPIStateChanged \<Rightarrow>
            (case ev_Outcome e of
               OutcomeAvailable \<Rightarrow> MarkLAPI now True p
             | OutcomeRecovered \<Rightarrow> MarkLAPI now True p
             | OutcomeUnavailable \<Rightarrow> MarkLAPI now False p
             | _ \<Rightarrow> p)
        | CodeDatabaseStateChange \<Rightarrow>
            (case ev_Outcome e of
               OutcomeAvailable \<Rightarrow> MarkDatabase True p
             | OutcomeRecovered \<Rightarrow> MarkDatabase True p
             | OutcomeUnavailable \<Rightarrow> MarkDatabase False p
             | OutcomeFailed \<Rightarrow> MarkDatabase False p
             | _ \<Rightarrow> p)
        | CodeRuntimeFatal \<Rightarrow> MarkRuntimeFatal p
        | CodeServiceStopping \<Rightarrow> MarkStopping p
        | CodeServiceStopped \<Rightarrow> MarkStopping p
        | CodeSyncCompleted \<Rightarrow>
            if ev_Outcome e = OutcomeSuccess \<or>
               (ev_Outcome e = OutcomeDegraded \<and> (ev_Failure e = FailureFeedDownload \<or> ev_Failure e = FailureFeedValidation))
            then recordSafeSuccess (ev_At e) p else p
        | _ \<Rightarrow> p))"

definition health_Observe :: "gotime \<Rightarrow> Event \<Rightarrow> Tracker option \<Rightarrow> Tracker option" where
  "health_Observe now e p = snd (ApplyEvent now e p)"

definition baseResponse :: "Tracker \<Rightarrow> Response" where
  "baseResponse t =
     \<lparr>rsp_Status = StatusNotReady, rsp_Reason = NoReason, rsp_Configuration = tr_configuration t,
      rsp_Credentials = tr_credentials t, rsp_Database = tr_database t, rsp_LAPI = tr_lapi t,
      rsp_Synchronization = ComponentPending, rsp_Runtime = tr_runtime t\<rparr>"

definition Snapshot_sync :: "gotime \<Rightarrow> Tracker \<Rightarrow> Response \<Rightarrow> Response" where
  "Snapshot_sync now t response =
     (if IsZero (tr_lastSuccess t) then response\<lparr>rsp_Reason := ReasonSyncPending\<rparr>
      else if time_Sub now (tr_lastSuccess t) > tr_maxSyncAge t
      then response\<lparr>rsp_Synchronization := ComponentStale, rsp_Reason := ReasonSyncStale\<rparr>
      else response\<lparr>rsp_Synchronization := ComponentCurrent, rsp_Status := StatusReady, rsp_Reason := ReasonReady\<rparr>)"

definition health_Snapshot :: "gotime \<Rightarrow> Tracker option \<Rightarrow> Response" where
  "health_Snapshot now p =
     (case p of
        None \<Rightarrow>
          \<lparr>rsp_Status = StatusNotReady, rsp_Reason = ReasonRuntimeFatal, rsp_Configuration = ComponentPending,
           rsp_Credentials = ComponentPending, rsp_Database = ComponentPending, rsp_LAPI = ComponentPending,
           rsp_Synchronization = ComponentPending, rsp_Runtime = ComponentFatal\<rparr>
      | Some t \<Rightarrow>
          let response = baseResponse t in
          if rsp_Runtime response = ComponentFatal then response\<lparr>rsp_Reason := ReasonRuntimeFatal\<rparr>
          else if rsp_Runtime response = ComponentStopping then response\<lparr>rsp_Reason := ReasonStopping\<rparr>
          else if rsp_Configuration response = ComponentPending then response\<lparr>rsp_Reason := ReasonConfigurationPending\<rparr>
          else if rsp_Configuration response = ComponentInvalid then response\<lparr>rsp_Reason := ReasonConfigurationInvalid\<rparr>
          else if rsp_Credentials response = ComponentPending then response\<lparr>rsp_Reason := ReasonCredentialsPending\<rparr>
          else if rsp_Credentials response = ComponentUnavailable then response\<lparr>rsp_Reason := ReasonCredentialsUnavailable\<rparr>
          else if rsp_Database response = ComponentPending then response\<lparr>rsp_Reason := ReasonDatabasePending\<rparr>
          else if rsp_Database response = ComponentUnavailable then response\<lparr>rsp_Reason := ReasonDatabaseUnavailable\<rparr>
          else if rsp_LAPI response = ComponentPending then response\<lparr>rsp_Reason := ReasonLAPIPending\<rparr>
          else if rsp_LAPI response = ComponentUnavailable then
            (if tr_lapiEverReady t \<and> \<not> IsZero (tr_lapiOutageAt t) \<and>
                time_Sub now (tr_lapiOutageAt t) \<le> tr_lapiOutageGrace t
             then Snapshot_sync now t (response\<lparr>rsp_LAPI := ComponentGrace\<rparr>)
             else response\<lparr>rsp_Reason := ReasonLAPIUnavailable\<rparr>)
          else Snapshot_sync now t response)"

subsection \<open>Definitions: the operations on a history\<close>

text \<open>One call of a method, and what it lets the tracker observe.\<close>

datatype tracker_call =
    CallConfiguration bool | CallCredentials bool | CallDatabase bool | CallLAPI gotime bool
  | CallFatal | CallStopping | CallSync ops_Result | CallEvent gotime Event

fun tracker_apply :: "tracker_call \<Rightarrow> Tracker option \<Rightarrow> Tracker option" where
  "tracker_apply (CallConfiguration b) p = MarkConfiguration b p"
| "tracker_apply (CallCredentials b) p = MarkCredentials b p"
| "tracker_apply (CallDatabase b) p = MarkDatabase b p"
| "tracker_apply (CallLAPI now b) p = MarkLAPI now b p"
| "tracker_apply CallFatal p = MarkRuntimeFatal p"
| "tracker_apply CallStopping p = MarkStopping p"
| "tracker_apply (CallSync r) p = snd (RecordSync r p)"
| "tracker_apply (CallEvent now e) p = health_Observe now e p"

datatype observation =
    ObsConfiguration bool | ObsCredentials bool | ObsDatabase bool | ObsLAPI gotime bool
  | ObsFatal | ObsStopping | ObsSync gotime

definition event_observation :: "gotime \<Rightarrow> Event \<Rightarrow> observation option" where
  "event_observation now e =
     (if Event_Validate e \<noteq> None then None
      else if ev_Code e = CodeLAPIStateChanged then
        (if ev_Outcome e \<in> {OutcomeAvailable, OutcomeRecovered} then Some (ObsLAPI now True)
         else if ev_Outcome e = OutcomeUnavailable then Some (ObsLAPI now False) else None)
      else if ev_Code e = CodeDatabaseStateChange then
        (if ev_Outcome e \<in> {OutcomeAvailable, OutcomeRecovered} then Some (ObsDatabase True)
         else if ev_Outcome e \<in> {OutcomeUnavailable, OutcomeFailed} then Some (ObsDatabase False) else None)
      else if ev_Code e = CodeRuntimeFatal then Some ObsFatal
      else if ev_Code e \<in> {CodeServiceStopping, CodeServiceStopped} then Some ObsStopping
      else if ev_Code e = CodeSyncCompleted \<and>
          (ev_Outcome e = OutcomeSuccess \<or> ev_Outcome e = OutcomeDegraded \<and> ev_Failure e \<in> {FailureFeedDownload, FailureFeedValidation})
      then Some (ObsSync (ev_At e)) else None)"

fun call_observation :: "tracker_call \<Rightarrow> observation option" where
  "call_observation (CallConfiguration b) = Some (ObsConfiguration b)"
| "call_observation (CallCredentials b) = Some (ObsCredentials b)"
| "call_observation (CallDatabase b) = Some (ObsDatabase b)"
| "call_observation (CallLAPI now b) = Some (ObsLAPI now b)"
| "call_observation CallFatal = Some ObsFatal"
| "call_observation CallStopping = Some ObsStopping"
| "call_observation (CallSync r) =
     (if Result_Validate r = None \<and> safeSynchronization r then Some (ObsSync (res_CompletedAt r)) else None)"
| "call_observation (CallEvent now e) = event_observation now e"

definition observations :: "tracker_call list \<Rightarrow> observation list" where
  "observations calls = List.map_filter call_observation calls"

text \<open>The last mark of a kind, the marks of the local API, and the times of safe synchronizations.\<close>

definition last_mark :: "(observation \<Rightarrow> bool option) \<Rightarrow> observation list \<Rightarrow> bool option" where
  "last_mark f os = (case rev (List.map_filter f os) of [] \<Rightarrow> None | b # _ \<Rightarrow> Some b)"

fun configuration_mark :: "observation \<Rightarrow> bool option" where
  "configuration_mark (ObsConfiguration b) = Some b" | "configuration_mark _ = None"

fun credentials_mark :: "observation \<Rightarrow> bool option" where
  "credentials_mark (ObsCredentials b) = Some b" | "credentials_mark _ = None"

fun database_mark :: "observation \<Rightarrow> bool option" where
  "database_mark (ObsDatabase b) = Some b" | "database_mark _ = None"

fun lapi_mark :: "observation \<Rightarrow> (gotime \<times> bool) option" where
  "lapi_mark (ObsLAPI t b) = Some (t, b)" | "lapi_mark _ = None"

fun sync_mark :: "observation \<Rightarrow> gotime option" where
  "sync_mark (ObsSync t) = Some t" | "sync_mark _ = None"

definition lapi_marks :: "observation list \<Rightarrow> (gotime \<times> bool) list" where
  "lapi_marks os = List.map_filter lapi_mark os"

text \<open>The marks since the local API was last available, newest first; the oldest opened the outage.\<close>

definition outage :: "observation list \<Rightarrow> (gotime \<times> bool) list" where
  "outage os = takeWhile (\<lambda>m. \<not> snd m) (rev (lapi_marks os))"

definition last_sync :: "observation list \<Rightarrow> gotime" where
  "last_sync os = foldl max time_zero (List.map_filter sync_mark os)"

definition ready_spec :: "duration \<Rightarrow> duration \<Rightarrow> gotime \<Rightarrow> observation list \<Rightarrow> bool" where
  "ready_spec maxSyncAge grace now os \<longleftrightarrow>
     ObsFatal \<notin> set os \<and> ObsStopping \<notin> set os \<and>
     last_mark configuration_mark os = Some True \<and> last_mark credentials_mark os = Some True \<and>
     last_mark database_mark os = Some True \<and>
     (\<exists>t. (t, True) \<in> set (lapi_marks os)) \<and>
     (outage os = [] \<or> fst (last (outage os)) \<noteq> time_zero \<and> time_Sub now (fst (last (outage os))) \<le> grace) \<and>
     last_sync os \<noteq> time_zero \<and> time_Sub now (last_sync os) \<le> maxSyncAge"

subsection \<open>The tracker represents its history\<close>

text \<open>The effect of one observation on the fields.\<close>

fun observe :: "observation \<Rightarrow> Tracker \<Rightarrow> Tracker" where
  "observe (ObsConfiguration b) t = t\<lparr>tr_configuration := (if b then ComponentValid else ComponentInvalid)\<rparr>"
| "observe (ObsCredentials b) t = t\<lparr>tr_credentials := (if b then ComponentLoaded else ComponentUnavailable)\<rparr>"
| "observe (ObsDatabase b) t = t\<lparr>tr_database := (if b then ComponentAvailable else ComponentUnavailable)\<rparr>"
| "observe (ObsLAPI now b) t =
     (if b then t\<lparr>tr_lapi := ComponentAvailable, tr_lapiEverReady := True, tr_lapiOutageAt := time_zero\<rparr>
      else (if tr_lapi t \<noteq> ComponentUnavailable then t\<lparr>tr_lapiOutageAt := now\<rparr> else t)\<lparr>tr_lapi := ComponentUnavailable\<rparr>)"
| "observe ObsFatal t = t\<lparr>tr_runtime := ComponentFatal\<rparr>"
| "observe ObsStopping t = (if tr_runtime t \<noteq> ComponentFatal then t\<lparr>tr_runtime := ComponentStopping\<rparr> else t)"
| "observe (ObsSync at) t = t\<lparr>tr_lastSuccess := max (tr_lastSuccess t) at\<rparr>"

lemma Event_Validate_at: "Event_Validate e = None \<Longrightarrow> \<not> IsZero (ev_At e)"
  by (auto simp: Event_Validate_def split: option.splits if_splits)

lemma lastSuccess_max: "(if at > tr_lastSuccess t then t\<lparr>tr_lastSuccess := at\<rparr> else t) = t\<lparr>tr_lastSuccess := max (tr_lastSuccess t) at\<rparr>"
  by (simp add: max_def)

lemma tracker_apply_observe:
  "tracker_apply c (Some t) = Some (case call_observation c of None \<Rightarrow> t | Some ob \<Rightarrow> observe ob t)"
proof (cases c)
  case (CallSync r)
  then show ?thesis by (simp add: RecordSync_def lastSuccess_max)
next
  case (CallEvent now e)
  then show ?thesis
    by (cases "ev_Code e"; cases "ev_Outcome e")
      (simp_all add: health_Observe_def ApplyEvent_def event_observation_def MarkLAPI_def MarkDatabase_def
        MarkRuntimeFatal_def MarkStopping_def recordSafeSuccess_def lastSuccess_max Event_Validate_at)
qed (simp_all add: MarkConfiguration_def MarkCredentials_def MarkDatabase_def MarkLAPI_def MarkRuntimeFatal_def MarkStopping_def)

definition mark_component :: "Component \<Rightarrow> Component \<Rightarrow> bool option \<Rightarrow> Component" where
  "mark_component yes no m = (case m of None \<Rightarrow> ComponentPending | Some b \<Rightarrow> if b then yes else no)"

definition represents :: "duration \<Rightarrow> duration \<Rightarrow> observation list \<Rightarrow> Tracker \<Rightarrow> bool" where
  "represents maxSyncAge grace os t \<longleftrightarrow>
     tr_maxSyncAge t = maxSyncAge \<and> tr_lapiOutageGrace t = grace \<and>
     tr_configuration t = mark_component ComponentValid ComponentInvalid (last_mark configuration_mark os) \<and>
     tr_credentials t = mark_component ComponentLoaded ComponentUnavailable (last_mark credentials_mark os) \<and>
     tr_database t = mark_component ComponentAvailable ComponentUnavailable (last_mark database_mark os) \<and>
     tr_lapi t = (if lapi_marks os = [] then ComponentPending
                  else if outage os = [] then ComponentAvailable else ComponentUnavailable) \<and>
     (tr_lapiEverReady t \<longleftrightarrow> (\<exists>at. (at, True) \<in> set (lapi_marks os))) \<and>
     tr_lapiOutageAt t = (if outage os = [] then time_zero else fst (last (outage os))) \<and>
     tr_lastSuccess t = last_sync os \<and>
     tr_runtime t = (if ObsFatal \<in> set os then ComponentFatal else if ObsStopping \<in> set os then ComponentStopping
                     else ComponentRunning)"

lemma map_filter_snoc: "List.map_filter f (xs @ [x]) = List.map_filter f xs @ (case f x of None \<Rightarrow> [] | Some y \<Rightarrow> [y])"
  by (simp add: List.map_filter_def split: option.splits)

lemma history_snoc:
  "last_mark f (os @ [ob]) = (case f ob of None \<Rightarrow> last_mark f os | Some b \<Rightarrow> Some b)"
  "lapi_marks (os @ [ob]) = lapi_marks os @ (case lapi_mark ob of None \<Rightarrow> [] | Some m \<Rightarrow> [m])"
  "last_sync (os @ [ob]) = (case sync_mark ob of None \<Rightarrow> last_sync os | Some at \<Rightarrow> max (last_sync os) at)"
  by (simp_all add: last_mark_def lapi_marks_def last_sync_def map_filter_snoc split: option.splits)

lemma outage_snoc:
  "outage (os @ [ob]) =
     (case lapi_mark ob of None \<Rightarrow> outage os | Some m \<Rightarrow> if snd m then [] else m # outage os)"
  by (simp add: outage_def history_snoc split: option.splits)

lemma outage_Nil: "lapi_marks os = [] \<Longrightarrow> outage os = []"
  by (simp add: outage_def)

lemma represents_observe:
  "represents A G os t \<Longrightarrow> represents A G (os @ [ob]) (observe ob t)"
  by (cases ob) (auto simp: represents_def history_snoc outage_snoc outage_Nil mark_component_def)

lemma represents_calls:
  assumes "represents A G [] t"
  shows "\<exists>t'. foldl (\<lambda>p c. tracker_apply c p) (Some t) calls = Some t' \<and> represents A G (observations calls) t'"
proof (induction calls rule: rev_induct)
  case Nil
  then show ?case using assms by (simp add: observations_def List.map_filter_def)
next
  case (snoc c calls)
  then show ?case
    using represents_observe
    by (auto simp: tracker_apply_observe observations_def map_filter_snoc split: option.splits)
qed

lemma health_New_represents: "health_New A G = Inr t \<Longrightarrow> represents A G [] t"
  by (auto simp: health_New_def represents_def last_mark_def lapi_marks_def outage_def last_sync_def List.map_filter_def
      mark_component_def split: if_splits)

lemma Snapshot_sync_status:
  "rsp_Status response = StatusNotReady \<Longrightarrow> rsp_Status (Snapshot_sync now t response) = StatusReady \<longleftrightarrow>
     tr_lastSuccess t \<noteq> time_zero \<and> time_Sub now (tr_lastSuccess t) \<le> tr_maxSyncAge t"
  by (auto simp: Snapshot_sync_def IsZero_def)

lemma baseResponse_status [simp]: "rsp_Status (baseResponse t) = StatusNotReady"
  by (simp add: baseResponse_def)

lemma ready_represents:
  assumes "represents A G os t"
  shows "rsp_Status (health_Snapshot now (Some t)) = StatusReady \<longleftrightarrow> ready_spec A G now os"
proof -
  let ?grace = "tr_lapiEverReady t \<and> tr_lapiOutageAt t \<noteq> time_zero \<and> time_Sub now (tr_lapiOutageAt t) \<le> tr_lapiOutageGrace t"
  have "rsp_Status (health_Snapshot now (Some t)) = StatusReady \<longleftrightarrow>
      tr_runtime t \<noteq> ComponentFatal \<and> tr_runtime t \<noteq> ComponentStopping \<and>
      tr_configuration t \<noteq> ComponentPending \<and> tr_configuration t \<noteq> ComponentInvalid \<and>
      tr_credentials t \<noteq> ComponentPending \<and> tr_credentials t \<noteq> ComponentUnavailable \<and>
      tr_database t \<noteq> ComponentPending \<and> tr_database t \<noteq> ComponentUnavailable \<and>
      tr_lapi t \<noteq> ComponentPending \<and> (tr_lapi t = ComponentUnavailable \<longrightarrow> ?grace) \<and>
      tr_lastSuccess t \<noteq> time_zero \<and> time_Sub now (tr_lastSuccess t) \<le> tr_maxSyncAge t"
    by (auto simp: health_Snapshot_def Let_def Snapshot_sync_status IsZero_def) (auto simp: baseResponse_def)
  moreover have "lapi_marks os \<noteq> [] \<and> outage os = [] \<longrightarrow> (\<exists>at. (at, True) \<in> set (lapi_marks os))"
    by (cases "lapi_marks os" rule: rev_cases) (auto simp: outage_def split: if_splits)
  ultimately show ?thesis
    using assms by (auto simp: represents_def ready_spec_def mark_component_def split: option.splits if_splits)
qed

text \<open>
  C27. Readiness refines a specification over the history of observations: for every sequence of
  calls on a new tracker, the service answers ready exactly when no fatal or stopping event has been
  seen, the last marks of configuration, credentials and database are good, the local API has been
  available once and its current outage, if any, is within the grace period, and the newest safe
  synchronization is not older than the maximal age. A nil tracker is never ready.
\<close>

theorem Snapshot_refines_history:
  assumes "health_New maxSyncAge grace = Inr t"
  shows "(rsp_Status (health_Snapshot now (foldl (\<lambda>p c. tracker_apply c p) (Some t) calls)) = StatusReady \<longleftrightarrow>
      ready_spec maxSyncAge grace now (observations calls)) \<and>
    rsp_Status (health_Snapshot now (foldl (\<lambda>p c. tracker_apply c p) None calls)) = StatusNotReady"
proof
  show "rsp_Status (health_Snapshot now (foldl (\<lambda>p c. tracker_apply c p) (Some t) calls)) = StatusReady \<longleftrightarrow>
      ready_spec maxSyncAge grace now (observations calls)"
    using represents_calls [OF health_New_represents [OF assms], of calls] by (auto simp: ready_represents)
  have "tracker_apply c None = None" for c
    by (cases c) (auto simp: MarkConfiguration_def MarkCredentials_def MarkDatabase_def MarkLAPI_def MarkRuntimeFatal_def
        MarkStopping_def RecordSync_def health_Observe_def ApplyEvent_def)
  then have "foldl (\<lambda>p c. tracker_apply c p) None calls = None" by (induction calls) simp_all
  then show "rsp_Status (health_Snapshot now (foldl (\<lambda>p c. tracker_apply c p) None calls)) = StatusNotReady"
    by (simp add: health_Snapshot_def)
qed

definition sample_calls :: "tracker_call list" where
  "sample_calls =
     [CallConfiguration True, CallCredentials True, CallDatabase True, CallLAPI (1000 * second) True,
      CallLAPI (2000 * second) False,
      CallEvent (2500 * second) \<lparr>ev_Code = CodeSyncCompleted, ev_Operation = OperationSync, ev_Feed = [],
        ev_Outcome = OutcomeSuccess, ev_Severity = SeverityInfo, ev_Failure = NoFailure, ev_At = 2500 * second,
        ev_Duration = 0, ev_Attempt = 0, ev_Counts = zero_Counts\<rparr>]"

lemma sample_calls_ready:
  "ready_spec (2 * hour) hour (5000 * second) (observations sample_calls)"
  "\<not> ready_spec (2 * hour) hour (6000 * second) (observations sample_calls)"
  by (auto simp: sample_calls_def ready_spec_def observations_def List.map_filter_def event_observation_def Event_Validate_def
      validSeverity_def outcomeNeedsFailure_def maxDuration_def last_mark_def lapi_marks_def outage_def last_sync_def go_time_defs)

theorem Snapshot_refines_history_witness:
  "\<exists>t. health_New (2 * hour) hour = Inr t \<and>
     rsp_Status (health_Snapshot (5000 * second) (foldl (\<lambda>p c. tracker_apply c p) (Some t) sample_calls)) = StatusReady \<and>
     rsp_Status (health_Snapshot (6000 * second) (foldl (\<lambda>p c. tracker_apply c p) (Some t) sample_calls)) \<noteq> StatusReady"
proof -
  obtain t where t: "health_New (2 * hour) hour = Inr t"
    by (simp add: health_New_def go_time_defs)
  with Snapshot_refines_history [OF t] sample_calls_ready show ?thesis by blast
qed

end
