(* ===== verification/Metrics.thy ===== *)
theory Metrics
  imports Config "HOL-Library.Word"
begin

text \<open>
  The package \<^verbatim>\<open>internal/metrics\<close>: the registry of counters and gauges and the operations that feed it.
  Counters are 64-bit words that stop at their maximum; a gauge of a time is the \<^verbatim>\<open>float64\<close> the source
  computes, as a rational. A map from a bounded key to a counter is a function that is zero where the
  Go map has no key. The text exposition of the registry (\<^verbatim>\<open>WritePrometheus\<close>) and its HTTP handler are
  not modelled. The theorem relates the registry after any history of observations to sums over that
  history.
\<close>

subsection \<open>Definitions: labels\<close>

datatype metrics_error = MetricsErrInvalidOptions | MetricsErrInvalidObservation

datatype Mode = ModeEnforce | ModeDryRun | OtherMode string

record Info =
  bi_Name :: string
  bi_Version :: string
  bi_Revision :: string
  bi_BuildDate :: string
  bi_GoVersion :: string
  bi_GOOS :: string
  bi_GOARCH :: string

definition buildLabelPattern :: "string \<Rightarrow> bool" where
  "buildLabelPattern s =
     (s \<noteq> [] \<and> length s \<le> 64 \<and> alphanumeric (hd s) \<and>
      list_all (\<lambda>c. alphanumeric c \<or> c \<in> {CHR ''.'', CHR ''_'', CHR ''+'', CHR '':'', CHR ''/'', CHR ''-''}) (tl s))"

fun strings_Contains :: "string \<Rightarrow> string \<Rightarrow> bool" where
  "strings_Contains [] t = (t = [])"
| "strings_Contains (c # s) t = (has_prefix (c # s) t \<or> strings_Contains s t)"

definition net_ParseIP_ok :: "string \<Rightarrow> bool" where
  "net_ParseIP_ok s = (case ParseAddr s of None \<Rightarrow> False | Some a \<Rightarrow> Zone a = [])"

definition net_ParseCIDR_ok :: "string \<Rightarrow> bool" where
  "net_ParseCIDR_ok s =
     (case split_first (CHR ''/'') s of
        None \<Rightarrow> False
      | Some (before, bits) \<Rightarrow>
          (case ParseAddr before of
             None \<Rightarrow> False
           | Some a \<Rightarrow>
               Zone a = [] \<and> bits \<noteq> [] \<and>
               (case dec_acc 0 bits of None \<Rightarrow> False | Some n \<Rightarrow> n \<le> BitLen a)))"

definition safeBuildLabel :: "string \<Rightarrow> string" where
  "safeBuildLabel value =
     (if \<not> buildLabelPattern value then ''unknown''
      else if list_ex (strings_Contains (ToLower value))
          [''password'', ''token'', ''secret'', ''bearer'', ''jwt'', ''canary'', ''://''] then ''unknown''
      else if net_ParseIP_ok value then ''unknown''
      else if net_ParseCIDR_ok value then ''unknown''
      else case split_on (CHR ''.'') value of
        [a, b, c] \<Rightarrow> if length a \<ge> 8 \<and> length b \<ge> 8 \<and> length c \<ge> 8 then ''unknown'' else value
      | _ \<Rightarrow> value)"

definition sanitizeBuild :: "Info \<Rightarrow> Info" where
  "sanitizeBuild info =
     \<lparr>bi_Name = ''crowdshield'', bi_Version = safeBuildLabel (bi_Version info), bi_Revision = safeBuildLabel (bi_Revision info),
      bi_BuildDate = ''unknown'', bi_GoVersion = safeBuildLabel (bi_GoVersion info), bi_GOOS = safeBuildLabel (bi_GOOS info),
      bi_GOARCH = safeBuildLabel (bi_GOARCH info)\<rparr>"

subsection \<open>Definitions: the registry\<close>

record feedState =
  fst_lastSuccess :: rat
  fst_entries :: int
  fst_downloadFailures :: "64 word"
  fst_validationFailures :: "64 word"

record Registry =
  reg_build :: Info
  reg_feeds :: "string list"
  reg_feed :: "string \<Rightarrow> feedState"
  reg_lastSyncAttempt :: rat
  reg_lastSyncSuccess :: rat
  reg_duration :: "Mode \<Rightarrow> rat"
  reg_durationAt :: "Mode \<Rightarrow> gotime"
  reg_syncRuns :: "Mode \<times> Outcome \<Rightarrow> 64 word"
  reg_syncFailures :: "FailureCategory \<Rightarrow> 64 word"
  reg_activeDecisions :: int
  reg_decisionsAdded :: "64 word"
  reg_decisionsFresh :: "64 word"
  reg_decisionsRemoved :: "64 word"
  reg_entriesRejected :: "64 word"
  reg_lapiRequests :: "Outcome \<Rightarrow> 64 word"
  reg_lapiFailures :: "FailureCategory \<Rightarrow> 64 word"
  reg_databaseFailures :: "64 word"
  reg_notifications :: "Outcome \<Rightarrow> 64 word"

definition zero_feedState :: feedState where
  "zero_feedState = \<lparr>fst_lastSuccess = 0, fst_entries = 0, fst_downloadFailures = 0, fst_validationFailures = 0\<rparr>"

definition metrics_New :: "Info \<Rightarrow> string list \<Rightarrow> (metrics_error, Registry) result" where
  "metrics_New build feeds =
     (if length feeds > 256 then Inl MetricsErrInvalidOptions
      else
        let names = sort_cmp cmp_Compare feeds in
        if \<not> list_all ValidFeedName names \<or> \<not> distinct names then Inl MetricsErrInvalidOptions
        else Inr
          \<lparr>reg_build = sanitizeBuild build, reg_feeds = names, reg_feed = (\<lambda>_. zero_feedState), reg_lastSyncAttempt = 0,
           reg_lastSyncSuccess = 0, reg_duration = (\<lambda>_. 0), reg_durationAt = (\<lambda>_. time_zero), reg_syncRuns = (\<lambda>_. 0),
           reg_syncFailures = (\<lambda>_. 0), reg_activeDecisions = 0, reg_decisionsAdded = 0, reg_decisionsFresh = 0,
           reg_decisionsRemoved = 0, reg_entriesRejected = 0, reg_lapiRequests = (\<lambda>_. 0), reg_lapiFailures = (\<lambda>_. 0),
           reg_databaseFailures = 0, reg_notifications = (\<lambda>_. 0)\<rparr>)"

definition validMode :: "Mode \<Rightarrow> bool" where
  "validMode mode = (mode = ModeEnforce \<or> mode = ModeDryRun)"

definition metrics_add :: "64 word \<Rightarrow> int \<Rightarrow> 64 word" where
  "metrics_add current value =
     (if value \<le> 0 then current
      else if - 1 - current < of_int value then - 1 else current + of_int value)"

definition laterUnix :: "rat \<Rightarrow> gotime \<Rightarrow> rat" where
  "laterUnix current candidate =
     (let value = float64 (float64 (of_int (wrap64 candidate)) / float64 (of_int second)) in
      if value > current then value else current)"

text \<open>\<^verbatim>\<open>Duration.Seconds\<close>, on the durations of valid results, which are not negative.\<close>

definition duration_Seconds :: "duration \<Rightarrow> rat" where
  "duration_Seconds d = float64 (float64 (of_int (d div second)) + float64 (float64 (of_int (d mod second)) / 1000000000))"

definition metrics_safeSynchronization :: "ops_Result \<Rightarrow> bool" where
  "metrics_safeSynchronization r =
     (if res_Outcome r = OutcomeSuccess then True
      else res_Outcome r = OutcomeDegraded \<and> (res_Failure r = FailureFeedDownload \<or> res_Failure r = FailureFeedValidation))"

definition observe_feed :: "gotime \<Rightarrow> FeedResult \<Rightarrow> feedState \<Rightarrow> feedState" where
  "observe_feed completed observation state =
     (if fr_Outcome observation = OutcomeSuccess
      then state\<lparr>fst_lastSuccess := laterUnix (fst_lastSuccess state) completed, fst_entries := fr_Accepted observation\<rparr>
      else if fr_Outcome observation = OutcomeNotModified
      then state\<lparr>fst_lastSuccess := laterUnix (fst_lastSuccess state) completed\<rparr>
      else if fr_Outcome observation \<in> {OutcomeFailed, OutcomeDegraded} then
        (if fr_Failure observation = FailureFeedDownload
         then state\<lparr>fst_downloadFailures := metrics_add (fst_downloadFailures state) 1\<rparr>
         else if fr_Failure observation = FailureFeedValidation
         then state\<lparr>fst_validationFailures := metrics_add (fst_validationFailures state) 1\<rparr>
         else state)
      else state)"

definition observe_feeds :: "ops_Result \<Rightarrow> (string \<Rightarrow> feedState) \<Rightarrow> string \<Rightarrow> feedState" where
  "observe_feeds r feed =
     foldl (\<lambda>m observation. m(fr_Name observation := observe_feed (res_CompletedAt r) observation (m (fr_Name observation))))
       feed (res_Feeds r)"

definition bump :: "('k \<Rightarrow> 64 word) \<Rightarrow> 'k \<Rightarrow> int \<Rightarrow> 'k \<Rightarrow> 64 word" where
  "bump m k value = m(k := metrics_add (m k) value)"

definition accepts_sync :: "Registry \<Rightarrow> Mode \<Rightarrow> ops_Result \<Rightarrow> bool" where
  "accepts_sync r mode result =
     (validMode mode \<and> Result_Validate result = None \<and>
      list_all (\<lambda>feed. fr_Name feed \<in> set (reg_feeds r)) (res_Feeds result))"

definition observe_any :: "Mode \<Rightarrow> ops_Result \<Rightarrow> Registry \<Rightarrow> Registry" where
  "observe_any mode result r =
     (let r1 = r\<lparr>reg_lastSyncAttempt := laterUnix (reg_lastSyncAttempt r) (res_StartedAt result)\<rparr>;
          r2 = (if res_CompletedAt result > reg_durationAt r1 mode
                then r1\<lparr>reg_duration := (reg_duration r1)(mode := duration_Seconds (time_Sub (res_CompletedAt result) (res_StartedAt result))),
                       reg_durationAt := (reg_durationAt r1)(mode := res_CompletedAt result)\<rparr>
                else r1)
      in r2\<lparr>reg_syncRuns := bump (reg_syncRuns r2) (mode, res_Outcome result) 1\<rparr>)"

definition observe_enforced :: "ops_Result \<Rightarrow> Registry \<Rightarrow> Registry" where
  "observe_enforced result r =
     (let counts = res_Counts result; failure = res_Failure result;
          r1 = (if metrics_safeSynchronization result
                then r\<lparr>reg_lastSyncSuccess := laterUnix (reg_lastSyncSuccess r) (res_CompletedAt result)\<rparr> else r);
          r2 = (if res_Outcome result = OutcomeFailed \<or> res_Outcome result = OutcomeDegraded
                then r1\<lparr>reg_syncFailures := bump (reg_syncFailures r1) failure 1\<rparr> else r1);
          r3 = r2\<lparr>reg_feed := observe_feeds result (reg_feed r2),
                 reg_decisionsAdded := metrics_add (reg_decisionsAdded r2) (cnt_Added counts),
                 reg_decisionsFresh := metrics_add (reg_decisionsFresh r2) (cnt_Refreshed counts),
                 reg_decisionsRemoved := metrics_add (reg_decisionsRemoved r2) (cnt_Removed counts),
                 reg_entriesRejected := metrics_add (reg_entriesRejected r2) (cnt_Rejected counts),
                 reg_lapiRequests := bump (reg_lapiRequests r2) (res_Outcome result) (cnt_LAPIRequests counts)\<rparr>;
          r4 = (if metrics_safeSynchronization result then r3\<lparr>reg_activeDecisions := cnt_ActiveDecisions counts\<rparr> else r3)
      in if failure \<in> {FailureLAPIAuth, FailureLAPI, FailureTimeout}
         then r4\<lparr>reg_lapiFailures := bump (reg_lapiFailures r4) failure 1\<rparr>
         else if failure = FailureDatabase
         then r4\<lparr>reg_databaseFailures := metrics_add (reg_databaseFailures r4) 1\<rparr> else r4)"

text \<open>A nil registry is \<open>None\<close>.\<close>

definition ObserveSync :: "Mode \<Rightarrow> ops_Result \<Rightarrow> Registry option \<Rightarrow> (metrics_error, unit) result \<times> Registry option" where
  "ObserveSync mode result p =
     (case p of
        None \<Rightarrow> (Inl MetricsErrInvalidObservation, None)
      | Some r \<Rightarrow>
          if \<not> accepts_sync r mode result then (Inl MetricsErrInvalidObservation, Some r)
          else
            let r1 = observe_any mode result r in
            (Inr (), Some (if mode = ModeDryRun then r1 else observe_enforced result r1)))"

definition SetActiveDecisions :: "int \<Rightarrow> Registry option \<Rightarrow> (metrics_error, unit) result \<times> Registry option" where
  "SetActiveDecisions value p =
     (case p of
        None \<Rightarrow> (Inl MetricsErrInvalidObservation, None)
      | Some r \<Rightarrow>
          if value < 0 \<or> value > 100000000 then (Inl MetricsErrInvalidObservation, Some r)
          else (Inr (), Some (r\<lparr>reg_activeDecisions := value\<rparr>)))"

definition metrics_ApplyEvent :: "Event \<Rightarrow> Registry option \<Rightarrow> (metrics_error, unit) result \<times> Registry option" where
  "metrics_ApplyEvent event p =
     (case p of
        None \<Rightarrow> (Inl MetricsErrInvalidObservation, None)
      | Some r \<Rightarrow>
          if Event_Validate event \<noteq> None then (Inl MetricsErrInvalidObservation, Some r)
          else if ev_Feed event \<noteq> [] \<and> ev_Feed event \<notin> set (reg_feeds r) then (Inl MetricsErrInvalidObservation, Some r)
          else if ev_Code event \<noteq> CodeNotificationResult then (Inr (), Some r)
          else if ev_Outcome event \<noteq> OutcomeSuccess \<and> ev_Outcome event \<noteq> OutcomeFailed \<and> ev_Outcome event \<noteq> OutcomeDegraded
          then (Inl MetricsErrInvalidObservation, Some r)
          else (Inr (), Some (r\<lparr>reg_notifications := bump (reg_notifications r) (ev_Outcome event) 1\<rparr>)))"

definition metrics_Observe :: "Event \<Rightarrow> Registry option \<Rightarrow> Registry option" where
  "metrics_Observe event p = snd (metrics_ApplyEvent event p)"

subsection \<open>A history of observations\<close>

definition observe_history :: "Registry \<Rightarrow> (Mode \<times> ops_Result) list \<Rightarrow> Registry option" where
  "observe_history r obs = foldl (\<lambda>p (mode, result). snd (ObserveSync mode result p)) (Some r) obs"

text \<open>A 64-bit counter shows a number, or its maximum if the number is larger.\<close>

definition shows_count :: "64 word \<Rightarrow> nat \<Rightarrow> bool" where
  "shows_count w n \<longleftrightarrow> unat w = min (2 ^ 64 - 1) n"

definition total :: "(ops_Result \<Rightarrow> int) \<Rightarrow> ops_Result list \<Rightarrow> nat" where
  "total f results = sum_list (map (\<lambda>r. nat (f r)) results)"

definition tally :: "('a \<Rightarrow> bool) \<Rightarrow> 'a list \<Rightarrow> nat" where
  "tally P xs = length (filter P xs)"

lemma total_snoc [simp]: "total f [] = 0" "total f (rs @ [r]) = total f rs + nat (f r)"
  by (simp_all add: total_def)

lemma tally_snoc [simp]: "tally P [] = 0" "tally P (xs @ [x]) = tally P xs + (if P x then 1 else 0)"
  by (simp_all add: tally_def)

lemma shows_count_0 [simp]: "shows_count 0 0"
  by (simp add: shows_count_def)

lemma metrics_add_shows:
  assumes "shows_count w n" and "v \<le> 100000000"
  shows "shows_count (metrics_add w v) (n + nat v)"
proof (cases "v \<le> 0")
  case True
  then show ?thesis using assms by (simp add: metrics_add_def)
next
  case False
  then obtain k where k: "v = int k" "k \<le> 100000000" using assms(2) by (cases v) auto
  have u: "unat (of_nat k :: 64 word) = k" using k(2) by (simp add: unat_of_nat take_bit_nat_eq_self)
  have m: "unat (- 1 :: 64 word) = 2 ^ 64 - 1" by (simp add: unsigned_minus_1_eq_mask mask_eq_exp_minus_1)
  have "unat w < 2 ^ 64" using unsigned_less [of w] by simp
  then have le: "unat w \<le> 2 ^ 64 - 1" by simp
  then have c: "unat (- 1 - w) = 2 ^ 64 - 1 - unat w" by (simp add: unat_sub_if_size m)
  show ?thesis
  proof (cases "- 1 - w < (of_nat k :: 64 word)")
    case True
    then have "2 ^ 64 - 1 < unat w + k" using c u by (simp add: word_less_nat_alt)
    then show ?thesis using assms(1) True False k(1) le
      by (auto simp: metrics_add_def shows_count_def m)
  next
    case False2: False
    then have "unat w + k \<le> 2 ^ 64 - 1" using c u le by (simp add: word_less_nat_alt)
    then have "unat (w + of_nat k) = unat w + k" using u by (simp add: unat_plus_if_size word_size)
    then show ?thesis using assms(1) False False2 k(1) le \<open>unat w + k \<le> 2 ^ 64 - 1\<close>
      by (auto simp: metrics_add_def shows_count_def)
  qed
qed

text \<open>What the registry shows after a history, said over the accepted observations.\<close>

definition accepted :: "Registry \<Rightarrow> (Mode \<times> ops_Result) list \<Rightarrow> (Mode \<times> ops_Result) list" where
  "accepted r obs = filter (\<lambda>(mode, result). accepts_sync r mode result) obs"

definition enforced :: "(Mode \<times> ops_Result) list \<Rightarrow> ops_Result list" where
  "enforced obs = map snd (filter (\<lambda>x. fst x = ModeEnforce) obs)"

definition last_safe :: "ops_Result list \<Rightarrow> int" where
  "last_safe results = (case filter metrics_safeSynchronization (rev results) of [] \<Rightarrow> 0 | r # _ \<Rightarrow> cnt_ActiveDecisions (res_Counts r))"

definition lapi_failure :: "FailureCategory \<Rightarrow> bool" where
  "lapi_failure f \<longleftrightarrow> f = FailureLAPIAuth \<or> f = FailureLAPI \<or> f = FailureTimeout"

text \<open>The largest of some times in seconds of the epoch, as a gauge shows it, and zero if there is none after the epoch.\<close>

definition newest :: "gotime list \<Rightarrow> rat" where
  "newest stamps = Max (insert 0 ((\<lambda>t. float64 (float64 (of_int (wrap64 t)) / float64 (of_int second))) ` set stamps))"

text \<open>What was observed of one feed, with the time its run completed, and what the state of the feed makes of it.\<close>

definition feed_log :: "string \<Rightarrow> ops_Result list \<Rightarrow> (gotime \<times> FeedResult) list" where
  "feed_log name results =
     concat (map (\<lambda>x. map (\<lambda>ob. (res_CompletedAt x, ob)) (filter (\<lambda>ob. fr_Name ob = name) (res_Feeds x))) results)"

definition feed_failed :: "FailureCategory \<Rightarrow> gotime \<times> FeedResult \<Rightarrow> bool" where
  "feed_failed f ob \<longleftrightarrow> fr_Outcome (snd ob) \<in> {OutcomeFailed, OutcomeDegraded} \<and> fr_Failure (snd ob) = f"

definition last_accepted :: "(gotime \<times> FeedResult) list \<Rightarrow> int" where
  "last_accepted obs =
     (case filter (\<lambda>ob. fr_Outcome (snd ob) = OutcomeSuccess) (rev obs) of [] \<Rightarrow> 0 | ob # _ \<Rightarrow> fr_Accepted (snd ob))"

definition feed_shows :: "feedState \<Rightarrow> (gotime \<times> FeedResult) list \<Rightarrow> bool" where
  "feed_shows st obs \<longleftrightarrow>
     fst_lastSuccess st = newest (map fst (filter (\<lambda>ob. fr_Outcome (snd ob) \<in> {OutcomeSuccess, OutcomeNotModified}) obs)) \<and>
     fst_entries st = last_accepted obs \<and>
     shows_count (fst_downloadFailures st) (tally (feed_failed FailureFeedDownload) obs) \<and>
     shows_count (fst_validationFailures st) (tally (feed_failed FailureFeedValidation) obs)"

text \<open>The duration of a mode is that of the first of its runs with the latest completion.\<close>

definition timed :: "Mode \<Rightarrow> (Mode \<times> ops_Result) list \<Rightarrow> ops_Result list" where
  "timed mode obs = filter (\<lambda>x. time_zero < res_CompletedAt x) (map snd (filter (\<lambda>x. fst x = mode) obs))"

definition duration_shows :: "gotime \<Rightarrow> rat \<Rightarrow> ops_Result list \<Rightarrow> bool" where
  "duration_shows t d results \<longleftrightarrow>
     (if results = [] then t = time_zero \<and> d = 0
      else t = Max (res_CompletedAt ` set results) \<and>
        (let x = hd (filter (\<lambda>x. res_CompletedAt x = t) results) in d = duration_Seconds (time_Sub (res_CompletedAt x) (res_StartedAt x))))"

definition registry_shows :: "Registry \<Rightarrow> (Mode \<times> ops_Result) list \<Rightarrow> bool" where
  "registry_shows r obs \<longleftrightarrow>
     shows_count (reg_decisionsAdded r) (total (\<lambda>x. cnt_Added (res_Counts x)) (enforced obs)) \<and>
     shows_count (reg_decisionsFresh r) (total (\<lambda>x. cnt_Refreshed (res_Counts x)) (enforced obs)) \<and>
     shows_count (reg_decisionsRemoved r) (total (\<lambda>x. cnt_Removed (res_Counts x)) (enforced obs)) \<and>
     shows_count (reg_entriesRejected r) (total (\<lambda>x. cnt_Rejected (res_Counts x)) (enforced obs)) \<and>
     shows_count (reg_databaseFailures r) (tally (\<lambda>x. res_Failure x = FailureDatabase) (enforced obs)) \<and>
     (\<forall>mode out. shows_count (reg_syncRuns r (mode, out)) (tally (\<lambda>(m, x). m = mode \<and> res_Outcome x = out) obs)) \<and>
     (\<forall>f. shows_count (reg_syncFailures r f)
        (tally (\<lambda>x. (res_Outcome x = OutcomeFailed \<or> res_Outcome x = OutcomeDegraded) \<and> res_Failure x = f) (enforced obs))) \<and>
     (\<forall>f. shows_count (reg_lapiFailures r f)
        (tally (\<lambda>x. lapi_failure f \<and> res_Failure x = f) (enforced obs))) \<and>
     (\<forall>out. shows_count (reg_lapiRequests r out)
        (total (\<lambda>x. if res_Outcome x = out then cnt_LAPIRequests (res_Counts x) else 0) (enforced obs))) \<and>
     reg_activeDecisions r = last_safe (enforced obs) \<and>
     reg_lastSyncAttempt r = newest (map (\<lambda>x. res_StartedAt (snd x)) obs) \<and>
     reg_lastSyncSuccess r = newest (map res_CompletedAt (filter metrics_safeSynchronization (enforced obs))) \<and>
     (\<forall>mode. duration_shows (reg_durationAt r mode) (reg_duration r mode) (timed mode obs)) \<and>
     (\<forall>name. feed_shows (reg_feed r name) (feed_log name (enforced obs))) \<and>
     (\<forall>out. reg_notifications r out = 0)"

lemma newest_snoc [simp]: "newest [] = 0" "newest (ts @ [t]) = laterUnix (newest ts) t"
proof -
  show "newest [] = 0" by (simp add: newest_def)
  let ?f = "\<lambda>t. float64 (float64 (of_int (wrap64 t)) / float64 (of_int second)) :: rat"
  have "insert 0 (?f ` set (ts @ [t])) = insert (?f t) (insert 0 (?f ` set ts))" by auto
  moreover have "Max (insert (?f t) (insert 0 (?f ` set ts))) = max (?f t) (Max (insert 0 (?f ` set ts)))"
    by (rule Max_insert) simp_all
  ultimately have "newest (ts @ [t]) = max (?f t) (newest ts)" unfolding newest_def by metis
  then show "newest (ts @ [t]) = laterUnix (newest ts) t" by (simp add: laterUnix_def Let_def max_def)
qed

lemma feed_log_snoc [simp]:
  "feed_log name [] = []"
  "feed_log name (xs @ [x]) = feed_log name xs @ map (\<lambda>ob. (res_CompletedAt x, ob)) (filter (\<lambda>ob. fr_Name ob = name) (res_Feeds x))"
  by (simp_all add: feed_log_def)

lemma feed_shows_nil [simp]: "feed_shows zero_feedState []"
  by (simp add: feed_shows_def zero_feedState_def last_accepted_def)

lemma observe_feed_shows:
  assumes "feed_shows st obs"
  shows "feed_shows (observe_feed t ob st) (obs @ [(t, ob)])"
  using assms metrics_add_shows [of "fst_downloadFailures st" "tally (feed_failed FailureFeedDownload) obs" 1]
    metrics_add_shows [of "fst_validationFailures st" "tally (feed_failed FailureFeedValidation) obs" 1]
  by (auto simp: feed_shows_def observe_feed_def feed_failed_def last_accepted_def)

lemma observe_feeds_shows:
  assumes "feed_shows (feed name) obs"
  shows "feed_shows (observe_feeds x feed name) (obs @ map (\<lambda>ob. (res_CompletedAt x, ob)) (filter (\<lambda>ob. fr_Name ob = name) (res_Feeds x)))"
proof -
  have "feed_shows (foldl (\<lambda>m ob. m(fr_Name ob := observe_feed t ob (m (fr_Name ob)))) feed fs name)
      (obs @ map (\<lambda>ob. (t, ob)) (filter (\<lambda>ob. fr_Name ob = name) fs))" for t fs
    using assms
  proof (induction fs arbitrary: feed obs)
    case (Cons ob fs)
    show ?case
    proof (cases "fr_Name ob = name")
      case True
      then have "feed_shows ((feed(name := observe_feed t ob (feed name))) name) (obs @ [(t, ob)])"
        using observe_feed_shows [OF Cons.prems] by simp
      from Cons.IH [of "feed(name := observe_feed t ob (feed name))" "obs @ [(t, ob)]", OF this] show ?thesis by (simp add: True del: fun_upd_apply)
    next
      case False
      then have "feed_shows ((feed(fr_Name ob := observe_feed t ob (feed (fr_Name ob)))) name) obs" using Cons.prems by simp
      from Cons.IH [of "feed(fr_Name ob := observe_feed t ob (feed (fr_Name ob)))" obs, OF this] False show ?thesis by simp
    qed
  qed simp
  then show ?thesis by (simp add: observe_feeds_def)
qed

lemma timed_snoc:
  "timed mode (obs @ [(mode', x)]) = timed mode obs @ (if mode' = mode \<and> time_zero < res_CompletedAt x then [x] else [])"
  by (simp add: timed_def)

lemma duration_shows_snoc:
  assumes "duration_shows t d xs" and "\<forall>y \<in> set xs. time_zero < res_CompletedAt y"
  shows "duration_shows (if t < res_CompletedAt x then res_CompletedAt x else t)
    (if t < res_CompletedAt x then duration_Seconds (time_Sub (res_CompletedAt x) (res_StartedAt x)) else d)
    (xs @ (if time_zero < res_CompletedAt x then [x] else []))"
proof (cases "xs = []")
  case True
  then have "t = time_zero" "d = 0" using assms(1) by (simp_all add: duration_shows_def)
  then show ?thesis
  proof (cases "time_zero < res_CompletedAt x")
    case after: True
    then show ?thesis unfolding True \<open>t = time_zero\<close> duration_shows_def by simp
  next
    case False
    then show ?thesis unfolding True \<open>t = time_zero\<close> \<open>d = 0\<close> duration_shows_def by simp
  qed
next
  case False
  let ?A = "res_CompletedAt ` set xs"
  have t: "t = Max ?A" and d: "d = (let y = hd (filter (\<lambda>y. res_CompletedAt y = t) xs) in duration_Seconds (time_Sub (res_CompletedAt y) (res_StartedAt y)))"
    using assms(1) False unfolding duration_shows_def Let_def by (simp_all only: if_False)
  have "t \<in> ?A" using False t by simp
  then have z: "time_zero < t" and ne: "filter (\<lambda>y. res_CompletedAt y = t) xs \<noteq> []"
    using assms(2) by (auto simp: filter_empty_conv)
  have top: "res_CompletedAt y \<le> t" if "y \<in> set xs" for y using that t by simp
  have mx: "Max (res_CompletedAt ` set (xs @ [x])) = max (res_CompletedAt x) t"
    using False t by (simp add: Max_insert)
  show ?thesis
  proof (cases "t < res_CompletedAt x")
    case True
    then have "filter (\<lambda>y. res_CompletedAt y = res_CompletedAt x) xs = []" using top by (fastforce simp: filter_empty_conv)
    then show ?thesis using True z mx by (simp add: duration_shows_def Let_def)
  next
    case le: False
    show ?thesis
    proof (cases "time_zero < res_CompletedAt x")
      case True
      then show ?thesis using le z mx d ne by (simp add: duration_shows_def Let_def max_def)
    next
      case False
      then show ?thesis using le z assms(1) by simp
    qed
  qed
qed

lemma accepts_bounded:
  assumes "accepts_sync r mode x"
  shows "cnt_Added (res_Counts x) \<le> 100000000" "cnt_Refreshed (res_Counts x) \<le> 100000000" "cnt_Removed (res_Counts x) \<le> 100000000"
    "cnt_Rejected (res_Counts x) \<le> 100000000" "cnt_LAPIRequests (res_Counts x) \<le> 100000000"
  using assms by (auto simp: accepts_sync_def Result_Validate_None_iff Counts_valid_def maxCount_def)

lemma bump_shows: "shows_count (m k) n \<Longrightarrow> shows_count (bump m j 1 k) (if k = j then Suc n else n)"
  using metrics_add_shows [of "m j" n 1] by (auto simp: bump_def)

lemma observe_any_fields [simp]:
  "reg_syncRuns (observe_any mode x r) = bump (reg_syncRuns r) (mode, res_Outcome x) 1"
  "reg_syncFailures (observe_any mode x r) = reg_syncFailures r" "reg_lapiFailures (observe_any mode x r) = reg_lapiFailures r"
  "reg_decisionsAdded (observe_any mode x r) = reg_decisionsAdded r" "reg_decisionsFresh (observe_any mode x r) = reg_decisionsFresh r"
  "reg_decisionsRemoved (observe_any mode x r) = reg_decisionsRemoved r" "reg_entriesRejected (observe_any mode x r) = reg_entriesRejected r"
  "reg_databaseFailures (observe_any mode x r) = reg_databaseFailures r" "reg_activeDecisions (observe_any mode x r) = reg_activeDecisions r"
  "reg_feeds (observe_any mode x r) = reg_feeds r" "reg_feed (observe_any mode x r) = reg_feed r"
  "reg_lapiRequests (observe_any mode x r) = reg_lapiRequests r" "reg_notifications (observe_any mode x r) = reg_notifications r"
  "reg_lastSyncSuccess (observe_any mode x r) = reg_lastSyncSuccess r"
  "reg_lastSyncAttempt (observe_any mode x r) = laterUnix (reg_lastSyncAttempt r) (res_StartedAt x)"
  by (simp_all add: observe_any_def Let_def)

lemma observe_enforced_fields [simp]:
  "reg_lastSyncAttempt (observe_enforced x r) = reg_lastSyncAttempt r" "reg_duration (observe_enforced x r) = reg_duration r"
  "reg_durationAt (observe_enforced x r) = reg_durationAt r" "reg_notifications (observe_enforced x r) = reg_notifications r"
  "reg_lastSyncSuccess (observe_enforced x r) = (if metrics_safeSynchronization x then laterUnix (reg_lastSyncSuccess r) (res_CompletedAt x) else reg_lastSyncSuccess r)"
  "reg_feed (observe_enforced x r) = observe_feeds x (reg_feed r)"
  "reg_lapiRequests (observe_enforced x r) = bump (reg_lapiRequests r) (res_Outcome x) (cnt_LAPIRequests (res_Counts x))"
  "reg_syncRuns (observe_enforced x r) = reg_syncRuns r" "reg_feeds (observe_enforced x r) = reg_feeds r"
  "reg_syncFailures (observe_enforced x r) = (if res_Outcome x = OutcomeFailed \<or> res_Outcome x = OutcomeDegraded
     then bump (reg_syncFailures r) (res_Failure x) 1 else reg_syncFailures r)"
  "reg_lapiFailures (observe_enforced x r) = (if lapi_failure (res_Failure x)
     then bump (reg_lapiFailures r) (res_Failure x) 1 else reg_lapiFailures r)"
  "reg_decisionsAdded (observe_enforced x r) = metrics_add (reg_decisionsAdded r) (cnt_Added (res_Counts x))"
  "reg_decisionsFresh (observe_enforced x r) = metrics_add (reg_decisionsFresh r) (cnt_Refreshed (res_Counts x))"
  "reg_decisionsRemoved (observe_enforced x r) = metrics_add (reg_decisionsRemoved r) (cnt_Removed (res_Counts x))"
  "reg_entriesRejected (observe_enforced x r) = metrics_add (reg_entriesRejected r) (cnt_Rejected (res_Counts x))"
  "reg_databaseFailures (observe_enforced x r) = (if res_Failure x = FailureDatabase then metrics_add (reg_databaseFailures r) 1 else reg_databaseFailures r)"
  "reg_activeDecisions (observe_enforced x r) = (if metrics_safeSynchronization x then cnt_ActiveDecisions (res_Counts x) else reg_activeDecisions r)"
  by (simp_all add: observe_enforced_def lapi_failure_def Let_def)

lemma enforced_snoc: "enforced (obs @ [(mode, x)]) = enforced obs @ (if mode = ModeEnforce then [x] else [])"
  by (simp add: enforced_def)

lemma observe_any_shows:
  fixes x :: ops_Result and mode :: Mode
  assumes "registry_shows r obs"
  defines "r' \<equiv> observe_any mode x r" and "obs' \<equiv> obs @ [(mode, x)]"
  shows "shows_count (reg_syncRuns r' (m, out)) (tally (\<lambda>(m', y). m' = m \<and> res_Outcome y = out) obs')"
    and "reg_lastSyncAttempt r' = newest (map (\<lambda>x. res_StartedAt (snd x)) obs')"
    and "duration_shows (reg_durationAt r' m) (reg_duration r' m) (timed m obs')"
proof -
  note old = assms(1) [unfolded registry_shows_def]
  show "shows_count (reg_syncRuns r' (m, out)) (tally (\<lambda>(m', y). m' = m \<and> res_Outcome y = out) obs')"
    using bump_shows [of "reg_syncRuns r" "(m, out)" "tally (\<lambda>(m', y). m' = m \<and> res_Outcome y = out) obs" "(mode, res_Outcome x)"] old
    by (auto simp: r'_def obs'_def split: if_splits)
  show "reg_lastSyncAttempt r' = newest (map (\<lambda>x. res_StartedAt (snd x)) obs')" using old by (simp add: r'_def obs'_def)
  have d: "duration_shows (reg_durationAt r m) (reg_duration r m) (timed m obs)" using old by blast
  show "duration_shows (reg_durationAt r' m) (reg_duration r' m) (timed m obs')"
  proof (cases "mode = m")
    case True
    have "\<forall>y \<in> set (timed m obs). time_zero < res_CompletedAt y" by (simp add: timed_def)
    from duration_shows_snoc [OF d this, of x] True show ?thesis
      by (simp add: r'_def obs'_def timed_snoc observe_any_def Let_def split: if_splits)
  next
    case False
    then have "reg_durationAt r' m = reg_durationAt r m" "reg_duration r' m = reg_duration r m" "timed m obs' = timed m obs"
      by (simp_all add: r'_def obs'_def timed_snoc observe_any_def Let_def)
    with d show ?thesis by simp
  qed
qed

lemma enforced_counts_shows:
  fixes x :: ops_Result and mode :: Mode
  assumes "registry_shows r obs" and "accepts_sync r0 mode x"
  defines "r' \<equiv> observe_enforced x (observe_any mode x r)" and "xs \<equiv> enforced obs @ [x]"
  shows "shows_count (reg_decisionsAdded r') (total (\<lambda>x. cnt_Added (res_Counts x)) xs)"
    and "shows_count (reg_decisionsFresh r') (total (\<lambda>x. cnt_Refreshed (res_Counts x)) xs)"
    and "shows_count (reg_decisionsRemoved r') (total (\<lambda>x. cnt_Removed (res_Counts x)) xs)"
    and "shows_count (reg_entriesRejected r') (total (\<lambda>x. cnt_Rejected (res_Counts x)) xs)"
    and "shows_count (reg_databaseFailures r') (tally (\<lambda>x. res_Failure x = FailureDatabase) xs)"
    and "shows_count (reg_lapiRequests r' out) (total (\<lambda>x. if res_Outcome x = out then cnt_LAPIRequests (res_Counts x) else 0) xs)"
proof -
  note old = assms(1) [unfolded registry_shows_def]
  note add = accepts_bounded [OF assms(2)] metrics_add_shows
  show "shows_count (reg_decisionsAdded r') (total (\<lambda>x. cnt_Added (res_Counts x)) xs)"
    "shows_count (reg_decisionsFresh r') (total (\<lambda>x. cnt_Refreshed (res_Counts x)) xs)"
    "shows_count (reg_decisionsRemoved r') (total (\<lambda>x. cnt_Removed (res_Counts x)) xs)"
    "shows_count (reg_entriesRejected r') (total (\<lambda>x. cnt_Rejected (res_Counts x)) xs)"
    using old add by (simp_all add: r'_def xs_def)
  show "shows_count (reg_databaseFailures r') (tally (\<lambda>x. res_Failure x = FailureDatabase) xs)"
    using old metrics_add_shows [of "reg_databaseFailures r" _ 1] by (simp add: r'_def xs_def)
  have "shows_count (reg_lapiRequests r out)
      (total (\<lambda>x. if res_Outcome x = out then cnt_LAPIRequests (res_Counts x) else 0) (enforced obs))" using old by blast
  from metrics_add_shows [OF this accepts_bounded(5) [OF assms(2)]] this
  show "shows_count (reg_lapiRequests r' out) (total (\<lambda>x. if res_Outcome x = out then cnt_LAPIRequests (res_Counts x) else 0) xs)"
    by (auto simp: r'_def xs_def bump_def)
qed

lemma enforced_failures_shows:
  fixes x :: ops_Result and mode :: Mode
  assumes "registry_shows r obs"
  defines "r' \<equiv> observe_enforced x (observe_any mode x r)" and "xs \<equiv> enforced obs @ [x]"
  shows "shows_count (reg_syncFailures r' f)
      (tally (\<lambda>x. (res_Outcome x = OutcomeFailed \<or> res_Outcome x = OutcomeDegraded) \<and> res_Failure x = f) xs)"
    and "shows_count (reg_lapiFailures r' f) (tally (\<lambda>x. lapi_failure f \<and> res_Failure x = f) xs)"
proof -
  note old = assms(1) [unfolded registry_shows_def]
  have "shows_count (reg_syncFailures r f)
      (tally (\<lambda>x. (res_Outcome x = OutcomeFailed \<or> res_Outcome x = OutcomeDegraded) \<and> res_Failure x = f) (enforced obs))"
    using old by simp
  from this bump_shows [of "reg_syncFailures r", OF this, of "res_Failure x"]
  show "shows_count (reg_syncFailures r' f)
      (tally (\<lambda>x. (res_Outcome x = OutcomeFailed \<or> res_Outcome x = OutcomeDegraded) \<and> res_Failure x = f) xs)"
    by (auto simp: r'_def xs_def)
  have "shows_count (reg_lapiFailures r f) (tally (\<lambda>x. lapi_failure f \<and> res_Failure x = f) (enforced obs))" using old by blast
  from this bump_shows [of "reg_lapiFailures r", OF this, of "res_Failure x"]
  show "shows_count (reg_lapiFailures r' f) (tally (\<lambda>x. lapi_failure f \<and> res_Failure x = f) xs)"
    by (cases "f = res_Failure x") (auto simp: r'_def xs_def)
qed

lemma enforced_gauges_show:
  fixes x :: ops_Result and mode :: Mode
  assumes "registry_shows r obs"
  defines "r' \<equiv> observe_enforced x (observe_any mode x r)" and "xs \<equiv> enforced obs @ [x]"
  shows "reg_activeDecisions r' = last_safe xs"
    and "reg_lastSyncSuccess r' = newest (map res_CompletedAt (filter metrics_safeSynchronization xs))"
    and "feed_shows (reg_feed r' name) (feed_log name xs)"
proof -
  note old = assms(1) [unfolded registry_shows_def]
  show "reg_activeDecisions r' = last_safe xs" using old by (simp add: r'_def xs_def last_safe_def)
  show "reg_lastSyncSuccess r' = newest (map res_CompletedAt (filter metrics_safeSynchronization xs))"
    using old by (simp add: r'_def xs_def)
  have "feed_shows (reg_feed r name) (feed_log name (enforced obs))" using old by blast
  from observe_feeds_shows [of "reg_feed r" name, OF this, of x] show "feed_shows (reg_feed r' name) (feed_log name xs)" by (simp add: r'_def xs_def)
qed

lemma observe_step_shows:
  assumes "registry_shows r obs" and "accepts_sync r mode x"
  shows "registry_shows (if mode = ModeDryRun then observe_any mode x r else observe_enforced x (observe_any mode x r)) (obs @ [(mode, x)])"
proof (cases "mode = ModeDryRun")
  case True
  then have "enforced (obs @ [(mode, x)]) = enforced obs" by (simp add: enforced_snoc)
  then show ?thesis
    using True assms(1) observe_any_shows [OF assms(1), of mode x] unfolding registry_shows_def by (simp only: observe_any_fields) simp
next
  case False
  then have m: "mode = ModeEnforce" using assms(2) by (auto simp: accepts_sync_def validMode_def)
  let ?r = "observe_enforced x (observe_any mode x r)"
  have eq: "(if mode = ModeDryRun then observe_any mode x r else ?r) = ?r" "enforced (obs @ [(mode, x)]) = enforced obs @ [x]"
    using False m by (simp_all add: enforced_snoc)
  have same: "reg_syncRuns ?r = reg_syncRuns (observe_any mode x r)" "reg_lastSyncAttempt ?r = reg_lastSyncAttempt (observe_any mode x r)"
    "reg_duration ?r = reg_duration (observe_any mode x r)" "reg_durationAt ?r = reg_durationAt (observe_any mode x r)"
    "reg_notifications ?r = reg_notifications r" by simp_all
  have none: "\<forall>out. reg_notifications r out = 0" using assms(1) by (simp add: registry_shows_def)
  show ?thesis
    unfolding eq registry_shows_def same
    by (intro conjI allI none [rule_format] enforced_counts_shows [OF assms] enforced_failures_shows [OF assms(1)]
        enforced_gauges_show [OF assms(1)] observe_any_shows [OF assms(1)])
qed

lemma accepts_sync_feeds: "reg_feeds r = reg_feeds r' \<Longrightarrow> accepts_sync r mode x = accepts_sync r' mode x"
  by (simp add: accepts_sync_def)

lemma observe_history_shows:
  assumes "registry_shows r0 []"
  shows "\<exists>r. observe_history r0 obs = Some r \<and> reg_feeds r = reg_feeds r0 \<and> registry_shows r (accepted r0 obs)"
proof (induction obs rule: rev_induct)
  case Nil
  then show ?case using assms by (simp add: observe_history_def accepted_def)
next
  case (snoc ob obs)
  obtain mode x where ob: "ob = (mode, x)" by (rule prod.exhaust)
  from snoc obtain r where r: "observe_history r0 obs = Some r" "reg_feeds r = reg_feeds r0" "registry_shows r (accepted r0 obs)" by blast
  show ?case
    using r observe_step_shows [OF r(3), of mode x] accepts_sync_feeds [OF r(2)]
    by (auto simp: observe_history_def accepted_def ObserveSync_def ob Let_def split: if_splits)
qed

text \<open>
  C38. The registry tells the truth about any history of synchronizations. Every counter is the sum, or the
  number, of the enforced observations it stands for (decisions added, refreshed and removed, entries rejected,
  LAPI requests by outcome, failures by category, LAPI and database failures, and for each feed its download and validation
  failures), up to the largest 64-bit number, where it stays; runs are counted by mode and outcome. The gauge of
  active decisions is that of the last safe run, that of the entries of a feed is of its last successful
  observation, the times of the last attempt, of the last safe run and of the last success of a feed are the largest ones observed,
  the duration of a mode is that of its run completed last. Observations that are invalid or name an
  unknown feed leave no trace, and previews leave only their runs, attempts and durations.
\<close>

theorem ObserveSync_history:
  assumes "metrics_New build feeds = Inr r0"
  shows "\<exists>r. observe_history r0 obs = Some r \<and> registry_shows r (accepted r0 obs)"
proof -
  have "registry_shows r0 []"
    using assms by (auto simp: metrics_New_def registry_shows_def enforced_def last_safe_def timed_def duration_shows_def Let_def split: if_splits)
  from observe_history_shows [OF this] show ?thesis by blast
qed

definition sample_sync :: ops_Result where
  "sample_sync = \<lparr>res_Outcome = OutcomeSuccess, res_Failure = NoFailure, res_Retryable = False, res_StartedAt = 1000 * second,
     res_CompletedAt = 1002 * second, res_Counts = zero_Counts\<lparr>cnt_Added := 3, cnt_ActiveDecisions := 3\<rparr>,
     res_Feeds = [\<lparr>fr_Name = ''alpha'', fr_Outcome = OutcomeSuccess, fr_Failure = NoFailure, fr_Accepted = 3, fr_Rejected = 0\<rparr>]\<rparr>"

theorem ObserveSync_history_witness:
  "\<exists>r0 r. metrics_New \<lparr>bi_Name = [], bi_Version = ''dev'', bi_Revision = [], bi_BuildDate = [], bi_GoVersion = [], bi_GOOS = [], bi_GOARCH = []\<rparr>
       [''alpha''] = Inr r0 \<and> observe_history r0 [(ModeEnforce, sample_sync), (ModeDryRun, sample_sync), (ModeEnforce, sample_sync)] = Some r \<and>
     unat (reg_decisionsAdded r) = 6 \<and> unat (reg_syncRuns r (ModeEnforce, OutcomeSuccess)) = 2 \<and> reg_activeDecisions r = 3"
proof -
  let ?b = "\<lparr>bi_Name = [], bi_Version = ''dev'', bi_Revision = [], bi_BuildDate = [], bi_GoVersion = [], bi_GOOS = [], bi_GOARCH = []\<rparr>"
  let ?obs = "[(ModeEnforce, sample_sync), (ModeDryRun, sample_sync), (ModeEnforce, sample_sync)]"
  have name: "ValidFeedName ''alpha''" by (simp add: ValidFeedName_def feedNamePattern_def feed_edge_def is_lower_def is_digit_def code_def)
  then obtain r0 where r0: "metrics_New ?b [''alpha''] = Inr r0" "reg_feeds r0 = [''alpha'']"
    by (auto simp: metrics_New_def Let_def)
  from ObserveSync_history [OF r0(1), of ?obs] obtain r where
    r: "observe_history r0 ?obs = Some r" "registry_shows r (accepted r0 ?obs)" by blast
  have "Result_Validate sample_sync = None"
    using name by (simp add: Result_Validate_None_iff sample_sync_def FeedResult_valid_def maxCount_def maxFeedResults_def maxDuration_def Counts_valid_def
        zero_Counts_def go_time_defs)
  then have "accepted r0 ?obs = ?obs" using r0(2) by (simp add: accepted_def accepts_sync_def validMode_def) (simp add: sample_sync_def)
  then have "registry_shows r ?obs" using r(2) by simp
  then have "unat (reg_decisionsAdded r) = 6" "unat (reg_syncRuns r (ModeEnforce, OutcomeSuccess)) = 2" "reg_activeDecisions r = 3"
    by (simp_all add: registry_shows_def shows_count_def enforced_def total_def tally_def last_safe_def sample_sync_def
        metrics_safeSynchronization_def zero_Counts_def)
  with r0(1) r(1) show ?thesis by blast
qed

end
