(* ===== verification/App_Observer.thy ===== *)
theory App_Observer
  imports Health Metrics
begin

text \<open>
  The fan-out of operational events (\<^verbatim>\<open>internal/app/observer.go\<close>) and the closed vocabulary of the log
  (\<^verbatim>\<open>internal/logsafe\<close>). A log line is the record of its attributes; the JSON text \<^verbatim>\<open>log/slog\<close> makes of it is
  not modelled. The theorem shows that the two vocabularies fit: no valid event is lost by the log, and a log
  line never says success for a failure.
\<close>

subsection \<open>Definitions: logsafe\<close>

datatype log_Level = LevelDebug | LevelInfo | LevelWarn | LevelError | OtherLevel int

datatype log_Operation =
    OpRun | OpFeedSync | OpFeedDownload | OpFeedValidate | OpLAPIAuth | OpLAPIRequest | OpDatabase | OpNotification
  | OpHTTPServer | OpPrune | OtherOp string

text \<open>\<open>NoCategory\<close> and \<open>NoTransaction\<close> are the empty strings.\<close>

datatype log_Category =
    NoCategory | CategoryConfig | CategoryCredential | CategoryFeedDownload | CategoryFeedValidation | CategoryLAPIAuth
  | CategoryLAPIRequest | CategoryDatabase | CategoryNotification | CategoryOwnership | CategoryPanic | CategoryHTTPInternal
  | CategoryInternal | OtherCategory string

datatype log_Transaction = NoTransaction | TxCommitted | TxRolledBack | OtherTransaction string

record log_Event =
  lg_Level :: log_Level
  lg_Operation :: log_Operation
  lg_Feed :: string
  lg_Duration :: duration
  lg_Total :: int
  lg_Added :: int
  lg_Refreshed :: int
  lg_Removed :: int
  lg_Rejected :: int
  lg_Skipped :: int
  lg_LAPIRequests :: int
  lg_Success :: bool
  lg_ErrorCategory :: log_Category
  lg_Transaction :: log_Transaction

definition logsafe_New :: "string \<Rightarrow> log_Level option" where
  "logsafe_New level =
     (let lower = ToLower level in
      if lower = ''debug'' then Some LevelDebug
      else if lower = ''info'' then Some LevelInfo
      else if lower = ''warn'' \<or> lower = ''warning'' then Some LevelWarn
      else if lower = ''error'' then Some LevelError
      else None)"

fun log_validOperation :: "log_Operation \<Rightarrow> bool" where
  "log_validOperation (OtherOp s) = False"
| "log_validOperation _ = True"

fun log_validCategory :: "log_Category \<Rightarrow> bool" where
  "log_validCategory NoCategory = False"
| "log_validCategory (OtherCategory s) = False"
| "log_validCategory _ = True"

fun log_validLevel :: "log_Level \<Rightarrow> bool" where
  "log_validLevel (OtherLevel n) = False"
| "log_validLevel _ = True"

definition log_validate :: "log_Event \<Rightarrow> bool" where
  "log_validate e =
     (if \<not> log_validLevel (lg_Level e) \<or> \<not> log_validOperation (lg_Operation e) then False
      else if lg_Feed e \<noteq> [] \<and> (length (lg_Feed e) > 64 \<or> \<not> feedNamePattern (lg_Feed e)) then False
      else if lg_Duration e < 0 \<or> lg_Total e < 0 \<or> lg_Added e < 0 \<or> lg_Refreshed e < 0 \<or> lg_Removed e < 0 \<or> lg_Rejected e < 0
          \<or> lg_Skipped e < 0 \<or> lg_LAPIRequests e < 0 then False
      else if lg_Success e \<and> lg_ErrorCategory e \<noteq> NoCategory then False
      else if \<not> lg_Success e \<and> \<not> log_validCategory (lg_ErrorCategory e) then False
      else lg_Transaction e \<in> {NoTransaction, TxCommitted, TxRolledBack})"

text \<open>\<^verbatim>\<open>Log\<close>: the lines written so far, a line appended for a valid event. The handler drops what is below its level.\<close>

fun level_number :: "log_Level \<Rightarrow> int" where
  "level_number LevelDebug = - 4" | "level_number LevelInfo = 0" | "level_number LevelWarn = 4" | "level_number LevelError = 8"
| "level_number (OtherLevel n) = n"

definition log_Log :: "log_Level \<Rightarrow> log_Event \<Rightarrow> log_Event list \<Rightarrow> bool \<times> log_Event list" where
  "log_Log minimum event lines =
     (if \<not> log_validate event then (False, lines)
      else (True, if level_number (lg_Level event) \<ge> level_number minimum then lines @ [event] else lines))"

definition log_Failure :: "log_Level \<Rightarrow> log_Operation \<Rightarrow> string \<Rightarrow> log_Category \<Rightarrow> log_Event list \<Rightarrow> bool \<times> log_Event list" where
  "log_Failure minimum operation feed category lines =
     log_Log minimum
       \<lparr>lg_Level = LevelError, lg_Operation = operation, lg_Feed = feed, lg_Duration = 0, lg_Total = 0, lg_Added = 0,
        lg_Refreshed = 0, lg_Removed = 0, lg_Rejected = 0, lg_Skipped = 0, lg_LAPIRequests = 0, lg_Success = False,
        lg_ErrorCategory = category, lg_Transaction = NoTransaction\<rparr> lines"

subsection \<open>Definitions: the fan-out\<close>

fun logLevel :: "Severity \<Rightarrow> log_Level" where
  "logLevel SeverityInfo = LevelInfo"
| "logLevel SeverityWarning = LevelWarn"
| "logLevel SeverityError = LevelError"
| "logLevel (OtherSeverity s) = LevelError"

fun logOperation :: "ops_Operation \<Rightarrow> FailureCategory \<Rightarrow> log_Operation" where
  "logOperation OperationService f = OpRun"
| "logOperation OperationScheduler f = OpRun"
| "logOperation OperationSync f = OpFeedSync"
| "logOperation OperationFeed f = (if f = FailureFeedValidation then OpFeedValidate else OpFeedDownload)"
| "logOperation OperationLAPI f = (if f = FailureLAPIAuth then OpLAPIAuth else OpLAPIRequest)"
| "logOperation OperationHTTP f = OpHTTPServer"
| "logOperation OperationNotification f = OpNotification"
| "logOperation OperationDatabase f = OpDatabase"
| "logOperation OperationPrune f = OpPrune"
| "logOperation (OtherOperation s) f = OpRun"

fun contextualInternalCategory :: "ops_Operation \<Rightarrow> log_Category" where
  "contextualInternalCategory OperationFeed = CategoryFeedDownload"
| "contextualInternalCategory OperationLAPI = CategoryLAPIRequest"
| "contextualInternalCategory OperationHTTP = CategoryHTTPInternal"
| "contextualInternalCategory OperationNotification = CategoryNotification"
| "contextualInternalCategory OperationDatabase = CategoryDatabase"
| "contextualInternalCategory _ = CategoryInternal"

fun logCategory :: "FailureCategory \<Rightarrow> ops_Operation \<Rightarrow> log_Category" where
  "logCategory FailureConfig p = CategoryConfig"
| "logCategory FailureCredential p = CategoryCredential"
| "logCategory FailureFeedDownload p = CategoryFeedDownload"
| "logCategory FailureFeedValidation p = CategoryFeedValidation"
| "logCategory FailureLAPIAuth p = CategoryLAPIAuth"
| "logCategory FailureLAPI p = CategoryLAPIRequest"
| "logCategory FailureDatabase p = CategoryDatabase"
| "logCategory FailureNotification p = CategoryNotification"
| "logCategory FailureOwnership p = CategoryOwnership"
| "logCategory FailureTimeout p = contextualInternalCategory p"
| "logCategory FailureCancelled p = contextualInternalCategory p"
| "logCategory FailureRuntime p = contextualInternalCategory p"
| "logCategory FailureInternal p = contextualInternalCategory p"
| "logCategory NoFailure p = NoCategory"
| "logCategory (OtherFailure s) p = NoCategory"

definition boundedTotal :: "Counts \<Rightarrow> int" where
  "boundedTotal c = wrap64 (cnt_FeedsSucceeded c + cnt_FeedsFailed c + cnt_FeedsUnchanged c + cnt_FeedsNotDue c)"

definition log_event_of :: "Event \<Rightarrow> log_Event" where
  "log_event_of event =
     \<lparr>lg_Level = logLevel (ev_Severity event), lg_Operation = logOperation (ev_Operation event) (ev_Failure event),
      lg_Feed = ev_Feed event, lg_Duration = ev_Duration event, lg_Total = boundedTotal (ev_Counts event),
      lg_Added = cnt_Added (ev_Counts event), lg_Refreshed = cnt_Refreshed (ev_Counts event),
      lg_Removed = cnt_Removed (ev_Counts event), lg_Rejected = cnt_Rejected (ev_Counts event),
      lg_Skipped = cnt_Skipped (ev_Counts event), lg_LAPIRequests = cnt_LAPIRequests (ev_Counts event),
      lg_Success = (ev_Failure event = NoFailure), lg_ErrorCategory = logCategory (ev_Failure event) (ev_Operation event),
      lg_Transaction = NoTransaction\<rparr>"

text \<open>The observers of the service: the log, then the metrics, then the readiness tracker.\<close>

record observers =
  ob_minimum :: log_Level
  ob_lines :: "log_Event list"
  ob_metrics :: "Registry option"
  ob_health :: "Tracker option"

definition fanout_Observe :: "gotime \<Rightarrow> Event \<Rightarrow> observers \<Rightarrow> observers" where
  "fanout_Observe now event ob =
     (if Event_Validate event \<noteq> None then ob
      else ob\<lparr>ob_lines := snd (log_Log (ob_minimum ob) (log_event_of event) (ob_lines ob)),
              ob_metrics := metrics_Observe event (ob_metrics ob), ob_health := health_Observe now event (ob_health ob)\<rparr>)"

subsection \<open>The two vocabularies\<close>

lemma valid_counts_total:
  assumes "Counts_valid c"
  shows "boundedTotal c = cnt_FeedsSucceeded c + cnt_FeedsFailed c + cnt_FeedsUnchanged c + cnt_FeedsNotDue c" and "0 \<le> boundedTotal c"
  using assms by (simp_all add: boundedTotal_def wrap64_def Counts_valid_def maxCount_def)

lemma logOperation_valid: "log_validOperation (logOperation p f)"
  by (cases p) auto

lemma logCategory_valid: "validFailure f \<Longrightarrow> log_validCategory (logCategory f p)"
  by (cases f; cases p) auto

text \<open>
  C39. No valid event is lost on its way to the log: its log line passes the log's own validation, counts the
  feeds without overflow, keeps feed, duration and counts, and says success exactly if the event has no
  failure. An event that is not valid reaches no observer.
\<close>

theorem fanout_logs_valid_events:
  "fanout_Observe now event ob =
     (if Event_Validate event = None
      then ob\<lparr>ob_lines := ob_lines ob @ (if level_number (logLevel (ev_Severity event)) \<ge> level_number (ob_minimum ob) then [log_event_of event] else []),
              ob_metrics := metrics_Observe event (ob_metrics ob), ob_health := health_Observe now event (ob_health ob)\<rparr>
      else ob) \<and>
   (Event_Validate event = None \<longrightarrow>
      log_validate (log_event_of event) \<and> (lg_Success (log_event_of event) \<longleftrightarrow> ev_Failure event = NoFailure) \<and>
      lg_Total (log_event_of event) = cnt_FeedsSucceeded (ev_Counts event) + cnt_FeedsFailed (ev_Counts event) +
        cnt_FeedsUnchanged (ev_Counts event) + cnt_FeedsNotDue (ev_Counts event))"
proof (cases "Event_Validate event = None")
  case False
  then show ?thesis by (auto simp: fanout_Observe_def)
next
  case True
  then obtain p where p: "codeOperation (ev_Code event) = Some p" by (auto simp: Event_Validate_def split: option.splits)
  note v = True [unfolded Event_Validate_def p, simplified]
  have c: "Counts_valid (ev_Counts event)" "validSeverity (ev_Severity event)" "0 \<le> ev_Duration event"
    using v by (auto split: if_splits)
  have f: "ev_Failure event = NoFailure \<or> validFailure (ev_Failure event)" using v by (auto split: if_splits)
  have n: "ev_Feed event = [] \<or> ValidFeedName (ev_Feed event)" using v by (auto split: if_splits)
  have "log_validLevel (logLevel (ev_Severity event))" using c(2) by (auto simp: validSeverity_def)
  moreover have "0 \<le> cnt_Added (ev_Counts event) \<and> 0 \<le> cnt_Refreshed (ev_Counts event) \<and> 0 \<le> cnt_Removed (ev_Counts event) \<and>
      0 \<le> cnt_Rejected (ev_Counts event) \<and> 0 \<le> cnt_Skipped (ev_Counts event) \<and> 0 \<le> cnt_LAPIRequests (ev_Counts event)"
    using c(1) by (simp add: Counts_valid_def)
  moreover have "if ev_Failure event = NoFailure then logCategory (ev_Failure event) (ev_Operation event) = NoCategory
      else log_validCategory (logCategory (ev_Failure event) (ev_Operation event))" using f logCategory_valid by auto
  ultimately have "log_validate (log_event_of event)"
    using c n valid_counts_total [OF c(1)] logOperation_valid
    by (auto simp: log_validate_def log_event_of_def ValidFeedName_def)
  then show ?thesis
    using True valid_counts_total(1) [OF c(1)] by (simp add: fanout_Observe_def log_Log_def log_event_of_def)
qed

definition sample_event :: Event where
  "sample_event = \<lparr>ev_Code = CodeFeedResult, ev_Operation = OperationFeed, ev_Feed = ''alpha'', ev_Outcome = OutcomeFailed,
     ev_Severity = SeverityWarning, ev_Failure = FailureTimeout, ev_At = 1000 * second, ev_Duration = 0, ev_Attempt = 0, ev_Counts = zero_Counts\<rparr>"

theorem fanout_logs_valid_events_witness:
  "Event_Validate sample_event = None \<and> log_validate (log_event_of sample_event) \<and> \<not> lg_Success (log_event_of sample_event)"
proof -
  have "Event_Validate sample_event = None"
    by (simp add: Event_Validate_def sample_event_def validSeverity_def outcomeNeedsFailure_def maxDuration_def go_time_defs
        ValidFeedName_def feedNamePattern_def feed_edge_def is_lower_def is_digit_def code_def)
  with fanout_logs_valid_events [of 0 sample_event] show ?thesis by (auto simp: sample_event_def)
qed

end
