(* ===== verification/Fetcher.thy ===== *)
theory Fetcher
  imports Syncer
begin

text \<open>
  The file \<^verbatim>\<open>internal/feed/fetcher.go\<close>: the download of a feed. The resolver, the dialer and the remote
  servers are functions on an arbitrary world; the parsers of \<^verbatim>\<open>net/url\<close>, \<^verbatim>\<open>mime\<close> and \<^verbatim>\<open>net/http\<close> are a record of
  functions. The loop of \<^verbatim>\<open>http.Client.Do\<close> over redirects and the use of \<^verbatim>\<open>DialContext\<close> by the transport are
  modelled, since the redirect policy and the dialer of this file are called from there.
\<close>

subsection \<open>Definitions: the library\<close>

text \<open>\<open>hl_Address\<close> is the host and port the transport dials for a URL, \<open>hl_Location\<close> a redirect target relative to
  a URL, \<open>hl_NewRequest\<close> the URL of a request for a text, \<open>hl_Referer\<close> the \<^verbatim>\<open>Referer\<close> of a redirect from
  one URL to another. \<open>hl_ParseMediaType\<close> gives the media type, in lower case.\<close>

record http_library =
  hl_ParseRequestURI :: "string \<Rightarrow> url option"
  hl_URLString :: "url \<Rightarrow> string"
  hl_NewRequest :: "string \<Rightarrow> url option"
  hl_Location :: "url \<Rightarrow> string \<Rightarrow> url option"
  hl_Referer :: "url \<Rightarrow> url \<Rightarrow> string"
  hl_Address :: "url \<Rightarrow> string"
  hl_ParseMediaType :: "string \<Rightarrow> string option"
  hl_ParseTime :: "string \<Rightarrow> gotime option"
  hl_FormatTime :: "gotime \<Rightarrow> string"

record http_request =
  hr_URL :: url
  hr_Header :: "(string \<times> string) list"

text \<open>A response: \<open>rsp_Header\<close> is \<^verbatim>\<open>Header.Get\<close>; the stream of the body ends after \<open>rsp_Body\<close>, with an error when
  \<open>rsp_Broken\<close>.\<close>

record http_response =
  rsp_StatusCode :: int
  rsp_Header :: "string \<Rightarrow> string"
  rsp_ContentLength :: int
  rsp_Body :: string
  rsp_Broken :: bool

text \<open>What is outside: name resolution, opening of a connection to a host and port, whether the transport has an
  idle connection for an address, and the exchange of a request for a response on a connection.\<close>

record 'w internet =
  in_Lookup :: "string \<Rightarrow> 'w \<Rightarrow> addr list option \<times> 'w"
  in_Dial :: "string \<Rightarrow> 'w \<Rightarrow> bool \<times> 'w"
  in_Idle :: "string \<Rightarrow> 'w \<Rightarrow> bool \<times> 'w"
  in_Exchange :: "http_request \<Rightarrow> 'w \<Rightarrow> http_response option \<times> 'w"

datatype fetch_cause = CauseSSRF | CauseRedirect | CauseOther

text \<open>\<^verbatim>\<open>strings.EqualFold\<close> where one side is ASCII: only the two characters of \<open>foldName\<close> fold to ASCII.\<close>

definition EqualFold :: "string \<Rightarrow> string \<Rightarrow> bool" where
  "EqualFold s t = (foldName s = foldName t)"

definition JoinHostPort :: "string \<Rightarrow> string \<Rightarrow> string" where
  "JoinHostPort host port =
     (if Contains_byte host (CHR '':'') then CHR ''['' # host @ '']:'' @ port else host @ CHR '':'' # port)"

subsection \<open>Definitions: header values and URLs\<close>

fun hasHeaderControl :: "string \<Rightarrow> bool" where
  "hasHeaderControl [] = False"
| "hasHeaderControl (c # s) =
     ((code c < 32 \<and> code c \<noteq> 9) \<or> code c = 127 \<or>
      (code c = 194 \<and> (case s of [] \<Rightarrow> False | d # _ \<Rightarrow> 128 \<le> code d \<and> code d \<le> 159)) \<or>
      hasHeaderControl s)"

definition feed_validUserAgent :: "string \<Rightarrow> bool" where
  "feed_validUserAgent value =
     (value \<noteq> [] \<and> length value \<le> 128 \<and> count_list value (CHR ''/'') = 1 \<and> \<not> hasHeaderControl value)"

definition safeAddress :: "addr \<Rightarrow> bool" where
  "safeAddress address =
     (let unmapped = Unmap address in fst (IsSafePrefix (PrefixFrom unmapped (int (BitLen unmapped)))))"

datatype url_failure = BadURL | BlockedURL

definition validateFetchURL :: "http_library \<Rightarrow> string \<Rightarrow> bool \<Rightarrow> (url_failure, url) result" where
  "validateFetchURL lib raw allowHTTP =
     (case hl_ParseRequestURI lib raw of
        None \<Rightarrow> Inl BadURL
      | Some parsed \<Rightarrow>
          if url_Scheme parsed = [] \<or> url_Hostname parsed = [] \<or> url_HasUser parsed \<or> url_Fragment parsed \<noteq> []
             \<or> hasHeaderControl (url_Host parsed) then Inl BadURL
          else if url_Scheme parsed \<noteq> ''https'' \<and> (url_Scheme parsed \<noteq> ''http'' \<or> \<not> allowHTTP) then Inl BadURL
          else case ParseAddr (url_Hostname parsed) of
            Some literal \<Rightarrow> if \<not> safeAddress literal then Inl BlockedURL else Inr parsed
          | None \<Rightarrow> Inr parsed)"

text \<open>Whether a redirect to a URL is followed after the requests \<open>via\<close>.\<close>

definition redirectPolicy :: "http_library \<Rightarrow> int \<Rightarrow> bool \<Rightarrow> url \<Rightarrow> http_request list \<Rightarrow> bool" where
  "redirectPolicy lib maxRedirects allowHTTP target via =
     (if int (length via) > maxRedirects then False
      else case validateFetchURL lib (hl_URLString lib target) allowHTTP of
        Inl _ \<Rightarrow> False
      | Inr parsed \<Rightarrow>
          \<not> (via \<noteq> [] \<and> url_Scheme (hr_URL (last via)) = ''https'' \<and> url_Scheme parsed \<noteq> ''https''))"

subsection \<open>Definitions: secureDialer\<close>

fun dial_first :: "'w internet \<Rightarrow> string \<Rightarrow> addr list \<Rightarrow> 'w \<Rightarrow> fetch_cause option \<times> 'w" where
  "dial_first net port [] w = (Some CauseOther, w)"
| "dial_first net port (resolved # addresses) w =
     (case in_Dial net (JoinHostPort (addr_String resolved) port) w of
        (True, w1) \<Rightarrow> (None, w1)
      | (False, w1) \<Rightarrow> dial_first net port addresses w1)"

definition dial_checked :: "'w internet \<Rightarrow> string \<Rightarrow> addr list \<Rightarrow> 'w \<Rightarrow> fetch_cause option \<times> 'w" where
  "dial_checked net port addresses w =
     (if addresses = [] \<or> length addresses > 16 then (Some CauseSSRF, w)
      else if \<not> list_all safeAddress addresses then (Some CauseSSRF, w)
      else dial_first net port addresses w)"

definition DialContext :: "'w internet \<Rightarrow> string \<Rightarrow> 'w \<Rightarrow> fetch_cause option \<times> 'w" where
  "DialContext net address w =
     (case SplitHostPort address of
        None \<Rightarrow> (Some CauseSSRF, w)
      | Some (host, port) \<Rightarrow>
          (case ParseAddr host of
             Some literal \<Rightarrow> dial_checked net port [Unmap literal] w
           | None \<Rightarrow>
               (case in_Lookup net host w of
                  (None, w1) \<Rightarrow> (Some CauseOther, w1)
                | (Some addresses, w1) \<Rightarrow> dial_checked net port addresses w1)))"

subsection \<open>Definitions: the HTTP client\<close>

record fetcher =
  ft_userAgent :: string
  ft_allowHTTP :: bool
  ft_maxRedirects :: int

text \<open>The options of \<^verbatim>\<open>NewFetcher\<close> with the four timeouts in a list.\<close>

definition NewFetcher :: "string \<Rightarrow> int \<Rightarrow> bool \<Rightarrow> duration list \<Rightarrow> (FeedError, fetcher) result" where
  "NewFetcher agent maxRedirects allowHTTP timeouts =
     (if \<not> feed_validUserAgent agent \<or> maxRedirects < 0 \<or> maxRedirects > 10 \<or> list_ex (\<lambda>t. t \<le> 0) timeouts
      then Inl FeedErrPolicy
      else Inr \<lparr>ft_userAgent = agent, ft_allowHTTP = allowHTTP, ft_maxRedirects = maxRedirects\<rparr>)"

text \<open>The transport: an idle connection to the address or a new one, then the exchange.\<close>

definition round_trip :: "http_library \<Rightarrow> 'w internet \<Rightarrow> http_request \<Rightarrow> 'w \<Rightarrow> (fetch_cause, http_response) result \<times> 'w" where
  "round_trip lib net request w =
     (case in_Idle net (hl_Address lib (hr_URL request)) w of (idle, w1) \<Rightarrow>
      case (if idle then (None, w1) else DialContext net (hl_Address lib (hr_URL request)) w1) of
        (Some cause, w2) \<Rightarrow> (Inl cause, w2)
      | (None, w2) \<Rightarrow>
          (case in_Exchange net request w2 of
             (None, w3) \<Rightarrow> (Inl CauseOther, w3)
           | (Some response, w3) \<Rightarrow> (Inr response, w3)))"

definition redirect_status :: "int \<Rightarrow> bool" where
  "redirect_status status = (status \<in> {301, 302, 303, 307, 308})"

text \<open>The loop of \<^verbatim>\<open>Do\<close>: a redirect without a location is an ordinary response; the headers of the first request
  are sent again, with a \<^verbatim>\<open>Referer\<close> of the request before.\<close>

definition redirect_headers :: "http_library \<Rightarrow> url \<Rightarrow> url \<Rightarrow> (string \<times> string) list \<Rightarrow> (string \<times> string) list" where
  "redirect_headers lib previous target headers =
     (let ref = hl_Referer lib previous target in
      filter (\<lambda>h. fst h \<noteq> ''Referer'') headers @ (if ref = [] then [] else [(''Referer'', ref)]))"

function client_Do ::
  "http_library \<Rightarrow> 'w internet \<Rightarrow> fetcher \<Rightarrow> http_request list \<Rightarrow> http_request \<Rightarrow> 'w \<Rightarrow> (fetch_cause, http_response) result \<times> 'w" where
  "client_Do lib net f via request w =
     (case round_trip lib net request w of
        (Inl cause, w1) \<Rightarrow> (Inl cause, w1)
      | (Inr response, w1) \<Rightarrow>
          if \<not> redirect_status (rsp_StatusCode response) \<or> rsp_Header response ''Location'' = [] then (Inr response, w1)
          else (case hl_Location lib (hr_URL request) (rsp_Header response ''Location'') of
              None \<Rightarrow> (Inl CauseOther, w1)
            | Some target \<Rightarrow>
                if \<not> redirectPolicy lib (ft_maxRedirects f) (ft_allowHTTP f) target (via @ [request]) then (Inl CauseRedirect, w1)
                else client_Do lib net f (via @ [request]) 
                       \<lparr>hr_URL = target, hr_Header = redirect_headers lib (hr_URL request) target (hr_Header request)\<rparr> w1))"
  by pat_completeness auto
termination
proof (relation "measure (\<lambda>(lib, net, f, via, request, w). nat (ft_maxRedirects f) + 1 - length via)", goal_cases)
  case 1
  show ?case by simp
next
  case (2 lib net f via request w x y r target)
  then have "int (length (via @ [request])) \<le> ft_maxRedirects f" by (auto simp: redirectPolicy_def split: if_splits)
  then show ?case by auto
qed

declare client_Do.simps [simp del]

subsection \<open>Definitions: requests and responses\<close>

definition validConditional :: "string \<Rightarrow> nat \<Rightarrow> bool" where
  "validConditional value mx = (length value \<le> mx \<and> \<not> hasHeaderControl value)"

definition allowedContentType :: "http_library \<Rightarrow> string \<Rightarrow> string list \<Rightarrow> bool" where
  "allowedContentType lib raw allowed =
     (case hl_ParseMediaType lib raw of
        None \<Rightarrow> False
      | Some mediaType \<Rightarrow>
          if mediaType = [] \<or> EqualFold mediaType ''text/html'' then False
          else list_ex (\<lambda>candidate. EqualFold (TrimSpace candidate) mediaType) allowed)"

definition responseValidators :: "http_library \<Rightarrow> http_response \<Rightarrow> (string \<times> string) option" where
  "responseValidators lib response =
     (let etag = rsp_Header response ''ETag''; lastModified = rsp_Header response ''Last-Modified'' in
      if \<not> validConditional etag 256 then None
      else if lastModified = [] then Some (etag, [])
      else map_option (\<lambda>parsed. (etag, hl_FormatTime lib parsed)) (hl_ParseTime lib lastModified))"

text \<open>The product of seconds and \<^verbatim>\<open>time.Second\<close> wraps at 64 bits.\<close>

definition parseRetryAfter :: "http_library \<Rightarrow> gotime \<Rightarrow> string \<Rightarrow> duration" where
  "parseRetryAfter lib now value =
     (if value = [] then 0
      else case Atoi value of
        Some seconds \<Rightarrow> let delay = wrap64 (seconds * second) in if delay > 0 \<and> delay \<le> 24 * hour then delay else 0
      | None \<Rightarrow>
          (case hl_ParseTime lib value of
             Some target \<Rightarrow> let delay = time_Sub target now in if delay > 0 \<and> delay \<le> 24 * hour then delay else 0
           | None \<Rightarrow> 0))"

definition looksLikeHTML :: "string \<Rightarrow> bool" where
  "looksLikeHTML body =
     (let start = ToLower (TrimSpace (TrimPrefix (take 512 body) [byte 239, byte 187, byte 191])) in
      has_prefix start ''<!doctype html'' \<or> has_prefix start ''<html'' \<or> has_prefix start ''<head'' \<or> has_prefix start ''<body'')"

definition validateFetchRequest :: "http_library \<Rightarrow> FetchRequest \<Rightarrow> FeedError option" where
  "validateFetchRequest lib request =
     (if frq_Timeout request \<le> 0 \<or> frq_Timeout request > 10 * minute \<or> frq_MaxBytes request < 1
         \<or> frq_MaxBytes request > 67108864 \<or> frq_ContentTypes request = [] then Some FeedErrPolicy
      else if \<not> validConditional (frq_ETag request) 256 \<or> \<not> validConditional (frq_LastModified request) 128 then Some FeedErrRequest
      else if frq_LastModified request \<noteq> [] \<and> hl_ParseTime lib (frq_LastModified request) = None then Some FeedErrRequest
      else if list_ex (\<lambda>contentType. TrimSpace contentType = [] \<or> hasHeaderControl contentType) (frq_ContentTypes request)
      then Some FeedErrPolicy
      else None)"

subsection \<open>Definitions: Fetch\<close>

definition fetch_headers :: "fetcher \<Rightarrow> FetchRequest \<Rightarrow> (string \<times> string) list" where
  "fetch_headers f request =
     [(''User-Agent'', ft_userAgent f), (''Accept'', join '', '' (frq_ContentTypes request))]
     @ (if frq_ETag request \<noteq> [] then [(''If-None-Match'', frq_ETag request)] else [])
     @ (if frq_LastModified request \<noteq> [] then [(''If-Modified-Since'', frq_LastModified request)] else [])"

fun cause_category :: "fetch_cause \<Rightarrow> FeedError" where
  "cause_category CauseSSRF = FeedErrSSRF"
| "cause_category CauseRedirect = FeedErrRedirect"
| "cause_category CauseOther = FeedErrRequest"

text \<open>The body as \<^verbatim>\<open>io.ReadAll\<close> of a \<^verbatim>\<open>LimitReader\<close> gives it: an error of the stream counts if it comes before the limit.\<close>

definition read_limited :: "http_response \<Rightarrow> int \<Rightarrow> string option" where
  "read_limited response limit =
     (if rsp_Broken response \<and> int (length (rsp_Body response)) < limit then None
      else Some (take (nat limit) (rsp_Body response)))"

definition fetch_response :: "http_library \<Rightarrow> gotime \<Rightarrow> FetchRequest \<Rightarrow> http_response \<Rightarrow> (feed_failure, FetchResult) result" where
  "fetch_response lib now request response =
     (case responseValidators lib response of
        None \<Rightarrow> Inl (FeedFailure FeedErrResponseHeader 0)
      | Some (etag, lastModified) \<Rightarrow>
          if rsp_StatusCode response = 304
          then Inr \<lparr>frs_Body = [], frs_NotModified = True, frs_ETag = etag, frs_LastModified = lastModified, frs_ContentHash = []\<rparr>
          else if rsp_StatusCode response \<noteq> 200
          then Inl (FeedFailure FeedErrHTTPStatus (parseRetryAfter lib now (rsp_Header response ''Retry-After'')))
          else if rsp_ContentLength response > frq_MaxBytes request then Inl (FeedFailure FeedErrBodySize 0)
          else if \<not> allowedContentType lib (rsp_Header response ''Content-Type'') (frq_ContentTypes request)
          then Inl (FeedFailure FeedErrContentType 0)
          else (case read_limited response (frq_MaxBytes request + 1) of
              None \<Rightarrow> Inl (FeedFailure FeedErrRequest 0)
            | Some body \<Rightarrow>
                if int (length body) > frq_MaxBytes request then Inl (FeedFailure FeedErrBodySize 0)
                else if looksLikeHTML body then Inl (FeedFailure FeedErrHTML 0)
                else Inr \<lparr>frs_Body = body, frs_NotModified = False, frs_ETag = etag, frs_LastModified = lastModified,
                       frs_ContentHash = sha256_hex body\<rparr>))"

definition Fetch ::
  "http_library \<Rightarrow> 'w internet \<Rightarrow> gotime \<Rightarrow> fetcher option \<Rightarrow> FetchRequest \<Rightarrow> 'w \<Rightarrow> (feed_failure, FetchResult) result \<times> 'w" where
  "Fetch lib net now fo request w =
     (case fo of
        None \<Rightarrow> (Inl (FeedFailure FeedErrPolicy 0), w)
      | Some f \<Rightarrow>
          if \<not> feed_validUserAgent (ft_userAgent f) then (Inl (FeedFailure FeedErrPolicy 0), w)
          else case validateFetchRequest lib request of
            Some err \<Rightarrow> (Inl (FeedFailure err 0), w)
          | None \<Rightarrow>
              (case validateFetchURL lib (frq_URL request) (ft_allowHTTP f) of
                 Inl BlockedURL \<Rightarrow> (Inl (FeedFailure FeedErrSSRF 0), w)
               | Inl BadURL \<Rightarrow> (Inl (FeedFailure FeedErrRequest 0), w)
               | Inr parsed \<Rightarrow>
                   (case hl_NewRequest lib (hl_URLString lib parsed) of
                      None \<Rightarrow> (Inl (FeedFailure FeedErrRequest 0), w)
                    | Some target \<Rightarrow>
                        (case client_Do lib net f [] \<lparr>hr_URL = target, hr_Header = fetch_headers f request\<rparr> w of
                           (Inl cause, w1) \<Rightarrow> (Inl (FeedFailure (cause_category cause) 0), w1)
                         | (Inr response, w1) \<Rightarrow> (fetch_response lib now request response, w1)))))"

end
