(* ===== verification/Fetcher_Facts.thy ===== *)
theory Fetcher_Facts
  imports Fetcher
begin

text \<open>
  What a download may touch and what it may return: connections are opened to safe addresses only, whatever the
  resolver answers and wherever a server redirects to, the chain of requests is bounded and never leaves HTTPS,
  and a result fits the limits of its request and the store.
\<close>

subsection \<open>Addresses\<close>

lemma safeAddress_public:
  assumes "safeAddress a"
  shows "\<not> local_use (withoutZone (Unmap a)) \<and> (\<forall>s \<in> set safetyPrefixes. \<not> Contains s (withoutZone (Unmap a)))"
proof -
  let ?u = "Unmap a"
  let ?p = "PrefixFrom ?u (int (BitLen ?u))"
  have safe: "fst (IsSafePrefix ?p)" using assms by (simp add: safeAddress_def Let_def)
  have "?u \<noteq> Addr0" using safe by (auto simp: IsSafePrefix_iff IsGlobalUnicast_def netip_defs)
  then have "Contains ?p (withoutZone ?u)" by (cases ?u) (auto simp: netip_defs)
  from safe_no_special [OF safe this] have no: "\<forall>s \<in> set safetyPrefixes. \<not> Contains s (withoutZone ?u)" by blast
  moreover have "Zone (withoutZone ?u) = []" by (cases ?u) auto
  ultimately show ?thesis using local_use_special by blast
qed

subsection \<open>The trace of a download\<close>

datatype net_call = Dialed string | Exchanged http_request

definition logged_net :: "'w internet \<Rightarrow> ('w \<times> net_call list) internet" where
  "logged_net net =
     \<lparr>in_Lookup = (\<lambda>host (w, c). case in_Lookup net host w of (x, w') \<Rightarrow> (x, w', c)),
      in_Dial = (\<lambda>t (w, c). case in_Dial net t w of (x, w') \<Rightarrow> (x, w', c @ [Dialed t])),
      in_Idle = (\<lambda>t (w, c). case in_Idle net t w of (x, w') \<Rightarrow> (x, w', c)),
      in_Exchange = (\<lambda>r (w, c). case in_Exchange net r w of (x, w') \<Rightarrow> (x, w', c @ [Exchanged r]))\<rparr>"

lemma logged_net_simps [simp]:
  "in_Lookup (logged_net net) host (w, c) = (case in_Lookup net host w of (x, w') \<Rightarrow> (x, w', c))"
  "in_Dial (logged_net net) t (w, c) = (case in_Dial net t w of (x, w') \<Rightarrow> (x, w', c @ [Dialed t]))"
  "in_Idle (logged_net net) t (w, c) = (case in_Idle net t w of (x, w') \<Rightarrow> (x, w', c))"
  "in_Exchange (logged_net net) r (w, c) = (case in_Exchange net r w of (x, w') \<Rightarrow> (x, w', c @ [Exchanged r]))"
  by (simp_all add: logged_net_def)

definition public_dial :: "string \<Rightarrow> bool" where
  "public_dial t \<longleftrightarrow> (\<exists>a port. t = JoinHostPort (addr_String a) port \<and> \<not> local_use (withoutZone (Unmap a)) \<and>
     (\<forall>s \<in> set safetyPrefixes. \<not> Contains s (withoutZone (Unmap a))))"

definition public_calls :: "net_call list \<Rightarrow> bool" where
  "public_calls calls \<longleftrightarrow> (\<forall>t. Dialed t \<in> set calls \<longrightarrow> public_dial t)"

fun exchanges :: "net_call list \<Rightarrow> http_request list" where
  "exchanges [] = []"
| "exchanges (Exchanged r # calls) = r # exchanges calls"
| "exchanges (Dialed t # calls) = exchanges calls"

lemma exchanges_append [simp]: "exchanges (xs @ ys) = exchanges xs @ exchanges ys"
  by (induction xs rule: exchanges.induct) auto

lemma public_calls_simps [simp]:
  "public_calls []" "public_calls (xs @ ys) \<longleftrightarrow> public_calls xs \<and> public_calls ys"
  "public_calls (Dialed t # xs) \<longleftrightarrow> public_dial t \<and> public_calls xs" "public_calls (Exchanged r # xs) \<longleftrightarrow> public_calls xs"
  by (auto simp: public_calls_def)

lemma dial_first_logged:
  "list_all safeAddress addresses \<Longrightarrow>
   \<exists>e w' cs. dial_first (logged_net net) port addresses (w, c) = (e, w', c @ cs) \<and> public_calls cs \<and> exchanges cs = []"
proof (induction addresses arbitrary: w c)
  case (Cons a addresses)
  let ?t = "JoinHostPort (addr_String a) port"
  have t: "public_dial ?t" using Cons.prems safeAddress_public by (auto simp: public_dial_def)
  obtain x w1 where d: "in_Dial net ?t w = (x, w1)" by (rule prod.exhaust)
  obtain e w' cs where "dial_first (logged_net net) port addresses (w1, c @ [Dialed ?t]) = (e, w', (c @ [Dialed ?t]) @ cs)"
    "public_calls cs" "exchanges cs = []" using Cons.IH Cons.prems by fastforce
  then show ?case using t d by (cases x) fastforce+
qed simp

lemma DialContext_logged:
  "\<exists>e w' cs. DialContext (logged_net net) address (w, c) = (e, w', c @ cs) \<and> public_calls cs \<and> exchanges cs = []"
proof -
  have checked: "\<exists>e w' cs. dial_checked (logged_net net) port addresses (v, c) = (e, w', c @ cs) \<and> public_calls cs \<and> exchanges cs = []"
    for port addresses v using dial_first_logged [of addresses net port v c] by (auto simp: dial_checked_def)
  show ?thesis
    by (auto simp: DialContext_def checked split: option.splits prod.splits)
qed

lemma round_trip_logged:
  obtains res w' cs where "round_trip lib (logged_net net) request (w, c) = (res, w', c @ cs)" and "public_calls cs"
    and "exchanges cs = [] \<or> exchanges cs = [request]" and "\<And>x. res = Inr x \<Longrightarrow> exchanges cs = [request]"
proof -
  let ?address = "hl_Address lib (hr_URL request)"
  obtain idle w1 where i: "in_Idle net ?address w = (idle, w1)" by (rule prod.exhaust)
  obtain e w2 cs where d: "(if idle then (None, w1, c) else DialContext (logged_net net) ?address (w1, c)) = (e, w2, c @ cs)"
    "public_calls cs" "exchanges cs = []" using DialContext_logged [of net ?address w1 c] by (cases idle) fastforce+
  show thesis
  proof (cases e)
    case None
    obtain x w3 where x: "in_Exchange net request w2 = (x, w3)" by (rule prod.exhaust)
    show thesis using i d None x
      by (cases x) (intro that [of _ w3 "cs @ [Exchanged request]"]; simp add: round_trip_def)+
  next
    case (Some cause)
    show thesis using i d Some by (intro that [of "Inl cause" w2 cs]) (simp_all add: round_trip_def)
  qed
qed

subsection \<open>Redirects\<close>

text \<open>A URL a redirect may lead to: it parses, has no user and no fragment, is HTTPS or allowed HTTP, and a literal
  host is a safe address.\<close>

definition fetchable :: "http_library \<Rightarrow> bool \<Rightarrow> string \<Rightarrow> url \<Rightarrow> bool" where
  "fetchable lib allowHTTP raw u \<longleftrightarrow> hl_ParseRequestURI lib raw = Some u \<and> url_Hostname u \<noteq> [] \<and> \<not> url_HasUser u \<and> url_Fragment u = [] \<and>
     (url_Scheme u = ''https'' \<or> url_Scheme u = ''http'' \<and> allowHTTP) \<and>
     (\<forall>a. ParseAddr (url_Hostname u) = Some a \<longrightarrow> \<not> local_use (withoutZone (Unmap a)))"

lemma validateFetchURL_fetchable: "validateFetchURL lib raw allowHTTP = Inr u \<Longrightarrow> fetchable lib allowHTTP raw u"
  using safeAddress_public by (auto simp: validateFetchURL_def fetchable_def split: option.splits if_splits)

definition follows :: "http_library \<Rightarrow> bool \<Rightarrow> http_request \<Rightarrow> http_request \<Rightarrow> bool" where
  "follows lib allowHTTP r r' \<longleftrightarrow> hr_Header r' = redirect_headers lib (hr_URL r) (hr_URL r') (hr_Header r) \<and>
     (\<exists>u. fetchable lib allowHTTP (hl_URLString lib (hr_URL r')) u \<and> (url_Scheme (hr_URL r) = ''https'' \<longrightarrow> url_Scheme u = ''https''))"

lemma redirectPolicy_follows:
  assumes "redirectPolicy lib n allowHTTP target (via @ [r])"
  shows "int (length via) < n" and "follows lib allowHTTP r \<lparr>hr_URL = target, hr_Header = redirect_headers lib (hr_URL r) target (hr_Header r)\<rparr>"
proof -
  obtain u where u: "validateFetchURL lib (hl_URLString lib target) allowHTTP = Inr u" "int (length via) < n"
      "url_Scheme (hr_URL r) = ''https'' \<longrightarrow> url_Scheme u = ''https''"
    using assms by (auto simp: redirectPolicy_def split: if_splits sum.splits)
  show "int (length via) < n" by (rule u(2))
  show "follows lib allowHTTP r \<lparr>hr_URL = target, hr_Header = redirect_headers lib (hr_URL r) target (hr_Header r)\<rparr>"
    using validateFetchURL_fetchable [OF u(1)] u(3) by (auto simp: follows_def)
qed

definition request_chain :: "http_library \<Rightarrow> bool \<Rightarrow> http_request \<Rightarrow> http_request list \<Rightarrow> bool" where
  "request_chain lib allowHTTP r rs \<longleftrightarrow> rs = [] \<or> (hd rs = r \<and> (\<forall>i. Suc i < length rs \<longrightarrow> follows lib allowHTTP (rs ! i) (rs ! Suc i)))"

lemma request_chain_Cons:
  "follows lib allowHTTP r r' \<Longrightarrow> request_chain lib allowHTTP r' rs \<Longrightarrow> request_chain lib allowHTTP r (r # rs)"
  by (auto simp: request_chain_def hd_conv_nth nth_Cons split: nat.splits)

lemma request_chain_one [simp]: "request_chain lib allowHTTP r []" "request_chain lib allowHTTP r [r]"
  by (auto simp: request_chain_def)

lemma client_Do_logged:
  obtains res w' cs where "client_Do lib (logged_net net) f via request (w, c) = (res, w', c @ cs)" and "public_calls cs"
    and "request_chain lib (ft_allowHTTP f) request (exchanges cs)"
    and "int (length via) \<le> ft_maxRedirects f \<Longrightarrow> int (length via + length (exchanges cs)) \<le> ft_maxRedirects f + 1"
proof -
  have "\<exists>res w' cs. client_Do lib (logged_net net) f via request (w, c) = (res, w', c @ cs) \<and> public_calls cs \<and>
      request_chain lib (ft_allowHTTP f) request (exchanges cs) \<and>
      (int (length via) \<le> ft_maxRedirects f \<longrightarrow> int (length via + length (exchanges cs)) \<le> ft_maxRedirects f + 1)"
  proof (induction "nat (ft_maxRedirects f) + 1 - length via" arbitrary: via request w c rule: less_induct)
    case less
    obtain res w1 cs where rt: "round_trip lib (logged_net net) request (w, c) = (res, w1, c @ cs)" "public_calls cs"
      "exchanges cs = [] \<or> exchanges cs = [request]" "\<And>x. res = Inr x \<Longrightarrow> exchanges cs = [request]" by (rule round_trip_logged [of lib net request w c]) blast
    show ?case
    proof (cases "\<exists>response target. res = Inr response \<and> redirect_status (rsp_StatusCode response) \<and> rsp_Header response ''Location'' \<noteq> [] \<and>
        hl_Location lib (hr_URL request) (rsp_Header response ''Location'') = Some target \<and>
        redirectPolicy lib (ft_maxRedirects f) (ft_allowHTTP f) target (via @ [request])")
      case False
      then have "\<exists>res'. client_Do lib (logged_net net) f via request (w, c) = (res', w1, c @ cs)"
        using rt(1) by (subst client_Do.simps) (auto split: sum.splits option.splits)
      then show ?thesis using rt(2,3) by auto
    next
      case True
      then obtain response target where r: "res = Inr response" "redirect_status (rsp_StatusCode response)" "rsp_Header response ''Location'' \<noteq> []"
        "hl_Location lib (hr_URL request) (rsp_Header response ''Location'') = Some target"
        "redirectPolicy lib (ft_maxRedirects f) (ft_allowHTTP f) target (via @ [request])" by blast
      note p = redirectPolicy_follows [OF r(5)]
      let ?next = "\<lparr>hr_URL = target, hr_Header = redirect_headers lib (hr_URL request) target (hr_Header request)\<rparr>"
      have "nat (ft_maxRedirects f) + 1 - length (via @ [request]) < nat (ft_maxRedirects f) + 1 - length via" using p(1) by simp
      from less.hyps [OF this, of ?next w1 "c @ cs"] obtain res' w' cs' where n:
        "client_Do lib (logged_net net) f (via @ [request]) ?next (w1, c @ cs) = (res', w', (c @ cs) @ cs')" "public_calls cs'"
        "request_chain lib (ft_allowHTTP f) ?next (exchanges cs')"
        "int (length (via @ [request])) \<le> ft_maxRedirects f \<longrightarrow> int (length (via @ [request]) + length (exchanges cs')) \<le> ft_maxRedirects f + 1" by blast
      have "client_Do lib (logged_net net) f via request (w, c) = (res', w', c @ (cs @ cs'))"
        using rt(1) r n(1) by (subst client_Do.simps) simp
      moreover have "exchanges (cs @ cs') = request # exchanges cs'" using rt(4) r(1) by simp
      ultimately show ?thesis using rt(2) n p request_chain_Cons by (intro exI conjI) (assumption | simp)+
    qed
  qed
  then show thesis using that by blast
qed

subsection \<open>Results\<close>

lemma hasHeaderControl_crlfnul: "\<not> hasHeaderControl s \<Longrightarrow> \<not> has_crlfnul s"
  by (induction s) (auto simp: has_crlfnul_def)

lemma parseRetryAfter_bounds: "0 \<le> parseRetryAfter lib now v \<and> parseRetryAfter lib now v \<le> 24 * hour"
proof -
  have h: "(0::int) \<le> 24 * hour" by (simp add: go_time_defs)
  then show ?thesis by (cases "Atoi v"; cases "hl_ParseTime lib v") (simp_all add: parseRetryAfter_def Let_def)
qed

text \<open>The multiplication in \<^verbatim>\<open>parseRetryAfter\<close> wraps: a server that asks for six centuries gets a third of a second, where a
  delay above a day is meant to be ignored.\<close>

lemma parseRetryAfter_wraps: "parseRetryAfter lib now ''18446744074'' = 290448384"
  by (simp add: parseRetryAfter_def Atoi_def wrap64_def go_time_defs max_int64_def min_int64_def is_digit_def code_def digit_val_def)

definition fetch_failures :: "FeedError set" where
  "fetch_failures = {FeedErrPolicy, FeedErrRequest, FeedErrSSRF, FeedErrRedirect, FeedErrHTTPStatus, FeedErrBodySize, FeedErrContentType,
     FeedErrHTML, FeedErrResponseHeader}"

definition result_fits :: "FetchRequest \<Rightarrow> FetchResult \<Rightarrow> bool" where
  "result_fits request x \<longleftrightarrow>
     validValidator (frs_ETag x) 256 \<and>
     (if frs_NotModified x then frs_Body x = []
      else int (length (frs_Body x)) \<le> frq_MaxBytes request \<and> \<not> looksLikeHTML (frs_Body x) \<and> frs_ContentHash x = sha256_hex (frs_Body x))"

lemma fetch_response_fits:
  "case fetch_response lib now request response of
     Inr x \<Rightarrow> result_fits request x \<and> (frs_LastModified x = [] \<or> frs_LastModified x \<in> range (hl_FormatTime lib))
   | Inl err \<Rightarrow> \<exists>e delay. err = FeedFailure e delay \<and> e \<in> fetch_failures \<and> 0 \<le> delay \<and> delay \<le> 24 * hour"
proof -
  have [simp]: "(0::int) \<le> 24 * hour" by (simp add: go_time_defs)
  show ?thesis
    using parseRetryAfter_bounds [of lib now "rsp_Header response ''Retry-After''"] hasHeaderControl_crlfnul [of "rsp_Header response ''ETag''"]
    by (auto simp: fetch_response_def responseValidators_def Let_def fetch_failures_def result_fits_def validConditional_def validValidator_def
        split: option.splits sum.splits if_splits prod.splits)
qed

lemma Fetch_logged:
  obtains res w' cs where "Fetch lib (logged_net net) now fo request (w, []) = (res, w', cs)" and "public_calls cs"
    and "case res of
       Inr x \<Rightarrow> result_fits request x \<and> (frs_LastModified x = [] \<or> frs_LastModified x \<in> range (hl_FormatTime lib))
     | Inl err \<Rightarrow> \<exists>e delay. err = FeedFailure e delay \<and> e \<in> fetch_failures \<and> 0 \<le> delay \<and> delay \<le> 24 * hour"
    and "cs = [] \<or> (\<exists>f u first. fo = Some f \<and> fetchable lib (ft_allowHTTP f) (frq_URL request) u \<and> hl_NewRequest lib (hl_URLString lib u) = Some first \<and>
       request_chain lib (ft_allowHTTP f) \<lparr>hr_URL = first, hr_Header = fetch_headers f request\<rparr> (exchanges cs) \<and>
       (0 \<le> ft_maxRedirects f \<longrightarrow> int (length (exchanges cs)) \<le> ft_maxRedirects f + 1))"
proof -
  have d: "(0::int) \<le> 24 * hour" by (simp add: go_time_defs)
  show thesis
  proof (cases "\<exists>f u first. fo = Some f \<and> feed_validUserAgent (ft_userAgent f) \<and> validateFetchRequest lib request = None \<and>
      validateFetchURL lib (frq_URL request) (ft_allowHTTP f) = Inr u \<and> hl_NewRequest lib (hl_URLString lib u) = Some first")
    case False
    have bad: "validateFetchRequest lib request = Some e \<Longrightarrow> e \<in> fetch_failures" for e
      by (auto simp: validateFetchRequest_def fetch_failures_def split: if_splits)
    have "\<exists>e. Fetch lib (logged_net net) now fo request (w, []) = (Inl (FeedFailure e 0), w, []) \<and> e \<in> fetch_failures"
      using False bad by (auto simp: Fetch_def fetch_failures_def split: option.splits sum.splits url_failure.splits)
    then show thesis using d by (auto intro: that)
  next
    case True
    then obtain f u first where ok: "fo = Some f" "feed_validUserAgent (ft_userAgent f)" "validateFetchRequest lib request = None"
      "validateFetchURL lib (frq_URL request) (ft_allowHTTP f) = Inr u" "hl_NewRequest lib (hl_URLString lib u) = Some first" by blast
    let ?first = "\<lparr>hr_URL = first, hr_Header = fetch_headers f request\<rparr>"
    obtain res w' cs where run: "client_Do lib (logged_net net) f [] ?first (w, []) = (res, w', [] @ cs)" "public_calls cs"
      "request_chain lib (ft_allowHTTP f) ?first (exchanges cs)"
      "int (length ([] :: http_request list)) \<le> ft_maxRedirects f \<Longrightarrow> int (length ([] :: http_request list) + length (exchanges cs)) \<le> ft_maxRedirects f + 1"
      by (rule client_Do_logged [of lib net f "[]" ?first w "[]"]) blast
    have chain: "cs = [] \<or> (\<exists>f u first. fo = Some f \<and> fetchable lib (ft_allowHTTP f) (frq_URL request) u \<and> hl_NewRequest lib (hl_URLString lib u) = Some first \<and>
       request_chain lib (ft_allowHTTP f) \<lparr>hr_URL = first, hr_Header = fetch_headers f request\<rparr> (exchanges cs) \<and>
       (0 \<le> ft_maxRedirects f \<longrightarrow> int (length (exchanges cs)) \<le> ft_maxRedirects f + 1))"
      using ok validateFetchURL_fetchable [OF ok(4)] run(3,4) by auto
    show thesis
    proof (cases res)
      case (Inl cause)
      have "cause_category cause \<in> fetch_failures" by (cases cause) (simp_all add: fetch_failures_def)
      then show thesis using ok run Inl d chain
        by (intro that [of "Inl (FeedFailure (cause_category cause) 0)" w' cs]) (simp_all add: Fetch_def)
    next
      case (Inr response)
      then show thesis using ok run chain fetch_response_fits [where lib = lib and now = now and request = request and response = response]
        by (intro that [of "fetch_response lib now request response" w' cs]) (simp_all add: Fetch_def)
    qed
  qed
qed

text \<open>
  C13. A download stays in bounds, whatever the resolver, the servers and the parsers of the library do: every
  connection it opens goes to a literal address outside the special-use ranges, so neither a name that resolves to a local
  address nor a redirect reaches the local network; the requests it sends are the validated URL and at most
  \<^verbatim>\<open>MaxRedirects\<close> redirects, each to an allowed URL, never from HTTPS to HTTP, and all with the same headers but for the \<^verbatim>\<open>Referer\<close> that \<^verbatim>\<open>net/http\<close> adds; a failure
  has a category of this file and a delay of at most a day, and a result respects the size limit, is not HTML and
  carries the hash of its body; its validators are ones the store accepts.
\<close>

theorem Fetch_contained:
  assumes "Fetch lib (logged_net net) now fo request (w, []) = (res, w', calls)"
  shows "(\<forall>t. Dialed t \<in> set calls \<longrightarrow> public_dial t) \<and>
    (calls = [] \<or> (\<exists>f u first. fo = Some f \<and> fetchable lib (ft_allowHTTP f) (frq_URL request) u \<and> hl_NewRequest lib (hl_URLString lib u) = Some first \<and>
       request_chain lib (ft_allowHTTP f) \<lparr>hr_URL = first, hr_Header = fetch_headers f request\<rparr> (exchanges calls) \<and>
       (0 \<le> ft_maxRedirects f \<longrightarrow> int (length (exchanges calls)) \<le> ft_maxRedirects f + 1))) \<and>
    (case res of
       Inr x \<Rightarrow> result_fits request x \<and> ((\<forall>t. validValidator (hl_FormatTime lib t) 128) \<longrightarrow> validValidator (frs_LastModified x) 128)
     | Inl err \<Rightarrow> \<exists>e delay. err = FeedFailure e delay \<and> e \<in> fetch_failures \<and> 0 \<le> delay \<and> delay \<le> 24 * hour)"
  using assms
  by (rule_tac Fetch_logged [of lib net now fo request w]) (auto simp: public_calls_def validValidator_def has_crlfnul_def split: sum.splits)

text \<open>A server that redirects once to itself and then sends two bytes; the dialer accepts every connection. All hosts
  resolve to 8.8.8.8.\<close>

definition sample_url :: url where
  "sample_url = \<lparr>url_Scheme = ''https'', url_Host = ''a.example'', url_Hostname = ''a.example'', url_HasUser = False, url_Fragment = []\<rparr>"

definition sample_library :: http_library where
  "sample_library =
     \<lparr>hl_ParseRequestURI = (\<lambda>s. Some sample_url), hl_URLString = (\<lambda>u. ''https://a.example/''), hl_NewRequest = (\<lambda>s. Some sample_url),
      hl_Location = (\<lambda>u s. Some sample_url), hl_Referer = (\<lambda>u v. ''https://a.example/''), hl_Address = (\<lambda>u. ''a.example:443''), hl_ParseMediaType = (\<lambda>s. Some ''text/plain''),
      hl_ParseTime = (\<lambda>s. None), hl_FormatTime = (\<lambda>t. [])\<rparr>"

definition sample_response :: "int \<Rightarrow> string \<Rightarrow> http_response" where
  "sample_response status location =
     \<lparr>rsp_StatusCode = status, rsp_Header = (\<lambda>n. if n = ''Location'' then location else []), rsp_ContentLength = 2,
      rsp_Body = ''1'' @ [byte 10], rsp_Broken = False\<rparr>"

definition sample_net :: "nat internet" where
  "sample_net =
     \<lparr>in_Lookup = (\<lambda>host w. (Some [Addr4 0x08080808], w)), in_Dial = (\<lambda>t w. (True, w)), in_Idle = (\<lambda>t w. (False, w)),
      in_Exchange = (\<lambda>r w. (Some (if w = 0 then sample_response 302 ''/'' else sample_response 200 []), Suc w))\<rparr>"

definition sample_fetch :: FetchRequest where
  "sample_fetch = \<lparr>frq_URL = ''https://a.example/'', frq_Timeout = minute, frq_MaxBytes = 10, frq_ContentTypes = [''text/plain''],
     frq_ETag = [], frq_LastModified = []\<rparr>"

definition sample_fetcher :: fetcher where
  "sample_fetcher = \<lparr>ft_userAgent = ''crowdshield/dev'', ft_allowHTTP = False, ft_maxRedirects = 3\<rparr>"

lemma sample_parts [simp]:
  "safeAddress (Addr4 0x08080808)" "SplitHostPort ''a.example:443'' = Some (''a.example'', ''443'')"
  "ParseAddr ''a.example'' = None" "JoinHostPort (string4 0x08080808) ''443'' = ''8.8.8.8:443''"
proof -
  show "safeAddress (Addr4 0x08080808)"
    by (simp add: safeAddress_def IsSafePrefix_def netip_defs safetyPrefixes_eval Contains_num Overlaps_def IsGlobalUnicast_def mask_eq_exp_minus_1)
  show "SplitHostPort ''a.example:443'' = Some (''a.example'', ''443'')" by (simp add: SplitHostPort_def split_last_def split_first_def)
  show "ParseAddr ''a.example'' = None" by (simp add: text_eval code_def)
  show "JoinHostPort (string4 0x08080808) ''443'' = ''8.8.8.8:443''"
    by (simp add: JoinHostPort_def string4_def octets_def Contains_byte_def itoa.simps [of 8] byte_def char_of_def bit_iff_odd)
qed

lemma sample_dial: "DialContext (logged_net sample_net) ''a.example:443'' (w, c) = (None, w, c @ [Dialed ''8.8.8.8:443''])"
  by (simp add: DialContext_def dial_checked_def sample_net_def)

definition sample_request :: http_request where
  "sample_request = \<lparr>hr_URL = sample_url, hr_Header = fetch_headers sample_fetcher sample_fetch\<rparr>"

definition sample_redirected :: http_request where
  "sample_redirected = \<lparr>hr_URL = sample_url, hr_Header = fetch_headers sample_fetcher sample_fetch @ [(''Referer'', ''https://a.example/'')]\<rparr>"

lemma sample_round_trip:
  "round_trip sample_library (logged_net sample_net) request (w, c) =
    (Inr (if w = 0 then sample_response 302 ''/'' else sample_response 200 []), Suc w, c @ [Dialed ''8.8.8.8:443'', Exchanged request])"
proof -
  have "in_Idle sample_net t v = (False, v)" "hl_Address sample_library u = ''a.example:443''"
    "in_Exchange sample_net r v = (Some (if v = 0 then sample_response 302 ''/'' else sample_response 200 []), Suc v)" for t v u r
    by (simp_all add: sample_net_def sample_library_def)
  then show ?thesis by (simp add: round_trip_def sample_dial)
qed

lemma sample_policy_allows: "length via \<le> 3 \<Longrightarrow> redirectPolicy sample_library 3 False sample_url via"
  by (simp add: redirectPolicy_def validateFetchURL_def sample_library_def sample_url_def code_def)

lemma sample_client:
  "client_Do sample_library (logged_net sample_net) sample_fetcher [] sample_request (0, []) =
    (Inr (sample_response 200 []), 2, [Dialed ''8.8.8.8:443'', Exchanged sample_request, Dialed ''8.8.8.8:443'', Exchanged sample_redirected])"
proof -
  have "hl_Location sample_library u l = Some sample_url"
    "\<lparr>hr_URL = sample_url, hr_Header = redirect_headers sample_library (hr_URL sample_request) sample_url (hr_Header sample_request)\<rparr> = sample_redirected"
    for u l
    by (simp_all add: sample_library_def sample_request_def sample_redirected_def redirect_headers_def fetch_headers_def sample_fetch_def)
  then show ?thesis
    by (subst client_Do.simps, subst client_Do.simps)
      (simp add: sample_round_trip redirect_status_def sample_response_def sample_policy_allows sample_fetcher_def)
qed

lemma sample_fetch_run:
  "snd (snd (Fetch sample_library (logged_net sample_net) 0 (Some sample_fetcher) sample_fetch (0, []))) =
    [Dialed ''8.8.8.8:443'', Exchanged sample_request, Dialed ''8.8.8.8:443'', Exchanged sample_redirected]"
proof -
  have "feed_validUserAgent (ft_userAgent sample_fetcher)" by (simp add: feed_validUserAgent_def sample_fetcher_def code_def)
  moreover have "validateFetchRequest sample_library sample_fetch = None"
    by (simp add: validateFetchRequest_def sample_fetch_def validConditional_def go_time_defs code_def TrimSpace_def)
  moreover have "validateFetchURL sample_library u False = Inr sample_url" for u
    by (simp add: validateFetchURL_def sample_library_def sample_url_def code_def)
  moreover have "hl_NewRequest sample_library u = Some sample_url" "ft_allowHTTP sample_fetcher = False" for u
    by (simp_all add: sample_library_def sample_fetcher_def)
  ultimately show ?thesis using sample_client by (simp add: Fetch_def sample_request_def)
qed

theorem Fetch_contained_witness:
  "\<exists>res w' calls. Fetch sample_library (logged_net sample_net) 0 (Some sample_fetcher) sample_fetch (0, []) = (res, w', calls) \<and>
     calls = [Dialed ''8.8.8.8:443'', Exchanged sample_request, Dialed ''8.8.8.8:443'', Exchanged sample_redirected] \<and>
     public_dial ''8.8.8.8:443'' \<and> int (length (exchanges calls)) \<le> 4 \<and> (\<forall>x. res = Inr x \<longrightarrow> result_fits sample_fetch x)"
proof -
  obtain res w' calls where run: "Fetch sample_library (logged_net sample_net) 0 (Some sample_fetcher) sample_fetch (0, []) = (res, w', calls)"
    by (metis prod.exhaust)
  then have "calls = [Dialed ''8.8.8.8:443'', Exchanged sample_request, Dialed ''8.8.8.8:443'', Exchanged sample_redirected]"
    using sample_fetch_run by simp
  with Fetch_contained [OF run] run show ?thesis by auto
qed

end
