(* ===== verification/LAPI_Client.thy ===== *)
theory LAPI_Client
  imports Fetcher
begin

text \<open>
  The file \<^verbatim>\<open>internal/lapi/client.go\<close>: the client of the local API. The server and the clock are functions on an
  arbitrary world; a client that is not nil is assumed. A request holds its method, path and query below the
  configured base URL, its headers and its payload before \<^verbatim>\<open>json.Marshal\<close>, which cannot fail for the two payload
  types; responses are decoded with the model of \<^verbatim>\<open>encoding/json\<close>. The printing of a time stamp is an argument.
  Redirects are not followed, so a redirect is an ordinary response.
\<close>

subsection \<open>Definitions: wire types\<close>

record wireMetaItem =
  wm_Key :: string
  wm_Value :: string

record wireEvent =
  we_Timestamp :: string
  we_Meta :: "wireMetaItem list"

record wireSource =
  ws_Scope :: string
  ws_Value :: string

record wireAlert =
  wa_Scenario :: string
  wa_ScenarioHash :: string
  wa_ScenarioVersion :: string
  wa_Message :: string
  wa_EventsCount :: int
  wa_StartAt :: string
  wa_StopAt :: string
  wa_Capacity :: int
  wa_Leakspeed :: string
  wa_Simulated :: bool
  wa_Events :: "wireEvent list"
  wa_Remediation :: bool
  wa_Decisions :: "lapi_Decision list"
  wa_Source :: wireSource
  wa_Meta :: "wireMetaItem list"
  wa_Labels :: "string list"
  wa_Kind :: string

datatype lapi_payload = LoginPayload string string | AlertPayload wireAlert

record lapi_request =
  lr_Method :: string
  lr_Path :: string
  lr_Query :: "(string \<times> string) list"
  lr_Header :: "(string \<times> string) list"
  lr_Payload :: "lapi_payload option"

text \<open>An error with its category and the HTTP status it stands for, 0 when there is none.\<close>

datatype lapi_failure = LAPIFailure (lf_Category: LAPIError) (lf_Status: int)

abbreviation lapiError :: "LAPIError \<Rightarrow> lapi_failure" where
  "lapiError category \<equiv> LAPIFailure category 0"

text \<open>The client with what it calls, and its mutable part with the world.\<close>

record 'w lapi_client =
  lc_Login :: string
  lc_Password :: string
  lc_BasePath :: string
  lc_userAgent :: string
  lc_maxResponseBytes :: int
  lc_authRefreshBefore :: duration
  lc_Do :: "lapi_request \<Rightarrow> 'w \<Rightarrow> http_response option \<times> 'w"
  lc_Now :: "'w \<Rightarrow> gotime \<times> 'w"
  lc_ParseMediaType :: "string \<Rightarrow> string option"
  lc_FormatTime :: "gotime \<Rightarrow> string"

record 'w lapi_state =
  ls_token :: string
  ls_tokenExpiry :: gotime
  ls_world :: 'w

type_synonym ('w, 'a) lapi_call = "'w lapi_state \<Rightarrow> (lapi_failure, 'a) result \<times> 'w lapi_state"

definition lapi_Now :: "'w lapi_client \<Rightarrow> 'w lapi_state \<Rightarrow> gotime \<times> 'w lapi_state" where
  "lapi_Now c s = (case lc_Now c (ls_world s) of (t, w) \<Rightarrow> (t, s\<lparr>ls_world := w\<rparr>))"

subsection \<open>Definitions: New\<close>

definition lapi_validUserAgent :: "string \<Rightarrow> bool" where
  "lapi_validUserAgent value =
     (if length value < 3 \<or> length value > 128 \<or> count_list value (CHR ''/'') \<noteq> 1 then False
      else list_all (\<lambda>part. part \<noteq> []) (split_on (CHR ''/'') value) \<and> \<not> has_control value \<and>
        \<not> Contains_byte value (CHR '' '') \<and> \<not> Contains_byte value (byte 9))"

text \<open>\<^verbatim>\<open>New\<close>: whether the options and the endpoint are accepted.\<close>

definition lapi_New_ok :: "'w lapi_client \<Rightarrow> duration \<Rightarrow> duration \<Rightarrow> string \<Rightarrow> bool" where
  "lapi_New_ok c requestTimeout connectTimeout scheme =
     (if lc_Login c = [] \<or> lc_Password c = [] \<or> \<not> lapi_validUserAgent (lc_userAgent c)
         \<or> requestTimeout \<le> 0 \<or> requestTimeout > 2 * minute \<or> connectTimeout \<le> 0 \<or> connectTimeout > minute
         \<or> lc_maxResponseBytes c < 1024 \<or> lc_maxResponseBytes c > 67108864
         \<or> lc_authRefreshBefore c < 0 \<or> lc_authRefreshBefore c \<ge> hour then False
      else scheme = ''http'' \<or> scheme = ''https'')"

definition lapi_initial :: "'w \<Rightarrow> 'w lapi_state" where
  "lapi_initial w = \<lparr>ls_token = [], ls_tokenExpiry = time_zero, ls_world = w\<rparr>"

subsection \<open>Definitions: one exchange\<close>

definition TrimRight_slash :: "string \<Rightarrow> string" where
  "TrimRight_slash s = rev (dropWhile (\<lambda>c. c = CHR ''/'') (rev s))"

definition has_suffix :: "string \<Rightarrow> string \<Rightarrow> bool" where
  "has_suffix s p = has_prefix (rev s) (rev p)"

definition lapi_endpoint :: "'w lapi_client \<Rightarrow> string \<Rightarrow> string" where
  "lapi_endpoint c route =
     (let basePath = TrimRight_slash (lc_BasePath c) in
      (if has_suffix basePath ''/v1'' then basePath else basePath @ ''/v1'') @ route)"

definition containsStatus :: "int \<Rightarrow> int list \<Rightarrow> bool" where
  "containsStatus status allowed = (status \<in> set allowed)"

definition isJSONContentType :: "'w lapi_client \<Rightarrow> string \<Rightarrow> bool" where
  "isJSONContentType c value =
     (case lc_ParseMediaType c value of
        None \<Rightarrow> False
      | Some mediaType \<Rightarrow> let lower = ToLower mediaType in lower = ''application/json'' \<or> has_suffix lower ''+json'')"

definition lapi_headers :: "'w lapi_client \<Rightarrow> lapi_payload option \<Rightarrow> string \<Rightarrow> (string \<times> string) list" where
  "lapi_headers c payload bearer =
     [(''User-Agent'', lc_userAgent c), (''Accept'', ''application/json'')]
     @ (if payload \<noteq> None then [(''Content-Type'', ''application/json'')] else [])
     @ (if bearer \<noteq> [] then [(''Authorization'', ''Bearer '' @ bearer)] else [])"

definition lapi_response :: "'w lapi_client \<Rightarrow> int list \<Rightarrow> http_response \<Rightarrow> (lapi_failure, string) result" where
  "lapi_response c expected response =
     (if rsp_ContentLength response > lc_maxResponseBytes c then Inl (lapiError LAPIErrResponseSize)
      else case read_limited response (lc_maxResponseBytes c + 1) of
        None \<Rightarrow> Inl (lapiError LAPIErrRequest)
      | Some body \<Rightarrow>
          if int (length body) > lc_maxResponseBytes c then Inl (lapiError LAPIErrResponseSize)
          else if \<not> containsStatus (rsp_StatusCode response) expected then
            Inl (LAPIFailure
              (if rsp_StatusCode response = 401 \<or> rsp_StatusCode response = 403 then LAPIErrAuth
               else if rsp_StatusCode response = 404 then LAPIErrNotFound else LAPIErrStatus) (rsp_StatusCode response))
          else if body \<noteq> [] \<and> \<not> isJSONContentType c (rsp_Header response ''Content-Type'') then Inl (lapiError LAPIErrContentType)
          else Inr body)"

definition perform ::
  "'w lapi_client \<Rightarrow> string \<Rightarrow> string \<Rightarrow> (string \<times> string) list \<Rightarrow> lapi_payload option \<Rightarrow> string \<Rightarrow> int list \<Rightarrow> ('w, string) lapi_call" where
  "perform c method route query payload bearer expected s =
     (let request = \<lparr>lr_Method = method, lr_Path = lapi_endpoint c route, lr_Query = query,
            lr_Header = lapi_headers c payload bearer, lr_Payload = payload\<rparr> in
      case lc_Do c request (ls_world s) of
        (None, w) \<Rightarrow> (Inl (lapiError LAPIErrRequest), s\<lparr>ls_world := w\<rparr>)
      | (Some response, w) \<Rightarrow> (lapi_response c expected response, s\<lparr>ls_world := w\<rparr>))"

subsection \<open>Definitions: decoding\<close>

text \<open>\<^verbatim>\<open>decodeJSON\<close> accepts one value and nothing but white space after it, as \<open>json_parse\<close> does. An array is decoded
  into the elements a slice already has, which matters when a member is repeated; what a third repetition finds
  in the spare capacity of the slice is not modelled.\<close>

fun store_elements :: "(json \<Rightarrow> 'a \<Rightarrow> 'a option) \<Rightarrow> 'a \<Rightarrow> json list \<Rightarrow> 'a list \<Rightarrow> 'a list option" where
  "store_elements put zero [] old = Some []"
| "store_elements put zero (v # vs) old =
     (case put v (case old of [] \<Rightarrow> zero | x # _ \<Rightarrow> x) of
        None \<Rightarrow> None
      | Some x \<Rightarrow> map_option ((#) x) (store_elements put zero vs (tl old)))"

fun store_list :: "(json \<Rightarrow> 'a \<Rightarrow> 'a option) \<Rightarrow> 'a \<Rightarrow> json \<Rightarrow> 'a list \<Rightarrow> 'a list option" where
  "store_list put zero (JArr vs) old = store_elements put zero vs old"
| "store_list put zero JNull old = Some []"
| "store_list put zero _ old = None"

fun store_struct :: "(string \<Rightarrow> json \<Rightarrow> 'a \<Rightarrow> 'a option) \<Rightarrow> json \<Rightarrow> 'a \<Rightarrow> 'a option" where
  "store_struct put (JObj ms) old = store_members put ms old"
| "store_struct put JNull old = Some old"
| "store_struct put _ old = None"

definition decodeJSON :: "(json \<Rightarrow> 'a \<Rightarrow> 'a option) \<Rightarrow> 'a \<Rightarrow> string \<Rightarrow> (lapi_failure, 'a) result" where
  "decodeJSON put zero body =
     (case json_parse body of
        None \<Rightarrow> Inl (lapiError LAPIErrDecode)
      | Some v \<Rightarrow> (case put v zero of None \<Rightarrow> Inl (lapiError LAPIErrDecode) | Some x \<Rightarrow> Inr x))"

definition zero_Decision :: lapi_Decision where
  "zero_Decision = \<lparr>ld_ID = 0, ld_Origin = [], ld_Type = [], ld_Scope = [], ld_Value = [], ld_Duration = [], ld_Until = [], ld_Scenario = []\<rparr>"

definition put_decision :: "string \<Rightarrow> json \<Rightarrow> lapi_Decision \<Rightarrow> lapi_Decision option" where
  "put_decision key v d =
     (if key = ''ID'' then map_option (\<lambda>x. d\<lparr>ld_ID := x\<rparr>) (store_int v (ld_ID d))
      else if key = ''ORIGIN'' then map_option (\<lambda>x. d\<lparr>ld_Origin := x\<rparr>) (store_string v (ld_Origin d))
      else if key = ''TYPE'' then map_option (\<lambda>x. d\<lparr>ld_Type := x\<rparr>) (store_string v (ld_Type d))
      else if key = ''SCOPE'' then map_option (\<lambda>x. d\<lparr>ld_Scope := x\<rparr>) (store_string v (ld_Scope d))
      else if key = ''VALUE'' then map_option (\<lambda>x. d\<lparr>ld_Value := x\<rparr>) (store_string v (ld_Value d))
      else if key = ''DURATION'' then map_option (\<lambda>x. d\<lparr>ld_Duration := x\<rparr>) (store_string v (ld_Duration d))
      else if key = ''UNTIL'' then map_option (\<lambda>x. d\<lparr>ld_Until := x\<rparr>) (store_string v (ld_Until d))
      else if key = ''SCENARIO'' then map_option (\<lambda>x. d\<lparr>ld_Scenario := x\<rparr>) (store_string v (ld_Scenario d))
      else Some d)"

definition zero_Alert :: lapi_Alert where
  "zero_Alert = \<lparr>al_ID = 0, al_MachineID = [], al_Scenario = [], al_ScenarioHash = [], al_ScenarioVersion = [], al_Message = [], al_Decisions = []\<rparr>"

definition put_alert :: "string \<Rightarrow> json \<Rightarrow> lapi_Alert \<Rightarrow> lapi_Alert option" where
  "put_alert key v a =
     (if key = ''ID'' then map_option (\<lambda>x. a\<lparr>al_ID := x\<rparr>) (store_int v (al_ID a))
      else if key = ''MACHINE_ID'' then map_option (\<lambda>x. a\<lparr>al_MachineID := x\<rparr>) (store_string v (al_MachineID a))
      else if key = ''SCENARIO'' then map_option (\<lambda>x. a\<lparr>al_Scenario := x\<rparr>) (store_string v (al_Scenario a))
      else if key = ''SCENARIO_HASH'' then map_option (\<lambda>x. a\<lparr>al_ScenarioHash := x\<rparr>) (store_string v (al_ScenarioHash a))
      else if key = ''SCENARIO_VERSION'' then map_option (\<lambda>x. a\<lparr>al_ScenarioVersion := x\<rparr>) (store_string v (al_ScenarioVersion a))
      else if key = ''MESSAGE'' then map_option (\<lambda>x. a\<lparr>al_Message := x\<rparr>) (store_string v (al_Message a))
      else if key = ''DECISIONS''
      then map_option (\<lambda>x. a\<lparr>al_Decisions := x\<rparr>) (store_list (store_struct put_decision) zero_Decision v (al_Decisions a))
      else Some a)"

record loginResponse =
  lgr_Code :: int
  lgr_Expire :: string
  lgr_Token :: string

definition put_login :: "string \<Rightarrow> json \<Rightarrow> loginResponse \<Rightarrow> loginResponse option" where
  "put_login key v r =
     (if key = ''CODE'' then map_option (\<lambda>x. r\<lparr>lgr_Code := x\<rparr>) (store_int v (lgr_Code r))
      else if key = ''EXPIRE'' then map_option (\<lambda>x. r\<lparr>lgr_Expire := x\<rparr>) (store_string v (lgr_Expire r))
      else if key = ''TOKEN'' then map_option (\<lambda>x. r\<lparr>lgr_Token := x\<rparr>) (store_string v (lgr_Token r))
      else Some r)"

subsection \<open>Definitions: tokens\<close>

definition login_accepted :: "loginResponse \<Rightarrow> gotime \<Rightarrow> gotime \<Rightarrow> bool" where
  "login_accepted response expiry refreshAt = (expiry > refreshAt \<and> (lgr_Code response = 0 \<or> lgr_Code response = 200))"

definition token_text_ok :: "string \<Rightarrow> bool" where
  "token_text_ok token = (token \<noteq> [] \<and> length token \<le> 16384 \<and> \<not> has_control token)"

definition loginLocked :: "'w lapi_client \<Rightarrow> ('w, unit) lapi_call" where
  "loginLocked c s =
     (case perform c ''POST'' ''/watchers/login'' [] (Some (LoginPayload (lc_Login c) (lc_Password c))) [] [200] s of
        (Inl err, s1) \<Rightarrow> (Inl err, s1)
      | (Inr body, s1) \<Rightarrow>
          (case decodeJSON (store_struct put_login) \<lparr>lgr_Code = 0, lgr_Expire = [], lgr_Token = []\<rparr> body of
             Inl err \<Rightarrow> (Inl err, s1)
           | Inr response \<Rightarrow>
               (case time_Parse_RFC3339 (lgr_Expire response) of
                  None \<Rightarrow> (Inl (lapiError LAPIErrContract), s1)
                | Some expiry \<Rightarrow>
                    if \<not> token_text_ok (lgr_Token response) then (Inl (lapiError LAPIErrContract), s1)
                    else (case lapi_Now c s1 of (now, s2) \<Rightarrow>
                        if \<not> login_accepted response expiry (now + lc_authRefreshBefore c) then (Inl (lapiError LAPIErrContract), s2)
                        else (Inr (), s2\<lparr>ls_token := lgr_Token response, ls_tokenExpiry := expiry\<rparr>)))))"

definition ensureToken :: "'w lapi_client \<Rightarrow> bool \<Rightarrow> ('w, unit) lapi_call" where
  "ensureToken c force s =
     (if \<not> force \<and> ls_token s \<noteq> []
      then (case lapi_Now c s of (now, s1) \<Rightarrow>
          if now + lc_authRefreshBefore c < ls_tokenExpiry s1 then (Inr (), s1)
          else loginLocked c (s1\<lparr>ls_token := [], ls_tokenExpiry := time_zero\<rparr>))
      else loginLocked c (s\<lparr>ls_token := [], ls_tokenExpiry := time_zero\<rparr>))"

definition Authenticate :: "'w lapi_client \<Rightarrow> ('w, unit) lapi_call" where
  "Authenticate c s = ensureToken c False s"

definition refreshRejectedToken :: "'w lapi_client \<Rightarrow> string \<Rightarrow> ('w, unit) lapi_call" where
  "refreshRejectedToken c rejectedToken s =
     (if ls_token s \<noteq> [] \<and> ls_token s \<noteq> rejectedToken
      then (case lapi_Now c s of (now, s1) \<Rightarrow>
          if now + lc_authRefreshBefore c < ls_tokenExpiry s1 then (Inr (), s1)
          else loginLocked c (s1\<lparr>ls_token := [], ls_tokenExpiry := time_zero\<rparr>))
      else loginLocked c (s\<lparr>ls_token := [], ls_tokenExpiry := time_zero\<rparr>))"

fun isUnauthorized :: "(lapi_failure, 'a) result \<Rightarrow> bool" where
  "isUnauthorized (Inl err) = (lf_Category err = LAPIErrAuth \<and> lf_Status err = 401)"
| "isUnauthorized (Inr _) = False"

definition authenticated ::
  "'w lapi_client \<Rightarrow> string \<Rightarrow> string \<Rightarrow> (string \<times> string) list \<Rightarrow> lapi_payload option \<Rightarrow> int list \<Rightarrow> ('w, string) lapi_call" where
  "authenticated c method route query payload expected s =
     (case ensureToken c False s of
        (Inl err, s1) \<Rightarrow> (Inl err, s1)
      | (Inr _, s1) \<Rightarrow>
          (case perform c method route query payload (ls_token s1) expected s1 of (res, s2) \<Rightarrow>
             if \<not> isUnauthorized res then (res, s2)
             else (case refreshRejectedToken c (ls_token s1) s2 of
                 (Inl err, s3) \<Rightarrow> (Inl err, s3)
               | (Inr _, s3) \<Rightarrow> perform c method route query payload (ls_token s3) expected s3)))"

subsection \<open>Definitions: alerts\<close>

definition canonicalDecision :: "DecisionInput \<Rightarrow> (lapi_failure, DecisionInput) result" where
  "canonicalDecision input =
     (if TrimSpace (di_Value input) \<noteq> di_Value input then Inl (lapiError LAPIErrContract)
      else if di_Scope input = ''Ip'' then
        (if Contains_byte (di_Value input) (CHR ''/'') then Inl (lapiError LAPIErrContract)
         else case NormalizeAddress (di_Value input) of
           Inl _ \<Rightarrow> Inl (lapiError LAPIErrContract)
         | Inr address \<Rightarrow>
             if \<not> fst (IsSafePrefix (PrefixFrom address (int (BitLen address)))) then Inl (lapiError LAPIErrContract)
             else Inr \<lparr>di_Scope = ''Ip'', di_Value = addr_String address\<rparr>)
      else if di_Scope input = ''Range'' then
        (if \<not> Contains_byte (di_Value input) (CHR ''/'') then Inl (lapiError LAPIErrContract)
         else case NormalizePrefix (di_Value input) of
           Inl _ \<Rightarrow> Inl (lapiError LAPIErrContract)
         | Inr prefix \<Rightarrow>
             if ValidateKind prefix KindRange \<noteq> None then Inl (lapiError LAPIErrContract)
             else if \<not> fst (IsSafePrefix prefix) then Inl (lapiError LAPIErrContract)
             else Inr \<lparr>di_Scope = ''Range'', di_Value = prefix_String prefix\<rparr>)
      else Inl (lapiError LAPIErrContract))"

text \<open>\<^verbatim>\<open>Duration.String\<close> for a duration of at least a second.\<close>

definition frac_text :: "int \<Rightarrow> string" where
  "frac_text n =
     (let digits = itoa (nat n); padded = replicate (9 - length digits) (CHR ''0'') @ digits in
      if n = 0 then [] else CHR ''.'' # rev (dropWhile (\<lambda>c. c = CHR ''0'') (rev padded)))"

definition duration_String :: "duration \<Rightarrow> string" where
  "duration_String d =
     (let total = d div second; hours = total div 3600; minutes = (total div 60) mod 60 in
      (if total \<ge> 3600 then itoa (nat hours) @ ''h'' else [])
      @ (if total \<ge> 60 then itoa (nat minutes) @ ''m'' else [])
      @ itoa (nat (total mod 60)) @ frac_text (d mod second) @ ''s'')"

fun wire_decisions :: "CreateRequest \<Rightarrow> DecisionInput list \<Rightarrow> string list \<Rightarrow> (lapi_failure, lapi_Decision list) result" where
  "wire_decisions request [] seen = Inr []"
| "wire_decisions request (input # inputs) seen =
     (case canonicalDecision input of
        Inl err \<Rightarrow> Inl err
      | Inr canon \<Rightarrow>
          let key = di_Scope canon @ byte 0 # di_Value canon in
          if key \<in> set seen then Inl (lapiError LAPIErrContract)
          else case wire_decisions request inputs (key # seen) of
            Inl err \<Rightarrow> Inl err
          | Inr rest \<Rightarrow>
              Inr (\<lparr>ld_ID = 0, ld_Origin = ''crowdshield'', ld_Type = ''ban'', ld_Scope = di_Scope canon, ld_Value = di_Value canon,
                    ld_Duration = duration_String (cr_Duration request), ld_Until = [],
                    ld_Scenario = ''crowdshield/'' @ cr_FeedName request\<rparr> # rest))"

definition operationToken :: "string \<Rightarrow> bool" where
  "operationToken s = (length s = 32 \<and> list_all lower_hex s)"

definition buildWireAlert :: "'w lapi_client \<Rightarrow> CreateRequest \<Rightarrow> gotime \<Rightarrow> (lapi_failure, wireAlert) result" where
  "buildWireAlert c request now =
     (if \<not> feedNamePattern (cr_FeedName request) \<or> length (cr_FeedName request) > 64 \<or> \<not> operationToken (cr_OperationToken request)
         \<or> cr_Duration request < minute \<or> cr_Duration request > 7 * 24 * hour
         \<or> length (cr_Decisions request) < 1 \<or> length (cr_Decisions request) > 500 then Inl (lapiError LAPIErrContract)
      else case wire_decisions request (cr_Decisions request) [] of
        Inl err \<Rightarrow> Inl err
      | Inr decisions \<Rightarrow>
          let timestamp = lc_FormatTime c now; meta = [\<lparr>wm_Key = ''service'', wm_Value = ''crowdshield''\<rparr>] in
          Inr \<lparr>wa_Scenario = ''crowdshield/'' @ cr_FeedName request, wa_ScenarioHash = ''crowdshield:'' @ cr_OperationToken request,
            wa_ScenarioVersion = ''1.0'', wa_Message = ''External threat feed: '' @ cr_FeedName request, wa_EventsCount = 1,
            wa_StartAt = timestamp, wa_StopAt = timestamp, wa_Capacity = int (length decisions), wa_Leakspeed = ''0'', wa_Simulated = False,
            wa_Events = [\<lparr>we_Timestamp = timestamp, we_Meta = meta\<rparr>], wa_Remediation = True, wa_Decisions = decisions,
            wa_Source = \<lparr>ws_Scope = ''service'', ws_Value = ''crowdshield''\<rparr>, wa_Meta = meta,
            wa_Labels = [''crowdshield'', ''operation:'' @ cr_OperationToken request], wa_Kind = ''crowdshield''\<rparr>)"

definition client_CreateAlert :: "'w lapi_client \<Rightarrow> CreateRequest \<Rightarrow> ('w, int) lapi_call" where
  "client_CreateAlert c request s =
     (case lapi_Now c s of (now, s1) \<Rightarrow>
      case buildWireAlert c request now of
        Inl err \<Rightarrow> (Inl err, s1)
      | Inr alert \<Rightarrow>
          (case authenticated c ''POST'' ''/alerts'' [] (Some (AlertPayload alert)) [201] s1 of
             (Inl err, s2) \<Rightarrow> (Inl err, s2)
           | (Inr body, s2) \<Rightarrow>
               (case decodeJSON (store_list store_string []) [] body of
                  Inl err \<Rightarrow> (Inl err, s2)
                | Inr response \<Rightarrow>
                    (case response of
                       [text] \<Rightarrow>
                         (case Atoi text of
                            None \<Rightarrow> (Inl (lapiError LAPIErrContract), s2)
                          | Some alertID \<Rightarrow> if alertID \<le> 0 then (Inl (lapiError LAPIErrContract), s2) else (Inr alertID, s2))
                     | _ \<Rightarrow> (Inl (lapiError LAPIErrContract), s2)))))"

definition client_GetAlert :: "'w lapi_client \<Rightarrow> int \<Rightarrow> ('w, lapi_Alert) lapi_call" where
  "client_GetAlert c alertID s =
     (if alertID \<le> 0 then (Inl (lapiError LAPIErrContract), s)
      else case authenticated c ''GET'' (''/alerts/'' @ FormatInt alertID) [] None [200] s of
        (Inl err, s1) \<Rightarrow> (Inl err, s1)
      | (Inr body, s1) \<Rightarrow>
          (case decodeJSON (store_struct put_alert) zero_Alert body of
             Inl err \<Rightarrow> (Inl err, s1)
           | Inr alert \<Rightarrow> if al_ID alert \<noteq> alertID then (Inl (lapiError LAPIErrContract), s1) else (Inr alert, s1)))"

definition client_ExpireDecision :: "'w lapi_client \<Rightarrow> int \<Rightarrow> ('w, unit) lapi_call" where
  "client_ExpireDecision c decisionID s =
     (if decisionID \<le> 0 then (Inl (lapiError LAPIErrContract), s)
      else case authenticated c ''DELETE'' (''/decisions/'' @ FormatInt decisionID) [] None [200, 204] s of
        (Inl err, s1) \<Rightarrow> (Inl err, s1)
      | (Inr _, s1) \<Rightarrow> (Inr (), s1))"

text \<open>The loop over the alerts found: a second match is an error.\<close>

definition matching_alert :: "string \<Rightarrow> string \<Rightarrow> lapi_Alert list \<Rightarrow> (lapi_failure, lapi_Alert option) result" where
  "matching_alert feedName token alerts =
     (case filter (\<lambda>a. al_Scenario a = ''crowdshield/'' @ feedName \<and> al_ScenarioHash a = ''crowdshield:'' @ token) alerts of
        [] \<Rightarrow> Inr None
      | [alert] \<Rightarrow> Inr (Some alert)
      | _ \<Rightarrow> Inl (lapiError LAPIErrContract))"

definition client_FindOperation :: "'w lapi_client \<Rightarrow> string \<Rightarrow> string \<Rightarrow> ('w, lapi_Alert option) lapi_call" where
  "client_FindOperation c feedName token s =
     (if \<not> feedNamePattern feedName \<or> \<not> operationToken token then (Inl (lapiError LAPIErrContract), s)
      else case authenticated c ''GET'' ''/alerts''
          [(''limit'', ''101''), (''scenario'', ''crowdshield/'' @ feedName), (''since'', ''168h'')] None [200] s of
        (Inl err, s1) \<Rightarrow> (Inl err, s1)
      | (Inr body, s1) \<Rightarrow>
          (case decodeJSON (store_list (store_struct put_alert) zero_Alert) [] body of
             Inl err \<Rightarrow> (Inl err, s1)
           | Inr alerts \<Rightarrow> if length alerts > 100 then (Inl (lapiError LAPIErrContract), s1) else (matching_alert feedName token alerts, s1)))"

subsection \<open>Definitions: the client behind the reconciler\<close>

text \<open>The reconciler sees the category of an error only.\<close>

definition by_category :: "(lapi_failure, 'a) result \<times> 's \<Rightarrow> (LAPIError, 'a) result \<times> 's" where
  "by_category x = (case x of (Inl err, s) \<Rightarrow> (Inl (lf_Category err), s) | (Inr v, s) \<Rightarrow> (Inr v, s))"

definition client_outside :: "'w lapi_client \<Rightarrow> ('w \<Rightarrow> string option \<times> 'w) \<Rightarrow> 'w lapi_state outside" where
  "client_outside c token =
     \<lparr>CreateAlert = (\<lambda>request s. by_category (client_CreateAlert c request s)),
      GetAlert = (\<lambda>alertID s. by_category (client_GetAlert c alertID s)),
      ExpireDecision = (\<lambda>decisionID s. by_category (client_ExpireDecision c decisionID s)),
      FindOperation = (\<lambda>feedName operation s. by_category (client_FindOperation c feedName operation s)),
      Token = (\<lambda>s. case token (ls_world s) of (t, w) \<Rightarrow> (t, s\<lparr>ls_world := w\<rparr>))\<rparr>"

end
