(* ===== verification/LAPI_Client_Facts.thy ===== *)
theory LAPI_Client_Facts
  imports LAPI_Client
begin

text \<open>
  What the client sends: for every behaviour of the server and the clock an operation sends its request at most
  twice, each time with a token of well-formed text, and logs in at most twice; an alert names only canonical,
  safe and distinct networks.
\<close>

subsection \<open>Alerts\<close>

lemma safe_prefix_public:
  assumes "fst (IsSafePrefix p)" and "Contains p a" and "Zone a = []"
  shows "\<not> local_use a"
  using safe_no_special [OF assms(1,2)] local_use_special [OF _ assms(3)] by blast

text \<open>A decision of an alert: a ban by this program of a safe network, in the text that parses back to it.\<close>

definition decision_ok :: "CreateRequest \<Rightarrow> lapi_Decision \<Rightarrow> bool" where
  "decision_ok request d \<longleftrightarrow> ld_Origin d = ''crowdshield'' \<and> ld_Type d = ''ban'' \<and> ld_Scenario d = ''crowdshield/'' @ cr_FeedName request \<and>
     ld_Duration d = duration_String (cr_Duration request) \<and>
     (\<exists>p. fst (IsSafePrefix p) \<and> (\<forall>a. Zone a = [] \<and> Contains p a \<longrightarrow> \<not> local_use a) \<and>
        (ld_Scope d = ''Ip'' \<and> ld_Value d = addr_String (pfx_ip p) \<and> Bits p = int (BitLen (pfx_ip p)) \<or>
         ld_Scope d = ''Range'' \<and> ld_Value d = prefix_String p))"

definition alert_ok :: "CreateRequest \<Rightarrow> wireAlert \<Rightarrow> bool" where
  "alert_ok request alert \<longleftrightarrow> wa_Scenario alert = ''crowdshield/'' @ cr_FeedName request \<and>
     wa_ScenarioHash alert = ''crowdshield:'' @ cr_OperationToken request \<and>
     length (wa_Decisions alert) = length (cr_Decisions request) \<and> 1 \<le> length (wa_Decisions alert) \<and> length (wa_Decisions alert) \<le> 500 \<and>
     distinct (map (\<lambda>d. (ld_Scope d, ld_Value d)) (wa_Decisions alert)) \<and> (\<forall>d \<in> set (wa_Decisions alert). decision_ok request d) \<and>
     minute \<le> cr_Duration request \<and> cr_Duration request \<le> 7 * 24 * hour"

lemma canonicalDecision_ok:
  assumes "canonicalDecision input = Inr canon"
  shows "\<exists>p. fst (IsSafePrefix p) \<and> (di_Scope canon = ''Ip'' \<and> di_Value canon = addr_String (pfx_ip p) \<and> Bits p = int (BitLen (pfx_ip p)) \<or>
    di_Scope canon = ''Range'' \<and> di_Value canon = prefix_String p)"
proof -
  have "pfx_ip (PrefixFrom a (int (BitLen a))) = a \<and> Bits (PrefixFrom a (int (BitLen a))) = int (BitLen a)"
    if "NormalizeAddress s = Inr a" "fst (IsSafePrefix (PrefixFrom a (int (BitLen a))))" for a s
  proof -
    have "Zone a = []" using that(1) by (auto simp: NormalizeAddress_def split: if_splits option.splits) (metis Unmap.elims Zone.simps)
    then show ?thesis using that(2) by (cases a) (auto simp: netip_defs IsSafePrefix_iff)
  qed
  note host = this
  show ?thesis
  proof (cases "di_Scope input = ''Ip''")
    case True
    with assms obtain a where a: "NormalizeAddress (di_Value input) = Inr a" "fst (IsSafePrefix (PrefixFrom a (int (BitLen a))))"
      "canon = \<lparr>di_Scope = ''Ip'', di_Value = addr_String a\<rparr>"
      by (auto simp: canonicalDecision_def split: if_splits sum.splits)
    with host [OF a(1,2)] show ?thesis by (intro exI [of _ "PrefixFrom a (int (BitLen a))"]) simp
  next
    case False
    with assms show ?thesis by (auto simp: canonicalDecision_def split: if_splits sum.splits)
  qed
qed

lemma wire_decisions_ok:
  "wire_decisions request inputs seen = Inr ds \<Longrightarrow>
   length ds = length inputs \<and> (\<forall>d \<in> set ds. decision_ok request d) \<and>
   distinct (map (\<lambda>d. (ld_Scope d, ld_Value d)) ds) \<and> (\<forall>d \<in> set ds. ld_Scope d @ byte 0 # ld_Value d \<notin> set seen)"
proof (induction inputs arbitrary: seen ds)
  case (Cons input inputs)
  then obtain canon rest where c: "canonicalDecision input = Inr canon" "di_Scope canon @ byte 0 # di_Value canon \<notin> set seen"
    "wire_decisions request inputs ((di_Scope canon @ byte 0 # di_Value canon) # seen) = Inr rest"
    and ds: "ds = \<lparr>ld_ID = 0, ld_Origin = ''crowdshield'', ld_Type = ''ban'', ld_Scope = di_Scope canon, ld_Value = di_Value canon,
      ld_Duration = duration_String (cr_Duration request), ld_Until = [], ld_Scenario = ''crowdshield/'' @ cr_FeedName request\<rparr> # rest"
    by (auto simp: Let_def split: sum.splits if_splits)
  from canonicalDecision_ok [OF c(1)] safe_prefix_public have "decision_ok request (hd ds)" by (auto simp: decision_ok_def ds)
  with Cons.IH [OF c(3)] c(2) show ?case by (auto simp: ds)
qed simp

lemma buildWireAlert_ok: "buildWireAlert c request now = Inr alert \<Longrightarrow> alert_ok request alert"
  using wire_decisions_ok [of request "cr_Decisions request" "[]"]
  by (auto simp: buildWireAlert_def alert_ok_def Let_def Suc_le_eq split: if_splits sum.splits)

subsection \<open>The trace of an operation\<close>

definition logged_client :: "'w lapi_client \<Rightarrow> ('w \<times> lapi_request list) lapi_client" where
  "logged_client c =
     \<lparr>lc_Login = lc_Login c, lc_Password = lc_Password c, lc_BasePath = lc_BasePath c, lc_userAgent = lc_userAgent c,
      lc_maxResponseBytes = lc_maxResponseBytes c, lc_authRefreshBefore = lc_authRefreshBefore c,
      lc_Do = (\<lambda>r (w, log). case lc_Do c r w of (x, w') \<Rightarrow> (x, w', log @ [r])),
      lc_Now = (\<lambda>(w, log). case lc_Now c w of (t, w') \<Rightarrow> (t, w', log)),
      lc_ParseMediaType = lc_ParseMediaType c, lc_FormatTime = lc_FormatTime c\<rparr>"

definition sent :: "('w \<times> lapi_request list) lapi_state \<Rightarrow> lapi_request list" where
  "sent s = snd (ls_world s)"

definition request_of :: "'w lapi_client \<Rightarrow> string \<Rightarrow> string \<Rightarrow> (string \<times> string) list \<Rightarrow> lapi_payload option \<Rightarrow> string \<Rightarrow> lapi_request" where
  "request_of c method route query payload bearer =
     \<lparr>lr_Method = method, lr_Path = lapi_endpoint c route, lr_Query = query, lr_Header = lapi_headers c payload bearer, lr_Payload = payload\<rparr>"

definition login_request :: "'w lapi_client \<Rightarrow> lapi_request" where
  "login_request c = request_of c ''POST'' ''/watchers/login'' [] (Some (LoginPayload (lc_Login c) (lc_Password c))) []"

definition token_ok :: "'w lapi_state \<Rightarrow> bool" where
  "token_ok s \<longleftrightarrow> ls_token s = [] \<or> token_text_ok (ls_token s)"

lemma perform_logged:
  assumes "perform (logged_client c) m route q p b e s = (res, s')"
  shows "ls_token s' = ls_token s" "sent s' = sent s @ [request_of c m route q p b]"
  using assms
  by (auto simp: perform_def logged_client_def sent_def request_of_def lapi_endpoint_def lapi_headers_def Let_def split: prod.splits option.splits)

lemma lapi_Now_logged:
  assumes "lapi_Now (logged_client c) s = (t, s')"
  shows "ls_token s' = ls_token s" "sent s' = sent s"
  using assms by (auto simp: lapi_Now_def logged_client_def sent_def split: prod.splits)

lemma loginLocked_logged:
  assumes "loginLocked (logged_client c) s = (res, s')" and "ls_token s = []"
  shows "sent s' = sent s @ [login_request c]" "token_ok s'" "res = Inr () \<Longrightarrow> token_text_ok (ls_token s')"
proof -
  have [simp]: "lc_Login (logged_client c) = lc_Login c" "lc_Password (logged_client c) = lc_Password c" by (simp_all add: logged_client_def)
  obtain r1 s1 where p: "perform (logged_client c) ''POST'' ''/watchers/login'' [] (Some (LoginPayload (lc_Login c) (lc_Password c))) [] [200] s = (r1, s1)"
    by (rule prod.exhaust)
  note s1 = perform_logged [OF p]
  have upd: "sent (s2\<lparr>ls_token := x, ls_tokenExpiry := y\<rparr>) = sent s2" for s2 :: "('a \<times> lapi_request list) lapi_state" and x y by (simp add: sent_def)
  show "sent s' = sent s @ [login_request c]" "token_ok s'" "res = Inr () \<Longrightarrow> token_text_ok (ls_token s')"
    using assms p s1 lapi_Now_logged [of c s1] upd
    by (auto simp: loginLocked_def login_request_def token_ok_def split: sum.splits option.splits prod.splits if_splits)
qed

lemma cleared [simp]:
  "ls_token (s\<lparr>ls_token := [], ls_tokenExpiry := t\<rparr>) = []" "sent (s\<lparr>ls_token := x, ls_tokenExpiry := t\<rparr>) = sent s"
  by (simp_all add: sent_def)

lemma login_or_keep:
  assumes "(if P then (case lapi_Now (logged_client c) s of (now, s1) \<Rightarrow>
          if Q now s1 then (Inr (), s1) else loginLocked (logged_client c) (s1\<lparr>ls_token := [], ls_tokenExpiry := time_zero\<rparr>))
      else loginLocked (logged_client c) (s\<lparr>ls_token := [], ls_tokenExpiry := time_zero\<rparr>)) = (res, s')"
    and "token_ok s" and "P \<Longrightarrow> ls_token s \<noteq> []"
  shows "sent s' = sent s \<or> sent s' = sent s @ [login_request c]" "token_ok s'" "res = Inr () \<Longrightarrow> token_text_ok (ls_token s')"
proof -
  obtain now s1 where n: "lapi_Now (logged_client c) s = (now, s1)" by (rule prod.exhaust)
  note n' = lapi_Now_logged [OF n]
  have login: "(sent s' = sent s \<or> sent s' = sent s @ [login_request c]) \<and> token_ok s' \<and> (res = Inr () \<longrightarrow> token_text_ok (ls_token s'))"
    if "loginLocked (logged_client c) (s0\<lparr>ls_token := [], ls_tokenExpiry := time_zero\<rparr>) = (res, s')" "sent s0 = sent s" for s0
    using loginLocked_logged [OF that(1)] that(2) by simp
  have "(sent s' = sent s \<or> sent s' = sent s @ [login_request c]) \<and> token_ok s' \<and> (res = Inr () \<longrightarrow> token_text_ok (ls_token s'))"
    using assms n n' login [of s] login [of s1] by (auto simp: token_ok_def split: if_splits)
  then show "sent s' = sent s \<or> sent s' = sent s @ [login_request c]" "token_ok s'" "res = Inr () \<Longrightarrow> token_text_ok (ls_token s')" by blast+
qed

lemma ensureToken_logged:
  assumes "ensureToken (logged_client c) force s = (res, s')" and "token_ok s"
  shows "sent s' = sent s \<or> sent s' = sent s @ [login_request c]" "token_ok s'" "res = Inr () \<Longrightarrow> token_text_ok (ls_token s')"
  using login_or_keep [OF assms(1) [unfolded ensureToken_def] assms(2)] by blast+

lemma refreshRejectedToken_logged:
  assumes "refreshRejectedToken (logged_client c) x s = (res, s')" and "token_ok s"
  shows "sent s' = sent s \<or> sent s' = sent s @ [login_request c]" "token_ok s'" "res = Inr () \<Longrightarrow> token_text_ok (ls_token s')"
  using login_or_keep [OF assms(1) [unfolded refreshRejectedToken_def] assms(2)] by blast+

text \<open>The requests of one authenticated call: logins, and the request itself at most twice, with tokens of good text.\<close>

definition call_trace :: "'w lapi_client \<Rightarrow> (string \<Rightarrow> lapi_request) \<Rightarrow> lapi_request list \<Rightarrow> bool" where
  "call_trace c req calls \<longleftrightarrow> (\<exists>l1 l2 b1 b2. calls = l1 @ b1 @ l2 @ b2 \<and> l1 \<in> {[], [login_request c]} \<and> l2 \<in> {[], [login_request c]} \<and>
     (b1 = [] \<or> (\<exists>t. b1 = [req t] \<and> token_text_ok t)) \<and> (b2 = [] \<or> (\<exists>t. b2 = [req t] \<and> token_text_ok t)))"

lemma call_trace_Nil [simp]: "call_trace c req []"
  by (auto simp: call_trace_def)

lemma authenticated_logged:
  assumes "authenticated (logged_client c) m route q p e s = (res, s')" and "token_ok s"
  shows "\<exists>calls. sent s' = sent s @ calls \<and> call_trace c (request_of c m route q p) calls \<and> token_ok s'"
proof -
  let ?req = "request_of c m route q p"
  obtain r1 s1 where e1: "ensureToken (logged_client c) False s = (r1, s1)" by (rule prod.exhaust)
  obtain l1 where l1: "sent s1 = sent s @ l1" "l1 \<in> {[], [login_request c]}" and t1: "token_ok s1"
    using ensureToken_logged [OF e1 assms(2)] by auto
  show ?thesis
  proof (cases r1)
    case (Inl err)
    with assms(1) e1 have "s' = s1" by (simp add: authenticated_def)
    moreover have "call_trace c ?req (l1 @ [] @ [] @ [])" using l1(2) unfolding call_trace_def by blast
    ultimately show ?thesis using l1 t1 by auto
  next
    case (Inr u)
    obtain r2 s2 where e2: "perform (logged_client c) m route q p (ls_token s1) e s1 = (r2, s2)" by (rule prod.exhaust)
    note s2 = perform_logged [OF e2]
    have ok1: "token_text_ok (ls_token s1)" and t2: "token_ok s2" using ensureToken_logged(3) [OF e1 assms(2)] Inr s2 t1 by (auto simp: token_ok_def)
    obtain r3 s3 where e3: "refreshRejectedToken (logged_client c) (ls_token s1) s2 = (r3, s3)" by (rule prod.exhaust)
    obtain l2 where l2: "sent s3 = sent s2 @ l2" "l2 \<in> {[], [login_request c]}" and t3: "token_ok s3"
      using refreshRejectedToken_logged [OF e3 t2] by auto
    obtain r4 s4 where e4: "perform (logged_client c) m route q p (ls_token s3) e s3 = (r4, s4)" by (rule prod.exhaust)
    note s4 = perform_logged [OF e4]
    have ok3: "r3 = Inr () \<Longrightarrow> token_text_ok (ls_token s3)" by (rule refreshRejectedToken_logged(3) [OF e3 t2])
    consider "s' = s2" | "s' = s3" | "s' = s4" "r3 = Inr ()"
      using assms(1) e1 Inr e2 e3 e4 by (auto simp: authenticated_def split: if_splits sum.splits)
    then show ?thesis
    proof cases
      case 1
      have "call_trace c ?req (l1 @ [?req (ls_token s1)] @ [] @ [])" using l1(2) ok1 unfolding call_trace_def by blast
      then show ?thesis using 1 l1 s2 t2 by (intro exI [of _ "l1 @ [?req (ls_token s1)] @ [] @ []"]) auto
    next
      case 2
      have "call_trace c ?req (l1 @ [?req (ls_token s1)] @ l2 @ [])" using l1(2) l2(2) ok1 unfolding call_trace_def by blast
      then show ?thesis using 2 l1 l2 s2 t3 by (intro exI [of _ "l1 @ [?req (ls_token s1)] @ l2 @ []"]) auto
    next
      case 3
      have "call_trace c ?req (l1 @ [?req (ls_token s1)] @ l2 @ [?req (ls_token s3)])"
        using l1(2) l2(2) ok1 ok3 3(2) unfolding call_trace_def by blast
      moreover have "token_ok s4" using s4(1) t3 by (simp add: token_ok_def)
      ultimately show ?thesis using 3 l1 l2 s2 s4 by (intro exI [of _ "l1 @ [?req (ls_token s1)] @ l2 @ [?req (ls_token s3)]"]) auto
    qed
  qed
qed

subsection \<open>Sequences of operations\<close>

datatype client_op = OpAuthenticate | OpCreate CreateRequest | OpGet int | OpExpire int | OpFind string string

text \<open>The request an operation may send, for a token; \<open>None\<close> when it sends none but logins.\<close>

definition op_request :: "'w lapi_client \<Rightarrow> client_op \<Rightarrow> lapi_request \<Rightarrow> string \<Rightarrow> bool" where
  "op_request c operation r t \<longleftrightarrow> token_text_ok t \<and>
     (case operation of
        OpAuthenticate \<Rightarrow> False
      | OpCreate request \<Rightarrow> \<exists>alert. alert_ok request alert \<and> r = request_of c ''POST'' ''/alerts'' [] (Some (AlertPayload alert)) t
      | OpGet alertID \<Rightarrow> alertID > 0 \<and> r = request_of c ''GET'' (''/alerts/'' @ FormatInt alertID) [] None t
      | OpExpire decisionID \<Rightarrow> decisionID > 0 \<and> r = request_of c ''DELETE'' (''/decisions/'' @ FormatInt decisionID) [] None t
      | OpFind feedName token \<Rightarrow> operationToken token \<and> r = request_of c ''GET'' ''/alerts''
          [(''limit'', ''101''), (''scenario'', ''crowdshield/'' @ feedName), (''since'', ''168h'')] None t)"

fun client_step :: "'w lapi_client \<Rightarrow> client_op \<Rightarrow> 'w lapi_state \<Rightarrow> 'w lapi_state" where
  "client_step c OpAuthenticate s = snd (Authenticate c s)"
| "client_step c (OpCreate request) s = snd (client_CreateAlert c request s)"
| "client_step c (OpGet alertID) s = snd (client_GetAlert c alertID s)"
| "client_step c (OpExpire decisionID) s = snd (client_ExpireDecision c decisionID s)"
| "client_step c (OpFind feedName token) s = snd (client_FindOperation c feedName token s)"

definition op_trace :: "'w lapi_client \<Rightarrow> client_op \<Rightarrow> lapi_request list \<Rightarrow> bool" where
  "op_trace c operation calls \<longleftrightarrow> length calls \<le> 4 \<and> count_list calls (login_request c) \<le> 2 \<and>
     (\<forall>r \<in> set calls. r = login_request c \<or> (\<exists>t. op_request c operation r t))"

lemma call_trace_op:
  assumes "call_trace c (request_of c m route q p) calls" and "\<And>t. token_text_ok t \<Longrightarrow> op_request c operation (request_of c m route q p t) t"
    and "\<And>a b. p \<noteq> Some (LoginPayload a b)"
  shows "op_trace c operation calls"
proof -
  have other: "request_of c m route q p t \<noteq> login_request c" for t using assms(3) by (simp add: login_request_def request_of_def)
  have "\<forall>r \<in> set calls. r = login_request c \<or> (\<exists>t. r = request_of c m route q p t \<and> token_text_ok t)"
    using assms(1) by (auto simp: call_trace_def)
  then have "\<forall>r \<in> set calls. r = login_request c \<or> (\<exists>t. op_request c operation r t)" using assms(2) by metis
  moreover have "length calls \<le> 4 \<and> count_list calls (login_request c) \<le> 2"
    using assms(1) other by (auto simp: call_trace_def)
  ultimately show ?thesis by (simp add: op_trace_def)
qed

lemma client_step_logged:
  assumes "token_ok s"
  shows "\<exists>calls. sent (client_step (logged_client c) operation s) = sent s @ calls \<and> op_trace c operation calls \<and>
    token_ok (client_step (logged_client c) operation s)"
proof -
  have none: ?thesis if "client_step (logged_client c) operation s = s1" "sent s1 = sent s" "token_ok s1" for s1
    using that by (intro exI [of _ "[]"]) (simp add: op_trace_def)
  have auth: ?thesis
    if "client_step (logged_client c) operation s = s2" "authenticated (logged_client c) m route q p e s1 = (res, s2)" "sent s1 = sent s" "token_ok s1"
      "\<And>t. token_text_ok t \<Longrightarrow> op_request c operation (request_of c m route q p t) t" "\<And>a b. p \<noteq> Some (LoginPayload a b)"
    for m route q p e s1 res s2
    using authenticated_logged [OF that(2,4)] call_trace_op [OF _ that(5,6)] that(1,3) by auto
  show ?thesis
  proof (cases operation)
    case OpAuthenticate
    obtain res s1 where e: "ensureToken (logged_client c) False s = (res, s1)" by (rule prod.exhaust)
    have s1: "client_step (logged_client c) operation s = s1" using e OpAuthenticate by (simp add: Authenticate_def)
    from ensureToken_logged [OF e assms] show ?thesis unfolding s1
      by (elim disjE) (rule exI [of _ "[]"], simp add: op_trace_def, rule exI [of _ "[login_request c]"], simp add: op_trace_def)
  next
    case (OpCreate request)
    obtain now s1 where n: "lapi_Now (logged_client c) s = (now, s1)" by (rule prod.exhaust)
    note s1 = lapi_Now_logged [OF n]
    have t1: "token_ok s1" using assms s1 by (simp add: token_ok_def)
    show ?thesis
    proof (cases "buildWireAlert (logged_client c) request now")
      case (Inl err)
      then show ?thesis using OpCreate n s1 t1 by (intro none [of s1]) (simp_all add: client_CreateAlert_def)
    next
      case (Inr alert)
      obtain res s2 where a: "authenticated (logged_client c) ''POST'' ''/alerts'' [] (Some (AlertPayload alert)) [201] s1 = (res, s2)" by (rule prod.exhaust)
      have "client_step (logged_client c) operation s = s2"
        using OpCreate n Inr a by (auto simp: client_CreateAlert_def split: sum.splits option.splits list.splits)
      then show ?thesis using auth [OF _ a s1(2) t1] OpCreate buildWireAlert_ok [OF Inr] by (auto simp: op_request_def)
    qed
  next
    case (OpGet alertID)
    obtain res s2 where a: "authenticated (logged_client c) ''GET'' (''/alerts/'' @ FormatInt alertID) [] None [200] s = (res, s2)" by (rule prod.exhaust)
    show ?thesis
    proof (cases "alertID \<le> 0")
      case True
      then show ?thesis using OpGet assms by (intro none [of s]) (simp_all add: client_GetAlert_def)
    next
      case False
      then have "client_step (logged_client c) operation s = s2"
        using OpGet a by (auto simp: client_GetAlert_def split: sum.splits)
      then show ?thesis using auth [OF _ a refl assms] OpGet False by (auto simp: op_request_def)
    qed
  next
    case (OpExpire decisionID)
    obtain res s2 where a: "authenticated (logged_client c) ''DELETE'' (''/decisions/'' @ FormatInt decisionID) [] None [200, 204] s = (res, s2)" by (rule prod.exhaust)
    show ?thesis
    proof (cases "decisionID \<le> 0")
      case True
      then show ?thesis using OpExpire assms by (intro none [of s]) (simp_all add: client_ExpireDecision_def)
    next
      case False
      then have "client_step (logged_client c) operation s = s2"
        using OpExpire a by (auto simp: client_ExpireDecision_def split: sum.splits)
      then show ?thesis using auth [OF _ a refl assms] OpExpire False by (auto simp: op_request_def)
    qed
  next
    case (OpFind feedName token)
    let ?q = "[(''limit'', ''101''), (''scenario'', ''crowdshield/'' @ feedName), (''since'', ''168h'')]"
    obtain res s2 where a: "authenticated (logged_client c) ''GET'' ''/alerts'' ?q None [200] s = (res, s2)" by (rule prod.exhaust)
    show ?thesis
    proof (cases "\<not> feedNamePattern feedName \<or> \<not> operationToken token")
      case True
      then show ?thesis using OpFind assms by (intro none [of s]) (auto simp: client_FindOperation_def)
    next
      case False
      then have "client_step (logged_client c) operation s = s2"
        using OpFind a by (auto simp: client_FindOperation_def split: sum.splits)
      then show ?thesis using auth [OF _ a refl assms] OpFind False by (auto simp: op_request_def)
    qed
  qed
qed

text \<open>
  C21. Whatever the server answers, a sequence of operations of the client sends, operation by operation, at most four
  requests, of which at most two are logins; every other request is the one the operation stands for, with a
  bearer token that is not empty, at most 16 KiB long and free of control characters. The password is part of login
  requests only; an alert that is created carries one to 500 distinct bans, each of a safe network in its canonical
  text, and only positive identifiers are read or expired.
\<close>

theorem client_requests_guarded:
  "\<exists>traces. sent (fold (client_step (logged_client c)) ops (lapi_initial (w, []))) = concat traces \<and> list_all2 (op_trace c) ops traces"
proof -
  have "token_ok s \<Longrightarrow> \<exists>traces. sent (fold (client_step (logged_client c)) ops s) = sent s @ concat traces \<and> list_all2 (op_trace c) ops traces" for s
  proof (induction ops arbitrary: s)
    case Nil
    show ?case by (rule exI [of _ "[]"]) simp
  next
    case (Cons operation ops)
    obtain calls where calls: "sent (client_step (logged_client c) operation s) = sent s @ calls" "op_trace c operation calls"
      "token_ok (client_step (logged_client c) operation s)" using client_step_logged [OF Cons.prems] by blast
    obtain traces where "sent (fold (client_step (logged_client c)) ops (client_step (logged_client c) operation s)) =
        sent (client_step (logged_client c) operation s) @ concat traces" "list_all2 (op_trace c) ops traces" using Cons.IH [OF calls(3)] by blast
    then show ?case using calls by (intro exI [of _ "calls # traces"]) simp
  qed
  moreover have "token_ok (lapi_initial (w, []))" "sent (lapi_initial (w, [])) = []" by (simp_all add: lapi_initial_def token_ok_def sent_def)
  ultimately show ?thesis by fastforce
qed

end
