(* ===== verification/LAPI_Wire.thy ===== *)
theory LAPI_Wire
  imports LAPI_Client_Facts Reconcile_Effects
begin

text \<open>
  The reconciler on top of the client: the interface it calls is interpreted on the client's operations, and what
  a reconciliation puts on the wire follows from the contract of its calls.
\<close>

definition logged_token :: "('w \<Rightarrow> string option \<times> 'w) \<Rightarrow> 'w \<times> lapi_request list \<Rightarrow> string option \<times> 'w \<times> lapi_request list" where
  "logged_token token = (\<lambda>(w, log). case token w of (t, w') \<Rightarrow> (t, w', log))"

text \<open>A request on the wire: a login or the request of an operation; an alert is created under a token of the journal.\<close>

definition wire_ok :: "'w lapi_client \<Rightarrow> string set \<Rightarrow> lapi_request \<Rightarrow> bool" where
  "wire_ok c journal q \<longleftrightarrow> q = login_request c \<or>
     (\<exists>operation t. op_request c operation q t \<and> (\<forall>request. operation = OpCreate request \<longrightarrow> cr_OperationToken request \<in> journal))"

lemma wire_ok_mono: "wire_ok c journal q \<Longrightarrow> journal \<subseteq> journal' \<Longrightarrow> wire_ok c journal' q"
  unfolding wire_ok_def by blast

definition wired :: "'w lapi_client \<Rightarrow> ('w \<times> lapi_request list) lapi_state rstate \<Rightarrow> ('w \<times> lapi_request list) lapi_state rstate \<Rightarrow> bool" where
  "wired c s s' \<longleftrightarrow> journalled s \<subseteq> journalled s' \<and>
     (token_ok (rs_out s) \<longrightarrow> token_ok (rs_out s') \<and>
        (\<exists>calls. sent (rs_out s') = sent (rs_out s) @ calls \<and> (\<forall>q \<in> set calls. wire_ok c (journalled s') q)))"

lemma wired_trans: "wired c s1 s2 \<Longrightarrow> wired c s2 s3 \<Longrightarrow> wired c s1 s3"
proof -
  assume a: "wired c s1 s2" and b: "wired c s2 s3"
  show "wired c s1 s3"
    unfolding wired_def
  proof (intro conjI impI)
    show "journalled s1 \<subseteq> journalled s3" using a b by (auto simp: wired_def)
    assume t: "token_ok (rs_out s1)"
    then obtain xs where x: "sent (rs_out s2) = sent (rs_out s1) @ xs" "\<forall>q \<in> set xs. wire_ok c (journalled s2) q" "token_ok (rs_out s2)"
      using a by (auto simp: wired_def)
    then obtain ys where y: "sent (rs_out s3) = sent (rs_out s2) @ ys" "\<forall>q \<in> set ys. wire_ok c (journalled s3) q" "token_ok (rs_out s3)"
      using b by (auto simp: wired_def)
    show "token_ok (rs_out s3)" by (rule y(3))
    have "\<forall>q \<in> set (xs @ ys). wire_ok c (journalled s3) q" using x(2) y(2) b wire_ok_mono by (fastforce simp: wired_def)
    with x y show "\<exists>calls. sent (rs_out s3) = sent (rs_out s1) @ calls \<and> (\<forall>q \<in> set calls. wire_ok c (journalled s3) q)"
      by (intro exI [of _ "xs @ ys"]) simp
  qed
qed

lemma wired_quiet: "journalled s \<subseteq> journalled s' \<Longrightarrow> rs_out s' = rs_out s \<Longrightarrow> wired c s s'"
  by (simp add: wired_def)

lemma snd_by_category [simp]: "snd (by_category x) = snd x"
  by (auto simp: by_category_def split: prod.splits sum.splits)

lemma wired_step:
  assumes "snd (f (rs_out s)) = client_step (logged_client c) operation (rs_out s)"
    and "\<And>request. operation = OpCreate request \<Longrightarrow> cr_OperationToken request \<in> journalled s"
  shows "wired c s (snd (lapi_call f s))"
proof -
  have j: "journalled (snd (lapi_call f s)) = journalled s" and o: "rs_out (snd (lapi_call f s)) = client_step (logged_client c) operation (rs_out s)"
    using assms(1) by (auto simp: lapi_call_def journalled_def split: prod.splits)
  show ?thesis
    unfolding wired_def j o
  proof (intro conjI impI)
    assume t: "token_ok (rs_out s)"
    obtain calls where calls: "sent (client_step (logged_client c) operation (rs_out s)) = sent (rs_out s) @ calls" "op_trace c operation calls"
      "token_ok (client_step (logged_client c) operation (rs_out s))" using client_step_logged [OF t] by blast
    then have "\<forall>q \<in> set calls. wire_ok c (journalled s) q" using assms(2) by (fastforce simp: op_trace_def wire_ok_def)
    then show "token_ok (client_step (logged_client c) operation (rs_out s))"
      "\<exists>calls. sent (client_step (logged_client c) operation (rs_out s)) = sent (rs_out s) @ calls \<and> (\<forall>q \<in> set calls. wire_ok c (journalled s) q)"
      using calls by auto
  qed simp
qed

interpretation wire_effects: reconcile_effects "client_outside (logged_client c) (logged_token token)" r "wired c"
  for c :: "'w lapi_client" and token and r
proof
  let ?out = "client_outside (logged_client c) (logged_token token)"
  fix s s1 s2 s3 :: "('w \<times> lapi_request list) lapi_state rstate"
  show "wired c s s" by (simp add: wired_def)
  show "wired c s1 s2 \<Longrightarrow> wired c s2 s3 \<Longrightarrow> wired c s1 s3" by (rule wired_trans)
  show "wired c s1 s2 \<Longrightarrow> journalled s1 \<subseteq> journalled s2" by (simp add: wired_def)
  show "wired c s (s\<lparr>rs_report := x\<rparr>)" for x by (rule wired_quiet) simp_all
  show "wired c s (snd (store_call (MarkDecisionExpired i now) s))" for i now by (rule wired_quiet) (simp_all add: store_call_tokens)
  show "wired c s (snd (store_call (BeginOperation operation) s))" for operation by (rule wired_quiet) (simp_all add: store_call_tokens)
  show "wired c s (snd (store_call (RecordVerifiedOperation tok alert now) s))" for tok alert now by (rule wired_quiet) (simp_all add: store_call_tokens)
  show "wired c s (snd (store_call (CompleteOperation tok now) s))" for tok now by (rule wired_quiet) (simp_all add: store_call_tokens)
  show "wired c s (snd (store_call (SetOperationStatus tok status category now) s))" for tok status category now
    by (rule wired_quiet) (simp_all add: store_call_tokens)
  show get: "wired c s (snd (lapi_call (GetAlert ?out i) s))" for s i by (rule wired_step [where operation = "OpGet i"]) (simp_all add: client_outside_def)
  show "wired c s (snd (lapi_call (FindOperation ?out name tok) s))" for name tok
    by (rule wired_step [where operation = "OpFind name tok"]) (simp_all add: client_outside_def)
  show "Token ?out (rs_out s) = (tok, l) \<Longrightarrow> wired c s (s\<lparr>rs_out := l\<rparr>)" for tok l
    by (auto simp: client_outside_def logged_token_def wired_def sent_def token_ok_def split: prod.splits)
  show "cr_OperationToken req \<in> journalled s \<Longrightarrow> wired c s (snd (lapi_call (CreateAlert ?out req) s))" for req
    by (rule wired_step [where operation = "OpCreate req"]) (simp_all add: client_outside_def)
  have expire: "wired c s (snd (lapi_call (ExpireDecision ?out j) s))" for s j
    by (rule wired_step [where operation = "OpExpire j"]) (simp_all add: client_outside_def)
  show "lapi_call (GetAlert ?out i) s = (Inr remote, s1) \<Longrightarrow> owned_remote r i remote j \<Longrightarrow> wired c s (snd (lapi_call (ExpireDecision ?out j) s1))"
    for i remote j using wired_trans [OF get [of s i] expire [of _ j]] by simp
qed

text \<open>
  C5. A reconciliation over the client, for every behaviour of the server, the clock and the token source and
  however it ends: everything on the wire is a login or a request of one of the four operations, with a bearer token of good
  text; an alert carries only safe networks and is created under an operation token that the journal of the
  database holds; a preview sends nothing.
\<close>

theorem Run_on_the_wire:
  assumes "Run order (client_outside (logged_client c) (logged_token token)) r options now running d l = (err, report, d', l')"
    and "token_ok l" and "sent l = []"
  shows "(\<forall>q \<in> set (sent l'). q = login_request c \<or>
      (\<exists>operation t. op_request c operation q t \<and>
         (\<forall>request. operation = OpCreate request \<longrightarrow> cr_OperationToken request \<in> op_token ` set (lapi_operations d')))) \<and>
    (ro_DryRun options \<longrightarrow> sent l' = [])"
  using assms(1)
proof (cases rule: Run_cases)
  case (enforced entries objects summary records d1 rep res s)
  let ?s = "\<lparr>rs_db = d1, rs_out = l, rs_report = rep\<rparr>"
  have "wired c ?s s" using wire_effects.R_enforce [of c ?s order token r now records] enforced(8) by simp
  then obtain calls where "sent (rs_out s) = calls" "\<forall>q \<in> set calls. wire_ok c (journalled s) q"
    using assms(2,3) by (auto simp: wired_def)
  then show ?thesis using enforced(1,11,12) by (simp add: wire_ok_def journalled_def)
qed (use assms(3) in auto)

text \<open>A server that is down, and the journal of a crashed run.\<close>

definition sample_lapi_client :: "unit lapi_client" where
  "sample_lapi_client =
     \<lparr>lc_Login = ''m1'', lc_Password = ''p'', lc_BasePath = [], lc_userAgent = ''crowdshield/dev'', lc_maxResponseBytes = 1024,
      lc_authRefreshBefore = minute, lc_Do = (\<lambda>r w. (None, w)), lc_Now = (\<lambda>w. (1000 * second, w)), lc_ParseMediaType = (\<lambda>s. None),
      lc_FormatTime = (\<lambda>t. [])\<rparr>"

theorem Run_on_the_wire_witness:
  "\<exists>err report d' l'. Run id (client_outside (logged_client sample_lapi_client) (logged_token (\<lambda>w. (None, w)))) sample_reconciler sample_options
      (2000 * second) False sample_journal (lapi_initial ((), [])) = (err, report, d', l') \<and>
     (\<forall>q \<in> set (sent l'). q = login_request sample_lapi_client \<or>
      (\<exists>operation t. op_request sample_lapi_client operation q t \<and>
         (\<forall>request. operation = OpCreate request \<longrightarrow> cr_OperationToken request \<in> op_token ` set (lapi_operations d'))))"
proof -
  have l: "token_ok (lapi_initial ((), []))" "sent (lapi_initial ((), [])) = []" by (simp_all add: token_ok_def sent_def lapi_initial_def)
  obtain err report d' l' where run: "Run id (client_outside (logged_client sample_lapi_client) (logged_token (\<lambda>w. (None, w)))) sample_reconciler sample_options
      (2000 * second) False sample_journal (lapi_initial ((), [])) = (err, report, d', l')" by (metis prod.exhaust)
  from Run_on_the_wire [OF run l] run show ?thesis by blast
qed

end
