(* ===== verification/Scheduler.thy ===== *)
theory Scheduler
  imports Ops
begin

text \<open>
  The package \<^verbatim>\<open>internal/scheduler\<close>: serial runs of one job at deadlines anchored to the first one, with
  bounded retries. The clock, the timer, the context, the source of randomness, the job and the
  observer are outside this package: a record of functions on an arbitrary world. \<^verbatim>\<open>Run\<close> loops until
  its context ends, so its model takes the number of cycles it may still run, and says so when they
  are used up; within a cycle nothing is bounded by fuel.
\<close>

subsection \<open>Definitions: types\<close>

datatype scheduler_error = SchedErrInvalidOptions | SchedErrAlreadyRunning | SchedErrInvalidResult

record RetryPolicy =
  rp_MaxAttempts :: int
  rp_InitialBackoff :: duration
  rp_MaxBackoff :: duration

record Scheduler =
  sc_interval :: duration
  sc_startupJitter :: duration
  sc_runImmediately :: bool
  sc_retry :: RetryPolicy

text \<open>\<open>Timer\<close> is the select of \<^verbatim>\<open>wait\<close>: true when the timer fires before the context ends.\<close>

record 'w sched_env =
  env_Now :: "'w \<Rightarrow> gotime \<times> 'w"
  env_Timer :: "duration \<Rightarrow> 'w \<Rightarrow> bool \<times> 'w"
  env_CtxErr :: "'w \<Rightarrow> bool \<times> 'w"
  env_Int63n :: "int \<Rightarrow> 'w \<Rightarrow> int \<times> 'w"
  env_Job :: "'w \<Rightarrow> ops_Result \<times> 'w"
  env_Observe :: "Event \<Rightarrow> 'w \<Rightarrow> 'w"

subsection \<open>Definitions: operations\<close>

definition validRetry :: "RetryPolicy \<Rightarrow> bool" where
  "validRetry policy =
     (rp_MaxAttempts policy \<ge> 1 \<and> rp_MaxAttempts policy \<le> 10 \<and> rp_InitialBackoff policy > 0 \<and>
      rp_MaxBackoff policy \<ge> rp_InitialBackoff policy \<and> rp_MaxBackoff policy \<le> 24 * hour)"

definition scheduler_New :: "Scheduler \<Rightarrow> (scheduler_error, Scheduler) result" where
  "scheduler_New options =
     (if sc_interval options \<le> 0 \<or> sc_interval options > 30 * 24 * hour \<or> sc_startupJitter options < 0
         \<or> sc_startupJitter options > sc_interval options \<or> \<not> validRetry (sc_retry options)
      then Inl SchedErrInvalidOptions else Inr options)"

definition jitter :: "'w sched_env \<Rightarrow> Scheduler \<Rightarrow> 'w \<Rightarrow> duration \<times> 'w" where
  "jitter env s w =
     (if sc_startupJitter s \<le> 0 then (0, w)
      else let limit = (if sc_startupJitter s < max_int64 then sc_startupJitter s + 1 else sc_startupJitter s)
           in env_Int63n env limit w)"

definition wait :: "'w sched_env \<Rightarrow> duration \<Rightarrow> 'w \<Rightarrow> bool \<times> 'w" where
  "wait env delay w =
     (if delay \<le> 0 then (case env_CtxErr env w of (ended, w') \<Rightarrow> (\<not> ended, w')) else env_Timer env delay w)"

definition execute :: "'w sched_env \<Rightarrow> 'w \<Rightarrow> (scheduler_error, ops_Result) result \<times> 'w" where
  "execute env w = (case env_Job env w of (r, w') \<Rightarrow>
     (if Result_Validate r \<noteq> None then Inl SchedErrInvalidResult else Inr r, w'))"

definition emit :: "'w sched_env \<Rightarrow> Event \<Rightarrow> 'w \<Rightarrow> 'w" where
  "emit env event w = (if Event_Validate event = None then env_Observe env event w else w)"

text \<open>The loop of \<^verbatim>\<open>retryDelay\<close>, run for the given number of further attempts.\<close>

fun retryDelay_loop :: "duration \<Rightarrow> nat \<Rightarrow> duration \<Rightarrow> duration" where
  "retryDelay_loop maxBackoff 0 delay = delay"
| "retryDelay_loop maxBackoff (Suc n) delay =
     (if delay < maxBackoff then
        (if delay > maxBackoff div 2 then retryDelay_loop maxBackoff n maxBackoff
         else retryDelay_loop maxBackoff n (delay * 2))
      else delay)"

definition scheduler_retryDelay :: "RetryPolicy \<Rightarrow> int \<Rightarrow> duration" where
  "scheduler_retryDelay policy failedAttempt =
     (let delay = retryDelay_loop (rp_MaxBackoff policy) (nat (failedAttempt - 1)) (rp_InitialBackoff policy)
      in if delay > rp_MaxBackoff policy then rp_MaxBackoff policy else delay)"

text \<open>An event of the scheduler, with the fields the code leaves out at their zero value.\<close>

definition scheduler_event :: "Code \<Rightarrow> Outcome \<Rightarrow> Severity \<Rightarrow> FailureCategory \<Rightarrow> gotime \<Rightarrow> int \<Rightarrow> Event" where
  "scheduler_event c outcome severity failure at attempt =
     \<lparr>ev_Code = c, ev_Operation = OperationScheduler, ev_Feed = [], ev_Outcome = outcome, ev_Severity = severity,
      ev_Failure = failure, ev_At = at, ev_Duration = 0, ev_Attempt = attempt, ev_Counts = zero_Counts\<rparr>"

function executeCycle_loop :: "'w sched_env \<Rightarrow> Scheduler \<Rightarrow> bool \<Rightarrow> int \<Rightarrow> 'w \<Rightarrow> scheduler_error option \<times> 'w" where
  "executeCycle_loop env s hadFailure attempt w =
     (if attempt > rp_MaxAttempts (sc_retry s) then (None, w)
      else case execute env w of
        (Inl e, w1) \<Rightarrow> (Some e, w1)
      | (Inr r, w1) \<Rightarrow>
          (case env_CtxErr env w1 of (ended, w2) \<Rightarrow>
             if ended \<or> res_Outcome r = OutcomeCancelled then (None, w2)
             else if res_Outcome r = OutcomeSuccess then
               (if hadFailure then
                  (case env_Now env w2 of (now, w3) \<Rightarrow>
                     (None, emit env (scheduler_event CodeSchedulerRecovered OutcomeRecovered SeverityInfo NoFailure now attempt) w3))
                else (None, w2))
             else if \<not> res_Retryable r \<or> attempt = rp_MaxAttempts (sc_retry s) then (None, w2)
             else (case env_Now env w2 of (now, w3) \<Rightarrow>
               let w4 = emit env (scheduler_event CodeSchedulerRetry OutcomeRetrying SeverityWarning (res_Failure r) now (attempt + 1)) w3 in
               (case wait env (scheduler_retryDelay (sc_retry s) attempt) w4 of (fired, w5) \<Rightarrow>
                  if \<not> fired then (None, w5) else executeCycle_loop env s True (attempt + 1) w5))))"
  by pat_completeness auto
termination
  by (relation "measure (\<lambda>(env, s, hadFailure, attempt, w). nat (rp_MaxAttempts (sc_retry s) + 1 - attempt))") auto

declare executeCycle_loop.simps [simp del]

definition executeCycle :: "'w sched_env \<Rightarrow> Scheduler \<Rightarrow> 'w \<Rightarrow> scheduler_error option \<times> 'w" where
  "executeCycle env s w = executeCycle_loop env s False 1 w"

text \<open>\<^verbatim>\<open>for !deadline.After(now) { deadline = deadline.Add(s.interval) }\<close>\<close>

partial_function (option) skip_missed :: "duration \<Rightarrow> gotime \<Rightarrow> gotime \<Rightarrow> gotime option" where
  "skip_missed interval now deadline =
     (if deadline > now then Some deadline else skip_missed interval now (deadline + interval))"

text \<open>The infinite loop of \<^verbatim>\<open>Run\<close>: \<open>None\<close> when the fuel ends before the loop does, else the error it
  returns. A deadline that is never found is also no end.\<close>

fun run_loop :: "nat \<Rightarrow> 'w sched_env \<Rightarrow> Scheduler \<Rightarrow> gotime \<Rightarrow> 'w \<Rightarrow> (scheduler_error option \<times> 'w) option" where
  "run_loop 0 env s deadline w = None"
| "run_loop (Suc n) env s deadline w =
     (case env_Now env w of (now, w1) \<Rightarrow>
        (case skip_missed (sc_interval s) now (deadline + sc_interval s) of
           None \<Rightarrow> None
         | Some deadline' \<Rightarrow>
             (case wait env (time_Sub deadline' now) w1 of (fired, w2) \<Rightarrow>
                if \<not> fired then Some (None, w2)
                else (case executeCycle env s w2 of
                    (Some e, w3) \<Rightarrow> Some (Some e, w3)
                  | (None, w3) \<Rightarrow> run_loop n env s deadline' w3))))"

text \<open>The first wait and cycle, then the loop; and \<^verbatim>\<open>Run\<close> around them with its deferred event. The flag
  \<^verbatim>\<open>running\<close> is free again when \<^verbatim>\<open>Run\<close> returns, unless another call held it.\<close>

definition run_body :: "nat \<Rightarrow> 'w sched_env \<Rightarrow> Scheduler \<Rightarrow> gotime \<Rightarrow> duration \<Rightarrow> 'w \<Rightarrow> (scheduler_error option \<times> 'w) option" where
  "run_body n env s deadline delay w =
     (case wait env delay w of (fired, w1) \<Rightarrow>
        if \<not> fired then Some (None, w1)
        else (case executeCycle env s w1 of
            (Some e, w2) \<Rightarrow> Some (Some e, w2)
          | (None, w2) \<Rightarrow> run_loop n env s deadline w2))"

definition scheduler_Run :: "nat \<Rightarrow> 'w sched_env \<Rightarrow> Scheduler \<Rightarrow> bool \<Rightarrow> 'w \<Rightarrow> (scheduler_error option \<times> 'w) option" where
  "scheduler_Run n env s running w =
     (if running then Some (Some SchedErrAlreadyRunning, w)
      else case env_Now env w of (at, w1) \<Rightarrow>
        (case env_Now env (emit env (scheduler_event CodeSchedulerStarted OutcomeStarted SeverityInfo NoFailure at 0) w1) of (start, w2) \<Rightarrow>
          (case jitter env s w2 of (jit, w3) \<Rightarrow>
             let delay = (if \<not> sc_runImmediately s then jit + sc_interval s else jit) in
             (case run_body n env s (start + delay) delay w3 of
                None \<Rightarrow> None
              | Some (err, w4) \<Rightarrow>
                  (case env_Now env w4 of (stop, w5) \<Rightarrow>
                     Some (err, emit env (scheduler_event CodeSchedulerStopped OutcomeStopped SeverityInfo NoFailure stop 0) w5))))))"

subsection \<open>Backoff\<close>

lemma double_grows: "0 \<le> (m :: int) \<Longrightarrow> m \<le> m * 2 ^ n"
  by (rule mult_left_mono [of 1 "2 ^ n" m, simplified mult_1_right]) simp_all

lemma retryDelay_loop_min:
  "0 < delay \<Longrightarrow> delay \<le> m \<Longrightarrow> retryDelay_loop m n delay = min m (delay * 2 ^ n)"
proof (induction m n delay rule: retryDelay_loop.induct)
  case (2 m n delay)
  have "m \<le> (delay * 2) * 2 ^ n" if "m < delay * 2"
    using order.trans [OF less_imp_le [OF that] double_grows [of "delay * 2" n]] 2 by simp
  moreover have "m div 2 < delay \<longleftrightarrow> m < delay * 2" by auto
  moreover have "m \<le> m * 2 ^ n" using 2 double_grows [of m] by simp
  moreover have "m \<le> m * 2 ^ Suc n" by (rule double_grows) (use 2 in simp)
  ultimately show ?case using 2 by (auto simp: min_def mult.assoc)
qed simp

text \<open>
  The backoff before a retry is exponential and capped: after the \<open>k\<close>-th failed attempt it is the
  initial backoff doubled \<open>k - 1\<close> times, or the maximal backoff where that is less; no intermediate value
  exceeds the maximal backoff, so the doubling cannot overflow.
\<close>

theorem scheduler_retryDelay_closed:
  assumes "validRetry policy" and "1 \<le> k"
  shows "scheduler_retryDelay policy k = min (rp_MaxBackoff policy) (rp_InitialBackoff policy * 2 ^ nat (k - 1)) \<and>
    rp_InitialBackoff policy \<le> scheduler_retryDelay policy k \<and> scheduler_retryDelay policy k \<le> 24 * hour \<and>
    scheduler_retryDelay policy k \<le> scheduler_retryDelay policy (k + 1)"
proof -
  have pos: "0 < rp_InitialBackoff policy" "rp_InitialBackoff policy \<le> rp_MaxBackoff policy" "rp_MaxBackoff policy \<le> 24 * hour"
    using assms(1) by (auto simp: validRetry_def)
  have closed: "scheduler_retryDelay policy j = min (rp_MaxBackoff policy) (rp_InitialBackoff policy * 2 ^ nat (j - 1))" for j
    using pos by (simp add: scheduler_retryDelay_def retryDelay_loop_min)
  have "rp_InitialBackoff policy \<le> scheduler_retryDelay policy k"
    using pos double_grows [of "rp_InitialBackoff policy" "nat (k - 1)"] unfolding closed by simp
  moreover have "scheduler_retryDelay policy k \<le> scheduler_retryDelay policy (k + 1)"
    unfolding closed using pos assms(2) by (intro min.mono mult_left_mono power_increasing) auto
  ultimately have "rp_InitialBackoff policy \<le> scheduler_retryDelay policy k" "scheduler_retryDelay policy k \<le> scheduler_retryDelay policy (k + 1)" .
  then show ?thesis using pos by (auto simp: closed)
qed

theorem scheduler_retryDelay_closed_witness:
  "scheduler_retryDelay \<lparr>rp_MaxAttempts = 5, rp_InitialBackoff = second, rp_MaxBackoff = minute\<rparr> 3 = 4 * second"
  using scheduler_retryDelay_closed [of "\<lparr>rp_MaxAttempts = 5, rp_InitialBackoff = second, rp_MaxBackoff = minute\<rparr>" 3]
  by (simp add: validRetry_def go_time_defs)

subsection \<open>Deadlines\<close>

lemma skip_missed_steps:
  assumes "0 < interval" and "deadline + int k * interval > now" and "\<forall>j < k. deadline + int j * interval \<le> now"
  shows "skip_missed interval now deadline = Some (deadline + int k * interval)"
  using assms(2,3)
proof (induction k arbitrary: deadline)
  case 0
  then show ?case by (simp add: skip_missed.simps)
next
  case (Suc k)
  have "\<forall>j < k. deadline + interval + int j * interval \<le> now"
  proof (intro allI impI)
    fix j assume "j < k"
    then have "deadline + int (Suc j) * interval \<le> now" using Suc.prems(2) by blast
    then show "deadline + interval + int j * interval \<le> now" by (simp add: algebra_simps)
  qed
  with Suc.IH [of "deadline + interval"] Suc.prems
  have "skip_missed interval now (deadline + interval) = Some (deadline + interval + int k * interval)"
    by (simp add: algebra_simps)
  moreover have "\<not> deadline > now" using Suc.prems(2) by (auto dest: spec [of _ 0])
  ultimately show ?case by (simp add: skip_missed.simps [of interval now deadline] algebra_simps)
qed

lemma skip_missed_least:
  assumes "0 < interval"
  obtains k :: nat where "skip_missed interval now deadline = Some (deadline + int k * interval)"
    and "now < deadline + int k * interval" and "\<forall>j < k. deadline + int j * interval \<le> now"
proof -
  have "now < deadline + int (nat (now - deadline + 1)) * interval"
  proof (cases "now < deadline")
    case False
    then have "(now - deadline + 1) * 1 \<le> (now - deadline + 1) * interval" using assms by (intro mult_left_mono) auto
    then have "now - deadline + 1 \<le> int (nat (now - deadline + 1)) * interval" using False by (simp only: int_nat_eq) simp
    then show ?thesis by linarith
  qed (simp add: assms)
  then have ex: "\<exists>k. now < deadline + int k * interval" by blast
  define k where "k = (LEAST k. now < deadline + int k * interval)"
  have "now < deadline + int k * interval" unfolding k_def by (rule LeastI_ex [OF ex])
  moreover have "\<forall>j < k. deadline + int j * interval \<le> now" unfolding k_def using not_less_Least by force
  ultimately show thesis using that skip_missed_steps [OF assms] by blast
qed

text \<open>
  C36. The next deadline is always found, and missed runs are skipped, never replayed: with a positive
  interval the search ends, and the new deadline is the earliest one after now that is a whole number,
  at least one, of intervals after the previous deadline. So deadlines stay anchored to the first one
  and do not depend on when a job finishes, and the wait is at most one interval unless the clock went back.
\<close>

theorem next_deadline_correct:
  assumes "0 < sc_interval s"
  shows "\<exists>deadline'. skip_missed (sc_interval s) now (deadline + sc_interval s) = Some deadline' \<and> now < deadline' \<and>
    (\<exists>k \<ge> 1. deadline' = deadline + int k * sc_interval s \<and>
       (\<forall>j \<ge> 1. now < deadline + int j * sc_interval s \<longrightarrow> k \<le> j)) \<and>
    (deadline \<le> now \<longrightarrow> deadline' - now \<le> sc_interval s)"
proof -
  obtain k :: nat where k: "skip_missed (sc_interval s) now (deadline + sc_interval s) = Some (deadline + sc_interval s + int k * sc_interval s)"
    "now < deadline + sc_interval s + int k * sc_interval s" "\<forall>j < k. deadline + sc_interval s + int j * sc_interval s \<le> now"
    by (rule skip_missed_least [OF assms])
  have shift: "deadline + sc_interval s + int j * sc_interval s = deadline + int (Suc j) * sc_interval s" for j
    by (simp add: algebra_simps)
  have least: "Suc k \<le> j" if "1 \<le> j" "now < deadline + int j * sc_interval s" for j :: nat
  proof (rule ccontr)
    assume "\<not> Suc k \<le> j"
    then have "j - 1 < k" using that(1) by simp
    with k(3) have "deadline + int (Suc (j - 1)) * sc_interval s \<le> now" unfolding shift by blast
    with that show False by simp
  qed
  have "int k * sc_interval s \<le> now - deadline" if "deadline \<le> now"
  proof (cases k)
    case (Suc i)
    then have "deadline + int (Suc i) * sc_interval s \<le> now" using k(3) unfolding shift by simp
    with Suc show ?thesis by simp
  qed (use that in simp)
  then show ?thesis using k(1,2) least unfolding shift
    by (intro exI [of _ "deadline + int (Suc k) * sc_interval s"]) (auto intro!: exI [of _ "Suc k"] simp: algebra_simps)
qed

theorem next_deadline_correct_witness:
  "\<exists>deadline'. skip_missed hour (10 * hour + minute) (7 * hour + hour) = Some deadline' \<and>
     10 * hour + minute < deadline' \<and> deadline' - (10 * hour + minute) \<le> hour"
  using next_deadline_correct [of "\<lparr>sc_interval = hour, sc_startupJitter = 0, sc_runImmediately = True,
      sc_retry = \<lparr>rp_MaxAttempts = 1, rp_InitialBackoff = second, rp_MaxBackoff = second\<rparr>\<rparr>" "10 * hour + minute" "7 * hour"]
  by (auto simp: hour_def minute_def second_def)


subsection \<open>Cycles\<close>

text \<open>A wrapper of the world that logs the results of jobs, the waits and the observed events.\<close>

datatype sched_entry = LogJob ops_Result | LogWait duration | LogEvent Event

definition sched_logged :: "'w sched_env \<Rightarrow> ('w \<times> sched_entry list) sched_env" where
  "sched_logged env =
     \<lparr>env_Now = (\<lambda>(w, l). case env_Now env w of (t, w') \<Rightarrow> (t, w', l)),
      env_Timer = (\<lambda>d (w, l). case env_Timer env d w of (b, w') \<Rightarrow> (b, w', l @ [LogWait d])),
      env_CtxErr = (\<lambda>(w, l). case env_CtxErr env w of (b, w') \<Rightarrow> (b, w', l)),
      env_Int63n = (\<lambda>n (w, l). case env_Int63n env n w of (x, w') \<Rightarrow> (x, w', l)),
      env_Job = (\<lambda>(w, l). case env_Job env w of (r, w') \<Rightarrow> (r, w', l @ [LogJob r])),
      env_Observe = (\<lambda>e (w, l). (env_Observe env e w, l @ [LogEvent e]))\<rparr>"

fun entry_job :: "sched_entry \<Rightarrow> ops_Result list" where
  "entry_job (LogJob r) = [r]" | "entry_job _ = []"

fun entry_wait :: "sched_entry \<Rightarrow> duration list" where
  "entry_wait (LogWait d) = [d]" | "entry_wait _ = []"

fun entry_event :: "sched_entry \<Rightarrow> Event list" where
  "entry_event (LogEvent e) = [e]" | "entry_event _ = []"

definition retried :: "ops_Result \<Rightarrow> bool" where
  "retried r \<longleftrightarrow> Result_Validate r = None \<and> res_Retryable r \<and> res_Outcome r \<notin> {OutcomeSuccess, OutcomeCancelled}"

definition cycle_spec :: "RetryPolicy \<Rightarrow> int \<Rightarrow> scheduler_error option \<Rightarrow> sched_entry list \<Rightarrow> bool" where
  "cycle_spec policy attempt err l \<longleftrightarrow>
     (let rs = concat (map entry_job l); ws = concat (map entry_wait l) in
      rs \<noteq> [] \<and> int (length rs) \<le> rp_MaxAttempts policy - attempt + 1 \<and> (\<forall>r \<in> set (butlast rs). retried r) \<and>
      ws = map (\<lambda>i. scheduler_retryDelay policy (attempt + int i)) [0..<length ws] \<and>
      length ws \<in> {length rs - 1, length rs} \<and>
      err = (if Result_Validate (last rs) = None then None else Some SchedErrInvalidResult) \<and>
      (\<forall>e \<in> set (concat (map entry_event l)). Event_Validate e = None))"

lemma entry_events [simp]:
  "concat (map (entry_job \<circ> LogEvent) es) = []" "concat (map (entry_wait \<circ> LogEvent) es) = []"
  "concat (map (entry_event \<circ> LogEvent) es) = es"
  by (induction es) simp_all

lemma cycle_spec_end:
  "attempt \<le> rp_MaxAttempts policy \<Longrightarrow> err = (if Result_Validate r = None then None else Some SchedErrInvalidResult) \<Longrightarrow>
   \<forall>e \<in> set es. Event_Validate e = None \<Longrightarrow> cycle_spec policy attempt err (LogJob r # map LogEvent es)"
  by (simp add: cycle_spec_def Let_def)

lemma cycle_spec_stop:
  "attempt \<le> rp_MaxAttempts policy \<Longrightarrow> Result_Validate r = None \<Longrightarrow> \<forall>e \<in> set es. Event_Validate e = None \<Longrightarrow>
   cycle_spec policy attempt None (LogJob r # map LogEvent es @ [LogWait (scheduler_retryDelay policy attempt)])"
  by (simp add: cycle_spec_def Let_def)

lemma upt_shift: "map (\<lambda>i. f (a + int i)) [0..<Suc n] = f a # map (\<lambda>i. f (a + 1 + int i)) [0..<n]"
  by (rule nth_equalityI) (auto simp: nth_Cons add.assoc simp del: upt_Suc split: nat.splits)

lemma cycle_spec_step:
  assumes "retried r" and "\<forall>e \<in> set es. Event_Validate e = None" and "cycle_spec policy (attempt + 1) err l"
  shows "cycle_spec policy attempt err (LogJob r # map LogEvent es @ LogWait (scheduler_retryDelay policy attempt) # l)"
proof -
  let ?rs = "concat (map entry_job l)" and ?ws = "concat (map entry_wait l)"
  have l: "?rs \<noteq> []" "int (length ?rs) \<le> rp_MaxAttempts policy - (attempt + 1) + 1" "\<forall>r \<in> set (butlast ?rs). retried r"
    "?ws = map (\<lambda>i. scheduler_retryDelay policy (attempt + 1 + int i)) [0..<length ?ws]"
    "length ?ws = length ?rs - 1 \<or> length ?ws = length ?rs"
    "err = (if Result_Validate (last ?rs) = None then None else Some SchedErrInvalidResult)"
    "\<forall>e \<in> set (concat (map entry_event l)). Event_Validate e = None"
    using assms(3) unfolding cycle_spec_def Let_def by blast+
  have "scheduler_retryDelay policy attempt # ?ws =
      map (\<lambda>i. scheduler_retryDelay policy (attempt + int i)) [0..<length (scheduler_retryDelay policy attempt # ?ws)]"
    unfolding length_Cons upt_shift by (subst l(4)) (rule refl)
  moreover have "length (scheduler_retryDelay policy attempt # ?ws) \<in> {length (r # ?rs) - 1, length (r # ?rs)}"
    using l(1,5) by (cases ?rs) auto
  ultimately show ?thesis using l(1-3,6,7) assms(1,2) unfolding cycle_spec_def Let_def by auto
qed

lemma sched_logged_calls:
  "env_Now (sched_logged env) (w, l) = (t, x) \<Longrightarrow> \<exists>w'. x = (w', l)"
  "env_CtxErr (sched_logged env) (w, l) = (b, x) \<Longrightarrow> \<exists>w'. x = (w', l)"
  "0 < d \<Longrightarrow> wait (sched_logged env) d (w, l) = (b, x) \<Longrightarrow> \<exists>w'. x = (w', l @ [LogWait d])"
  "execute (sched_logged env) (w, l) = (Inl e, x) \<Longrightarrow> \<exists>w' r. x = (w', l @ [LogJob r]) \<and> Result_Validate r \<noteq> None \<and> e = SchedErrInvalidResult"
  "execute (sched_logged env) (w, l) = (Inr r, x) \<Longrightarrow> \<exists>w'. x = (w', l @ [LogJob r]) \<and> Result_Validate r = None"
  by (auto simp: sched_logged_def wait_def execute_def split: prod.splits if_splits)

lemma emit_logged:
  "\<exists>w' es. emit (sched_logged env) e (w, l) = (w', l @ map LogEvent es) \<and> (\<forall>e \<in> set es. Event_Validate e = None)"
proof (cases "Event_Validate e = None")
  case True
  then show ?thesis by (intro exI [of _ "env_Observe env e w"] exI [of _ "[e]"]) (simp add: emit_def sched_logged_def)
next
  case False
  then show ?thesis by (intro exI [of _ w] exI [of _ "[]"]) (auto simp: emit_def)
qed

lemma executeCycle_loop_spec:
  assumes "validRetry (sc_retry s)"
  shows "1 \<le> attempt \<Longrightarrow> attempt \<le> rp_MaxAttempts (sc_retry s) \<Longrightarrow>
    executeCycle_loop (sched_logged env) s hadFailure attempt (w, log) = (err, w', log') \<Longrightarrow>
    \<exists>l. log' = log @ l \<and> cycle_spec (sc_retry s) attempt err l"
proof (induction "nat (rp_MaxAttempts (sc_retry s) - attempt)" arbitrary: hadFailure attempt w log rule: less_induct)
  case less
  note bound = less.prems(2)
  note run = less.prems(3) [unfolded executeCycle_loop.simps [of "sched_logged env" s hadFailure attempt]]
  obtain res x1 where ex: "execute (sched_logged env) (w, log) = (res, x1)" by (rule prod.exhaust)
  show ?case
  proof (cases res)
    case (Inl e)
    then obtain w1 r where r: "x1 = (w1, log @ [LogJob r])" "Result_Validate r \<noteq> None" "e = SchedErrInvalidResult"
      using sched_logged_calls(4) [OF ex [unfolded Inl]] by blast
    have "err = Some e" "log' = log @ [LogJob r]" using run bound ex Inl r(1) by simp_all
    then show ?thesis using bound r cycle_spec_end [of attempt "sc_retry s" err r "[]"] by auto
  next
    case (Inr r)
    then obtain w1 where x1: "x1 = (w1, log @ [LogJob r])" and ok: "Result_Validate r = None"
      using sched_logged_calls(5) [OF ex [unfolded Inr]] by blast
    obtain ended x2 where ctx: "env_CtxErr (sched_logged env) x1 = (ended, x2)" by (rule prod.exhaust)
    then obtain w2 where x2: "x2 = (w2, log @ [LogJob r])" using sched_logged_calls(2) [OF ctx [unfolded x1]] by blast
    have stop: ?thesis if "err = None" "log' = log @ LogJob r # map LogEvent es" "\<forall>e \<in> set es. Event_Validate e = None" for es
      using that bound ok cycle_spec_end [of attempt "sc_retry s" err r es] by auto
    obtain now x3 where now: "env_Now (sched_logged env) x2 = (now, x3)" by (rule prod.exhaust)
    then obtain w3 where x3: "x3 = (w3, log @ [LogJob r])" using sched_logged_calls(1) [OF now [unfolded x2]] by blast
    consider (over) "ended \<or> res_Outcome r = OutcomeCancelled"
      | (good) "\<not> ended" "res_Outcome r = OutcomeSuccess"
      | (final) "\<not> ended" "res_Outcome r \<noteq> OutcomeCancelled" "res_Outcome r \<noteq> OutcomeSuccess" "\<not> res_Retryable r \<or> attempt = rp_MaxAttempts (sc_retry s)"
      | (again) "\<not> ended" "res_Outcome r \<noteq> OutcomeCancelled" "res_Outcome r \<noteq> OutcomeSuccess" "res_Retryable r" "attempt < rp_MaxAttempts (sc_retry s)"
      using bound by fastforce
    then show ?thesis
    proof cases
      case over
      then show ?thesis using run bound ex Inr ctx x2 by (intro stop [of "[]"]) simp_all
    next
      case good
      let ?e = "scheduler_event CodeSchedulerRecovered OutcomeRecovered SeverityInfo NoFailure now attempt"
      obtain w4 es where em: "emit (sched_logged env) ?e (w3, log @ [LogJob r]) = (w4, (log @ [LogJob r]) @ map LogEvent es)"
        "\<forall>e \<in> set es. Event_Validate e = None"
        using emit_logged [of env ?e w3 "log @ [LogJob r]"] by blast
      show ?thesis
      proof (cases hadFailure)
        case True
        then show ?thesis using run bound ex Inr ctx x2 good now x3 em by (intro stop [of es]) simp_all
      next
        case False
        then show ?thesis using run bound ex Inr ctx x2 good by (intro stop [of "[]"]) simp_all
      qed
    next
      case final
      then show ?thesis using run bound ex Inr ctx x2 by (intro stop [of "[]"]) auto
    next
      case again
      let ?e = "scheduler_event CodeSchedulerRetry OutcomeRetrying SeverityWarning (res_Failure r) now (attempt + 1)"
      let ?d = "scheduler_retryDelay (sc_retry s) attempt"
      obtain w4 es where em: "emit (sched_logged env) ?e x3 = (w4, (log @ [LogJob r]) @ map LogEvent es)"
        and es: "\<forall>e \<in> set es. Event_Validate e = None"
        using emit_logged [of env ?e w3 "log @ [LogJob r]"] unfolding x3 by blast
      have "0 < ?d" using assms less.prems(1) by (auto simp: scheduler_retryDelay_def validRetry_def retryDelay_loop_min Let_def)
      obtain fired x5 where wt: "wait (sched_logged env) ?d (w4, (log @ [LogJob r]) @ map LogEvent es) = (fired, x5)" by (rule prod.exhaust)
      then obtain w5 where x5: "x5 = (w5, ((log @ [LogJob r]) @ map LogEvent es) @ [LogWait ?d])"
        using sched_logged_calls(3) [OF \<open>0 < ?d\<close> wt] by blast
      have ret: "retried r" using again ok by (simp add: retried_def)
      show ?thesis
      proof (cases fired)
        case False
        then have "err = None" "log' = log @ (LogJob r # map LogEvent es @ [LogWait ?d])"
          using run bound ex Inr ctx x2 again now em wt x5 by simp_all
        then show ?thesis using cycle_spec_stop [OF bound ok es] by blast
      next
        case True
        then have rec: "executeCycle_loop (sched_logged env) s True (attempt + 1) (w5, log @ LogJob r # map LogEvent es @ [LogWait ?d]) = (err, w', log')"
          using run bound ex Inr ctx x2 again now em wt x5 by simp
        have "nat (rp_MaxAttempts (sc_retry s) - (attempt + 1)) < nat (rp_MaxAttempts (sc_retry s) - attempt)" using again by simp
        from less.hyps [OF this _ _ rec] obtain l where l: "log' = (log @ LogJob r # map LogEvent es @ [LogWait ?d]) @ l"
          "cycle_spec (sc_retry s) (attempt + 1) err l" using again less.prems(1) by auto
        then show ?thesis using cycle_spec_step [OF ret es l(2)] by (intro exI [of _ "LogJob r # map LogEvent es @ LogWait ?d # l"]) simp
      qed
    qed
  qed
qed

text \<open>
  C28. A cycle of a scheduler with a valid policy, for every behaviour of job, clock and context: the
  job runs at least once and at most \<^verbatim>\<open>MaxAttempts\<close> times, only a valid retryable result that is neither a
  success nor a cancellation is retried, the waits between the attempts are the backoffs of the first,
  second, ... failed attempt in order, the cycle fails exactly when the last result is not valid, and every
  event handed to the observer is valid.
\<close>

theorem executeCycle_bounded:
  assumes "validRetry (sc_retry s)" and "executeCycle (sched_logged env) s (w, []) = (err, w', log)"
    and "rs = concat (map entry_job log)" and "ws = concat (map entry_wait log)"
  shows "rs \<noteq> [] \<and> int (length rs) \<le> rp_MaxAttempts (sc_retry s) \<and>
    (\<forall>r \<in> set (butlast rs). Result_Validate r = None \<and> res_Retryable r \<and> res_Outcome r \<notin> {OutcomeSuccess, OutcomeCancelled}) \<and>
    ws = map (\<lambda>i. scheduler_retryDelay (sc_retry s) (1 + int i)) [0..<length ws] \<and> length ws \<in> {length rs - 1, length rs} \<and>
    err = (if Result_Validate (last rs) = None then None else Some SchedErrInvalidResult) \<and>
    (\<forall>e \<in> set (concat (map entry_event log)). Event_Validate e = None)"
proof -
  have "1 \<le> rp_MaxAttempts (sc_retry s)" using assms(1) by (simp add: validRetry_def)
  from executeCycle_loop_spec [OF assms(1) _ this assms(2) [unfolded executeCycle_def]]
  have "cycle_spec (sc_retry s) 1 err log" by auto
  then show ?thesis unfolding cycle_spec_def Let_def assms(3,4) retried_def by simp
qed

definition sample_scheduler :: Scheduler where
  "sample_scheduler = \<lparr>sc_interval = hour, sc_startupJitter = 0, sc_runImmediately = True,
     sc_retry = \<lparr>rp_MaxAttempts = 2, rp_InitialBackoff = second, rp_MaxBackoff = minute\<rparr>\<rparr>"

definition sample_failure :: ops_Result where
  "sample_failure = \<lparr>res_Outcome = OutcomeFailed, res_Failure = FailureLAPI, res_Retryable = True, res_StartedAt = second,
     res_CompletedAt = second, res_Counts = zero_Counts, res_Feeds = []\<rparr>"

definition sample_env :: "unit sched_env" where
  "sample_env = \<lparr>env_Now = (\<lambda>w. (second, w)), env_Timer = (\<lambda>d w. (True, w)), env_CtxErr = (\<lambda>w. (False, w)),
     env_Int63n = (\<lambda>n w. (0, w)), env_Job = (\<lambda>w. (sample_failure, w)), env_Observe = (\<lambda>e w. w)\<rparr>"

theorem executeCycle_bounded_witness:
  "\<exists>err w log. executeCycle (sched_logged sample_env) sample_scheduler ((), []) = (err, w, log) \<and>
     concat (map entry_job log) \<noteq> [] \<and> length (concat (map entry_job log)) \<le> 2"
proof -
  obtain err w log where c: "executeCycle (sched_logged sample_env) sample_scheduler ((), []) = (err, w, log)"
    by (metis prod_cases3)
  have "validRetry (sc_retry sample_scheduler)" by (simp add: sample_scheduler_def validRetry_def go_time_defs)
  from executeCycle_bounded [OF this c refl refl] c show ?thesis by (auto simp: sample_scheduler_def)
qed

end
