(* ===== verification/Notify.thy ===== *)
theory Notify
  imports Ops
begin

text \<open>
  The package \<^verbatim>\<open>internal/notify\<close>, files \<^verbatim>\<open>notice.go\<close> (the notices and their validation) and \<^verbatim>\<open>manager.go\<close>
  (when a notice is sent). The manager works on interfaces: a state store, a transport, a clock and
  an observer; they are a record of functions on one world. Every exported method holds the mutex for
  its whole body, so a call is one step. A method that Go calls on a pointer to the state returns the
  state it leaves there.
\<close>

subsection \<open>Definitions: notices\<close>

datatype notify_Kind =
    KindStartup | KindFirstSuccess | KindRoutineSuccess | KindRepeatedFailure | KindRecovery
  | KindSuspiciousChange | KindStaleSync | OtherKind string

datatype notify_error = ErrInvalidNotice | ErrInvalidManager

record Notice =
  nt_Kind :: notify_Kind
  nt_Severity :: Severity
  nt_Feed :: string
  nt_Failure :: FailureCategory
  nt_Counts :: Counts
  nt_ConsecutiveFailures :: int
  nt_At :: gotime

definition Notice_Validate :: "Notice \<Rightarrow> notify_error option" where
  "Notice_Validate n =
     (if IsZero (nt_At n) \<or> \<not> validSeverity (nt_Severity n) \<or> Counts_Validate (nt_Counts n) \<noteq> None
         \<or> nt_ConsecutiveFailures n < 0 \<or> nt_ConsecutiveFailures n > 100
      then Some ErrInvalidNotice
      else if nt_Feed n \<noteq> [] \<and> \<not> ValidFeedName (nt_Feed n) then Some ErrInvalidNotice
      else if nt_Kind n \<in> {KindStartup, KindFirstSuccess, KindRoutineSuccess, KindStaleSync} then
        (if nt_Feed n \<noteq> [] \<or> nt_Failure n \<noteq> NoFailure \<or> nt_ConsecutiveFailures n \<noteq> 0 then Some ErrInvalidNotice else None)
      else if nt_Kind n = KindRepeatedFailure then
        (if \<not> ValidFailureCategory (nt_Failure n) \<or> nt_ConsecutiveFailures n < 1 then Some ErrInvalidNotice else None)
      else if nt_Kind n = KindRecovery then
        (if \<not> ValidFailureCategory (nt_Failure n) \<or> nt_ConsecutiveFailures n \<noteq> 0 then Some ErrInvalidNotice else None)
      else if nt_Kind n = KindSuspiciousChange then
        (if nt_Feed n = [] \<or> nt_Failure n \<noteq> NoFailure \<or> nt_ConsecutiveFailures n \<noteq> 0 then Some ErrInvalidNotice else None)
      else Some ErrInvalidNotice)"

subsection \<open>Definitions: persistent state\<close>

record StateKey =
  key_Kind :: notify_Kind
  key_Feed :: string

definition StateKey_Validate :: "StateKey \<Rightarrow> notify_error option" where
  "StateKey_Validate k =
     (if key_Kind k \<in> {KindStartup, KindFirstSuccess, KindRoutineSuccess, KindRepeatedFailure, KindRecovery, KindStaleSync} then
        (if key_Feed k \<noteq> [] then Some ErrInvalidManager else None)
      else if key_Kind k = KindSuspiciousChange then
        (if \<not> ValidFeedName (key_Feed k) then Some ErrInvalidManager else None)
      else Some ErrInvalidManager)"

record PersistentState =
  ps_Key :: StateKey
  ps_Failure :: FailureCategory
  ps_Feed :: string
  ps_ConsecutiveFailures :: int
  ps_Notified :: bool
  ps_RecoveryPending :: bool
  ps_Sent :: bool
  ps_LastAttempt :: gotime
  ps_UpdatedAt :: gotime

definition zero_State :: "StateKey \<Rightarrow> PersistentState" where
  "zero_State key =
     \<lparr>ps_Key = key, ps_Failure = NoFailure, ps_Feed = [], ps_ConsecutiveFailures = 0, ps_Notified = False,
      ps_RecoveryPending = False, ps_Sent = False, ps_LastAttempt = time_zero, ps_UpdatedAt = time_zero\<rparr>"

definition State_Validate :: "PersistentState \<Rightarrow> notify_error option" where
  "State_Validate s =
     (if StateKey_Validate (ps_Key s) \<noteq> None \<or> ps_ConsecutiveFailures s < 0 \<or> ps_ConsecutiveFailures s > 100
      then Some ErrInvalidManager
      else if ps_Feed s \<noteq> [] \<and> \<not> ValidFeedName (ps_Feed s) then Some ErrInvalidManager
      else if ps_Failure s \<noteq> NoFailure \<and> \<not> ValidFailureCategory (ps_Failure s) then Some ErrInvalidManager
      else if (ps_ConsecutiveFailures s > 0 \<or> ps_Notified s \<or> ps_RecoveryPending s) \<and>
          (key_Kind (ps_Key s) \<noteq> KindRepeatedFailure \<or> \<not> ValidFailureCategory (ps_Failure s))
      then Some ErrInvalidManager
      else if \<not> IsZero (ps_LastAttempt s) \<and> IsZero (ps_UpdatedAt s) then Some ErrInvalidManager
      else None)"

subsection \<open>Definitions: the manager\<close>

record 's notify_env =
  ne_Load :: "StateKey \<Rightarrow> 's \<Rightarrow> (unit, PersistentState option) result \<times> 's"
  ne_Save :: "PersistentState \<Rightarrow> 's \<Rightarrow> bool \<times> 's"
  ne_Send :: "Notice \<Rightarrow> 's \<Rightarrow> bool \<times> 's"
  ne_Now :: "'s \<Rightarrow> gotime \<times> 's"
  ne_Observe :: "Event \<Rightarrow> 's \<Rightarrow> 's"

record Manager =
  m_enabled :: bool
  m_closed :: bool
  m_minimumSeverity :: Severity
  m_failureThreshold :: int
  m_cooldown :: duration
  m_recoveryNotifications :: bool
  m_suspiciousChangeNotifications :: bool
  m_staleSyncNotifications :: bool
  m_startupNotification :: bool
  m_firstSuccessNotification :: bool
  m_routineSuccessNotification :: bool

definition NewManager :: "Manager \<Rightarrow> (notify_error, Manager) result" where
  "NewManager options =
     (if \<not> validSeverity (m_minimumSeverity options) \<or> m_failureThreshold options < 1
         \<or> m_failureThreshold options > 100 \<or> m_cooldown options \<le> 0 \<or> m_cooldown options > 30 * 24 * hour
      then Inl ErrInvalidManager
      else Inr (options\<lparr>m_closed := False\<rparr>))"

fun severityRank :: "Severity \<Rightarrow> int" where
  "severityRank SeverityInfo = 1"
| "severityRank SeverityWarning = 2"
| "severityRank SeverityError = 3"
| "severityRank (OtherSeverity s) = 0"

definition allowedSeverity :: "Manager \<Rightarrow> Severity \<Rightarrow> bool" where
  "allowedSeverity m value = (severityRank value \<ge> severityRank (m_minimumSeverity m))"

definition manager_event :: "'s notify_env \<Rightarrow> Notice \<Rightarrow> Outcome \<Rightarrow> FailureCategory \<Rightarrow> 's \<Rightarrow> Event \<times> 's" where
  "manager_event env notice outcome failure s =
     (case ne_Now env s of (at, s1) \<Rightarrow>
        let event = \<lparr>ev_Code = CodeNotificationResult, ev_Operation = OperationNotification, ev_Feed = nt_Feed notice,
              ev_Outcome = outcome, ev_Severity = (if outcome = OutcomeFailed then SeverityError else nt_Severity notice),
              ev_Failure = failure, ev_At = at, ev_Duration = 0, ev_Attempt = 0, ev_Counts = zero_Counts\<rparr>
        in (event, if Event_Validate event = None then ne_Observe env event s1 else s1))"

definition mk_notice :: "notify_Kind \<Rightarrow> Severity \<Rightarrow> string \<Rightarrow> FailureCategory \<Rightarrow> Counts \<Rightarrow> int \<Rightarrow> gotime \<Rightarrow> Notice" where
  "mk_notice kind severity feed failure counts consecutive at =
     \<lparr>nt_Kind = kind, nt_Severity = severity, nt_Feed = feed, nt_Failure = failure, nt_Counts = counts,
      nt_ConsecutiveFailures = consecutive, nt_At = at\<rparr>"

definition stateFailure :: "'s notify_env \<Rightarrow> string \<Rightarrow> 's \<Rightarrow> Event list \<times> 's" where
  "stateFailure env feed s =
     (case ne_Now env s of (at, s1) \<Rightarrow>
        (case manager_event env (mk_notice KindRepeatedFailure SeverityError feed FailureDatabase zero_Counts 1 at)
                OutcomeFailed FailureDatabase s1 of (event, s2) \<Rightarrow> ([event], s2)))"

definition manager_load :: "'s notify_env \<Rightarrow> StateKey \<Rightarrow> 's \<Rightarrow> (notify_error, PersistentState \<times> bool) result \<times> 's" where
  "manager_load env key s =
     (case ne_Load env key s of
        (Inl _, s1) \<Rightarrow> (Inl ErrInvalidManager, s1)
      | (Inr None, s1) \<Rightarrow> (Inr (zero_State key, False), s1)
      | (Inr (Some state), s1) \<Rightarrow>
          if ps_Key state \<noteq> key \<or> State_Validate state \<noteq> None then (Inl ErrInvalidManager, s1)
          else (Inr (state, True), s1))"

definition manager_save :: "'s notify_env \<Rightarrow> PersistentState \<Rightarrow> 's \<Rightarrow> (notify_error, unit) result \<times> PersistentState \<times> 's" where
  "manager_save env state s =
     (case ne_Now env s of (now, s1) \<Rightarrow>
        let state' = state\<lparr>ps_UpdatedAt := now\<rparr> in
        if State_Validate state' \<noteq> None then (Inl ErrInvalidManager, state', s1)
        else (case ne_Save env state' s1 of (ok, s2) \<Rightarrow>
          (if ok then Inr () else Inl ErrInvalidManager, state', s2)))"

definition withinCooldown :: "Manager \<Rightarrow> gotime \<Rightarrow> gotime \<Rightarrow> bool" where
  "withinCooldown m last_at now =
     (if IsZero last_at then False else if now < last_at then True else time_Sub now last_at < m_cooldown m)"

definition attempt :: "'s notify_env \<Rightarrow> Manager \<Rightarrow> Notice \<Rightarrow> PersistentState \<Rightarrow> (PersistentState \<Rightarrow> PersistentState) option \<Rightarrow> 's \<Rightarrow> Event list \<times> 's" where
  "attempt env m notice state onSuccess s =
     (if \<not> allowedSeverity m (nt_Severity notice) then ([], s)
      else case ne_Now env s of (now, s1) \<Rightarrow>
        if withinCooldown m (ps_LastAttempt state) now then ([], s1)
        else (case manager_save env (state\<lparr>ps_LastAttempt := now\<rparr>) s1 of
            (Inl _, _, s2) \<Rightarrow> stateFailure env (nt_Feed notice) s2
          | (Inr _, state2, s2) \<Rightarrow>
              (case ne_Send env notice s2 of (sent, s3) \<Rightarrow>
                 if \<not> sent then
                   (case manager_event env notice OutcomeFailed FailureNotification s3 of (event, s4) \<Rightarrow> ([event], s4))
                 else (case onSuccess of
                     None \<Rightarrow> (case manager_event env notice OutcomeSuccess NoFailure s3 of (event, s4) \<Rightarrow> ([event], s4))
                   | Some f \<Rightarrow>
                       (case manager_save env (f state2) s3 of
                          (Inl _, _, s4) \<Rightarrow> stateFailure env (nt_Feed notice) s4
                        | (Inr _, _, s4) \<Rightarrow>
                            (case manager_event env notice OutcomeSuccess NoFailure s4 of (event, s5) \<Rightarrow> ([event], s5)))))))"

definition failedFeed :: "ops_Result \<Rightarrow> string" where
  "failedFeed r =
     (case find (\<lambda>feed. (fr_Outcome feed = OutcomeFailed \<or> fr_Outcome feed = OutcomeDegraded) \<and> fr_Failure feed = res_Failure r) (res_Feeds r) of
        None \<Rightarrow> [] | Some feed \<Rightarrow> fr_Name feed)"

definition failure_key :: StateKey where
  "failure_key = \<lparr>key_Kind = KindRepeatedFailure, key_Feed = []\<rparr>"

definition count_failure :: "ops_Result \<Rightarrow> PersistentState \<Rightarrow> PersistentState" where
  "count_failure r state =
     (if ps_Failure state \<noteq> res_Failure r \<or> ps_Feed state \<noteq> failedFeed r \<or> ps_RecoveryPending state
      then (zero_State failure_key)\<lparr>ps_Failure := res_Failure r, ps_Feed := failedFeed r, ps_ConsecutiveFailures := 1\<rparr>
      else if ps_ConsecutiveFailures state < 100 then state\<lparr>ps_ConsecutiveFailures := ps_ConsecutiveFailures state + 1\<rparr>
      else state)"

definition handleFailure :: "'s notify_env \<Rightarrow> Manager \<Rightarrow> ops_Result \<Rightarrow> 's \<Rightarrow> Event list \<times> 's" where
  "handleFailure env m r s =
     (case manager_load env failure_key s of
        (Inl _, s1) \<Rightarrow> stateFailure env (failedFeed r) s1
      | (Inr (state, _), s1) \<Rightarrow>
          (case manager_save env (count_failure r state) s1 of
             (Inl _, _, s2) \<Rightarrow> stateFailure env (failedFeed r) s2
           | (Inr _, state2, s2) \<Rightarrow>
               if ps_Notified state2 \<or> ps_ConsecutiveFailures state2 < m_failureThreshold m then ([], s2)
               else (case ne_Now env s2 of (at, s3) \<Rightarrow>
                 attempt env m (mk_notice KindRepeatedFailure SeverityWarning (failedFeed r) (res_Failure r) zero_Counts
                   (ps_ConsecutiveFailures state2) at) state2 (Some (\<lambda>current. current\<lparr>ps_Notified := True\<rparr>)) s3)))"

definition send_recovery :: "'s notify_env \<Rightarrow> Manager \<Rightarrow> PersistentState \<Rightarrow> 's \<Rightarrow> Event list \<times> 's" where
  "send_recovery env m state s =
     (case ne_Now env s of (at, s1) \<Rightarrow>
        attempt env m (mk_notice KindRecovery SeverityInfo (ps_Feed state) (ps_Failure state) zero_Counts 0 at) state
          (Some (\<lambda>_. zero_State failure_key)) s1)"

definition clearFailure :: "'s notify_env \<Rightarrow> Manager \<Rightarrow> 's \<Rightarrow> Event list \<times> 's" where
  "clearFailure env m s =
     (case manager_load env failure_key s of
        (Inl _, s1) \<Rightarrow> stateFailure env [] s1
      | (Inr (state, found), s1) \<Rightarrow>
          if \<not> found \<or> (ps_ConsecutiveFailures state = 0 \<and> \<not> ps_Notified state \<and> \<not> ps_RecoveryPending state) then ([], s1)
          else if \<not> m_recoveryNotifications m \<or> (\<not> ps_Notified state \<and> \<not> ps_RecoveryPending state) then
            (case manager_save env (zero_State failure_key) s1 of
               (Inl _, _, s2) \<Rightarrow> stateFailure env [] s2
             | (Inr _, _, s2) \<Rightarrow> ([], s2))
          else if \<not> ps_RecoveryPending state then
            (case manager_save env (state\<lparr>ps_RecoveryPending := True, ps_Notified := False,
                    ps_ConsecutiveFailures := 0, ps_LastAttempt := time_zero\<rparr>) s1 of
               (Inl _, state2, s2) \<Rightarrow> stateFailure env (ps_Feed state2) s2
             | (Inr _, state2, s2) \<Rightarrow> send_recovery env m state2 s2)
          else send_recovery env m state s1)"

definition clearStale :: "'s notify_env \<Rightarrow> 's \<Rightarrow> Event list \<times> 's" where
  "clearStale env s =
     (let key = \<lparr>key_Kind = KindStaleSync, key_Feed = []\<rparr> in
      case manager_load env key s of
        (Inl _, s1) \<Rightarrow> stateFailure env [] s1
      | (Inr (state, found), s1) \<Rightarrow>
          if \<not> found \<or> (\<not> ps_Sent state \<and> IsZero (ps_LastAttempt state)) then ([], s1)
          else (case manager_save env (zero_State key) s1 of
              (Inl _, _, s2) \<Rightarrow> stateFailure env [] s2
            | (Inr _, _, s2) \<Rightarrow> ([], s2)))"

text \<open>A notice whose state changes only by the time of the attempt, or is marked as sent.\<close>

definition plain_attempt :: "'s notify_env \<Rightarrow> Manager \<Rightarrow> notify_Kind \<Rightarrow> Severity \<Rightarrow> string \<Rightarrow> Counts \<Rightarrow> PersistentState \<Rightarrow> bool \<Rightarrow> 's \<Rightarrow> Event list \<times> 's" where
  "plain_attempt env m kind severity feed counts state once s =
     (case ne_Now env s of (at, s1) \<Rightarrow>
        attempt env m (mk_notice kind severity feed NoFailure counts 0 at) state
          (if once then Some (\<lambda>current. current\<lparr>ps_Sent := True\<rparr>) else None) s1)"

definition successPolicy :: "'s notify_env \<Rightarrow> Manager \<Rightarrow> ops_Result \<Rightarrow> 's \<Rightarrow> Event list \<times> 's" where
  "successPolicy env m r s =
     (case manager_load env \<lparr>key_Kind = KindFirstSuccess, key_Feed = []\<rparr> s of
        (Inl _, s1) \<Rightarrow> stateFailure env [] s1
      | (Inr (first, found), s1) \<Rightarrow>
          if m_firstSuccessNotification m \<and> (\<not> found \<or> \<not> ps_Sent first)
          then plain_attempt env m KindFirstSuccess SeverityInfo [] zero_Counts first True s1
          else if \<not> m_routineSuccessNotification m then ([], s1)
          else (case manager_load env \<lparr>key_Kind = KindRoutineSuccess, key_Feed = []\<rparr> s1 of
              (Inl _, s2) \<Rightarrow> stateFailure env [] s2
            | (Inr (state, _), s2) \<Rightarrow>
                plain_attempt env m KindRoutineSuccess SeverityInfo [] (res_Counts r) state False s2))"

definition notify_safeSynchronization :: "ops_Result \<Rightarrow> bool" where
  "notify_safeSynchronization r =
     (res_Outcome r = OutcomeSuccess \<or>
      (res_Outcome r = OutcomeDegraded \<and> (res_Failure r = FailureFeedDownload \<or> res_Failure r = FailureFeedValidation)))"

definition HandleSync :: "'s notify_env \<Rightarrow> Manager \<Rightarrow> ops_Result \<Rightarrow> 's \<Rightarrow> Event list \<times> 's" where
  "HandleSync env m r s =
     (if Result_Validate r \<noteq> None then ([], s)
      else if \<not> m_enabled m \<or> m_closed m then ([], s)
      else case (if notify_safeSynchronization r then clearStale env s else ([], s)) of (events, s1) \<Rightarrow>
        if res_Outcome r = OutcomeFailed \<or> res_Outcome r = OutcomeDegraded then
          (case handleFailure env m r s1 of (events', s2) \<Rightarrow> (events @ events', s2))
        else if res_Outcome r \<noteq> OutcomeSuccess then (events, s1)
        else (case clearFailure env m s1 of (events', s2) \<Rightarrow>
          (case successPolicy env m r s2 of (events'', s3) \<Rightarrow> (events @ events' @ events'', s3))))"

definition Startup :: "'s notify_env \<Rightarrow> Manager \<Rightarrow> 's \<Rightarrow> Event list \<times> 's" where
  "Startup env m s =
     (if \<not> m_enabled m \<or> m_closed m \<or> \<not> m_startupNotification m then ([], s)
      else case manager_load env \<lparr>key_Kind = KindStartup, key_Feed = []\<rparr> s of
        (Inl _, s1) \<Rightarrow> stateFailure env [] s1
      | (Inr (state, _), s1) \<Rightarrow> plain_attempt env m KindStartup SeverityInfo [] zero_Counts state False s1)"

definition SuspiciousChange :: "'s notify_env \<Rightarrow> Manager \<Rightarrow> string \<Rightarrow> Counts \<Rightarrow> 's \<Rightarrow> Event list \<times> 's" where
  "SuspiciousChange env m feed counts s =
     (if \<not> ValidFeedName feed \<or> Counts_Validate counts \<noteq> None then ([], s)
      else if \<not> m_enabled m \<or> m_closed m \<or> \<not> m_suspiciousChangeNotifications m then ([], s)
      else case manager_load env \<lparr>key_Kind = KindSuspiciousChange, key_Feed = feed\<rparr> s of
        (Inl _, s1) \<Rightarrow> stateFailure env feed s1
      | (Inr (state, _), s1) \<Rightarrow> plain_attempt env m KindSuspiciousChange SeverityWarning feed counts state False s1)"

definition StaleSync :: "'s notify_env \<Rightarrow> Manager \<Rightarrow> 's \<Rightarrow> Event list \<times> 's" where
  "StaleSync env m s =
     (if \<not> m_enabled m \<or> m_closed m \<or> \<not> m_staleSyncNotifications m then ([], s)
      else case manager_load env \<lparr>key_Kind = KindStaleSync, key_Feed = []\<rparr> s of
        (Inl _, s1) \<Rightarrow> stateFailure env [] s1
      | (Inr (state, _), s1) \<Rightarrow>
          if ps_Sent state then ([], s1)
          else plain_attempt env m KindStaleSync SeverityWarning [] zero_Counts state True s1)"

definition notify_Close :: "Manager \<Rightarrow> Manager" where
  "notify_Close m = m\<lparr>m_closed := True\<rparr>"

end
