(* ===== verification/Store_Notify.thy ===== *)
theory Store_Notify
  imports Store_Schema Notify
begin

text \<open>
  \<^verbatim>\<open>internal/state/notification_repository.go\<close>: the durable state of the notification manager, over the
  table \<^verbatim>\<open>notification_delivery_state\<close> of \<^verbatim>\<open>003_notification_failure_categories.sql\<close>. No other table refers to
  it, so it stands beside the database of the other repositories. The locale \<open>delivery_store\<close> states
  what the manager relies on of its store; the repository provides it, and the manager's counting of
  failures is proved over it once.
\<close>

subsection \<open>Definitions\<close>

record delivery_row =
  nd_kind :: notify_Kind
  nd_key_feed :: string
  nd_failure_category :: FailureCategory
  nd_state_feed :: string
  nd_consecutive_failures :: int
  nd_notified :: bool
  nd_recovery_pending :: bool
  nd_sent :: bool
  nd_last_attempt_at :: "int option"
  nd_updated_at :: int

definition delivery_key :: "delivery_row \<Rightarrow> notify_Kind \<times> string" where
  "delivery_key r = (nd_kind r, nd_key_feed r)"

text \<open>The CHECK constraints of the table that the validation of a state does not imply.\<close>

definition delivery_checks :: "delivery_row \<Rightarrow> bool" where
  "delivery_checks r \<longleftrightarrow>
     (case nd_last_attempt_at r of None \<Rightarrow> True | Some t \<Rightarrow> t \<ge> 0) \<and> nd_updated_at r > 0 \<and>
     (nd_kind r = KindRepeatedFailure \<or> nd_failure_category r = NoFailure \<and> nd_state_feed r = []) \<and>
     (nd_sent r \<longrightarrow> nd_kind r \<in> {KindFirstSuccess, KindStaleSync})"

definition scan_delivery :: "StateKey \<Rightarrow> delivery_row \<Rightarrow> PersistentState" where
  "scan_delivery key r =
     \<lparr>ps_Key = key, ps_Failure = nd_failure_category r, ps_Feed = nd_state_feed r,
      ps_ConsecutiveFailures = nd_consecutive_failures r, ps_Notified = nd_notified r,
      ps_RecoveryPending = nd_recovery_pending r, ps_Sent = nd_sent r,
      ps_LastAttempt = (case nd_last_attempt_at r of None \<Rightarrow> time_zero | Some t \<Rightarrow> time_Unix t),
      ps_UpdatedAt = time_Unix (nd_updated_at r)\<rparr>"

definition notify_Load :: "StateKey \<Rightarrow> delivery_row list \<Rightarrow> (ErrorCategory, PersistentState option) result" where
  "notify_Load key table =
     (if StateKey_Validate key \<noteq> None then Inl ErrConstraint
      else case row_at delivery_key table (key_Kind key, key_Feed key) of
        None \<Rightarrow> Inr None
      | Some r \<Rightarrow>
          if nd_updated_at r \<le> 0 then Inl ErrIntegrity
          else if (case nd_last_attempt_at r of None \<Rightarrow> False | Some t \<Rightarrow> t < 0) then Inl ErrIntegrity
          else let state = scan_delivery key r in
            if State_Validate state \<noteq> None then Inl ErrIntegrity else Inr (Some state))"

definition delivery_row_of :: "PersistentState \<Rightarrow> delivery_row" where
  "delivery_row_of state =
     \<lparr>nd_kind = key_Kind (ps_Key state), nd_key_feed = key_Feed (ps_Key state),
      nd_failure_category = ps_Failure state, nd_state_feed = ps_Feed state,
      nd_consecutive_failures = ps_ConsecutiveFailures state, nd_notified = ps_Notified state,
      nd_recovery_pending = ps_RecoveryPending state, nd_sent = ps_Sent state,
      nd_last_attempt_at = (if IsZero (ps_LastAttempt state) then None else Some (unix (ps_LastAttempt state))),
      nd_updated_at = unix (ps_UpdatedAt state)\<rparr>"

definition notify_Save :: "PersistentState \<Rightarrow> delivery_row list \<Rightarrow> (ErrorCategory, unit) result \<times> delivery_row list" where
  "notify_Save state table =
     (if State_Validate state \<noteq> None \<or> IsZero (ps_UpdatedAt state) then (Inl ErrConstraint, table)
      else let r = delivery_row_of state in
        if \<not> delivery_checks r then (Inl ErrQuery, table)
        else (Inr (), upsert delivery_key (delivery_key r) (\<lambda>x. r\<lparr>nd_kind := nd_kind x, nd_key_feed := nd_key_feed x\<rparr>) r table))"

text \<open>The manager on this repository: the world is the table and an outside part with the clock, the
  transport and the observer; the notices handed to the transport are kept in order.\<close>

record 'w delivery =
  dl_Send :: "Notice \<Rightarrow> 'w \<Rightarrow> bool \<times> 'w"
  dl_Now :: "'w \<Rightarrow> gotime \<times> 'w"
  dl_Observe :: "Event \<Rightarrow> 'w \<Rightarrow> 'w"

type_synonym 'w delivery_world = "delivery_row list \<times> Notice list \<times> 'w"

definition repository_env :: "'w delivery \<Rightarrow> 'w delivery_world notify_env" where
  "repository_env dl =
     \<lparr>ne_Load = (\<lambda>key (table, log, w). (case notify_Load key table of Inl _ \<Rightarrow> Inl () | Inr st \<Rightarrow> Inr st, table, log, w)),
      ne_Save = (\<lambda>state (table, log, w). case notify_Save state table of (res, table') \<Rightarrow>
        ((case res of Inl _ \<Rightarrow> False | Inr _ \<Rightarrow> True), table', log, w)),
      ne_Send = (\<lambda>notice (table, log, w). case dl_Send dl notice w of (ok, w') \<Rightarrow> (ok, table, log @ [notice], w')),
      ne_Now = (\<lambda>(table, log, w). case dl_Now dl w of (t, w') \<Rightarrow> (t, table, log, w')),
      ne_Observe = (\<lambda>event (table, log, w). (table, log, dl_Observe dl event w))\<rparr>"

subsection \<open>What the manager relies on\<close>

text \<open>A state as it is read back: times are stored in whole seconds.\<close>

definition stored_state :: "PersistentState \<Rightarrow> PersistentState" where
  "stored_state st =
     st\<lparr>ps_LastAttempt := (if IsZero (ps_LastAttempt st) then time_zero else time_Unix (unix (ps_LastAttempt st))),
        ps_UpdatedAt := time_Unix (unix (ps_UpdatedAt st))\<rparr>"

text \<open>What a store owes a state: it is valid, and the constraints of the table hold of it.\<close>

definition storable :: "PersistentState \<Rightarrow> bool" where
  "storable st \<longleftrightarrow> State_Validate st = None \<and> 0 < unix (ps_UpdatedAt st) \<and>
     (IsZero (ps_LastAttempt st) \<or> 0 \<le> unix (ps_LastAttempt st)) \<and>
     (key_Kind (ps_Key st) = KindRepeatedFailure \<or> ps_Failure st = NoFailure \<and> ps_Feed st = []) \<and>
     (ps_Sent st \<longrightarrow> key_Kind (ps_Key st) \<in> {KindFirstSuccess, KindStaleSync})"

locale delivery_store =
  fixes env :: "'s notify_env" and ok :: "'s \<Rightarrow> bool"
    and content :: "'s \<Rightarrow> StateKey \<Rightarrow> PersistentState option" and sent :: "'s \<Rightarrow> Notice list"
  assumes content_storable: "ok s \<Longrightarrow> content s key = Some st \<Longrightarrow> ps_Key st = key \<and> storable st"
    and load: "ok s \<Longrightarrow> StateKey_Validate key = None \<Longrightarrow> ne_Load env key s = (Inr (content s key), s)"
    and save: "ok s \<Longrightarrow> storable st \<Longrightarrow> \<exists>s'. ne_Save env st s = (True, s') \<and> ok s' \<and>
      content s' = (content s)(ps_Key st \<mapsto> stored_state st) \<and> sent s' = sent s"
    and send: "ne_Send env notice s = (b, s') \<Longrightarrow> (ok s \<longrightarrow> ok s') \<and> content s' = content s \<and> sent s' = sent s @ [notice]"
    and now: "ne_Now env s = (t, s') \<Longrightarrow> (ok s \<longrightarrow> ok s') \<and> content s' = content s \<and> sent s' = sent s"
    and observe: "s' = ne_Observe env event s \<Longrightarrow> (ok s \<longrightarrow> ok s') \<and> content s' = content s \<and> sent s' = sent s"

subsection \<open>The repository provides it\<close>

definition delivery_ok :: "delivery_row list \<Rightarrow> bool" where
  "delivery_ok table \<longleftrightarrow> distinct (map delivery_key table) \<and>
     (\<forall>r \<in> set table. delivery_checks r \<and>
        State_Validate (scan_delivery \<lparr>key_Kind = nd_kind r, key_Feed = nd_key_feed r\<rparr> r) = None)"

definition table_content :: "delivery_row list \<Rightarrow> StateKey \<Rightarrow> PersistentState option" where
  "table_content table key = map_option (scan_delivery key) (row_at delivery_key table (key_Kind key, key_Feed key))"

lemma IsZero_time_zero [simp]: "IsZero time_zero"
  by (simp add: IsZero_def)

lemma time_Unix_nonzero: "0 \<le> x \<Longrightarrow> \<not> IsZero (time_Unix x)"
  by (simp add: IsZero_def time_Unix_def time_zero_def second_def)

lemma scan_delivery_row_of: "key = ps_Key st \<Longrightarrow> scan_delivery key (delivery_row_of st) = stored_state st"
  by (cases st) (auto simp: scan_delivery_def delivery_row_of_def stored_state_def)

lemma State_Validate_None_iff:
  "State_Validate s = None \<longleftrightarrow> StateKey_Validate (ps_Key s) = None \<and> 0 \<le> ps_ConsecutiveFailures s \<and> ps_ConsecutiveFailures s \<le> 100 \<and>
     (ps_Feed s = [] \<or> ValidFeedName (ps_Feed s)) \<and> (ps_Failure s = NoFailure \<or> ValidFailureCategory (ps_Failure s)) \<and>
     (ps_ConsecutiveFailures s > 0 \<or> ps_Notified s \<or> ps_RecoveryPending s \<longrightarrow>
        key_Kind (ps_Key s) = KindRepeatedFailure \<and> ValidFailureCategory (ps_Failure s)) \<and>
     (IsZero (ps_LastAttempt s) \<or> \<not> IsZero (ps_UpdatedAt s))"
  by (auto simp: State_Validate_def)

lemma State_Validate_stored:
  assumes "storable st"
  shows "State_Validate (stored_state st) = None"
proof -
  have "\<not> IsZero (time_Unix (unix (ps_UpdatedAt st)))" using assms by (simp add: storable_def time_Unix_nonzero)
  then show ?thesis using assms unfolding State_Validate_None_iff storable_def by (simp add: stored_state_def)
qed

lemma delivery_checks_row_of: "storable st \<Longrightarrow> delivery_checks (delivery_row_of st)"
  by (auto simp: storable_def delivery_checks_def delivery_row_of_def)

lemma delivery_key_row_of [simp]: "delivery_key (delivery_row_of st) = (key_Kind (ps_Key st), key_Feed (ps_Key st))"
  by (simp add: delivery_key_def delivery_row_of_def)

lemma storable_saved:
  assumes "delivery_ok table" and "storable st"
  shows "\<exists>table'. notify_Save st table = (Inr (), table') \<and> delivery_ok table' \<and>
    table_content table' = (table_content table)(ps_Key st \<mapsto> stored_state st)"
proof -
  let ?r = "delivery_row_of st"
  let ?u = "\<lambda>x. ?r\<lparr>nd_kind := nd_kind x, nd_key_feed := nd_key_feed x\<rparr>"
  let ?t = "upsert delivery_key (delivery_key ?r) ?u ?r table"
  have "\<not> IsZero (ps_UpdatedAt st)"
    using assms(2) by (auto simp: storable_def IsZero_def unix_def time_zero_def second_def)
  then have "notify_Save st table = (Inr (), ?t)"
    using assms(2) delivery_checks_row_of by (simp add: notify_Save_def storable_def Let_def)
  moreover have key: "delivery_key (?u x) = delivery_key x" for x by (simp add: delivery_key_def)
  have same: "?u x = ?r" if "delivery_key x = delivery_key ?r" for x using that by (simp add: delivery_key_def delivery_row_of_def)
  have at: "row_at delivery_key ?t k = (if k = delivery_key ?r then Some ?r else row_at delivery_key table k)" for k
  proof (cases "row_at delivery_key table (delivery_key ?r)")
    case None
    then show ?thesis unfolding row_at_upsert [of delivery_key ?u, OF key refl] by simp
  next
    case (Some x)
    then show ?thesis using same row_at_Some_D [OF Some] unfolding row_at_upsert [of delivery_key ?u, OF key refl] by simp
  qed
  have "table_content ?t key = ((table_content table)(ps_Key st \<mapsto> stored_state st)) key" for key
  proof -
    have "(key_Kind key, key_Feed key) = delivery_key ?r \<longleftrightarrow> key = ps_Key st" by (auto intro: StateKey.equality)
    then show ?thesis unfolding table_content_def at by (simp add: scan_delivery_row_of)
  qed
  then have "table_content ?t = (table_content table)(ps_Key st \<mapsto> stored_state st)" ..
  moreover have "delivery_ok ?t"
    unfolding delivery_ok_def
  proof
    show "distinct (map delivery_key ?t)"
      using assms(1) by (intro distinct_upsert key) (simp_all add: delivery_ok_def)
    show "\<forall>r \<in> set ?t. delivery_checks r \<and> State_Validate (scan_delivery \<lparr>key_Kind = nd_kind r, key_Feed = nd_key_feed r\<rparr> r) = None"
    proof
    fix r assume "r \<in> set ?t"
    from set_upsert_cases [OF this] same have "r = ?r \<or> r \<in> set table" by blast
    moreover have "scan_delivery \<lparr>key_Kind = nd_kind ?r, key_Feed = nd_key_feed ?r\<rparr> ?r = stored_state st"
      by (rule scan_delivery_row_of) (simp add: delivery_row_of_def)
    ultimately show "delivery_checks r \<and> State_Validate (scan_delivery \<lparr>key_Kind = nd_kind r, key_Feed = nd_key_feed r\<rparr> r) = None"
      using assms(1) delivery_checks_row_of [OF assms(2)] State_Validate_stored [OF assms(2)] unfolding delivery_ok_def by auto
    qed
  qed
  ultimately show ?thesis by blast
qed

lemma table_content_storable:
  assumes "delivery_ok table" and "table_content table key = Some st"
  shows "ps_Key st = key \<and> storable st"
proof -
  obtain r where r: "row_at delivery_key table (key_Kind key, key_Feed key) = Some r" "st = scan_delivery key r"
    using assms(2) by (auto simp: table_content_def)
  then have m: "r \<in> set table" "delivery_key r = (key_Kind key, key_Feed key)" using row_at_Some_D by metis+
  then have "\<lparr>key_Kind = nd_kind r, key_Feed = nd_key_feed r\<rparr> = key" by (simp add: delivery_key_def)
  then have "delivery_checks r" "State_Validate st = None" using assms(1) m(1) r(2) by (auto simp: delivery_ok_def)
  moreover have "nd_kind r = key_Kind key" using m(2) by (simp add: delivery_key_def)
  ultimately show ?thesis
    using r(2) by (auto simp: storable_def delivery_checks_def scan_delivery_def split: option.splits)
qed

lemma notify_Load_content:
  assumes "delivery_ok table" and "StateKey_Validate key = None"
  shows "notify_Load key table = Inr (table_content table key)"
proof (cases "row_at delivery_key table (key_Kind key, key_Feed key)")
  case None
  then show ?thesis using assms by (simp add: notify_Load_def table_content_def)
next
  case (Some r)
  then have c: "table_content table key = Some (scan_delivery key r)" by (simp add: table_content_def)
  have "delivery_checks r" using assms(1) row_at_Some_D [OF Some] by (auto simp: delivery_ok_def)
  moreover have "State_Validate (scan_delivery key r) = None"
    using table_content_storable [OF assms(1) c] by (simp add: storable_def)
  ultimately show ?thesis using Some assms(2) by (auto simp: notify_Load_def c delivery_checks_def Let_def split: option.splits)
qed

interpretation repository: delivery_store "repository_env dl" "\<lambda>s. delivery_ok (fst s)" "\<lambda>s. table_content (fst s)" "\<lambda>s. fst (snd s)"
  for dl :: "'w delivery"
proof
  fix s s' :: "'w delivery_world"
  show "delivery_ok (fst s) \<Longrightarrow> table_content (fst s) key = Some st \<Longrightarrow> ps_Key st = key \<and> storable st" for key st
    by (rule table_content_storable)
  show "delivery_ok (fst s) \<Longrightarrow> StateKey_Validate key = None \<Longrightarrow>
      ne_Load (repository_env dl) key s = (Inr (table_content (fst s) key), s)" for key
    by (cases s) (simp add: repository_env_def notify_Load_content)
  show "delivery_ok (fst s) \<Longrightarrow> storable st \<Longrightarrow> \<exists>s'. ne_Save (repository_env dl) st s = (True, s') \<and> delivery_ok (fst s') \<and>
      table_content (fst s') = (table_content (fst s))(ps_Key st \<mapsto> stored_state st) \<and> fst (snd s') = fst (snd s)" for st
    using storable_saved [of "fst s" st] by (cases s) (auto simp: repository_env_def)
  show "ne_Send (repository_env dl) notice s = (b, s') \<Longrightarrow> (delivery_ok (fst s) \<longrightarrow> delivery_ok (fst s')) \<and>
      table_content (fst s') = table_content (fst s) \<and> fst (snd s') = fst (snd s) @ [notice]" for notice b
    by (cases s) (auto simp: repository_env_def split: prod.splits)
  show "ne_Now (repository_env dl) s = (t, s') \<Longrightarrow> (delivery_ok (fst s) \<longrightarrow> delivery_ok (fst s')) \<and>
      table_content (fst s') = table_content (fst s) \<and> fst (snd s') = fst (snd s)" for t
    by (cases s) (auto simp: repository_env_def split: prod.splits)
  show "s' = ne_Observe (repository_env dl) event s \<Longrightarrow> (delivery_ok (fst s) \<longrightarrow> delivery_ok (fst s')) \<and>
      table_content (fst s') = table_content (fst s) \<and> fst (snd s') = fst (snd s)" for event
    by (cases s) (auto simp: repository_env_def)
qed

end
