(* ===== verification/Notify_History.thy ===== *)
theory Notify_History
  imports Store_Notify
begin

text \<open>
  The manager of \<^verbatim>\<open>internal/notify\<close> on its durable state: what one call does, proved once for every store
  that keeps the contract \<open>delivery_store\<close>, and the properties it gives on the repository of
  \<^verbatim>\<open>internal/state\<close> for a whole history of synchronizations.
\<close>

subsection \<open>The count of consecutive failures\<close>

text \<open>The run of failures a stored state stands for, and what one result makes of a run.\<close>

definition failure_run :: "PersistentState option \<Rightarrow> (FailureCategory \<times> string \<times> int) option" where
  "failure_run c =
     (case c of
        None \<Rightarrow> None
      | Some st \<Rightarrow> if ps_ConsecutiveFailures st = 0 \<or> ps_RecoveryPending st then None
          else Some (ps_Failure st, ps_Feed st, ps_ConsecutiveFailures st))"

definition run_step :: "ops_Result \<Rightarrow> (FailureCategory \<times> string \<times> int) option \<Rightarrow> (FailureCategory \<times> string \<times> int) option" where
  "run_step r run =
     (if res_Outcome r \<in> {OutcomeFailed, OutcomeDegraded} then
        (case run of
           Some (failure, feed, n) \<Rightarrow>
             if failure = res_Failure r \<and> feed = failedFeed r then Some (failure, feed, min 100 (n + 1))
             else Some (res_Failure r, failedFeed r, 1)
         | None \<Rightarrow> Some (res_Failure r, failedFeed r, 1))
      else if res_Outcome r = OutcomeSuccess then None
      else run)"

text \<open>A state that can be saved at any time after the epoch.\<close>

definition savable :: "PersistentState \<Rightarrow> bool" where
  "savable st \<longleftrightarrow> StateKey_Validate (ps_Key st) = None \<and> 0 \<le> ps_ConsecutiveFailures st \<and> ps_ConsecutiveFailures st \<le> 100 \<and>
     (ps_Feed st = [] \<or> ValidFeedName (ps_Feed st)) \<and> (ps_Failure st = NoFailure \<or> ValidFailureCategory (ps_Failure st)) \<and>
     (ps_ConsecutiveFailures st > 0 \<or> ps_Notified st \<or> ps_RecoveryPending st \<longrightarrow>
        key_Kind (ps_Key st) = KindRepeatedFailure \<and> ValidFailureCategory (ps_Failure st)) \<and>
     (IsZero (ps_LastAttempt st) \<or> 0 \<le> unix (ps_LastAttempt st)) \<and>
     (key_Kind (ps_Key st) = KindRepeatedFailure \<or> ps_Failure st = NoFailure \<and> ps_Feed st = []) \<and>
     (ps_Sent st \<longrightarrow> key_Kind (ps_Key st) \<in> {KindFirstSuccess, KindStaleSync})"

lemma unix_pos_nonzero: "0 < unix t \<Longrightarrow> \<not> IsZero t"
  by (auto simp: IsZero_def unix_def time_zero_def second_def)

lemma savable_storable: "savable st \<Longrightarrow> 0 < unix t \<Longrightarrow> storable (st\<lparr>ps_UpdatedAt := t\<rparr>)"
  by (simp add: savable_def storable_def State_Validate_None_iff unix_pos_nonzero)

lemma storable_savable: "storable st \<Longrightarrow> savable st"
  by (simp add: savable_def storable_def State_Validate_None_iff)

lemma savable_zero: "StateKey_Validate key = None \<Longrightarrow> savable (zero_State key)"
  by (simp add: savable_def zero_State_def)

lemma savable_attempt: "savable st \<Longrightarrow> 0 < unix t \<Longrightarrow> savable (st\<lparr>ps_LastAttempt := t\<rparr>)"
  by (simp add: savable_def)

lemma savable_updated [simp]: "savable (st\<lparr>ps_UpdatedAt := t\<rparr>) = savable st"
  by (simp add: savable_def)

lemma key_valid [simp]:
  "StateKey_Validate failure_key = None" "StateKey_Validate \<lparr>key_Kind = KindStaleSync, key_Feed = []\<rparr> = None"
  "StateKey_Validate \<lparr>key_Kind = KindFirstSuccess, key_Feed = []\<rparr> = None"
  "StateKey_Validate \<lparr>key_Kind = KindRoutineSuccess, key_Feed = []\<rparr> = None"
  "StateKey_Validate \<lparr>key_Kind = KindStartup, key_Feed = []\<rparr> = None"
  by (simp_all add: StateKey_Validate_def failure_key_def)

lemma zero_State_key [simp]: "ps_Key (zero_State key) = key"
  by (simp add: zero_State_def)

lemma failedFeed_valid: "Result_Validate r = None \<Longrightarrow> failedFeed r = [] \<or> ValidFeedName (failedFeed r)"
  by (auto simp: failedFeed_def Result_Validate_None_iff FeedResult_valid_def find_Some_iff split: option.splits if_splits)

lemma failed_failure:
  "Result_Validate r = None \<Longrightarrow> res_Outcome r \<in> {OutcomeFailed, OutcomeDegraded} \<Longrightarrow> ValidFailureCategory (res_Failure r)"
  by (auto simp: Result_Validate_None_iff ValidFailureCategory_def)

lemma count_failure_savable:
  assumes "Result_Validate r = None" and "res_Outcome r \<in> {OutcomeFailed, OutcomeDegraded}" and "savable st" and "ps_Key st = failure_key"
  shows "savable (count_failure r st) \<and> ps_Key (count_failure r st) = failure_key \<and> \<not> ps_RecoveryPending (count_failure r st) \<and>
    failure_run (Some (count_failure r st)) = run_step r (failure_run (Some st))"
proof -
  have "ValidFailureCategory (res_Failure r)" using failed_failure assms(1,2) by blast
  then have f: "ValidFailureCategory (res_Failure r)" "res_Failure r \<noteq> NoFailure"
    by (auto simp: ValidFailureCategory_def validFailure_iff)
  show ?thesis
  proof (cases "ps_Failure st \<noteq> res_Failure r \<or> ps_Feed st \<noteq> failedFeed r \<or> ps_RecoveryPending st")
    case True
    then have "count_failure r st = (zero_State failure_key)\<lparr>ps_Failure := res_Failure r, ps_Feed := failedFeed r, ps_ConsecutiveFailures := 1\<rparr>"
      by (simp add: count_failure_def)
    then show ?thesis
      using True f assms(2) failedFeed_valid [OF assms(1)]
      by (auto simp: savable_def zero_State_def failure_run_def run_step_def) (simp_all add: failure_key_def)
  next
    case False
    then show ?thesis
      using assms f by (auto simp: count_failure_def savable_def failure_run_def run_step_def failure_key_def)
  qed
qed

lemma failure_run_stored [simp]: "failure_run (Some (stored_state st)) = failure_run (Some st)"
  by (simp add: failure_run_def stored_state_def)

lemma failure_run_updates [simp]:
  "failure_run (Some (st\<lparr>ps_UpdatedAt := t\<rparr>)) = failure_run (Some st)"
  "failure_run (Some (st\<lparr>ps_LastAttempt := t\<rparr>)) = failure_run (Some st)"
  "failure_run (Some (st\<lparr>ps_Notified := b\<rparr>)) = failure_run (Some st)"
  by (simp_all add: failure_run_def)


subsection \<open>What a history of notices must look like\<close>

text \<open>The failure of the last notice about repeated failures, and a list of notices each of which is right after those before it.\<close>

definition last_warned :: "Notice list \<Rightarrow> (FailureCategory \<times> string) option" where
  "last_warned log =
     (case filter (\<lambda>n. nt_Kind n = KindRepeatedFailure) (rev log) of
        [] \<Rightarrow> None
      | n # _ \<Rightarrow> Some (nt_Failure n, nt_Feed n))"

fun notices :: "(Notice list \<Rightarrow> Notice \<Rightarrow> bool) \<Rightarrow> Notice list \<Rightarrow> Notice list \<Rightarrow> bool" where
  "notices P log [] = True"
| "notices P log (n # ns) = (P log n \<and> notices P (log @ [n]) ns)"

definition runs_of :: "ops_Result list \<Rightarrow> (FailureCategory \<times> string \<times> int) option" where
  "runs_of rs = foldl (\<lambda>run r. run_step r run) None rs"

text \<open>
  The notices a result may cause, by their kind: \<open>r\<close> is the result, \<open>run\<close> the run of failures that it extends,
  ends or leaves, \<open>log\<close> what was handed to the transport before.
\<close>

definition sync_notice :: "Manager \<Rightarrow> ops_Result \<Rightarrow> (FailureCategory \<times> string \<times> int) option \<Rightarrow> Notice list \<Rightarrow> Notice \<Rightarrow> bool" where
  "sync_notice m r run log n \<longleftrightarrow>
     Notice_Validate n = None \<and> allowedSeverity m (nt_Severity n) \<and>
     (case nt_Kind n of
        KindRepeatedFailure \<Rightarrow> res_Outcome r \<in> {OutcomeFailed, OutcomeDegraded} \<and> m_failureThreshold m \<le> nt_ConsecutiveFailures n \<and>
          run = Some (nt_Failure n, nt_Feed n, nt_ConsecutiveFailures n)
      | KindRecovery \<Rightarrow> res_Outcome r = OutcomeSuccess \<and> m_recoveryNotifications m \<and> last_warned log = Some (nt_Failure n, nt_Feed n)
      | KindFirstSuccess \<Rightarrow> res_Outcome r = OutcomeSuccess \<and> m_firstSuccessNotification m
      | KindRoutineSuccess \<Rightarrow> res_Outcome r = OutcomeSuccess \<and> m_routineSuccessNotification m \<and> nt_Counts n = res_Counts r
      | _ \<Rightarrow> False)"

text \<open>A stored state that says a failure was notified, or that its recovery is to be notified, is about the last failure in the log.\<close>

definition warned :: "PersistentState option \<Rightarrow> Notice list \<Rightarrow> bool" where
  "warned c log \<longleftrightarrow>
     (case c of
        None \<Rightarrow> True
      | Some st \<Rightarrow> ps_Notified st \<or> ps_RecoveryPending st \<longrightarrow> last_warned log = Some (ps_Failure st, ps_Feed st))"

text \<open>While a run of failures is below the threshold nothing was tried for it, so that no cooldown holds its first notice back.\<close>

definition untried :: "Manager \<Rightarrow> PersistentState option \<Rightarrow> bool" where
  "untried m c \<longleftrightarrow>
     (case c of
        None \<Rightarrow> True
      | Some st \<Rightarrow> \<not> ps_RecoveryPending st \<and> ps_ConsecutiveFailures st < m_failureThreshold m \<longrightarrow> IsZero (ps_LastAttempt st) \<and> \<not> ps_Notified st)"

lemma last_warned_snoc [simp]:
  "last_warned (log @ [n]) = (if nt_Kind n = KindRepeatedFailure then Some (nt_Failure n, nt_Feed n) else last_warned log)"
  by (simp add: last_warned_def)

lemma notices_append [simp]: "notices P log (xs @ ys) \<longleftrightarrow> notices P log xs \<and> notices P (log @ xs) ys"
  by (induction xs arbitrary: log) auto

lemma notices_mono: "notices P log ns \<Longrightarrow> (\<And>log n. P log n \<Longrightarrow> Q log n) \<Longrightarrow> notices Q log ns"
  by (induction ns arbitrary: log) auto

lemma notices_last_warned: "notices (\<lambda>log n. nt_Kind n \<noteq> KindRepeatedFailure) log ns \<Longrightarrow> last_warned (log @ ns) = last_warned log"
proof (induction ns arbitrary: log)
  case (Cons n ns)
  then have "last_warned ((log @ [n]) @ ns) = last_warned (log @ [n])" by (intro Cons.IH) simp
  then show ?case using Cons.prems by simp
qed simp

lemma warned_simps [simp]:
  "warned None log" "warned (Some (stored_state st)) log = warned (Some st) log"
  "warned (Some (st\<lparr>ps_UpdatedAt := t\<rparr>)) log = warned (Some st) log"
  "warned (Some (st\<lparr>ps_LastAttempt := t\<rparr>)) log = warned (Some st) log" "warned (Some (zero_State key)) log"
  by (simp_all add: warned_def stored_state_def zero_State_def)

lemma count_failure_warned: "warned (Some st) log \<Longrightarrow> warned (Some (count_failure r st)) log"
  by (auto simp: count_failure_def warned_def zero_State_def)

lemma untried_simps [simp]:
  "untried m None" "untried m (Some (st\<lparr>ps_UpdatedAt := t\<rparr>)) = untried m (Some st)" "untried m (Some (zero_State key))"
  by (simp_all add: untried_def zero_State_def)

lemma untried_stored: "untried m (Some st) \<Longrightarrow> untried m (Some (stored_state st))"
  by (simp add: untried_def stored_state_def)

lemma untried_pending: "ps_RecoveryPending st \<Longrightarrow> untried m (Some (stored_state st))"
  by (simp add: untried_def stored_state_def)

text \<open>The run of failures reaches the threshold with this result.\<close>

definition crosses :: "Manager \<Rightarrow> (FailureCategory \<times> string \<times> int) option \<Rightarrow> (FailureCategory \<times> string \<times> int) option \<Rightarrow> bool" where
  "crosses m old new \<longleftrightarrow> old \<noteq> new \<and> (\<exists>failure feed. new = Some (failure, feed, m_failureThreshold m))"

lemma count_failure_untried:
  assumes "untried m (Some st)" and "1 \<le> m_failureThreshold m"
  shows "untried m (Some (count_failure r st))"
  using assms by (auto simp: count_failure_def untried_def zero_State_def)

lemma count_failure_crosses:
  assumes "untried m (Some st)" and "crosses m (failure_run (Some st)) (failure_run (Some (count_failure r st)))"
    and "1 \<le> m_failureThreshold m"
  shows "IsZero (ps_LastAttempt (count_failure r st)) \<and> \<not> ps_Notified (count_failure r st)"
  using assms by (auto simp: count_failure_def untried_def zero_State_def crosses_def failure_run_def split: if_splits)

text \<open>A clock that has passed the epoch.\<close>

definition past_epoch :: "'s notify_env \<Rightarrow> bool" where
  "past_epoch env \<longleftrightarrow> (\<forall>s t s'. ne_Now env s = (t, s') \<longrightarrow> 0 < unix t)"

context delivery_store
begin

definition keeps :: "'s \<Rightarrow> 's \<Rightarrow> bool" where
  "keeps s s' \<longleftrightarrow> (ok s \<longrightarrow> ok s') \<and> content s' = content s \<and> sent s' = sent s"

lemma keeps_refl [simp]: "keeps s s"
  by (simp add: keeps_def)

lemma keeps_trans: "keeps s1 s2 \<Longrightarrow> keeps s2 s3 \<Longrightarrow> keeps s1 s3"
  by (simp add: keeps_def)

lemma keeps_now: "ne_Now env s = (t, s') \<Longrightarrow> keeps s s'"
  using now by (simp add: keeps_def)

lemma keeps_event: "keeps s (snd (manager_event env notice outcome failure s))"
  using now observe by (auto simp: manager_event_def keeps_def Let_def split: prod.splits)

lemma keeps_stateFailure: "keeps s (snd (stateFailure env feed s))"
proof -
  obtain t s1 where n: "ne_Now env s = (t, s1)" by (rule prod.exhaust)
  show ?thesis
    using keeps_trans [OF keeps_now [OF n] keeps_event] by (simp add: stateFailure_def n split: prod.splits) (metis snd_conv)
qed

lemma manager_load_ok:
  assumes "ok s" and "StateKey_Validate key = None"
  shows "manager_load env key s =
    (Inr (case content s key of None \<Rightarrow> (zero_State key, False) | Some st \<Rightarrow> (st, True)), s)"
proof -
  have "ps_Key st = key \<and> State_Validate st = None" if "content s key = Some st" for st
    using content_storable [OF assms(1) that] by (simp add: storable_def)
  then show ?thesis using load [OF assms] by (auto simp: manager_load_def split: option.splits)
qed

lemma loaded_savable:
  assumes "ok s" and "StateKey_Validate key = None"
    and "(case content s key of None \<Rightarrow> (zero_State key, False) | Some st \<Rightarrow> (st, True)) = (state, found)"
  shows "savable state \<and> ps_Key state = key"
  using assms content_storable [OF assms(1), of key]
  by (auto simp: savable_zero storable_savable split: option.splits)

lemma manager_save_ok:
  assumes "ok s" and "past_epoch env" and "savable st"
  obtains t s' where "manager_save env st s = (Inr (), st\<lparr>ps_UpdatedAt := t\<rparr>, s')" and "0 < unix t" and "ok s'"
    and "content s' = (content s)(ps_Key st \<mapsto> stored_state (st\<lparr>ps_UpdatedAt := t\<rparr>))" and "sent s' = sent s"
proof -
  obtain t s1 where n: "ne_Now env s = (t, s1)" by (rule prod.exhaust)
  then have t: "0 < unix t" using assms(2) by (auto simp: past_epoch_def)
  have k: "ok s1" "content s1 = content s" "sent s1 = sent s" using keeps_now [OF n] assms(1) by (simp_all add: keeps_def)
  have st: "storable (st\<lparr>ps_UpdatedAt := t\<rparr>)" by (rule savable_storable [OF assms(3) t])
  obtain s2 where s2: "ne_Save env (st\<lparr>ps_UpdatedAt := t\<rparr>) s1 = (True, s2)" "ok s2"
    "content s2 = (content s1)(ps_Key st \<mapsto> stored_state (st\<lparr>ps_UpdatedAt := t\<rparr>))" "sent s2 = sent s1"
    using save [OF k(1) st] by auto
  show thesis
    by (rule that [of t s2]) (use n s2 st k t in \<open>simp_all add: manager_save_def Let_def storable_def\<close>)
qed

lemma attempt_effect:
  assumes "ok s" and clock: "past_epoch env" and "savable state"
    and after: "\<And>f t u. onSuccess = Some f \<Longrightarrow> 0 < unix t \<Longrightarrow>
      savable (f (state\<lparr>ps_LastAttempt := t, ps_UpdatedAt := u\<rparr>)) \<and> ps_Key (f (state\<lparr>ps_LastAttempt := t, ps_UpdatedAt := u\<rparr>)) = ps_Key state"
    and run: "attempt env m notice state onSuccess s = (evs, s')"
    and Q0: "Q (content s (ps_Key state)) (sent s)"
    and Q1: "\<And>t u. Q (Some (stored_state (state\<lparr>ps_LastAttempt := t, ps_UpdatedAt := u\<rparr>))) (sent s @ [notice])"
    and Q2: "\<And>f t u v. onSuccess = Some f \<Longrightarrow>
      Q (Some (stored_state ((f (state\<lparr>ps_LastAttempt := t, ps_UpdatedAt := u\<rparr>))\<lparr>ps_UpdatedAt := v\<rparr>))) (sent s @ [notice])"
  shows "ok s' \<and> (\<forall>k. k \<noteq> ps_Key state \<longrightarrow> content s' k = content s k) \<and> Q (content s' (ps_Key state)) (sent s') \<and>
    (sent s' = sent s \<or> sent s' = sent s @ [notice] \<and> allowedSeverity m (nt_Severity notice)) \<and>
    (allowedSeverity m (nt_Severity notice) \<and> IsZero (ps_LastAttempt state) \<longrightarrow> sent s' = sent s @ [notice])"
proof (cases "allowedSeverity m (nt_Severity notice)")
  case False
  then show ?thesis using assms(1) run Q0 by (simp add: attempt_def)
next
  case sev: True
  obtain now s1 where n: "ne_Now env s = (now, s1)" by (rule prod.exhaust)
  have t: "0 < unix now" using clock n by (auto simp: past_epoch_def)
  have k1: "ok s1" "content s1 = content s" "sent s1 = sent s" using keeps_now [OF n] assms(1) by (simp_all add: keeps_def)
  show ?thesis
  proof (cases "withinCooldown m (ps_LastAttempt state) now")
    case True
    then have "\<not> IsZero (ps_LastAttempt state)" by (auto simp: withinCooldown_def)
    then show ?thesis using True run sev n k1 Q0 by (simp add: attempt_def)
  next
    case cool: False
    let ?st = "state\<lparr>ps_LastAttempt := now\<rparr>"
    have sav: "savable ?st" by (rule savable_attempt [OF assms(3) t])
    obtain u s2 where s2: "manager_save env ?st s1 = (Inr (), ?st\<lparr>ps_UpdatedAt := u\<rparr>, s2)" "ok s2"
      "content s2 = (content s1)(ps_Key ?st \<mapsto> stored_state (?st\<lparr>ps_UpdatedAt := u\<rparr>))" "sent s2 = sent s1"
      by (rule manager_save_ok [OF k1(1) clock sav])
    obtain b s3 where sd: "ne_Send env notice s2 = (b, s3)" by (rule prod.exhaust)
    have s3: "ok s3" "content s3 = content s2" "sent s3 = sent s @ [notice]" using send [OF sd] s2 k1 by simp_all
    have ev: "ok (snd (manager_event env notice outcome failure s4)) \<and> content (snd (manager_event env notice outcome failure s4)) = content s4 \<and>
      sent (snd (manager_event env notice outcome failure s4)) = sent s4" if "ok s4" for outcome failure s4
      using keeps_event [of s4 notice outcome failure] that by (simp add: keeps_def)
    show ?thesis
    proof (cases "b \<and> onSuccess \<noteq> None")
      case False
      then have "\<exists>outcome failure. s' = snd (manager_event env notice outcome failure s3)"
        using run sev n cool s2(1) sd by (cases b) (auto simp: attempt_def split_beta)
      then obtain outcome failure where "s' = snd (manager_event env notice outcome failure s3)" by blast
      then show ?thesis using ev [OF s3(1), of outcome failure] s3 s2(3) k1 sev by (simp add: Q1)
    next
      case True
      then obtain f where f: "onSuccess = Some f" by blast
      let ?g = "f (?st\<lparr>ps_UpdatedAt := u\<rparr>)"
      have g: "savable ?g" "ps_Key ?g = ps_Key state" using after [OF f t, of u] by simp_all
      obtain v s4 where s4: "manager_save env ?g s3 = (Inr (), ?g\<lparr>ps_UpdatedAt := v\<rparr>, s4)" "ok s4"
        "content s4 = (content s3)(ps_Key ?g \<mapsto> stored_state (?g\<lparr>ps_UpdatedAt := v\<rparr>))" "sent s4 = sent s3"
        by (rule manager_save_ok [OF s3(1) clock g(1)])
      have "s' = snd (manager_event env notice OutcomeSuccess NoFailure s4)"
        using run sev n cool s2(1) sd True f s4(1) by (auto simp: attempt_def split_beta)
      then show ?thesis using ev [OF s4(2), of OutcomeSuccess NoFailure] s4 s3 s2(3) k1 sev g(2) by (simp add: Q2 [OF f])
    qed
  qed
qed

definition sends :: "(Notice list \<Rightarrow> Notice \<Rightarrow> bool) \<Rightarrow> 's \<Rightarrow> 's \<Rightarrow> bool" where
  "sends P s s' \<longleftrightarrow> ok s' \<and> (\<exists>ns. sent s' = sent s @ ns \<and> notices P (sent s) ns)"

lemma sends_trans: "sends P s1 s2 \<Longrightarrow> sends P s2 s3 \<Longrightarrow> sends P s1 s3"
proof -
  assume a: "sends P s1 s2" and b: "sends P s2 s3"
  from a obtain xs where "sent s2 = sent s1 @ xs" "notices P (sent s1) xs" by (auto simp: sends_def)
  moreover from b obtain ys where "sent s3 = sent s2 @ ys" "notices P (sent s2) ys" by (auto simp: sends_def)
  ultimately show ?thesis using b unfolding sends_def by (intro conjI exI [of _ "xs @ ys"]) auto
qed

lemma sends_none: "ok s' \<Longrightarrow> sent s' = sent s \<Longrightarrow> sends P s s'"
  by (simp add: sends_def)

lemma sends_attempt:
  assumes "ok s'" and "sent s' = sent s \<or> sent s' = sent s @ [n] \<and> allowedSeverity m (nt_Severity n)"
    and "allowedSeverity m (nt_Severity n) \<Longrightarrow> P (sent s) n"
  shows "sends P s s'"
  using assms unfolding sends_def by (auto intro: exI [of _ "[]"] exI [of _ "[n]"])

lemma sends_mono: "sends P s s' \<Longrightarrow> (\<And>log n. P log n \<Longrightarrow> Q log n) \<Longrightarrow> sends Q s s'"
  unfolding sends_def using notices_mono by blast

lemma sends_from: "sent s = sent s0 \<Longrightarrow> sends P s s' \<Longrightarrow> sends P s0 s'"
  by (simp add: sends_def)

lemma sends_last_warned: "sends (\<lambda>log n. nt_Kind n \<noteq> KindRepeatedFailure) s s' \<Longrightarrow> last_warned (sent s') = last_warned (sent s)"
  by (auto simp: sends_def notices_last_warned)

definition tracks :: "Manager \<Rightarrow> (FailureCategory \<times> string \<times> int) option \<Rightarrow> 's \<Rightarrow> bool" where
  "tracks m run s \<longleftrightarrow>
     failure_run (content s failure_key) = run \<and> warned (content s failure_key) (sent s) \<and> untried m (content s failure_key)"

lemma handleFailure_run:
  assumes "ok s" and clock: "past_epoch env" and r: "Result_Validate r = None" "res_Outcome r \<in> {OutcomeFailed, OutcomeDegraded}"
    and w: "tracks m old_run s" and h: "handleFailure env m r s = (evs, s')"
    and m: "1 \<le> m_failureThreshold m"
  shows "tracks m (run_step r old_run) s' \<and> sends (sync_notice m r (run_step r old_run)) s s' \<and>
    (crosses m old_run (run_step r old_run) \<and> allowedSeverity m SeverityWarning \<longrightarrow> sent s' \<noteq> sent s)"
proof -
  obtain state found where l: "(case content s failure_key of None \<Rightarrow> (zero_State failure_key, False) | Some st \<Rightarrow> (st, True)) = (state, found)"
    by (rule prod.exhaust)
  have st: "savable state" "ps_Key state = failure_key" using loaded_savable [OF assms(1) key_valid(1) l] by simp_all
  have run: "failure_run (Some state) = old_run" "warned (Some state) (sent s)" "untried m (Some state)"
    using l w by (auto simp: failure_run_def zero_State_def tracks_def warned_def untried_def split: option.splits)
  let ?c = "count_failure r state"
  have c: "savable ?c" "ps_Key ?c = failure_key" "\<not> ps_RecoveryPending ?c"
    "failure_run (Some ?c) = run_step r old_run" "warned (Some ?c) (sent s)" "untried m (Some ?c)"
    using count_failure_savable [OF r st] count_failure_warned count_failure_untried [OF _ m] run by simp_all
  have crossed: "IsZero (ps_LastAttempt ?c) \<and> \<not> ps_Notified ?c \<and> ps_ConsecutiveFailures ?c = m_failureThreshold m"
    if "crosses m old_run (run_step r old_run)"
    using count_failure_crosses [OF run(3) _ m, of r] that c(4) run(1) by (auto simp: crosses_def failure_run_def split: if_splits)
  obtain t s2 where s2: "manager_save env ?c s = (Inr (), ?c\<lparr>ps_UpdatedAt := t\<rparr>, s2)" "ok s2"
    "content s2 = (content s)(failure_key \<mapsto> stored_state (?c\<lparr>ps_UpdatedAt := t\<rparr>))" "sent s2 = sent s"
    by (rule manager_save_ok [OF assms(1) clock c(1), unfolded c(2)])
  have run2: "tracks m (run_step r old_run) s2"
    using s2(3,4) c(4,5,6) by (simp add: tracks_def untried_stored)
  show ?thesis
  proof (cases "ps_Notified ?c \<or> ps_ConsecutiveFailures ?c < m_failureThreshold m")
    case True
    then have "s' = s2" using h s2(1) by (simp add: handleFailure_def manager_load_ok [OF assms(1) key_valid(1)] l)
    then show ?thesis using True crossed run2 s2 by (auto simp: sends_none)
  next
    case False
    obtain at s3 where n: "ne_Now env s2 = (at, s3)" by (rule prod.exhaust)
    have s3: "ok s3" "content s3 = content s2" "sent s3 = sent s" using keeps_now [OF n] s2 by (simp_all add: keeps_def)
    let ?n = "mk_notice KindRepeatedFailure SeverityWarning (failedFeed r) (res_Failure r) zero_Counts (ps_ConsecutiveFailures ?c) at"
    let ?f = "\<lambda>current. current\<lparr>ps_Notified := True\<rparr>"
    let ?st = "?c\<lparr>ps_UpdatedAt := t\<rparr>"
    have at: "attempt env m ?n ?st (Some ?f) s3 = (evs, s')"
      using h s2(1) n False by (simp add: handleFailure_def manager_load_ok [OF assms(1) key_valid(1)] l)
    have f: "ValidFailureCategory (res_Failure r)" using failed_failure r by blast
    have cf: "ps_Failure ?c = res_Failure r" "ps_Feed ?c = failedFeed r" by (auto simp: count_failure_def)
    have "run_step r old_run \<noteq> None" using r(2) by (auto simp: run_step_def split: option.splits)
    then have "failure_run (Some ?c) \<noteq> None" unfolding c(4) .
    then have "ps_ConsecutiveFailures ?c \<noteq> 0" by (auto simp: failure_run_def)
    then have pos: "ps_ConsecutiveFailures ?c \<ge> 1" using c(1) by (simp add: savable_def)
    let ?Q = "\<lambda>content log. failure_run content = run_step r old_run \<and> warned content log \<and> untried m content"
    have eff: "ok s' \<and> (\<forall>k. k \<noteq> ps_Key ?st \<longrightarrow> content s' k = content s3 k) \<and> ?Q (content s' (ps_Key ?st)) (sent s') \<and>
        (sent s' = sent s3 \<or> sent s' = sent s3 @ [?n] \<and> allowedSeverity m (nt_Severity ?n)) \<and>
      (allowedSeverity m (nt_Severity ?n) \<and> IsZero (ps_LastAttempt ?st) \<longrightarrow> sent s' = sent s3 @ [?n])"
    proof (rule attempt_effect [OF s3(1) clock _ _ at])
      show "savable ?st" using c(1) by simp
      show "savable (f (?st\<lparr>ps_LastAttempt := t, ps_UpdatedAt := u\<rparr>)) \<and> ps_Key (f (?st\<lparr>ps_LastAttempt := t, ps_UpdatedAt := u\<rparr>)) = ps_Key ?st"
        if "Some ?f = Some f" "0 < unix t" for f t u
        using that c(1,2) f cf by (auto simp: savable_def failure_key_def)
      show "?Q (content s3 (ps_Key ?st)) (sent s3)" using s3 run2 s2(4) c(2) by (simp add: tracks_def)
      show "?Q (Some (stored_state (?st\<lparr>ps_LastAttempt := t, ps_UpdatedAt := u\<rparr>))) (sent s3 @ [?n])" for t u
        using c(3,4) False by (auto simp: warned_def untried_def stored_state_def failure_run_def split: if_splits)
      show "?Q (Some (stored_state ((f (?st\<lparr>ps_LastAttempt := t, ps_UpdatedAt := u\<rparr>))\<lparr>ps_UpdatedAt := v\<rparr>))) (sent s3 @ [?n])"
        if "Some ?f = Some f" for f t u v
        using c(4) that cf False by (auto simp: warned_def untried_def mk_notice_def stored_state_def failure_run_def split: if_splits)
    qed
    have clk: "\<not> IsZero at" using clock n unix_pos_nonzero by (auto simp: past_epoch_def)
    have "Notice_Validate ?n = None"
      using f pos c(1) clk failedFeed_valid [OF r(1)]
      by (auto simp: Notice_Validate_def mk_notice_def validSeverity_def Counts_Validate_def savable_def)
    moreover have "run_step r old_run = Some (nt_Failure ?n, nt_Feed ?n, nt_ConsecutiveFailures ?n)"
      using c(3,4) cf pos by (simp add: mk_notice_def failure_run_def)
    ultimately have "sends (sync_notice m r (run_step r old_run)) s s'"
      using eff s3(3) False r(2) by (intro sends_attempt [of s' s ?n m]) (auto simp: sync_notice_def mk_notice_def)
    then show ?thesis using eff c(2) s3(3) crossed by (auto simp: tracks_def mk_notice_def)
  qed
qed

lemma send_recovery_run:
  assumes "ok s" and clock: "past_epoch env" and st: "savable state" "ps_Key state = failure_key" "ValidFailureCategory (ps_Failure state)"
    and cleared: "failure_run (Some state) = None" "tracks m None s" and w: "warned (Some state) (sent s)" "ps_RecoveryPending state"
    and on: "m_recoveryNotifications m" "res_Outcome r = OutcomeSuccess"
    and h: "send_recovery env m state s = (evs, s')"
  shows "tracks m None s' \<and> sends (sync_notice m r None) s s'"
proof -
  obtain at s1 where n: "ne_Now env s = (at, s1)" by (rule prod.exhaust)
  have s1: "ok s1" "content s1 = content s" "sent s1 = sent s" using keeps_now [OF n] assms(1) by (simp_all add: keeps_def)
  let ?n = "mk_notice KindRecovery SeverityInfo (ps_Feed state) (ps_Failure state) zero_Counts 0 at"
  let ?f = "\<lambda>_ :: PersistentState. zero_State failure_key"
  have zero: "failure_run (Some ((zero_State failure_key)\<lparr>ps_UpdatedAt := v\<rparr>)) = None" for v
    by (simp add: failure_run_def zero_State_def)
  have at: "attempt env m ?n state (Some ?f) s1 = (evs, s')" using h n by (simp add: send_recovery_def)
  let ?Q = "\<lambda>content log. failure_run content = None \<and> warned content log \<and> untried m content"
  have keep: "warned (Some state) (sent s @ [?n])" using w(1) by (simp add: warned_def mk_notice_def)
  have eff: "ok s' \<and> (\<forall>k. k \<noteq> ps_Key state \<longrightarrow> content s' k = content s1 k) \<and> ?Q (content s' (ps_Key state)) (sent s') \<and>
      (sent s' = sent s1 \<or> sent s' = sent s1 @ [?n] \<and> allowedSeverity m (nt_Severity ?n)) \<and>
      (allowedSeverity m (nt_Severity ?n) \<and> IsZero (ps_LastAttempt state) \<longrightarrow> sent s' = sent s1 @ [?n])"
    by (rule attempt_effect [OF s1(1) clock st(1) _ at]) (use s1(2,3) cleared st(2) zero savable_zero keep w(2) in \<open>auto simp: tracks_def untried_stored untried_pending\<close>)
  have "\<not> IsZero at" using clock n unix_pos_nonzero by (auto simp: past_epoch_def)
  then have "Notice_Validate ?n = None"
    using st by (auto simp: Notice_Validate_def mk_notice_def validSeverity_def Counts_Validate_def savable_def)
  moreover have "last_warned (sent s) = Some (ps_Failure state, ps_Feed state)" using w by (simp add: warned_def)
  ultimately have "sends (sync_notice m r None) s s'"
    using eff s1(3) on by (intro sends_attempt [of s' s ?n m]) (auto simp: sync_notice_def mk_notice_def)
  with eff st(2) show ?thesis by (simp add: tracks_def)
qed

lemma clearFailure_run:
  assumes "ok s" and clock: "past_epoch env" and w: "tracks m old_run s" and success: "res_Outcome r = OutcomeSuccess"
    and h: "clearFailure env m s = (evs, s')"
  shows "tracks m None s' \<and> sends (sync_notice m r None) s s'"
proof -
  obtain state found where l: "(case content s failure_key of None \<Rightarrow> (zero_State failure_key, False) | Some st \<Rightarrow> (st, True)) = (state, found)"
    by (rule prod.exhaust)
  have st: "savable state" "ps_Key state = failure_key" using loaded_savable [OF assms(1) key_valid(1) l] by simp_all
  have run: "failure_run (Some state) = failure_run (content s failure_key)" "warned (Some state) (sent s)"
    "warned (content s failure_key) (sent s)" "untried m (content s failure_key)"
    using l w by (auto simp: failure_run_def zero_State_def tracks_def warned_def split: option.splits)
  note load = manager_load_ok [OF assms(1) key_valid(1), unfolded l]
  let ?p = "state\<lparr>ps_RecoveryPending := True, ps_Notified := False, ps_ConsecutiveFailures := 0, ps_LastAttempt := time_zero\<rparr>"
  consider (idle) "\<not> found \<or> (ps_ConsecutiveFailures state = 0 \<and> \<not> ps_Notified state \<and> \<not> ps_RecoveryPending state)"
    | (reset) "found" "\<not> (ps_ConsecutiveFailures state = 0 \<and> \<not> ps_Notified state \<and> \<not> ps_RecoveryPending state)"
        "\<not> m_recoveryNotifications m \<or> (\<not> ps_Notified state \<and> \<not> ps_RecoveryPending state)"
    | (mark) "found" "m_recoveryNotifications m" "ps_Notified state" "\<not> ps_RecoveryPending state"
    | (again) "found" "m_recoveryNotifications m" "ps_RecoveryPending state" by blast
  then show ?thesis
  proof cases
    case idle
    then have "s' = s" using h load by (auto simp: clearFailure_def)
    moreover have "failure_run (content s failure_key) = None"
    proof (cases "content s failure_key")
      case None
      then show ?thesis by (simp add: failure_run_def)
    next
      case (Some st)
      then have "st = state" "found" using l by auto
      with idle Some show ?thesis by (simp add: failure_run_def)
    qed
    ultimately show ?thesis using assms(1) run(3,4) by (simp add: sends_none tracks_def)
  next
    case reset
    obtain t s2 where s2: "manager_save env (zero_State failure_key) s = (Inr (), (zero_State failure_key)\<lparr>ps_UpdatedAt := t\<rparr>, s2)" "ok s2"
      "content s2 = (content s)(failure_key \<mapsto> stored_state ((zero_State failure_key)\<lparr>ps_UpdatedAt := t\<rparr>))" "sent s2 = sent s"
      by (rule manager_save_ok [OF assms(1) clock savable_zero [OF key_valid(1)], unfolded zero_State_key])
    then have "s' = s2" using h load reset by (auto simp: clearFailure_def)
    then show ?thesis using s2 by (simp add: sends_none tracks_def untried_stored) (simp add: failure_run_def zero_State_def)
  next
    case mark
    have p: "savable ?p" "ps_Key ?p = failure_key" "ValidFailureCategory (ps_Failure ?p)"
      using st mark(3) by (auto simp: savable_def)
    obtain t s2 where s2: "manager_save env ?p s = (Inr (), ?p\<lparr>ps_UpdatedAt := t\<rparr>, s2)" "ok s2"
      "content s2 = (content s)(failure_key \<mapsto> stored_state (?p\<lparr>ps_UpdatedAt := t\<rparr>))" "sent s2 = sent s"
      by (rule manager_save_ok [OF assms(1) clock p(1), unfolded p(2)])
    have cl: "failure_run (Some (?p\<lparr>ps_UpdatedAt := t\<rparr>)) = None" by (simp add: failure_run_def)
    have pw: "warned (Some ?p) (sent s2)" using run(2) mark(3) s2(4) by (simp add: warned_def)
    have tr: "tracks m None s2" using s2(3) pw cl untried_pending [of "?p\<lparr>ps_UpdatedAt := t\<rparr>"] by (simp add: tracks_def del: failure_run_updates)
    have "send_recovery env m (?p\<lparr>ps_UpdatedAt := t\<rparr>) s2 = (evs, s')" using h load mark s2(1) by (simp add: clearFailure_def)
    from send_recovery_run [OF s2(2) clock _ _ _ cl tr _ _ mark(2) success this] p pw s2(4) show ?thesis by (simp add: sends_def)
  next
    case again
    have cl: "failure_run (Some state) = None" using again by (simp add: failure_run_def)
    have "ValidFailureCategory (ps_Failure state)" using st(1) again by (auto simp: savable_def)
    moreover have "send_recovery env m state s = (evs, s')" using h load again by (simp add: clearFailure_def)
    moreover have "tracks m None s" using run cl by (simp add: tracks_def)
    ultimately show ?thesis using send_recovery_run [OF assms(1) clock st _ cl _ run(2) again(3,2) success] by simp
  qed
qed

lemma clearStale_keeps:
  assumes "ok s" and clock: "past_epoch env" and h: "clearStale env s = (evs, s')"
  shows "ok s' \<and> content s' failure_key = content s failure_key \<and> sent s' = sent s"
proof -
  let ?k = "\<lparr>key_Kind = KindStaleSync, key_Feed = []\<rparr>"
  obtain state found where l: "(case content s ?k of None \<Rightarrow> (zero_State ?k, False) | Some st \<Rightarrow> (st, True)) = (state, found)"
    by (rule prod.exhaust)
  note load = manager_load_ok [OF assms(1) key_valid(2), unfolded l]
  obtain t s2 where s2: "manager_save env (zero_State ?k) s = (Inr (), (zero_State ?k)\<lparr>ps_UpdatedAt := t\<rparr>, s2)" "ok s2"
    "content s2 = (content s)(?k \<mapsto> stored_state ((zero_State ?k)\<lparr>ps_UpdatedAt := t\<rparr>))" "sent s2 = sent s"
    by (rule manager_save_ok [OF assms(1) clock savable_zero [OF key_valid(2)], unfolded zero_State_key])
  have "failure_key \<noteq> ?k" by (simp add: failure_key_def)
  moreover have "s' = s \<or> s' = s2" using h load s2(1) by (auto simp: clearStale_def Let_def split: if_splits)
  ultimately show ?thesis using assms(1) s2 by auto
qed

lemma plain_attempt_keeps:
  assumes "ok s" and clock: "past_epoch env" and st: "savable state" "ps_Key state = key" "key \<noteq> failure_key"
    and once: "once \<Longrightarrow> key_Kind key \<in> {KindFirstSuccess, KindStaleSync}"
    and n: "\<And>at. \<not> IsZero at \<Longrightarrow> Notice_Validate (mk_notice kind severity feed NoFailure counts 0 at) = None"
    and h: "plain_attempt env m kind severity feed counts state once s = (evs, s')"
  shows "content s' failure_key = content s failure_key \<and>
    sends (\<lambda>log n. nt_Kind n = kind \<and> nt_Counts n = counts \<and> Notice_Validate n = None \<and> allowedSeverity m (nt_Severity n)) s s'"
proof -
  obtain at s1 where t: "ne_Now env s = (at, s1)" by (rule prod.exhaust)
  have s1: "ok s1" "content s1 = content s" "sent s1 = sent s" using keeps_now [OF t] assms(1) by (simp_all add: keeps_def)
  let ?n = "mk_notice kind severity feed NoFailure counts 0 at"
  let ?f = "if once then Some (\<lambda>current. current\<lparr>ps_Sent := True\<rparr>) else None"
  have at: "attempt env m ?n state ?f s1 = (evs, s')" using h t by (simp add: plain_attempt_def)
  have eff: "ok s' \<and> (\<forall>k. k \<noteq> ps_Key state \<longrightarrow> content s' k = content s1 k) \<and> (\<lambda>content log. True) (content s' (ps_Key state)) (sent s') \<and>
      (sent s' = sent s1 \<or> sent s' = sent s1 @ [?n] \<and> allowedSeverity m (nt_Severity ?n)) \<and>
      (allowedSeverity m (nt_Severity ?n) \<and> IsZero (ps_LastAttempt state) \<longrightarrow> sent s' = sent s1 @ [?n])"
  proof (rule attempt_effect [OF s1(1) clock st(1) _ at])
    show "savable (f (state\<lparr>ps_LastAttempt := t, ps_UpdatedAt := u\<rparr>)) \<and> ps_Key (f (state\<lparr>ps_LastAttempt := t, ps_UpdatedAt := u\<rparr>)) = ps_Key state"
      if "?f = Some f" "0 < unix t" for f t u
    proof -
      have f: "once" "f = (\<lambda>current. current\<lparr>ps_Sent := True\<rparr>)" using that(1) by (auto split: if_splits)
      have "savable (x\<lparr>ps_Sent := True\<rparr>)" if "savable x" "key_Kind (ps_Key x) \<in> {KindFirstSuccess, KindStaleSync}" for x
        using that unfolding savable_def by simp
      then show ?thesis using f once st(2) savable_attempt [OF st(1) that(2)] by simp
    qed
  qed simp_all
  have "\<not> IsZero at" using clock t unix_pos_nonzero by (auto simp: past_epoch_def)
  then have "Notice_Validate ?n = None" by (rule n)
  then have "sends (\<lambda>log n. nt_Kind n = kind \<and> nt_Counts n = counts \<and> Notice_Validate n = None \<and> allowedSeverity m (nt_Severity n)) s s'"
    using eff s1(3) by (intro sends_attempt [of s' s ?n m]) (auto simp: mk_notice_def)
  then show ?thesis using eff s1(2) st(2,3) by auto
qed

lemma successPolicy_keeps:
  assumes "ok s" and clock: "past_epoch env" and r: "Result_Validate r = None" "res_Outcome r = OutcomeSuccess"
    and h: "successPolicy env m r s = (evs, s')"
  shows "content s' failure_key = content s failure_key \<and> sends (\<lambda>log n. sync_notice m r None log n \<and> nt_Kind n \<noteq> KindRepeatedFailure) s s'"
proof -
  let ?k = "\<lparr>key_Kind = KindFirstSuccess, key_Feed = []\<rparr>" and ?q = "\<lparr>key_Kind = KindRoutineSuccess, key_Feed = []\<rparr>"
  obtain first found where l: "(case content s ?k of None \<Rightarrow> (zero_State ?k, False) | Some st \<Rightarrow> (st, True)) = (first, found)"
    by (rule prod.exhaust)
  obtain state found' where l': "(case content s ?q of None \<Rightarrow> (zero_State ?q, False) | Some st \<Rightarrow> (st, True)) = (state, found')"
    by (rule prod.exhaust)
  note load = manager_load_ok [OF assms(1) key_valid(3), unfolded l] manager_load_ok [OF assms(1) key_valid(4), unfolded l']
  have st: "savable first" "ps_Key first = ?k" "savable state" "ps_Key state = ?q"
    using loaded_savable [OF assms(1) key_valid(3) l] loaded_savable [OF assms(1) key_valid(4) l'] by simp_all
  have counts: "Counts_Validate (res_Counts r) = None" using r by (simp add: Result_Validate_None_iff Counts_Validate_def)
  consider (first) "m_firstSuccessNotification m \<and> (\<not> found \<or> \<not> ps_Sent first)"
    | (quiet) "\<not> (m_firstSuccessNotification m \<and> (\<not> found \<or> \<not> ps_Sent first))" "\<not> m_routineSuccessNotification m"
    | (routine) "\<not> (m_firstSuccessNotification m \<and> (\<not> found \<or> \<not> ps_Sent first))" "m_routineSuccessNotification m" by blast
  then show ?thesis
  proof cases
    case first
    then have p: "plain_attempt env m KindFirstSuccess SeverityInfo [] zero_Counts first True s = (evs, s')"
      using h load by (simp add: successPolicy_def)
    have "content s' failure_key = content s failure_key \<and>
        sends (\<lambda>log n. nt_Kind n = KindFirstSuccess \<and> nt_Counts n = zero_Counts \<and> Notice_Validate n = None \<and> allowedSeverity m (nt_Severity n)) s s'"
      by (rule plain_attempt_keeps [OF assms(1) clock st(1,2) _ _ _ p])
        (simp_all add: failure_key_def Notice_Validate_def mk_notice_def validSeverity_def Counts_Validate_def)
    then show ?thesis using first r(2) by (auto simp: sync_notice_def elim: sends_mono)
  next
    case quiet
    then have "s' = s" using h load by (auto simp: successPolicy_def)
    then show ?thesis using assms(1) by (simp add: sends_none)
  next
    case routine
    then have p: "plain_attempt env m KindRoutineSuccess SeverityInfo [] (res_Counts r) state False s = (evs, s')"
      using h load by (auto simp: successPolicy_def)
    have "content s' failure_key = content s failure_key \<and>
        sends (\<lambda>log n. nt_Kind n = KindRoutineSuccess \<and> nt_Counts n = res_Counts r \<and> Notice_Validate n = None \<and> allowedSeverity m (nt_Severity n)) s s'"
      by (rule plain_attempt_keeps [OF assms(1) clock st(3,4) _ _ _ p])
        (simp_all add: failure_key_def Notice_Validate_def mk_notice_def validSeverity_def counts)
    then show ?thesis using routine r(2) by (auto simp: sync_notice_def elim: sends_mono)
  qed
qed

lemma HandleSync_run:
  assumes "ok s" and clock: "past_epoch env" and r: "Result_Validate r = None" and "m_enabled m" "\<not> m_closed m"
    and w: "tracks m old_run s" and h: "HandleSync env m r s = (evs, s')" and m: "1 \<le> m_failureThreshold m"
  shows "tracks m (run_step r old_run) s' \<and> sends (sync_notice m r (run_step r old_run)) s s' \<and>
    (crosses m old_run (run_step r old_run) \<and> allowedSeverity m SeverityWarning \<longrightarrow> sent s' \<noteq> sent s)"
proof -
  obtain events s1 where c: "(if notify_safeSynchronization r then clearStale env s else ([], s)) = (events, s1)" by (rule prod.exhaust)
  have s1: "ok s1" "content s1 failure_key = content s failure_key" "sent s1 = sent s"
    using c assms(1) clearStale_keeps [OF assms(1) clock] by (auto split: if_splits)
  then have w1: "tracks m old_run s1" using w by (simp add: tracks_def)
  have un: "HandleSync env m r s = (if res_Outcome r = OutcomeFailed \<or> res_Outcome r = OutcomeDegraded then
          (case handleFailure env m r s1 of (events', s2) \<Rightarrow> (events @ events', s2))
        else if res_Outcome r \<noteq> OutcomeSuccess then (events, s1)
        else (case clearFailure env m s1 of (events', s2) \<Rightarrow>
          (case successPolicy env m r s2 of (events'', s3) \<Rightarrow> (events @ events' @ events'', s3))))"
    using assms(4,5) r c by (simp add: HandleSync_def)
  consider (failed) "res_Outcome r \<in> {OutcomeFailed, OutcomeDegraded}" | (success) "res_Outcome r = OutcomeSuccess"
    | (other) "res_Outcome r \<notin> {OutcomeFailed, OutcomeDegraded, OutcomeSuccess}" by blast
  then show ?thesis
  proof cases
    case failed
    obtain events' s2 where f: "handleFailure env m r s1 = (events', s2)" by (rule prod.exhaust)
    then have "s' = s2" using h un failed by auto
    then show ?thesis using handleFailure_run [OF s1(1) clock r failed w1 f m] sends_from [OF s1(3)] s1(3) by simp
  next
    case success
    obtain events' s2 where f: "clearFailure env m s1 = (events', s2)" by (rule prod.exhaust)
    obtain events'' s3 where g: "successPolicy env m r s2 = (events'', s3)" by (rule prod.exhaust)
    have "s' = s3" using h un success f g by auto
    have cl: "tracks m None s2" "sends (sync_notice m r None) s1 s2" using clearFailure_run [OF s1(1) clock w1 success f] by simp_all
    then have "ok s2" by (simp add: sends_def)
    from successPolicy_keeps [OF this clock r success g]
    have p: "content s3 failure_key = content s2 failure_key" "sends (sync_notice m r None) s2 s3" "last_warned (sent s3) = last_warned (sent s2)"
      by (auto intro: sends_last_warned elim: sends_mono)
    have "tracks m None s3" using cl(1) p(1,3) by (simp add: tracks_def warned_def split: option.splits)
    then show ?thesis
      using success \<open>s' = s3\<close> sends_from [OF s1(3) sends_trans [OF cl(2) p(2)]] by (simp add: run_step_def crosses_def)
  next
    case other
    then have "s' = s1" using h un by auto
    then show ?thesis using other s1 w1 by (simp add: run_step_def sends_none crosses_def)
  qed
qed

end

subsection \<open>Properties of the manager on its repository\<close>

text \<open>
  Durable notification state round-trips: a valid state that obeys the constraints of the table is
  saved whatever the table held, the table stays consistent, loading its key gives the state back with
  its times in whole seconds, and every other key still loads what it did.
\<close>

theorem notify_Save_Load:
  assumes "delivery_ok table" and "storable st"
  shows "\<exists>table'. notify_Save st table = (Inr (), table') \<and> delivery_ok table' \<and>
    notify_Load (ps_Key st) table' = Inr (Some (stored_state st)) \<and>
    (\<forall>key. key \<noteq> ps_Key st \<longrightarrow> notify_Load key table' = notify_Load key table)"
proof -
  obtain table' where t: "notify_Save st table = (Inr (), table')" "delivery_ok table'"
    "table_content table' = (table_content table)(ps_Key st \<mapsto> stored_state st)"
    using storable_saved [OF assms] by blast
  have "StateKey_Validate (ps_Key st) = None" using assms(2) by (simp add: storable_def State_Validate_None_iff)
  then have "notify_Load (ps_Key st) table' = Inr (Some (stored_state st))" using notify_Load_content [OF t(2)] t(3) by simp
  moreover have "notify_Load key table' = notify_Load key table" if "key \<noteq> ps_Key st" for key
  proof (cases "StateKey_Validate key = None")
    case True
    then show ?thesis using notify_Load_content [OF t(2)] notify_Load_content [OF assms(1)] t(3) that by simp
  next
    case False
    then show ?thesis by (auto simp: notify_Load_def)
  qed
  ultimately show ?thesis using t by blast
qed

theorem notify_Save_Load_witness:
  "\<exists>table'. notify_Save ((zero_State failure_key)\<lparr>ps_UpdatedAt := 2000 * second + 5\<rparr>) [] = (Inr (), table') \<and>
     notify_Load failure_key table' = Inr (Some ((zero_State failure_key)\<lparr>ps_UpdatedAt := 2000 * second\<rparr>))"
proof -
  let ?st = "(zero_State failure_key)\<lparr>ps_UpdatedAt := 2000 * second + 5\<rparr>"
  have "unix (2000 * second + 5) = 2000" by (simp add: unix_def second_def)
  then have "storable ?st" by (intro savable_storable savable_zero) simp_all
  moreover have "delivery_ok []" by (simp add: delivery_ok_def)
  ultimately obtain table' where t: "notify_Save ?st [] = (Inr (), table')" "notify_Load (ps_Key ?st) table' = Inr (Some (stored_state ?st))"
    using notify_Save_Load [of "[]" ?st] by blast
  have "stored_state ?st = (zero_State failure_key)\<lparr>ps_UpdatedAt := 2000 * second\<rparr>"
    by (simp add: stored_state_def zero_State_def unix_def time_Unix_def second_def)
  with t show ?thesis by simp
qed

definition sync_results :: "'w delivery \<Rightarrow> Manager \<Rightarrow> ops_Result list \<Rightarrow> 'w delivery_world \<Rightarrow> 'w delivery_world" where
  "sync_results dl m rs s = foldl (\<lambda>s r. snd (HandleSync (repository_env dl) m r s)) s rs"

lemma past_epoch_repository:
  "(\<And>w t w'. dl_Now dl w = (t, w') \<Longrightarrow> 0 < unix t) \<Longrightarrow> past_epoch (repository_env dl)"
  by (auto simp: past_epoch_def repository_env_def split: prod.splits)

text \<open>
  What the transport was handed over a history: the log falls into one part for each result, every
  notice of a part is one that its result may cause after what was handed over before, and the part of a result with
  which a run of failures reaches the threshold is not empty, unless warnings are below the least severity.
\<close>

definition explained :: "Manager \<Rightarrow> ops_Result list \<Rightarrow> Notice list \<Rightarrow> bool" where
  "explained m rs log \<longleftrightarrow> (\<exists>parts. log = concat parts \<and> length parts = length rs \<and>
     (\<forall>k < length rs. notices (sync_notice m (rs ! k) (runs_of (take (Suc k) rs))) (concat (take k parts)) (parts ! k) \<and>
        (crosses m (runs_of (take k rs)) (runs_of (take (Suc k) rs)) \<and> allowedSeverity m SeverityWarning \<longrightarrow> parts ! k \<noteq> [])))"

lemma explained_snoc:
  assumes "explained m rs log" and "notices (sync_notice m r (runs_of (rs @ [r]))) log ns"
    and "crosses m (runs_of rs) (runs_of (rs @ [r])) \<and> allowedSeverity m SeverityWarning \<longrightarrow> ns \<noteq> []"
  shows "explained m (rs @ [r]) (log @ ns)"
proof -
  obtain parts where p: "log = concat parts" "length parts = length rs"
    "\<forall>k < length rs. notices (sync_notice m (rs ! k) (runs_of (take (Suc k) rs))) (concat (take k parts)) (parts ! k) \<and>
      (crosses m (runs_of (take k rs)) (runs_of (take (Suc k) rs)) \<and> allowedSeverity m SeverityWarning \<longrightarrow> parts ! k \<noteq> [])"
    using assms(1) by (auto simp: explained_def)
  show ?thesis
    unfolding explained_def
    by (rule exI [of _ "parts @ [ns]"]) (use p assms(2,3) in \<open>auto simp: nth_append less_Suc_eq\<close>)
qed

text \<open>
  C26. Notices over the durable state: when a manager handles the results of any sequence of
  synchronizations, starting from an empty table and with a clock past the epoch, no call loses or
  corrupts its state, and the stored count is that of the current run of failures with the same category
  and feed (a success ends it, a cancelled run leaves it). Every notice handed to the transport is valid and
  severe enough and is caused by one of the results: one about repeated failures by a failed or degraded result
  whose run of failures, named in it, has reached the threshold, whatever the category; a recovery notice by a success, with
  recovery notices on, and it names the failure that was notified last; a notice of the first or of a routine
  success by a success with the option on, the routine one with the counts of that result. No other kind is sent.
  And the result with which a run reaches the threshold does cause its notice, no cooldown holding it back, unless
  warnings are below the least severity.
\<close>

theorem HandleSync_history:
  assumes "NewManager options = Inr m" and "m_enabled m" and clock: "\<And>w t w'. dl_Now dl w = (t, w') \<Longrightarrow> 0 < unix t"
    and "\<forall>r \<in> set rs. Result_Validate r = None" and "sync_results dl m rs ([], [], w) = (table, log, w')"
  shows "delivery_ok table \<and> failure_run (table_content table failure_key) = runs_of rs \<and> explained m rs log"
proof -
  have open_m: "\<not> m_closed m" "1 \<le> m_failureThreshold m" using assms(1,2) by (auto simp: NewManager_def split: if_splits)
  have "delivery_ok table \<and> repository.tracks m (runs_of rs) (table, log, w') \<and> explained m rs log"
    using assms(4,5)
  proof (induction rs arbitrary: table log w' rule: rev_induct)
    case Nil
    have "repository.tracks m None ([], [], w)" by (simp add: repository.tracks_def) (simp add: table_content_def failure_run_def)
    then show ?case using Nil by (auto simp: sync_results_def runs_of_def delivery_ok_def explained_def)
  next
    case (snoc r rs)
    obtain table1 log1 w1 where s1: "sync_results dl m rs ([], [], w) = (table1, log1, w1)" by (rule prod_cases3)
    have old: "delivery_ok table1" "repository.tracks m (runs_of rs) (table1, log1, w1)" "explained m rs log1"
      using snoc.IH [OF _ s1] snoc.prems(1) by auto
    obtain evs where h: "HandleSync (repository_env dl) m r (table1, log1, w1) = (evs, table, log, w')"
      using snoc.prems(2) s1 by (cases "HandleSync (repository_env dl) m r (table1, log1, w1)") (simp add: sync_results_def)
    have "repository.tracks m (runs_of (rs @ [r])) (table, log, w') \<and>
        repository.sends (sync_notice m r (runs_of (rs @ [r]))) (table1, log1, w1) (table, log, w') \<and>
        (crosses m (runs_of rs) (runs_of (rs @ [r])) \<and> allowedSeverity m SeverityWarning \<longrightarrow> log \<noteq> log1)"
      using repository.HandleSync_run [OF _ past_epoch_repository [OF clock] _ assms(2) open_m(1) old(2) h open_m(2)] old(1) snoc.prems(1)
      by (simp add: runs_of_def)
    then show ?case using explained_snoc [OF old(3)] by (auto simp: repository.sends_def)
  qed
  then show ?thesis by (simp add: repository.tracks_def)
qed

definition sample_manager :: Manager where
  "sample_manager = \<lparr>m_enabled = True, m_closed = False, m_minimumSeverity = SeverityInfo, m_failureThreshold = 2,
     m_cooldown = hour, m_recoveryNotifications = True, m_suspiciousChangeNotifications = True, m_staleSyncNotifications = True,
     m_startupNotification = False, m_firstSuccessNotification = True, m_routineSuccessNotification = False\<rparr>"

definition sample_delivery :: "unit delivery" where
  "sample_delivery = \<lparr>dl_Send = (\<lambda>n w. (True, w)), dl_Now = (\<lambda>w. (2000 * second, w)), dl_Observe = (\<lambda>e w. w)\<rparr>"

definition sample_outage :: ops_Result where
  "sample_outage = \<lparr>res_Outcome = OutcomeFailed, res_Failure = FailureLAPI, res_Retryable = True, res_StartedAt = second,
     res_CompletedAt = second, res_Counts = zero_Counts, res_Feeds = []\<rparr>"

theorem HandleSync_history_witness:
  "\<exists>table log w. sync_results sample_delivery sample_manager [sample_outage, sample_outage] ([], [], ()) = (table, log, w) \<and>
     failure_run (table_content table failure_key) = Some (FailureLAPI, [], 2) \<and> log \<noteq> []"
proof -
  obtain table log w where s: "sync_results sample_delivery sample_manager [sample_outage, sample_outage] ([], [], ()) = (table, log, w)"
    by (rule prod_cases3)
  have "NewManager sample_manager = Inr sample_manager" "m_enabled sample_manager"
    by (simp_all add: NewManager_def sample_manager_def validSeverity_def go_time_defs)
  moreover have "0 < unix t" if "dl_Now sample_delivery w = (t, w')" for w t w'
    using that by (auto simp: sample_delivery_def go_time_defs)
  moreover have "\<forall>r \<in> set [sample_outage, sample_outage]. Result_Validate r = None"
    by (simp add: sample_outage_def Result_Validate_def maxDuration_def maxFeedResults_def go_time_defs)
  ultimately have "failure_run (table_content table failure_key) = runs_of [sample_outage, sample_outage]"
    and ex: "explained sample_manager [sample_outage, sample_outage] log"
    using HandleSync_history [OF _ _ _ _ s] by blast+
  moreover have runs: "runs_of [sample_outage] = Some (FailureLAPI, [], 1)" "runs_of [sample_outage, sample_outage] = Some (FailureLAPI, [], 2)"
    by (simp_all add: runs_of_def run_step_def sample_outage_def failedFeed_def)
  moreover have "log \<noteq> []"
  proof -
    have cr: "crosses sample_manager (runs_of [sample_outage]) (runs_of [sample_outage, sample_outage])"
      and sev: "allowedSeverity sample_manager SeverityWarning"
      by (simp_all add: runs crosses_def sample_manager_def allowedSeverity_def)
    obtain parts where p: "log = concat parts" "length parts = 2" "parts ! 1 \<noteq> []"
      using ex cr sev by (auto simp: explained_def dest!: spec [of _ "Suc 0"])
    then have "parts ! 1 \<in> set parts" by simp
    then show ?thesis using p(1,3) by (auto simp: concat_eq_Nil_conv)
  qed
  ultimately show ?thesis using s by simp
qed

end
