(* ===== verification/Feed_Facts.thy ===== *)
theory Feed_Facts
  imports Feed Store_Feeds
begin

text \<open>
  What the feed pipeline guarantees: the netset parser accepts only canonical values and accounts for
  every record, validation gives a sorted, duplicate-free set of safe entries that does not depend on
  the order of the lines, and the repository accepts every snapshot that validation lets through.
\<close>

subsection \<open>The order of entries\<close>

lemma compareEntry_alt:
  "compareEntry a b =
     cmp_then (cmp_Compare (\<not> Is4 (pfx_ip (ent_Prefix a))) (\<not> Is4 (pfx_ip (ent_Prefix b))))
     (cmp_then (addr_Compare (pfx_ip (ent_Prefix a)) (pfx_ip (ent_Prefix b)))
     (cmp_then (cmp_Compare (Bits (ent_Prefix a)) (Bits (ent_Prefix b)))
       (cmp_Compare (kind_num (ent_Kind a)) (kind_num (ent_Kind b)))))"
  by (auto simp: compareEntry_def cmp_then_def cmp_Compare_def Let_def)

interpretation entry_cmp: cmp_order compareEntry
  unfolding compareEntry_alt by (intro cmp_intros)

lemma compareEntry_zero: "compareEntry a b = 0 \<Longrightarrow> a = b"
proof -
  assume z: "compareEntry a b = 0"
  then have "pfx_ip (ent_Prefix a) = pfx_ip (ent_Prefix b)" "Bits (ent_Prefix a) = Bits (ent_Prefix b)"
    "kind_num (ent_Kind a) = kind_num (ent_Kind b)"
    by (auto simp: compareEntry_alt cmp_then_def split: if_splits)
  then show ?thesis
    by (cases a; cases b; cases "ent_Prefix a"; cases "ent_Prefix b"; cases "ent_Kind a"; cases "ent_Kind b") (auto simp: Bits_def)
qed

subsection \<open>Validation\<close>

definition canonical_entry :: "Entry \<Rightarrow> Entry" where
  "canonical_entry e = \<lparr>ent_Prefix = Masked (ent_Prefix e), ent_Kind = ent_Kind e\<rparr>"

lemma validate_entries_spec:
  assumes "validate_entries es kept a b = (kept', a', b')" and "distinct kept"
  shows "distinct kept' \<and> set kept' = set kept \<union> canonical_entry ` {e \<in> set es. entry_accepted e} \<and>
    a' = a + length (filter (\<lambda>e. \<not> entry_accepted e) es) \<and> length kept' + a' + b' = length kept + a + b + length es"
  using assms
proof (induction es kept a b rule: validate_entries.induct)
  case (2 e es kept a b)
  let ?c = "\<lparr>ent_Prefix = Masked (ent_Prefix e), ent_Kind = ent_Kind e\<rparr>"
  consider (bad) "\<not> entry_accepted e" | (dup) "entry_accepted e" "?c \<in> set kept" | (new) "entry_accepted e" "?c \<notin> set kept" by blast
  then show ?case
  proof cases
    case bad
    with 2 show ?thesis by (auto simp: canonical_entry_def)
  next
    case dup
    with "2.IH"(2) [OF refl] "2.prems" show ?thesis by (auto simp: canonical_entry_def)
  next
    case new
    with "2.IH"(3) [OF refl] "2.prems" show ?thesis by (auto simp: canonical_entry_def)
  qed
qed (auto simp: canonical_entry_def)

lemma accepted_canonical: "entry_accepted e \<Longrightarrow> entry_accepted (canonical_entry e) \<and> Masked (ent_Prefix (canonical_entry e)) = ent_Prefix (canonical_entry e)"
proof -
  assume "entry_accepted e"
  then have "canonical (Masked (ent_Prefix e))" by (simp add: entry_accepted_def ValidateKind_None_iff)
  then have "Masked (Masked (ent_Prefix e)) = Masked (ent_Prefix e)" by (simp add: canonical_def)
  with \<open>entry_accepted e\<close> show ?thesis by (simp add: entry_accepted_def canonical_entry_def)
qed

text \<open>A number of entries that the policy allows.\<close>

definition within_policy :: "ValidationPolicy \<Rightarrow> int \<Rightarrow> bool" where
  "within_policy p n \<longleftrightarrow> vp_ExpectedMinEntries p \<le> n \<and> n \<le> vp_ExpectedMaxEntries p \<and>
     (vp_PreviousAcceptedEntries p > 0 \<longrightarrow>
        \<not> flt_less (vp_MaxGrowthRatio p) (flt_ratio n (vp_PreviousAcceptedEntries p)) \<and>
        \<not> flt_less (flt_ratio n (vp_PreviousAcceptedEntries p)) (vp_MaxShrinkRatio p))"

lemma Validate_Inr:
  assumes "Validate r p = Inr snapshot"
  obtains kept where "validate_entries (fres_Entries r) [] 0 0 = (kept, snp_RejectedSafety snapshot, snp_Duplicates snapshot)"
    and "snp_Entries snapshot = sort_cmp compareEntry kept" and "snp_Version snapshot = snapshotVersion (snp_Entries snapshot)"
    and "within_policy p (int (length (snp_Entries snapshot)))"
proof -
  obtain kept a b where v: "validate_entries (fres_Entries r) [] 0 0 = (kept, a, b)" by (rule prod_cases3)
  show thesis
    by (rule that [of kept]) (use assms v in \<open>auto simp: Validate_def within_policy_def Let_def split: if_splits\<close>)
qed

text \<open>
  C25. What validation lets through: the entries of an accepted snapshot are sorted and distinct, and
  they are exactly the safe, well-kinded entries of the feed in canonical form; every raw entry is
  counted once, as an entry, an unsafe one or a duplicate; and their number is within the absolute and
  the relative bounds of the policy.
\<close>

theorem Validate_exact:
  assumes "Validate r p = Inr snapshot"
  shows "sorted_by compareEntry (snp_Entries snapshot) \<and> distinct (snp_Entries snapshot) \<and>
    set (snp_Entries snapshot) = canonical_entry ` {e \<in> set (fres_Entries r). entry_accepted e} \<and>
    (\<forall>e \<in> set (snp_Entries snapshot). fst (IsSafePrefix (ent_Prefix e)) \<and> ValidateKind (ent_Prefix e) (ent_Kind e) = None) \<and>
    length (snp_Entries snapshot) + snp_RejectedSafety snapshot + snp_Duplicates snapshot = length (fres_Entries r) \<and>
    snp_RejectedSafety snapshot = length (filter (\<lambda>e. \<not> entry_accepted e) (fres_Entries r)) \<and>
    within_policy p (int (length (snp_Entries snapshot)))"
proof -
  obtain kept where k: "validate_entries (fres_Entries r) [] 0 0 = (kept, snp_RejectedSafety snapshot, snp_Duplicates snapshot)"
    "snp_Entries snapshot = sort_cmp compareEntry kept" "within_policy p (int (length (snp_Entries snapshot)))"
    using Validate_Inr [OF assms] by blast
  have spec: "distinct kept" "set kept = canonical_entry ` {e \<in> set (fres_Entries r). entry_accepted e}"
    "snp_RejectedSafety snapshot = length (filter (\<lambda>e. \<not> entry_accepted e) (fres_Entries r))"
    "length kept + snp_RejectedSafety snapshot + snp_Duplicates snapshot = length (fres_Entries r)"
    using validate_entries_spec [OF k(1)] by simp_all
  have "fst (IsSafePrefix (ent_Prefix x)) \<and> ValidateKind (ent_Prefix x) (ent_Kind x) = None" if "x \<in> set (snp_Entries snapshot)" for x
    using that spec(2) k(2) by (auto simp: entry_accepted_def canonical_entry_def)
  then show ?thesis using spec k(2,3) entry_cmp.sorted_sort_cmp by simp
qed

text \<open>
  Order does not matter: two feeds with the same entries in any order, duplicated or not, that both
  pass validation give the same entries and the same version, so an unchanged feed keeps its version.
\<close>

theorem Validate_order_independent:
  assumes "Validate r p = Inr s" and "Validate r' p' = Inr s'" and "set (fres_Entries r) = set (fres_Entries r')"
  shows "snp_Entries s = snp_Entries s' \<and> snp_Version s = snp_Version s'"
proof -
  obtain kept where k: "validate_entries (fres_Entries r) [] 0 0 = (kept, snp_RejectedSafety s, snp_Duplicates s)"
    "snp_Entries s = sort_cmp compareEntry kept" "snp_Version s = snapshotVersion (snp_Entries s)" using Validate_Inr [OF assms(1)] by blast
  obtain kept' where k': "validate_entries (fres_Entries r') [] 0 0 = (kept', snp_RejectedSafety s', snp_Duplicates s')"
    "snp_Entries s' = sort_cmp compareEntry kept'" "snp_Version s' = snapshotVersion (snp_Entries s')" using Validate_Inr [OF assms(2)] by blast
  have "distinct kept" "distinct kept'" "set kept = set kept'"
    using validate_entries_spec [OF k(1)] validate_entries_spec [OF k'(1)] assms(3) by simp_all
  then have "mset kept = mset kept'" by (simp add: set_eq_iff_mset_eq_distinct)
  then have "sort_cmp compareEntry kept = sort_cmp compareEntry kept'"
    by (rule entry_cmp.sort_cmp_perm) (rule compareEntry_zero)
  then show ?thesis using k k' by simp
qed

text \<open>
  The repository takes every snapshot that validation lets through: with validators and a grace
  that the configuration allows, its own validation of the snapshot finds nothing to reject, so the
  synchronization never fails between validating a feed and storing it.
\<close>

theorem Validate_storable:
  assumes "Validate r p = Inr s" and "1 \<le> grace" and "grace \<le> 100" and "validValidator etag 256" and "validValidator lastModified 128"
    and "0 \<le> rejected_count"
  shows "validateSnapshot \<lparr>fs_Version = snp_Version s, fs_ETag = etag, fs_LastModified = lastModified,
    fs_Entries = snp_Entries s, fs_Rejected = rejected_count\<rparr> grace = None"
proof -
  obtain kept where k: "validate_entries (fres_Entries r) [] 0 0 = (kept, snp_RejectedSafety s, snp_Duplicates s)"
    "snp_Entries s = sort_cmp compareEntry kept" "snp_Version s = snapshotVersion (snp_Entries s)" using Validate_Inr [OF assms(1)] by blast
  have spec: "distinct kept" "set kept = canonical_entry ` {e \<in> set (fres_Entries r). entry_accepted e}"
    using validate_entries_spec [OF k(1)] by simp_all
  have acc: "entry_accepted e" "Masked (ent_Prefix e) = ent_Prefix e" if "e \<in> set kept" for e
    using that spec(2) accepted_canonical by auto
  have "inj_on (\<lambda>e. (Masked (ent_Prefix e), ent_Kind e)) (set kept)"
    using acc(2) by (auto simp: inj_on_def intro: Entry.equality)
  then have "distinct (map (\<lambda>e. (Masked (ent_Prefix e), ent_Kind e)) (sort_cmp compareEntry kept))"
    using spec(1) by (simp add: distinct_map)
  then have "snapshot_entries_valid [] (snp_Entries s)"
    using acc(1) k(2) by (auto simp: snapshot_entries_valid_iff entry_accepted_def)
  moreover have "validHash (snp_Version s)"
    using length_sha256_hex sha256_hex_digits by (fastforce simp: k(3) validHash_def snapshotVersion_def list_all_iff)
  ultimately show ?thesis using assms(2-6) by (simp add: validateSnapshot_def)
qed

subsection \<open>The netset parser\<close>

lemma scan_loop_invariant:
  assumes "\<And>line acc acc'. P acc \<Longrightarrow> consume line acc = Inr acc' \<Longrightarrow> P acc'"
  shows "P acc \<Longrightarrow> scan_loop maxLine consume first lines acc = Inr acc' \<Longrightarrow> P acc'"
  by (induction lines arbitrary: first acc) (auto simp: Let_def intro: assms split: if_splits sum.splits)

definition netset_ok :: "Family \<Rightarrow> feed_Result \<Rightarrow> bool" where
  "netset_ok family r \<longleftrightarrow>
     (\<forall>e \<in> set (fres_Entries r). ValidateKind (ent_Prefix e) (ent_Kind e) = None \<and> \<not> Is4In6 (pfx_ip (ent_Prefix e)) \<and>
        familyMatches (Is4 (pfx_ip (ent_Prefix e))) family) \<and>
     fres_TotalRecords r = length (fres_Entries r) + fres_Malformed r \<and> fres_Metadata r = zero_Metadata"

lemma netset_line_ok:
  assumes "netset_ok (lim_Family limits) acc" and "netset_line limits line acc = Inr acc'"
  shows "netset_ok (lim_Family limits) acc'"
proof (cases "\<exists>field p k. Fields (stripComment line) = [field] \<and> ParseValue field = Inr (p, k) \<and> familyMatches (Is4 (pfx_ip p)) (lim_Family limits)")
  case True
  then obtain field p k where f: "Fields (stripComment line) = [field]" "ParseValue field = Inr (p, k)"
    "familyMatches (Is4 (pfx_ip p)) (lim_Family limits)" by blast
  then have "acc' = acc \<or> acc' = acc\<lparr>fres_TotalRecords := fres_TotalRecords acc + 1, fres_Entries := fres_Entries acc @ [\<lparr>ent_Prefix = p, ent_Kind = k\<rparr>]\<rparr>"
    using assms(2) by (auto simp: netset_line_def Let_def split: if_splits)
  then show ?thesis using assms(1) ParseValue_ValidateKind [OF f(2)] f(3) by (auto simp: netset_ok_def)
next
  case False
  then have "acc' = acc \<or> acc' = count_malformed (acc\<lparr>fres_TotalRecords := fres_TotalRecords acc + 1\<rparr>)"
    using assms(2) by (auto simp: netset_line_def Let_def split: if_splits list.splits sum.splits prod.splits)
  then show ?thesis using assms(1) by (auto simp: netset_ok_def count_malformed_def)
qed

lemma parseNetset_accepts:
  assumes "parseNetset body limits = Inr r"
  shows "(\<forall>e \<in> set (fres_Entries r). ValidateKind (ent_Prefix e) (ent_Kind e) = None \<and> \<not> Is4In6 (pfx_ip (ent_Prefix e)) \<and>
      familyMatches (Is4 (pfx_ip (ent_Prefix e))) (lim_Family limits)) \<and>
    fres_TotalRecords r = length (fres_Entries r) + fres_Malformed r \<and> 0 < fres_TotalRecords r \<and>
    int (fres_Malformed r) \<le> lim_MaxMalformedLines limits \<and>
    flt_le (flt_ratio (int (fres_Malformed r)) (int (fres_TotalRecords r))) (lim_MaxMalformedRatio limits) \<and>
    body \<noteq> [] \<and> (lim_RequireFinalNewline limits \<longrightarrow> code (last body) = 10)"
proof -
  have s: "scan_loop (lim_MaxLineBytes limits) (netset_line limits) True (raw_lines [] body) zero_Result = Inr r"
    and rest: "body \<noteq> []" "lim_RequireFinalNewline limits \<longrightarrow> code (last body) = 10" "0 < fres_TotalRecords r" "malformedAllowed r limits"
    using assms by (auto simp: parseNetset_def scan_def split: sum.splits if_splits)
  have "netset_ok (lim_Family limits) r"
  proof (rule scan_loop_invariant [where P = "netset_ok (lim_Family limits)", OF _ _ s])
    show "netset_ok (lim_Family limits) zero_Result" by (simp add: netset_ok_def zero_Result_def)
  qed (rule netset_line_ok)
  then show ?thesis using rest by (auto simp: netset_ok_def malformedAllowed_def split: if_splits)
qed

subsection \<open>Printing and parsing\<close>

text \<open>An entry as a netset file writes it, and a file of entries.\<close>

definition entry_text :: "Entry \<Rightarrow> string" where
  "entry_text e = (if ent_Kind e = KindIP then addr_String (pfx_ip (ent_Prefix e)) else prefix_String (ent_Prefix e))"

definition netset_text :: "Entry list \<Rightarrow> string" where
  "netset_text es = concat (map (\<lambda>e. entry_text e @ [byte 10]) es)"

definition plain_char :: "char \<Rightarrow> bool" where
  "plain_char c \<longleftrightarrow> 33 \<le> code c \<and> code c \<le> 126 \<and> c \<noteq> CHR ''#'' \<and> c \<noteq> CHR '';'' \<and> code c \<noteq> 34 \<and> code c \<noteq> 92"

lemma raw_lines_line: "\<forall>c \<in> set s. code c \<noteq> 10 \<Longrightarrow> raw_lines cur (s @ byte 10 # t) = (rev cur @ s) # raw_lines [] t"
  by (induction s arbitrary: cur) auto

lemma utf8_valid_ascii: "\<forall>b \<in> set bs. b < 128 \<Longrightarrow> utf8_valid bs"
  by (induction bs) auto

lemma fields_from_graphic: "\<forall>c \<in> set s. 33 \<le> code c \<and> code c \<le> 126 \<Longrightarrow> cur @ s \<noteq> [] \<Longrightarrow> fields_from cur s = [rev cur @ s]"
proof (induction s arbitrary: cur)
  case (Cons c s)
  have "space_len (map code (c # s)) = 0" using Cons.prems(1) by (intro space_len_graphic) auto
  then show ?case using Cons by (simp add: Let_def del: space_len.simps)
qed auto

lemma plain_line:
  assumes "s \<noteq> []" and "\<forall>c \<in> set s. plain_char c"
  shows "dropCR s = s" and "TrimPrefix s byte_order_mark = s" and "utf8_valid (map code s)" and "stripComment s = s" and "Fields s = [s]"
    and "\<forall>c \<in> set s. code c \<noteq> 10"
proof -
  have g: "\<forall>c \<in> set s. 33 \<le> code c \<and> code c \<le> 126 \<and> c \<noteq> CHR ''#'' \<and> c \<noteq> CHR '';''"
    using assms(2) by (auto simp: plain_char_def)
  have l: "hd s \<in> set s" "last s \<in> set s" using assms(1) by simp_all
  have "code (last s) \<noteq> 13" using bspec [OF g l(2)] by simp
  then show "dropCR s = s" by (simp add: dropCR_def)
  have "hd s \<noteq> byte 239" using bspec [OF g l(1)] by (auto simp: code_eq_iff [symmetric])
  then show "TrimPrefix s byte_order_mark = s" by (cases s) (auto simp: TrimPrefix_def byte_order_mark_def)
  show "utf8_valid (map code s)" using g by (intro utf8_valid_ascii) (fastforce simp: image_iff)
  have "takeWhile (\<lambda>c. c \<noteq> CHR ''#'' \<and> c \<noteq> CHR '';'') s = s" using g by (simp add: takeWhile_eq_all_conv)
  moreover have "TrimSpace s = s" using bspec [OF g l(1)] bspec [OF g l(2)] assms(1) by (intro TrimSpace_graphic) simp_all
  ultimately show "stripComment s = s" by (simp only: stripComment_def)
  show "Fields s = [s]" using g assms(1) fields_from_graphic [of s "[]"] by (simp add: Fields_def)
  show "\<forall>c \<in> set s. code c \<noteq> 10" using g by force
qed

lemma entry_text_plain:
  assumes "ValidateKind p k = None" and "\<not> Is4In6 (pfx_ip p)"
  shows "entry_text \<lparr>ent_Prefix = p, ent_Kind = k\<rparr> \<noteq> [] \<and> (\<forall>c \<in> set (entry_text \<lparr>ent_Prefix = p, ent_Kind = k\<rparr>). plain_char c) \<and>
    ParseValue (entry_text \<lparr>ent_Prefix = p, ent_Kind = k\<rparr>) = Inr (p, k)"
proof -
  have can: "canonical p" and k: "k = KindRange \<or> k = KindIP \<and> Bits p = int (BitLen (pfx_ip p))"
    using assms(1) by (auto simp: ValidateKind_None_iff)
  have a: "pfx_ip p \<noteq> Addr0" "Zone (pfx_ip p) = []" "IsValid p" "withoutZone (pfx_ip p) = pfx_ip p"
    using can by (cases "pfx_ip p"; auto simp: canonical_def prefix_ok_def)+
  have hex: "plain_char (hex_digit d)" if "d < 16" for d
    using that by (auto simp: plain_char_def hex_digit_def code_eq_iff [symmetric]) (simp_all add: code_def)
  have dig: "plain_char c" if "is_digit c" for c using that by (auto simp: plain_char_def is_digit_def code_def)
  have addr: "plain_char c" if "c \<in> set (addr_String (pfx_ip p))" for c
  proof -
    from that a assms(2) have "c = CHR ''.'' \<or> c = CHR '':'' \<or> is_digit c \<or> (\<exists>d < 16. c = hex_digit d)"
      by (cases "pfx_ip p") (auto dest: string4_chars string6_chars)
    then show ?thesis using hex dig by (auto simp: plain_char_def code_def)
  qed
  have str: "prefix_String p = addr_String (pfx_ip p) @ ''/'' @ itoa (nat (Bits p))" using a(3) by (simp add: prefix_String_def)
  have slash: "CHR ''/'' \<notin> set (addr_String (pfx_ip p))" using addr_String_chars [OF a(1,2) assms(2)] by blast
  have "PrefixFrom (pfx_ip p) (int (BitLen (pfx_ip p))) = p" if "Bits p = int (BitLen (pfx_ip p))"
    using a that by (cases p) (auto simp: netip_defs)
  then have "ParseValue (entry_text \<lparr>ent_Prefix = p, ent_Kind = k\<rparr>) = Inr (p, k)"
    using k slash NormalizePrefix_String [OF can assms(2)] NormalizeAddress_String [OF a(1,2) assms(2)]
    by (auto simp: entry_text_def ParseValue_def Contains_byte_def str)
  moreover have "plain_char (CHR ''/'')" by (simp add: plain_char_def code_def)
  ultimately show ?thesis
    using addr addr_String_not_Nil [OF a(1,2) assms(2)] dig itoa_digits str by (auto simp: entry_text_def)
qed

lemma netset_line_entry:
  assumes "ValidateKind (ent_Prefix e) (ent_Kind e) = None" and "\<not> Is4In6 (pfx_ip (ent_Prefix e))"
    and "familyMatches (Is4 (pfx_ip (ent_Prefix e))) (lim_Family limits)"
  shows "netset_line limits (entry_text e) acc =
    Inr (acc\<lparr>fres_TotalRecords := fres_TotalRecords acc + 1, fres_Entries := fres_Entries acc @ [e]\<rparr>)"
proof -
  obtain p k where e: "e = \<lparr>ent_Prefix = p, ent_Kind = k\<rparr>" by (cases e)
  have t: "entry_text e \<noteq> []" "\<forall>c \<in> set (entry_text e). plain_char c" "ParseValue (entry_text e) = Inr (p, k)"
    using entry_text_plain [of p k] assms e by simp_all
  show ?thesis using plain_line(4,5) [OF t(1,2)] t(1,3) assms(3) e by (simp add: netset_line_def Let_def)
qed

lemma scan_loop_entries:
  assumes "\<forall>e \<in> set es. ValidateKind (ent_Prefix e) (ent_Kind e) = None \<and> \<not> Is4In6 (pfx_ip (ent_Prefix e)) \<and>
      familyMatches (Is4 (pfx_ip (ent_Prefix e))) (lim_Family limits) \<and> int (length (entry_text e)) < maxLine"
  shows "scan_loop maxLine (netset_line limits) first (raw_lines [] (netset_text es)) acc =
    Inr (acc\<lparr>fres_TotalRecords := fres_TotalRecords acc + length es, fres_Entries := fres_Entries acc @ es\<rparr>)"
  using assms
proof (induction es arbitrary: first acc)
  case Nil
  then show ?case by (simp add: netset_text_def)
next
  case (Cons e es)
  have t: "entry_text e \<noteq> []" "\<forall>c \<in> set (entry_text e). plain_char c"
    using entry_text_plain [of "ent_Prefix e" "ent_Kind e"] Cons.prems by (cases e; simp)+
  note plain = plain_line [OF t]
  have "raw_lines [] (netset_text (e # es)) = entry_text e # raw_lines [] (netset_text es)"
    using raw_lines_line [OF plain(6), of "[]"] by (simp add: netset_text_def)
  then show ?case
    using Cons plain netset_line_entry [of e limits acc] by (simp add: Let_def)
qed

text \<open>
  C29. Parsing a printed netset gives it back: any non-empty list of canonical entries of the declared
  family, written one per line, is read as exactly these entries in their order, with nothing malformed.
\<close>

theorem parseNetset_round_trip:
  assumes "es \<noteq> []" and "validLimits limits"
    and "\<forall>e \<in> set es. ValidateKind (ent_Prefix e) (ent_Kind e) = None \<and> \<not> Is4In6 (pfx_ip (ent_Prefix e)) \<and>
      familyMatches (Is4 (pfx_ip (ent_Prefix e))) (lim_Family limits) \<and> int (length (entry_text e)) < lim_MaxLineBytes limits"
  shows "parseNetset (netset_text es) limits =
    Inr \<lparr>fres_Entries = es, fres_TotalRecords = length es, fres_Malformed = 0, fres_Metadata = zero_Metadata\<rparr>"
proof -
  have "netset_text es \<noteq> []" "code (last (netset_text es)) = 10"
    using assms(1) by (cases es rule: rev_cases; simp add: netset_text_def)+
  moreover have "flt_le (flt_ratio 0 n) (lim_MaxMalformedRatio limits)" for n
    using assms(2) by (cases "lim_MaxMalformedRatio limits") (auto simp: validLimits_def flt_ratio_def float64_def)
  ultimately show ?thesis
    using scan_loop_entries [OF assms(3), of True zero_Result] assms(1,2)
    by (simp add: parseNetset_def scan_def zero_Result_def malformedAllowed_def validLimits_def)
qed

subsection \<open>A concrete feed\<close>

definition sample_range :: Entry where
  "sample_range = \<lparr>ent_Prefix = Prefix (Addr4 0x08080800) 25, ent_Kind = KindRange\<rparr>"

definition sample_policy :: ValidationPolicy where
  "sample_policy = \<lparr>vp_ExpectedMinEntries = 1, vp_ExpectedMaxEntries = 10, vp_MaxGrowthRatio = Fin 2, vp_MaxShrinkRatio = Fin (1 / 2),
     vp_PreviousAcceptedEntries = 0, vp_Now = 2000 * second, vp_MaxMetadataAge = 0, vp_MaxFutureSkew = 0\<rparr>"

definition sample_feed_result :: feed_Result where
  "sample_feed_result = zero_Result\<lparr>fres_Entries := [sample_range, sample_range], fres_TotalRecords := 2\<rparr>"

definition sample_limits :: Limits where
  "sample_limits = \<lparr>lim_Family = FamilyIPv4, lim_MaxLineBytes = 64, lim_MaxMalformedLines = 0, lim_MaxMalformedRatio = Fin 0,
     lim_RequireFinalNewline = True\<rparr>"

lemma sample_range_ok:
  "entry_accepted sample_range" "canonical_entry sample_range = sample_range"
  "ValidateKind (ent_Prefix sample_range) (ent_Kind sample_range) = None" "\<not> Is4In6 (pfx_ip (ent_Prefix sample_range))"
proof -
  have c: "canonical (Prefix (Addr4 0x08080800) 25)" "fst (IsSafePrefix (Prefix (Addr4 0x08080800) 25))"
    using sample_prefix_safe(1) by (auto simp: IsSafePrefix_iff)
  then have "Masked (Prefix (Addr4 0x08080800) 25) = Prefix (Addr4 0x08080800) 25" by (simp add: canonical_def)
  with c show "entry_accepted sample_range" "canonical_entry sample_range = sample_range"
    "ValidateKind (ent_Prefix sample_range) (ent_Kind sample_range) = None" "\<not> Is4In6 (pfx_ip (ent_Prefix sample_range))"
    by (simp_all add: entry_accepted_def canonical_entry_def sample_range_def ValidateKind_None_iff)
qed

lemma sample_feed_validates: "\<exists>s. Validate sample_feed_result sample_policy = Inr s \<and> snp_Duplicates s = 1"
  using sample_range_ok(1,2)
  by (simp add: Validate_def sample_feed_result_def sample_policy_def validValidationPolicy_def zero_Result_def zero_Metadata_def
      Let_def canonical_entry_def go_time_defs)

theorem Validate_exact_witness:
  "\<exists>s. Validate sample_feed_result sample_policy = Inr s \<and> set (snp_Entries s) = {sample_range} \<and> distinct (snp_Entries s)"
proof -
  obtain s where s: "Validate sample_feed_result sample_policy = Inr s" using sample_feed_validates by blast
  have "{e \<in> set (fres_Entries sample_feed_result). entry_accepted e} = {sample_range}"
    using sample_range_ok(1) by (auto simp: sample_feed_result_def)
  then show ?thesis using Validate_exact [OF s] s sample_range_ok(2) by auto
qed

theorem Validate_order_independent_witness:
  "\<exists>s s'. Validate sample_feed_result sample_policy = Inr s \<and>
     Validate (sample_feed_result\<lparr>fres_Entries := [sample_range]\<rparr>) sample_policy = Inr s' \<and> snp_Version s = snp_Version s'"
proof -
  obtain s where s: "Validate sample_feed_result sample_policy = Inr s" using sample_feed_validates by blast
  have "\<exists>s'. Validate (sample_feed_result\<lparr>fres_Entries := [sample_range]\<rparr>) sample_policy = Inr s'"
    using sample_range_ok(1,2)
    by (simp add: Validate_def sample_feed_result_def sample_policy_def validValidationPolicy_def zero_Result_def zero_Metadata_def
        Let_def canonical_entry_def go_time_defs)
  then obtain s' where s': "Validate (sample_feed_result\<lparr>fres_Entries := [sample_range]\<rparr>) sample_policy = Inr s'" by blast
  have "set (fres_Entries sample_feed_result) = set (fres_Entries (sample_feed_result\<lparr>fres_Entries := [sample_range]\<rparr>))"
    by (simp add: sample_feed_result_def)
  from Validate_order_independent [OF s s' this] s s' show ?thesis by blast
qed

theorem Validate_storable_witness:
  "\<exists>s. Validate sample_feed_result sample_policy = Inr s \<and>
     validateSnapshot \<lparr>fs_Version = snp_Version s, fs_ETag = [], fs_LastModified = [], fs_Entries = snp_Entries s, fs_Rejected = 1\<rparr> 3 = None"
proof -
  obtain s where s: "Validate sample_feed_result sample_policy = Inr s" using sample_feed_validates by blast
  have "validValidator [] 256" "validValidator [] 128" by (simp_all add: validValidator_def has_crlfnul_def)
  from Validate_storable [OF s, of 3 "[]" "[]" 1] this s show ?thesis by auto
qed

lemma sample_limits_valid: "validLimits sample_limits"
  by (simp add: validLimits_def sample_limits_def)

lemma sample_text: "length (entry_text sample_range) = 10"
  using itoa.simps [of 8] itoa.simps [of 24] itoa.simps [of 2] by (simp add: entry_text_def sample_range_def prefix_String_def string4_def octets_def netip_defs)

theorem parseNetset_round_trip_witness:
  "parseNetset (netset_text [sample_range]) sample_limits =
     Inr \<lparr>fres_Entries = [sample_range], fres_TotalRecords = 1, fres_Malformed = 0, fres_Metadata = zero_Metadata\<rparr>"
  using parseNetset_round_trip [of "[sample_range]" sample_limits] sample_limits_valid sample_range_ok sample_text
  by (simp add: sample_limits_def familyMatches_def) (simp add: sample_range_def)

lemma sample_netset_parse: "\<exists>r. parseNetset (entry_text sample_range @ [byte 10]) sample_limits = Inr r"
proof -
  have e: "\<forall>e \<in> set [sample_range]. ValidateKind (ent_Prefix e) (ent_Kind e) = None \<and> \<not> Is4In6 (pfx_ip (ent_Prefix e)) \<and>
      familyMatches (Is4 (pfx_ip (ent_Prefix e))) (lim_Family sample_limits) \<and> int (length (entry_text e)) < 64"
    using sample_range_ok sample_text by (simp add: sample_limits_def familyMatches_def) (simp add: sample_range_def)
  show ?thesis
    using scan_loop_entries [OF e, of True zero_Result]
    by (auto simp: parseNetset_def scan_def netset_text_def sample_limits_def zero_Result_def malformedAllowed_def flt_ratio_def float64_def)
qed

end
