(* ===== verification/Feed_Spamhaus.thy ===== *)
theory Feed_Spamhaus
  imports Feed_Facts
begin

text \<open>
  The Spamhaus format and the parser as a whole: what \<^verbatim>\<open>feed.Parse\<close> accepts in any of the formats, and
  the round trip of a list of ranges through its JSON lines.
\<close>

subsection \<open>What the parser accepts\<close>

definition spamhaus_ok :: "(string \<Rightarrow> url option) \<Rightarrow> Family \<Rightarrow> feed_Result \<times> bool \<Rightarrow> bool" where
  "spamhaus_ok url_Parse family st \<longleftrightarrow> (case st of (r, metadataSeen) \<Rightarrow>
     (\<forall>e \<in> set (fres_Entries r). ValidateKind (ent_Prefix e) (ent_Kind e) = None \<and> ent_Kind e = KindRange \<and>
        \<not> Is4In6 (pfx_ip (ent_Prefix e)) \<and> familyMatches (Is4 (pfx_ip (ent_Prefix e))) family) \<and>
     fres_TotalRecords r = length (fres_Entries r) + fres_Malformed r \<and>
     (metadataSeen \<longrightarrow> 1 \<le> md_DeclaredRecords (fres_Metadata r) \<and>
        (\<exists>terms. url_Parse (md_TermsURL (fres_Metadata r)) = Some terms \<and> url_Scheme terms = ''https'' \<and> url_Hostname terms \<noteq> []) \<and>
        TrimSpace (md_Copyright (fres_Metadata r)) \<noteq> []))"

lemma spamhaus_metadata_ok:
  assumes "spamhaus_ok url_Parse family (acc, False)" and "spamhaus_metadata url_Parse line acc = Inr st"
  shows "spamhaus_ok url_Parse family st"
  using assms by (auto simp: spamhaus_ok_def spamhaus_metadata_def split: option.splits if_splits)

lemma spamhaus_line_cases:
  assumes "spamhaus_line url_Parse limits line (acc, seen) = Inr st"
  obtains "st = (acc, seen)"
    | "st = (count_malformed (acc\<lparr>fres_TotalRecords := fres_TotalRecords acc + 1\<rparr>), seen)"
    | "\<not> seen" and "spamhaus_metadata url_Parse (TrimSpace line) acc = Inr st"
    | prefix cidr where "\<not> seen" and "NormalizePrefix cidr = Inr prefix"
      and "familyMatches (Is4 (pfx_ip prefix)) (lim_Family limits)"
      and "st = (acc\<lparr>fres_TotalRecords := fres_TotalRecords acc + 1,
             fres_Entries := fres_Entries acc @ [\<lparr>ent_Prefix = prefix, ent_Kind = KindRange\<rparr>]\<rparr>, False)"
proof (cases "Unmarshal (put_field ''TYPE'') (TrimSpace line) []")
  case None
  then show thesis using assms that(1,2) by (auto simp: spamhaus_line_def Let_def split: if_splits)
next
  case (Some envelopeType)
  show thesis
  proof (cases "TrimSpace line = [] \<or> envelopeType = ''metadata''")
    case True
    then show thesis using assms Some that(1,3) by (auto simp: spamhaus_line_def Let_def split: if_splits)
  next
    case False
    then have seen: "\<not> seen" using assms Some by (auto simp: spamhaus_line_def Let_def)
    show thesis
    proof (cases "Unmarshal (put_field ''CIDR'') (TrimSpace line) []")
      case None
      then show thesis using assms Some False seen that(2) by (auto simp: spamhaus_line_def Let_def split: if_splits)
    next
      case (Some cidr)
      then show thesis
        using assms \<open>Unmarshal (put_field ''TYPE'') (TrimSpace line) [] = Some envelopeType\<close> False seen that(2)
          that(4) [OF seen, of cidr]
        by (cases "NormalizePrefix cidr") (auto simp: spamhaus_line_def Let_def split: if_splits)
    qed
  qed
qed

lemma spamhaus_line_ok:
  assumes "spamhaus_ok url_Parse (lim_Family limits) st" and "spamhaus_line url_Parse limits line st = Inr st'"
  shows "spamhaus_ok url_Parse (lim_Family limits) st'"
proof -
  obtain acc seen where st: "st = (acc, seen)" by (rule prod.exhaust)
  have "spamhaus_line url_Parse limits line (acc, seen) = Inr st'" using assms(2) st by simp
  then show ?thesis
  proof (cases rule: spamhaus_line_cases)
    case 3
    then show ?thesis using assms(1) st spamhaus_metadata_ok by simp
  next
    case (4 prefix cidr)
    then show ?thesis
      using assms(1) st NormalizePrefix_canonical [OF 4(2)] by (auto simp: spamhaus_ok_def ValidateKind_None_iff)
  qed (use assms(1) st in \<open>auto simp: spamhaus_ok_def count_malformed_def\<close>)
qed

lemma parseSpamhaus_accepts:
  assumes "parseSpamhaus url_Parse body limits = Inr r"
  shows "spamhaus_ok url_Parse (lim_Family limits) (r, True) \<and> md_DeclaredRecords (fres_Metadata r) = int (fres_TotalRecords r) \<and>
    malformedAllowed r limits \<and> body \<noteq> [] \<and> (lim_RequireFinalNewline limits \<longrightarrow> code (last body) = 10)"
proof -
  have s: "scan_loop (lim_MaxLineBytes limits) (spamhaus_line url_Parse limits) True (raw_lines [] body) (zero_Result, False) = Inr (r, True)"
    and rest: "md_DeclaredRecords (fres_Metadata r) = int (fres_TotalRecords r)" "malformedAllowed r limits" "body \<noteq> []"
      "lim_RequireFinalNewline limits \<longrightarrow> code (last body) = 10"
    using assms by (auto simp: parseSpamhaus_def scan_def split: sum.splits if_splits)
  have "spamhaus_ok url_Parse (lim_Family limits) (r, True)"
  proof (rule scan_loop_invariant [where P = "spamhaus_ok url_Parse (lim_Family limits)", OF _ _ s])
    show "spamhaus_ok url_Parse (lim_Family limits) (zero_Result, False)" by (simp add: spamhaus_ok_def zero_Result_def)
  qed (rule spamhaus_line_ok)
  then show ?thesis using rest by simp
qed

text \<open>
  C37. What the parser accepts, for any body and any format: every entry is a canonical value of its kind
  and of the family the feed declares, never an IPv4-mapped one; every record is either an entry or
  counted as malformed, and there is at least one; the malformed ones stay within the limits; a required
  final newline is there. A Spamhaus body gives ranges only, and its metadata declares exactly the number
  of records that were read and names its terms by an https URL with a host.
\<close>

theorem feed_Parse_sound:
  assumes "feed_Parse url_Parse format body limits = Inr r"
  shows "(\<forall>e \<in> set (fres_Entries r). ValidateKind (ent_Prefix e) (ent_Kind e) = None \<and> \<not> Is4In6 (pfx_ip (ent_Prefix e)) \<and>
      familyMatches (Is4 (pfx_ip (ent_Prefix e))) (lim_Family limits)) \<and>
    fres_TotalRecords r = length (fres_Entries r) + fres_Malformed r \<and> 0 < fres_TotalRecords r \<and>
    int (fres_Malformed r) \<le> lim_MaxMalformedLines limits \<and>
    flt_le (flt_ratio (int (fres_Malformed r)) (int (fres_TotalRecords r))) (lim_MaxMalformedRatio limits) \<and>
    body \<noteq> [] \<and> (lim_RequireFinalNewline limits \<longrightarrow> code (last body) = 10) \<and>
    (format = FormatSpamhausDROPJSONL \<longrightarrow>
      (\<forall>e \<in> set (fres_Entries r). ent_Kind e = KindRange) \<and>
      md_DeclaredRecords (fres_Metadata r) = int (fres_TotalRecords r) \<and>
      (\<exists>terms. url_Parse (md_TermsURL (fres_Metadata r)) = Some terms \<and> url_Scheme terms = ''https'' \<and> url_Hostname terms \<noteq> []))"
proof (cases "format = FormatSpamhausDROPJSONL")
  case True
  then have "parseSpamhaus url_Parse body limits = Inr r" using assms by (auto simp: feed_Parse_def split: if_splits)
  then show ?thesis
    using parseSpamhaus_accepts [of url_Parse body limits r] by (auto simp: spamhaus_ok_def malformedAllowed_def split: if_splits)
next
  case False
  then have "parseNetset body limits = Inr r" using assms by (auto simp: feed_Parse_def split: if_splits Format.splits)
  then show ?thesis using parseNetset_accepts False by blast
qed

subsection \<open>JSON text\<close>

definition quoted :: "string \<Rightarrow> string" where
  "quoted s = byte 34 # s @ [byte 34]"

fun scalar_text :: "json \<Rightarrow> string" where
  "scalar_text (JStr s) = quoted s"
| "scalar_text (JNum s) = s"
| "scalar_text _ = ''null''"

definition member_text :: "string \<times> json \<Rightarrow> string" where
  "member_text m = quoted (fst m) @ byte 58 # scalar_text (snd m)"

definition object_text :: "(string \<times> json) list \<Rightarrow> string" where
  "object_text ms = byte 123 # join [byte 44] (map member_text ms) @ [byte 125]"

text \<open>Text that needs no escapes, and the scalars that are written with it.\<close>

definition unescaped :: "string \<Rightarrow> bool" where
  "unescaped s \<longleftrightarrow> (\<forall>c \<in> set s. 32 \<le> code c \<and> code c \<le> 126 \<and> code c \<noteq> 34 \<and> code c \<noteq> 92)"

fun plain_scalar :: "json \<Rightarrow> bool" where
  "plain_scalar (JStr s) = unescaped s"
| "plain_scalar (JNum s) = (\<exists>n. s = itoa n)"
| "plain_scalar _ = False"

definition plain_member :: "string \<times> json \<Rightarrow> bool" where
  "plain_member m \<longleftrightarrow> unescaped (fst m) \<and> plain_scalar (snd m)"

lemma skip_space_stop: "\<not> json_space c \<Longrightarrow> skip_space (c # s) = c # s"
  by (simp add: skip_space_def)

lemma json_space_byte [simp]: "n < 256 \<Longrightarrow> json_space (byte n) \<longleftrightarrow> n = 32 \<or> n = 9 \<or> n = 10 \<or> n = 13"
  by (simp add: json_space_def)

lemma json_string_unescaped: "unescaped s \<Longrightarrow> json_string (s @ byte 34 # t) = Some (s, t)"
  by (induction s) (auto simp: unescaped_def)

lemma json_key_quoted: "unescaped k \<Longrightarrow> json_key (quoted k @ byte 58 # t) = Some (k, t)"
  using json_string_unescaped [of k "byte 58 # t"] by (simp add: json_key_def quoted_def skip_space_stop)

lemma json_number_itoa:
  assumes "t = [] \<or> code (hd t) = 44 \<or> code (hd t) = 125"
  shows "json_number (itoa n @ t) = Some (itoa n, t)"
proof -
  have rest: "json_fraction t = Some ([], t)" "json_exponent t = Some ([], t)" "\<not> (t \<noteq> [] \<and> is_digit (hd t))"
    using assms by (auto simp: json_fraction_def json_exponent_def is_digit_def split: list.splits)
  have "takeWhile is_digit t = []" "dropWhile is_digit t = t" using rest(3) by (cases t; auto)+
  then have digits: "json_digits (itoa n @ t) = Some (itoa n, t)"
    using itoa_digits [of _ n] by (simp add: json_digits_def)
  obtain c u where i: "itoa n = c # u" by (cases "itoa n") auto
  then have c: "is_digit c" using itoa_digits [of c n] by simp
  have "json_integer (itoa n @ t) = Some (itoa n, t)"
  proof (cases "code c = 48")
    case True
    then have "n = 0" using itoa_hd [of n] i by fastforce
    then show ?thesis by (simp add: json_integer_def)
  next
    case False
    then show ?thesis using digits i by (simp add: json_integer_def)
  qed
  moreover have "code c \<noteq> 45" using c by (auto simp: is_digit_def)
  ultimately show ?thesis using rest i by (simp add: json_number_def)
qed

lemma json_value_scalar:
  assumes "plain_scalar v" and "t = [] \<or> code (hd t) = 44 \<or> code (hd t) = 125"
  shows "json_value (Suc fuel) depth (scalar_text v @ t) = Some (v, t)"
  using assms(1)
proof (cases rule: plain_scalar.elims(2))
  case (1 s)
  then show ?thesis using json_string_unescaped [of s t] by (simp add: quoted_def skip_space_stop json_value.simps)
next
  case (2 s)
  then obtain n where n: "s = itoa n" by blast
  obtain c u where i: "itoa n = c # u" by (cases "itoa n") auto
  then have c: "is_digit c" using itoa_digits [of c n] by simp
  have "c \<noteq> CHR ''t''" "c \<noteq> CHR ''f''" "c \<noteq> CHR ''n''" using c by (auto simp: is_digit_def code_def)
  moreover have "\<not> json_space c" "code c \<noteq> 34" "code c \<noteq> 123" "code c \<noteq> 91" using c by (auto simp: is_digit_def json_space_def)
  ultimately show ?thesis
    using json_number_itoa [OF assms(2), of n] 2(1) n i by (simp add: skip_space_stop json_value.simps)
qed

lemma json_members_text:
  assumes "ms \<noteq> []" and "\<forall>m \<in> set ms. plain_member m" and "length ms < fuel"
  shows "json_members fuel depth (join [byte 44] (map member_text ms) @ byte 125 # t) = Some (ms, t)"
  using assms
proof (induction ms arbitrary: fuel rule: list_nonempty_induct)
  case (single m)
  then obtain f where f: "fuel = Suc (Suc f)" by (cases fuel; cases "fuel - 1") auto
  show ?case
    using single(1) json_key_quoted [of "fst m" "scalar_text (snd m) @ byte 125 # t"]
      json_value_scalar [of "snd m" "byte 125 # t" f depth] f
    by (simp add: member_text_def [of m] plain_member_def [of m] skip_space_stop json_members.simps(2) [of "Suc f"])
next
  case (cons m ms)
  then obtain f where f: "fuel = Suc (Suc f)" by (cases fuel; cases "fuel - 1") auto
  let ?rest = "join [byte 44] (map member_text ms) @ byte 125 # t"
  have "join [byte 44] (map member_text (m # ms)) = member_text m @ byte 44 # join [byte 44] (map member_text ms)"
    using cons.hyps by (cases ms) auto
  moreover have "json_members (Suc f) depth ?rest = Some (ms, t)" using cons f by simp
  ultimately show ?case
    using cons.prems(1) json_key_quoted [of "fst m" "scalar_text (snd m) @ byte 44 # ?rest"]
      json_value_scalar [of "snd m" "byte 44 # ?rest" f depth] f
    by (simp add: member_text_def [of m] plain_member_def [of m] skip_space_stop json_members.simps(2) [of "Suc f"])
qed

lemma length_join_members: "length ms \<le> length (join [byte 44] (map member_text ms))"
proof (induction ms)
  case (Cons m ms)
  then show ?case by (cases ms) (auto simp: member_text_def quoted_def)
qed simp

text \<open>Reading an object that was written without escapes gives its members back.\<close>

lemma json_parse_object:
  assumes "ms \<noteq> []" and "\<forall>m \<in> set ms. plain_member m"
  shows "json_parse (object_text ms) = Some (JObj ms)"
proof -
  obtain m rest where m: "ms = m # rest" using assms(1) by (cases ms) auto
  have "\<exists>u. join [byte 44] (map member_text ms) @ [byte 125] = byte 34 # u"
    using m by (cases rest) (auto simp: member_text_def quoted_def)
  moreover obtain f where "2 * length (object_text ms) + 2 = Suc f" "length ms < f"
    using length_join_members [of ms] by (simp add: object_text_def)
  moreover have "maxNestingDepth \<noteq> 0" by (simp add: maxNestingDepth_def)
  ultimately have "json_value (2 * length (object_text ms) + 2) maxNestingDepth (object_text ms) = Some (JObj ms, [])"
    using json_members_text [OF assms, of f "maxNestingDepth - 1" "[]"] by (auto simp: object_text_def skip_space_stop json_value.simps)
  then show ?thesis by (simp add: json_parse_def skip_space_def)
qed

subsection \<open>The round trip\<close>

text \<open>A list of ranges as the publisher writes it: a line per range, then the terminal metadata.\<close>

definition range_line :: "netip_prefix \<Rightarrow> string" where
  "range_line p = object_text [(''cidr'', JStr (prefix_String p))]"

definition metadata_line :: "nat \<Rightarrow> string \<Rightarrow> string \<Rightarrow> nat \<Rightarrow> string" where
  "metadata_line timestamp copyright terms records =
     object_text [(''type'', JStr ''metadata''), (''timestamp'', JNum (itoa timestamp)), (''copyright'', JStr copyright),
       (''terms'', JStr terms), (''records'', JNum (itoa records))]"

definition spamhaus_text :: "netip_prefix list \<Rightarrow> string \<Rightarrow> string" where
  "spamhaus_text ps metadata = concat (map (\<lambda>p. range_line p @ [byte 10]) ps) @ metadata @ [byte 10]"

lemma object_line:
  assumes "\<forall>m \<in> set ms. plain_member m"
  shows "dropCR (object_text ms) = object_text ms" and "TrimPrefix (object_text ms) byte_order_mark = object_text ms"
    and "utf8_valid (map code (object_text ms))" and "TrimSpace (object_text ms) = object_text ms"
    and "\<forall>c \<in> set (object_text ms). code c \<noteq> 10" and "object_text ms \<noteq> []"
proof -
  have "32 \<le> code c \<and> code c \<le> 126" if "m \<in> set ms" "c \<in> set (member_text m)" for m c
  proof -
    have "plain_member m" using assms that(1) by blast
    then show ?thesis
      using that(2) itoa_digits
      by (cases "snd m") (auto simp: member_text_def quoted_def plain_member_def unescaped_def is_digit_def dest!: itoa_digits)
  qed
  then have g: "\<forall>c \<in> set (object_text ms). 32 \<le> code c \<and> code c \<le> 126"
    using set_join [of "[byte 44]" "map member_text ms"] by (fastforce simp: object_text_def)
  show "object_text ms \<noteq> []" by (simp add: object_text_def)
  show "dropCR (object_text ms) = object_text ms" by (simp add: dropCR_def object_text_def)
  show "TrimPrefix (object_text ms) byte_order_mark = object_text ms"
    by (simp add: TrimPrefix_def byte_order_mark_def object_text_def code_eq_iff [symmetric])
  show "utf8_valid (map code (object_text ms))" using g by (intro utf8_valid_ascii) (fastforce simp: image_iff)
  show "TrimSpace (object_text ms) = object_text ms" by (intro TrimSpace_graphic) (simp_all add: object_text_def)
  show "\<forall>c \<in> set (object_text ms). code c \<noteq> 10" using g by force
qed

lemma foldName_fields [simp]:
  "foldName ''cidr'' = ''CIDR''" "foldName ''type'' = ''TYPE''" "foldName ''timestamp'' = ''TIMESTAMP''"
  "foldName ''copyright'' = ''COPYRIGHT''" "foldName ''terms'' = ''TERMS''" "foldName ''records'' = ''RECORDS''"
  by code_simp+

lemma unescaped_fields [simp]:
  "unescaped ''cidr''" "unescaped ''type''" "unescaped ''timestamp''" "unescaped ''copyright''" "unescaped ''terms''"
  "unescaped ''records''" "unescaped ''metadata''"
  by (simp_all add: unescaped_def code_def)

lemma prefix_String_unescaped:
  assumes "canonical p" and "\<not> Is4In6 (pfx_ip p)"
  shows "unescaped (prefix_String p)"
proof -
  have "\<forall>c \<in> set (prefix_String p). plain_char c"
    using entry_text_plain [of p KindRange] assms by (simp add: ValidateKind_None_iff entry_text_def)
  then show ?thesis by (fastforce simp: unescaped_def plain_char_def)
qed

lemma spamhaus_line_range:
  assumes "canonical p" and "\<not> Is4In6 (pfx_ip p)" and "familyMatches (Is4 (pfx_ip p)) (lim_Family limits)"
  shows "spamhaus_line url_Parse limits (range_line p) (acc, False) =
    Inr (acc\<lparr>fres_TotalRecords := fres_TotalRecords acc + 1,
      fres_Entries := fres_Entries acc @ [\<lparr>ent_Prefix = p, ent_Kind = KindRange\<rparr>]\<rparr>, False)"
proof -
  let ?ms = "[(''cidr'', JStr (prefix_String p))]"
  have m: "\<forall>m \<in> set ?ms. plain_member m" using prefix_String_unescaped [OF assms(1,2)] by (simp add: plain_member_def)
  have "Unmarshal (put_field ''TYPE'') (object_text ?ms) [] = Some []"
    "Unmarshal (put_field ''CIDR'') (object_text ?ms) [] = Some (prefix_String p)"
    using json_parse_object [OF _ m] by (simp_all add: Unmarshal_def put_field_def)
  then show ?thesis
    using object_line(4,6) [OF m] NormalizePrefix_String [OF assms(1,2)] assms(3)
    by (simp add: spamhaus_line_def range_line_def Let_def)
qed

lemma spamhaus_line_metadata:
  assumes "unescaped copyright" and "unescaped terms" and "TrimSpace copyright \<noteq> []" and "length copyright \<le> 2048" and "length terms \<le> 2048"
    and "url_Parse terms = Some u" and "url_Scheme u = ''https''" and "url_Hostname u \<noteq> []"
    and "0 < timestamp" and "int timestamp \<le> max_int64" and "0 < records" and "int records \<le> max_int64"
  shows "spamhaus_line url_Parse limits (metadata_line timestamp copyright terms records) (acc, False) =
    Inr (acc\<lparr>fres_Metadata := \<lparr>md_GeneratedAt = time_Unix64 (int timestamp), md_DeclaredRecords = int records,
      md_Copyright = copyright, md_TermsURL = terms\<rparr>\<rparr>, True)"
proof -
  let ?ms = "[(''type'', JStr ''metadata''), (''timestamp'', JNum (itoa timestamp)), (''copyright'', JStr copyright),
    (''terms'', JStr terms), (''records'', JNum (itoa records))]"
  have m: "\<forall>m \<in> set ?ms. plain_member m" using assms(1,2) by (auto simp: plain_member_def)
  have n: "Atoi (itoa timestamp) = Some (int timestamp)" "Atoi (itoa records) = Some (int records)"
    using assms(10,12) by (auto intro!: Atoi_itoa simp: max_int64_def)
  have "Unmarshal (put_field ''TYPE'') (object_text ?ms) [] = Some ''metadata''"
    using json_parse_object [OF _ m] by (simp add: Unmarshal_def put_field_def)
  moreover have "Unmarshal put_metadata (object_text ?ms) zero_spamhausMetadata =
      Some \<lparr>sm_Type = ''metadata'', sm_Timestamp = int timestamp, sm_Copyright = copyright, sm_Terms = terms, sm_Records = int records\<rparr>"
    using json_parse_object [OF _ m] n by (simp add: Unmarshal_def put_metadata_def zero_spamhausMetadata_def)
  ultimately show ?thesis
    using object_line(4,6) [OF m] assms
    by (simp add: spamhaus_line_def spamhaus_metadata_def metadata_line_def Let_def)
qed

lemma scan_loop_ranges:
  assumes "\<forall>p \<in> set ps. ValidateKind p KindRange = None \<and> \<not> Is4In6 (pfx_ip p) \<and>
      familyMatches (Is4 (pfx_ip p)) (lim_Family limits) \<and> int (length (range_line p)) < maxLine"
  shows "\<exists>first'. scan_loop maxLine (spamhaus_line url_Parse limits) first
      (raw_lines [] (concat (map (\<lambda>p. range_line p @ [byte 10]) ps) @ rest)) (acc, False) =
    scan_loop maxLine (spamhaus_line url_Parse limits) first' (raw_lines [] rest)
      (acc\<lparr>fres_TotalRecords := fres_TotalRecords acc + length ps,
        fres_Entries := fres_Entries acc @ map (\<lambda>p. \<lparr>ent_Prefix = p, ent_Kind = KindRange\<rparr>) ps\<rparr>, False)"
  using assms
proof (induction ps arbitrary: first acc)
  case Nil
  then show ?case by (auto intro: exI [of _ first])
next
  case (Cons p ps)
  have can: "canonical p" using Cons.prems by (simp add: ValidateKind_None_iff)
  then have "\<forall>m \<in> set [(''cidr'', JStr (prefix_String p))]. plain_member m"
    using prefix_String_unescaped Cons.prems by (simp add: plain_member_def)
  note line = object_line [OF this, folded range_line_def]
  let ?next = "acc\<lparr>fres_TotalRecords := fres_TotalRecords acc + 1,
    fres_Entries := fres_Entries acc @ [\<lparr>ent_Prefix = p, ent_Kind = KindRange\<rparr>]\<rparr>"
  have "raw_lines [] (concat (map (\<lambda>p. range_line p @ [byte 10]) (p # ps)) @ rest) =
      range_line p # raw_lines [] (concat (map (\<lambda>p. range_line p @ [byte 10]) ps) @ rest)"
    using raw_lines_line [OF line(5), of "[]"] by simp
  then have "scan_loop maxLine (spamhaus_line url_Parse limits) first
        (raw_lines [] (concat (map (\<lambda>p. range_line p @ [byte 10]) (p # ps)) @ rest)) (acc, False) =
      scan_loop maxLine (spamhaus_line url_Parse limits) False
        (raw_lines [] (concat (map (\<lambda>p. range_line p @ [byte 10]) ps) @ rest)) (?next, False)"
    using Cons.prems line(1-3) spamhaus_line_range [OF can, of limits url_Parse acc] by (simp add: Let_def)
  moreover obtain first' where "scan_loop maxLine (spamhaus_line url_Parse limits) False
        (raw_lines [] (concat (map (\<lambda>p. range_line p @ [byte 10]) ps) @ rest)) (?next, False) =
      scan_loop maxLine (spamhaus_line url_Parse limits) first' (raw_lines [] rest)
        (?next\<lparr>fres_TotalRecords := fres_TotalRecords ?next + length ps,
          fres_Entries := fres_Entries ?next @ map (\<lambda>p. \<lparr>ent_Prefix = p, ent_Kind = KindRange\<rparr>) ps\<rparr>, False)"
    using Cons.IH [of False ?next] Cons.prems by auto
  ultimately show ?case by (intro exI [of _ first']) simp
qed

text \<open>
  C30. Parsing a printed Spamhaus list gives it back: canonical ranges of the declared family, one JSON
  object per line, closed by a metadata object that declares their number (the parser takes it as the last
  record), are read as exactly these
  ranges in their order, with nothing malformed and with the metadata as it was written.
\<close>

theorem feed_Parse_spamhaus_round_trip:
  assumes "ps \<noteq> []" and "validLimits limits" and "int (length ps) \<le> max_int64"
    and ranges: "\<forall>p \<in> set ps. ValidateKind p KindRange = None \<and> \<not> Is4In6 (pfx_ip p) \<and>
      familyMatches (Is4 (pfx_ip p)) (lim_Family limits) \<and> int (length (range_line p)) < lim_MaxLineBytes limits"
    and "unescaped copyright" and "unescaped terms" and "TrimSpace copyright \<noteq> []"
    and "length copyright \<le> 2048" and "length terms \<le> 2048"
    and "url_Parse terms = Some u" and "url_Scheme u = ''https''" and "url_Hostname u \<noteq> []"
    and "0 < timestamp" and "int timestamp \<le> max_int64"
    and short: "int (length (metadata_line timestamp copyright terms (length ps))) < lim_MaxLineBytes limits"
  shows "feed_Parse url_Parse FormatSpamhausDROPJSONL
      (spamhaus_text ps (metadata_line timestamp copyright terms (length ps))) limits =
    Inr \<lparr>fres_Entries = map (\<lambda>p. \<lparr>ent_Prefix = p, ent_Kind = KindRange\<rparr>) ps, fres_TotalRecords = length ps, fres_Malformed = 0,
      fres_Metadata = \<lparr>md_GeneratedAt = time_Unix64 (int timestamp), md_DeclaredRecords = int (length ps),
        md_Copyright = copyright, md_TermsURL = terms\<rparr>\<rparr>"
proof -
  let ?meta = "metadata_line timestamp copyright terms (length ps)"
  let ?read = "zero_Result\<lparr>fres_TotalRecords := length ps, fres_Entries := map (\<lambda>p. \<lparr>ent_Prefix = p, ent_Kind = KindRange\<rparr>) ps\<rparr>"
  have "\<forall>m \<in> set [(''type'', JStr ''metadata''), (''timestamp'', JNum (itoa timestamp)), (''copyright'', JStr copyright),
      (''terms'', JStr terms), (''records'', JNum (itoa (length ps)))]. plain_member m"
    using assms(5,6) by (auto simp: plain_member_def)
  note line = object_line [OF this, folded metadata_line_def]
  have last: "raw_lines [] (?meta @ [byte 10]) = [?meta]" using raw_lines_line [OF line(5), of "[]" "[]"] by simp
  obtain first' where "scan_loop (lim_MaxLineBytes limits) (spamhaus_line url_Parse limits) True
      (raw_lines [] (spamhaus_text ps ?meta)) (zero_Result, False) =
    scan_loop (lim_MaxLineBytes limits) (spamhaus_line url_Parse limits) first' [?meta] (?read, False)"
    using scan_loop_ranges [OF ranges, of url_Parse True "?meta @ [byte 10]" zero_Result] last
    by (auto simp: spamhaus_text_def zero_Result_def)
  then have scanned: "scan_loop (lim_MaxLineBytes limits) (spamhaus_line url_Parse limits) True
      (raw_lines [] (spamhaus_text ps ?meta)) (zero_Result, False) =
    Inr (?read\<lparr>fres_Metadata := \<lparr>md_GeneratedAt = time_Unix64 (int timestamp), md_DeclaredRecords = int (length ps),
        md_Copyright = copyright, md_TermsURL = terms\<rparr>\<rparr>, True)"
    using line(1-3) short spamhaus_line_metadata [of copyright terms url_Parse u timestamp "length ps" limits ?read] assms
    by (simp add: Let_def)
  moreover have "spamhaus_text ps ?meta \<noteq> []" "code (last (spamhaus_text ps ?meta)) = 10" by (simp_all add: spamhaus_text_def)
  moreover have "flt_le (flt_ratio 0 n) (lim_MaxMalformedRatio limits)" for n
    using assms(2) by (cases "lim_MaxMalformedRatio limits") (auto simp: validLimits_def flt_ratio_def float64_def)
  ultimately show ?thesis
    using assms(1,2)
    by (simp add: feed_Parse_def parseSpamhaus_def scan_def zero_Result_def malformedAllowed_def validLimits_def)
qed

subsection \<open>A concrete list\<close>

definition sample_url :: url where
  "sample_url = \<lparr>url_Scheme = ''https'', url_Host = ''a.b'', url_Hostname = ''a.b'', url_HasUser = False, url_Fragment = []\<rparr>"

definition sample_url_Parse :: "string \<Rightarrow> url option" where
  "sample_url_Parse s = (if s = ''https://a.b/c'' then Some sample_url else None)"

definition sample_long_lines :: Limits where
  "sample_long_lines = sample_limits\<lparr>lim_MaxLineBytes := 4096\<rparr>"

lemma sample_long_valid: "validLimits sample_long_lines"
  using sample_limits_valid by (simp add: validLimits_def sample_long_lines_def)

lemma length_itoa_sample: "length (itoa 7) = 1" "length (itoa 1) = 1"
  by (simp_all add: itoa.simps [of 7] itoa.simps [of "Suc 0"])

lemma sample_list_lines:
  "int (length (range_line (ent_Prefix sample_range))) < 4096"
  "int (length (metadata_line 7 ''x'' ''https://a.b/c'' 1)) < 4096"
proof -
  have "length (prefix_String (ent_Prefix sample_range)) = 10" using sample_text by (simp add: entry_text_def sample_range_def)
  then show "int (length (range_line (ent_Prefix sample_range))) < 4096"
    by (simp add: range_line_def object_text_def member_text_def quoted_def)
  show "int (length (metadata_line 7 ''x'' ''https://a.b/c'' 1)) < 4096"
    by (simp add: metadata_line_def object_text_def member_text_def quoted_def length_itoa_sample [simplified])
qed

lemma sample_terms: "unescaped ''x''" "unescaped ''https://a.b/c''" "TrimSpace ''x'' \<noteq> []"
  by (simp_all add: unescaped_def code_def) code_simp

theorem feed_Parse_spamhaus_round_trip_witness:
  "feed_Parse sample_url_Parse FormatSpamhausDROPJSONL
      (spamhaus_text [ent_Prefix sample_range] (metadata_line 7 ''x'' ''https://a.b/c'' 1)) sample_long_lines =
    Inr \<lparr>fres_Entries = [sample_range], fres_TotalRecords = 1, fres_Malformed = 0,
      fres_Metadata = \<lparr>md_GeneratedAt = time_Unix64 7, md_DeclaredRecords = 1,
        md_Copyright = ''x'', md_TermsURL = ''https://a.b/c''\<rparr>\<rparr>"
proof -
  have "[\<lparr>ent_Prefix = ent_Prefix sample_range, ent_Kind = KindRange\<rparr>] = [sample_range]" by (simp add: sample_range_def)
  moreover have "ValidateKind (ent_Prefix sample_range) KindRange = None" "Is4 (pfx_ip (ent_Prefix sample_range))"
    using sample_range_ok(3) by (simp_all add: sample_range_def)
  moreover have "lim_MaxLineBytes sample_long_lines = 4096" "lim_Family sample_long_lines = FamilyIPv4"
    by (simp_all add: sample_long_lines_def sample_limits_def)
  ultimately show ?thesis
    using feed_Parse_spamhaus_round_trip [of "[ent_Prefix sample_range]" sample_long_lines "''x''" "''https://a.b/c''"
        sample_url_Parse sample_url 7]
      sample_long_valid sample_list_lines sample_range_ok(4) sample_terms
    by (simp add: sample_url_Parse_def sample_url_def max_int64_def familyMatches_def)
qed

lemma sample_netset_parsed: "\<exists>r. feed_Parse sample_url_Parse FormatPlain (entry_text sample_range @ [byte 10]) sample_limits = Inr r"
  using sample_netset_parse sample_limits_valid by (simp add: feed_Parse_def)

theorem feed_Parse_sound_witness:
  "\<exists>r. feed_Parse sample_url_Parse FormatPlain (entry_text sample_range @ [byte 10]) sample_limits = Inr r \<and>
     0 < fres_TotalRecords r \<and> fres_TotalRecords r = length (fres_Entries r) + fres_Malformed r"
  using sample_netset_parsed feed_Parse_sound by blast

end
