(* ===== verification/Store_Open.thy ===== *)
theory Store_Open
  imports Store_Schema Sha256
begin

text \<open>
  Opening the database: the embedded migrations (\<^verbatim>\<open>migrations/embed.go\<close>), their application in one
  transaction (\<^verbatim>\<open>state/migrate.go\<close>), and the two ways to open a store (\<^verbatim>\<open>state/store.go\<close>), for reading and
  writing and for reading only. The SQLite driver is the record \<open>sqlite\<close>: what it finds at a path, how it
  executes the statements of a migration on the tables, and what \<^verbatim>\<open>PRAGMA quick_check\<close> answers. The text of
  the data source name is not modelled; the driver gets the state of the path itself. The table
  \<^verbatim>\<open>schema_migrations\<close> is kept apart from the tables that the migrations create.
\<close>

subsection \<open>Definitions: embed.go\<close>

record Migration =
  mg_Version :: int
  mg_Name :: string
  mg_SQL :: string
  mg_Checksum :: string

text \<open>The directory of embedded files: name, whether it is a directory, and the bytes.\<close>

type_synonym embedded = "(string \<times> bool \<times> string) list"

definition HasSuffix :: "string \<Rightarrow> string \<Rightarrow> bool" where
  "HasSuffix s suffix = has_prefix (rev s) (rev suffix)"

definition migration_of :: "string \<Rightarrow> string \<Rightarrow> Migration option" where
  "migration_of name body =
     (case split_first (CHR ''_'') name of
        None \<Rightarrow> None
      | Some (number, rest) \<Rightarrow>
          (case Atoi number of
             None \<Rightarrow> None
           | Some version \<Rightarrow>
               if version < 1 then None
               else Some \<lparr>mg_Version = version, mg_Name = name, mg_SQL = body, mg_Checksum = sha256_hex body\<rparr>))"

fun embedded_migrations :: "embedded \<Rightarrow> Migration list option" where
  "embedded_migrations [] = Some []"
| "embedded_migrations ((name, isDir, body) # rest) =
     (if isDir \<or> \<not> HasSuffix name ''.sql'' then embedded_migrations rest
      else
        (case migration_of name body of
           None \<Rightarrow> None
         | Some m \<Rightarrow> (case embedded_migrations rest of None \<Rightarrow> None | Some ms \<Rightarrow> Some (m # ms))))"

definition version_order :: "Migration \<Rightarrow> Migration \<Rightarrow> int" where
  "version_order a b = cmp_Compare (mg_Version a) (mg_Version b)"

definition migrations_All :: "embedded \<Rightarrow> Migration list option" where
  "migrations_All files =
     (case embedded_migrations files of
        None \<Rightarrow> None
      | Some found \<Rightarrow>
          let migrations = sort_cmp version_order found in
          if (\<exists>i < length migrations. mg_Version (migrations ! i) \<noteq> int i + 1 \<or> mg_SQL (migrations ! i) = []
                \<or> mg_Checksum (migrations ! i) = []) then None
          else if migrations = [] then None
          else Some migrations)"

subsection \<open>Definitions: migrate.go\<close>

definition validateMigrations :: "Migration list \<Rightarrow> ErrorCategory option" where
  "validateMigrations items =
     (if items = [] then Some ErrMigration
      else
        let copyItems = sort_cmp version_order items in
        if (\<exists>i < length copyItems.
              let item = copyItems ! i in
              mg_Version item \<noteq> int i + 1 \<or> mg_Name item = [] \<or> mg_SQL item = []
              \<or> mg_Checksum item \<noteq> sha256_hex (mg_SQL item) \<or> mg_Version item \<noteq> mg_Version (items ! i))
        then Some ErrMigration else None)"

record migration_row =
  sm_version :: int
  sm_name :: string
  sm_checksum :: string
  sm_applied_at :: int

text \<open>A database file: the table of migrations, when there is one, and all other tables.\<close>

record 'd database_file =
  df_schema_migrations :: "migration_row list option"
  df_data :: 'd

datatype 'd path_state = NotExist | NotRegular | Regular "'d database_file"

record 'd sqlite =
  sq_Open :: "'d path_state \<Rightarrow> 'd database_file option"
  sq_OpenReadOnly :: "'d path_state \<Rightarrow> 'd database_file option"
  sq_Exec :: "string \<Rightarrow> 'd \<Rightarrow> 'd option"
  sq_QuickCheck :: "'d database_file \<Rightarrow> string list option"
  sq_Chmod :: "bool"

text \<open>\<open>sq_Open\<close> is the connection in mode \<^verbatim>\<open>rwc\<close> with its first ping and the four pragmas, which creates a file
  that does not exist; \<open>sq_OpenReadOnly\<close> the connection in mode \<^verbatim>\<open>ro\<close>; \<open>None\<close> is an error of the driver.\<close>

definition select_migrations :: "'d database_file \<Rightarrow> migration_row list option" where
  "select_migrations f = map_option (sort_cmp (\<lambda>a b. cmp_Compare (sm_version a) (sm_version b))) (df_schema_migrations f)"

definition applied_checksum :: "migration_row list \<Rightarrow> int \<Rightarrow> string option" where
  "applied_checksum rows version = map_of (rev (map (\<lambda>r. (sm_version r, sm_checksum r)) rows)) version"

definition applied_known :: "Migration list \<Rightarrow> migration_row list \<Rightarrow> bool" where
  "applied_known items rows =
     (\<forall>r \<in> set rows. \<not> (sm_version r < 1 \<or> sm_version r > int (length items)
        \<or> mg_Checksum (items ! nat (sm_version r - 1)) \<noteq> sm_checksum r))"

fun apply_pending ::
  "(string \<Rightarrow> 'd \<Rightarrow> 'd option) \<Rightarrow> int \<Rightarrow> migration_row list \<Rightarrow> Migration list \<Rightarrow> migration_row list \<Rightarrow> 'd \<Rightarrow>
   (migration_row list \<times> 'd) option" where
  "apply_pending ex now applied [] rows data = Some (rows, data)"
| "apply_pending ex now applied (item # items) rows data =
     (if applied_checksum applied (mg_Version item) \<noteq> None then apply_pending ex now applied items rows data
      else
        (case ex (mg_SQL item) data of
           None \<Rightarrow> None
         | Some data' \<Rightarrow>
             if mg_Version item \<in> set (map sm_version rows) then None
             else apply_pending ex now applied items
               (rows @ [\<lparr>sm_version = mg_Version item, sm_name = mg_Name item, sm_checksum = mg_Checksum item,
                  sm_applied_at = now\<rparr>]) data'))"

definition Migrate ::
  "'d sqlite \<Rightarrow> int \<Rightarrow> Migration list \<Rightarrow> 'd database_file \<Rightarrow> ErrorCategory option \<times> 'd database_file" where
  "Migrate sq now items f =
     (case validateMigrations items of
        Some e \<Rightarrow> (Some e, f)
      | None \<Rightarrow>
          let rows = (case df_schema_migrations f of None \<Rightarrow> [] | Some rows \<Rightarrow> rows);
              applied = the (select_migrations (f\<lparr>df_schema_migrations := Some rows\<rparr>))
          in
          if \<not> applied_known items applied then (Some ErrMigration, f)
          else
            (case apply_pending (sq_Exec sq) now applied items rows (df_data f) of
               None \<Rightarrow> (Some ErrMigration, f)
             | Some (rows', data') \<Rightarrow> (None, f\<lparr>df_schema_migrations := Some rows', df_data := data'\<rparr>)))"

subsection \<open>Definitions: store.go\<close>

record state_Options =
  so_Path :: string
  so_BusyTimeout :: duration
  so_IntegrityCheck :: bool

definition dataSourceName_ok :: "state_Options \<Rightarrow> bool" where
  "dataSourceName_ok options =
     (\<not> (so_Path options = [] \<or> \<not> has_prefix (so_Path options) ''/'' \<or> so_BusyTimeout options \<le> 0
         \<or> so_BusyTimeout options > minute))"

definition QuickCheck :: "'d sqlite \<Rightarrow> 'd database_file \<Rightarrow> ErrorCategory option" where
  "QuickCheck sq f =
     (case sq_QuickCheck sq f of
        None \<Rightarrow> Some ErrIntegrity
      | Some rows \<Rightarrow>
          if length rows > 100 \<or> (\<exists>r \<in> set rows. r \<noteq> ''ok'') \<or> length rows \<noteq> 1 then Some ErrIntegrity else None)"

definition state_Open ::
  "'d sqlite \<Rightarrow> int \<Rightarrow> embedded \<Rightarrow> state_Options \<Rightarrow> 'd path_state \<Rightarrow>
   (ErrorCategory, 'd database_file) result \<times> 'd path_state" where
  "state_Open sq now files options p =
     (if \<not> dataSourceName_ok options then (Inl ErrOpen, p)
      else
        (case sq_Open sq p of
           None \<Rightarrow> (Inl ErrOpen, p)
         | Some f \<Rightarrow>
             (case migrations_All files of
                None \<Rightarrow> (Inl ErrMigration, Regular f)
              | Some items \<Rightarrow>
                  (case Migrate sq now items f of
                     (Some e, f') \<Rightarrow> (Inl e, Regular f')
                   | (None, f') \<Rightarrow>
                       if so_IntegrityCheck options \<and> QuickCheck sq f' \<noteq> None then (Inl ErrIntegrity, Regular f')
                       else if \<not> sq_Chmod sq then (Inl ErrOpen, Regular f')
                       else (Inr f', Regular f')))))"

definition readOnlyDataSourceName_ok :: "state_Options \<Rightarrow> 'd path_state \<Rightarrow> bool" where
  "readOnlyDataSourceName_ok options p =
     (dataSourceName_ok options \<and> (case p of Regular f \<Rightarrow> True | _ \<Rightarrow> False))"

fun verify_rows :: "Migration list \<Rightarrow> migration_row list \<Rightarrow> bool" where
  "verify_rows [] [] = True"
| "verify_rows (item # items) (r # rows) =
     (sm_version r = mg_Version item \<and> sm_checksum r = mg_Checksum item \<and> verify_rows items rows)"
| "verify_rows _ _ = False"

definition verifyReadOnlyMigrations :: "embedded \<Rightarrow> 'd database_file \<Rightarrow> ErrorCategory option" where
  "verifyReadOnlyMigrations files f =
     (case migrations_All files of
        None \<Rightarrow> Some ErrMigration
      | Some items \<Rightarrow>
          (case select_migrations f of
             None \<Rightarrow> Some ErrMigration
           | Some rows \<Rightarrow> if verify_rows items rows then None else Some ErrMigration))"

definition state_OpenReadOnly ::
  "'d sqlite \<Rightarrow> embedded \<Rightarrow> state_Options \<Rightarrow> 'd path_state \<Rightarrow> (ErrorCategory, 'd database_file) result" where
  "state_OpenReadOnly sq files options p =
     (if \<not> readOnlyDataSourceName_ok options p then Inl ErrOpen
      else
        (case sq_OpenReadOnly sq p of
           None \<Rightarrow> Inl ErrOpen
         | Some f \<Rightarrow>
             (case verifyReadOnlyMigrations files f of
                Some e \<Rightarrow> Inl e
              | None \<Rightarrow> if so_IntegrityCheck options \<and> QuickCheck sq f \<noteq> None then Inl ErrIntegrity else Inr f)))"

definition SchemaVersion :: "'d database_file \<Rightarrow> (ErrorCategory, int) result" where
  "SchemaVersion f =
     (case df_schema_migrations f of
        None \<Rightarrow> Inl ErrQuery
      | Some rows \<Rightarrow> Inr (if rows = [] then 0 else Max (set (map sm_version rows))))"

subsection \<open>Facts: valid lists of migrations\<close>

definition numbered :: "Migration list \<Rightarrow> bool" where
  "numbered items = (\<forall>i < length items. mg_Version (items ! i) = int i + 1)"

lemma version_order [cmp_intros]: "cmp_order version_order"
  unfolding version_order_def by (rule cmp_order_key)

lemma numbered_sorted: "numbered items \<Longrightarrow> sorted_by version_order items"
  by (auto simp: numbered_def sorted_wrt_iff_nth_less version_order_def)

lemma numbered_sort:
  assumes "numbered items"
  shows "sort_cmp version_order items = items"
proof (rule cmp_order.sort_cmp_unique [OF version_order])
  show "sorted_by version_order items" by (rule numbered_sorted) (rule assms)
  show "x = y" if "x \<in> set items" "y \<in> set items" "version_order x y = 0" for x y
    using that assms by (auto simp: version_order_def in_set_conv_nth numbered_def)
qed simp

lemma numbered_versions: "numbered items \<Longrightarrow> mg_Version ` set items = {1..int (length items)}"
proof (rule set_eqI)
  fix v assume n: "numbered items"
  have "v \<in> mg_Version ` set items \<longleftrightarrow> (\<exists>i < length items. v = int i + 1)"
    using n by (auto simp: numbered_def in_set_conv_nth) (metis image_eqI nth_mem)
  also have "\<dots> \<longleftrightarrow> v \<in> {1..int (length items)}"
    by (auto intro!: exI [of _ "nat (v - 1)"])
  finally show "v \<in> mg_Version ` set items \<longleftrightarrow> v \<in> {1..int (length items)}" .
qed

lemma All_numbered: "migrations_All files = Some items \<Longrightarrow> numbered items \<and> items \<noteq> []"
  by (auto simp: migrations_All_def numbered_def Let_def split: option.splits if_splits)

lemma embedded_checksums:
  "embedded_migrations files = Some items \<Longrightarrow> m \<in> set items \<Longrightarrow> mg_Name m \<noteq> [] \<and> mg_Checksum m = sha256_hex (mg_SQL m)"
proof (induction files arbitrary: items rule: embedded_migrations.induct)
  case (2 name isDir body rest)
  show ?case
  proof (cases "isDir \<or> \<not> HasSuffix name ''.sql''")
    case True
    with 2 show ?thesis by simp
  next
    case False
    with 2 obtain m0 ms where m0: "migration_of name body = Some m0" and ms: "embedded_migrations rest = Some ms"
      and items: "items = m0 # ms"
      by (auto split: option.splits)
    have "mg_Name m0 \<noteq> [] \<and> mg_Checksum m0 = sha256_hex (mg_SQL m0)"
      using m0 False by (auto simp: migration_of_def HasSuffix_def split: option.splits if_splits prod.splits)
    with 2 False m0 ms items show ?thesis by auto
  qed
qed simp

text \<open>What the package embeds always passes the validation of the migrator.\<close>

lemma All_valid:
  assumes "migrations_All files = Some items"
  shows "validateMigrations items = None"
proof -
  from assms obtain found where found: "embedded_migrations files = Some found" and items: "items = sort_cmp version_order found"
    by (auto simp: migrations_All_def Let_def split: option.splits if_splits)
  note n = All_numbered [OF assms]
  have "mg_Name m \<noteq> [] \<and> mg_Checksum m = sha256_hex (mg_SQL m)" if "m \<in> set items" for m
    using embedded_checksums [OF found] that items by simp
  moreover have "mg_SQL (items ! i) \<noteq> []" if "i < length items" for i
    using assms that by (auto simp: migrations_All_def Let_def split: option.splits if_splits)
  ultimately show ?thesis
    using n numbered_sort [of items] by (auto simp: validateMigrations_def Let_def numbered_def)
qed

subsection \<open>Facts: applying the migrations\<close>

definition row_for :: "int \<Rightarrow> Migration \<Rightarrow> migration_row" where
  "row_for now item = \<lparr>sm_version = mg_Version item, sm_name = mg_Name item, sm_checksum = mg_Checksum item, sm_applied_at = now\<rparr>"

lemma row_for_simps [simp]:
  "sm_version (row_for now item) = mg_Version item" "sm_checksum (row_for now item) = mg_Checksum item"
  by (simp_all add: row_for_def)

lemma applied_checksum_None: "applied_checksum rows v = None \<longleftrightarrow> v \<notin> sm_version ` set rows"
  by (auto simp: applied_checksum_def map_of_eq_None_iff image_iff)

lemma apply_pending_rows:
  "apply_pending ex now applied items rows data = Some (rows', data') \<Longrightarrow>
   rows' = rows @ map (row_for now) (filter (\<lambda>i. mg_Version i \<notin> sm_version ` set applied) items)"
proof (induction items arbitrary: rows data)
  case (Cons item items)
  show ?case
  proof (cases "mg_Version item \<in> sm_version ` set applied")
    case True
    then have "applied_checksum applied (mg_Version item) \<noteq> None" by (simp add: applied_checksum_None)
    with Cons True show ?thesis by simp
  next
    case False
    then have "applied_checksum applied (mg_Version item) = None" by (simp add: applied_checksum_None)
    with Cons.prems obtain d1 where
      "apply_pending ex now applied items (rows @ [row_for now item]) d1 = Some (rows', data')"
      by (auto simp: row_for_def split: option.splits if_splits)
    from Cons.IH [OF this] False show ?thesis by simp
  qed
qed simp

lemma apply_pending_nothing:
  "\<forall>i \<in> set items. mg_Version i \<in> sm_version ` set applied \<Longrightarrow>
   apply_pending ex now applied items rows data = Some (rows, data)"
  by (induction items) (auto simp: applied_checksum_None)

lemma verify_rows_iff:
  "verify_rows items rows \<longleftrightarrow>
   list_all2 (\<lambda>i r. sm_version r = mg_Version i \<and> sm_checksum r = mg_Checksum i) items rows"
  by (induction items rows rule: verify_rows.induct) auto

text \<open>Rows of known migrations whose versions are all versions of the list are, in order, its rows.\<close>

lemma verify_sorted:
  assumes n: "numbered items" and d: "distinct (map sm_version rows)"
    and vs: "sm_version ` set rows = {1..int (length items)}"
    and known: "applied_known items rows"
  shows "verify_rows items (sort_cmp (\<lambda>a b. cmp_Compare (sm_version a) (sm_version b)) rows)"
proof -
  let ?s = "sort_cmp (\<lambda>a b. cmp_Compare (sm_version a) (sm_version b)) rows"
  have s: "sorted (map sm_version ?s)"
    using cmp_order.sorted_sort_cmp [OF cmp_order_key [of sm_version], of rows]
    by (simp add: sorted_wrt_map)
  have i: "sorted (map mg_Version items)" "distinct (map mg_Version items)"
    using n by (auto simp: numbered_def sorted_iff_nth_mono distinct_conv_nth)
  have eq: "map sm_version ?s = map mg_Version items"
    by (rule sorted_distinct_set_unique) (use s i d vs numbered_versions [OF n] in auto)
  from arg_cong [OF eq, of length] have len: "length ?s = length items" by simp
  have v: "sm_version (?s ! k) = mg_Version (items ! k)" if "k < length items" for k
    using arg_cong [OF eq, of "\<lambda>l. l ! k"] that len by simp
  show ?thesis
    unfolding verify_rows_iff list_all2_conv_all_nth
  proof (intro conjI allI impI)
    show "length items = length ?s" using len by simp
    fix k assume k: "k < length items"
    show "sm_version (?s ! k) = mg_Version (items ! k)" by (rule v) (rule k)
    have "?s ! k \<in> set rows" using len k by (metis nth_mem set_sort_cmp)
    with known v [OF k] n k show "sm_checksum (?s ! k) = mg_Checksum (items ! k)"
      by (auto simp: applied_known_def numbered_def)
  qed
qed

text \<open>The primary key of the table of migrations.\<close>

definition migrations_ok :: "'d database_file \<Rightarrow> bool" where
  "migrations_ok f = (case df_schema_migrations f of None \<Rightarrow> True | Some rows \<Rightarrow> distinct (map sm_version rows))"

lemma applied_known_sort [simp]: "applied_known items (sort_cmp c rows) = applied_known items rows"
  by (simp add: applied_known_def)

lemma applied_known_versions: "applied_known items rows \<Longrightarrow> sm_version ` set rows \<subseteq> {1..int (length items)}"
  by (auto simp: applied_known_def)

lemma applied_known_pending:
  "numbered items \<Longrightarrow> applied_known items (map (row_for now) (filter P items))"
  by (auto simp: applied_known_def numbered_def in_set_conv_nth)

lemma applied_known_append:
  "applied_known items (xs @ ys) \<longleftrightarrow> applied_known items xs \<and> applied_known items ys"
  by (auto simp: applied_known_def)

lemma distinct_append_pending:
  assumes "numbered items" and "distinct (map sm_version rows)"
  shows "distinct (map sm_version (rows @ map (row_for now) (filter (\<lambda>i. mg_Version i \<notin> sm_version ` set rows) items)))"
proof -
  have "distinct (map mg_Version items)"
    using assms(1) by (auto simp: numbered_def distinct_conv_nth)
  then have "distinct (map mg_Version (filter (\<lambda>i. mg_Version i \<notin> sm_version ` set rows) items))"
    by (simp add: distinct_map_filter)
  moreover have "sm_version r \<noteq> mg_Version i" if "r \<in> set rows" "mg_Version i \<notin> sm_version ` set rows" for r i
    using that by (metis image_eqI)
  ultimately show ?thesis using assms(2) by (auto simp: o_def)
qed

lemma Migrate_success:
  assumes items: "migrations_All files = Some items" and ok: "migrations_ok f"
    and run: "Migrate sq now items f = (None, f')"
  obtains rows where "df_schema_migrations f' = Some rows" and "distinct (map sm_version rows)"
    and "applied_known items rows" and "sm_version ` set rows = {1..int (length items)}"
proof -
  note n = All_numbered [OF items, THEN conjunct1]
  define old where "old = (case df_schema_migrations f of None \<Rightarrow> [] | Some rows \<Rightarrow> rows)"
  let ?applied = "sort_cmp (\<lambda>a b. cmp_Compare (sm_version a) (sm_version b)) old"
  have d: "distinct (map sm_version old)"
    using ok by (auto simp: migrations_ok_def old_def split: option.splits)
  from run obtain rows data where known: "applied_known items old"
    and pend: "apply_pending (sq_Exec sq) now ?applied items old (df_data f) = Some (rows, data)"
    and f': "f' = f\<lparr>df_schema_migrations := Some rows, df_data := data\<rparr>"
    by (auto simp: Migrate_def Let_def old_def select_migrations_def split: option.splits if_splits)
  have rows: "rows = old @ map (row_for now) (filter (\<lambda>i. mg_Version i \<notin> sm_version ` set old) items)"
    using apply_pending_rows [OF pend] by simp
  have "sm_version ` set rows = sm_version ` set old \<union> mg_Version ` set items"
    unfolding rows set_append image_Un by (auto simp: image_image)
  also have "\<dots> = {1..int (length items)}"
    using numbered_versions [OF n] applied_known_versions [OF known] by auto
  finally have "sm_version ` set rows = {1..int (length items)}" .
  moreover have "distinct (map sm_version rows)"
    unfolding rows by (rule distinct_append_pending [OF n d])
  moreover have "applied_known items rows"
    unfolding rows applied_known_append using known applied_known_pending [OF n] by blast
  ultimately show thesis using that f' by simp
qed

lemma Migrate_again:
  assumes items: "migrations_All files = Some items" and rows: "df_schema_migrations f = Some rows"
    and known: "applied_known items rows" and vs: "sm_version ` set rows = {1..int (length items)}"
  shows "Migrate sq now items f = (None, f)"
proof -
  note n = All_numbered [OF items, THEN conjunct1]
  have "\<forall>i \<in> set items. mg_Version i \<in> sm_version ` set (sort_cmp (\<lambda>a b. cmp_Compare (sm_version a) (sm_version b)) rows)"
    using numbered_versions [OF n] vs by auto
  then have "apply_pending (sq_Exec sq) now (sort_cmp (\<lambda>a b. cmp_Compare (sm_version a) (sm_version b)) rows)
      items rows (df_data f) = Some (rows, df_data f)"
    by (rule apply_pending_nothing)
  then show ?thesis
    using All_valid [OF items] known rows by (simp add: Migrate_def select_migrations_def Let_def)
qed

lemma SchemaVersion_complete:
  assumes "df_schema_migrations f = Some rows" and "sm_version ` set rows = {1..int n}" and "n > 0"
  shows "SchemaVersion f = Inr (int n)"
proof -
  have "rows \<noteq> []" using assms by auto
  moreover have "Max {1..int n} = int n" using assms(3) by (intro Max_eqI) auto
  ultimately show ?thesis using assms by (simp add: SchemaVersion_def)
qed

lemma state_Open_success:
  assumes "state_Open sq now files options p = (Inr f, p')"
  obtains f0 items where "dataSourceName_ok options" "sq_Open sq p = Some f0" "migrations_All files = Some items"
    "Migrate sq now items f0 = (None, f)" "so_IntegrityCheck options \<longrightarrow> QuickCheck sq f = None" "sq_Chmod sq" "p' = Regular f"
  using assms by (auto simp: state_Open_def split: if_splits option.splits prod.splits)

definition foreign_migration :: "embedded \<Rightarrow> 'd database_file \<Rightarrow> bool" where
  "foreign_migration files f =
     (\<exists>items rows. migrations_All files = Some items \<and> df_schema_migrations f = Some rows \<and> \<not> applied_known items rows)"

lemma foreign_refused:
  assumes "foreign_migration files g"
  shows "migrations_All files = Some items \<Longrightarrow> Migrate sq now items g = (Some ErrMigration, g)"
    and "verifyReadOnlyMigrations files g = Some ErrMigration"
proof -
  from assms obtain items' rows where i: "migrations_All files = Some items'" and r: "df_schema_migrations g = Some rows"
    and u: "\<not> applied_known items' rows"
    by (auto simp: foreign_migration_def)
  show "migrations_All files = Some items \<Longrightarrow> Migrate sq now items g = (Some ErrMigration, g)"
    using i r u All_valid [OF i] by (auto simp: Migrate_def select_migrations_def Let_def)
  have "applied_known items' rows" if v: "verify_rows items' (sort_cmp c rows)" for c
  proof -
    note n = All_numbered [OF i, THEN conjunct1]
    have "\<not> (sm_version r < 1 \<or> sm_version r > int (length items')
        \<or> mg_Checksum (items' ! nat (sm_version r - 1)) \<noteq> sm_checksum r)" if "r \<in> set rows" for r
    proof -
      from that obtain k where "k < length (sort_cmp c rows)" "sort_cmp c rows ! k = r"
        by (metis in_set_conv_nth set_sort_cmp)
      with v n show ?thesis
        by (auto simp: verify_rows_iff list_all2_conv_all_nth numbered_def)
    qed
    then show ?thesis by (auto simp: applied_known_def)
  qed
  with i r u show "verifyReadOnlyMigrations files g = Some ErrMigration"
    by (auto simp: verifyReadOnlyMigrations_def select_migrations_def)
qed

text \<open>What a successful open leaves: the driver that opens an existing file as it is accepts it again.\<close>

lemma state_Open_verified:
  assumes keys: "\<And>g. sq_Open sq p = Some g \<Longrightarrow> migrations_ok g"
    and opened: "state_Open sq now files options p = (Inr f, p')"
  obtains items rows where "migrations_All files = Some items" "df_schema_migrations f = Some rows" "applied_known items rows"
    "sm_version ` set rows = {1..int (length items)}" "verifyReadOnlyMigrations files f = None"
proof -
  from opened obtain f0 items where o: "sq_Open sq p = Some f0" "migrations_All files = Some items"
    "Migrate sq now items f0 = (None, f)"
    by (rule state_Open_success)
  obtain rows where r: "df_schema_migrations f = Some rows" "distinct (map sm_version rows)" "applied_known items rows"
    "sm_version ` set rows = {1..int (length items)}"
    by (rule Migrate_success [OF o(2) keys [OF o(1)] o(3)])
  have "verifyReadOnlyMigrations files f = None"
    using verify_sorted [OF All_numbered [OF o(2), THEN conjunct1] r(2,4,3)] o(2) r(1)
    by (simp add: verifyReadOnlyMigrations_def select_migrations_def)
  with o(2) r that show thesis by blast
qed

lemma state_Open_then_read:
  assumes "\<And>g. sq_OpenReadOnly sq (Regular g) = Some g" and "\<And>g. sq_Open sq p = Some g \<Longrightarrow> migrations_ok g"
    and opened: "state_Open sq now files options p = (Inr f, p')"
  shows "state_OpenReadOnly sq files options (Regular f) = Inr f"
proof -
  from opened obtain f0 items where "dataSourceName_ok options" "so_IntegrityCheck options \<longrightarrow> QuickCheck sq f = None"
    by (rule state_Open_success)
  moreover obtain items rows where "verifyReadOnlyMigrations files f = None"
    by (rule state_Open_verified [OF assms(2) opened])
  ultimately show ?thesis using assms(1) by (auto simp: state_OpenReadOnly_def readOnlyDataSourceName_ok_def)
qed

subsection \<open>Properties\<close>

text \<open>C18. A database that was opened once opens again without any change: after a successful open the table of
  migrations holds exactly the embedded ones, so the read-only open accepts the file, a second open
  applies nothing and returns the same file, and the schema version is the number of migrations. A file
  that records a migration of an unknown version or with another checksum is refused by both ways to open
  it, and refusing it leaves it as it was. The driver is any that opens an existing file as it is.\<close>

theorem Open_migrates_once:
  assumes rw: "\<And>g. sq_Open sq (Regular g) = Some g" and ro: "\<And>g. sq_OpenReadOnly sq (Regular g) = Some g"
    and keys: "\<And>g. sq_Open sq p = Some g \<Longrightarrow> migrations_ok g"
    and opened: "state_Open sq now files options p = (Inr f, p')"
  shows "p' = Regular f \<and>
    state_OpenReadOnly sq files options p' = Inr f \<and>
    state_Open sq now' files options p' = (Inr f, p') \<and>
    (\<exists>items. migrations_All files = Some items \<and> SchemaVersion f = Inr (int (length items)) \<and> length items > 0) \<and>
    (\<forall>g. foreign_migration files g \<longrightarrow>
       state_Open sq now' files options (Regular g) = (Inl ErrMigration, Regular g) \<and>
       state_OpenReadOnly sq files options (Regular g) = Inl ErrMigration)"
proof -
  from opened obtain f0 items where o: "dataSourceName_ok options" "migrations_All files = Some items"
    "so_IntegrityCheck options \<longrightarrow> QuickCheck sq f = None" "sq_Chmod sq" "p' = Regular f"
    by (rule state_Open_success)
  obtain rows where r: "df_schema_migrations f = Some rows" "applied_known items rows"
    "sm_version ` set rows = {1..int (length items)}"
    using state_Open_verified [OF keys opened] o(2) by (metis option.inject)
  note n = All_numbered [OF o(2)]
  have "state_OpenReadOnly sq files options p' = Inr f"
    unfolding o(5) by (rule state_Open_then_read [OF ro keys opened])
  moreover have "state_Open sq now' files options p' = (Inr f, p')"
    using o rw Migrate_again [OF o(2) r] by (auto simp: state_Open_def)
  moreover have "SchemaVersion f = Inr (int (length items))" and "length items > 0"
    using SchemaVersion_complete [OF r(1,3)] n by auto
  moreover have "state_Open sq now' files options (Regular g) = (Inl ErrMigration, Regular g) \<and>
       state_OpenReadOnly sq files options (Regular g) = Inl ErrMigration" if "foreign_migration files g" for g
    using foreign_refused [OF that] o(1,2) rw ro
    by (simp add: state_Open_def state_OpenReadOnly_def readOnlyDataSourceName_ok_def)
  ultimately show ?thesis using o(2,5) by blast
qed

text \<open>One migration on a path where no file exists yet.\<close>

definition sample_embedded :: embedded where
  "sample_embedded = [(''1_a.sql'', False, ''x''), (''README'', False, [])]"

definition sample_migration :: Migration where
  "sample_migration = \<lparr>mg_Version = 1, mg_Name = ''1_a.sql'', mg_SQL = ''x'', mg_Checksum = sha256_hex ''x''\<rparr>"

definition sample_sqlite :: "nat sqlite" where
  "sample_sqlite = \<lparr>sq_Open = (\<lambda>p. case p of Regular f \<Rightarrow> Some f | NotExist \<Rightarrow> Some \<lparr>df_schema_migrations = None, df_data = 0\<rparr> | NotRegular \<Rightarrow> None),
     sq_OpenReadOnly = (\<lambda>p. case p of Regular f \<Rightarrow> Some f | _ \<Rightarrow> None),
     sq_Exec = (\<lambda>sql n. Some (n + length sql)), sq_QuickCheck = (\<lambda>f. Some [''ok'']), sq_Chmod = True\<rparr>"

definition sample_open :: state_Options where
  "sample_open = \<lparr>so_Path = ''/d'', so_BusyTimeout = second, so_IntegrityCheck = True\<rparr>"

definition sample_opened_file :: "nat database_file" where
  "sample_opened_file = \<lparr>df_schema_migrations = Some [row_for 5 sample_migration], df_data = 1\<rparr>"

lemma sample_All: "migrations_All sample_embedded = Some [sample_migration]"
proof -
  have "embedded_migrations sample_embedded = Some [sample_migration]"
    by (simp add: sample_embedded_def sample_migration_def migration_of_def HasSuffix_def split_first_def text_eval)
  moreover have "sha256_hex ''x'' \<noteq> []" using length_sha256_hex [of "''x''"] by auto
  ultimately show ?thesis by (simp add: migrations_All_def sample_migration_def)
qed

lemma sample_opened: "state_Open sample_sqlite 5 sample_embedded sample_open NotExist = (Inr sample_opened_file, Regular sample_opened_file)"
proof -
  have "Migrate sample_sqlite 5 [sample_migration] \<lparr>df_schema_migrations = None, df_data = 0\<rparr> = (None, sample_opened_file)"
    using All_valid [OF sample_All]
    by (simp add: Migrate_def select_migrations_def applied_known_def applied_checksum_def sample_sqlite_def sample_opened_file_def
        row_for_def sample_migration_def)
  moreover have "sq_Open sample_sqlite NotExist = Some \<lparr>df_schema_migrations = None, df_data = 0\<rparr>" "sq_Chmod sample_sqlite"
    "QuickCheck sample_sqlite f = None" for f
    by (simp_all add: sample_sqlite_def QuickCheck_def)
  moreover have "dataSourceName_ok sample_open"
    by (simp add: dataSourceName_ok_def sample_open_def second_def minute_def)
  ultimately show ?thesis by (simp add: state_Open_def sample_All)
qed

theorem Open_migrates_once_witness:
  "state_OpenReadOnly sample_sqlite sample_embedded sample_open (Regular sample_opened_file) = Inr sample_opened_file \<and>
   state_Open sample_sqlite 9 sample_embedded sample_open (Regular sample_opened_file) = (Inr sample_opened_file, Regular sample_opened_file)"
proof -
  have "migrations_ok g" if "sq_Open sample_sqlite NotExist = Some g" for g
    using that by (auto simp: sample_sqlite_def migrations_ok_def)
  from Open_migrates_once [of sample_sqlite NotExist 5 sample_embedded sample_open sample_opened_file "Regular sample_opened_file" 9,
      OF _ _ this sample_opened]
  show ?thesis by (simp add: sample_sqlite_def)
qed

end
