(* ===== verification/Operator_Read.thy ===== *)
theory Operator_Read
  imports Store_Open Store_Sync Syncer
begin

text \<open>
  The read-only commands of an operator: the result types of \<^verbatim>\<open>internal/cli/types.go\<close> with their validation
  and the functions \<^verbatim>\<open>StatusCLI\<close>, \<^verbatim>\<open>ListFeedsCLI\<close> and \<^verbatim>\<open>ExplainCLI\<close> of \<^verbatim>\<open>internal/app/operator_read.go\<close>. Each of
  them opens the database read-only, so it is a function of the file that gives a result and no new file;
  the opening is the model of \<open>Store_Open\<close>, the queries are those of the store theories.
\<close>

subsection \<open>Definitions: cli/types.go\<close>

definition maxOperatorCount :: int where
  "maxOperatorCount = 100000000"

datatype ExplainKind = ExplainIP | ExplainRange | OtherExplainKind string

record ExplainResult =
  xr_Canonical :: string
  xr_Kind :: ExplainKind
  xr_Desired :: bool
  xr_Allowlisted :: bool
  xr_Covered :: bool
  xr_CoveringPrefix :: string
  xr_Contributors :: "string list"
  xr_Owned :: bool
  xr_OwnershipConflict :: bool

definition canonical_prefix_text :: "string \<Rightarrow> bool" where
  "canonical_prefix_text s =
     (case ParsePrefix s of None \<Rightarrow> False | Some prefix \<Rightarrow> prefix_String (Masked prefix) = s)"

definition ExplainResult_Validate :: "ExplainResult \<Rightarrow> bool" where
  "ExplainResult_Validate r =
     ((case xr_Kind r of
         ExplainIP \<Rightarrow> (case ParseAddr (xr_Canonical r) of None \<Rightarrow> False | Some a \<Rightarrow> addr_String (Unmap a) = xr_Canonical r)
       | ExplainRange \<Rightarrow> canonical_prefix_text (xr_Canonical r)
       | OtherExplainKind other \<Rightarrow> False) \<and>
      (if xr_Covered r then canonical_prefix_text (xr_CoveringPrefix r) else xr_CoveringPrefix r = []) \<and>
      length (xr_Contributors r) \<le> 256 \<and> list_all ValidFeedName (xr_Contributors r))"

datatype StatusReason = ReasonReady | ReasonSyncPending | ReasonSyncStale | ReasonDatabase | ReasonRuntime | OtherReason string

record cli_FeedStatus =
  cfs_Name :: string
  cfs_Enabled :: bool
  cfs_LastSuccess :: gotime
  cfs_ConsecutiveFailures :: int
  cfs_LastFailure :: FailureCategory

definition FeedStatus_Validate :: "cli_FeedStatus \<Rightarrow> bool" where
  "FeedStatus_Validate f =
     (\<not> (\<not> ValidFeedName (cfs_Name f) \<or> cfs_ConsecutiveFailures f < 0 \<or> cfs_ConsecutiveFailures f > 100) \<and>
      \<not> (cfs_LastFailure f \<noteq> NoFailure \<and> \<not> ValidFailureCategory (cfs_LastFailure f)) \<and>
      \<not> (cfs_ConsecutiveFailures f > 0 \<and> cfs_LastFailure f = NoFailure))"

text \<open>The outcome of a status may be the empty string, which is \<open>OtherOutcome []\<close>.\<close>

record cli_Status =
  cst_Ready :: bool
  cst_Reason :: StatusReason
  cst_LastSafeSync :: gotime
  cst_ActiveDecisions :: int
  cst_LastOutcome :: Outcome
  cst_LastFailure :: FailureCategory

definition validStatusOutcome :: "Outcome \<Rightarrow> bool" where
  "validStatusOutcome x = (x \<in> {OtherOutcome [], OutcomeSuccess, OutcomeDegraded, OutcomeFailed, OutcomeCancelled})"

definition Status_Validate :: "cli_Status \<Rightarrow> bool" where
  "Status_Validate s =
     (\<not> (cst_ActiveDecisions s < 0 \<or> cst_ActiveDecisions s > maxOperatorCount \<or> \<not> validStatusOutcome (cst_LastOutcome s)) \<and>
      (if cst_Ready s then cst_Reason s = ReasonReady
       else cst_Reason s \<in> {ReasonSyncPending, ReasonSyncStale, ReasonDatabase, ReasonRuntime}) \<and>
      \<not> (cst_LastFailure s \<noteq> NoFailure \<and> \<not> ValidFailureCategory (cst_LastFailure s)) \<and>
      \<not> (cst_LastOutcome s = OutcomeSuccess \<and> cst_LastFailure s \<noteq> NoFailure) \<and>
      \<not> (cst_LastOutcome s = OtherOutcome [] \<and> cst_LastFailure s \<noteq> NoFailure))"

subsection \<open>Definitions: the environment of an operator\<close>

text \<open>What the commands find: the parser of URLs, the database driver, the embedded migrations, whether
  \<^verbatim>\<open>os.Stat\<close> says that the path does not exist, and whether closing the database succeeds.\<close>

record operator_env =
  oe_Parse :: "string \<Rightarrow> url option"
  oe_SQLite :: "db sqlite"
  oe_Files :: embedded
  oe_StatNotExist :: bool
  oe_CloseOk :: bool

datatype operator_error = ErrOperatorStatus | ErrOperatorFeeds | ErrOperatorExplain | ErrOperatorPrune | ErrOperatorDBCheck
  | ErrOperatorConfig | ErrOperatorRuntime | ErrOperatorSync

definition store_options :: "Config \<Rightarrow> state_Options" where
  "store_options cfg =
     \<lparr>so_Path = dbc_Path (cfg_Database cfg), so_BusyTimeout = dbc_BusyTimeout (cfg_Database cfg),
      so_IntegrityCheck = dbc_IntegrityCheckOnStart (cfg_Database cfg)\<rparr>"

definition open_ro :: "operator_env \<Rightarrow> Config \<Rightarrow> db path_state \<Rightarrow> db option" where
  "open_ro env cfg p =
     (case state_OpenReadOnly (oe_SQLite env) (oe_Files env) (store_options cfg) p of
        Inl e \<Rightarrow> None
      | Inr f \<Rightarrow> Some (df_data f))"

subsection \<open>Definitions: StatusCLI\<close>

definition databaseUnavailableStatus :: cli_Status where
  "databaseUnavailableStatus =
     \<lparr>cst_Ready = False, cst_Reason = ReasonDatabase, cst_LastSafeSync = time_zero, cst_ActiveDecisions = 0,
      cst_LastOutcome = OtherOutcome [], cst_LastFailure = NoFailure\<rparr>"

fun syncOutcome :: "RunStatus \<Rightarrow> Outcome" where
  "syncOutcome RunStatusSuccess = OutcomeSuccess"
| "syncOutcome RunStatusDegraded = OutcomeDegraded"
| "syncOutcome RunStatusFailed = OutcomeFailed"
| "syncOutcome RunStatusCancelled = OutcomeCancelled"
| "syncOutcome RunStatusRunning = OtherOutcome []"

definition status_of :: "Config \<Rightarrow> gotime \<Rightarrow> gotime \<times> bool \<Rightarrow> SyncRunRecord list \<Rightarrow> DecisionRecord list \<Rightarrow> cli_Status" where
  "status_of cfg now safe runs active =
     (let base = \<lparr>cst_Ready = False, cst_Reason = ReasonSyncPending, cst_LastSafeSync = fst safe,
                  cst_ActiveDecisions = int (length active),
                  cst_LastOutcome = (case runs of [run] \<Rightarrow> syncOutcome (run_Status run) | _ \<Rightarrow> OtherOutcome []),
                  cst_LastFailure = (case runs of [run] \<Rightarrow> run_Failure run | _ \<Rightarrow> NoFailure)\<rparr>
      in
      if \<not> snd safe then base
      else if time_Sub now (fst safe) > srv_ReadinessMaxSyncAge (cfg_Server cfg) then base\<lparr>cst_Reason := ReasonSyncStale\<rparr>
      else base\<lparr>cst_Ready := True, cst_Reason := ReasonReady\<rparr>)"

definition StatusCLI :: "operator_env \<Rightarrow> Config \<Rightarrow> gotime \<Rightarrow> db path_state \<Rightarrow> (operator_error, cli_Status) result" where
  "StatusCLI env cfg0 now p =
     (if IsZero now then Inl ErrOperatorStatus
      else
        (case Config_Validate (oe_Parse env) cfg0 of
           Inl e \<Rightarrow> Inl ErrOperatorStatus
         | Inr cfg \<Rightarrow>
             (case open_ro env cfg p of
                None \<Rightarrow> Inr databaseUnavailableStatus
              | Some d \<Rightarrow>
                  (case (RuntimeTimestamp RuntimeLastSafeSync d, ListSyncRuns 1 d, ListActiveDecisions d, oe_CloseOk env) of
                     (Inr safe, Inr runs, Inr active, True) \<Rightarrow> Inr (status_of cfg now safe runs active)
                   | _ \<Rightarrow> Inr databaseUnavailableStatus))))"

subsection \<open>Definitions: ListFeedsCLI\<close>

definition operatorFeedFailure :: "string \<Rightarrow> FailureCategory option" where
  "operatorFeedFailure category =
     (if category \<in> set (map category_string [FeedErrRequest, FeedErrSSRF, FeedErrRedirect, FeedErrHTTPStatus,
          FeedErrBodySize, FeedErrContentType, FeedErrHTML, FeedErrResponseHeader]) then Some FailureFeedDownload
      else if category \<in> set (map category_string [FeedErrFormat, FeedErrPolicy, FeedErrEmpty, FeedErrLineTooLong,
          FeedErrTruncated, FeedErrMetadata, FeedErrMalformedThreshold, FeedErrEntryCount, FeedErrSuspiciousChange])
        then Some FailureFeedValidation
      else None)"

definition configuredFeedStatus :: "Config \<Rightarrow> cli_FeedStatus list" where
  "configuredFeedStatus cfg =
     map (\<lambda>configured. \<lparr>cfs_Name = fc_Name configured, cfs_Enabled = fc_Enabled configured, cfs_LastSuccess = time_zero,
        cfs_ConsecutiveFailures = 0, cfs_LastFailure = NoFailure\<rparr>) (cfg_Feeds cfg)"

definition merge_feed :: "FeedRecord \<Rightarrow> cli_FeedStatus \<Rightarrow> (operator_error, cli_FeedStatus) result" where
  "merge_feed r s =
     (let s1 = (case frec_LastSuccess r of None \<Rightarrow> s | Some t \<Rightarrow> s\<lparr>cfs_LastSuccess := t\<rparr>);
          s2 = s1\<lparr>cfs_ConsecutiveFailures := (if frec_ConsecutiveFailures r > 100 then 100 else frec_ConsecutiveFailures r)\<rparr>
      in
      if frec_ConsecutiveFailures r > 0 then
        (case operatorFeedFailure (frec_LastErrorCategory r) of
           None \<Rightarrow> Inl ErrOperatorFeeds
         | Some mapped \<Rightarrow> Inr (s2\<lparr>cfs_LastFailure := mapped\<rparr>))
      else Inr s2)"

fun merge_feeds :: "(string \<rightharpoonup> FeedRecord) \<Rightarrow> cli_FeedStatus list \<Rightarrow> (operator_error, cli_FeedStatus list) result" where
  "merge_feeds known [] = Inr []"
| "merge_feeds known (s # rest) =
     (case (case known (cfs_Name s) of None \<Rightarrow> Inr s | Some r \<Rightarrow> merge_feed r s) of
        Inl e \<Rightarrow> Inl e
      | Inr s' \<Rightarrow> (case merge_feeds known rest of Inl e \<Rightarrow> Inl e | Inr rest' \<Rightarrow> Inr (s' # rest')))"

definition ListFeedsCLI :: "operator_env \<Rightarrow> Config \<Rightarrow> db path_state \<Rightarrow> (operator_error, cli_FeedStatus list) result" where
  "ListFeedsCLI env cfg0 p =
     (case Config_Validate (oe_Parse env) cfg0 of
        Inl e \<Rightarrow> Inl ErrOperatorFeeds
      | Inr cfg \<Rightarrow>
          (case open_ro env cfg p of
             None \<Rightarrow> if oe_StatNotExist env then Inr (configuredFeedStatus cfg) else Inl ErrOperatorFeeds
           | Some d \<Rightarrow>
               (case (ListFeeds d, oe_CloseOk env) of
                  (Inr records, True) \<Rightarrow>
                    merge_feeds (map_of (rev (map (\<lambda>r. (frec_Name r, r)) records))) (configuredFeedStatus cfg)
                | _ \<Rightarrow> Inl ErrOperatorFeeds)))"

subsection \<open>Definitions: ExplainCLI\<close>

definition prefixCovers :: "netip_prefix \<Rightarrow> netip_prefix \<Rightarrow> bool" where
  "prefixCovers c target =
     (IsValid c \<and> IsValid target \<and> BitLen (pfx_ip c) = BitLen (pfx_ip target) \<and> Bits c \<le> Bits target \<and>
      Contains c (pfx_ip target))"

definition explainAllowlisted :: "netip_prefix \<Rightarrow> Config \<Rightarrow> bool" where
  "explainAllowlisted target cfg = list_ex (\<lambda>item. Overlaps target item) (cfg_Allowlists cfg)"

fun decisionPrefix :: "Scope \<Rightarrow> string \<Rightarrow> (operator_error, netip_prefix) result" where
  "decisionPrefix ScopeIP v =
     (case ParseValue v of Inr (prefix, KindIP) \<Rightarrow> Inr prefix | _ \<Rightarrow> Inl ErrOperatorExplain)"
| "decisionPrefix ScopeRange v =
     (case ParseValue v of Inr (prefix, KindRange) \<Rightarrow> Inr prefix | _ \<Rightarrow> Inl ErrOperatorExplain)"

definition explain_cover :: "netip_prefix \<Rightarrow> EnforcementRecord \<Rightarrow> bool" where
  "explain_cover target ob = (\<not> (\<not> er_Desired ob \<or> er_Scope ob \<noteq> ScopeRange \<or> \<not> prefixCovers (er_Prefix ob) target))"

definition explain_step ::
  "netip_prefix \<Rightarrow> EnforcementRecord list \<Rightarrow> nat option \<times> nat option \<Rightarrow> nat \<Rightarrow> nat option \<times> nat option" where
  "explain_step target objects st index = (case st of (exactIndex, coverIndex) \<Rightarrow>
     if er_Prefix (objects ! index) = target then (Some index, coverIndex)
     else if \<not> explain_cover target (objects ! index) then (exactIndex, coverIndex)
     else
       (case coverIndex of
          None \<Rightarrow> (exactIndex, Some index)
        | Some c \<Rightarrow>
            if Bits (er_Prefix (objects ! index)) > Bits (er_Prefix (objects ! c)) \<or>
               (Bits (er_Prefix (objects ! index)) = Bits (er_Prefix (objects ! c)) \<and>
                addr_Compare (pfx_ip (er_Prefix (objects ! index))) (pfx_ip (er_Prefix (objects ! c))) < 0)
            then (exactIndex, Some index) else (exactIndex, coverIndex)))"

definition explain_indices :: "netip_prefix \<Rightarrow> EnforcementRecord list \<Rightarrow> nat option \<times> nat option" where
  "explain_indices target objects = foldl (explain_step target objects) (None, None) [0..<length objects]"

fun dedup_names :: "string list \<Rightarrow> Contributor list \<Rightarrow> string list" where
  "dedup_names seen [] = []"
| "dedup_names seen (source # rest) =
     (if ctb_FeedName source \<in> set seen then dedup_names seen rest
      else ctb_FeedName source # dedup_names (ctb_FeedName source # seen) rest)"

definition explain_contributors :: "EnforcementRecord list \<Rightarrow> nat option \<Rightarrow> string list" where
  "explain_contributors objects sourceIndex =
     (case sourceIndex of
        None \<Rightarrow> []
      | Some i \<Rightarrow> sort_cmp cmp_Compare (dedup_names [] (er_Sources (objects ! i))))"

fun explain_owned :: "netip_prefix \<Rightarrow> DecisionRecord list \<Rightarrow> (operator_error, bool) result" where
  "explain_owned target [] = Inr False"
| "explain_owned target (decision # rest) =
     (case decisionPrefix (dr_Scope decision) (dr_Value decision) of
        Inl e \<Rightarrow> Inl ErrOperatorExplain
      | Inr ownedPrefix \<Rightarrow> if prefixCovers ownedPrefix target then Inr True else explain_owned target rest)"

definition explain_conflict :: "netip_prefix \<Rightarrow> EnforcementRecord list \<Rightarrow> Operation list \<Rightarrow> bool" where
  "explain_conflict target objects operations =
     (let objectByID = map_of (rev (map (\<lambda>ob. (er_ID ob, ob)) objects)) in
      list_ex (\<lambda>operation. opn_Status operation = OperationAmbiguous \<and>
        list_ex (\<lambda>item. case objectByID (it_ObjectID item) of None \<Rightarrow> False | Some ob \<Rightarrow> prefixCovers (er_Prefix ob) target)
          (opn_Items operation)) operations)"

definition explain_base :: "Config \<Rightarrow> netip_prefix \<Rightarrow> Kind \<Rightarrow> ExplainResult" where
  "explain_base cfg target kind =
     \<lparr>xr_Canonical = (if kind = KindIP then addr_String (pfx_ip target) else prefix_String target),
      xr_Kind = (if kind = KindIP then ExplainIP else ExplainRange), xr_Desired = False,
      xr_Allowlisted = explainAllowlisted target cfg, xr_Covered = False, xr_CoveringPrefix = [], xr_Contributors = [],
      xr_Owned = False, xr_OwnershipConflict = False\<rparr>"

definition explain_objects :: "netip_prefix \<Rightarrow> EnforcementRecord list \<Rightarrow> ExplainResult \<Rightarrow> (operator_error, ExplainResult) result" where
  "explain_objects target objects result =
     (case explain_indices target objects of (exactIndex, coverIndex) \<Rightarrow>
      let r1 = (case exactIndex of
                  None \<Rightarrow> result
                | Some x \<Rightarrow> result\<lparr>xr_Desired := er_Desired (objects ! x),
                    xr_Allowlisted := xr_Allowlisted result \<or> er_Suppression (objects ! x) = SuppressedAllowlist\<rparr>)
      in
      (case coverIndex of
         Some c \<Rightarrow>
           Inr (r1\<lparr>xr_Covered := True, xr_CoveringPrefix := prefix_String (er_Prefix (objects ! c)),
             xr_Contributors := explain_contributors objects (case exactIndex of None \<Rightarrow> Some c | Some x \<Rightarrow> Some x)\<rparr>)
       | None \<Rightarrow>
           if (case exactIndex of None \<Rightarrow> False | Some x \<Rightarrow> er_Suppression (objects ! x) = SuppressedCovered)
           then Inl ErrOperatorExplain
           else Inr (r1\<lparr>xr_Contributors := explain_contributors objects exactIndex\<rparr>)))"

definition explain_store ::
  "netip_prefix \<Rightarrow> ExplainResult \<Rightarrow> EnforcementRecord list \<Rightarrow> DecisionRecord list \<Rightarrow> Operation list \<Rightarrow>
   (operator_error, ExplainResult) result" where
  "explain_store target base objects decisions operations =
     (case explain_objects target objects base of
        Inl e \<Rightarrow> Inl e
      | Inr r2 \<Rightarrow>
          (case explain_owned target decisions of
             Inl e \<Rightarrow> Inl e
           | Inr owned \<Rightarrow>
               let r3 = r2\<lparr>xr_Owned := owned, xr_OwnershipConflict := explain_conflict target objects operations\<rparr> in
               if \<not> ExplainResult_Validate r3 then Inl ErrOperatorExplain else Inr r3))"

definition ExplainCLI :: "operator_env \<Rightarrow> Config \<Rightarrow> string \<Rightarrow> db path_state \<Rightarrow> (operator_error, ExplainResult) result" where
  "ExplainCLI env cfg0 input p =
     (case ParseValue input of
        Inl e \<Rightarrow> Inl ErrOperatorExplain
      | Inr (target, kind) \<Rightarrow>
          (case Config_Validate (oe_Parse env) cfg0 of
             Inl e \<Rightarrow> Inl ErrOperatorExplain
           | Inr cfg \<Rightarrow>
               (case open_ro env cfg p of
                  None \<Rightarrow> if oe_StatNotExist env then Inr (explain_base cfg target kind) else Inl ErrOperatorExplain
                | Some d \<Rightarrow>
                    (case (ListEnforcementObjects d, ListActiveDecisions d, OpenOperations d, oe_CloseOk env) of
                       (Inr objects, Inr decisions, Inr operations, True) \<Rightarrow>
                         explain_store target (explain_base cfg target kind) objects decisions operations
                     | _ \<Rightarrow> Inl ErrOperatorExplain))))"

end
