(* ===== verification/Operator_Read_Facts.thy ===== *)
theory Operator_Read_Facts
  imports Operator_Read Store_Journal Config_Facts
begin

text \<open>
  What the explanation of an address says about the database: the loops of \<^verbatim>\<open>ExplainCLI\<close> find the object of the
  target and the most specific range above it, and the comparison of prefixes the code uses is inclusion of
  the sets of addresses.
\<close>

subsection \<open>Facts: covering is inclusion\<close>

definition addr_subset :: "netip_prefix \<Rightarrow> netip_prefix \<Rightarrow> bool" where
  "addr_subset p q = (\<forall>a. Contains q a \<longrightarrow> Contains p a)"

text \<open>A word that agrees with \<open>v\<close> in the leading \<open>t\<close> bits and differs from \<open>u\<close> in the leading \<open>c > t\<close> bits.\<close>

lemma word_outside:
  fixes u v :: "'a::len word"
  assumes "t < c" and "c \<le> LENGTH('a)"
  shows "\<exists>x. drop_bit (LENGTH('a) - t) x = drop_bit (LENGTH('a) - t) v \<and> drop_bit (LENGTH('a) - c) x \<noteq> drop_bit (LENGTH('a) - c) u"
proof (cases "drop_bit (LENGTH('a) - c) v = drop_bit (LENGTH('a) - c) u")
  case True
  let ?k = "LENGTH('a) - c"
  let ?x = "v XOR push_bit ?k 1"
  have "drop_bit (LENGTH('a) - t) ?x = drop_bit (LENGTH('a) - t) v"
    by (rule bit_word_eqI) (use assms in \<open>auto simp: bit_simps\<close>)
  moreover have "bit (drop_bit ?k ?x) 0 \<noteq> bit (drop_bit ?k u) 0"
  proof -
    have "bit (drop_bit ?k v) 0 = bit (drop_bit ?k u) 0" by (simp only: True)
    then show ?thesis using assms by (simp add: bit_simps)
  qed
  then have "drop_bit ?k ?x \<noteq> drop_bit ?k u" by auto
  ultimately show ?thesis by blast
qed blast

lemma word_covers_iff:
  fixes u v :: "'a::len word"
  assumes "c \<le> LENGTH('a)"
  shows "c \<le> t \<and> drop_bit (LENGTH('a) - c) v = drop_bit (LENGTH('a) - c) u \<longleftrightarrow>
    (\<forall>x. drop_bit (LENGTH('a) - t) x = drop_bit (LENGTH('a) - t) v \<longrightarrow> drop_bit (LENGTH('a) - c) x = drop_bit (LENGTH('a) - c) u)"
  (is "?l \<longleftrightarrow> ?r")
proof
  assume ?l
  then show ?r using drop_bit_coarser [of "LENGTH('a) - t" _ v "LENGTH('a) - c"] by auto
next
  assume r: ?r
  have "c \<le> t"
  proof (rule ccontr)
    assume "\<not> c \<le> t"
    with word_outside [of t c v u] r assms show False by auto
  qed
  with r show ?l by auto
qed

lemma addr_subset_4:
  "addr_subset (Prefix (Addr4 u) (Suc c)) (Prefix (Addr4 v) (Suc t)) \<longleftrightarrow>
   (\<forall>x. drop_bit (32 - t) x = drop_bit (32 - t) v \<longrightarrow> drop_bit (32 - c) x = drop_bit (32 - c) u)"
proof
  assume "addr_subset (Prefix (Addr4 u) (Suc c)) (Prefix (Addr4 v) (Suc t))"
  then show "\<forall>x. drop_bit (32 - t) x = drop_bit (32 - t) v \<longrightarrow> drop_bit (32 - c) x = drop_bit (32 - c) u"
    unfolding addr_subset_def by (metis Contains_4)
next
  assume sub: "\<forall>x. drop_bit (32 - t) x = drop_bit (32 - t) v \<longrightarrow> drop_bit (32 - c) x = drop_bit (32 - c) u"
  show "addr_subset (Prefix (Addr4 u) (Suc c)) (Prefix (Addr4 v) (Suc t))"
    unfolding addr_subset_def
  proof (intro allI impI)
    fix a assume "Contains (Prefix (Addr4 v) (Suc t)) a"
    with sub show "Contains (Prefix (Addr4 u) (Suc c)) a" by (cases a) auto
  qed
qed

lemma addr_subset_6:
  "addr_subset (Prefix (Addr6 u []) (Suc c)) (Prefix (Addr6 v []) (Suc t)) \<longleftrightarrow>
   (\<forall>x. drop_bit (128 - t) x = drop_bit (128 - t) v \<longrightarrow> drop_bit (128 - c) x = drop_bit (128 - c) u)"
proof
  assume "addr_subset (Prefix (Addr6 u []) (Suc c)) (Prefix (Addr6 v []) (Suc t))"
  then show "\<forall>x. drop_bit (128 - t) x = drop_bit (128 - t) v \<longrightarrow> drop_bit (128 - c) x = drop_bit (128 - c) u"
    unfolding addr_subset_def by (metis Contains_6)
next
  assume sub: "\<forall>x. drop_bit (128 - t) x = drop_bit (128 - t) v \<longrightarrow> drop_bit (128 - c) x = drop_bit (128 - c) u"
  show "addr_subset (Prefix (Addr6 u []) (Suc c)) (Prefix (Addr6 v []) (Suc t))"
    unfolding addr_subset_def
  proof (intro allI impI)
    fix a assume "Contains (Prefix (Addr6 v []) (Suc t)) a"
    with sub show "Contains (Prefix (Addr6 u []) (Suc c)) a" by (cases a) auto
  qed
qed

lemma addr_subset_mixed:
  assumes "prefix_ok q" and "BitLen (pfx_ip p) \<noteq> BitLen (pfx_ip q)"
  shows "\<not> addr_subset p q"
proof
  assume "addr_subset p q"
  with Contains_pfx_ip [OF assms(1)] have "Contains p (pfx_ip q)" by (simp add: addr_subset_def)
  with assms(2) show False by (auto simp: Contains_def split: if_splits)
qed

lemma prefixCovers_subset:
  assumes "prefix_ok p" and "prefix_ok q"
  shows "prefixCovers p q \<longleftrightarrow> addr_subset p q"
proof (cases "BitLen (pfx_ip p) = BitLen (pfx_ip q)")
  case False
  with addr_subset_mixed [OF assms(2) False] show ?thesis by (simp add: prefixCovers_def)
next
  case True
  show ?thesis
    using assms(1)
  proof (cases rule: prefix_ok_cases)
    case (v4 u c)
    with True obtain v t where q: "q = Prefix (Addr4 v) (Suc t)" using assms(2) by (auto elim: prefix_ok_cases)
    show ?thesis
      using word_covers_iff [of c t v u] v4 by (simp add: q addr_subset_4 prefixCovers_def IsValid_def Bits_def)
  next
    case (v6 u c)
    with True obtain v t where q: "q = Prefix (Addr6 v []) (Suc t)" using assms(2) by (auto elim: prefix_ok_cases)
    show ?thesis
      using word_covers_iff [of c t v u] v6 by (simp add: q addr_subset_6 prefixCovers_def IsValid_def Bits_def)
  qed
qed

subsection \<open>Facts: the loop over the objects\<close>

definition exact_found :: "netip_prefix \<Rightarrow> EnforcementRecord list \<Rightarrow> nat \<Rightarrow> nat option \<Rightarrow> bool" where
  "exact_found target objects n x =
     (case x of
        None \<Rightarrow> \<forall>j < n. er_Prefix (objects ! j) \<noteq> target
      | Some i \<Rightarrow> i < n \<and> er_Prefix (objects ! i) = target)"

definition covers_target :: "netip_prefix \<Rightarrow> EnforcementRecord \<Rightarrow> bool" where
  "covers_target target ob = (er_Prefix ob \<noteq> target \<and> explain_cover target ob)"

definition cover_found :: "netip_prefix \<Rightarrow> EnforcementRecord list \<Rightarrow> nat \<Rightarrow> nat option \<Rightarrow> bool" where
  "cover_found target objects n c =
     (case c of
        None \<Rightarrow> \<forall>j < n. \<not> covers_target target (objects ! j)
      | Some i \<Rightarrow> i < n \<and> covers_target target (objects ! i) \<and>
          (\<forall>j < n. covers_target target (objects ! j) \<longrightarrow> Bits (er_Prefix (objects ! j)) \<le> Bits (er_Prefix (objects ! i))))"

lemma explain_step_found:
  assumes "exact_found target objects n x" and "cover_found target objects n c"
    and "explain_step target objects (x, c) n = (x', c')"
  shows "exact_found target objects (Suc n) x' \<and> cover_found target objects (Suc n) c'"
proof (cases "er_Prefix (objects ! n) = target")
  case True
  with assms have "x' = Some n" "c' = c" by (simp_all add: explain_step_def)
  moreover have "\<not> covers_target target (objects ! n)" using True by (simp add: covers_target_def)
  ultimately show ?thesis using True assms(2)
    by (auto simp: exact_found_def cover_found_def less_Suc_eq split: option.splits)
next
  case False
  then have x: "x' = x" using assms(3) by (auto simp: explain_step_def split: if_splits option.splits)
  have "exact_found target objects (Suc n) x'"
    using assms(1) False x by (auto simp: exact_found_def less_Suc_eq split: option.splits)
  moreover have "cover_found target objects (Suc n) c'"
  proof (cases "explain_cover target (objects ! n)")
    case True
    with False have "covers_target target (objects ! n)" by (simp add: covers_target_def)
    with assms(2,3) False True show ?thesis
      by (auto simp: explain_step_def cover_found_def less_Suc_eq split: option.splits if_splits)
  next
    case nc: False
    then have "\<not> covers_target target (objects ! n)" by (simp add: covers_target_def)
    with assms(2,3) False nc show ?thesis
      by (auto simp: explain_step_def cover_found_def less_Suc_eq split: option.splits)
  qed
  ultimately show ?thesis by blast
qed

lemma explain_indices_found:
  assumes "explain_indices target objects = (x, c)"
  shows "exact_found target objects (length objects) x \<and> cover_found target objects (length objects) c"
proof -
  have "case foldl (explain_step target objects) (None, None) [0..<n] of
      (x, c) \<Rightarrow> exact_found target objects n x \<and> cover_found target objects n c" for n
  proof (induction n)
    case 0
    show ?case by (simp add: exact_found_def cover_found_def)
  next
    case (Suc n)
    obtain x0 c0 where st: "foldl (explain_step target objects) (None, None) [0..<n] = (x0, c0)" by (rule prod.exhaust)
    obtain x1 c1 where st1: "explain_step target objects (x0, c0) n = (x1, c1)" by (rule prod.exhaust)
    from Suc st explain_step_found [OF _ _ st1] st1 show ?case by simp
  qed
  from this [of "length objects"] assms show ?thesis by (simp add: explain_indices_def)
qed

lemma explain_objects_result:
  assumes "explain_objects target objects base = Inr r" and "distinct (map er_Prefix objects)"
    and base: "\<not> xr_Desired base" "\<not> xr_Covered base"
  shows "(xr_Desired r \<longleftrightarrow> (\<exists>ob \<in> set objects. er_Prefix ob = target \<and> er_Desired ob)) \<and>
    (xr_Allowlisted r \<longleftrightarrow> xr_Allowlisted base \<or>
       (\<exists>ob \<in> set objects. er_Prefix ob = target \<and> er_Suppression ob = SuppressedAllowlist)) \<and>
    (xr_Covered r \<longleftrightarrow> (\<exists>ob \<in> set objects. covers_target target ob)) \<and>
    (xr_Covered r \<longrightarrow> (\<exists>ob \<in> set objects. covers_target target ob \<and> xr_CoveringPrefix r = prefix_String (er_Prefix ob) \<and>
       (\<forall>ob' \<in> set objects. covers_target target ob' \<longrightarrow> Bits (er_Prefix ob') \<le> Bits (er_Prefix ob))))"
proof -
  obtain x c where i: "explain_indices target objects = (x, c)" by (rule prod.exhaust)
  note f = explain_indices_found [OF i]
  have exact: "(\<exists>ob \<in> set objects. er_Prefix ob = target \<and> P ob) \<longleftrightarrow> (\<exists>k. x = Some k \<and> P (objects ! k))" for P
  proof (cases x)
    case None
    with f show ?thesis by (auto simp: exact_found_def in_set_conv_nth)
  next
    case (Some k)
    with f have k: "k < length objects" "er_Prefix (objects ! k) = target" by (auto simp: exact_found_def)
    have "ob = objects ! k" if "ob \<in> set objects" "er_Prefix ob = target" for ob
      using that k assms(2) by (metis in_set_conv_nth length_map nth_eq_iff_index_eq nth_map)
    with k Some show ?thesis by (auto intro!: bexI [of _ "objects ! k"])
  qed
  have cover: "(\<exists>ob \<in> set objects. covers_target target ob) \<longleftrightarrow> c \<noteq> None"
  proof (cases c)
    case None
    with f show ?thesis by (auto simp: cover_found_def in_set_conv_nth)
  next
    case (Some k)
    with f have "covers_target target (objects ! k)" "objects ! k \<in> set objects" by (auto simp: cover_found_def)
    with Some show ?thesis by blast
  qed
  have most: "objects ! k \<in> set objects \<and> covers_target target (objects ! k) \<and>
      (\<forall>ob' \<in> set objects. covers_target target ob' \<longrightarrow> Bits (er_Prefix ob') \<le> Bits (er_Prefix (objects ! k)))"
    if "c = Some k" for k
    using f that by (auto simp: cover_found_def in_set_conv_nth)
  have d: "xr_Desired r \<longleftrightarrow> (\<exists>k. x = Some k \<and> er_Desired (objects ! k))"
    and a: "xr_Allowlisted r \<longleftrightarrow> xr_Allowlisted base \<or> (\<exists>k. x = Some k \<and> er_Suppression (objects ! k) = SuppressedAllowlist)"
    and v: "xr_Covered r \<longleftrightarrow> c \<noteq> None"
    and t: "c = Some k \<Longrightarrow> xr_CoveringPrefix r = prefix_String (er_Prefix (objects ! k))" for k
    using assms(1) i base by (auto simp: explain_objects_def Let_def split: option.splits if_splits)
  have "\<exists>ob \<in> set objects. covers_target target ob \<and> xr_CoveringPrefix r = prefix_String (er_Prefix ob) \<and>
       (\<forall>ob' \<in> set objects. covers_target target ob' \<longrightarrow> Bits (er_Prefix ob') \<le> Bits (er_Prefix ob))" if "xr_Covered r"
  proof -
    from that v obtain k where "c = Some k" by blast
    with most [OF this] t [OF this] show ?thesis by blast
  qed
  then show ?thesis unfolding exact cover d a v by blast
qed

subsection \<open>Facts: ownership\<close>

lemma decisionPrefix_ok: "decisionPrefix s v = Inr q \<Longrightarrow> prefix_ok q"
  by (cases s) (auto dest!: ParseValue_ValidateKind simp: ValidateKind_None_iff split: sum.splits prod.splits Kind.splits)

lemma explain_owned_result:
  "explain_owned target decisions = Inr b \<Longrightarrow>
   b \<longleftrightarrow> (\<exists>x \<in> set decisions. \<exists>q. decisionPrefix (dr_Scope x) (dr_Value x) = Inr q \<and> prefixCovers q target)"
  by (induction decisions) (auto split: sum.splits if_splits)

lemma explain_conflict_iff:
  assumes "distinct (map er_ID objects)"
  shows "explain_conflict target objects operations \<longleftrightarrow>
    (\<exists>x \<in> set operations. opn_Status x = OperationAmbiguous \<and>
       (\<exists>item \<in> set (opn_Items x). \<exists>ob \<in> set objects. er_ID ob = it_ObjectID item \<and> prefixCovers (er_Prefix ob) target))"
proof -
  let ?m = "map_of (rev (map (\<lambda>ob. (er_ID ob, ob)) objects))"
  have "?m i = Some ob \<longleftrightarrow> ob \<in> set objects \<and> er_ID ob = i" for i ob
    using assms by (subst map_of_eq_Some_iff) (auto simp: comp_def rev_map [symmetric])
  then have m: "(\<exists>ob. ?m i = Some ob \<and> prefixCovers (er_Prefix ob) target) \<longleftrightarrow>
      (\<exists>ob \<in> set objects. er_ID ob = i \<and> prefixCovers (er_Prefix ob) target)" for i
    by auto
  have c: "(case x of None \<Rightarrow> False | Some ob \<Rightarrow> Q ob) \<longleftrightarrow> (\<exists>ob. x = Some ob \<and> Q ob)" for x :: "EnforcementRecord option" and Q
    by (cases x) auto
  have "(case ?m i of None \<Rightarrow> False | Some ob \<Rightarrow> prefixCovers (er_Prefix ob) target) \<longleftrightarrow>
      (\<exists>ob \<in> set objects. er_ID ob = i \<and> prefixCovers (er_Prefix ob) target)" for i
    by (simp only: c m)
  then show ?thesis by (simp add: explain_conflict_def Let_def list_ex_iff)
qed

subsection \<open>Facts: the objects of a sound store\<close>

lemma object_prefix_ok: "objects_ok d \<Longrightarrow> r \<in> set (enforcement_objects d) \<Longrightarrow> prefix_ok (object_prefix r)"
  using object_row_ok_prefix [of r] by (auto simp: objects_ok_def object_row_of_def IsSafePrefix_iff)

text \<open>The rows as the commands see them: the prefix, scope, flags and identity of the stored row.\<close>

lemma ListEnforcementObjects_rows:
  assumes "objects_ok d" and "ListEnforcementObjects d = Inr objects"
  shows "(\<exists>ob \<in> set objects. P (er_ID ob) (er_Prefix ob) (er_Scope ob) (er_Desired ob) (er_Suppression ob)) \<longleftrightarrow>
      (\<exists>r \<in> set (enforcement_objects d). P (o_id r) (object_prefix r) (o_scope r) (o_desired r) (o_suppression r))"
    and "distinct (map er_Prefix objects)" and "distinct (map er_ID objects)"
    and "ob \<in> set objects \<Longrightarrow> prefix_ok (er_Prefix ob)"
proof -
  let ?view = "\<lambda>r. (object_view r)\<lparr>er_Sources := map source_view (join_sources d (o_id r))\<rparr>"
  have objects: "objects = map ?view (sort_cmp object_order (enforcement_objects d))"
    using assms ListEnforcementObjects_total [OF assms(1)] by simp
  have view: "er_ID (?view r) = o_id r" "er_Prefix (?view r) = object_prefix r" "er_Scope (?view r) = o_scope r"
    "er_Desired (?view r) = o_desired r" "er_Suppression (?view r) = o_suppression r" for r
    by (simp_all add: object_view_def)
  show "(\<exists>ob \<in> set objects. P (er_ID ob) (er_Prefix ob) (er_Scope ob) (er_Desired ob) (er_Suppression ob)) \<longleftrightarrow>
      (\<exists>r \<in> set (enforcement_objects d). P (o_id r) (object_prefix r) (o_scope r) (o_desired r) (o_suppression r))"
    unfolding objects by (simp add: view)
  have "inj_on object_prefix (set (enforcement_objects d))"
  proof (rule inj_onI)
    fix r s assume rs: "r \<in> set (enforcement_objects d)" "s \<in> set (enforcement_objects d)" "object_prefix r = object_prefix s"
    then have "o_prefix r = o_prefix s"
      using assms(1) object_row_ok_prefix [of r] object_row_ok_prefix [of s] by (simp add: objects_ok_def object_row_of_def)
    with rs assms(1) show "r = s" by (auto simp: objects_ok_def distinct_map inj_on_def)
  qed
  moreover have "distinct (enforcement_objects d)" using assms(1) by (simp add: objects_ok_def distinct_map)
  ultimately show "distinct (map er_Prefix objects)"
    unfolding objects by (simp add: view comp_def distinct_map)
  show "distinct (map er_ID objects)"
    using assms(1) unfolding objects by (simp add: view comp_def objects_ok_def)
  show "ob \<in> set objects \<Longrightarrow> prefix_ok (er_Prefix ob)"
    unfolding objects using object_prefix_ok [OF assms(1)] by (auto simp: view)
qed

definition covers_row :: "netip_prefix \<Rightarrow> object_row \<Rightarrow> bool" where
  "covers_row target r =
     (object_prefix r \<noteq> target \<and> o_desired r \<and> o_scope r = ScopeRange \<and> addr_subset (object_prefix r) target)"

definition owned_by :: "netip_prefix \<Rightarrow> db \<Rightarrow> bool" where
  "owned_by target d =
     (\<exists>(r, a) \<in> set (decisionSelect d). d_status r = DecisionActive \<and>
        (\<exists>q. decisionPrefix (d_scope r) (d_value r) = Inr q \<and> addr_subset q target))"

definition ambiguous_over :: "netip_prefix \<Rightarrow> db \<Rightarrow> bool" where
  "ambiguous_over target d =
     (\<exists>op \<in> set (lapi_operations d). op_status op = OperationAmbiguous \<and> op_feed_id op \<in> f_id ` set (feeds d) \<and>
        (\<exists>i \<in> set (lapi_operation_items d). i_operation_token i = op_token op \<and>
          (\<exists>r \<in> set (enforcement_objects d). o_id r = i_object_id i \<and> addr_subset (object_prefix r) target)))"

lemma explain_owned_iff:
  assumes "prefix_ok target" and "ListActiveDecisions d = Inr decisions" and "explain_owned target decisions = Inr b"
  shows "b \<longleftrightarrow> owned_by target d"
proof -
  have decisions: "set decisions = scanDecision ` {x \<in> set (decisionSelect d). d_status (fst x) = DecisionActive}"
    using assms(2) by (auto simp: ListActiveDecisions_def)
  have "b \<longleftrightarrow> (\<exists>x \<in> set decisions. \<exists>q. decisionPrefix (dr_Scope x) (dr_Value x) = Inr q \<and> addr_subset q target)"
    using explain_owned_result [OF assms(3)] prefixCovers_subset [OF decisionPrefix_ok assms(1)] by blast
  also have "\<dots> \<longleftrightarrow> owned_by target d"
    unfolding decisions owned_by_def by (auto simp: scanDecision_def split: prod.splits)
  finally show ?thesis .
qed

lemma explain_conflict_rows:
  assumes ok: "objects_ok d" and t: "prefix_ok target"
    and objs: "ListEnforcementObjects d = Inr objects" and ops: "OpenOperations d = Inr operations"
  shows "explain_conflict target objects operations \<longleftrightarrow> ambiguous_over target d"
proof -
  note rows = ListEnforcementObjects_rows [OF ok objs]
  let ?hit = "\<lambda>i. \<exists>r \<in> set (enforcement_objects d). o_id r = i \<and> addr_subset (object_prefix r) target"
  have hit: "(\<exists>ob \<in> set objects. er_ID ob = i \<and> prefixCovers (er_Prefix ob) target) \<longleftrightarrow> ?hit i" for i
    using rows(1) [of "\<lambda>x p s des sup. x = i \<and> addr_subset p target"] prefixCovers_subset [OF rows(4) t] by auto
  have operations: "set operations = scan_operation d ` {(r, f). r \<in> set (lapi_operations d) \<and>
      op_status r \<in> {OperationPending, OperationVerified, OperationAmbiguous} \<and> f \<in> set (feeds d) \<and> f_id f = op_feed_id r}"
    using ops by (auto simp: OpenOperations_def)
  have "explain_conflict target objects operations \<longleftrightarrow>
      (\<exists>x \<in> set operations. opn_Status x = OperationAmbiguous \<and> (\<exists>item \<in> set (opn_Items x). ?hit (it_ObjectID item)))"
    unfolding explain_conflict_iff [OF rows(3)] hit ..
  also have "\<dots> \<longleftrightarrow> ambiguous_over target d"
    unfolding operations ambiguous_over_def
    by (auto simp: scan_operation_def select_items_def image_iff) (metis+)?
  finally show ?thesis .
qed

lemma covers_target_iff:
  assumes "objects_ok d" and "ListEnforcementObjects d = Inr objects" and "prefix_ok target" and "ob \<in> set objects"
  shows "covers_target target ob \<longleftrightarrow>
    er_Prefix ob \<noteq> target \<and> er_Desired ob \<and> er_Scope ob = ScopeRange \<and> addr_subset (er_Prefix ob) target"
  using prefixCovers_subset [OF ListEnforcementObjects_rows(4) [OF assms(1,2,4)] assms(3)]
  by (auto simp: covers_target_def explain_cover_def)

lemma most_specific_row:
  assumes ok: "objects_ok d" and objs: "ListEnforcementObjects d = Inr objects" and t: "prefix_ok target"
    and most: "\<exists>ob \<in> set objects. covers_target target ob \<and> text = prefix_String (er_Prefix ob) \<and>
       (\<forall>ob' \<in> set objects. covers_target target ob' \<longrightarrow> Bits (er_Prefix ob') \<le> Bits (er_Prefix ob))"
  shows "\<exists>row \<in> set (enforcement_objects d). covers_row target row \<and> text = prefix_String (object_prefix row) \<and>
    (\<forall>other \<in> set (enforcement_objects d). covers_row target other \<longrightarrow> Bits (object_prefix other) \<le> Bits (object_prefix row))"
proof -
  note rows = ListEnforcementObjects_rows [OF ok objs] and covers = covers_target_iff [OF ok objs t]
  let ?c = "\<lambda>p s des. p \<noteq> target \<and> des \<and> s = ScopeRange \<and> addr_subset p target"
  from most obtain ob where ob: "ob \<in> set objects" "covers_target target ob" "text = prefix_String (er_Prefix ob)"
      "\<forall>ob' \<in> set objects. covers_target target ob' \<longrightarrow> Bits (er_Prefix ob') \<le> Bits (er_Prefix ob)"
    by blast
  then have "\<not> (\<exists>ob' \<in> set objects. ?c (er_Prefix ob') (er_Scope ob') (er_Desired ob') \<and> Bits (er_Prefix ob') > Bits (er_Prefix ob))"
    using covers by fastforce
  then have "\<not> (\<exists>row \<in> set (enforcement_objects d). ?c (object_prefix row) (o_scope row) (o_desired row) \<and> Bits (object_prefix row) > Bits (er_Prefix ob))"
    unfolding rows(1) [of "\<lambda>i p s des sup. ?c p s des \<and> Bits p > Bits (er_Prefix ob)"] .
  moreover have "\<exists>row \<in> set (enforcement_objects d). ?c (object_prefix row) (o_scope row) (o_desired row) \<and> object_prefix row = er_Prefix ob"
    using rows(1) [of "\<lambda>i p s des sup. ?c p s des \<and> p = er_Prefix ob"] ob(1,2) covers [OF ob(1)] by auto
  ultimately show ?thesis using ob(3) by (fastforce simp: covers_row_def)
qed

subsection \<open>Properties\<close>

text \<open>C23. The explanation of an address or a prefix is right about the database it was read from. For a store whose
  objects are sound, a successful explanation reports the target as desired exactly when its own object
  is desired, as allowlisted exactly when it shares an address with a configured network or its
  object is suppressed by one, as covered exactly when another desired range contains all its addresses,
  with the most specific such range as the covering prefix; as owned exactly when the prefix of an active
  decision contains it; and it reports a conflict exactly when an ambiguous operation concerns an
  object that contains it.\<close>

theorem ExplainCLI_correct:
  assumes cfg: "Config_Validate (oe_Parse env) cfg0 = Inr cfg" and d: "open_ro env cfg p = Some d" and ok: "objects_ok d"
    and target: "ParseValue input = Inr (target, kind)" and run: "ExplainCLI env cfg0 input p = Inr r"
  shows "(xr_Desired r \<longleftrightarrow> (\<exists>row \<in> set (enforcement_objects d). object_prefix row = target \<and> o_desired row)) \<and>
    (xr_Allowlisted r \<longleftrightarrow> (\<exists>net \<in> set (cfg_Allowlists cfg). Overlaps target net) \<or>
       (\<exists>row \<in> set (enforcement_objects d). object_prefix row = target \<and> o_suppression row = SuppressedAllowlist)) \<and>
    (xr_Covered r \<longleftrightarrow> (\<exists>row \<in> set (enforcement_objects d). covers_row target row)) \<and>
    (xr_Covered r \<longrightarrow> (\<exists>row \<in> set (enforcement_objects d). covers_row target row \<and>
       xr_CoveringPrefix r = prefix_String (object_prefix row) \<and>
       (\<forall>other \<in> set (enforcement_objects d). covers_row target other \<longrightarrow> Bits (object_prefix other) \<le> Bits (object_prefix row)))) \<and>
    (xr_Owned r \<longleftrightarrow> owned_by target d) \<and>
    (xr_OwnershipConflict r \<longleftrightarrow> ambiguous_over target d)"
proof -
  let ?base = "explain_base cfg target kind"
  have t: "prefix_ok target" using ParseValue_ValidateKind [OF target] by (auto simp: ValidateKind_None_iff)
  from run cfg d target obtain objects decisions operations where
      l: "ListEnforcementObjects d = Inr objects" "ListActiveDecisions d = Inr decisions" "OpenOperations d = Inr operations"
    and "explain_store target ?base objects decisions operations = Inr r"
    by (auto simp: ExplainCLI_def split: sum.splits bool.splits)
  then obtain r2 owned where r2: "explain_objects target objects ?base = Inr r2"
    and owned: "explain_owned target decisions = Inr owned"
    and r: "r = r2\<lparr>xr_Owned := owned, xr_OwnershipConflict := explain_conflict target objects operations\<rparr>"
    by (auto simp: explain_store_def Let_def split: sum.splits if_splits)
  note rows = ListEnforcementObjects_rows [OF ok l(1)]
  note covers = covers_target_iff [OF ok l(1) t]
  have b: "\<not> xr_Desired ?base" "\<not> xr_Covered ?base"
      "xr_Allowlisted ?base \<longleftrightarrow> (\<exists>net \<in> set (cfg_Allowlists cfg). Overlaps target net)"
    by (auto simp: explain_base_def explainAllowlisted_def list_ex_iff)
  have o: "xr_Desired r2 \<longleftrightarrow> (\<exists>ob \<in> set objects. er_Prefix ob = target \<and> er_Desired ob)"
    "xr_Allowlisted r2 \<longleftrightarrow> xr_Allowlisted ?base \<or>
       (\<exists>ob \<in> set objects. er_Prefix ob = target \<and> er_Suppression ob = SuppressedAllowlist)"
    "xr_Covered r2 \<longleftrightarrow> (\<exists>ob \<in> set objects. covers_target target ob)"
    "xr_Covered r2 \<longrightarrow> (\<exists>ob \<in> set objects. covers_target target ob \<and> xr_CoveringPrefix r2 = prefix_String (er_Prefix ob) \<and>
       (\<forall>ob' \<in> set objects. covers_target target ob' \<longrightarrow> Bits (er_Prefix ob') \<le> Bits (er_Prefix ob)))"
    using explain_objects_result [OF r2 rows(2) b(1,2)] by blast+
  have "xr_Desired r \<longleftrightarrow> (\<exists>row \<in> set (enforcement_objects d). object_prefix row = target \<and> o_desired row)"
    using o(1) rows(1) [of "\<lambda>i p s des sup. p = target \<and> des"] r by simp
  moreover have "xr_Allowlisted r \<longleftrightarrow> (\<exists>net \<in> set (cfg_Allowlists cfg). Overlaps target net) \<or>
       (\<exists>row \<in> set (enforcement_objects d). object_prefix row = target \<and> o_suppression row = SuppressedAllowlist)"
    using o(2) b(3) rows(1) [of "\<lambda>i p s des sup. p = target \<and> sup = SuppressedAllowlist"] r by simp
  moreover have "xr_Covered r \<longleftrightarrow> (\<exists>row \<in> set (enforcement_objects d). covers_row target row)"
    using o(3) covers rows(1) [of "\<lambda>i p s des sup. p \<noteq> target \<and> des \<and> s = ScopeRange \<and> addr_subset p target"] r
    by (simp add: covers_row_def)
  moreover have "\<exists>row \<in> set (enforcement_objects d). covers_row target row \<and>
       xr_CoveringPrefix r = prefix_String (object_prefix row) \<and>
       (\<forall>other \<in> set (enforcement_objects d). covers_row target other \<longrightarrow> Bits (object_prefix other) \<le> Bits (object_prefix row))"
    if "xr_Covered r"
    using most_specific_row [OF ok l(1) t] o(4) that r by auto
  moreover have "xr_Owned r \<longleftrightarrow> owned_by target d" using explain_owned_iff [OF t l(2) owned] r by simp
  moreover have "xr_OwnershipConflict r \<longleftrightarrow> ambiguous_over target d"
    using explain_conflict_rows [OF ok t l(1,3)] r by simp
  ultimately show ?thesis by blast
qed

subsection \<open>An address of the concrete journal\<close>

definition sample_db_file :: "db database_file" where
  "sample_db_file = \<lparr>df_schema_migrations = Some [row_for 5 sample_migration], df_data = sample_journal\<rparr>"

definition sample_db_driver :: "db sqlite" where
  "sample_db_driver = \<lparr>sq_Open = (\<lambda>p. case p of Regular f \<Rightarrow> Some f | _ \<Rightarrow> None),
     sq_OpenReadOnly = (\<lambda>p. case p of Regular f \<Rightarrow> Some f | _ \<Rightarrow> None),
     sq_Exec = (\<lambda>sql d. Some d), sq_QuickCheck = (\<lambda>f. Some [''ok'']), sq_Chmod = True\<rparr>"

definition sample_operator :: operator_env where
  "sample_operator = \<lparr>oe_Parse = sample_parse, oe_SQLite = sample_db_driver, oe_Files = sample_embedded,
     oe_StatNotExist = False, oe_CloseOk = True\<rparr>"

lemma Config_Validate_database: "Config_Validate parse c = Inr cfg \<Longrightarrow> cfg_Database cfg = cfg_Database c"
  by (auto simp: Config_Validate_def split: option.splits sum.splits)

lemma sample_open_ro:
  assumes "Config_Validate sample_parse sample_config = Inr cfg"
  shows "open_ro sample_operator cfg (Regular sample_db_file) = Some sample_journal"
proof -
  have "dataSourceName_ok (store_options cfg)"
    by (simp add: dataSourceName_ok_def store_options_def Config_Validate_database [OF assms] sample_config_def Defaults_def go_time_defs)
  moreover have "verifyReadOnlyMigrations sample_embedded sample_db_file = None"
    by (simp add: verifyReadOnlyMigrations_def sample_All select_migrations_def sample_db_file_def)
  moreover have "QuickCheck sample_db_driver f = None" for f
    by (simp add: QuickCheck_def sample_db_driver_def)
  ultimately show ?thesis
    by (simp add: open_ro_def sample_operator_def state_OpenReadOnly_def readOnlyDataSourceName_ok_def)
      (simp add: sample_db_driver_def sample_db_file_def)
qed

lemma sample_target: "ParseValue ''8.8.8.8'' = Inr (Prefix (Addr4 0x08080808) 33, KindIP)"
proof -
  have "TrimSpace ''8.8.8.8'' = ''8.8.8.8''" by code_simp
  then show ?thesis by (simp add: ParseValue_def NormalizeAddress_def Contains_byte_def text_eval PrefixFrom_def)
qed

abbreviation sample_range :: netip_prefix where
  "sample_range \<equiv> Prefix (Addr4 0x08080800) 25"

lemma sample_range_facts:
  "ParsePrefix (prefix_String sample_range) = Some sample_range" "Masked sample_range = sample_range"
  "NormalizePrefix (prefix_String sample_range) = Inr sample_range"
  "prefixCovers sample_range (Prefix (Addr4 0x08080808) 33)" "CHR ''/'' \<in> set (prefix_String sample_range)"
proof -
  have c: "canonical sample_range" using sample_prefix_safe(1) by (simp add: IsSafePrefix_iff)
  show "ParsePrefix (prefix_String sample_range) = Some sample_range" by (rule ParsePrefix_String) (use c in auto)
  show "Masked sample_range = sample_range" using c by (simp add: canonical_def)
  show "NormalizePrefix (prefix_String sample_range) = Inr sample_range" by (rule NormalizePrefix_safe) (rule sample_prefix_safe)
  have "drop_bit 8 (0x08080808 :: 32 word) = drop_bit 8 0x08080800" by (simp add: drop_bit_eq_div)
  then show "prefixCovers sample_range (Prefix (Addr4 0x08080808) 33)"
    using Contains_4 [of "0x08080800" 24 "0x08080808"] by (simp add: prefixCovers_def IsValid_def Bits_def)
  show "CHR ''/'' \<in> set (prefix_String sample_range)" by (simp add: prefix_String_def IsValid_def)
qed

lemma sample_objects:
  "ListEnforcementObjects sample_journal = Inr [\<lparr>er_ID = 1, er_Prefix = sample_range, er_Scope = ScopeRange, er_Desired = True,
     er_Suppression = SuppressedNone, er_PrimaryFeedID = Some 1,
     er_Sources = [\<lparr>ctb_FeedID = 1, ctb_FeedName = ''alpha'', ctb_FeedOrder = 0, ctb_Kind = KindRange\<rparr>]\<rparr>]"
proof -
  have "object_prefix sample_object_row = sample_range"
    by (simp add: object_prefix_def sample_object_row_def sample_range_facts)
  then show ?thesis
    unfolding ListEnforcementObjects_total [OF sample_journal_ok(2)]
    by (simp add: sample_journal_def join_sources_def sample_store_def object_view_def)
      (simp add: source_view_def sample_object_row_def sample_feed_def)
qed

lemma sample_decisions:
  "ListActiveDecisions sample_journal = Inr [\<lparr>dr_ID = 1, dr_ObjectID = 1, dr_AlertID = 70, dr_DecisionID = 700,
     dr_OperationToken = replicate 32 (CHR ''a''), dr_MachineID = ''m1'', dr_Origin = ''crowdshield'',
     dr_Scenario = ''crowdshield/alpha'', dr_Scope = ScopeRange, dr_Value = prefix_String sample_range,
     dr_CreatedAt = time_Unix 1000, dr_ExpiresAt = time_Unix 2100, dr_VerifiedAt = time_Unix 1000, dr_Status = DecisionActive,
     dr_ReplacedByID = None\<rparr>]"
  by (simp add: ListActiveDecisions_def decisionSelect_def scanDecision_def sample_journal_def)

lemma sample_operations: "\<exists>x. OpenOperations sample_journal = Inr [x] \<and> opn_Status x = OperationPending"
  by (simp add: OpenOperations_def sample_journal_def sample_store_def sample_feed_def scan_operation_def)

lemma sample_explained:
  assumes "Config_Validate sample_parse sample_config = Inr cfg"
  shows "\<exists>r. ExplainCLI sample_operator sample_config ''8.8.8.8'' (Regular sample_db_file) = Inr r"
proof -
  let ?t = "Prefix (Addr4 0x08080808) 33"
  have base: "explain_base cfg ?t KindIP = \<lparr>xr_Canonical = addr_String (Addr4 0x08080808), xr_Kind = ExplainIP, xr_Desired = False,
      xr_Allowlisted = explainAllowlisted ?t cfg, xr_Covered = False, xr_CoveringPrefix = [], xr_Contributors = [],
      xr_Owned = False, xr_OwnershipConflict = False\<rparr>"
    by (simp add: explain_base_def)
  have "ValidFeedName ''alpha''" by (simp add: ValidFeedName_def feedNamePattern_def feed_edge_def is_lower_def code_def)
  moreover obtain x where x: "OpenOperations sample_journal = Inr [x]" "opn_Status x = OperationPending"
    using sample_operations by blast
  ultimately have "\<exists>r. explain_store ?t (explain_base cfg ?t KindIP) (projr (ListEnforcementObjects sample_journal))
      (projr (ListActiveDecisions sample_journal)) [x] = Inr r"
    unfolding sample_objects sample_decisions base
    by (simp add: explain_store_def explain_objects_def explain_indices_def explain_step_def explain_cover_def
        explain_contributors_def sample_range_facts ParseValue_def Contains_byte_def explain_conflict_def
        ExplainResult_Validate_def canonical_prefix_text_def ParseAddr_string4)
  moreover have "oe_Parse sample_operator = sample_parse" "oe_CloseOk sample_operator" by (simp_all add: sample_operator_def)
  ultimately show ?thesis
    using assms sample_open_ro [OF assms] x(1)
    by (simp add: ExplainCLI_def sample_target sample_objects sample_decisions)
qed

theorem ExplainCLI_correct_witness:
  "\<exists>r. ExplainCLI sample_operator sample_config ''8.8.8.8'' (Regular sample_db_file) = Inr r \<and>
     (xr_Covered r \<longleftrightarrow> (\<exists>row \<in> set (enforcement_objects sample_journal). covers_row (Prefix (Addr4 0x08080808) 33) row)) \<and>
     (xr_Owned r \<longleftrightarrow> owned_by (Prefix (Addr4 0x08080808) 33) sample_journal)"
proof -
  obtain cfg where cfg: "Config_Validate sample_parse sample_config = Inr cfg" using sample_config_validates by blast
  then have "Config_Validate (oe_Parse sample_operator) sample_config = Inr cfg" by (simp add: sample_operator_def)
  moreover obtain r where r: "ExplainCLI sample_operator sample_config ''8.8.8.8'' (Regular sample_db_file) = Inr r"
    using sample_explained [OF cfg] by blast
  ultimately show ?thesis
    using ExplainCLI_correct [OF _ sample_open_ro [OF cfg] sample_journal_ok(2) sample_target r] r by blast
qed

end
