(* ===== verification/Operator_Maintenance.thy ===== *)
theory Operator_Maintenance
  imports Operator_Read_Facts Store_Prune
begin

text \<open>
  The maintenance commands of \<^verbatim>\<open>internal/app/operator_maintenance.go\<close>: pruning the history, which is only planned
  unless the operator confirmed it and which never deletes while an operation is ambiguous, and the check of
  the database. A command that opens the database for writing returns the file it leaves behind.
\<close>

subsection \<open>Definitions\<close>

record cli_PruneResult =
  cpr_SyncRuns :: int
  cpr_Operations :: int
  cpr_Decisions :: int
  cpr_Alerts :: int
  cpr_EnforcementObjects :: int
  cpr_FeedEntries :: int
  cpr_OwnershipConflicts :: int

definition PruneResult_Validate :: "cli_PruneResult \<Rightarrow> bool" where
  "PruneResult_Validate r =
     list_all (\<lambda>count. \<not> (count < 0 \<or> count > maxOperatorCount))
       [cpr_SyncRuns r, cpr_Operations r, cpr_Decisions r, cpr_Alerts r, cpr_EnforcementObjects r, cpr_FeedEntries r,
        cpr_OwnershipConflicts r]"

definition mapPruneResult :: "PruneResult \<Rightarrow> int \<Rightarrow> cli_PruneResult" where
  "mapPruneResult result conflicts =
     \<lparr>cpr_SyncRuns = pr_SyncRuns result, cpr_Operations = pr_Operations result, cpr_Decisions = pr_Decisions result,
      cpr_Alerts = pr_Alerts result, cpr_EnforcementObjects = pr_EnforcementObjects result,
      cpr_FeedEntries = pr_FeedEntries result, cpr_OwnershipConflicts = conflicts\<rparr>"

text \<open>The end of each branch: the result of the store with the conflicts, unless a call or the closing failed.\<close>

definition prune_answer :: "operator_env \<Rightarrow> (ErrorCategory, PruneResult) result \<Rightarrow> int \<Rightarrow> (operator_error, cli_PruneResult) result" where
  "prune_answer env outcome conflicts =
     (case outcome of
        Inl e \<Rightarrow> Inl ErrOperatorPrune
      | Inr counts \<Rightarrow>
          if \<not> oe_CloseOk env \<or> \<not> PruneResult_Validate (mapPruneResult counts conflicts) then Inl ErrOperatorPrune
          else Inr (mapPruneResult counts conflicts))"

definition prune_confirmed ::
  "operator_env \<Rightarrow> Config \<Rightarrow> gotime \<Rightarrow> int \<Rightarrow> db path_state \<Rightarrow> (operator_error, cli_PruneResult) result \<times> db path_state" where
  "prune_confirmed env cfg now migrated p =
     (case p of
        Regular g \<Rightarrow>
          (case state_Open (oe_SQLite env) migrated (oe_Files env) (store_options cfg) p of
             (Inl e, p') \<Rightarrow> (Inl ErrOperatorPrune, p')
           | (Inr f, p') \<Rightarrow>
               (case CountAmbiguousOperations (df_data f) of
                  Inl e \<Rightarrow> (Inl ErrOperatorPrune, p')
                | Inr conflicts \<Rightarrow>
                    if conflicts > 0 then
                      (prune_answer env (PlanPruneHistory now (dbc_HistoryRetention (cfg_Database cfg))
                         (dbc_MaxHistoryEntries (cfg_Database cfg)) (df_data f)) conflicts, p')
                    else
                      (case PruneHistory now (dbc_HistoryRetention (cfg_Database cfg)) (dbc_MaxHistoryEntries (cfg_Database cfg)) (df_data f) of
                         (outcome, d') \<Rightarrow> (prune_answer env outcome 0, Regular (f\<lparr>df_data := d'\<rparr>)))))
      | _ \<Rightarrow> (Inl ErrOperatorPrune, p))"

definition prune_planned :: "operator_env \<Rightarrow> Config \<Rightarrow> gotime \<Rightarrow> db path_state \<Rightarrow> (operator_error, cli_PruneResult) result" where
  "prune_planned env cfg now p =
     (case open_ro env cfg p of
        None \<Rightarrow> Inl ErrOperatorPrune
      | Some d \<Rightarrow>
          (case CountAmbiguousOperations d of
             Inl e \<Rightarrow> Inl ErrOperatorPrune
           | Inr conflicts \<Rightarrow>
               prune_answer env (PlanPruneHistory now (dbc_HistoryRetention (cfg_Database cfg))
                 (dbc_MaxHistoryEntries (cfg_Database cfg)) d) conflicts))"

text \<open>\<open>migrated\<close> is the reading of the clock in seconds that a migration would record.\<close>

definition PruneCLI ::
  "operator_env \<Rightarrow> Config \<Rightarrow> bool \<Rightarrow> gotime \<Rightarrow> int \<Rightarrow> db path_state \<Rightarrow> (operator_error, cli_PruneResult) result \<times> db path_state" where
  "PruneCLI env cfg0 confirmed now migrated p =
     (case Config_Validate (oe_Parse env) cfg0 of
        Inl e \<Rightarrow> (Inl ErrOperatorPrune, p)
      | Inr cfg \<Rightarrow>
          if IsZero now \<or> unix now < 0 then (Inl ErrOperatorPrune, p)
          else if confirmed then prune_confirmed env cfg now migrated p
          else (prune_planned env cfg now p, p))"

definition DBCheckCLI :: "operator_env \<Rightarrow> Config \<Rightarrow> db path_state \<Rightarrow> operator_error option" where
  "DBCheckCLI env cfg0 p =
     (case Config_Validate (oe_Parse env) cfg0 of
        Inl e \<Rightarrow> Some ErrOperatorDBCheck
      | Inr cfg \<Rightarrow>
          (case state_OpenReadOnly (oe_SQLite env) (oe_Files env) ((store_options cfg)\<lparr>so_IntegrityCheck := True\<rparr>) p of
             Inl e \<Rightarrow> Some ErrOperatorDBCheck
           | Inr f \<Rightarrow>
               (case SchemaVersion f of
                  Inl e \<Rightarrow> Some ErrOperatorDBCheck
                | Inr version \<Rightarrow> if version < 1 \<or> \<not> oe_CloseOk env then Some ErrOperatorDBCheck else None)))"

subsection \<open>Facts\<close>

lemma CountAmbiguous_cases:
  assumes "CountAmbiguousOperations d = Inr n"
  shows "0 \<le> n" and "n = 0 \<longleftrightarrow> (\<forall>r \<in> set (lapi_operations d). op_status r \<noteq> OperationAmbiguous)"
  using assms by (auto simp: CountAmbiguousOperations_def Let_def filter_empty_conv split: if_splits)

lemma prune_answer_conflicts: "prune_answer env outcome n = Inr r \<Longrightarrow> cpr_OwnershipConflicts r = n"
  by (auto simp: prune_answer_def mapPruneResult_def split: sum.splits if_splits)

text \<open>The database as the confirmed command opens it.\<close>

definition opened_db :: "operator_env \<Rightarrow> Config \<Rightarrow> int \<Rightarrow> db path_state \<Rightarrow> db database_file option" where
  "opened_db env cfg migrated p =
     (case state_Open (oe_SQLite env) migrated (oe_Files env) (store_options cfg) p of (Inr f, _) \<Rightarrow> Some f | _ \<Rightarrow> None)"

lemma prune_confirmed_result:
  assumes "prune_confirmed env cfg now migrated p = (Inr r, p')"
  obtains f n outcome d' where "opened_db env cfg migrated p = Some f" "CountAmbiguousOperations (df_data f) = Inr n"
    "n > 0 \<Longrightarrow> p' = Regular f \<and> cpr_OwnershipConflicts r = n"
    "n \<le> 0 \<Longrightarrow> PruneHistory now (dbc_HistoryRetention (cfg_Database cfg)) (dbc_MaxHistoryEntries (cfg_Database cfg)) (df_data f) = (Inr outcome, d') \<and>
       p' = Regular (f\<lparr>df_data := d'\<rparr>) \<and> r = mapPruneResult outcome 0"
proof -
  from assms obtain g where "p = Regular g" by (cases p) (auto simp: prune_confirmed_def)
  with assms obtain f p1 n where o: "state_Open (oe_SQLite env) migrated (oe_Files env) (store_options cfg) p = (Inr f, p1)"
    and n: "CountAmbiguousOperations (df_data f) = Inr n"
    by (auto simp: prune_confirmed_def split: sum.splits prod.splits)
  from o have p1: "p1 = Regular f" by (rule state_Open_success)
  obtain outcome d' where ph: "PruneHistory now (dbc_HistoryRetention (cfg_Database cfg)) (dbc_MaxHistoryEntries (cfg_Database cfg)) (df_data f) = (outcome, d')"
    by (rule prod.exhaust)
  show thesis
  proof (cases "n > 0")
    case True
    with assms \<open>p = Regular g\<close> o n p1 have "p' = Regular f" "cpr_OwnershipConflicts r = n"
      by (auto simp: prune_confirmed_def intro: prune_answer_conflicts)
    with True o n that show thesis by (simp add: opened_db_def)
  next
    case False
    with assms \<open>p = Regular g\<close> o n ph have r: "prune_answer env outcome 0 = Inr r" "p' = Regular (f\<lparr>df_data := d'\<rparr>)"
      by (auto simp: prune_confirmed_def)
    then obtain counts where "outcome = Inr counts" "r = mapPruneResult counts 0"
      by (auto simp: prune_answer_def split: sum.splits if_splits)
    with False o n ph r that show thesis by (simp add: opened_db_def)
  qed
qed


subsection \<open>Properties\<close>

text \<open>C22. Pruning from the command line is guarded. Without the confirmation the database file stays as it is. With it,
  nothing is deleted while an operation is ambiguous: the file stays as it was opened and the result reports
  the conflicts. When it does delete, what it reports is exactly what the unconfirmed command reports for the
  same database, and the tables are those that the pruning of the store leaves. The driver is any that opens
  an existing file as it is.\<close>

theorem PruneCLI_guarded:
  assumes ro: "\<And>g. sq_OpenReadOnly (oe_SQLite env) (Regular g) = Some g"
    and keys: "\<And>g. sq_Open (oe_SQLite env) p = Some g \<Longrightarrow> migrations_ok g"
    and cfg: "Config_Validate (oe_Parse env) cfg0 = Inr cfg" and f: "opened_db env cfg migrated p = Some f"
    and ok: "journal_ok (df_data f)" "runtime_ok (df_data f)" "unix now \<le> max_int64"
    and run: "PruneCLI env cfg0 confirmed now migrated p = (Inr r, p')"
  shows "(\<not> confirmed \<longrightarrow> p' = p) \<and>
    (confirmed \<longrightarrow> (\<exists>x \<in> set (lapi_operations (df_data f)). op_status x = OperationAmbiguous) \<longrightarrow>
       p' = Regular f \<and> cpr_OwnershipConflicts r > 0) \<and>
    (confirmed \<longrightarrow> cpr_OwnershipConflicts r = 0 \<longrightarrow>
       fst (PruneCLI env cfg0 False now migrated (Regular f)) = Inr r \<and>
       p' = Regular (f\<lparr>df_data := snd (PruneHistory now (dbc_HistoryRetention (cfg_Database cfg))
         (dbc_MaxHistoryEntries (cfg_Database cfg)) (df_data f))\<rparr>))"
proof (cases confirmed)
  case False
  with run cfg show ?thesis by (auto simp: PruneCLI_def split: if_splits)
next
  case True
  with run cfg have now: "\<not> IsZero now" "\<not> unix now < 0" and run': "prune_confirmed env cfg now migrated p = (Inr r, p')"
    by (auto simp: PruneCLI_def split: if_splits)
  let ?prune = "PruneHistory now (dbc_HistoryRetention (cfg_Database cfg)) (dbc_MaxHistoryEntries (cfg_Database cfg)) (df_data f)"
  from run' obtain n outcome d' where n: "CountAmbiguousOperations (df_data f) = Inr n"
    and blocked: "n > 0 \<Longrightarrow> p' = Regular f \<and> cpr_OwnershipConflicts r = n"
    and applied: "n \<le> 0 \<Longrightarrow> ?prune = (Inr outcome, d') \<and> p' = Regular (f\<lparr>df_data := d'\<rparr>) \<and> r = mapPruneResult outcome 0"
    using f by (auto elim!: prune_confirmed_result)
  have "fst (PruneCLI env cfg0 False now migrated (Regular f)) = Inr r \<and> p' = Regular (f\<lparr>df_data := snd ?prune\<rparr>)"
    if "cpr_OwnershipConflicts r = 0"
  proof -
    have "n = 0" using blocked that CountAmbiguous_cases(1) [OF n] by force
    then have "n \<le> 0" by simp
    note a = applied [OF this]
    have plan: "PlanPruneHistory now (dbc_HistoryRetention (cfg_Database cfg)) (dbc_MaxHistoryEntries (cfg_Database cfg)) (df_data f) = Inr outcome"
      using PlanPruneHistory_exact [OF ok] a by (metis fst_conv)
    have "open_ro env cfg (Regular f) = Some (df_data f)"
      using f state_Open_then_read [OF ro keys] by (auto simp: opened_db_def open_ro_def split: prod.splits sum.splits)
    moreover have "prune_answer env (Inr outcome) 0 = Inr r"
      using run' f n a \<open>n = 0\<close> by (auto simp: prune_confirmed_def opened_db_def split: path_state.splits prod.splits sum.splits)
    ultimately show ?thesis
      using a cfg now n plan \<open>n = 0\<close> by (simp add: PruneCLI_def prune_planned_def)
  qed
  moreover have "p' = Regular f \<and> cpr_OwnershipConflicts r > 0"
    if "\<exists>x \<in> set (lapi_operations (df_data f)). op_status x = OperationAmbiguous"
    using that CountAmbiguous_cases [OF n] blocked by force
  ultimately show ?thesis using True by blast
qed

subsection \<open>A database with an ambiguous operation\<close>

definition sample_ambiguous :: db where
  "sample_ambiguous = sample_journal\<lparr>lapi_operations := [\<lparr>op_token = sample_token, op_kind = OperationRefresh, op_feed_id = 1,
     op_duration_seconds = 3600, op_payload_hash = sample_hash, op_status = OperationAmbiguous,
     op_started_at = 1900, op_completed_at = None, op_error_category = []\<rparr>]\<rparr>"

definition sample_ambiguous_file :: "db database_file" where
  "sample_ambiguous_file = sample_db_file\<lparr>df_data := sample_ambiguous\<rparr>"

lemma sample_ambiguous_ok: "journal_ok sample_ambiguous" "runtime_ok sample_ambiguous"
  by (simp_all add: journal_ok_def operations_ok_def decisions_ok_def sample_ambiguous_def sample_journal_def sample_store_def
      empty_db_def sample_feed_def sample_object_row_def runtime_ok_def)

lemma sample_ambiguous_opened:
  assumes "Config_Validate sample_parse sample_config = Inr cfg"
  shows "state_Open sample_db_driver 7 sample_embedded (store_options cfg) (Regular sample_ambiguous_file) =
    (Inr sample_ambiguous_file, Regular sample_ambiguous_file)"
proof -
  have "Migrate sample_db_driver 7 [sample_migration] sample_ambiguous_file = (None, sample_ambiguous_file)"
    by (rule Migrate_again [OF sample_All, of _ "[row_for 5 sample_migration]"])
      (simp_all add: sample_ambiguous_file_def sample_db_file_def applied_known_def, simp_all add: sample_migration_def)
  moreover have "dataSourceName_ok (store_options cfg)"
    by (simp add: dataSourceName_ok_def store_options_def Config_Validate_database [OF assms] sample_config_def Defaults_def go_time_defs)
  moreover have "QuickCheck sample_db_driver g = None" "sq_Open sample_db_driver (Regular g) = Some g" "sq_Chmod sample_db_driver" for g
    by (simp_all add: QuickCheck_def sample_db_driver_def)
  ultimately show ?thesis by (simp add: state_Open_def sample_All)
qed

theorem PruneCLI_guarded_witness:
  "\<exists>r. PruneCLI sample_operator sample_config True (2000 * second) 7 (Regular sample_ambiguous_file) =
       (Inr r, Regular sample_ambiguous_file) \<and> cpr_OwnershipConflicts r > 0"
proof -
  obtain cfg where cfg: "Config_Validate sample_parse sample_config = Inr cfg" using sample_config_validates by blast
  have env: "oe_Parse sample_operator = sample_parse" "oe_SQLite sample_operator = sample_db_driver"
      "oe_Files sample_operator = sample_embedded" "oe_CloseOk sample_operator"
    by (simp_all add: sample_operator_def)
  have data: "df_data sample_ambiguous_file = sample_ambiguous" by (simp add: sample_ambiguous_file_def)
  have count: "CountAmbiguousOperations sample_ambiguous = Inr 1"
    by (simp add: CountAmbiguousOperations_def sample_ambiguous_def)
  have db: "dbc_HistoryRetention (cfg_Database cfg) = 30 * 24 * hour" "dbc_MaxHistoryEntries (cfg_Database cfg) = 1000"
    by (simp_all add: Config_Validate_database [OF cfg] sample_config_def Defaults_def)
  have "validPruneOptions (2000 * second) (30 * 24 * hour) 1000" by (simp add: validPruneOptions_def go_time_defs)
  moreover have "distinct (map d_id (lapi_decisions sample_ambiguous))"
    using sample_ambiguous_ok(1) by (simp add: journal_ok_def decisions_ok_def)
  ultimately have plan: "PlanPruneHistory (2000 * second) (30 * 24 * hour) 1000 sample_ambiguous =
      Inr (prune_counts (unix (2000 * second - 30 * 24 * hour)) 1000 sample_ambiguous)"
    by (rule PlanPruneHistory_eq)
  let ?r = "mapPruneResult (prune_counts (unix (2000 * second - 30 * 24 * hour)) 1000 sample_ambiguous) 1"
  have "PruneResult_Validate ?r"
    by (simp add: PruneResult_Validate_def mapPruneResult_def prune_counts_def maxOperatorCount_def)
      (simp add: sample_ambiguous_def sample_journal_def sample_store_def empty_db_def)
  then have run: "PruneCLI sample_operator sample_config True (2000 * second) 7 (Regular sample_ambiguous_file) =
      (Inr ?r, Regular sample_ambiguous_file)"
    using cfg sample_ambiguous_opened [OF cfg] plan
    by (simp add: PruneCLI_def env prune_confirmed_def data count db prune_answer_def) (simp add: go_time_defs)
  have f: "opened_db sample_operator cfg 7 (Regular sample_ambiguous_file) = Some sample_ambiguous_file"
    using sample_ambiguous_opened [OF cfg] by (simp add: opened_db_def env)
  have "sq_OpenReadOnly sample_db_driver (Regular g) = Some g" "migrations_ok sample_ambiguous_file"
      "sq_Open sample_db_driver (Regular sample_ambiguous_file) = Some sample_ambiguous_file" for g
    by (simp_all add: sample_db_driver_def migrations_ok_def sample_ambiguous_file_def sample_db_file_def)
  then have "cpr_OwnershipConflicts ?r > 0"
    using PruneCLI_guarded [of sample_operator "Regular sample_ambiguous_file" sample_config cfg 7 sample_ambiguous_file, OF _ _ _ f _ _ _ run]
      cfg sample_ambiguous_ok by (simp add: env data go_time_defs sample_ambiguous_def)
  with run show ?thesis by blast
qed

end
