(* ===== verification/Machine_Credentials.thy ===== *)
theory Machine_Credentials
  imports Fetcher
begin

text \<open>
  The package \<^verbatim>\<open>internal/credentials\<close>: the file with the login of the machine at the local API. The file system, the YAML
  decoder and \<^verbatim>\<open>url.Parse\<close> are the record \<open>credentials_env\<close>. What a caller gets is the login, the password and the
  endpoint; overwriting the secret in memory and redacted printing have no counterpart in the model.
\<close>

subsection \<open>Definitions: data\<close>

datatype CredentialError = CredErrMissing | CredErrFileType | CredErrPermissions | CredErrSize | CredErrYAML | CredErrFields | CredErrURL

record rawCredentials =
  rw_URL :: string
  rw_Login :: string
  rw_Password :: string

record credentials_Loader =
  cl_MaxBytes :: int
  cl_StrictPermissions :: bool
  cl_AllowedHTTPHosts :: "string list"

record Credentials =
  crd_Login :: string
  crd_Password :: string
  crd_Scheme :: string
  crd_Hostname :: string
  crd_BasePath :: string

text \<open>A parsed URL with its query and its path.\<close>

record full_url = url +
  ful_RawQuery :: string
  ful_Path :: string

text \<open>What \<^verbatim>\<open>Lstat\<close> and \<^verbatim>\<open>Stat\<close> say: the kind of the file, its permission bits, its size, and which file it is, for
  \<^verbatim>\<open>os.SameFile\<close>.\<close>

record file_info =
  fi_Regular :: bool
  fi_Perm :: "9 word"
  fi_Size :: int
  fi_Identity :: nat

record opened_file =
  of_Stat :: "file_info option"
  of_Bytes :: "string option"

record credentials_env =
  ce_Lstat :: "string \<Rightarrow> file_info option"
  ce_Open :: "string \<Rightarrow> opened_file option"
  ce_Decode :: "string \<Rightarrow> rawCredentials option"
  ce_Single :: "string \<Rightarrow> bool"
  ce_Parse :: "string \<Rightarrow> full_url option"

subsection \<open>Definitions: text\<close>

definition TrimRight_slash :: "string \<Rightarrow> string" where
  "TrimRight_slash s = rev (dropWhile (\<lambda>c. c = CHR ''/'') (rev s))"

subsection \<open>Definitions: the loader\<close>

definition credentials_DefaultMaxBytes :: int where
  "credentials_DefaultMaxBytes = 65536"

definition http_host_allowed :: "string list \<Rightarrow> string \<Rightarrow> bool" where
  "http_host_allowed hosts hostname = list_ex (\<lambda>host. EqualFold (TrimSuffix_dot host) (TrimSuffix_dot hostname)) hosts"

definition validateURL :: "credentials_env \<Rightarrow> credentials_Loader \<Rightarrow> string \<Rightarrow> (CredentialError, full_url) result" where
  "validateURL env l raw =
     (case ce_Parse env raw of
        None \<Rightarrow> Inl CredErrURL
      | Some parsed \<Rightarrow>
          if url_Scheme parsed = [] \<or> url_Hostname parsed = [] then Inl CredErrURL
          else if url_HasUser parsed \<or> url_Fragment parsed \<noteq> [] \<or> ful_RawQuery parsed \<noteq> [] \<or> has_control (url_Host parsed)
          then Inl CredErrURL
          else if url_Scheme parsed \<noteq> ''https'' \<and>
              \<not> (url_Scheme parsed = ''http'' \<and> http_host_allowed (cl_AllowedHTTPHosts l) (url_Hostname parsed))
          then Inl CredErrURL
          else Inr (parsed\<lparr>ful_Path := TrimRight_slash (ful_Path parsed)\<rparr>))"

text \<open>The checks of the file, up to the bytes that were read.\<close>

definition credentials_file :: "credentials_env \<Rightarrow> credentials_Loader \<Rightarrow> string \<Rightarrow> (CredentialError, string) result" where
  "credentials_file env l path =
     (let maxBytes = (if cl_MaxBytes l \<le> 0 then credentials_DefaultMaxBytes else cl_MaxBytes l) in
      case ce_Lstat env path of
        None \<Rightarrow> Inl CredErrMissing
      | Some before_info \<Rightarrow>
          if \<not> fi_Regular before_info then Inl CredErrFileType
          else if cl_StrictPermissions l \<and> and (fi_Perm before_info) 63 \<noteq> 0 then Inl CredErrPermissions
          else if fi_Size before_info > maxBytes then Inl CredErrSize
          else
            (case ce_Open env path of
               None \<Rightarrow> Inl CredErrMissing
             | Some opened \<Rightarrow>
                 (case of_Stat opened of
                    None \<Rightarrow> Inl CredErrFileType
                  | Some after_info \<Rightarrow>
                      if \<not> fi_Regular after_info \<or> fi_Identity before_info \<noteq> fi_Identity after_info then Inl CredErrFileType
                      else
                        (case of_Bytes opened of
                           None \<Rightarrow> Inl CredErrYAML
                         | Some bytes \<Rightarrow>
                             let body = take (nat (wrap64 (maxBytes + 1))) bytes in
                             if int (length body) > maxBytes then Inl CredErrSize else Inr body))))"

definition credentials_Load :: "credentials_env \<Rightarrow> credentials_Loader \<Rightarrow> string \<Rightarrow> (CredentialError, Credentials) result" where
  "credentials_Load env l path =
     (case credentials_file env l path of
        Inl e \<Rightarrow> Inl e
      | Inr body \<Rightarrow>
          (case ce_Decode env body of
             None \<Rightarrow> Inl CredErrYAML
           | Some raw \<Rightarrow>
               if \<not> ce_Single env body then Inl CredErrYAML
               else if TrimSpace (rw_URL raw) = [] \<or> TrimSpace (rw_Login raw) = [] \<or> rw_Password raw = [] then Inl CredErrFields
               else if length (rw_Login raw) > 128 \<or> has_control (rw_Login raw) \<or> length (rw_Password raw) > 4096
                   \<or> Contains_byte (rw_Password raw) (byte 0) then Inl CredErrFields
               else
                 (case validateURL env l (rw_URL raw) of
                    Inl e \<Rightarrow> Inl e
                  | Inr endpoint \<Rightarrow>
                      Inr \<lparr>crd_Login = rw_Login raw, crd_Password = rw_Password raw, crd_Scheme = url_Scheme endpoint,
                           crd_Hostname = url_Hostname endpoint, crd_BasePath = ful_Path endpoint\<rparr>)))"

text \<open>The loader as the service and the commands build it.\<close>

definition machine_credentials :: "credentials_env \<Rightarrow> Config \<Rightarrow> Credentials option" where
  "machine_credentials env cfg =
     (case credentials_Load env
         \<lparr>cl_MaxBytes = credentials_DefaultMaxBytes, cl_StrictPermissions = True,
          cl_AllowedHTTPHosts = csc_AllowedHTTPHosts (cfg_CrowdSec cfg)\<rparr> (csc_CredentialsFile (cfg_CrowdSec cfg)) of
        Inl e \<Rightarrow> None
      | Inr c \<Rightarrow> Some c)"

subsection \<open>Facts\<close>

lemma machine_credentials_login:
  assumes "machine_credentials env cfg = Some c"
  shows "crd_Login c \<noteq> []" "length (crd_Login c) \<le> 128" "\<not> has_control (crd_Login c)" "crd_Password c \<noteq> []"
    "crd_Scheme c = ''https'' \<or> crd_Scheme c = ''http''"
proof -
  have "TrimSpace [] = []" by (simp add: TrimSpace_def trim_left.simps trim_left_rev.simps)
  then show "crd_Login c \<noteq> []" "length (crd_Login c) \<le> 128" "\<not> has_control (crd_Login c)" "crd_Password c \<noteq> []"
    "crd_Scheme c = ''https'' \<or> crd_Scheme c = ''http''"
    using assms by (auto simp: machine_credentials_def credentials_Load_def validateURL_def split: sum.splits option.splits if_splits)
qed

text \<open>A private file with one document, for examples.\<close>

definition sample_credentials :: credentials_env where
  "sample_credentials =
     \<lparr>ce_Lstat = (\<lambda>path. Some \<lparr>fi_Regular = True, fi_Perm = 384, fi_Size = 2, fi_Identity = 7\<rparr>),
      ce_Open = (\<lambda>path. Some \<lparr>of_Stat = Some \<lparr>fi_Regular = True, fi_Perm = 384, fi_Size = 2, fi_Identity = 7\<rparr>, of_Bytes = Some ''{}''\<rparr>),
      ce_Decode = (\<lambda>body. Some \<lparr>rw_URL = ''https://lapi/'', rw_Login = ''m1'', rw_Password = ''p''\<rparr>), ce_Single = (\<lambda>body. True),
      ce_Parse = (\<lambda>raw. Some \<lparr>url_Scheme = ''https'', url_Host = ''lapi'', url_Hostname = ''lapi'', url_HasUser = False,
        url_Fragment = [], ful_RawQuery = [], ful_Path = ''/''\<rparr>)\<rparr>"

lemma sample_credentials_load:
  "machine_credentials sample_credentials cfg =
     Some \<lparr>crd_Login = ''m1'', crd_Password = ''p'', crd_Scheme = ''https'', crd_Hostname = ''lapi'', crd_BasePath = []\<rparr>"
proof -
  have "byte 0 \<noteq> CHR ''p''" by code_simp
  then show ?thesis
    by (simp add: machine_credentials_def credentials_Load_def credentials_file_def validateURL_def sample_credentials_def
      credentials_DefaultMaxBytes_def wrap64_def max_int64_def TrimRight_slash_def Contains_byte_def TrimSpace_def trim_left.simps trim_left_rev.simps text_eval code_def)
qed

end
