(* ===== verification/Operator_Sync.thy ===== *)
theory Operator_Sync
  imports Operator_Read Machine_Credentials App_Job_Facts Syncer_Facts LAPI_Client Fetcher
begin

text \<open>
  One synchronization on behalf of an operator: \<^verbatim>\<open>SyncCLI\<close> and \<^verbatim>\<open>RunCLI\<close> of \<^verbatim>\<open>internal/app/operator.go\<close> with the
  store of \<^verbatim>\<open>operator_dry_store.go\<close>. Here the parts meet: the database is opened, the client of the local API, the
  reconciler, the fetcher and the engine are built from the configuration and the credentials, the engine runs
  over them, and its report becomes a result. The record \<open>sync_cli\<close> holds what the code finds outside: the
  operator's environment, the readings of the clock, the file of the credentials, the transport of the client,
  the fetcher's network and the causes that an error carries. A cancelled context enters as a cause.
\<close>

subsection \<open>Definitions: the environment\<close>

record cli_SyncRequest =
  csr_DryRun :: bool
  csr_Feed :: string

record 'w sync_cli =
  sx_Operator :: operator_env
  sx_StartedAt :: gotime
  sx_EngineNow :: gotime
  sx_ReconcileNow :: gotime
  sx_EndedAt :: gotime
  sx_Migrated :: int
  sx_Credentials :: credentials_env
  sx_Client :: "'w lapi_client"
  sx_Token :: "'w \<Rightarrow> string option \<times> 'w"
  sx_Fetch :: "FetchRequest \<Rightarrow> 'w lapi_state \<Rightarrow> (feed_failure, FetchResult) result \<times> 'w lapi_state"
  sx_Marshal :: "FeedConfig \<Rightarrow> string option"
  sx_Order :: "(groupKey \<times> plannedAction list) list \<Rightarrow> (groupKey \<times> plannedAction list) list"
  sx_Causes :: "'w lapi_state \<Rightarrow> error_link list"

subsection \<open>Definitions: the store of a preview\<close>

text \<open>\<^verbatim>\<open>emptyOperatorStore\<close> stands for a database that does not exist yet: every query finds nothing. Its writing
  methods return an error; a preview calls none of them.\<close>

definition emptyOperatorStore :: db where
  "emptyOperatorStore = empty_db"

subsection \<open>Definitions: building the parts\<close>

definition operatorFailure :: "gotime \<Rightarrow> FailureCategory \<Rightarrow> bool \<Rightarrow> ops_Result" where
  "operatorFailure now failure retryable = plain_result OutcomeFailed failure retryable now now"

definition operator_client :: "'w sync_cli \<Rightarrow> Config \<Rightarrow> Credentials \<Rightarrow> 'w lapi_client" where
  "operator_client env cfg credentialSet =
     (sx_Client env)\<lparr>lc_Login := crd_Login credentialSet, lc_Password := crd_Password credentialSet,
       lc_BasePath := crd_BasePath credentialSet, lc_userAgent := val_UserAgent (cfg_Validation cfg),
       lc_maxResponseBytes := csc_MaxResponseBytes (cfg_CrowdSec cfg),
       lc_authRefreshBefore := csc_AuthRefreshBefore (cfg_CrowdSec cfg)\<rparr>"

definition operator_reconciler :: "Config \<Rightarrow> Credentials \<Rightarrow> Reconciler" where
  "operator_reconciler cfg credentialSet =
     \<lparr>rc_machineID = crd_Login credentialSet, rc_duration = dec_Duration (cfg_Decisions cfg),
      rc_refreshBefore = dec_RefreshBefore (cfg_Decisions cfg), rc_batchSize = csc_BatchSize (cfg_CrowdSec cfg)\<rparr>"

definition newOperatorFetcher :: "Config \<Rightarrow> (FeedError, fetcher) result" where
  "newOperatorFetcher cfg =
     NewFetcher (val_UserAgent (cfg_Validation cfg)) (val_MaxRedirects (cfg_Validation cfg)) (val_AllowHTTP (cfg_Validation cfg))
       [csc_ConnectTimeout (cfg_CrowdSec cfg), val_DNSLookupTimeout (cfg_Validation cfg), csc_ConnectTimeout (cfg_CrowdSec cfg),
        csc_RequestTimeout (cfg_CrowdSec cfg)]"

text \<open>The constructors in the order of the code; a failure is the category of the result that the command returns.\<close>

definition operator_parts ::
  "'w sync_cli \<Rightarrow> Config \<Rightarrow> Credentials \<Rightarrow> (FailureCategory, 'w lapi_client \<times> 'w lapi_state engine) result" where
  "operator_parts env cfg credentialSet =
     (let lapiClient = operator_client env cfg credentialSet in
      if \<not> lapi_New_ok lapiClient (csc_RequestTimeout (cfg_CrowdSec cfg)) (csc_ConnectTimeout (cfg_CrowdSec cfg)) (crd_Scheme credentialSet)
      then Inl FailureConfig
      else
        (case New (operator_reconciler cfg credentialSet) of
           Inl e \<Rightarrow> Inl FailureInternal
         | Inr reconciler \<Rightarrow>
             (case newOperatorFetcher cfg of
                Inl e \<Rightarrow> Inl FailureConfig
              | Inr fetcher \<Rightarrow>
                  (case engine_New \<lparr>eng_Config = cfg, eng_Fetch = sx_Fetch env, eng_Marshal = sx_Marshal env,
                      eng_URLParse = oe_Parse (sx_Operator env), eng_LAPI = client_outside lapiClient (sx_Token env),
                      eng_Order = sx_Order env, eng_Reconciler = reconciler, eng_ReconcileNow = sx_ReconcileNow env,
                      eng_ReconcileBusy = False\<rparr> of
                     Inl e \<Rightarrow> Inl FailureConfig
                   | Inr engine \<Rightarrow> Inr (lapiClient, engine)))))"

text \<open>An error of the engine as the chain it is: its category, then its causes.\<close>

definition engine_error :: "'w sync_cli \<Rightarrow> SyncError option \<Rightarrow> 'w lapi_state \<Rightarrow> run_error option" where
  "engine_error env err s = map_option (\<lambda>c. SyncLink c # sx_Causes env s) err"

subsection \<open>Definitions: a preview\<close>

definition sync_dry ::
  "'w sync_cli \<Rightarrow> Config \<Rightarrow> string \<Rightarrow> Credentials \<Rightarrow> db \<Rightarrow> 'w lapi_state \<Rightarrow>
   (operator_error, ops_Result) result \<times> db \<times> 'w lapi_state" where
  "sync_dry env cfg feed credentialSet d s =
     (case operator_parts env cfg credentialSet of
        Inl category \<Rightarrow> (Inr (operatorFailure (sx_StartedAt env) category False), d, s)
      | Inr (lapiClient, engine) \<Rightarrow>
          (case engine_Run engine \<lparr>sro_FeedName = feed, sro_DryRun = True\<rparr> (sx_EngineNow env) d s of
             (err, report, d', s') \<Rightarrow>
               let completedAt = normalizedCompletion (sx_StartedAt env) (sx_EndedAt env);
                   (runErr, active) = (case ListActiveDecisions d' of
                       Inl e \<Rightarrow> (Some [SyncLink SyncErrState], 0)
                     | Inr rows \<Rightarrow> (engine_error env err s', int (length rows)))
               in (case ResultFromSync report runErr (sx_StartedAt env) completedAt active of
                     None \<Rightarrow> Inl ErrOperatorSync
                   | Some result \<Rightarrow> Inr result, d', s')))"

subsection \<open>Definitions: an enforcing run\<close>

definition sync_enforce_run ::
  "'w sync_cli \<Rightarrow> string \<Rightarrow> 'w lapi_client \<Rightarrow> 'w lapi_state engine \<Rightarrow> db \<Rightarrow> 'w lapi_state \<Rightarrow>
   sync_Report \<times> run_error option \<times> db \<times> 'w lapi_state" where
  "sync_enforce_run env feed lapiClient engine d s =
     (case Authenticate lapiClient s of
        (Inl failure, s1) \<Rightarrow> (zero_sync_Report, Some (LAPILink (lf_Category failure) # sx_Causes env s1), d, s1)
      | (Inr _, s1) \<Rightarrow>
          (case engine_Run engine \<lparr>sro_FeedName = feed, sro_DryRun = False\<rparr> (sx_EngineNow env) d s1 of
             (err, report, d', s2) \<Rightarrow> (report, engine_error env err s2, d', s2)))"

definition sync_enforce_finish ::
  "'w sync_cli \<Rightarrow> int \<Rightarrow> sync_Report \<Rightarrow> run_error option \<Rightarrow> db \<Rightarrow> ops_Result \<times> db" where
  "sync_enforce_finish env runID report err0 d =
     (let (runErr, active) =
            (if (case err0 of None \<Rightarrow> False | Some err \<Rightarrow> ContextCanceled \<in> set err) then (err0, 0)
             else (case ListActiveDecisions d of
                 Inl e \<Rightarrow> (Some [SyncLink SyncErrState], 0)
               | Inr rows \<Rightarrow> (err0, int (length rows))));
          completedAt = normalizedCompletion (sx_StartedAt env) (sx_EndedAt env);
          result = (case ResultFromSync report runErr (sx_StartedAt env) completedAt active of
              Some r \<Rightarrow> r
            | None \<Rightarrow> fixedFailureResult FailureInternal False (sx_StartedAt env) completedAt zero_Counts [])
      in case CompleteSyncRun runID result d of
           (Inl e, d') \<Rightarrow> (fixedFailureResult FailureDatabase True (sx_StartedAt env) completedAt (res_Counts result) (res_Feeds result), d')
         | (Inr _, d') \<Rightarrow> (result, d'))"

definition sync_enforce ::
  "'w sync_cli \<Rightarrow> Config \<Rightarrow> string \<Rightarrow> Credentials \<Rightarrow> db \<Rightarrow> 'w lapi_state \<Rightarrow> ops_Result \<times> db \<times> 'w lapi_state" where
  "sync_enforce env cfg feed credentialSet d s =
     (case RecoverInterruptedSyncRuns (sx_StartedAt env) d of
        (Inl e, d1) \<Rightarrow> (operatorFailure (sx_StartedAt env) FailureDatabase True, d1, s)
      | (Inr _, d1) \<Rightarrow>
          (case operator_parts env cfg credentialSet of
             Inl category \<Rightarrow> (operatorFailure (sx_StartedAt env) category False, d1, s)
           | Inr (lapiClient, engine) \<Rightarrow>
               (case BeginSyncRun SyncModeEnforce feed (sx_StartedAt env) d1 of
                  (Inl e, d2) \<Rightarrow> (operatorFailure (sx_StartedAt env) FailureDatabase True, d2, s)
                | (Inr runID, d2) \<Rightarrow>
                    (case sync_enforce_run env feed lapiClient engine d2 s of
                       (report, err, d3, s1) \<Rightarrow>
                         (case sync_enforce_finish env runID report err d3 of (result, d4) \<Rightarrow> (result, d4, s1))))))"

subsection \<open>Definitions: SyncCLI and RunCLI\<close>

definition SyncCLI ::
  "'w sync_cli \<Rightarrow> Config \<Rightarrow> cli_SyncRequest \<Rightarrow> db path_state \<Rightarrow> 'w lapi_state \<Rightarrow>
   (operator_error, ops_Result) result \<times> db path_state \<times> 'w lapi_state" where
  "SyncCLI env cfg0 request p s =
     (if IsZero (sx_StartedAt env) then (Inl ErrOperatorSync, p, s)
      else
        (case Config_Validate (oe_Parse (sx_Operator env)) cfg0 of
           Inl e \<Rightarrow> (Inr (operatorFailure (sx_StartedAt env) FailureConfig False), p, s)
         | Inr cfg \<Rightarrow>
             if csr_Feed request \<noteq> [] \<and> \<not> ValidFeedName (csr_Feed request)
             then (Inr (operatorFailure (sx_StartedAt env) FailureConfig False), p, s)
             else
               (case machine_credentials (sx_Credentials env) cfg of
                  None \<Rightarrow> (Inr (operatorFailure (sx_StartedAt env) FailureConfig False), p, s)
                | Some credentialSet \<Rightarrow>
                    if csr_DryRun request then
                      (case state_OpenReadOnly (oe_SQLite (sx_Operator env)) (oe_Files (sx_Operator env)) (store_options cfg) p of
                         Inl e \<Rightarrow>
                           if \<not> oe_StatNotExist (sx_Operator env)
                           then (Inr (operatorFailure (sx_StartedAt env) FailureDatabase True), p, s)
                           else (case sync_dry env cfg (csr_Feed request) credentialSet emptyOperatorStore s of (result, d', s') \<Rightarrow> (result, p, s'))
                       | Inr f \<Rightarrow>
                           (case sync_dry env cfg (csr_Feed request) credentialSet (df_data f) s of
                              (result, d', s') \<Rightarrow> (result, Regular (f\<lparr>df_data := d'\<rparr>), s')))
                    else
                      (case state_Open (oe_SQLite (sx_Operator env)) (sx_Migrated env) (oe_Files (sx_Operator env)) (store_options cfg) p of
                         (Inl e, p') \<Rightarrow> (Inr (operatorFailure (sx_StartedAt env) FailureDatabase True), p', s)
                       | (Inr f, p') \<Rightarrow>
                           (case sync_enforce env cfg (csr_Feed request) credentialSet (df_data f) s of
                              (result, d', s') \<Rightarrow> (Inr result, Regular (f\<lparr>df_data := d'\<rparr>), s'))))))"

text \<open>\<^verbatim>\<open>RunCLI\<close> with \<^verbatim>\<open>--run-once\<close>: one enforcing synchronization of all feeds, which must succeed. The other branch
  builds the service and runs it.\<close>

definition RunCLI_once ::
  "'w sync_cli \<Rightarrow> Config \<Rightarrow> db path_state \<Rightarrow> 'w lapi_state \<Rightarrow> operator_error option \<times> db path_state \<times> 'w lapi_state" where
  "RunCLI_once env cfg0 p s =
     (case Config_Validate (oe_Parse (sx_Operator env)) cfg0 of
        Inl e \<Rightarrow> (Some ErrOperatorRuntime, p, s)
      | Inr cfg \<Rightarrow>
          (case SyncCLI env cfg \<lparr>csr_DryRun = False, csr_Feed = []\<rparr> p s of
             (Inl e, p', s') \<Rightarrow> (Some ErrOperatorRuntime, p', s')
           | (Inr result, p', s') \<Rightarrow>
               (if Result_Validate result \<noteq> None \<or> res_Outcome result \<noteq> OutcomeSuccess then Some ErrOperatorRuntime else None, p', s')))"

end
