(* ===== verification/Operator_Sync_Facts.thy ===== *)
theory Operator_Sync_Facts
  imports Operator_Sync Operator_Read_Facts LAPI_Wire
begin

text \<open>
  What a synchronization on behalf of an operator may do: a preview reaches the outside only through the fetcher
  and leaves the database alone, an enforcing run moves the database by operations of the store, and every
  result either of them returns passes the validation that the command line applies to it.
\<close>

subsection \<open>Facts: a preview\<close>

definition fetch_step :: "'l engine \<Rightarrow> 'l \<Rightarrow> 'l \<Rightarrow> bool" where
  "fetch_step e l l' \<longleftrightarrow> (\<exists>request. l' = snd (eng_Fetch e request l))"

lemma download_feed_fetches: "download_feed e c r changed now l = (x, l') \<Longrightarrow> fetch_step e l l'"
  by (auto simp: download_feed_def fetch_step_def Let_def split: prod.splits sum.splits if_splits) (metis snd_conv)+

lemma dry_feed_fetches: "(fetch_step e)\<^sup>*\<^sup>* (ds_out s) (ds_out (dry_feed e name now plan c s))"
proof (cases "selected name c \<and> \<not> feed_not_due now c (named_record (dp_records plan) (fc_Name c)) (dp_changed plan (fc_Name c))")
  case True
  obtain x l where x: "download_feed e c (named_record (dp_records plan) (fc_Name c)) (dp_changed plan (fc_Name c)) now (ds_out s) = (x, l)"
    by (rule prod.exhaust)
  with True have "ds_out (dry_feed e name now plan c s) = l" by (cases x) (simp_all add: dry_feed_def Let_def)
  with download_feed_fetches [OF x] show ?thesis by auto
qed (auto simp: dry_feed_def Let_def)

lemma dry_feeds_fetch: "(fetch_step e)\<^sup>*\<^sup>* (ds_out s) (ds_out (foldl (\<lambda>s c. dry_feed e name now plan c s) s cs))"
proof (induction cs arbitrary: s)
  case (Cons c cs)
  from Cons.IH [of "dry_feed e name now plan c s"] dry_feed_fetches [of e s name now plan c] show ?case by simp
qed simp

lemma reconcile_run_dry:
  assumes "reconcile_run e options s = (err, rep, d, l)" and "ro_DryRun options"
  shows "d = ss_db s \<and> l = ss_out s"
proof -
  obtain err' rep' d' l' where run: "Run (eng_Order e) (eng_LAPI e) (eng_Reconciler e) options (eng_ReconcileNow e) (eng_ReconcileBusy e)
      (ss_db s) (ss_out s) = (err', rep', d', l')" by (rule prod_cases4)
  with assms(1) have "d = d'" "l = l'" by (auto simp: reconcile_run_def Let_def)
  moreover from run have "d' = ss_db s \<and> l' = ss_out s" by (cases rule: Run_cases) (use assms(2) in auto)
  ultimately show ?thesis by simp
qed

lemma engine_Run_dry_fetches:
  assumes "engine_Run e options now d l = (err, rep, d', l')" and "sro_DryRun options"
  shows "d' = d \<and> (fetch_step e)\<^sup>*\<^sup>* l l'"
  using assms(1)
proof (cases rule: engine_Run_cases)
  case (dry records entries plan)
  let ?start = "\<lparr>ds_report = zero_sync_Report,
     ds_entries = filter (\<lambda>entry. se_FeedName entry \<in> set (dp_enabled plan)) entries, ds_out = l\<rparr>"
  have "(fetch_step e)\<^sup>*\<^sup>* l (ds_out (dry_loop e (sro_FeedName options) now plan entries l))"
    using dry_feeds_fetch [of e ?start] by simp
  with reconcile_run_dry [OF dry(5)] show ?thesis by simp
qed (use assms(2) in auto)

subsection \<open>Facts: results\<close>

lemma operatorFailure_valid:
  assumes "\<not> IsZero t" and "validFailure category"
  shows "Result_Validate (operatorFailure t category retryable) = None"
proof -
  have "normalizedCompletion t t = t" by (simp add: normalizedCompletion_def)
  with plain_failure_valid [OF assms, of retryable t] show ?thesis by (simp add: operatorFailure_def)
qed

lemma operator_parts_failure: "operator_parts env cfg c = Inl category \<Longrightarrow> validFailure category"
  by (auto simp: operator_parts_def Let_def split: if_splits sum.splits)

lemma operator_parts_fetch: "operator_parts env cfg c = Inr (client, e) \<Longrightarrow> eng_Fetch e = sx_Fetch env"
  by (auto simp: operator_parts_def Let_def engine_New_def split: if_splits sum.splits)

lemma ResultFromSync_completed: "ResultFromSync rep runErr s c n = Some r \<Longrightarrow> res_CompletedAt r = c"
  by (auto simp: ResultFromSync_def run_outcome_def Let_def split: if_splits option.splits prod.splits)

lemma fixedFailureResult_completed [simp]: "res_CompletedAt (fixedFailureResult f b s c counts fs) = c"
  by (simp add: fixedFailureResult_def Let_def)

lemma normalizedCompletion_unix: "unix s \<le> max_int64 \<Longrightarrow> unix t \<le> max_int64 \<Longrightarrow> unix (normalizedCompletion s t) \<le> max_int64"
  by (simp add: normalizedCompletion_def)

lemma sync_dry_result:
  assumes "sync_dry env cfg feed c d s = (Inr r, d', s')" and "\<not> IsZero (sx_StartedAt env)"
  shows "Result_Validate r = None"
proof (cases "operator_parts env cfg c")
  case (Inl category)
  with assms operatorFailure_valid [OF assms(2) operator_parts_failure [OF Inl]] show ?thesis by (auto simp: sync_dry_def)
next
  case (Inr parts)
  with assms(1) obtain rep runErr t n where "ResultFromSync rep runErr (sx_StartedAt env) t n = Some r"
    by (auto simp: sync_dry_def Let_def split: prod.splits option.splits)
  then show ?thesis by (rule ResultFromSync_valid)
qed

lemma sync_dry_still:
  assumes "sync_dry env cfg feed c d s = (r, d', s')"
  shows "d' = d \<and> (\<lambda>s s'. \<exists>request. s' = snd (sx_Fetch env request s))\<^sup>*\<^sup>* s s'"
proof (cases "operator_parts env cfg c")
  case (Inl category)
  with assms show ?thesis by (simp add: sync_dry_def)
next
  case (Inr parts)
  obtain client e where e: "parts = (client, e)" by (rule prod.exhaust)
  obtain err rep d1 s1 where run: "engine_Run e \<lparr>sro_FeedName = feed, sro_DryRun = True\<rparr> (sx_EngineNow env) d s = (err, rep, d1, s1)"
    by (rule prod_cases4)
  have "d' = d1" "s' = s1" using assms by (auto simp: sync_dry_def Inr e run Let_def split: prod.splits)
  moreover have "fetch_step e = (\<lambda>s s'. \<exists>request. s' = snd (sx_Fetch env request s))"
    using operator_parts_fetch [OF Inr [unfolded e]] by (simp add: fun_eq_iff fetch_step_def)
  ultimately show ?thesis using engine_Run_dry_fetches [OF run] by simp
qed

lemma sync_enforce_run_moves:
  assumes "sync_enforce_run env feed client e d s = (report, err, d', s')"
  shows "store_step\<^sup>*\<^sup>* d d'"
  using assms by (auto simp: sync_enforce_run_def dest: engine_Run_moves split: prod.splits sum.splits)

lemma sync_enforce_finish_moves:
  assumes "sync_enforce_finish env runID report err d = (r, d')" and "\<not> IsZero (sx_StartedAt env)"
    and "unix (sx_StartedAt env) \<le> max_int64" and "unix (sx_EndedAt env) \<le> max_int64"
  shows "store_step d d' \<and> Result_Validate r = None"
proof -
  let ?c = "normalizedCompletion (sx_StartedAt env) (sx_EndedAt env)"
  from assms(1) obtain runErr active result where
      result: "result = (case ResultFromSync report runErr (sx_StartedAt env) ?c active of Some r \<Rightarrow> r
        | None \<Rightarrow> fixedFailureResult FailureInternal False (sx_StartedAt env) ?c zero_Counts [])"
    and fin: "(case CompleteSyncRun runID result d of
         (Inl e, d') \<Rightarrow> (fixedFailureResult FailureDatabase True (sx_StartedAt env) ?c (res_Counts result) (res_Feeds result), d')
       | (Inr _, d') \<Rightarrow> (result, d')) = (r, d')"
    by (auto simp: sync_enforce_finish_def Let_def split: prod.splits)
  have v: "Result_Validate result = None"
    using ResultFromSync_valid fixedFailureResult_valid [OF assms(2)] by (auto simp: result split: option.splits)
  have "unix (res_CompletedAt result) \<le> max_int64"
    using normalizedCompletion_unix [OF assms(3,4)] ResultFromSync_completed by (auto simp: result split: option.splits)
  moreover obtain x d1 where x: "CompleteSyncRun runID result d = (x, d1)" by (rule prod.exhaust)
  ultimately have "store_step d d1" by (rule store_step.complete_run)
  with fin x v fixedFailureResult_valid [OF assms(2)] show ?thesis by (auto split: sum.splits)
qed

lemma sync_enforce_moves:
  assumes "sync_enforce env cfg feed c d s = (r, d', s')" and t: "\<not> IsZero (sx_StartedAt env)"
    "unix (sx_StartedAt env) \<le> max_int64" "unix (sx_EndedAt env) \<le> max_int64"
  shows "store_step\<^sup>*\<^sup>* d d' \<and> Result_Validate r = None"
proof -
  obtain x d1 where x: "RecoverInterruptedSyncRuns (sx_StartedAt env) d = (x, d1)" by (rule prod.exhaust)
  from store_step.recover [OF x] have m1: "store_step\<^sup>*\<^sup>* d d1" by blast
  obtain y d2 where y: "BeginSyncRun SyncModeEnforce feed (sx_StartedAt env) d1 = (y, d2)" by (rule prod.exhaust)
  from m1 store_step.begin_run [OF y] have m2: "store_step\<^sup>*\<^sup>* d d2" by (rule rtranclp.rtrancl_into_rtrancl)
  show ?thesis
  proof (cases "\<exists>n m client e. x = Inr n \<and> operator_parts env cfg c = Inr (client, e) \<and> y = Inr m")
    case True
    then obtain n m client e where i: "x = Inr n" "operator_parts env cfg c = Inr (client, e)" "y = Inr m" by blast
    obtain rep err d3 s3 where run: "sync_enforce_run env feed client e d2 s = (rep, err, d3, s3)" by (rule prod_cases4)
    obtain r4 d4 where fin: "sync_enforce_finish env m rep err d3 = (r4, d4)" by (rule prod.exhaust)
    have "r = r4" "d' = d4" using assms(1) by (simp_all add: sync_enforce_def x y i run fin)
    with sync_enforce_finish_moves [OF fin t] sync_enforce_run_moves [OF run] m2 show ?thesis
      by (meson rtranclp.rtrancl_into_rtrancl rtranclp_trans)
  next
    case False
    then have "d' \<in> {d1, d2}" "Result_Validate r = None"
      using assms(1) operatorFailure_valid [OF t(1)]
      by (auto simp: sync_enforce_def x y dest: operator_parts_failure split: sum.splits prod.splits)
    with m1 m2 show ?thesis by auto
  qed
qed

subsection \<open>Facts: the ways a command ends\<close>

lemma SyncCLI_cases:
  assumes run: "SyncCLI env cfg0 request p s = (res, p', s')"
  obtains (refused) "\<forall>r. res = Inr r \<longrightarrow> Result_Validate r = None" "p' = p" "s' = s"
  | (missing) cfg c d where "csr_DryRun request" "\<not> IsZero (sx_StartedAt env)"
      "sync_dry env cfg (csr_Feed request) c emptyOperatorStore s = (res, d, s')" "p' = p"
  | (preview) cfg c f d where "csr_DryRun request" "\<not> IsZero (sx_StartedAt env)"
      "state_OpenReadOnly (oe_SQLite (sx_Operator env)) (oe_Files (sx_Operator env)) (store_options cfg) p = Inr f"
      "sync_dry env cfg (csr_Feed request) c (df_data f) s = (res, d, s')" "p' = Regular (f\<lparr>df_data := d\<rparr>)"
  | (unopened) cfg e where "\<not> csr_DryRun request" "Config_Validate (oe_Parse (sx_Operator env)) cfg0 = Inr cfg"
      "state_Open (oe_SQLite (sx_Operator env)) (sx_Migrated env) (oe_Files (sx_Operator env)) (store_options cfg) p = (Inl e, p')"
      "s' = s" "\<forall>r. res = Inr r \<longrightarrow> Result_Validate r = None"
  | (enforced) cfg c f p1 r d where "\<not> csr_DryRun request" "\<not> IsZero (sx_StartedAt env)"
      "Config_Validate (oe_Parse (sx_Operator env)) cfg0 = Inr cfg"
      "state_Open (oe_SQLite (sx_Operator env)) (sx_Migrated env) (oe_Files (sx_Operator env)) (store_options cfg) p = (Inr f, p1)"
      "sync_enforce env cfg (csr_Feed request) c (df_data f) s = (r, d, s')" "res = Inr r" "p' = Regular (f\<lparr>df_data := d\<rparr>)"
proof (cases "\<exists>cfg c. \<not> IsZero (sx_StartedAt env) \<and> Config_Validate (oe_Parse (sx_Operator env)) cfg0 = Inr cfg \<and>
      \<not> (csr_Feed request \<noteq> [] \<and> \<not> ValidFeedName (csr_Feed request)) \<and> machine_credentials (sx_Credentials env) cfg = Some c")
  case False
  with run operatorFailure_valid [of "sx_StartedAt env"] show thesis
    by (intro refused) (auto simp: SyncCLI_def split: sum.splits if_splits option.splits)
next
  case True
  then obtain cfg c where start: "\<not> IsZero (sx_StartedAt env)" and i: "Config_Validate (oe_Parse (sx_Operator env)) cfg0 = Inr cfg"
    "\<not> (csr_Feed request \<noteq> [] \<and> \<not> ValidFeedName (csr_Feed request))" "machine_credentials (sx_Credentials env) cfg = Some c" by blast
  note fail = operatorFailure_valid [OF start]
  note run' = run [unfolded SyncCLI_def if_not_P [OF start] i(1) sum.case if_not_P [OF i(2)] i(3) option.case]
  show thesis
  proof (cases "csr_DryRun request")
    case dry: True
    obtain r1 d1 s1 where r1: "sync_dry env cfg (csr_Feed request) c emptyOperatorStore s = (r1, d1, s1)" by (rule prod_cases3)
    show thesis
    proof (cases "state_OpenReadOnly (oe_SQLite (sx_Operator env)) (oe_Files (sx_Operator env)) (store_options cfg) p")
      case (Inl e)
      with run' dry r1 fail show thesis by (cases "oe_StatNotExist (sx_Operator env)") (auto intro: refused missing [OF dry start])
    next
      case (Inr f)
      obtain r2 d2 s2 where "sync_dry env cfg (csr_Feed request) c (df_data f) s = (r2, d2, s2)" by (rule prod_cases3)
      with run' dry Inr show thesis by (intro preview [OF dry start Inr]) auto
    qed
  next
    case enf: False
    obtain x p1 where x: "state_Open (oe_SQLite (sx_Operator env)) (sx_Migrated env) (oe_Files (sx_Operator env)) (store_options cfg) p = (x, p1)"
      by (rule prod.exhaust)
    show thesis
    proof (cases x)
      case (Inl e)
      with run' x enf fail show thesis by (intro unopened [OF enf i(1)]) auto
    next
      case (Inr f)
      obtain r1 d1 s1 where "sync_enforce env cfg (csr_Feed request) c (df_data f) s = (r1, d1, s1)" by (rule prod_cases3)
      with run' x enf Inr show thesis by (intro enforced [OF enf start i(1)]) auto
    qed
  qed
qed

lemma SyncCLI_dry_quiet:
  assumes ro: "\<And>g. sq_OpenReadOnly (oe_SQLite (sx_Operator env)) (Regular g) = Some g"
    and run: "SyncCLI env cfg0 request p s = (res, p', s')" and dry: "csr_DryRun request"
  shows "p' = p \<and> (\<lambda>s s'. \<exists>request. s' = snd (sx_Fetch env request s))\<^sup>*\<^sup>* s s'"
  using run
proof (cases rule: SyncCLI_cases)
  case (missing cfg c d)
  with sync_dry_still [OF missing(3)] show ?thesis by simp
next
  case (preview cfg c f d)
  then obtain g where "p = Regular g" "f = g"
    using ro by (cases p) (auto simp: state_OpenReadOnly_def readOnlyDataSourceName_ok_def split: if_splits option.splits)
  with preview sync_dry_still [OF preview(4)] show ?thesis by simp
qed (use dry in auto)

subsection \<open>Properties\<close>

text \<open>C12. A synchronization an operator asks for. A preview leaves the database file as it is and reaches the outside
  through the fetcher alone, so it neither authenticates nor sends the local API any request. An enforcing run
  that opens the database changes its tables by operations of the store only, so a consistent store stays
  consistent whatever the feeds and the local API answer. And every result either of them returns passes the
  validation of the command line. The driver is any that opens an existing file as it is.\<close>

theorem SyncCLI_correct:
  assumes ro: "\<And>g. sq_OpenReadOnly (oe_SQLite (sx_Operator env)) (Regular g) = Some g"
    and t: "unix (sx_StartedAt env) \<le> max_int64" "unix (sx_EndedAt env) \<le> max_int64"
    and run: "SyncCLI env cfg0 request p s = (res, p', s')"
  shows "(\<forall>r. res = Inr r \<longrightarrow> Result_Validate r = None) \<and>
    (csr_DryRun request \<longrightarrow> p' = p \<and> (\<lambda>s s'. \<exists>request. s' = snd (sx_Fetch env request s))\<^sup>*\<^sup>* s s') \<and>
    (\<not> csr_DryRun request \<longrightarrow>
       (p' = p \<and> s' = s) \<or>
       (\<exists>cfg. Config_Validate (oe_Parse (sx_Operator env)) cfg0 = Inr cfg \<and>
         (case state_Open (oe_SQLite (sx_Operator env)) (sx_Migrated env) (oe_Files (sx_Operator env)) (store_options cfg) p of
            (Inl e, p1) \<Rightarrow> p' = p1 \<and> s' = s
          | (Inr f, p1) \<Rightarrow> (\<exists>d. p' = Regular (f\<lparr>df_data := d\<rparr>) \<and> store_step\<^sup>*\<^sup>* (df_data f) d \<and>
              (store_ok (df_data f) \<longrightarrow> store_ok d)))))"
  using run
proof (cases rule: SyncCLI_cases)
  case refused
  then show ?thesis by auto
next
  case (missing cfg c d)
  with SyncCLI_dry_quiet [OF ro run] sync_dry_result show ?thesis by auto
next
  case (preview cfg c f d)
  with SyncCLI_dry_quiet [OF ro run] sync_dry_result show ?thesis by auto
next
  case (unopened cfg e)
  then show ?thesis by auto
next
  case (enforced cfg c f p1 r d)
  with sync_enforce_moves [OF enforced(5,2) t] store_steps_ok show ?thesis by auto
qed

subsection \<open>A preview of the concrete journal\<close>

definition sample_sync_cli :: "operator_env \<Rightarrow> unit lapi_client \<Rightarrow> unit sync_cli" where
  "sample_sync_cli operator client =
     \<lparr>sx_Operator = operator, sx_StartedAt = 2000 * second, sx_EngineNow = 2000 * second, sx_ReconcileNow = 2000 * second,
      sx_EndedAt = 2001 * second, sx_Migrated = 7,
      sx_Credentials = sample_credentials,
      sx_Client = client, sx_Token = (\<lambda>w. (None, w)), sx_Fetch = (\<lambda>request s. (Inl OtherFailureCause, s)),
      sx_Marshal = (\<lambda>c. Some []), sx_Order = id, sx_Causes = (\<lambda>s. [])\<rparr>"

theorem SyncCLI_correct_witness:
  "\<exists>res s'. SyncCLI (sample_sync_cli sample_operator sample_lapi_client) sample_config \<lparr>csr_DryRun = True, csr_Feed = []\<rparr>
       (Regular sample_db_file) (lapi_initial ()) = (res, Regular sample_db_file, s')"
proof -
  let ?env = "sample_sync_cli sample_operator sample_lapi_client"
  let ?request = "\<lparr>csr_DryRun = True, csr_Feed = []\<rparr>"
  obtain res p' s' where run: "SyncCLI ?env sample_config ?request (Regular sample_db_file) (lapi_initial ()) = (res, p', s')"
    by (rule prod_cases3)
  have "sq_OpenReadOnly (oe_SQLite (sx_Operator ?env)) (Regular g) = Some g" for g
    by (simp add: sample_sync_cli_def sample_operator_def sample_db_driver_def)
  moreover have "unix (sx_StartedAt ?env) \<le> max_int64" "unix (sx_EndedAt ?env) \<le> max_int64"
    by (simp_all add: sample_sync_cli_def go_time_defs)
  ultimately have "p' = Regular sample_db_file"
    using SyncCLI_correct [OF _ _ _ run] by simp
  with run show ?thesis by blast
qed

end
