(* ===== verification/Config_Env.thy ===== *)
theory Config_Env
  imports Config_Facts
begin

text \<open>
  Loading the configuration: the overrides from the environment (\<^verbatim>\<open>env.go\<close>) and the loader of the file
  (\<^verbatim>\<open>load.go\<close>) of \<^verbatim>\<open>internal/config\<close>. The YAML decoder and \<^verbatim>\<open>strconv.ParseFloat\<close>, which reads one setting, are
  arguments; integers, booleans and durations are read by the models of the standard library. An error is
  its category, without the name of the variable; a token is the text that the \<^verbatim>\<open>Secret\<close> holds.
\<close>

subsection \<open>Definitions: reading a value\<close>

definition ParseBool :: "string \<Rightarrow> bool option" where
  "ParseBool s =
     (if s \<in> {''1'', ''t'', ''T'', ''TRUE'', ''true'', ''True''} then Some True
      else if s \<in> {''0'', ''f'', ''F'', ''FALSE'', ''false'', ''False''} then Some False
      else None)"

type_synonym envSetter = "string \<Rightarrow> Config \<Rightarrow> Config option"

definition durationSetter :: "(duration \<Rightarrow> Config \<Rightarrow> Config) \<Rightarrow> envSetter" where
  "durationSetter target v c = map_option (\<lambda>x. target x c) (ParseDuration v)"

definition boolSetter :: "(bool \<Rightarrow> Config \<Rightarrow> Config) \<Rightarrow> envSetter" where
  "boolSetter target v c = map_option (\<lambda>x. target x c) (ParseBool v)"

definition intSetter :: "(int \<Rightarrow> Config \<Rightarrow> Config) \<Rightarrow> envSetter" where
  "intSetter target v c = map_option (\<lambda>x. target x c) (Atoi v)"

definition int64Setter :: "(int \<Rightarrow> Config \<Rightarrow> Config) \<Rightarrow> envSetter" where
  "int64Setter target v c = map_option (\<lambda>x. target x c) (Atoi v)"

definition floatSetter :: "(string \<Rightarrow> go_float option) \<Rightarrow> (go_float \<Rightarrow> Config \<Rightarrow> Config) \<Rightarrow> envSetter" where
  "floatSetter parseFloat target v c = map_option (\<lambda>x. target x c) (parseFloat v)"

definition stringSetter :: "(string \<Rightarrow> Config \<Rightarrow> Config) \<Rightarrow> envSetter" where
  "stringSetter target v c = Some (target v c)"

subsection \<open>Definitions: the supported variables\<close>

definition supportedEnvironment :: "(string \<Rightarrow> go_float option) \<Rightarrow> (string \<times> envSetter) list" where
  "supportedEnvironment parseFloat =
    [(''CROWDSHIELD_SERVER_LISTEN_ADDRESS'', stringSetter (\<lambda>x. cfg_Server_update (srv_ListenAddress_update (\<lambda>_. x)))),
     (''CROWDSHIELD_SERVER_READ_HEADER_TIMEOUT'', durationSetter (\<lambda>x. cfg_Server_update (srv_ReadHeaderTimeout_update (\<lambda>_. x)))),
     (''CROWDSHIELD_SERVER_READ_TIMEOUT'', durationSetter (\<lambda>x. cfg_Server_update (srv_ReadTimeout_update (\<lambda>_. x)))),
     (''CROWDSHIELD_SERVER_WRITE_TIMEOUT'', durationSetter (\<lambda>x. cfg_Server_update (srv_WriteTimeout_update (\<lambda>_. x)))),
     (''CROWDSHIELD_SERVER_IDLE_TIMEOUT'', durationSetter (\<lambda>x. cfg_Server_update (srv_IdleTimeout_update (\<lambda>_. x)))),
     (''CROWDSHIELD_SERVER_SHUTDOWN_TIMEOUT'', durationSetter (\<lambda>x. cfg_Server_update (srv_ShutdownTimeout_update (\<lambda>_. x)))),
     (''CROWDSHIELD_SERVER_LAPI_UNREACHABLE_GRACE'', durationSetter (\<lambda>x. cfg_Server_update (srv_LAPIUnreachableGrace_update (\<lambda>_. x)))),
     (''CROWDSHIELD_SERVER_READINESS_MAX_SYNC_AGE'', durationSetter (\<lambda>x. cfg_Server_update (srv_ReadinessMaxSyncAge_update (\<lambda>_. x)))),
     (''CROWDSHIELD_SCHEDULE_INTERVAL'', durationSetter (\<lambda>x. cfg_Schedule_update (sch_Interval_update (\<lambda>_. x)))),
     (''CROWDSHIELD_SCHEDULE_STARTUP_JITTER'', durationSetter (\<lambda>x. cfg_Schedule_update (sch_StartupJitter_update (\<lambda>_. x)))),
     (''CROWDSHIELD_SCHEDULE_RUN_IMMEDIATELY'', boolSetter (\<lambda>x. cfg_Schedule_update (sch_RunImmediately_update (\<lambda>_. x)))),
     (''CROWDSHIELD_SCHEDULE_RETRY_MAX_ATTEMPTS'', intSetter (\<lambda>x. cfg_Schedule_update (sch_Retry_update (rty_MaxAttempts_update (\<lambda>_. x))))),
     (''CROWDSHIELD_SCHEDULE_RETRY_INITIAL_BACKOFF'', durationSetter (\<lambda>x. cfg_Schedule_update (sch_Retry_update (rty_InitialBackoff_update (\<lambda>_. x))))),
     (''CROWDSHIELD_SCHEDULE_RETRY_MAX_BACKOFF'', durationSetter (\<lambda>x. cfg_Schedule_update (sch_Retry_update (rty_MaxBackoff_update (\<lambda>_. x))))),
     (''CROWDSHIELD_DATABASE_PATH'', stringSetter (\<lambda>x. cfg_Database_update (dbc_Path_update (\<lambda>_. x)))),
     (''CROWDSHIELD_DATABASE_BUSY_TIMEOUT'', durationSetter (\<lambda>x. cfg_Database_update (dbc_BusyTimeout_update (\<lambda>_. x)))),
     (''CROWDSHIELD_DATABASE_INTEGRITY_CHECK_ON_STARTUP'', boolSetter (\<lambda>x. cfg_Database_update (dbc_IntegrityCheckOnStart_update (\<lambda>_. x)))),
     (''CROWDSHIELD_DATABASE_HISTORY_RETENTION'', durationSetter (\<lambda>x. cfg_Database_update (dbc_HistoryRetention_update (\<lambda>_. x)))),
     (''CROWDSHIELD_DATABASE_MAX_HISTORY_ENTRIES'', intSetter (\<lambda>x. cfg_Database_update (dbc_MaxHistoryEntries_update (\<lambda>_. x)))),
     (''CROWDSHIELD_CROWDSEC_CREDENTIALS_FILE'', stringSetter (\<lambda>x. cfg_CrowdSec_update (csc_CredentialsFile_update (\<lambda>_. x)))),
     (''CROWDSHIELD_CROWDSEC_REQUEST_TIMEOUT'', durationSetter (\<lambda>x. cfg_CrowdSec_update (csc_RequestTimeout_update (\<lambda>_. x)))),
     (''CROWDSHIELD_CROWDSEC_CONNECT_TIMEOUT'', durationSetter (\<lambda>x. cfg_CrowdSec_update (csc_ConnectTimeout_update (\<lambda>_. x)))),
     (''CROWDSHIELD_CROWDSEC_MAX_RESPONSE_BYTES'', int64Setter (\<lambda>x. cfg_CrowdSec_update (csc_MaxResponseBytes_update (\<lambda>_. x)))),
     (''CROWDSHIELD_CROWDSEC_BATCH_SIZE'', intSetter (\<lambda>x. cfg_CrowdSec_update (csc_BatchSize_update (\<lambda>_. x)))),
     (''CROWDSHIELD_CROWDSEC_AUTH_REFRESH_BEFORE'', durationSetter (\<lambda>x. cfg_CrowdSec_update (csc_AuthRefreshBefore_update (\<lambda>_. x)))),
     (''CROWDSHIELD_DECISIONS_DURATION'', durationSetter (\<lambda>x. cfg_Decisions_update (dec_Duration_update (\<lambda>_. x)))),
     (''CROWDSHIELD_DECISIONS_MISSING_GRACE_RUNS'', intSetter (\<lambda>x. cfg_Decisions_update (dec_MissingGraceRuns_update (\<lambda>_. x)))),
     (''CROWDSHIELD_DECISIONS_REFRESH_BEFORE'', durationSetter (\<lambda>x. cfg_Decisions_update (dec_RefreshBefore_update (\<lambda>_. x)))),
     (''CROWDSHIELD_VALIDATION_ALLOW_HTTP'', boolSetter (\<lambda>x. cfg_Validation_update (val_AllowHTTP_update (\<lambda>_. x)))),
     (''CROWDSHIELD_VALIDATION_MAX_REDIRECTS'', intSetter (\<lambda>x. cfg_Validation_update (val_MaxRedirects_update (\<lambda>_. x)))),
     (''CROWDSHIELD_VALIDATION_MAX_FEEDS'', intSetter (\<lambda>x. cfg_Validation_update (val_MaxFeeds_update (\<lambda>_. x)))),
     (''CROWDSHIELD_VALIDATION_MAX_FEED_NAME_LENGTH'', intSetter (\<lambda>x. cfg_Validation_update (val_MaxFeedNameLength_update (\<lambda>_. x)))),
     (''CROWDSHIELD_VALIDATION_MAX_MALFORMED_LINES'', intSetter (\<lambda>x. cfg_Validation_update (val_MaxMalformedLines_update (\<lambda>_. x)))),
     (''CROWDSHIELD_VALIDATION_MAX_MALFORMED_RATIO'', floatSetter parseFloat (\<lambda>x. cfg_Validation_update (val_MaxMalformedRatio_update (\<lambda>_. x)))),
     (''CROWDSHIELD_VALIDATION_MAX_LINE_BYTES'', intSetter (\<lambda>x. cfg_Validation_update (val_MaxLineBytes_update (\<lambda>_. x)))),
     (''CROWDSHIELD_VALIDATION_USER_AGENT'', stringSetter (\<lambda>x. cfg_Validation_update (val_UserAgent_update (\<lambda>_. x)))),
     (''CROWDSHIELD_VALIDATION_DNS_LOOKUP_TIMEOUT'', durationSetter (\<lambda>x. cfg_Validation_update (val_DNSLookupTimeout_update (\<lambda>_. x)))),
     (''CROWDSHIELD_LOGGING_LEVEL'', stringSetter (\<lambda>x. cfg_Logging_update (log_Level_update (\<lambda>_. x)))),
     (''CROWDSHIELD_NOTIFICATIONS_ENABLED'', boolSetter (\<lambda>x. cfg_Notifications_update (ntf_Enabled_update (\<lambda>_. x)))),
     (''CROWDSHIELD_NOTIFICATIONS_SERVER_URL'', stringSetter (\<lambda>x. cfg_Notifications_update (ntf_ServerURL_update (\<lambda>_. x)))),
     (''CROWDSHIELD_NOTIFICATIONS_TOPIC'', stringSetter (\<lambda>x. cfg_Notifications_update (ntf_Topic_update (\<lambda>_. x)))),
     (''CROWDSHIELD_NOTIFICATIONS_ALLOW_HTTP'', boolSetter (\<lambda>x. cfg_Notifications_update (ntf_AllowHTTP_update (\<lambda>_. x)))),
     (''CROWDSHIELD_NOTIFICATIONS_REQUEST_TIMEOUT'', durationSetter (\<lambda>x. cfg_Notifications_update (ntf_RequestTimeout_update (\<lambda>_. x)))),
     (''CROWDSHIELD_NOTIFICATIONS_COOLDOWN'', durationSetter (\<lambda>x. cfg_Notifications_update (ntf_Cooldown_update (\<lambda>_. x)))),
     (''CROWDSHIELD_NOTIFICATIONS_MINIMUM_SEVERITY'', stringSetter (\<lambda>x. cfg_Notifications_update (ntf_MinimumSeverity_update (\<lambda>_. x)))),
     (''CROWDSHIELD_NOTIFICATIONS_FAILURE_THRESHOLD'', intSetter (\<lambda>x. cfg_Notifications_update (ntf_FailureThreshold_update (\<lambda>_. x)))),
     (''CROWDSHIELD_NOTIFICATIONS_RECOVERY_NOTIFICATIONS'', boolSetter (\<lambda>x. cfg_Notifications_update (ntf_RecoveryNotifications_update (\<lambda>_. x)))),
     (''CROWDSHIELD_NOTIFICATIONS_SUSPICIOUS_CHANGE_NOTIFICATIONS'', boolSetter (\<lambda>x. cfg_Notifications_update (ntf_SuspiciousChangeNotifications_update (\<lambda>_. x)))),
     (''CROWDSHIELD_NOTIFICATIONS_STALE_SYNC_NOTIFICATIONS'', boolSetter (\<lambda>x. cfg_Notifications_update (ntf_StaleSyncNotifications_update (\<lambda>_. x)))),
     (''CROWDSHIELD_NOTIFICATIONS_STALE_SYNC_AFTER'', durationSetter (\<lambda>x. cfg_Notifications_update (ntf_StaleSyncAfter_update (\<lambda>_. x)))),
     (''CROWDSHIELD_NOTIFICATIONS_STARTUP_NOTIFICATION'', boolSetter (\<lambda>x. cfg_Notifications_update (ntf_StartupNotification_update (\<lambda>_. x)))),
     (''CROWDSHIELD_NOTIFICATIONS_SUCCESS_NOTIFICATION'', boolSetter (\<lambda>x. cfg_Notifications_update (ntf_SuccessNotification_update (\<lambda>_. x)))),
     (''CROWDSHIELD_NOTIFICATIONS_FIRST_SUCCESS_NOTIFICATION'', boolSetter (\<lambda>x. cfg_Notifications_update (ntf_FirstSuccessNotification_update (\<lambda>_. x)))),
     (''CROWDSHIELD_NOTIFICATIONS_TOKEN'', stringSetter (\<lambda>x. cfg_Notifications_update (ntf_Token_update (\<lambda>_. x))))]"

subsection \<open>Definitions: applying the environment\<close>

definition ToUpper_ascii :: "string \<Rightarrow> string" where
  "ToUpper_ascii s = map (\<lambda>c. if is_lower c then byte (code c - 32) else c) s"

definition TrimSuffix :: "string \<Rightarrow> string \<Rightarrow> string" where
  "TrimSuffix s p = (if has_prefix (rev s) (rev p) then take (length s - length p) s else s)"

definition feed_variable :: "FeedConfig \<Rightarrow> string" where
  "feed_variable c = ToUpper_ascii (map (\<lambda>x. if x = CHR ''-'' then CHR ''_'' else x) (fc_Name c))"

text \<open>\<^verbatim>\<open>strings.ToUpper\<close> on the names of feeds: a name that has other characters is rejected by the validation
  that follows, so only the category of that error may differ.\<close>

fun switch_feed :: "string \<Rightarrow> string \<Rightarrow> FeedConfig list \<Rightarrow> FeedConfig list option" where
  "switch_feed encoded v [] = None"
| "switch_feed encoded v (c # cs) =
     (if encoded \<noteq> feed_variable c then map_option ((#) c) (switch_feed encoded v cs)
      else map_option (\<lambda>b. c\<lparr>fc_Enabled := b\<rparr> # cs) (ParseBool v))"

definition feed_switch :: "string \<Rightarrow> string option" where
  "feed_switch key =
     (if \<not> has_prefix key ''CROWDSHIELD_FEED_'' \<or> \<not> has_prefix (rev key) (rev ''_ENABLED'') then None
      else Some (TrimSuffix (TrimPrefix key ''CROWDSHIELD_FEED_'') ''_ENABLED''))"

definition apply_entry :: "(string \<Rightarrow> go_float option) \<Rightarrow> string \<Rightarrow> Config \<Rightarrow> (ConfigError, Config) result" where
  "apply_entry parseFloat entry c =
     (let (key, v, ok) = (case split_first (CHR ''='') entry of None \<Rightarrow> (entry, [], False) | Some (k, x) \<Rightarrow> (k, x, True)) in
      if \<not> has_prefix key ''CROWDSHIELD_'' then Inr c
      else if \<not> ok then Inl CfgErrEnvironment
      else if key = ''CROWDSHIELD_CONFIG'' then Inr c
      else
        (case map_of (supportedEnvironment parseFloat) key of
           Some setter \<Rightarrow> (case setter v c of None \<Rightarrow> Inl CfgErrEnvironment | Some c' \<Rightarrow> Inr c')
         | None \<Rightarrow>
             (case feed_switch key of
                None \<Rightarrow> Inl CfgErrEnvironment
              | Some encoded \<Rightarrow>
                  (case switch_feed encoded v (cfg_Feeds c) of
                     None \<Rightarrow> Inl CfgErrEnvironment
                   | Some fs \<Rightarrow> Inr (c\<lparr>cfg_Feeds := fs\<rparr>)))))"

fun applyEnvironment :: "(string \<Rightarrow> go_float option) \<Rightarrow> string list \<Rightarrow> Config \<Rightarrow> (ConfigError, Config) result" where
  "applyEnvironment parseFloat [] c = Inr c"
| "applyEnvironment parseFloat (entry # entries) c =
     (case apply_entry parseFloat entry c of Inl e \<Rightarrow> Inl e | Inr c' \<Rightarrow> applyEnvironment parseFloat entries c')"

subsection \<open>Definitions: the loader\<close>

text \<open>What the loader finds: the file as \<^verbatim>\<open>os.Open\<close> and \<^verbatim>\<open>Stat\<close> see it with the bytes that can be read (\<open>None\<close> when
  reading fails), the decoder, which decodes the first document over the defaults (an error is its text) and
  then says whether nothing follows it, and the environment.\<close>

record config_file =
  cf_Regular :: bool
  cf_Size :: int
  cf_Bytes :: "string option"

record loader_env =
  le_Open :: "string \<Rightarrow> config_file option"
  le_Decode :: "string \<Rightarrow> Config \<Rightarrow> (string, Config) result"
  le_Single :: "string \<Rightarrow> bool"
  le_Environ :: "string list"
  le_ParseFloat :: "string \<Rightarrow> go_float option"
  le_Parse :: "string \<Rightarrow> url option"

record config_Loader =
  ld_Version :: string
  ld_MaxBytes :: int

definition DefaultMaxConfigBytes :: int where
  "DefaultMaxConfigBytes = 1048576"

definition config_DefaultPath :: string where
  "config_DefaultPath = ''/config/crowdshield.yaml''"

fun text_contains :: "string \<Rightarrow> string \<Rightarrow> bool" where
  "text_contains [] p = (p = [])"
| "text_contains (c # s) p = (has_prefix (c # s) p \<or> text_contains s p)"

definition decodeCategory :: "string \<Rightarrow> ConfigError" where
  "decodeCategory text =
     (if text_contains text ''invalid CIDR'' \<or> text_contains text ''CIDR must'' then CfgErrAllowlist
      else if text_contains text ''invalid duration'' \<or> text_contains text ''duration must'' then CfgErrDuration
      else CfgErrYAML)"

definition config_Load :: "loader_env \<Rightarrow> config_Loader \<Rightarrow> string \<Rightarrow> (ConfigError, Config) result" where
  "config_Load env l path0 =
     (let path = (if path0 = [] then config_DefaultPath else path0);
          maxBytes = (if ld_MaxBytes l \<le> 0 then DefaultMaxConfigBytes else ld_MaxBytes l)
      in
      case le_Open env path of
        None \<Rightarrow> Inl CfgErrPath
      | Some file \<Rightarrow>
          if \<not> cf_Regular file then Inl CfgErrPath
          else if cf_Size file > maxBytes then Inl CfgErrConfigSize
          else
            (case cf_Bytes file of
               None \<Rightarrow> Inl CfgErrYAML
             | Some bytes \<Rightarrow>
                 let body = take (nat (wrap64 (maxBytes + 1))) bytes in
                 if int (length body) > maxBytes then Inl CfgErrConfigSize
                 else
                   (case le_Decode env body (Defaults (ld_Version l)) of
                      Inl text \<Rightarrow> Inl (if text = ''EOF'' then CfgErrYAML else decodeCategory text)
                    | Inr cfg \<Rightarrow>
                        if \<not> le_Single env body then Inl CfgErrYAMLDocument
                        else
                          (case applyEnvironment (le_ParseFloat env) (le_Environ env) cfg of
                             Inl e \<Rightarrow> Inl e
                           | Inr cfg1 \<Rightarrow> Config_Validate (le_Parse env) cfg1))))"

subsection \<open>Facts: what a variable can change\<close>

definition unswitched :: "FeedConfig \<Rightarrow> FeedConfig" where
  "unswitched c = c\<lparr>fc_Enabled := False\<rparr>"

text \<open>The settings that only the file decides: what the feeds are, the networks that are never banned, the hosts that may
  be reached without TLS, and the format of the log.\<close>

definition file_settings :: "Config \<Rightarrow> FeedConfig list \<times> netip_prefix list \<times> string list \<times> string" where
  "file_settings c = (map unswitched (cfg_Feeds c), cfg_Allowlists c, csc_AllowedHTTPHosts (cfg_CrowdSec c), log_Format (cfg_Logging c))"

definition keeps_file :: "envSetter \<Rightarrow> bool" where
  "keeps_file setter = (\<forall>v c c'. setter v c = Some c' \<longrightarrow> file_settings c' = file_settings c)"

lemma keeps_file_intros:
  assumes "\<And>x c. file_settings (target x c) = file_settings c"
  shows "keeps_file (durationSetter target)"
  using assms by (auto simp: keeps_file_def durationSetter_def)

lemma keeps_file_others:
  "(\<And>x c. file_settings (t1 x c) = file_settings c) \<Longrightarrow> keeps_file (boolSetter t1)"
  "(\<And>x c. file_settings (t2 x c) = file_settings c) \<Longrightarrow> keeps_file (intSetter t2)"
  "(\<And>x c. file_settings (t2 x c) = file_settings c) \<Longrightarrow> keeps_file (int64Setter t2)"
  "(\<And>x c. file_settings (t3 x c) = file_settings c) \<Longrightarrow> keeps_file (floatSetter parseFloat t3)"
  "(\<And>x c. file_settings (t4 x c) = file_settings c) \<Longrightarrow> keeps_file (stringSetter t4)"
  by (auto simp: keeps_file_def boolSetter_def intSetter_def int64Setter_def floatSetter_def stringSetter_def)

lemma all_keep_file: "list_all keeps_file (map snd (supportedEnvironment parseFloat))"
  unfolding supportedEnvironment_def list.map snd_conv list.pred_inject
  by (intro conjI TrueI keeps_file_intros keeps_file_others; simp add: file_settings_def)

lemma setter_keeps: "(key, setter) \<in> set (supportedEnvironment parseFloat) \<Longrightarrow> setter v c = Some c' \<Longrightarrow> file_settings c' = file_settings c"
proof -
  assume "(key, setter) \<in> set (supportedEnvironment parseFloat)" and "setter v c = Some c'"
  with all_keep_file [of parseFloat] have "keeps_file setter" by (force simp: list_all_iff)
  with \<open>setter v c = Some c'\<close> show ?thesis by (auto simp: keeps_file_def)
qed

lemma switch_feed_keeps: "switch_feed encoded v cs = Some cs' \<Longrightarrow> map unswitched cs' = map unswitched cs"
  by (induction cs arbitrary: cs') (auto simp: unswitched_def split: if_splits)

lemma switch_feed_known: "switch_feed encoded v cs = Some cs' \<Longrightarrow> encoded \<in> feed_variable ` set cs"
  by (induction cs arbitrary: cs') (auto split: if_splits)

definition known_variable :: "Config \<Rightarrow> string \<Rightarrow> bool" where
  "known_variable c key \<longleftrightarrow> key = ''CROWDSHIELD_CONFIG'' \<or> key \<in> fst ` set (supportedEnvironment (\<lambda>_. None)) \<or>
     (\<exists>encoded. feed_switch key = Some encoded \<and> encoded \<in> feed_variable ` set (cfg_Feeds c))"

lemma supported_keys: "fst ` set (supportedEnvironment f) = fst ` set (supportedEnvironment g)"
proof -
  have "map fst (supportedEnvironment f) = map fst (supportedEnvironment g)"
    by (simp only: supportedEnvironment_def list.map fst_conv)
  from arg_cong [OF this, of set] show ?thesis by simp
qed

lemma feed_variables: "file_settings c' = file_settings c \<Longrightarrow> feed_variable ` set (cfg_Feeds c') = feed_variable ` set (cfg_Feeds c)"
proof -
  assume "file_settings c' = file_settings c"
  then have "map unswitched (cfg_Feeds c') = map unswitched (cfg_Feeds c)" by (simp add: file_settings_def)
  then have "map feed_variable (map unswitched (cfg_Feeds c')) = map feed_variable (map unswitched (cfg_Feeds c))" by (rule arg_cong)
  moreover have "feed_variable (unswitched x) = feed_variable x" for x by (simp add: feed_variable_def unswitched_def)
  ultimately have "map feed_variable (cfg_Feeds c') = map feed_variable (cfg_Feeds c)" by (simp add: comp_def)
  from arg_cong [OF this, of set] show ?thesis by simp
qed

lemma known_variable_cong: "file_settings c' = file_settings c \<Longrightarrow> known_variable c' key = known_variable c key"
  unfolding known_variable_def by (drule feed_variables) (simp only:)

definition entry_accepted :: "Config \<Rightarrow> string \<Rightarrow> bool" where
  "entry_accepted c entry \<longleftrightarrow>
     (\<exists>key v. split_first (CHR ''='') entry = Some (key, v) \<and> (has_prefix key ''CROWDSHIELD_'' \<longrightarrow> known_variable c key)) \<or>
     (split_first (CHR ''='') entry = None \<and> \<not> has_prefix entry ''CROWDSHIELD_'')"

lemma apply_entry_keeps:
  assumes "apply_entry parseFloat entry c = Inr c'"
  shows "file_settings c' = file_settings c \<and> entry_accepted c entry"
proof (cases "split_first (CHR ''='') entry")
  case None
  with assms show ?thesis by (auto simp: apply_entry_def entry_accepted_def split: if_splits)
next
  case (Some kv)
  obtain key v where kv: "kv = (key, v)" by (rule prod.exhaust)
  note run = assms [unfolded apply_entry_def Let_def Some kv option.case prod.case]
  show ?thesis
  proof (cases "has_prefix key ''CROWDSHIELD_'' \<and> key \<noteq> ''CROWDSHIELD_CONFIG''")
    case False
    with run Some kv show ?thesis by (auto simp: entry_accepted_def known_variable_def split: if_splits)
  next
    case True
    show ?thesis
    proof (cases "map_of (supportedEnvironment parseFloat) key")
      case (Some setter)
      then have "(key, setter) \<in> set (supportedEnvironment parseFloat)" by (rule map_of_SomeD)
      moreover from this have "key \<in> fst ` set (supportedEnvironment (\<lambda>_. None))"
        using supported_keys [of parseFloat] by force
      ultimately show ?thesis
        using run True Some setter_keeps \<open>split_first (CHR ''='') entry = Some kv\<close> kv
        by (auto simp: entry_accepted_def known_variable_def split: option.splits)
    next
      case None
      with run True obtain encoded fs where e: "feed_switch key = Some encoded" "switch_feed encoded v (cfg_Feeds c) = Some fs"
        and c': "c' = c\<lparr>cfg_Feeds := fs\<rparr>"
        by (auto split: option.splits)
      with switch_feed_keeps [OF e(2)] switch_feed_known [OF e(2)] Some kv show ?thesis
        by (auto simp: entry_accepted_def known_variable_def file_settings_def)
    qed
  qed
qed

lemma applyEnvironment_keeps:
  "applyEnvironment parseFloat entries c = Inr c' \<Longrightarrow>
   file_settings c' = file_settings c \<and> (\<forall>entry \<in> set entries. entry_accepted c entry)"
proof (induction entries arbitrary: c)
  case (Cons entry entries)
  then obtain c1 where c1: "apply_entry parseFloat entry c = Inr c1" and rest: "applyEnvironment parseFloat entries c1 = Inr c'"
    by (auto split: sum.splits)
  note e = apply_entry_keeps [OF c1]
  have "entry_accepted c1 x = entry_accepted c x" for x
    using known_variable_cong [of c1 c] e by (simp add: entry_accepted_def)
  with e Cons.IH [OF rest] show ?case by auto
qed simp

text \<open>A file that is no longer than the bound is read whole; the bound is one that the next number does not wrap.\<close>

lemma bounded_read:
  assumes "maxBytes < max_int64" "0 < maxBytes"
  shows "int (length (take (nat (wrap64 (maxBytes + 1))) bytes)) \<le> maxBytes \<longleftrightarrow> int (length bytes) \<le> maxBytes"
    "int (length bytes) \<le> maxBytes \<Longrightarrow> take (nat (wrap64 (maxBytes + 1))) bytes = bytes"
proof -
  have "wrap64 (maxBytes + 1) = maxBytes + 1" using assms by (intro wrap64_id) (simp_all add: max_int64_def min_int64_def)
  then show "int (length (take (nat (wrap64 (maxBytes + 1))) bytes)) \<le> maxBytes \<longleftrightarrow> int (length bytes) \<le> maxBytes"
      "int (length bytes) \<le> maxBytes \<Longrightarrow> take (nat (wrap64 (maxBytes + 1))) bytes = bytes"
    using assms by (auto simp: min_def)
qed

subsection \<open>Properties\<close>

text \<open>C24. What loads, and what the environment can change in it. The loader gives a configuration exactly when
  the file at the path is a regular one within the bound, its whole content decodes over the defaults as a single
  document, every variable with the prefix of the program applies, and the result validates. Then each such
  variable is a documented one, is the reserved one or switches a configured feed; and the definitions of the feeds,
  the networks that are never banned, the hosts that may be reached without TLS and the format of the log are those
  of the file, brought into canonical form: the environment can tune the service and switch feeds, but not what
  it trusts. The bound is below the largest \<^verbatim>\<open>int64\<close>.\<close>

theorem config_Load_scope:
  assumes "ld_MaxBytes l < max_int64"
  shows "config_Load env l path = Inr cfg \<longleftrightarrow>
    (\<exists>file bytes decoded overridden. le_Open env (if path = [] then config_DefaultPath else path) = Some file \<and> cf_Regular file \<and>
       cf_Size file \<le> (if ld_MaxBytes l \<le> 0 then DefaultMaxConfigBytes else ld_MaxBytes l) \<and> cf_Bytes file = Some bytes \<and>
       int (length bytes) \<le> (if ld_MaxBytes l \<le> 0 then DefaultMaxConfigBytes else ld_MaxBytes l) \<and>
       le_Decode env bytes (Defaults (ld_Version l)) = Inr decoded \<and> le_Single env bytes \<and>
       applyEnvironment (le_ParseFloat env) (le_Environ env) decoded = Inr overridden \<and>
       file_settings overridden = file_settings decoded \<and> (\<forall>entry \<in> set (le_Environ env). entry_accepted decoded entry) \<and>
       Config_Validate (le_Parse env) overridden = Inr cfg)"
    (is "?load \<longleftrightarrow> ?scope")
proof -
  define maxBytes where "maxBytes = (if ld_MaxBytes l \<le> 0 then DefaultMaxConfigBytes else ld_MaxBytes l)"
  have "maxBytes < max_int64" "0 < maxBytes" using assms by (simp_all add: maxBytes_def DefaultMaxConfigBytes_def max_int64_def)
  note whole = bounded_read [OF this]
  show ?thesis
  proof
    assume ?load
    then obtain cf bytes decoded overridden where
        f: "le_Open env (if path = [] then config_DefaultPath else path) = Some cf" "cf_Regular cf" "cf_Size cf \<le> maxBytes"
          "cf_Bytes cf = Some bytes" and body: "int (length (take (nat (wrap64 (maxBytes + 1))) bytes)) \<le> maxBytes"
          "le_Decode env (take (nat (wrap64 (maxBytes + 1))) bytes) (Defaults (ld_Version l)) = Inr decoded"
          "le_Single env (take (nat (wrap64 (maxBytes + 1))) bytes)"
        and a: "applyEnvironment (le_ParseFloat env) (le_Environ env) decoded = Inr overridden"
          "Config_Validate (le_Parse env) overridden = Inr cfg"
      unfolding config_Load_def maxBytes_def [symmetric] Let_def by (auto simp: not_less split: option.splits if_splits sum.splits)
    have n: "int (length bytes) \<le> maxBytes" using body(1) unfolding whole(1) .
    from f n body(2,3) a applyEnvironment_keeps [OF a(1)] show ?scope
      unfolding whole(2) [OF n] maxBytes_def [symmetric] by blast
  next
    assume ?scope
    then obtain cf bytes decoded overridden where
        f: "le_Open env (if path = [] then config_DefaultPath else path) = Some cf" "cf_Regular cf" "cf_Size cf \<le> maxBytes"
          "cf_Bytes cf = Some bytes" "int (length bytes) \<le> maxBytes" "le_Decode env bytes (Defaults (ld_Version l)) = Inr decoded"
          "le_Single env bytes" "applyEnvironment (le_ParseFloat env) (le_Environ env) decoded = Inr overridden"
          "Config_Validate (le_Parse env) overridden = Inr cfg"
      unfolding maxBytes_def [symmetric] by blast
    then show ?load
      unfolding config_Load_def maxBytes_def [symmetric] Let_def by (simp add: whole(2) [OF f(5)])
  qed
qed

definition sample_loader :: loader_env where
  "sample_loader = \<lparr>le_Open = (\<lambda>path. Some \<lparr>cf_Regular = True, cf_Size = 2, cf_Bytes = Some ''{}''\<rparr>),
     le_Decode = (\<lambda>body cfg. Inr sample_config), le_Single = (\<lambda>body. True),
     le_Environ = [''PATH=/bin'', ''CROWDSHIELD_LOGGING_LEVEL=info''], le_ParseFloat = (\<lambda>s. None), le_Parse = sample_parse\<rparr>"

lemma sample_entries:
  "apply_entry f ''PATH=/bin'' sample_config = Inr sample_config"
  "apply_entry f ''CROWDSHIELD_LOGGING_LEVEL=info'' sample_config = Inr sample_config"
proof -
  show "apply_entry f ''PATH=/bin'' sample_config = Inr sample_config"
    by (simp add: apply_entry_def split_first_def)
  have "map_of (supportedEnvironment f) ''CROWDSHIELD_LOGGING_LEVEL'' = Some (stringSetter (\<lambda>x. cfg_Logging_update (log_Level_update (\<lambda>_. x))))"
    by (simp add: supportedEnvironment_def)
  moreover have "cfg_Logging_update (log_Level_update (\<lambda>_. ''info'')) sample_config = sample_config"
    by (simp add: sample_config_def Defaults_def)
  ultimately show "apply_entry f ''CROWDSHIELD_LOGGING_LEVEL=info'' sample_config = Inr sample_config"
    by (simp add: apply_entry_def split_first_def stringSetter_def)
qed

theorem config_Load_scope_witness:
  "\<exists>cfg. config_Load sample_loader \<lparr>ld_Version = [], ld_MaxBytes = 0\<rparr> [] = Inr cfg \<and> Config_Validate sample_parse sample_config = Inr cfg"
proof -
  obtain cfg where cfg: "Config_Validate sample_parse sample_config = Inr cfg" using sample_config_validates by blast
  have "applyEnvironment (\<lambda>s. None) [''PATH=/bin'', ''CROWDSHIELD_LOGGING_LEVEL=info''] sample_config = Inr sample_config"
    by (simp only: applyEnvironment.simps sample_entries sum.case)
  from this applyEnvironment_keeps [OF this] cfg
  have "config_Load sample_loader \<lparr>ld_Version = [], ld_MaxBytes = 0\<rparr> [] = Inr cfg"
    by (subst config_Load_scope) (auto simp: sample_loader_def DefaultMaxConfigBytes_def max_int64_def)
  with cfg show ?thesis by blast
qed

end
