(* ===== verification/CLI.thy ===== *)
theory CLI
  imports Config_Env Operator_Maintenance Operator_Sync
begin

text \<open>
  The command line: \<^verbatim>\<open>internal/cli\<close> and the wiring of \<^verbatim>\<open>cmd/crowdshield/main.go\<close>. \<open>Execute\<close> parses the flags as the
  package \<^verbatim>\<open>flag\<close> does, loads the configuration and calls the operators of the theories \<open>Operator_Read\<close>,
  \<open>Operator_Maintenance\<close> and \<open>Operator_Sync\<close>, so it is a function of the arguments, the database file and the outside
  that gives the exit code, what is printed, and the file and the outside afterwards. Printed text is modelled
  as text; a JSON document is the value that the encoder gets. The service that \<^verbatim>\<open>run\<close> starts without
  \<^verbatim>\<open>--run-once\<close> is an argument: its life is the theory \<open>App_Runtime\<close>, its construction in \<^verbatim>\<open>production.go\<close> is not modelled.
\<close>

subsection \<open>Definitions: the package flag\<close>

datatype flag_kind = StringFlag | BoolFlag | DurationFlag

datatype flag_value = StringValue string | BoolValue bool | DurationValue duration

fun flag_Set :: "flag_kind \<Rightarrow> string \<Rightarrow> flag_value option" where
  "flag_Set StringFlag v = Some (StringValue v)"
| "flag_Set BoolFlag v = map_option BoolValue (ParseBool v)"
| "flag_Set DurationFlag v = map_option DurationValue (ParseDuration v)"

text \<open>The name of a flag and the value after the first equals sign, which cannot come first.\<close>

definition flag_name :: "string \<Rightarrow> string \<times> string option" where
  "flag_name name =
     (case split_first (CHR ''='') (tl name) of
        None \<Rightarrow> (name, None)
      | Some (a, b) \<Rightarrow> (hd name # a, Some b))"

fun flag_Parse ::
  "(string \<rightharpoonup> flag_kind) \<Rightarrow> string list \<Rightarrow> (string \<rightharpoonup> flag_value) \<Rightarrow> ((string \<rightharpoonup> flag_value) \<times> string list) option" where
  "flag_Parse formal [] got = Some (got, [])"
| "flag_Parse formal (s # args) got =
     (if length s < 2 \<or> hd s \<noteq> CHR ''-'' then Some (got, s # args)
      else if s = ''--'' then Some (got, args)
      else
        let name0 = (if s ! 1 = CHR ''-'' then drop 2 s else drop 1 s) in
        if name0 = [] \<or> hd name0 = CHR ''-'' \<or> hd name0 = CHR ''='' then None
        else
          (case flag_name name0 of (name, given) \<Rightarrow>
             (case formal name of
                None \<Rightarrow> None
              | Some BoolFlag \<Rightarrow>
                  (case flag_Set BoolFlag (case given of None \<Rightarrow> ''true'' | Some v \<Rightarrow> v) of
                     None \<Rightarrow> None
                   | Some x \<Rightarrow> flag_Parse formal args (got(name \<mapsto> x)))
              | Some kind \<Rightarrow>
                  (case given of
                     Some v \<Rightarrow> (case flag_Set kind v of None \<Rightarrow> None | Some x \<Rightarrow> flag_Parse formal args (got(name \<mapsto> x)))
                   | None \<Rightarrow>
                       (case args of
                          [] \<Rightarrow> None
                        | v # rest \<Rightarrow> (case flag_Set kind v of None \<Rightarrow> None | Some x \<Rightarrow> flag_Parse formal rest (got(name \<mapsto> x))))))))"

definition flag_string :: "(string \<rightharpoonup> flag_value) \<Rightarrow> string \<Rightarrow> string \<Rightarrow> string" where
  "flag_string got name fallback = (case got name of Some (StringValue v) \<Rightarrow> v | _ \<Rightarrow> fallback)"

definition flag_bool :: "(string \<rightharpoonup> flag_value) \<Rightarrow> string \<Rightarrow> bool" where
  "flag_bool got name = (case got name of Some (BoolValue v) \<Rightarrow> v | _ \<Rightarrow> False)"

definition flag_duration :: "(string \<rightharpoonup> flag_value) \<Rightarrow> string \<Rightarrow> duration \<Rightarrow> duration" where
  "flag_duration got name fallback = (case got name of Some (DurationValue v) \<Rightarrow> v | _ \<Rightarrow> fallback)"

subsection \<open>Definitions: what is printed\<close>

definition ExitSuccess :: int where "ExitSuccess = 0"

definition ExitOperational :: int where "ExitOperational = 1"

definition ExitUsage :: int where "ExitUsage = 2"

definition ExitNotReady :: int where "ExitNotReady = 3"

definition ExitOwnership :: int where "ExitOwnership = 4"

definition Usage :: string where
  "Usage = ''usage: crowdshield <run|sync|status|validate-config|list-feeds|explain|prune|db|healthcheck|version|help> [options]''"

text \<open>The documents that the JSON encoder gets; an optional text that is left out is empty.\<close>

record feedStatusJSON =
  fj_Name :: string
  fj_Enabled :: bool
  fj_LastSuccess :: string
  fj_ConsecutiveFailures :: int
  fj_LastFailure :: FailureCategory

record statusJSON =
  sj_Status :: string
  sj_Reason :: StatusReason
  sj_LastSafeSync :: string
  sj_ActiveDecisions :: int
  sj_LastOutcome :: Outcome
  sj_LastFailure :: FailureCategory

record syncOutput =
  sj_Outcome :: Outcome
  sj_Failure :: FailureCategory
  sj_Counts :: Counts

datatype document = DocSync syncOutput | DocStatus statusJSON | DocFeeds "feedStatusJSON list" | DocExplain ExplainResult
  | DocPrune string cli_PruneResult

datatype printed = Stdout string | Stderr string | Encoded document

text \<open>The parts of a parsed URL that the health check looks at.\<close>

record health_url =
  hu_Scheme :: string
  hu_HasUser :: bool
  hu_RawQuery :: string
  hu_Fragment :: string
  hu_Path :: string
  hu_RawPath :: string
  hu_Host :: string
  hu_Hostname :: string
  hu_Port :: string

text \<open>What a command leaves: the exit code, what it printed, the database file and the outside.\<close>

type_synonym 'w cli_end = "int \<times> printed list \<times> db path_state \<times> 'w lapi_state"

record 'w program =
  pg_Load :: "string \<Rightarrow> Config option"
  pg_Sync :: "'w sync_cli"
  pg_Now :: gotime
  pg_Service :: "Config \<Rightarrow> db path_state \<Rightarrow> 'w lapi_state \<Rightarrow> bool \<times> db path_state \<times> 'w lapi_state"
  pg_Version :: string
  pg_FormatRFC3339 :: "gotime \<Rightarrow> string"
  pg_EncodeOk :: bool
  pg_ParseURL :: "string \<Rightarrow> health_url option"
  pg_Get :: "health_url \<Rightarrow> duration \<Rightarrow> http_response option"
  pg_ParseMediaType :: "string \<Rightarrow> string option"

definition usage_end :: "db path_state \<Rightarrow> 'w lapi_state \<Rightarrow> 'w cli_end" where
  "usage_end p s = (ExitUsage, [Stderr Usage], p, s)"

definition config_end :: "db path_state \<Rightarrow> 'w lapi_state \<Rightarrow> 'w cli_end" where
  "config_end p s = (ExitUsage, [Stderr ''configuration invalid''], p, s)"

definition failed_end :: "string \<Rightarrow> db path_state \<Rightarrow> 'w lapi_state \<Rightarrow> 'w cli_end" where
  "failed_end message p s = (ExitOperational, [Stderr message], p, s)"

definition config_flag :: "string \<rightharpoonup> flag_kind" where
  "config_flag = [''config'' \<mapsto> StringFlag]"

text \<open>The common start of the commands: the flags, which must leave \<open>extra\<close> arguments that pass a check, and a
  configuration that loads and validates.\<close>

definition with_config ::
  "'w program \<Rightarrow> (string \<rightharpoonup> flag_kind) \<Rightarrow> string list \<Rightarrow> ((string \<rightharpoonup> flag_value) \<Rightarrow> string list \<Rightarrow> bool) \<Rightarrow>
   ((string \<rightharpoonup> flag_value) \<Rightarrow> string list \<Rightarrow> Config \<Rightarrow> 'w cli_end) \<Rightarrow> db path_state \<Rightarrow> 'w lapi_state \<Rightarrow> 'w cli_end" where
  "with_config pg formal args accept command p s =
     (case flag_Parse formal args Map.empty of
        None \<Rightarrow> usage_end p s
      | Some (got, rest) \<Rightarrow>
          if \<not> accept got rest then usage_end p s
          else
            (case pg_Load pg (flag_string got ''config'' config_DefaultPath) of
               None \<Rightarrow> config_end p s
             | Some loaded \<Rightarrow>
                 (case Config_Validate (oe_Parse (sx_Operator (pg_Sync pg))) loaded of
                    Inl e \<Rightarrow> config_end p s
                  | Inr cfg \<Rightarrow> command got rest cfg)))"

definition no_arguments :: "(string \<rightharpoonup> flag_value) \<Rightarrow> string list \<Rightarrow> bool" where
  "no_arguments got rest = (rest = [])"

text \<open>\<^verbatim>\<open>json.NewEncoder(stdout).Encode\<close> or the text, then the exit code.\<close>

definition print_end :: "'w program \<Rightarrow> bool \<Rightarrow> document \<Rightarrow> printed list \<Rightarrow> int \<Rightarrow> db path_state \<Rightarrow> 'w lapi_state \<Rightarrow> 'w cli_end" where
  "print_end pg asJSON doc text exit p s =
     (if asJSON then (if pg_EncodeOk pg then (exit, [Encoded doc], p, s) else (ExitOperational, [], p, s))
      else (exit, text, p, s))"

subsection \<open>Definitions: texts\<close>

fun outcome_text :: "Outcome \<Rightarrow> string" where
  "outcome_text OutcomeStarted = ''started''"
| "outcome_text OutcomeSuccess = ''success''"
| "outcome_text OutcomeDegraded = ''degraded''"
| "outcome_text OutcomeFailed = ''failed''"
| "outcome_text OutcomeCancelled = ''cancelled''"
| "outcome_text OutcomeNotDue = ''not_due''"
| "outcome_text OutcomeNotModified = ''not_modified''"
| "outcome_text OutcomeRetrying = ''retrying''"
| "outcome_text OutcomeRecovered = ''recovered''"
| "outcome_text OutcomeAvailable = ''available''"
| "outcome_text OutcomeUnavailable = ''unavailable''"
| "outcome_text OutcomeStale = ''stale''"
| "outcome_text OutcomeStopped = ''stopped''"
| "outcome_text (OtherOutcome t) = t"

fun failure_text :: "FailureCategory \<Rightarrow> string" where
  "failure_text NoFailure = []"
| "failure_text FailureConfig = ''config''"
| "failure_text FailureCredential = ''credential''"
| "failure_text FailureFeedDownload = ''feed_download''"
| "failure_text FailureFeedValidation = ''feed_validation''"
| "failure_text FailureLAPIAuth = ''lapi_auth''"
| "failure_text FailureLAPI = ''lapi''"
| "failure_text FailureDatabase = ''database''"
| "failure_text FailureNotification = ''notification''"
| "failure_text FailureOwnership = ''ownership''"
| "failure_text FailureTimeout = ''timeout''"
| "failure_text FailureCancelled = ''cancelled''"
| "failure_text FailureRuntime = ''runtime''"
| "failure_text FailureInternal = ''internal''"
| "failure_text (OtherFailure t) = t"

fun reason_text :: "StatusReason \<Rightarrow> string" where
  "reason_text ReasonReady = ''ready''"
| "reason_text ReasonSyncPending = ''sync_pending''"
| "reason_text ReasonSyncStale = ''sync_stale''"
| "reason_text ReasonDatabase = ''database_unavailable''"
| "reason_text ReasonRuntime = ''runtime_unavailable''"
| "reason_text (OtherReason t) = t"

fun explain_kind_text :: "ExplainKind \<Rightarrow> string" where
  "explain_kind_text ExplainIP = ''ip''"
| "explain_kind_text ExplainRange = ''range''"
| "explain_kind_text (OtherExplainKind t) = t"

definition bool_text :: "bool \<Rightarrow> string" where
  "bool_text b = (if b then ''true'' else ''false'')"

text \<open>A field of a line: its name and its value, separated by spaces.\<close>

definition assigned :: "(string \<times> string) list \<Rightarrow> string" where
  "assigned items = join '' '' (map (\<lambda>(name, v). name @ ''='' @ v) items)"

subsection \<open>Definitions: validate-config, run, db\<close>

definition ValidateCLIConfig :: "'w sync_cli \<Rightarrow> Config \<Rightarrow> bool" where
  "ValidateCLIConfig env cfg0 =
     (case Config_Validate (oe_Parse (sx_Operator env)) cfg0 of
        Inl e \<Rightarrow> False
      | Inr cfg \<Rightarrow> machine_credentials (sx_Credentials env) cfg \<noteq> None)"

definition validateConfig :: "'w program \<Rightarrow> string list \<Rightarrow> db path_state \<Rightarrow> 'w lapi_state \<Rightarrow> 'w cli_end" where
  "validateConfig pg args p s =
     with_config pg config_flag args no_arguments
       (\<lambda>got rest cfg. if \<not> ValidateCLIConfig (pg_Sync pg) cfg then config_end p s
          else (ExitSuccess, [Stdout ''configuration valid''], p, s)) p s"

definition RunCLI :: "'w program \<Rightarrow> Config \<Rightarrow> bool \<Rightarrow> db path_state \<Rightarrow> 'w lapi_state \<Rightarrow> bool \<times> printed list \<times> db path_state \<times> 'w lapi_state" where
  "RunCLI pg cfg0 runOnce p s =
     (case Config_Validate (oe_Parse (sx_Operator (pg_Sync pg))) cfg0 of
        Inl e \<Rightarrow> (False, [], p, s)
      | Inr cfg \<Rightarrow>
          if runOnce then
            (case RunCLI_once (pg_Sync pg) cfg p s of
               (None, p', s') \<Rightarrow> (True, [Stdout ''synchronization complete''], p', s')
             | (Some e, p', s') \<Rightarrow> (False, [], p', s'))
          else (case pg_Service pg cfg p s of (ok, p', s') \<Rightarrow> (ok, [], p', s')))"

definition runCommand :: "'w program \<Rightarrow> string list \<Rightarrow> db path_state \<Rightarrow> 'w lapi_state \<Rightarrow> 'w cli_end" where
  "runCommand pg args p s =
     with_config pg (config_flag(''run-once'' \<mapsto> BoolFlag)) args no_arguments
       (\<lambda>got rest cfg.
          case RunCLI pg cfg (flag_bool got ''run-once'') p s of (ok, out, p', s') \<Rightarrow>
            if ok then (ExitSuccess, out, p', s') else (ExitOperational, out @ [Stderr ''runtime failed''], p', s')) p s"

definition dbCommand :: "'w program \<Rightarrow> string list \<Rightarrow> db path_state \<Rightarrow> 'w lapi_state \<Rightarrow> 'w cli_end" where
  "dbCommand pg args p s =
     (case args of
        [] \<Rightarrow> usage_end p s
      | a # rest \<Rightarrow>
          if a \<noteq> ''check'' then usage_end p s
          else
            with_config pg config_flag rest no_arguments
              (\<lambda>got rest cfg. if DBCheckCLI (sx_Operator (pg_Sync pg)) cfg p \<noteq> None then failed_end ''database check failed'' p s
                 else (ExitSuccess, [Stdout ''database ok''], p, s)) p s)"

subsection \<open>Definitions: sync\<close>

definition outputForSync :: "ops_Result \<Rightarrow> syncOutput" where
  "outputForSync result = \<lparr>sj_Outcome = res_Outcome result, sj_Failure = res_Failure result, sj_Counts = res_Counts result\<rparr>"

definition syncExit :: "ops_Result \<Rightarrow> int" where
  "syncExit result =
     (if res_Failure result = FailureConfig then ExitUsage
      else if res_Failure result = FailureOwnership then ExitOwnership
      else (case res_Outcome result of OutcomeSuccess \<Rightarrow> ExitSuccess | OutcomeDegraded \<Rightarrow> ExitNotReady | _ \<Rightarrow> ExitOperational))"

definition sync_line :: "syncOutput \<Rightarrow> string" where
  "sync_line result =
     (let c = sj_Counts result in
      assigned [(''outcome'', outcome_text (sj_Outcome result)), (''failure'', failure_text (sj_Failure result)),
        (''feeds_succeeded'', FormatInt (cnt_FeedsSucceeded c)), (''feeds_failed'', FormatInt (cnt_FeedsFailed c)),
        (''feeds_unchanged'', FormatInt (cnt_FeedsUnchanged c)), (''feeds_not_due'', FormatInt (cnt_FeedsNotDue c)),
        (''added'', FormatInt (cnt_Added c)), (''refreshed'', FormatInt (cnt_Refreshed c)), (''removed'', FormatInt (cnt_Removed c)),
        (''rejected'', FormatInt (cnt_Rejected c)), (''skipped'', FormatInt (cnt_Skipped c)),
        (''lapi_requests'', FormatInt (cnt_LAPIRequests c)), (''active_decisions'', FormatInt (cnt_ActiveDecisions c))])"

definition syncCommand :: "'w program \<Rightarrow> string list \<Rightarrow> db path_state \<Rightarrow> 'w lapi_state \<Rightarrow> 'w cli_end" where
  "syncCommand pg args p s =
     with_config pg (config_flag(''dry-run'' \<mapsto> BoolFlag, ''feed'' \<mapsto> StringFlag, ''json'' \<mapsto> BoolFlag)) args
       (\<lambda>got rest. rest = [] \<and> \<not> (flag_string got ''feed'' [] \<noteq> [] \<and> \<not> ValidFeedName (flag_string got ''feed'' [])))
       (\<lambda>got rest cfg.
          case SyncCLI (pg_Sync pg) cfg \<lparr>csr_DryRun = flag_bool got ''dry-run'', csr_Feed = flag_string got ''feed'' []\<rparr> p s of
            (Inl e, p', s') \<Rightarrow> failed_end ''synchronization failed'' p' s'
          | (Inr result, p', s') \<Rightarrow>
              if Result_Validate result \<noteq> None then failed_end ''synchronization failed'' p' s'
              else print_end pg (flag_bool got ''json'') (DocSync (outputForSync result)) [Stdout (sync_line (outputForSync result))]
                (syncExit result) p' s') p s"

subsection \<open>Definitions: status and list-feeds\<close>

definition optional_field :: "string \<Rightarrow> string \<Rightarrow> (string \<times> string) list" where
  "optional_field name v = (if v = [] then [] else [(name, v)])"

definition time_text :: "'w program \<Rightarrow> gotime \<Rightarrow> string" where
  "time_text pg t = (if IsZero t then [] else pg_FormatRFC3339 pg t)"

definition status_state :: "cli_Status \<Rightarrow> string" where
  "status_state status = (if cst_Ready status then ''ready'' else ''not_ready'')"

definition status_document :: "'w program \<Rightarrow> cli_Status \<Rightarrow> statusJSON" where
  "status_document pg status =
     \<lparr>sj_Status = status_state status, sj_Reason = cst_Reason status, sj_LastSafeSync = time_text pg (cst_LastSafeSync status),
      sj_ActiveDecisions = cst_ActiveDecisions status, sj_LastOutcome = cst_LastOutcome status, sj_LastFailure = cst_LastFailure status\<rparr>"

definition status_line :: "'w program \<Rightarrow> cli_Status \<Rightarrow> string" where
  "status_line pg status =
     assigned ([(''status'', status_state status), (''reason'', reason_text (cst_Reason status)),
         (''active_decisions'', FormatInt (cst_ActiveDecisions status))] @
       (if IsZero (cst_LastSafeSync status) then [] else [(''last_safe_sync'', pg_FormatRFC3339 pg (cst_LastSafeSync status))]) @
       optional_field ''last_outcome'' (outcome_text (cst_LastOutcome status)) @
       optional_field ''last_failure'' (failure_text (cst_LastFailure status)))"

definition statusCommand :: "'w program \<Rightarrow> string list \<Rightarrow> db path_state \<Rightarrow> 'w lapi_state \<Rightarrow> 'w cli_end" where
  "statusCommand pg args p s =
     with_config pg (config_flag(''json'' \<mapsto> BoolFlag)) args no_arguments
       (\<lambda>got rest cfg.
          case StatusCLI (sx_Operator (pg_Sync pg)) cfg (pg_Now pg) p of
            Inl e \<Rightarrow> failed_end ''status unavailable'' p s
          | Inr status \<Rightarrow>
              if \<not> Status_Validate status then failed_end ''status unavailable'' p s
              else print_end pg (flag_bool got ''json'') (DocStatus (status_document pg status)) [Stdout (status_line pg status)]
                (if cst_Ready status then ExitSuccess else ExitNotReady) p s) p s"

definition feed_document :: "'w program \<Rightarrow> cli_FeedStatus \<Rightarrow> feedStatusJSON" where
  "feed_document pg feed =
     \<lparr>fj_Name = cfs_Name feed, fj_Enabled = cfs_Enabled feed, fj_LastSuccess = time_text pg (cfs_LastSuccess feed),
      fj_ConsecutiveFailures = cfs_ConsecutiveFailures feed, fj_LastFailure = cfs_LastFailure feed\<rparr>"

definition feed_line :: "'w program \<Rightarrow> cli_FeedStatus \<Rightarrow> string" where
  "feed_line pg feed =
     assigned ([(''name'', cfs_Name feed), (''enabled'', bool_text (cfs_Enabled feed)),
         (''consecutive_failures'', FormatInt (cfs_ConsecutiveFailures feed))] @
       (if IsZero (cfs_LastSuccess feed) then [] else [(''last_success'', pg_FormatRFC3339 pg (cfs_LastSuccess feed))]) @
       optional_field ''last_failure'' (failure_text (cfs_LastFailure feed)))"

definition listFeedsCommand :: "'w program \<Rightarrow> string list \<Rightarrow> db path_state \<Rightarrow> 'w lapi_state \<Rightarrow> 'w cli_end" where
  "listFeedsCommand pg args p s =
     with_config pg (config_flag(''json'' \<mapsto> BoolFlag)) args no_arguments
       (\<lambda>got rest cfg.
          case ListFeedsCLI (sx_Operator (pg_Sync pg)) cfg p of
            Inl e \<Rightarrow> failed_end ''feed status unavailable'' p s
          | Inr listed \<Rightarrow>
              if length listed > 256 then failed_end ''feed status unavailable'' p s
              else
                let fs = sort_cmp (\<lambda>a b. cmp_Compare (cfs_Name a) (cfs_Name b)) listed in
                if \<not> list_all FeedStatus_Validate fs \<or> \<not> distinct (map cfs_Name fs) then failed_end ''feed status unavailable'' p s
                else print_end pg (flag_bool got ''json'') (DocFeeds (map (feed_document pg) fs)) (map (\<lambda>f. Stdout (feed_line pg f)) fs)
                  ExitSuccess p s) p s"

subsection \<open>Definitions: explain and prune\<close>

definition validExplainInput :: "string \<Rightarrow> bool" where
  "validExplainInput v =
     (case ParseAddr v of
        Some a \<Rightarrow> a \<noteq> Addr0
      | None \<Rightarrow> (case ParsePrefix v of None \<Rightarrow> False | Some prefix \<Rightarrow> IsValid prefix))"

definition explain_line :: "ExplainResult \<Rightarrow> string" where
  "explain_line r =
     assigned ([(''canonical'', xr_Canonical r), (''kind'', explain_kind_text (xr_Kind r)), (''desired'', bool_text (xr_Desired r)),
         (''allowlisted'', bool_text (xr_Allowlisted r)), (''covered'', bool_text (xr_Covered r)), (''owned'', bool_text (xr_Owned r)),
         (''ownership_conflict'', bool_text (xr_OwnershipConflict r))] @
       (if xr_Covered r then [(''covering_prefix'', xr_CoveringPrefix r)] else []) @
       [(''contributors'', join '','' (xr_Contributors r))])"

definition explainCommand :: "'w program \<Rightarrow> string list \<Rightarrow> db path_state \<Rightarrow> 'w lapi_state \<Rightarrow> 'w cli_end" where
  "explainCommand pg args p s =
     with_config pg (config_flag(''json'' \<mapsto> BoolFlag)) args
       (\<lambda>got rest. length rest = 1 \<and> validExplainInput (hd rest))
       (\<lambda>got rest cfg.
          case ExplainCLI (sx_Operator (pg_Sync pg)) cfg (hd rest) p of
            Inl e \<Rightarrow> failed_end ''explanation unavailable'' p s
          | Inr result0 \<Rightarrow>
              if \<not> ExplainResult_Validate result0 then failed_end ''explanation unavailable'' p s
              else
                let result = result0\<lparr>xr_Contributors := sort_cmp cmp_Compare (xr_Contributors result0)\<rparr> in
                print_end pg (flag_bool got ''json'') (DocExplain result) [Stdout (explain_line result)]
                  (if xr_OwnershipConflict result then ExitOwnership else ExitSuccess) p s) p s"

definition PruneConfirmation :: string where
  "PruneConfirmation = ''DELETE-EXPIRED-CROWDSHIELD-HISTORY''"

definition prune_mode :: "bool \<Rightarrow> cli_PruneResult \<Rightarrow> string" where
  "prune_mode confirmed r =
     (if cpr_OwnershipConflicts r > 0 then ''blocked'' else if confirmed then ''applied'' else ''plan'')"

definition prune_line :: "string \<Rightarrow> cli_PruneResult \<Rightarrow> string" where
  "prune_line mode r =
     assigned [(''mode'', mode), (''sync_runs'', FormatInt (cpr_SyncRuns r)), (''operations'', FormatInt (cpr_Operations r)),
       (''decisions'', FormatInt (cpr_Decisions r)), (''alerts'', FormatInt (cpr_Alerts r)),
       (''enforcement_objects'', FormatInt (cpr_EnforcementObjects r)), (''feed_entries'', FormatInt (cpr_FeedEntries r)),
       (''ownership_conflicts'', FormatInt (cpr_OwnershipConflicts r))]"

definition pruneCommand :: "'w program \<Rightarrow> string list \<Rightarrow> db path_state \<Rightarrow> 'w lapi_state \<Rightarrow> 'w cli_end" where
  "pruneCommand pg args p s =
     with_config pg (config_flag(''confirm'' \<mapsto> StringFlag, ''json'' \<mapsto> BoolFlag)) args
       (\<lambda>got rest. rest = [] \<and> \<not> (flag_string got ''confirm'' [] \<noteq> [] \<and> flag_string got ''confirm'' [] \<noteq> PruneConfirmation))
       (\<lambda>got rest cfg.
          let confirmed = (flag_string got ''confirm'' [] = PruneConfirmation) in
          case PruneCLI (sx_Operator (pg_Sync pg)) cfg confirmed (pg_Now pg) (sx_Migrated (pg_Sync pg)) p of
            (Inl e, p') \<Rightarrow> failed_end ''prune unavailable'' p' s
          | (Inr result, p') \<Rightarrow>
              if \<not> PruneResult_Validate result then failed_end ''prune unavailable'' p' s
              else print_end pg (flag_bool got ''json'') (DocPrune (prune_mode confirmed result) result)
                [Stdout (prune_line (prune_mode confirmed result) result)]
                (if cpr_OwnershipConflicts result > 0 then ExitOwnership else ExitSuccess) p' s) p s"

subsection \<open>Definitions: healthcheck\<close>

datatype healthcheck_error = ErrInvalidHealthcheck | ErrHealthcheckFailed

definition healthcheckTarget :: "'w program \<Rightarrow> string \<Rightarrow> health_url option" where
  "healthcheckTarget pg raw =
     (case pg_ParseURL pg raw of
        None \<Rightarrow> None
      | Some parsed \<Rightarrow>
          if hu_Scheme parsed \<noteq> ''http'' \<or> hu_HasUser parsed \<or> hu_RawQuery parsed \<noteq> [] \<or> hu_Fragment parsed \<noteq> []
             \<or> hu_Path parsed \<noteq> ''/healthz'' \<or> hu_RawPath parsed \<noteq> [] \<or> has_crlfnul (hu_Host parsed) then None
          else
            (case ParseAddr (hu_Hostname parsed) of
               None \<Rightarrow> None
             | Some address \<Rightarrow>
                 if \<not> IsLoopback address \<or> Zone address \<noteq> [] then None
                 else
                   (case Atoi (hu_Port parsed) of
                      None \<Rightarrow> None
                    | Some port \<Rightarrow> if port < 1 \<or> port > 65535 then None else Some parsed)))"

definition put_health :: "string \<Rightarrow> json \<Rightarrow> string \<Rightarrow> string option" where
  "put_health key v old = (if key = ''STATUS'' then store_string v old else None)"

definition decodeHealthcheck :: "string \<Rightarrow> healthcheck_error option" where
  "decodeHealthcheck body =
     (case json_parse body of
        None \<Rightarrow> Some ErrHealthcheckFailed
      | Some v \<Rightarrow> if store_struct put_health v [] = Some ''alive'' then None else Some ErrHealthcheckFailed)"

definition runHealthcheck :: "'w program \<Rightarrow> string \<Rightarrow> duration \<Rightarrow> healthcheck_error option" where
  "runHealthcheck pg rawURL timeout =
     (if timeout \<le> 0 \<or> timeout > 10 * second then Some ErrInvalidHealthcheck
      else
        (case healthcheckTarget pg rawURL of
           None \<Rightarrow> Some ErrInvalidHealthcheck
         | Some target \<Rightarrow>
             (case pg_Get pg target timeout of
                None \<Rightarrow> Some ErrHealthcheckFailed
              | Some response \<Rightarrow>
                  if rsp_StatusCode response \<noteq> 200 \<or> rsp_ContentLength response > 128 then Some ErrHealthcheckFailed
                  else if pg_ParseMediaType pg (rsp_Header response ''Content-Type'') \<noteq> Some ''application/json'' then Some ErrHealthcheckFailed
                  else
                    let body = take 129 (rsp_Body response) in
                    if (rsp_Broken response \<and> length (rsp_Body response) \<le> 128) \<or> length body > 128 then Some ErrHealthcheckFailed
                    else decodeHealthcheck body)))"

definition healthcheckCommand :: "'w program \<Rightarrow> string list \<Rightarrow> db path_state \<Rightarrow> 'w lapi_state \<Rightarrow> 'w cli_end" where
  "healthcheckCommand pg args p s =
     (case flag_Parse [''url'' \<mapsto> StringFlag, ''timeout'' \<mapsto> DurationFlag] args Map.empty of
        None \<Rightarrow> usage_end p s
      | Some (got, rest) \<Rightarrow>
          if rest \<noteq> [] then usage_end p s
          else
            (case runHealthcheck pg (flag_string got ''url'' ''http://127.0.0.1:9090/healthz'') (flag_duration got ''timeout'' (2 * second)) of
               Some ErrInvalidHealthcheck \<Rightarrow> usage_end p s
             | Some ErrHealthcheckFailed \<Rightarrow> failed_end ''healthcheck failed'' p s
             | None \<Rightarrow> (ExitSuccess, [], p, s)))"

subsection \<open>Definitions: Execute\<close>

definition Execute :: "'w program \<Rightarrow> string list \<Rightarrow> db path_state \<Rightarrow> 'w lapi_state \<Rightarrow> 'w cli_end" where
  "Execute pg args p s =
     (case args of
        [] \<Rightarrow> usage_end p s
      | command # rest \<Rightarrow>
          if command = ''help'' then (if rest \<noteq> [] then usage_end p s else (ExitSuccess, [Stdout Usage], p, s))
          else if command = ''version'' then (if rest \<noteq> [] then usage_end p s else (ExitSuccess, [Stdout (pg_Version pg)], p, s))
          else if command = ''validate-config'' then validateConfig pg rest p s
          else if command = ''run'' then runCommand pg rest p s
          else if command = ''status'' then statusCommand pg rest p s
          else if command = ''sync'' then syncCommand pg rest p s
          else if command = ''list-feeds'' then listFeedsCommand pg rest p s
          else if command = ''explain'' then explainCommand pg rest p s
          else if command = ''prune'' then pruneCommand pg rest p s
          else if command = ''db'' then dbCommand pg rest p s
          else if command = ''healthcheck'' then healthcheckCommand pg rest p s
          else usage_end p s)"

end
