(* ===== verification/CLI_Facts.thy ===== *)
theory CLI_Facts
  imports CLI Operator_Sync_Facts
begin

text \<open>
  Which commands can change what: only three of them ever touch the database file, two the outside, and each
  of them only when it was asked to in the way the code demands.
\<close>

subsection \<open>Facts: how a command ends\<close>

lemma with_config_cases:
  assumes "with_config pg formal args accept command p s = e"
  obtains "e = usage_end p s" | "e = config_end p s"
  | got rest cfg where "flag_Parse formal args Map.empty = Some (got, rest)" "accept got rest" "e = command got rest cfg"
  using assms by (auto simp: with_config_def split: option.splits sum.splits if_splits)

definition exit_ok :: "int \<Rightarrow> bool" where
  "exit_ok x = (0 \<le> x \<and> x \<le> 4)"

lemmas exit_defs = ExitSuccess_def ExitOperational_def ExitUsage_def ExitNotReady_def ExitOwnership_def

text \<open>A command that leaves the database file and the outside alone and exits with one of the five codes.\<close>

definition quiet_end :: "db path_state \<Rightarrow> 'w lapi_state \<Rightarrow> 'w cli_end \<Rightarrow> bool" where
  "quiet_end p s e = (exit_ok (fst e) \<and> fst (snd (snd e)) = p \<and> snd (snd (snd e)) = s)"

lemma quiet_ends [simp]:
  "quiet_end p s (usage_end p s)" "quiet_end p s (config_end p s)" "quiet_end p s (failed_end m p s)"
  "quiet_end p s (x, out, p', s') \<longleftrightarrow> exit_ok x \<and> p' = p \<and> s' = s"
  by (simp_all add: quiet_end_def usage_end_def config_end_def failed_end_def exit_ok_def exit_defs)

lemma exit_ok_simps [simp]:
  "exit_ok ExitSuccess" "exit_ok ExitOperational" "exit_ok ExitUsage" "exit_ok ExitNotReady" "exit_ok ExitOwnership"
  by (simp_all add: exit_ok_def exit_defs)

lemma quiet_print: "exit_ok x \<Longrightarrow> quiet_end p s (print_end pg j doc ls x p s)"
  by (simp add: print_end_def)

lemma print_end_ends: "print_end pg j doc ls x p s = (y, out, p', s') \<Longrightarrow> exit_ok x \<Longrightarrow> exit_ok y \<and> p' = p \<and> s' = s"
  using quiet_print [of x p s pg j doc ls] by simp

lemma quiet_with_config:
  assumes "\<And>got rest cfg. quiet_end p s (command got rest cfg)"
  shows "quiet_end p s (with_config pg formal args accept command p s)"
  using with_config_cases [OF refl, of pg formal args accept command p s] assms by (metis quiet_ends(1,2))

lemma read_commands_quiet:
  "quiet_end p s (validateConfig pg args p s)" "quiet_end p s (dbCommand pg args p s)"
  "quiet_end p s (statusCommand pg args p s)" "quiet_end p s (listFeedsCommand pg args p s)"
  "quiet_end p s (explainCommand pg args p s)" "quiet_end p s (healthcheckCommand pg args p s)"
proof -
  show "quiet_end p s (validateConfig pg args p s)"
    unfolding validateConfig_def by (rule quiet_with_config) simp
  show "quiet_end p s (dbCommand pg args p s)"
    unfolding dbCommand_def by (auto split: list.split intro!: quiet_with_config)
  show "quiet_end p s (statusCommand pg args p s)"
    unfolding statusCommand_def by (rule quiet_with_config) (auto split: sum.split intro!: quiet_print)
  show "quiet_end p s (listFeedsCommand pg args p s)"
    unfolding listFeedsCommand_def by (rule quiet_with_config) (auto simp: Let_def split: sum.split intro!: quiet_print)
  show "quiet_end p s (explainCommand pg args p s)"
    unfolding explainCommand_def by (rule quiet_with_config) (auto simp: Let_def split: sum.split intro!: quiet_print)
  show "quiet_end p s (healthcheckCommand pg args p s)"
    unfolding healthcheckCommand_def by (auto split: option.split healthcheck_error.split)
qed

lemma syncExit_ok: "exit_ok (syncExit r)"
  by (auto simp: syncExit_def split: Outcome.split)

subsection \<open>Facts: the commands that can change something\<close>

lemma syncCommand_end:
  assumes "syncCommand pg args p s = (x, out, p', s')"
  shows "exit_ok x \<and>
    ((p' = p \<and> s' = s \<and> x = ExitUsage) \<or>
     (\<exists>got cfg res. flag_Parse (config_flag(''dry-run'' \<mapsto> BoolFlag, ''feed'' \<mapsto> StringFlag, ''json'' \<mapsto> BoolFlag)) args Map.empty = Some (got, []) \<and>
        SyncCLI (pg_Sync pg) cfg \<lparr>csr_DryRun = flag_bool got ''dry-run'', csr_Feed = flag_string got ''feed'' []\<rparr> p s = (res, p', s') \<and>
        (x = ExitSuccess \<longrightarrow> (\<exists>r. res = Inr r \<and> res_Outcome r = OutcomeSuccess))))"
  using assms unfolding syncCommand_def
proof (cases rule: with_config_cases)
  case (3 got rest cfg)
  obtain res p1 s1 where run: "SyncCLI (pg_Sync pg) cfg \<lparr>csr_DryRun = flag_bool got ''dry-run'', csr_Feed = flag_string got ''feed'' []\<rparr> p s = (res, p1, s1)"
    by (rule prod_cases3)
  show ?thesis
  proof (cases "\<exists>r. res = Inr r \<and> Result_Validate r = None")
    case True
    then obtain r where r: "res = Inr r" "Result_Validate r = None" by blast
    have e: "print_end pg (flag_bool got ''json'') (DocSync (outputForSync r)) [Stdout (sync_line (outputForSync r))] (syncExit r) p1 s1 = (x, out, p', s')"
      using 3(3) by (simp add: run r)
    have "x = ExitSuccess \<longrightarrow> res_Outcome r = OutcomeSuccess"
      using e by (auto simp: print_end_def syncExit_def exit_defs split: if_splits Outcome.splits)
    with print_end_ends [OF e syncExit_ok] 3(1,2) run r show ?thesis by blast
  next
    case False
    with 3(3) run have "(x, out, p', s') = failed_end ''synchronization failed'' p1 s1" by (auto split: sum.splits)
    then have "x = ExitOperational" "p' = p1" "s' = s1" by (simp_all add: failed_end_def)
    with 3(1,2) run show ?thesis by (auto simp: exit_defs exit_ok_def)
  qed
qed (simp_all add: usage_end_def config_end_def)

lemma pruneCommand_end:
  assumes "pruneCommand pg args p s = (x, out, p', s')"
  shows "exit_ok x \<and> s' = s \<and>
    (p' = p \<or> (\<exists>got. flag_Parse (config_flag(''confirm'' \<mapsto> StringFlag, ''json'' \<mapsto> BoolFlag)) args Map.empty = Some (got, []) \<and>
        flag_string got ''confirm'' [] = PruneConfirmation))"
  using assms unfolding pruneCommand_def
proof (cases rule: with_config_cases)
  case (3 got rest cfg)
  let ?confirmed = "flag_string got ''confirm'' [] = PruneConfirmation"
  obtain res p1 where run: "PruneCLI (sx_Operator (pg_Sync pg)) cfg ?confirmed (pg_Now pg) (sx_Migrated (pg_Sync pg)) p = (res, p1)"
    by (rule prod.exhaust)
  have "p1 = p" if "\<not> ?confirmed" using run that by (auto simp: PruneCLI_def split: sum.splits if_splits)
  moreover have "exit_ok x \<and> p' = p1 \<and> s' = s"
  proof (cases "\<exists>r. res = Inr r \<and> PruneResult_Validate r")
    case True
    then obtain r where r: "res = Inr r" "PruneResult_Validate r" by blast
    have "print_end pg (flag_bool got ''json'') (DocPrune (prune_mode ?confirmed r) r) [Stdout (prune_line (prune_mode ?confirmed r) r)]
        (if cpr_OwnershipConflicts r > 0 then ExitOwnership else ExitSuccess) p1 s = (x, out, p', s')"
      using 3(3) by (simp add: run r Let_def)
    from print_end_ends [OF this] show ?thesis by simp
  next
    case False
    with 3(3) run have "(x, out, p', s') = failed_end ''prune unavailable'' p1 s" by (auto simp: Let_def split: sum.splits)
    then show ?thesis by (simp add: failed_end_def)
  qed
  ultimately show ?thesis using 3(1,2) by blast
qed (simp_all add: usage_end_def config_end_def)

lemma runCommand_end: "runCommand pg args p s = (x, out, p', s') \<Longrightarrow> exit_ok x"
  unfolding runCommand_def
  by (erule with_config_cases) (auto simp: usage_end_def config_end_def split: prod.splits if_splits)

lemma exit_ok_iff: "exit_ok x \<longleftrightarrow> x \<in> {0, 1, 2, 3, 4}"
  by (auto simp: exit_ok_def)

lemma syncCommand_cases:
  assumes ro: "\<And>g. sq_OpenReadOnly (oe_SQLite (sx_Operator (pg_Sync pg))) (Regular g) = Some g"
    and "syncCommand pg rest p s = (x, out, p', s')"
  obtains (rejected) "p' = p" "s' = s" "x = ExitUsage"
  | (ran) got cfg request res where "exit_ok x"
      "flag_Parse (config_flag(''dry-run'' \<mapsto> BoolFlag, ''feed'' \<mapsto> StringFlag, ''json'' \<mapsto> BoolFlag)) rest Map.empty = Some (got, [])"
      "SyncCLI (pg_Sync pg) cfg request p s = (res, p', s')"
      "x = ExitSuccess \<longrightarrow> (\<exists>r. res = Inr r \<and> res_Outcome r = OutcomeSuccess)"
      "flag_bool got ''dry-run'' \<longrightarrow> p' = p \<and> (\<lambda>s s'. \<exists>request. s' = snd (sx_Fetch (pg_Sync pg) request s))\<^sup>*\<^sup>* s s'"
  using syncCommand_end [OF assms(2)]
proof (elim conjE disjE exE)
  fix got cfg res
  assume "exit_ok x" and parsed: "flag_Parse (config_flag(''dry-run'' \<mapsto> BoolFlag, ''feed'' \<mapsto> StringFlag, ''json'' \<mapsto> BoolFlag)) rest Map.empty = Some (got, [])"
    and run: "SyncCLI (pg_Sync pg) cfg \<lparr>csr_DryRun = flag_bool got ''dry-run'', csr_Feed = flag_string got ''feed'' []\<rparr> p s = (res, p', s')"
    and "x = ExitSuccess \<longrightarrow> (\<exists>r. res = Inr r \<and> res_Outcome r = OutcomeSuccess)"
  with ran [OF _ parsed run] SyncCLI_dry_quiet [OF ro run] show thesis by auto
qed (rule rejected)

lemma Execute_cases:
  assumes exec: "Execute pg args p s = (x, out, p', s')"
  obtains (quiet) "quiet_end p s (x, out, p', s')" "\<forall>rest. args \<noteq> ''sync'' # rest"
  | (run) rest where "args = ''run'' # rest" "exit_ok x"
  | (sync) rest where "args = ''sync'' # rest" "syncCommand pg rest p s = (x, out, p', s')"
  | (prune) rest where "args = ''prune'' # rest" "pruneCommand pg rest p s = (x, out, p', s')"
proof (cases args)
  case Nil
  then have "quiet_end p s (Execute pg args p s)" by (simp add: Execute_def)
  with Nil exec quiet show thesis by simp
next
  case (Cons c rest)
  consider "c = ''run''" | "c = ''sync''" | "c = ''prune''" | "c \<notin> {''run'', ''sync'', ''prune''}" by blast
  then show thesis
  proof cases
    case 1
    with exec Cons have "runCommand pg rest p s = (x, out, p', s')" by (simp add: Execute_def)
    then have "exit_ok x" by (rule runCommand_end)
    with 1 Cons run show thesis by simp
  next
    case 2
    with exec Cons sync show thesis by (simp add: Execute_def)
  next
    case 3
    with exec Cons prune show thesis by (simp add: Execute_def)
  next
    case 4
    have "quiet_end p s (Execute pg args p s)"
      using 4 Cons by (simp add: Execute_def read_commands_quiet)
    with 4 Cons exec quiet show thesis by simp
  qed
qed

subsection \<open>Properties\<close>

text \<open>C6. The contract of the command line, for every list of arguments. It exits with one of the five documented codes.
  The database file changes only under \<^verbatim>\<open>run\<close>, under \<^verbatim>\<open>sync\<close> without \<^verbatim>\<open>--dry-run\<close>, and under \<^verbatim>\<open>prune\<close> with the exact
  confirmation token; the outside changes only under \<^verbatim>\<open>run\<close> and \<^verbatim>\<open>sync\<close>, and under \<^verbatim>\<open>sync --dry-run\<close> only through
  the fetcher. A \<^verbatim>\<open>sync\<close> that exits with success has run and its result is a success. The driver is any
  that opens an existing file as it is.\<close>

theorem Execute_contract:
  assumes ro: "\<And>g. sq_OpenReadOnly (oe_SQLite (sx_Operator (pg_Sync pg))) (Regular g) = Some g"
    and exec: "Execute pg args p s = (x, out, p', s')"
  shows "x \<in> {0, 1, 2, 3, 4} \<and>
    (p' = p \<or> (\<exists>rest. args = ''run'' # rest) \<or>
      (\<exists>rest got. args = ''sync'' # rest \<and> \<not> flag_bool got ''dry-run'' \<and>
         flag_Parse (config_flag(''dry-run'' \<mapsto> BoolFlag, ''feed'' \<mapsto> StringFlag, ''json'' \<mapsto> BoolFlag)) rest Map.empty = Some (got, [])) \<or>
      (\<exists>rest got. args = ''prune'' # rest \<and> flag_string got ''confirm'' [] = PruneConfirmation \<and>
         flag_Parse (config_flag(''confirm'' \<mapsto> StringFlag, ''json'' \<mapsto> BoolFlag)) rest Map.empty = Some (got, []))) \<and>
    (s' = s \<or> (\<exists>rest. args = ''run'' # rest) \<or>
      (\<exists>rest got. args = ''sync'' # rest \<and>
         flag_Parse (config_flag(''dry-run'' \<mapsto> BoolFlag, ''feed'' \<mapsto> StringFlag, ''json'' \<mapsto> BoolFlag)) rest Map.empty = Some (got, []) \<and>
         (flag_bool got ''dry-run'' \<longrightarrow> (\<lambda>s s'. \<exists>request. s' = snd (sx_Fetch (pg_Sync pg) request s))\<^sup>*\<^sup>* s s'))) \<and>
    (\<forall>rest. args = ''sync'' # rest \<and> x = 0 \<longrightarrow>
      (\<exists>cfg request r. SyncCLI (pg_Sync pg) cfg request p s = (Inr r, p', s') \<and> res_Outcome r = OutcomeSuccess))"
  using exec
proof (cases rule: Execute_cases)
  case quiet
  then show ?thesis by (simp add: exit_ok_iff)
next
  case (run rest)
  then show ?thesis by (simp add: exit_ok_iff)
next
  case (sync rest)
  from ro sync(2) show ?thesis
  proof (cases rule: syncCommand_cases)
    case rejected
    then show ?thesis using sync(1) by (simp add: ExitUsage_def)
  next
    case (ran got cfg request res)
    have "x = 0 \<longrightarrow> (\<exists>cfg request r. SyncCLI (pg_Sync pg) cfg request p s = (Inr r, p', s') \<and> res_Outcome r = OutcomeSuccess)"
      using ran(3,4) by (auto simp: ExitSuccess_def)
    moreover have "x \<in> {0, 1, 2, 3, 4}" using ran(1) exit_ok_iff by blast
    ultimately show ?thesis using sync(1) ran(2,5) by blast
  qed
next
  case (prune rest)
  from pruneCommand_end [OF prune(2)] show ?thesis using prune(1) by (auto simp: exit_ok_iff)
qed

definition sample_program :: "unit program" where
  "sample_program =
     \<lparr>pg_Load = (\<lambda>path. Some sample_config), pg_Sync = sample_sync_cli sample_operator sample_lapi_client, pg_Now = 2000 * second,
      pg_Service = (\<lambda>cfg p s. (True, p, s)), pg_Version = ''dev'', pg_FormatRFC3339 = (\<lambda>t. ''2026-01-01T00:00:00Z''),
      pg_EncodeOk = True, pg_ParseURL = (\<lambda>raw. None), pg_Get = (\<lambda>url timeout. None), pg_ParseMediaType = (\<lambda>v. None)\<rparr>"

theorem Execute_contract_witness:
  "\<exists>x out. Execute sample_program [''status'', ''--json''] (Regular sample_db_file) (lapi_initial ()) =
     (x, out, Regular sample_db_file, lapi_initial ())"
proof -
  obtain x out p' s' where run:
    "Execute sample_program [''status'', ''--json''] (Regular sample_db_file) (lapi_initial ()) = (x, out, p', s')"
    by (rule prod_cases4)
  have "sq_OpenReadOnly (oe_SQLite (sx_Operator (pg_Sync sample_program))) (Regular g) = Some g" for g
    by (simp add: sample_program_def sample_sync_cli_def sample_operator_def sample_db_driver_def)
  from Execute_contract [OF this run] have "p' = Regular sample_db_file" "s' = lapi_initial ()" by auto
  with run show ?thesis by blast
qed

end
