(* ===== verification/Spec2Isabelle.thy ===== *)
theory Spec2Isabelle
  imports Syncer_Facts Config_Facts App_Job_Facts App_Runtime_Facts App_Observer Fetcher_Facts LAPI_Wire Health Scheduler Notify_History Feed_Spamhaus
    Operator_Maintenance Operator_Sync_Facts CLI_Facts
begin

text \<open>
  Crowdshield (\<^verbatim>\<open>src/\<close>) downloads lists of networks, checks them, and keeps the decisions of a CrowdSec local API in step
  with them. This development models its Go code as executable functions and proves what makes it safe and correct. This
  root theory only gathers the others; every property is in the theory of its component, marked there C1 to C40 and
  listed in the manifest.

  \<^bold>\<open>The program.\<close> A command line (\<^verbatim>\<open>internal/cli\<close>) loads the configuration (\<^verbatim>\<open>internal/config\<close>) and starts an operator
  command or the service (\<^verbatim>\<open>internal/app\<close>). The service is a runtime with two workers: the scheduler
  (\<^verbatim>\<open>internal/scheduler\<close>), which runs the synchronization job, and an HTTP server for readiness and metrics. A
  synchronization (\<^verbatim>\<open>internal/syncer\<close>) fetches, parses and validates each feed that is due (\<^verbatim>\<open>internal/feed\<close>), stores accepted
  snapshots (\<^verbatim>\<open>internal/state\<close>), turns the active entries into enforcement objects (\<^verbatim>\<open>internal/network\<close>) and
  reconciles them with the local API (\<^verbatim>\<open>internal/reconcile\<close>) through its client (\<^verbatim>\<open>internal/lapi\<close>). The result goes to the history
  in the store, the metrics (\<^verbatim>\<open>internal/metrics\<close>), the readiness tracker (\<^verbatim>\<open>internal/health\<close>), the log
  (\<^verbatim>\<open>internal/logsafe\<close>) and the notification manager (\<^verbatim>\<open>internal/notify\<close>), in the vocabulary of \<^verbatim>\<open>internal/ops\<close>.

  \<^bold>\<open>The theories, bottom up.\<close>

  \<^item> Language and standard library: \<open>CS_Prelude\<close> (64-bit integers, times, comparators and sorting), \<open>Go_Strings\<close>,
    \<open>Go_Time_Text\<close> (\<^verbatim>\<open>ParseDuration\<close>, RFC 3339, rounding of \<^verbatim>\<open>float64\<close>), \<open>Sha256\<close>, \<open>Go_JSON\<close> (the decoder of
    \<^verbatim>\<open>encoding/json\<close>), \<open>Netip\<close> and \<open>Netip_Text\<close> (\<^verbatim>\<open>net/netip\<close>, with the round trip of prefixes through text).
  \<^item> \<open>Network\<close> (\<^verbatim>\<open>internal/network\<close>): normalisation, the table of special ranges, \<open>BuildDesired\<close>. A desired object touches no
    special or allowlisted address (C1), no accepted address loses its cover (C2), which objects are desired (C33), and the result
    does not depend on the iteration order of a Go map (C34).
  \<^item> \<open>Ops\<close> (\<^verbatim>\<open>internal/ops\<close>): results, events and their validation.
  \<^item> \<open>Store_Schema\<close> and the repositories of \<^verbatim>\<open>internal/state\<close>: \<open>Store_Feeds\<close> (C31, C32), \<open>Store_Enforcement\<close> with the facts
    on its journal in \<open>Store_Journal\<close> (C14, C19), \<open>Store_Sync\<close> (C35), \<open>Store_Prune\<close> (C20), \<open>Store_Notify\<close>, \<open>Store_Open\<close> for the
    migrations and the two ways to open the file (C18). The database is a record of tables, a table a list of rows, and an
    operation gives a result and the database after it; a transaction that fails gives back the database it began with.
    \<open>Store_Steps\<close> has one rule for each operation: all reachable databases satisfy the invariant of every table, in which each reference, the
    link of a replaced decision to its successor included, points to a row (C7), and operations and decisions move along their life cycle
    only; finished ones never change their status (C8).
  \<^item> \<open>Feed_Types\<close>, \<open>Feed\<close>, \<open>Feed_Facts\<close>, \<open>Feed_Spamhaus\<close> (\<^verbatim>\<open>parser.go\<close>, \<^verbatim>\<open>validate.go\<close>): what the parsers accept (C37), round
    trips of both formats (C29, C30), the exact content of an accepted snapshot (C25).
  \<^item> \<open>Fetcher\<close>, \<open>Fetcher_Facts\<close> (\<^verbatim>\<open>fetcher.go\<close>): a download reaches public addresses only and stays within its bounds, whatever the
    resolver and the servers answer (C13).
  \<^item> \<open>LAPI_Types\<close>, \<open>Reconcile\<close>, \<open>Reconcile_Effects\<close>: for every behaviour of the local API a run creates alerts only under journalled
    tokens and expires only decisions whose ownership was just proved (C3), and changes the database by store
    operations only (C4). \<open>LAPI_Client\<close>, \<open>LAPI_Client_Facts\<close>, \<open>LAPI_Wire\<close>: the requests of the client (C21) and what a
    reconciliation over it puts on the wire (C5).
  \<^item> \<open>Config\<close>, \<open>Config_Facts\<close>, \<open>Config_Env\<close>: validation is a normal form for hosts without a zone (C40), and what a configuration
    that loads owes to its file and to the environment (C24). \<open>Machine_Credentials\<close>: the file of the machine's login.
  \<^item> \<open>Syncer\<close>, \<open>Syncer_Facts\<close>: a feed that did not succeed keeps its last good entries (C9), a preview agrees with the run (C10), and
    a run is a sequence of store operations that accounts for every feed (C11).
  \<^item> \<open>Metrics\<close> (C38), \<open>Health\<close> (C27), \<open>Notify\<close> and \<open>Notify_History\<close> (C26): the state after any history of results is the one a
    specification over that history demands. \<open>Scheduler\<close>: bounded retries (C28) and the next deadline (C36).
  \<^item> \<open>App_Result\<close>, \<open>App_Job\<close>, \<open>App_Job_Facts\<close> (C15), \<open>App_Observer\<close> (C39), \<open>App_Runtime\<close>, \<open>App_Runtime_Facts\<close>: the service;
    its goroutines are a step relation, and shutdown is safe and makes progress over all interleavings (C16), resources
    are released once and in order (C17).
  \<^item> \<open>Operator_Read\<close>, \<open>Operator_Read_Facts\<close> (C23), \<open>Operator_Maintenance\<close> (C22), \<open>Operator_Sync\<close>, \<open>Operator_Sync_Facts\<close> (C12),
    \<open>CLI\<close>, \<open>CLI_Facts\<close> (C6): the commands, composed from all of the above.

  \<^bold>\<open>Interfaces.\<close> \<open>cmp_order\<close> states what a comparator owes a sort; it is interpreted on the comparators of addresses, entries,
  contributors and objects. \<open>row_scanner\<close> is the loop over the rows of a query; every listing of the repositories interprets it.
  \<open>reconcile_effects\<close> is a relation between states that is closed under the calls of the reconciler; its interpretations are the
  database (C4, C9), the trace of calls (C3) and the wire (C5). \<open>delivery_store\<close> is what the notification manager relies
  on; the repository of \<^verbatim>\<open>internal/state\<close> interprets it.

  \<^bold>\<open>Parameters.\<close> What lies outside the sources is an argument: \<^verbatim>\<open>url.Parse\<close> and the parsers of \<^verbatim>\<open>net/http\<close> and \<^verbatim>\<open>mime\<close>,
  the YAML decoder, \<^verbatim>\<open>strconv.ParseFloat\<close>, the printing of time stamps, the SQLite driver and the text of the migrations, file system,
  environment, clock, randomness, resolver, dialer and remote servers, the local API, the notification transport. Except where a theorem
  names a hypothesis, it holds for all of them.

  \<^bold>\<open>Bounds and fuel.\<close> The JSON decoder recurses on a number that starts at twice the length of the text plus two, which is enough
  since each two nested calls consume a byte (\<open>json_bound_all\<close>); its depth bound is the one of Go. \<open>run_loop\<close> of the scheduler takes the number of
  cycles, as the source loops until its context ends. The search for a deadline is a partial function in the option
  type, and C36 proves that it returns. The redirect loop ends because the policy of the source bounds it. Integers of Go are 64-bit words
  or \<open>int\<close> with the bounds written out; counters saturate as in the source.

  \<^bold>\<open>Idealisations.\<close> Faults of SQLite (I/O errors, a busy database) and cancellation inside a statement are left out; a scope and the closed text columns
  of the tables are datatypes, so a row with any other text does not arise, and neither does a request with such a scope.
  \<open>ToLower\<close> folds ASCII and the two other letters that fold to ASCII. The fan-out of events has the two observers that
  \<^verbatim>\<open>production.go\<close> registers. A rounding of \<^verbatim>\<open>float64\<close> has an unbounded exponent. The field an error names and the wrapped
  cause are dropped where no caller looks at them.

  \<^bold>\<open>Not modelled.\<close> The wiring in \<^verbatim>\<open>app/production.go\<close> and \<^verbatim>\<open>cmd/crowdshield/main.go\<close>, which only constructs parts; the HTTP handlers and
  the server of \<^verbatim>\<open>health\<close>, the HTTP transport and the texts of notices in \<^verbatim>\<open>notify\<close>, the Prometheus text of \<^verbatim>\<open>metrics\<close> and the
  JSON of \<^verbatim>\<open>log/slog\<close>, which are output; the YAML methods of \<^verbatim>\<open>config\<close> and the overwriting of secrets in memory; \<^verbatim>\<open>buildinfo\<close>; the mock of
  the local API, which is for tests.
\<close>

end
